(* ===== verification/Prelude.thy ===== *)
theory Prelude
  imports Main "HOL-Library.Word"
begin

text \<open>
  Shared ground of the development: machine integers, the environment of calls that leave the
  agent (locks, the allocator, the clock, the other libraries), and the two code patterns that
  many components repeat.

  An \<open>env\<close> carries one oracle per kind of call; the \<open>n\<close>-th call of a run asks the oracle at
  \<open>n\<close> and moves the counter \<open>tick\<close> on.  Theorems quantify over all oracles, so every
  combination of lock failures, failed allocations and clock readings is covered; \<open>castOut\<close> is
  what the platform makes of a double that does not fit \<open>int32_t\<close>, undefined in C; \<open>sysInt\<close> and
  \<open>sysBytes\<close> answer calls that deliver a number (an \<open>errno\<close>, a count, a status code) or a text
  (NULL or failure is \<open>None\<close>).  Components
  extend the record with their own state, and their operations are polymorphic in the rest of
  it.  The flag \<open>fault\<close> is raised by an access the C program must not make (a NULL or dangling
  pointer); memory safety of an operation is the theorem that it leaves the flag down.
\<close>

section \<open>Machine integers\<close>

type_synonym u32 = "32 word"
type_synonym time_t = int

named_theorems sys_defs \<open>definitions of the calls to the environment\<close>
named_theorems unat_simps \<open>unsigned readings of word arithmetic that does not wrap\<close>

definition UINT32_MAX :: u32 where
  "UINT32_MAX = 4294967295"

lemma u32_less: "unat (x :: u32) < 4294967296"
  using unsigned_less [of x, where ?'a = nat] by simp

lemma u32_le: "unat (x :: u32) \<le> 4294967295"
  using u32_less [of x] by simp

lemma unat_add_u32 [unat_simps]:
  "unat (a :: u32) + unat b < 4294967296 \<Longrightarrow> unat (a + b) = unat a + unat b"
  by (simp add: unat_word_ariths)

lemma unat_mult_u32 [unat_simps]:
  "unat (a :: u32) * unat b < 4294967296 \<Longrightarrow> unat (a * b) = unat a * unat b"
  by (simp add: unat_word_ariths)

lemma unat_sub_u32 [unat_simps]:
  "b \<le> (a :: u32) \<Longrightarrow> unat (a - b) = unat a - unat b"
  by (simp add: unat_sub)

lemma unat_of_nat_u32 [unat_simps]:
  "n < 4294967296 \<Longrightarrow> unat (of_nat n :: u32) = n"
  by (simp add: unat_of_nat)

lemma unat_pred_u32 [unat_simps]:
  "(n :: u32) \<noteq> 0 \<Longrightarrow> unat (n - 1) = unat n - 1"
  by (simp add: unat_minus_one)

section \<open>The environment\<close>

record env =
  lockOk :: "nat \<Rightarrow> bool"
  allocOk :: "nat \<Rightarrow> bool"
  extOk :: "nat \<Rightarrow> bool"
  clock :: "nat \<Rightarrow> time_t"
  castOut :: "int \<Rightarrow> u32"
  sysInt :: "nat \<Rightarrow> int"
  sysBytes :: "nat \<Rightarrow> string option"
  tick :: nat
  fault :: bool

definition next_tick :: "'a env_scheme \<Rightarrow> 'a env_scheme" where
  "next_tick w = w\<lparr>tick := Suc (tick w)\<rparr>"

definition sys_lock :: "'a env_scheme \<Rightarrow> bool \<times> 'a env_scheme" where
  "sys_lock w = (lockOk w (tick w), next_tick w)"

definition sys_malloc :: "'a env_scheme \<Rightarrow> bool \<times> 'a env_scheme" where
  "sys_malloc w = (allocOk w (tick w), next_tick w)"

definition sys_ext :: "'a env_scheme \<Rightarrow> bool \<times> 'a env_scheme" where
  "sys_ext w = (extOk w (tick w), next_tick w)"

definition sys_time :: "'a env_scheme \<Rightarrow> time_t \<times> 'a env_scheme" where
  "sys_time w = (clock w (tick w), next_tick w)"

definition sys_int :: "'a env_scheme \<Rightarrow> int \<times> 'a env_scheme" where
  "sys_int w = (sysInt w (tick w), next_tick w)"

definition sys_bytes :: "'a env_scheme \<Rightarrow> string option \<times> 'a env_scheme" where
  "sys_bytes w = (sysBytes w (tick w), next_tick w)"

lemmas sys_simps [sys_defs] =
  sys_lock_def sys_malloc_def sys_ext_def sys_time_def sys_int_def sys_bytes_def next_tick_def

text \<open>A run in which every call succeeds; the witnesses of the theorems start from it.\<close>

definition calm :: env where
  "calm = \<lparr>lockOk = (\<lambda>_. True), allocOk = (\<lambda>_. True), extOk = (\<lambda>_. True), clock = (\<lambda>_. 0),
     castOut = (\<lambda>_. 0), sysInt = (\<lambda>_. 0), sysBytes = (\<lambda>_. Some []), tick = 0, fault = False\<rparr>"

section \<open>Lock, work, unlock\<close>

text \<open>
  The pattern of every synchronised operation of the agent: give up with \<open>e\<close> when the lock
  cannot be taken; run the body; when the unlock fails, the effects of the body stay and the
  result becomes \<open>f r\<close>.
\<close>

definition locked ::
  "'r \<Rightarrow> ('r \<Rightarrow> 'r) \<Rightarrow> ('a env_scheme \<Rightarrow> 'r \<times> 'a env_scheme) \<Rightarrow> 'a env_scheme \<Rightarrow> 'r \<times> 'a env_scheme" where
  "locked e f body w =
     (let (ok, w1) = sys_lock w in
      if \<not> ok then (e, w1)
      else let (r, w2) = body w1; (ok2, w3) = sys_lock w2 in
        if \<not> ok2 then (f r, w3) else (r, w3))"

text \<open>The environment in which no lock call fails.\<close>

definition locks_work :: "'a env_scheme \<Rightarrow> bool" where
  "locks_work w \<longleftrightarrow> (\<forall>n. lockOk w n)"

text \<open>Everything but the call counter agrees: the frame of a call that only consults an oracle.\<close>

definition ticked :: "'a env_scheme \<Rightarrow> 'a env_scheme \<Rightarrow> bool" where
  "ticked w w' \<longleftrightarrow> (\<exists>n. w' = w\<lparr>tick := n\<rparr>)"

lemma ticked_refl [intro!, simp]: "ticked w w"
  unfolding ticked_def by (rule exI [of _ "tick w"]) simp

lemma ticked_trans: "ticked w w1 \<Longrightarrow> ticked w1 w2 \<Longrightarrow> ticked w w2"
  by (auto simp: ticked_def)

lemma ticked_sys [simp]:
  "ticked w (snd (sys_lock w))" "ticked w (snd (sys_malloc w))"
  "ticked w (snd (sys_ext w))" "ticked w (snd (sys_time w))"
  "ticked w (snd (sys_int w))" "ticked w (snd (sys_bytes w))"
  by (auto simp: ticked_def sys_defs)

text \<open>The same with the fault flag free as well.\<close>

definition noted :: "'a env_scheme \<Rightarrow> 'a env_scheme \<Rightarrow> bool" where
  "noted w w' \<longleftrightarrow> (\<exists>n b. w' = w\<lparr>tick := n, fault := b\<rparr>)"

lemma noted_refl [intro!, simp]: "noted w w"
  unfolding noted_def by (rule exI [of _ "tick w"], rule exI [of _ "fault w"]) simp

lemma noted_trans [trans]: "noted w w1 \<Longrightarrow> noted w1 w2 \<Longrightarrow> noted w w2"
  unfolding noted_def by (elim exE) (simp, blast)

lemma ticked_noted: "ticked w w' \<Longrightarrow> noted w w'"
proof -
  assume "ticked w w'"
  then obtain n where "w' = w\<lparr>tick := n, fault := fault w\<rparr>" by (auto simp: ticked_def)
  then show ?thesis unfolding noted_def by blast
qed

lemma noted_fault: "noted w w' \<Longrightarrow> noted w (w'\<lparr>fault := b\<rparr>)"
  unfolding noted_def by (elim exE) (simp, blast)

text \<open>
  A locked body runs in a state that differs from the start by the counter only, and either it
  does not run at all or the final state differs from what it leaves by the counter only.
\<close>

lemma locked_cases:
  assumes "locked e f body w = (r, w')"
  obtains (no_lock) "r = e" "ticked w w'"
    | (unlock_failed) r0 w1 w2 where "ticked w w1" "body w1 = (r0, w2)" "ticked w2 w'" "r = f r0"
    | (completed) w1 w2 where "ticked w w1" "body w1 = (r, w2)" "ticked w2 w'"
  using assms
  by (auto simp: locked_def Let_def split_beta split: if_splits)
     (metis prod.collapse ticked_sys(1))+

lemma snd_sys [simp]:
  "snd (sys_lock w) = next_tick w" "snd (sys_malloc w) = next_tick w" "snd (sys_ext w) = next_tick w"
  "snd (sys_time w) = next_tick w" "snd (sys_int w) = next_tick w" "snd (sys_bytes w) = next_tick w"
  by (simp_all add: sys_defs)

lemma ticked_next [simp]: "ticked w (next_tick w)"
  by (auto simp: ticked_def next_tick_def)

text \<open>
  A relation that holds across a counter step and across the body holds across the locked body,
  whatever the locks do.
\<close>

lemma locked_rel:
  assumes "\<And>w w'. ticked w w' \<Longrightarrow> R w w'" and "\<And>a b c. R a b \<Longrightarrow> R b c \<Longrightarrow> R a c"
    and "\<And>w1. ticked w w1 \<Longrightarrow> R w1 (snd (body w1))"
  shows "R w (snd (locked e f body w))"
proof -
  let ?b = "snd (body (next_tick w))"
  have "R w ?b" by (rule assms(2) [OF assms(1) assms(3)]) simp_all
  moreover from this have "R w (next_tick ?b)" by (rule assms(2)) (rule assms(1), simp)
  ultimately show ?thesis
    by (auto simp: locked_def Let_def split_beta intro: assms(1))
qed

lemma locked_success:
  assumes "locks_work w" and "\<And>w1. ticked w w1 \<Longrightarrow> locks_work (snd (body w1))"
  shows "locked e f body w =
    (fst (body (next_tick w)), next_tick (snd (body (next_tick w))))"
  using assms(1) assms(2) [of "next_tick w"]
  by (auto simp: locked_def Let_def split_beta sys_defs locks_work_def ticked_def)

end
