(* ===== verification/C_Lib.thy ===== *)
theory C_Lib
  imports Prelude
begin

text \<open>
  The part of the C library the agent's parsing and printing code relies on, on strings
  without their terminating NUL: character classes, \<open>strchr\<close>, \<open>strncmp\<close>, \<open>strtol\<close>, the
  \<open>%u\<close> and \<open>%c\<close> conversions of \<open>sscanf\<close>, and the \<open>%u\<close>, \<open>%d\<close> conversions of the
  \<open>printf\<close> family.  The model is the C locale on a 64-bit platform: \<open>long\<close> has 64 bits, and
  an unsigned conversion saturates at \<open>ULONG_MAX\<close> and is then cut to 32 bits, as glibc does.
\<close>

section \<open>Characters\<close>

definition code_of :: "char \<Rightarrow> nat" where
  "code_of c = of_char c"

definition isspace :: "char \<Rightarrow> bool" where
  "isspace c \<longleftrightarrow> (9 \<le> code_of c \<and> code_of c \<le> 13) \<or> code_of c = 32"

definition isdigit :: "char \<Rightarrow> bool" where
  "isdigit c \<longleftrightarrow> 48 \<le> code_of c \<and> code_of c \<le> 57"

definition tolower :: "char \<Rightarrow> char" where
  "tolower c = (if 65 \<le> code_of c \<and> code_of c \<le> 90 then char_of (code_of c + 32) else c)"

definition digit_char :: "nat \<Rightarrow> char" where
  "digit_char d = char_of (48 + d)"

definition digit_val :: "char \<Rightarrow> nat" where
  "digit_val c = code_of c - 48"

lemma code_of_digit_char [simp]: "d < 10 \<Longrightarrow> code_of (digit_char d) = 48 + d"
  by (simp add: code_of_def digit_char_def)

lemma digit_char_props [simp]:
  assumes "d < 10"
  shows "isdigit (digit_char d)" "digit_val (digit_char d) = d" "\<not> isspace (digit_char d)"
  using assms by (simp_all add: isdigit_def digit_val_def isspace_def)

lemma digit_char_not_sign [simp]:
  assumes "d < 10"
  shows "digit_char d \<noteq> CHR ''-''" "digit_char d \<noteq> CHR ''+''"
proof -
  have "code_of CHR ''-'' = 45" "code_of CHR ''+'' = 43" by (simp_all add: code_of_def)
  then show "digit_char d \<noteq> CHR ''-''" "digit_char d \<noteq> CHR ''+''"
    using code_of_digit_char [OF assms] by force+
qed

section \<open>Decimal numerals\<close>

fun nat_to_dec :: "nat \<Rightarrow> string" where
  "nat_to_dec n = (if n < 10 then [digit_char n] else nat_to_dec (n div 10) @ [digit_char (n mod 10)])"

declare nat_to_dec.simps [simp del]

definition int_to_dec :: "int \<Rightarrow> string" where
  "int_to_dec i = (if i < 0 then CHR ''-'' # nat_to_dec (nat (- i)) else nat_to_dec (nat i))"

definition dec_value :: "string \<Rightarrow> nat" where
  "dec_value ds = foldl (\<lambda>n c. 10 * n + digit_val c) 0 ds"

lemma nat_to_dec_nonempty [simp]: "nat_to_dec n \<noteq> []"
  by (subst nat_to_dec.simps) simp

lemma nat_to_dec_digits: "c \<in> set (nat_to_dec n) \<Longrightarrow> isdigit c"
proof (induction n rule: nat_to_dec.induct)
  case (1 n)
  then show ?case
    by (cases "n < 10") (auto simp: nat_to_dec.simps [of n])
qed

lemma dec_value_nat_to_dec [simp]: "dec_value (nat_to_dec n) = n"
proof (induction n rule: nat_to_dec.induct)
  case (1 n)
  then show ?case
    by (cases "n < 10") (simp_all add: nat_to_dec.simps [of n] dec_value_def)
qed

lemma nat_to_dec_hd:
  obtains d ds where "nat_to_dec n = d # ds" "isdigit d" "\<not> isspace d" "d \<noteq> CHR ''-''" "d \<noteq> CHR ''+''"
proof -
  obtain d ds where d: "nat_to_dec n = d # ds" by (cases "nat_to_dec n") auto
  then have "isdigit d" using nat_to_dec_digits [of d n] by simp
  moreover from this have "\<not> isspace d" by (simp add: isdigit_def isspace_def)
  moreover from \<open>isdigit d\<close> have "d \<noteq> CHR ''-''" "d \<noteq> CHR ''+''"
    by (auto simp: isdigit_def code_of_def)
  ultimately show ?thesis using d that by blast
qed

lemma length_nat_to_dec_le: "n < 10 ^ k \<Longrightarrow> 0 < k \<Longrightarrow> length (nat_to_dec n) \<le> k"
proof (induction k arbitrary: n)
  case 0
  then show ?case by simp
next
  case (Suc k)
  show ?case
  proof (cases "n < 10")
    case True
    then show ?thesis by (simp add: nat_to_dec.simps)
  next
    case False
    then have "0 < k" using Suc.prems by (cases k) auto
    moreover have "n div 10 < 10 ^ k" using Suc.prems by (simp add: less_mult_imp_div_less)
    ultimately have "length (nat_to_dec (n div 10)) \<le> k" by (intro Suc.IH)
    with False show ?thesis by (simp add: nat_to_dec.simps [of n])
  qed
qed

lemma length_nat_to_dec_2 [simp]: "n < 100 \<Longrightarrow> length (nat_to_dec n) \<le> 2"
  using length_nat_to_dec_le [of n 2] by simp

section \<open>Strings\<close>

definition strchr :: "string \<Rightarrow> char \<Rightarrow> string option" where
  "strchr s c = (case dropWhile (\<lambda>x. x \<noteq> c) s of [] \<Rightarrow> None | r \<Rightarrow> Some r)"

text \<open>Reading one character: at the length of the string stands the terminating NUL.\<close>

definition char_at :: "string \<Rightarrow> nat \<Rightarrow> char" where
  "char_at s i = (if i < length s then s ! i else CHR 0x00)"

text \<open>\<open>strncmp\<close> and \<open>strncasecmp\<close> compare up to \<open>n\<close> characters, the NUL included.\<close>

definition strncmp_eq :: "string \<Rightarrow> string \<Rightarrow> nat \<Rightarrow> bool" where
  "strncmp_eq a b n \<longleftrightarrow> take n (a @ [CHR 0x00]) = take n (b @ [CHR 0x00])"

definition strncasecmp_eq :: "string \<Rightarrow> string \<Rightarrow> nat \<Rightarrow> bool" where
  "strncasecmp_eq a b n \<longleftrightarrow> strncmp_eq (map tolower a) (map tolower b) n"

lemma strncmp_eq_length: "length a = length b \<Longrightarrow> strncmp_eq a b (length b) \<longleftrightarrow> a = b"
  by (simp add: strncmp_eq_def)

section \<open>The conversions of sscanf\<close>

definition ULONG_MAX :: nat where
  "ULONG_MAX = 18446744073709551615"

definition u32_of_scan :: "bool \<Rightarrow> nat \<Rightarrow> u32" where
  "u32_of_scan neg n =
     (if ULONG_MAX < n then of_nat ULONG_MAX else if neg then - of_nat n else of_nat n)"

definition scan_sign :: "string \<Rightarrow> bool \<times> string" where
  "scan_sign s = (case s of
       [] \<Rightarrow> (False, s)
     | c # cs \<Rightarrow> if c = CHR ''-'' then (True, cs) else if c = CHR ''+'' then (False, cs) else (False, s))"

definition scan_u :: "string \<Rightarrow> (u32 \<times> string) option" where
  "scan_u s =
     (let (neg, r) = scan_sign (dropWhile isspace s); ds = takeWhile isdigit r
      in if ds = [] then None else Some (u32_of_scan neg (dec_value ds), dropWhile isdigit r))"

text \<open>\<open>sscanf(s, "%u%c", &n, &c)\<close> with result 2, or \<open>None\<close> when it is not 2.\<close>

definition sscanf_uc :: "string \<Rightarrow> (u32 \<times> char) option" where
  "sscanf_uc s = (case scan_u s of
       None \<Rightarrow> None
     | Some (n, []) \<Rightarrow> None
     | Some (n, c # r) \<Rightarrow> Some (n, c))"

lemma scan_sign_suffix: "scan_sign s = (b, r) \<Longrightarrow> \<exists>p. s = p @ r"
  by (cases s) (auto simp: scan_sign_def split: if_splits)

text \<open>The character \<open>%c\<close> delivers is one of the string, so \<open>strchr\<close> finds it.\<close>

lemma sscanf_uc_mem:
  assumes "sscanf_uc s = Some (n, c)"
  shows "c \<in> set s"
proof -
  from assms obtain b r rest where r: "scan_sign (dropWhile isspace s) = (b, r)"
    and d: "dropWhile isdigit r = c # rest"
    by (auto simp: sscanf_uc_def scan_u_def Let_def split: option.splits list.splits prod.splits if_splits)
  have "c \<in> set (dropWhile isdigit r)" unfolding d by simp
  then have "c \<in> set r" by (rule set_dropWhileD)
  moreover obtain p where "dropWhile isspace s = p @ r" using scan_sign_suffix [OF r] by blast
  ultimately have "c \<in> set (dropWhile isspace s)" by simp
  then show ?thesis by (rule set_dropWhileD)
qed

lemma scan_u_dec:
  assumes "n < 4294967296" and "r = [] \<or> \<not> isdigit (hd r)"
  shows "scan_u (nat_to_dec n @ r) = Some (of_nat n, r)"
proof -
  obtain d ds where d: "nat_to_dec n = d # ds" "\<not> isspace d" "d \<noteq> CHR ''-''" "d \<noteq> CHR ''+''"
    by (rule nat_to_dec_hd)
  then have "scan_sign (dropWhile isspace (nat_to_dec n @ r)) = (False, nat_to_dec n @ r)"
    by (simp add: scan_sign_def)
  moreover have "takeWhile isdigit (nat_to_dec n @ r) = nat_to_dec n"
    using assms(2) nat_to_dec_digits [of _ n]
    by (subst takeWhile_append2) (auto simp: takeWhile_eq_Nil_iff)
  moreover have "dropWhile isdigit (nat_to_dec n @ r) = r"
    using assms(2) nat_to_dec_digits [of _ n]
    by (subst dropWhile_append2) (auto simp: dropWhile_eq_self_iff)
  ultimately show ?thesis
    using assms(1) by (simp add: scan_u_def u32_of_scan_def ULONG_MAX_def)
qed

lemma sscanf_uc_dec [simp]:
  assumes "n < 4294967296" and "\<not> isdigit c"
  shows "sscanf_uc (nat_to_dec n @ c # r) = Some (of_nat n, c)"
  using scan_u_dec [of n "c # r"] assms by (simp add: sscanf_uc_def)

lemma strchr_dec:
  assumes "\<not> isdigit c"
  shows "strchr (nat_to_dec n @ c # r) c = Some (c # r)"
proof -
  have "dropWhile (\<lambda>x. x \<noteq> c) (nat_to_dec n @ c # r) = c # r"
    using assms nat_to_dec_digits [of _ n] by (subst dropWhile_append2) auto
  then show ?thesis by (simp add: strchr_def)
qed

end
