(* ===== verification/Calendar_Time.thy ===== *)
theory Calendar_Time
  imports C_Lib
begin

text \<open>
  Calendar times as text, the part of \<^verbatim>\<open>src/agent/src/internal/time_utils.c\<close> above the durations.  The C
  library's \<open>gmtime_r\<close> and \<open>strftime\<close> are modelled for the one format the agent uses; \<open>localtime_r\<close> is
  \<open>gmtime_r\<close> after adding the offset of the time zone, which the environment answers.
\<close>

record tm =
  tm_year :: int
  tm_mon :: int
  tm_mday :: int
  tm_hour :: int
  tm_min :: int
  tm_sec :: int

text \<open>The civil date of a day counted from 1970-01-01, in the proleptic Gregorian calendar.\<close>

definition civil_from_days :: "int \<Rightarrow> int \<times> int \<times> int" where
  "civil_from_days days =
     (let z = days + 719468; era = z div 146097; doe = z mod 146097;
          yoe = (doe - doe div 1460 + doe div 36524 - doe div 146096) div 365;
          doy = doe - (365 * yoe + yoe div 4 - yoe div 100);
          mp = (5 * doy + 2) div 153;
          m = (if mp < 10 then mp + 3 else mp - 9);
          y = yoe + era * 400
      in (if m \<le> 2 then y + 1 else y, m, doy - (153 * mp + 2) div 5 + 1))"

text \<open>It fails when the year does not fit \<open>int\<close>.\<close>

definition gmtime_r :: "time_t \<Rightarrow> tm option" where
  "gmtime_r t =
     (let (y, m, d) = civil_from_days (t div 86400); s = t mod 86400 in
      if y - 1900 < - 2147483648 \<or> 2147483647 < y - 1900 then None
      else Some \<lparr>tm_year = y - 1900, tm_mon = m - 1, tm_mday = d,
                 tm_hour = s div 3600, tm_min = s mod 3600 div 60, tm_sec = s mod 60\<rparr>)"

definition localtime_r :: "time_t \<Rightarrow> 'a env_scheme \<Rightarrow> tm option \<times> 'a env_scheme" where
  "localtime_r t w = (let (offset, w1) = sys_int w in (gmtime_r (t + offset), w1))"

definition two_digits :: "int \<Rightarrow> string" where
  "two_digits n = [digit_char (nat n div 10), digit_char (nat n mod 10)]"

text \<open>\<open>DATETIME_FORMAT\<close> is \<open>%FT%TZ\<close>.\<close>

definition datetime_text :: "tm \<Rightarrow> string" where
  "datetime_text tm =
     int_to_dec (tm_year tm + 1900) @ ''-'' @ two_digits (tm_mon tm + 1) @ ''-'' @ two_digits (tm_mday tm) @ ''T''
     @ two_digits (tm_hour tm) @ '':'' @ two_digits (tm_min tm) @ '':'' @ two_digits (tm_sec tm) @ ''Z''"

text \<open>
  \<open>strftime\<close> answers 0 when the text and its NUL do not fit; the callers' buffers, which they have
  zeroed, then read as the empty text.
\<close>

definition strftime :: "u32 \<Rightarrow> tm \<Rightarrow> string" where
  "strftime outputSize tm =
     (let s = datetime_text tm in if length s + 1 \<le> unat outputSize then s else [])"

definition TimeUtils_GetTimeAsString ::
  "time_t \<Rightarrow> u32 \<Rightarrow> 'a env_scheme \<Rightarrow> (bool \<times> string \<times> u32) \<times> 'a env_scheme" where
  "TimeUtils_GetTimeAsString currentTime outputSize w =
     (let (tm, w1) = localtime_r currentTime w in
      case tm of
        None \<Rightarrow> ((False, [], outputSize), w1)
      | Some currentLocalTime \<Rightarrow>
          (let s = strftime outputSize currentLocalTime in ((True, s, of_nat (length s)), w1)))"

definition TimeUtils_GetLocalTimeAsUTCTimeAsString ::
  "time_t \<Rightarrow> u32 \<Rightarrow> 'a env_scheme \<Rightarrow> (bool \<times> string \<times> u32) \<times> 'a env_scheme" where
  "TimeUtils_GetLocalTimeAsUTCTimeAsString currentLocalTime outputSize w =
     (case gmtime_r currentLocalTime of
        None \<Rightarrow> ((False, [], outputSize), w)
      | Some currentUTCTime \<Rightarrow>
          (let s = strftime outputSize currentUTCTime in ((True, s, of_nat (length s)), w)))"

lemma time_text_ticked [simp]:
  "ticked w (snd (TimeUtils_GetTimeAsString t n w))"
  "ticked w (snd (TimeUtils_GetLocalTimeAsUTCTimeAsString t n w))"
  by (simp_all add: TimeUtils_GetTimeAsString_def TimeUtils_GetLocalTimeAsUTCTimeAsString_def localtime_r_def
      Let_def split_beta split: option.splits)

section \<open>The buffers are large enough\<close>

lemma length_two_digits [simp]: "length (two_digits n) = 2"
  by (simp add: two_digits_def)

text \<open>The callers pass 25 or 26 bytes: enough for every year of up to eight digits.\<close>

lemma strftime_fits:
  assumes "0 \<le> tm_year tm + 1900" "tm_year tm + 1900 < 100000000" "25 \<le> n"
  shows "strftime n tm = datetime_text tm"
proof -
  have "length (int_to_dec (tm_year tm + 1900)) \<le> 8"
    using assms(1,2) length_nat_to_dec_le [of "nat (tm_year tm + 1900)" 8] by (simp add: int_to_dec_def)
  then have "length (datetime_text tm) + 1 \<le> 25" by (simp add: datetime_text_def)
  moreover have "25 \<le> unat n" using assms(3) by (simp add: word_le_nat_alt)
  ultimately show ?thesis by (simp add: strftime_def Let_def)
qed

end
