(* ===== verification/Agent_Utils.thy ===== *)
theory Agent_Utils
  imports C_Lib
begin

text \<open>
  The string and number helpers of \<^verbatim>\<open>src/agent/src/utils.c\<close>.  A \<open>char*\<close> that may be NULL is a
  \<open>string option\<close>; an out parameter is part of the result; a \<open>char**\<close> cursor with the room left
  behind it is a \<open>cursor\<close>.
\<close>

section \<open>Numbers\<close>

definition INT_MAX :: int where "INT_MAX = 2147483647"
definition INT_MIN :: int where "INT_MIN = -2147483648"
definition LONG_MAX :: int where "LONG_MAX = 9223372036854775807"
definition LONG_MIN :: int where "LONG_MIN = -9223372036854775808"

definition base_digit :: "char \<Rightarrow> nat" where
  "base_digit c =
     (let n = code_of c in
      if 48 \<le> n \<and> n \<le> 57 then n - 48
      else if 65 \<le> n \<and> n \<le> 90 then n - 55
      else if 97 \<le> n \<and> n \<le> 122 then n - 87
      else 36)"

definition strtol_prefix :: "nat \<Rightarrow> string \<Rightarrow> nat \<times> string" where
  "strtol_prefix base s =
     (if (base = 0 \<or> base = 16) \<and> length s > 2 \<and> s ! 0 = CHR ''0'' \<and> tolower (s ! 1) = CHR ''x''
         \<and> base_digit (s ! 2) < 16 then (16, drop 2 s)
      else if base = 0 then ((if s \<noteq> [] \<and> hd s = CHR ''0'' then 8 else 10), s)
      else (base, s))"

text \<open>\<open>strtol\<close>: whether digits were read, the value, and whether \<open>errno\<close> is \<open>ERANGE\<close>.\<close>

definition strtol :: "string \<Rightarrow> nat \<Rightarrow> bool \<times> int \<times> bool" where
  "strtol s base =
     (let (neg, r) = scan_sign (dropWhile isspace s);
          (b, r') = strtol_prefix base r;
          ds = takeWhile (\<lambda>c. base_digit c < b) r';
          v = int (foldl (\<lambda>n c. b * n + base_digit c) 0 ds);
          v' = (if neg then - v else v)
      in if ds = [] then (False, 0, False)
         else if LONG_MAX < v' then (True, LONG_MAX, True)
         else if v' < LONG_MIN then (True, LONG_MIN, True)
         else (True, v', False))"

definition Utils_ConvertStringToInteger :: "string option \<Rightarrow> nat \<Rightarrow> int option" where
  "Utils_ConvertStringToInteger input base =
     (case input of
        None \<Rightarrow> None
      | Some s \<Rightarrow>
          (let (read, value, erange) = strtol s base in
           if \<not> read then None
           else if (value = LONG_MIN \<or> value = LONG_MAX) \<and> erange then None
           else if erange \<and> value = 0 then None
           else if value > INT_MAX \<or> value < INT_MIN then None
           else Some value))"

definition Utils_IntegerToString :: "int \<Rightarrow> int \<Rightarrow> bool \<times> string \<times> int" where
  "Utils_IntegerToString input outputSize =
     (let stringLength = int (length (int_to_dec input)) + 1 in
      if stringLength > outputSize then (False, [], outputSize)
      else let outputSize' = int (length (int_to_dec input)) in
        if outputSize' < 0 \<or> outputSize' \<ge> stringLength then (False, int_to_dec input, outputSize')
        else (True, int_to_dec input, outputSize'))"

definition Utils_AddUnsignedIntsWithOverflowCheck :: "u32 \<Rightarrow> u32 \<Rightarrow> u32 option" where
  "Utils_AddUnsignedIntsWithOverflowCheck a b = (if a > UINT32_MAX - b then None else Some (a + b))"

section \<open>Strings\<close>

fun last_index :: "string \<Rightarrow> char \<Rightarrow> nat \<Rightarrow> nat option" where
  "last_index s t 0 = (if char_at s 0 = t then Some 0 else None)"
| "last_index s t (Suc i) = (if char_at s (Suc i) = t then Some (Suc i) else last_index s t i)"

definition Utils_TrimLastOccurance :: "string \<Rightarrow> char \<Rightarrow> string" where
  "Utils_TrimLastOccurance s token =
     (case last_index s token (length s) of None \<Rightarrow> s | Some i \<Rightarrow> take i s)"

definition Utils_IsPrefixOf :: "string \<Rightarrow> nat \<Rightarrow> string \<Rightarrow> nat \<Rightarrow> bool" where
  "Utils_IsPrefixOf pre preLength s sLength \<longleftrightarrow>
     sLength \<ge> preLength \<and> strncmp_eq s pre preLength"

definition Utils_AreStringsEqual :: "string \<Rightarrow> nat \<Rightarrow> string \<Rightarrow> nat \<Rightarrow> bool \<Rightarrow> bool" where
  "Utils_AreStringsEqual a la b lb caseSensitive =
     (if la \<noteq> lb then False
      else if caseSensitive then strncmp_eq a b lb
      else strncasecmp_eq a b lb)"

definition Utils_UnsafeAreStringsEqual :: "string \<Rightarrow> string \<Rightarrow> bool \<Rightarrow> bool" where
  "Utils_UnsafeAreStringsEqual a b caseSensitive =
     Utils_AreStringsEqual a (length a) b (length b) caseSensitive"

definition Utils_CopyString :: "string \<Rightarrow> nat \<Rightarrow> nat \<Rightarrow> string option" where
  "Utils_CopyString src srcLength destLength =
     (if destLength < srcLength then None else Some (take srcLength src))"

fun Utils_IsStringBlank_loop :: "string \<Rightarrow> bool" where
  "Utils_IsStringBlank_loop [] = True"
| "Utils_IsStringBlank_loop (c # cs) = (if \<not> isspace c then False else Utils_IsStringBlank_loop cs)"

definition Utils_IsStringBlank :: "string option \<Rightarrow> bool" where
  "Utils_IsStringBlank s = (case s of None \<Rightarrow> True | Some cs \<Rightarrow> Utils_IsStringBlank_loop cs)"

fun Utils_IsStringNumeric_loop :: "string \<Rightarrow> bool" where
  "Utils_IsStringNumeric_loop [] = True"
| "Utils_IsStringNumeric_loop (c # cs) = (if \<not> isdigit c then False else Utils_IsStringNumeric_loop cs)"

definition Utils_IsStringNumeric :: "string option \<Rightarrow> bool" where
  "Utils_IsStringNumeric s = (case s of None \<Rightarrow> False | Some cs \<Rightarrow> Utils_IsStringNumeric_loop cs)"

section \<open>Copies that allocate\<close>

datatype ActionResult = ACTION_OK | ACTION_FAILED | ACTION_MEMORY_EXCEPTION

definition Utils_DuplicateString ::
  "string option \<Rightarrow> 'a env_scheme \<Rightarrow> (ActionResult \<times> string option) \<times> 'a env_scheme" where
  "Utils_DuplicateString src w =
     (case src of
        None \<Rightarrow> ((ACTION_OK, None), w)
      | Some s \<Rightarrow>
          (let (ok, w1) = sys_malloc w in
           if \<not> ok then ((ACTION_MEMORY_EXCEPTION, None), w1) else ((ACTION_OK, Some s), w1)))"

definition Utils_CreateStringCopy ::
  "string option \<Rightarrow> 'a env_scheme \<Rightarrow> string option \<times> 'a env_scheme" where
  "Utils_CreateStringCopy src w =
     (case src of
        None \<Rightarrow> (None, w)
      | Some s \<Rightarrow> (let (ok, w1) = sys_malloc w in if \<not> ok then (None, w1) else (Some s, w1)))"

text \<open>\<open>Utils_Substring\<close> drops \<open>startOffset\<close> characters in front and \<open>endOffset\<close> at the end.\<close>

definition Utils_Substring ::
  "string option \<Rightarrow> u32 \<Rightarrow> u32 \<Rightarrow> 'a env_scheme \<Rightarrow> string option \<times> 'a env_scheme" where
  "Utils_Substring src startOffset endOffset w =
     (case src of
        None \<Rightarrow> (None, w)
      | Some s \<Rightarrow>
          (let len = of_nat (length s) :: u32 in
           if startOffset \<ge> len \<or> endOffset \<ge> len \<or> startOffset + endOffset \<ge> len then (None, w)
           else
             let size = len - startOffset - endOffset + 1; (ok, w1) = sys_malloc w in
             if \<not> ok then (None, w1)
             else (Some (map (\<lambda>j. char_at s (unat startOffset + j)) [0..<unat (size - 1)]), w1)))"

section \<open>Appending to a buffer\<close>

text \<open>
  The cursor of \<open>Utils_ConcatenateToString\<close>: the text in front of \<open>*buffer\<close> and the room
  \<open>*bufferSize\<close> behind it.  A text that does not fit is written as far as it fits, with a
  terminator, and the cursor stays where it was; \<open>spill\<close> keeps that partial text.
\<close>

record cursor =
  written :: string
  room :: u32
  spill :: string

definition Utils_ConcatenateToString :: "cursor \<Rightarrow> string \<Rightarrow> bool \<times> cursor" where
  "Utils_ConcatenateToString b text =
     (if of_nat (length text) \<ge> room b
      then (False, b\<lparr>spill := take (unat (room b) - 1) text\<rparr>)
      else (True, \<lparr>written = written b @ text, room = room b - of_nat (length text), spill = []\<rparr>))"

section \<open>What the helpers compute\<close>

lemma Utils_AddUnsigned_iff:
  "Utils_AddUnsignedIntsWithOverflowCheck a b = Some c
     \<longleftrightarrow> unat a + unat b < 4294967296 \<and> unat c = unat a + unat b"
proof -
  have "b \<le> UINT32_MAX" using u32_le [of b] by (simp add: UINT32_MAX_def word_le_nat_alt)
  then have "unat (UINT32_MAX - b) = 4294967295 - unat b"
    by (simp add: unat_simps UINT32_MAX_def)
  then have "a > UINT32_MAX - b \<longleftrightarrow> unat a + unat b \<ge> 4294967296"
    using u32_le [of b] by (auto simp: word_less_nat_alt)
  then show ?thesis
    by (auto simp: Utils_AddUnsignedIntsWithOverflowCheck_def unat_simps
        intro!: word_unat_eq_iff [THEN iffD2])
qed

lemma last_index_Some:
  "last_index s t n = Some i \<Longrightarrow> i \<le> n \<and> char_at s i = t \<and> (\<forall>j. i < j \<and> j \<le> n \<longrightarrow> char_at s j \<noteq> t)"
  by (induction n) (auto split: if_splits simp: le_Suc_eq)

lemma last_index_None: "last_index s t n = None \<Longrightarrow> \<forall>j\<le>n. char_at s j \<noteq> t"
  by (induction n) (auto split: if_splits simp: le_Suc_eq)

lemma equal_strings [simp]: "Utils_UnsafeAreStringsEqual a b True \<longleftrightarrow> a = b"
  by (auto simp: Utils_UnsafeAreStringsEqual_def Utils_AreStringsEqual_def strncmp_eq_length)

lemma equal_strings_nocase [simp]:
  "Utils_UnsafeAreStringsEqual a b False \<longleftrightarrow> map tolower a = map tolower b"
  using strncmp_eq_length [of "map tolower a" "map tolower b"]
  by (auto simp: Utils_UnsafeAreStringsEqual_def Utils_AreStringsEqual_def strncasecmp_eq_def
      dest: map_eq_imp_length_eq)

lemma IsStringBlank_iff: "Utils_IsStringBlank (Some s) \<longleftrightarrow> (\<forall>c\<in>set s. isspace c)"
  by (induction s) (auto simp: Utils_IsStringBlank_def)

lemma IsStringNumeric_iff: "Utils_IsStringNumeric (Some s) \<longleftrightarrow> (\<forall>c\<in>set s. isdigit c)"
  by (induction s) (auto simp: Utils_IsStringNumeric_def)

lemma ConcatenateToString_fits:
  assumes "length text < unat (room b)"
  shows "Utils_ConcatenateToString b text =
    (True, \<lparr>written = written b @ text, room = room b - of_nat (length text), spill = []\<rparr>)"
    and "unat (room b - of_nat (length text)) = unat (room b) - length text"
proof -
  have lt: "unat (of_nat (length text) :: u32) = length text"
    using assms u32_less [of "room b"] by (simp add: unat_simps)
  then show "Utils_ConcatenateToString b text =
    (True, \<lparr>written = written b @ text, room = room b - of_nat (length text), spill = []\<rparr>)"
    using assms by (simp add: Utils_ConcatenateToString_def word_le_nat_alt)
  show "unat (room b - of_nat (length text)) = unat (room b) - length text"
    using lt assms by (simp add: unat_simps word_le_nat_alt)
qed

end
