(* ===== verification/Time_Utils.thy ===== *)
theory Time_Utils
  imports Agent_Utils
begin

text \<open>
  The ISO-8601 durations of the configuration: \<^verbatim>\<open>src/agent/src/internal/time_utils.c\<close> and the
  constants of \<^verbatim>\<open>time_utils_consts.h\<close>.  The parser's blocks, one per unit, are translated one by
  one; \<open>unit_block\<close> is the text that the week, hour and minute blocks share, \<open>last_block\<close> the
  one of the day and second blocks, which end the function.
\<close>

section \<open>Constants\<close>

definition DURATION_MAX_LENGTH :: u32 where "DURATION_MAX_LENGTH = 19"
definition MILLISECONDS_IN_A_SECOND :: u32 where "MILLISECONDS_IN_A_SECOND = 1000"
definition MILLISECONDS_IN_A_MINUTE :: u32 where "MILLISECONDS_IN_A_MINUTE = MILLISECONDS_IN_A_SECOND * 60"
definition MILLISECONDS_IN_AN_HOUR :: u32 where "MILLISECONDS_IN_AN_HOUR = MILLISECONDS_IN_A_MINUTE * 60"
definition MILLISECONDS_IN_A_DAY :: u32 where "MILLISECONDS_IN_A_DAY = MILLISECONDS_IN_AN_HOUR * 24"
definition MILLISECONDS_IN_A_WEEK :: u32 where "MILLISECONDS_IN_A_WEEK = MILLISECONDS_IN_A_DAY * 7"
definition MILLISECONDS_IN_A_MONTH :: u32 where "MILLISECONDS_IN_A_MONTH = MILLISECONDS_IN_A_DAY * 30"
definition MILLISECONDS_IN_A_YEAR :: u32 where "MILLISECONDS_IN_A_YEAR = MILLISECONDS_IN_A_DAY * 365"

definition MAX_YEARS_IN_UINT32 :: u32 where "MAX_YEARS_IN_UINT32 = UINT32_MAX div MILLISECONDS_IN_A_YEAR"
definition MAX_MONTHS_IN_UINT32 :: u32 where "MAX_MONTHS_IN_UINT32 = UINT32_MAX div MILLISECONDS_IN_A_MONTH"
definition MAX_WEEKS_IN_UINT32 :: u32 where "MAX_WEEKS_IN_UINT32 = UINT32_MAX div MILLISECONDS_IN_A_WEEK"
definition MAX_DAYS_IN_UINT32 :: u32 where "MAX_DAYS_IN_UINT32 = UINT32_MAX div MILLISECONDS_IN_A_DAY"
definition MAX_HOURS_IN_UINT32 :: u32 where "MAX_HOURS_IN_UINT32 = UINT32_MAX div MILLISECONDS_IN_AN_HOUR"
definition MAX_MINUTES_IN_UINT32 :: u32 where "MAX_MINUTES_IN_UINT32 = UINT32_MAX div MILLISECONDS_IN_A_MINUTE"
definition MAX_SECONDS_IN_UINT32 :: u32 where "MAX_SECONDS_IN_UINT32 = UINT32_MAX div MILLISECONDS_IN_A_SECOND"

lemma ms_units [simp]:
  "MILLISECONDS_IN_A_SECOND = 1000" "MILLISECONDS_IN_A_MINUTE = 60000"
  "MILLISECONDS_IN_AN_HOUR = 3600000" "MILLISECONDS_IN_A_DAY = 86400000"
  "MILLISECONDS_IN_A_WEEK = 604800000" "MILLISECONDS_IN_A_MONTH = 2592000000"
  by (simp_all add: MILLISECONDS_IN_A_SECOND_def MILLISECONDS_IN_A_MINUTE_def
      MILLISECONDS_IN_AN_HOUR_def MILLISECONDS_IN_A_DAY_def MILLISECONDS_IN_A_WEEK_def
      MILLISECONDS_IN_A_MONTH_def)

lemma max_units [simp]:
  "MAX_MONTHS_IN_UINT32 = 1" "MAX_WEEKS_IN_UINT32 = 7" "MAX_DAYS_IN_UINT32 = 49"
  "MAX_HOURS_IN_UINT32 = 1193" "MAX_MINUTES_IN_UINT32 = 71582" "MAX_SECONDS_IN_UINT32 = 4294967"
  by (simp_all add: MAX_MONTHS_IN_UINT32_def MAX_WEEKS_IN_UINT32_def MAX_DAYS_IN_UINT32_def
      MAX_HOURS_IN_UINT32_def MAX_MINUTES_IN_UINT32_def MAX_SECONDS_IN_UINT32_def UINT32_MAX_def)

section \<open>Time differences\<close>

text \<open>
  The bits of the \<open>int32_t\<close> that \<open>TimeUtils_GetTimeDiff\<close> returns: milliseconds, with the cast of
  the double undefined where they do not fit.
\<close>

definition TimeUtils_GetTimeDiff :: "'a env_scheme \<Rightarrow> time_t \<Rightarrow> time_t \<Rightarrow> u32" where
  "TimeUtils_GetTimeDiff w endT beginning =
     (let d = (endT - beginning) * 1000 in
      if INT_MIN \<le> d \<and> d \<le> INT_MAX then word_of_int d else castOut w d)"

section \<open>Parsing\<close>

definition after :: "string \<Rightarrow> char \<Rightarrow> string" where
  "after s c = (case strchr s c of Some r \<Rightarrow> tl r | None \<Rightarrow> [])"

definition date_ends :: "string \<Rightarrow> bool" where
  "date_ends s \<longleftrightarrow> char_at s 0 = CHR ''T'' \<or> char_at s 0 = CHR 0x00"

definition time_ends :: "string \<Rightarrow> bool" where
  "time_ends s \<longleftrightarrow> char_at s 0 = CHR 0x00"

text \<open>A parser state: the rest of the string, the number and the specifier read, the sum so far.\<close>

type_synonym block = "string \<Rightarrow> u32 \<Rightarrow> char \<Rightarrow> u32 \<Rightarrow> bool \<times> u32"

definition unit_block :: "u32 \<Rightarrow> (string \<Rightarrow> bool) \<Rightarrow> char \<Rightarrow> u32 \<Rightarrow> u32 \<Rightarrow> block \<Rightarrow> block" where
  "unit_block out0 ends unit maxUnits ms next_block s temp specifier result =
     (if specifier = unit then
        let s' = after s unit in
        if temp > maxUnits then (False, out0)
        else case Utils_AddUnsignedIntsWithOverflowCheck result (temp * ms) of
          None \<Rightarrow> (False, out0)
        | Some result' \<Rightarrow>
            if ends s' then (True, result')
            else case sscanf_uc s' of
              None \<Rightarrow> (False, out0)
            | Some (temp', specifier') \<Rightarrow> next_block s' temp' specifier' result'
      else next_block s temp specifier result)"

definition last_block :: "u32 \<Rightarrow> (string \<Rightarrow> bool) \<Rightarrow> char \<Rightarrow> u32 \<Rightarrow> u32 \<Rightarrow> block" where
  "last_block out0 ends unit maxUnits ms s temp specifier result =
     (if specifier = unit then
        let s' = after s unit in
        if temp > maxUnits then (False, out0)
        else case Utils_AddUnsignedIntsWithOverflowCheck result (temp * ms) of
          None \<Rightarrow> (False, out0)
        | Some result' \<Rightarrow> if ends s' then (True, result') else (False, out0)
      else (False, out0))"

definition month_block :: "u32 \<Rightarrow> block \<Rightarrow> block" where
  "month_block out0 next_block s temp specifier result =
     (if specifier = CHR ''M'' then
        let s' = after s CHR ''M'' in
        if temp > MAX_MONTHS_IN_UINT32 then (False, out0)
        else let result' = temp * MILLISECONDS_IN_A_MONTH in
          if date_ends s' then (True, result')
          else case sscanf_uc s' of
            None \<Rightarrow> (False, out0)
          | Some (temp', specifier') \<Rightarrow> next_block s' temp' specifier' result'
      else next_block s temp specifier result)"

definition year_block :: "u32 \<Rightarrow> block \<Rightarrow> block" where
  "year_block out0 next_block s temp specifier result =
     (if specifier = CHR ''Y'' then
        let s' = after s CHR ''Y'' in
        if temp > MAX_YEARS_IN_UINT32 then (False, out0)
        else if date_ends s' then (True, out0)
        else case sscanf_uc s' of
          None \<Rightarrow> (False, out0)
        | Some (temp', specifier') \<Rightarrow> next_block s' temp' specifier' result
      else next_block s temp specifier result)"

text \<open>\<open>out0\<close> is what \<open>*resultOut\<close> holds before the call; the result is whether parsing succeeded
  and what it holds after.\<close>

definition date_blocks :: "u32 \<Rightarrow> block" where
  "date_blocks out0 =
     year_block out0 (month_block out0
       (unit_block out0 date_ends CHR ''W'' MAX_WEEKS_IN_UINT32 MILLISECONDS_IN_A_WEEK
         (last_block out0 date_ends CHR ''D'' MAX_DAYS_IN_UINT32 MILLISECONDS_IN_A_DAY)))"

definition TimeUtils_ParseDateString :: "string option \<Rightarrow> u32 \<Rightarrow> bool \<times> u32" where
  "TimeUtils_ParseDateString dateString out0 =
     (case dateString of
        None \<Rightarrow> (False, out0)
      | Some s \<Rightarrow>
          (case sscanf_uc s of
             None \<Rightarrow> (False, out0)
           | Some (temp, specifier) \<Rightarrow> date_blocks out0 s temp specifier 0))"

definition time_blocks :: "u32 \<Rightarrow> block" where
  "time_blocks out0 =
     unit_block out0 time_ends CHR ''H'' MAX_HOURS_IN_UINT32 MILLISECONDS_IN_AN_HOUR
       (unit_block out0 time_ends CHR ''M'' MAX_MINUTES_IN_UINT32 MILLISECONDS_IN_A_MINUTE
         (last_block out0 time_ends CHR ''S'' MAX_SECONDS_IN_UINT32 MILLISECONDS_IN_A_SECOND))"

definition TimeUtils_ParseTimeString :: "string option \<Rightarrow> u32 \<Rightarrow> bool \<times> u32" where
  "TimeUtils_ParseTimeString timeString out0 =
     (case timeString of
        None \<Rightarrow> (False, out0)
      | Some s \<Rightarrow>
          (case sscanf_uc s of
             None \<Rightarrow> (False, out0)
           | Some (temp, specifier) \<Rightarrow> time_blocks out0 s temp specifier 0))"

text \<open>Pointers into \<open>duration\<close> are offsets: \<open>dateString\<close> is 1, \<open>timeString\<close> stands behind the first T.\<close>

definition strchr_offset :: "string \<Rightarrow> char \<Rightarrow> nat option" where
  "strchr_offset s c = (if c \<in> set s then Some (length (takeWhile (\<lambda>x. x \<noteq> c) s)) else None)"

definition TimeUtils_ISO8601DurationStringToMilliseconds :: "string option \<Rightarrow> u32 option" where
  "TimeUtils_ISO8601DurationStringToMilliseconds duration =
     (case duration of
        None \<Rightarrow> None
      | Some d \<Rightarrow>
          (if char_at d 0 \<noteq> CHR ''P'' then None
           else
             let dateString = 1; timeString = map_option Suc (strchr_offset d CHR ''T'');
                 (dateOk, dateResult) =
                   (if timeString \<noteq> Some (dateString + 1)
                    then TimeUtils_ParseDateString (Some (drop dateString d)) 0 else (True, 0))
             in if \<not> dateOk then None
             else
               let (timeOk, timeResult) =
                     (case timeString of
                        None \<Rightarrow> (True, 0)
                      | Some i \<Rightarrow> TimeUtils_ParseTimeString (Some (drop i d)) 0)
               in if \<not> timeOk then None
               else case Utils_AddUnsignedIntsWithOverflowCheck dateResult timeResult of
                 None \<Rightarrow> None
               | Some result \<Rightarrow> if result = 0 then None else Some result))"

section \<open>Printing\<close>

definition and_then :: "bool \<times> cursor \<Rightarrow> (cursor \<Rightarrow> bool \<times> cursor) \<Rightarrow> bool \<times> cursor" where
  "and_then r f = (if fst r then f (snd r) else r)"

text \<open>\<open>if (n > 0) { if (!Utils_ConcatenateToString(&duration, &len, "%uX", n)) return false; }\<close>\<close>

definition emit_unit :: "u32 \<Rightarrow> char \<Rightarrow> cursor \<Rightarrow> bool \<times> cursor" where
  "emit_unit n unit b =
     (if n > 0 then Utils_ConcatenateToString b (nat_to_dec (unat n) @ [unit]) else (True, b))"

text \<open>\<open>duration += sprintf(duration, "T")\<close> does not look at the room and does not reduce \<open>len\<close>.\<close>

definition emit_T :: "cursor \<Rightarrow> bool \<times> cursor" where
  "emit_T b = (True, b\<lparr>written := written b @ ''T'', spill := []\<rparr>)"

definition TimeUtils_MillisecondsToISO8601DurationString :: "u32 \<Rightarrow> u32 \<Rightarrow> bool \<times> cursor" where
  "TimeUtils_MillisecondsToISO8601DurationString milisec len =
     (let start = \<lparr>written = [], room = len, spill = []\<rparr> in
      if milisec < MILLISECONDS_IN_A_SECOND then (False, start)
      else if len < DURATION_MAX_LENGTH then (False, start)
      else
        let months = milisec div MILLISECONDS_IN_A_MONTH; r1 = milisec mod MILLISECONDS_IN_A_MONTH;
            weeks = r1 div MILLISECONDS_IN_A_WEEK; r2 = r1 mod MILLISECONDS_IN_A_WEEK;
            days = r2 div MILLISECONDS_IN_A_DAY; r3 = r2 mod MILLISECONDS_IN_A_DAY;
            hours = r3 div MILLISECONDS_IN_AN_HOUR; r4 = r3 mod MILLISECONDS_IN_AN_HOUR;
            minutes = r4 div MILLISECONDS_IN_A_MINUTE; r5 = r4 mod MILLISECONDS_IN_A_MINUTE;
            seconds = r5 div MILLISECONDS_IN_A_SECOND;
            date = and_then (and_then (and_then (Utils_ConcatenateToString start ''P'')
                     (emit_unit months CHR ''M'')) (emit_unit weeks CHR ''W'')) (emit_unit days CHR ''D'')
        in if hours > 0 \<or> minutes > 0 \<or> seconds > 0
           then and_then (and_then (and_then (and_then date emit_T)
                  (emit_unit hours CHR ''H'')) (emit_unit minutes CHR ''M'')) (emit_unit seconds CHR ''S'')
           else date)"

section \<open>What the blocks compute\<close>

lemma date_ends_simps [simp]: "date_ends []" "date_ends (c # r) \<longleftrightarrow> c = CHR ''T'' \<or> c = CHR 0x00"
  by (simp_all add: date_ends_def char_at_def)

lemma time_ends_simps [simp]: "time_ends []" "time_ends (c # r) \<longleftrightarrow> c = CHR 0x00"
  by (simp_all add: time_ends_def char_at_def)

lemma after_dec [simp]: "\<not> isdigit c \<Longrightarrow> after (nat_to_dec n @ c # r) c = r"
  by (simp add: after_def strchr_dec)

lemma unit_letters [simp]:
  "\<not> isdigit CHR ''Y''" "\<not> isdigit CHR ''M''" "\<not> isdigit CHR ''W''" "\<not> isdigit CHR ''D''"
  "\<not> isdigit CHR ''T''" "\<not> isdigit CHR ''H''" "\<not> isdigit CHR ''S''"
  by (simp_all add: isdigit_def code_of_def)

lemma dec_head_ends [simp]:
  "\<not> date_ends (nat_to_dec n @ r)" "\<not> time_ends (nat_to_dec n @ r)"
proof -
  obtain d ds where d: "nat_to_dec n = d # ds" "isdigit d" by (rule nat_to_dec_hd)
  moreover from d(2) have "d \<noteq> CHR ''T''" "d \<noteq> CHR 0x00" by (auto simp: isdigit_def code_of_def)
  ultimately show "\<not> date_ends (nat_to_dec n @ r)" "\<not> time_ends (nat_to_dec n @ r)" by simp_all
qed

lemma AddUnsigned_of_nat [simp]:
  assumes "a + b < 4294967296"
  shows "Utils_AddUnsignedIntsWithOverflowCheck (of_nat a) (of_nat b) = Some (of_nat (a + b))"
  unfolding Utils_AddUnsigned_iff using assms by (simp add: unat_simps del: of_nat_add)

lemma AddUnsigned_0 [simp]:
  "Utils_AddUnsignedIntsWithOverflowCheck 0 x = Some x"
  "Utils_AddUnsignedIntsWithOverflowCheck x 0 = Some x"
  unfolding Utils_AddUnsigned_iff by (simp_all add: u32_less)

text \<open>A product guarded by \<open>temp <= UINT32_MAX / ms\<close> does not wrap.\<close>

lemma guarded_product:
  assumes "temp \<le> UINT32_MAX div ms"
  shows "unat (temp * ms) = unat temp * unat ms"
proof (rule unat_mult_u32)
  have "unat temp \<le> 4294967295 div unat ms"
    using assms by (simp add: word_le_nat_alt unat_div UINT32_MAX_def)
  then have "unat temp * unat ms \<le> 4294967295 div unat ms * unat ms" by (rule mult_le_mono1)
  also have "\<dots> \<le> 4294967295" by (rule div_times_less_eq_dividend)
  finally show "unat temp * unat ms < 4294967296" by simp
qed

text \<open>Every sum the parser builds is a whole number of seconds.\<close>

definition whole_seconds :: "u32 \<Rightarrow> bool" where
  "whole_seconds r \<longleftrightarrow> 1000 dvd unat r"

lemma whole_seconds_0 [simp]: "whole_seconds 0"
  by (simp add: whole_seconds_def)

lemma whole_seconds_product:
  "temp \<le> UINT32_MAX div ms \<Longrightarrow> whole_seconds ms \<Longrightarrow> whole_seconds (temp * ms)"
  by (simp add: whole_seconds_def guarded_product)

lemma whole_seconds_sum:
  "Utils_AddUnsignedIntsWithOverflowCheck a b = Some c \<Longrightarrow> whole_seconds a \<Longrightarrow> whole_seconds b \<Longrightarrow> whole_seconds c"
  by (auto simp: Utils_AddUnsigned_iff whole_seconds_def)

definition whole_seconds_block :: "block \<Rightarrow> bool" where
  "whole_seconds_block k \<longleftrightarrow> (\<forall>s t c r. whole_seconds r \<longrightarrow> whole_seconds (snd (k s t c r)))"

lemma whole_seconds_blockI:
  "(\<And>s t c r. whole_seconds r \<Longrightarrow> whole_seconds (snd (k s t c r))) \<Longrightarrow> whole_seconds_block k"
  by (simp add: whole_seconds_block_def)

lemma whole_seconds_blockD: "whole_seconds_block k \<Longrightarrow> whole_seconds r \<Longrightarrow> whole_seconds (snd (k s t c r))"
  by (simp add: whole_seconds_block_def)

lemma last_block_seconds:
  assumes "whole_seconds ms" and "whole_seconds out0"
  shows "whole_seconds_block (last_block out0 ends u (UINT32_MAX div ms) ms)"
  using assms
  by (intro whole_seconds_blockI)
     (auto simp: last_block_def Let_def not_less
       intro: whole_seconds_sum [OF _ _ whole_seconds_product] split: option.splits)

lemma unit_block_seconds:
  assumes "whole_seconds ms" and "whole_seconds out0" and "whole_seconds_block k"
  shows "whole_seconds_block (unit_block out0 ends u (UINT32_MAX div ms) ms k)"
proof (rule whole_seconds_blockI)
  fix s t c r assume r: "whole_seconds r"
  have sum: "whole_seconds x"
    if "Utils_AddUnsignedIntsWithOverflowCheck r (t * ms) = Some x" "t \<le> UINT32_MAX div ms" for x
    using that assms(1) r by (blast intro: whole_seconds_sum whole_seconds_product)
  show "whole_seconds (snd (unit_block out0 ends u (UINT32_MAX div ms) ms k s t c r))"
    using assms(2) r sum whole_seconds_blockD [OF assms(3)]
    by (auto simp: unit_block_def Let_def not_less split: option.splits)
qed

lemma month_block_seconds:
  assumes "whole_seconds out0" and "whole_seconds_block k"
  shows "whole_seconds_block (month_block out0 k)"
proof (rule whole_seconds_blockI)
  fix s t c r assume r: "whole_seconds r"
  have m: "whole_seconds (t * MILLISECONDS_IN_A_MONTH)" if "t \<le> MAX_MONTHS_IN_UINT32"
    using that unfolding MAX_MONTHS_IN_UINT32_def
    by (rule whole_seconds_product) (simp add: whole_seconds_def)
  show "whole_seconds (snd (month_block out0 k s t c r))"
    using assms(1) r m whole_seconds_blockD [OF assms(2)]
    by (auto simp: month_block_def Let_def not_less simp del: ms_units max_units split: option.splits)
qed

lemma year_block_seconds:
  assumes "whole_seconds out0" and "whole_seconds_block k"
  shows "whole_seconds_block (year_block out0 k)"
  using assms
  by (intro whole_seconds_blockI)
     (auto simp: year_block_def Let_def whole_seconds_blockD split: option.splits)

lemma date_blocks_seconds: "whole_seconds_block (date_blocks 0)"
  unfolding date_blocks_def MAX_WEEKS_IN_UINT32_def MAX_DAYS_IN_UINT32_def
  by (intro year_block_seconds month_block_seconds unit_block_seconds last_block_seconds)
     (simp_all add: whole_seconds_def)

lemma time_blocks_seconds: "whole_seconds_block (time_blocks 0)"
  unfolding time_blocks_def MAX_HOURS_IN_UINT32_def MAX_MINUTES_IN_UINT32_def MAX_SECONDS_IN_UINT32_def
  by (intro unit_block_seconds last_block_seconds) (simp_all add: whole_seconds_def)

lemma ParseDateString_seconds: "whole_seconds (snd (TimeUtils_ParseDateString s 0))"
  using whole_seconds_blockD [OF date_blocks_seconds]
  by (auto simp: TimeUtils_ParseDateString_def split: option.splits)

lemma ParseTimeString_seconds: "whole_seconds (snd (TimeUtils_ParseTimeString s 0))"
  using whole_seconds_blockD [OF time_blocks_seconds]
  by (auto simp: TimeUtils_ParseTimeString_def split: option.splits)

lemma ISO8601_seconds:
  assumes "TimeUtils_ISO8601DurationStringToMilliseconds d = Some r"
  shows "whole_seconds r" and "1000 \<le> unat r"
proof -
  show w: "whole_seconds r"
    using assms ParseDateString_seconds ParseTimeString_seconds
    by (auto simp: TimeUtils_ISO8601DurationStringToMilliseconds_def Let_def split_beta
        split: option.splits if_splits intro: whole_seconds_sum)
  have "r \<noteq> 0"
    using assms
    by (auto simp: TimeUtils_ISO8601DurationStringToMilliseconds_def Let_def split_beta
        split: option.splits if_splits)
  then have "0 < unat r" by (simp add: unat_gt_0)
  with w show "1000 \<le> unat r" unfolding whole_seconds_def by (blast dest: dvd_imp_le)
qed

section \<open>Printing and parsing back\<close>

definition unit_text :: "nat \<Rightarrow> char \<Rightarrow> string" where
  "unit_text n c = (if n = 0 then [] else nat_to_dec n @ [c])"

definition date_text :: "nat \<Rightarrow> nat \<Rightarrow> nat \<Rightarrow> string" where
  "date_text mo wk d = unit_text mo CHR ''M'' @ unit_text wk CHR ''W'' @ unit_text d CHR ''D''"

definition time_text :: "nat \<Rightarrow> nat \<Rightarrow> nat \<Rightarrow> string" where
  "time_text h mi sec = unit_text h CHR ''H'' @ unit_text mi CHR ''M'' @ unit_text sec CHR ''S''"

definition duration_text :: "nat \<Rightarrow> string" where
  "duration_text ms =
     (let r1 = ms mod 2592000000; r2 = r1 mod 604800000; r3 = r2 mod 86400000;
          r4 = r3 mod 3600000; r5 = r4 mod 60000;
          tt = time_text (r3 div 3600000) (r4 div 60000) (r5 div 1000)
      in ''P'' @ date_text (ms div 2592000000) (r1 div 604800000) (r2 div 86400000)
           @ (if tt = [] then [] else CHR ''T'' # tt))"

lemma unit_text_Nil [simp]: "unit_text n c = [] \<longleftrightarrow> n = 0"
  by (simp add: unit_text_def)

lemma time_text_Nil [simp]: "time_text h mi sec = [] \<longleftrightarrow> h = 0 \<and> mi = 0 \<and> sec = 0"
  by (simp add: time_text_def)

lemma date_text_Nil [simp]: "date_text mo wk d = [] \<longleftrightarrow> mo = 0 \<and> wk = 0 \<and> d = 0"
  by (simp add: date_text_def)

lemma length_unit_text:
  "n < 10 \<Longrightarrow> length (unit_text n c) \<le> 2" "n < 100 \<Longrightarrow> length (unit_text n c) \<le> 3"
  using length_nat_to_dec_le [of n 1] length_nat_to_dec_2 [of n] by (auto simp: unit_text_def)

lemma emit_unit_text:
  assumes "length (unit_text (unat n) u) < unat (room b)"
  obtains b' where "emit_unit n u b = (True, b')"
    and "written b' = written b @ unit_text (unat n) u"
    and "unat (room b') = unat (room b) - length (unit_text (unat n) u)"
proof (cases "n = 0")
  case True
  then show ?thesis using that by (simp add: emit_unit_def unit_text_def)
next
  case False
  then have "0 < n" "unit_text (unat n) u = nat_to_dec (unat n) @ [u]"
    by (simp_all add: unit_text_def word_gt_0 unat_eq_0)
  with assms ConcatenateToString_fits [of "nat_to_dec (unat n) @ [u]" b] show ?thesis
    using that by (simp add: emit_unit_def)
qed

text \<open>A component smaller than 100 takes at most three characters; the bounds chain.\<close>

lemma emit_unit_room:
  assumes "unat n < 100" and "k + 3 < unat (room b)"
  obtains b' where "emit_unit n u b = (True, b')"
    and "written b' = written b @ unit_text (unat n) u" and "k < unat (room b')"
proof -
  have l: "length (unit_text (unat n) u) \<le> 3" using assms(1) by (rule length_unit_text)
  with assms(2) have "length (unit_text (unat n) u) < unat (room b)" by simp
  then obtain b' where "emit_unit n u b = (True, b')"
    "written b' = written b @ unit_text (unat n) u"
    "unat (room b') = unat (room b) - length (unit_text (unat n) u)" by (rule emit_unit_text)
  with l assms(2) show ?thesis by (intro that [of b']) simp_all
qed

lemma emit_unit_room1:
  assumes "unat n < 10" and "k + 2 < unat (room b)"
  obtains b' where "emit_unit n u b = (True, b')"
    and "written b' = written b @ unit_text (unat n) u" and "k < unat (room b')"
proof -
  have l: "length (unit_text (unat n) u) \<le> 2" using assms(1) by (rule length_unit_text)
  with assms(2) have "length (unit_text (unat n) u) < unat (room b)" by simp
  then obtain b' where "emit_unit n u b = (True, b')"
    "written b' = written b @ unit_text (unat n) u"
    "unat (room b') = unat (room b) - length (unit_text (unat n) u)" by (rule emit_unit_text)
  with l assms(2) show ?thesis by (intro that [of b']) simp_all
qed

lemma date_text_length: "mo < 10 \<Longrightarrow> wk < 10 \<Longrightarrow> d < 10 \<Longrightarrow> length (date_text mo wk d) \<le> 6"
  using length_unit_text(1) [of mo "CHR ''M''"] length_unit_text(1) [of wk "CHR ''W''"]
    length_unit_text(1) [of d "CHR ''D''"]
  by (simp add: date_text_def)

lemma time_text_length: "h < 100 \<Longrightarrow> mi < 100 \<Longrightarrow> sec < 100 \<Longrightarrow> length (time_text h mi sec) \<le> 9"
  using length_unit_text(2) [of h "CHR ''H''"] length_unit_text(2) [of mi "CHR ''M''"]
    length_unit_text(2) [of sec "CHR ''S''"]
  by (simp add: time_text_def)

text \<open>The components of a duration and their bounds, on naturals.\<close>

lemma component_bounds:
  fixes ms :: nat
  shows "ms < 4294967296 \<Longrightarrow> ms div 2592000000 < 10"
    and "ms mod 2592000000 div 604800000 < 10"
    and "ms mod 604800000 div 86400000 < 10"
    and "ms mod 86400000 div 3600000 < 100"
    and "ms mod 3600000 div 60000 < 100"
    and "ms mod 60000 div 1000 < 100"
proof -
  have q: "a mod b div c < n" if "b \<le> n * c" "0 < b" for a b c n :: nat
    using that mod_less_divisor [of b a] by (intro less_mult_imp_div_less) linarith
  show "ms < 4294967296 \<Longrightarrow> ms div 2592000000 < 10" by (intro less_mult_imp_div_less) simp
  show "ms mod 2592000000 div 604800000 < 10" "ms mod 604800000 div 86400000 < 10"
    "ms mod 86400000 div 3600000 < 100" "ms mod 3600000 div 60000 < 100"
    "ms mod 60000 div 1000 < 100"
    by (rule q; simp)+
qed

lemma duration_text_length:
  assumes "ms < 4294967296"
  shows "length (duration_text ms) \<le> 17"
proof -
  let ?r2 = "ms mod 2592000000 mod 604800000"
  let ?r3 = "?r2 mod 86400000"
  let ?d = "date_text (ms div 2592000000) (ms mod 2592000000 div 604800000) (?r2 div 86400000)"
  let ?t = "time_text (?r3 div 3600000) (?r3 mod 3600000 div 60000) (?r3 mod 3600000 mod 60000 div 1000)"
  have "?r3 div 3600000 < 100"
    by (rule less_mult_imp_div_less) (rule less_trans [OF mod_less_divisor]; simp)
  then have "length ?t \<le> 9"
    by (rule time_text_length) (rule component_bounds(5) component_bounds(6))+
  moreover have "length ?d \<le> 6"
    using assms by (rule date_text_length [OF component_bounds(1-3)])
  moreover have "duration_text ms = ''P'' @ ?d @ (if ?t = [] then [] else CHR ''T'' # ?t)"
    by (simp only: duration_text_def Let_def)
  then have "length (duration_text ms) \<le> 1 + length ?d + (1 + length ?t)"
    by (cases "?t = []") (simp_all del: time_text_Nil date_text_Nil)
  ultimately show ?thesis by linarith
qed

text \<open>The printer succeeds on every duration of at least a second and writes exactly its text.\<close>

lemma print_components:
  assumes "unat m < 10" "unat wk < 10" "unat d < 10"
    and "unat h < 100" "unat mi < 100" "unat sec < 100"
    and "19 \<le> unat len"
  obtains b0 b1 b2 b3 b5 b6 b7 where
    "Utils_ConcatenateToString \<lparr>written = [], room = len, spill = []\<rparr> ''P'' = (True, b0)"
    and "emit_unit m CHR ''M'' b0 = (True, b1)" and "emit_unit wk CHR ''W'' b1 = (True, b2)"
    and "emit_unit d CHR ''D'' b2 = (True, b3)"
    and "written b3 = ''P'' @ date_text (unat m) (unat wk) (unat d)"
    and "emit_unit h CHR ''H'' (snd (emit_T b3)) = (True, b5)"
    and "emit_unit mi CHR ''M'' b5 = (True, b6)" and "emit_unit sec CHR ''S'' b6 = (True, b7)"
    and "written b7 = written b3 @ ''T'' @ time_text (unat h) (unat mi) (unat sec)"
proof -
  obtain b0 where b0: "Utils_ConcatenateToString \<lparr>written = [], room = len, spill = []\<rparr> ''P'' = (True, b0)"
    "written b0 = ''P''" "15 + 2 < unat (room b0)"
    using ConcatenateToString_fits [of "''P''" "\<lparr>written = [], room = len, spill = []\<rparr>"] assms(7) by simp
  obtain b1 where b1: "emit_unit m CHR ''M'' b0 = (True, b1)"
    "written b1 = written b0 @ unit_text (unat m) CHR ''M''" "15 < unat (room b1)"
    using assms(1) b0(3) by (rule emit_unit_room1)
  from b1(3) have "13 + 2 < unat (room b1)" by simp
  with assms(2) obtain b2 where b2: "emit_unit wk CHR ''W'' b1 = (True, b2)"
    "written b2 = written b1 @ unit_text (unat wk) CHR ''W''" "13 < unat (room b2)"
    by (rule emit_unit_room1)
  from b2(3) have "11 + 2 < unat (room b2)" by simp
  with assms(3) obtain b3 where b3: "emit_unit d CHR ''D'' b2 = (True, b3)"
    "written b3 = written b2 @ unit_text (unat d) CHR ''D''" "11 < unat (room b3)"
    by (rule emit_unit_room1)
  from b3(3) have "8 + 3 < unat (room (snd (emit_T b3)))" by (simp add: emit_T_def)
  with assms(4) obtain b5 where b5: "emit_unit h CHR ''H'' (snd (emit_T b3)) = (True, b5)"
    "written b5 = written (snd (emit_T b3)) @ unit_text (unat h) CHR ''H''" "8 < unat (room b5)"
    by (rule emit_unit_room)
  from b5(3) have "5 + 3 < unat (room b5)" by simp
  with assms(5) obtain b6 where b6: "emit_unit mi CHR ''M'' b5 = (True, b6)"
    "written b6 = written b5 @ unit_text (unat mi) CHR ''M''" "5 < unat (room b6)"
    by (rule emit_unit_room)
  from b6(3) have "2 + 3 < unat (room b6)" by simp
  with assms(6) obtain b7 where b7: "emit_unit sec CHR ''S'' b6 = (True, b7)"
    "written b7 = written b6 @ unit_text (unat sec) CHR ''S''" "2 < unat (room b7)"
    by (rule emit_unit_room)
  show ?thesis
    by (rule that [OF b0(1) b1(1) b2(1) b3(1) _ b5(1) b6(1) b7(1)])
       (simp_all add: b0(2) b1(2) b2(2) b3(2) b5(2) b6(2) b7(2) date_text_def time_text_def emit_T_def)
qed

lemma print_duration:
  assumes "1000 \<le> unat milisec" and "19 \<le> unat len"
  obtains b where "TimeUtils_MillisecondsToISO8601DurationString milisec len = (True, b)"
    and "written b = duration_text (unat milisec)"
proof -
  define m where "m = milisec div 2592000000"
  define r1 where "r1 = milisec mod 2592000000"
  define wk where "wk = r1 div 604800000"
  define r2 where "r2 = r1 mod 604800000"
  define d where "d = r2 div 86400000"
  define r3 where "r3 = r2 mod 86400000"
  define h where "h = r3 div 3600000"
  define r4 where "r4 = r3 mod 3600000"
  define mi where "mi = r4 div 60000"
  define r5 where "r5 = r4 mod 60000"
  define sec where "sec = r5 div 1000"
  note ws = m_def r1_def wk_def r2_def d_def r3_def h_def r4_def mi_def r5_def sec_def
  have um: "unat m = unat milisec div 2592000000" and u1: "unat r1 = unat milisec mod 2592000000"
    and uw: "unat wk = unat r1 div 604800000" and u2: "unat r2 = unat r1 mod 604800000"
    and ud: "unat d = unat r2 div 86400000" and u3: "unat r3 = unat r2 mod 86400000"
    and uh: "unat h = unat r3 div 3600000" and u4: "unat r4 = unat r3 mod 3600000"
    and umi: "unat mi = unat r4 div 60000" and u5: "unat r5 = unat r4 mod 60000"
    and us: "unat sec = unat r5 div 1000"
    by (simp_all add: ws unat_div unat_mod)
  have b: "unat m < 10" "unat wk < 10" "unat d < 10" "unat h < 100" "unat mi < 100" "unat sec < 100"
    unfolding um uw u1 ud u2 uh u3 umi u4 us u5
    by (rule component_bounds u32_less)+
  obtain b0 b1 b2 b3 b5 b6 b7 where p:
    "Utils_ConcatenateToString \<lparr>written = [], room = len, spill = []\<rparr> ''P'' = (True, b0)"
    "emit_unit m CHR ''M'' b0 = (True, b1)" "emit_unit wk CHR ''W'' b1 = (True, b2)"
    "emit_unit d CHR ''D'' b2 = (True, b3)"
    "written b3 = ''P'' @ date_text (unat m) (unat wk) (unat d)"
    "emit_unit h CHR ''H'' (snd (emit_T b3)) = (True, b5)"
    "emit_unit mi CHR ''M'' b5 = (True, b6)" "emit_unit sec CHR ''S'' b6 = (True, b7)"
    "written b7 = written b3 @ ''T'' @ time_text (unat h) (unat mi) (unat sec)"
    using b assms(2) by (rule print_components)
  have guards: "\<not> milisec < 1000" "\<not> len < DURATION_MAX_LENGTH"
    using assms by (simp_all add: word_less_nat_alt DURATION_MAX_LENGTH_def)
  have fT: "fst (emit_T b3)" by (simp add: emit_T_def)
  have "TimeUtils_MillisecondsToISO8601DurationString milisec len =
      (True, if h > 0 \<or> mi > 0 \<or> sec > 0 then b7 else b3)"
    unfolding TimeUtils_MillisecondsToISO8601DurationString_def ms_units Let_def ws [symmetric]
    using guards fT p by (simp only: and_then_def fst_conv snd_conv if_True if_False) simp
  moreover have "written (if h > 0 \<or> mi > 0 \<or> sec > 0 then b7 else b3) = duration_text (unat milisec)"
    unfolding duration_text_def Let_def um [symmetric] u1 [symmetric] uw [symmetric] u2 [symmetric]
      ud [symmetric] u3 [symmetric] uh [symmetric] u4 [symmetric] umi [symmetric] u5 [symmetric]
      us [symmetric]
    using p(5,9) by (simp add: word_gt_0 unat_eq_0)
  ultimately show ?thesis using that by blast
qed

text \<open>The parser reads the components back.\<close>

lemma word_scale: "(of_nat n :: u32) * numeral k = of_nat (n * numeral k)"
  by simp

lemma word_of_nat_small [simp]:
  "n \<le> 7 \<Longrightarrow> \<not> (7 :: u32) < of_nat n" "n \<le> 49 \<Longrightarrow> \<not> (49 :: u32) < of_nat n"
  "n \<le> 1193 \<Longrightarrow> \<not> (1193 :: u32) < of_nat n" "n \<le> 71582 \<Longrightarrow> \<not> (71582 :: u32) < of_nat n"
  "n \<le> 4294967 \<Longrightarrow> \<not> (4294967 :: u32) < of_nat n" "n \<le> Suc 0 \<Longrightarrow> \<not> (1 :: u32) < of_nat n"
  by (simp_all add: not_less word_le_nat_alt unat_of_nat order_trans [OF mod_less_eq_dividend])

lemmas block_defs = year_block_def month_block_def unit_block_def last_block_def

lemma parse_date_text:
  assumes "mo \<le> 1" "wk \<le> 7" "d \<le> 49" and "date_text mo wk d \<noteq> []" and "date_ends rest"
    and sum: "mo * 2592000000 + wk * 604800000 + d * 86400000 < 4294967296"
  shows "TimeUtils_ParseDateString (Some (date_text mo wk d @ rest)) 0 =
    (True, of_nat (mo * 2592000000 + wk * 604800000 + d * 86400000))"
  using assms
  by (cases "mo = 0"; cases "wk = 0"; cases "d = 0")
     (simp_all add: TimeUtils_ParseDateString_def date_blocks_def block_defs Let_def date_text_def
       unit_text_def word_scale
       del: of_nat_mult of_nat_add)

lemma parse_time_text:
  assumes "h \<le> 1193" "mi \<le> 71582" "sec \<le> 4294967" and "time_text h mi sec \<noteq> []"
    and sum: "h * 3600000 + mi * 60000 + sec * 1000 < 4294967296"
  shows "TimeUtils_ParseTimeString (Some (time_text h mi sec)) 0 =
    (True, of_nat (h * 3600000 + mi * 60000 + sec * 1000))"
  using assms
  by (cases "h = 0"; cases "mi = 0"; cases "sec = 0")
     (simp_all add: TimeUtils_ParseTimeString_def time_blocks_def block_defs Let_def time_text_def
       unit_text_def word_scale
       del: of_nat_mult of_nat_add)

lemma no_T_in_units: "c \<noteq> CHR ''T'' \<Longrightarrow> CHR ''T'' \<notin> set (unit_text n c)"
  using nat_to_dec_digits [of "CHR ''T''" n] by (auto simp: unit_text_def)

lemma no_T_in_date: "CHR ''T'' \<notin> set (date_text mo wk d)"
  by (simp add: date_text_def no_T_in_units)

lemma T_offset:
  "strchr_offset (CHR ''P'' # date_text mo wk d @ CHR ''T'' # r) CHR ''T'' =
     Some (Suc (length (date_text mo wk d)))"
  using no_T_in_date [of mo wk d]
  by (auto simp: strchr_offset_def takeWhile_append intro: takeWhile_eq_all_conv [THEN iffD2])

lemma no_T_offset: "strchr_offset (CHR ''P'' # date_text mo wk d) CHR ''T'' = None"
  by (simp add: strchr_offset_def no_T_in_date)

text \<open>Parsing a text made of a date and a time part, either of which may be empty.\<close>

lemma parse_duration_text:
  assumes d: "mo \<le> 1" "wk \<le> 7" "d \<le> 49" and t: "h \<le> 1193" "mi \<le> 71582" "sec \<le> 4294967"
    and tot: "tot = mo * 2592000000 + wk * 604800000 + d * 86400000 + h * 3600000 + mi * 60000 + sec * 1000"
    and range: "0 < tot" "tot < 4294967296"
  shows "TimeUtils_ISO8601DurationStringToMilliseconds (Some (CHR ''P'' # date_text mo wk d @
      (if time_text h mi sec = [] then [] else CHR ''T'' # time_text h mi sec))) = Some (of_nat tot)"
proof -
  let ?D = "date_text mo wk d" let ?T = "time_text h mi sec"
  let ?dv = "mo * 2592000000 + wk * 604800000 + d * 86400000"
  let ?tv = "h * 3600000 + mi * 60000 + sec * 1000"
  have tot': "tot = ?dv + ?tv" using tot by simp
  have nz: "(of_nat tot :: u32) \<noteq> 0"
    using range by (simp add: word_unat_eq_iff unat_simps del: unat_eq_0)
  have dp: "TimeUtils_ParseDateString (Some (?D @ rest)) 0 = (True, of_nat ?dv)"
    if "?D \<noteq> []" "date_ends rest" for rest
    using that d tot' range(2) by (intro parse_date_text) simp_all
  have tp: "TimeUtils_ParseTimeString (Some ?T) 0 = (True, of_nat ?tv)" if "?T \<noteq> []"
    using that t tot' range(2) by (intro parse_time_text) simp_all
  have add: "Utils_AddUnsignedIntsWithOverflowCheck (of_nat ?dv) (of_nat ?tv) = Some (of_nat tot)"
    unfolding tot' using range(2) tot' by (intro AddUnsigned_of_nat) simp
  show ?thesis
  proof (cases "?T = []")
    case True
    then have "?tv = 0" by simp
    then have "?D \<noteq> []" "?dv = tot" using tot' range(1) by (auto simp: date_text_Nil)
    with True dp [of "[]"] nz show ?thesis
      by (simp add: TimeUtils_ISO8601DurationStringToMilliseconds_def Let_def no_T_offset char_at_def
          del: date_text_Nil of_nat_add of_nat_mult)
  next
    case T: False
    show ?thesis
    proof (cases "?D = []")
      case True
      then have "?dv = 0" "?tv = tot" using tot' by simp_all
      with True T tp nz T_offset [of mo wk d ?T] show ?thesis
        by (simp add: TimeUtils_ISO8601DurationStringToMilliseconds_def Let_def char_at_def
            del: date_text_Nil time_text_Nil of_nat_add of_nat_mult)
    next
      case False
      with T dp [of "CHR ''T'' # ?T"] tp nz add T_offset [of mo wk d ?T] show ?thesis
        by (simp add: TimeUtils_ISO8601DurationStringToMilliseconds_def Let_def char_at_def
            del: date_text_Nil time_text_Nil of_nat_add of_nat_mult)
    qed
  qed
qed

text \<open>Reading back what the printer wrote gives the duration rounded down to seconds.\<close>

lemma remainder_chain:
  fixes ms :: nat
  assumes "ms = a + r1" "r1 = b + r2" "r2 = c + r3" "r3 = d + r4" "r4 = e + r5" "r5 = f + m"
  shows "ms - m = a + b + c + d + e + f"
  using assms by simp

lemma seconds_of_components:
  fixes ms :: nat
  defines "r1 \<equiv> ms mod 2592000000"
  defines "r2 \<equiv> r1 mod 604800000"
  defines "r3 \<equiv> r2 mod 86400000"
  defines "r4 \<equiv> r3 mod 3600000"
  defines "r5 \<equiv> r4 mod 60000"
  shows "ms - ms mod 1000 = ms div 2592000000 * 2592000000 + r1 div 604800000 * 604800000
    + r2 div 86400000 * 86400000 + r3 div 3600000 * 3600000 + r4 div 60000 * 60000 + r5 div 1000 * 1000"
proof -
  have "r5 mod 1000 = r4 mod 1000" "r4 mod 1000 = r3 mod 1000" "r3 mod 1000 = r2 mod 1000"
    "r2 mod 1000 = r1 mod 1000" "r1 mod 1000 = ms mod 1000"
    unfolding r1_def r2_def r3_def r4_def r5_def by (rule mod_mod_cancel; simp)+
  then have m: "r5 mod 1000 = ms mod 1000" by simp
  show ?thesis
    unfolding m [symmetric]
    by (rule remainder_chain, unfold r1_def r2_def r3_def r4_def r5_def)
       (rule div_mult_mod_eq [symmetric])+
qed

lemma mod_div_le: "a mod b div c \<le> n" if "b \<le> Suc n * c" "0 < b" for a b c n :: nat
proof -
  have "a mod b < Suc n * c" using that mod_less_divisor [of b a] by linarith
  then have "a mod b div c < Suc n" by (rule less_mult_imp_div_less)
  then show ?thesis by simp
qed

lemma parse_printed:
  assumes "1000 \<le> ms" "ms < 4294967296"
  shows "TimeUtils_ISO8601DurationStringToMilliseconds (Some (duration_text ms)) =
    Some (of_nat (ms - ms mod 1000))"
proof -
  have "ms div 2592000000 < 2" using assms(2) by (intro less_mult_imp_div_less) simp
  then have mo: "ms div 2592000000 \<le> 1" by simp
  have pos: "0 < ms - ms mod 1000"
    using assms(1) mod_less_divisor [of 1000 ms] by linarith
  have lt: "ms - ms mod 1000 < 4294967296" using assms(2) by simp
  show ?thesis
    unfolding duration_text_def Let_def append_Cons append_Nil
    by (rule parse_duration_text [OF mo _ _ _ _ _ seconds_of_components pos lt])
       (rule mod_div_le; simp)+
qed

lemma T_not_digit: "CHR ''T'' \<notin> set (nat_to_dec n)"
  using nat_to_dec_digits [of "CHR ''T''" n] unit_letters by blast

lemma strchr_offset_year:
  "strchr_offset (CHR ''P'' # nat_to_dec n @ CHR ''Y'' # r) CHR ''T'' =
    map_option (\<lambda>i. length (nat_to_dec n) + 2 + i) (strchr_offset r CHR ''T'')"
proof -
  have "takeWhile (\<lambda>x. x \<noteq> CHR ''T'') (nat_to_dec n @ CHR ''Y'' # r) =
      nat_to_dec n @ CHR ''Y'' # takeWhile (\<lambda>x. x \<noteq> CHR ''T'') r"
    using T_not_digit [of n] by (subst takeWhile_append2) auto
  then show ?thesis using T_not_digit [of n] by (simp add: strchr_offset_def)
qed

lemma year_only: "TimeUtils_ISO8601DurationStringToMilliseconds (Some (''P'' @ nat_to_dec (unat (y :: u32)) @ ''Y'')) = None"
  using strchr_offset_year [of "unat y" "[]"]
  by (simp add: TimeUtils_ISO8601DurationStringToMilliseconds_def TimeUtils_ParseDateString_def date_blocks_def
   year_block_def char_at_def strchr_offset_def [of "[]"] u32_less)

lemma year_time:
  assumes "y \<le> MAX_YEARS_IN_UINT32"
  shows "TimeUtils_ISO8601DurationStringToMilliseconds (Some (''P'' @ nat_to_dec (unat y) @ ''YT'' @ t))
    = TimeUtils_ISO8601DurationStringToMilliseconds (Some (''PT'' @ t))"
proof -
  have "strchr_offset (''PT'' @ t) CHR ''T'' = Some 1" by (simp add: strchr_offset_def)
  moreover have "strchr_offset (''P'' @ nat_to_dec (unat y) @ ''YT'' @ t) CHR ''T'' = Some (length (nat_to_dec (unat y)) + 2)"
    using strchr_offset_year [of "unat y" "CHR ''T'' # t"] by (simp add: strchr_offset_def [of "CHR ''T'' # t"])
  moreover have "\<not> MAX_YEARS_IN_UINT32 < y" using assms by simp
  ultimately show ?thesis
  by (simp add: TimeUtils_ISO8601DurationStringToMilliseconds_def TimeUtils_ParseDateString_def date_blocks_def
   year_block_def char_at_def u32_less Let_def AddUnsigned_0)
qed
section \<open>Properties\<close>

text \<open>
  C38: a duration of at least a second, printed into a buffer of at least 19 characters, fits with
  its terminator, and parsing the text gives the duration back, cut to whole seconds.
\<close>

theorem duration_round_trip:
  assumes "1000 \<le> unat ms" and "19 \<le> unat len"
  shows "\<exists>b. TimeUtils_MillisecondsToISO8601DurationString ms len = (True, b)
    \<and> length (written b) < unat len
    \<and> TimeUtils_ISO8601DurationStringToMilliseconds (Some (written b)) = Some (of_nat (unat ms - unat ms mod 1000))"
proof -
  obtain b where b: "TimeUtils_MillisecondsToISO8601DurationString ms len = (True, b)"
    "written b = duration_text (unat ms)"
    by (rule print_duration [OF assms])
  moreover have "length (duration_text (unat ms)) < unat len"
    using duration_text_length [OF u32_less [of ms]] assms(2) by linarith
  ultimately show ?thesis using parse_printed [OF assms(1) u32_less] by simp
qed

theorem duration_round_trip_witness:
  "\<exists>b. TimeUtils_MillisecondsToISO8601DurationString 3661500 19 = (True, b)
    \<and> TimeUtils_ISO8601DurationStringToMilliseconds (Some (written b)) = Some 3661000"
  using duration_round_trip [of 3661500 19] by auto

text \<open>
  a duration shorter than a second, or a buffer of less than 19 characters, is refused and
  nothing is written; the printer succeeds in every other case.
\<close>

theorem duration_print_iff:
  "fst (TimeUtils_MillisecondsToISO8601DurationString ms len) \<longleftrightarrow> 1000 \<le> unat ms \<and> 19 \<le> unat len"
proof (cases "1000 \<le> unat ms \<and> 19 \<le> unat len")
  case True
  then obtain b where "TimeUtils_MillisecondsToISO8601DurationString ms len = (True, b)"
    using print_duration [of ms len] by blast
  with True show ?thesis by simp
next
  case False
  then show ?thesis
    by (auto simp: TimeUtils_MillisecondsToISO8601DurationString_def Let_def DURATION_MAX_LENGTH_def
        word_less_nat_alt not_le)
qed

text \<open>
  every duration the parser accepts is a positive whole number of seconds, whatever the text;
  no wrap-around of the 32-bit sums can produce anything else.
\<close>

theorem duration_whole_seconds:
  assumes "TimeUtils_ISO8601DurationStringToMilliseconds d = Some r"
  shows "1000 \<le> unat r \<and> unat r mod 1000 = 0"
  using ISO8601_seconds [OF assms] by (simp add: whole_seconds_def)

theorem duration_whole_seconds_witness:
  "1000 \<le> unat (5000 :: u32) \<and> unat (5000 :: u32) mod 1000 = 0"
  by (rule duration_whole_seconds [of "Some (duration_text 5000)"]) (simp add: parse_printed)

text \<open>
  years count for nothing.  A duration of years only is refused, and years in front of a time
  part leave the value of the time part, for every number of years the parser lets through.
\<close>

theorem years_are_dropped:
  assumes "y \<le> MAX_YEARS_IN_UINT32"
  shows "TimeUtils_ISO8601DurationStringToMilliseconds (Some (''P'' @ nat_to_dec (unat y) @ ''Y'')) = None
    \<and> TimeUtils_ISO8601DurationStringToMilliseconds (Some (''P'' @ nat_to_dec (unat y) @ ''YT'' @ t))
      = TimeUtils_ISO8601DurationStringToMilliseconds (Some (''PT'' @ t))"
  using year_only year_time [OF assms] by blast

theorem years_are_dropped_witness:
  "TimeUtils_ISO8601DurationStringToMilliseconds (Some (''P'' @ nat_to_dec (unat (1 :: u32)) @ ''YT'' @ ''5S''))
    = TimeUtils_ISO8601DurationStringToMilliseconds (Some (''PT'' @ ''5S''))"
  using years_are_dropped [of 1 "''5S''"]
  by (simp add: MAX_YEARS_IN_UINT32_def MILLISECONDS_IN_A_YEAR_def UINT32_MAX_def word_le_nat_alt)

end
