(* ===== verification/Json_Reader.thy ===== *)
theory Json_Reader
  imports Time_Utils
begin

text \<open>
  The read side of the agent's JSON layer: \<^verbatim>\<open>src/agent/src/json/json_object_reader.c\<close>,
  \<^verbatim>\<open>json_array_reader.c\<close> and \<^verbatim>\<open>json_reader.c\<close>.  The documents belong to the parson library, which is
  not part of the repository: its functions are the record \<open>parson\<close>, an argument of every
  operation, over an opaque type \<open>'v\<close> of values, \<open>'o\<close> of objects and \<open>'r\<close> of arrays.
  The laws of parson that a lemma needs are stated with it.
\<close>

datatype JsonReaderResult =
  JSON_READER_OK | JSON_READER_KEY_MISSING | JSON_READER_VALUE_IS_NULL
| JSON_READER_PARSE_ERROR | JSON_READER_EXCEPTION

datatype JSON_Value_Type =
  JSONError | JSONNull | JSONString | JSONNumber | JSONObject | JSONArray | JSONBoolean

text \<open>
  \<open>json_value_get_int32\<close> is \<open>(int32_t) json_value_get_number(v)\<close>, the conversion in which the code
  uses numbers; a NULL result is \<open>None\<close>.
\<close>

record ('v, 'o, 'r) parson =
  json_parse_string :: "string \<Rightarrow> 'v option"
  json_parse_file :: "string \<Rightarrow> 'v option"
  json_value_get_object :: "'v \<Rightarrow> 'o option"
  json_object_dothas_value :: "'o \<Rightarrow> string \<Rightarrow> bool"
  json_object_dotget_value :: "'o \<Rightarrow> string \<Rightarrow> 'v option"
  json_object_dotget_object :: "'o \<Rightarrow> string \<Rightarrow> 'o option"
  json_object_dotget_array :: "'o \<Rightarrow> string \<Rightarrow> 'r option"
  json_object_dothas_value_of_type :: "'o \<Rightarrow> string \<Rightarrow> JSON_Value_Type \<Rightarrow> bool"
  json_value_get_type :: "'v \<Rightarrow> JSON_Value_Type"
  json_value_get_string :: "'v \<Rightarrow> string option"
  json_value_get_int32 :: "'v \<Rightarrow> u32"
  json_value_get_boolean :: "'v \<Rightarrow> int"
  json_object_get_wrapping_value :: "'o \<Rightarrow> 'v option"
  json_value_get_parent :: "'v \<Rightarrow> 'v option"
  json_array_get_count :: "'r \<Rightarrow> u32"
  json_array_get_object :: "'r \<Rightarrow> u32 \<Rightarrow> 'o option"

record ('v, 'o) JsonObjectReader =
  rootValue :: "'v option"
  rootObject :: 'o
  shouldFree :: bool

section \<open>Creating readers\<close>

definition JsonObjectReader_Init ::
  "('v, 'o, 'r) parson \<Rightarrow> string \<Rightarrow> bool \<Rightarrow> 'a env_scheme \<Rightarrow>
    (JsonReaderResult \<times> ('v, 'o) JsonObjectReader option) \<times> 'a env_scheme" where
  "JsonObjectReader_Init P data isString w =
     (let (ok, w1) = sys_malloc w in
      if \<not> ok then ((JSON_READER_EXCEPTION, None), w1)
      else
        case (if isString then json_parse_string P data else json_parse_file P data) of
          None \<Rightarrow> ((JSON_READER_EXCEPTION, None), w1)
        | Some v \<Rightarrow>
            (case json_value_get_object P v of
               None \<Rightarrow> ((JSON_READER_EXCEPTION, None), w1)
             | Some obj \<Rightarrow>
                 ((JSON_READER_OK, Some \<lparr>rootValue = Some v, rootObject = obj, shouldFree = True\<rparr>), w1)))"

definition JsonObjectReader_InitFromString ::
  "('v, 'o, 'r) parson \<Rightarrow> string \<Rightarrow> 'a env_scheme \<Rightarrow>
    (JsonReaderResult \<times> ('v, 'o) JsonObjectReader option) \<times> 'a env_scheme" where
  "JsonObjectReader_InitFromString P data w = JsonObjectReader_Init P data True w"

definition JsonObjectReader_InitFromFile ::
  "('v, 'o, 'r) parson \<Rightarrow> string \<Rightarrow> 'a env_scheme \<Rightarrow>
    (JsonReaderResult \<times> ('v, 'o) JsonObjectReader option) \<times> 'a env_scheme" where
  "JsonObjectReader_InitFromFile P fileName w = JsonObjectReader_Init P fileName False w"

definition JsonObjectReader_InternalInit ::
  "'o \<Rightarrow> 'a env_scheme \<Rightarrow> (JsonReaderResult \<times> ('v, 'o) JsonObjectReader option) \<times> 'a env_scheme" where
  "JsonObjectReader_InternalInit object w =
     (let (ok, w1) = sys_malloc w in
      if \<not> ok then ((JSON_READER_EXCEPTION, None), w1)
      else ((JSON_READER_OK, Some \<lparr>rootValue = None, rootObject = object, shouldFree = False\<rparr>), w1))"

section \<open>Reading values\<close>

definition JsonObjectReader_GetValueOfType ::
  "('v, 'o, 'r) parson \<Rightarrow> ('v, 'o) JsonObjectReader \<Rightarrow> string \<Rightarrow> JSON_Value_Type \<Rightarrow>
    JsonReaderResult \<times> 'v option" where
  "JsonObjectReader_GetValueOfType P reader key ty =
     (if \<not> json_object_dothas_value P (rootObject reader) key then (JSON_READER_KEY_MISSING, None)
      else case json_object_dotget_value P (rootObject reader) key of
        None \<Rightarrow> (JSON_READER_EXCEPTION, None)
      | Some v \<Rightarrow>
          (let actualType = json_value_get_type P v in
           if actualType = JSONError then (JSON_READER_EXCEPTION, None)
           else if actualType = JSONNull then (JSON_READER_VALUE_IS_NULL, None)
           else if actualType \<noteq> ty then (JSON_READER_PARSE_ERROR, None)
           else (JSON_READER_OK, Some v)))"

definition JsonObjectReader_ReadString ::
  "('v, 'o, 'r) parson \<Rightarrow> ('v, 'o) JsonObjectReader \<Rightarrow> string \<Rightarrow> JsonReaderResult \<times> string option" where
  "JsonObjectReader_ReadString P reader key =
     (case JsonObjectReader_GetValueOfType P reader key JSONString of
        (JSON_READER_OK, Some v) \<Rightarrow>
          (case json_value_get_string P v of
             None \<Rightarrow> (JSON_READER_EXCEPTION, None)
           | Some s \<Rightarrow> (JSON_READER_OK, Some s))
      | (r, _) \<Rightarrow> (r, None))"

definition JsonObjectReader_ReadInt ::
  "('v, 'o, 'r) parson \<Rightarrow> ('v, 'o) JsonObjectReader \<Rightarrow> string \<Rightarrow> JsonReaderResult \<times> u32 option" where
  "JsonObjectReader_ReadInt P reader key =
     (case JsonObjectReader_GetValueOfType P reader key JSONNumber of
        (JSON_READER_OK, Some v) \<Rightarrow> (JSON_READER_OK, Some (json_value_get_int32 P v))
      | (r, _) \<Rightarrow> (r, None))"

definition JsonObjectReader_ReadBool ::
  "('v, 'o, 'r) parson \<Rightarrow> ('v, 'o) JsonObjectReader \<Rightarrow> string \<Rightarrow> JsonReaderResult \<times> bool option" where
  "JsonObjectReader_ReadBool P reader key =
     (case JsonObjectReader_GetValueOfType P reader key JSONBoolean of
        (JSON_READER_OK, Some v) \<Rightarrow> (JSON_READER_OK, Some (json_value_get_boolean P v \<noteq> 0))
      | (r, _) \<Rightarrow> (r, None))"

definition JsonObjectReader_ReadTimeInMilliseconds ::
  "('v, 'o, 'r) parson \<Rightarrow> ('v, 'o) JsonObjectReader \<Rightarrow> string \<Rightarrow> JsonReaderResult \<times> u32 option" where
  "JsonObjectReader_ReadTimeInMilliseconds P reader key =
     (case JsonObjectReader_ReadString P reader key of
        (JSON_READER_OK, timeValue) \<Rightarrow>
          (case TimeUtils_ISO8601DurationStringToMilliseconds timeValue of
             None \<Rightarrow> (JSON_READER_PARSE_ERROR, None)
           | Some t \<Rightarrow> (JSON_READER_OK, Some t))
      | (r, _) \<Rightarrow> (r, None))"

section \<open>Moving the cursor\<close>

definition JsonObjectReader_StepIn ::
  "('v, 'o, 'r) parson \<Rightarrow> ('v, 'o) JsonObjectReader \<Rightarrow> string \<Rightarrow>
    JsonReaderResult \<times> ('v, 'o) JsonObjectReader" where
  "JsonObjectReader_StepIn P reader key =
     (case JsonObjectReader_GetValueOfType P reader key JSONObject of
        (JSON_READER_OK, Some v) \<Rightarrow>
          (case json_value_get_object P v of
             None \<Rightarrow> (JSON_READER_EXCEPTION, reader)
           | Some newRoot \<Rightarrow> (JSON_READER_OK, reader\<lparr>rootObject := newRoot\<rparr>))
      | (r, _) \<Rightarrow> (r, reader))"

definition JsonObjectReader_StepOut ::
  "('v, 'o, 'r) parson \<Rightarrow> ('v, 'o) JsonObjectReader \<Rightarrow> JsonReaderResult \<times> ('v, 'o) JsonObjectReader" where
  "JsonObjectReader_StepOut P reader =
     (case json_object_get_wrapping_value P (rootObject reader) of
        None \<Rightarrow> (JSON_READER_EXCEPTION, reader)
      | Some v \<Rightarrow>
          (case json_value_get_parent P v of
             None \<Rightarrow> (JSON_READER_EXCEPTION, reader)
           | Some parentValue \<Rightarrow>
               (case json_value_get_object P parentValue of
                  None \<Rightarrow> (JSON_READER_EXCEPTION, reader)
                | Some newRoot \<Rightarrow> (JSON_READER_OK, reader\<lparr>rootObject := newRoot\<rparr>))))"

section \<open>Sub-readers\<close>

definition JsonObjectReader_ReadObject ::
  "('v, 'o, 'r) parson \<Rightarrow> ('v, 'o) JsonObjectReader \<Rightarrow> string \<Rightarrow> 'a env_scheme \<Rightarrow>
    (JsonReaderResult \<times> ('v, 'o) JsonObjectReader option) \<times> 'a env_scheme" where
  "JsonObjectReader_ReadObject P reader key w =
     (if \<not> json_object_dothas_value_of_type P (rootObject reader) key JSONObject
      then ((JSON_READER_KEY_MISSING, None), w)
      else case json_object_dotget_object P (rootObject reader) key of
        None \<Rightarrow> ((JSON_READER_EXCEPTION, None), w)
      | Some subObject \<Rightarrow>
          (let (ok, w1) = sys_malloc w in
           if \<not> ok then ((JSON_READER_EXCEPTION, None), w1)
           else ((JSON_READER_OK, Some \<lparr>rootValue = None, rootObject = subObject, shouldFree = False\<rparr>), w1)))"

definition JsonArrayReader_Init ::
  "('v, 'o, 'r) parson \<Rightarrow> ('v, 'o) JsonObjectReader \<Rightarrow> string \<Rightarrow> 'a env_scheme \<Rightarrow>
    (JsonReaderResult \<times> 'r option) \<times> 'a env_scheme" where
  "JsonArrayReader_Init P parent name w =
     (if \<not> json_object_dothas_value_of_type P (rootObject parent) name JSONArray
      then ((JSON_READER_KEY_MISSING, None), w)
      else
        let (ok, w1) = sys_malloc w in
        if \<not> ok then ((JSON_READER_EXCEPTION, None), w1)
        else case json_object_dotget_array P (rootObject parent) name of
          None \<Rightarrow> ((JSON_READER_EXCEPTION, None), w1)
        | Some rootArray \<Rightarrow> ((JSON_READER_OK, Some rootArray), w1))"

definition JsonObjectReader_ReadArray ::
  "('v, 'o, 'r) parson \<Rightarrow> ('v, 'o) JsonObjectReader \<Rightarrow> string \<Rightarrow> 'a env_scheme \<Rightarrow>
    (JsonReaderResult \<times> 'r option) \<times> 'a env_scheme" where
  "JsonObjectReader_ReadArray P reader key w = JsonArrayReader_Init P reader key w"

definition JsonArrayReader_GetSize :: "('v, 'o, 'r) parson \<Rightarrow> 'r \<Rightarrow> JsonReaderResult \<times> u32" where
  "JsonArrayReader_GetSize P rootArray = (JSON_READER_OK, json_array_get_count P rootArray)"

definition JsonArrayReader_ReadObject ::
  "('v, 'o, 'r) parson \<Rightarrow> 'r \<Rightarrow> u32 \<Rightarrow> 'a env_scheme \<Rightarrow>
    (JsonReaderResult \<times> ('v, 'o) JsonObjectReader option) \<times> 'a env_scheme" where
  "JsonArrayReader_ReadObject P rootArray index w =
     (case json_array_get_object P rootArray index of
        None \<Rightarrow> ((JSON_READER_EXCEPTION, None), w)
      | Some innerObject \<Rightarrow> JsonObjectReader_InternalInit innerObject w)"

end
