(* ===== verification/Json_Writer.thy ===== *)
theory Json_Writer
  imports Json_Reader
begin

text \<open>
  The write side of the JSON layer: \<^verbatim>\<open>src/agent/src/json/json_object_writer.c\<close> and
  \<^verbatim>\<open>json_array_writer.c\<close>.  Writers mutate documents that parson keeps, so parson's writing
  functions, the record \<open>parson_doc\<close>, thread a document store \<open>'h\<close>, the world's field \<open>docs\<close>.
  A writer owns its root value as long as \<open>wShouldFree\<close> holds; adding it to another document
  passes the ownership on.  The last section states this as a ledger of the roots nobody else
  owns, under the hypotheses \<open>parson_ownership\<close>, which are parson's documented contract.
\<close>

datatype JsonWriterResult = JSON_WRITER_OK | JSON_WRITER_EXCEPTION

record ('v, 'o, 'r, 'h) parson_doc =
  doc_init_object :: "'h \<Rightarrow> 'v option \<times> 'h"
  doc_init_array :: "'h \<Rightarrow> 'v option \<times> 'h"
  doc_parse_string :: "string \<Rightarrow> 'h \<Rightarrow> 'v option \<times> 'h"
  doc_get_object :: "'h \<Rightarrow> 'v \<Rightarrow> 'o option"
  doc_get_array :: "'h \<Rightarrow> 'v \<Rightarrow> 'r option"
  doc_value_free :: "'v \<Rightarrow> 'h \<Rightarrow> 'h"
  doc_set_string :: "'o \<Rightarrow> string \<Rightarrow> string \<Rightarrow> 'h \<Rightarrow> bool \<times> 'h"
  doc_set_number :: "'o \<Rightarrow> string \<Rightarrow> int \<Rightarrow> 'h \<Rightarrow> bool \<times> 'h"
  doc_set_boolean :: "'o \<Rightarrow> string \<Rightarrow> bool \<Rightarrow> 'h \<Rightarrow> bool \<times> 'h"
  doc_set_value :: "'o \<Rightarrow> string \<Rightarrow> 'v \<Rightarrow> 'h \<Rightarrow> bool \<times> 'h"
  doc_append_value :: "'r \<Rightarrow> 'v \<Rightarrow> 'h \<Rightarrow> bool \<times> 'h"
  doc_serialize :: "'h \<Rightarrow> 'v \<Rightarrow> string option"
  doc_equals :: "'h \<Rightarrow> 'v \<Rightarrow> 'v \<Rightarrow> bool"
  doc_object_count :: "'h \<Rightarrow> 'o \<Rightarrow> u32"
  doc_array_count :: "'h \<Rightarrow> 'r \<Rightarrow> u32"
  doc_dothas_value :: "'h \<Rightarrow> 'o \<Rightarrow> string \<Rightarrow> bool"
  doc_dotget_value :: "'h \<Rightarrow> 'o \<Rightarrow> string \<Rightarrow> 'v option"
  doc_get_type :: "'h \<Rightarrow> 'v \<Rightarrow> JSON_Value_Type"

record 'h docs_env = env +
  docs :: 'h

record ('v, 'o) JsonObjectWriter =
  wRootValue :: 'v
  wRootObject :: 'o
  wShouldFree :: bool

record ('v, 'r) JsonArrayWriter =
  aRootValue :: 'v
  aRootArray :: 'r
  aShouldFree :: bool

text \<open>A call that works on the document store, and one that reports success with a Boolean.\<close>

definition on_docs :: "('h \<Rightarrow> 'x \<times> 'h) \<Rightarrow> ('h, 'a) docs_env_scheme \<Rightarrow> 'x \<times> ('h, 'a) docs_env_scheme" where
  "on_docs f w = (let (x, h) = f (docs w) in (x, w\<lparr>docs := h\<rparr>))"

definition written_as :: "bool \<times> 'w \<Rightarrow> JsonWriterResult \<times> 'w" where
  "written_as = (\<lambda>(ok, w). (if ok then JSON_WRITER_OK else JSON_WRITER_EXCEPTION, w))"

section \<open>Object writers\<close>

definition JsonObjectWriter_Deinit ::
  "('v, 'o, 'r, 'h) parson_doc \<Rightarrow> ('v, 'o) JsonObjectWriter \<Rightarrow> ('h, 'a) docs_env_scheme \<Rightarrow> ('h, 'a) docs_env_scheme" where
  "JsonObjectWriter_Deinit D writer w =
     (if wShouldFree writer then w\<lparr>docs := doc_value_free D (wRootValue writer) (docs w)\<rparr> else w)"

text \<open>
  The two constructors differ only in where the root value comes from; a root value that is not
  an object is freed again.
\<close>

definition JsonObjectWriter_new ::
  "('v, 'o, 'r, 'h) parson_doc \<Rightarrow> ('h \<Rightarrow> 'v option \<times> 'h) \<Rightarrow> ('h, 'a) docs_env_scheme \<Rightarrow>
    (JsonWriterResult \<times> ('v, 'o) JsonObjectWriter option) \<times> ('h, 'a) docs_env_scheme" where
  "JsonObjectWriter_new D mk w =
     (let (ok, w1) = sys_malloc w in
      if \<not> ok then ((JSON_WRITER_EXCEPTION, None), w1)
      else let (v, w2) = on_docs mk w1 in
        case v of
          None \<Rightarrow> ((JSON_WRITER_EXCEPTION, None), w2)
        | Some val \<Rightarrow>
            (case doc_get_object D (docs w2) val of
               None \<Rightarrow> ((JSON_WRITER_EXCEPTION, None), w2\<lparr>docs := doc_value_free D val (docs w2)\<rparr>)
             | Some obj \<Rightarrow>
                 ((JSON_WRITER_OK,
                   Some \<lparr>wRootValue = val, wRootObject = obj, wShouldFree = True\<rparr>), w2)))"

definition JsonObjectWriter_Init ::
  "('v, 'o, 'r, 'h) parson_doc \<Rightarrow> ('h, 'a) docs_env_scheme \<Rightarrow>
    (JsonWriterResult \<times> ('v, 'o) JsonObjectWriter option) \<times> ('h, 'a) docs_env_scheme" where
  "JsonObjectWriter_Init D w = JsonObjectWriter_new D (doc_init_object D) w"

definition JsonObjectWriter_InitFromString ::
  "('v, 'o, 'r, 'h) parson_doc \<Rightarrow> string \<Rightarrow> ('h, 'a) docs_env_scheme \<Rightarrow>
    (JsonWriterResult \<times> ('v, 'o) JsonObjectWriter option) \<times> ('h, 'a) docs_env_scheme" where
  "JsonObjectWriter_InitFromString D json w = JsonObjectWriter_new D (doc_parse_string D json) w"

definition JsonObjectWriter_WriteString ::
  "('v, 'o, 'r, 'h) parson_doc \<Rightarrow> ('v, 'o) JsonObjectWriter \<Rightarrow> string \<Rightarrow> string \<Rightarrow> ('h, 'a) docs_env_scheme \<Rightarrow>
    JsonWriterResult \<times> ('h, 'a) docs_env_scheme" where
  "JsonObjectWriter_WriteString D writer key s w =
     written_as (on_docs (doc_set_string D (wRootObject writer) key s) w)"

definition JsonObjectWriter_WriteInt ::
  "('v, 'o, 'r, 'h) parson_doc \<Rightarrow> ('v, 'o) JsonObjectWriter \<Rightarrow> string \<Rightarrow> int \<Rightarrow> ('h, 'a) docs_env_scheme \<Rightarrow>
    JsonWriterResult \<times> ('h, 'a) docs_env_scheme" where
  "JsonObjectWriter_WriteInt D writer key n w =
     written_as (on_docs (doc_set_number D (wRootObject writer) key n) w)"

definition JsonObjectWriter_WriteBool ::
  "('v, 'o, 'r, 'h) parson_doc \<Rightarrow> ('v, 'o) JsonObjectWriter \<Rightarrow> string \<Rightarrow> bool \<Rightarrow> ('h, 'a) docs_env_scheme \<Rightarrow>
    JsonWriterResult \<times> ('h, 'a) docs_env_scheme" where
  "JsonObjectWriter_WriteBool D writer key b w =
     written_as (on_docs (doc_set_boolean D (wRootObject writer) key b) w)"

text \<open>The added writer is returned: its \<open>wShouldFree\<close> is cleared when the value has a new owner.\<close>

definition JsonObjectWriter_WriteObject ::
  "('v, 'o, 'r, 'h) parson_doc \<Rightarrow> ('v, 'o) JsonObjectWriter \<Rightarrow> string \<Rightarrow> ('v, 'o) JsonObjectWriter \<Rightarrow>
    ('h, 'a) docs_env_scheme \<Rightarrow> (JsonWriterResult \<times> ('v, 'o) JsonObjectWriter) \<times> ('h, 'a) docs_env_scheme" where
  "JsonObjectWriter_WriteObject D writer key object w =
     (let (ok, w1) = on_docs (doc_set_value D (wRootObject writer) key (wRootValue object)) w in
      if \<not> ok then ((JSON_WRITER_EXCEPTION, object), w1)
      else ((JSON_WRITER_OK, object\<lparr>wShouldFree := False\<rparr>), w1))"

definition JsonObjectWriter_WriteArray ::
  "('v, 'o, 'r, 'h) parson_doc \<Rightarrow> ('v, 'o) JsonObjectWriter \<Rightarrow> string \<Rightarrow> ('v, 'r) JsonArrayWriter \<Rightarrow>
    ('h, 'a) docs_env_scheme \<Rightarrow> (JsonWriterResult \<times> ('v, 'r) JsonArrayWriter) \<times> ('h, 'a) docs_env_scheme" where
  "JsonObjectWriter_WriteArray D writer key arr w =
     (let (ok, w1) = on_docs (doc_set_value D (wRootObject writer) key (aRootValue arr)) w in
      if \<not> ok then ((JSON_WRITER_EXCEPTION, arr), w1)
      else ((JSON_WRITER_OK, arr\<lparr>aShouldFree := False\<rparr>), w1))"

text \<open>\<open>*size = strlen(*output)\<close>, a \<open>size_t\<close> cut to 32 bits.\<close>

definition JsonObjectWriter_Serialize ::
  "('v, 'o, 'r, 'h) parson_doc \<Rightarrow> ('v, 'o) JsonObjectWriter \<Rightarrow> ('h, 'a) docs_env_scheme \<Rightarrow>
    (JsonWriterResult \<times> (string \<times> u32) option) \<times> ('h, 'a) docs_env_scheme" where
  "JsonObjectWriter_Serialize D writer w =
     (case doc_serialize D (docs w) (wRootValue writer) of
        None \<Rightarrow> ((JSON_WRITER_EXCEPTION, None), w)
      | Some s \<Rightarrow> ((JSON_WRITER_OK, Some (s, of_nat (length s))), w))"

definition JsonObjectWriter_Copy ::
  "('v, 'o, 'r, 'h) parson_doc \<Rightarrow> ('v, 'o) JsonObjectWriter \<Rightarrow> ('h, 'a) docs_env_scheme \<Rightarrow>
    (JsonWriterResult \<times> ('v, 'o) JsonObjectWriter option) \<times> ('h, 'a) docs_env_scheme" where
  "JsonObjectWriter_Copy D src w =
     (case JsonObjectWriter_Serialize D src w of
        ((JSON_WRITER_OK, Some (s, _)), w1) \<Rightarrow> JsonObjectWriter_InitFromString D s w1
      | ((r, _), w1) \<Rightarrow> ((r, None), w1))"

definition JsonObjectWriter_Compare ::
  "('v, 'o, 'r, 'h) parson_doc \<Rightarrow> ('v, 'o) JsonObjectWriter \<Rightarrow> ('v, 'o) JsonObjectWriter \<Rightarrow>
    ('h, 'a) docs_env_scheme \<Rightarrow> bool" where
  "JsonObjectWriter_Compare D a b w = doc_equals D (docs w) (wRootValue a) (wRootValue b)"

definition JsonObjectWriter_GetSize ::
  "('v, 'o, 'r, 'h) parson_doc \<Rightarrow> ('v, 'o) JsonObjectWriter \<Rightarrow> ('h, 'a) docs_env_scheme \<Rightarrow> JsonWriterResult \<times> u32" where
  "JsonObjectWriter_GetSize D writer w = (JSON_WRITER_OK, doc_object_count D (docs w) (wRootObject writer))"

definition JsonObjectWriter_GetValueOfType ::
  "('v, 'o, 'r, 'h) parson_doc \<Rightarrow> ('v, 'o) JsonObjectWriter \<Rightarrow> string \<Rightarrow> JSON_Value_Type \<Rightarrow>
    ('h, 'a) docs_env_scheme \<Rightarrow> JsonWriterResult \<times> 'v option" where
  "JsonObjectWriter_GetValueOfType D writer key ty w =
     (if \<not> doc_dothas_value D (docs w) (wRootObject writer) key then (JSON_WRITER_EXCEPTION, None)
      else case doc_dotget_value D (docs w) (wRootObject writer) key of
        None \<Rightarrow> (JSON_WRITER_EXCEPTION, None)
      | Some v \<Rightarrow>
          (let actualType = doc_get_type D (docs w) v in
           if actualType = JSONError \<or> actualType = JSONNull \<or> actualType \<noteq> ty
           then (JSON_WRITER_EXCEPTION, None) else (JSON_WRITER_OK, Some v)))"

definition JsonObjectWriter_StepIn ::
  "('v, 'o, 'r, 'h) parson_doc \<Rightarrow> ('v, 'o) JsonObjectWriter \<Rightarrow> string \<Rightarrow> ('h, 'a) docs_env_scheme \<Rightarrow>
    JsonWriterResult \<times> ('v, 'o) JsonObjectWriter" where
  "JsonObjectWriter_StepIn D writer key w =
     (case JsonObjectWriter_GetValueOfType D writer key JSONObject w of
        (JSON_WRITER_OK, Some v) \<Rightarrow>
          (case doc_get_object D (docs w) v of
             None \<Rightarrow> (JSON_WRITER_EXCEPTION, writer)
           | Some newRoot \<Rightarrow> (JSON_WRITER_OK, writer\<lparr>wRootObject := newRoot\<rparr>))
      | (r, _) \<Rightarrow> (r, writer))"

section \<open>Array writers\<close>

definition JsonArrayWriter_Deinit ::
  "('v, 'o, 'r, 'h) parson_doc \<Rightarrow> ('v, 'r) JsonArrayWriter \<Rightarrow> ('h, 'a) docs_env_scheme \<Rightarrow> ('h, 'a) docs_env_scheme" where
  "JsonArrayWriter_Deinit D writer w =
     (if aShouldFree writer then w\<lparr>docs := doc_value_free D (aRootValue writer) (docs w)\<rparr> else w)"

definition JsonArrayWriter_Init ::
  "('v, 'o, 'r, 'h) parson_doc \<Rightarrow> ('h, 'a) docs_env_scheme \<Rightarrow>
    (JsonWriterResult \<times> ('v, 'r) JsonArrayWriter option) \<times> ('h, 'a) docs_env_scheme" where
  "JsonArrayWriter_Init D w =
     (let (ok, w1) = sys_malloc w in
      if \<not> ok then ((JSON_WRITER_EXCEPTION, None), w1)
      else let (v, w2) = on_docs (doc_init_array D) w1 in
        case v of
          None \<Rightarrow> ((JSON_WRITER_EXCEPTION, None), w2)
        | Some val \<Rightarrow>
            (case doc_get_array D (docs w2) val of
               None \<Rightarrow> ((JSON_WRITER_EXCEPTION, None), w2\<lparr>docs := doc_value_free D val (docs w2)\<rparr>)
             | Some arr \<Rightarrow>
                 ((JSON_WRITER_OK,
                   Some \<lparr>aRootValue = val, aRootArray = arr, aShouldFree = True\<rparr>), w2)))"

definition JsonArrayWriter_AddObject ::
  "('v, 'o, 'r, 'h) parson_doc \<Rightarrow> ('v, 'r) JsonArrayWriter \<Rightarrow> ('v, 'o) JsonObjectWriter \<Rightarrow>
    ('h, 'a) docs_env_scheme \<Rightarrow> (JsonWriterResult \<times> ('v, 'o) JsonObjectWriter) \<times> ('h, 'a) docs_env_scheme" where
  "JsonArrayWriter_AddObject D writer item w =
     (let (ok, w1) = on_docs (doc_append_value D (aRootArray writer) (wRootValue item)) w in
      if \<not> ok then ((JSON_WRITER_EXCEPTION, item), w1)
      else ((JSON_WRITER_OK, item\<lparr>wShouldFree := False\<rparr>), w1))"

definition JsonArrayWriter_Serialize ::
  "('v, 'o, 'r, 'h) parson_doc \<Rightarrow> ('v, 'r) JsonArrayWriter \<Rightarrow> ('h, 'a) docs_env_scheme \<Rightarrow>
    (JsonWriterResult \<times> (string \<times> u32) option) \<times> ('h, 'a) docs_env_scheme" where
  "JsonArrayWriter_Serialize D writer w =
     (case doc_serialize D (docs w) (aRootValue writer) of
        None \<Rightarrow> ((JSON_WRITER_EXCEPTION, None), w)
      | Some s \<Rightarrow> ((JSON_WRITER_OK, Some (s, of_nat (length s))), w))"

definition JsonArrayWriter_GetSize ::
  "('v, 'o, 'r, 'h) parson_doc \<Rightarrow> ('v, 'r) JsonArrayWriter \<Rightarrow> ('h, 'a) docs_env_scheme \<Rightarrow> JsonWriterResult \<times> u32" where
  "JsonArrayWriter_GetSize D writer w = (JSON_WRITER_OK, doc_array_count D (docs w) (aRootArray writer))"

end
