(* ===== verification/Twin_Utils.thy ===== *)
theory Twin_Utils
  imports Json_Writer
begin

text \<open>
  Reading and writing one entry of the device twin, \<^verbatim>\<open>src/agent/src/twin_configuration_utils.c\<close>
  (result codes of \<^verbatim>\<open>inc/twin_configuration_defs.h\<close>).  An entry is an object with a single key
  \<open>"value"\<close>: reading steps into it, reads the value and steps out again.
\<close>

datatype TwinConfigurationResult =
  TWIN_OK | TWIN_CONF_NOT_EXIST | TWIN_LOCK_EXCEPTION | TWIN_PARSE_EXCEPTION
| TWIN_MEMORY_EXCEPTION | TWIN_EXCEPTION

datatype TwinConfigurationStatus = CONFIGURATION_OK | CONFIGURATION_TYPE_MISMATCH

definition VALUE_KEY :: string where "VALUE_KEY = ''value''"

section \<open>Reading\<close>

text \<open>
  The switch over the value's type is the argument \<open>rd\<close>, one of the four readers of
  \<^verbatim>\<open>json_object_reader.c\<close>; each caller fixes it, so the \<open>default:\<close> case cannot occur.  The out
  parameter is \<open>Some\<close> exactly when the reader has written it; the cursor is returned as it is
  left, also when stepping out fails.
\<close>

definition TwinConfigurationUtils_Internal_GetConfigurationValueFromJson ::
  "('v, 'o, 'r) parson \<Rightarrow> (('v, 'o) JsonObjectReader \<Rightarrow> string \<Rightarrow> JsonReaderResult \<times> 'x option) \<Rightarrow>
    ('v, 'o) JsonObjectReader \<Rightarrow> string \<Rightarrow>
    (TwinConfigurationResult \<times> 'x option) \<times> ('v, 'o) JsonObjectReader" where
  "TwinConfigurationUtils_Internal_GetConfigurationValueFromJson P rd reader key =
     (let (readerResult, inner) = JsonObjectReader_StepIn P reader key in
      if readerResult = JSON_READER_KEY_MISSING \<or> readerResult = JSON_READER_VALUE_IS_NULL
      then ((TWIN_CONF_NOT_EXIST, None), inner)
      else if readerResult = JSON_READER_PARSE_ERROR then ((TWIN_PARSE_EXCEPTION, None), inner)
      else if readerResult \<noteq> JSON_READER_OK then ((TWIN_EXCEPTION, None), inner)
      else
        let (valueResult, v) = rd inner VALUE_KEY;
            result =
              (if valueResult = JSON_READER_KEY_MISSING \<or> valueResult = JSON_READER_VALUE_IS_NULL
                  \<or> valueResult = JSON_READER_PARSE_ERROR then TWIN_PARSE_EXCEPTION
               else if valueResult \<noteq> JSON_READER_OK then TWIN_EXCEPTION else TWIN_OK);
            (outResult, outer) = JsonObjectReader_StepOut P inner
        in ((if outResult \<noteq> JSON_READER_OK then TWIN_EXCEPTION else result, v), outer))"

definition TwinConfigurationUtils_GetConfigurationTimeValueFromJson where
  "TwinConfigurationUtils_GetConfigurationTimeValueFromJson P =
     TwinConfigurationUtils_Internal_GetConfigurationValueFromJson P (JsonObjectReader_ReadTimeInMilliseconds P)"

definition TwinConfigurationUtils_GetConfigurationUintValueFromJson where
  "TwinConfigurationUtils_GetConfigurationUintValueFromJson P =
     TwinConfigurationUtils_Internal_GetConfigurationValueFromJson P (JsonObjectReader_ReadInt P)"

definition TwinConfigurationUtils_GetConfigurationStringValueFromJson where
  "TwinConfigurationUtils_GetConfigurationStringValueFromJson P =
     TwinConfigurationUtils_Internal_GetConfigurationValueFromJson P (JsonObjectReader_ReadString P)"

definition TwinConfigurationUtils_GetConfigurationBoolValueFromJson where
  "TwinConfigurationUtils_GetConfigurationBoolValueFromJson P =
     TwinConfigurationUtils_Internal_GetConfigurationValueFromJson P (JsonObjectReader_ReadBool P)"

lemmas get_value_defs =
  TwinConfigurationUtils_GetConfigurationTimeValueFromJson_def
  TwinConfigurationUtils_GetConfigurationUintValueFromJson_def
  TwinConfigurationUtils_GetConfigurationStringValueFromJson_def
  TwinConfigurationUtils_GetConfigurationBoolValueFromJson_def

section \<open>Writing\<close>

datatype conf_value = STRING string | UINT u32 | BOOL bool

text \<open>An unsigned value is written through \<open>*(int32_t*)valuePtr\<close>: its bits read as a signed number.\<close>

definition write_value ::
  "('v, 'o, 'r, 'h) parson_doc \<Rightarrow> ('v, 'o) JsonObjectWriter \<Rightarrow> conf_value \<Rightarrow> ('h, 'a) docs_env_scheme \<Rightarrow>
    JsonWriterResult \<times> ('h, 'a) docs_env_scheme" where
  "write_value D writer x w =
     (case x of
        STRING s \<Rightarrow> JsonObjectWriter_WriteString D writer VALUE_KEY s w
      | UINT n \<Rightarrow> JsonObjectWriter_WriteInt D writer VALUE_KEY (sint n) w
      | BOOL b \<Rightarrow> JsonObjectWriter_WriteBool D writer VALUE_KEY b w)"

definition TwinConfigurationUtils_Internal_WriteConfigurationToJson ::
  "('v, 'o, 'r, 'h) parson_doc \<Rightarrow> ('v, 'o) JsonObjectWriter \<Rightarrow> string \<Rightarrow> conf_value \<Rightarrow> ('h, 'a) docs_env_scheme \<Rightarrow>
    TwinConfigurationResult \<times> ('h, 'a) docs_env_scheme" where
  "TwinConfigurationUtils_Internal_WriteConfigurationToJson D writer key x w =
     (case JsonObjectWriter_Init D w of
        ((JSON_WRITER_OK, Some configurationObject), w1) \<Rightarrow>
          (let (r, w2) = write_value D configurationObject x w1 in
           if r \<noteq> JSON_WRITER_OK
           then (TWIN_EXCEPTION, JsonObjectWriter_Deinit D configurationObject w2)
           else let ((r2, added), w3) = JsonObjectWriter_WriteObject D writer key configurationObject w2 in
             (if r2 \<noteq> JSON_WRITER_OK then TWIN_EXCEPTION else TWIN_OK, JsonObjectWriter_Deinit D added w3))
      | (_, w1) \<Rightarrow> (TWIN_EXCEPTION, w1))"

definition TwinConfigurationUtils_WriteUintConfigurationToJson where
  "TwinConfigurationUtils_WriteUintConfigurationToJson D writer key n =
     TwinConfigurationUtils_Internal_WriteConfigurationToJson D writer key (UINT n)"

definition TwinConfigurationUtils_WriteStringConfigurationToJson ::
  "('v, 'o, 'r, 'h) parson_doc \<Rightarrow> ('v, 'o) JsonObjectWriter \<Rightarrow> string \<Rightarrow> string option \<Rightarrow> ('h, 'a) docs_env_scheme \<Rightarrow>
    TwinConfigurationResult \<times> ('h, 'a) docs_env_scheme" where
  "TwinConfigurationUtils_WriteStringConfigurationToJson D writer key s w =
     (case s of
        None \<Rightarrow> (TWIN_OK, w)
      | Some str \<Rightarrow> TwinConfigurationUtils_Internal_WriteConfigurationToJson D writer key (STRING str) w)"

definition TwinConfigurationUtils_WriteBoolConfigurationToJson where
  "TwinConfigurationUtils_WriteBoolConfigurationToJson D writer key b =
     TwinConfigurationUtils_Internal_WriteConfigurationToJson D writer key (BOOL b)"

section \<open>Facts about reading\<close>

text \<open>
  What parson promises of the tree a reader walks in: the object found under a key without a dot
  is wrapped by a value whose parent is the value of the object it was found in.
\<close>

definition parent_law :: "('v, 'o, 'r) parson \<Rightarrow> 'o \<Rightarrow> string \<Rightarrow> bool" where
  "parent_law P obj key \<longleftrightarrow>
     (\<forall>v sub. json_object_dotget_value P obj key = Some v \<longrightarrow> json_value_get_object P v = Some sub \<longrightarrow>
        (\<exists>pv. json_object_get_wrapping_value P sub = Some v \<and> json_value_get_parent P v = Some pv
             \<and> json_value_get_object P pv = Some obj))"

lemma GetValueOfType_cases:
  obtains (missing) "JsonObjectReader_GetValueOfType P reader key ty = (JSON_READER_KEY_MISSING, None)"
      "\<not> json_object_dothas_value P (rootObject reader) key"
  | (null) "JsonObjectReader_GetValueOfType P reader key ty = (JSON_READER_VALUE_IS_NULL, None)"
  | (mismatch) "JsonObjectReader_GetValueOfType P reader key ty = (JSON_READER_PARSE_ERROR, None)"
  | (exception) "JsonObjectReader_GetValueOfType P reader key ty = (JSON_READER_EXCEPTION, None)"
  | (ok) v where "JsonObjectReader_GetValueOfType P reader key ty = (JSON_READER_OK, Some v)"
      "json_object_dotget_value P (rootObject reader) key = Some v" "json_value_get_type P v = ty"
proof -
  note def = JsonObjectReader_GetValueOfType_def
  show thesis
  proof (cases "json_object_dothas_value P (rootObject reader) key")
    case False
    show thesis by (rule missing) (simp_all add: False def)
  next
    case has: True
    show thesis
    proof (cases "json_object_dotget_value P (rootObject reader) key")
      case None
      show thesis by (rule exception) (simp add: None has def)
    next
      case (Some v)
      consider "json_value_get_type P v = JSONError" | "json_value_get_type P v = JSONNull"
        | "json_value_get_type P v \<noteq> JSONError" "json_value_get_type P v \<noteq> JSONNull"
          "json_value_get_type P v \<noteq> ty"
        | "json_value_get_type P v \<noteq> JSONError" "json_value_get_type P v \<noteq> JSONNull"
          "json_value_get_type P v = ty"
        by blast
      then show thesis
      proof cases
        case 1 show thesis by (rule exception) (simp add: 1 Some has def)
      next
        case 2 show thesis by (rule null) (simp add: 2 Some has def)
      next
        case 3 show thesis by (rule mismatch) (simp add: 3 Some has def)
      next
        case 4 with Some has show thesis by (intro ok [of v]) (auto simp: def)
      qed
    qed
  qed
qed

lemma StepIn_cases:
  obtains (stay) r where "JsonObjectReader_StepIn P reader key = (r, reader)" "r \<noteq> JSON_READER_OK"
  | (in_object) v sub where "JsonObjectReader_StepIn P reader key = (JSON_READER_OK, reader\<lparr>rootObject := sub\<rparr>)"
      "json_object_dotget_value P (rootObject reader) key = Some v" "json_value_get_object P v = Some sub"
proof (cases rule: GetValueOfType_cases [of P reader key JSONObject])
  case (ok v)
  then show thesis
    by (cases "json_value_get_object P v") (auto simp: JsonObjectReader_StepIn_def intro: stay in_object)
qed (auto simp: JsonObjectReader_StepIn_def intro: stay)

lemma StepIn_StepOut:
  assumes "JsonObjectReader_StepIn P reader key = (JSON_READER_OK, inner)"
    and "parent_law P (rootObject reader) key"
  shows "JsonObjectReader_StepOut P inner = (JSON_READER_OK, reader)"
  using assms
  by (cases rule: StepIn_cases [of P reader key])
     (auto simp: JsonObjectReader_StepOut_def parent_law_def)

lemma GetConfigurationValue_cursor:
  assumes "parent_law P (rootObject reader) key"
  shows "snd (TwinConfigurationUtils_Internal_GetConfigurationValueFromJson P rd reader key) = reader"
proof (cases rule: StepIn_cases [of P reader key])
  case (stay r)
  then show ?thesis
    by (cases r) (simp_all add: TwinConfigurationUtils_Internal_GetConfigurationValueFromJson_def)
next
  case (in_object v sub)
  with StepIn_StepOut [OF in_object(1) assms] show ?thesis
    by (simp add: TwinConfigurationUtils_Internal_GetConfigurationValueFromJson_def Let_def split_beta)
qed

text \<open>A result \<open>TWIN_OK\<close> comes with a value, provided the reader keeps that promise.\<close>

lemma GetConfigurationValue_ok:
  assumes "fst (TwinConfigurationUtils_Internal_GetConfigurationValueFromJson P rd reader key) = (TWIN_OK, x)"
  obtains inner where "rd inner VALUE_KEY = (JSON_READER_OK, x)"
proof (cases rule: StepIn_cases [of P reader key])
  case (stay r)
  then show ?thesis using assms
    by (cases r) (simp_all add: TwinConfigurationUtils_Internal_GetConfigurationValueFromJson_def)
next
  case (in_object v sub)
  obtain y z where rd: "rd (reader\<lparr>rootObject := sub\<rparr>) VALUE_KEY = (y, z)" by fastforce
  with in_object assms have "y = JSON_READER_OK \<and> z = x"
    by (auto simp: TwinConfigurationUtils_Internal_GetConfigurationValueFromJson_def Let_def
        split: if_splits prod.splits)
  with rd that show ?thesis by simp
qed

lemma ReadString_ok:
  "JsonObjectReader_ReadString P reader key = (JSON_READER_OK, x) \<Longrightarrow> \<exists>s. x = Some s"
  by (cases rule: GetValueOfType_cases [of P reader key JSONString])
     (auto simp: JsonObjectReader_ReadString_def split: option.splits dest: sym)

lemma ReadInt_ok:
  "JsonObjectReader_ReadInt P reader key = (JSON_READER_OK, x) \<Longrightarrow> \<exists>n. x = Some n"
  by (cases rule: GetValueOfType_cases [of P reader key JSONNumber])
     (auto simp: JsonObjectReader_ReadInt_def)

lemma ReadBool_ok:
  "JsonObjectReader_ReadBool P reader key = (JSON_READER_OK, x) \<Longrightarrow> \<exists>b. x = Some b"
  by (cases rule: GetValueOfType_cases [of P reader key JSONBoolean])
     (auto simp: JsonObjectReader_ReadBool_def)

lemma ReadTime_ok:
  assumes "JsonObjectReader_ReadTimeInMilliseconds P reader key = (JSON_READER_OK, x)"
  shows "\<exists>d t. x = Some t \<and> TimeUtils_ISO8601DurationStringToMilliseconds d = Some t"
proof -
  obtain r d where "JsonObjectReader_ReadString P reader key = (r, d)" by fastforce
  with assms show ?thesis
    by (cases r; cases "TimeUtils_ISO8601DurationStringToMilliseconds d")
       (auto simp: JsonObjectReader_ReadTimeInMilliseconds_def)
qed

text \<open>The value is there, and a duration read from the twin is a positive whole number of seconds.\<close>

lemma GetConfigurationBool_ok:
  assumes "TwinConfigurationUtils_GetConfigurationBoolValueFromJson P reader key = ((TWIN_OK, x), reader')"
  shows "\<exists>v. x = Some v"
  by (rule GetConfigurationValue_ok [of P "JsonObjectReader_ReadBool P" reader key x])
     (use assms in \<open>auto simp: get_value_defs dest: ReadBool_ok\<close>)

lemma GetConfigurationUint_ok:
  assumes "TwinConfigurationUtils_GetConfigurationUintValueFromJson P reader key = ((TWIN_OK, x), reader')"
  shows "\<exists>v. x = Some v"
  by (rule GetConfigurationValue_ok [of P "JsonObjectReader_ReadInt P" reader key x])
     (use assms in \<open>auto simp: get_value_defs dest: ReadInt_ok\<close>)

lemma GetConfigurationString_ok:
  assumes "TwinConfigurationUtils_GetConfigurationStringValueFromJson P reader key = ((TWIN_OK, x), reader')"
  shows "\<exists>v. x = Some v"
  by (rule GetConfigurationValue_ok [of P "JsonObjectReader_ReadString P" reader key x])
     (use assms in \<open>auto simp: get_value_defs dest: ReadString_ok\<close>)

definition printable :: "u32 \<Rightarrow> bool" where
  "printable t \<longleftrightarrow> whole_seconds t \<and> 1000 \<le> unat t"

lemma GetConfigurationTime_ok:
  assumes "TwinConfigurationUtils_GetConfigurationTimeValueFromJson P reader key = ((TWIN_OK, x), reader')"
  shows "\<exists>v. x = Some v \<and> printable v"
  by (rule GetConfigurationValue_ok [of P "JsonObjectReader_ReadTimeInMilliseconds P" reader key x])
     (use assms in \<open>auto simp: get_value_defs printable_def dest!: ReadTime_ok dest: ISO8601_seconds\<close>)

lemma GetConfiguration_cursor:
  assumes "parent_law P (rootObject reader) key"
  shows "snd (TwinConfigurationUtils_GetConfigurationTimeValueFromJson P reader key) = reader"
    "snd (TwinConfigurationUtils_GetConfigurationUintValueFromJson P reader key) = reader"
    "snd (TwinConfigurationUtils_GetConfigurationStringValueFromJson P reader key) = reader"
    "snd (TwinConfigurationUtils_GetConfigurationBoolValueFromJson P reader key) = reader"
  using GetConfigurationValue_cursor [OF assms] by (simp_all add: get_value_defs)

end
