(* ===== verification/Sample_Documents.thy ===== *)
theory Sample_Documents
  imports Twin_Utils
begin

text \<open>
  A concrete parson for the witnesses: JSON trees, in which a value or an object is a tree with
  the path of keys that leads to it.  It obeys the law of parents everywhere, so every hypothesis
  about parson in this development holds for it.
\<close>

datatype json = JNull | JBool bool | JNum u32 | JStr string | JObj "(string \<times> json) list"

type_synonym node = "json \<times> string list"

fun child :: "json \<Rightarrow> string \<Rightarrow> json option" where
  "child (JObj fs) k = map_of fs k"
| "child _ k = None"

fun descend :: "json \<Rightarrow> string list \<Rightarrow> json option" where
  "descend j [] = Some j"
| "descend j (k # ks) = (case child j k of None \<Rightarrow> None | Some j' \<Rightarrow> descend j' ks)"

fun json_type :: "json \<Rightarrow> JSON_Value_Type" where
  "json_type JNull = JSONNull" | "json_type (JBool b) = JSONBoolean" | "json_type (JNum n) = JSONNumber"
| "json_type (JStr s) = JSONString" | "json_type (JObj fs) = JSONObject"

definition node_object :: "node \<Rightarrow> node option" where
  "node_object = (\<lambda>(root, path). case descend root path of Some (JObj _) \<Rightarrow> Some (root, path) | _ \<Rightarrow> None)"

definition node_get :: "node \<Rightarrow> string \<Rightarrow> node option" where
  "node_get = (\<lambda>(root, path) k. case descend root (path @ [k]) of None \<Rightarrow> None | Some _ \<Rightarrow> Some (root, path @ [k]))"

definition tree_parson :: "(string \<Rightarrow> json option) \<Rightarrow> (node, node, node) parson" where
  "tree_parson parse =
     \<lparr>json_parse_string = (\<lambda>s. map_option (\<lambda>j. (j, [])) (parse s)),
      json_parse_file = (\<lambda>s. map_option (\<lambda>j. (j, [])) (parse s)),
      json_value_get_object = node_object,
      json_object_dothas_value = (\<lambda>obj k. node_get obj k \<noteq> None),
      json_object_dotget_value = node_get,
      json_object_dotget_object = (\<lambda>obj k. Option.bind (node_get obj k) node_object),
      json_object_dotget_array = (\<lambda>_ _. None),
      json_object_dothas_value_of_type = (\<lambda>obj k ty. case node_get obj k of None \<Rightarrow> False
          | Some (root, path) \<Rightarrow> map_option json_type (descend root path) = Some ty),
      json_value_get_type = (\<lambda>(root, path). case descend root path of None \<Rightarrow> JSONError | Some j \<Rightarrow> json_type j),
      json_value_get_string = (\<lambda>(root, path). case descend root path of Some (JStr s) \<Rightarrow> Some s | _ \<Rightarrow> None),
      json_value_get_int32 = (\<lambda>(root, path). case descend root path of Some (JNum n) \<Rightarrow> n | _ \<Rightarrow> 0),
      json_value_get_boolean = (\<lambda>(root, path). case descend root path of Some (JBool b) \<Rightarrow> (if b then 1 else 0) | _ \<Rightarrow> -1),
      json_object_get_wrapping_value = (\<lambda>obj. Some obj),
      json_value_get_parent = (\<lambda>(root, path). if path = [] then None else Some (root, butlast path)),
      json_array_get_count = (\<lambda>_. 0),
      json_array_get_object = (\<lambda>_ _. None)\<rparr>"

lemma descend_snoc: "descend j (ks @ [k]) = Some j' \<Longrightarrow> \<exists>fs. descend j ks = Some (JObj fs)"
proof (induction ks arbitrary: j)
  case Nil
  then show ?case by (cases j) auto
qed (auto split: option.splits)

lemma tree_parent_law [simp]: "parent_law (tree_parson parse) obj key"
proof (cases obj)
  case (Pair root path)
  show ?thesis
    unfolding parent_law_def
  proof (intro allI impI)
    fix v sub
    assume v: "json_object_dotget_value (tree_parson parse) obj key = Some v"
      and sub: "json_value_get_object (tree_parson parse) v = Some sub"
    from v Pair obtain j' where j': "descend root (path @ [key]) = Some j'" "v = (root, path @ [key])"
      by (auto simp: tree_parson_def node_get_def split: option.splits)
    from descend_snoc [OF j'(1)] obtain fs where "descend root path = Some (JObj fs)" by blast
    moreover from sub j' have "sub = v" by (auto simp: tree_parson_def node_object_def split: option.splits json.splits)
    ultimately show "\<exists>pv. json_object_get_wrapping_value (tree_parson parse) sub = Some v
        \<and> json_value_get_parent (tree_parson parse) v = Some pv
        \<and> json_value_get_object (tree_parson parse) pv = Some obj"
      using j'(2) Pair by (simp add: tree_parson_def node_object_def)
  qed
qed

text \<open>The entry of the twin that holds one value.\<close>

definition entry :: "json \<Rightarrow> json" where
  "entry j = JObj [(VALUE_KEY, j)]"

definition sample_reader :: "json \<Rightarrow> (node, node) JsonObjectReader" where
  "sample_reader j = \<lparr>rootValue = Some (j, []), rootObject = (j, []), shouldFree = True\<rparr>"

end
