(* ===== verification/File_Utils.thy ===== *)
theory File_Utils
  imports Agent_Utils
begin

text \<open>
  Files, \<^verbatim>\<open>src/agent/src/os_utils/linux/file_utils.c\<close>.  The system calls are oracles:
  \<open>open\<close> and \<open>fopen\<close> answer with an \<open>errno\<close> (0 is success), \<open>read\<close> with the bytes it delivers,
  never more than it was asked for, and \<open>write\<close> with the count it wrote (-1 is failure).
\<close>

datatype FileResults =
  FILE_UTILS_OK | FILE_UTILS_FILE_NOT_FOUND | FILE_UTILS_SIZE_MISMATCH | FILE_UTILS_ERROR | FILE_UTILS_NOPERM

definition ENOENT :: int where "ENOENT = 2"
definition EACCES :: int where "EACCES = 13"

definition open_failure :: "int \<Rightarrow> FileResults" where
  "open_failure errno =
     (if errno = ENOENT then FILE_UTILS_FILE_NOT_FOUND
      else if errno = EACCES then FILE_UTILS_NOPERM else FILE_UTILS_ERROR)"

definition FileUtils_OpenFile :: "'a env_scheme \<Rightarrow> FileResults \<times> 'a env_scheme" where
  "FileUtils_OpenFile w =
     (let (errno, w1) = sys_int w in
      (if errno \<noteq> 0 then open_failure errno else FILE_UTILS_OK, w1))"

text \<open>
  \<open>bytesRead != readCount\<close> compares after conversion to an unsigned type; -1 has been handled
  before.  The second component is what is in the buffer, which the caller has cleared.
\<close>

definition FileUtils_ReadFile ::
  "u32 \<Rightarrow> bool \<Rightarrow> 'a env_scheme \<Rightarrow> (FileResults \<times> string) \<times> 'a env_scheme" where
  "FileUtils_ReadFile readCount maxCount w =
     (let (errno, w1) = sys_int w in
      if errno \<noteq> 0 then ((open_failure errno, []), w1)
      else let (bytes, w2) = sys_bytes w1 in
        case bytes of
          None \<Rightarrow> ((FILE_UTILS_ERROR, []), w2)
        | Some all \<Rightarrow>
            (let data = take (unat readCount) all; bytesRead = length data in
             if maxCount
             then ((if bytesRead \<le> unat readCount then FILE_UTILS_OK else FILE_UTILS_ERROR, data), w2)
             else if bytesRead \<noteq> unat readCount then ((FILE_UTILS_SIZE_MISMATCH, data), w2)
             else ((FILE_UTILS_OK, data), w2)))"

definition FileUtils_WriteToFile :: "u32 \<Rightarrow> 'a env_scheme \<Rightarrow> FileResults \<times> 'a env_scheme" where
  "FileUtils_WriteToFile dataSize w =
     (let (errno, w1) = sys_int w in
      if errno \<noteq> 0 then (FILE_UTILS_ERROR, w1)
      else let (bytesWritten, w2) = sys_int w1 in
        if bytesWritten = -1 then (FILE_UTILS_ERROR, w2)
        else if bytesWritten \<noteq> int (unat dataSize) then (FILE_UTILS_SIZE_MISMATCH, w2)
        else (FILE_UTILS_OK, w2))"

lemma ReadFile_bounded: "length (snd (fst (FileUtils_ReadFile n m w))) \<le> unat n"
  by (auto simp: FileUtils_ReadFile_def Let_def split_beta split: option.splits)

end
