(* ===== verification/Agent_Errors.thy ===== *)
theory Agent_Errors
  imports Json_Writer File_Utils
begin

text \<open>
  Error reports of the agent, \<^verbatim>\<open>src/agent/src/agent_errors.c\<close>.  A report is a line of the log; the
  model keeps the codes of the reports in the order they are made, in \<open>errorLog\<close>.  The free text
  behind the codes and the other log lines (\<^verbatim>\<open>Logger_Error\<close> and the like) are not kept.
\<close>

datatype ErrorCodes =
  ERROR_LOCAL_CONFIGURATION | ERROR_REMOTE_CONFIGURATION | ERROR_IOT_HUB_AUTHENTICATION | ERROR_OTHER

datatype ErrorSubCodes =
  SUBCODE_MISSING_CONFIGURATION | SUBCODE_CANT_PARSE_CONFIGURATION | SUBCODE_TIMEOUT
| SUBCODE_FILE_NOT_EXIST | SUBCODE_FILE_PERMISSIONS | SUBCODE_FILE_FORMAT
| SUBCODE_UNAUTHORIZED | SUBCODE_NOT_FOUND | SUBCODE_OTHER

record 'h log_env = "'h docs_env" +
  errorLog :: "(string \<times> string) list"

fun AgentErrors_ErrorCodeToString :: "ErrorCodes \<Rightarrow> string" where
  "AgentErrors_ErrorCodeToString ERROR_LOCAL_CONFIGURATION = ''Local Configuration''"
| "AgentErrors_ErrorCodeToString ERROR_REMOTE_CONFIGURATION = ''Remote Configuration''"
| "AgentErrors_ErrorCodeToString ERROR_IOT_HUB_AUTHENTICATION = ''Authentication''"
| "AgentErrors_ErrorCodeToString ERROR_OTHER = ''Other''"

fun AgentErrors_ErrorSubCodeToString :: "ErrorSubCodes \<Rightarrow> string" where
  "AgentErrors_ErrorSubCodeToString SUBCODE_MISSING_CONFIGURATION = ''Missing Configuration''"
| "AgentErrors_ErrorSubCodeToString SUBCODE_CANT_PARSE_CONFIGURATION = ''Cant Parse Configuration''"
| "AgentErrors_ErrorSubCodeToString SUBCODE_TIMEOUT = ''Timeout''"
| "AgentErrors_ErrorSubCodeToString SUBCODE_FILE_NOT_EXIST = ''File Not Exist''"
| "AgentErrors_ErrorSubCodeToString SUBCODE_FILE_PERMISSIONS = ''File Permissions''"
| "AgentErrors_ErrorSubCodeToString SUBCODE_FILE_FORMAT = ''File Format''"
| "AgentErrors_ErrorSubCodeToString SUBCODE_UNAUTHORIZED = ''Unauthorized''"
| "AgentErrors_ErrorSubCodeToString SUBCODE_NOT_FOUND = ''Not Found''"
| "AgentErrors_ErrorSubCodeToString SUBCODE_OTHER = ''Other''"

definition AgentErrors_LogError ::
  "ErrorCodes \<Rightarrow> ErrorSubCodes \<Rightarrow> ('h, 'a) log_env_scheme \<Rightarrow> ('h, 'a) log_env_scheme" where
  "AgentErrors_LogError code sub w =
     w\<lparr>errorLog := errorLog w @ [(AgentErrors_ErrorCodeToString code, AgentErrors_ErrorSubCodeToString sub)]\<rparr>"

text \<open>The report that several callers make when a file of the authentication cannot be opened.\<close>

definition log_file_failure :: "FileResults \<Rightarrow> ('h, 'a) log_env_scheme \<Rightarrow> ('h, 'a) log_env_scheme" where
  "log_file_failure r w =
     AgentErrors_LogError ERROR_IOT_HUB_AUTHENTICATION
       (if r = FILE_UTILS_FILE_NOT_FOUND then SUBCODE_FILE_NOT_EXIST
        else if r = FILE_UTILS_NOPERM then SUBCODE_FILE_PERMISSIONS else SUBCODE_OTHER) w"

end
