(* ===== verification/Certificate_Manager.thy ===== *)
theory Certificate_Manager
  imports Agent_Errors
begin

text \<open>
  Loading the device certificate, \<^verbatim>\<open>src/agent/src/certificate_manager.c\<close>.  OpenSSL is not part of
  the repository: each of its calls is an oracle that fails or delivers a text.  The out
  parameters \<open>*certificate\<close> and \<open>*privateKey\<close> are passed in and out, because the error path frees
  what they hold.
\<close>

type_synonym cert_pair = "string option \<times> string option"

text \<open>
  \<open>strrchr\<close>; a part after the last dot, with the dot.
\<close>

definition strrchr :: "string \<Rightarrow> char \<Rightarrow> string option" where
  "strrchr s c =
     (let tail = takeWhile (\<lambda>x. x \<noteq> c) (rev s) in
      if length tail = length s then None else Some (c # rev tail))"

definition CertificateManager_OpenFileForRead ::
  "('h, 'a) log_env_scheme \<Rightarrow> bool \<times> ('h, 'a) log_env_scheme" where
  "CertificateManager_OpenFileForRead w =
     (let (r, w1) = FileUtils_OpenFile w in
      if r \<noteq> FILE_UTILS_OK then (False, log_file_failure r w1) else (True, w1))"

text \<open>
  Both conversions to PEM: \<open>BIO_new\<close>, \<open>PEM_write_bio_...\<close>, the allocation and \<open>BIO_read\<close>.
\<close>

definition to_pem :: "'a env_scheme \<Rightarrow> string option \<times> 'a env_scheme" where
  "to_pem w =
     (let (bio, w1) = sys_ext w in
      if \<not> bio then (None, w1)
      else let (ok, w2) = sys_ext w1 in
        if \<not> ok then (None, w2)
        else let (mem, w3) = sys_malloc w2 in
          if \<not> mem then (None, w3) else sys_bytes w3)"

definition CertificateManager_X509CertificateToPemFormat where
  "CertificateManager_X509CertificateToPemFormat = to_pem"

definition CertificateManager_PrivateKeyToPemFormat where
  "CertificateManager_PrivateKeyToPemFormat = to_pem"

definition parse_failure :: "('h, 'a) log_env_scheme \<Rightarrow> (bool \<times> cert_pair) \<times> ('h, 'a) log_env_scheme" where
  "parse_failure w =
     ((False, (None, None)), AgentErrors_LogError ERROR_IOT_HUB_AUTHENTICATION SUBCODE_FILE_FORMAT w)"

definition CertificateManager_LoadFromFileUsingPemFormat ::
  "('h, 'a) log_env_scheme \<Rightarrow> (bool \<times> cert_pair) \<times> ('h, 'a) log_env_scheme" where
  "CertificateManager_LoadFromFileUsingPemFormat w =
     (let (opened, w1) = CertificateManager_OpenFileForRead w in
      if \<not> opened then ((False, (None, None)), w1)
      else let (x509, w2) = sys_ext w1 in
        if \<not> x509 then parse_failure w2
        else let (certificate, w3) = CertificateManager_X509CertificateToPemFormat w2; (evp, w4) = sys_ext w3 in
          if \<not> evp then parse_failure w4
          else let (privateKey, w5) = CertificateManager_PrivateKeyToPemFormat w4 in
            ((True, (certificate, privateKey)), w5))"

definition CertificateManager_LoadFromFileUsingPkcs12Format ::
  "('h, 'a) log_env_scheme \<Rightarrow> (bool \<times> cert_pair) \<times> ('h, 'a) log_env_scheme" where
  "CertificateManager_LoadFromFileUsingPkcs12Format w =
     (let (opened, w1) = CertificateManager_OpenFileForRead w in
      if \<not> opened then ((False, (None, None)), w1)
      else let (pkcs12, w2) = sys_ext w1 in
        if \<not> pkcs12 then parse_failure w2
        else let (parsed, w3) = sys_ext w2 in
          if \<not> parsed then parse_failure w3
          else let (certificate, w4) = CertificateManager_X509CertificateToPemFormat w3;
                   (privateKey, w5) = CertificateManager_PrivateKeyToPemFormat w4
            in ((True, (certificate, privateKey)), w5))"

text \<open>
  Neither branch is taken for an unknown extension, and then the out parameters keep their value.
\<close>

definition CertificateManager_LoadFromFile ::
  "string \<Rightarrow> cert_pair \<Rightarrow> ('h, 'a) log_env_scheme \<Rightarrow> (bool \<times> cert_pair) \<times> ('h, 'a) log_env_scheme" where
  "CertificateManager_LoadFromFile filePath out w =
     (case strrchr filePath CHR ''.'' of
        None \<Rightarrow> ((False, out), w)
      | Some extension \<Rightarrow>
          if Utils_UnsafeAreStringsEqual extension ''.pem'' False
          then CertificateManager_LoadFromFileUsingPemFormat w
          else if Utils_UnsafeAreStringsEqual extension ''.pfx'' False
          then CertificateManager_LoadFromFileUsingPkcs12Format w
          else ((False, out), AgentErrors_LogError ERROR_IOT_HUB_AUTHENTICATION SUBCODE_FILE_FORMAT w))"

text \<open>A failed load of a supported format leaves nothing behind in the out parameters.\<close>

lemma LoadFromFile_failed:
  assumes "CertificateManager_LoadFromFile filePath out w = ((False, out'), w')"
  shows "out' = out \<or> out' = (None, None)"
  using assms
  by (auto simp: CertificateManager_LoadFromFile_def CertificateManager_LoadFromFileUsingPemFormat_def
      CertificateManager_LoadFromFileUsingPkcs12Format_def parse_failure_def Let_def split_beta
      split: option.splits if_splits)

lemma strrchr_append [simp]: "c \<notin> set t \<Longrightarrow> strrchr (s @ c # t) c = Some (c # t)"
proof -
  assume "c \<notin> set t"
  then have "takeWhile (\<lambda>x. x \<noteq> c) (rev t @ c # rev s) = rev t" by (subst takeWhile_append2) auto
  then show ?thesis by (simp add: strrchr_def Let_def)
qed

end
