(* ===== verification/Authentication_Manager.thy ===== *)
theory Authentication_Manager
  imports Certificate_Manager
begin

text \<open>
  Authentication against the hub and the provisioning service,
  \<^verbatim>\<open>src/agent/src/authentication_manager.c\<close>.  The statics of the C file are the record
  \<open>AuthenticationManager\<close>; character arrays hold C strings, so \<open>memset\<close> to zero is the empty
  string.  The HTTP stack belongs to the Azure SDK: its calls are oracles, and what the agent asks
  of the service is kept in \<open>requests\<close>.
\<close>

datatype AuthenticationMethod = SYMMETRIC_KEY | CERTIFICATE

record http_request =
  rqPost :: bool
  rqHost :: string
  rqUrl :: string
  rqScope :: "string option"
  rqContent :: "string option"
  rqMethod :: AuthenticationMethod

record AuthenticationManager =
  relativeUrl :: string
  hostName :: string
  deviceId :: string
  sharedAccessKey :: "string option"
  certificate :: "string option"
  certificatePrivateKey :: "string option"
  dpsRelativeUrl :: "string option"
  sasTokenScope :: "string option"
  dpsRequestContent :: "string option"
  idScope :: string
  registrationId :: string
  lastDPSUpdateTime :: string

record 'h auth_env = "'h log_env" +
  authenticationManager :: AuthenticationManager
  requests :: "http_request list"

definition MAX_BUFF :: u32 where "MAX_BUFF = 500"
definition KEY_SIZE :: u32 where "KEY_SIZE = 300"

definition on_auth ::
  "(AuthenticationManager \<Rightarrow> AuthenticationManager) \<Rightarrow> ('h, 'a) auth_env_scheme \<Rightarrow> ('h, 'a) auth_env_scheme" where
  "on_auth f w = w\<lparr>authenticationManager := f (authenticationManager w)\<rparr>"

section \<open>Texts\<close>

definition GLOBAL_DPS_HOSTNAME :: string where
  "GLOBAL_DPS_HOSTNAME = ''global.azure-devices-provisioning.net''"

definition security_module_api :: "string \<Rightarrow> string" where
  "security_module_api device = ''/devices/'' @ device @ ''/modules/azureiotsecurity?api-version=2018-06-30''"

definition registration_api :: "string \<Rightarrow> string \<Rightarrow> string" where
  "registration_api scope reg = ''/'' @ scope @ ''/registrations/'' @ reg @ ''?api-version=2019-03-31''"

definition sas_token_scope :: "string \<Rightarrow> string \<Rightarrow> string" where
  "sas_token_scope scope reg = scope @ ''/registrations/'' @ reg"

definition registration_body :: "string \<Rightarrow> string" where
  "registration_body reg = ''{'' @ [CHR 0x22] @ ''registrationId'' @ [CHR 0x22] @ '' : '' @ [CHR 0x22] @ reg @ [CHR 0x22] @ ''}''"

definition connection_string :: "string \<Rightarrow> string \<Rightarrow> string \<Rightarrow> string" where
  "connection_string host device key =
     ''HostName='' @ host @ '';DeviceId='' @ device @ '';ModuleId=azureiotsecurity;SharedAccessKey='' @ key"

text \<open>Lengths of the format strings, with their conversion specifications.\<close>

definition REGISTRATION_API_length :: nat where "REGISTRATION_API_length = length ''/%s/registrations/%s?api-version=2019-03-31''"
definition SAS_TOKEN_SCOPE_length :: nat where "SAS_TOKEN_SCOPE_length = length ''%s/registrations/%s''"
definition REGISTRATION_BODY_length :: nat where "REGISTRATION_BODY_length = length (registration_body ''%s'')"

text \<open>Formatting into a buffer of the given size: success, and what the buffer holds then.\<close>

definition fill_buffer :: "u32 \<Rightarrow> string \<Rightarrow> bool \<times> string" where
  "fill_buffer bufSize text =
     (let (ok, c) = Utils_ConcatenateToString \<lparr>written = [], room = bufSize, spill = []\<rparr> text
      in (ok, if ok then written c else spill c))"

definition AuthenticationManager_GenerateConnectionStringFromSharedAccessKey ::
  "string \<Rightarrow> u32 \<Rightarrow> string \<Rightarrow> string \<Rightarrow> bool \<times> string" where
  "AuthenticationManager_GenerateConnectionStringFromSharedAccessKey key connectionStringSize host device =
     fill_buffer connectionStringSize (connection_string host device key)"

section \<open>Life cycle\<close>

definition AuthenticationManager_Init :: "('h, 'a) auth_env_scheme \<Rightarrow> bool \<times> ('h, 'a) auth_env_scheme" where
  "AuthenticationManager_Init w =
     (True, w\<lparr>authenticationManager :=
        \<lparr>relativeUrl = [], hostName = [], deviceId = [], sharedAccessKey = None, certificate = None,
         certificatePrivateKey = None, dpsRelativeUrl = None, sasTokenScope = None,
         dpsRequestContent = None, idScope = [], registrationId = [], lastDPSUpdateTime = []\<rparr>\<rparr>)"

definition AuthenticationManager_DeinitDpsDetails :: "('h, 'a) auth_env_scheme \<Rightarrow> ('h, 'a) auth_env_scheme" where
  "AuthenticationManager_DeinitDpsDetails =
     on_auth (\<lambda>m. m\<lparr>dpsRelativeUrl := None, sasTokenScope := None, dpsRequestContent := None\<rparr>)"

definition AuthenticationManager_Deinit :: "('h, 'a) auth_env_scheme \<Rightarrow> ('h, 'a) auth_env_scheme" where
  "AuthenticationManager_Deinit w =
     AuthenticationManager_DeinitDpsDetails
       (on_auth (\<lambda>m. m\<lparr>certificate := None, certificatePrivateKey := None, sharedAccessKey := None\<rparr>) w)"

text \<open>
  \<open>Utils_CopyString(s, strlen(s) + 1, buffer, MAX_BUFF)\<close>: the buffer keeps its text when \<open>s\<close> is
  too long.
\<close>

definition copy_field :: "string \<Rightarrow> string \<Rightarrow> bool \<times> string" where
  "copy_field s old =
     (case Utils_CopyString s (length s + 1) (unat MAX_BUFF) of
        None \<Rightarrow> (False, old) | Some t \<Rightarrow> (True, t))"

definition AuthenticationManager_InitSharedProperties ::
  "string \<Rightarrow> string \<Rightarrow> ('h, 'a) auth_env_scheme \<Rightarrow> bool \<times> ('h, 'a) auth_env_scheme" where
  "AuthenticationManager_InitSharedProperties host device w =
     (let (ok, h) = copy_field host (hostName (authenticationManager w));
          w1 = on_auth (hostName_update (\<lambda>_. h)) w in
      if \<not> ok then (False, w1)
      else let (ok2, d) = copy_field device (deviceId (authenticationManager w1));
               w2 = on_auth (deviceId_update (\<lambda>_. d)) w1 in
        if \<not> ok2 then (False, w2)
        else let (ok3, u) = fill_buffer MAX_BUFF (security_module_api device) in
          (ok3, on_auth (relativeUrl_update (\<lambda>_. u)) w2))"

text \<open>
  The key file is read into a cleared buffer of exactly \<open>KEY_SIZE\<close> bytes; \<open>strchr\<close> then looks for
  the newline.  A file of that size or more, without a newline or a NUL among the first
  \<open>KEY_SIZE\<close> bytes, makes \<open>strchr\<close> run over the end of the buffer.
\<close>

definition key_overrun :: "string \<Rightarrow> bool" where
  "key_overrun data \<longleftrightarrow> length data \<ge> unat KEY_SIZE \<and> CHR 0x00 \<notin> set data \<and> CHR 0x0A \<notin> set data"

definition key_text :: "string \<Rightarrow> string" where
  "key_text data = takeWhile (\<lambda>c. c \<noteq> CHR 0x00 \<and> c \<noteq> CHR 0x0A) data"

definition AuthenticationManager_InitFromSharedAccessKey ::
  "string \<Rightarrow> string \<Rightarrow> ('h, 'a) auth_env_scheme \<Rightarrow> bool \<times> ('h, 'a) auth_env_scheme" where
  "AuthenticationManager_InitFromSharedAccessKey host device w =
     (let no_key = on_auth (sharedAccessKey_update (\<lambda>_. None)); (mem, w1) = sys_malloc w in
      if \<not> mem then (False, no_key w1)
      else let ((r, data), w2) = FileUtils_ReadFile KEY_SIZE True w1 in
        if r \<noteq> FILE_UTILS_OK then (False, no_key (log_file_failure r w2))
        else let w3 = on_auth (sharedAccessKey_update (\<lambda>_. Some (key_text data)))
                        (w2\<lparr>fault := (fault w2 \<or> key_overrun data)\<rparr>);
                 (ok, w4) = AuthenticationManager_InitSharedProperties host device w3 in
          if \<not> ok then (False, no_key w4) else (True, w4))"

definition AuthenticationManager_InitFromCertificate ::
  "string \<Rightarrow> string \<Rightarrow> string \<Rightarrow> ('h, 'a) auth_env_scheme \<Rightarrow> bool \<times> ('h, 'a) auth_env_scheme" where
  "AuthenticationManager_InitFromCertificate filePath host device w =
     (let m = authenticationManager w;
          ((ok, (c, k)), w1) = CertificateManager_LoadFromFile filePath (certificate m, certificatePrivateKey m) w;
          w2 = on_auth (\<lambda>m. m\<lparr>certificate := c, certificatePrivateKey := k\<rparr>) w1 in
      if \<not> ok then (False, AuthenticationManager_Deinit w2)
      else let (ok2, w3) = AuthenticationManager_InitSharedProperties host device w2 in
        if \<not> ok2 then (False, AuthenticationManager_Deinit w3) else (True, w3))"

section \<open>Requests\<close>

fun all_ext :: "nat \<Rightarrow> 'a env_scheme \<Rightarrow> bool \<times> 'a env_scheme" where
  "all_ext 0 w = (True, w)"
| "all_ext (Suc n) w = (let (ok, w1) = sys_ext w in if ok then all_ext n w1 else (False, w1))"

definition execute_request ::
  "http_request \<Rightarrow> ('h, 'a) auth_env_scheme \<Rightarrow> (u32 \<times> string option) option \<times> ('h, 'a) auth_env_scheme" where
  "execute_request rq w =
     (let (ok, w1) = sys_ext (w\<lparr>requests := requests w @ [rq]\<rparr>) in
      if \<not> ok then (None, w1)
      else let (status, w2) = sys_int w1; (body, w3) = sys_bytes w2 in
        (Some (word_of_int status, body), w3))"

text \<open>
  Before the request: \<open>HTTPHeaders_Alloc\<close>, the content type if there is content, \<open>HTTPAPI_Init\<close>,
  \<open>HTTPAPI_CreateConnection\<close> and two \<open>HTTPAPI_SetOption\<close>.
\<close>

definition AuthenticationManager_HttpRequestUsingCertificate ::
  "bool \<Rightarrow> string \<Rightarrow> string \<Rightarrow> string option \<Rightarrow> ('h, 'a) auth_env_scheme \<Rightarrow>
    (u32 \<times> string option) option \<times> ('h, 'a) auth_env_scheme" where
  "AuthenticationManager_HttpRequestUsingCertificate post host url content w =
     (let (ok, w1) = all_ext (if content \<noteq> None then 6 else 5) w in
      if \<not> ok then (None, w1)
      else execute_request \<lparr>rqPost = post, rqHost = host, rqUrl = url, rqScope = None,
             rqContent = content, rqMethod = CERTIFICATE\<rparr> w1)"

text \<open>
  Here: \<open>HTTPHeaders_Alloc\<close>, the authorization header, with content its type and
  \<open>BUFFER_create\<close>, then \<open>HTTPAPIEX_Create\<close> and \<open>HTTPAPIEX_SAS_Create_From_String\<close>.
\<close>

definition AuthenticationManager_HttpRequestUsingSasToken ::
  "bool \<Rightarrow> string \<Rightarrow> string \<Rightarrow> string \<Rightarrow> string option \<Rightarrow> ('h, 'a) auth_env_scheme \<Rightarrow>
    (u32 \<times> string option) option \<times> ('h, 'a) auth_env_scheme" where
  "AuthenticationManager_HttpRequestUsingSasToken post host url scope content w =
     (let (ok, w1) = all_ext (if content \<noteq> None then 6 else 4) w in
      if \<not> ok then (None, w1)
      else execute_request \<lparr>rqPost = post, rqHost = host, rqUrl = url, rqScope = Some scope,
             rqContent = content, rqMethod = SYMMETRIC_KEY\<rparr> w1)"

definition AuthenticationManager_EnsureHttpSuccessStatusCode ::
  "u32 \<Rightarrow> ('h, 'a) auth_env_scheme \<Rightarrow> bool \<times> ('h, 'a) auth_env_scheme" where
  "AuthenticationManager_EnsureHttpSuccessStatusCode statusCode w =
     (if statusCode = 200 then (True, w)
      else (False, AgentErrors_LogError ERROR_IOT_HUB_AUTHENTICATION
        (if statusCode = 401 then SUBCODE_UNAUTHORIZED
         else if statusCode = 404 then SUBCODE_NOT_FOUND else SUBCODE_OTHER) w))"

section \<open>The connection string\<close>

text \<open>A missing body makes \<open>json_parse_string\<close> fail like a malformed one.\<close>

definition init_reader ::
  "('v, 'o, 'r) parson \<Rightarrow> string option \<Rightarrow> 'a env_scheme \<Rightarrow>
    (JsonReaderResult \<times> ('v, 'o) JsonObjectReader option) \<times> 'a env_scheme" where
  "init_reader P body w =
     (case body of
        None \<Rightarrow> ((JSON_READER_EXCEPTION, None), snd (sys_malloc w))
      | Some s \<Rightarrow> JsonObjectReader_InitFromString P s w)"

definition AuthenticationManager_ExtractConnectionString ::
  "('v, 'o, 'r) parson \<Rightarrow> string option \<Rightarrow> u32 \<Rightarrow> ('h, 'a) auth_env_scheme \<Rightarrow>
    (bool \<times> string) \<times> ('h, 'a) auth_env_scheme" where
  "AuthenticationManager_ExtractConnectionString P responseJson connectionStringSize w =
     (case init_reader P responseJson w of
        ((JSON_READER_OK, Some reader), w1) \<Rightarrow>
          (case JsonObjectReader_ReadString P reader ''authentication.symmetricKey.primaryKey'' of
             (JSON_READER_OK, Some key) \<Rightarrow>
               (AuthenticationManager_GenerateConnectionStringFromSharedAccessKey key connectionStringSize
                  (hostName (authenticationManager w1)) (deviceId (authenticationManager w1)), w1)
           | _ \<Rightarrow> ((False, []), w1))
      | (_, w1) \<Rightarrow> ((False, []), w1))"

definition AuthenticationManager_GetConnectionStringFromHub ::
  "('v, 'o, 'r) parson \<Rightarrow> u32 \<Rightarrow> AuthenticationMethod \<Rightarrow> ('h, 'a) auth_env_scheme \<Rightarrow>
    (bool \<times> string) \<times> ('h, 'a) auth_env_scheme" where
  "AuthenticationManager_GetConnectionStringFromHub P connectionStringSize method w =
     (let (buf, w1) = sys_ext w in
      if \<not> buf then ((False, []), w1)
      else let m = authenticationManager w1;
               (reply, w2) = (case method of
                  SYMMETRIC_KEY \<Rightarrow> AuthenticationManager_HttpRequestUsingSasToken False (hostName m) (relativeUrl m) (hostName m) None w1
                | CERTIFICATE \<Rightarrow> AuthenticationManager_HttpRequestUsingCertificate False (hostName m) (relativeUrl m) None w1) in
        case reply of
          None \<Rightarrow> ((False, []), w2)
        | Some (status, body) \<Rightarrow>
            (let (ok, w3) = AuthenticationManager_EnsureHttpSuccessStatusCode status w2 in
             if \<not> ok then ((False, []), w3)
             else AuthenticationManager_ExtractConnectionString P body connectionStringSize w3))"

definition AuthenticationManager_GetConnectionString ::
  "('v, 'o, 'r) parson \<Rightarrow> u32 \<Rightarrow> ('h, 'a) auth_env_scheme \<Rightarrow> (bool \<times> string) \<times> ('h, 'a) auth_env_scheme" where
  "AuthenticationManager_GetConnectionString P connectionStringSize w =
     (if sharedAccessKey (authenticationManager w) \<noteq> None
      then AuthenticationManager_GetConnectionStringFromHub P connectionStringSize SYMMETRIC_KEY w
      else if certificate (authenticationManager w) \<noteq> None
      then AuthenticationManager_GetConnectionStringFromHub P connectionStringSize CERTIFICATE w
      else ((False, []), w))"

section \<open>The provisioning service\<close>

text \<open>One field of the reply copied into its array; the continuation runs when that worked.\<close>

definition copy_reply ::
  "('v, 'o, 'r) parson \<Rightarrow> ('v, 'o) JsonObjectReader \<Rightarrow> string \<Rightarrow>
    (string \<Rightarrow> ('h, 'a) auth_env_scheme \<Rightarrow> (bool \<times> string) \<times> ('h, 'a) auth_env_scheme) \<Rightarrow>
    (string \<Rightarrow> ('h, 'a) auth_env_scheme \<Rightarrow> bool \<times> ('h, 'a) auth_env_scheme) \<Rightarrow>
    ('h, 'a) auth_env_scheme \<Rightarrow> bool \<times> ('h, 'a) auth_env_scheme" where
  "copy_reply P reader key store k w =
     (case JsonObjectReader_ReadString P reader key of
        (JSON_READER_OK, Some s) \<Rightarrow>
          (let ((ok, _), w1) = store s w in if \<not> ok then (False, w1) else k s w1)
      | _ \<Rightarrow> (False, w))"

definition store_field ::
  "(AuthenticationManager \<Rightarrow> string) \<Rightarrow> ((string \<Rightarrow> string) \<Rightarrow> AuthenticationManager \<Rightarrow> AuthenticationManager) \<Rightarrow>
    string \<Rightarrow> ('h, 'a) auth_env_scheme \<Rightarrow> (bool \<times> string) \<times> ('h, 'a) auth_env_scheme" where
  "store_field get upd s w =
     (let (ok, t) = copy_field s (get (authenticationManager w)) in ((ok, t), on_auth (upd (\<lambda>_. t)) w))"

definition AuthenticationManager_UpdateFromDpsResponse ::
  "('v, 'o, 'r) parson \<Rightarrow> string option \<Rightarrow> ('h, 'a) auth_env_scheme \<Rightarrow> bool \<times> ('h, 'a) auth_env_scheme" where
  "AuthenticationManager_UpdateFromDpsResponse P responseJson w =
     (case init_reader P responseJson w of
        ((JSON_READER_OK, Some reader), w1) \<Rightarrow>
          (case JsonObjectReader_ReadString P reader ''status'' of
             (JSON_READER_OK, Some status) \<Rightarrow>
               if \<not> Utils_UnsafeAreStringsEqual status ''assigned'' True
               then (False, AgentErrors_LogError ERROR_IOT_HUB_AUTHENTICATION SUBCODE_OTHER w1)
               else
                 copy_reply P reader ''assignedHub'' (store_field hostName hostName_update)
                  (\<lambda>_. copy_reply P reader ''deviceId'' (store_field deviceId deviceId_update)
                   (\<lambda>device. copy_reply P reader ''lastUpdatedDateTimeUtc'' (\<lambda>s w. ((True, s), w))
                    (\<lambda>lastUpdated w2.
                       if Utils_UnsafeAreStringsEqual lastUpdated (lastDPSUpdateTime (authenticationManager w2)) True
                       then (False, w2)
                       else
                         let ((ok, _), w3) = store_field lastDPSUpdateTime lastDPSUpdateTime_update lastUpdated w2 in
                         if \<not> ok then (False, w3)
                         else let (ok2, u) = fill_buffer MAX_BUFF (security_module_api device) in
                           (ok2, on_auth (relativeUrl_update (\<lambda>_. u)) w3)))) w1
           | _ \<Rightarrow> (False, w1))
      | (_, w1) \<Rightarrow> (False, w1))"

text \<open>\<open>strlen(dpsRequestContent)\<close> of a NULL pointer is a fault.\<close>

definition AuthenticationManager_GetHostNameFromDPSService ::
  "('v, 'o, 'r) parson \<Rightarrow> AuthenticationMethod \<Rightarrow> ('h, 'a) auth_env_scheme \<Rightarrow> bool \<times> ('h, 'a) auth_env_scheme" where
  "AuthenticationManager_GetHostNameFromDPSService P method w =
     (let (buf, w1) = sys_ext w in
      if \<not> buf then (False, w1)
      else let (mem, w2) = sys_malloc w1 in
        if \<not> mem then (False, w2)
        else let m = authenticationManager w2; scope = sas_token_scope (idScope m) (registrationId m) in
          case (dpsRequestContent m, dpsRelativeUrl m) of
            (Some content, Some url) \<Rightarrow>
              (let (reply, w3) = (case method of
                  SYMMETRIC_KEY \<Rightarrow> AuthenticationManager_HttpRequestUsingSasToken True GLOBAL_DPS_HOSTNAME url scope (Some content) w2
                | CERTIFICATE \<Rightarrow> AuthenticationManager_HttpRequestUsingCertificate True GLOBAL_DPS_HOSTNAME url (Some content) w2) in
               case reply of
                 None \<Rightarrow> (False, AgentErrors_LogError ERROR_IOT_HUB_AUTHENTICATION SUBCODE_OTHER w3)
               | Some (status, body) \<Rightarrow>
                   (let (ok, w4) = AuthenticationManager_EnsureHttpSuccessStatusCode status w3 in
                    if \<not> ok then (False, w4)
                    else AuthenticationManager_UpdateFromDpsResponse P body w4))
          | _ \<Rightarrow> (False, w2\<lparr>fault := True\<rparr>))"

definition AuthenticationManager_GetHostNameFromDPS ::
  "('v, 'o, 'r) parson \<Rightarrow> ('h, 'a) auth_env_scheme \<Rightarrow> bool \<times> ('h, 'a) auth_env_scheme" where
  "AuthenticationManager_GetHostNameFromDPS P w =
     (if sharedAccessKey (authenticationManager w) \<noteq> None
      then AuthenticationManager_GetHostNameFromDPSService P SYMMETRIC_KEY w
      else if certificate (authenticationManager w) \<noteq> None
      then AuthenticationManager_GetHostNameFromDPSService P CERTIFICATE w
      else (False, w))"

definition AuthenticationManager_SetDPSDetails ::
  "string \<Rightarrow> string \<Rightarrow> ('h, 'a) auth_env_scheme \<Rightarrow> bool \<times> ('h, 'a) auth_env_scheme" where
  "AuthenticationManager_SetDPSDetails scope reg w =
     (let fail = (\<lambda>w. (False, AuthenticationManager_DeinitDpsDetails w));
          ((ok, _), w1) = store_field idScope idScope_update scope w in
      if \<not> ok then fail w1
      else let ((ok2, _), w2) = store_field registrationId registrationId_update reg w1 in
        if \<not> ok2 then fail w2
        else
          let sharedSize = length reg + length scope + 1;
              (mem1, w3) = sys_malloc w2; (mem2, w4) = sys_malloc w3; (mem3, w5) = sys_malloc w4;
              m = authenticationManager w5 in
          if \<not> mem1 \<or> \<not> mem2 \<or> \<not> mem3 then fail w5
          else
            let w6 = on_auth (\<lambda>m. m\<lparr>dpsRelativeUrl := Some [], sasTokenScope := Some [], dpsRequestContent := Some []\<rparr>) w5;
                (ok3, url) = fill_buffer (of_nat (REGISTRATION_API_length + sharedSize)) (registration_api (idScope m) (registrationId m));
                w7 = on_auth (dpsRelativeUrl_update (\<lambda>_. Some url)) w6 in
            if \<not> ok3 then fail w7
            else
              let (ok4, sas) = (if sharedAccessKey m \<noteq> None
                    then fill_buffer (of_nat (SAS_TOKEN_SCOPE_length + sharedSize)) (registration_api (idScope m) (registrationId m))
                    else (True, []));
                  w8 = on_auth (sasTokenScope_update (\<lambda>_. Some sas)) w7 in
              if \<not> ok4 then fail w8
              else
                let (ok5, body) = fill_buffer (of_nat (REGISTRATION_BODY_length + sharedSize)) (registration_body (registrationId m));
                    w9 = on_auth (dpsRequestContent_update (\<lambda>_. Some body)) w8 in
                if \<not> ok5 then fail w9 else (True, w9))"

end
