(* ===== verification/Local_Config.thy ===== *)
theory Local_Config
  imports Authentication_Manager
begin

text \<open>
  The local configuration file, \<^verbatim>\<open>src/agent/src/local_config.c\<close> and the executable's directory of
  \<^verbatim>\<open>os_utils/linux/os_utils.c\<close>.  The statics of the C file are the fields of \<open>local_env\<close>.
\<close>

datatype LocalConfigurationResultValues = LOCAL_CONFIGURATION_OK | LOCAL_CONFIGURATION_EXCEPTION

record 'h local_env = "'h auth_env" +
  connectionString :: "string option"
  agentId :: "string option"
  authenticationManagerInitialized :: bool
  useDps :: bool
  triggeredEventsInterval :: u32
  connectionTimeout :: u32
  systemLoggerMinimumSeverity :: u32
  diagnosticEventMinimumSeverity :: u32
  remoteConfigurationObjectName :: "string option"

definition CONNECTION_STRING_SIZE :: u32 where "CONNECTION_STRING_SIZE = 500"
definition CONFIGURATION_FILE :: string where "CONFIGURATION_FILE = ''/LocalConfiguration.json''"

definition local_error :: "ErrorSubCodes \<Rightarrow> ('h, 'a) log_env_scheme \<Rightarrow> ('h, 'a) log_env_scheme" where
  "local_error = AgentErrors_LogError ERROR_LOCAL_CONFIGURATION"

section \<open>Authentication\<close>

text \<open>
  What follows \<open>AuthenticationManager_Init\<close>: the key or the certificate, by the name of the method.
\<close>

definition init_by_method ::
  "string \<Rightarrow> string \<Rightarrow> string \<Rightarrow> string \<Rightarrow> ('h, 'a) local_env_scheme \<Rightarrow>
    LocalConfigurationResultValues \<times> ('h, 'a) local_env_scheme" where
  "init_by_method authenticationMethod filePath host device w =
     (if Utils_UnsafeAreStringsEqual authenticationMethod ''SasToken'' True
      then let (ok, w1) = AuthenticationManager_InitFromSharedAccessKey host device w in
        (if ok then LOCAL_CONFIGURATION_OK else LOCAL_CONFIGURATION_EXCEPTION, w1)
      else if Utils_UnsafeAreStringsEqual authenticationMethod ''SelfSignedCertificate'' True
      then let (ok, w1) = AuthenticationManager_InitFromCertificate filePath host device w in
        (if ok then LOCAL_CONFIGURATION_OK else LOCAL_CONFIGURATION_EXCEPTION, w1)
      else (LOCAL_CONFIGURATION_EXCEPTION, local_error SUBCODE_CANT_PARSE_CONFIGURATION w))"

definition LocalConfiguration_InitAuthenticationThroughDevice ::
  "string \<Rightarrow> string \<Rightarrow> string \<Rightarrow> string \<Rightarrow> ('h, 'a) local_env_scheme \<Rightarrow>
    LocalConfigurationResultValues \<times> ('h, 'a) local_env_scheme" where
  "LocalConfiguration_InitAuthenticationThroughDevice authenticationMethod filePath host device w =
     (let (ok, w1) = AuthenticationManager_Init w in
      if \<not> ok
      then (LOCAL_CONFIGURATION_EXCEPTION, AgentErrors_LogError ERROR_IOT_HUB_AUTHENTICATION SUBCODE_OTHER w1)
      else init_by_method authenticationMethod filePath host device (w1\<lparr>authenticationManagerInitialized := True\<rparr>))"

text \<open>The result of \<open>AuthenticationManager_SetDPSDetails\<close> is not looked at.\<close>

definition LocalConfiguration_InitAuthenticationThroughDps ::
  "('v, 'o, 'r) parson \<Rightarrow> string \<Rightarrow> string \<Rightarrow> string \<Rightarrow> string \<Rightarrow> ('h, 'a) local_env_scheme \<Rightarrow>
    LocalConfigurationResultValues \<times> ('h, 'a) local_env_scheme" where
  "LocalConfiguration_InitAuthenticationThroughDps P scope reg authenticationMethod filePath w =
     (let (ok, w1) = AuthenticationManager_Init w in
      if \<not> ok
      then (LOCAL_CONFIGURATION_EXCEPTION, AgentErrors_LogError ERROR_IOT_HUB_AUTHENTICATION SUBCODE_OTHER w1)
      else
        let (_, w2) = AuthenticationManager_SetDPSDetails scope reg (w1\<lparr>authenticationManagerInitialized := True\<rparr>);
            (r, w3) = init_by_method authenticationMethod filePath [] [] w2 in
        if r \<noteq> LOCAL_CONFIGURATION_OK then (r, w3)
        else let (host, w4) = AuthenticationManager_GetHostNameFromDPS P w3 in
          (if host then LOCAL_CONFIGURATION_OK else LOCAL_CONFIGURATION_EXCEPTION, w4))"

definition copy_connection_string ::
  "string \<Rightarrow> ('h, 'a) local_env_scheme \<Rightarrow> LocalConfigurationResultValues \<times> ('h, 'a) local_env_scheme" where
  "copy_connection_string s w =
     (let (copy, w1) = Utils_CreateStringCopy (Some s) w in
      (if copy = None then LOCAL_CONFIGURATION_EXCEPTION else LOCAL_CONFIGURATION_OK,
       w1\<lparr>connectionString := copy\<rparr>))"

definition LocalConfiguration_InitConnectionStringFromDevice ::
  "('v, 'o, 'r) parson \<Rightarrow> ('h, 'a) local_env_scheme \<Rightarrow>
    LocalConfigurationResultValues \<times> ('h, 'a) local_env_scheme" where
  "LocalConfiguration_InitConnectionStringFromDevice P w =
     (let ((ok, s), w1) = AuthenticationManager_GetConnectionString P CONNECTION_STRING_SIZE w in
      if \<not> ok then (LOCAL_CONFIGURATION_EXCEPTION, w1) else copy_connection_string s w1)"

definition LocalConfiguration_InitConnectionStringFromModule ::
  "string \<Rightarrow> string \<Rightarrow> ('h, 'a) local_env_scheme \<Rightarrow>
    LocalConfigurationResultValues \<times> ('h, 'a) local_env_scheme" where
  "LocalConfiguration_InitConnectionStringFromModule host device w =
     (let ((r, data), w1) = FileUtils_ReadFile KEY_SIZE True w in
      if r \<noteq> FILE_UTILS_OK then (LOCAL_CONFIGURATION_EXCEPTION, log_file_failure r w1)
      else
        let w2 = w1\<lparr>fault := (fault w1 \<or> key_overrun data)\<rparr>;
            (ok, s) = AuthenticationManager_GenerateConnectionStringFromSharedAccessKey (key_text data)
                        CONNECTION_STRING_SIZE host device in
        if \<not> ok then (LOCAL_CONFIGURATION_EXCEPTION, w2) else copy_connection_string s w2)"

section \<open>Reading the file\<close>

definition LocalConfiguration_LogReadErrors ::
  "JsonReaderResult \<Rightarrow> ('h, 'a) local_env_scheme \<Rightarrow> ('h, 'a) local_env_scheme" where
  "LocalConfiguration_LogReadErrors r w =
     (if r = JSON_READER_KEY_MISSING then local_error SUBCODE_MISSING_CONFIGURATION w
      else if r = JSON_READER_PARSE_ERROR then local_error SUBCODE_CANT_PARSE_CONFIGURATION w
      else if r \<noteq> JSON_READER_OK then local_error SUBCODE_OTHER w else w)"

definition LocalConfiguration_ReadJsonStringConfig ::
  "('v, 'o, 'r) parson \<Rightarrow> ('v, 'o) JsonObjectReader \<Rightarrow> string \<Rightarrow> ('h, 'a) local_env_scheme \<Rightarrow>
    (JsonReaderResult \<times> string option) \<times> ('h, 'a) local_env_scheme" where
  "LocalConfiguration_ReadJsonStringConfig P reader key w =
     (let (r, out) = JsonObjectReader_ReadString P reader key in
      if r \<noteq> JSON_READER_OK then ((r, out), LocalConfiguration_LogReadErrors r w)
      else if out = Some [] then ((JSON_READER_KEY_MISSING, out), local_error SUBCODE_MISSING_CONFIGURATION w)
      else ((r, out), w))"

definition LocalConfiguration_ReadJsonTimeConfig ::
  "('v, 'o, 'r) parson \<Rightarrow> ('v, 'o) JsonObjectReader \<Rightarrow> string \<Rightarrow> ('h, 'a) local_env_scheme \<Rightarrow>
    (JsonReaderResult \<times> u32 option) \<times> ('h, 'a) local_env_scheme" where
  "LocalConfiguration_ReadJsonTimeConfig P reader key w =
     (let (r, out) = JsonObjectReader_ReadTimeInMilliseconds P reader key in
      ((r, out), if r \<noteq> JSON_READER_OK then LocalConfiguration_LogReadErrors r w else w))"

text \<open>
  \<open>parseResult |= ...\<close> stays 0 exactly when every result is \<open>JSON_READER_OK\<close>: the model keeps
  whether it did.  The comparison of \<open>identity\<close> comes before the check of \<open>parseResult\<close>: an
  identity that could not be read is a NULL pointer in \<open>strlen\<close>.  Which of the strings are read
  depends on that comparison; one that was not read stays NULL, here the empty text.
\<close>

definition LocalConfiguration_InitConnectionString ::
  "('v, 'o, 'r) parson \<Rightarrow> ('v, 'o) JsonObjectReader \<Rightarrow> ('h, 'a) local_env_scheme \<Rightarrow>
    (LocalConfigurationResultValues \<times> ('v, 'o) JsonObjectReader) \<times> ('h, 'a) local_env_scheme" where
  "LocalConfiguration_InitConnectionString P reader0 w =
     (let (r0, reader) = JsonObjectReader_StepIn P reader0 ''Authentication'' in
      if r0 \<noteq> JSON_READER_OK
      then ((LOCAL_CONFIGURATION_EXCEPTION, reader), LocalConfiguration_LogReadErrors r0 w)
      else
        let ((r1, authenticationMethod), w1) = LocalConfiguration_ReadJsonStringConfig P reader ''AuthenticationMethod'' w;
            ((r2, identity), w2) = LocalConfiguration_ReadJsonStringConfig P reader ''Identity'' w1;
            ((r3, filePath), w3) = LocalConfiguration_ReadJsonStringConfig P reader ''FilePath'' w2;
            ok3 = (r1 = JSON_READER_OK \<and> r2 = JSON_READER_OK \<and> r3 = JSON_READER_OK)
        in case identity of
          None \<Rightarrow> ((LOCAL_CONFIGURATION_EXCEPTION, reader), w3\<lparr>fault := True\<rparr>)
        | Some identity' \<Rightarrow>
            (if Utils_UnsafeAreStringsEqual identity' ''DPS'' True
             then
               let w4 = w3\<lparr>useDps := True\<rparr>;
                   (r4, inner) = JsonObjectReader_StepIn P reader ''DPS'';
                   ((r5, scope), w5) = LocalConfiguration_ReadJsonStringConfig P inner ''IDScope'' w4;
                   ((r6, reg), w6) = LocalConfiguration_ReadJsonStringConfig P inner ''RegistrationId'' w5;
                   (r7, outer) = JsonObjectReader_StepOut P inner
               in if \<not> (ok3 \<and> r4 = JSON_READER_OK \<and> r5 = JSON_READER_OK \<and> r6 = JSON_READER_OK \<and> r7 = JSON_READER_OK)
                  then ((LOCAL_CONFIGURATION_EXCEPTION, outer), w6)
                  else
                    let (r, w7) = LocalConfiguration_InitAuthenticationThroughDps P (the scope) (the reg)
                                    (the authenticationMethod) (the filePath) w6 in
                    if r \<noteq> LOCAL_CONFIGURATION_OK then ((r, outer), w7)
                    else let (r', w8) = LocalConfiguration_InitConnectionStringFromDevice P w7 in ((r', outer), w8)
             else
               let ((r4, host), w4) = LocalConfiguration_ReadJsonStringConfig P reader ''HostName'' w3;
                   ((r5, device), w5) = LocalConfiguration_ReadJsonStringConfig P reader ''DeviceId'' w4
               in if \<not> (ok3 \<and> r4 = JSON_READER_OK \<and> r5 = JSON_READER_OK)
                  then ((LOCAL_CONFIGURATION_EXCEPTION, reader), w5)
                  else if useDps w5
                  then
                    let (r, w6) = LocalConfiguration_InitAuthenticationThroughDps P [] []
                                    (the authenticationMethod) (the filePath) (w5\<lparr>fault := True\<rparr>) in
                    if r \<noteq> LOCAL_CONFIGURATION_OK then ((r, reader), w6)
                    else let (r', w7) = LocalConfiguration_InitConnectionStringFromDevice P w6 in ((r', reader), w7)
                  else if Utils_UnsafeAreStringsEqual identity' ''Device'' True
                  then
                    let (r, w6) = LocalConfiguration_InitAuthenticationThroughDevice
                                    (the authenticationMethod) (the filePath) (the host) (the device) w5 in
                    if r \<noteq> LOCAL_CONFIGURATION_OK then ((r, reader), w6)
                    else let (r', w7) = LocalConfiguration_InitConnectionStringFromDevice P w6 in ((r', reader), w7)
                  else if Utils_UnsafeAreStringsEqual identity' ''SecurityModule'' True
                  then
                    if Utils_UnsafeAreStringsEqual (the authenticationMethod) ''SasToken'' True
                    then let (r, w6) = LocalConfiguration_InitConnectionStringFromModule (the host) (the device) w5 in
                      ((r, reader), w6)
                    else ((LOCAL_CONFIGURATION_EXCEPTION, reader), local_error SUBCODE_OTHER w5)
                  else ((LOCAL_CONFIGURATION_EXCEPTION, reader), local_error SUBCODE_CANT_PARSE_CONFIGURATION w5)))"

definition read_severity ::
  "('v, 'o, 'r) parson \<Rightarrow> ('v, 'o) JsonObjectReader \<Rightarrow> string \<Rightarrow> u32 \<Rightarrow> u32" where
  "read_severity P reader key old =
     (case JsonObjectReader_ReadInt P reader key of (JSON_READER_OK, Some n) \<Rightarrow> n | _ \<Rightarrow> old)"

definition LocalConfiguration_InitLogger ::
  "('v, 'o, 'r) parson \<Rightarrow> ('v, 'o) JsonObjectReader \<Rightarrow> ('h, 'a) local_env_scheme \<Rightarrow> ('h, 'a) local_env_scheme" where
  "LocalConfiguration_InitLogger P reader w =
     (case JsonObjectReader_StepIn P reader ''Logging'' of
        (JSON_READER_OK, inner) \<Rightarrow>
          w\<lparr>systemLoggerMinimumSeverity :=
               read_severity P inner ''SystemLoggerMinimumSeverity'' (systemLoggerMinimumSeverity w),
            diagnosticEventMinimumSeverity :=
               read_severity P inner ''DiagnoticEventMinimumSeverity'' (diagnosticEventMinimumSeverity w)\<rparr>
      | _ \<Rightarrow> w)"

section \<open>Life cycle\<close>

text \<open>\<open>readlink\<close> into 499 bytes; a failed copy leaves the returned pointer uninitialised.\<close>

definition GetExecutableDirectory :: "'a env_scheme \<Rightarrow> string option \<times> 'a env_scheme" where
  "GetExecutableDirectory w =
     (let (link, w1) = sys_bytes w in
      case link of
        None \<Rightarrow> (None, w1)
      | Some full \<Rightarrow>
          (let path = Utils_TrimLastOccurance (take 499 full) CHR ''/''; (ok, w2) = sys_malloc w1 in
           (Some path, if ok then w2 else w2\<lparr>fault := True\<rparr>)))"

definition LocalConfiguration_Deinit :: "('h, 'a) local_env_scheme \<Rightarrow> ('h, 'a) local_env_scheme" where
  "LocalConfiguration_Deinit w =
     (let w1 = (if authenticationManagerInitialized w
                then (AuthenticationManager_Deinit w)\<lparr>authenticationManagerInitialized := False\<rparr> else w);
          w2 = (if connectionString w1 \<noteq> None then w1\<lparr>connectionString := None\<rparr> else w1);
          w3 = (if agentId w2 \<noteq> None then w2\<lparr>agentId := None\<rparr> else w2)
      in if remoteConfigurationObjectName w3 \<noteq> None then w3\<lparr>agentId := None\<rparr> else w3)"

definition LocalConfiguration_Init_body ::
  "('v, 'o, 'r) parson \<Rightarrow> ('h, 'a) local_env_scheme \<Rightarrow> LocalConfigurationResultValues \<times> ('h, 'a) local_env_scheme" where
  "LocalConfiguration_Init_body P w =
     (case GetExecutableDirectory w of
        (None, w1) \<Rightarrow> (LOCAL_CONFIGURATION_EXCEPTION, local_error SUBCODE_OTHER w1)
      | (Some directory, w1) \<Rightarrow>
        let (mem, w2) = sys_malloc w1 in
        if \<not> mem then (LOCAL_CONFIGURATION_EXCEPTION, local_error SUBCODE_OTHER w2)
        else case JsonObjectReader_InitFromFile P (directory @ CONFIGURATION_FILE) w2 of
          ((JSON_READER_OK, Some reader0), w3) \<Rightarrow>
            let (r1, reader) = JsonObjectReader_StepIn P reader0 ''Configuration'' in
            if r1 \<noteq> JSON_READER_OK then (LOCAL_CONFIGURATION_EXCEPTION, w3)
            else let ((r2, id), w4) = LocalConfiguration_ReadJsonStringConfig P reader ''AgentId'' w3 in
            if r2 \<noteq> JSON_READER_OK then (LOCAL_CONFIGURATION_EXCEPTION, w4)
            else let (id', w5) = Utils_CreateStringCopy id w4; w6 = w5\<lparr>agentId := id'\<rparr> in
            if id' = None then (LOCAL_CONFIGURATION_EXCEPTION, w6)
            else let ((r3, interval), w7) = LocalConfiguration_ReadJsonTimeConfig P reader ''TriggerdEventsInterval'' w6 in
            if r3 \<noteq> JSON_READER_OK then (LOCAL_CONFIGURATION_EXCEPTION, w7)
            else let w8 = w7\<lparr>triggeredEventsInterval := the interval\<rparr>;
                     ((r4, timeout), w9) = LocalConfiguration_ReadJsonTimeConfig P reader ''ConnectionTimeout'' w8 in
            if r4 \<noteq> JSON_READER_OK then (LOCAL_CONFIGURATION_EXCEPTION, w9)
            else let w10 = w9\<lparr>connectionTimeout := the timeout\<rparr>;
                     ((r5, name), w11) = LocalConfiguration_ReadJsonStringConfig P reader ''RemoteConfigurationObjectName'' w10 in
            if r5 \<noteq> JSON_READER_OK then (LOCAL_CONFIGURATION_EXCEPTION, w11)
            else let (name', w12) = Utils_CreateStringCopy name w11; w13 = w12\<lparr>remoteConfigurationObjectName := name'\<rparr> in
            if name' = None then (LOCAL_CONFIGURATION_EXCEPTION, w13)
            else let ((r6, reader'), w14) = LocalConfiguration_InitConnectionString P reader w13 in
            if r6 \<noteq> LOCAL_CONFIGURATION_OK then (LOCAL_CONFIGURATION_EXCEPTION, w14)
            else let (r7, outer) = JsonObjectReader_StepOut P reader' in
            if r7 \<noteq> JSON_READER_OK then (LOCAL_CONFIGURATION_EXCEPTION, w14)
            else (LOCAL_CONFIGURATION_OK, LocalConfiguration_InitLogger P outer w14)
        | (_, w3) \<Rightarrow> (LOCAL_CONFIGURATION_EXCEPTION, local_error SUBCODE_FILE_FORMAT w3))"

definition LocalConfiguration_Init ::
  "('v, 'o, 'r) parson \<Rightarrow> ('h, 'a) local_env_scheme \<Rightarrow> LocalConfigurationResultValues \<times> ('h, 'a) local_env_scheme" where
  "LocalConfiguration_Init P w =
     (let (r, w1) = LocalConfiguration_Init_body P w in
      if r \<noteq> LOCAL_CONFIGURATION_OK then (r, LocalConfiguration_Deinit w1) else (r, w1))"

definition LocalConfiguration_TryRenewConnectionString ::
  "('v, 'o, 'r) parson \<Rightarrow> ('h, 'a) local_env_scheme \<Rightarrow> bool \<times> ('h, 'a) local_env_scheme" where
  "LocalConfiguration_TryRenewConnectionString P w =
     (let (ok, w1) = AuthenticationManager_GetHostNameFromDPS P w in
      if \<not> ok then (False, w1)
      else let (r, w2) = LocalConfiguration_InitConnectionStringFromDevice P w1 in
        (r = LOCAL_CONFIGURATION_OK, w2))"

definition LocalConfiguration_GetRemoteConfigurationObjectName :: "('h, 'a) local_env_scheme \<Rightarrow> string option" where
  "LocalConfiguration_GetRemoteConfigurationObjectName w = remoteConfigurationObjectName w"

definition LocalConfiguration_GetConnectionString :: "('h, 'a) local_env_scheme \<Rightarrow> string option" where
  "LocalConfiguration_GetConnectionString w = connectionString w"

definition LocalConfiguration_GetAgentId :: "('h, 'a) local_env_scheme \<Rightarrow> string option" where
  "LocalConfiguration_GetAgentId w = agentId w"

definition LocalConfiguration_UseDps :: "('h, 'a) local_env_scheme \<Rightarrow> bool" where
  "LocalConfiguration_UseDps w = useDps w"

definition LocalConfiguration_GetTriggeredEventInterval :: "('h, 'a) local_env_scheme \<Rightarrow> u32" where
  "LocalConfiguration_GetTriggeredEventInterval w = triggeredEventsInterval w"

definition LocalConfiguration_GetConnectionTimeout :: "('h, 'a) local_env_scheme \<Rightarrow> u32" where
  "LocalConfiguration_GetConnectionTimeout w = connectionTimeout w"

end
