(* ===== verification/Event_Collectors_Config.thy ===== *)
theory Event_Collectors_Config
  imports Sample_Documents Local_Config
begin

text \<open>
  The part of the twin that configures the event collectors,
  \<^verbatim>\<open>src/agent/src/twin_configuration_event_collectors.c\<close>: ten priorities, two aggregation
  switches and two aggregation intervals, behind a lock of their own.  The static
  \<open>eventPriorities\<close> of the C file is the world's field of that name; \<open>ec_lock\<close> says whether
  its lock handle is there.
\<close>

datatype TwinConfigurationEventPriority =
  EVENT_PRIORITY_OPERATIONAL | EVENT_PRIORITY_HIGH | EVENT_PRIORITY_LOW | EVENT_PRIORITY_OFF

datatype TwinConfigurationEventType =
  EVENT_TYPE_BASELINE | EVENT_TYPE_CONNECTION_CREATE | EVENT_TYPE_FIREWALL_CONFIGURATION
| EVENT_TYPE_LISTENING_PORTS | EVENT_TYPE_LOCAL_USERS | EVENT_TYPE_PROCESS_CREATE
| EVENT_TYPE_SYSTEM_INFORMATION | EVENT_TYPE_USER_LOGIN | EVENT_TYPE_DIAGNOSTIC
| EVENT_TYPE_OPERATIONAL_EVENT

record TwinConfigurationEventCollectors =
  processCreatePriority :: TwinConfigurationEventPriority
  listeningPortsPriority :: TwinConfigurationEventPriority
  systemInformationPriority :: TwinConfigurationEventPriority
  localUsersPriority :: TwinConfigurationEventPriority
  loginPriority :: TwinConfigurationEventPriority
  connectionCreatePriority :: TwinConfigurationEventPriority
  firewallConfigurationPriority :: TwinConfigurationEventPriority
  baselinePriority :: TwinConfigurationEventPriority
  diagnostic :: TwinConfigurationEventPriority
  operational :: TwinConfigurationEventPriority
  processCreateAggregationEnabled :: bool
  connectionCreateAggregationEnabled :: bool
  processCreateAggregationInterval :: u32
  connectionCreateAggregationInterval :: u32
  ec_lock :: bool
  isLocked :: bool

record 'h collectors_env = "'h local_env" +
  eventPriorities :: TwinConfigurationEventCollectors

section \<open>Keys\<close>

definition PROCESS_CREATE_PRIORITY_KEY :: string where "PROCESS_CREATE_PRIORITY_KEY = ''eventPriorityProcessCreate''"
definition LISTENING_PORTS_PRIORITY_KEY :: string where "LISTENING_PORTS_PRIORITY_KEY = ''eventPriorityListeningPorts''"
definition SYSTEM_INFORMATION_PRIORITY_KEY :: string where "SYSTEM_INFORMATION_PRIORITY_KEY = ''eventPrioritySystemInformation''"
definition LOCAL_USERS_PRIORITY_KEY :: string where "LOCAL_USERS_PRIORITY_KEY = ''eventPriorityLocalUsers''"
definition LOGIN_PRIORITY_KEY :: string where "LOGIN_PRIORITY_KEY = ''eventPriorityLogin''"
definition CONNECTION_CREATE_PRIORITY_KEY :: string where "CONNECTION_CREATE_PRIORITY_KEY = ''eventPriorityConnectionCreate''"
definition FIREWALL_CONFIGURATION_PRIORITY_KEY :: string where "FIREWALL_CONFIGURATION_PRIORITY_KEY = ''eventPriorityFirewallConfiguration''"
definition BASELINE_PRIORITY_KEY :: string where "BASELINE_PRIORITY_KEY = ''eventPriorityOSBaseline''"
definition DIAGNOSTIC_PRIORITY_KEY :: string where "DIAGNOSTIC_PRIORITY_KEY = ''eventPriorityDiagnostic''"
definition OPERATIONAL_EVENT_KEY :: string where "OPERATIONAL_EVENT_KEY = ''eventPriorityOperational''"
definition PROCESS_CREATE_AGGREGATION_ENABLED_KEY :: string where
  "PROCESS_CREATE_AGGREGATION_ENABLED_KEY = ''aggregationEnabledProcessCreate''"
definition PROCESS_CREATE_AGGREGATION_INTERVAL_KEY :: string where
  "PROCESS_CREATE_AGGREGATION_INTERVAL_KEY = ''aggregationIntervalProcessCreate''"
definition CONNECTION_CREATE_AGGREGATION_ENABLED_KEY :: string where
  "CONNECTION_CREATE_AGGREGATION_ENABLED_KEY = ''aggregationEnabledConnectionCreate''"
definition CONNECTION_CREATE_AGGREGATION_INTERVAL_KEY :: string where
  "CONNECTION_CREATE_AGGREGATION_INTERVAL_KEY = ''aggregationIntervalConnectionCreate''"

section \<open>Life cycle and lock\<close>

text \<open>The values that \<open>Init\<close> sets and that stand in for keys missing from the twin.\<close>

definition default_collectors :: TwinConfigurationEventCollectors where
  "default_collectors =
     \<lparr>processCreatePriority = EVENT_PRIORITY_LOW, listeningPortsPriority = EVENT_PRIORITY_HIGH,
      systemInformationPriority = EVENT_PRIORITY_LOW, localUsersPriority = EVENT_PRIORITY_HIGH,
      loginPriority = EVENT_PRIORITY_HIGH, connectionCreatePriority = EVENT_PRIORITY_LOW,
      firewallConfigurationPriority = EVENT_PRIORITY_LOW, baselinePriority = EVENT_PRIORITY_LOW,
      diagnostic = EVENT_PRIORITY_LOW, operational = EVENT_PRIORITY_OPERATIONAL,
      processCreateAggregationEnabled = True, connectionCreateAggregationEnabled = True,
      processCreateAggregationInterval = MILLISECONDS_IN_AN_HOUR,
      connectionCreateAggregationInterval = MILLISECONDS_IN_AN_HOUR,
      ec_lock = True, isLocked = False\<rparr>"

definition TwinConfigurationEventCollectors_Init ::
  "('h, 'a) collectors_env_scheme \<Rightarrow> TwinConfigurationResult \<times> ('h, 'a) collectors_env_scheme" where
  "TwinConfigurationEventCollectors_Init w =
     (let w1 = w\<lparr>eventPriorities := (eventPriorities w)\<lparr>isLocked := False\<rparr>\<rparr>; (ok, w2) = sys_ext w1 in
      if \<not> ok then (TWIN_LOCK_EXCEPTION, w2\<lparr>eventPriorities := (eventPriorities w2)\<lparr>ec_lock := False\<rparr>\<rparr>)
      else (TWIN_OK, w2\<lparr>eventPriorities := default_collectors\<rparr>))"

definition TwinConfigurationEventCollectors_Deinit ::
  "('h, 'a) collectors_env_scheme \<Rightarrow> ('h, 'a) collectors_env_scheme" where
  "TwinConfigurationEventCollectors_Deinit w =
     (if ec_lock (eventPriorities w)
      then w\<lparr>eventPriorities := (eventPriorities w)\<lparr>ec_lock := False\<rparr>\<rparr> else w)"

definition TwinConfigurationEventCollectors_Lock ::
  "('h, 'a) collectors_env_scheme \<Rightarrow> bool \<times> ('h, 'a) collectors_env_scheme" where
  "TwinConfigurationEventCollectors_Lock w =
     (if isLocked (eventPriorities w) then (False, w)
      else let (ok, w1) = sys_lock w in
        if \<not> ok then (False, w1)
        else (True, w1\<lparr>eventPriorities := (eventPriorities w1)\<lparr>isLocked := True\<rparr>\<rparr>))"

definition TwinConfigurationEventCollectors_Unlock ::
  "('h, 'a) collectors_env_scheme \<Rightarrow> bool \<times> ('h, 'a) collectors_env_scheme" where
  "TwinConfigurationEventCollectors_Unlock w =
     (let (ok, w1) = (if isLocked (eventPriorities w) then sys_lock w else (True, w)) in
      if \<not> ok then (False, w1)
      else (True, w1\<lparr>eventPriorities := (eventPriorities w1)\<lparr>isLocked := False\<rparr>\<rparr>))"

text \<open>
  The frame of the operations below: the \<open>cleanup\<close> label unlocks on every path that reaches it,
  also when the lock was not taken.
\<close>

definition with_collectors_lock ::
  "(('h, 'a) collectors_env_scheme \<Rightarrow> (TwinConfigurationResult \<times> 'x option) \<times> ('h, 'a) collectors_env_scheme) \<Rightarrow>
    ('h, 'a) collectors_env_scheme \<Rightarrow> (TwinConfigurationResult \<times> 'x option) \<times> ('h, 'a) collectors_env_scheme" where
  "with_collectors_lock body w =
     (let (ok, w1) = TwinConfigurationEventCollectors_Lock w;
          ((r, x), w2) = (if ok then body w1 else ((TWIN_LOCK_EXCEPTION, None), w1));
          (ok2, w3) = TwinConfigurationEventCollectors_Unlock w2
      in ((if ok2 then r else TWIN_LOCK_EXCEPTION, x), w3))"

section \<open>Priorities as text\<close>

definition TwinConfigurationEventCollectors_PriorityAsEnum ::
  "string \<Rightarrow> TwinConfigurationResult \<times> TwinConfigurationEventPriority option" where
  "TwinConfigurationEventCollectors_PriorityAsEnum s =
     (if Utils_UnsafeAreStringsEqual s ''high'' False then (TWIN_OK, Some EVENT_PRIORITY_HIGH)
      else if Utils_UnsafeAreStringsEqual s ''low'' False then (TWIN_OK, Some EVENT_PRIORITY_LOW)
      else if Utils_UnsafeAreStringsEqual s ''off'' False then (TWIN_OK, Some EVENT_PRIORITY_OFF)
      else (TWIN_PARSE_EXCEPTION, None))"

fun TwinConfigurationEventCollectors_PriorityEnumAsString :: "TwinConfigurationEventPriority \<Rightarrow> string" where
  "TwinConfigurationEventCollectors_PriorityEnumAsString EVENT_PRIORITY_HIGH = ''high''"
| "TwinConfigurationEventCollectors_PriorityEnumAsString EVENT_PRIORITY_OPERATIONAL = ''high''"
| "TwinConfigurationEventCollectors_PriorityEnumAsString EVENT_PRIORITY_LOW = ''low''"
| "TwinConfigurationEventCollectors_PriorityEnumAsString EVENT_PRIORITY_OFF = ''off''"

section \<open>Updating\<close>

text \<open>
  The state of an update in progress: the reader, the new values, and the world.  A setter leaves
  the field alone when nothing was read; the sequence ends with the first result other than
  \<open>TWIN_OK\<close>.
\<close>

type_synonym ('v, 'o, 'w) setter =
  "('v, 'o) JsonObjectReader \<times> TwinConfigurationEventCollectors \<times> 'w \<Rightarrow>
    TwinConfigurationResult \<times> ('v, 'o) JsonObjectReader \<times> TwinConfigurationEventCollectors \<times> 'w"

fun run_steps :: "('s \<Rightarrow> TwinConfigurationResult \<times> 's) list \<Rightarrow> 's \<Rightarrow> TwinConfigurationResult \<times> 's" where
  "run_steps [] s = (TWIN_OK, s)"
| "run_steps (f # fs) s = (let (r, s1) = f s in if r \<noteq> TWIN_OK then (r, s1) else run_steps fs s1)"

definition set_field ::
  "(('v, 'o) JsonObjectReader \<Rightarrow> (TwinConfigurationResult \<times> 'x option) \<times> ('v, 'o) JsonObjectReader) \<Rightarrow>
    ('x \<Rightarrow> TwinConfigurationEventCollectors \<Rightarrow> TwinConfigurationEventCollectors) \<Rightarrow> ('v, 'o, 'w) setter" where
  "set_field read upd = (\<lambda>(reader, new, w).
     let ((r, x), reader') = read reader in
     (r, reader', (case x of None \<Rightarrow> new | Some v \<Rightarrow> upd v new), w))"

definition TwinConfigurationEventCollectors_SetSingleValues ::
  "('v, 'o, 'r) parson \<Rightarrow> string \<Rightarrow> TwinConfigurationEventPriority \<Rightarrow> ('v, 'o) JsonObjectReader \<Rightarrow>
    (TwinConfigurationResult \<times> TwinConfigurationEventPriority option) \<times> ('v, 'o) JsonObjectReader" where
  "TwinConfigurationEventCollectors_SetSingleValues P key defaultValue reader =
     (let ((r, s), reader') = TwinConfigurationUtils_GetConfigurationStringValueFromJson P reader key in
      if r = TWIN_CONF_NOT_EXIST then ((TWIN_OK, Some defaultValue), reader')
      else if r \<noteq> TWIN_OK then ((r, None), reader')
      else (TwinConfigurationEventCollectors_PriorityAsEnum (the s), reader'))"

definition TwinConfigurationEventCollectors_SetSingleBoolValue ::
  "('v, 'o, 'r) parson \<Rightarrow> string \<Rightarrow> bool \<Rightarrow> ('v, 'o) JsonObjectReader \<Rightarrow>
    (TwinConfigurationResult \<times> bool option) \<times> ('v, 'o) JsonObjectReader" where
  "TwinConfigurationEventCollectors_SetSingleBoolValue P key defaultValue reader =
     (let ((r, b), reader') = TwinConfigurationUtils_GetConfigurationBoolValueFromJson P reader key in
      if r = TWIN_CONF_NOT_EXIST then ((TWIN_OK, Some defaultValue), reader') else ((r, b), reader'))"

definition TwinConfigurationEventCollectors_SetSingleUintTimeValue ::
  "('v, 'o, 'r) parson \<Rightarrow> string \<Rightarrow> u32 \<Rightarrow> ('v, 'o) JsonObjectReader \<Rightarrow>
    (TwinConfigurationResult \<times> u32 option) \<times> ('v, 'o) JsonObjectReader" where
  "TwinConfigurationEventCollectors_SetSingleUintTimeValue P key defaultValue reader =
     (let ((r, t), reader') = TwinConfigurationUtils_GetConfigurationTimeValueFromJson P reader key in
      if r = TWIN_CONF_NOT_EXIST then ((TWIN_OK, Some defaultValue), reader') else ((r, t), reader'))"

text \<open>
  The step after the operational priority: it restricts the priority in \<open>eventPriorities\<close>, the
  configuration in force, to off or operational, not the one just read into the new values.
\<close>

definition normalise_operational :: "('v, 'o, ('h, 'a) collectors_env_scheme) setter" where
  "normalise_operational = (\<lambda>(reader, new, w).
     (TWIN_OK, reader, new, w\<lparr>eventPriorities := (eventPriorities w)\<lparr>operational :=
        (if operational (eventPriorities w) = EVENT_PRIORITY_OFF then EVENT_PRIORITY_OFF
         else EVENT_PRIORITY_OPERATIONAL)\<rparr>\<rparr>))"

definition set_values_steps ::
  "('v, 'o, 'r) parson \<Rightarrow> ('v, 'o, ('h, 'a) collectors_env_scheme) setter list" where
  "set_values_steps P =
    (let prio = TwinConfigurationEventCollectors_SetSingleValues P;
         flag = TwinConfigurationEventCollectors_SetSingleBoolValue P;
         interval = TwinConfigurationEventCollectors_SetSingleUintTimeValue P in
     [set_field (prio PROCESS_CREATE_PRIORITY_KEY EVENT_PRIORITY_LOW) (\<lambda>v. processCreatePriority_update (\<lambda>_. v)),
      set_field (prio LISTENING_PORTS_PRIORITY_KEY EVENT_PRIORITY_HIGH) (\<lambda>v. listeningPortsPriority_update (\<lambda>_. v)),
      set_field (prio SYSTEM_INFORMATION_PRIORITY_KEY EVENT_PRIORITY_LOW) (\<lambda>v. systemInformationPriority_update (\<lambda>_. v)),
      set_field (prio LOCAL_USERS_PRIORITY_KEY EVENT_PRIORITY_HIGH) (\<lambda>v. localUsersPriority_update (\<lambda>_. v)),
      set_field (prio LOGIN_PRIORITY_KEY EVENT_PRIORITY_HIGH) (\<lambda>v. loginPriority_update (\<lambda>_. v)),
      set_field (prio CONNECTION_CREATE_PRIORITY_KEY EVENT_PRIORITY_LOW) (\<lambda>v. connectionCreatePriority_update (\<lambda>_. v)),
      set_field (prio FIREWALL_CONFIGURATION_PRIORITY_KEY EVENT_PRIORITY_LOW) (\<lambda>v. firewallConfigurationPriority_update (\<lambda>_. v)),
      set_field (prio BASELINE_PRIORITY_KEY EVENT_PRIORITY_LOW) (\<lambda>v. baselinePriority_update (\<lambda>_. v)),
      set_field (prio DIAGNOSTIC_PRIORITY_KEY EVENT_PRIORITY_LOW) (\<lambda>v. diagnostic_update (\<lambda>_. v)),
      set_field (prio OPERATIONAL_EVENT_KEY EVENT_PRIORITY_OPERATIONAL) (\<lambda>v. operational_update (\<lambda>_. v)),
      normalise_operational,
      set_field (flag PROCESS_CREATE_AGGREGATION_ENABLED_KEY True) (\<lambda>v. processCreateAggregationEnabled_update (\<lambda>_. v)),
      set_field (interval PROCESS_CREATE_AGGREGATION_INTERVAL_KEY MILLISECONDS_IN_AN_HOUR) (\<lambda>v. processCreateAggregationInterval_update (\<lambda>_. v)),
      set_field (flag CONNECTION_CREATE_AGGREGATION_ENABLED_KEY True) (\<lambda>v. connectionCreateAggregationEnabled_update (\<lambda>_. v)),
      set_field (interval CONNECTION_CREATE_AGGREGATION_INTERVAL_KEY MILLISECONDS_IN_AN_HOUR) (\<lambda>v. connectionCreateAggregationInterval_update (\<lambda>_. v))])"

text \<open>\<open>newPriorities = { 0 }\<close>: the first constructor of each enum, false and 0.\<close>

definition zero_collectors :: TwinConfigurationEventCollectors where
  "zero_collectors =
     \<lparr>processCreatePriority = EVENT_PRIORITY_OPERATIONAL, listeningPortsPriority = EVENT_PRIORITY_OPERATIONAL,
      systemInformationPriority = EVENT_PRIORITY_OPERATIONAL, localUsersPriority = EVENT_PRIORITY_OPERATIONAL,
      loginPriority = EVENT_PRIORITY_OPERATIONAL, connectionCreatePriority = EVENT_PRIORITY_OPERATIONAL,
      firewallConfigurationPriority = EVENT_PRIORITY_OPERATIONAL, baselinePriority = EVENT_PRIORITY_OPERATIONAL,
      diagnostic = EVENT_PRIORITY_OPERATIONAL, operational = EVENT_PRIORITY_OPERATIONAL,
      processCreateAggregationEnabled = False, connectionCreateAggregationEnabled = False,
      processCreateAggregationInterval = 0, connectionCreateAggregationInterval = 0,
      ec_lock = False, isLocked = False\<rparr>"

definition TwinConfigurationEventCollectors_SetValues ::
  "('v, 'o, 'r) parson \<Rightarrow> ('v, 'o) JsonObjectReader \<Rightarrow> ('h, 'a) collectors_env_scheme \<Rightarrow>
    (TwinConfigurationResult \<times> ('v, 'o) JsonObjectReader) \<times> ('h, 'a) collectors_env_scheme" where
  "TwinConfigurationEventCollectors_SetValues P reader w =
     (let (r, reader', new, w1) = run_steps (set_values_steps P) (reader, zero_collectors, w) in
      if r = TWIN_OK
      then ((r, reader'), w1\<lparr>eventPriorities :=
              new\<lparr>ec_lock := ec_lock (eventPriorities w1), isLocked := isLocked (eventPriorities w1)\<rparr>\<rparr>)
      else ((r, reader'), w1))"

definition TwinConfigurationEventCollectors_Update ::
  "('v, 'o, 'r) parson \<Rightarrow> ('v, 'o) JsonObjectReader \<Rightarrow> ('h, 'a) collectors_env_scheme \<Rightarrow>
    TwinConfigurationResult \<times> ('h, 'a) collectors_env_scheme" where
  "TwinConfigurationEventCollectors_Update P reader w =
     (let ((r, _), w1) = with_collectors_lock
        (\<lambda>w. let ((r, reader'), w') = TwinConfigurationEventCollectors_SetValues P reader w in ((r, Some reader'), w')) w
      in (r, w1))"

section \<open>Reading\<close>

fun TwinConfigurationEventCollectors_SafeGetPriority ::
  "TwinConfigurationEventType \<Rightarrow> TwinConfigurationEventCollectors \<Rightarrow> TwinConfigurationEventPriority" where
  "TwinConfigurationEventCollectors_SafeGetPriority EVENT_TYPE_PROCESS_CREATE c = processCreatePriority c"
| "TwinConfigurationEventCollectors_SafeGetPriority EVENT_TYPE_LISTENING_PORTS c = listeningPortsPriority c"
| "TwinConfigurationEventCollectors_SafeGetPriority EVENT_TYPE_SYSTEM_INFORMATION c = systemInformationPriority c"
| "TwinConfigurationEventCollectors_SafeGetPriority EVENT_TYPE_LOCAL_USERS c = localUsersPriority c"
| "TwinConfigurationEventCollectors_SafeGetPriority EVENT_TYPE_USER_LOGIN c = loginPriority c"
| "TwinConfigurationEventCollectors_SafeGetPriority EVENT_TYPE_CONNECTION_CREATE c = connectionCreatePriority c"
| "TwinConfigurationEventCollectors_SafeGetPriority EVENT_TYPE_FIREWALL_CONFIGURATION c = firewallConfigurationPriority c"
| "TwinConfigurationEventCollectors_SafeGetPriority EVENT_TYPE_BASELINE c = baselinePriority c"
| "TwinConfigurationEventCollectors_SafeGetPriority EVENT_TYPE_DIAGNOSTIC c = diagnostic c"
| "TwinConfigurationEventCollectors_SafeGetPriority EVENT_TYPE_OPERATIONAL_EVENT c = operational c"

definition TwinConfigurationEventCollectors_GetPriority ::
  "TwinConfigurationEventType \<Rightarrow> ('h, 'a) collectors_env_scheme \<Rightarrow>
    (TwinConfigurationResult \<times> TwinConfigurationEventPriority option) \<times> ('h, 'a) collectors_env_scheme" where
  "TwinConfigurationEventCollectors_GetPriority ty =
     with_collectors_lock
       (\<lambda>w. ((TWIN_OK, Some (TwinConfigurationEventCollectors_SafeGetPriority ty (eventPriorities w))), w))"

text \<open>
  Only two event types are aggregated.  For another one the \<open>default:\<close> case returns at once,
  past the label that unlocks.
\<close>

definition get_aggregation ::
  "(TwinConfigurationEventCollectors \<Rightarrow> 'x) \<Rightarrow> (TwinConfigurationEventCollectors \<Rightarrow> 'x) \<Rightarrow>
    TwinConfigurationEventType \<Rightarrow> ('h, 'a) collectors_env_scheme \<Rightarrow>
    (TwinConfigurationResult \<times> 'x option) \<times> ('h, 'a) collectors_env_scheme" where
  "get_aggregation forProcess forConnection ty w =
     (let (ok, w1) = TwinConfigurationEventCollectors_Lock w in
      if \<not> ok
      then let (_, w2) = TwinConfigurationEventCollectors_Unlock w1 in ((TWIN_LOCK_EXCEPTION, None), w2)
      else if ty = EVENT_TYPE_PROCESS_CREATE \<or> ty = EVENT_TYPE_CONNECTION_CREATE
      then let x = (if ty = EVENT_TYPE_PROCESS_CREATE then forProcess else forConnection) (eventPriorities w1);
               (ok2, w2) = TwinConfigurationEventCollectors_Unlock w1
           in ((if ok2 then TWIN_OK else TWIN_LOCK_EXCEPTION, Some x), w2)
      else ((TWIN_EXCEPTION, None), w1))"

definition TwinConfigurationEventCollectors_GetAggregationEnabled ::
  "TwinConfigurationEventType \<Rightarrow> ('h, 'a) collectors_env_scheme \<Rightarrow>
    (TwinConfigurationResult \<times> bool option) \<times> ('h, 'a) collectors_env_scheme" where
  "TwinConfigurationEventCollectors_GetAggregationEnabled =
     get_aggregation processCreateAggregationEnabled connectionCreateAggregationEnabled"

definition TwinConfigurationEventCollectors_GetAggregationInterval ::
  "TwinConfigurationEventType \<Rightarrow> ('h, 'a) collectors_env_scheme \<Rightarrow>
    (TwinConfigurationResult \<times> u32 option) \<times> ('h, 'a) collectors_env_scheme" where
  "TwinConfigurationEventCollectors_GetAggregationInterval =
     get_aggregation processCreateAggregationInterval connectionCreateAggregationInterval"

section \<open>Writing\<close>

definition write_duration ::
  "('v, 'o, 'r, 'h) parson_doc \<Rightarrow> ('v, 'o) JsonObjectWriter \<Rightarrow> string \<Rightarrow> u32 \<Rightarrow> ('h, 'a) docs_env_scheme \<Rightarrow>
    TwinConfigurationResult \<times> ('h, 'a) docs_env_scheme" where
  "write_duration D writer key ms w =
     (let (ok, text) = TimeUtils_MillisecondsToISO8601DurationString ms DURATION_MAX_LENGTH in
      if \<not> ok then (TWIN_EXCEPTION, w)
      else TwinConfigurationUtils_WriteStringConfigurationToJson D writer key (Some (written text)) w)"

definition write_priority ::
  "('v, 'o, 'r, 'h) parson_doc \<Rightarrow> ('v, 'o) JsonObjectWriter \<Rightarrow> string \<Rightarrow> TwinConfigurationEventPriority \<Rightarrow>
    ('h, 'a) docs_env_scheme \<Rightarrow> TwinConfigurationResult \<times> ('h, 'a) docs_env_scheme" where
  "write_priority D writer key p =
     TwinConfigurationUtils_WriteStringConfigurationToJson D writer key
       (Some (TwinConfigurationEventCollectors_PriorityEnumAsString p))"

definition TwinConfigurationEventCollectors_SafeGetPrioritiesJson ::
  "('v, 'o, 'r, 'h) parson_doc \<Rightarrow> ('v, 'o) JsonObjectWriter \<Rightarrow> ('h, 'a) collectors_env_scheme \<Rightarrow>
    TwinConfigurationResult \<times> ('h, 'a) collectors_env_scheme" where
  "TwinConfigurationEventCollectors_SafeGetPrioritiesJson D writer w =
     (let c = eventPriorities w; prio = write_priority D writer in
      run_steps
       [prio BASELINE_PRIORITY_KEY (baselinePriority c),
        prio CONNECTION_CREATE_PRIORITY_KEY (connectionCreatePriority c),
        prio DIAGNOSTIC_PRIORITY_KEY (diagnostic c),
        prio FIREWALL_CONFIGURATION_PRIORITY_KEY (firewallConfigurationPriority c),
        prio LISTENING_PORTS_PRIORITY_KEY (listeningPortsPriority c),
        prio LOCAL_USERS_PRIORITY_KEY (localUsersPriority c),
        prio LOGIN_PRIORITY_KEY (loginPriority c),
        prio OPERATIONAL_EVENT_KEY (operational c),
        prio PROCESS_CREATE_PRIORITY_KEY (processCreatePriority c),
        prio SYSTEM_INFORMATION_PRIORITY_KEY (systemInformationPriority c),
        TwinConfigurationUtils_WriteBoolConfigurationToJson D writer
          PROCESS_CREATE_AGGREGATION_ENABLED_KEY (processCreateAggregationEnabled c),
        write_duration D writer PROCESS_CREATE_AGGREGATION_INTERVAL_KEY (processCreateAggregationInterval c),
        TwinConfigurationUtils_WriteBoolConfigurationToJson D writer
          CONNECTION_CREATE_AGGREGATION_ENABLED_KEY (connectionCreateAggregationEnabled c),
        write_duration D writer CONNECTION_CREATE_AGGREGATION_INTERVAL_KEY (connectionCreateAggregationInterval c)] w)"

definition TwinConfigurationEventCollectors_GetPrioritiesJson ::
  "('v, 'o, 'r, 'h) parson_doc \<Rightarrow> ('v, 'o) JsonObjectWriter \<Rightarrow> ('h, 'a) collectors_env_scheme \<Rightarrow>
    TwinConfigurationResult \<times> ('h, 'a) collectors_env_scheme" where
  "TwinConfigurationEventCollectors_GetPrioritiesJson D writer w =
     (let ((r, _), w1) = with_collectors_lock
        (\<lambda>w. let (r, w') = TwinConfigurationEventCollectors_SafeGetPrioritiesJson D writer w in ((r, None :: unit option), w')) w
      in (r, w1))"

section \<open>What an update does\<close>

lemma run_steps_ok_Cons:
  "run_steps (f # fs) s = (TWIN_OK, s') \<longleftrightarrow> (\<exists>s1. f s = (TWIN_OK, s1) \<and> run_steps fs s1 = (TWIN_OK, s'))"
  by (auto simp: Let_def split_beta split: if_splits) (metis prod.collapse)+

lemma run_steps_ok_Nil: "run_steps [] s = (TWIN_OK, s') \<longleftrightarrow> s' = s"
  by auto

text \<open>An invariant of every step is one of the run, however it ends.\<close>

lemma run_steps_keeps:
  assumes "\<And>f s. f \<in> set fs \<Longrightarrow> I s \<Longrightarrow> I (snd (f s))" and "I s"
  shows "I (snd (run_steps fs s))"
  using assms by (induction fs arbitrary: s) (auto simp: Let_def split_beta)

lemma SetSingleValues_ok:
  assumes "TwinConfigurationEventCollectors_SetSingleValues P key d reader = ((TWIN_OK, x), reader')"
  shows "\<exists>v. x = Some v"
  using assms
  by (auto simp: TwinConfigurationEventCollectors_SetSingleValues_def Let_def split_beta
      TwinConfigurationEventCollectors_PriorityAsEnum_def split: if_splits)

lemma SetSingleBoolValue_ok:
  assumes "TwinConfigurationEventCollectors_SetSingleBoolValue P key d reader = ((TWIN_OK, x), reader')"
  shows "\<exists>v. x = Some v"
  using assms
  by (auto simp: TwinConfigurationEventCollectors_SetSingleBoolValue_def
      split: prod.splits if_splits dest: GetConfigurationBool_ok)

lemma SetSingleUintTimeValue_ok:
  assumes "TwinConfigurationEventCollectors_SetSingleUintTimeValue P key d reader = ((TWIN_OK, x), reader')"
    and "printable d"
  shows "\<exists>v. x = Some v \<and> printable v"
  using assms
  by (auto simp: TwinConfigurationEventCollectors_SetSingleUintTimeValue_def
      split: prod.splits if_splits dest: GetConfigurationTime_ok)

lemma set_field_ok:
  "set_field read upd (reader, new, w) = (TWIN_OK, s1) \<longleftrightarrow>
    (\<exists>x reader'. read reader = ((TWIN_OK, x), reader')
       \<and> s1 = (reader', (case x of None \<Rightarrow> new | Some v \<Rightarrow> upd v new), w))"
  by (auto simp: set_field_def split: prod.splits)

text \<open>Only the configuration's field of the world is touched, and of that before success only \<open>operational\<close>.\<close>

definition normalised :: "TwinConfigurationEventCollectors \<Rightarrow> TwinConfigurationEventCollectors" where
  "normalised c = c\<lparr>operational := (if operational c = EVENT_PRIORITY_OFF then EVENT_PRIORITY_OFF else EVENT_PRIORITY_OPERATIONAL)\<rparr>"

lemma normalised_idem [simp]: "normalised (normalised c) = normalised c"
  by (simp add: normalised_def)

definition half_done ::
  "('h, 'a) collectors_env_scheme \<Rightarrow> ('h, 'a) collectors_env_scheme \<Rightarrow> bool" where
  "half_done w w' \<longleftrightarrow> w' = w \<or> w' = w\<lparr>eventPriorities := normalised (eventPriorities w)\<rparr>"

lemma set_field_world [simp]: "snd (snd (snd (set_field read upd s))) = snd (snd s)"
  by (cases s) (simp add: set_field_def split_beta)

lemma normalise_world [simp]:
  "snd (snd (snd (normalise_operational s))) =
    (snd (snd s))\<lparr>eventPriorities := normalised (eventPriorities (snd (snd s)))\<rparr>"
  by (cases s) (simp add: normalise_operational_def normalised_def)

lemma normalise_half_done: "half_done w w' \<Longrightarrow> half_done w (w'\<lparr>eventPriorities := normalised (eventPriorities w')\<rparr>)"
  by (elim disjE [OF half_done_def [THEN iffD1]]) (simp_all add: half_done_def)

lemma set_values_steps_half_done:
  "f \<in> set (set_values_steps P) \<Longrightarrow> half_done w (snd (snd s)) \<Longrightarrow> half_done w (snd (snd (snd (f s))))"
  by (auto simp: set_values_steps_def Let_def normalise_half_done)

lemma run_half_done: "half_done w (snd (snd (snd (run_steps (set_values_steps P) (reader, new, w)))))"
  by (rule run_steps_keeps [where I = "\<lambda>s. half_done w (snd (snd s))"])
     (auto simp: half_done_def [of w w] intro: set_values_steps_half_done)

lemma SetValues_failed:
  assumes "TwinConfigurationEventCollectors_SetValues P reader w = ((r, reader'), w')" and "r \<noteq> TWIN_OK"
  shows "half_done w w'"
  using assms run_half_done [of w P reader zero_collectors]
  by (auto simp: TwinConfigurationEventCollectors_SetValues_def split: prod.splits if_splits)

lemma SetValues_isLocked:
  assumes "TwinConfigurationEventCollectors_SetValues P reader w = ((r, reader'), w')"
  shows "isLocked (eventPriorities w') = isLocked (eventPriorities w)"
  using assms run_half_done [of w P reader zero_collectors]
  by (auto simp: TwinConfigurationEventCollectors_SetValues_def half_done_def normalised_def
      split: prod.splits if_splits)

text \<open>
  A successful update replaces every value; both intervals are then positive whole seconds, like
  the ones \<open>Init\<close> sets.
\<close>

definition collectors_printable :: "TwinConfigurationEventCollectors \<Rightarrow> bool" where
  "collectors_printable c \<longleftrightarrow>
     printable (processCreateAggregationInterval c) \<and> printable (connectionCreateAggregationInterval c)"

lemma printable_hour [simp]: "printable MILLISECONDS_IN_AN_HOUR"
  by (simp add: printable_def whole_seconds_def)

lemma default_printable [simp]: "collectors_printable default_collectors"
  by (simp add: collectors_printable_def default_collectors_def del: ms_units)

lemmas run_steps_ok = run_steps_ok_Cons run_steps_ok_Nil

text \<open>The value an update reads for a key, when the reader is where it was at the start.\<close>

definition twin_priority where
  "twin_priority P reader key d = the (snd (fst (TwinConfigurationEventCollectors_SetSingleValues P key d reader)))"
definition twin_flag where
  "twin_flag P reader key d = the (snd (fst (TwinConfigurationEventCollectors_SetSingleBoolValue P key d reader)))"
definition twin_interval where
  "twin_interval P reader key d = the (snd (fst (TwinConfigurationEventCollectors_SetSingleUintTimeValue P key d reader)))"

definition collector_keys :: "string list" where
  "collector_keys =
     [PROCESS_CREATE_PRIORITY_KEY, LISTENING_PORTS_PRIORITY_KEY, SYSTEM_INFORMATION_PRIORITY_KEY,
      LOCAL_USERS_PRIORITY_KEY, LOGIN_PRIORITY_KEY, CONNECTION_CREATE_PRIORITY_KEY,
      FIREWALL_CONFIGURATION_PRIORITY_KEY, BASELINE_PRIORITY_KEY, DIAGNOSTIC_PRIORITY_KEY,
      OPERATIONAL_EVENT_KEY, PROCESS_CREATE_AGGREGATION_ENABLED_KEY,
      PROCESS_CREATE_AGGREGATION_INTERVAL_KEY, CONNECTION_CREATE_AGGREGATION_ENABLED_KEY,
      CONNECTION_CREATE_AGGREGATION_INTERVAL_KEY]"

definition twin_collectors ::
  "('v, 'o, 'r) parson \<Rightarrow> ('v, 'o) JsonObjectReader \<Rightarrow> TwinConfigurationEventCollectors \<Rightarrow> TwinConfigurationEventCollectors" where
  "twin_collectors P reader old =
     \<lparr>processCreatePriority = twin_priority P reader PROCESS_CREATE_PRIORITY_KEY EVENT_PRIORITY_LOW,
      listeningPortsPriority = twin_priority P reader LISTENING_PORTS_PRIORITY_KEY EVENT_PRIORITY_HIGH,
      systemInformationPriority = twin_priority P reader SYSTEM_INFORMATION_PRIORITY_KEY EVENT_PRIORITY_LOW,
      localUsersPriority = twin_priority P reader LOCAL_USERS_PRIORITY_KEY EVENT_PRIORITY_HIGH,
      loginPriority = twin_priority P reader LOGIN_PRIORITY_KEY EVENT_PRIORITY_HIGH,
      connectionCreatePriority = twin_priority P reader CONNECTION_CREATE_PRIORITY_KEY EVENT_PRIORITY_LOW,
      firewallConfigurationPriority = twin_priority P reader FIREWALL_CONFIGURATION_PRIORITY_KEY EVENT_PRIORITY_LOW,
      baselinePriority = twin_priority P reader BASELINE_PRIORITY_KEY EVENT_PRIORITY_LOW,
      diagnostic = twin_priority P reader DIAGNOSTIC_PRIORITY_KEY EVENT_PRIORITY_LOW,
      operational = twin_priority P reader OPERATIONAL_EVENT_KEY EVENT_PRIORITY_OPERATIONAL,
      processCreateAggregationEnabled = twin_flag P reader PROCESS_CREATE_AGGREGATION_ENABLED_KEY True,
      connectionCreateAggregationEnabled = twin_flag P reader CONNECTION_CREATE_AGGREGATION_ENABLED_KEY True,
      processCreateAggregationInterval =
        twin_interval P reader PROCESS_CREATE_AGGREGATION_INTERVAL_KEY MILLISECONDS_IN_AN_HOUR,
      connectionCreateAggregationInterval =
        twin_interval P reader CONNECTION_CREATE_AGGREGATION_INTERVAL_KEY MILLISECONDS_IN_AN_HOUR,
      ec_lock = ec_lock old, isLocked = isLocked old\<rparr>"

lemma SetSingle_cursor:
  assumes "parent_law P (rootObject reader) key"
  shows "snd (TwinConfigurationEventCollectors_SetSingleValues P key d reader) = reader"
    "snd (TwinConfigurationEventCollectors_SetSingleBoolValue P key b reader) = reader"
    "snd (TwinConfigurationEventCollectors_SetSingleUintTimeValue P key t reader) = reader"
  using GetConfiguration_cursor [OF assms]
  by (simp_all add: TwinConfigurationEventCollectors_SetSingleValues_def Let_def split_beta
      TwinConfigurationEventCollectors_SetSingleBoolValue_def TwinConfigurationEventCollectors_SetSingleUintTimeValue_def)

lemma set_field_priority:
  assumes "parent_law P (rootObject reader) key"
  shows "set_field (TwinConfigurationEventCollectors_SetSingleValues P key d) upd (reader, new, w) = (TWIN_OK, s1) \<longleftrightarrow>
    fst (fst (TwinConfigurationEventCollectors_SetSingleValues P key d reader)) = TWIN_OK
    \<and> s1 = (reader, upd (twin_priority P reader key d) new, w)"
  using SetSingle_cursor(1) [OF assms, of d] SetSingleValues_ok [of P key d reader]
  by (cases "TwinConfigurationEventCollectors_SetSingleValues P key d reader")
     (auto simp: set_field_def twin_priority_def split_beta)

lemma set_field_flag:
  assumes "parent_law P (rootObject reader) key"
  shows "set_field (TwinConfigurationEventCollectors_SetSingleBoolValue P key d) upd (reader, new, w) = (TWIN_OK, s1) \<longleftrightarrow>
    fst (fst (TwinConfigurationEventCollectors_SetSingleBoolValue P key d reader)) = TWIN_OK
    \<and> s1 = (reader, upd (twin_flag P reader key d) new, w)"
  using SetSingle_cursor(2) [OF assms, of d] SetSingleBoolValue_ok [of P key d reader]
  by (cases "TwinConfigurationEventCollectors_SetSingleBoolValue P key d reader")
     (auto simp: set_field_def twin_flag_def split_beta)

lemma set_field_interval:
  assumes "parent_law P (rootObject reader) key" and "printable d"
  shows "set_field (TwinConfigurationEventCollectors_SetSingleUintTimeValue P key d) upd (reader, new, w) = (TWIN_OK, s1) \<longleftrightarrow>
    (fst (fst (TwinConfigurationEventCollectors_SetSingleUintTimeValue P key d reader)) = TWIN_OK
     \<and> printable (twin_interval P reader key d))
    \<and> s1 = (reader, upd (twin_interval P reader key d) new, w)"
  using SetSingle_cursor(3) [OF assms(1), of d] SetSingleUintTimeValue_ok [of P key d reader, OF _ assms(2)]
  by (cases "TwinConfigurationEventCollectors_SetSingleUintTimeValue P key d reader")
     (auto simp: set_field_def twin_interval_def split_beta)

lemma normalise_step:
  "normalise_operational (reader, new, w) = (TWIN_OK, s1) \<longleftrightarrow>
    s1 = (reader, new, w\<lparr>eventPriorities := normalised (eventPriorities w)\<rparr>)"
  by (auto simp: normalise_operational_def normalised_def)

lemma SetValues_ok:
  assumes "\<forall>key\<in>set collector_keys. parent_law P (rootObject reader) key"
    and "TwinConfigurationEventCollectors_SetValues P reader w = ((TWIN_OK, reader'), w')"
  shows "w' = w\<lparr>eventPriorities := twin_collectors P reader (eventPriorities w)\<rparr>"
    and "collectors_printable (eventPriorities w')"
proof -
  obtain new w1 where
    run: "run_steps (set_values_steps P) (reader, zero_collectors, w) = (TWIN_OK, reader', new, w1)"
    and w': "w' = w1\<lparr>eventPriorities :=
      new\<lparr>ec_lock := ec_lock (eventPriorities w1), isLocked := isLocked (eventPriorities w1)\<rparr>\<rparr>"
    using assms(2)
    by (auto simp: TwinConfigurationEventCollectors_SetValues_def split: prod.splits if_splits)
  note laws = assms(1) [unfolded collector_keys_def, simplified]
  show "w' = w\<lparr>eventPriorities := twin_collectors P reader (eventPriorities w)\<rparr>"
    using run laws unfolding set_values_steps_def w'
    by (auto simp: Let_def run_steps_ok set_field_priority set_field_flag set_field_interval normalise_step
        twin_collectors_def zero_collectors_def normalised_def simp del: run_steps.simps ms_units)
  show "collectors_printable (eventPriorities w')"
    using run laws unfolding set_values_steps_def w'
    by (auto simp: Let_def run_steps_ok set_field_priority set_field_flag set_field_interval normalise_step
        collectors_printable_def zero_collectors_def simp del: run_steps.simps ms_units)
qed

section \<open>Updates under the lock\<close>

lemma SetValues_frame:
  assumes "\<forall>key\<in>set collector_keys. parent_law P (rootObject reader) key"
    and "TwinConfigurationEventCollectors_SetValues P reader w = ((r, reader'), w')"
  obtains (ok) "r = TWIN_OK" "w' = w\<lparr>eventPriorities := twin_collectors P reader (eventPriorities w)\<rparr>"
      "collectors_printable (eventPriorities w')"
  | (failed) "r \<noteq> TWIN_OK" "half_done w w'"
  using SetValues_ok [OF assms(1), of w reader' w'] SetValues_failed [OF assms(2)] assms(2) that
  by (cases "r = TWIN_OK") simp_all

lemma isLocked_frames [simp]:
  "isLocked (normalised c) = isLocked c" "isLocked (twin_collectors P reader c) = isLocked c"
  "ec_lock (normalised c) = ec_lock c" "ec_lock (twin_collectors P reader c) = ec_lock c"
  "collectors_printable (normalised c) = collectors_printable c"
  "collectors_printable (c\<lparr>isLocked := b\<rparr>) = collectors_printable c"
  by (simp_all add: normalised_def twin_collectors_def collectors_printable_def)

lemma half_done_cases:
  assumes "half_done w w'"
  obtains "w' = w" | "w' = w\<lparr>eventPriorities := normalised (eventPriorities w)\<rparr>"
  using assms by (auto simp: half_done_def)

text \<open>
  The frame of \<open>Update\<close>: the counter and \<open>eventPriorities\<close> are all it changes, and of the latter a
  result other than \<open>TWIN_OK\<close> and \<open>TWIN_LOCK_EXCEPTION\<close> changes \<open>operational\<close> at most.
\<close>

lemma Collectors_Update_cases:
  assumes "TwinConfigurationEventCollectors_Update P reader w = (r, w')"
  obtains (lock) "r = TWIN_LOCK_EXCEPTION"
  | (ran) n m rd w1 where
      "TwinConfigurationEventCollectors_SetValues P reader
         (w\<lparr>tick := n, eventPriorities := (eventPriorities w)\<lparr>isLocked := True\<rparr>\<rparr>) = ((r, rd), w1)"
      "w' = w1\<lparr>tick := m, eventPriorities := (eventPriorities w1)\<lparr>isLocked := False\<rparr>\<rparr>"
      "isLocked (eventPriorities w) = False"
proof (cases "r = TWIN_LOCK_EXCEPTION")
  case False
  define w0 where "w0 = w\<lparr>tick := Suc (tick w), eventPriorities := (eventPriorities w)\<lparr>isLocked := True\<rparr>\<rparr>"
  obtain r1 rd w1 where run: "TwinConfigurationEventCollectors_SetValues P reader w0 = ((r1, rd), w1)"
    by (metis surj_pair)
  have free: "\<not> isLocked (eventPriorities w)"
    using False assms
    by (auto simp: TwinConfigurationEventCollectors_Update_def with_collectors_lock_def Let_def
        TwinConfigurationEventCollectors_Lock_def split: prod.splits if_splits)
  with False assms run have "isLocked (eventPriorities w1) \<longrightarrow>
      r = r1 \<and> w' = w1\<lparr>tick := Suc (tick w1), eventPriorities := (eventPriorities w1)\<lparr>isLocked := False\<rparr>\<rparr>"
    by (auto simp: TwinConfigurationEventCollectors_Update_def with_collectors_lock_def Let_def w0_def sys_defs
        TwinConfigurationEventCollectors_Lock_def TwinConfigurationEventCollectors_Unlock_def
        split: prod.splits if_splits)
  moreover have "isLocked (eventPriorities w1)"
    using SetValues_isLocked [OF run] by (simp add: w0_def)
  ultimately show thesis using ran [of "Suc (tick w)" rd w1 "Suc (tick w1)"] run free by (simp add: w0_def)
qed (rule lock)

lemma Collectors_Update_ok:
  assumes laws: "\<forall>key\<in>set collector_keys. parent_law P (rootObject reader) key"
    and upd: "TwinConfigurationEventCollectors_Update P reader w = (TWIN_OK, w')"
  shows "\<exists>n. w' = w\<lparr>tick := n, eventPriorities := (twin_collectors P reader (eventPriorities w))\<lparr>isLocked := False\<rparr>\<rparr>"
  using upd
proof (cases rule: Collectors_Update_cases)
  case (ran n m rd w1)
  from SetValues_ok(1) [OF laws ran(1)] ran(2)
  have "w' = w\<lparr>tick := m, eventPriorities := (twin_collectors P reader (eventPriorities w))\<lparr>isLocked := False\<rparr>\<rparr>"
    by (simp add: twin_collectors_def)
  then show ?thesis by blast
qed simp

lemma Collectors_Update_failed:
  assumes upd: "TwinConfigurationEventCollectors_Update P reader w = (r, w')"
    and r: "r \<noteq> TWIN_OK" "r \<noteq> TWIN_LOCK_EXCEPTION"
  shows "\<exists>n E. w' = w\<lparr>tick := n, eventPriorities := E\<rparr> \<and> (E = eventPriorities w \<or> E = normalised (eventPriorities w))"
  using upd
proof (cases rule: Collectors_Update_cases)
  case (ran n m rd w1)
  have same: "(eventPriorities w)\<lparr>isLocked := False\<rparr> = eventPriorities w"
    using ran(3) by (cases "eventPriorities w") simp
  from SetValues_failed [OF ran(1) r(1)] show ?thesis
  proof (cases rule: half_done_cases)
    case 1
    with ran(2) same have "w' = w\<lparr>tick := m, eventPriorities := eventPriorities w\<rparr>" by simp
    then show ?thesis by blast
  next
    case 2
    have "(normalised ((eventPriorities w)\<lparr>isLocked := True\<rparr>))\<lparr>isLocked := False\<rparr> = normalised (eventPriorities w)"
      using ran(3) by (cases "eventPriorities w") (simp add: normalised_def)
    with 2 ran(2) have "w' = w\<lparr>tick := m, eventPriorities := normalised (eventPriorities w)\<rparr>" by simp
    then show ?thesis by blast
  qed
qed (use r in simp)

definition collectors_frame ::
  "('h, 'a) collectors_env_scheme \<Rightarrow> ('h, 'a) collectors_env_scheme \<Rightarrow> bool" where
  "collectors_frame w w' \<longleftrightarrow>
     (\<exists>n E. w' = w\<lparr>tick := n, eventPriorities := E\<rparr>
        \<and> (collectors_printable (eventPriorities w) \<longrightarrow> collectors_printable E))"

lemma collectors_frameI:
  "w' = w\<lparr>tick := n, eventPriorities := E\<rparr> \<Longrightarrow>
    (collectors_printable (eventPriorities w) \<Longrightarrow> collectors_printable E) \<Longrightarrow> collectors_frame w w'"
  by (auto simp: collectors_frame_def)

lemma collectors_frame_refl [simp]: "collectors_frame w w"
  by (rule collectors_frameI [where n = "tick w" and E = "eventPriorities w"]) simp_all

lemma collectors_frame_trans [trans]:
  "collectors_frame w w1 \<Longrightarrow> collectors_frame w1 w2 \<Longrightarrow> collectors_frame w w2"
  by (fastforce simp: collectors_frame_def)

lemma collectors_frame_keeps:
  assumes "collectors_frame w w'"
  shows "collectors_printable (eventPriorities w) \<Longrightarrow> collectors_printable (eventPriorities w')"
  using assms by (auto simp: collectors_frame_def)

lemma Lock_frame: "collectors_frame w (snd (TwinConfigurationEventCollectors_Lock w))"
proof -
  let ?E = "eventPriorities w"
  consider "isLocked ?E" | "\<not> isLocked ?E" "lockOk w (tick w)" | "\<not> isLocked ?E" "\<not> lockOk w (tick w)" by blast
  then show ?thesis
  proof cases
    case 2
    then show ?thesis
      by (intro collectors_frameI [where n = "Suc (tick w)" and E = "?E\<lparr>isLocked := True\<rparr>"])
         (simp_all add: TwinConfigurationEventCollectors_Lock_def sys_defs)
  next
    case 3
    then show ?thesis
      by (intro collectors_frameI [where n = "Suc (tick w)" and E = ?E])
         (simp_all add: TwinConfigurationEventCollectors_Lock_def sys_defs)
  qed (simp add: TwinConfigurationEventCollectors_Lock_def)
qed

lemma Unlock_frame: "collectors_frame w (snd (TwinConfigurationEventCollectors_Unlock w))"
proof -
  let ?E = "eventPriorities w"
  consider "isLocked ?E" "lockOk w (tick w)" | "isLocked ?E" "\<not> lockOk w (tick w)" | "\<not> isLocked ?E" by blast
  then show ?thesis
  proof cases
    case 1
    then show ?thesis
      by (intro collectors_frameI [where n = "Suc (tick w)" and E = "?E\<lparr>isLocked := False\<rparr>"])
         (simp_all add: TwinConfigurationEventCollectors_Unlock_def sys_defs)
  next
    case 2
    then show ?thesis
      by (intro collectors_frameI [where n = "Suc (tick w)" and E = ?E])
         (simp_all add: TwinConfigurationEventCollectors_Unlock_def sys_defs)
  next
    case 3
    then show ?thesis
      by (intro collectors_frameI [where n = "tick w" and E = "?E\<lparr>isLocked := False\<rparr>"])
         (simp_all add: TwinConfigurationEventCollectors_Unlock_def sys_defs)
  qed
qed

lemma with_collectors_lock_frame:
  assumes "\<And>w1. collectors_frame w1 (snd (body w1))"
  shows "collectors_frame w (snd (with_collectors_lock body w))"
proof -
  let ?w1 = "snd (TwinConfigurationEventCollectors_Lock w)"
  let ?w2 = "if fst (TwinConfigurationEventCollectors_Lock w) then snd (body ?w1) else ?w1"
  have "collectors_frame w ?w1" by (rule Lock_frame)
  also have "collectors_frame ?w1 ?w2" using assms by simp
  also have "collectors_frame ?w2 (snd (TwinConfigurationEventCollectors_Unlock ?w2))" by (rule Unlock_frame)
  also have "snd (TwinConfigurationEventCollectors_Unlock ?w2) = snd (with_collectors_lock body w)"
    by (auto simp: with_collectors_lock_def Let_def split_beta)
  finally show ?thesis .
qed

lemma SetValues_collectors_frame:
  assumes laws: "\<forall>key\<in>set collector_keys. parent_law P (rootObject reader) key"
  shows "collectors_frame w (snd (TwinConfigurationEventCollectors_SetValues P reader w))"
proof -
  obtain r rd w' where run: "TwinConfigurationEventCollectors_SetValues P reader w = ((r, rd), w')"
    by (metis surj_pair)
  have "collectors_frame w w'"
    using laws run
  proof (cases rule: SetValues_frame)
    case ok
    then show ?thesis
      by (intro collectors_frameI [where n = "tick w" and E = "twin_collectors P reader (eventPriorities w)"]) simp_all
  next
    case failed
    from failed(2) show ?thesis
    proof (cases rule: half_done_cases)
      case 2
      then show ?thesis
        by (intro collectors_frameI [where n = "tick w" and E = "normalised (eventPriorities w)"]) simp_all
    qed simp
  qed
  with run show ?thesis by simp
qed

lemma Collectors_Update_frame:
  assumes laws: "\<forall>key\<in>set collector_keys. parent_law P (rootObject reader) key"
  shows "collectors_frame w (snd (TwinConfigurationEventCollectors_Update P reader w))"
proof -
  have "collectors_frame w (snd (with_collectors_lock (\<lambda>w.
      let ((r, reader'), w') = TwinConfigurationEventCollectors_SetValues P reader w in ((r, Some reader'), w')) w))"
    by (rule with_collectors_lock_frame)
       (use SetValues_collectors_frame [OF laws] in \<open>simp add: split_beta\<close>)
  then show ?thesis by (simp add: TwinConfigurationEventCollectors_Update_def split_beta)
qed

text \<open>Printing a configured duration never fails, and reading the text gives the duration back.\<close>

lemma write_duration_printable:
  assumes "printable ms"
  shows "write_duration D writer key ms w =
    TwinConfigurationUtils_WriteStringConfigurationToJson D writer key (Some (duration_text (unat ms))) w"
proof -
  obtain b where "TimeUtils_MillisecondsToISO8601DurationString ms DURATION_MAX_LENGTH = (True, b)"
    "written b = duration_text (unat ms)"
    by (rule print_duration [of ms DURATION_MAX_LENGTH])
       (use assms in \<open>simp_all add: printable_def DURATION_MAX_LENGTH_def\<close>)
  then show ?thesis by (simp add: write_duration_def)
qed

lemma printable_parse:
  assumes "printable ms"
  shows "TimeUtils_ISO8601DurationStringToMilliseconds (Some (duration_text (unat ms))) = Some ms"
  using parse_printed [of "unat ms"] assms u32_less [of ms]
  by (simp add: printable_def whole_seconds_def)

section \<open>Properties\<close>

text \<open>The world of the witnesses.\<close>

definition calm_collectors_with :: "'h \<Rightarrow> 'h collectors_env" where
  "calm_collectors_with h =
     \<lparr>lockOk = (\<lambda>_. True), allocOk = (\<lambda>_. True), extOk = (\<lambda>_. True), clock = (\<lambda>_. 0),
      castOut = (\<lambda>_. 0), sysInt = (\<lambda>_. 0), sysBytes = (\<lambda>_. Some []), tick = 0, fault = False,
      docs = h, errorLog = [],
      authenticationManager =
        \<lparr>relativeUrl = [], hostName = [], deviceId = [], sharedAccessKey = None, certificate = None,
         certificatePrivateKey = None, dpsRelativeUrl = None, sasTokenScope = None,
         dpsRequestContent = None, idScope = [], registrationId = [], lastDPSUpdateTime = []\<rparr>,
      requests = [], connectionString = None, agentId = None, authenticationManagerInitialized = False,
      useDps = False, triggeredEventsInterval = 0, connectionTimeout = 0, systemLoggerMinimumSeverity = 0,
      diagnosticEventMinimumSeverity = 0, remoteConfigurationObjectName = Some ''agent'',
      eventPriorities = default_collectors\<rparr>"

abbreviation calm_collectors :: "unit collectors_env" where
  "calm_collectors \<equiv> calm_collectors_with ()"

definition sample_collectors :: json where
  "sample_collectors = JObj [(LOGIN_PRIORITY_KEY, entry (JStr ''off''))]"

definition broken_collectors :: json where
  "broken_collectors = JObj [(LOGIN_PRIORITY_KEY, entry (JStr ''sometimes''))]"

text \<open>
  reading an entry of the twin, of any type and with any outcome, leaves the reader at the
  object it stood at, provided parson keeps the law of parents there.
\<close>

theorem reading_keeps_the_cursor:
  assumes "parent_law P (rootObject reader) key"
  shows "snd (TwinConfigurationUtils_GetConfigurationTimeValueFromJson P reader key) = reader
    \<and> snd (TwinConfigurationUtils_GetConfigurationUintValueFromJson P reader key) = reader
    \<and> snd (TwinConfigurationUtils_GetConfigurationStringValueFromJson P reader key) = reader
    \<and> snd (TwinConfigurationUtils_GetConfigurationBoolValueFromJson P reader key) = reader"
  using GetConfiguration_cursor [OF assms] by simp

theorem reading_keeps_the_cursor_witness:
  "snd (TwinConfigurationUtils_GetConfigurationStringValueFromJson (tree_parson (\<lambda>_. None))
     (sample_reader sample_collectors) LOGIN_PRIORITY_KEY) = sample_reader sample_collectors"
  using reading_keeps_the_cursor [OF tree_parent_law] by blast



text \<open>
  an update that is refused because of what the twin says leaves every value in force except,
  possibly, the operational priority, which the update may already have restricted to off or
  operational: the restriction is applied to the configuration in force instead of the new one.
\<close>

theorem collectors_update_refused:
  assumes "TwinConfigurationEventCollectors_Update P reader w = (r, w')"
    and "r \<noteq> TWIN_OK" and "r \<noteq> TWIN_LOCK_EXCEPTION"
  shows "\<exists>n E. w' = w\<lparr>tick := n, eventPriorities := E\<rparr>
    \<and> (E = eventPriorities w \<or> E = normalised (eventPriorities w))"
  by (rule Collectors_Update_failed [OF assms])

theorem collectors_update_refused_witness:
  "\<exists>w'. TwinConfigurationEventCollectors_Update (tree_parson (\<lambda>_. None)) (sample_reader broken_collectors)
      calm_collectors = (TWIN_PARSE_EXCEPTION, w') \<and> loginPriority (eventPriorities w') = EVENT_PRIORITY_HIGH"
proof -
  let ?upd = "TwinConfigurationEventCollectors_Update (tree_parson (\<lambda>_. None)) (sample_reader broken_collectors) calm_collectors"
  have "fst ?upd = TWIN_PARSE_EXCEPTION" by code_simp
  then have bad: "?upd = (TWIN_PARSE_EXCEPTION, snd ?upd)" by (metis prod.collapse)
  then obtain n E where "snd ?upd = calm_collectors\<lparr>tick := n, eventPriorities := E\<rparr>"
    "E = eventPriorities calm_collectors \<or> E = normalised (eventPriorities calm_collectors)"
    using collectors_update_refused [OF bad] by blast
  with bad show ?thesis by (auto simp: calm_collectors_with_def default_collectors_def normalised_def)
qed

text \<open>
  asking for the aggregation settings of an event type that is not aggregated keeps the lock:
  the next reader is turned away with a lock error, and that failed call gives up the lock it
  never held.
\<close>

theorem aggregation_lock_leak:
  assumes "ty \<noteq> EVENT_TYPE_PROCESS_CREATE" and "ty \<noteq> EVENT_TYPE_CONNECTION_CREATE"
    and "locks_work w" and "\<not> isLocked (eventPriorities w)"
  shows "\<exists>w1 w2. TwinConfigurationEventCollectors_GetAggregationEnabled ty w = ((TWIN_EXCEPTION, None), w1)
    \<and> isLocked (eventPriorities w1)
    \<and> TwinConfigurationEventCollectors_GetPriority other w1 = ((TWIN_LOCK_EXCEPTION, None), w2)
    \<and> \<not> isLocked (eventPriorities w2)"
  using assms
  by (simp add: TwinConfigurationEventCollectors_GetAggregationEnabled_def get_aggregation_def
      TwinConfigurationEventCollectors_GetPriority_def with_collectors_lock_def locks_work_def sys_defs
      TwinConfigurationEventCollectors_Lock_def TwinConfigurationEventCollectors_Unlock_def)

theorem aggregation_lock_leak_witness:
  "\<exists>w1 w2. TwinConfigurationEventCollectors_GetAggregationEnabled EVENT_TYPE_BASELINE calm_collectors = ((TWIN_EXCEPTION, None), w1)
    \<and> isLocked (eventPriorities w1)
    \<and> TwinConfigurationEventCollectors_GetPriority EVENT_TYPE_DIAGNOSTIC w1 = ((TWIN_LOCK_EXCEPTION, None), w2)
    \<and> \<not> isLocked (eventPriorities w2)"
  by (rule aggregation_lock_leak) (simp_all add: calm_collectors_with_def default_collectors_def locks_work_def)

text \<open>
  a priority written to the twin is read back as itself, except that operational is written
  like high and comes back as high.
\<close>

theorem priority_text_round_trip:
  "TwinConfigurationEventCollectors_PriorityAsEnum (TwinConfigurationEventCollectors_PriorityEnumAsString p)
    = (TWIN_OK, Some (if p = EVENT_PRIORITY_OPERATIONAL then EVENT_PRIORITY_HIGH else p))"
  by (cases p) (simp_all add: TwinConfigurationEventCollectors_PriorityAsEnum_def tolower_def code_of_def)

end
