(* ===== verification/Twin_Configuration.thy ===== *)
theory Twin_Configuration
  imports Event_Collectors_Config
begin

text \<open>
  The device twin's configuration, \<^verbatim>\<open>src/agent/src/twin_configuration.c\<close> (defaults of
  \<^verbatim>\<open>consts.c\<close>): the five numbers, the three settings of the custom checks, and the result of the
  last update.  The statics of the C file are the fields of \<open>twin_env\<close>.  The priorities are
  updated under the same call, by \<open>TwinConfigurationEventCollectors_Update\<close>.
\<close>

record TwinConfiguration =
  maxLocalCacheSize :: u32
  maxMessageSize :: u32
  lowPriorityMessageFrequency :: u32
  highPriorityMessageFrequency :: u32
  snapshotFrequency :: u32
  baselineCustomChecksEnabled :: bool
  baselineCustomChecksFilePath :: "string option"
  baselineCustomChecksFileHash :: "string option"
  tc_lock :: bool

record TwinConfigurationBundleStatus =
  st_maxLocalCacheSize :: TwinConfigurationStatus
  st_maxMessageSize :: TwinConfigurationStatus
  st_lowPriorityMessageFrequency :: TwinConfigurationStatus
  st_highPriorityMessageFrequency :: TwinConfigurationStatus
  st_snapshotFrequency :: TwinConfigurationStatus
  st_eventPriorities :: TwinConfigurationStatus
  st_baselineCustomChecksEnabled :: TwinConfigurationStatus
  st_baselineCustomChecksFilePath :: TwinConfigurationStatus
  st_baselineCustomChecksFileHash :: TwinConfigurationStatus

record TwinConfigurationUpdateResult =
  lastUpdateTime :: time_t
  lastUpdateResult :: TwinConfigurationResult
  configurationBundleStatus :: TwinConfigurationBundleStatus

record 'h twin_env = "'h collectors_env" +
  twinConfiguration :: TwinConfiguration
  updateResult :: TwinConfigurationUpdateResult
  twinConfigurationObjectName :: "string option"

section \<open>Defaults and keys\<close>

definition DEFAULT_MAX_LOCAL_CACHE_SIZE :: u32 where "DEFAULT_MAX_LOCAL_CACHE_SIZE = 10 * 1024 * 1024"
definition DEFAULT_MAX_MESSAGE_SIZE :: u32 where "DEFAULT_MAX_MESSAGE_SIZE = 200 * 1024"
definition DEFAULT_LOW_PRIORITY_MESSAGE_FREQUENCY :: u32 where
  "DEFAULT_LOW_PRIORITY_MESSAGE_FREQUENCY = 5 * MILLISECONDS_IN_AN_HOUR"
definition DEFAULT_HIGH_PRIORITY_MESSAGE_FREQUENCY :: u32 where
  "DEFAULT_HIGH_PRIORITY_MESSAGE_FREQUENCY = 7 * MILLISECONDS_IN_A_MINUTE"
definition DEFAULT_SNAPSHOT_FREQUENCY :: u32 where "DEFAULT_SNAPSHOT_FREQUENCY = 13 * MILLISECONDS_IN_AN_HOUR"
definition DEFAULT_BASELINE_CUSTOM_CHECKS_ENABLED :: bool where "DEFAULT_BASELINE_CUSTOM_CHECKS_ENABLED = False"
definition DEFAULT_BASELINE_CUSTOM_CHECKS_FILE_PATH :: "string option" where
  "DEFAULT_BASELINE_CUSTOM_CHECKS_FILE_PATH = None"
definition DEFAULT_BASELINE_CUSTOM_CHECKS_FILE_HASH :: "string option" where
  "DEFAULT_BASELINE_CUSTOM_CHECKS_FILE_HASH = None"

lemmas default_defs =
  DEFAULT_MAX_LOCAL_CACHE_SIZE_def DEFAULT_MAX_MESSAGE_SIZE_def DEFAULT_LOW_PRIORITY_MESSAGE_FREQUENCY_def
  DEFAULT_HIGH_PRIORITY_MESSAGE_FREQUENCY_def DEFAULT_SNAPSHOT_FREQUENCY_def
  DEFAULT_BASELINE_CUSTOM_CHECKS_ENABLED_def DEFAULT_BASELINE_CUSTOM_CHECKS_FILE_PATH_def
  DEFAULT_BASELINE_CUSTOM_CHECKS_FILE_HASH_def

definition LOW_PRIORITY_MESSAGE_FREQUENCY_KEY :: string where
  "LOW_PRIORITY_MESSAGE_FREQUENCY_KEY = ''lowPriorityMessageFrequency''"
definition HIGH_PRIORITY_MESSAGE_FREQUENCY_KEY :: string where
  "HIGH_PRIORITY_MESSAGE_FREQUENCY_KEY = ''highPriorityMessageFrequency''"
definition MAX_LOCAL_CACHE_SIZE_KEY :: string where "MAX_LOCAL_CACHE_SIZE_KEY = ''maxLocalCacheSizeInBytes''"
definition MAX_MESSAGE_SIZE_KEY :: string where "MAX_MESSAGE_SIZE_KEY = ''maxMessageSizeInBytes''"
definition SNAPSHOT_FREQUENCY_KEY :: string where "SNAPSHOT_FREQUENCY_KEY = ''snapshotFrequency''"
definition BASELINE_CUSTOM_CHECKS_ENABLED_KEY :: string where
  "BASELINE_CUSTOM_CHECKS_ENABLED_KEY = ''baselineCustomChecksEnabled''"
definition BASELINE_CUSTOM_CHECKS_FILE_PATH_KEY :: string where
  "BASELINE_CUSTOM_CHECKS_FILE_PATH_KEY = ''baselineCustomChecksFilePath''"
definition BASELINE_CUSTOM_CHECKS_FILE_HASH_KEY :: string where
  "BASELINE_CUSTOM_CHECKS_FILE_HASH_KEY = ''baselineCustomChecksFileHash''"

section \<open>Life cycle\<close>

definition TwinConfiguration_SafeDeinit :: "('h, 'a) twin_env_scheme \<Rightarrow> ('h, 'a) twin_env_scheme" where
  "TwinConfiguration_SafeDeinit w =
     (let c = twinConfiguration w;
          c1 = (if baselineCustomChecksFilePath c \<noteq> None
                then c\<lparr>baselineCustomChecksFilePath := DEFAULT_BASELINE_CUSTOM_CHECKS_FILE_PATH\<rparr> else c);
          c2 = (if baselineCustomChecksFileHash c1 \<noteq> None
                then c1\<lparr>baselineCustomChecksFileHash := DEFAULT_BASELINE_CUSTOM_CHECKS_FILE_HASH\<rparr> else c1)
      in w\<lparr>twinConfiguration := c2\<rparr>)"

definition TwinConfiguration_Deinit :: "('h, 'a) twin_env_scheme \<Rightarrow> ('h, 'a) twin_env_scheme" where
  "TwinConfiguration_Deinit w =
     (let w1 = TwinConfigurationEventCollectors_Deinit (TwinConfiguration_SafeDeinit w) in
      if tc_lock (twinConfiguration w1)
      then w1\<lparr>twinConfiguration := (twinConfiguration w1)\<lparr>tc_lock := False\<rparr>\<rparr> else w1)"

definition TwinConfiguration_Init ::
  "('h, 'a) twin_env_scheme \<Rightarrow> TwinConfigurationResult \<times> ('h, 'a) twin_env_scheme" where
  "TwinConfiguration_Init w =
     (let (lk, w1) = sys_ext w in
      if \<not> lk then (TWIN_LOCK_EXCEPTION, TwinConfiguration_Deinit
                    (w1\<lparr>twinConfiguration := (twinConfiguration w1)\<lparr>tc_lock := False\<rparr>\<rparr>))
      else
        let w2 = w1\<lparr>twinConfiguration := (twinConfiguration w1)
              \<lparr>tc_lock := True,
               maxLocalCacheSize := DEFAULT_MAX_LOCAL_CACHE_SIZE,
               maxMessageSize := DEFAULT_MAX_MESSAGE_SIZE,
               lowPriorityMessageFrequency := DEFAULT_LOW_PRIORITY_MESSAGE_FREQUENCY,
               highPriorityMessageFrequency := DEFAULT_HIGH_PRIORITY_MESSAGE_FREQUENCY,
               snapshotFrequency := DEFAULT_SNAPSHOT_FREQUENCY,
               baselineCustomChecksEnabled := DEFAULT_BASELINE_CUSTOM_CHECKS_ENABLED\<rparr>\<rparr>;
            ((r1, path), w3) = Utils_DuplicateString DEFAULT_BASELINE_CUSTOM_CHECKS_FILE_PATH w2;
            w4 = w3\<lparr>twinConfiguration := (twinConfiguration w3)\<lparr>baselineCustomChecksFilePath := path\<rparr>\<rparr> in
        if r1 = ACTION_MEMORY_EXCEPTION then (TWIN_MEMORY_EXCEPTION, TwinConfiguration_Deinit w4)
        else
          let ((r2, fileHash), w5) = Utils_DuplicateString DEFAULT_BASELINE_CUSTOM_CHECKS_FILE_HASH w4;
              w6 = w5\<lparr>twinConfiguration := (twinConfiguration w5)\<lparr>baselineCustomChecksFileHash := fileHash\<rparr>\<rparr> in
          if r2 = ACTION_MEMORY_EXCEPTION then (TWIN_MEMORY_EXCEPTION, TwinConfiguration_Deinit w6)
          else
            let w7 = w6\<lparr>twinConfigurationObjectName := LocalConfiguration_GetRemoteConfigurationObjectName w6\<rparr>;
                (r3, w8) = TwinConfigurationEventCollectors_Init w7 in
            if r3 \<noteq> TWIN_OK
            then (r3, TwinConfiguration_Deinit
                   (w8\<lparr>twinConfiguration := (twinConfiguration w8)\<lparr>tc_lock := False\<rparr>\<rparr>))
            else (TWIN_OK, w8))"

text \<open>\<open>DeepCopy\<close> with \<open>twinConfiguration\<close> as the destination; its lock stays.\<close>

definition TwinConfiguration_DeepCopy ::
  "TwinConfiguration \<Rightarrow> ('h, 'a) twin_env_scheme \<Rightarrow> TwinConfigurationResult \<times> ('h, 'a) twin_env_scheme" where
  "TwinConfiguration_DeepCopy src w =
     (let w1 = w\<lparr>twinConfiguration := (twinConfiguration w)
            \<lparr>maxLocalCacheSize := maxLocalCacheSize src,
             maxMessageSize := maxMessageSize src,
             lowPriorityMessageFrequency := lowPriorityMessageFrequency src,
             highPriorityMessageFrequency := highPriorityMessageFrequency src,
             snapshotFrequency := snapshotFrequency src,
             baselineCustomChecksEnabled := baselineCustomChecksEnabled src\<rparr>\<rparr>;
          ((r1, path), w2) = Utils_DuplicateString (baselineCustomChecksFilePath src) w1;
          w3 = w2\<lparr>twinConfiguration := (twinConfiguration w2)\<lparr>baselineCustomChecksFilePath := path\<rparr>\<rparr> in
      if r1 = ACTION_MEMORY_EXCEPTION then (TWIN_MEMORY_EXCEPTION, w3)
      else
        let ((r2, fileHash), w4) = Utils_DuplicateString (baselineCustomChecksFileHash src) w3;
            w5 = w4\<lparr>twinConfiguration := (twinConfiguration w4)\<lparr>baselineCustomChecksFileHash := fileHash\<rparr>\<rparr> in
        (if r2 = ACTION_MEMORY_EXCEPTION then TWIN_MEMORY_EXCEPTION else TWIN_OK, w5))"

section \<open>Extracting a configuration from the twin\<close>

text \<open>
  One key: its result, the value read or the default, and the status noted for the bundle.  The
  out value is \<open>None\<close> when the field was not written.
\<close>

definition value_or_default ::
  "'x option \<Rightarrow> (TwinConfigurationResult \<times> 'x option) \<times> ('v, 'o) JsonObjectReader \<Rightarrow>
    (TwinConfigurationResult \<times> 'x option \<times> TwinConfigurationStatus) \<times> ('v, 'o) JsonObjectReader" where
  "value_or_default d = (\<lambda>((r, x), reader).
     (if r = TWIN_CONF_NOT_EXIST then (TWIN_OK, d, CONFIGURATION_OK)
      else if r = TWIN_PARSE_EXCEPTION then (r, x, CONFIGURATION_TYPE_MISMATCH)
      else (r, x, CONFIGURATION_OK), reader))"

definition TwinConfiguration_SetSingleUintValueFromJsonOrDefault ::
  "('v, 'o, 'r) parson \<Rightarrow> u32 \<Rightarrow> string \<Rightarrow> bool \<Rightarrow> ('v, 'o) JsonObjectReader \<Rightarrow>
    (TwinConfigurationResult \<times> u32 option \<times> TwinConfigurationStatus) \<times> ('v, 'o) JsonObjectReader" where
  "TwinConfiguration_SetSingleUintValueFromJsonOrDefault P defaultValue key isTime reader =
     value_or_default (Some defaultValue)
       (if isTime then TwinConfigurationUtils_GetConfigurationTimeValueFromJson P reader key
        else TwinConfigurationUtils_GetConfigurationUintValueFromJson P reader key)"

definition TwinConfiguration_SetSingleBoolValueFromJsonOrDefault ::
  "('v, 'o, 'r) parson \<Rightarrow> bool \<Rightarrow> string \<Rightarrow> ('v, 'o) JsonObjectReader \<Rightarrow>
    (TwinConfigurationResult \<times> bool option \<times> TwinConfigurationStatus) \<times> ('v, 'o) JsonObjectReader" where
  "TwinConfiguration_SetSingleBoolValueFromJsonOrDefault P defaultValue key reader =
     value_or_default (Some defaultValue) (TwinConfigurationUtils_GetConfigurationBoolValueFromJson P reader key)"

text \<open>A missing string is a copy of the default, whose allocation can fail.\<close>

definition TwinConfiguration_SetSingleStringValueFromJsonOrDefault ::
  "('v, 'o, 'r) parson \<Rightarrow> string option \<Rightarrow> string \<Rightarrow> ('v, 'o) JsonObjectReader \<Rightarrow> 'a env_scheme \<Rightarrow>
    ((TwinConfigurationResult \<times> string option option \<times> TwinConfigurationStatus) \<times> ('v, 'o) JsonObjectReader) \<times> 'a env_scheme" where
  "TwinConfiguration_SetSingleStringValueFromJsonOrDefault P defaultValue key reader w =
     (let ((r, x), reader') = TwinConfigurationUtils_GetConfigurationStringValueFromJson P reader key in
      if r = TWIN_CONF_NOT_EXIST
      then let ((a, copy), w1) = Utils_DuplicateString defaultValue w in
        (((if a = ACTION_MEMORY_EXCEPTION then TWIN_MEMORY_EXCEPTION else TWIN_OK, Some copy, CONFIGURATION_OK), reader'), w1)
      else if r = TWIN_PARSE_EXCEPTION
      then (((r, map_option Some x, CONFIGURATION_TYPE_MISMATCH), reader'), w)
      else (((r, map_option Some x, CONFIGURATION_OK), reader'), w))"

text \<open>
  The state of an extraction: reader, bundle status, new configuration, world.  A step stores the
  value and the status of its key.
\<close>

type_synonym ('v, 'o, 'w) extraction =
  "('v, 'o) JsonObjectReader \<times> TwinConfigurationBundleStatus \<times> TwinConfiguration \<times> 'w"

definition extract_step ::
  "(('v, 'o) JsonObjectReader \<Rightarrow> 'w \<Rightarrow>
      ((TwinConfigurationResult \<times> 'x option \<times> TwinConfigurationStatus) \<times> ('v, 'o) JsonObjectReader) \<times> 'w) \<Rightarrow>
    (TwinConfigurationStatus \<Rightarrow> TwinConfigurationBundleStatus \<Rightarrow> TwinConfigurationBundleStatus) \<Rightarrow>
    ('x \<Rightarrow> TwinConfiguration \<Rightarrow> TwinConfiguration) \<Rightarrow>
    ('v, 'o, 'w) extraction \<Rightarrow> TwinConfigurationResult \<times> ('v, 'o, 'w) extraction" where
  "extract_step read setStatus setValue = (\<lambda>(reader, status, conf, w).
     let (((r, x, st), reader'), w1) = read reader w in
     (r, reader', setStatus st status, (case x of None \<Rightarrow> conf | Some v \<Rightarrow> setValue v conf), w1))"

text \<open>A parse failure is remembered and the next key is tried; any other failure ends the extraction.\<close>

fun extract_all ::
  "('s \<Rightarrow> TwinConfigurationResult \<times> 's) list \<Rightarrow> TwinConfigurationResult \<Rightarrow> 's \<Rightarrow> TwinConfigurationResult \<times> 's" where
  "extract_all [] result s = (result, s)"
| "extract_all (f # fs) result s =
     (let (current, s1) = f s in
      if current = TWIN_PARSE_EXCEPTION then extract_all fs current s1
      else if current \<noteq> TWIN_OK then (current, s1)
      else extract_all fs result s1)"

definition extraction_steps ::
  "('v, 'o, 'r) parson \<Rightarrow> (('v, 'o, 'a env_scheme) extraction \<Rightarrow> TwinConfigurationResult \<times> ('v, 'o, 'a env_scheme) extraction) list" where
  "extraction_steps P =
    (let num = (\<lambda>d key isTime reader w. (TwinConfiguration_SetSingleUintValueFromJsonOrDefault P d key isTime reader, w));
         flag = (\<lambda>d key reader w. (TwinConfiguration_SetSingleBoolValueFromJsonOrDefault P d key reader, w));
         text = TwinConfiguration_SetSingleStringValueFromJsonOrDefault P in
     [extract_step (num DEFAULT_MAX_LOCAL_CACHE_SIZE MAX_LOCAL_CACHE_SIZE_KEY False)
        (\<lambda>s. st_maxLocalCacheSize_update (\<lambda>_. s)) (\<lambda>v. maxLocalCacheSize_update (\<lambda>_. v)),
      extract_step (num DEFAULT_MAX_MESSAGE_SIZE MAX_MESSAGE_SIZE_KEY False)
        (\<lambda>s. st_maxMessageSize_update (\<lambda>_. s)) (\<lambda>v. maxMessageSize_update (\<lambda>_. v)),
      extract_step (num DEFAULT_HIGH_PRIORITY_MESSAGE_FREQUENCY HIGH_PRIORITY_MESSAGE_FREQUENCY_KEY True)
        (\<lambda>s. st_highPriorityMessageFrequency_update (\<lambda>_. s)) (\<lambda>v. highPriorityMessageFrequency_update (\<lambda>_. v)),
      extract_step (num DEFAULT_LOW_PRIORITY_MESSAGE_FREQUENCY LOW_PRIORITY_MESSAGE_FREQUENCY_KEY True)
        (\<lambda>s. st_lowPriorityMessageFrequency_update (\<lambda>_. s)) (\<lambda>v. lowPriorityMessageFrequency_update (\<lambda>_. v)),
      extract_step (num DEFAULT_SNAPSHOT_FREQUENCY SNAPSHOT_FREQUENCY_KEY True)
        (\<lambda>s. st_snapshotFrequency_update (\<lambda>_. s)) (\<lambda>v. snapshotFrequency_update (\<lambda>_. v)),
      extract_step (flag DEFAULT_BASELINE_CUSTOM_CHECKS_ENABLED BASELINE_CUSTOM_CHECKS_ENABLED_KEY)
        (\<lambda>s. st_baselineCustomChecksEnabled_update (\<lambda>_. s)) (\<lambda>v. baselineCustomChecksEnabled_update (\<lambda>_. v)),
      extract_step (text DEFAULT_BASELINE_CUSTOM_CHECKS_FILE_PATH BASELINE_CUSTOM_CHECKS_FILE_PATH_KEY)
        (\<lambda>s. st_baselineCustomChecksFilePath_update (\<lambda>_. s)) (\<lambda>v. baselineCustomChecksFilePath_update (\<lambda>_. v)),
      extract_step (text DEFAULT_BASELINE_CUSTOM_CHECKS_FILE_HASH BASELINE_CUSTOM_CHECKS_FILE_HASH_KEY)
        (\<lambda>s. st_baselineCustomChecksFileHash_update (\<lambda>_. s)) (\<lambda>v. baselineCustomChecksFileHash_update (\<lambda>_. v))])"

definition TwinConfiguration_ExtractConfiguration ::
  "('v, 'o, 'r) parson \<Rightarrow> ('v, 'o) JsonObjectReader \<Rightarrow> TwinConfigurationBundleStatus \<Rightarrow> TwinConfiguration \<Rightarrow>
    'a env_scheme \<Rightarrow> TwinConfigurationResult \<times> ('v, 'o, 'a env_scheme) extraction" where
  "TwinConfiguration_ExtractConfiguration P reader status conf w =
     extract_all (extraction_steps P) TWIN_OK (reader, status, conf, w)"

section \<open>Updating\<close>

definition zero_status :: TwinConfigurationBundleStatus where
  "zero_status =
     \<lparr>st_maxLocalCacheSize = CONFIGURATION_OK, st_maxMessageSize = CONFIGURATION_OK,
      st_lowPriorityMessageFrequency = CONFIGURATION_OK, st_highPriorityMessageFrequency = CONFIGURATION_OK,
      st_snapshotFrequency = CONFIGURATION_OK, st_eventPriorities = CONFIGURATION_OK,
      st_baselineCustomChecksEnabled = CONFIGURATION_OK, st_baselineCustomChecksFilePath = CONFIGURATION_OK,
      st_baselineCustomChecksFileHash = CONFIGURATION_OK\<rparr>"

definition zero_configuration :: TwinConfiguration where
  "zero_configuration =
     \<lparr>maxLocalCacheSize = 0, maxMessageSize = 0, lowPriorityMessageFrequency = 0,
      highPriorityMessageFrequency = 0, snapshotFrequency = 0, baselineCustomChecksEnabled = False,
      baselineCustomChecksFilePath = None, baselineCustomChecksFileHash = None, tc_lock = False\<rparr>"

text \<open>
  Finding the agent's object in the document: into \<open>desired\<close> when the twin is complete, then into
  the object named by the local configuration; a document without it reads as an empty object.
  The first reader is freed before the empty object is opened; when that fails, the \<open>cleanup\<close> of
  \<open>Update\<close> frees it once more, a fault.
\<close>

definition open_twin ::
  "('v, 'o, 'r) parson \<Rightarrow> string \<Rightarrow> bool \<Rightarrow> ('h, 'a) twin_env_scheme \<Rightarrow>
    (TwinConfigurationResult \<times> ('v, 'o) JsonObjectReader option) \<times> ('h, 'a) twin_env_scheme" where
  "open_twin P json complete w =
     (case JsonObjectReader_InitFromString P json w of
        ((JSON_READER_OK, Some reader0), w1) \<Rightarrow>
          (let (r0, reader1) = (if complete then JsonObjectReader_StepIn P reader0 ''desired'' else (JSON_READER_OK, reader0)) in
           if r0 \<noteq> JSON_READER_OK then ((TWIN_PARSE_EXCEPTION, None), w1)
           else case twinConfigurationObjectName w1 of
             None \<Rightarrow> ((TWIN_PARSE_EXCEPTION, None), w1\<lparr>fault := True\<rparr>)
           | Some name \<Rightarrow>
               (let (r1, reader2) = JsonObjectReader_StepIn P reader1 name in
                if r1 = JSON_READER_KEY_MISSING \<or> r1 = JSON_READER_VALUE_IS_NULL
                then case JsonObjectReader_InitFromString P ''{}'' w1 of
                    ((JSON_READER_OK, Some blank), w2) \<Rightarrow> ((TWIN_OK, Some blank), w2)
                  | (_, w2) \<Rightarrow> ((TWIN_EXCEPTION, None), w2\<lparr>fault := True\<rparr>)
                else if r1 \<noteq> JSON_READER_OK then ((TWIN_PARSE_EXCEPTION, None), w1)
                else ((TWIN_OK, Some reader2), w1)))
      | (_, w1) \<Rightarrow> ((TWIN_EXCEPTION, None), w1))"

text \<open>The part between the locks: the collectors first, then the copy of the new configuration.\<close>

definition apply_update ::
  "('v, 'o, 'r) parson \<Rightarrow> ('v, 'o) JsonObjectReader \<Rightarrow> TwinConfigurationBundleStatus \<Rightarrow> TwinConfiguration \<Rightarrow>
    ('h, 'a) twin_env_scheme \<Rightarrow> (TwinConfigurationResult \<times> TwinConfigurationBundleStatus) \<times> ('h, 'a) twin_env_scheme" where
  "apply_update P reader status conf w =
     (let (r, w1) = TwinConfigurationEventCollectors_Update P reader w in
      if r = TWIN_PARSE_EXCEPTION
      then ((r, status\<lparr>st_eventPriorities := CONFIGURATION_TYPE_MISMATCH\<rparr>), w1)
      else if r \<noteq> TWIN_OK then ((r, status), w1)
      else let (r2, w2) = TwinConfiguration_DeepCopy conf (TwinConfiguration_SafeDeinit w1) in ((r2, status), w2))"

text \<open>
  The \<open>cleanup\<close> of \<open>Update\<close>: the result is recorded before the unlock, whose failure only
  changes what is returned; an update that ran out of memory takes the configuration down.
\<close>

definition finish_update ::
  "bool \<Rightarrow> TwinConfigurationResult \<Rightarrow> TwinConfigurationBundleStatus \<Rightarrow> ('h, 'a) twin_env_scheme \<Rightarrow>
    TwinConfigurationResult \<times> ('h, 'a) twin_env_scheme" where
  "finish_update taken r status w =
     (let (now, w1) = sys_time w;
          w2 = w1\<lparr>updateResult := \<lparr>lastUpdateTime = now, lastUpdateResult = r, configurationBundleStatus = status\<rparr>\<rparr>;
          (ok, w3) = (if taken then sys_lock w2 else (True, w2)) in
      if \<not> ok then (TWIN_LOCK_EXCEPTION, w3)
      else if r = TWIN_MEMORY_EXCEPTION then (r, TwinConfiguration_Deinit w3) else (r, w3))"

definition TwinConfiguration_Update ::
  "('v, 'o, 'r) parson \<Rightarrow> string \<Rightarrow> bool \<Rightarrow> ('h, 'a) twin_env_scheme \<Rightarrow>
    TwinConfigurationResult \<times> ('h, 'a) twin_env_scheme" where
  "TwinConfiguration_Update P json complete w =
     (case open_twin P json complete w of
        ((TWIN_OK, Some reader), w1) \<Rightarrow>
          (let (r, reader', status, conf, w2) = TwinConfiguration_ExtractConfiguration P reader zero_status zero_configuration w1 in
           if r \<noteq> TWIN_OK then finish_update False r status w2
           else let (lk, w3) = sys_lock w2 in
             if \<not> lk then finish_update False TWIN_LOCK_EXCEPTION status w3
             else let ((r2, status2), w4) = apply_update P reader' status conf w3 in
               finish_update True r2 status2 w4)
      | ((r, _), w1) \<Rightarrow> finish_update False r zero_status w1)"

section \<open>Getters\<close>

text \<open>The field is read by the caller before the lock is taken, then handed over under the lock.\<close>

definition get_field :: "'x \<Rightarrow> 'a env_scheme \<Rightarrow> (TwinConfigurationResult \<times> 'x option) \<times> 'a env_scheme" where
  "get_field field =
     locked (TWIN_LOCK_EXCEPTION, None) (\<lambda>(_, x). (TWIN_LOCK_EXCEPTION, x)) (\<lambda>w. ((TWIN_OK, Some field), w))"

definition TwinConfiguration_GetFieldInteger :: "u32 \<Rightarrow> 'a env_scheme \<Rightarrow> (TwinConfigurationResult \<times> u32 option) \<times> 'a env_scheme" where
  "TwinConfiguration_GetFieldInteger = get_field"
definition TwinConfiguration_GetFieldBool :: "bool \<Rightarrow> 'a env_scheme \<Rightarrow> (TwinConfigurationResult \<times> bool option) \<times> 'a env_scheme" where
  "TwinConfiguration_GetFieldBool = get_field"
definition TwinConfiguration_GetFieldString :: "string option \<Rightarrow> 'a env_scheme \<Rightarrow> (TwinConfigurationResult \<times> string option option) \<times> 'a env_scheme" where
  "TwinConfiguration_GetFieldString = get_field"

definition TwinConfiguration_GetMaxLocalCacheSize ::
  "('h, 'a) twin_env_scheme \<Rightarrow> (TwinConfigurationResult \<times> u32 option) \<times> ('h, 'a) twin_env_scheme" where
  "TwinConfiguration_GetMaxLocalCacheSize w =
     TwinConfiguration_GetFieldInteger (maxLocalCacheSize (twinConfiguration w)) w"
definition TwinConfiguration_GetMaxMessageSize ::
  "('h, 'a) twin_env_scheme \<Rightarrow> (TwinConfigurationResult \<times> u32 option) \<times> ('h, 'a) twin_env_scheme" where
  "TwinConfiguration_GetMaxMessageSize w = TwinConfiguration_GetFieldInteger (maxMessageSize (twinConfiguration w)) w"
definition TwinConfiguration_GetLowPriorityMessageFrequency ::
  "('h, 'a) twin_env_scheme \<Rightarrow> (TwinConfigurationResult \<times> u32 option) \<times> ('h, 'a) twin_env_scheme" where
  "TwinConfiguration_GetLowPriorityMessageFrequency w =
     TwinConfiguration_GetFieldInteger (lowPriorityMessageFrequency (twinConfiguration w)) w"
definition TwinConfiguration_GetHighPriorityMessageFrequency ::
  "('h, 'a) twin_env_scheme \<Rightarrow> (TwinConfigurationResult \<times> u32 option) \<times> ('h, 'a) twin_env_scheme" where
  "TwinConfiguration_GetHighPriorityMessageFrequency w =
     TwinConfiguration_GetFieldInteger (highPriorityMessageFrequency (twinConfiguration w)) w"
definition TwinConfiguration_GetSnapshotFrequency ::
  "('h, 'a) twin_env_scheme \<Rightarrow> (TwinConfigurationResult \<times> u32 option) \<times> ('h, 'a) twin_env_scheme" where
  "TwinConfiguration_GetSnapshotFrequency w =
     TwinConfiguration_GetFieldInteger (snapshotFrequency (twinConfiguration w)) w"
definition TwinConfiguration_GetBaselineCustomChecksEnabled ::
  "('h, 'a) twin_env_scheme \<Rightarrow> (TwinConfigurationResult \<times> bool option) \<times> ('h, 'a) twin_env_scheme" where
  "TwinConfiguration_GetBaselineCustomChecksEnabled w =
     TwinConfiguration_GetFieldBool (baselineCustomChecksEnabled (twinConfiguration w)) w"
definition TwinConfiguration_GetBaselineCustomChecksFilePath ::
  "('h, 'a) twin_env_scheme \<Rightarrow> (TwinConfigurationResult \<times> string option option) \<times> ('h, 'a) twin_env_scheme" where
  "TwinConfiguration_GetBaselineCustomChecksFilePath w =
     TwinConfiguration_GetFieldString (baselineCustomChecksFilePath (twinConfiguration w)) w"
definition TwinConfiguration_GetBaselineCustomChecksFileHash ::
  "('h, 'a) twin_env_scheme \<Rightarrow> (TwinConfigurationResult \<times> string option option) \<times> ('h, 'a) twin_env_scheme" where
  "TwinConfiguration_GetBaselineCustomChecksFileHash w =
     TwinConfiguration_GetFieldString (baselineCustomChecksFileHash (twinConfiguration w)) w"

definition TwinConfiguration_GetLastTwinUpdateData :: "('h, 'a) twin_env_scheme \<Rightarrow> TwinConfigurationUpdateResult" where
  "TwinConfiguration_GetLastTwinUpdateData w = updateResult w"

section \<open>Serialising\<close>

definition write_configuration ::
  "('v, 'o, 'r, 'h) parson_doc \<Rightarrow> ('v, 'o) JsonObjectWriter \<Rightarrow> ('h, 'a) twin_env_scheme \<Rightarrow>
    TwinConfigurationResult \<times> ('h, 'a) twin_env_scheme" where
  "write_configuration D writer w =
     (let c = twinConfiguration w in
      run_steps
       [TwinConfigurationUtils_WriteUintConfigurationToJson D writer MAX_LOCAL_CACHE_SIZE_KEY (maxLocalCacheSize c),
        TwinConfigurationUtils_WriteUintConfigurationToJson D writer MAX_MESSAGE_SIZE_KEY (maxMessageSize c),
        write_duration D writer HIGH_PRIORITY_MESSAGE_FREQUENCY_KEY (highPriorityMessageFrequency c),
        write_duration D writer LOW_PRIORITY_MESSAGE_FREQUENCY_KEY (lowPriorityMessageFrequency c),
        write_duration D writer SNAPSHOT_FREQUENCY_KEY (snapshotFrequency c),
        TwinConfigurationUtils_WriteBoolConfigurationToJson D writer BASELINE_CUSTOM_CHECKS_ENABLED_KEY (baselineCustomChecksEnabled c),
        TwinConfigurationUtils_WriteStringConfigurationToJson D writer BASELINE_CUSTOM_CHECKS_FILE_PATH_KEY (baselineCustomChecksFilePath c),
        TwinConfigurationUtils_WriteStringConfigurationToJson D writer BASELINE_CUSTOM_CHECKS_FILE_HASH_KEY (baselineCustomChecksFileHash c),
        TwinConfigurationEventCollectors_GetPrioritiesJson D writer] w)"

definition serialize_twin ::
  "('v, 'o, 'r, 'h) parson_doc \<Rightarrow> ('h, 'a) twin_env_scheme \<Rightarrow>
    (TwinConfigurationResult \<times> (string \<times> u32) option) \<times> ('h, 'a) twin_env_scheme" where
  "serialize_twin D w =
     (case JsonObjectWriter_Init D w of
        ((JSON_WRITER_OK, Some twinRoot), w1) \<Rightarrow>
         (case JsonObjectWriter_Init D w1 of
            ((JSON_WRITER_OK, Some configurationObject), w2) \<Rightarrow>
             (let (r, w3) = write_configuration D configurationObject w2;
                  free_both = (\<lambda>c w. JsonObjectWriter_Deinit D twinRoot (JsonObjectWriter_Deinit D c w)) in
              if r \<noteq> TWIN_OK then ((r, None), free_both configurationObject w3)
              else let name = twinConfigurationObjectName w3;
                       w4 = w3\<lparr>fault := (fault w3 \<or> name = None)\<rparr>;
                       ((r2, added), w5) = JsonObjectWriter_WriteObject D twinRoot (the name) configurationObject w4 in
                if r2 \<noteq> JSON_WRITER_OK then ((TWIN_EXCEPTION, None), free_both added w5)
                else let ((r3, out), w6) = JsonObjectWriter_Serialize D twinRoot w5 in
                  ((if r3 \<noteq> JSON_WRITER_OK then TWIN_EXCEPTION else TWIN_OK, out), free_both added w6))
          | (_, w2) \<Rightarrow> ((TWIN_EXCEPTION, None), JsonObjectWriter_Deinit D twinRoot w2))
      | (_, w1) \<Rightarrow> ((TWIN_EXCEPTION, None), w1))"

definition TwinConfiguration_GetSerializedTwinConfiguration ::
  "('v, 'o, 'r, 'h) parson_doc \<Rightarrow> ('h, 'a) twin_env_scheme \<Rightarrow>
    (TwinConfigurationResult \<times> (string \<times> u32) option) \<times> ('h, 'a) twin_env_scheme" where
  "TwinConfiguration_GetSerializedTwinConfiguration D =
     locked (TWIN_LOCK_EXCEPTION, None) (\<lambda>(_, out). (TWIN_LOCK_EXCEPTION, out)) (serialize_twin D)"

section \<open>What an extraction yields\<close>

definition twin_keys :: "string list" where
  "twin_keys =
     [MAX_LOCAL_CACHE_SIZE_KEY, MAX_MESSAGE_SIZE_KEY, HIGH_PRIORITY_MESSAGE_FREQUENCY_KEY,
      LOW_PRIORITY_MESSAGE_FREQUENCY_KEY, SNAPSHOT_FREQUENCY_KEY, BASELINE_CUSTOM_CHECKS_ENABLED_KEY,
      BASELINE_CUSTOM_CHECKS_FILE_PATH_KEY, BASELINE_CUSTOM_CHECKS_FILE_HASH_KEY]"

definition number_read where
  "number_read P reader key d isTime = fst (TwinConfiguration_SetSingleUintValueFromJsonOrDefault P d key isTime reader)"
definition flag_read where
  "flag_read P reader key d = fst (TwinConfiguration_SetSingleBoolValueFromJsonOrDefault P d key reader)"
definition text_read where
  "text_read P reader key =
     (let ((r, x), _) = TwinConfigurationUtils_GetConfigurationStringValueFromJson P reader key in
      if r = TWIN_CONF_NOT_EXIST then (TWIN_OK, Some None, CONFIGURATION_OK)
      else if r = TWIN_PARSE_EXCEPTION then (r, map_option Some x, CONFIGURATION_TYPE_MISMATCH)
      else (r, map_option Some x, CONFIGURATION_OK))"

definition twin_configuration_of ::
  "('v, 'o, 'r) parson \<Rightarrow> ('v, 'o) JsonObjectReader \<Rightarrow> bool \<Rightarrow> TwinConfiguration" where
  "twin_configuration_of P reader lk =
     (let num = (\<lambda>key d t. the (fst (snd (number_read P reader key d t)))) in
     \<lparr>maxLocalCacheSize = num MAX_LOCAL_CACHE_SIZE_KEY DEFAULT_MAX_LOCAL_CACHE_SIZE False,
      maxMessageSize = num MAX_MESSAGE_SIZE_KEY DEFAULT_MAX_MESSAGE_SIZE False,
      lowPriorityMessageFrequency = num LOW_PRIORITY_MESSAGE_FREQUENCY_KEY DEFAULT_LOW_PRIORITY_MESSAGE_FREQUENCY True,
      highPriorityMessageFrequency = num HIGH_PRIORITY_MESSAGE_FREQUENCY_KEY DEFAULT_HIGH_PRIORITY_MESSAGE_FREQUENCY True,
      snapshotFrequency = num SNAPSHOT_FREQUENCY_KEY DEFAULT_SNAPSHOT_FREQUENCY True,
      baselineCustomChecksEnabled =
        the (fst (snd (flag_read P reader BASELINE_CUSTOM_CHECKS_ENABLED_KEY DEFAULT_BASELINE_CUSTOM_CHECKS_ENABLED))),
      baselineCustomChecksFilePath = the (fst (snd (text_read P reader BASELINE_CUSTOM_CHECKS_FILE_PATH_KEY))),
      baselineCustomChecksFileHash = the (fst (snd (text_read P reader BASELINE_CUSTOM_CHECKS_FILE_HASH_KEY))),
      tc_lock = lk\<rparr>)"

lemma extract_all_result: "extract_all fs r s = (TWIN_OK, s') \<Longrightarrow> r = TWIN_OK"
  by (induction fs arbitrary: r s) (fastforce simp: Let_def split_beta split: if_splits)+

lemma extract_all_ok_Cons:
  "extract_all (f # fs) TWIN_OK s = (TWIN_OK, s') \<longleftrightarrow>
    (\<exists>s1. f s = (TWIN_OK, s1) \<and> extract_all fs TWIN_OK s1 = (TWIN_OK, s'))"
proof (cases "f s")
  case (Pair cur s1)
  then show ?thesis using extract_all_result [of fs TWIN_PARSE_EXCEPTION s1 s'] by (cases cur) auto
qed

lemma extract_all_ok_Nil: "extract_all [] TWIN_OK s = (TWIN_OK, s') \<longleftrightarrow> s' = s"
  by auto

lemmas extract_all_ok = extract_all_ok_Cons extract_all_ok_Nil

text \<open>What one step does when the reader returns to where it was.\<close>

lemma number_step:
  assumes "parent_law P (rootObject reader) key"
  shows "extract_step (\<lambda>reader w. (TwinConfiguration_SetSingleUintValueFromJsonOrDefault P d key t reader, w)) sS sV
      (reader, status, conf, w)
    = (fst (number_read P reader key d t), reader, sS (snd (snd (number_read P reader key d t))) status,
       (case fst (snd (number_read P reader key d t)) of None \<Rightarrow> conf | Some v \<Rightarrow> sV v conf), w)"
  using GetConfiguration_cursor [OF assms]
  by (auto simp: extract_step_def number_read_def value_or_default_def split_beta
      TwinConfiguration_SetSingleUintValueFromJsonOrDefault_def split: option.splits)

lemma flag_step:
  assumes "parent_law P (rootObject reader) key"
  shows "extract_step (\<lambda>reader w. (TwinConfiguration_SetSingleBoolValueFromJsonOrDefault P d key reader, w)) sS sV
      (reader, status, conf, w)
    = (fst (flag_read P reader key d), reader, sS (snd (snd (flag_read P reader key d))) status,
       (case fst (snd (flag_read P reader key d)) of None \<Rightarrow> conf | Some v \<Rightarrow> sV v conf), w)"
  using GetConfiguration_cursor [OF assms]
  by (auto simp: extract_step_def flag_read_def value_or_default_def split_beta
      TwinConfiguration_SetSingleBoolValueFromJsonOrDefault_def split: option.splits)

lemma text_step:
  assumes "parent_law P (rootObject reader) key"
  shows "extract_step (TwinConfiguration_SetSingleStringValueFromJsonOrDefault P None key) sS sV
      (reader, status, conf, w)
    = (fst (text_read P reader key), reader, sS (snd (snd (text_read P reader key))) status,
       (case fst (snd (text_read P reader key)) of None \<Rightarrow> conf | Some v \<Rightarrow> sV v conf), w)"
  using GetConfiguration_cursor [OF assms]
  by (auto simp: extract_step_def text_read_def split_beta Let_def Utils_DuplicateString_def
      TwinConfiguration_SetSingleStringValueFromJsonOrDefault_def split: option.splits)

lemma number_read_ok:
  assumes "fst (number_read P reader key d t) = TWIN_OK"
  shows "\<exists>v. fst (snd (number_read P reader key d t)) = Some v \<and> (t \<longrightarrow> printable d \<longrightarrow> printable v)"
  using assms
  by (auto simp: number_read_def TwinConfiguration_SetSingleUintValueFromJsonOrDefault_def value_or_default_def
      split: prod.splits if_splits dest: GetConfigurationTime_ok GetConfigurationUint_ok)

lemma flag_read_ok:
  "fst (flag_read P reader key d) = TWIN_OK \<Longrightarrow> \<exists>v. fst (snd (flag_read P reader key d)) = Some v"
  by (auto simp: flag_read_def TwinConfiguration_SetSingleBoolValueFromJsonOrDefault_def value_or_default_def
      split: prod.splits if_splits dest: GetConfigurationBool_ok)

lemma text_read_ok:
  "fst (text_read P reader key) = TWIN_OK \<Longrightarrow> \<exists>v. fst (snd (text_read P reader key)) = Some v"
  by (auto simp: text_read_def Let_def split: prod.splits if_splits dest: GetConfigurationString_ok)

lemma printable_defaults [simp]:
  "printable DEFAULT_LOW_PRIORITY_MESSAGE_FREQUENCY" "printable DEFAULT_HIGH_PRIORITY_MESSAGE_FREQUENCY"
  "printable DEFAULT_SNAPSHOT_FREQUENCY"
  by (simp_all add: printable_def default_defs whole_seconds_def)

definition twin_printable :: "TwinConfiguration \<Rightarrow> bool" where
  "twin_printable c \<longleftrightarrow> printable (lowPriorityMessageFrequency c)
     \<and> printable (highPriorityMessageFrequency c) \<and> printable (snapshotFrequency c)"

lemma number_step_ok:
  assumes "parent_law P (rootObject reader) key"
  shows "extract_step (\<lambda>reader w. (TwinConfiguration_SetSingleUintValueFromJsonOrDefault P d key t reader, w)) sS sV
      (reader, status, conf, w) = (TWIN_OK, s1) \<longleftrightarrow>
    fst (number_read P reader key d t) = TWIN_OK
    \<and> (t \<longrightarrow> printable d \<longrightarrow> printable (the (fst (snd (number_read P reader key d t)))))
    \<and> s1 = (reader, sS (snd (snd (number_read P reader key d t))) status,
             sV (the (fst (snd (number_read P reader key d t)))) conf, w)"
  using number_read_ok [of P reader key d t] by (auto simp: number_step [OF assms])

lemma flag_step_ok:
  assumes "parent_law P (rootObject reader) key"
  shows "extract_step (\<lambda>reader w. (TwinConfiguration_SetSingleBoolValueFromJsonOrDefault P d key reader, w)) sS sV
      (reader, status, conf, w) = (TWIN_OK, s1) \<longleftrightarrow>
    fst (flag_read P reader key d) = TWIN_OK
    \<and> s1 = (reader, sS (snd (snd (flag_read P reader key d))) status,
             sV (the (fst (snd (flag_read P reader key d)))) conf, w)"
  using flag_read_ok [of P reader key d] by (auto simp: flag_step [OF assms])

lemma text_step_ok:
  assumes "parent_law P (rootObject reader) key"
  shows "extract_step (TwinConfiguration_SetSingleStringValueFromJsonOrDefault P None key) sS sV
      (reader, status, conf, w) = (TWIN_OK, s1) \<longleftrightarrow>
    fst (text_read P reader key) = TWIN_OK
    \<and> s1 = (reader, sS (snd (snd (text_read P reader key))) status,
             sV (the (fst (snd (text_read P reader key)))) conf, w)"
  using text_read_ok [of P reader key] by (auto simp: text_step [OF assms])

lemma Extract_ok:
  assumes laws: "\<forall>key\<in>set twin_keys. parent_law P (rootObject reader) key"
    and run: "TwinConfiguration_ExtractConfiguration P reader status zero_configuration w = (TWIN_OK, reader', status', conf, w')"
  shows "reader' = reader \<and> w' = w \<and> conf = twin_configuration_of P reader False \<and> twin_printable conf"
  using run laws [unfolded twin_keys_def, simplified]
  unfolding TwinConfiguration_ExtractConfiguration_def extraction_steps_def
  by (simp add: Let_def extract_all_ok number_step_ok flag_step_ok text_step_ok
      DEFAULT_BASELINE_CUSTOM_CHECKS_FILE_PATH_def DEFAULT_BASELINE_CUSTOM_CHECKS_FILE_HASH_def
      twin_configuration_of_def zero_configuration_def twin_printable_def del: extract_all.simps)

section \<open>What an update does\<close>

lemma DuplicateString_cases:
  assumes "Utils_DuplicateString x w = ((r, y), w')"
  obtains (copied) n where "r = ACTION_OK" "y = x" "w' = w\<lparr>tick := n\<rparr>"
  | (failed) n where "r = ACTION_MEMORY_EXCEPTION" "y = None" "w' = w\<lparr>tick := n\<rparr>"
proof (cases x)
  case None
  then have "w' = w\<lparr>tick := tick w\<rparr>" "r = ACTION_OK" "y = x" using assms by (simp_all add: Utils_DuplicateString_def)
  then show thesis using copied by blast
next
  case (Some a)
  with assms have "w' = w\<lparr>tick := Suc (tick w)\<rparr>"
    "r = ACTION_OK \<and> y = x \<or> r = ACTION_MEMORY_EXCEPTION \<and> y = None"
    by (auto simp: Utils_DuplicateString_def sys_defs split: if_splits)
  then show thesis using copied failed by blast
qed

definition same_numbers :: "TwinConfiguration \<Rightarrow> TwinConfiguration \<Rightarrow> bool" where
  "same_numbers a b \<longleftrightarrow>
     maxLocalCacheSize a = maxLocalCacheSize b \<and> maxMessageSize a = maxMessageSize b
     \<and> lowPriorityMessageFrequency a = lowPriorityMessageFrequency b
     \<and> highPriorityMessageFrequency a = highPriorityMessageFrequency b
     \<and> snapshotFrequency a = snapshotFrequency b
     \<and> baselineCustomChecksEnabled a = baselineCustomChecksEnabled b"

lemma same_numbers_printable: "same_numbers a b \<Longrightarrow> twin_printable a \<longleftrightarrow> twin_printable b"
  by (simp add: same_numbers_def twin_printable_def)

lemma DeepCopy_cases:
  assumes "TwinConfiguration_DeepCopy src w = (r, w')"
  obtains (copied) n where "r = TWIN_OK"
      "w' = w\<lparr>tick := n, twinConfiguration := src\<lparr>tc_lock := tc_lock (twinConfiguration w)\<rparr>\<rparr>"
  | (failed) n C where "r = TWIN_MEMORY_EXCEPTION" "w' = w\<lparr>tick := n, twinConfiguration := C\<rparr>" "same_numbers C src"
proof -
  define c1 where "c1 = (twinConfiguration w)
    \<lparr>maxLocalCacheSize := maxLocalCacheSize src, maxMessageSize := maxMessageSize src,
     lowPriorityMessageFrequency := lowPriorityMessageFrequency src,
     highPriorityMessageFrequency := highPriorityMessageFrequency src,
     snapshotFrequency := snapshotFrequency src, baselineCustomChecksEnabled := baselineCustomChecksEnabled src\<rparr>"
  obtain r1 path w2 where dup1: "Utils_DuplicateString (baselineCustomChecksFilePath src) (w\<lparr>twinConfiguration := c1\<rparr>) = ((r1, path), w2)"
    by (metis surj_pair)
  have numbers: "same_numbers (c1\<lparr>baselineCustomChecksFilePath := p\<rparr>) src"
    "same_numbers (c1\<lparr>baselineCustomChecksFilePath := p, baselineCustomChecksFileHash := q\<rparr>) src" for p q
    by (simp_all add: same_numbers_def c1_def)
  from dup1 show thesis
  proof (cases rule: DuplicateString_cases)
    case first: (failed n)
    then have "r = TWIN_MEMORY_EXCEPTION \<and> w' = w\<lparr>tick := n, twinConfiguration := c1\<lparr>baselineCustomChecksFilePath := path\<rparr>\<rparr>"
      using assms dup1 by (simp add: TwinConfiguration_DeepCopy_def c1_def)
    then show thesis using failed numbers(1) by blast
  next
    case first: (copied n)
    define c2 where "c2 = c1\<lparr>baselineCustomChecksFilePath := path\<rparr>"
    obtain r2 h w4 where dup2: "Utils_DuplicateString (baselineCustomChecksFileHash src) (w\<lparr>tick := n, twinConfiguration := c2\<rparr>) = ((r2, h), w4)"
      by (metis surj_pair)
    have eq: "(r, w') = (if r2 = ACTION_MEMORY_EXCEPTION then TWIN_MEMORY_EXCEPTION else TWIN_OK,
        w4\<lparr>twinConfiguration := (twinConfiguration w4)\<lparr>baselineCustomChecksFileHash := h\<rparr>\<rparr>)"
      using assms dup1 dup2 first by (simp add: TwinConfiguration_DeepCopy_def c1_def c2_def)
    from dup2 show thesis
    proof (cases rule: DuplicateString_cases)
      case (copied m)
      have "c2\<lparr>baselineCustomChecksFileHash := h\<rparr> = src\<lparr>tc_lock := tc_lock (twinConfiguration w)\<rparr>"
        using first copied by (simp add: c1_def c2_def)
      then have "r = TWIN_OK" "w' = w\<lparr>tick := m, twinConfiguration := src\<lparr>tc_lock := tc_lock (twinConfiguration w)\<rparr>\<rparr>"
        using eq copied by simp_all
      then show thesis using that(1) by blast
    next
      case (failed m)
      have "same_numbers (c2\<lparr>baselineCustomChecksFileHash := h\<rparr>) src" using numbers(2) by (simp add: c2_def)
      moreover have "r = TWIN_MEMORY_EXCEPTION" "w' = w\<lparr>tick := m, twinConfiguration := c2\<lparr>baselineCustomChecksFileHash := h\<rparr>\<rparr>"
        using eq failed by simp_all
      ultimately show thesis using that(2) by blast
    qed
  qed
qed

lemma JsonReader_Init_cases:
  assumes "JsonObjectReader_InitFromString P s w = (x, w')"
  obtains (opened) rd where "x = (JSON_READER_OK, Some rd)" "noted w w'"
  | (failed) "x = (JSON_READER_EXCEPTION, None)" "noted w w'"
proof -
  have "w' = next_tick w"
    using assms
    by (auto simp: JsonObjectReader_InitFromString_def JsonObjectReader_Init_def sys_malloc_def Let_def
        split: option.splits if_splits)
  then have "ticked w w'" by (auto simp: next_tick_def ticked_def)
  then have frame: "noted w w'" by (rule ticked_noted)
  have "x = (JSON_READER_EXCEPTION, None) \<or> (\<exists>rd. x = (JSON_READER_OK, Some rd))"
    using assms
    by (auto simp: JsonObjectReader_InitFromString_def JsonObjectReader_Init_def sys_malloc_def Let_def
        split: option.splits if_splits)
  with frame that show thesis by blast
qed

lemma open_twin_frame:
  assumes "open_twin P json complete w = (x, w')"
  shows "noted w w'"
proof -
  obtain y w1 where init: "JsonObjectReader_InitFromString P json w = (y, w1)" by (metis surj_pair)
  obtain z w2 where blank: "JsonObjectReader_InitFromString P ''{}'' w1 = (z, w2)" by (metis surj_pair)
  from init have w1: "noted w w1" by (cases rule: JsonReader_Init_cases) simp_all
  from blank have "noted w1 w2" by (cases rule: JsonReader_Init_cases) simp_all
  with w1 have w2: "noted w w2" by (rule noted_trans)
  have "noted w (snd (open_twin P json complete w))"
    by (simp add: open_twin_def init blank w1 w2 noted_fault
        split: prod.split option.split JsonReaderResult.split)
  with assms show ?thesis by simp
qed

lemma update_commutes [simp]:
  "w\<lparr>updateResult := U, tick := n\<rparr> = w\<lparr>tick := n, updateResult := U\<rparr>"
  by simp

lemma finish_update_cases:
  assumes "finish_update taken r status w = (res, w')"
  obtains (recorded) n t where
      "w' = w\<lparr>tick := n, updateResult := \<lparr>lastUpdateTime = t, lastUpdateResult = r, configurationBundleStatus = status\<rparr>\<rparr>"
      "res = r \<and> r \<noteq> TWIN_MEMORY_EXCEPTION \<or> res = TWIN_LOCK_EXCEPTION \<and> taken"
  | (torn_down) n t where "r = TWIN_MEMORY_EXCEPTION" "res = r"
      "w' = TwinConfiguration_Deinit (w\<lparr>tick := n,
         updateResult := \<lparr>lastUpdateTime = t, lastUpdateResult = r, configurationBundleStatus = status\<rparr>\<rparr>)"
proof -
  define U where "U = \<lparr>lastUpdateTime = clock w (tick w), lastUpdateResult = r, configurationBundleStatus = status\<rparr>"
  define n where "n = (if taken then Suc (Suc (tick w)) else Suc (tick w))"
  have eq: "(res, w') = (if taken \<and> \<not> lockOk w (Suc (tick w)) then (TWIN_LOCK_EXCEPTION, w\<lparr>tick := n, updateResult := U\<rparr>)
      else if r = TWIN_MEMORY_EXCEPTION then (r, TwinConfiguration_Deinit (w\<lparr>tick := n, updateResult := U\<rparr>))
      else (r, w\<lparr>tick := n, updateResult := U\<rparr>))"
    using assms by (cases taken) (auto simp: finish_update_def sys_defs Let_def U_def n_def split: if_splits)
  show thesis
  proof (cases "\<not> (taken \<and> \<not> lockOk w (Suc (tick w))) \<and> r = TWIN_MEMORY_EXCEPTION")
    case True
    with eq show thesis using torn_down [where n = n and t = "lastUpdateTime U"] by (auto simp: U_def)
  next
    case False
    with eq show thesis using recorded [where n = n and t = "lastUpdateTime U"] by (auto simp: U_def split: if_splits)
  qed
qed

lemma extraction_world:
  "snd (snd (snd (snd (TwinConfiguration_ExtractConfiguration P reader status conf w)))) = w"
proof -
  have keeps: "snd (snd (snd (snd (extract_all fs r s)))) = snd (snd (snd s))"
    if "\<And>f s. f \<in> set fs \<Longrightarrow> snd (snd (snd (snd (f s)))) = snd (snd (snd s))"
    for fs :: "(('v, 'o, 'a env_scheme) extraction \<Rightarrow> TwinConfigurationResult \<times> ('v, 'o, 'a env_scheme) extraction) list" and r s
    using that by (induction fs arbitrary: r s) (auto simp: Let_def split_beta)
  have step: "snd (snd (snd (snd (extract_step rd sS sV s)))) = snd (snd (snd s))"
    if "\<And>reader w. snd (rd reader w) = w"
    for rd sS sV and s :: "('v, 'o, 'a env_scheme) extraction"
    using that by (cases s) (simp add: extract_step_def split_beta)
  have text_world: "snd (TwinConfiguration_SetSingleStringValueFromJsonOrDefault P None key reader w) = w"
    for key reader and w :: "'a env_scheme"
    by (simp add: TwinConfiguration_SetSingleStringValueFromJsonOrDefault_def Let_def split_beta Utils_DuplicateString_def)
  show ?thesis
    unfolding TwinConfiguration_ExtractConfiguration_def
    by (subst keeps)
       (auto simp: extraction_steps_def Let_def step text_world DEFAULT_BASELINE_CUSTOM_CHECKS_FILE_PATH_def
         DEFAULT_BASELINE_CUSTOM_CHECKS_FILE_HASH_def)
qed

text \<open>The reader the update works on obeys parson's law of parents at all of its keys.\<close>

definition twin_laws :: "('v, 'o, 'r) parson \<Rightarrow> ('v, 'o) JsonObjectReader \<Rightarrow> bool" where
  "twin_laws P reader \<longleftrightarrow> (\<forall>key\<in>set twin_keys \<union> set collector_keys. parent_law P (rootObject reader) key)"

text \<open>
  The stages of an update whose reader could be opened: the extraction failed; the lock was not
  taken; the body ran.
\<close>

lemma Update_cases:
  assumes opened: "open_twin P json complete w = ((TWIN_OK, Some reader), w1)"
    and upd: "TwinConfiguration_Update P json complete w = (res, w')"
  obtains (extraction) r st where "r \<noteq> TWIN_OK" "finish_update False r st w1 = (res, w')"
  | (no_lock) st n where "finish_update False TWIN_LOCK_EXCEPTION st (w1\<lparr>tick := n\<rparr>) = (res, w')"
  | (ran) reader' status conf n r2 status2 w4 where
      "TwinConfiguration_ExtractConfiguration P reader zero_status zero_configuration w1 = (TWIN_OK, reader', status, conf, w1)"
      "apply_update P reader' status conf (w1\<lparr>tick := n\<rparr>) = ((r2, status2), w4)"
      "finish_update True r2 status2 w4 = (res, w')"
proof -
  obtain r reader' status conf w2 where
    ext: "TwinConfiguration_ExtractConfiguration P reader zero_status zero_configuration w1 = (r, reader', status, conf, w2)"
    by (metis surj_pair)
  with extraction_world [of P reader zero_status zero_configuration w1] have w2: "w2 = w1" by simp
  obtain r2 status2 w4 where body: "apply_update P reader' status conf (next_tick w1) = ((r2, status2), w4)"
    by (metis surj_pair)
  consider "r \<noteq> TWIN_OK" | "r = TWIN_OK" "\<not> lockOk w1 (tick w1)" | "r = TWIN_OK" "lockOk w1 (tick w1)" by blast
  then show thesis
  proof cases
    case 1
    then show ?thesis using upd opened ext w2 extraction by (simp add: TwinConfiguration_Update_def)
  next
    case 2
    then show ?thesis using upd opened ext w2 no_lock
      by (simp add: TwinConfiguration_Update_def sys_lock_def next_tick_def)
  next
    case 3
    then have "finish_update True r2 status2 w4 = (res, w')"
      using upd opened ext w2 body by (simp add: TwinConfiguration_Update_def sys_lock_def)
    with 3 ext w2 body show ?thesis using ran by (simp add: next_tick_def)
  qed
qed

lemma SafeDeinit_eq:
  "TwinConfiguration_SafeDeinit w = w\<lparr>twinConfiguration := (twinConfiguration w)
     \<lparr>baselineCustomChecksFilePath := None, baselineCustomChecksFileHash := None\<rparr>\<rparr>"
  by (cases "twinConfiguration w")
     (simp add: TwinConfiguration_SafeDeinit_def Let_def DEFAULT_BASELINE_CUSTOM_CHECKS_FILE_PATH_def
       DEFAULT_BASELINE_CUSTOM_CHECKS_FILE_HASH_def)

lemma apply_update_cases:
  assumes "apply_update P reader status conf w = ((r, status'), w')"
  obtains (collectors) w1 where "TwinConfigurationEventCollectors_Update P reader w = (r, w1)" "r \<noteq> TWIN_OK" "w' = w1"
  | (copied) w1 n where "TwinConfigurationEventCollectors_Update P reader w = (TWIN_OK, w1)" "r = TWIN_OK" "status' = status"
      "w' = w1\<lparr>tick := n, twinConfiguration := conf\<lparr>tc_lock := tc_lock (twinConfiguration w1)\<rparr>\<rparr>"
  | (no_memory) w1 n C where "TwinConfigurationEventCollectors_Update P reader w = (TWIN_OK, w1)"
      "r = TWIN_MEMORY_EXCEPTION" "w' = w1\<lparr>tick := n, twinConfiguration := C\<rparr>" "same_numbers C conf"
proof -
  obtain r1 w1 where upd: "TwinConfigurationEventCollectors_Update P reader w = (r1, w1)" by (metis surj_pair)
  show thesis
  proof (cases "r1 = TWIN_OK")
    case False
    then have "r = r1" "w' = w1" using assms upd by (auto simp: apply_update_def split: if_splits)
    then show thesis using collectors upd False by blast
  next
    case True
    obtain r2 w2 where copy: "TwinConfiguration_DeepCopy conf (TwinConfiguration_SafeDeinit w1) = (r2, w2)"
      by (metis surj_pair)
    then have eq: "r = r2" "w' = w2" "status' = status" using assms upd True by (auto simp: apply_update_def)
    from copy show thesis
    proof (cases rule: DeepCopy_cases)
      case (copied n)
      then show thesis using that(2) [where n = n and ?w1.0 = w1] eq upd True by (simp add: SafeDeinit_eq)
    next
      case (failed n C)
      then show thesis using that(3) [where n = n and C = C and ?w1.0 = w1] eq upd True by (simp add: SafeDeinit_eq)
    qed
  qed
qed

lemma twin_laws_split:
  "twin_laws P reader \<longleftrightarrow> (\<forall>key\<in>set twin_keys. parent_law P (rootObject reader) key)
     \<and> (\<forall>key\<in>set collector_keys. parent_law P (rootObject reader) key)"
  by (auto simp: twin_laws_def)

lemma twin_configuration_of_lock [simp]:
  "(twin_configuration_of P reader b)\<lparr>tc_lock := c\<rparr> = twin_configuration_of P reader c"
  by (simp add: twin_configuration_of_def Let_def)

lemma Update_result_ok:
  assumes opened: "open_twin P json complete w = ((TWIN_OK, Some reader), w1)"
    and laws: "twin_laws P reader"
    and upd: "TwinConfiguration_Update P json complete w = (TWIN_OK, w')"
  shows "twinConfiguration w' = twin_configuration_of P reader (tc_lock (twinConfiguration w))"
    and "eventPriorities w' = (twin_collectors P reader (eventPriorities w))\<lparr>isLocked := False\<rparr>"
    and "lastUpdateResult (updateResult w') = TWIN_OK"
proof -
  have w1: "noted w w1" using opened by (rule open_twin_frame)
  have "twinConfiguration w' = twin_configuration_of P reader (tc_lock (twinConfiguration w))
    \<and> eventPriorities w' = (twin_collectors P reader (eventPriorities w))\<lparr>isLocked := False\<rparr>
    \<and> lastUpdateResult (updateResult w') = TWIN_OK"
    using opened upd
  proof (cases rule: Update_cases)
    case (extraction r st)
    from extraction(2) show ?thesis by (cases rule: finish_update_cases) (use extraction(1) in auto)
  next
    case (no_lock st n)
    then show ?thesis by (cases rule: finish_update_cases) auto
  next
    case (ran reader' status conf n r2 status2 w4)
    from Extract_ok [OF _ ran(1)] laws have conf: "reader' = reader" "conf = twin_configuration_of P reader False"
      by (simp_all add: twin_laws_split)
    from ran(3) obtain m t where r2: "r2 = TWIN_OK"
      and w': "w' = w4\<lparr>tick := m, updateResult := \<lparr>lastUpdateTime = t, lastUpdateResult = TWIN_OK, configurationBundleStatus = status2\<rparr>\<rparr>"
      by (cases rule: finish_update_cases) auto
    from ran(2) show ?thesis
    proof (cases rule: apply_update_cases)
      case (copied w5 k)
      have "\<exists>j. w5 = (w1\<lparr>tick := n\<rparr>)\<lparr>tick := j,
          eventPriorities := (twin_collectors P reader (eventPriorities (w1\<lparr>tick := n\<rparr>)))\<lparr>isLocked := False\<rparr>\<rparr>"
        by (rule Collectors_Update_ok) (use laws copied(1) conf in \<open>simp_all add: twin_laws_split\<close>)
      then obtain j where
        "w5 = w1\<lparr>tick := j, eventPriorities := (twin_collectors P reader (eventPriorities w1))\<lparr>isLocked := False\<rparr>\<rparr>"
        by auto
      with copied w' conf w1 show ?thesis by (auto simp: noted_def)
    qed (use r2 in simp_all)
  qed
  then show "twinConfiguration w' = twin_configuration_of P reader (tc_lock (twinConfiguration w))"
    "eventPriorities w' = (twin_collectors P reader (eventPriorities w))\<lparr>isLocked := False\<rparr>"
    "lastUpdateResult (updateResult w') = TWIN_OK"
    by simp_all
qed

lemma Update_unopened:
  assumes "open_twin P json complete w = ((r, rd), w1)" and "r \<noteq> TWIN_OK \<or> rd = None"
    and "TwinConfiguration_Update P json complete w = (res, w')"
  shows "\<exists>r'. r' = r \<and> finish_update False r zero_status w1 = (res, w')"
  using assms by (cases r; cases rd) (auto simp: TwinConfiguration_Update_def)

lemma Update_rejected:
  assumes upd: "TwinConfiguration_Update P json complete w = (res, w')"
    and res: "res = TWIN_PARSE_EXCEPTION \<or> res = TWIN_EXCEPTION \<or> res = TWIN_CONF_NOT_EXIST"
  shows "twinConfiguration w' = twinConfiguration w
    \<and> (eventPriorities w' = eventPriorities w \<or> eventPriorities w' = normalised (eventPriorities w))
    \<and> lastUpdateResult (updateResult w') = res"
proof -
  obtain r rd w1 where opened: "open_twin P json complete w = ((r, rd), w1)" by (metis surj_pair)
  then have w1: "noted w w1" by (rule open_twin_frame)
  have untouched: "twinConfiguration w' = twinConfiguration w
      \<and> (eventPriorities w' = eventPriorities w \<or> eventPriorities w' = normalised (eventPriorities w))
      \<and> lastUpdateResult (updateResult w') = res"
    if "finish_update b r' st w2 = (res, w')" "twinConfiguration w2 = twinConfiguration w"
      "eventPriorities w2 = eventPriorities w \<or> eventPriorities w2 = normalised (eventPriorities w)"
    for b r' st w2
    using that(1) by (cases rule: finish_update_cases) (use res that(2,3) in auto)
  show ?thesis
  proof (cases "r \<noteq> TWIN_OK \<or> rd = None")
    case True
    from Update_unopened [OF opened True upd] untouched w1 show ?thesis by (auto simp: noted_def)
  next
    case False
    with opened obtain reader where "open_twin P json complete w = ((TWIN_OK, Some reader), w1)" by auto
    then show ?thesis
      using upd
    proof (cases rule: Update_cases)
      case (ran reader' status conf n r2 status2 w4)
      from ran(3) have r2: "r2 = res" by (cases rule: finish_update_cases) (use res in auto)
      from ran(2) show ?thesis
      proof (cases rule: apply_update_cases)
        case (collectors w5)
        with Collectors_Update_failed [OF collectors(1)] r2 res obtain k E where
          "w4 = w1\<lparr>tick := k, eventPriorities := E\<rparr>" "E = eventPriorities w1 \<or> E = normalised (eventPriorities w1)"
          by auto
        with ran(3) w1 show ?thesis by (intro untouched [where ?w2.0 = w4]) (auto simp: noted_def)
      qed (use r2 res in auto)
    qed (use w1 untouched in \<open>auto simp: noted_def\<close>)
  qed
qed

section \<open>An invariant of the configuration\<close>

text \<open>Every duration in the configuration can be printed.\<close>

definition twin_ready :: "('h, 'a) twin_env_scheme \<Rightarrow> bool" where
  "twin_ready w \<longleftrightarrow> twin_printable (twinConfiguration w) \<and> collectors_printable (eventPriorities w)"

lemma Init_ready:
  assumes "TwinConfiguration_Init w = (TWIN_OK, w')"
  shows "twin_ready w'"
  using assms
  by (auto simp: TwinConfiguration_Init_def TwinConfigurationEventCollectors_Init_def Utils_DuplicateString_def
      DEFAULT_BASELINE_CUSTOM_CHECKS_FILE_PATH_def DEFAULT_BASELINE_CUSTOM_CHECKS_FILE_HASH_def
      twin_ready_def twin_printable_def sys_defs Let_def split: if_splits)

lemma Deinit_ready: "twin_ready (TwinConfiguration_Deinit w) \<longleftrightarrow> twin_ready w"
  by (simp add: TwinConfiguration_Deinit_def TwinConfigurationEventCollectors_Deinit_def SafeDeinit_eq
      twin_ready_def twin_printable_def collectors_printable_def Let_def)

lemma finish_update_ready:
  assumes "finish_update taken r st w = (res, w')"
  shows "twin_ready w' \<longleftrightarrow> twin_ready w"
  using assms
  by (cases rule: finish_update_cases) (simp_all add: Deinit_ready, simp_all add: twin_ready_def)

lemma apply_update_ready:
  assumes laws: "twin_laws P reader" and conf: "twin_printable conf" and ready: "twin_ready w"
    and upd: "apply_update P reader status conf w = ((r, status'), w')"
  shows "twin_ready w'"
proof -
  have step: "collectors_printable (eventPriorities w1) \<and> twinConfiguration w1 = twinConfiguration w"
    if "TwinConfigurationEventCollectors_Update P reader w = (x, w1)" for x w1
    using Collectors_Update_frame [where reader = reader and P = P and w = w] laws that ready
    by (auto simp: twin_laws_split collectors_frame_def twin_ready_def)
  from upd show ?thesis
  proof (cases rule: apply_update_cases)
    case (collectors w1)
    with step [OF collectors(1)] ready show ?thesis by (simp add: twin_ready_def)
  next
    case (copied w1 n)
    with step [OF copied(1)] conf show ?thesis by (simp add: twin_ready_def twin_printable_def)
  next
    case (no_memory w1 n C)
    with step [OF no_memory(1)] conf same_numbers_printable [OF no_memory(4)] show ?thesis
      by (simp add: twin_ready_def)
  qed
qed

lemma Update_ready:
  assumes laws: "\<And>reader w1. open_twin P json complete w = ((TWIN_OK, Some reader), w1) \<Longrightarrow> twin_laws P reader"
    and ready: "twin_ready w"
  shows "twin_ready (snd (TwinConfiguration_Update P json complete w))"
proof -
  obtain r rd w1 where opened: "open_twin P json complete w = ((r, rd), w1)" by (metis surj_pair)
  obtain res w' where upd: "TwinConfiguration_Update P json complete w = (res, w')" by (metis surj_pair)
  from opened have "noted w w1" by (rule open_twin_frame)
  with ready have w1: "twin_ready (w1\<lparr>tick := n\<rparr>)" "twin_ready w1" for n by (auto simp: noted_def twin_ready_def)
  have "twin_ready w'"
  proof (cases "r \<noteq> TWIN_OK \<or> rd = None")
    case True
    from Update_unopened [OF opened True upd] w1 finish_update_ready show ?thesis by blast
  next
    case False
    with opened obtain reader where op: "open_twin P json complete w = ((TWIN_OK, Some reader), w1)" by auto
    from op upd show ?thesis
    proof (cases rule: Update_cases)
      case (ran reader' status conf n r2 status2 w4)
      from laws [OF op] have l: "twin_laws P reader" .
      with Extract_ok [OF _ ran(1)] have "reader' = reader \<and> twin_printable conf"
        unfolding twin_laws_split by blast
      with apply_update_ready [of P reader' conf, OF _ _ w1(1) ran(2)] l have "twin_ready w4" by simp
      with finish_update_ready [OF ran(3)] show ?thesis by simp
    qed (use w1 finish_update_ready in blast)+
  qed
  with upd show ?thesis by simp
qed

section \<open>Properties\<close>

text \<open>The world of the witnesses, and twins to update it with.\<close>

definition calm_configuration :: TwinConfiguration where
  "calm_configuration =
     \<lparr>maxLocalCacheSize = DEFAULT_MAX_LOCAL_CACHE_SIZE, maxMessageSize = DEFAULT_MAX_MESSAGE_SIZE,
      lowPriorityMessageFrequency = DEFAULT_LOW_PRIORITY_MESSAGE_FREQUENCY,
      highPriorityMessageFrequency = DEFAULT_HIGH_PRIORITY_MESSAGE_FREQUENCY,
      snapshotFrequency = DEFAULT_SNAPSHOT_FREQUENCY,
      baselineCustomChecksEnabled = DEFAULT_BASELINE_CUSTOM_CHECKS_ENABLED,
      baselineCustomChecksFilePath = None, baselineCustomChecksFileHash = None, tc_lock = True\<rparr>"

definition calm_twin_with :: "'h \<Rightarrow> 'h twin_env" where
  "calm_twin_with h = collectors_env.extend (collectors_env.truncate (calm_collectors_with h))
     (twin_env.fields calm_configuration
       \<lparr>lastUpdateTime = 0, lastUpdateResult = TWIN_OK, configurationBundleStatus = zero_status\<rparr>
       (Some ''agent''))"

abbreviation calm_twin :: "unit twin_env" where
  "calm_twin \<equiv> calm_twin_with ()"

lemma calm_twin_fields [simp]:
  "twinConfiguration (calm_twin_with h) = calm_configuration" "eventPriorities (calm_twin_with h) = default_collectors"
  "docs (calm_twin_with h) = h" "lockOk (calm_twin_with h) n" "allocOk (calm_twin_with h) n"
  "twinConfigurationObjectName (calm_twin_with h) = Some ''agent''"
  by (simp_all add: calm_twin_with_def calm_collectors_with_def twin_env.defs collectors_env.defs)

lemma calm_twin_ready [simp]: "twin_ready (calm_twin_with h)"
  by (simp add: twin_ready_def twin_printable_def calm_configuration_def)

definition sample_twin :: "json \<Rightarrow> string \<Rightarrow> json option" where
  "sample_twin j = (\<lambda>s. if s = ''{}'' then Some (JObj []) else Some (JObj [(''agent'', j)]))"

definition good_twin :: json where
  "good_twin = JObj [(MAX_MESSAGE_SIZE_KEY, entry (JNum 4096)), (LOGIN_PRIORITY_KEY, entry (JStr ''off''))]"

definition bad_twin :: json where
  "bad_twin = JObj [(MAX_MESSAGE_SIZE_KEY, entry (JStr ''4096'')), (LOGIN_PRIORITY_KEY, entry (JStr ''off''))]"



text \<open>
  C9: an update refused for what the twin says, or because it could not be read, leaves the
  configuration as it was and records the reason; of the priorities only the operational one may
  have been restricted to off or operational.
\<close>

theorem refused_update_keeps_the_configuration:
  assumes "TwinConfiguration_Update P json complete w = (res, w')"
    and "res = TWIN_PARSE_EXCEPTION \<or> res = TWIN_EXCEPTION \<or> res = TWIN_CONF_NOT_EXIST"
  shows "twinConfiguration w' = twinConfiguration w
    \<and> (eventPriorities w' = eventPriorities w \<or> eventPriorities w' = normalised (eventPriorities w))
    \<and> lastUpdateResult (updateResult w') = res"
  by (rule Update_rejected [OF assms])

theorem refused_update_keeps_the_configuration_witness:
  "\<exists>w'. TwinConfiguration_Update (tree_parson (sample_twin bad_twin)) ''twin'' False calm_twin = (TWIN_PARSE_EXCEPTION, w')
    \<and> twinConfiguration w' = twinConfiguration calm_twin"
proof -
  let ?upd = "TwinConfiguration_Update (tree_parson (sample_twin bad_twin)) ''twin'' False calm_twin"
  have "fst ?upd = TWIN_PARSE_EXCEPTION" by code_simp
  then have bad: "?upd = (TWIN_PARSE_EXCEPTION, snd ?upd)" by (metis prod.collapse)
  with refused_update_keeps_the_configuration [OF bad] show ?thesis by blast
qed

text \<open>
  C10: after a successful initialisation, and across every update whatever its result, each of the
  five durations of the configuration is a positive whole number of seconds, so it has a text.
\<close>

theorem configuration_stays_printable:
  assumes "\<And>reader w1. open_twin P json complete w = ((TWIN_OK, Some reader), w1) \<Longrightarrow> twin_laws P reader"
    and "TwinConfiguration_Init w0 = (TWIN_OK, w) \<or> twin_ready w"
  shows "twin_ready w \<and> twin_ready (snd (TwinConfiguration_Update P json complete w))"
proof -
  from assms(2) have ready: "twin_ready w" using Init_ready by blast
  moreover have "twin_ready (snd (TwinConfiguration_Update P json complete w))"
    by (rule Update_ready [OF _ ready]) (rule assms(1))
  ultimately show ?thesis ..
qed

theorem configuration_stays_printable_witness:
  "twin_ready (snd (TwinConfiguration_Update (tree_parson (sample_twin bad_twin)) ''twin'' False
     (snd (TwinConfiguration_Init calm_twin))))"
proof -
  have "fst (TwinConfiguration_Init calm_twin) = TWIN_OK" by code_simp
  then have "TwinConfiguration_Init calm_twin = (TWIN_OK, snd (TwinConfiguration_Init calm_twin))"
    by (metis prod.collapse)
  with configuration_stays_printable [of "tree_parson (sample_twin bad_twin)" "''twin''" False
      "snd (TwinConfiguration_Init calm_twin)" calm_twin]
  show ?thesis by (simp add: twin_laws_def)
qed

end
