(* ===== verification/Telemetry_Counters.thy ===== *)
theory Telemetry_Counters
  imports Twin_Configuration
begin

text \<open>
  The agent's own telemetry: \<^verbatim>\<open>src/agent/src/agent_telemetry_counters.c\<close>, counters under a lock that
  queues and the IoT Hub adapter increase, and \<^verbatim>\<open>agent_telemetry_provider.c\<close>, which the telemetry
  collectors ask for what was counted since they asked last.  A counter is part of the object it
  counts for; it is named by its address, and \<open>syncedCounters\<close> is the store of all counters, so that
  the provider's pointers alias the owners' counters.
\<close>

text \<open>
  \<open>Counter\<close> is a C union of three words: \<open>collected\<close> and \<open>dropped\<close> of a queue share their words
  with \<open>sentMessages\<close> and \<open>smallMessages\<close> of a message counter.
\<close>

record Counter =
  counterWord0 :: u32
  counterWord1 :: u32
  counterWord2 :: u32

definition collected :: "Counter \<Rightarrow> u32" where "collected c = counterWord0 c"
definition dropped :: "Counter \<Rightarrow> u32" where "dropped c = counterWord1 c"
definition sentMessages :: "Counter \<Rightarrow> u32" where "sentMessages c = counterWord0 c"
definition smallMessages :: "Counter \<Rightarrow> u32" where "smallMessages c = counterWord1 c"
definition failedMessages :: "Counter \<Rightarrow> u32" where "failedMessages c = counterWord2 c"

record QueueCounter =
  qc_collected :: u32
  qc_dropped :: u32

record MessageCounter =
  mc_sentMessages :: u32
  mc_smallMessages :: u32
  mc_failedMessages :: u32

record SyncedCounter =
  sc_counter :: Counter
  sc_lock :: bool

record AgentTelemetryProvider =
  lowPriorityQueueCounter :: "nat option"
  highPriorityQueueCounter :: "nat option"
  iotHubCounter :: "nat option"

record 'h counter_env = "'h twin_env" +
  syncedCounters :: "nat \<Rightarrow> SyncedCounter"
  agentTelemetryProvider :: AgentTelemetryProvider

section \<open>Counters\<close>

definition zero_counter :: Counter where
  "zero_counter = \<lparr>counterWord0 = 0, counterWord1 = 0, counterWord2 = 0\<rparr>"

definition set_counter ::
  "nat \<Rightarrow> (SyncedCounter \<Rightarrow> SyncedCounter) \<Rightarrow> ('h, 'a) counter_env_scheme \<Rightarrow> ('h, 'a) counter_env_scheme" where
  "set_counter c f w = w\<lparr>syncedCounters := (syncedCounters w)(c := f (syncedCounters w c))\<rparr>"

definition AgentTelemetryCounter_Init ::
  "nat \<Rightarrow> ('h, 'a) counter_env_scheme \<Rightarrow> bool \<times> ('h, 'a) counter_env_scheme" where
  "AgentTelemetryCounter_Init counter w =
     (let (ok, w1) = sys_ext (set_counter counter (sc_counter_update (\<lambda>_. zero_counter)) w)
      in (ok, set_counter counter (sc_lock_update (\<lambda>_. ok)) w1))"

definition AgentTelemetryCounter_Deinit ::
  "nat \<Rightarrow> ('h, 'a) counter_env_scheme \<Rightarrow> ('h, 'a) counter_env_scheme" where
  "AgentTelemetryCounter_Deinit counter w = set_counter counter (sc_lock_update (\<lambda>_. False)) w"

text \<open>
  The argument \<open>countInstance\<close> points into the counter; the callers pass the address of one of five
  members.
\<close>

datatype count_instance = Collected | Dropped | SentMessages | SmallMessages | FailedMessages

fun add_to :: "count_instance \<Rightarrow> u32 \<Rightarrow> Counter \<Rightarrow> Counter" where
  "add_to Collected n c = c\<lparr>counterWord0 := counterWord0 c + n\<rparr>"
| "add_to SentMessages n c = c\<lparr>counterWord0 := counterWord0 c + n\<rparr>"
| "add_to Dropped n c = c\<lparr>counterWord1 := counterWord1 c + n\<rparr>"
| "add_to SmallMessages n c = c\<lparr>counterWord1 := counterWord1 c + n\<rparr>"
| "add_to FailedMessages n c = c\<lparr>counterWord2 := counterWord2 c + n\<rparr>"

definition AgentTelemetryCounter_IncreaseBy ::
  "nat \<Rightarrow> count_instance \<Rightarrow> u32 \<Rightarrow> ('h, 'a) counter_env_scheme \<Rightarrow> bool \<times> ('h, 'a) counter_env_scheme" where
  "AgentTelemetryCounter_IncreaseBy counter countInstance amount =
     locked False (\<lambda>_. False)
       (\<lambda>w. (True, set_counter counter (sc_counter_update (add_to countInstance amount)) w))"

text \<open>
  Returns what \<open>outData\<close> holds at the end: zeros when the lock cannot be taken, and the snapshot,
  with the counter already reset, also when only the unlock fails.
\<close>

definition AgentTelemetryCounter_SnapshotAndReset ::
  "nat \<Rightarrow> ('h, 'a) counter_env_scheme \<Rightarrow> (bool \<times> Counter) \<times> ('h, 'a) counter_env_scheme" where
  "AgentTelemetryCounter_SnapshotAndReset inCounter =
     locked (False, zero_counter) (\<lambda>(_, outData). (False, outData))
       (\<lambda>w. ((True, sc_counter (syncedCounters w inCounter)),
             set_counter inCounter (sc_counter_update (\<lambda>_. zero_counter)) w))"

section \<open>The provider\<close>

datatype AgentTelemetryProviderResult = TELEMETRY_PROVIDER_OK | TELEMETRY_PROVIDER_EXCEPTION

datatype AgentQueueMeter = HIGH_PRIORITY | LOW_PRIORITY

definition AgentTelemetryProvider_Init ::
  "nat \<Rightarrow> nat \<Rightarrow> nat \<Rightarrow> ('h, 'a) counter_env_scheme \<Rightarrow>
    AgentTelemetryProviderResult \<times> ('h, 'a) counter_env_scheme" where
  "AgentTelemetryProvider_Init low high hub w =
     (TELEMETRY_PROVIDER_OK,
      w\<lparr>agentTelemetryProvider :=
          \<lparr>lowPriorityQueueCounter = Some low, highPriorityQueueCounter = Some high, iotHubCounter = Some hub\<rparr>\<rparr>)"

definition AgentTelemetryProvider_Deinit :: "('h, 'a) counter_env_scheme \<Rightarrow> ('h, 'a) counter_env_scheme" where
  "AgentTelemetryProvider_Deinit w =
     w\<lparr>agentTelemetryProvider :=
         \<lparr>lowPriorityQueueCounter = None, highPriorityQueueCounter = None, iotHubCounter = None\<rparr>\<rparr>"

text \<open>A snapshot through one of the provider's pointers; a NULL pointer is dereferenced, a fault.\<close>

definition snapshot_through ::
  "nat option \<Rightarrow> ('h, 'a) counter_env_scheme \<Rightarrow> (bool \<times> Counter) \<times> ('h, 'a) counter_env_scheme" where
  "snapshot_through p w =
     (case p of
        None \<Rightarrow> ((False, zero_counter), w\<lparr>fault := True\<rparr>)
      | Some c \<Rightarrow> AgentTelemetryCounter_SnapshotAndReset c w)"

definition AgentTelemetryProvider_GetQueueCounterData ::
  "AgentQueueMeter \<Rightarrow> ('h, 'a) counter_env_scheme \<Rightarrow>
    (AgentTelemetryProviderResult \<times> QueueCounter option) \<times> ('h, 'a) counter_env_scheme" where
  "AgentTelemetryProvider_GetQueueCounterData queue w =
     (let ((ok, data), w1) = snapshot_through
            (case queue of HIGH_PRIORITY \<Rightarrow> highPriorityQueueCounter (agentTelemetryProvider w)
                         | LOW_PRIORITY \<Rightarrow> lowPriorityQueueCounter (agentTelemetryProvider w)) w in
      if \<not> ok then ((TELEMETRY_PROVIDER_EXCEPTION, None), w1)
      else ((TELEMETRY_PROVIDER_OK, Some \<lparr>qc_collected = collected data, qc_dropped = dropped data\<rparr>), w1))"

definition AgentTelemetryProvider_GetMessageCounterData ::
  "('h, 'a) counter_env_scheme \<Rightarrow>
    (AgentTelemetryProviderResult \<times> MessageCounter option) \<times> ('h, 'a) counter_env_scheme" where
  "AgentTelemetryProvider_GetMessageCounterData w =
     (let ((ok, data), w1) = snapshot_through (iotHubCounter (agentTelemetryProvider w)) w in
      if \<not> ok then ((TELEMETRY_PROVIDER_EXCEPTION, None), w1)
      else ((TELEMETRY_PROVIDER_OK,
             Some \<lparr>mc_sentMessages = sentMessages data, mc_smallMessages = smallMessages data,
                   mc_failedMessages = failedMessages data\<rparr>), w1))"

section \<open>What a counter operation may touch\<close>

text \<open>
  Only the counter store, the call counter and nothing else; an increase leaves the other counters
  alone.
\<close>

definition counted :: "('h, 'a) counter_env_scheme \<Rightarrow> ('h, 'a) counter_env_scheme \<Rightarrow> bool" where
  "counted w w' \<longleftrightarrow> (\<exists>n cs. w' = w\<lparr>tick := n, syncedCounters := cs\<rparr>)"

lemma counted_refl [intro!, simp]: "counted w w"
  unfolding counted_def by (rule exI [of _ "tick w"], rule exI [of _ "syncedCounters w"]) simp

lemma counted_trans [trans]: "counted w w1 \<Longrightarrow> counted w1 w2 \<Longrightarrow> counted w w2"
  unfolding counted_def by (elim exE) (simp, blast)

lemma ticked_counted: "ticked w w' \<Longrightarrow> counted w w'"
proof -
  assume "ticked w w'"
  then obtain n where "w' = w\<lparr>tick := n, syncedCounters := syncedCounters w\<rparr>" by (auto simp: ticked_def)
  then show ?thesis unfolding counted_def by blast
qed

lemma set_counter_counted: "counted w (set_counter c f w)"
  unfolding counted_def set_counter_def by (rule exI [of _ "tick w"], rule exI) simp

lemma IncreaseBy_counted: "counted w (snd (AgentTelemetryCounter_IncreaseBy c i n w))"
  unfolding AgentTelemetryCounter_IncreaseBy_def
  by (rule locked_rel [where R = counted])
     (auto intro: ticked_counted counted_trans set_counter_counted)

lemma IncreaseBy_counter:
  "syncedCounters (snd (AgentTelemetryCounter_IncreaseBy c i n w)) =
     (if lockOk w (tick w)
      then (syncedCounters w)(c := sc_counter_update (add_to i n) (syncedCounters w c))
      else syncedCounters w)"
  by (simp add: AgentTelemetryCounter_IncreaseBy_def locked_def Let_def split_beta sys_defs set_counter_def)

section \<open>What is counted is reported once\<close>

definition increase_all ::
  "nat \<Rightarrow> count_instance list \<Rightarrow> ('h, 'a) counter_env_scheme \<Rightarrow> ('h, 'a) counter_env_scheme" where
  "increase_all c is w = fold (\<lambda>i w. snd (AgentTelemetryCounter_IncreaseBy c i 1 w)) is w"

lemma counted_keeps:
  assumes "counted w w'"
  shows "lockOk w' = lockOk w" "agentTelemetryProvider w' = agentTelemetryProvider w" "fault w' = fault w"
  using assms by (auto simp: counted_def)

lemma increase_all_counted: "counted w (increase_all c is w)"
  unfolding increase_all_def
  by (induction "is" arbitrary: w) (auto intro: counted_trans [OF IncreaseBy_counted])

lemma sc_counter_update_id [simp]: "sc_counter_update (\<lambda>a. a) s = s"
  by (cases s) simp

lemma increase_all_counter:
  assumes "locks_work w"
  shows "syncedCounters (increase_all c is w) =
    (syncedCounters w)(c := sc_counter_update (fold (\<lambda>i. add_to i 1) is) (syncedCounters w c))"
  using assms
proof (induction "is" arbitrary: w)
  case Nil
  then show ?case by (simp add: increase_all_def fun_upd_idem)
next
  case (Cons i "is")
  let ?w = "snd (AgentTelemetryCounter_IncreaseBy c i 1 w)"
  have "locks_work ?w"
    using Cons.prems counted_keeps(1) [OF IncreaseBy_counted [of w c i 1]] by (simp add: locks_work_def)
  from Cons.IH [OF this] Cons.prems show ?case
    by (auto simp: increase_all_def IncreaseBy_counter locks_work_def comp_def fun_eq_iff)
qed

text \<open>Adding one at a time amounts to the number of times the word was named, modulo the wrap.\<close>

fun slot :: "count_instance \<Rightarrow> nat" where
  "slot Collected = 0" | "slot SentMessages = 0"
| "slot Dropped = 1" | "slot SmallMessages = 1"
| "slot FailedMessages = 2"

abbreviation times :: "nat \<Rightarrow> count_instance list \<Rightarrow> u32" where
  "times k is \<equiv> of_nat (length (filter (\<lambda>i. slot i = k) is))"

lemma fold_add_to:
  "fold (\<lambda>i. add_to i 1) is c =
     \<lparr>counterWord0 = counterWord0 c + times 0 is, counterWord1 = counterWord1 c + times 1 is,
      counterWord2 = counterWord2 c + times 2 is\<rparr>"
proof (induction "is" arbitrary: c)
  case (Cons i "is")
  then show ?case by (cases i) simp_all
qed simp

lemma snapshot_success:
  assumes "locks_work w"
  shows "AgentTelemetryCounter_SnapshotAndReset c w =
    ((True, sc_counter (syncedCounters w c)),
     next_tick (set_counter c (sc_counter_update (\<lambda>_. zero_counter)) (next_tick w)))"
  unfolding AgentTelemetryCounter_SnapshotAndReset_def
  using assms by (subst locked_success) (auto simp: set_counter_def next_tick_def locks_work_def ticked_def)

text \<open>
  C34: \<open>AgentTelemetryProvider_GetMessageCounterData\<close> reports exactly what the adapter counted.
  When no lock call fails, after any sequence of increases of the adapter's message counter that
  starts from a reset counter, the provider returns the number of sent, small and failed messages
  in the sequence (each modulo \<open>2 ^ 32\<close>), and leaves the counter reset, so that nothing is reported
  twice; the queues' counters are not touched.
\<close>

theorem message_telemetry_exact:
  assumes "locks_work w" and "iotHubCounter (agentTelemetryProvider w) = Some c"
    and "sc_counter (syncedCounters w c) = zero_counter"
    and "set is \<subseteq> {SentMessages, SmallMessages, FailedMessages}"
  shows "\<exists>w'. AgentTelemetryProvider_GetMessageCounterData (increase_all c is w) =
      ((TELEMETRY_PROVIDER_OK,
        Some \<lparr>mc_sentMessages = of_nat (count_list is SentMessages),
              mc_smallMessages = of_nat (count_list is SmallMessages),
              mc_failedMessages = of_nat (count_list is FailedMessages)\<rparr>), w')
    \<and> sc_counter (syncedCounters w' c) = zero_counter
    \<and> (\<forall>d. d = c \<or> syncedCounters w' d = syncedCounters w d) \<and> fault w' = fault w"
proof -
  let ?w = "increase_all c is w"
  have counts: "count_list is SentMessages = length (filter (\<lambda>i. slot i = 0) is)"
    "count_list is SmallMessages = length (filter (\<lambda>i. slot i = 1) is)"
    "count_list is FailedMessages = length (filter (\<lambda>i. slot i = 2) is)"
    using assms(4) by (induction "is") auto
  have "locks_work ?w" "iotHubCounter (agentTelemetryProvider ?w) = Some c" "fault ?w = fault w"
    using assms counted_keeps [OF increase_all_counted [of w c "is"]] by (auto simp: locks_work_def)
  with assms(3) show ?thesis
    by (simp add: AgentTelemetryProvider_GetMessageCounterData_def snapshot_through_def snapshot_success
        increase_all_counter [OF assms(1)] fold_add_to counts sentMessages_def smallMessages_def
        failedMessages_def zero_counter_def set_counter_def next_tick_def)
qed

definition calm_counters_with :: "'h \<Rightarrow> 'h counter_env" where
  "calm_counters_with h = twin_env.extend (calm_twin_with h)
     \<lparr>syncedCounters = (\<lambda>_. \<lparr>sc_counter = zero_counter, sc_lock = True\<rparr>),
      agentTelemetryProvider =
        \<lparr>lowPriorityQueueCounter = Some 0, highPriorityQueueCounter = Some 1, iotHubCounter = Some 2\<rparr>\<rparr>"

abbreviation calm_counters :: "unit counter_env" where
  "calm_counters \<equiv> calm_counters_with ()"

lemma calm_counters_fields [simp]:
  "lockOk (calm_counters_with h) n" "allocOk (calm_counters_with h) n"
  "twinConfiguration (calm_counters_with h) = calm_configuration" "docs (calm_counters_with h) = h"
  by (simp_all add: calm_counters_with_def twin_env.defs counter_env.defs)

lemma message_telemetry_exact_witness:
  "mc_sentMessages (the (snd (fst (AgentTelemetryProvider_GetMessageCounterData
     (increase_all 2 [SentMessages, SmallMessages, SentMessages] calm_counters))))) = 2"
proof -
  have "locks_work calm_counters" "iotHubCounter (agentTelemetryProvider calm_counters) = Some 2"
    "sc_counter (syncedCounters calm_counters 2) = zero_counter"
    by (simp_all add: locks_work_def) (simp_all add: calm_counters_with_def twin_env.defs counter_env.defs)
  from message_telemetry_exact [OF this, of "[SentMessages, SmallMessages, SentMessages]"]
  show ?thesis by auto
qed

end
