(* ===== verification/Memory_Monitor.thy ===== *)
theory Memory_Monitor
  imports Telemetry_Counters
begin

text \<open>
  The memory monitor, the budget all queues share: \<^verbatim>\<open>src/agent/src/internal/internal_memory_monitor.c\<close>
  and its two front ends, \<^verbatim>\<open>synchronized_memory_monitor.c\<close> (the one the agent is linked with, here
  under the names of the header \<^verbatim>\<open>memory_monitor.h\<close>) and the unlocked \<^verbatim>\<open>memory_monitor.c\<close> (prefix
  \<open>Plain_\<close>).  The locale \<open>byte_budget\<close> is the contract the queue relies on; both front ends are
  instances of it.
\<close>

datatype MemoryMonitorResultValues =
  MEMORY_MONITOR_OK | MEMORY_MONITOR_MEMORY_EXCEEDED | MEMORY_MONITOR_INVALID_RELEASE_SIZE
| MEMORY_MONITOR_EXCEPTION

record 'h monitor_env = "'h counter_env" +
  currentConsumptionInBytes :: u32
  memoryLimitInBytes :: u32
  memoryMonitorLock :: bool

section \<open>The internal monitor\<close>

definition InternalMemoryMonitor_Init :: "('h, 'a) monitor_env_scheme \<Rightarrow> ('h, 'a) monitor_env_scheme" where
  "InternalMemoryMonitor_Init w =
     w\<lparr>memoryLimitInBytes := DEFAULT_MAX_LOCAL_CACHE_SIZE, currentConsumptionInBytes := 0\<rparr>"

definition InternalMemoryMonitor_Deinit :: "('h, 'a) monitor_env_scheme \<Rightarrow> ('h, 'a) monitor_env_scheme" where
  "InternalMemoryMonitor_Deinit w = w\<lparr>currentConsumptionInBytes := 0, memoryLimitInBytes := 0\<rparr>"

text \<open>The twin's getter writes \<open>memoryLimitInBytes\<close> also when it fails to unlock.\<close>

definition InternalMemoryMonitor_Consume ::
  "u32 \<Rightarrow> ('h, 'a) monitor_env_scheme \<Rightarrow> MemoryMonitorResultValues \<times> ('h, 'a) monitor_env_scheme" where
  "InternalMemoryMonitor_Consume n w =
     (let ((r, limit), w1) = TwinConfiguration_GetMaxLocalCacheSize w;
          w2 = (case limit of None \<Rightarrow> w1 | Some l \<Rightarrow> w1\<lparr>memoryLimitInBytes := l\<rparr>) in
      if r \<noteq> TWIN_OK then (MEMORY_MONITOR_EXCEPTION, w2)
      else if currentConsumptionInBytes w2 + n > memoryLimitInBytes w2
      then (MEMORY_MONITOR_MEMORY_EXCEEDED, w2)
      else (MEMORY_MONITOR_OK, w2\<lparr>currentConsumptionInBytes := currentConsumptionInBytes w2 + n\<rparr>))"

definition InternalMemoryMonitor_Release ::
  "u32 \<Rightarrow> ('h, 'a) monitor_env_scheme \<Rightarrow> MemoryMonitorResultValues \<times> ('h, 'a) monitor_env_scheme" where
  "InternalMemoryMonitor_Release n w =
     (if n > currentConsumptionInBytes w then (MEMORY_MONITOR_INVALID_RELEASE_SIZE, w)
      else (MEMORY_MONITOR_OK, w\<lparr>currentConsumptionInBytes := currentConsumptionInBytes w - n\<rparr>))"

definition InternalMemoryMonitor_CurrentConsumption ::
  "('h, 'a) monitor_env_scheme \<Rightarrow> (MemoryMonitorResultValues \<times> u32 option) \<times> ('h, 'a) monitor_env_scheme" where
  "InternalMemoryMonitor_CurrentConsumption w = ((MEMORY_MONITOR_OK, Some (currentConsumptionInBytes w)), w)"

section \<open>The two front ends\<close>

definition MemoryMonitor_Init :: "('h, 'a) monitor_env_scheme \<Rightarrow> bool \<times> ('h, 'a) monitor_env_scheme" where
  "MemoryMonitor_Init w =
     (let (ok, w1) = sys_ext (InternalMemoryMonitor_Init w);
          w2 = w1\<lparr>memoryMonitorLock := ok\<rparr> in
      if \<not> ok then (False, InternalMemoryMonitor_Deinit w2) else (True, w2))"

text \<open>The lock is destroyed and the static keeps its handle.\<close>

definition MemoryMonitor_Deinit :: "('h, 'a) monitor_env_scheme \<Rightarrow> ('h, 'a) monitor_env_scheme" where
  "MemoryMonitor_Deinit w =
     (let w1 = InternalMemoryMonitor_Deinit w in if memoryMonitorLock w1 then snd (sys_ext w1) else w1)"

definition MemoryMonitor_Consume ::
  "u32 \<Rightarrow> ('h, 'a) monitor_env_scheme \<Rightarrow> MemoryMonitorResultValues \<times> ('h, 'a) monitor_env_scheme" where
  "MemoryMonitor_Consume n =
     locked MEMORY_MONITOR_EXCEPTION (\<lambda>_. MEMORY_MONITOR_EXCEPTION) (InternalMemoryMonitor_Consume n)"

definition MemoryMonitor_Release ::
  "u32 \<Rightarrow> ('h, 'a) monitor_env_scheme \<Rightarrow> MemoryMonitorResultValues \<times> ('h, 'a) monitor_env_scheme" where
  "MemoryMonitor_Release n =
     locked MEMORY_MONITOR_EXCEPTION (\<lambda>_. MEMORY_MONITOR_EXCEPTION) (InternalMemoryMonitor_Release n)"

definition MemoryMonitor_CurrentConsumption ::
  "('h, 'a) monitor_env_scheme \<Rightarrow> (MemoryMonitorResultValues \<times> u32 option) \<times> ('h, 'a) monitor_env_scheme" where
  "MemoryMonitor_CurrentConsumption =
     locked (MEMORY_MONITOR_EXCEPTION, None) (\<lambda>(_, n). (MEMORY_MONITOR_EXCEPTION, n))
       InternalMemoryMonitor_CurrentConsumption"

definition Plain_MemoryMonitor_Init :: "('h, 'a) monitor_env_scheme \<Rightarrow> bool \<times> ('h, 'a) monitor_env_scheme" where
  "Plain_MemoryMonitor_Init w = (True, InternalMemoryMonitor_Init w)"

definition Plain_MemoryMonitor_Deinit :: "('h, 'a) monitor_env_scheme \<Rightarrow> ('h, 'a) monitor_env_scheme" where
  "Plain_MemoryMonitor_Deinit w = InternalMemoryMonitor_Deinit w"

definition Plain_MemoryMonitor_Consume ::
  "u32 \<Rightarrow> ('h, 'a) monitor_env_scheme \<Rightarrow> MemoryMonitorResultValues \<times> ('h, 'a) monitor_env_scheme" where
  "Plain_MemoryMonitor_Consume n = InternalMemoryMonitor_Consume n"

definition Plain_MemoryMonitor_Release ::
  "u32 \<Rightarrow> ('h, 'a) monitor_env_scheme \<Rightarrow> MemoryMonitorResultValues \<times> ('h, 'a) monitor_env_scheme" where
  "Plain_MemoryMonitor_Release n = InternalMemoryMonitor_Release n"

definition Plain_MemoryMonitor_CurrentConsumption ::
  "('h, 'a) monitor_env_scheme \<Rightarrow> (MemoryMonitorResultValues \<times> u32 option) \<times> ('h, 'a) monitor_env_scheme" where
  "Plain_MemoryMonitor_CurrentConsumption = InternalMemoryMonitor_CurrentConsumption"

section \<open>The contract\<close>

text \<open>
  What a client of a byte budget may rely on, whatever the locks do.  \<open>level\<close> is the booked amount.
  A booking whose addition does not wrap raises the level by at most its size, by exactly its size
  when it is granted, and not at all when it is refused for lack of room; a release lowers the level by
  at most its size and never below zero.
\<close>

locale byte_budget =
  fixes consume :: "u32 \<Rightarrow> 's \<Rightarrow> MemoryMonitorResultValues \<times> 's"
    and release :: "u32 \<Rightarrow> 's \<Rightarrow> MemoryMonitorResultValues \<times> 's"
    and level :: "'s \<Rightarrow> nat"
  assumes consume_bounds: "level s + unat n < 4294967296 \<Longrightarrow>
      level s \<le> level (snd (consume n s)) \<and> level (snd (consume n s)) \<le> level s + unat n"
    and consume_granted: "level s + unat n < 4294967296 \<Longrightarrow>
      fst (consume n s) = MEMORY_MONITOR_OK \<Longrightarrow> level (snd (consume n s)) = level s + unat n"
    and consume_refused: "fst (consume n s) = MEMORY_MONITOR_MEMORY_EXCEEDED \<Longrightarrow>
      level (snd (consume n s)) = level s"
    and consume_results: "fst (consume n s) \<noteq> MEMORY_MONITOR_INVALID_RELEASE_SIZE"
    and release_bounds: "level (snd (release n s)) \<le> level s \<and> level s \<le> level (snd (release n s)) + unat n"
    and release_done: "fst (release n s) = MEMORY_MONITOR_OK \<Longrightarrow>
      unat n \<le> level s \<and> level (snd (release n s)) = level s - unat n"
    and release_covered: "unat n \<le> level s \<Longrightarrow>
      fst (release n s) \<noteq> MEMORY_MONITOR_INVALID_RELEASE_SIZE"
begin

text \<open>The budget covers what a client holds: the invariant a client keeps, whatever fails.\<close>

definition covers :: "'s \<Rightarrow> nat \<Rightarrow> bool" where
  "covers s held \<longleftrightarrow> held \<le> level s"

lemma covers_consume:
  assumes "covers s held" and "level s + unat n < 4294967296"
  shows "covers (snd (consume n s)) held"
    and "fst (consume n s) = MEMORY_MONITOR_OK \<Longrightarrow> covers (snd (consume n s)) (held + unat n)"
  using assms consume_bounds [of s n] consume_granted [of s n] by (auto simp: covers_def)

lemma covers_release:
  assumes "covers s (held + unat n)"
  shows "covers (snd (release n s)) held"
    and "fst (release n s) \<noteq> MEMORY_MONITOR_INVALID_RELEASE_SIZE"
  using assms release_bounds [of n s] release_covered [of n s] by (auto simp: covers_def)

lemma covers_mono: "covers s held \<Longrightarrow> held' \<le> held \<Longrightarrow> covers s held'"
  by (simp add: covers_def)

text \<open>A booking that is granted and given back at once leaves at most what was there.\<close>

lemma consume_release:
  assumes "level s + unat n < 4294967296" and "fst (consume n s) = MEMORY_MONITOR_OK"
  shows "level s \<le> level (snd (release n (snd (consume n s))))"
    and "fst (release n (snd (consume n s))) = MEMORY_MONITOR_OK \<Longrightarrow>
      level (snd (release n (snd (consume n s)))) = level s"
  using consume_granted [OF assms] release_bounds [of n "snd (consume n s)"]
    release_done [of n "snd (consume n s)"] by auto

end

section \<open>The monitors keep the contract\<close>

abbreviation booked_bytes :: "('h, 'a) monitor_env_scheme \<Rightarrow> nat" where
  "booked_bytes w \<equiv> unat (currentConsumptionInBytes w)"

lemma GetMaxLocalCacheSize_ticked: "ticked w (snd (TwinConfiguration_GetMaxLocalCacheSize w))"
  unfolding TwinConfiguration_GetMaxLocalCacheSize_def TwinConfiguration_GetFieldInteger_def get_field_def
  by (rule locked_rel [where R = ticked]) (auto intro: ticked_trans)

text \<open>What the monitor touches: its two words and the call counter.\<close>

definition metered :: "('h, 'a) monitor_env_scheme \<Rightarrow> ('h, 'a) monitor_env_scheme \<Rightarrow> bool" where
  "metered w w' \<longleftrightarrow> (\<exists>n c l. w' = w\<lparr>tick := n, currentConsumptionInBytes := c, memoryLimitInBytes := l\<rparr>)"

lemma metered_ticked: "ticked w w' \<Longrightarrow> metered w w'"
proof -
  assume "ticked w w'"
  then obtain n where "w' = w\<lparr>tick := n, currentConsumptionInBytes := currentConsumptionInBytes w,
      memoryLimitInBytes := memoryLimitInBytes w\<rparr>" by (auto simp: ticked_def)
  then show ?thesis unfolding metered_def by blast
qed

lemma metered_trans [trans]: "metered w w1 \<Longrightarrow> metered w1 w2 \<Longrightarrow> metered w w2"
  unfolding metered_def by (elim exE) (simp, blast)

lemma metered_words: "metered w (w\<lparr>currentConsumptionInBytes := c, memoryLimitInBytes := l\<rparr>)"
  "metered w (w\<lparr>currentConsumptionInBytes := c\<rparr>)" "metered w (w\<lparr>memoryLimitInBytes := l\<rparr>)"
proof -
  show *: "metered w (w\<lparr>currentConsumptionInBytes := c, memoryLimitInBytes := l\<rparr>)" for c l
    unfolding metered_def by (rule exI [of _ "tick w"], rule exI, rule exI) simp
  show "metered w (w\<lparr>currentConsumptionInBytes := c\<rparr>)"
    using * [where c = c and l = "memoryLimitInBytes w"] by simp
  show "metered w (w\<lparr>memoryLimitInBytes := l\<rparr>)"
    using * [where c = "currentConsumptionInBytes w" and l = l] by simp
qed

lemma metered_step:
  "metered w v \<Longrightarrow> metered w (v\<lparr>currentConsumptionInBytes := c\<rparr>)"
  "metered w v \<Longrightarrow> metered w (v\<lparr>memoryLimitInBytes := l\<rparr>)"
  by (auto intro: metered_trans metered_words)

lemma InternalConsume_metered: "metered w (snd (InternalMemoryMonitor_Consume n w))"
proof -
  obtain r l w1 where g: "TwinConfiguration_GetMaxLocalCacheSize w = ((r, l), w1)"
    by (metis prod.collapse)
  then have "metered w w1" using metered_ticked GetMaxLocalCacheSize_ticked by (metis snd_conv)
  with g show ?thesis
    by (auto simp: InternalMemoryMonitor_Consume_def Let_def split: option.splits
        intro: metered_step)
qed

lemma InternalRelease_metered: "metered w (snd (InternalMemoryMonitor_Release n w))"
  by (auto simp: InternalMemoryMonitor_Release_def intro: metered_words metered_ticked)

lemma Consume_metered: "metered w (snd (MemoryMonitor_Consume n w))"
  unfolding MemoryMonitor_Consume_def
  by (rule locked_rel [where R = metered]) (auto intro: metered_ticked metered_trans InternalConsume_metered)

lemma Release_metered: "metered w (snd (MemoryMonitor_Release n w))"
  unfolding MemoryMonitor_Release_def
  by (rule locked_rel [where R = metered]) (auto intro: metered_ticked metered_trans InternalRelease_metered)

lemma ticked_bytes: "ticked w w' \<Longrightarrow> currentConsumptionInBytes w' = currentConsumptionInBytes w"
  "ticked w w' \<Longrightarrow> twinConfiguration w' = twinConfiguration w"
  by (auto simp: ticked_def)

text \<open>The getter hands over the field it read, if it gets the lock, and succeeds only with it.\<close>

lemma GetMaxLocalCacheSize_value:
  obtains w1 where "TwinConfiguration_GetMaxLocalCacheSize w = ((TWIN_LOCK_EXCEPTION, None), w1)" "ticked w w1"
  | w1 where "TwinConfiguration_GetMaxLocalCacheSize w =
      ((TWIN_LOCK_EXCEPTION, Some (maxLocalCacheSize (twinConfiguration w))), w1)" "ticked w w1"
  | w1 where "TwinConfiguration_GetMaxLocalCacheSize w =
      ((TWIN_OK, Some (maxLocalCacheSize (twinConfiguration w))), w1)" "ticked w w1"
proof -
  obtain r w1 where g: "TwinConfiguration_GetMaxLocalCacheSize w = (r, w1)" by (metis prod.collapse)
  moreover have "ticked w w1" using g GetMaxLocalCacheSize_ticked by (metis snd_conv)
  ultimately show thesis using that
    by (auto simp: TwinConfiguration_GetMaxLocalCacheSize_def TwinConfiguration_GetFieldInteger_def
        get_field_def elim!: locked_cases)
qed

lemma InternalConsume_facts:
  "currentConsumptionInBytes (snd (InternalMemoryMonitor_Consume n w)) =
     (if fst (InternalMemoryMonitor_Consume n w) = MEMORY_MONITOR_OK
      then currentConsumptionInBytes w + n else currentConsumptionInBytes w)
   \<and> (fst (InternalMemoryMonitor_Consume n w) = MEMORY_MONITOR_EXCEPTION
    \<or> fst (InternalMemoryMonitor_Consume n w) =
      (if maxLocalCacheSize (twinConfiguration w) < currentConsumptionInBytes w + n
       then MEMORY_MONITOR_MEMORY_EXCEEDED else MEMORY_MONITOR_OK))"
  by (cases rule: GetMaxLocalCacheSize_value [of w])
     (simp_all add: InternalMemoryMonitor_Consume_def ticked_bytes Let_def)

lemmas InternalConsume_bytes = InternalConsume_facts [THEN conjunct1]

lemma InternalConsume_result:
  "fst (InternalMemoryMonitor_Consume n w) \<noteq> MEMORY_MONITOR_INVALID_RELEASE_SIZE"
  "fst (InternalMemoryMonitor_Consume n w) = MEMORY_MONITOR_OK \<Longrightarrow>
     currentConsumptionInBytes w + n \<le> maxLocalCacheSize (twinConfiguration w)"
  "fst (InternalMemoryMonitor_Consume n w) = MEMORY_MONITOR_MEMORY_EXCEEDED \<Longrightarrow>
     maxLocalCacheSize (twinConfiguration w) < currentConsumptionInBytes w + n"
  using InternalConsume_facts [of n w, THEN conjunct2] by (auto split: if_splits)

lemma InternalRelease_bytes:
  "currentConsumptionInBytes (snd (InternalMemoryMonitor_Release n w)) =
     (if n \<le> currentConsumptionInBytes w then currentConsumptionInBytes w - n else currentConsumptionInBytes w)"
  "fst (InternalMemoryMonitor_Release n w) =
     (if n \<le> currentConsumptionInBytes w then MEMORY_MONITOR_OK else MEMORY_MONITOR_INVALID_RELEASE_SIZE)"
  by (auto simp: InternalMemoryMonitor_Release_def)

interpretation plain_budget:
  byte_budget Plain_MemoryMonitor_Consume Plain_MemoryMonitor_Release booked_bytes
  by unfold_locales
     (auto simp: Plain_MemoryMonitor_Consume_def Plain_MemoryMonitor_Release_def InternalConsume_bytes
       InternalRelease_bytes InternalConsume_result unat_simps word_le_nat_alt split: if_splits)

text \<open>Behind the lock: nothing happened, or what the internal monitor did, reported or not.\<close>

lemma locked_split:
  assumes "P e w" "\<And>w1. ticked w w1 \<Longrightarrow> P e w1"
    and "\<And>w1 w2. ticked w w1 \<Longrightarrow> ticked (snd (body w1)) w2 \<Longrightarrow> P (fst (body w1)) w2"
    and "\<And>w1 w2. ticked w w1 \<Longrightarrow> ticked (snd (body w1)) w2 \<Longrightarrow> P (f (fst (body w1))) w2"
  shows "P (fst (locked e f body w)) (snd (locked e f body w))"
  using assms by (auto simp: locked_def Let_def split_beta)

interpretation sync_budget:
  byte_budget MemoryMonitor_Consume MemoryMonitor_Release booked_bytes
proof unfold_locales
  fix n :: u32 and s :: "('a, 'b) monitor_env_scheme"
  let ?c = "MemoryMonitor_Consume n s" and ?r = "MemoryMonitor_Release n s"
  have "(let k = booked_bytes (snd ?c) in
      (booked_bytes s + unat n < 4294967296 \<longrightarrow> booked_bytes s \<le> k \<and> k \<le> booked_bytes s + unat n
         \<and> (fst ?c = MEMORY_MONITOR_OK \<longrightarrow> k = booked_bytes s + unat n))
      \<and> (fst ?c = MEMORY_MONITOR_MEMORY_EXCEEDED \<longrightarrow> k = booked_bytes s)
      \<and> fst ?c \<noteq> MEMORY_MONITOR_INVALID_RELEASE_SIZE)"
    unfolding MemoryMonitor_Consume_def
    by (rule locked_split [where P = "\<lambda>r w'. let k = booked_bytes w' in
          (booked_bytes s + unat n < 4294967296 \<longrightarrow> booked_bytes s \<le> k \<and> k \<le> booked_bytes s + unat n
             \<and> (r = MEMORY_MONITOR_OK \<longrightarrow> k = booked_bytes s + unat n))
          \<and> (r = MEMORY_MONITOR_MEMORY_EXCEEDED \<longrightarrow> k = booked_bytes s)
          \<and> r \<noteq> MEMORY_MONITOR_INVALID_RELEASE_SIZE"])
       (auto simp: InternalConsume_bytes InternalConsume_result ticked_bytes unat_simps Let_def)
  then show
    "booked_bytes s + unat n < 4294967296 \<Longrightarrow>
      booked_bytes s \<le> booked_bytes (snd ?c) \<and> booked_bytes (snd ?c) \<le> booked_bytes s + unat n"
    "booked_bytes s + unat n < 4294967296 \<Longrightarrow> fst ?c = MEMORY_MONITOR_OK \<Longrightarrow>
      booked_bytes (snd ?c) = booked_bytes s + unat n"
    "fst ?c = MEMORY_MONITOR_MEMORY_EXCEEDED \<Longrightarrow> booked_bytes (snd ?c) = booked_bytes s"
    "fst ?c \<noteq> MEMORY_MONITOR_INVALID_RELEASE_SIZE"
    by (simp_all add: Let_def)
  have "(let k = booked_bytes (snd ?r) in
      k \<le> booked_bytes s \<and> booked_bytes s \<le> k + unat n
      \<and> (fst ?r = MEMORY_MONITOR_OK \<longrightarrow> unat n \<le> booked_bytes s \<and> k = booked_bytes s - unat n)
      \<and> (unat n \<le> booked_bytes s \<longrightarrow> fst ?r \<noteq> MEMORY_MONITOR_INVALID_RELEASE_SIZE))"
    unfolding MemoryMonitor_Release_def
    by (rule locked_split [where P = "\<lambda>r w'. let k = booked_bytes w' in
          k \<le> booked_bytes s \<and> booked_bytes s \<le> k + unat n
          \<and> (r = MEMORY_MONITOR_OK \<longrightarrow> unat n \<le> booked_bytes s \<and> k = booked_bytes s - unat n)
          \<and> (unat n \<le> booked_bytes s \<longrightarrow> r \<noteq> MEMORY_MONITOR_INVALID_RELEASE_SIZE)"])
       (auto simp: InternalRelease_bytes ticked_bytes unat_simps word_le_nat_alt Let_def)
  then show
    "booked_bytes (snd ?r) \<le> booked_bytes s \<and> booked_bytes s \<le> booked_bytes (snd ?r) + unat n"
    "fst ?r = MEMORY_MONITOR_OK \<Longrightarrow> unat n \<le> booked_bytes s \<and> booked_bytes (snd ?r) = booked_bytes s - unat n"
    "unat n \<le> booked_bytes s \<Longrightarrow> fst ?r \<noteq> MEMORY_MONITOR_INVALID_RELEASE_SIZE"
    by (simp_all add: Let_def)
qed

section \<open>Properties\<close>

definition calm_monitor_with :: "'h \<Rightarrow> 'h monitor_env" where
  "calm_monitor_with h = counter_env.extend (calm_counters_with h)
     \<lparr>currentConsumptionInBytes = 0, memoryLimitInBytes = DEFAULT_MAX_LOCAL_CACHE_SIZE, memoryMonitorLock = True\<rparr>"

abbreviation calm_monitor :: "unit monitor_env" where
  "calm_monitor \<equiv> calm_monitor_with ()"

lemma calm_monitor_fields [simp]:
  "lockOk (calm_monitor_with h) n" "allocOk (calm_monitor_with h) n" "docs (calm_monitor_with h) = h"
  "twinConfiguration (calm_monitor_with h) = calm_configuration"
  "currentConsumptionInBytes (calm_monitor_with h) = 0"
  by (simp_all add: calm_monitor_with_def calm_counters_with_def twin_env.defs counter_env.defs monitor_env.defs)

lemma GetMaxLocalCacheSize_success:
  "locks_work w \<Longrightarrow> TwinConfiguration_GetMaxLocalCacheSize w =
     ((TWIN_OK, Some (maxLocalCacheSize (twinConfiguration w))), next_tick (next_tick w))"
  unfolding TwinConfiguration_GetMaxLocalCacheSize_def TwinConfiguration_GetFieldInteger_def get_field_def
  by (subst locked_success) (auto simp: locks_work_def ticked_def)

lemma locks_work_ticked: "ticked w w' \<Longrightarrow> locks_work w' = locks_work w"
  by (auto simp: locks_work_def ticked_def)

lemma locks_work_metered: "metered w w' \<Longrightarrow> locks_work w' = locks_work w"
  by (auto simp: locks_work_def metered_def)

lemma locks_work_next [simp]: "locks_work (next_tick w) = locks_work w"
  by (rule locks_work_ticked) simp

lemma next_tick_fields [simp]:
  "currentConsumptionInBytes (next_tick w) = currentConsumptionInBytes w"
  "twinConfiguration (next_tick u) = twinConfiguration u"
  by (simp_all add: next_tick_def)

lemma Consume_success:
  assumes "locks_work w"
  shows "fst (MemoryMonitor_Consume n w) =
      (if currentConsumptionInBytes w + n \<le> maxLocalCacheSize (twinConfiguration w)
       then MEMORY_MONITOR_OK else MEMORY_MONITOR_MEMORY_EXCEEDED)"
    and "currentConsumptionInBytes (snd (MemoryMonitor_Consume n w)) =
      (if currentConsumptionInBytes w + n \<le> maxLocalCacheSize (twinConfiguration w)
       then currentConsumptionInBytes w + n else currentConsumptionInBytes w)"
proof -
  have internal: "fst (InternalMemoryMonitor_Consume n (next_tick w)) =
      (if currentConsumptionInBytes w + n \<le> maxLocalCacheSize (twinConfiguration w)
       then MEMORY_MONITOR_OK else MEMORY_MONITOR_MEMORY_EXCEEDED)"
    using assms by (auto simp: InternalMemoryMonitor_Consume_def GetMaxLocalCacheSize_success Let_def)
  moreover have "MemoryMonitor_Consume n w =
      (fst (InternalMemoryMonitor_Consume n (next_tick w)),
       next_tick (snd (InternalMemoryMonitor_Consume n (next_tick w))))"
    unfolding MemoryMonitor_Consume_def
    by (rule locked_success)
       (use assms locks_work_ticked locks_work_metered [OF InternalConsume_metered] in blast)+
  ultimately show "fst (MemoryMonitor_Consume n w) =
      (if currentConsumptionInBytes w + n \<le> maxLocalCacheSize (twinConfiguration w)
       then MEMORY_MONITOR_OK else MEMORY_MONITOR_MEMORY_EXCEEDED)"
    "currentConsumptionInBytes (snd (MemoryMonitor_Consume n w)) =
      (if currentConsumptionInBytes w + n \<le> maxLocalCacheSize (twinConfiguration w)
       then currentConsumptionInBytes w + n else currentConsumptionInBytes w)"
    by (simp_all add: InternalConsume_bytes)
qed

lemma Release_success:
  assumes "locks_work w"
  shows "fst (MemoryMonitor_Release n w) =
      (if n \<le> currentConsumptionInBytes w then MEMORY_MONITOR_OK else MEMORY_MONITOR_INVALID_RELEASE_SIZE)"
    and "currentConsumptionInBytes (snd (MemoryMonitor_Release n w)) =
      (if n \<le> currentConsumptionInBytes w then currentConsumptionInBytes w - n else currentConsumptionInBytes w)"
proof -
  have "MemoryMonitor_Release n w =
      (fst (InternalMemoryMonitor_Release n (next_tick w)),
       next_tick (snd (InternalMemoryMonitor_Release n (next_tick w))))"
    unfolding MemoryMonitor_Release_def
    by (rule locked_success)
       (use assms locks_work_ticked locks_work_metered [OF InternalRelease_metered] in blast)+
  then show "fst (MemoryMonitor_Release n w) =
      (if n \<le> currentConsumptionInBytes w then MEMORY_MONITOR_OK else MEMORY_MONITOR_INVALID_RELEASE_SIZE)"
    "currentConsumptionInBytes (snd (MemoryMonitor_Release n w)) =
      (if n \<le> currentConsumptionInBytes w then currentConsumptionInBytes w - n else currentConsumptionInBytes w)"
    by (simp_all add: InternalRelease_bytes)
qed

text \<open>
  C33: the agent's budget is exact.  When no lock call fails and the sum fits 32 bits, a booking is
  granted if and only if the consumption after it stays within the twin's \<open>maxLocalCacheSize\<close>; a
  granted booking raises the consumption by its size, a refused one changes nothing, and releasing a
  granted booking brings back the consumption before it.
\<close>

theorem memory_budget_exact:
  assumes "locks_work w" and "booked_bytes w + unat n < 4294967296"
  shows "case MemoryMonitor_Consume n w of (r, w1) \<Rightarrow>
    if booked_bytes w + unat n \<le> unat (maxLocalCacheSize (twinConfiguration w))
    then r = MEMORY_MONITOR_OK \<and> booked_bytes w1 = booked_bytes w + unat n
       \<and> fst (MemoryMonitor_Release n w1) = MEMORY_MONITOR_OK
       \<and> booked_bytes (snd (MemoryMonitor_Release n w1)) = booked_bytes w
    else r = MEMORY_MONITOR_MEMORY_EXCEEDED \<and> booked_bytes w1 = booked_bytes w"
proof -
  have "locks_work (snd (MemoryMonitor_Consume n w))"
    using assms(1) locks_work_metered [OF Consume_metered] by blast
  from Release_success [OF this, of n] Consume_success [OF assms(1), of n] assms(2)
  show ?thesis
    by (cases "MemoryMonitor_Consume n w")
       (simp add: word_le_nat_alt unat_simps split: if_splits)
qed

lemma memory_budget_exact_witness:
  "fst (MemoryMonitor_Consume 4096 calm_monitor) = MEMORY_MONITOR_OK
   \<and> booked_bytes (snd (MemoryMonitor_Consume 4096 calm_monitor)) = 4096"
  using memory_budget_exact [of calm_monitor 4096]
  by (simp add: locks_work_def calm_configuration_def default_defs split_beta)

text \<open>
  where the sum does not fit 32 bits the check is void.  The comparison is made on the wrapped
  sum, so a booking that is too large by a whole turn is granted and leaves the consumption lower than
  it was.
\<close>

theorem memory_budget_wraps:
  assumes "locks_work w" and "4294967296 \<le> booked_bytes w + unat n"
    and "booked_bytes w + unat n - 4294967296 \<le> unat (maxLocalCacheSize (twinConfiguration w))"
  shows "fst (MemoryMonitor_Consume n w) = MEMORY_MONITOR_OK
    \<and> booked_bytes (snd (MemoryMonitor_Consume n w)) < booked_bytes w"
proof -
  have "unat (currentConsumptionInBytes w + n) = booked_bytes w + unat n - 4294967296"
    using assms(2) u32_less [of "currentConsumptionInBytes w"] u32_less [of n]
    by (simp add: unat_word_ariths mod_if)
  with assms(3) Consume_success [OF assms(1), of n] u32_less [of n] assms(2) show ?thesis
    by (simp add: word_le_nat_alt)
qed

lemma memory_budget_wraps_witness:
  "fst (MemoryMonitor_Consume 4294967295 (calm_monitor\<lparr>currentConsumptionInBytes := 10485760\<rparr>)) = MEMORY_MONITOR_OK"
  using memory_budget_wraps [of "calm_monitor\<lparr>currentConsumptionInBytes := 10485760\<rparr>" 4294967295]
  by (simp add: locks_work_def calm_configuration_def default_defs)

end
