(* ===== verification/Fifo_Contract.thy ===== *)
theory Fifo_Contract
  imports Main "HOL-Library.Sublist"
begin

text \<open>
  The contract of the agent's queues, as the locales their clients are verified against.
  \<open>lossy_fifo\<close> is what holds whatever the locks do: order is kept, nothing is invented or duplicated,
  and a success is really one; a failed call may still have had its effect.  \<open>fifo\<close> adds that a failed
  call had none, and when a pop succeeds.
\<close>

datatype 'x fifo_op = Push 'x | Pop "'x \<Rightarrow> bool"

text \<open>
  \<open>cost x\<close> is what an element takes of the \<open>room\<close> the queue has before the bookkeeping could
  overflow; \<open>rest\<close> is what else the state holds and the operations must leave alone.
\<close>

locale lossy_fifo =
  fixes inv :: "'s \<Rightarrow> bool" and items :: "'s \<Rightarrow> 'x list" and rest :: "'s \<Rightarrow> 'z"
    and room :: "'s \<Rightarrow> nat" and cost :: "'x \<Rightarrow> nat"
    and push :: "'x \<Rightarrow> 's \<Rightarrow> 'r \<times> 's" and pop :: "('x \<Rightarrow> bool) \<Rightarrow> 's \<Rightarrow> ('r \<times> 'x option) \<times> 's"
    and success :: "'r \<Rightarrow> bool"
  assumes push_inv: "inv s \<Longrightarrow> cost x < room s \<Longrightarrow> inv (snd (push x s))"
    and push_room: "inv s \<Longrightarrow> cost x < room s \<Longrightarrow> room s \<le> room (snd (push x s)) + cost x"
    and push_items: "inv s \<Longrightarrow> cost x < room s \<Longrightarrow>
      items (snd (push x s)) = items s \<or> items (snd (push x s)) = items s @ [x]"
    and push_success: "inv s \<Longrightarrow> cost x < room s \<Longrightarrow> success (fst (push x s)) \<Longrightarrow>
      items (snd (push x s)) = items s @ [x]"
    and push_rest: "inv s \<Longrightarrow> cost x < room s \<Longrightarrow> rest (snd (push x s)) = rest s"
    and pop_inv: "inv s \<Longrightarrow> inv (snd (pop c s))"
    and pop_rest: "inv s \<Longrightarrow> rest (snd (pop c s)) = rest s"
    and pop_room: "inv s \<Longrightarrow> room s \<le> room (snd (pop c s))"
    and pop_items: "inv s \<Longrightarrow> items (snd (pop c s)) = items s \<or> items (snd (pop c s)) = tl (items s)"
    and pop_success: "inv s \<Longrightarrow> success (fst (fst (pop c s))) \<Longrightarrow>
      \<exists>x xs. items s = x # xs \<and> c x \<and> snd (fst (pop c s)) = Some x \<and> items (snd (pop c s)) = xs"

text \<open>The elements offered to a queue, and what they cost.\<close>

fun offered :: "'x fifo_op list \<Rightarrow> 'x list" where
  "offered [] = []"
| "offered (Push x # ops) = x # offered ops"
| "offered (Pop c # ops) = offered ops"

text \<open>A run with the elements whose push succeeded and those whose pop did, in order.\<close>

fun run_fifo ::
  "('x \<Rightarrow> 's \<Rightarrow> 'r \<times> 's) \<Rightarrow> (('x \<Rightarrow> bool) \<Rightarrow> 's \<Rightarrow> ('r \<times> 'x option) \<times> 's) \<Rightarrow> ('r \<Rightarrow> bool) \<Rightarrow>
    'x fifo_op list \<Rightarrow> 's \<Rightarrow> ('x list \<times> 'x list) \<times> 's" where
  "run_fifo push pop success [] s = (([], []), s)"
| "run_fifo push pop success (Push x # ops) s =
     (let (r, s1) = push x s; ((accepted, popped), s2) = run_fifo push pop success ops s1
      in ((if success r then x # accepted else accepted, popped), s2))"
| "run_fifo push pop success (Pop c # ops) s =
     (let ((r, out), s1) = pop c s; ((accepted, popped), s2) = run_fifo push pop success ops s1
      in ((accepted, if success r then (case out of None \<Rightarrow> popped | Some x \<Rightarrow> x # popped) else popped), s2))"

context lossy_fifo begin

abbreviation run :: "'x fifo_op list \<Rightarrow> 's \<Rightarrow> ('x list \<times> 'x list) \<times> 's" where
  "run \<equiv> run_fifo push pop success"

lemma run_lossy:
  assumes "inv s" and "sum_list (map cost (offered ops)) < room s"
  shows "inv (snd (run ops s)) \<and> rest (snd (run ops s)) = rest s
    \<and> subseq (snd (fst (run ops s)) @ items (snd (run ops s))) (items s @ offered ops)"
  using assms
proof (induction ops arbitrary: s)
  case Nil
  then show ?case by simp
next
  case (Cons op ops)
  show ?case
  proof (cases op)
    case (Push x)
    obtain r s1 where p: "push x s = (r, s1)" by fastforce
    obtain a q s2 where t: "run ops s1 = ((a, q), s2)" by (metis prod.collapse)
    have c: "cost x < room s" using Cons.prems Push by simp
    note laws = push_inv [OF Cons.prems(1) c] push_room [OF Cons.prems(1) c] push_items [OF Cons.prems(1) c]
      push_rest [OF Cons.prems(1) c]
    have IH: "inv s2" "rest s2 = rest s" "subseq (q @ items s2) (items s1 @ offered ops)"
      using Cons.IH [of s1] laws Cons.prems(2) by (simp_all add: p t Push)
    have "subseq (items s1 @ offered ops) (items s @ x # offered ops)"
      using laws(3) by (auto simp: p intro: list_emb_append_mono)
    with IH show ?thesis by (auto simp: Push p t intro: subseq_order.trans)
  next
    case (Pop c)
    obtain r out s1 where p: "pop c s = ((r, out), s1)" by (metis prod.collapse)
    obtain a q s2 where t: "run ops s1 = ((a, q), s2)" by (metis prod.collapse)
    have IH: "inv s2" "rest s2 = rest s" "subseq (q @ items s2) (items s1 @ offered ops)"
      using Cons.IH [of s1] pop_inv [OF Cons.prems(1), of c] pop_room [OF Cons.prems(1), of c] Cons.prems(2)
        pop_rest [OF Cons.prems(1), of c]
      by (simp_all add: p t Pop)
    show ?thesis
    proof (cases "success r")
      case True
      with pop_success [OF Cons.prems(1), of c] obtain x xs where "items s = x # xs" "out = Some x" "items s1 = xs"
        by (auto simp: p)
      with IH True show ?thesis by (simp add: Pop p t)
    next
      case False
      have "subseq (items s1 @ offered ops) (items s @ offered ops)"
        using pop_items [OF Cons.prems(1), of c] by (cases "items s") (auto simp: p)
      with IH False show ?thesis by (auto simp: Pop p t intro: subseq_order.trans)
    qed
  qed
qed

end

locale fifo = lossy_fifo +
  assumes push_failure: "inv s \<Longrightarrow> cost x < room s \<Longrightarrow> \<not> success (fst (push x s)) \<Longrightarrow>
      items (snd (push x s)) = items s"
    and pop_exact: "inv s \<Longrightarrow> success (fst (fst (pop c s))) \<longleftrightarrow> items s \<noteq> [] \<and> c (hd (items s))"
    and pop_failure: "inv s \<Longrightarrow> \<not> success (fst (fst (pop c s))) \<Longrightarrow> items (snd (pop c s)) = items s"
begin

text \<open>Accepted elements are popped in the order of their pushes; the rest is still there.\<close>

lemma run_exact:
  assumes "inv s" and "sum_list (map cost (offered ops)) < room s"
  shows "inv (snd (run ops s))
    \<and> snd (fst (run ops s)) @ items (snd (run ops s)) = items s @ fst (fst (run ops s))"
  using assms
proof (induction ops arbitrary: s)
  case Nil
  then show ?case by simp
next
  case (Cons op ops)
  show ?case
  proof (cases op)
    case (Push x)
    obtain r s1 where p: "push x s = (r, s1)" by fastforce
    obtain a q s2 where t: "run ops s1 = ((a, q), s2)" by (metis prod.collapse)
    have c: "cost x < room s" using Cons.prems Push by simp
    note laws = push_inv [OF Cons.prems(1) c] push_room [OF Cons.prems(1) c]
      push_success [OF Cons.prems(1) c] push_failure [OF Cons.prems(1) c]
    have "inv s2" "q @ items s2 = items s1 @ a"
      using Cons.IH [of s1] laws Cons.prems(2) by (simp_all add: p t Push)
    with laws(3,4) show ?thesis by (auto simp: Push p t)
  next
    case (Pop c)
    obtain r out s1 where p: "pop c s = ((r, out), s1)" by (metis prod.collapse)
    obtain a q s2 where t: "run ops s1 = ((a, q), s2)" by (metis prod.collapse)
    have "inv s2" "q @ items s2 = items s1 @ a"
      using Cons.IH [of s1] pop_inv [OF Cons.prems(1), of c] pop_room [OF Cons.prems(1), of c] Cons.prems(2)
      by (simp_all add: p t Pop)
    then show ?thesis
      using pop_success [OF Cons.prems(1), of c] pop_failure [OF Cons.prems(1), of c]
      by (auto simp: Pop p t)
  qed
qed

end

end
