(* ===== verification/Queue.thy ===== *)
theory Queue
  imports Memory_Monitor Fifo_Contract
begin

text \<open>
  The agent's queue, \<^verbatim>\<open>src/agent/src/queue.c\<close>: a doubly linked list of items on the heap, every item
  booked with the memory monitor, every push and every drop counted.  The heap of items is the field
  \<open>queueItems\<close>; an address without an item is free, and reading or writing through it, or through
  NULL, raises \<open>fault\<close>.  The allocator hands out \<open>nextItemAddress\<close> and never reuses an address, so
  that a dangling pointer stays dangling.
\<close>

text \<open>
  What the \<open>void*\<close> of an item leads to: the text of an event, or a device twin update or a diagnostic
  event, by its address; a twin update's pointer may also be NULL.
\<close>

datatype queue_data = EVENT string | TWIN_ITEM nat | DIAGNOSTIC_ITEM nat | NULL_POINTER

datatype QueueResultValues =
  QUEUE_OK | QUEUE_CONDITION_FAILED | QUEUE_MAX_MEMORY_EXCEEDED | QUEUE_IS_EMPTY | QUEUE_MEMORY_EXCEPTION

record QueueItem =
  itemData :: queue_data
  itemDataSize :: u32
  nextItem :: "nat option"
  prevItem :: "nat option"

text \<open>\<open>counter\<close> is the address of the counter inside the queue.\<close>

record Queue =
  firstItem :: "nat option"
  lastItem :: "nat option"
  numberOfElements :: u32
  shouldSendLogs :: bool
  counter :: nat

record 'h queue_env = "'h monitor_env" +
  queueItems :: "nat \<Rightarrow> QueueItem option"
  nextItemAddress :: nat

section \<open>Operations\<close>

text \<open>On the agent's platforms a \<open>QueueItem\<close> takes 32 bytes and a pointer 8.\<close>

definition sizeof_QueueItem :: u32 where "sizeof_QueueItem = 32"
definition sizeof_pointer :: u32 where "sizeof_pointer = 8"

definition Queue_CalculateItemSize :: "u32 \<Rightarrow> u32" where
  "Queue_CalculateItemSize dataSize = dataSize + sizeof_QueueItem + sizeof_pointer"

text \<open>The item a pointer leads to, and a write through a pointer.\<close>

definition item_at :: "nat option \<Rightarrow> ('h, 'a) queue_env_scheme \<Rightarrow> QueueItem option" where
  "item_at p w = (case p of None \<Rightarrow> None | Some a \<Rightarrow> queueItems w a)"

definition write_item ::
  "nat option \<Rightarrow> (QueueItem \<Rightarrow> QueueItem) \<Rightarrow> ('h, 'a) queue_env_scheme \<Rightarrow> ('h, 'a) queue_env_scheme" where
  "write_item p f w =
     (case p of
        None \<Rightarrow> w\<lparr>fault := True\<rparr>
      | Some a \<Rightarrow>
          (case queueItems w a of
             None \<Rightarrow> w\<lparr>fault := True\<rparr>
           | Some i \<Rightarrow> w\<lparr>queueItems := (queueItems w)(a \<mapsto> f i)\<rparr>))"

definition free_item :: "nat option \<Rightarrow> ('h, 'a) queue_env_scheme \<Rightarrow> ('h, 'a) queue_env_scheme" where
  "free_item p w =
     (case p of
        None \<Rightarrow> w
      | Some a \<Rightarrow> (if queueItems w a = None then w\<lparr>fault := True\<rparr>
                  else w\<lparr>queueItems := (queueItems w)(a := None)\<rparr>))"

definition Queue_Init ::
  "nat \<Rightarrow> bool \<Rightarrow> ('h, 'a) queue_env_scheme \<Rightarrow> (QueueResultValues \<times> Queue) \<times> ('h, 'a) queue_env_scheme" where
  "Queue_Init counterAddress sendLogs w =
     (let (ok, w1) = AgentTelemetryCounter_Init counterAddress w in
      ((if ok then QUEUE_OK else QUEUE_MEMORY_EXCEPTION,
        \<lparr>firstItem = None, lastItem = None, numberOfElements = 0, shouldSendLogs = sendLogs,
         counter = counterAddress\<rparr>), w1))"

text \<open>
  \<open>result\<close> is an \<open>int\<close> that first holds the monitor's code.  The code of
  \<open>MEMORY_MONITOR_INVALID_RELEASE_SIZE\<close>, which the monitor does not return here, would be read as
  \<open>QUEUE_MAX_MEMORY_EXCEEDED\<close>.
\<close>

definition consume_result :: "MemoryMonitorResultValues \<Rightarrow> QueueResultValues" where
  "consume_result r =
     (case r of
        MEMORY_MONITOR_OK \<Rightarrow> QUEUE_OK
      | MEMORY_MONITOR_MEMORY_EXCEEDED \<Rightarrow> QUEUE_MAX_MEMORY_EXCEEDED
      | MEMORY_MONITOR_INVALID_RELEASE_SIZE \<Rightarrow> QUEUE_MAX_MEMORY_EXCEEDED
      | MEMORY_MONITOR_EXCEPTION \<Rightarrow> QUEUE_MEMORY_EXCEPTION)"

text \<open>Linking the new item at the end of the list.\<close>

definition link_item ::
  "Queue \<Rightarrow> queue_data \<Rightarrow> u32 \<Rightarrow> ('h, 'a) queue_env_scheme \<Rightarrow> Queue \<times> ('h, 'a) queue_env_scheme" where
  "link_item queue d dataSize w =
     (let a = nextItemAddress w;
          newItem = \<lparr>itemData = d, itemDataSize = dataSize, nextItem = None, prevItem = None\<rparr>;
          w1 = w\<lparr>nextItemAddress := Suc a, queueItems := (queueItems w)(a \<mapsto> newItem)\<rparr>;
          (q2, w2) =
            (if firstItem queue = None
             then (queue\<lparr>firstItem := Some a, lastItem := Some a\<rparr>, w1)
             else
               let w' = write_item (lastItem queue) (\<lambda>i. i\<lparr>nextItem := Some a\<rparr>) w1;
                   w'' = write_item (Some a) (\<lambda>i. i\<lparr>prevItem := lastItem queue\<rparr>) w'
               in (queue\<lparr>lastItem := Some a\<rparr>, w''))
      in (q2\<lparr>numberOfElements := numberOfElements q2 + 1\<rparr>, w2))"

definition Queue_PushBack ::
  "Queue \<Rightarrow> queue_data \<Rightarrow> u32 \<Rightarrow> ('h, 'a) queue_env_scheme \<Rightarrow>
    (QueueResultValues \<times> Queue) \<times> ('h, 'a) queue_env_scheme" where
  "Queue_PushBack queue d dataSize w =
     (let (r, w1) = MemoryMonitor_Consume (Queue_CalculateItemSize dataSize) w;
          (result, queue', w2) =
            (if r \<noteq> MEMORY_MONITOR_OK
             then (consume_result r, queue,
                   if r = MEMORY_MONITOR_MEMORY_EXCEEDED
                   then snd (AgentTelemetryCounter_IncreaseBy (counter queue) Dropped 1 w1) else w1)
             else
               let (ok, w') = sys_malloc w1 in
               if \<not> ok
               then (QUEUE_MEMORY_EXCEPTION, queue,
                     snd (MemoryMonitor_Release (Queue_CalculateItemSize dataSize) w'))
               else let (q', w'') = link_item queue d dataSize w' in (QUEUE_OK, q', w''))
      in ((result, queue'), snd (AgentTelemetryCounter_IncreaseBy (counter queue') Collected 1 w2)))"

text \<open>
  Popping unlinks the first item, gives its bytes back and frees it; the data go to the caller.  When
  the first item cannot be read, the program has no further behaviour; the model drops the element.
\<close>

definition unlink_first :: "Queue \<Rightarrow> QueueItem \<Rightarrow> ('h, 'a) queue_env_scheme \<Rightarrow> Queue \<times> ('h, 'a) queue_env_scheme" where
  "unlink_first queue item w =
     (if nextItem item = None then (queue\<lparr>firstItem := None, lastItem := None\<rparr>, w)
      else (queue\<lparr>firstItem := nextItem item\<rparr>, write_item (nextItem item) (\<lambda>i. i\<lparr>prevItem := None\<rparr>) w))"

definition Queue_PopFront ::
  "Queue \<Rightarrow> ('h, 'a) queue_env_scheme \<Rightarrow>
    (QueueResultValues \<times> (queue_data \<times> u32) option \<times> Queue) \<times> ('h, 'a) queue_env_scheme" where
  "Queue_PopFront queue w =
     (if numberOfElements queue = 0 then ((QUEUE_IS_EMPTY, None, queue), w)
      else case item_at (firstItem queue) w of
        None \<Rightarrow> ((QUEUE_OK, None, queue\<lparr>numberOfElements := numberOfElements queue - 1\<rparr>), w\<lparr>fault := True\<rparr>)
      | Some item \<Rightarrow>
          (let (q1, w1) = unlink_first queue item w;
               q2 = q1\<lparr>numberOfElements := numberOfElements q1 - 1\<rparr>;
               (_, w2) = MemoryMonitor_Release (Queue_CalculateItemSize (itemDataSize item)) w1;
               w3 = free_item (firstItem queue) w2
           in ((QUEUE_OK, Some (itemData item, itemDataSize item), q2), w3)))"

text \<open>The condition is the function pointer applied to its extra parameters.\<close>

definition Queue_PopFrontIf ::
  "Queue \<Rightarrow> (queue_data \<Rightarrow> u32 \<Rightarrow> bool) \<Rightarrow> ('h, 'a) queue_env_scheme \<Rightarrow>
    (QueueResultValues \<times> (queue_data \<times> u32) option \<times> Queue) \<times> ('h, 'a) queue_env_scheme" where
  "Queue_PopFrontIf queue condition w =
     (if numberOfElements queue = 0 then ((QUEUE_IS_EMPTY, None, queue), w)
      else case item_at (firstItem queue) w of
        None \<Rightarrow> ((QUEUE_CONDITION_FAILED, None, queue), w\<lparr>fault := True\<rparr>)
      | Some item \<Rightarrow>
          if \<not> condition (itemData item) (itemDataSize item) then ((QUEUE_CONDITION_FAILED, None, queue), w)
          else Queue_PopFront queue w)"

definition Queue_GetSize :: "Queue \<Rightarrow> QueueResultValues \<times> u32" where
  "Queue_GetSize queue = (QUEUE_OK, numberOfElements queue)"

lemma PopFront_number:
  "numberOfElements (snd (snd (fst (Queue_PopFront queue w)))) =
     (if numberOfElements queue = 0 then 0 else numberOfElements queue - 1)"
  by (auto simp: Queue_PopFront_def Let_def unlink_first_def split_beta split: option.split)

lemma PopFront_less:
  assumes "((r, out, q1), w1) = Queue_PopFront queue w" and "numberOfElements queue \<noteq> 0"
  shows "unat (numberOfElements q1) < unat (numberOfElements queue)"
proof -
  have "numberOfElements q1 = numberOfElements queue - 1"
    using PopFront_number [of queue w] assms(2) by (simp add: assms(1) [symmetric])
  with assms(2) show ?thesis by (simp add: unat_simps unat_gt_0)
qed

text \<open>
  The loop of \<open>Queue_Deinit\<close>, with the data it frees in the order it frees them.  Each round takes one
  element off, so the loop ends.
\<close>

function pop_all ::
  "Queue \<Rightarrow> ('h, 'a) queue_env_scheme \<Rightarrow> (queue_data list \<times> Queue) \<times> ('h, 'a) queue_env_scheme" where
  "pop_all queue w =
     (if numberOfElements queue = 0 then (([], queue), w)
      else
        let ((_, out, q1), w1) = Queue_PopFront queue w;
            ((freed, q2), w2) = pop_all q1 w1
        in (((case out of None \<Rightarrow> [] | Some (d, _) \<Rightarrow> [d]) @ freed, q2), w2))"
  by pat_completeness auto
termination
  by (relation "measure (\<lambda>(q, _). unat (numberOfElements q))") (auto intro: PopFront_less)

declare pop_all.simps [simp del]

definition Queue_Deinit ::
  "Queue \<Rightarrow> ('h, 'a) queue_env_scheme \<Rightarrow> (queue_data list \<times> Queue) \<times> ('h, 'a) queue_env_scheme" where
  "Queue_Deinit queue w = pop_all queue (AgentTelemetryCounter_Deinit (counter queue) w)"

section \<open>The list a queue stands for\<close>

definition first_of :: "nat list \<Rightarrow> nat option" where
  "first_of ps = (case ps of [] \<Rightarrow> None | p # _ \<Rightarrow> Some p)"

definition last_of :: "nat list \<Rightarrow> nat option" where
  "last_of ps = (if ps = [] then None else Some (last ps))"

lemma end_simps [simp]:
  "first_of [] = None" "first_of (p # ps) = Some p" "last_of [] = None" "last_of (p # ps) = Some (last (p # ps))"
  "first_of ps = None \<longleftrightarrow> ps = []" "last_of ps = None \<longleftrightarrow> ps = []" "last_of (ps @ [p]) = Some p"
  by (auto simp: first_of_def last_of_def split: list.splits)

lemma first_of_append [simp]: "first_of (ps @ [p]) = (if ps = [] then Some p else first_of ps)"
  by (cases ps) simp_all

text \<open>\<open>dll h prev ps\<close>: the items at \<open>ps\<close> are linked both ways, the first of them back to \<open>prev\<close>.\<close>

fun dll :: "(nat \<Rightarrow> QueueItem option) \<Rightarrow> nat option \<Rightarrow> nat list \<Rightarrow> bool" where
  "dll h prev [] \<longleftrightarrow> True"
| "dll h prev (p # ps) \<longleftrightarrow>
     (case h p of None \<Rightarrow> False
      | Some i \<Rightarrow> prevItem i = prev \<and> nextItem i = first_of ps \<and> dll h (Some p) ps)"

fun walk :: "nat \<Rightarrow> (nat \<Rightarrow> QueueItem option) \<Rightarrow> nat option \<Rightarrow> nat list" where
  "walk (Suc n) h (Some p) = p # (case h p of None \<Rightarrow> [] | Some i \<Rightarrow> walk n h (nextItem i))"
| "walk _ _ _ = []"

lemma dll_cong: "(\<And>p. p \<in> set ps \<Longrightarrow> h p = h' p) \<Longrightarrow> dll h prev ps = dll h' prev ps"
  by (induction ps arbitrary: prev) (auto split: option.split)

lemma dll_mapped: "dll h prev ps \<Longrightarrow> p \<in> set ps \<Longrightarrow> h p \<noteq> None"
  by (induction ps arbitrary: prev) (auto split: option.splits)

lemma walk_dll: "dll h prev ps \<Longrightarrow> walk (length ps) h (first_of ps) = ps"
  by (induction ps arbitrary: prev) (auto split: option.splits)

lemma walk_cong: "(\<And>p. p \<in> set (walk n h s) \<Longrightarrow> h p = h' p) \<Longrightarrow> walk n h s = walk n h' s"
proof (induction n h s rule: walk.induct)
  case (1 n h p)
  have p: "h' p = h p" using 1(2) [of p] by simp
  show ?case
  proof (cases "h p")
    case (Some i)
    have "walk n h (nextItem i) = walk n h' (nextItem i)"
      by (rule 1(1) [OF Some]) (rule 1(2), simp add: Some)
    with p Some show ?thesis by simp
  qed (simp add: p)
qed simp_all

lemma dll_snoc:
  assumes "dll h prev ps" "distinct ps" "a \<notin> set ps" "ps \<noteq> []" "h (last ps) = Some i"
  shows "dll (h(last ps \<mapsto> i\<lparr>nextItem := Some a\<rparr>, a \<mapsto> \<lparr>itemData = d, itemDataSize = n, nextItem = None,
      prevItem = Some (last ps)\<rparr>)) prev (ps @ [a])"
  using assms
proof (induction ps arbitrary: prev)
  case Nil
  then show ?case by simp
next
  case (Cons p ps)
  then show ?case
    by (cases "ps = []") (auto split: option.splits if_splits)
qed

lemma dll_tail:
  assumes "dll h prev (p # r # ps)" "distinct (p # r # ps)" "h r = Some i"
  shows "dll (h(r \<mapsto> i\<lparr>prevItem := None\<rparr>, p := None)) None (r # ps)"
proof -
  have "dll (h(r \<mapsto> i\<lparr>prevItem := None\<rparr>, p := None)) (Some r) ps = dll h (Some r) ps"
    using assms(2) by (intro dll_cong) auto
  with assms show ?thesis by (auto split: option.splits)
qed

definition addresses :: "Queue \<Rightarrow> ('h, 'a) queue_env_scheme \<Rightarrow> nat list" where
  "addresses q w = walk (unat (numberOfElements q)) (queueItems w) (firstItem q)"

definition well_linked :: "Queue \<Rightarrow> ('h, 'a) queue_env_scheme \<Rightarrow> bool" where
  "well_linked q w \<longleftrightarrow>
     (let ps = addresses q w in
      length ps = unat (numberOfElements q) \<and> distinct ps \<and> dll (queueItems w) None ps
      \<and> firstItem q = first_of ps \<and> lastItem q = last_of ps)"

definition content_at :: "(nat \<Rightarrow> QueueItem option) \<Rightarrow> nat \<Rightarrow> queue_data \<times> u32" where
  "content_at h p = (case h p of None \<Rightarrow> (NULL_POINTER, 0) | Some i \<Rightarrow> (itemData i, itemDataSize i))"

definition contents :: "Queue \<Rightarrow> ('h, 'a) queue_env_scheme \<Rightarrow> (queue_data \<times> u32) list" where
  "contents q w = map (content_at (queueItems w)) (addresses q w)"

lemma well_linkedI:
  assumes "dll (queueItems w) None ps" "distinct ps" "firstItem q = first_of ps" "lastItem q = last_of ps"
    and "unat (numberOfElements q) = length ps"
  shows "well_linked q w" "addresses q w = ps"
proof -
  show *: "addresses q w = ps" using walk_dll [OF assms(1)] by (simp add: addresses_def assms)
  show "well_linked q w" unfolding well_linked_def Let_def * using assms by simp
qed

lemma well_linkedD:
  assumes "well_linked q w"
  shows "dll (queueItems w) None (addresses q w)" "distinct (addresses q w)"
    "firstItem q = first_of (addresses q w)" "lastItem q = last_of (addresses q w)"
    "unat (numberOfElements q) = length (addresses q w)"
    "\<And>p. p \<in> set (addresses q w) \<Longrightarrow> queueItems w p \<noteq> None"
    "length (contents q w) = unat (numberOfElements q)"
  using assms dll_mapped by (auto simp: well_linked_def Let_def contents_def)

text \<open>A queue does not notice changes of the heap outside its addresses.\<close>

lemma same_items:
  assumes "\<And>p. p \<in> set (addresses q w) \<Longrightarrow> queueItems w' p = queueItems w p"
  shows "addresses q w' = addresses q w" "contents q w' = contents q w" "well_linked q w' = well_linked q w"
proof -
  show a: "addresses q w' = addresses q w"
    using assms unfolding addresses_def by (intro walk_cong [symmetric]) simp
  show "contents q w' = contents q w"
    unfolding contents_def a using assms by (auto simp: content_at_def)
  have "dll (queueItems w') None (addresses q w) = dll (queueItems w) None (addresses q w)"
    by (rule dll_cong) (rule assms)
  then show "well_linked q w' = well_linked q w" by (simp add: well_linked_def a)
qed

lemma link_item_linked:
  assumes q: "well_linked q w" and fresh: "queueItems w (nextItemAddress w) = None"
    and room: "length (addresses q w) < 4294967295"
    and link: "link_item q d n w = (q', w')"
  shows "well_linked q' w'" "addresses q' w' = addresses q w @ [nextItemAddress w]"
    "contents q' w' = contents q w @ [(d, n)]" "counter q' = counter q"
    "\<And>p. p \<notin> set (addresses q w) \<Longrightarrow> p \<noteq> nextItemAddress w \<Longrightarrow> queueItems w' p = queueItems w p"
    "w' = w\<lparr>queueItems := queueItems w', nextItemAddress := Suc (nextItemAddress w)\<rparr>"
proof -
  let ?a = "nextItemAddress w" and ?ps = "addresses q w" and ?h = "queueItems w"
  note qD = well_linkedD [OF q]
  have new: "?a \<notin> set ?ps" using qD(6) fresh by blast
  have number: "unat (numberOfElements q + 1) = Suc (length ?ps)"
    using room by (simp add: unat_simps qD(5))
  have "well_linked q' w' \<and> addresses q' w' = ?ps @ [?a] \<and> contents q' w' = contents q w @ [(d, n)]
      \<and> counter q' = counter q
      \<and> (\<forall>p. p \<notin> set ?ps \<longrightarrow> p \<noteq> ?a \<longrightarrow> queueItems w' p = ?h p)
      \<and> w' = w\<lparr>queueItems := queueItems w', nextItemAddress := Suc ?a\<rparr>"
  proof (cases "?ps = []")
    case True
    with link qD(3) have q': "q' = q\<lparr>firstItem := Some ?a, lastItem := Some ?a, numberOfElements := numberOfElements q + 1\<rparr>"
      and w': "w' = w\<lparr>nextItemAddress := Suc ?a, queueItems :=
         ?h(?a \<mapsto> \<lparr>itemData = d, itemDataSize = n, nextItem = None, prevItem = None\<rparr>)\<rparr>"
      by (auto simp: link_item_def Let_def)
    have "well_linked q' w'" "addresses q' w' = [?a]"
      by (rule well_linkedI [where ps = "[?a]"]; simp add: q' w' number True)+
    with True show ?thesis by (simp add: contents_def content_at_def w' q')
  next
    case False
    let ?l = "last ?ps"
    obtain i where i: "?h ?l = Some i" using qD(6) [of ?l] False by auto
    let ?new = "\<lparr>itemData = d, itemDataSize = n, nextItem = None, prevItem = Some ?l\<rparr>"
    let ?h' = "?h(?l \<mapsto> i\<lparr>nextItem := Some ?a\<rparr>, ?a \<mapsto> ?new)"
    have l: "lastItem q = Some ?l" "?l \<noteq> ?a" "firstItem q \<noteq> None"
      using qD(3,4) False new last_in_set [OF False] by (auto simp: last_of_def simp del: last_in_set)
    with link i have q': "q' = q\<lparr>lastItem := Some ?a, numberOfElements := numberOfElements q + 1\<rparr>"
      and w': "w' = w\<lparr>nextItemAddress := Suc ?a, queueItems := ?h'\<rparr>"
      by (auto simp: link_item_def Let_def write_item_def fun_upd_twist)
    have "dll ?h' None (?ps @ [?a])" by (rule dll_snoc) (use qD False new i in auto)
    then have wl: "well_linked q' w'" "addresses q' w' = ?ps @ [?a]"
      using qD new False number
      by (intro well_linkedI [where ps = "?ps @ [?a]"]; simp add: q' w')+
    have "map (content_at ?h') ?ps = map (content_at ?h) ?ps"
      using new i by (auto simp: content_at_def)
    then have "contents q' w' = contents q w @ [(d, n)]"
      unfolding contents_def wl(2) by (simp add: w' content_at_def)
    with wl show ?thesis using l(2) last_in_set [OF False] by (auto simp: q' w')
  qed
  then show "well_linked q' w'" "addresses q' w' = ?ps @ [?a]" "contents q' w' = contents q w @ [(d, n)]"
    "counter q' = counter q"
    "\<And>p. p \<notin> set ?ps \<Longrightarrow> p \<noteq> ?a \<Longrightarrow> queueItems w' p = ?h p"
    "w' = w\<lparr>queueItems := queueItems w', nextItemAddress := Suc ?a\<rparr>"
    by blast+
qed

section \<open>What the bookkeeping may touch\<close>

text \<open>The monitor, the counters and the call counter: nothing a queue is made of.\<close>

definition accounted :: "('h, 'a) queue_env_scheme \<Rightarrow> ('h, 'a) queue_env_scheme \<Rightarrow> bool" where
  "accounted w w' \<longleftrightarrow> (\<exists>n cs c l. w' = w\<lparr>tick := n, syncedCounters := cs,
     currentConsumptionInBytes := c, memoryLimitInBytes := l\<rparr>)"

lemma accounted_trans [trans]: "accounted w w1 \<Longrightarrow> accounted w1 w2 \<Longrightarrow> accounted w w2"
  unfolding accounted_def by (elim exE) (simp, blast)

lemma metered_accounted: "metered w w' \<Longrightarrow> accounted w w'"
proof -
  assume "metered w w'"
  then obtain n c l where "w' = w\<lparr>tick := n, syncedCounters := syncedCounters w,
      currentConsumptionInBytes := c, memoryLimitInBytes := l\<rparr>" by (auto simp: metered_def)
  then show ?thesis unfolding accounted_def by blast
qed

lemma counted_accounted: "counted w w' \<Longrightarrow> accounted w w'"
proof -
  assume "counted w w'"
  then obtain n cs where "w' = w\<lparr>tick := n, syncedCounters := cs,
      currentConsumptionInBytes := currentConsumptionInBytes w, memoryLimitInBytes := memoryLimitInBytes w\<rparr>"
    by (auto simp: counted_def)
  then show ?thesis unfolding accounted_def by blast
qed

lemma accounted_intros [intro]:
  "ticked w w' \<Longrightarrow> accounted w w'" "accounted w w" "accounted w (snd (MemoryMonitor_Consume n w))"
  "accounted w (snd (MemoryMonitor_Release n w))" "accounted w (snd (AgentTelemetryCounter_IncreaseBy c i k w))"
  by (auto intro: metered_accounted counted_accounted metered_ticked Consume_metered Release_metered IncreaseBy_counted)

lemma accounted_keeps:
  assumes "accounted w w'"
  shows "queueItems w' = queueItems w" "nextItemAddress w' = nextItemAddress w" "fault w' = fault w"
    "lockOk w' = lockOk w" "docs w' = docs w" "twinConfiguration w' = twinConfiguration w"
    "allocOk w' = allocOk w" "agentId w' = agentId w"
  using assms by (auto simp: accounted_def)

lemma accounted_queue:
  assumes "accounted w w'"
  shows "addresses q w' = addresses q w" "contents q w' = contents q w" "well_linked q w' = well_linked q w"
  by (rule same_items; simp add: accounted_keeps [OF assms])+

lemma IncreaseBy_bytes [simp]:
  "currentConsumptionInBytes (snd (AgentTelemetryCounter_IncreaseBy c i k w)) = currentConsumptionInBytes w"
  using IncreaseBy_counted [of w c i k] by (auto simp: counted_def)

section \<open>Popping\<close>

lemma unlink_first_linked:
  assumes q: "well_linked q w" and ne: "numberOfElements q \<noteq> 0"
  obtains a as i w1 where "addresses q w = a # as" "queueItems w a = Some i" "item_at (firstItem q) w = Some i"
    "contents q w = (itemData i, itemDataSize i) # map (content_at (queueItems w)) as"
    "unlink_first q i w = (q\<lparr>firstItem := first_of as, lastItem := last_of as\<rparr>, w1)"
    "w1 = w\<lparr>queueItems := queueItems w1\<rparr>" "queueItems w1 a = Some i"
    "dll ((queueItems w1)(a := None)) None as" "distinct (a # as)"
    "map (content_at ((queueItems w1)(a := None))) as = map (content_at (queueItems w)) as"
    "\<And>p. p \<notin> set (a # as) \<Longrightarrow> queueItems w1 p = queueItems w p"
proof -
  note qD = well_linkedD [OF q]
  obtain a as where ps: "addresses q w = a # as"
    using qD(5) ne unat_gt_0 [of "numberOfElements q"] by (cases "addresses q w") auto
  then obtain i where i: "queueItems w a = Some i" using qD(6) [of a] by auto
  have first: "firstItem q = Some a" using qD(3) by (simp add: ps)
  have next_i: "nextItem i = first_of as" using qD(1) by (simp add: ps i)
  have at: "item_at (firstItem q) w = Some i" by (simp add: item_at_def first i)
  have c: "contents q w = (itemData i, itemDataSize i) # map (content_at (queueItems w)) as"
    by (simp add: contents_def ps content_at_def i)
  show thesis
  proof (cases as)
    case Nil
    show thesis
      by (rule that [where ?w1.0 = w]; (rule ps i at c)?;
          use qD ps i Nil next_i first in \<open>simp add: unlink_first_def\<close>)
  next
    case (Cons r rs)
    obtain j where j: "queueItems w r = Some j" using qD(6) [of r] by (auto simp: ps Cons)
    let ?h = "(queueItems w)(r \<mapsto> j\<lparr>prevItem := None\<rparr>)"
    have ar: "a \<noteq> r" using qD(2) by (simp add: ps Cons)
    have d: "dll (?h(a := None)) None (r # rs)"
      by (rule dll_tail [of _ None]) (use qD(1,2) ps Cons j in auto)
    show thesis
    proof (rule that [where ?w1.0 = "w\<lparr>queueItems := ?h\<rparr>"]; (rule ps i at c)?)
      show "unlink_first q i w = (q\<lparr>firstItem := first_of as, lastItem := last_of as\<rparr>, w\<lparr>queueItems := ?h\<rparr>)"
        using qD(4) ps Cons by (simp add: unlink_first_def next_i write_item_def j)
      show "map (content_at ((queueItems (w\<lparr>queueItems := ?h\<rparr>))(a := None))) as = map (content_at (queueItems w)) as"
        using qD(2) ps j by (auto simp: content_at_def)
    qed (use d Cons ar i qD(2) ps in auto)
  qed
qed

lemma PopFront_linked:
  assumes q: "well_linked q w" and ne: "numberOfElements q \<noteq> 0"
    and pop: "Queue_PopFront q w = ((r, out, q'), w')"
  obtains a as x xs where "addresses q w = a # as" "contents q w = x # xs" "r = QUEUE_OK" "out = Some x"
    "well_linked q' w'" "addresses q' w' = as" "contents q' w' = xs" "counter q' = counter q"
    "\<And>p. p \<notin> set (a # as) \<Longrightarrow> queueItems w' p = queueItems w p"
    "accounted w (w'\<lparr>queueItems := queueItems w\<rparr>)"
    "booked_bytes w' \<le> booked_bytes w" "booked_bytes w \<le> booked_bytes w' + unat (Queue_CalculateItemSize (snd x))"
proof -
  obtain a as i w1 where u: "addresses q w = a # as" "queueItems w a = Some i" "item_at (firstItem q) w = Some i"
    "contents q w = (itemData i, itemDataSize i) # map (content_at (queueItems w)) as"
    "unlink_first q i w = (q\<lparr>firstItem := first_of as, lastItem := last_of as\<rparr>, w1)"
    "w1 = w\<lparr>queueItems := queueItems w1\<rparr>" "queueItems w1 a = Some i"
    "dll ((queueItems w1)(a := None)) None as" "distinct (a # as)"
    "map (content_at ((queueItems w1)(a := None))) as = map (content_at (queueItems w)) as"
    "\<And>p. p \<notin> set (a # as) \<Longrightarrow> queueItems w1 p = queueItems w p"
    by (rule unlink_first_linked [OF q ne]) blast
  let ?size = "Queue_CalculateItemSize (itemDataSize i)"
  let ?w2 = "snd (MemoryMonitor_Release ?size w1)"
  have acc: "accounted w1 ?w2" by blast
  note keeps = accounted_keeps [OF acc]
  have first: "firstItem q = Some a" using well_linkedD(3) [OF q] by (simp add: u(1))
  have w': "w' = ?w2\<lparr>queueItems := (queueItems w1)(a := None)\<rparr>" and r: "r = QUEUE_OK" "out = Some (itemData i, itemDataSize i)"
    and q': "q' = q\<lparr>firstItem := first_of as, lastItem := last_of as, numberOfElements := numberOfElements q - 1\<rparr>"
    using pop ne u(3,5,7) keeps(1)
    by (auto simp: Queue_PopFront_def Let_def split_beta free_item_def first)
  have number: "unat (numberOfElements q') = length as"
    using well_linkedD(5) [OF q] ne by (simp add: q' unat_simps u(1))
  have wl: "well_linked q' w'" "addresses q' w' = as"
    by (rule well_linkedI [where ps = as]; use u(8,9) number in \<open>simp add: w' q'\<close>)+
  have "accounted w (w'\<lparr>queueItems := queueItems w\<rparr>)"
  proof -
    obtain n cs c l where "?w2 = w1\<lparr>tick := n, syncedCounters := cs, currentConsumptionInBytes := c, memoryLimitInBytes := l\<rparr>"
      using acc by (auto simp: accounted_def)
    then have "w'\<lparr>queueItems := queueItems w\<rparr> =
        w\<lparr>tick := n, syncedCounters := cs, currentConsumptionInBytes := c, memoryLimitInBytes := l\<rparr>"
      unfolding w' by (subst (asm) u(6)) simp
    then show ?thesis unfolding accounted_def by blast
  qed
  moreover have "currentConsumptionInBytes w1 = currentConsumptionInBytes w" by (subst u(6)) simp
  then have "booked_bytes w' \<le> booked_bytes w" "booked_bytes w \<le> booked_bytes w' + unat ?size"
    using sync_budget.release_bounds [of ?size w1] by (simp_all add: w')
  moreover have "contents q' w' = map (content_at (queueItems w)) as"
    unfolding contents_def wl(2) using u(10) by (simp add: w')
  moreover have "queueItems w' p = queueItems w p" if "p \<notin> set (a # as)" for p
    using u(11) [OF that] that by (simp add: w')
  ultimately show thesis
    using u(4) r wl q' u(1) by (intro that [OF u(1) u(4) r wl]) simp_all
qed

section \<open>Pushing\<close>

lemma item_size: "unat n + 40 < 4294967296 \<Longrightarrow> unat (Queue_CalculateItemSize n) = unat n + 40"
  by (simp add: Queue_CalculateItemSize_def sizeof_QueueItem_def sizeof_pointer_def unat_simps)

lemma PushBack_linked:
  assumes q: "well_linked q w" and fresh: "queueItems w (nextItemAddress w) = None"
    and room: "length (addresses q w) < 4294967295"
    and fits: "booked_bytes w + unat (Queue_CalculateItemSize n) < 4294967296"
    and push: "Queue_PushBack q d n w = ((r, q'), w')"
  obtains (pushed) "r = QUEUE_OK" "well_linked q' w'" "addresses q' w' = addresses q w @ [nextItemAddress w]"
      "contents q' w' = contents q w @ [(d, n)]" "counter q' = counter q"
      "\<And>p. p \<notin> set (addresses q w) \<Longrightarrow> p \<noteq> nextItemAddress w \<Longrightarrow> queueItems w' p = queueItems w p"
      "nextItemAddress w' = Suc (nextItemAddress w)"
      "accounted w (w'\<lparr>queueItems := queueItems w, nextItemAddress := nextItemAddress w\<rparr>)"
      "booked_bytes w' = booked_bytes w + unat (Queue_CalculateItemSize n)"
  | (refused) "r = QUEUE_MAX_MEMORY_EXCEEDED \<or> r = QUEUE_MEMORY_EXCEPTION" "q' = q" "accounted w w'"
      "booked_bytes w \<le> booked_bytes w'" "booked_bytes w' \<le> booked_bytes w + unat (Queue_CalculateItemSize n)"
proof -
  let ?size = "Queue_CalculateItemSize n"
  let ?inc = "\<lambda>i w. snd (AgentTelemetryCounter_IncreaseBy (counter q) i 1 w)"
  obtain rc w1 where c: "MemoryMonitor_Consume ?size w = (rc, w1)" by fastforce
  have acc1: "accounted w w1" using accounted_intros(3) [of w ?size] c by simp
  note budget = sync_budget.consume_bounds [OF fits] sync_budget.consume_results [of ?size w]
    sync_budget.consume_granted [OF fits]
  show thesis
  proof (cases "rc = MEMORY_MONITOR_OK")
    case False
    let ?w2 = "if rc = MEMORY_MONITOR_MEMORY_EXCEEDED then ?inc Dropped w1 else w1"
    have "accounted w (?inc Collected ?w2)"
      by (rule accounted_trans [OF _ accounted_intros(5)], cases "rc = MEMORY_MONITOR_MEMORY_EXCEEDED")
         (auto intro: accounted_trans [OF acc1] acc1)
    with False push c budget show thesis
      by (intro refused) (auto simp: Queue_PushBack_def Let_def consume_result_def split: MemoryMonitorResultValues.splits)
  next
    case ok: True
    let ?a = "next_tick w1"
    have acc2: "accounted w ?a" using acc1 by (rule accounted_trans) (auto)
    show thesis
    proof (cases "fst (sys_malloc w1)")
      case False
      let ?r = "snd (MemoryMonitor_Release ?size ?a)"
      have "accounted w (?inc Collected ?r)"
        by (rule accounted_trans [OF _ accounted_intros(5)], rule accounted_trans [OF acc2]) blast
      moreover have "booked_bytes w \<le> booked_bytes ?r \<and> booked_bytes ?r \<le> booked_bytes w + unat ?size"
        using sync_budget.release_bounds [of ?size ?a] budget c ok by auto
      ultimately show thesis using False ok push c
        by (intro refused) (auto simp: Queue_PushBack_def Let_def split_beta)
    next
      case True
      obtain q2 w2 where l: "link_item q d n ?a = (q2, w2)" by fastforce
      note keeps = accounted_keeps [OF acc2] and queue = accounted_queue [OF acc2, of q]
      have pre: "well_linked q ?a" "queueItems ?a (nextItemAddress ?a) = None"
        "length (addresses q ?a) < 4294967295"
        using q fresh room by (simp_all add: keeps queue)
      note linked = link_item_linked [OF pre l, unfolded keeps queue]
      let ?w' = "?inc Collected w2"
      have res: "r = QUEUE_OK" "q' = q2" "w' = ?w'"
        using push c ok True l linked(4) by (auto simp: Queue_PushBack_def Let_def split_beta)
      have acc3: "accounted w2 ?w'" by blast
      note keeps3 = accounted_keeps [OF acc3] and queue3 = accounted_queue [OF acc3]
      have succ: "nextItemAddress w' = Suc (nextItemAddress w)"
        using keeps3(2) by (subst (asm) (2) linked(6)) (simp add: res)
      obtain m ds cc ll where "?w' = w2\<lparr>tick := m, syncedCounters := ds,
          currentConsumptionInBytes := cc, memoryLimitInBytes := ll\<rparr>"
        using acc3 by (auto simp: accounted_def)
      then have "w'\<lparr>queueItems := queueItems w, nextItemAddress := nextItemAddress w\<rparr> =
          ?a\<lparr>tick := m, syncedCounters := ds, currentConsumptionInBytes := cc, memoryLimitInBytes := ll\<rparr>"
        unfolding res by (subst (asm) (2) linked(6)) (simp add: keeps [symmetric])
      then have "accounted ?a (w'\<lparr>queueItems := queueItems w, nextItemAddress := nextItemAddress w\<rparr>)"
        unfolding accounted_def by blast
      with acc2 have acc4: "accounted w (w'\<lparr>queueItems := queueItems w, nextItemAddress := nextItemAddress w\<rparr>)"
        by (rule accounted_trans)
      have "currentConsumptionInBytes w2 = currentConsumptionInBytes w1" by (subst linked(6)) simp
      then have bytes: "booked_bytes w' = booked_bytes w + unat ?size"
        using budget(3) c ok by (simp add: res)
      show thesis
        by (rule pushed) (use linked(1-5) res queue3 keeps3(1) succ acc4 bytes in \<open>simp_all\<close>)
    qed
  qed
qed

section \<open>Several queues on one heap\<close>

text \<open>
  All queues of the agent share the heap and the budget.  They are in order when each is well linked, no
  two share an item, the allocator's next address is free, and the monitor has booked at least what
  the queues hold.
\<close>

definition cost_of :: "queue_data \<times> u32 \<Rightarrow> nat" where
  "cost_of x = unat (snd x) + 40"

definition held :: "(queue_data \<times> u32) list \<Rightarrow> nat" where
  "held xs = sum_list (map cost_of xs)"

definition queues_ok :: "Queue list \<Rightarrow> ('h, 'a) queue_env_scheme \<Rightarrow> bool" where
  "queues_ok qs w \<longleftrightarrow>
     (\<forall>i < length qs. well_linked (qs ! i) w)
     \<and> (\<forall>i < length qs. \<forall>j < length qs. i \<noteq> j \<longrightarrow> set (addresses (qs ! i) w) \<inter> set (addresses (qs ! j) w) = {})
     \<and> (\<forall>a \<ge> nextItemAddress w. queueItems w a = None)
     \<and> sum_list (map (\<lambda>q. held (contents q w)) qs) \<le> booked_bytes w \<and> \<not> fault w"

lemma cost_sized: "cost_of x < 4294967296 \<Longrightarrow> unat (Queue_CalculateItemSize (snd x)) = cost_of x"
  by (simp add: cost_of_def item_size)

lemma size_le_cost: "unat (Queue_CalculateItemSize n) \<le> cost_of (d, n)"
proof (cases "unat n + 40 < 4294967296")
  case True
  then show ?thesis by (simp add: item_size cost_of_def)
next
  case False
  then show ?thesis using u32_less [of "Queue_CalculateItemSize n"] by (simp add: cost_of_def)
qed

lemma held_length: "40 * length xs \<le> held xs"
  by (induction xs) (auto simp: held_def cost_of_def)

lemma queues_okD:
  assumes "queues_ok qs w"
  shows "\<And>i. i < length qs \<Longrightarrow> well_linked (qs ! i) w"
    "\<And>i j. i < length qs \<Longrightarrow> j < length qs \<Longrightarrow> i \<noteq> j \<Longrightarrow>
      set (addresses (qs ! i) w) \<inter> set (addresses (qs ! j) w) = {}"
    "\<And>a. nextItemAddress w \<le> a \<Longrightarrow> queueItems w a = None"
    "sum_list (map (\<lambda>q. held (contents q w)) qs) \<le> booked_bytes w" "\<not> fault w"
  using assms unfolding queues_ok_def by blast+

lemma held_le:
  assumes "queues_ok qs w" and "i < length qs"
  shows "held (contents (qs ! i) w) \<le> booked_bytes w"
proof -
  have "held (contents (qs ! i) w) \<le> sum_list (map (\<lambda>q. held (contents q w)) qs)"
    using assms(2) by (intro member_le_sum_list) auto
  with queues_okD(4) [OF assms(1)] show ?thesis by simp
qed

lemma addresses_length:
  assumes "queues_ok qs w" and "i < length qs"
  shows "length (addresses (qs ! i) w) < 4294967295"
  using held_le [OF assms] held_length [of "contents (qs ! i) w"] u32_less [of "currentConsumptionInBytes w"]
  by (simp add: contents_def)

lemma queues_ok_accounted:
  assumes "queues_ok qs w" and "accounted w w'" and "booked_bytes w \<le> booked_bytes w'"
  shows "queues_ok qs w'"
  using assms unfolding queues_ok_def by (auto simp: accounted_queue [OF assms(2)] accounted_keeps [OF assms(2)])

text \<open>
  Replacing one queue by an updated one.  The update may change the queue's own items and fresh ones
  only, and the booked bytes must cover the new total.
\<close>

lemma queues_ok_update:
  assumes ok: "queues_ok qs w" and i: "i < length qs"
    and q': "well_linked q' w'" "set (addresses q' w') \<subseteq> set (addresses (qs ! i) w) \<union> {nextItemAddress w}"
    and frame: "\<And>p. p \<notin> set (addresses (qs ! i) w) \<Longrightarrow> p \<noteq> nextItemAddress w \<Longrightarrow> queueItems w' p = queueItems w p"
    and fresh: "\<And>a. nextItemAddress w' \<le> a \<Longrightarrow> queueItems w' a = None"
    and bytes: "held (contents q' w') + booked_bytes w \<le> held (contents (qs ! i) w) + booked_bytes w'"
    and nofault: "\<not> fault w'"
  shows "queues_ok (qs[i := q']) w'"
    and "\<And>j. j < length qs \<Longrightarrow> j \<noteq> i \<Longrightarrow> contents (qs ! j) w' = contents (qs ! j) w"
proof -
  note okD = queues_okD [OF ok]
  have next_unmapped: "nextItemAddress w \<notin> set (addresses (qs ! j) w)" if "j < length qs" for j
    using well_linkedD(6) [OF okD(1) [OF that], of "nextItemAddress w"] okD(3) [of "nextItemAddress w"] by auto
  have same: "queueItems w' p = queueItems w p" if "j < length qs" "j \<noteq> i" "p \<in> set (addresses (qs ! j) w)" for j p
    using okD(2) [OF that(1) i that(2)] next_unmapped [OF that(1)] that(3) by (intro frame) auto
  have other: "addresses (qs ! j) w' = addresses (qs ! j) w" "contents (qs ! j) w' = contents (qs ! j) w"
    "well_linked (qs ! j) w'" if "j < length qs" "j \<noteq> i" for j
    using same_items [of "qs ! j" w w'] same [OF that] okD(1) [OF that(1)] by auto
  then show "\<And>j. j < length qs \<Longrightarrow> j \<noteq> i \<Longrightarrow> contents (qs ! j) w' = contents (qs ! j) w" by blast
  let ?f = "\<lambda>q. held (contents q w)" and ?f' = "\<lambda>q. held (contents q w')"
  have "map ?f' (qs[i := q']) = (map ?f qs)[i := ?f' q']"
    by (rule nth_equalityI) (auto simp: nth_list_update i other)
  then have "sum_list (map ?f' (qs[i := q'])) + ?f (qs ! i) = sum_list (map ?f qs) + ?f' q'"
    using i elem_le_sum_list [of i "map ?f qs"] by (simp add: sum_list_update)
  moreover have "set (addresses (qs ! j) w) \<inter> set (addresses q' w') = {}" if "j < length qs" "j \<noteq> i" for j
    using q'(2) okD(2) [OF that(1) i that(2)] next_unmapped [OF that(1)] by auto
  ultimately show "queues_ok (qs[i := q']) w'"
    unfolding queues_ok_def
    using q'(1) other okD(1,2,4) fresh bytes nofault
    by (auto simp: nth_list_update i Int_commute)
qed

text \<open>A queue operation leaves everything but the heap of items, the budget and the counters.\<close>

definition queued :: "('h, 'a) queue_env_scheme \<Rightarrow> ('h, 'a) queue_env_scheme \<Rightarrow> bool" where
  "queued w w' \<longleftrightarrow> (\<exists>n cs c l h a. w' = w\<lparr>tick := n, syncedCounters := cs, currentConsumptionInBytes := c,
     memoryLimitInBytes := l, queueItems := h, nextItemAddress := a\<rparr>)"

lemma queued_trans [trans]: "queued w w1 \<Longrightarrow> queued w1 w2 \<Longrightarrow> queued w w2"
  unfolding queued_def by (elim exE) (simp, blast)

lemma queued_of_accounted:
  assumes "accounted w (w'\<lparr>queueItems := queueItems w, nextItemAddress := nextItemAddress w\<rparr>)"
  shows "queued w w'"
proof -
  let ?returned = "\<lambda>v. v\<lparr>queueItems := queueItems w', nextItemAddress := nextItemAddress w'\<rparr>"
  obtain n cs c l where "w'\<lparr>queueItems := queueItems w, nextItemAddress := nextItemAddress w\<rparr> =
      w\<lparr>tick := n, syncedCounters := cs, currentConsumptionInBytes := c, memoryLimitInBytes := l\<rparr>"
    using assms by (auto simp: accounted_def)
  from arg_cong [OF this, of ?returned]
  have "w' = w\<lparr>tick := n, syncedCounters := cs, currentConsumptionInBytes := c, memoryLimitInBytes := l,
        queueItems := queueItems w', nextItemAddress := nextItemAddress w'\<rparr>"
    by simp
  then show ?thesis unfolding queued_def by blast
qed

lemma accounted_queued: "accounted w w' \<Longrightarrow> queued w w'"
  using queued_of_accounted [of w w'] by (simp add: accounted_keeps(1,2) [symmetric])

lemma queued_keeps:
  assumes "queued w w'"
  shows "fault w' = fault w" "lockOk w' = lockOk w" "docs w' = docs w" "twinConfiguration w' = twinConfiguration w"
    "allocOk w' = allocOk w" "agentId w' = agentId w" "locks_work w' = locks_work w"
  using assms by (auto simp: queued_def locks_work_def)

lemma queues_ok_push:
  assumes ok: "queues_ok qs w" and i: "i < length qs"
    and fits: "booked_bytes w + cost_of (d, n) < 4294967296"
    and push: "Queue_PushBack (qs ! i) d n w = ((r, q'), w')"
  shows "queues_ok (qs[i := q']) w'
    \<and> (\<forall>j. j < length qs \<longrightarrow> j \<noteq> i \<longrightarrow> contents (qs ! j) w' = contents (qs ! j) w)
    \<and> contents q' w' = (if r = QUEUE_OK then contents (qs ! i) w @ [(d, n)] else contents (qs ! i) w)
    \<and> booked_bytes w' \<le> booked_bytes w + cost_of (d, n) \<and> queued w w' \<and> counter q' = counter (qs ! i)
    \<and> r \<noteq> QUEUE_IS_EMPTY \<and> r \<noteq> QUEUE_CONDITION_FAILED"
proof -
  note okD = queues_okD [OF ok] and lin = queues_okD(1) [OF ok i]
  have fresh: "queueItems w (nextItemAddress w) = None" by (rule okD(3)) simp
  have sz: "unat (Queue_CalculateItemSize n) = cost_of (d, n)"
    using cost_sized [of "(d, n)"] fits by simp
  have fits': "booked_bytes w + unat (Queue_CalculateItemSize n) < 4294967296" using fits by (simp add: sz)
  show ?thesis
    using lin fresh addresses_length [OF ok i] fits' push
  proof (cases rule: PushBack_linked [consumes 5, case_names pushed refused])
    case pushed
    have q: "queued w w'" by (rule queued_of_accounted) (rule pushed(8))
    have unmapped: "queueItems w' a = None" if "nextItemAddress w' \<le> a" for a
    proof -
      have "a \<notin> set (addresses (qs ! i) w)"
        using well_linkedD(6) [OF lin, of a] okD(3) [of a] that pushed(7) by auto
      then show ?thesis using pushed(6) [of a] that pushed(7) okD(3) [of a] by auto
    qed
    have more: "held (contents q' w') + booked_bytes w \<le> held (contents (qs ! i) w) + booked_bytes w'"
      by (simp add: pushed(4,9) held_def sz)
    have sub: "set (addresses q' w') \<subseteq> set (addresses (qs ! i) w) \<union> {nextItemAddress w}"
      by (simp add: pushed(3))
    have nofault: "\<not> fault w'" using okD(5) queued_keeps(1) [OF q] by simp
    note upd = queues_ok_update [OF ok i pushed(2) sub pushed(6) unmapped more nofault]
    have "queues_ok (qs[i := q']) w'" by (rule upd(1))
    moreover have "\<forall>j. j < length qs \<longrightarrow> j \<noteq> i \<longrightarrow> contents (qs ! j) w' = contents (qs ! j) w"
      using upd(2) by blast
    ultimately show ?thesis using pushed(1,4,5,9) q by (simp add: sz)
  next
    case refused
    then have "queues_ok qs w'" using queues_ok_accounted [OF ok] by blast
    moreover have "queued w w'" using refused(3) by (rule accounted_queued)
    ultimately show ?thesis using refused(1,2,5)
      by (auto simp: accounted_queue [OF refused(3)] sz)
  qed
qed

lemma queues_ok_pop:
  assumes ok: "queues_ok qs w" and i: "i < length qs"
    and pop: "Queue_PopFront (qs ! i) w = ((r, out, q'), w')"
  shows "queues_ok (qs[i := q']) w'
    \<and> (\<forall>j. j < length qs \<longrightarrow> j \<noteq> i \<longrightarrow> contents (qs ! j) w' = contents (qs ! j) w)
    \<and> (case contents (qs ! i) w of [] \<Rightarrow> r = QUEUE_IS_EMPTY \<and> out = None \<and> contents q' w' = []
       | x # xs \<Rightarrow> r = QUEUE_OK \<and> out = Some x \<and> contents q' w' = xs)
    \<and> booked_bytes w' \<le> booked_bytes w \<and> queued w w' \<and> counter q' = counter (qs ! i)"
proof -
  note okD = queues_okD [OF ok] and lin = queues_okD(1) [OF ok i]
  show ?thesis
  proof (cases "numberOfElements (qs ! i) = 0")
    case True
    with pop have "r = QUEUE_IS_EMPTY" "out = None" "q' = qs ! i" "w' = w" by (simp_all add: Queue_PopFront_def)
    moreover have "contents (qs ! i) w = []" using well_linkedD(7) [OF lin] True by simp
    moreover have "queued w w" by (rule accounted_queued) (rule accounted_intros)
    ultimately show ?thesis using ok by simp
  next
    case False
    obtain a as x xs where p: "addresses (qs ! i) w = a # as" "contents (qs ! i) w = x # xs" "r = QUEUE_OK" "out = Some x"
      "well_linked q' w'" "addresses q' w' = as" "contents q' w' = xs" "counter q' = counter (qs ! i)"
      "\<And>p. p \<notin> set (a # as) \<Longrightarrow> queueItems w' p = queueItems w p"
      "accounted w (w'\<lparr>queueItems := queueItems w\<rparr>)"
      "booked_bytes w' \<le> booked_bytes w" "booked_bytes w \<le> booked_bytes w' + unat (Queue_CalculateItemSize (snd x))"
      by (rule PopFront_linked [OF lin False pop]) blast
    have succ: "nextItemAddress w' = nextItemAddress w"
      using accounted_keeps(2) [OF p(10)] by simp
    have "accounted w (w'\<lparr>queueItems := queueItems w, nextItemAddress := nextItemAddress w\<rparr>)"
      using p(10) by (simp add: succ [symmetric])
    then have q: "queued w w'" by (rule queued_of_accounted)
    have unmapped: "queueItems w' b = None" if "nextItemAddress w' \<le> b" for b
    proof -
      have "b \<notin> set (a # as)"
        using well_linkedD(6) [OF lin, of b] okD(3) [of b] that unfolding p(1) succ by auto
      then show ?thesis using p(9) [of b] that okD(3) [of b] by (simp add: succ)
    qed
    have "held (contents (qs ! i) w) = cost_of x + held xs" by (simp add: p(2) held_def)
    moreover have "booked_bytes w \<le> booked_bytes w' + cost_of x"
      using p(12) size_le_cost [of "snd x" "fst x"] by simp
    ultimately have more: "held (contents q' w') + booked_bytes w \<le> held (contents (qs ! i) w) + booked_bytes w'"
      by (simp add: p(7))
    have sub: "set (addresses q' w') \<subseteq> set (addresses (qs ! i) w) \<union> {nextItemAddress w}"
      unfolding p(1,6) by auto
    have frame: "queueItems w' b = queueItems w b" if "b \<notin> set (addresses (qs ! i) w)" for b
      using p(9) that unfolding p(1) by blast
    have nofault: "\<not> fault w'" using okD(5) queued_keeps(1) [OF q] by simp
    note upd = queues_ok_update [OF ok i p(5) sub frame unmapped more nofault]
    have "queues_ok (qs[i := q']) w'" by (rule upd(1))
    moreover have "\<forall>j. j < length qs \<longrightarrow> j \<noteq> i \<longrightarrow> contents (qs ! j) w' = contents (qs ! j) w"
      using upd(2) by blast
    ultimately show ?thesis using p(2-4,7,8,11) q by simp
  qed
qed

lemma queues_ok_pop_if:
  assumes ok: "queues_ok qs w" and i: "i < length qs"
    and pop: "Queue_PopFrontIf (qs ! i) c w = ((r, out, q'), w')"
  shows "queues_ok (qs[i := q']) w'
    \<and> (\<forall>j. j < length qs \<longrightarrow> j \<noteq> i \<longrightarrow> contents (qs ! j) w' = contents (qs ! j) w)
    \<and> (case contents (qs ! i) w of [] \<Rightarrow> r = QUEUE_IS_EMPTY \<and> out = None \<and> contents q' w' = []
       | x # xs \<Rightarrow> if c (fst x) (snd x) then r = QUEUE_OK \<and> out = Some x \<and> contents q' w' = xs
                 else r = QUEUE_CONDITION_FAILED \<and> out = None \<and> contents q' w' = x # xs)
    \<and> booked_bytes w' \<le> booked_bytes w \<and> queued w w' \<and> counter q' = counter (qs ! i)"
proof -
  note lin = queues_okD(1) [OF ok i]
  have same: "queued w w" by (rule accounted_queued) (rule accounted_intros)
  show ?thesis
  proof (cases "contents (qs ! i) w")
    case Nil
    then have "numberOfElements (qs ! i) = 0" using well_linkedD(7) [OF lin] by (simp add: unat_eq_0)
    with pop have "r = QUEUE_IS_EMPTY" "out = None" "q' = qs ! i" "w' = w" by (simp_all add: Queue_PopFrontIf_def)
    with ok same Nil show ?thesis by simp
  next
    case (Cons x xs)
    then have ne: "numberOfElements (qs ! i) \<noteq> 0" using well_linkedD(7) [OF lin] by auto
    obtain a as it w1 where "item_at (firstItem (qs ! i)) w = Some it"
      "contents (qs ! i) w = (itemData it, itemDataSize it) # map (content_at (queueItems w)) as"
      by (rule unlink_first_linked [OF lin ne]) blast
    then have item: "item_at (firstItem (qs ! i)) w = Some it" "x = (itemData it, itemDataSize it)"
      using Cons by simp_all
    show ?thesis
    proof (cases "c (itemData it) (itemDataSize it)")
      case True
      with pop item ne have "Queue_PopFront (qs ! i) w = ((r, out, q'), w')" by (simp add: Queue_PopFrontIf_def)
      from queues_ok_pop [OF ok i this] True item Cons show ?thesis by simp
    next
      case False
      with pop item ne have "r = QUEUE_CONDITION_FAILED" "out = None" "q' = qs ! i" "w' = w"
        by (simp_all add: Queue_PopFrontIf_def)
      with ok same Cons False item(2) show ?thesis by simp
    qed
  qed
qed

section \<open>The queue keeps the contract\<close>

text \<open>Operations on the \<open>i\<close>-th of several queues, and what the others hold.\<close>

definition push_at ::
  "nat \<Rightarrow> queue_data \<times> u32 \<Rightarrow> Queue list \<times> ('h, 'a) queue_env_scheme \<Rightarrow>
    QueueResultValues \<times> Queue list \<times> ('h, 'a) queue_env_scheme" where
  "push_at i x s =
     (let ((r, q'), w') = Queue_PushBack (fst s ! i) (fst x) (snd x) (snd s) in (r, (fst s)[i := q'], w'))"

definition pop_at ::
  "nat \<Rightarrow> (queue_data \<times> u32 \<Rightarrow> bool) \<Rightarrow> Queue list \<times> ('h, 'a) queue_env_scheme \<Rightarrow>
    (QueueResultValues \<times> (queue_data \<times> u32) option) \<times> Queue list \<times> ('h, 'a) queue_env_scheme" where
  "pop_at i c s =
     (let ((r, out, q'), w') = Queue_PopFrontIf (fst s ! i) (\<lambda>d n. c (d, n)) (snd s)
      in ((r, out), (fst s)[i := q'], w'))"

definition queue_inv :: "nat \<Rightarrow> Queue list \<times> ('h, 'a) queue_env_scheme \<Rightarrow> bool" where
  "queue_inv i s \<longleftrightarrow> queues_ok (fst s) (snd s) \<and> i < length (fst s)"

definition contents_at :: "nat \<Rightarrow> Queue list \<times> ('h, 'a) queue_env_scheme \<Rightarrow> (queue_data \<times> u32) list" where
  "contents_at i s = contents (fst s ! i) (snd s)"

definition other_contents ::
  "nat \<Rightarrow> Queue list \<times> ('h, 'a) queue_env_scheme \<Rightarrow> (queue_data \<times> u32) list list" where
  "other_contents i s = map (\<lambda>j. if j = i then [] else contents_at j s) [0..<length (fst s)]"

definition budget_room :: "Queue list \<times> ('h, 'a) queue_env_scheme \<Rightarrow> nat" where
  "budget_room s = 4294967296 - booked_bytes (snd s)"

lemma push_at_facts:
  assumes "queue_inv i s" and "cost_of x < budget_room s"
  shows "queue_inv i (snd (push_at i x s))"
    and "contents_at i (snd (push_at i x s)) =
      (if fst (push_at i x s) = QUEUE_OK then contents_at i s @ [x] else contents_at i s)"
    and "budget_room s \<le> budget_room (snd (push_at i x s)) + cost_of x"
    and "other_contents i (snd (push_at i x s)) = other_contents i s"
proof -
  obtain qs w d n where [simp]: "s = (qs, w)" "x = (d, n)" by (metis prod.collapse)
  obtain r q' w' where push: "Queue_PushBack (qs ! i) d n w = ((r, q'), w')" by (metis prod.collapse)
  have ok: "queues_ok qs w" "i < length qs" "booked_bytes w + cost_of (d, n) < 4294967296"
    using assms by (auto simp: queue_inv_def budget_room_def)
  note facts = queues_ok_push [OF ok push]
  show "queue_inv i (snd (push_at i x s))"
    "contents_at i (snd (push_at i x s)) =
      (if fst (push_at i x s) = QUEUE_OK then contents_at i s @ [x] else contents_at i s)"
    "budget_room s \<le> budget_room (snd (push_at i x s)) + cost_of x"
    "other_contents i (snd (push_at i x s)) = other_contents i s"
    using facts ok(2) by (auto simp: push_at_def push queue_inv_def contents_at_def budget_room_def other_contents_def)
qed

lemma pop_at_facts:
  assumes "queue_inv i s"
  shows "queue_inv i (snd (pop_at i c s))"
    and "case contents_at i s of
        [] \<Rightarrow> fst (fst (pop_at i c s)) = QUEUE_IS_EMPTY \<and> contents_at i (snd (pop_at i c s)) = []
      | x # xs \<Rightarrow> if c x then pop_at i c s = ((QUEUE_OK, Some x), snd (pop_at i c s)) \<and> contents_at i (snd (pop_at i c s)) = xs
                else fst (fst (pop_at i c s)) = QUEUE_CONDITION_FAILED \<and> contents_at i (snd (pop_at i c s)) = x # xs"
    and "budget_room s \<le> budget_room (snd (pop_at i c s))"
    and "other_contents i (snd (pop_at i c s)) = other_contents i s"
proof -
  obtain qs w where [simp]: "s = (qs, w)" by (metis prod.collapse)
  obtain r out q' w' where pop: "Queue_PopFrontIf (qs ! i) (\<lambda>d n. c (d, n)) w = ((r, out, q'), w')"
    by (metis prod.collapse)
  have ok: "queues_ok qs w" "i < length qs" using assms by (auto simp: queue_inv_def)
  note facts = queues_ok_pop_if [OF ok pop]
  show "queue_inv i (snd (pop_at i c s))" "budget_room s \<le> budget_room (snd (pop_at i c s))"
    "other_contents i (snd (pop_at i c s)) = other_contents i s"
    using facts ok(2) by (auto simp: pop_at_def pop queue_inv_def contents_at_def budget_room_def other_contents_def)
  show "case contents_at i s of
        [] \<Rightarrow> fst (fst (pop_at i c s)) = QUEUE_IS_EMPTY \<and> contents_at i (snd (pop_at i c s)) = []
      | x # xs \<Rightarrow> if c x then pop_at i c s = ((QUEUE_OK, Some x), snd (pop_at i c s)) \<and> contents_at i (snd (pop_at i c s)) = xs
                else fst (fst (pop_at i c s)) = QUEUE_CONDITION_FAILED \<and> contents_at i (snd (pop_at i c s)) = x # xs"
    using facts ok(2) by (auto simp: pop_at_def pop contents_at_def split: list.splits if_splits)
qed

interpretation queue_fifo: fifo "queue_inv i" "contents_at i" "other_contents i" budget_room cost_of
  "push_at i" "pop_at i" "\<lambda>r. r = QUEUE_OK" for i
proof unfold_locales
  fix s :: "Queue list \<times> ('a, 'b) queue_env_scheme" and x and c :: "queue_data \<times> u32 \<Rightarrow> bool"
  assume inv: "queue_inv i s"
  note pop = pop_at_facts [OF inv, of c]
  show "queue_inv i (snd (pop_at i c s))" "budget_room s \<le> budget_room (snd (pop_at i c s))"
    "other_contents i (snd (pop_at i c s)) = other_contents i s" by (rule pop)+
  show "contents_at i (snd (pop_at i c s)) = contents_at i s \<or> contents_at i (snd (pop_at i c s)) = tl (contents_at i s)"
    using pop(2) by (cases "contents_at i s") (simp_all split: if_splits)
  show "fst (fst (pop_at i c s)) = QUEUE_OK \<longleftrightarrow> contents_at i s \<noteq> [] \<and> c (hd (contents_at i s))"
    using pop(2) by (cases "contents_at i s"; cases "pop_at i c s") (simp_all split: if_splits)
  { assume "fst (fst (pop_at i c s)) = QUEUE_OK"
    then show "\<exists>x xs. contents_at i s = x # xs \<and> c x \<and> snd (fst (pop_at i c s)) = Some x
        \<and> contents_at i (snd (pop_at i c s)) = xs"
      using pop(2) by (cases "contents_at i s"; cases "pop_at i c s") (simp_all split: if_splits) }
  { assume "fst (fst (pop_at i c s)) \<noteq> QUEUE_OK"
    then show "contents_at i (snd (pop_at i c s)) = contents_at i s"
      using pop(2) by (cases "contents_at i s"; cases "pop_at i c s") (simp_all split: if_splits) }
  { assume "cost_of x < budget_room s"
    note push = push_at_facts [OF inv this]
    show "queue_inv i (snd (push_at i x s))" "budget_room s \<le> budget_room (snd (push_at i x s)) + cost_of x"
      "other_contents i (snd (push_at i x s)) = other_contents i s" by (rule push)+
    show "contents_at i (snd (push_at i x s)) = contents_at i s \<or> contents_at i (snd (push_at i x s)) = contents_at i s @ [x]"
      using push(2) by simp
    { assume "fst (push_at i x s) = QUEUE_OK"
      then show "contents_at i (snd (push_at i x s)) = contents_at i s @ [x]" using push(2) by simp }
    { assume "fst (push_at i x s) \<noteq> QUEUE_OK"
      then show "contents_at i (snd (push_at i x s)) = contents_at i s" using push(2) by simp } }
qed

section \<open>Properties\<close>

definition calm_queue_env_with :: "'h \<Rightarrow> 'h queue_env" where
  "calm_queue_env_with h = monitor_env.extend (calm_monitor_with h)
     \<lparr>queueItems = (\<lambda>_. None), nextItemAddress = 0\<rparr>"

abbreviation calm_queue_env :: "unit queue_env" where
  "calm_queue_env \<equiv> calm_queue_env_with ()"

lemma calm_queue_env_fields [simp]:
  "lockOk (calm_queue_env_with h) n" "allocOk (calm_queue_env_with h) n" "docs (calm_queue_env_with h) = h"
  "twinConfiguration (calm_queue_env_with h) = calm_configuration" "locks_work (calm_queue_env_with h)"
  "currentConsumptionInBytes (calm_queue_env_with h) = 0" "queueItems (calm_queue_env_with h) a = None"
  "fault (calm_queue_env_with h) = False"
  by (simp_all add: calm_queue_env_with_def calm_monitor_with_def calm_counters_with_def calm_twin_with_def
      calm_collectors_with_def calm_def locks_work_def env.defs docs_env.defs log_env.defs auth_env.defs local_env.defs collectors_env.defs
      twin_env.defs counter_env.defs monitor_env.defs queue_env.defs)

definition new_queue :: "nat \<Rightarrow> Queue" where
  "new_queue c = \<lparr>firstItem = None, lastItem = None, numberOfElements = 0, shouldSendLogs = True, counter = c\<rparr>"

lemma new_queue_contents [simp]: "addresses (new_queue c) w = []" "contents (new_queue c) w = []"
  "well_linked (new_queue c) w"
  by (simp_all add: new_queue_def contents_def addresses_def well_linked_def)

lemma calm_queues: "queues_ok [new_queue 0, new_queue 1] (calm_queue_env_with h)"
  by (simp add: queues_ok_def held_def less_Suc_eq)

text \<open>
  C1: a queue is a FIFO, whatever the locks of the budget and the counters, the allocator and the
  limit do.  Take any number of the agent's queues in order on one heap, and any sequence of pushes
  and conditional pops on one of them that the 32 bits of the budget have room for: what was popped,
  followed by what is still in the queue, is what was in it followed by what was accepted, in
  order; the other queues hold what they held; and all queues are still in order, which includes that
  no dangling or NULL pointer was followed and that the monitor still covers everything held.
\<close>

theorem queue_is_fifo:
  assumes "queues_ok qs w" and "i < length qs"
    and "booked_bytes w + sum_list (map cost_of (offered ops)) < 4294967296"
    and "run_fifo (push_at i) (pop_at i) (\<lambda>r. r = QUEUE_OK) ops (qs, w) = ((accepted, popped), (qs', w'))"
  shows "popped @ contents (qs' ! i) w' = contents (qs ! i) w @ accepted
    \<and> (\<forall>j < length qs. j \<noteq> i \<longrightarrow> contents (qs' ! j) w' = contents (qs ! j) w)
    \<and> queues_ok qs' w' \<and> length qs' = length qs"
proof -
  have inv: "queue_inv i (qs, w)" and room: "sum_list (map cost_of (offered ops)) < budget_room (qs, w)"
    using assms by (auto simp: queue_inv_def budget_room_def)
  have rest: "other_contents i (qs', w') = other_contents i (qs, w)"
    using queue_fifo.run_lossy [OF inv room] assms(4) by simp
  then have len: "length qs' = length qs"
    unfolding other_contents_def by (auto dest: map_eq_imp_length_eq)
  moreover have "contents (qs' ! j) w' = contents (qs ! j) w" if "j < length qs" "j \<noteq> i" for j
    using rest that len by (auto simp: other_contents_def contents_at_def split: if_splits)
  moreover have "queue_inv i (qs', w')" "popped @ contents_at i (qs', w') = contents_at i (qs, w) @ accepted"
    using queue_fifo.run_exact [OF inv room] assms(4) by simp_all
  ultimately show ?thesis by (simp add: queue_inv_def contents_at_def)
qed

lemma queue_is_fifo_witness:
  "\<exists>accepted popped qs' w'.
     run_fifo (push_at 1) (pop_at 1) (\<lambda>r. r = QUEUE_OK)
       [Push (EVENT ''a'', 1), Push (EVENT ''bc'', 2), Pop (\<lambda>_. True)] ([new_queue 0, new_queue 1], calm_queue_env)
     = ((accepted, popped), qs', w')
     \<and> popped @ contents (qs' ! 1) w' = accepted"
proof -
  obtain accepted popped qs' w' where
    run: "run_fifo (push_at 1) (pop_at 1) (\<lambda>r. r = QUEUE_OK)
       [Push (EVENT ''a'', 1), Push (EVENT ''bc'', 2), Pop (\<lambda>_. True)] ([new_queue 0, new_queue 1], calm_queue_env)
     = ((accepted, popped), qs', w')"
    by (metis prod.collapse)
  from queue_is_fifo [OF calm_queues _ _ run] run show ?thesis by (simp add: cost_of_def)
qed

text \<open>Under working locks a pop gives its bytes back exactly.\<close>

lemma PopFront_bytes:
  assumes "locks_work w" "well_linked q w" "contents q w = x # xs"
    and "unat (Queue_CalculateItemSize (snd x)) \<le> booked_bytes w"
  shows "booked_bytes (snd (Queue_PopFront q w)) + unat (Queue_CalculateItemSize (snd x)) = booked_bytes w"
proof -
  have ne: "numberOfElements q \<noteq> 0" using well_linkedD(7) [OF assms(2)] assms(3) by auto
  obtain a as i w1 where u: "queueItems w a = Some i" "item_at (firstItem q) w = Some i"
    "contents q w = (itemData i, itemDataSize i) # map (content_at (queueItems w)) as"
    "unlink_first q i w = (q\<lparr>firstItem := first_of as, lastItem := last_of as\<rparr>, w1)"
    "w1 = w\<lparr>queueItems := queueItems w1\<rparr>"
    by (rule unlink_first_linked [OF assms(2) ne]) blast
  let ?s = "Queue_CalculateItemSize (snd x)"
  have x: "x = (itemData i, itemDataSize i)" using assms(3) u(3) by simp
  have w1: "locks_work w1" "currentConsumptionInBytes w1 = currentConsumptionInBytes w"
    using assms(1) by (subst u(5), simp add: locks_work_def)+
  have "booked_bytes (snd (MemoryMonitor_Release ?s w1)) = booked_bytes w - unat ?s"
    using Release_success(2) [OF w1(1), of ?s] assms(4) w1(2) by (simp add: word_le_nat_alt unat_simps)
  moreover have "currentConsumptionInBytes (snd (Queue_PopFront q w)) =
      currentConsumptionInBytes (snd (MemoryMonitor_Release ?s w1))"
    using ne u x by (simp add: Queue_PopFront_def Let_def split_beta free_item_def split: option.split)
  ultimately show ?thesis using assms(4) by simp
qed

lemma pop_all_empties:
  assumes "queues_ok qs w" and "i < length qs" and "pop_all (qs ! i) w = ((freed, q'), w')"
  shows "freed = map fst (contents (qs ! i) w) \<and> contents q' w' = [] \<and> numberOfElements q' = 0
    \<and> queues_ok (qs[i := q']) w'
    \<and> (\<forall>j < length qs. j \<noteq> i \<longrightarrow> contents (qs ! j) w' = contents (qs ! j) w)
    \<and> (locks_work w \<longrightarrow> booked_bytes w' + held (contents (qs ! i) w) = booked_bytes w)"
  using assms
proof (induction "contents (qs ! i) w" arbitrary: qs w freed)
  case Nil
  note lin = queues_okD(1) [OF Nil(2,3)]
  have "numberOfElements (qs ! i) = 0" using well_linkedD(7) [OF lin] Nil(1) by (simp add: unat_eq_0)
  with Nil show ?case by (auto simp: pop_all.simps held_def)
next
  case (Cons x xs)
  note lin = queues_okD(1) [OF Cons(3,4)]
  have ne: "numberOfElements (qs ! i) \<noteq> 0" using well_linkedD(7) [OF lin] Cons(2) by auto
  obtain r out q1 w1 where pop: "Queue_PopFront (qs ! i) w = ((r, out, q1), w1)" by (metis prod.collapse)
  obtain f q2 w2 where rec: "pop_all q1 w1 = ((f, q2), w2)" by (metis prod.collapse)
  note facts = queues_ok_pop [OF Cons(3,4) pop, folded Cons(2), simplified]
  have res: "freed = fst x # f" "q' = q2" "w' = w2"
    using Cons(5) ne pop rec facts by (auto simp: pop_all.simps [of "qs ! i"] split: prod.splits)
  let ?qs = "qs[i := q1]"
  have IH: "f = map fst xs \<and> contents q' w' = [] \<and> numberOfElements q' = 0 \<and> queues_ok (?qs[i := q']) w'
    \<and> (\<forall>j < length ?qs. j \<noteq> i \<longrightarrow> contents (?qs ! j) w' = contents (?qs ! j) w1)
    \<and> (locks_work w1 \<longrightarrow> booked_bytes w' + held xs = booked_bytes w1)"
    using Cons(1) [of ?qs w1 f] facts Cons(4) rec res by simp
  have "booked_bytes w1 + cost_of x = booked_bytes w" if "locks_work w"
  proof -
    have "cost_of x \<le> booked_bytes w" using held_le [OF Cons(3,4)] by (simp add: Cons(2) [symmetric] held_def)
    moreover from this have "unat (Queue_CalculateItemSize (snd x)) = cost_of x"
      using u32_less [of "currentConsumptionInBytes w"] by (intro cost_sized) simp
    ultimately show ?thesis using PopFront_bytes [OF that lin Cons(2) [symmetric]] pop by simp
  qed
  moreover have "locks_work w1 = locks_work w"
    by (rule queued_keeps(7)) (use facts in blast)
  ultimately show ?case using IH facts res
    by (auto simp: Cons(2) [symmetric] held_def)
qed

text \<open>
  \<open>Queue_Deinit\<close> empties a queue and frees every datum in it exactly once, in order; it ends, follows
  no bad pointer, leaves the other queues as they are and in order, and, when no lock call fails, gives
  the monitor back exactly what the queue held.
\<close>

theorem queue_deinit_frees_all:
  assumes "queues_ok qs w" and "i < length qs" and "Queue_Deinit (qs ! i) w = ((freed, q'), w')"
  shows "freed = map fst (contents (qs ! i) w) \<and> contents q' w' = [] \<and> numberOfElements q' = 0
    \<and> queues_ok (qs[i := q']) w'
    \<and> (\<forall>j < length qs. j \<noteq> i \<longrightarrow> contents (qs ! j) w' = contents (qs ! j) w)
    \<and> (locks_work w \<longrightarrow> booked_bytes w' + held (contents (qs ! i) w) = booked_bytes w)"
proof -
  let ?w = "AgentTelemetryCounter_Deinit (counter (qs ! i)) w"
  have acc: "accounted w ?w"
    unfolding AgentTelemetryCounter_Deinit_def by (rule counted_accounted) (rule set_counter_counted)
  have bytes: "booked_bytes ?w = booked_bytes w"
    by (simp add: AgentTelemetryCounter_Deinit_def set_counter_def)
  have locks: "locks_work ?w = locks_work w" by (rule queued_keeps(7)) (rule accounted_queued [OF acc])
  have "queues_ok qs ?w" using queues_ok_accounted [OF assms(1) acc] bytes by simp
  from pop_all_empties [OF this assms(2)] assms(3) show ?thesis
    by (simp add: Queue_Deinit_def accounted_queue [OF acc] bytes locks)
qed

definition two_events :: "Queue \<times> unit queue_env" where
  "two_events =
     (let ((_, q1), w1) = Queue_PushBack (new_queue 0) (EVENT ''a'') 1 calm_queue_env;
          ((_, q2), w2) = Queue_PushBack q1 (EVENT ''bc'') 2 w1 in (q2, w2))"

lemma two_events_ok: "queues_ok [fst two_events] (snd two_events)"
proof -
  obtain r1 q1 w1 where p1: "Queue_PushBack (new_queue 0) (EVENT ''a'') 1 calm_queue_env = ((r1, q1), w1)"
    by (metis prod.collapse)
  obtain r2 q2 w2 where p2: "Queue_PushBack q1 (EVENT ''bc'') 2 w1 = ((r2, q2), w2)"
    by (metis prod.collapse)
  have "queues_ok [new_queue 0] calm_queue_env" by (simp add: queues_ok_def held_def)
  from queues_ok_push [of "[new_queue 0]" calm_queue_env 0, OF this, simplified, OF _ p1]
  have 1: "queues_ok [q1] w1" "booked_bytes w1 \<le> 41" by (simp_all add: cost_of_def)
  from queues_ok_push [of "[q1]" w1 0, OF 1(1), simplified, OF _ p2] 1(2)
  have "queues_ok [q2] w2" by (simp add: cost_of_def)
  then show ?thesis by (simp add: two_events_def p1 p2)
qed

lemma queue_deinit_frees_all_witness:
  "contents (snd (fst (Queue_Deinit (fst two_events) (snd two_events))))
     (snd (Queue_Deinit (fst two_events) (snd two_events))) = []"
  using queue_deinit_frees_all [OF two_events_ok, of 0
      "fst (fst (Queue_Deinit (fst two_events) (snd two_events)))"
      "snd (fst (Queue_Deinit (fst two_events) (snd two_events)))"
      "snd (Queue_Deinit (fst two_events) (snd two_events))"]
  by simp

lemma counter_new_queue [simp]: "counter (new_queue c) = c"
  by (simp add: new_queue_def)

text \<open>What the bookkeeping of a push does to the queue's own counter.\<close>

lemma accounted_link: "syncedCounters (snd (link_item q d n w)) = syncedCounters w"
  "lockOk (snd (link_item q d n w)) = lockOk w"
  by (simp_all add: link_item_def Let_def write_item_def split: option.split)

lemma IncreaseBy_locks: "lockOk (snd (AgentTelemetryCounter_IncreaseBy c i k w)) = lockOk w"
  using IncreaseBy_counted [of w c i k] by (auto simp: counted_def)

lemma monitor_counters:
  "syncedCounters (snd (MemoryMonitor_Consume n w)) = syncedCounters w"
  "lockOk (snd (MemoryMonitor_Consume n w)) = lockOk w"
  "syncedCounters (snd (MemoryMonitor_Release n u)) = syncedCounters u"
  "lockOk (snd (MemoryMonitor_Release n u)) = lockOk u"
  using Consume_metered [of w n] Release_metered [of u n] by (auto simp: metered_def)

text \<open>
  the queue's statistics are complete.  When no lock call fails, every push adds one to the queue's
  \<open>collected\<close> counter, accepted or not, and adds one to \<open>dropped\<close> exactly when it returns
  \<open>QUEUE_MAX_MEMORY_EXCEEDED\<close>; no other counter changes.
\<close>

theorem every_push_is_counted:
  assumes "locks_work w" and "Queue_PushBack queue d n w = ((r, queue'), w')"
  shows "syncedCounters w' = (syncedCounters w)
    (counter queue := sc_counter_update
       (\<lambda>c. add_to Collected 1 (if r = QUEUE_MAX_MEMORY_EXCEEDED then add_to Dropped 1 c else c)) (syncedCounters w (counter queue)))"
proof -
  obtain rc w1 where c: "MemoryMonitor_Consume (Queue_CalculateItemSize n) w = (rc, w1)" by fastforce
  have w1: "syncedCounters w1 = syncedCounters w" "lockOk w1 = lockOk w"
    using monitor_counters(1,2) [of "Queue_CalculateItemSize n" w] by (simp_all add: c)
  have rc: "rc = MEMORY_MONITOR_OK \<or> rc = MEMORY_MONITOR_MEMORY_EXCEEDED"
    using Consume_success(1) [OF assms(1), of "Queue_CalculateItemSize n"] by (auto simp: c split: if_splits)
  have link: "counter (fst (link_item queue d n v)) = counter queue" for v :: "('a, 'b) queue_env_scheme"
    by (simp add: link_item_def Let_def split_beta)
  have nt: "syncedCounters (next_tick v) = syncedCounters v" "lockOk (next_tick v) = lockOk v"
    for v :: "('a, 'b) queue_env_scheme" by (simp_all add: next_tick_def)
  have ok: "\<And>k. lockOk w k" using assms(1) by (simp add: locks_work_def)
  show ?thesis
  proof (cases "rc = MEMORY_MONITOR_OK")
    case True
    have "r \<noteq> QUEUE_MAX_MEMORY_EXCEEDED" "syncedCounters w' =
        (syncedCounters w)(counter queue := sc_counter_update (add_to Collected 1) (syncedCounters w (counter queue)))"
      using assms(2) c True
      by (auto simp: Queue_PushBack_def Let_def split_beta IncreaseBy_counter monitor_counters accounted_link nt w1 ok link
          split: if_splits)
    then show ?thesis by (simp del: add_to.simps)
  next
    case False
    with rc have "rc = MEMORY_MONITOR_MEMORY_EXCEEDED" by blast
    with assms(2) c have "r = QUEUE_MAX_MEMORY_EXCEEDED"
      and "w' = snd (AgentTelemetryCounter_IncreaseBy (counter queue) Collected 1
          (snd (AgentTelemetryCounter_IncreaseBy (counter queue) Dropped 1 w1)))"
      by (auto simp: Queue_PushBack_def Let_def consume_result_def)
    then show ?thesis
      by (simp add: IncreaseBy_counter IncreaseBy_locks w1 ok comp_def)
  qed
qed

lemma every_push_is_counted_witness:
  "collected (sc_counter (syncedCounters (snd (Queue_PushBack (new_queue 0) (EVENT ''a'') 1 calm_queue_env)) 0))
   = collected (sc_counter (syncedCounters calm_queue_env 0)) + 1"
proof -
  obtain r q w where p: "Queue_PushBack (new_queue 0) (EVENT ''a'') 1 calm_queue_env = ((r, q), w)"
    by (metis prod.collapse)
  from every_push_is_counted [OF _ p] show ?thesis
    by (cases "sc_counter (syncedCounters calm_queue_env 0)")
       (simp add: p collected_def)
qed

end
