(* ===== verification/Sync_Queue.thy ===== *)
theory Sync_Queue
  imports Queue
begin

text \<open>
  The queue under a lock, \<^verbatim>\<open>src/agent/src/synchronized_queue.c\<close>: the queue all threads of the agent
  use.  It keeps the contract \<open>lossy_fifo\<close> whatever its lock does, and \<open>fifo\<close> when no lock call fails.
\<close>

record SyncQueue =
  innerQueue :: Queue
  queueLock :: bool

text \<open>The \<open>int\<close> results: the codes of the queue and 100.\<close>

datatype SyncQueueResult = Queue_Result QueueResultValues | SYNC_QUEUE_LOCK_EXCEPTION

abbreviation SYNC_OK :: SyncQueueResult where
  "SYNC_OK \<equiv> Queue_Result QUEUE_OK"

section \<open>Operations\<close>

definition SyncQueue_Init ::
  "nat \<Rightarrow> bool \<Rightarrow> ('h, 'a) queue_env_scheme \<Rightarrow> (SyncQueueResult \<times> SyncQueue) \<times> ('h, 'a) queue_env_scheme" where
  "SyncQueue_Init counterAddress sendLogs w =
     (let ((r, q), w1) = Queue_Init counterAddress sendLogs w in
      if r \<noteq> QUEUE_OK then ((Queue_Result r, \<lparr>innerQueue = q, queueLock = False\<rparr>), w1)
      else
        let (ok, w2) = sys_ext w1 in
        if \<not> ok
        then let ((_, q'), w3) = Queue_Deinit q w2 in
          ((SYNC_QUEUE_LOCK_EXCEPTION, \<lparr>innerQueue = q', queueLock = False\<rparr>), w3)
        else ((SYNC_OK, \<lparr>innerQueue = q, queueLock = True\<rparr>), w2))"

definition SyncQueue_Deinit ::
  "SyncQueue \<Rightarrow> ('h, 'a) queue_env_scheme \<Rightarrow> (queue_data list \<times> SyncQueue) \<times> ('h, 'a) queue_env_scheme" where
  "SyncQueue_Deinit sq w =
     (let ((freed, q'), w1) = Queue_Deinit (innerQueue sq) w;
          w2 = (if queueLock sq then snd (sys_ext w1) else w1)
      in ((freed, sq\<lparr>innerQueue := q'\<rparr>), w2))"

definition SyncQueue_PushBack ::
  "SyncQueue \<Rightarrow> queue_data \<Rightarrow> u32 \<Rightarrow> ('h, 'a) queue_env_scheme \<Rightarrow>
    (SyncQueueResult \<times> SyncQueue) \<times> ('h, 'a) queue_env_scheme" where
  "SyncQueue_PushBack sq d dataSize =
     locked (SYNC_QUEUE_LOCK_EXCEPTION, sq) (\<lambda>(_, sq'). (SYNC_QUEUE_LOCK_EXCEPTION, sq'))
       (\<lambda>w. let ((r, q'), w') = Queue_PushBack (innerQueue sq) d dataSize w
            in ((Queue_Result r, sq\<lparr>innerQueue := q'\<rparr>), w'))"

definition SyncQueue_PopFront ::
  "SyncQueue \<Rightarrow> ('h, 'a) queue_env_scheme \<Rightarrow>
    (SyncQueueResult \<times> (queue_data \<times> u32) option \<times> SyncQueue) \<times> ('h, 'a) queue_env_scheme" where
  "SyncQueue_PopFront sq =
     locked (SYNC_QUEUE_LOCK_EXCEPTION, None, sq) (\<lambda>(_, out, sq'). (SYNC_QUEUE_LOCK_EXCEPTION, out, sq'))
       (\<lambda>w. let ((r, out, q'), w') = Queue_PopFront (innerQueue sq) w
            in ((Queue_Result r, out, sq\<lparr>innerQueue := q'\<rparr>), w'))"

definition SyncQueue_PopFrontIf ::
  "SyncQueue \<Rightarrow> (queue_data \<Rightarrow> u32 \<Rightarrow> bool) \<Rightarrow> ('h, 'a) queue_env_scheme \<Rightarrow>
    (SyncQueueResult \<times> (queue_data \<times> u32) option \<times> SyncQueue) \<times> ('h, 'a) queue_env_scheme" where
  "SyncQueue_PopFrontIf sq condition =
     locked (SYNC_QUEUE_LOCK_EXCEPTION, None, sq) (\<lambda>(_, out, sq'). (SYNC_QUEUE_LOCK_EXCEPTION, out, sq'))
       (\<lambda>w. let ((r, out, q'), w') = Queue_PopFrontIf (innerQueue sq) condition w
            in ((Queue_Result r, out, sq\<lparr>innerQueue := q'\<rparr>), w'))"

definition SyncQueue_GetSize ::
  "SyncQueue \<Rightarrow> ('h, 'a) queue_env_scheme \<Rightarrow> (SyncQueueResult \<times> u32 option) \<times> ('h, 'a) queue_env_scheme" where
  "SyncQueue_GetSize sq =
     locked (SYNC_QUEUE_LOCK_EXCEPTION, None) (\<lambda>(_, n). (SYNC_QUEUE_LOCK_EXCEPTION, n))
       (\<lambda>w. let (r, n) = Queue_GetSize (innerQueue sq) in ((Queue_Result r, Some n), w))"

section \<open>Through the lock\<close>

text \<open>
  The calls on the \<open>i\<close>-th queue of a list, and the plain queues inside.
\<close>

definition sync_push_at ::
  "nat \<Rightarrow> queue_data \<times> u32 \<Rightarrow> SyncQueue list \<times> ('h, 'a) queue_env_scheme \<Rightarrow>
    SyncQueueResult \<times> SyncQueue list \<times> ('h, 'a) queue_env_scheme" where
  "sync_push_at i x s =
     (let ((r, sq'), w') = SyncQueue_PushBack (fst s ! i) (fst x) (snd x) (snd s) in (r, (fst s)[i := sq'], w'))"

definition sync_pop_at ::
  "nat \<Rightarrow> (queue_data \<times> u32 \<Rightarrow> bool) \<Rightarrow> SyncQueue list \<times> ('h, 'a) queue_env_scheme \<Rightarrow>
    (SyncQueueResult \<times> (queue_data \<times> u32) option) \<times> SyncQueue list \<times> ('h, 'a) queue_env_scheme" where
  "sync_pop_at i c s =
     (let ((r, out, sq'), w') = SyncQueue_PopFrontIf (fst s ! i) (\<lambda>d n. c (d, n)) (snd s)
      in ((r, out), (fst s)[i := sq'], w'))"

definition inner :: "SyncQueue list \<times> ('h, 'a) queue_env_scheme \<Rightarrow> Queue list \<times> ('h, 'a) queue_env_scheme" where
  "inner s = (map innerQueue (fst s), snd s)"

text \<open>A step of the call counter is invisible to the queues.\<close>

lemma ticked_queues:
  assumes "ticked w w'"
  shows "queue_inv i (qs, w') = queue_inv i (qs, w)" "contents_at i (qs, w') = contents_at i (qs, w)"
    "other_contents i (qs, w') = other_contents i (qs, w)" "budget_room (qs, w') = budget_room (qs, w)"
    "locks_work w' = locks_work w"
proof -
  have acc: "accounted w w'" using assms by (rule accounted_intros)
  have bytes: "booked_bytes w' = booked_bytes w" using assms by (auto simp: ticked_def)
  then show "budget_room (qs, w') = budget_room (qs, w)" by (simp add: budget_room_def)
  show "locks_work w' = locks_work w" using assms by (rule locks_work_ticked)
  show "queue_inv i (qs, w') = queue_inv i (qs, w)"
    by (simp add: queue_inv_def queues_ok_def accounted_queue [OF acc] accounted_keeps [OF acc] bytes)
  show "contents_at i (qs, w') = contents_at i (qs, w)" "other_contents i (qs, w') = other_contents i (qs, w)"
    by (simp_all add: contents_at_def other_contents_def accounted_queue [OF acc])
qed

lemma lockOk_next [simp]: "lockOk (next_tick w) = lockOk w"
  by (simp add: next_tick_def)

text \<open>No operation of the queue changes which lock calls fail.\<close>

lemma PushBack_locks: "lockOk (snd (Queue_PushBack q d n w)) = lockOk w"
  by (simp add: Queue_PushBack_def Let_def split_beta IncreaseBy_locks monitor_counters accounted_link next_tick_def)

lemma PopFrontIf_locks: "lockOk (snd (Queue_PopFrontIf q c w)) = lockOk w"
  by (simp add: Queue_PopFrontIf_def Queue_PopFront_def Let_def split_beta monitor_counters unlink_first_def
      write_item_def free_item_def split: option.split)

text \<open>
  A synchronised call does nothing but fail, or does the plain call; then it may still report a
  failure.  Neither happens when the locks work.
\<close>

lemma sync_push_at_cases:
  assumes "i < length (fst s)"
  obtains (no_lock) w' where "sync_push_at i x s = (SYNC_QUEUE_LOCK_EXCEPTION, fst s, w')" "ticked (snd s) w'"
      "\<not> locks_work (snd s)"
  | (pushed) w1 r s1 r' sqs' w' where "ticked (snd s) w1" "push_at i x (map innerQueue (fst s), w1) = (r, s1)"
      "sync_push_at i x s = (r', sqs', w')" "map innerQueue sqs' = fst s1" "ticked (snd s1) w'"
      "r' = Queue_Result r \<or> r' = SYNC_QUEUE_LOCK_EXCEPTION \<and> \<not> locks_work (snd s)"
      "locks_work w' = locks_work (snd s)"
proof -
  let ?sq = "fst s ! i" and ?w1 = "next_tick (snd s)"
  obtain r q' w2 where push: "Queue_PushBack (innerQueue ?sq) (fst x) (snd x) ?w1 = ((r, q'), w2)"
    by (metis prod.collapse)
  have locks: "lockOk w2 = lockOk (snd s)"
    using PushBack_locks [of "innerQueue ?sq" "fst x" "snd x" ?w1] by (simp add: push)
  note defs = sync_push_at_def SyncQueue_PushBack_def locked_def sys_lock_def
  show thesis
  proof (cases "lockOk (snd s) (tick (snd s))")
    case False
    then show thesis
      by (intro no_lock [of ?w1]) (auto simp: defs locks_work_def)
  next
    case True
    let ?r' = "if lockOk w2 (tick w2) then Queue_Result r else SYNC_QUEUE_LOCK_EXCEPTION"
    show thesis
      by (rule pushed [of ?w1 r "((map innerQueue (fst s))[i := q'], w2)" ?r'
            "(fst s)[i := ?sq\<lparr>innerQueue := q'\<rparr>]" "next_tick w2"])
         (use assms push True locks in \<open>auto simp: defs push_at_def map_update locks_work_def\<close>)
  qed
qed

lemma sync_pop_at_cases:
  assumes "i < length (fst s)"
  obtains (no_lock) w' where "sync_pop_at i c s = ((SYNC_QUEUE_LOCK_EXCEPTION, None), fst s, w')" "ticked (snd s) w'"
      "\<not> locks_work (snd s)"
  | (popped) w1 r out s1 r' sqs' w' where "ticked (snd s) w1"
      "pop_at i c (map innerQueue (fst s), w1) = ((r, out), s1)"
      "sync_pop_at i c s = ((r', out), sqs', w')" "map innerQueue sqs' = fst s1" "ticked (snd s1) w'"
      "r' = Queue_Result r \<or> r' = SYNC_QUEUE_LOCK_EXCEPTION \<and> \<not> locks_work (snd s)"
      "locks_work w' = locks_work (snd s)"
proof -
  let ?sq = "fst s ! i" and ?w1 = "next_tick (snd s)"
  obtain r out q' w2 where pop: "Queue_PopFrontIf (innerQueue ?sq) (\<lambda>d n. c (d, n)) ?w1 = ((r, out, q'), w2)"
    by (metis prod.collapse)
  have locks: "lockOk w2 = lockOk (snd s)"
    using PopFrontIf_locks [of "innerQueue ?sq" "\<lambda>d n. c (d, n)" ?w1] by (simp add: pop)
  note defs = sync_pop_at_def SyncQueue_PopFrontIf_def locked_def sys_lock_def
  show thesis
  proof (cases "lockOk (snd s) (tick (snd s))")
    case False
    then show thesis
      by (intro no_lock [of ?w1]) (auto simp: defs locks_work_def)
  next
    case True
    let ?r' = "if lockOk w2 (tick w2) then Queue_Result r else SYNC_QUEUE_LOCK_EXCEPTION"
    show thesis
      by (rule popped [of ?w1 r out "((map innerQueue (fst s))[i := q'], w2)" ?r'
            "(fst s)[i := ?sq\<lparr>innerQueue := q'\<rparr>]" "next_tick w2"])
         (use assms pop True locks in \<open>auto simp: defs pop_at_def map_update locks_work_def\<close>)
  qed
qed

section \<open>The synchronised queue keeps the contract\<close>

definition sync_inv :: "nat \<Rightarrow> SyncQueue list \<times> ('h, 'a) queue_env_scheme \<Rightarrow> bool" where
  "sync_inv i s \<longleftrightarrow> queue_inv i (inner s)"

definition sync_contents :: "nat \<Rightarrow> SyncQueue list \<times> ('h, 'a) queue_env_scheme \<Rightarrow> (queue_data \<times> u32) list" where
  "sync_contents i s = contents_at i (inner s)"

definition sync_others :: "nat \<Rightarrow> SyncQueue list \<times> ('h, 'a) queue_env_scheme \<Rightarrow> (queue_data \<times> u32) list list" where
  "sync_others i s = other_contents i (inner s)"

definition sync_room :: "SyncQueue list \<times> ('h, 'a) queue_env_scheme \<Rightarrow> nat" where
  "sync_room s = budget_room (inner s)"

lemmas sync_views = sync_inv_def sync_contents_def sync_others_def sync_room_def inner_def

lemma sync_inv_length: "sync_inv i s \<Longrightarrow> i < length (fst s)"
  by (simp add: sync_views queue_inv_def)

lemma views_ticked:
  assumes "ticked (snd s) w'"
  shows "queue_inv i (fst s, w') = queue_inv i s" "contents_at i (fst s, w') = contents_at i s"
    "other_contents i (fst s, w') = other_contents i s" "budget_room (fst s, w') = budget_room s"
proof -
  obtain qs w where s: "s = (qs, w)" by fastforce
  with assms have "ticked w w'" by simp
  from ticked_queues [OF this]
  show "queue_inv i (fst s, w') = queue_inv i s" "contents_at i (fst s, w') = contents_at i s"
    "other_contents i (fst s, w') = other_contents i s" "budget_room (fst s, w') = budget_room s"
    by (simp_all add: s)
qed

lemma sync_push_facts:
  assumes inv: "sync_inv i s" and room: "cost_of x < sync_room s"
  shows "sync_inv i (snd (sync_push_at i x s)) \<and> sync_room s \<le> sync_room (snd (sync_push_at i x s)) + cost_of x
    \<and> sync_others i (snd (sync_push_at i x s)) = sync_others i s
    \<and> (sync_contents i (snd (sync_push_at i x s)) = sync_contents i s
       \<or> sync_contents i (snd (sync_push_at i x s)) = sync_contents i s @ [x])
    \<and> (fst (sync_push_at i x s) = SYNC_OK \<longrightarrow> sync_contents i (snd (sync_push_at i x s)) = sync_contents i s @ [x])
    \<and> (locks_work (snd s) \<longrightarrow> locks_work (snd (snd (sync_push_at i x s)))
        \<and> (fst (sync_push_at i x s) \<noteq> SYNC_OK \<longrightarrow> sync_contents i (snd (sync_push_at i x s)) = sync_contents i s))"
proof (rule sync_push_at_cases [OF sync_inv_length [OF inv], where x = x])
  fix w'
  assume *: "sync_push_at i x s = (SYNC_QUEUE_LOCK_EXCEPTION, fst s, w')" "ticked (snd s) w'" "\<not> locks_work (snd s)"
  show ?thesis
    using inv *(1,3) by (simp add: sync_views ticked_queues [OF *(2)])
next
  fix w1 r s1 r' sqs' w'
  assume *: "ticked (snd s) w1" "push_at i x (map innerQueue (fst s), w1) = (r, s1)"
    "sync_push_at i x s = (r', sqs', w')" "map innerQueue sqs' = fst s1" "ticked (snd s1) w'"
    "r' = Queue_Result r \<or> r' = SYNC_QUEUE_LOCK_EXCEPTION \<and> \<not> locks_work (snd s)"
    "locks_work w' = locks_work (snd s)"
  have "queue_inv i (map innerQueue (fst s), w1)" "cost_of x < budget_room (map innerQueue (fst s), w1)"
    using inv room by (simp_all add: sync_views ticked_queues [OF *(1)])
  from push_at_facts [OF this] show ?thesis
    using *(6,7) by (auto simp: sync_views *(2,3,4) views_ticked [OF *(5)] ticked_queues [OF *(1)])
qed

lemma sync_pop_facts:
  assumes inv: "sync_inv i s"
  shows "sync_inv i (snd (sync_pop_at i c s)) \<and> sync_room s \<le> sync_room (snd (sync_pop_at i c s))
    \<and> sync_others i (snd (sync_pop_at i c s)) = sync_others i s
    \<and> (sync_contents i (snd (sync_pop_at i c s)) = sync_contents i s
       \<or> sync_contents i (snd (sync_pop_at i c s)) = tl (sync_contents i s))
    \<and> (fst (fst (sync_pop_at i c s)) = SYNC_OK \<longrightarrow>
        (\<exists>x xs. sync_contents i s = x # xs \<and> c x \<and> snd (fst (sync_pop_at i c s)) = Some x
          \<and> sync_contents i (snd (sync_pop_at i c s)) = xs))
    \<and> (locks_work (snd s) \<longrightarrow> locks_work (snd (snd (sync_pop_at i c s)))
        \<and> (fst (fst (sync_pop_at i c s)) = SYNC_OK \<longleftrightarrow> sync_contents i s \<noteq> [] \<and> c (hd (sync_contents i s)))
        \<and> (fst (fst (sync_pop_at i c s)) \<noteq> SYNC_OK \<longrightarrow> sync_contents i (snd (sync_pop_at i c s)) = sync_contents i s
           \<and> fst (fst (sync_pop_at i c s)) =
             (if sync_contents i s = [] then Queue_Result QUEUE_IS_EMPTY else Queue_Result QUEUE_CONDITION_FAILED)))"
proof (rule sync_pop_at_cases [OF sync_inv_length [OF inv], where c = c])
  fix w'
  assume *: "sync_pop_at i c s = ((SYNC_QUEUE_LOCK_EXCEPTION, None), fst s, w')" "ticked (snd s) w'" "\<not> locks_work (snd s)"
  show ?thesis
    using inv *(1,3) by (simp add: sync_views ticked_queues [OF *(2)])
next
  fix w1 r out s1 r' sqs' w'
  assume *: "ticked (snd s) w1" "pop_at i c (map innerQueue (fst s), w1) = ((r, out), s1)"
    "sync_pop_at i c s = ((r', out), sqs', w')" "map innerQueue sqs' = fst s1" "ticked (snd s1) w'"
    "r' = Queue_Result r \<or> r' = SYNC_QUEUE_LOCK_EXCEPTION \<and> \<not> locks_work (snd s)"
    "locks_work w' = locks_work (snd s)"
  have "queue_inv i (map innerQueue (fst s), w1)"
    using inv by (simp add: sync_views ticked_queues [OF *(1)])
  from pop_at_facts [OF this, of c] show ?thesis
    using *(6,7)
    by (cases "contents_at i (map innerQueue (fst s), w1)")
       (auto simp: sync_views *(2,3,4) views_ticked [OF *(5)] ticked_queues [OF *(1), symmetric] split: if_splits)
qed

interpretation sync_lossy: lossy_fifo "sync_inv i" "sync_contents i" "sync_others i" sync_room cost_of
  "sync_push_at i" "sync_pop_at i" "\<lambda>r. r = SYNC_OK" for i
  by unfold_locales (use sync_push_facts sync_pop_facts in blast)+

interpretation sync_fifo: fifo "\<lambda>s. sync_inv i s \<and> locks_work (snd s)" "sync_contents i" "sync_others i" sync_room
  cost_of "sync_push_at i" "sync_pop_at i" "\<lambda>r. r = SYNC_OK" for i
  by unfold_locales (use sync_push_facts sync_pop_facts in blast)+

section \<open>Properties\<close>

definition sync_queues_ok :: "SyncQueue list \<Rightarrow> ('h, 'a) queue_env_scheme \<Rightarrow> bool" where
  "sync_queues_ok sqs w \<longleftrightarrow> queues_ok (map innerQueue sqs) w"

definition sync_items :: "SyncQueue \<Rightarrow> ('h, 'a) queue_env_scheme \<Rightarrow> (queue_data \<times> u32) list" where
  "sync_items sq w = contents (innerQueue sq) w"

lemma sync_inv_iff: "sync_inv i (sqs, w) \<longleftrightarrow> sync_queues_ok sqs w \<and> i < length sqs"
  by (simp add: sync_views queue_inv_def sync_queues_ok_def)

lemma sync_contents_items: "i < length sqs \<Longrightarrow> sync_contents i (sqs, w) = sync_items (sqs ! i) w"
  by (simp add: sync_views contents_at_def sync_items_def)

lemma sync_others_same:
  assumes "sync_others i (sqs', w') = sync_others i (sqs, w)"
  shows "length sqs' = length sqs"
    "j < length sqs \<Longrightarrow> j \<noteq> i \<Longrightarrow> sync_items (sqs' ! j) w' = sync_items (sqs ! j) w"
proof -
  show len: "length sqs' = length sqs"
    using assms by (auto simp: sync_views other_contents_def dest: map_eq_imp_length_eq)
  show "j < length sqs \<Longrightarrow> j \<noteq> i \<Longrightarrow> sync_items (sqs' ! j) w' = sync_items (sqs ! j) w"
    using assms len by (auto simp: sync_views other_contents_def contents_at_def sync_items_def split: if_splits)
qed

definition new_sync :: "nat \<Rightarrow> SyncQueue" where
  "new_sync c = \<lparr>innerQueue = new_queue c, queueLock = True\<rparr>"

lemma calm_sync_queues: "sync_queues_ok [new_sync 0, new_sync 1] (calm_queue_env_with h)"
  "sync_queues_ok [new_sync 0] (calm_queue_env_with h)"
  "sync_queues_ok [new_sync 0, new_sync 1, new_sync 2] (calm_queue_env_with h)"
  by (simp_all add: sync_queues_ok_def new_sync_def queues_ok_def held_def less_Suc_eq)

text \<open>
  C2: the queue the agent's threads share keeps order under every failure.  Whatever the locks, the
  allocator and the budget do, after any sequence of operations the events whose pop succeeded,
  followed by those still queued, form a subsequence of those first in the queue followed by those
  offered: nothing is invented, duplicated or reordered, and the other queues hold what they held.
  When no lock call fails, it is exactly what was first there followed by the accepted events:
  nothing is lost either.
\<close>

theorem sync_queue_keeps_order:
  assumes "sync_queues_ok sqs w" and "i < length sqs"
    and "booked_bytes w + sum_list (map cost_of (offered ops)) < 4294967296"
    and "run_fifo (sync_push_at i) (sync_pop_at i) (\<lambda>r. r = SYNC_OK) ops (sqs, w) = ((accepted, popped), (sqs', w'))"
  shows "subseq (popped @ sync_items (sqs' ! i) w') (sync_items (sqs ! i) w @ offered ops)
    \<and> sync_queues_ok sqs' w' \<and> length sqs' = length sqs
    \<and> (\<forall>j < length sqs. j \<noteq> i \<longrightarrow> sync_items (sqs' ! j) w' = sync_items (sqs ! j) w)
    \<and> (locks_work w \<longrightarrow> popped @ sync_items (sqs' ! i) w' = sync_items (sqs ! i) w @ accepted)"
proof -
  have inv: "sync_inv i (sqs, w)" using assms by (simp add: sync_inv_iff)
  have room: "sum_list (map cost_of (offered ops)) < sync_room (sqs, w)"
    using assms by (simp add: sync_views budget_room_def)
  have end_inv: "sync_inv i (sqs', w')" and rest: "sync_others i (sqs', w') = sync_others i (sqs, w)"
    and order: "subseq (popped @ sync_contents i (sqs', w')) (sync_contents i (sqs, w) @ offered ops)"
    using sync_lossy.run_lossy [OF inv room] assms(4) by simp_all
  have exact: "popped @ sync_contents i (sqs', w') = sync_contents i (sqs, w) @ accepted" if "locks_work w"
    using sync_fifo.run_exact [of i "(sqs, w)" ops] inv room assms(4) that by simp
  show ?thesis
    using end_inv order exact sync_others_same [OF rest] assms(2)
    by (auto simp: sync_inv_iff sync_contents_items)
qed

lemma sync_queue_keeps_order_witness:
  "\<exists>accepted popped sqs' w'.
     run_fifo (sync_push_at 1) (sync_pop_at 1) (\<lambda>r. r = SYNC_OK)
       [Push (EVENT ''a'', 1), Pop (\<lambda>_. True)] ([new_sync 0, new_sync 1], calm_queue_env)
     = ((accepted, popped), sqs', w')
     \<and> popped @ sync_items (sqs' ! 1) w' = accepted"
proof -
  obtain accepted popped sqs' w' where
    run: "run_fifo (sync_push_at 1) (sync_pop_at 1) (\<lambda>r. r = SYNC_OK)
       [Push (EVENT ''a'', 1), Pop (\<lambda>_. True)] ([new_sync 0, new_sync 1], calm_queue_env)
     = ((accepted, popped), sqs', w')"
    by (metis prod.collapse)
  from sync_queue_keeps_order [OF calm_sync_queues(1) _ _ run] run show ?thesis
    by (simp add: cost_of_def sync_items_def new_sync_def)
qed

section \<open>The calls one by one\<close>

lemma ticked_sync:
  assumes "ticked w w'"
  shows "sync_queues_ok sqs w' = sync_queues_ok sqs w" "sync_items sq w' = sync_items sq w" "queued w w'"
    "booked_bytes w' = booked_bytes w"
proof -
  have acc: "accounted w w'" using assms by (rule accounted_intros)
  show bytes: "booked_bytes w' = booked_bytes w" using assms by (auto simp: ticked_def)
  show "sync_queues_ok sqs w' = sync_queues_ok sqs w"
    by (simp add: sync_queues_ok_def queues_ok_def accounted_queue [OF acc] accounted_keeps [OF acc] bytes)
  show "sync_items sq w' = sync_items sq w" by (simp add: sync_items_def accounted_queue [OF acc])
  show "queued w w'" by (rule accounted_queued [OF acc])
qed

lemma sync_pop_if_items:
  assumes ok: "sync_queues_ok sqs w" and i: "i < length sqs"
    and pop: "SyncQueue_PopFrontIf (sqs ! i) c w = ((r, out, sq'), w')"
  shows "sync_queues_ok (sqs[i := sq']) w' \<and> queued w w' \<and> booked_bytes w' \<le> booked_bytes w
    \<and> (\<forall>j < length sqs. j \<noteq> i \<longrightarrow> sync_items (sqs ! j) w' = sync_items (sqs ! j) w)
    \<and> (sync_items sq' w' = sync_items (sqs ! i) w \<or> sync_items sq' w' = tl (sync_items (sqs ! i) w))
    \<and> (r = SYNC_OK \<longrightarrow> (\<exists>x xs. sync_items (sqs ! i) w = x # xs \<and> c (fst x) (snd x) \<and> out = Some x \<and> sync_items sq' w' = xs))
    \<and> (r = Queue_Result QUEUE_IS_EMPTY \<longrightarrow> sync_items (sqs ! i) w = [] \<and> sync_items sq' w' = [])
    \<and> (r = Queue_Result QUEUE_CONDITION_FAILED \<longrightarrow>
        (\<exists>x xs. sync_items (sqs ! i) w = x # xs \<and> \<not> c (fst x) (snd x) \<and> sync_items sq' w' = x # xs))"
proof -
  have ran: "sync_queues_ok (sqs[i := (sqs ! i)\<lparr>innerQueue := q0\<rparr>]) w'
      \<and> queued w w' \<and> booked_bytes w' \<le> booked_bytes w
      \<and> (\<forall>j < length sqs. j \<noteq> i \<longrightarrow> sync_items (sqs ! j) w' = sync_items (sqs ! j) w)
      \<and> (case sync_items (sqs ! i) w of [] \<Rightarrow> r0 = QUEUE_IS_EMPTY \<and> out0 = None \<and> contents q0 w' = []
         | x # xs \<Rightarrow> if c (fst x) (snd x) then r0 = QUEUE_OK \<and> out0 = Some x \<and> contents q0 w' = xs
                   else r0 = QUEUE_CONDITION_FAILED \<and> out0 = None \<and> contents q0 w' = x # xs)"
    if t: "ticked w w1" "ticked w2 w'" and p: "Queue_PopFrontIf (innerQueue (sqs ! i)) c w1 = ((r0, out0, q0), w2)"
    for w1 w2 r0 out0 q0
  proof -
    have "queues_ok (map innerQueue sqs) w1" using ok ticked_sync(1) [OF t(1)] by (simp add: sync_queues_ok_def)
    from queues_ok_pop_if [OF this, of i c r0 out0 q0 w2] i p
    have facts: "queues_ok ((map innerQueue sqs)[i := q0]) w2"
      "\<forall>j < length sqs. j \<noteq> i \<longrightarrow> contents (innerQueue (sqs ! j)) w2 = contents (innerQueue (sqs ! j)) w1"
      "case contents (innerQueue (sqs ! i)) w1 of [] \<Rightarrow> r0 = QUEUE_IS_EMPTY \<and> out0 = None \<and> contents q0 w2 = []
         | x # xs \<Rightarrow> if c (fst x) (snd x) then r0 = QUEUE_OK \<and> out0 = Some x \<and> contents q0 w2 = xs
                   else r0 = QUEUE_CONDITION_FAILED \<and> out0 = None \<and> contents q0 w2 = x # xs"
      "booked_bytes w2 \<le> booked_bytes w1" "queued w1 w2"
      by simp_all
    have "sync_queues_ok (sqs[i := (sqs ! i)\<lparr>innerQueue := q0\<rparr>]) w2"
      using facts(1) by (simp add: sync_queues_ok_def map_update)
    moreover have "queued w w'" using ticked_sync(3) [OF t(1)] facts(5) ticked_sync(3) [OF t(2)] queued_trans by blast
    moreover have "contents q0 w' = contents q0 w2" by (rule accounted_queue) (rule accounted_intros, rule t)
    ultimately show ?thesis
      using facts(2-4) ticked_sync [OF t(1)] ticked_sync [OF t(2)]
      by (cases "contents (innerQueue (sqs ! i)) w") (simp_all add: sync_items_def)
  qed
  from pop show ?thesis unfolding SyncQueue_PopFrontIf_def
  proof (cases rule: locked_cases)
    case no_lock
    then show ?thesis using ok ticked_sync [OF no_lock(2)] by simp
  next
    case (unlock_failed x w1 w2)
    obtain r0 out0 q0 w3 where p: "Queue_PopFrontIf (innerQueue (sqs ! i)) c w1 = ((r0, out0, q0), w3)"
      by (metis prod.collapse)
    with unlock_failed have eqs: "w3 = w2" "r = SYNC_QUEUE_LOCK_EXCEPTION" "sq' = (sqs ! i)\<lparr>innerQueue := q0\<rparr>" by auto
    from ran [OF unlock_failed(1,3)] p eqs show ?thesis
      by (cases "sync_items (sqs ! i) w") (auto simp: sync_items_def split: if_splits)
  next
    case (completed w1 w2)
    obtain r0 out0 q0 w3 where p: "Queue_PopFrontIf (innerQueue (sqs ! i)) c w1 = ((r0, out0, q0), w3)"
      by (metis prod.collapse)
    with completed have eqs: "w3 = w2" "r = Queue_Result r0" "out = out0" "sq' = (sqs ! i)\<lparr>innerQueue := q0\<rparr>" by auto
    from ran [OF completed(1,3)] p eqs show ?thesis
      by (cases "sync_items (sqs ! i) w") (auto simp: sync_items_def split: if_splits)
  qed
qed

lemma GetSize_items:
  assumes "sync_queues_ok sqs w" and "i < length sqs" and "SyncQueue_GetSize (sqs ! i) w = ((r, n), w')"
  shows "ticked w w'" and "r = SYNC_OK \<Longrightarrow> \<exists>k. n = Some k \<and> unat k = length (sync_items (sqs ! i) w)"
proof -
  have "unat (numberOfElements (innerQueue (sqs ! i))) = length (sync_items (sqs ! i) w)"
    using well_linkedD(7) [OF queues_okD(1) [OF assms(1) [unfolded sync_queues_ok_def]], of i] assms(2)
    by (simp add: sync_items_def)
  with assms(3) show "ticked w w'" "r = SYNC_OK \<Longrightarrow> \<exists>k. n = Some k \<and> unat k = length (sync_items (sqs ! i) w)"
    unfolding SyncQueue_GetSize_def
    by (auto elim!: locked_cases simp: Queue_GetSize_def intro: ticked_trans)
qed

lemma sync_push_items:
  assumes ok: "sync_queues_ok sqs w" and i: "i < length sqs"
    and fits: "booked_bytes w + cost_of (d, n) < 4294967296"
    and push: "SyncQueue_PushBack (sqs ! i) d n w = ((r, sq'), w')"
  shows "sync_queues_ok (sqs[i := sq']) w' \<and> queued w w' \<and> booked_bytes w' \<le> booked_bytes w + cost_of (d, n)
    \<and> (\<forall>j < length sqs. j \<noteq> i \<longrightarrow> sync_items (sqs ! j) w' = sync_items (sqs ! j) w)
    \<and> (sync_items sq' w' = sync_items (sqs ! i) w \<or> sync_items sq' w' = sync_items (sqs ! i) w @ [(d, n)])
    \<and> (r = SYNC_OK \<longrightarrow> sync_items sq' w' = sync_items (sqs ! i) w @ [(d, n)])
    \<and> (r = SYNC_QUEUE_LOCK_EXCEPTION \<or> (r \<noteq> SYNC_OK \<longrightarrow> sync_items sq' w' = sync_items (sqs ! i) w))"
proof -
  have ran: "sync_queues_ok (sqs[i := (sqs ! i)\<lparr>innerQueue := q0\<rparr>]) w'
      \<and> queued w w' \<and> booked_bytes w' \<le> booked_bytes w + cost_of (d, n)
      \<and> (\<forall>j < length sqs. j \<noteq> i \<longrightarrow> sync_items (sqs ! j) w' = sync_items (sqs ! j) w)
      \<and> contents q0 w' = (if r0 = QUEUE_OK then sync_items (sqs ! i) w @ [(d, n)] else sync_items (sqs ! i) w)"
    if t: "ticked w w1" "ticked w2 w'" and p: "Queue_PushBack (innerQueue (sqs ! i)) d n w1 = ((r0, q0), w2)"
    for w1 w2 r0 q0
  proof -
    note T1 = ticked_sync [OF t(1)] and T2 = ticked_sync [OF t(2)]
    have "queues_ok (map innerQueue sqs) w1" using ok T1(1) by (simp add: sync_queues_ok_def)
    from queues_ok_push [OF this, of i d n r0 q0 w2] i p fits T1(4)
    have facts: "queues_ok ((map innerQueue sqs)[i := q0]) w2"
      "\<forall>j < length sqs. j \<noteq> i \<longrightarrow> contents (innerQueue (sqs ! j)) w2 = contents (innerQueue (sqs ! j)) w1"
      "contents q0 w2 = (if r0 = QUEUE_OK then contents (innerQueue (sqs ! i)) w1 @ [(d, n)]
         else contents (innerQueue (sqs ! i)) w1)"
      "booked_bytes w2 \<le> booked_bytes w1 + cost_of (d, n)" "queued w1 w2"
      by simp_all
    have "sync_queues_ok (sqs[i := (sqs ! i)\<lparr>innerQueue := q0\<rparr>]) w2"
      using facts(1) by (simp add: sync_queues_ok_def map_update)
    moreover have "queued w w'" using T1(3) facts(5) T2(3) queued_trans by blast
    moreover have "contents q0 w' = contents q0 w2" by (rule accounted_queue) (rule accounted_intros, rule t)
    ultimately show ?thesis
      using facts(2-4) T1 T2 by (simp add: sync_items_def)
  qed
  from push show ?thesis unfolding SyncQueue_PushBack_def
  proof (cases rule: locked_cases)
    case no_lock
    then show ?thesis using ok ticked_sync [OF no_lock(2)] by simp
  next
    case (unlock_failed x w1 w2)
    obtain r0 q0 w3 where p: "Queue_PushBack (innerQueue (sqs ! i)) d n w1 = ((r0, q0), w3)"
      by (metis prod.collapse)
    with unlock_failed have eqs: "w3 = w2" "r = SYNC_QUEUE_LOCK_EXCEPTION" "sq' = (sqs ! i)\<lparr>innerQueue := q0\<rparr>" by auto
    from ran [OF unlock_failed(1,3)] p eqs show ?thesis by (auto simp: sync_items_def)
  next
    case (completed w1 w2)
    obtain r0 q0 w3 where p: "Queue_PushBack (innerQueue (sqs ! i)) d n w1 = ((r0, q0), w3)"
      by (metis prod.collapse)
    with completed have eqs: "w3 = w2" "r = Queue_Result r0" "sq' = (sqs ! i)\<lparr>innerQueue := q0\<rparr>" by auto
    from ran [OF completed(1,3)] p eqs show ?thesis by (auto simp: sync_items_def)
  qed
qed

text \<open>A pop without a condition is one whose condition always holds.\<close>

lemma sync_pop_items:
  assumes ok: "sync_queues_ok sqs w" and i: "i < length sqs"
  shows "SyncQueue_PopFront (sqs ! i) w = SyncQueue_PopFrontIf (sqs ! i) (\<lambda>_ _. True) w"
proof -
  have lin: "well_linked (innerQueue (sqs ! i)) (next_tick w)"
    using queues_okD(1) [OF ok [unfolded sync_queues_ok_def], of i] i accounted_queue(3) [OF accounted_intros(1), of w "next_tick w"]
    by simp
  have "Queue_PopFront (innerQueue (sqs ! i)) (next_tick w) = Queue_PopFrontIf (innerQueue (sqs ! i)) (\<lambda>_ _. True) (next_tick w)"
  proof (cases "numberOfElements (innerQueue (sqs ! i)) = 0")
    case True
    then show ?thesis by (simp add: Queue_PopFrontIf_def Queue_PopFront_def)
  next
    case False
    obtain a as it w1 where "item_at (firstItem (innerQueue (sqs ! i))) (next_tick w) = Some it"
      by (rule unlink_first_linked [OF lin False]) blast
    with False show ?thesis by (simp add: Queue_PopFrontIf_def)
  qed
  then show ?thesis
    by (simp add: SyncQueue_PopFront_def SyncQueue_PopFrontIf_def locked_def Let_def split_beta)
qed

end
