(* ===== verification/IoTHub_Adapter.thy ===== *)
theory IoTHub_Adapter
  imports Sync_Queue
begin

text \<open>
  The connection to the hub, \<^verbatim>\<open>src/agent/src/iothub_adapter.c\<close>, and the life of a queued twin update
  (\<open>UpdateTwinTask_InitUpdateTwinTaskItem\<close> and its counterpart of \<^verbatim>\<open>tasks/update_twin_task.c\<close>, which the twin
  callback uses).  The module client belongs to the IoT SDK, which is not part of the repository: its
  calls succeed or fail as the oracle \<open>extOk\<close> says, a handle is an address, live until it is destroyed,
  and a call on a dead handle raises \<open>fault\<close>.  What the SDK accepted is recorded in \<open>sentTexts\<close>
  and \<open>reportedProperties\<close>.  The SDK calls the adapter back from its own thread; while \<open>Connect\<close> sleeps,
  the callbacks it makes in each sleep are an argument.
\<close>

datatype IOTHUB_CLIENT_CONNECTION_STATUS =
  IOTHUB_CLIENT_CONNECTION_AUTHENTICATED | IOTHUB_CLIENT_CONNECTION_UNAUTHENTICATED

datatype IOTHUB_CLIENT_CONNECTION_STATUS_REASON =
  IOTHUB_CLIENT_CONNECTION_EXPIRED_SAS_TOKEN | IOTHUB_CLIENT_CONNECTION_DEVICE_DISABLED
| IOTHUB_CLIENT_CONNECTION_BAD_CREDENTIAL | IOTHUB_CLIENT_CONNECTION_RETRY_EXPIRED
| IOTHUB_CLIENT_CONNECTION_NO_NETWORK | IOTHUB_CLIENT_CONNECTION_COMMUNICATION_ERROR
| IOTHUB_CLIENT_CONNECTION_OK

datatype DEVICE_TWIN_UPDATE_STATE = DEVICE_TWIN_UPDATE_COMPLETE | DEVICE_TWIN_UPDATE_PARTIAL

text \<open>\<open>twinUpdatesQueue\<close> is the position of the queue in the list of the agent's queues, \<open>messageCounter\<close>
  the address of the counter inside the adapter.\<close>

record IoTHubAdapter =
  moduleHandle :: "nat option"
  hasTwinConfiguration :: bool
  connected :: bool
  connectionStatusReason :: IOTHUB_CLIENT_CONNECTION_STATUS_REASON
  hubInitiated :: bool
  twinUpdatesQueue :: nat
  messageCounter :: nat

datatype UpdateTwinState = TWIN_COMPLETE | TWIN_PARTIAL

record UpdateTwinTaskItem =
  twinState :: UpdateTwinState
  twinPayload :: string

record 'h hub_env = "'h queue_env" +
  iotHubAdapterLock :: bool
  liveModules :: "nat set"
  nextModule :: nat
  twinItems :: "nat \<Rightarrow> UpdateTwinTaskItem option"
  nextTwinItem :: nat
  sentTexts :: "string list"
  reportedProperties :: "string list"

section \<open>Queued twin updates\<close>

definition sizeof_UpdateTwinTaskItem :: u32 where "sizeof_UpdateTwinTaskItem = 16"

text \<open>
  The result and what \<open>*twinTaskItem\<close> points to.  When the payload cannot be allocated, the item is
  freed through a local copy of the pointer, and \<open>*twinTaskItem\<close> still holds its address.
\<close>

definition UpdateTwinTask_InitUpdateTwinTaskItem ::
  "string \<Rightarrow> bool \<Rightarrow> ('h, 'a) hub_env_scheme \<Rightarrow> (bool \<times> queue_data) \<times> ('h, 'a) hub_env_scheme" where
  "UpdateTwinTask_InitUpdateTwinTaskItem payload isComplete w =
     (let (ok, w1) = sys_malloc w in
      if \<not> ok then ((False, NULL_POINTER), w1)
      else
        let a = nextTwinItem w1; w2 = w1\<lparr>nextTwinItem := Suc a\<rparr>; (ok2, w3) = sys_malloc w2 in
        if \<not> ok2 then ((False, TWIN_ITEM a), w3)
        else ((True, TWIN_ITEM a),
              w3\<lparr>twinItems := (twinItems w3)(a \<mapsto>
                   \<lparr>twinState = (if isComplete then TWIN_COMPLETE else TWIN_PARTIAL),
                    twinPayload = takeWhile (\<lambda>c. c \<noteq> CHR 0x00) payload\<rparr>)\<rparr>))"

definition UpdateTwinTask_DeinitUpdateTwinTaskItem ::
  "queue_data \<Rightarrow> ('h, 'a) hub_env_scheme \<Rightarrow> ('h, 'a) hub_env_scheme" where
  "UpdateTwinTask_DeinitUpdateTwinTaskItem item w =
     (case item of
        TWIN_ITEM a \<Rightarrow>
          (if twinItems w a = None then w\<lparr>fault := True\<rparr> else w\<lparr>twinItems := (twinItems w)(a := None)\<rparr>)
      | _ \<Rightarrow> w\<lparr>fault := True\<rparr>)"

section \<open>Calls of the SDK\<close>

definition module_create :: "string option \<Rightarrow> ('h, 'a) hub_env_scheme \<Rightarrow> nat option \<times> ('h, 'a) hub_env_scheme" where
  "module_create cs w =
     (let (ok, w1) = sys_ext w in
      if \<not> ok \<or> cs = None then (None, w1)
      else (Some (nextModule w1), w1\<lparr>nextModule := Suc (nextModule w1), liveModules := insert (nextModule w1) (liveModules w1)\<rparr>))"

text \<open>A call on a handle; a NULL handle is refused by the SDK.\<close>

definition module_call :: "nat option \<Rightarrow> ('h, 'a) hub_env_scheme \<Rightarrow> bool \<times> ('h, 'a) hub_env_scheme" where
  "module_call handle w =
     (case handle of
        None \<Rightarrow> (False, w)
      | Some h \<Rightarrow> (let (ok, w1) = sys_ext w in (ok, w1\<lparr>fault := (fault w1 \<or> h \<notin> liveModules w1)\<rparr>)))"

definition module_destroy :: "nat \<Rightarrow> ('h, 'a) hub_env_scheme \<Rightarrow> ('h, 'a) hub_env_scheme" where
  "module_destroy h w = w\<lparr>fault := (fault w \<or> h \<notin> liveModules w), liveModules := liveModules w - {h}\<rparr>"

section \<open>Initialisation\<close>

definition IoTHubAdapter_Deinit_Internal ::
  "IoTHubAdapter \<Rightarrow> ('h, 'a) hub_env_scheme \<Rightarrow> IoTHubAdapter \<times> ('h, 'a) hub_env_scheme" where
  "IoTHubAdapter_Deinit_Internal adapter w =
     (let w1 = AgentTelemetryCounter_Deinit (messageCounter adapter) w in
      (adapter\<lparr>hubInitiated := False\<rparr>,
       case moduleHandle adapter of None \<Rightarrow> w1 | Some h \<Rightarrow> module_destroy h w1))"

text \<open>The calls between the creation of the handle and that of the counter, stopping at the first failure.\<close>

fun module_calls :: "nat \<Rightarrow> nat option \<Rightarrow> ('h, 'a) hub_env_scheme \<Rightarrow> bool \<times> ('h, 'a) hub_env_scheme" where
  "module_calls 0 handle w = (True, w)"
| "module_calls (Suc n) handle w =
     (let (ok, w1) = module_call handle w in if ok then module_calls n handle w1 else (False, w1))"

text \<open>
  \<open>mqtt\<close> is the build with \<open>USE_MQTT\<close>, which sets one option more.  The cleanup of a failed
  initialisation destroys the handle, and the adapter keeps its address.
\<close>

definition IoTHubAdapter_Init_Internal ::
  "bool \<Rightarrow> nat \<Rightarrow> nat \<Rightarrow> ('h, 'a) hub_env_scheme \<Rightarrow> (bool \<times> IoTHubAdapter) \<times> ('h, 'a) hub_env_scheme" where
  "IoTHubAdapter_Init_Internal mqtt counterAddress queue w =
     (let w0 = set_counter counterAddress (\<lambda>_. \<lparr>sc_counter = zero_counter, sc_lock = False\<rparr>) w;
          (handle, w1) = module_create (LocalConfiguration_GetConnectionString w0) w0;
          adapter = \<lparr>moduleHandle = handle, hasTwinConfiguration = False, connected = False,
            connectionStatusReason = IOTHUB_CLIENT_CONNECTION_EXPIRED_SAS_TOKEN, hubInitiated = False,
            twinUpdatesQueue = queue, messageCounter = counterAddress\<rparr>;
          (success, w2) =
            (if handle = None then (False, w1)
             else
               let (ok, w') = module_calls (if mqtt then 4 else 3) handle w1 in
               if \<not> ok then (False, w') else AgentTelemetryCounter_Init counterAddress w')
      in if success then ((True, adapter\<lparr>hubInitiated := True\<rparr>), w2)
         else let (adapter', w3) = IoTHubAdapter_Deinit_Internal adapter w2 in ((False, adapter'), w3))"

definition IoTHubAdapter_Init ::
  "bool \<Rightarrow> nat \<Rightarrow> nat \<Rightarrow> IoTHubAdapter \<Rightarrow> ('h, 'a) hub_env_scheme \<Rightarrow>
    (bool \<times> IoTHubAdapter) \<times> ('h, 'a) hub_env_scheme" where
  "IoTHubAdapter_Init mqtt counterAddress queue adapter w =
     (let (ok, w1) = sys_ext w; w2 = w1\<lparr>iotHubAdapterLock := ok\<rparr> in
      if \<not> ok then ((False, adapter), w2)
      else locked (False, adapter) (\<lambda>(_, adapter'). (False, adapter'))
             (IoTHubAdapter_Init_Internal mqtt counterAddress queue) w2)"

definition IoTHubAdapter_Deinit ::
  "IoTHubAdapter \<Rightarrow> ('h, 'a) hub_env_scheme \<Rightarrow> IoTHubAdapter \<times> ('h, 'a) hub_env_scheme" where
  "IoTHubAdapter_Deinit adapter w =
     (if \<not> iotHubAdapterLock w then (adapter, w)
      else
        let (ok, w1) = sys_lock w in
        if \<not> ok then (adapter, w1)
        else
          let (adapter', w2) = IoTHubAdapter_Deinit_Internal adapter w1; (ok2, w3) = sys_lock w2 in
          if \<not> ok2 then (adapter', w3)
          else let (_, w4) = sys_ext w3 in (adapter', w4\<lparr>iotHubAdapterLock := False\<rparr>))"

section \<open>Callbacks\<close>

definition IoTHubAdapter_SendConfirmCallback ::
  "bool \<Rightarrow> IoTHubAdapter option \<Rightarrow> ('h, 'a) hub_env_scheme \<Rightarrow> ('h, 'a) hub_env_scheme" where
  "IoTHubAdapter_SendConfirmCallback confirmationOk context w =
     (case context of
        None \<Rightarrow> w
      | Some adapter \<Rightarrow>
          (if \<not> confirmationOk then snd (AgentTelemetryCounter_IncreaseBy (messageCounter adapter) FailedMessages 1 w)
           else w))"

definition IoTHubAdapter_ConnectionStatusCallback ::
  "IOTHUB_CLIENT_CONNECTION_STATUS \<Rightarrow> IOTHUB_CLIENT_CONNECTION_STATUS_REASON \<Rightarrow>
    IoTHubAdapter option \<Rightarrow> IoTHubAdapter option" where
  "IoTHubAdapter_ConnectionStatusCallback result reason context =
     (case context of
        None \<Rightarrow> None
      | Some adapter \<Rightarrow>
          Some (adapter\<lparr>connectionStatusReason := reason,
            connected := (result = IOTHUB_CLIENT_CONNECTION_AUTHENTICATED \<and> reason = IOTHUB_CLIENT_CONNECTION_OK)\<rparr>))"

text \<open>
  The payload is pushed whatever \<open>InitUpdateTwinTaskItem\<close> returned.  When the push fails, the item is
  freed, if it is not NULL.
\<close>

definition IoTHubAdapter_DeviceTwinCallback ::
  "DEVICE_TWIN_UPDATE_STATE \<Rightarrow> string \<Rightarrow> IoTHubAdapter option \<Rightarrow> SyncQueue list \<Rightarrow> ('h, 'a) hub_env_scheme \<Rightarrow>
    (IoTHubAdapter option \<times> SyncQueue list) \<times> ('h, 'a) hub_env_scheme" where
  "IoTHubAdapter_DeviceTwinCallback updateState payload context sqs w =
     (if payload = [] then ((context, sqs), w)
      else case context of
        None \<Rightarrow> ((None, sqs), w)
      | Some adapter \<Rightarrow>
          (let ((_, item), w1) = UpdateTwinTask_InitUpdateTwinTaskItem payload (updateState = DEVICE_TWIN_UPDATE_COMPLETE) w;
               i = twinUpdatesQueue adapter;
               ((r, queue'), w2) = SyncQueue_PushBack (sqs ! i) item sizeof_UpdateTwinTaskItem w1;
               sqs' = sqs[i := queue'] in
           if r \<noteq> SYNC_OK
           then ((Some adapter, sqs'), if item = NULL_POINTER then w2 else UpdateTwinTask_DeinitUpdateTwinTaskItem item w2)
           else ((Some (adapter\<lparr>hasTwinConfiguration := True\<rparr>), sqs'), w2)))"

definition IoTHubAdapter_SetReportedConfirmCallback :: "int \<Rightarrow> ('h, 'a) hub_env_scheme \<Rightarrow> ('h, 'a) hub_env_scheme" where
  "IoTHubAdapter_SetReportedConfirmCallback statusCode w = w"

text \<open>The callbacks of the SDK's thread.\<close>

datatype hub_event =
  Connection_Status IOTHUB_CLIENT_CONNECTION_STATUS IOTHUB_CLIENT_CONNECTION_STATUS_REASON
| Twin_Update DEVICE_TWIN_UPDATE_STATE string
| Send_Confirmed bool

fun hub_callback ::
  "hub_event \<Rightarrow> IoTHubAdapter \<times> SyncQueue list \<Rightarrow> ('h, 'a) hub_env_scheme \<Rightarrow>
    (IoTHubAdapter \<times> SyncQueue list) \<times> ('h, 'a) hub_env_scheme" where
  "hub_callback (Connection_Status result reason) (adapter, sqs) w =
     ((the (IoTHubAdapter_ConnectionStatusCallback result reason (Some adapter)), sqs), w)"
| "hub_callback (Twin_Update state payload) (adapter, sqs) w =
     (let ((context, sqs'), w') = IoTHubAdapter_DeviceTwinCallback state payload (Some adapter) sqs w
      in ((the context, sqs'), w'))"
| "hub_callback (Send_Confirmed ok) (adapter, sqs) w =
     ((adapter, sqs), IoTHubAdapter_SendConfirmCallback ok (Some adapter) w)"

fun hub_callbacks ::
  "hub_event list \<Rightarrow> IoTHubAdapter \<times> SyncQueue list \<Rightarrow> ('h, 'a) hub_env_scheme \<Rightarrow>
    (IoTHubAdapter \<times> SyncQueue list) \<times> ('h, 'a) hub_env_scheme" where
  "hub_callbacks [] s w = (s, w)"
| "hub_callbacks (e # es) s w = (let (s1, w1) = hub_callback e s w in hub_callbacks es s1 w1)"

section \<open>Connecting\<close>

definition IoTHubAdapter_ValidateAdapterConnectionStatus :: "IoTHubAdapter \<Rightarrow> bool \<times> bool" where
  "IoTHubAdapter_ValidateAdapterConnectionStatus adapter =
     (if connected adapter then (True, False)
      else (False, connectionStatusReason adapter = IOTHUB_CLIENT_CONNECTION_BAD_CREDENTIAL
              \<or> connectionStatusReason adapter = IOTHUB_CLIENT_CONNECTION_NO_NETWORK))"

text \<open>
  The polling loop.  \<open>sleeps k\<close> are the callbacks during the \<open>k\<close>-th sleep.  The loop has fuel for every
  poll up to the timeout; running out of it, which needs an \<open>elapsedTime\<close> that wraps, is reported as
  a fault.
\<close>

fun connect_while ::
  "nat \<Rightarrow> (nat \<Rightarrow> hub_event list) \<Rightarrow> nat \<Rightarrow> u32 \<Rightarrow> u32 \<Rightarrow> bool \<Rightarrow> IoTHubAdapter \<times> SyncQueue list \<Rightarrow>
    ('h, 'a) hub_env_scheme \<Rightarrow> (IoTHubAdapter \<times> SyncQueue list) \<times> ('h, 'a) hub_env_scheme" where
  "connect_while fuel sleeps k timeout elapsed stop s w =
     (if \<not> (\<not> stop \<and> elapsed < timeout) then (s, w)
      else case fuel of
        0 \<Rightarrow> (s, w\<lparr>fault := True\<rparr>)
      | Suc fuel' \<Rightarrow>
          (let (isConnected, isPermanent) = IoTHubAdapter_ValidateAdapterConnectionStatus (fst s);
               stop' = (isConnected \<and> hasTwinConfiguration (fst s) \<or> isPermanent);
               (s', w') = hub_callbacks (sleeps k) s w
           in connect_while fuel' sleeps (Suc k) timeout (elapsed + 100) stop' s' w'))"

declare connect_while.simps [simp del]

definition connect_fuel :: "u32 \<Rightarrow> nat" where
  "connect_fuel timeout = Suc (unat timeout div 100)"

definition log_connect_error :: "IoTHubAdapter \<Rightarrow> ('h, 'a) hub_env_scheme \<Rightarrow> ('h, 'a) hub_env_scheme" where
  "log_connect_error adapter w =
     (if connected adapter then AgentErrors_LogError ERROR_REMOTE_CONFIGURATION SUBCODE_TIMEOUT w
      else if connectionStatusReason adapter = IOTHUB_CLIENT_CONNECTION_BAD_CREDENTIAL
      then AgentErrors_LogError ERROR_IOT_HUB_AUTHENTICATION SUBCODE_UNAUTHORIZED w
      else AgentErrors_LogError ERROR_IOT_HUB_AUTHENTICATION SUBCODE_OTHER w)"

definition IoTHubAdapter_Connect ::
  "(nat \<Rightarrow> hub_event list) \<Rightarrow> IoTHubAdapter \<Rightarrow> SyncQueue list \<Rightarrow> ('h, 'a) hub_env_scheme \<Rightarrow>
    (bool \<times> IoTHubAdapter \<times> SyncQueue list) \<times> ('h, 'a) hub_env_scheme" where
  "IoTHubAdapter_Connect sleeps adapter sqs w =
     (let timeout = LocalConfiguration_GetConnectionTimeout w;
          ((adapter', sqs'), w1) = connect_while (connect_fuel timeout) sleeps 0 timeout 0 False (adapter, sqs) w in
      if connected adapter' \<and> hasTwinConfiguration adapter' then ((True, adapter', sqs'), w1)
      else ((False, adapter', sqs'), log_connect_error adapter' w1))"

section \<open>Sending\<close>

definition MESSAGE_BILLING_MULTIPLE :: nat where "MESSAGE_BILLING_MULTIPLE = 4 * 1024"

definition IoTHubAdapter_Reinit ::
  "bool \<Rightarrow> (nat \<Rightarrow> hub_event list) \<Rightarrow> IoTHubAdapter \<Rightarrow> SyncQueue list \<Rightarrow> ('h, 'a) hub_env_scheme \<Rightarrow>
    (bool \<times> IoTHubAdapter \<times> SyncQueue list) \<times> ('h, 'a) hub_env_scheme" where
  "IoTHubAdapter_Reinit mqtt sleeps adapter sqs w =
     (let (adapter1, w1) = IoTHubAdapter_Deinit_Internal adapter w;
          ((ok, adapter2), w2) =
            IoTHubAdapter_Init_Internal mqtt (messageCounter adapter1) (twinUpdatesQueue adapter1) w1 in
      if \<not> ok then ((False, adapter2, sqs), w2)
      else IoTHubAdapter_Connect sleeps adapter2 sqs w2)"

text \<open>
  Handing a message over: create it, mark it, send it; the small and the sent messages are counted.
\<close>

definition hand_over ::
  "IoTHubAdapter \<Rightarrow> string \<Rightarrow> ('h, 'a) hub_env_scheme \<Rightarrow> bool \<times> ('h, 'a) hub_env_scheme" where
  "hand_over adapter data w =
     (let (created, w1) = sys_ext w in
      if \<not> created then (False, w1)
      else
        let (marked, w2) = sys_ext w1 in
        if \<not> marked then (False, w2)
        else
          let (sent, w3) = module_call (moduleHandle adapter) w2 in
          if \<not> sent then (False, w3)
          else
            let w4 = w3\<lparr>sentTexts := sentTexts w3 @ [data]\<rparr>;
                w5 = (if length data < MESSAGE_BILLING_MULTIPLE
                      then snd (AgentTelemetryCounter_IncreaseBy (messageCounter adapter) SmallMessages 1 w4) else w4)
            in (True, snd (AgentTelemetryCounter_IncreaseBy (messageCounter adapter) SentMessages 1 w5)))"

definition IoTHubAdapter_SendMessageAsync_Internal ::
  "('v, 'o, 'r) parson \<Rightarrow> bool \<Rightarrow> (nat \<Rightarrow> hub_event list) \<Rightarrow> IoTHubAdapter \<Rightarrow> string \<Rightarrow> SyncQueue list \<Rightarrow>
    ('h, 'a) hub_env_scheme \<Rightarrow> (bool \<times> IoTHubAdapter \<times> SyncQueue list) \<times> ('h, 'a) hub_env_scheme" where
  "IoTHubAdapter_SendMessageAsync_Internal P mqtt sleeps adapter data sqs w =
     (if \<not> hubInitiated adapter then ((False, adapter, sqs), w)
      else
        let ((ready, adapter1, sqs1), w1) =
          (if \<not> connected adapter \<and> LocalConfiguration_UseDps w
           then
             let (renewed, w') = LocalConfiguration_TryRenewConnectionString P w in
             if \<not> renewed then ((False, adapter, sqs), w') else IoTHubAdapter_Reinit mqtt sleeps adapter sqs w'
           else ((True, adapter, sqs), w)) in
        if \<not> ready then ((False, adapter1, sqs1), w1)
        else let (sent, w2) = hand_over adapter1 data w1 in ((sent, adapter1, sqs1), w2))"

definition IoTHubAdapter_SendMessageAsync ::
  "('v, 'o, 'r) parson \<Rightarrow> bool \<Rightarrow> (nat \<Rightarrow> hub_event list) \<Rightarrow> IoTHubAdapter \<Rightarrow> string \<Rightarrow> SyncQueue list \<Rightarrow>
    ('h, 'a) hub_env_scheme \<Rightarrow> (bool \<times> IoTHubAdapter \<times> SyncQueue list) \<times> ('h, 'a) hub_env_scheme" where
  "IoTHubAdapter_SendMessageAsync P mqtt sleeps adapter data sqs w =
     (if \<not> iotHubAdapterLock w then ((False, adapter, sqs), w)
      else locked (False, adapter, sqs) (\<lambda>(_, s). (False, s))
             (IoTHubAdapter_SendMessageAsync_Internal P mqtt sleeps adapter data sqs) w)"

definition IoTHubAdapter_SetReportedPropertiesAsync ::
  "IoTHubAdapter \<Rightarrow> string option \<Rightarrow> ('h, 'a) hub_env_scheme \<Rightarrow> bool \<times> ('h, 'a) hub_env_scheme" where
  "IoTHubAdapter_SetReportedPropertiesAsync adapter reportedData w =
     (case reportedData of
        None \<Rightarrow> (False, w)
      | Some data \<Rightarrow>
          (let (ok, w1) = module_call (moduleHandle adapter) w in
           if \<not> ok then (False, w1) else (True, w1\<lparr>reportedProperties := reportedProperties w1 @ [data]\<rparr>)))"

section \<open>The polling loop\<close>

text \<open>
  What lets \<open>Connect\<close> stop before its timeout, and the adapter after the callbacks of the first \<open>n\<close>
  sleeps.
\<close>

definition hub_decided :: "IoTHubAdapter \<Rightarrow> bool" where
  "hub_decided adapter \<longleftrightarrow>
     (if connected adapter then hasTwinConfiguration adapter
      else connectionStatusReason adapter \<in> {IOTHUB_CLIENT_CONNECTION_BAD_CREDENTIAL, IOTHUB_CLIENT_CONNECTION_NO_NETWORK})"

definition heard ::
  "(nat \<Rightarrow> hub_event list) \<Rightarrow> nat \<Rightarrow> IoTHubAdapter \<times> SyncQueue list \<Rightarrow> ('h, 'a) hub_env_scheme \<Rightarrow>
    (IoTHubAdapter \<times> SyncQueue list) \<times> ('h, 'a) hub_env_scheme" where
  "heard sleeps n s w = hub_callbacks (concat (map sleeps [0..<n])) s w"

definition max_polls :: "u32 \<Rightarrow> nat" where
  "max_polls timeout = (unat timeout + 99) div 100"

lemma hub_callbacks_append:
  "hub_callbacks (es @ fs) s w = (let (s', w') = hub_callbacks es s w in hub_callbacks fs s' w')"
  by (induction es arbitrary: s w) (auto simp: split_beta)

lemma heard_Suc:
  "heard sleeps (Suc n) s w = (let (s', w') = heard sleeps n s w in hub_callbacks (sleeps n) s' w')"
  by (simp add: heard_def hub_callbacks_append)

lemma heard_0 [simp]: "heard sleeps 0 s w = (s, w)"
  by (simp add: heard_def)

lemma decided_test:
  "(fst (IoTHubAdapter_ValidateAdapterConnectionStatus a) \<and> hasTwinConfiguration a
     \<or> snd (IoTHubAdapter_ValidateAdapterConnectionStatus a)) = hub_decided a"
  by (auto simp: IoTHubAdapter_ValidateAdapterConnectionStatus_def hub_decided_def)

lemma connect_while_stopped [simp]: "connect_while fuel sleeps k timeout e True s w = (s, w)"
  by (simp add: connect_while.simps)

text \<open>One round, started by what was heard so far.\<close>

lemma connect_while_round:
  assumes "heard sleeps k s w = (sk, wk)" and "e < timeout"
  shows "connect_while (Suc fuel) sleeps k timeout e False sk wk =
    (let (s', w') = heard sleeps (Suc k) s w
     in connect_while fuel sleeps (Suc k) timeout (e + 100) (hub_decided (fst sk)) s' w')"
  using assms
  by (simp add: connect_while.simps [of "Suc fuel"] Let_def split_beta decided_test heard_Suc)

lemma max_polls_small:
  assumes "unat timeout \<le> 4294967200"
  shows "100 * max_polls timeout < 4294967296"
proof -
  have "max_polls timeout \<le> (4294967200 + 99) div 100"
    unfolding max_polls_def using assms by (intro div_le_mono) simp
  then show ?thesis by simp
qed

lemma connect_while_polls:
  assumes "unat timeout \<le> 4294967200" and "k \<le> max_polls timeout" and "max_polls timeout - k \<le> fuel"
    and "heard sleeps k s w = (sk, wk)"
  shows "\<exists>n. k \<le> n \<and> n \<le> max_polls timeout
    \<and> connect_while fuel sleeps k timeout (of_nat (100 * k)) False sk wk = heard sleeps n s w
    \<and> (\<forall>j. k \<le> j \<and> Suc j < n \<longrightarrow> \<not> hub_decided (fst (fst (heard sleeps j s w))))
    \<and> (n = max_polls timeout \<or> k < n \<and> hub_decided (fst (fst (heard sleeps (n - 1) s w))))"
  using assms(2-4)
proof (induction fuel arbitrary: k sk wk)
  case 0
  then have k: "k = max_polls timeout" by simp
  have "100 * k < 4294967296" unfolding k by (rule max_polls_small [OF assms(1)])
  then have "unat (of_nat (100 * k) :: u32) = 100 * k" by (rule unat_of_nat_u32)
  moreover have "unat timeout \<le> 100 * k" by (simp add: k max_polls_def)
  ultimately have "\<not> of_nat (100 * k) < timeout" by (simp add: word_less_nat_alt)
  then have "connect_while 0 sleeps k timeout (of_nat (100 * k)) False sk wk = (sk, wk)"
    by (simp add: connect_while.simps)
  then show ?case using 0 k by (intro exI [of _ k]) auto
next
  case (Suc fuel)
  have "100 * max_polls timeout < 4294967296" by (rule max_polls_small [OF assms(1)])
  then have small: "100 * k < 4294967296" using Suc.prems(1) by simp
  then have e: "unat (of_nat (100 * k) :: u32) = 100 * k" by (rule unat_of_nat_u32)
  show ?case
  proof (cases "k = max_polls timeout")
    case True
    have "unat timeout \<le> 100 * k" by (simp add: True max_polls_def)
    then have "\<not> of_nat (100 * k) < timeout" using e by (simp add: word_less_nat_alt)
    then have "connect_while (Suc fuel) sleeps k timeout (of_nat (100 * k)) False sk wk = (sk, wk)"
      by (simp add: connect_while.simps)
    then show ?thesis using Suc.prems True by (intro exI [of _ k]) auto
  next
    case False
    then have "100 * k < unat timeout" using Suc.prems(1) by (simp add: max_polls_def)
    then have "of_nat (100 * k) < timeout" using e by (simp add: word_less_nat_alt)
    note round = connect_while_round [OF Suc.prems(3) this, of fuel]
    obtain s' w' where next': "heard sleeps (Suc k) s w = (s', w')" by fastforce
    show ?thesis
    proof (cases "hub_decided (fst sk)")
      case True
      then show ?thesis using round next' Suc.prems False by (intro exI [of _ "Suc k"]) auto
    next
      case undecided: False
      have "\<exists>n. Suc k \<le> n \<and> n \<le> max_polls timeout
        \<and> connect_while fuel sleeps (Suc k) timeout (of_nat (100 * Suc k)) False s' w' = heard sleeps n s w
        \<and> (\<forall>j. Suc k \<le> j \<and> Suc j < n \<longrightarrow> \<not> hub_decided (fst (fst (heard sleeps j s w))))
        \<and> (n = max_polls timeout \<or> Suc k < n \<and> hub_decided (fst (fst (heard sleeps (n - 1) s w))))"
        using Suc.prems False next' by (intro Suc.IH) auto
      then obtain n where n: "Suc k \<le> n" "n \<le> max_polls timeout"
        "connect_while fuel sleeps (Suc k) timeout (of_nat (100 * Suc k)) False s' w' = heard sleeps n s w"
        "\<forall>j. Suc k \<le> j \<and> Suc j < n \<longrightarrow> \<not> hub_decided (fst (fst (heard sleeps j s w)))"
        "n = max_polls timeout \<or> Suc k < n \<and> hub_decided (fst (fst (heard sleeps (n - 1) s w)))"
        by blast
      have "connect_while (Suc fuel) sleeps k timeout (of_nat (100 * k)) False sk wk = heard sleeps n s w"
        using round next' undecided n(3) by (simp add: algebra_simps)
      moreover have "\<not> hub_decided (fst (fst (heard sleeps j s w)))" if "k \<le> j" "Suc j < n" for j
        using n(4) that undecided Suc.prems(3) by (cases "j = k") auto
      ultimately show ?thesis using n by (intro exI [of _ n]) auto
    qed
  qed
qed

lemma connect_fuel_enough: "max_polls timeout \<le> connect_fuel timeout"
  by (simp add: max_polls_def connect_fuel_def)

text \<open>
  C32: \<open>IoTHubAdapter_Connect\<close> returns.  For a timeout of at most 4294967200 milliseconds it sleeps \<open>n\<close>
  times, at most the timeout divided by 100 and rounded up; every poll but the last found it undecided,
  and it stopped because the timeout was over or because the last poll found it connected with a
  configuration, or refused for good.  It returns true exactly when, after the last
  sleep, it is connected and has a configuration, and otherwise reports one error.
\<close>

theorem connect_returns_in_time:
  assumes "unat (connectionTimeout w) \<le> 4294967200"
  shows "\<exists>n \<le> (unat (connectionTimeout w) + 99) div 100.
    \<exists>adapter' sqs' w'. heard sleeps n (adapter, sqs) w = ((adapter', sqs'), w')
    \<and> IoTHubAdapter_Connect sleeps adapter sqs w =
        (if connected adapter' \<and> hasTwinConfiguration adapter' then ((True, adapter', sqs'), w')
         else ((False, adapter', sqs'), log_connect_error adapter' w'))
    \<and> (\<forall>j. Suc j < n \<longrightarrow> \<not> hub_decided (fst (fst (heard sleeps j (adapter, sqs) w))))
    \<and> (n = (unat (connectionTimeout w) + 99) div 100
        \<or> 0 < n \<and> hub_decided (fst (fst (heard sleeps (n - 1) (adapter, sqs) w))))"
proof -
  let ?t = "connectionTimeout w"
  obtain n where n: "n \<le> max_polls ?t"
    "connect_while (connect_fuel ?t) sleeps 0 ?t 0 False (adapter, sqs) w = heard sleeps n (adapter, sqs) w"
    "\<forall>j. Suc j < n \<longrightarrow> \<not> hub_decided (fst (fst (heard sleeps j (adapter, sqs) w)))"
    "n = max_polls ?t \<or> 0 < n \<and> hub_decided (fst (fst (heard sleeps (n - 1) (adapter, sqs) w)))"
    using connect_while_polls [OF assms, of 0 "connect_fuel ?t" sleeps "(adapter, sqs)" w]
      connect_fuel_enough [of ?t] by auto
  obtain adapter' sqs' w' where h: "heard sleeps n (adapter, sqs) w = ((adapter', sqs'), w')"
    by (metis prod.collapse)
  show ?thesis
    using n h
    by (intro exI [of _ n] conjI exI [of _ adapter'] exI [of _ sqs'] exI [of _ w'])
       (auto simp: max_polls_def IoTHubAdapter_Connect_def LocalConfiguration_GetConnectionTimeout_def)
qed


definition calm_hub_with :: "'h \<Rightarrow> 'h hub_env" where
  "calm_hub_with h = queue_env.extend (calm_queue_env_with h)
     \<lparr>iotHubAdapterLock = True, liveModules = {0}, nextModule = 1, twinItems = (\<lambda>_. None), nextTwinItem = 0,
      sentTexts = [], reportedProperties = []\<rparr>"

abbreviation calm_hub :: "unit hub_env" where
  "calm_hub \<equiv> calm_hub_with ()"

lemma calm_hub_fields [simp]:
  "lockOk (calm_hub_with h) n" "allocOk (calm_hub_with h) n" "extOk (calm_hub_with h) n" "docs (calm_hub_with h) = h"
  "twinConfiguration (calm_hub_with h) = calm_configuration" "locks_work (calm_hub_with h)"
  "currentConsumptionInBytes (calm_hub_with h) = 0" "fault (calm_hub_with h) = False"
  "iotHubAdapterLock (calm_hub_with h)" "liveModules (calm_hub_with h) = {0}" "nextModule (calm_hub_with h) = 1"
  "twinItems (calm_hub_with h) = (\<lambda>_. None)" "sentTexts (calm_hub_with h) = []" "connectionTimeout (calm_hub_with h) = 0"
  "nextTwinItem (calm_hub_with h) = 0" "useDps (calm_hub_with h) = False"
  by (simp_all add: calm_hub_with_def calm_queue_env_with_def calm_monitor_with_def calm_counters_with_def calm_twin_with_def
      calm_collectors_with_def calm_def locks_work_def env.defs docs_env.defs log_env.defs auth_env.defs local_env.defs
      collectors_env.defs twin_env.defs counter_env.defs monitor_env.defs queue_env.defs hub_env.defs)

definition fresh_adapter :: IoTHubAdapter where
  "fresh_adapter = \<lparr>moduleHandle = Some 0, hasTwinConfiguration = False, connected = False,
     connectionStatusReason = IOTHUB_CLIENT_CONNECTION_EXPIRED_SAS_TOKEN, hubInitiated = True,
     twinUpdatesQueue = 0, messageCounter = 2\<rparr>"

lemma connect_returns_in_time_witness:
  "fst (fst (IoTHubAdapter_Connect
      (\<lambda>k. if k = 0 then [Connection_Status IOTHUB_CLIENT_CONNECTION_AUTHENTICATED IOTHUB_CLIENT_CONNECTION_OK] else [])
      (fresh_adapter\<lparr>hasTwinConfiguration := True\<rparr>) [] (calm_hub\<lparr>connectionTimeout := 250\<rparr>)))"
proof -
  let ?sleeps = "\<lambda>k :: nat. if k = 0 then [Connection_Status IOTHUB_CLIENT_CONNECTION_AUTHENTICATED IOTHUB_CLIENT_CONNECTION_OK] else []"
  let ?a = "fresh_adapter\<lparr>hasTwinConfiguration := True\<rparr>" and ?w = "calm_hub\<lparr>connectionTimeout := 250\<rparr>"
  let ?b = "?a\<lparr>connectionStatusReason := IOTHUB_CLIENT_CONNECTION_OK, connected := True\<rparr>"
  have later: "heard ?sleeps (Suc n) (?a, []) ?w = ((?b, []), ?w)" for n
    by (induction n) (simp_all add: heard_Suc IoTHubAdapter_ConnectionStatusCallback_def)
  have undecided: "\<not> hub_decided ?a" by (simp add: hub_decided_def fresh_adapter_def)
  obtain n a' s' w' where n: "heard ?sleeps n (?a, []) ?w = ((a', s'), w')"
    "IoTHubAdapter_Connect ?sleeps ?a [] ?w =
        (if connected a' \<and> hasTwinConfiguration a' then ((True, a', s'), w') else ((False, a', s'), log_connect_error a' w'))"
    "n = (unat (connectionTimeout ?w) + 99) div 100 \<or> 0 < n \<and> hub_decided (fst (fst (heard ?sleeps (n - 1) (?a, []) ?w)))"
    using connect_returns_in_time [of ?w ?sleeps ?a "[]"] by auto
  have "0 < n" using n(3) by auto
  then obtain m where "n = Suc m" by (cases n) auto
  then have "a' = ?b" using n(1) later [of m] by simp
  then show ?thesis using n(2) by simp
qed


section \<open>What the adapter's operations leave alone\<close>

text \<open>Operations of the queue keep everything the environment gained since.\<close>

lemma more_kept:
  "queue_env.more (next_tick w) = queue_env.more w"
  "queue_env.more (snd (AgentTelemetryCounter_IncreaseBy c i k w)) = queue_env.more w"
  "queue_env.more (snd (MemoryMonitor_Consume n w)) = queue_env.more w"
  "queue_env.more (snd (MemoryMonitor_Release n w)) = queue_env.more w"
  "queue_env.more (write_item p f w) = queue_env.more w"
  using IncreaseBy_counted [of w c i k] Consume_metered [of w n] Release_metered [of w n]
  by (auto simp: next_tick_def counted_def metered_def write_item_def split: option.split)

lemma PushBack_more: "queue_env.more (snd (Queue_PushBack q d n w)) = queue_env.more w"
  by (auto simp: Queue_PushBack_def link_item_def Let_def split_beta more_kept)

lemma SyncPushBack_more: "queue_env.more (snd (SyncQueue_PushBack sq d n w)) = queue_env.more w"
proof -
  have "queue_env.more w = queue_env.more (snd (SyncQueue_PushBack sq d n w))"
    unfolding SyncQueue_PushBack_def
    by (rule locked_rel [where R = "\<lambda>w w'. queue_env.more w = queue_env.more w'"])
       (auto simp: ticked_def split_beta PushBack_more)
  then show ?thesis by simp
qed

lemma hub_fields_more:
  assumes "queue_env.more w' = queue_env.more w"
  shows "liveModules w' = liveModules w" "nextModule w' = nextModule w" "iotHubAdapterLock w' = iotHubAdapterLock w"
    "sentTexts w' = sentTexts w" "twinItems w' = twinItems w" "nextTwinItem w' = nextTwinItem w"
    "reportedProperties w' = reportedProperties w"
  using assms by (cases w; cases w'; simp)+

section \<open>The life of a handle\<close>

definition handle_live :: "IoTHubAdapter \<Rightarrow> ('h, 'a) hub_env_scheme \<Rightarrow> bool" where
  "handle_live adapter w \<longleftrightarrow> (\<exists>h. moduleHandle adapter = Some h \<and> h \<in> liveModules w)"

lemma DeviceTwin_kept:
  assumes "IoTHubAdapter_DeviceTwinCallback state payload (Some adapter) sqs w = ((ctx, sqs'), w')"
  shows "liveModules w' = liveModules w" "iotHubAdapterLock w' = iotHubAdapterLock w"
    "\<exists>t. ctx = Some (adapter\<lparr>hasTwinConfiguration := t\<rparr>)"
proof -
  note more = hub_fields_more [OF SyncPushBack_more]
  show "liveModules w' = liveModules w" "iotHubAdapterLock w' = iotHubAdapterLock w"
    using assms
    by (auto simp: IoTHubAdapter_DeviceTwinCallback_def UpdateTwinTask_InitUpdateTwinTaskItem_def
        UpdateTwinTask_DeinitUpdateTwinTaskItem_def sys_defs Let_def split_beta more
        split: if_splits queue_data.splits)
  have same: "\<exists>t. adapter = adapter\<lparr>hasTwinConfiguration := t\<rparr>" by (rule exI [of _ "hasTwinConfiguration adapter"]) simp
  then show "\<exists>t. ctx = Some (adapter\<lparr>hasTwinConfiguration := t\<rparr>)"
    using assms
    by (auto simp: IoTHubAdapter_DeviceTwinCallback_def Let_def split_beta same split: if_splits)
qed

lemma callback_kept:
  assumes "hub_callback e (adapter, sqs) w = ((adapter', sqs'), w')"
  shows "liveModules w' = liveModules w \<and> iotHubAdapterLock w' = iotHubAdapterLock w
    \<and> moduleHandle adapter' = moduleHandle adapter \<and> hubInitiated adapter' = hubInitiated adapter
    \<and> messageCounter adapter' = messageCounter adapter \<and> twinUpdatesQueue adapter' = twinUpdatesQueue adapter"
proof (cases e)
  case (Connection_Status r c)
  with assms show ?thesis by (auto simp: IoTHubAdapter_ConnectionStatusCallback_def)
next
  case (Twin_Update s p)
  obtain ctx sqs1 w1 where cb: "IoTHubAdapter_DeviceTwinCallback s p (Some adapter) sqs w = ((ctx, sqs1), w1)"
    by (metis prod.collapse)
  with assms Twin_Update show ?thesis using DeviceTwin_kept [OF cb] by auto
next
  case (Send_Confirmed ok)
  with assms show ?thesis
    using hub_fields_more [OF more_kept(2), of "messageCounter adapter" FailedMessages 1 w]
    by (auto simp: IoTHubAdapter_SendConfirmCallback_def split: if_splits)
qed

lemma callbacks_kept:
  "hub_callbacks es (adapter, sqs) w = ((adapter', sqs'), w') \<Longrightarrow>
    liveModules w' = liveModules w \<and> iotHubAdapterLock w' = iotHubAdapterLock w
    \<and> moduleHandle adapter' = moduleHandle adapter \<and> hubInitiated adapter' = hubInitiated adapter
    \<and> messageCounter adapter' = messageCounter adapter \<and> twinUpdatesQueue adapter' = twinUpdatesQueue adapter"
proof (induction es arbitrary: adapter sqs w)
  case (Cons e es)
  obtain a1 s1 w1 where step: "hub_callback e (adapter, sqs) w = ((a1, s1), w1)" by (metis prod.collapse)
  with Cons.prems have "hub_callbacks es (a1, s1) w1 = ((adapter', sqs'), w')" by simp
  from Cons.IH [OF this] callback_kept [OF step] show ?case by simp
qed simp

lemma connect_while_kept:
  "connect_while fuel sleeps k timeout e stop (adapter, sqs) w = ((adapter', sqs'), w') \<Longrightarrow>
    liveModules w' = liveModules w \<and> iotHubAdapterLock w' = iotHubAdapterLock w
    \<and> moduleHandle adapter' = moduleHandle adapter \<and> hubInitiated adapter' = hubInitiated adapter
    \<and> messageCounter adapter' = messageCounter adapter \<and> twinUpdatesQueue adapter' = twinUpdatesQueue adapter"
proof (induction fuel arbitrary: k e stop adapter sqs w)
  case 0
  then show ?case by (auto simp: connect_while.simps split: if_splits)
next
  case (Suc fuel)
  show ?case
  proof (cases "stop \<or> \<not> e < timeout")
    case True
    then show ?thesis using Suc.prems by (auto simp: connect_while.simps)
  next
    case False
    obtain a1 s1 w1 where step: "hub_callbacks (sleeps k) (adapter, sqs) w = ((a1, s1), w1)" by (metis prod.collapse)
    from False Suc.prems step
    have "connect_while fuel sleeps (Suc k) timeout (e + 100) (hub_decided adapter) (a1, s1) w1 = ((adapter', sqs'), w')"
      by (simp add: connect_while.simps [of "Suc fuel"] Let_def split_beta decided_test)
    from Suc.IH [OF this] callbacks_kept [OF step] show ?thesis by simp
  qed
qed

lemma Connect_kept:
  assumes "IoTHubAdapter_Connect sleeps adapter sqs w = ((r, adapter', sqs'), w')"
  shows "liveModules w' = liveModules w" "moduleHandle adapter' = moduleHandle adapter"
    "hubInitiated adapter' = hubInitiated adapter" "iotHubAdapterLock w' = iotHubAdapterLock w"
    "messageCounter adapter' = messageCounter adapter"
proof -
  let ?t = "LocalConfiguration_GetConnectionTimeout w"
  obtain a1 s1 w1 where run: "connect_while (connect_fuel ?t) sleeps 0 ?t 0 False (adapter, sqs) w = ((a1, s1), w1)"
    by (metis prod.collapse)
  have "liveModules (log_connect_error a w1) = liveModules w1" "iotHubAdapterLock (log_connect_error a w1) = iotHubAdapterLock w1"
    for a by (simp_all add: log_connect_error_def AgentErrors_LogError_def)
  with assms run connect_while_kept [OF run]
  show "liveModules w' = liveModules w" "moduleHandle adapter' = moduleHandle adapter"
    "hubInitiated adapter' = hubInitiated adapter" "iotHubAdapterLock w' = iotHubAdapterLock w"
    "messageCounter adapter' = messageCounter adapter"
    by (auto simp: IoTHubAdapter_Connect_def Let_def split: if_splits)
qed

lemma set_counter_hub [simp]:
  "liveModules (set_counter c f w) = liveModules w" "fault (set_counter c f w) = fault w" "nextModule (set_counter c f w) = nextModule w"
  "iotHubAdapterLock (set_counter c f w) = iotHubAdapterLock w" "lockOk (set_counter c f w) = lockOk w"
  "tick (set_counter c f w) = tick w" "extOk (set_counter c f w) = extOk w"
  by (simp_all add: set_counter_def)

lemma module_calls_kept:
  assumes "module_calls n (Some h) w = (ok, w')"
  shows "liveModules w' = liveModules w \<and> lockOk w' = lockOk w \<and> iotHubAdapterLock w' = iotHubAdapterLock w
    \<and> (h \<in> liveModules w \<longrightarrow> fault w' = fault w)"
  using assms
proof (induction n arbitrary: w)
  case (Suc n)
  let ?w = "(next_tick w)\<lparr>fault := (fault w \<or> h \<notin> liveModules w)\<rparr>"
  have call: "module_call (Some h) w = (extOk w (tick w), ?w)"
    by (simp add: module_call_def sys_defs)
  have kept: "liveModules ?w = liveModules w" "lockOk ?w = lockOk w" "iotHubAdapterLock ?w = iotHubAdapterLock w"
    by (simp_all add: next_tick_def)
  show ?case
  proof (cases "extOk w (tick w)")
    case True
    with Suc.prems call have "module_calls n (Some h) ?w = (ok, w')" by simp
    from Suc.IH [OF this] kept show ?thesis by auto
  next
    case False
    with Suc.prems call have "w' = ?w" by simp
    with kept show ?thesis by auto
  qed
qed simp

text \<open>
  A successful initialisation leaves a live handle and no new fault; a failed one leaves either no
  handle or a dead one.
\<close>

lemma Init_Internal_handle:
  assumes "IoTHubAdapter_Init_Internal mqtt c q w = ((ok, adapter), w')"
  shows "hubInitiated adapter = ok" "lockOk w' = lockOk w" "iotHubAdapterLock w' = iotHubAdapterLock w"
    "messageCounter adapter = c" "fault w' = fault w" "ok \<Longrightarrow> handle_live adapter w'"
    "\<not> ok \<Longrightarrow> moduleHandle adapter = None \<or> (\<exists>h. moduleHandle adapter = Some h \<and> h \<notin> liveModules w')"
proof -
  let ?w0 = "set_counter c (\<lambda>_. \<lparr>sc_counter = zero_counter, sc_lock = False\<rparr>) w"
  obtain handle w1 where create: "module_create (LocalConfiguration_GetConnectionString ?w0) ?w0 = (handle, w1)"
    by fastforce
  have w1: "lockOk w1 = lockOk w" "iotHubAdapterLock w1 = iotHubAdapterLock w" "fault w1 = fault w"
    "\<And>h. handle = Some h \<Longrightarrow> h \<in> liveModules w1"
    using create by (auto simp: module_create_def sys_defs split: if_splits)
  let ?a = "\<lparr>moduleHandle = handle, hasTwinConfiguration = False, connected = False,
            connectionStatusReason = IOTHUB_CLIENT_CONNECTION_EXPIRED_SAS_TOKEN, hubInitiated = False,
            twinUpdatesQueue = q, messageCounter = c\<rparr>"
  obtain success w2 where rest: "(if handle = None then (False, w1)
             else let (ok, w') = module_calls (if mqtt then 4 else 3) handle w1 in
               if \<not> ok then (False, w') else AgentTelemetryCounter_Init c w') = (success, w2)"
    by fastforce
  have w2: "lockOk w2 = lockOk w1 \<and> iotHubAdapterLock w2 = iotHubAdapterLock w1 \<and> fault w2 = fault w1
    \<and> liveModules w2 = liveModules w1 \<and> (success \<longrightarrow> handle \<noteq> None)"
  proof (cases handle)
    case None
    with rest show ?thesis by simp
  next
    case (Some h)
    obtain ok1 v where calls: "module_calls (if mqtt then 4 else 3) (Some h) w1 = (ok1, v)" by fastforce
    have "lockOk w2 = lockOk v" "iotHubAdapterLock w2 = iotHubAdapterLock v" "fault w2 = fault v" "liveModules w2 = liveModules v"
      using rest Some calls
      by (auto simp: AgentTelemetryCounter_Init_def sys_defs Let_def split_beta split: if_splits)
    with module_calls_kept [OF calls] w1(4) [OF Some] Some show ?thesis by simp
  qed
  show "hubInitiated adapter = ok" "lockOk w' = lockOk w" "iotHubAdapterLock w' = iotHubAdapterLock w"
    "messageCounter adapter = c" "fault w' = fault w" "ok \<Longrightarrow> handle_live adapter w'"
    "\<not> ok \<Longrightarrow> moduleHandle adapter = None \<or> (\<exists>h. moduleHandle adapter = Some h \<and> h \<notin> liveModules w')"
    using assms create rest w1 w2
    by (auto simp: IoTHubAdapter_Init_Internal_def IoTHubAdapter_Deinit_Internal_def AgentTelemetryCounter_Deinit_def
        module_destroy_def handle_live_def Let_def split: if_splits option.splits)
qed

lemma Deinit_fault:
  assumes "locks_work w" and "iotHubAdapterLock w"
  shows "fault (snd (IoTHubAdapter_Deinit adapter w)) \<longleftrightarrow>
    fault w \<or> (\<exists>h. moduleHandle adapter = Some h \<and> h \<notin> liveModules w)"
proof -
  have "lockOk w n" for n using assms(1) by (simp add: locks_work_def)
  with assms(2) show ?thesis
    by (auto simp: IoTHubAdapter_Deinit_def IoTHubAdapter_Deinit_Internal_def AgentTelemetryCounter_Deinit_def
        module_destroy_def sys_defs Let_def set_counter_def split: option.split)
qed

text \<open>
  C36: what a renewal of the connection leaves for the shutdown.  When \<open>Reinit\<close> cannot set the new client
  up, the cleanup destroys the handle and the adapter keeps its address: the next \<open>IoTHubAdapter_Deinit\<close>
  destroys it a second time.  In every other case, a failed connection included, the shutdown after
  \<open>Reinit\<close> is safe.
\<close>

theorem reinit_then_deinit:
  assumes "IoTHubAdapter_Reinit mqtt sleeps adapter sqs w = ((ok, adapter', sqs'), w')"
    and "locks_work w'" and "iotHubAdapterLock w'"
  shows "(ok \<longrightarrow> hubInitiated adapter')
    \<and> (fault (snd (IoTHubAdapter_Deinit adapter' w')) \<longleftrightarrow>
        fault w' \<or> \<not> hubInitiated adapter' \<and> moduleHandle adapter' \<noteq> None)"
proof -
  obtain adapter1 w1 where deinit: "IoTHubAdapter_Deinit_Internal adapter w = (adapter1, w1)" by fastforce
  obtain done_ok adapter2 w2 where init:
    "IoTHubAdapter_Init_Internal mqtt (messageCounter adapter1) (twinUpdatesQueue adapter1) w1 = ((done_ok, adapter2), w2)"
    by (metis prod.collapse)
  note facts = Init_Internal_handle [OF init]
  show ?thesis
  proof (cases done_ok)
    case True
    with assms(1) deinit init have connect: "IoTHubAdapter_Connect sleeps adapter2 sqs w2 = ((ok, adapter', sqs'), w')"
      by (simp add: IoTHubAdapter_Reinit_def)
    have "hubInitiated adapter'" "handle_live adapter' w'"
      using facts(1,6) True Connect_kept [OF connect] by (auto simp: handle_live_def)
    then show ?thesis using Deinit_fault [OF assms(2,3), of adapter'] by (auto simp: handle_live_def)
  next
    case False
    with assms(1) deinit init have "\<not> ok" "adapter' = adapter2" "w' = w2"
      by (auto simp: IoTHubAdapter_Reinit_def)
    then show ?thesis using facts(1,7) False Deinit_fault [OF assms(2,3), of adapter'] by auto
  qed
qed

text \<open>The third call of the SDK in the witness fails, after the new handle was created.\<close>

lemma reinit_then_deinit_witness:
  "\<exists>adapter' sqs' w'. IoTHubAdapter_Reinit False (\<lambda>_. []) fresh_adapter []
      (calm_hub\<lparr>connectionString := Some ''cs'', extOk := (\<lambda>n. n = tick calm_hub)\<rparr>) = ((False, adapter', sqs'), w')
    \<and> \<not> fault w' \<and> fault (snd (IoTHubAdapter_Deinit adapter' w'))"
proof -
  let ?w = "calm_hub\<lparr>connectionString := Some ''cs'', extOk := (\<lambda>n. n = tick calm_hub)\<rparr>"
  obtain ok a s w' where run: "IoTHubAdapter_Reinit False (\<lambda>_. []) fresh_adapter [] ?w = ((ok, a, s), w')"
    by (metis prod.collapse)
  have facts: "\<not> ok" "\<not> hubInitiated a" "moduleHandle a = Some 1" "\<not> fault w'" "iotHubAdapterLock w'" "lockOk w' = lockOk calm_hub"
    using run
    by (auto simp: IoTHubAdapter_Reinit_def IoTHubAdapter_Deinit_Internal_def IoTHubAdapter_Init_Internal_def
        module_create_def module_call_def module_destroy_def AgentTelemetryCounter_Deinit_def fresh_adapter_def
        LocalConfiguration_GetConnectionString_def sys_defs Let_def numeral_3_eq_3 set_counter_def)
  then have "locks_work w'" by (simp add: locks_work_def)
  with reinit_then_deinit [OF run this facts(5)] facts run show ?thesis by auto
qed

section \<open>Sending\<close>

lemma hub_counts:
  "syncedCounters (snd (AgentTelemetryCounter_IncreaseBy c i k v)) =
      (if lockOk v (tick v) then (syncedCounters v)(c := sc_counter_update (add_to i k) (syncedCounters v c)) else syncedCounters v)"
  "lockOk (snd (AgentTelemetryCounter_IncreaseBy c i k v)) = lockOk v" "fault (snd (AgentTelemetryCounter_IncreaseBy c i k v)) = fault v"
  "sentTexts (snd (AgentTelemetryCounter_IncreaseBy c i k v)) = sentTexts v"
  using IncreaseBy_counter [of c i k v] counted_keeps [OF IncreaseBy_counted [of v c i k]]
    hub_fields_more [OF more_kept(2), of c i k v]
  by simp_all

lemma SendMessageAsync_sends:
  assumes "locks_work w" and "iotHubAdapterLock w" and "connected adapter \<or> \<not> useDps w"
    and "IoTHubAdapter_SendMessageAsync P mqtt sleeps adapter data sqs w = ((sent, adapter', sqs'), w')"
  shows "adapter' = adapter \<and> sqs' = sqs
    \<and> sentTexts w' = (if sent then sentTexts w @ [data] else sentTexts w)
    \<and> syncedCounters w' =
       (if sent then (syncedCounters w)(messageCounter adapter := sc_counter_update
          (\<lambda>c. add_to SentMessages 1 (if length data < 4096 then add_to SmallMessages 1 c else c))
          (syncedCounters w (messageCounter adapter)))
        else syncedCounters w)
    \<and> (handle_live adapter w \<longrightarrow> fault w' = fault w)"
proof -
  have ok: "lockOk w n" for n using assms(1) by (simp add: locks_work_def)
  obtain sent0 w0 where body: "hand_over adapter data (next_tick w) = (sent0, w0)" by fastforce
  have w0: "sentTexts w0 = (if sent0 then sentTexts w @ [data] else sentTexts w)"
    "lockOk w0 = lockOk w"
    "syncedCounters w0 =
       (if sent0 then (syncedCounters w)(messageCounter adapter := sc_counter_update
          (\<lambda>c. add_to SentMessages 1 (if length data < 4096 then add_to SmallMessages 1 c else c))
          (syncedCounters w (messageCounter adapter)))
        else syncedCounters w)"
    "handle_live adapter w \<longrightarrow> fault w0 = fault w"
    using body ok
    by (auto simp: hand_over_def module_call_def Let_def sys_defs hub_counts handle_live_def MESSAGE_BILLING_MULTIPLE_def comp_def
        split: if_splits option.splits)
  show ?thesis
    using assms(2-4) body w0 ok
    by (auto simp: IoTHubAdapter_SendMessageAsync_def IoTHubAdapter_SendMessageAsync_Internal_def locked_def sys_defs
        LocalConfiguration_UseDps_def Let_def split: if_splits)
qed

text \<open>
  C31: what is reported as sent was sent, and is counted.  While the adapter is connected, or the device
  does not use the provisioning service, and no lock call fails, \<open>IoTHubAdapter_SendMessageAsync\<close>
  returns true exactly when the SDK accepted the message, once and unchanged; then \<open>sentMessages\<close>, and
  \<open>smallMessages\<close> for a message below 4096 bytes, grow by one.  Otherwise nothing is sent and nothing is
  counted.  A live handle is never used badly, and the adapter and the queues stay as they are.
\<close>

theorem sent_messages_are_counted:
  assumes "locks_work w" and "iotHubAdapterLock w" and "connected adapter \<or> \<not> useDps w"
    and "IoTHubAdapter_SendMessageAsync P mqtt sleeps adapter data sqs w = ((sent, adapter', sqs'), w')"
  shows "adapter' = adapter \<and> sqs' = sqs
    \<and> sentTexts w' = (if sent then sentTexts w @ [data] else sentTexts w)
    \<and> syncedCounters w' =
       (if sent then (syncedCounters w)(messageCounter adapter := sc_counter_update
          (\<lambda>c. add_to SentMessages 1 (if length data < 4096 then add_to SmallMessages 1 c else c))
          (syncedCounters w (messageCounter adapter)))
        else syncedCounters w)
    \<and> (handle_live adapter w \<longrightarrow> fault w' = fault w)"
  by (rule SendMessageAsync_sends [OF assms])

lemma sent_messages_are_counted_witness:
  "\<exists>w'. IoTHubAdapter_SendMessageAsync (tree_parson (\<lambda>_. None)) False (\<lambda>_. []) (fresh_adapter\<lparr>connected := True\<rparr>) ''m'' [] calm_hub
      = ((True, fresh_adapter\<lparr>connected := True\<rparr>, []), w')
    \<and> sentTexts w' = [''m''] \<and> fault w' = False"
proof -
  obtain sent a s w' where run: "IoTHubAdapter_SendMessageAsync (tree_parson (\<lambda>_. None)) False (\<lambda>_. [])
      (fresh_adapter\<lparr>connected := True\<rparr>) ''m'' [] calm_hub = ((sent, a, s), w')"
    by (metis prod.collapse)
  have sent
    using run
    by (auto simp: IoTHubAdapter_SendMessageAsync_def IoTHubAdapter_SendMessageAsync_Internal_def hand_over_def
        module_call_def locked_def sys_defs fresh_adapter_def Let_def hub_counts split: if_splits)
  with sent_messages_are_counted [OF _ _ _ run] run show ?thesis
    by (simp add: handle_live_def fresh_adapter_def)
qed

end
