(* ===== verification/Twin_Serialization.thy ===== *)
theory Twin_Serialization
  imports Twin_Configuration
begin

text \<open>
  Serialising the twin: the JSON documents it builds are all freed again, once each, and in a
  configuration whose durations can be printed nothing but the lock, the allocator or parson can
  make it fail.
\<close>

section \<open>Ownership\<close>

text \<open>
  Parson's contract on ownership, over the set \<open>roots\<close> of the values nobody owns but the program:
  a new value is a root, a value added to another one is none any more, freeing is for roots.
\<close>

definition parson_ownership :: "('v, 'o, 'r, 'h) parson_doc \<Rightarrow> ('h \<Rightarrow> 'v set) \<Rightarrow> bool" where
  "parson_ownership D roots \<longleftrightarrow>
     (\<forall>h. case fst (doc_init_object D h) of
            None \<Rightarrow> roots (snd (doc_init_object D h)) = roots h
          | Some v \<Rightarrow> v \<notin> roots h \<and> roots (snd (doc_init_object D h)) = insert v (roots h))
     \<and> (\<forall>obj key s h. roots (snd (doc_set_string D obj key s h)) = roots h)
     \<and> (\<forall>obj key n h. roots (snd (doc_set_number D obj key n h)) = roots h)
     \<and> (\<forall>obj key b h. roots (snd (doc_set_boolean D obj key b h)) = roots h)
     \<and> (\<forall>obj key v h. roots (snd (doc_set_value D obj key v h)) =
          (if fst (doc_set_value D obj key v h) then roots h - {v} else roots h))
     \<and> (\<forall>v h. v \<in> roots h \<longrightarrow> roots (doc_value_free D v h) = roots h - {v})"

lemma ownership_laws:
  assumes "parson_ownership D roots"
  shows "fst (doc_init_object D h) = None \<Longrightarrow> roots (snd (doc_init_object D h)) = roots h"
    and "fst (doc_init_object D h) = Some v \<Longrightarrow> v \<notin> roots h \<and> roots (snd (doc_init_object D h)) = insert v (roots h)"
    and "roots (snd (doc_set_string D obj key s h)) = roots h"
    and "roots (snd (doc_set_number D obj key n h)) = roots h"
    and "roots (snd (doc_set_boolean D obj key b h)) = roots h"
    and "fst (doc_set_value D obj key v h) \<Longrightarrow> roots (snd (doc_set_value D obj key v h)) = roots h - {v}"
    and "\<not> fst (doc_set_value D obj key v h) \<Longrightarrow> roots (snd (doc_set_value D obj key v h)) = roots h"
    and "v \<in> roots h \<Longrightarrow> roots (doc_value_free D v h) = roots h - {v}"
  using assms [unfolded parson_ownership_def, THEN conjunct1, THEN spec [of _ h]]
    assms [unfolded parson_ownership_def, THEN conjunct2]
  by simp_all

lemma Init_roots:
  assumes own: "parson_ownership D roots" and run: "JsonObjectWriter_Init D w = (x, w')"
  obtains (made) wr where "x = (JSON_WRITER_OK, Some wr)" "wShouldFree wr" "wRootValue wr \<notin> roots (docs w)"
      "roots (docs w') = insert (wRootValue wr) (roots (docs w))"
  | (failed) "x = (JSON_WRITER_EXCEPTION, None)" "roots (docs w') = roots (docs w)"
proof (cases "allocOk w (tick w)")
  case False
  then have "x = (JSON_WRITER_EXCEPTION, None)" "docs w' = docs w"
    using run by (auto simp: JsonObjectWriter_Init_def JsonObjectWriter_new_def sys_defs)
  then show thesis by (intro failed) simp_all
next
  case True
  obtain v h where init: "doc_init_object D (docs w) = (v, h)" by (metis surj_pair)
  show thesis
  proof (cases v)
    case None
    then have "x = (JSON_WRITER_EXCEPTION, None)" "docs w' = h"
      using run init True
      by (auto simp: JsonObjectWriter_Init_def JsonObjectWriter_new_def sys_defs on_docs_def)
    then show thesis using ownership_laws(1) [OF own, of "docs w"] init None by (intro failed) auto
  next
    case (Some val)
    have law: "val \<notin> roots (docs w)" "roots h = insert val (roots (docs w))"
      using ownership_laws(2) [OF own, of "docs w" val] init Some by auto
    show thesis
    proof (cases "doc_get_object D h val")
      case None
      then have "x = (JSON_WRITER_EXCEPTION, None)" "docs w' = doc_value_free D val h"
        using run init True Some
        by (auto simp: JsonObjectWriter_Init_def JsonObjectWriter_new_def sys_defs on_docs_def)
      then show thesis using law ownership_laws(8) [OF own, of val h] by (intro failed) auto
    next
      case obj: (Some ob)
      then have "x = (JSON_WRITER_OK, Some \<lparr>wRootValue = val, wRootObject = ob, wShouldFree = True\<rparr>)" "docs w' = h"
        using run init True Some
        by (auto simp: JsonObjectWriter_Init_def JsonObjectWriter_new_def sys_defs on_docs_def)
      then show thesis using law
        by (intro made [of "\<lparr>wRootValue = val, wRootObject = ob, wShouldFree = True\<rparr>"]) simp_all
    qed
  qed
qed

lemma Deinit_roots:
  "parson_ownership D roots \<Longrightarrow> wShouldFree wr \<longrightarrow> wRootValue wr \<in> roots (docs w) \<Longrightarrow>
    roots (docs (JsonObjectWriter_Deinit D wr w)) =
      (if wShouldFree wr then roots (docs w) - {wRootValue wr} else roots (docs w))"
  by (simp add: JsonObjectWriter_Deinit_def ownership_laws(8))

lemma write_value_roots:
  "parson_ownership D roots \<Longrightarrow> roots (docs (snd (write_value D wr x w))) = roots (docs w)"
  by (auto simp: write_value_def written_as_def on_docs_def split_beta Let_def ownership_laws
      JsonObjectWriter_WriteString_def JsonObjectWriter_WriteInt_def JsonObjectWriter_WriteBool_def
      split: conf_value.splits)

lemma WriteObject_roots:
  assumes own: "parson_ownership D roots" and run: "JsonObjectWriter_WriteObject D wr key obj w = ((r, added), w')"
  shows "wRootValue added = wRootValue obj"
    and "r = JSON_WRITER_OK \<Longrightarrow> \<not> wShouldFree added \<and> roots (docs w') = roots (docs w) - {wRootValue obj}"
    and "r \<noteq> JSON_WRITER_OK \<Longrightarrow> added = obj \<and> roots (docs w') = roots (docs w)"
proof -
  obtain ok h where set_value: "doc_set_value D (wRootObject wr) key (wRootValue obj) (docs w) = (ok, h)"
    by (metis surj_pair)
  then have eq: "((r, added), w') = (if ok then ((JSON_WRITER_OK, obj\<lparr>wShouldFree := False\<rparr>), w\<lparr>docs := h\<rparr>)
      else ((JSON_WRITER_EXCEPTION, obj), w\<lparr>docs := h\<rparr>))"
    using run by (auto simp: JsonObjectWriter_WriteObject_def on_docs_def split: if_splits)
  note law = ownership_laws(6,7) [OF own, of "wRootObject wr" key "wRootValue obj" "docs w", unfolded set_value]
  show "wRootValue added = wRootValue obj" using eq by (simp split: if_splits)
  show "\<not> wShouldFree added \<and> roots (docs w') = roots (docs w) - {wRootValue obj}" if "r = JSON_WRITER_OK"
    using eq law that by (simp split: if_splits)
  show "added = obj \<and> roots (docs w') = roots (docs w)" if "r \<noteq> JSON_WRITER_OK"
    using eq law that by (simp split: if_splits)
qed

text \<open>Writing one entry allocates an object and either hands it to the writer or frees it.\<close>

lemma WriteConfiguration_roots:
  assumes own: "parson_ownership D roots"
  shows "roots (docs (snd (TwinConfigurationUtils_Internal_WriteConfigurationToJson D writer key x w))) = roots (docs w)"
proof -
  obtain y w1 where init: "JsonObjectWriter_Init D w = (y, w1)" by (metis surj_pair)
  from own init show ?thesis
  proof (cases rule: Init_roots)
    case failed
    with init show ?thesis by (simp add: TwinConfigurationUtils_Internal_WriteConfigurationToJson_def)
  next
    case (made wr)
    obtain r w2 where wv: "write_value D wr x w1 = (r, w2)" by (metis surj_pair)
    obtain r2 added w3 where wo: "JsonObjectWriter_WriteObject D writer key wr w2 = ((r2, added), w3)" by (metis surj_pair)
    have w2: "roots (docs w2) = insert (wRootValue wr) (roots (docs w))"
      using write_value_roots [OF own, of wr x w1] wv made by simp
    show ?thesis
    proof (cases "r = JSON_WRITER_OK")
      case False
      then show ?thesis using init made wv w2 Deinit_roots [OF own, of wr w2]
        by (simp add: TwinConfigurationUtils_Internal_WriteConfigurationToJson_def)
    next
      case True
      then show ?thesis using init made wv wo w2 Deinit_roots [OF own, of added w3] WriteObject_roots [OF own wo]
        by (cases "r2 = JSON_WRITER_OK") (auto simp: TwinConfigurationUtils_Internal_WriteConfigurationToJson_def)
    qed
  qed
qed

definition keeps_roots ::
  "('h \<Rightarrow> 'v set) \<Rightarrow> (('h, 'a) docs_env_scheme \<Rightarrow> 'x \<times> ('h, 'a) docs_env_scheme) \<Rightarrow> bool" where
  "keeps_roots roots f \<longleftrightarrow> (\<forall>w. roots (docs (snd (f w))) = roots (docs w))"

lemma keeps_rootsD: "keeps_roots roots f \<Longrightarrow> roots (docs (snd (f w))) = roots (docs w)"
  by (simp add: keeps_roots_def)

lemma keeps_roots_run_steps: "\<forall>f\<in>set fs. keeps_roots roots f \<Longrightarrow> keeps_roots roots (run_steps fs)"
proof (induction fs)
  case (Cons f fs)
  then have "roots (docs (snd (run_steps (f # fs) w))) = roots (docs w)" for w
    using keeps_rootsD [of roots f w] keeps_rootsD [of roots "run_steps fs" "snd (f w)"]
    by (simp add: Let_def split_beta)
  then show ?case by (simp add: keeps_roots_def)
qed (simp add: keeps_roots_def)

lemma write_string_roots:
  "parson_ownership D roots \<Longrightarrow>
    roots (docs (snd (TwinConfigurationUtils_WriteStringConfigurationToJson D writer key s w))) = roots (docs w)"
  by (cases s) (simp_all add: TwinConfigurationUtils_WriteStringConfigurationToJson_def WriteConfiguration_roots)

lemma write_entry_roots:
  assumes "parson_ownership D roots"
  shows "keeps_roots roots (TwinConfigurationUtils_WriteStringConfigurationToJson D writer key s)"
    "keeps_roots roots (TwinConfigurationUtils_WriteUintConfigurationToJson D writer key n)"
    "keeps_roots roots (TwinConfigurationUtils_WriteBoolConfigurationToJson D writer key b)"
    "keeps_roots roots (write_duration D writer key n)"
    "keeps_roots roots (write_priority D writer key p)"
  by (simp_all add: keeps_roots_def TwinConfigurationUtils_WriteUintConfigurationToJson_def write_duration_def
      TwinConfigurationUtils_WriteBoolConfigurationToJson_def write_priority_def split_beta
      write_string_roots [OF assms] WriteConfiguration_roots [OF assms])

lemma Lock_docs [simp]: "docs (snd (TwinConfigurationEventCollectors_Lock w)) = docs w"
  by (simp add: TwinConfigurationEventCollectors_Lock_def sys_defs)

lemma Unlock_docs [simp]: "docs (snd (TwinConfigurationEventCollectors_Unlock w)) = docs w"
  by (simp add: TwinConfigurationEventCollectors_Unlock_def sys_defs Let_def)

lemma SafeGetPrioritiesJson_roots:
  assumes "parson_ownership D roots"
  shows "keeps_roots roots (TwinConfigurationEventCollectors_SafeGetPrioritiesJson D writer)"
  unfolding keeps_roots_def [of roots "TwinConfigurationEventCollectors_SafeGetPrioritiesJson D writer"]
    TwinConfigurationEventCollectors_SafeGetPrioritiesJson_def Let_def
  by (rule allI, rule keeps_rootsD, rule keeps_roots_run_steps) (simp add: write_entry_roots [OF assms])

lemma GetPrioritiesJson_roots:
  assumes "parson_ownership D roots"
  shows "keeps_roots roots (TwinConfigurationEventCollectors_GetPrioritiesJson D writer)"
  by (simp add: keeps_roots_def keeps_rootsD [OF SafeGetPrioritiesJson_roots [OF assms]]
      TwinConfigurationEventCollectors_GetPrioritiesJson_def with_collectors_lock_def Let_def split_beta)

lemma write_configuration_roots:
  assumes "parson_ownership D roots"
  shows "roots (docs (snd (write_configuration D writer w))) = roots (docs w)"
  unfolding write_configuration_def Let_def
  by (rule keeps_rootsD, rule keeps_roots_run_steps)
     (simp add: write_entry_roots [OF assms] GetPrioritiesJson_roots [OF assms])

lemma serialize_twin_roots:
  assumes own: "parson_ownership D roots"
  shows "roots (docs (snd (serialize_twin D w))) = roots (docs w)"
proof -
  obtain x w1 where init1: "JsonObjectWriter_Init D w = (x, w1)" by (metis surj_pair)
  obtain y w2 where init2: "JsonObjectWriter_Init D w1 = (y, w2)" by (metis surj_pair)
  from own init1 show ?thesis
  proof (cases rule: Init_roots)
    case failed
    with init1 show ?thesis by (simp add: serialize_twin_def)
  next
    case (made root)
    note root = made
    from own init2 show ?thesis
    proof (cases rule: Init_roots)
      case failed
      with init1 init2 root show ?thesis by (simp add: serialize_twin_def Deinit_roots [OF own])
    next
      case (made conf)
      obtain r w3 where wc: "write_configuration D conf w2 = (r, w3)" by (metis surj_pair)
      have w3: "roots (docs w3) = insert (wRootValue conf) (insert (wRootValue root) (roots (docs w)))"
        using write_configuration_roots [OF own, of conf w2] wc made root by simp
      have apart: "wRootValue conf \<noteq> wRootValue root" "wRootValue conf \<notin> roots (docs w)"
        using made root by auto
      let ?name = "the (twinConfigurationObjectName w3)"
      let ?w4 = "w3\<lparr>fault := (fault w3 \<or> twinConfigurationObjectName w3 = None)\<rparr>"
      obtain r2 added w5 where wo: "JsonObjectWriter_WriteObject D root ?name conf ?w4 = ((r2, added), w5)" by (metis surj_pair)
      obtain z w6 where ser: "JsonObjectWriter_Serialize D root w5 = (z, w6)" by (metis surj_pair)
      have w6: "docs w6 = docs w5" using ser by (auto simp: JsonObjectWriter_Serialize_def split: option.splits)
      note rules = serialize_twin_def init1 init2 wc wo ser Deinit_roots [OF own] root(1) made(1) Let_def split_beta
      show ?thesis
      proof (cases "r = TWIN_OK")
        case False
        then show ?thesis using root made w3 apart by (auto simp: rules)
      next
        case True
        show ?thesis
        proof (cases "r2 = JSON_WRITER_OK")
          case r2: True
          then show ?thesis using True root made w3 w6 apart WriteObject_roots [OF own wo] by (auto simp: rules)
        next
          case r2: False
          then show ?thesis using True root made w3 apart WriteObject_roots [OF own wo] by (auto simp: rules)
        qed
      qed
    qed
  qed
qed

lemma GetSerialized_roots:
  assumes own: "parson_ownership D roots"
  shows "roots (docs (snd (TwinConfiguration_GetSerializedTwinConfiguration D w))) = roots (docs w)"
  by (simp add: serialize_twin_roots [OF own] TwinConfiguration_GetSerializedTwinConfiguration_def locked_def sys_defs Let_def split_beta)

section \<open>Success\<close>

text \<open>Parson and the allocator never run out of memory.\<close>

definition parson_never_fails :: "('v, 'o, 'r, 'h) parson_doc \<Rightarrow> bool" where
  "parson_never_fails D \<longleftrightarrow>
     (\<forall>h. \<exists>v obj. fst (doc_init_object D h) = Some v \<and> doc_get_object D (snd (doc_init_object D h)) v = Some obj)
     \<and> (\<forall>obj key s h. fst (doc_set_string D obj key s h)) \<and> (\<forall>obj key n h. fst (doc_set_number D obj key n h))
     \<and> (\<forall>obj key b h. fst (doc_set_boolean D obj key b h)) \<and> (\<forall>obj key v h. fst (doc_set_value D obj key v h))
     \<and> (\<forall>h v. doc_serialize D h v \<noteq> None)"

definition calls_work :: "'a env_scheme \<Rightarrow> bool" where
  "calls_work w \<longleftrightarrow> (\<forall>n. lockOk w n \<and> allocOk w n)"

text \<open>Only the documents and the counter change.\<close>

definition doc_frame :: "('h, 'a) docs_env_scheme \<Rightarrow> ('h, 'a) docs_env_scheme \<Rightarrow> bool" where
  "doc_frame w w' \<longleftrightarrow> (\<exists>n h. w' = w\<lparr>tick := n, docs := h\<rparr>)"

lemma doc_frame_refl [simp]: "doc_frame w w"
  unfolding doc_frame_def by (rule exI [of _ "tick w"], rule exI [of _ "docs w"]) simp

lemma doc_frame_trans [trans]: "doc_frame w w1 \<Longrightarrow> doc_frame w1 w2 \<Longrightarrow> doc_frame w w2"
  unfolding doc_frame_def by (elim exE) (simp, blast)

lemma doc_frameI: "w' = w\<lparr>tick := n, docs := h\<rparr> \<Longrightarrow> doc_frame w w'"
  by (auto simp: doc_frame_def)

lemma doc_frame_tick: "doc_frame w (w\<lparr>tick := n\<rparr>)"
  by (rule doc_frameI [where n = n and h = "docs w"]) simp

lemma doc_frame_docs: "doc_frame w (w\<lparr>docs := h\<rparr>)"
  by (rule doc_frameI [where n = "tick w" and h = h]) simp

lemma doc_frame_calls: "doc_frame w w' \<Longrightarrow> calls_work w' = calls_work w"
  by (auto simp: doc_frame_def calls_work_def)

lemma run_steps_succeeds:
  assumes "\<And>f s. f \<in> set fs \<Longrightarrow> I s \<Longrightarrow> fst (f s) = TWIN_OK \<and> I (snd (f s))" and "I s"
  shows "fst (run_steps fs s) = TWIN_OK \<and> I (snd (run_steps fs s))"
  using assms by (induction fs arbitrary: s) (auto simp: Let_def split_beta)

lemma Init_succeeds:
  assumes "parson_never_fails D" and "calls_work w"
  obtains wr w' where "JsonObjectWriter_Init D w = ((JSON_WRITER_OK, Some wr), w')" "doc_frame w w'"
proof -
  obtain v obj where v: "fst (doc_init_object D (docs w)) = Some v"
      "doc_get_object D (snd (doc_init_object D (docs w))) v = Some obj"
    using assms(1) [unfolded parson_never_fails_def, THEN conjunct1, THEN spec [of _ "docs w"]] by blast
  let ?w' = "w\<lparr>tick := Suc (tick w), docs := snd (doc_init_object D (docs w))\<rparr>"
  have "JsonObjectWriter_Init D w =
      ((JSON_WRITER_OK, Some \<lparr>wRootValue = v, wRootObject = obj, wShouldFree = True\<rparr>), ?w')"
    using v assms(2)
    by (simp add: JsonObjectWriter_Init_def JsonObjectWriter_new_def sys_defs on_docs_def calls_work_def split_beta)
  then show thesis by (rule that) (rule doc_frameI, rule refl)
qed

lemma Deinit_frame: "doc_frame w (JsonObjectWriter_Deinit D wr w)"
  by (simp add: JsonObjectWriter_Deinit_def doc_frame_docs)

lemma write_value_succeeds:
  assumes "parson_never_fails D"
  shows "fst (write_value D wr x w) = JSON_WRITER_OK" and "doc_frame w (snd (write_value D wr x w))"
  using assms
  by (cases x; simp add: write_value_def written_as_def on_docs_def split_beta doc_frame_docs parson_never_fails_def
      JsonObjectWriter_WriteString_def JsonObjectWriter_WriteInt_def JsonObjectWriter_WriteBool_def)+

lemma WriteObject_succeeds:
  assumes "parson_never_fails D"
  shows "fst (fst (JsonObjectWriter_WriteObject D wr key obj w)) = JSON_WRITER_OK"
    and "doc_frame w (snd (JsonObjectWriter_WriteObject D wr key obj w))"
  using assms
  by (simp_all add: JsonObjectWriter_WriteObject_def on_docs_def split_beta doc_frame_docs parson_never_fails_def Let_def)

definition succeeds where
  "succeeds f \<longleftrightarrow> (\<forall>w. calls_work w \<longrightarrow> fst (f w) = TWIN_OK \<and> doc_frame w (snd (f w)))"

lemma WriteConfiguration_succeeds:
  assumes D: "parson_never_fails D" and w: "calls_work w"
  shows "fst (TwinConfigurationUtils_Internal_WriteConfigurationToJson D writer key x w) = TWIN_OK"
    and "doc_frame w (snd (TwinConfigurationUtils_Internal_WriteConfigurationToJson D writer key x w))"
proof -
  obtain wr w1 where init: "JsonObjectWriter_Init D w = ((JSON_WRITER_OK, Some wr), w1)" "doc_frame w w1"
    by (rule Init_succeeds [OF D w])
  obtain w2 where wv: "write_value D wr x w1 = (JSON_WRITER_OK, w2)" "doc_frame w1 w2"
    using write_value_succeeds [OF D, where wr = wr and x = x and w = w1] by (cases "write_value D wr x w1") auto
  obtain added w3 where wo: "JsonObjectWriter_WriteObject D writer key wr w2 = ((JSON_WRITER_OK, added), w3)" "doc_frame w2 w3"
    using WriteObject_succeeds [OF D, where wr = writer and key = key and obj = wr and w = w2]
    by (cases "JsonObjectWriter_WriteObject D writer key wr w2") auto
  have eq: "TwinConfigurationUtils_Internal_WriteConfigurationToJson D writer key x w =
      (TWIN_OK, JsonObjectWriter_Deinit D added w3)"
    using init(1) wv(1) wo(1) by (simp add: TwinConfigurationUtils_Internal_WriteConfigurationToJson_def)
  have "doc_frame w w3" using init(2) wv(2) wo(2) by (blast intro: doc_frame_trans)
  also have "doc_frame w3 (JsonObjectWriter_Deinit D added w3)" by (rule Deinit_frame)
  finally show "doc_frame w (snd (TwinConfigurationUtils_Internal_WriteConfigurationToJson D writer key x w))"
    using eq by simp
  show "fst (TwinConfigurationUtils_Internal_WriteConfigurationToJson D writer key x w) = TWIN_OK" using eq by simp
qed

lemma write_string_succeeds:
  assumes "parson_never_fails D" and "calls_work w"
  shows "fst (TwinConfigurationUtils_WriteStringConfigurationToJson D writer key s w) = TWIN_OK"
    and "doc_frame w (snd (TwinConfigurationUtils_WriteStringConfigurationToJson D writer key s w))"
  by (cases s; simp add: TwinConfigurationUtils_WriteStringConfigurationToJson_def WriteConfiguration_succeeds [OF assms])+

lemma write_entry_succeeds:
  assumes "parson_never_fails D"
  shows "succeeds (TwinConfigurationUtils_WriteStringConfigurationToJson D writer key s)"
    "succeeds (TwinConfigurationUtils_WriteUintConfigurationToJson D writer key n)"
    "succeeds (TwinConfigurationUtils_WriteBoolConfigurationToJson D writer key b)"
    "succeeds (write_priority D writer key p)"
    "printable n \<Longrightarrow> succeeds (write_duration D writer key n)"
  by (simp_all add: succeeds_def TwinConfigurationUtils_WriteUintConfigurationToJson_def write_duration_printable
      TwinConfigurationUtils_WriteBoolConfigurationToJson_def write_priority_def
      write_string_succeeds [OF assms] WriteConfiguration_succeeds [OF assms])

lemma succeeds_run:
  assumes "\<forall>f\<in>set fs. succeeds f" and "calls_work w"
  shows "fst (run_steps fs w) = TWIN_OK \<and> doc_frame w (snd (run_steps fs w))"
  using assms(1)
  by (intro run_steps_succeeds [where I = "doc_frame w"])
     (auto simp: succeeds_def doc_frame_calls assms(2) intro: doc_frame_trans)

lemma SafeGetPrioritiesJson_succeeds:
  assumes "parson_never_fails D" and "calls_work w" and "collectors_printable (eventPriorities w)"
  shows "fst (TwinConfigurationEventCollectors_SafeGetPrioritiesJson D writer w) = TWIN_OK
    \<and> doc_frame w (snd (TwinConfigurationEventCollectors_SafeGetPrioritiesJson D writer w))"
  unfolding TwinConfigurationEventCollectors_SafeGetPrioritiesJson_def Let_def
  by (rule succeeds_run)
     (use assms in \<open>simp_all add: write_entry_succeeds collectors_printable_def\<close>)

lemma GetPrioritiesJson_succeeds:
  assumes "parson_never_fails D" and "calls_work w" and "collectors_printable (eventPriorities w)"
    and "\<not> isLocked (eventPriorities w)"
  shows "fst (TwinConfigurationEventCollectors_GetPrioritiesJson D writer w) = TWIN_OK
    \<and> doc_frame w (snd (TwinConfigurationEventCollectors_GetPrioritiesJson D writer w))"
proof -
  let ?w1 = "w\<lparr>tick := Suc (tick w), eventPriorities := (eventPriorities w)\<lparr>isLocked := True\<rparr>\<rparr>"
  obtain r w2 where body: "TwinConfigurationEventCollectors_SafeGetPrioritiesJson D writer ?w1 = (r, w2)" by (metis surj_pair)
  have "calls_work ?w1" "collectors_printable (eventPriorities ?w1)"
    using assms(2,3) by (simp_all add: calls_work_def)
  from SafeGetPrioritiesJson_succeeds [OF assms(1) this, of writer] body
  obtain n h where r: "r = TWIN_OK" and w2: "w2 = ?w1\<lparr>tick := n, docs := h\<rparr>" by (auto simp: doc_frame_def)
  have same: "(eventPriorities w)\<lparr>isLocked := False\<rparr> = eventPriorities w"
    using assms(4) by (cases "eventPriorities w") simp
  have "TwinConfigurationEventCollectors_GetPrioritiesJson D writer w =
      (TWIN_OK, w\<lparr>tick := Suc n, docs := h, eventPriorities := (eventPriorities w)\<lparr>isLocked := False\<rparr>\<rparr>)"
    using assms(2,4) body r w2
    by (simp add: TwinConfigurationEventCollectors_GetPrioritiesJson_def with_collectors_lock_def sys_defs
        TwinConfigurationEventCollectors_Lock_def TwinConfigurationEventCollectors_Unlock_def calls_work_def)
  also have "w\<lparr>tick := Suc n, docs := h, eventPriorities := (eventPriorities w)\<lparr>isLocked := False\<rparr>\<rparr> = w\<lparr>tick := Suc n, docs := h\<rparr>"
    unfolding same by simp
  finally show ?thesis by (simp add: doc_frameI [where n = "Suc n" and h = h])
qed

lemma write_configuration_succeeds:
  assumes D: "parson_never_fails D" and w: "calls_work w" and ready: "twin_ready w"
    and free: "\<not> isLocked (eventPriorities w)"
  shows "fst (write_configuration D writer w) = TWIN_OK \<and> doc_frame w (snd (write_configuration D writer w))"
proof -
  have priorities: "fst (TwinConfigurationEventCollectors_GetPrioritiesJson D writer s) = TWIN_OK
      \<and> doc_frame w (snd (TwinConfigurationEventCollectors_GetPrioritiesJson D writer s))" if "doc_frame w s" for s
  proof -
    have "calls_work s" "eventPriorities s = eventPriorities w"
      using that doc_frame_calls [OF that] w by (auto simp: doc_frame_def)
    then show ?thesis
      using GetPrioritiesJson_succeeds [OF D, of s writer] ready free doc_frame_trans [OF that] by (simp add: twin_ready_def)
  qed
  have step: "fst (f s) = TWIN_OK \<and> doc_frame w (snd (f s))" if "succeeds f" "doc_frame w s" for f s
    using that doc_frame_calls [OF that(2)] w doc_frame_trans [OF that(2)] by (auto simp: succeeds_def)
  show ?thesis
    unfolding write_configuration_def Let_def
    by (rule run_steps_succeeds [where I = "doc_frame w"])
       (use ready in \<open>auto simp: priorities step write_entry_succeeds [OF D] twin_ready_def twin_printable_def
         simp del: fst_conv\<close>)
qed

lemma serialize_twin_succeeds:
  assumes D: "parson_never_fails D" and w: "calls_work w" and ready: "twin_ready w"
    and free: "\<not> isLocked (eventPriorities w)"
  shows "(\<exists>s. fst (serialize_twin D w) = (TWIN_OK, Some (s, of_nat (length s)))) \<and> calls_work (snd (serialize_twin D w))"
proof -
  obtain root w1 where init1: "JsonObjectWriter_Init D w = ((JSON_WRITER_OK, Some root), w1)" "doc_frame w w1"
    by (rule Init_succeeds [OF D w])
  have "calls_work w1" using doc_frame_calls [OF init1(2)] w by simp
  then obtain conf w2 where init2: "JsonObjectWriter_Init D w1 = ((JSON_WRITER_OK, Some conf), w2)" "doc_frame w1 w2"
    by (rule Init_succeeds [OF D])
  have f2: "doc_frame w w2" using init1(2) init2(2) by (rule doc_frame_trans)
  then have "calls_work w2" "twin_ready w2" "\<not> isLocked (eventPriorities w2)"
    using w ready free by (auto simp: doc_frame_def calls_work_def twin_ready_def)
  from write_configuration_succeeds [OF D this, of conf]
  obtain w3 where wc: "write_configuration D conf w2 = (TWIN_OK, w3)" "doc_frame w2 w3"
    by (cases "write_configuration D conf w2") auto
  let ?w4 = "w3\<lparr>fault := (fault w3 \<or> twinConfigurationObjectName w3 = None)\<rparr>"
  let ?name = "the (twinConfigurationObjectName w3)"
  obtain added w5 where wo: "JsonObjectWriter_WriteObject D root ?name conf ?w4 = ((JSON_WRITER_OK, added), w5)" "doc_frame ?w4 w5"
    using WriteObject_succeeds [OF D, where wr = root and key = ?name and obj = conf and w = ?w4]
    by (cases "JsonObjectWriter_WriteObject D root ?name conf ?w4") auto
  obtain s where s: "doc_serialize D (docs w5) (wRootValue root) = Some s"
    using D unfolding parson_never_fails_def by (metis not_None_eq)
  have ser: "JsonObjectWriter_Serialize D root w5 = ((JSON_WRITER_OK, Some (s, of_nat (length s))), w5)"
    using s by (simp add: JsonObjectWriter_Serialize_def)
  have eq: "serialize_twin D w = ((TWIN_OK, Some (s, of_nat (length s))),
      JsonObjectWriter_Deinit D root (JsonObjectWriter_Deinit D added w5))"
    using init1(1) init2(1) wc(1) wo(1) ser by (simp add: serialize_twin_def)
  have "doc_frame w5 (JsonObjectWriter_Deinit D root (JsonObjectWriter_Deinit D added w5))"
    using Deinit_frame doc_frame_trans by blast
  with f2 wc(2) wo(2) w have "calls_work (snd (serialize_twin D w))"
    unfolding eq by (auto simp: doc_frame_def calls_work_def)
  with eq show ?thesis by simp
qed

lemma GetSerialized_succeeds:
  assumes D: "parson_never_fails D" and w: "calls_work w" and ready: "twin_ready w"
    and free: "\<not> isLocked (eventPriorities w)"
  shows "\<exists>s w'. TwinConfiguration_GetSerializedTwinConfiguration D w = ((TWIN_OK, Some (s, of_nat (length s))), w')"
proof -
  have "calls_work (next_tick w)" "twin_ready (next_tick w)" "\<not> isLocked (eventPriorities (next_tick w))"
    using w ready free by (simp_all add: next_tick_def calls_work_def twin_ready_def)
  from serialize_twin_succeeds [OF D this] obtain s w2 where
    "serialize_twin D (next_tick w) = ((TWIN_OK, Some (s, of_nat (length s))), w2)" "calls_work w2"
    by (cases "serialize_twin D (next_tick w)") auto
  with w show ?thesis
    by (simp add: TwinConfiguration_GetSerializedTwinConfiguration_def locked_def sys_lock_def calls_work_def)
qed

section \<open>Properties\<close>

text \<open>A document store for the witnesses: the list of the roots; a new one is above all of them.\<close>

definition list_doc :: "(nat, nat, nat, nat list) parson_doc" where
  "list_doc =
     (let new = (\<lambda>h. (Some (Suc (sum_list h)), Suc (sum_list h) # h)); drop_root = (\<lambda>v. filter (\<lambda>x. x \<noteq> v)) in
      \<lparr>doc_init_object = new, doc_init_array = new, doc_parse_string = (\<lambda>_. new),
       doc_get_object = (\<lambda>_ v. Some v), doc_get_array = (\<lambda>_ v. Some v), doc_value_free = drop_root,
       doc_set_string = (\<lambda>_ _ _ h. (True, h)), doc_set_number = (\<lambda>_ _ _ h. (True, h)),
       doc_set_boolean = (\<lambda>_ _ _ h. (True, h)), doc_set_value = (\<lambda>_ _ v h. (True, drop_root v h)),
       doc_append_value = (\<lambda>_ v h. (True, drop_root v h)), doc_serialize = (\<lambda>_ _. Some ''{}''),
       doc_equals = (\<lambda>_ v v'. v = v'), doc_object_count = (\<lambda>_ _. 0), doc_array_count = (\<lambda>_ _. 0),
       doc_dothas_value = (\<lambda>_ _ _. False), doc_dotget_value = (\<lambda>_ _ _. None), doc_get_type = (\<lambda>_ _. JSONObject)\<rparr>)"

lemma list_doc_ownership: "parson_ownership list_doc set"
proof -
  have "Suc (sum_list h) \<notin> set h" for h :: "nat list"
    using member_le_sum_list [of "Suc (sum_list h)" h] by auto
  then show ?thesis by (auto simp: parson_ownership_def list_doc_def Let_def)
qed

lemma list_doc_never_fails: "parson_never_fails list_doc"
  by (simp add: parson_never_fails_def list_doc_def Let_def)

text \<open>
  C35: serialising the twin neither leaks nor frees twice a JSON document, whichever of its many
  steps fails: by parson's ownership rules, the documents the program owns afterwards are those
  it owned before.
\<close>

theorem serialization_keeps_ownership:
  assumes "parson_ownership D roots"
  shows "roots (docs (snd (TwinConfiguration_GetSerializedTwinConfiguration D w))) = roots (docs w)"
  by (rule GetSerialized_roots [OF assms])

theorem serialization_keeps_ownership_witness:
  "set (docs (snd (TwinConfiguration_GetSerializedTwinConfiguration list_doc (calm_twin_with [7])))) = {7}"
  using serialization_keeps_ownership [OF list_doc_ownership, of "calm_twin_with [7]"] by simp

text \<open>
  C36: a configuration as the agent keeps it can always be serialised: when the locks are free and
  neither the allocator nor parson fails, the result is \<open>TWIN_OK\<close> with a text and its length; no
  duration in it can be unprintable.
\<close>

theorem serialization_succeeds:
  assumes "parson_never_fails D" and "calls_work w" and "twin_ready w" and "\<not> isLocked (eventPriorities w)"
  shows "\<exists>s w'. TwinConfiguration_GetSerializedTwinConfiguration D w = ((TWIN_OK, Some (s, of_nat (length s))), w')"
  by (rule GetSerialized_succeeds [OF assms])

theorem serialization_succeeds_witness:
  "\<exists>s w'. TwinConfiguration_GetSerializedTwinConfiguration list_doc (calm_twin_with [7])
    = ((TWIN_OK, Some (s, of_nat (length s))), w')"
  by (rule serialization_succeeds [OF list_doc_never_fails]) (simp_all add: calls_work_def default_collectors_def)

end
