(* ===== verification/Message_Serializer.thy ===== *)
theory Message_Serializer
  imports Sync_Queue Twin_Serialization
begin

text \<open>
  Building a security message from the queued events, \<^verbatim>\<open>src/agent/src/message_serializer.c\<close> (keys of
  \<^verbatim>\<open>message_schema_consts.c\<close>).  The events are taken from the queues in the order in which the caller
  lists them, as long as they fit the twin's \<open>maxMessageSize\<close>.  The C array of queue pointers is a list
  of positions in the list of the agent's queues.
\<close>

datatype MessageSerializerResultValues =
  MESSAGE_SERIALIZER_OK | MESSAGE_SERIALIZER_MEMORY_EXCEEDED | MESSAGE_SERIALIZER_EMPTY
| MESSAGE_SERIALIZER_PARTIAL | MESSAGE_SERIALIZER_EXCEPTION

definition AGENT_VERSION_KEY :: string where "AGENT_VERSION_KEY = ''AgentVersion''"
definition AGENT_ID_KEY :: string where "AGENT_ID_KEY = ''AgentId''"
definition MESSAGE_SCHEMA_VERSION_KEY :: string where "MESSAGE_SCHEMA_VERSION_KEY = ''MessageSchemaVersion''"
definition EVENTS_KEY :: string where "EVENTS_KEY = ''Events''"
definition AGENT_VERSION :: string where "AGENT_VERSION = ''0.0.5''"
definition DEFAULT_MESSAGE_SCHEMA_VERSION :: string where "DEFAULT_MESSAGE_SCHEMA_VERSION = ''1.0''"

section \<open>One event\<close>

record SerializaerSizeLimits =
  currentMessageSize :: u32
  maxMessageSizeLimit :: u32

definition sizeLimitationCondition :: "SerializaerSizeLimits \<Rightarrow> queue_data \<Rightarrow> u32 \<Rightarrow> bool" where
  "sizeLimitationCondition limits data n \<longleftrightarrow> currentMessageSize limits + n < maxMessageSizeLimit limits"

text \<open>
  Parsing the popped text and appending it.  The event queues hold texts; anything else would be read
  as one, a fault.  The writer of the event is released in every case, the popped data as well.
\<close>

definition append_event ::
  "('v, 'o, 'r, 'h) parson_doc \<Rightarrow> ('v, 'r) JsonArrayWriter \<Rightarrow> queue_data \<Rightarrow> ('h, 'a) docs_env_scheme \<Rightarrow>
    MessageSerializerResultValues \<times> ('h, 'a) docs_env_scheme" where
  "append_event D eventsArray data w =
     (case data of
        EVENT json \<Rightarrow>
          (case JsonObjectWriter_InitFromString D json w of
             ((JSON_WRITER_OK, Some eventWriter), w1) \<Rightarrow>
               (let ((r, eventWriter'), w2) = JsonArrayWriter_AddObject D eventsArray eventWriter w1
                in (if r \<noteq> JSON_WRITER_OK then MESSAGE_SERIALIZER_EXCEPTION else MESSAGE_SERIALIZER_OK,
                    JsonObjectWriter_Deinit D eventWriter' w2))
           | (_, w1) \<Rightarrow> (MESSAGE_SERIALIZER_EXCEPTION, w1))
      | _ \<Rightarrow> (MESSAGE_SERIALIZER_EXCEPTION, w\<lparr>fault := True\<rparr>))"

definition MessageSerializer_AddSingleEvent ::
  "('v, 'o, 'r, 'h) parson_doc \<Rightarrow> SyncQueue \<Rightarrow> ('v, 'r) JsonArrayWriter \<Rightarrow> u32 \<Rightarrow> u32 \<Rightarrow> ('h, 'a) queue_env_scheme \<Rightarrow>
    (MessageSerializerResultValues \<times> SyncQueue \<times> u32) \<times> ('h, 'a) queue_env_scheme" where
  "MessageSerializer_AddSingleEvent D queue eventsArray current maxSize w =
     (let limits = \<lparr>currentMessageSize = current, maxMessageSizeLimit = maxSize\<rparr>;
          ((queueResult, out, queue'), w1) = SyncQueue_PopFrontIf queue (sizeLimitationCondition limits) w in
      if queueResult = Queue_Result QUEUE_IS_EMPTY then ((MESSAGE_SERIALIZER_EMPTY, queue', current), w1)
      else if queueResult = Queue_Result QUEUE_CONDITION_FAILED
      then ((MESSAGE_SERIALIZER_MEMORY_EXCEEDED, queue', current), w1)
      else if queueResult \<noteq> SYNC_OK then ((MESSAGE_SERIALIZER_EXCEPTION, queue', current), w1)
      else case out of
        None \<Rightarrow> ((MESSAGE_SERIALIZER_EXCEPTION, queue', current), w1)
      | Some (data, dataSize) \<Rightarrow>
          (let (r, w2) = append_event D eventsArray data w1
           in ((r, queue', if r = MESSAGE_SERIALIZER_OK then current + dataSize else current), w2)))"

section \<open>One queue\<close>

lemma AddSingleEvent_less:
  assumes "((MESSAGE_SERIALIZER_OK, queue', current'), w') = MessageSerializer_AddSingleEvent D queue eventsArray current maxSize w"
  shows "unat (numberOfElements (innerQueue queue')) < unat (numberOfElements (innerQueue queue))"
proof -
  let ?c = "sizeLimitationCondition \<lparr>currentMessageSize = current, maxMessageSizeLimit = maxSize\<rparr>"
  obtain r out q1 w1 where pop: "SyncQueue_PopFrontIf queue ?c w = ((r, out, q1), w1)" by (metis prod.collapse)
  have r: "r = SYNC_OK" "queue' = q1"
    using assms by (auto simp: MessageSerializer_AddSingleEvent_def pop Let_def split: if_splits option.splits prod.splits)
  from pop r show ?thesis unfolding SyncQueue_PopFrontIf_def
  proof (cases rule: locked_cases)
    case (completed w1 w2)
    obtain r0 out0 q' w3 where p: "Queue_PopFrontIf (innerQueue queue) ?c w1 = ((r0, out0, q'), w3)"
      by (metis prod.collapse)
    with completed(2) r have "r0 = QUEUE_OK" and q: "innerQueue q1 = q'" by auto
    with p have "Queue_PopFrontIf (innerQueue queue) ?c w1 = ((QUEUE_OK, out0, q'), w3)" by simp
    then have "Queue_PopFront (innerQueue queue) w1 = ((QUEUE_OK, out0, q'), w3)" "numberOfElements (innerQueue queue) \<noteq> 0"
      by (auto simp: Queue_PopFrontIf_def split: if_splits option.splits)
    with PopFront_less [OF sym, of "innerQueue queue"] show ?thesis by (simp add: r q)
  qed auto
qed

function add_events_while ::
  "('v, 'o, 'r, 'h) parson_doc \<Rightarrow> SyncQueue \<Rightarrow> ('v, 'r) JsonArrayWriter \<Rightarrow> u32 \<Rightarrow> u32 \<Rightarrow> u32 \<Rightarrow> ('h, 'a) queue_env_scheme \<Rightarrow>
    (MessageSerializerResultValues \<times> SyncQueue \<times> u32) \<times> ('h, 'a) queue_env_scheme" where
  "add_events_while D queue eventsArray queueSize current maxSize w =
     (if \<not> (queueSize > 0 \<and> current < maxSize) then ((MESSAGE_SERIALIZER_OK, queue, current), w)
      else case MessageSerializer_AddSingleEvent D queue eventsArray current maxSize w of
        ((MESSAGE_SERIALIZER_OK, queue1, current1), w1) \<Rightarrow>
          (case SyncQueue_GetSize queue1 w1 of
             ((Queue_Result QUEUE_OK, Some queueSize1), w2) \<Rightarrow>
               add_events_while D queue1 eventsArray queueSize1 current1 maxSize w2
           | (_, w2) \<Rightarrow> ((MESSAGE_SERIALIZER_EXCEPTION, queue1, current1), w2))
      | ((MESSAGE_SERIALIZER_MEMORY_EXCEEDED, queue1, current1), w1) \<Rightarrow> ((MESSAGE_SERIALIZER_OK, queue1, current1), w1)
      | ((MESSAGE_SERIALIZER_EMPTY, queue1, current1), w1) \<Rightarrow> ((MESSAGE_SERIALIZER_OK, queue1, current1), w1)
      | ((_, queue1, current1), w1) \<Rightarrow> ((MESSAGE_SERIALIZER_EXCEPTION, queue1, current1), w1))"
  by pat_completeness auto
termination
  by (relation "measure (\<lambda>(_, queue, _). unat (numberOfElements (innerQueue queue)))")
     (auto intro: AddSingleEvent_less)

declare add_events_while.simps [simp del]

definition MessageSerializer_AddEventsFromQueue ::
  "('v, 'o, 'r, 'h) parson_doc \<Rightarrow> SyncQueue \<Rightarrow> ('v, 'r) JsonArrayWriter \<Rightarrow> u32 \<Rightarrow> u32 \<Rightarrow> ('h, 'a) queue_env_scheme \<Rightarrow>
    (MessageSerializerResultValues \<times> SyncQueue \<times> u32) \<times> ('h, 'a) queue_env_scheme" where
  "MessageSerializer_AddEventsFromQueue D queue eventsArray current maxSize w =
     (case SyncQueue_GetSize queue w of
        ((Queue_Result QUEUE_OK, Some queueSize), w1) \<Rightarrow>
          add_events_while D queue eventsArray queueSize current maxSize w1
      | (_, w1) \<Rightarrow> ((MESSAGE_SERIALIZER_EXCEPTION, queue, current), w1))"

section \<open>All queues\<close>

fun add_events_for ::
  "('v, 'o, 'r, 'h) parson_doc \<Rightarrow> nat list \<Rightarrow> SyncQueue list \<Rightarrow> ('v, 'r) JsonArrayWriter \<Rightarrow>
    MessageSerializerResultValues \<Rightarrow> u32 \<Rightarrow> u32 \<Rightarrow> ('h, 'a) queue_env_scheme \<Rightarrow>
    (MessageSerializerResultValues \<times> SyncQueue list \<times> u32) \<times> ('h, 'a) queue_env_scheme" where
  "add_events_for D [] sqs eventsArray result current maxSize w = ((result, sqs, current), w)"
| "add_events_for D (i # queues) sqs eventsArray result current maxSize w =
     (if current < maxSize
      then
        let ((r, queue, current1), w1) = MessageSerializer_AddEventsFromQueue D (sqs ! i) eventsArray current maxSize w
        in add_events_for D queues (sqs[i := queue]) eventsArray
             (if r \<noteq> MESSAGE_SERIALIZER_OK then MESSAGE_SERIALIZER_PARTIAL else result) current1 maxSize w1
      else add_events_for D queues sqs eventsArray result current maxSize w)"

text \<open>The \<open>cleanup\<close> block overrides the result when no byte was added, also that of an exception.\<close>

definition MessageSerializer_GenerateEventList ::
  "('v, 'o, 'r, 'h) parson_doc \<Rightarrow> nat list \<Rightarrow> SyncQueue list \<Rightarrow> ('v, 'o) JsonObjectWriter \<Rightarrow> ('h, 'a) queue_env_scheme \<Rightarrow>
    (MessageSerializerResultValues \<times> SyncQueue list) \<times> ('h, 'a) queue_env_scheme" where
  "MessageSerializer_GenerateEventList D queues sqs parentObj w =
     (if queues = [] then ((MESSAGE_SERIALIZER_EMPTY, sqs), w)
      else
        let ((t, m), w1) = TwinConfiguration_GetMaxMessageSize w in
        if t \<noteq> TWIN_OK then ((MESSAGE_SERIALIZER_EMPTY, sqs), w1)
        else case JsonArrayWriter_Init D w1 of
          ((JSON_WRITER_OK, Some eventsArray), w2) \<Rightarrow>
            (let ((r, sqs', current), w3) =
                   add_events_for D queues sqs eventsArray MESSAGE_SERIALIZER_OK 0 (case m of None \<Rightarrow> 0 | Some n \<Rightarrow> n) w2;
                 ((r2, eventsArray'), w4) = JsonObjectWriter_WriteArray D parentObj EVENTS_KEY eventsArray w3;
                 result = (if r2 \<noteq> JSON_WRITER_OK then MESSAGE_SERIALIZER_EXCEPTION else r);
                 w5 = JsonArrayWriter_Deinit D eventsArray' w4
             in ((if current = 0 then MESSAGE_SERIALIZER_EMPTY else result, sqs'), w5))
        | (_, w2) \<Rightarrow> ((MESSAGE_SERIALIZER_EMPTY, sqs), w2))"

section \<open>The message\<close>

text \<open>Writing a string that may be NULL, which parson refuses.\<close>

definition write_header ::
  "('v, 'o, 'r, 'h) parson_doc \<Rightarrow> ('v, 'o) JsonObjectWriter \<Rightarrow> string \<Rightarrow> string option \<Rightarrow> ('h, 'a) docs_env_scheme \<Rightarrow>
    JsonWriterResult \<times> ('h, 'a) docs_env_scheme" where
  "write_header D writer key s w =
     (case s of None \<Rightarrow> (JSON_WRITER_EXCEPTION, w) | Some t \<Rightarrow> JsonObjectWriter_WriteString D writer key t w)"

text \<open>
  \<open>*buffer\<close> is NULL when the callers call; it comes back \<open>None\<close> in every case but success.
\<close>

definition MessageSerializer_CreateSecurityMessage ::
  "('v, 'o, 'r, 'h) parson_doc \<Rightarrow> nat list \<Rightarrow> SyncQueue list \<Rightarrow> ('h, 'a) queue_env_scheme \<Rightarrow>
    (MessageSerializerResultValues \<times> string option \<times> SyncQueue list) \<times> ('h, 'a) queue_env_scheme" where
  "MessageSerializer_CreateSecurityMessage D queues sqs w =
     (case JsonObjectWriter_Init D w of
        ((JSON_WRITER_OK, Some writer), w1) \<Rightarrow>
          (let (r1, w2) = JsonObjectWriter_WriteString D writer AGENT_VERSION_KEY AGENT_VERSION w1 in
           if r1 \<noteq> JSON_WRITER_OK
           then ((MESSAGE_SERIALIZER_EXCEPTION, None, sqs), JsonObjectWriter_Deinit D writer w2)
           else
             let (r2, w3) = write_header D writer AGENT_ID_KEY (LocalConfiguration_GetAgentId w2) w2 in
             if r2 \<noteq> JSON_WRITER_OK
             then ((MESSAGE_SERIALIZER_EXCEPTION, None, sqs), JsonObjectWriter_Deinit D writer w3)
             else
               let (r3, w4) = JsonObjectWriter_WriteString D writer MESSAGE_SCHEMA_VERSION_KEY DEFAULT_MESSAGE_SCHEMA_VERSION w3 in
               if r3 \<noteq> JSON_WRITER_OK
               then ((MESSAGE_SERIALIZER_EXCEPTION, None, sqs), JsonObjectWriter_Deinit D writer w4)
               else
                 let ((result, sqs'), w5) = MessageSerializer_GenerateEventList D queues sqs writer w4 in
                 if result \<noteq> MESSAGE_SERIALIZER_OK \<and> result \<noteq> MESSAGE_SERIALIZER_PARTIAL
                 then ((result, None, sqs'), JsonObjectWriter_Deinit D writer w5)
                 else case JsonObjectWriter_Serialize D writer w5 of
                   ((JSON_WRITER_OK, Some (buffer, _)), w6) \<Rightarrow>
                     ((result, Some buffer, sqs'), JsonObjectWriter_Deinit D writer w6)
                 | (_, w6) \<Rightarrow> ((MESSAGE_SERIALIZER_EXCEPTION, None, sqs'), JsonObjectWriter_Deinit D writer w6))
      | (_, w1) \<Rightarrow> ((MESSAGE_SERIALIZER_EXCEPTION, None, sqs), w1))"

section \<open>What parson promises of arrays\<close>

text \<open>
  Beyond the ownership rules: a parsed text and a new array are new roots; a value appended to an array
  belongs to it, and the array then holds one more text, the one the value was parsed from; freeing a
  root leaves the arrays of other roots as they are.
\<close>

definition parson_arrays ::
  "('v, 'o, 'r, 'h) parson_doc \<Rightarrow> ('h \<Rightarrow> 'v set) \<Rightarrow> ('r \<Rightarrow> 'v) \<Rightarrow> ('h \<Rightarrow> 'r \<Rightarrow> string list) \<Rightarrow> ('h \<Rightarrow> 'v \<Rightarrow> string) \<Rightarrow> bool" where
  "parson_arrays D roots root_of texts source \<longleftrightarrow>
     (\<forall>h. case doc_init_array D h of (None, h') \<Rightarrow> roots h' = roots h
        | (Some v, h') \<Rightarrow> v \<notin> roots h \<and> roots h' = insert v (roots h)
            \<and> (\<forall>a. doc_get_array D h' v = Some a \<longrightarrow> root_of a = v \<and> texts h' a = []))
     \<and> (\<forall>s h. case doc_parse_string D s h of (None, h') \<Rightarrow> roots h' = roots h \<and> texts h' = texts h
        | (Some v, h') \<Rightarrow> v \<notin> roots h \<and> roots h' = insert v (roots h) \<and> source h' v = s \<and> texts h' = texts h)
     \<and> (\<forall>a v h. case doc_append_value D a v h of (ok, h') \<Rightarrow>
          if ok then roots h' = roots h - {v} \<and> texts h' = (texts h)(a := texts h a @ [source h v])
          else roots h' = roots h \<and> texts h' = texts h)
     \<and> (\<forall>v h a. v \<in> roots h \<longrightarrow> root_of a \<in> roots h \<longrightarrow> v \<noteq> root_of a \<longrightarrow>
          texts (doc_value_free D v h) a = texts h a)"

lemma array_laws:
  assumes "parson_arrays D roots root_of texts source"
  shows "doc_init_array D h = (None, h') \<Longrightarrow> roots h' = roots h"
    and "doc_init_array D h = (Some v, h') \<Longrightarrow> v \<notin> roots h \<and> roots h' = insert v (roots h)
      \<and> (\<forall>a. doc_get_array D h' v = Some a \<longrightarrow> root_of a = v \<and> texts h' a = [])"
    and "doc_parse_string D s h = (None, h') \<Longrightarrow> roots h' = roots h \<and> texts h' = texts h"
    and "doc_parse_string D s h = (Some v, h') \<Longrightarrow>
      v \<notin> roots h \<and> roots h' = insert v (roots h) \<and> source h' v = s \<and> texts h' = texts h"
    and "doc_append_value D a v h = (True, h') \<Longrightarrow>
      roots h' = roots h - {v} \<and> texts h' = (texts h)(a := texts h a @ [source h v])"
    and "doc_append_value D a v h = (False, h') \<Longrightarrow> roots h' = roots h \<and> texts h' = texts h"
    and "v \<in> roots h \<Longrightarrow> root_of a \<in> roots h \<Longrightarrow> v \<noteq> root_of a \<Longrightarrow> texts (doc_value_free D v h) a = texts h a"
proof -
  note laws = assms [unfolded parson_arrays_def]
  show "doc_init_array D h = (None, h') \<Longrightarrow> roots h' = roots h"
    "doc_init_array D h = (Some v, h') \<Longrightarrow> v \<notin> roots h \<and> roots h' = insert v (roots h)
      \<and> (\<forall>a. doc_get_array D h' v = Some a \<longrightarrow> root_of a = v \<and> texts h' a = [])"
    using laws [THEN conjunct1, THEN spec, of h] by simp_all
  note rest = laws [THEN conjunct2]
  show "doc_parse_string D s h = (None, h') \<Longrightarrow> roots h' = roots h \<and> texts h' = texts h"
    "doc_parse_string D s h = (Some v, h') \<Longrightarrow>
      v \<notin> roots h \<and> roots h' = insert v (roots h) \<and> source h' v = s \<and> texts h' = texts h"
    using rest [THEN conjunct1, THEN spec [of _ s], THEN spec [of _ h]] by simp_all
  note rest = rest [THEN conjunct2]
  show "doc_append_value D a v h = (True, h') \<Longrightarrow>
      roots h' = roots h - {v} \<and> texts h' = (texts h)(a := texts h a @ [source h v])"
    "doc_append_value D a v h = (False, h') \<Longrightarrow> roots h' = roots h \<and> texts h' = texts h"
    using rest [THEN conjunct1, THEN spec [of _ a], THEN spec [of _ v], THEN spec [of _ h]] by simp_all
  show "v \<in> roots h \<Longrightarrow> root_of a \<in> roots h \<Longrightarrow> v \<noteq> root_of a \<Longrightarrow> texts (doc_value_free D v h) a = texts h a"
    using rest [THEN conjunct2] by blast
qed

lemma append_event_facts:
  assumes own: "parson_ownership D roots" and arr: "parson_arrays D roots root_of texts source"
    and live: "root_of (aRootArray ev) \<in> roots (docs w)"
    and run: "append_event D ev (EVENT s) w = (r, w')"
  shows "doc_frame w w' \<and> roots (docs w') = roots (docs w)
    \<and> (r = MESSAGE_SERIALIZER_OK \<or> r = MESSAGE_SERIALIZER_EXCEPTION)
    \<and> texts (docs w') (aRootArray ev) =
        (if r = MESSAGE_SERIALIZER_OK then texts (docs w) (aRootArray ev) @ [s] else texts (docs w) (aRootArray ev))"
proof (cases "allocOk w (tick w)")
  case False
  with run show ?thesis
    by (auto simp: append_event_def JsonObjectWriter_InitFromString_def JsonObjectWriter_new_def sys_malloc_def
        next_tick_def doc_frame_tick)
next
  case True
  let ?a = "aRootArray ev"
  obtain v h where parse: "doc_parse_string D s (docs w) = (v, h)" by fastforce
  note init = append_event_def JsonObjectWriter_InitFromString_def JsonObjectWriter_new_def sys_malloc_def
    next_tick_def on_docs_def
  have frame: "doc_frame w (w\<lparr>tick := n, docs := k\<rparr>)" for n k by (rule doc_frameI) (rule refl)
  show ?thesis
  proof (cases v)
    case None
    with run parse True have "r = MESSAGE_SERIALIZER_EXCEPTION" "w' = w\<lparr>tick := Suc (tick w), docs := h\<rparr>"
      by (auto simp: init)
    with None array_laws(3) [OF arr, of s "docs w" h] parse show ?thesis by (simp add: frame)
  next
    case (Some val)
    note P = array_laws(4) [OF arr parse [unfolded Some]]
    have ne: "val \<noteq> root_of ?a" using P live by blast
    show ?thesis
    proof (cases "doc_get_object D h val")
      case None
      with run parse True Some have "r = MESSAGE_SERIALIZER_EXCEPTION"
        and "w' = w\<lparr>tick := Suc (tick w), docs := doc_value_free D val h\<rparr>" by (auto simp: init)
      with P ne live show ?thesis
        using ownership_laws(8) [OF own, of val h] array_laws(7) [OF arr, of val h ?a] by (simp add: frame)
    next
      case obj: (Some obj)
      obtain ok h2 where app: "doc_append_value D ?a val h = (ok, h2)" by fastforce
      show ?thesis
      proof (cases ok)
        case ok: True
        with run parse True Some obj app have "r = MESSAGE_SERIALIZER_OK" "w' = w\<lparr>tick := Suc (tick w), docs := h2\<rparr>"
          by (auto simp: init JsonArrayWriter_AddObject_def JsonObjectWriter_Deinit_def)
        with P array_laws(5) [OF arr, of ?a val h h2] app ok show ?thesis by (simp add: frame)
      next
        case fails: False
        with run parse True Some obj app have "r = MESSAGE_SERIALIZER_EXCEPTION"
          and "w' = w\<lparr>tick := Suc (tick w), docs := doc_value_free D val h2\<rparr>"
          by (auto simp: init JsonArrayWriter_AddObject_def JsonObjectWriter_Deinit_def)
        moreover have "roots h2 = roots h" "texts h2 = texts h"
          using array_laws(6) [OF arr, of ?a val h h2] app fails by simp_all
        ultimately show ?thesis using P ne live
            ownership_laws(8) [OF own, of val h2] array_laws(7) [OF arr, of val h2 ?a] by (simp add: frame)
      qed
    qed
  qed
qed

section \<open>Events move from the queue to the message\<close>

definition events_only :: "(queue_data \<times> u32) list \<Rightarrow> bool" where
  "events_only xs \<longleftrightarrow> (\<forall>x \<in> set xs. \<exists>s. fst x = EVENT s)"

definition event_text :: "queue_data \<times> u32 \<Rightarrow> string" where
  "event_text x = (case fst x of EVENT s \<Rightarrow> s | _ \<Rightarrow> [])"

definition event_bytes :: "(queue_data \<times> u32) list \<Rightarrow> nat" where
  "event_bytes xs = sum_list (map (\<lambda>x. unat (snd x)) xs)"

lemma doc_frame_sync:
  assumes "doc_frame w w'"
  shows "sync_queues_ok sqs w' = sync_queues_ok sqs w" "sync_items sq w' = sync_items sq w"
    "booked_bytes w' = booked_bytes w" "locks_work w' = locks_work w" "fault w' = fault w"
    "twinConfiguration w' = twinConfiguration w" "agentId w' = agentId w"
proof -
  from assms obtain n h where w': "w' = w\<lparr>tick := n, docs := h\<rparr>" by (auto simp: doc_frame_def)
  have items: "queueItems w' = queueItems w" by (simp add: w')
  have "addresses q w' = addresses q w" for q by (simp add: addresses_def items)
  then show "sync_queues_ok sqs w' = sync_queues_ok sqs w" "sync_items sq w' = sync_items sq w"
    unfolding sync_queues_ok_def queues_ok_def well_linked_def contents_def sync_items_def
    by (simp_all add: items) (simp add: w')
  show "booked_bytes w' = booked_bytes w" "locks_work w' = locks_work w" "fault w' = fault w"
    "twinConfiguration w' = twinConfiguration w" "agentId w' = agentId w"
    by (simp_all add: w' locks_work_def)
qed

lemma sync_item_bytes:
  assumes "sync_queues_ok sqs w" and "i < length sqs" and "sync_items (sqs ! i) w = x # xs"
  shows "unat (snd x) \<le> booked_bytes w"
  using held_le [OF assms(1) [unfolded sync_queues_ok_def], of i] assms(2,3)
  by (simp add: sync_items_def held_def cost_of_def)

lemma AddSingleEvent_facts:
  assumes own: "parson_ownership D roots" and arr: "parson_arrays D roots root_of texts source"
    and live: "root_of (aRootArray ev) \<in> roots (docs w)"
    and ok: "sync_queues_ok sqs w" and i: "i < length sqs" and events: "events_only (sync_items (sqs ! i) w)"
    and small: "current < maxSize" "unat maxSize + booked_bytes w < 4294967296"
    and run: "MessageSerializer_AddSingleEvent D (sqs ! i) ev current maxSize w = ((r, q', current'), w')"
  shows "\<exists>taken lost. sync_items (sqs ! i) w = taken @ lost @ sync_items q' w' \<and> length (taken @ lost) \<le> 1
      \<and> (r = MESSAGE_SERIALIZER_OK \<longleftrightarrow> taken \<noteq> []) \<and> (lost \<noteq> [] \<longrightarrow> r = MESSAGE_SERIALIZER_EXCEPTION)
      \<and> unat current' = unat current + event_bytes taken \<and> current' < maxSize
      \<and> texts (docs w') (aRootArray ev) = texts (docs w) (aRootArray ev) @ map event_text taken"
    and "roots (docs w') = roots (docs w)" "sync_queues_ok (sqs[i := q']) w'" "booked_bytes w' \<le> booked_bytes w"
    and "\<forall>j < length sqs. j \<noteq> i \<longrightarrow> sync_items (sqs ! j) w' = sync_items (sqs ! j) w"
    and "r = MESSAGE_SERIALIZER_EMPTY \<Longrightarrow> sync_items (sqs ! i) w = []"
    and "r = MESSAGE_SERIALIZER_MEMORY_EXCEEDED \<Longrightarrow> sync_items q' w' \<noteq> []
      \<and> unat maxSize \<le> unat current' + unat (snd (hd (sync_items q' w')))"
    and "r \<noteq> MESSAGE_SERIALIZER_PARTIAL"
proof -
  let ?c = "sizeLimitationCondition \<lparr>currentMessageSize = current, maxMessageSizeLimit = maxSize\<rparr>"
  obtain qr out q1 w1 where pop: "SyncQueue_PopFrontIf (sqs ! i) ?c w = ((qr, out, q1), w1)" by (metis prod.collapse)
  note facts = sync_pop_if_items [OF ok i pop]
  have docs1: "docs w1 = docs w" using queued_keeps(3) facts by blast
  have fits: "unat (current + snd x) = unat current + unat (snd x)"
    if "sync_items (sqs ! i) w = x # xs" for x xs
    using sync_item_bytes [OF ok i that] small by (simp add: unat_simps word_less_nat_alt)
  have "(\<exists>taken lost. sync_items (sqs ! i) w = taken @ lost @ sync_items q' w' \<and> length (taken @ lost) \<le> 1
      \<and> (r = MESSAGE_SERIALIZER_OK \<longleftrightarrow> taken \<noteq> []) \<and> (lost \<noteq> [] \<longrightarrow> r = MESSAGE_SERIALIZER_EXCEPTION)
      \<and> unat current' = unat current + event_bytes taken \<and> current' < maxSize
      \<and> texts (docs w') (aRootArray ev) = texts (docs w) (aRootArray ev) @ map event_text taken)
    \<and> roots (docs w') = roots (docs w) \<and> sync_queues_ok (sqs[i := q']) w' \<and> booked_bytes w' \<le> booked_bytes w
    \<and> (\<forall>j < length sqs. j \<noteq> i \<longrightarrow> sync_items (sqs ! j) w' = sync_items (sqs ! j) w)
    \<and> (r = MESSAGE_SERIALIZER_EMPTY \<longrightarrow> sync_items (sqs ! i) w = [])
    \<and> (r = MESSAGE_SERIALIZER_MEMORY_EXCEEDED \<longrightarrow> sync_items q' w' \<noteq> []
      \<and> unat maxSize \<le> unat current' + unat (snd (hd (sync_items q' w'))))
    \<and> r \<noteq> MESSAGE_SERIALIZER_PARTIAL"
  proof (cases "qr = SYNC_OK")
    case False
    then have res: "q' = q1" "current' = current" "w' = w1"
      "r = (if qr = Queue_Result QUEUE_IS_EMPTY then MESSAGE_SERIALIZER_EMPTY
            else if qr = Queue_Result QUEUE_CONDITION_FAILED then MESSAGE_SERIALIZER_MEMORY_EXCEEDED
            else MESSAGE_SERIALIZER_EXCEPTION)"
      using run pop by (auto simp: MessageSerializer_AddSingleEvent_def split: if_splits)
    consider (same) "sync_items q1 w1 = sync_items (sqs ! i) w"
      | (lost) x xs where "sync_items (sqs ! i) w = x # xs" "sync_items q1 w1 = xs"
      using facts by (cases "sync_items (sqs ! i) w") auto
    then show ?thesis
    proof cases
      case same
      then show ?thesis
        using facts False small(1) fits
        by (intro conjI exI [of _ "[]"]) (auto simp: res docs1 event_bytes_def sizeLimitationCondition_def word_less_nat_alt)
    next
      case lost
      then have "r = MESSAGE_SERIALIZER_EXCEPTION" using facts by (auto simp: res)
      with lost show ?thesis
        using facts False small(1)
        by (intro conjI exI [of _ "[]"] exI [of _ "[x]"]) (auto simp: res docs1 event_bytes_def)
    qed
  next
    case True
    obtain x xs where x: "sync_items (sqs ! i) w = x # xs" "?c (fst x) (snd x)" "out = Some x" "sync_items q1 w1 = xs"
      using facts True by blast
    obtain s where s: "fst x = EVENT s" using events x(1) by (auto simp: events_only_def)
    obtain r2 w2 where app: "append_event D ev (EVENT s) w1 = (r2, w2)" by fastforce
    have live1: "root_of (aRootArray ev) \<in> roots (docs w1)" using live by (simp add: docs1)
    note A = append_event_facts [OF own arr live1 app] and frame = doc_frame_sync [of w1 w2]
    have res: "r = r2" "q' = q1" "w' = w2" "current' = (if r2 = MESSAGE_SERIALIZER_OK then current + snd x else current)"
      using run pop True x(3) s app
      by (auto simp: MessageSerializer_AddSingleEvent_def Let_def split: prod.splits)
    have less: "unat current + unat (snd x) < unat maxSize"
      using x(2) fits [OF x(1)] by (simp add: sizeLimitationCondition_def word_less_nat_alt)
    show ?thesis
    proof (cases "r2 = MESSAGE_SERIALIZER_OK")
      case True
      with A facts frame x s res less fits [OF x(1)] show ?thesis
        by (intro conjI exI [of _ "[x]"] exI [of _ "[]"])
           (auto simp: docs1 event_bytes_def event_text_def word_less_nat_alt)
    next
      case False
      with A facts frame x s res less small(1) show ?thesis
        by (intro conjI exI [of _ "[x]"] exI [of _ "[]"])
           (auto simp: docs1 event_bytes_def event_text_def)
    qed
  qed
  then show "\<exists>taken lost. sync_items (sqs ! i) w = taken @ lost @ sync_items q' w' \<and> length (taken @ lost) \<le> 1
      \<and> (r = MESSAGE_SERIALIZER_OK \<longleftrightarrow> taken \<noteq> []) \<and> (lost \<noteq> [] \<longrightarrow> r = MESSAGE_SERIALIZER_EXCEPTION)
      \<and> unat current' = unat current + event_bytes taken \<and> current' < maxSize
      \<and> texts (docs w') (aRootArray ev) = texts (docs w) (aRootArray ev) @ map event_text taken"
    "roots (docs w') = roots (docs w)" "sync_queues_ok (sqs[i := q']) w'" "booked_bytes w' \<le> booked_bytes w"
    "\<forall>j < length sqs. j \<noteq> i \<longrightarrow> sync_items (sqs ! j) w' = sync_items (sqs ! j) w"
    "r = MESSAGE_SERIALIZER_EMPTY \<Longrightarrow> sync_items (sqs ! i) w = []"
    "r = MESSAGE_SERIALIZER_MEMORY_EXCEEDED \<Longrightarrow> sync_items q' w' \<noteq> []
      \<and> unat maxSize \<le> unat current' + unat (snd (hd (sync_items q' w')))"
    "r \<noteq> MESSAGE_SERIALIZER_PARTIAL"
    by blast+
qed

text \<open>
  What serialising from one queue does, relative to the start: a prefix of the queue is in the message, at
  most one further event is gone, the rest is still queued.
\<close>

definition moved ::
  "(queue_data \<times> u32) list \<Rightarrow> (queue_data \<times> u32) list \<Rightarrow> (queue_data \<times> u32) list \<Rightarrow> (queue_data \<times> u32) list \<Rightarrow>
    u32 \<Rightarrow> u32 \<Rightarrow> u32 \<Rightarrow> string list \<Rightarrow> string list \<Rightarrow> bool" where
  "moved before taken lost remaining current current' maxSize texts_before texts_after \<longleftrightarrow>
     before = taken @ lost @ remaining \<and> length lost \<le> 1
     \<and> unat current' = unat current + event_bytes taken \<and> (current < maxSize \<longrightarrow> current' < maxSize)
     \<and> (\<not> current < maxSize \<longrightarrow> taken = []) \<and> texts_after = texts_before @ map event_text taken"

lemma moved_step:
  assumes "moved before taken1 [] mid current current1 maxSize t t1" "current < maxSize"
    and "moved mid taken2 lost remaining current1 current2 maxSize t1 t2"
  shows "moved before (taken1 @ taken2) lost remaining current current2 maxSize t t2"
  using assms by (auto simp: moved_def event_bytes_def)

lemma add_events_while_facts:
  assumes own: "parson_ownership D roots" and arr: "parson_arrays D roots root_of texts source"
    and "root_of (aRootArray ev) \<in> roots (docs w)"
    and "sync_queues_ok sqs w" and "i < length sqs" and "events_only (sync_items (sqs ! i) w)"
    and "unat maxSize + booked_bytes w < 4294967296"
    and "unat queueSize = length (sync_items (sqs ! i) w)"
    and "add_events_while D (sqs ! i) ev queueSize current maxSize w = ((r, q', current'), w')"
  shows "(\<exists>taken lost. moved (sync_items (sqs ! i) w) taken lost (sync_items q' w') current current' maxSize
        (texts (docs w) (aRootArray ev)) (texts (docs w') (aRootArray ev)) \<and> (r = MESSAGE_SERIALIZER_OK \<longrightarrow> lost = []))
    \<and> (r = MESSAGE_SERIALIZER_OK \<or> r = MESSAGE_SERIALIZER_EXCEPTION)
    \<and> roots (docs w') = roots (docs w) \<and> sync_queues_ok (sqs[i := q']) w' \<and> booked_bytes w' \<le> booked_bytes w
    \<and> (\<forall>j < length sqs. j \<noteq> i \<longrightarrow> sync_items (sqs ! j) w' = sync_items (sqs ! j) w)
    \<and> (r = MESSAGE_SERIALIZER_OK \<longrightarrow> sync_items q' w' = []
        \<or> unat maxSize \<le> unat current' + unat (snd (hd (sync_items q' w'))))"
  using assms(3-)
proof (induction "length (sync_items (sqs ! i) w)" arbitrary: sqs w queueSize current rule: less_induct)
  case less
  note prems = less.prems
  show ?case
  proof (cases "queueSize > 0 \<and> current < maxSize")
    case False
    then have res: "r = MESSAGE_SERIALIZER_OK" "q' = sqs ! i" "current' = current" "w' = w"
      using prems(7) by (subst (asm) add_events_while.simps, auto)+
    have "sync_items (sqs ! i) w = [] \<or> maxSize \<le> current"
      using False prems(6) by (auto simp: word_neq_0_conv [symmetric])
    then show ?thesis
      using prems by (auto simp: res moved_def event_bytes_def word_le_nat_alt)
  next
    case True
    obtain r1 q1 current1 w1 where
      one: "MessageSerializer_AddSingleEvent D (sqs ! i) ev current maxSize w = ((r1, q1, current1), w1)"
      by (metis prod.collapse)
    note S = AddSingleEvent_facts [OF own arr prems(1-4) conjunct2 [OF True] prems(5) one]
    obtain taken lost where T: "sync_items (sqs ! i) w = taken @ lost @ sync_items q1 w1" "length (taken @ lost) \<le> 1"
      "r1 = MESSAGE_SERIALIZER_OK \<longleftrightarrow> taken \<noteq> []" "lost \<noteq> [] \<longrightarrow> r1 = MESSAGE_SERIALIZER_EXCEPTION"
      "unat current1 = unat current + event_bytes taken" "current1 < maxSize"
      "texts (docs w1) (aRootArray ev) = texts (docs w) (aRootArray ev) @ map event_text taken"
      using S(1) by blast
    have M: "moved (sync_items (sqs ! i) w) taken lost (sync_items q1 w1) current current1 maxSize
        (texts (docs w) (aRootArray ev)) (texts (docs w1) (aRootArray ev))"
      using T True by (auto simp: moved_def)
    note step = prems(7) [unfolded add_events_while.simps [of D "sqs ! i"]]
    show ?thesis
    proof (cases "r1 = MESSAGE_SERIALIZER_OK")
      case False
      then have res: "q' = q1" "current' = current1" "w' = w1"
        "r = (if r1 = MESSAGE_SERIALIZER_EXCEPTION then MESSAGE_SERIALIZER_EXCEPTION else MESSAGE_SERIALIZER_OK)"
        using step True one S(8) by (cases r1; simp)+
      have "r = MESSAGE_SERIALIZER_OK \<longrightarrow> sync_items q1 w1 = []
        \<or> unat maxSize \<le> unat current1 + unat (snd (hd (sync_items q1 w1)))"
        using S(6,7,8) False T(1) by (cases r1) (auto simp: res(4))
      with M T S(2-5) False show ?thesis by (auto simp: res split: if_splits)
    next
      case ok1: True
      obtain k w2 rs where size: "SyncQueue_GetSize q1 w1 = ((rs, k), w2)" by (metis prod.collapse)
      have q1: "sqs[i := q1] ! i = q1" "i < length (sqs[i := q1])" using prems(3) by simp_all
      note G = GetSize_items [OF S(3) q1(2), unfolded q1(1), OF size] and K = ticked_sync [OF GetSize_items(1) [OF S(3) q1(2), unfolded q1(1), OF size]]
      have docs2: "docs w2 = docs w1" using K(3) by (rule queued_keeps(3))
      have lost: "lost = []" using T(2,3) ok1 by (cases taken) auto
      show ?thesis
      proof (cases "rs = SYNC_OK")
        case False
        then have res: "r = MESSAGE_SERIALIZER_EXCEPTION" "q' = q1" "current' = current1" "w' = w2"
          using step True one ok1 size by (auto split: SyncQueueResult.splits QueueResultValues.splits)
        have "moved (sync_items (sqs ! i) w) taken lost (sync_items q1 w2) current current1 maxSize
            (texts (docs w) (aRootArray ev)) (texts (docs w2) (aRootArray ev))"
          using M K(2) by (simp add: docs2)
        with S(2-5) K show ?thesis by (auto simp: res docs2)
      next
        case True
        obtain m where m: "k = Some m" "unat m = length (sync_items q1 w1)" using G(2) True by blast
        have rec: "add_events_while D (sqs[i := q1] ! i) ev m current1 maxSize w2 = ((r, q', current'), w')"
          using step \<open>queueSize > 0 \<and> current < maxSize\<close> one ok1 size True m(1) by (simp add: q1)
        have shorter: "length (sync_items (sqs[i := q1] ! i) w2) < length (sync_items (sqs ! i) w)"
          using T(1,3) ok1 K(2) by (cases taken) (simp_all add: q1)
        have pre: "root_of (aRootArray ev) \<in> roots (docs w2)" "sync_queues_ok (sqs[i := q1]) w2"
          "events_only (sync_items (sqs[i := q1] ! i) w2)" "unat maxSize + booked_bytes w2 < 4294967296"
          "unat m = length (sync_items (sqs[i := q1] ! i) w2)"
          using prems(1,4,5) S(2-4) K T(1) m(2) q1 by (auto simp: docs2 events_only_def)
        note IH = less.hyps [OF shorter pre(1,2) q1(2) pre(3-5) rec]
        then obtain taken2 lost2 where "moved (sync_items q1 w1) taken2 lost2 (sync_items q' w') current1 current' maxSize
            (texts (docs w1) (aRootArray ev)) (texts (docs w') (aRootArray ev))" "r = MESSAGE_SERIALIZER_OK \<longrightarrow> lost2 = []"
          using K(2) q1 docs2 by auto
        moreover from this(1) have "moved (sync_items (sqs ! i) w) (taken @ taken2) lost2 (sync_items q' w') current current' maxSize
            (texts (docs w) (aRootArray ev)) (texts (docs w') (aRootArray ev))"
          using moved_step [OF M [unfolded lost]] \<open>queueSize > 0 \<and> current < maxSize\<close> by blast
        ultimately show ?thesis
          using IH S(2-5) K docs2 by auto
      qed
    qed
  qed
qed

lemma AddEventsFromQueue_facts:
  assumes own: "parson_ownership D roots" and arr: "parson_arrays D roots root_of texts source"
    and live: "root_of (aRootArray ev) \<in> roots (docs w)"
    and ok: "sync_queues_ok sqs w" and i: "i < length sqs" and events: "events_only (sync_items (sqs ! i) w)"
    and small: "unat maxSize + booked_bytes w < 4294967296"
    and run: "MessageSerializer_AddEventsFromQueue D (sqs ! i) ev current maxSize w = ((r, q', current'), w')"
  shows "(\<exists>taken lost. moved (sync_items (sqs ! i) w) taken lost (sync_items q' w') current current' maxSize
        (texts (docs w) (aRootArray ev)) (texts (docs w') (aRootArray ev)) \<and> (r = MESSAGE_SERIALIZER_OK \<longrightarrow> lost = []))
    \<and> (r = MESSAGE_SERIALIZER_OK \<or> r = MESSAGE_SERIALIZER_EXCEPTION)
    \<and> roots (docs w') = roots (docs w) \<and> sync_queues_ok (sqs[i := q']) w' \<and> booked_bytes w' \<le> booked_bytes w
    \<and> (\<forall>j < length sqs. j \<noteq> i \<longrightarrow> sync_items (sqs ! j) w' = sync_items (sqs ! j) w)
    \<and> (r = MESSAGE_SERIALIZER_OK \<longrightarrow> sync_items q' w' = []
        \<or> unat maxSize \<le> unat current' + unat (snd (hd (sync_items q' w'))))"
proof -
  obtain rs k w1 where size: "SyncQueue_GetSize (sqs ! i) w = ((rs, k), w1)" by (metis prod.collapse)
  note G = GetSize_items [OF ok i size] and K = ticked_sync [OF GetSize_items(1) [OF ok i size]]
  have docs1: "docs w1 = docs w" using K(3) by (rule queued_keeps(3))
  show ?thesis
  proof (cases "rs = SYNC_OK")
    case False
    then have res: "r = MESSAGE_SERIALIZER_EXCEPTION" "q' = sqs ! i" "current' = current" "w' = w1"
      using run size by (auto simp: MessageSerializer_AddEventsFromQueue_def split: SyncQueueResult.splits QueueResultValues.splits)
    show ?thesis
      by (rule conjI, rule exI [of _ "[]"], rule exI [of _ "[]"])
         (use ok K in \<open>auto simp: res docs1 moved_def event_bytes_def\<close>)
  next
    case True
    obtain m where m: "k = Some m" "unat m = length (sync_items (sqs ! i) w)" using G(2) True by blast
    have "add_events_while D (sqs ! i) ev m current maxSize w1 = ((r, q', current'), w')"
      using run size True m by (simp add: MessageSerializer_AddEventsFromQueue_def)
    from add_events_while_facts [OF own arr _ _ i _ _ _ this, unfolded K docs1] live ok events small m(2)
    show ?thesis by simp
  qed
qed

lemma add_events_for_facts:
  assumes own: "parson_ownership D roots" and arr: "parson_arrays D roots root_of texts source"
    and "root_of (aRootArray ev) \<in> roots (docs w)"
    and "sync_queues_ok sqs w" and "set is \<subseteq> {..<length sqs}" and "distinct is"
    and "\<forall>i \<in> set is. events_only (sync_items (sqs ! i) w)"
    and "unat maxSize + booked_bytes w < 4294967296"
    and "add_events_for D is sqs ev r0 current maxSize w = ((r, sqs', current'), w')"
  shows "(\<exists>taken lost. (\<forall>i < length sqs. sync_items (sqs ! i) w = taken i @ lost i @ sync_items (sqs' ! i) w'
          \<and> length (lost i) \<le> 1 \<and> (i \<notin> set is \<longrightarrow> taken i = [] \<and> lost i = []))
        \<and> texts (docs w') (aRootArray ev) = texts (docs w) (aRootArray ev) @ map event_text (concat (map taken is))
        \<and> unat current' = unat current + event_bytes (concat (map taken is))
        \<and> (r = MESSAGE_SERIALIZER_OK \<longrightarrow> (\<forall>i. lost i = [])))
    \<and> (current < maxSize \<longrightarrow> current' < maxSize) \<and> (r = r0 \<or> r = MESSAGE_SERIALIZER_PARTIAL)
    \<and> length sqs' = length sqs \<and> roots (docs w') = roots (docs w)
    \<and> sync_queues_ok sqs' w' \<and> booked_bytes w' \<le> booked_bytes w"
  using assms(3-)
proof (induction "is" arbitrary: sqs w r0 current)
  case Nil
  then show ?case
    by (auto intro!: exI [of _ "\<lambda>_. []"] simp: event_bytes_def)
next
  case (Cons i "is")
  note prems = Cons.prems
  have i: "i < length sqs" using prems(3) by simp
  show ?case
  proof (cases "current < maxSize")
    case False
    then have "add_events_for D is sqs ev r0 current maxSize w = ((r, sqs', current'), w')" using prems(7) by simp
    note IH = Cons.IH [OF prems(1,2) _ _ _ prems(6) this]
    have J: "(current < maxSize \<longrightarrow> current' < maxSize) \<and> (r = r0 \<or> r = MESSAGE_SERIALIZER_PARTIAL)
        \<and> length sqs' = length sqs \<and> roots (docs w') = roots (docs w)
        \<and> sync_queues_ok sqs' w' \<and> booked_bytes w' \<le> booked_bytes w"
      using IH prems(3,4,5) by simp
    obtain taken lost where I: "\<forall>j < length sqs. sync_items (sqs ! j) w = taken j @ lost j @ sync_items (sqs' ! j) w'
          \<and> length (lost j) \<le> 1 \<and> (j \<notin> set is \<longrightarrow> taken j = [] \<and> lost j = [])"
      "texts (docs w') (aRootArray ev) = texts (docs w) (aRootArray ev) @ map event_text (concat (map taken is))"
      "unat current' = unat current + event_bytes (concat (map taken is))"
      "r = MESSAGE_SERIALIZER_OK \<longrightarrow> (\<forall>j. lost j = [])"
      using IH prems(3,4,5) by auto
    have "taken i = []" using I(1) i prems(4) by simp
    with I J show ?thesis by (intro conjI exI [of _ taken] exI [of _ lost]) auto
  next
    case True
    obtain r1 q1 current1 w1 where one:
      "MessageSerializer_AddEventsFromQueue D (sqs ! i) ev current maxSize w = ((r1, q1, current1), w1)"
      by (metis prod.collapse)
    let ?sqs = "sqs[i := q1]" and ?r1 = "if r1 \<noteq> MESSAGE_SERIALIZER_OK then MESSAGE_SERIALIZER_PARTIAL else r0"
    have rec: "add_events_for D is ?sqs ev ?r1 current1 maxSize w1 = ((r, sqs', current'), w')"
      using prems(7) True one by simp
    have ev_i: "events_only (sync_items (sqs ! i) w)" using prems(5) by simp
    note S = AddEventsFromQueue_facts [OF own arr prems(1,2) i ev_i prems(6) one]
    obtain taken1 lost1 where T: "moved (sync_items (sqs ! i) w) taken1 lost1 (sync_items q1 w1) current current1 maxSize
        (texts (docs w) (aRootArray ev)) (texts (docs w1) (aRootArray ev))" "r1 = MESSAGE_SERIALIZER_OK \<longrightarrow> lost1 = []"
      using S by blast
    have others: "sync_items (?sqs ! j) w1 = (if j = i then sync_items q1 w1 else sync_items (sqs ! j) w)"
      if "j < length sqs" for j using S that i by (auto simp: nth_list_update)
    have pre: "root_of (aRootArray ev) \<in> roots (docs w1)" "sync_queues_ok ?sqs w1" "set is \<subseteq> {..<length ?sqs}"
      "distinct is" "unat maxSize + booked_bytes w1 < 4294967296"
      using S prems(1,3,4,6) by auto
    have "\<forall>j \<in> set is. events_only (sync_items (?sqs ! j) w1)"
      using prems(3,4,5) others by auto
    from Cons.IH [OF pre(1-4) this pre(5) rec]
    obtain taken2 lost2 where I: "\<forall>j < length sqs. sync_items (?sqs ! j) w1 = taken2 j @ lost2 j @ sync_items (sqs' ! j) w'
          \<and> length (lost2 j) \<le> 1 \<and> (j \<notin> set is \<longrightarrow> taken2 j = [] \<and> lost2 j = [])"
      "texts (docs w') (aRootArray ev) = texts (docs w1) (aRootArray ev) @ map event_text (concat (map taken2 is))"
      "unat current' = unat current1 + event_bytes (concat (map taken2 is))"
      "r = MESSAGE_SERIALIZER_OK \<longrightarrow> (\<forall>j. lost2 j = [])"
      and J: "current1 < maxSize \<longrightarrow> current' < maxSize" "r = ?r1 \<or> r = MESSAGE_SERIALIZER_PARTIAL"
      "length sqs' = length sqs" "roots (docs w') = roots (docs w1)" "sync_queues_ok sqs' w'" "booked_bytes w' \<le> booked_bytes w1"
      by auto
    let ?taken = "taken2(i := taken1)" and ?lost = "lost2(i := lost1)"
    have notin: "i \<notin> set is" using prems(4) by simp
    then have same: "map ?taken is = map taken2 is" by simp
    have "\<forall>j < length sqs. sync_items (sqs ! j) w = ?taken j @ ?lost j @ sync_items (sqs' ! j) w'
        \<and> length (?lost j) \<le> 1 \<and> (j \<notin> set (i # is) \<longrightarrow> ?taken j = [] \<and> ?lost j = [])"
    proof (intro allI impI)
      fix j assume j: "j < length sqs"
      show "sync_items (sqs ! j) w = ?taken j @ ?lost j @ sync_items (sqs' ! j) w'
        \<and> length (?lost j) \<le> 1 \<and> (j \<notin> set (i # is) \<longrightarrow> ?taken j = [] \<and> ?lost j = [])"
        using I(1) [rule_format, OF j] T(1) others [OF j] notin by (cases "j = i") (auto simp: moved_def)
    qed
    moreover have "texts (docs w') (aRootArray ev) =
        texts (docs w) (aRootArray ev) @ map event_text (concat (map ?taken (i # is)))"
      using I(2) T(1) by (simp add: same moved_def)
    moreover have "unat current' = unat current + event_bytes (concat (map ?taken (i # is)))"
      using I(3) T(1) by (simp add: same moved_def event_bytes_def)
    moreover have "r = MESSAGE_SERIALIZER_OK \<longrightarrow> (\<forall>j. ?lost j = [])"
      using I(4) J(2) T(2) by (auto split: if_splits)
    moreover have "roots (docs w1) = roots (docs w)" "booked_bytes w1 \<le> booked_bytes w" using S by blast+
    with J have "length sqs' = length sqs \<and> roots (docs w') = roots (docs w) \<and> sync_queues_ok sqs' w'
        \<and> booked_bytes w' \<le> booked_bytes w" by simp
    moreover have "current < maxSize \<longrightarrow> current' < maxSize" using J(1) T(1) by (simp add: moved_def)
    moreover have "r = r0 \<or> r = MESSAGE_SERIALIZER_PARTIAL" using J(2) by (simp split: if_splits)
    ultimately show ?thesis by blast
  qed
qed

lemma GetField_ticked: "ticked w (snd (get_field x w))"
  unfolding get_field_def by (rule locked_rel [where R = ticked]) (auto intro: ticked_trans)

lemma get_field_value: "fst (get_field x w) = (TWIN_OK, v) \<Longrightarrow> v = Some x"
  by (auto simp: get_field_def locked_def Let_def split_beta split: if_splits)

lemma ArrayInit_facts:
  assumes own: "parson_ownership D roots" and arr: "parson_arrays D roots root_of texts source"
  obtains (made) ev w' where "JsonArrayWriter_Init D w = ((JSON_WRITER_OK, Some ev), w')" "doc_frame w w'"
      "root_of (aRootArray ev) = aRootValue ev" "aRootValue ev \<notin> roots (docs w)"
      "roots (docs w') = insert (aRootValue ev) (roots (docs w))" "aShouldFree ev" "texts (docs w') (aRootArray ev) = []"
  | (failed) w' where "JsonArrayWriter_Init D w = ((JSON_WRITER_EXCEPTION, None), w')" "doc_frame w w'"
      "roots (docs w') = roots (docs w)"
proof (cases "allocOk w (tick w)")
  case False
  then show thesis
    by (intro failed [of "next_tick w"]) (simp_all add: JsonArrayWriter_Init_def sys_malloc_def next_tick_def doc_frame_tick)
next
  case True
  obtain v h where init: "doc_init_array D (docs w) = (v, h)" by fastforce
  note defs = JsonArrayWriter_Init_def sys_malloc_def next_tick_def on_docs_def
  have frame: "doc_frame w (w\<lparr>tick := n, docs := k\<rparr>)" for n k by (rule doc_frameI) (rule refl)
  show thesis
  proof (cases v)
    case None
    then show thesis using init True array_laws(1) [OF arr, of "docs w" h]
      by (intro failed [of "w\<lparr>tick := Suc (tick w), docs := h\<rparr>"]) (simp_all add: defs frame)
  next
    case (Some val)
    note P = array_laws(2) [OF arr init [unfolded Some]]
    show thesis
    proof (cases "doc_get_array D h val")
      case None
      then show thesis using init Some True P ownership_laws(8) [OF own, of val h]
        by (intro failed [of "w\<lparr>tick := Suc (tick w), docs := doc_value_free D val h\<rparr>"]) (auto simp: defs frame)
    next
      case a: (Some a)
      then show thesis using init Some True P
        by (intro made [of "\<lparr>aRootValue = val, aRootArray = a, aShouldFree = True\<rparr>" "w\<lparr>tick := Suc (tick w), docs := h\<rparr>"])
           (auto simp: defs frame)
    qed
  qed
qed

lemma WriteArray_facts:
  assumes own: "parson_ownership D roots"
    and ev: "aRootValue ev \<in> roots (docs w)" "aShouldFree ev"
    and run: "JsonObjectWriter_WriteArray D parent key ev w = ((r, ev'), w')"
  shows "doc_frame w (JsonArrayWriter_Deinit D ev' w')"
    "roots (docs (JsonArrayWriter_Deinit D ev' w')) = roots (docs w) - {aRootValue ev}"
proof -
  obtain ok h where set: "doc_set_value D (wRootObject parent) key (aRootValue ev) (docs w) = (ok, h)" by fastforce
  note laws = ownership_laws(6,7) [OF own, of "wRootObject parent" key "aRootValue ev" "docs w", unfolded set fst_conv snd_conv]
    ownership_laws(8) [OF own, of "aRootValue ev"]
  have "JsonArrayWriter_Deinit D ev' w' = w\<lparr>docs := (if ok then h else doc_value_free D (aRootValue ev) h)\<rparr>"
    using run set ev(2) by (auto simp: JsonObjectWriter_WriteArray_def on_docs_def JsonArrayWriter_Deinit_def split: if_splits)
  then show "doc_frame w (JsonArrayWriter_Deinit D ev' w')"
    "roots (docs (JsonArrayWriter_Deinit D ev' w')) = roots (docs w) - {aRootValue ev}"
    using laws ev(1) by (auto simp: doc_frame_docs)
qed

text \<open>The events that left the queues, in the order of the message.\<close>

definition left_queues ::
  "nat list \<Rightarrow> SyncQueue list \<Rightarrow> ('h, 'a) queue_env_scheme \<Rightarrow> (nat \<Rightarrow> (queue_data \<times> u32) list) \<Rightarrow>
    (nat \<Rightarrow> (queue_data \<times> u32) list) \<Rightarrow> SyncQueue list \<Rightarrow> ('h, 'a) queue_env_scheme \<Rightarrow> bool" where
  "left_queues is sqs w taken lost sqs' w' \<longleftrightarrow>
     (\<forall>i < length sqs. sync_items (sqs ! i) w = taken i @ lost i @ sync_items (sqs' ! i) w'
        \<and> length (lost i) \<le> 1 \<and> (i \<notin> set is \<longrightarrow> taken i = [] \<and> lost i = []))"

lemma left_nothing: "(\<And>i. i < length sqs \<Longrightarrow> sync_items (sqs' ! i) w' = sync_items (sqs ! i) w) \<Longrightarrow>
    left_queues is sqs w (\<lambda>_. []) (\<lambda>_. []) sqs' w'"
  by (simp add: left_queues_def)

lemma add_events_for_full: "\<not> current < maxSize \<Longrightarrow>
    add_events_for D is sqs ev r current maxSize w = ((r, sqs, current), w)"
  by (induction "is") simp_all

lemma GenerateEventList_facts:
  assumes own: "parson_ownership D roots" and arr: "parson_arrays D roots root_of texts source"
    and ok: "sync_queues_ok sqs w" and "is": "set is \<subseteq> {..<length sqs}" "distinct is"
    and events: "\<forall>i \<in> set is. events_only (sync_items (sqs ! i) w)"
    and small: "unat (maxMessageSize (twinConfiguration w)) + booked_bytes w < 4294967296"
    and run: "MessageSerializer_GenerateEventList D is sqs parent w = ((r, sqs'), w')"
  shows "(\<exists>taken lost. left_queues is sqs w taken lost sqs' w'
        \<and> (r = MESSAGE_SERIALIZER_OK \<longrightarrow> (\<forall>i. lost i = []))
        \<and> (r = MESSAGE_SERIALIZER_EMPTY \<longrightarrow> event_bytes (concat (map taken is)) = 0)
        \<and> (r \<noteq> MESSAGE_SERIALIZER_EMPTY \<longrightarrow> 0 < event_bytes (concat (map taken is))
            \<and> event_bytes (concat (map taken is)) < unat (maxMessageSize (twinConfiguration w))))
    \<and> length sqs' = length sqs \<and> roots (docs w') = roots (docs w) \<and> sync_queues_ok sqs' w'
    \<and> booked_bytes w' \<le> booked_bytes w"
proof -
  let ?m = "maxMessageSize (twinConfiguration w)"
  obtain t m w1 where get: "TwinConfiguration_GetMaxMessageSize w = ((t, m), w1)" by (metis prod.collapse)
  have tick: "ticked w w1"
    using GetField_ticked [of w ?m] get
    by (simp add: TwinConfiguration_GetMaxMessageSize_def TwinConfiguration_GetFieldInteger_def)
  note K = ticked_sync [OF tick]
  have docs1: "docs w1 = docs w" using K(3) by (rule queued_keeps(3))
  have quiet: ?thesis if "r = MESSAGE_SERIALIZER_EMPTY" "sqs' = sqs" "sync_queues_ok sqs w'"
    "\<And>q. sync_items q w' = sync_items q w" "roots (docs w') = roots (docs w)" "booked_bytes w' \<le> booked_bytes w"
    using that by (intro conjI exI [of _ "\<lambda>_. []"]) (auto simp: event_bytes_def intro: left_nothing)
  show ?thesis
  proof (cases "is = [] \<or> t \<noteq> TWIN_OK")
    case True
    then have "r = MESSAGE_SERIALIZER_EMPTY" "sqs' = sqs" "w' = w \<or> w' = w1"
      using run get by (auto simp: MessageSerializer_GenerateEventList_def split: if_splits)
    then show ?thesis using quiet ok K docs1 by auto
  next
    case False
    then have m: "m = Some ?m"
      using get get_field_value [of ?m w m]
      by (simp add: TwinConfiguration_GetMaxMessageSize_def TwinConfiguration_GetFieldInteger_def)
    from own arr show ?thesis
    proof (cases rule: ArrayInit_facts [where w = w1])
      case (failed w2)
      then have "r = MESSAGE_SERIALIZER_EMPTY" "sqs' = sqs" "w' = w2"
        using run get False by (auto simp: MessageSerializer_GenerateEventList_def)
      then show ?thesis using quiet ok K docs1 failed doc_frame_sync [OF failed(2)] by simp
    next
      case (made ev w2)
      obtain r3 sqs3 current w3 where added: "add_events_for D is sqs ev MESSAGE_SERIALIZER_OK 0 ?m w2 = ((r3, sqs3, current), w3)"
        by (metis prod.collapse)
      obtain r4 ev' w4 where wr: "JsonObjectWriter_WriteArray D parent EVENTS_KEY ev w3 = ((r4, ev'), w4)"
        by (metis prod.collapse)
      have res: "sqs' = sqs3" "w' = JsonArrayWriter_Deinit D ev' w4"
        "r = (if current = 0 then MESSAGE_SERIALIZER_EMPTY
              else if r4 \<noteq> JSON_WRITER_OK then MESSAGE_SERIALIZER_EXCEPTION else r3)"
        using run get False m made(1) added wr by (auto simp: MessageSerializer_GenerateEventList_def)
      note F2 = doc_frame_sync [OF made(2)]
      have pre: "root_of (aRootArray ev) \<in> roots (docs w2)" "sync_queues_ok sqs w2"
        "\<forall>i \<in> set is. events_only (sync_items (sqs ! i) w2)" "unat ?m + booked_bytes w2 < 4294967296"
        using made(3,5) ok events small K F2 by simp_all
      note A = add_events_for_facts [OF own arr pre(1,2) "is" pre(3,4) added]
      have A2: "0 < ?m \<longrightarrow> current < ?m" "r3 = MESSAGE_SERIALIZER_OK \<or> r3 = MESSAGE_SERIALIZER_PARTIAL"
        "length sqs3 = length sqs" "roots (docs w3) = roots (docs w2)" "sync_queues_ok sqs3 w3" "booked_bytes w3 \<le> booked_bytes w2"
        using A by blast+
      have live: "aRootValue ev \<in> roots (docs w3)" using A2(4) made(5) by simp
      note W = WriteArray_facts [OF own live made(6) wr] and F4 = doc_frame_sync [OF WriteArray_facts(1) [OF own live made(6) wr]]
      have roots_same: "roots (docs w') = roots (docs w)" using W(2) A2(4) made(4,5) docs1 by (simp add: res)
      obtain taken lost where T: "\<forall>i < length sqs. sync_items (sqs ! i) w2 = taken i @ lost i @ sync_items (sqs3 ! i) w3
          \<and> length (lost i) \<le> 1 \<and> (i \<notin> set is \<longrightarrow> taken i = [] \<and> lost i = [])"
        "unat current = event_bytes (concat (map taken is))" "r3 = MESSAGE_SERIALIZER_OK \<longrightarrow> (\<forall>i. lost i = [])"
        using A by auto
      have left: "left_queues is sqs w taken lost sqs' w'"
        using T(1) K F2 F4 by (simp add: left_queues_def res)
      have ok_lost: "r = MESSAGE_SERIALIZER_OK \<longrightarrow> (\<forall>i. lost i = [])"
        using T(3) by (auto simp: res)
      have "r3 \<noteq> MESSAGE_SERIALIZER_EMPTY" using A2(2) by auto
      then have empty_iff: "r = MESSAGE_SERIALIZER_EMPTY \<longleftrightarrow> current = 0" by (simp add: res)
      have "current = 0 \<or> current < ?m"
        using A2(1) add_events_for_full [of 0 ?m D "is" sqs ev MESSAGE_SERIALIZER_OK w2] added
        by (cases "0 < ?m") auto
      then have "current = 0 \<or> 0 < unat current \<and> unat current < unat ?m"
        by (auto simp only: word_less_nat_alt unat_gt_0)
      then have bytes: "(r = MESSAGE_SERIALIZER_EMPTY \<longrightarrow> event_bytes (concat (map taken is)) = 0)
        \<and> (r \<noteq> MESSAGE_SERIALIZER_EMPTY \<longrightarrow> 0 < event_bytes (concat (map taken is))
            \<and> event_bytes (concat (map taken is)) < unat ?m)"
        unfolding T(2) [symmetric] empty_iff by auto
      have lens: "length sqs' = length sqs" "sync_queues_ok sqs' w'" "booked_bytes w' \<le> booked_bytes w"
        using A2(3,5,6) K(4) F2(3) F4(1,3) by (simp_all add: res)
      show ?thesis using left ok_lost bytes lens roots_same by blast
    qed
  qed
qed

lemma ObjectInit_frame: "doc_frame w (snd (JsonObjectWriter_Init D w))"
proof -
  have frame: "doc_frame w (w\<lparr>tick := n, docs := k\<rparr>)" for n k by (rule doc_frameI) (rule refl)
  show ?thesis
    by (auto simp: JsonObjectWriter_Init_def JsonObjectWriter_new_def sys_malloc_def next_tick_def on_docs_def
        Let_def split_beta frame doc_frame_tick split: option.split)
qed

lemma WriteString_facts:
  assumes "parson_ownership D roots"
  shows "doc_frame w (snd (JsonObjectWriter_WriteString D wr key s w))"
    "roots (docs (snd (JsonObjectWriter_WriteString D wr key s w))) = roots (docs w)"
    "doc_frame w (snd (write_header D wr key t w))"
    "roots (docs (snd (write_header D wr key t w))) = roots (docs w)"
  using ownership_laws(3) [OF assms]
  by (auto simp: JsonObjectWriter_WriteString_def write_header_def written_as_def on_docs_def split_beta Let_def
      doc_frame_docs split: option.split)

text \<open>Leaving the message early: the writer is released and the queues are untouched.\<close>

definition message_outcome ::
  "('h \<Rightarrow> 'v set) \<Rightarrow> nat list \<Rightarrow> SyncQueue list \<Rightarrow> ('h, 'a) queue_env_scheme \<Rightarrow>
    (MessageSerializerResultValues \<times> string option \<times> SyncQueue list) \<times> ('h, 'a) queue_env_scheme \<Rightarrow> bool" where
  "message_outcome roots is sqs w out \<longleftrightarrow>
     (case out of ((r, buffer, sqs'), w') \<Rightarrow>
        roots (docs w') = roots (docs w) \<and> sync_queues_ok sqs' w' \<and> booked_bytes w' \<le> booked_bytes w
        \<and> (buffer \<noteq> None \<longleftrightarrow> r = MESSAGE_SERIALIZER_OK \<or> r = MESSAGE_SERIALIZER_PARTIAL)
        \<and> (\<exists>taken lost. left_queues is sqs w taken lost sqs' w'
            \<and> (r = MESSAGE_SERIALIZER_OK \<longrightarrow> (\<forall>i. lost i = []))
            \<and> (r = MESSAGE_SERIALIZER_EMPTY \<longrightarrow> event_bytes (concat (map taken is)) = 0)
            \<and> (buffer \<noteq> None \<longrightarrow> 0 < event_bytes (concat (map taken is))
                \<and> event_bytes (concat (map taken is)) < unat (maxMessageSize (twinConfiguration w)))))"

lemma outcome_early:
  assumes "parson_ownership D roots" and "sync_queues_ok sqs w" and "doc_frame w w1"
    and "roots (docs w1) = insert (wRootValue wr) (roots (docs w))" "wRootValue wr \<notin> roots (docs w)" "wShouldFree wr"
  shows "message_outcome roots is sqs w ((MESSAGE_SERIALIZER_EXCEPTION, None, sqs), JsonObjectWriter_Deinit D wr w1)"
proof -
  note F = doc_frame_sync [OF assms(3)] and G = doc_frame_sync [OF Deinit_frame [of w1 D wr]]
  have "roots (docs (JsonObjectWriter_Deinit D wr w1)) = roots (docs w)"
    using Deinit_roots [OF assms(1), of wr w1] assms(4-6) by simp
  then show ?thesis using assms(2) F G
    by (auto simp: message_outcome_def intro!: exI [of _ "\<lambda>_. []"] left_nothing)
qed

lemma CreateSecurityMessage_outcome:
  assumes own: "parson_ownership D roots" and arr: "parson_arrays D roots root_of texts source"
    and ok: "sync_queues_ok sqs w" and "is": "set is \<subseteq> {..<length sqs}" "distinct is"
    and events: "\<forall>i \<in> set is. events_only (sync_items (sqs ! i) w)"
    and small: "unat (maxMessageSize (twinConfiguration w)) + booked_bytes w < 4294967296"
  shows "message_outcome roots is sqs w (MessageSerializer_CreateSecurityMessage D is sqs w)"
proof -
  obtain x w1 where init: "JsonObjectWriter_Init D w = (x, w1)" by fastforce
  have f1: "doc_frame w w1" using ObjectInit_frame [of w D] init by simp
  from own init show ?thesis
  proof (cases rule: Init_roots)
    case failed
    then show ?thesis
      using ok doc_frame_sync [OF f1] init
      by (auto simp: MessageSerializer_CreateSecurityMessage_def message_outcome_def
          intro!: exI [of _ "\<lambda>_. []"] left_nothing)
  next
    case (made wr)
    obtain r1 w2 where e1: "JsonObjectWriter_WriteString D wr AGENT_VERSION_KEY AGENT_VERSION w1 = (r1, w2)" by fastforce
    obtain r2 w3 where e2: "write_header D wr AGENT_ID_KEY (LocalConfiguration_GetAgentId w2) w2 = (r2, w3)" by fastforce
    obtain r3 w4 where e3: "JsonObjectWriter_WriteString D wr MESSAGE_SCHEMA_VERSION_KEY DEFAULT_MESSAGE_SCHEMA_VERSION w3 = (r3, w4)"
      by fastforce
    obtain r sqs' w5 where e4: "MessageSerializer_GenerateEventList D is sqs wr w4 = ((r, sqs'), w5)" by (metis prod.collapse)
    have f: "doc_frame w w2" "doc_frame w w3" "doc_frame w w4"
      using f1 WriteString_facts(1,3) [OF own] e1 e2 e3 by (metis doc_frame_trans snd_conv)+
    have R: "roots (docs w2) = insert (wRootValue wr) (roots (docs w))" "roots (docs w3) = insert (wRootValue wr) (roots (docs w))"
      "roots (docs w4) = insert (wRootValue wr) (roots (docs w))"
      using made(4) WriteString_facts(2,4) [OF own] e1 e2 e3 by (metis snd_conv)+
    note early = outcome_early [OF own ok _ _ made(3,2)]
    note run = MessageSerializer_CreateSecurityMessage_def [of D "is" sqs w] init made(1) e1 e2 e3 e4
    show ?thesis
    proof (cases "r1 = JSON_WRITER_OK \<and> r2 = JSON_WRITER_OK \<and> r3 = JSON_WRITER_OK")
      case False
      then show ?thesis
        using early [OF f(1) R(1)] early [OF f(2) R(2)] early [OF f(3) R(3)]
        by (cases "r1 = JSON_WRITER_OK"; cases "r2 = JSON_WRITER_OK") (simp_all add: run)
    next
      case True
      note F = doc_frame_sync [OF f(3)]
      have pre: "sync_queues_ok sqs w4" "\<forall>i \<in> set is. events_only (sync_items (sqs ! i) w4)"
        "unat (maxMessageSize (twinConfiguration w4)) + booked_bytes w4 < 4294967296"
        using ok events small F(1-3,6) by simp_all
      note G = GenerateEventList_facts [OF own arr pre(1) "is" pre(2,3) e4]
      have G2: "length sqs' = length sqs" "roots (docs w5) = roots (docs w4)" "sync_queues_ok sqs' w5" "booked_bytes w5 \<le> booked_bytes w"
        using G F(3) by auto
      obtain taken lost where T: "left_queues is sqs w4 taken lost sqs' w5"
        "r = MESSAGE_SERIALIZER_OK \<longrightarrow> (\<forall>i. lost i = [])"
        "r = MESSAGE_SERIALIZER_EMPTY \<longrightarrow> event_bytes (concat (map taken is)) = 0"
        "r \<noteq> MESSAGE_SERIALIZER_EMPTY \<longrightarrow> 0 < event_bytes (concat (map taken is))
            \<and> event_bytes (concat (map taken is)) < unat (maxMessageSize (twinConfiguration w4))"
        using G by blast
      let ?w6 = "JsonObjectWriter_Deinit D wr w5"
      note H = doc_frame_sync [OF Deinit_frame [of w5 D wr]]
      have roots6: "roots (docs ?w6) = roots (docs w)"
        using Deinit_roots [OF own, of wr w5] made(2,3) G2(2) R(3) by simp
      have left: "left_queues is sqs w taken lost sqs' ?w6"
        using T(1) F(2) H(2) by (simp add: left_queues_def)
      obtain ser w7 where s: "JsonObjectWriter_Serialize D wr w5 = (ser, w7)" by fastforce
      then have w7: "w7 = w5" by (auto simp: JsonObjectWriter_Serialize_def split: option.splits)
      have out: "message_outcome roots is sqs w ((r', b, sqs'), ?w6)"
        if "b \<noteq> None \<longleftrightarrow> r' = MESSAGE_SERIALIZER_OK \<or> r' = MESSAGE_SERIALIZER_PARTIAL"
          "r' = r \<or> r' = MESSAGE_SERIALIZER_EXCEPTION" for r' b
        unfolding message_outcome_def prod.case
      proof (intro conjI exI)
        show "left_queues is sqs w taken lost sqs' ?w6" by (rule left)
      qed (use that T(2-4) G2 H roots6 F(6) in auto)
      have res: "MessageSerializer_CreateSecurityMessage D is sqs w =
          (if r \<noteq> MESSAGE_SERIALIZER_OK \<and> r \<noteq> MESSAGE_SERIALIZER_PARTIAL then ((r, None, sqs'), ?w6)
           else case ser of (JSON_WRITER_OK, Some (buffer, _)) \<Rightarrow> ((r, Some buffer, sqs'), ?w6)
             | _ \<Rightarrow> ((MESSAGE_SERIALIZER_EXCEPTION, None, sqs'), ?w6))"
        using True by (simp add: run s w7 split: JsonWriterResult.split option.split prod.split)
      show ?thesis
      proof (cases "r = MESSAGE_SERIALIZER_OK \<or> r = MESSAGE_SERIALIZER_PARTIAL")
        case False
        then show ?thesis unfolding res using out [of None r] by auto
      next
        case True
        then show ?thesis unfolding res
          using out [of "Some b" r for b] out [of None MESSAGE_SERIALIZER_EXCEPTION]
          by (auto split: prod.split JsonWriterResult.split option.split)
      qed
    qed
  qed
qed

section \<open>Properties\<close>

text \<open>A document store for the witnesses: the roots, the texts in each array, the source of each value.\<close>

type_synonym text_store = "nat list \<times> (nat \<Rightarrow> string list) \<times> (nat \<Rightarrow> string)"

definition text_doc :: "(nat, nat, nat, text_store) parson_doc" where
  "text_doc =
     (let new = (\<lambda>(rs, ts, so). (Some (Suc (sum_list rs)), (Suc (sum_list rs) # rs, ts(Suc (sum_list rs) := []), so)));
          parse = (\<lambda>s (rs, ts, so). (Some (Suc (sum_list rs)), (Suc (sum_list rs) # rs, ts, so(Suc (sum_list rs) := s))));
          drop_root = (\<lambda>v (rs, ts, so). (filter (\<lambda>x. x \<noteq> v) rs, ts, so)) in
      \<lparr>doc_init_object = new, doc_init_array = new, doc_parse_string = parse,
       doc_get_object = (\<lambda>_ v. Some v), doc_get_array = (\<lambda>_ v. Some v), doc_value_free = drop_root,
       doc_set_string = (\<lambda>_ _ _ h. (True, h)), doc_set_number = (\<lambda>_ _ _ h. (True, h)),
       doc_set_boolean = (\<lambda>_ _ _ h. (True, h)), doc_set_value = (\<lambda>_ _ v h. (True, drop_root v h)),
       doc_append_value = (\<lambda>a v (rs, ts, so). (True, drop_root v (rs, ts(a := ts a @ [so v]), so))),
       doc_serialize = (\<lambda>_ _. Some ''{}''),
       doc_equals = (\<lambda>_ v v'. v = v'), doc_object_count = (\<lambda>_ _. 0), doc_array_count = (\<lambda>_ _. 0),
       doc_dothas_value = (\<lambda>_ _ _. False), doc_dotget_value = (\<lambda>_ _ _. None), doc_get_type = (\<lambda>_ _. JSONObject)\<rparr>)"

abbreviation text_roots :: "text_store \<Rightarrow> nat set" where "text_roots \<equiv> \<lambda>h. set (fst h)"

lemma fresh_root: "Suc (sum_list rs) \<notin> set rs" for rs :: "nat list"
  using member_le_sum_list [of "Suc (sum_list rs)" rs] by auto

lemma text_doc_ownership: "parson_ownership text_doc text_roots"
  using fresh_root by (auto simp: parson_ownership_def text_doc_def Let_def split_beta)

lemma text_doc_arrays: "parson_arrays text_doc text_roots id (\<lambda>h. fst (snd h)) (\<lambda>h. snd (snd h))"
  using fresh_root by (auto simp: parson_arrays_def text_doc_def Let_def split_beta)

definition calm_store :: text_store where "calm_store = ([7], \<lambda>_. [], \<lambda>_. [])"

lemma store_fields [simp]: "fst calm_store = [7]" "fst (snd calm_store) a = []"
  by (simp_all add: calm_store_def)

definition sample_writer :: "(nat, nat) JsonArrayWriter" where
  "sample_writer = \<lparr>aRootValue = 7, aRootArray = 7, aShouldFree = True\<rparr>"

text \<open>
  C3: the message holds the queued events in order.  Take event queues in order, listed without
  repetition, and an array of events.  Whatever the locks, the allocator and parson do, the loop over the
  queues appends to the array exactly the texts of a prefix of each queue, queue by queue in the listed
  order; of each queue at most one further event is gone, and none when the result is
  \<open>MESSAGE_SERIALIZER_OK\<close>; the rest is still queued in order; and the sizes of the appended events sum up
  to \<open>currentMessageSize\<close>, which stays below \<open>maxMessageSize\<close>.
\<close>

theorem message_events_in_order:
  assumes "parson_ownership D roots" and "parson_arrays D roots root_of texts source"
    and "root_of (aRootArray eventsArray) \<in> roots (docs w)"
    and "sync_queues_ok sqs w" and "set queues \<subseteq> {..<length sqs}" and "distinct queues"
    and "\<forall>i \<in> set queues. events_only (sync_items (sqs ! i) w)"
    and "unat maxSize + booked_bytes w < 4294967296" and "0 < maxSize"
    and "add_events_for D queues sqs eventsArray MESSAGE_SERIALIZER_OK 0 maxSize w = ((r, sqs', current), w')"
  shows "\<exists>taken lost. left_queues queues sqs w taken lost sqs' w'
    \<and> texts (docs w') (aRootArray eventsArray) =
        texts (docs w) (aRootArray eventsArray) @ map event_text (concat (map taken queues))
    \<and> unat current = event_bytes (concat (map taken queues)) \<and> current < maxSize
    \<and> (r = MESSAGE_SERIALIZER_OK \<longrightarrow> (\<forall>i. lost i = []))"
proof -
  note A = add_events_for_facts [OF assms(1-8,10)]
  then obtain taken lost where "left_queues queues sqs w taken lost sqs' w'"
    "texts (docs w') (aRootArray eventsArray) =
        texts (docs w) (aRootArray eventsArray) @ map event_text (concat (map taken queues))"
    "unat current = event_bytes (concat (map taken queues))"
    "r = MESSAGE_SERIALIZER_OK \<longrightarrow> (\<forall>i. lost i = [])"
    unfolding left_queues_def by auto
  moreover have "current < maxSize" using A assms(9) by blast
  ultimately show ?thesis by blast
qed

definition one_event :: "(SyncQueueResult \<times> SyncQueue) \<times> text_store queue_env" where
  "one_event = SyncQueue_PushBack (new_sync 0) (EVENT ''{}'') 2 (calm_queue_env_with calm_store)"

lemma one_event_facts:
  "sync_queues_ok [snd (fst one_event)] (snd one_event)"
  "events_only (sync_items (snd (fst one_event)) (snd one_event))" "docs (snd one_event) = calm_store"
  "booked_bytes (snd one_event) \<le> 42" "twinConfiguration (snd one_event) = calm_configuration"
proof -
  let ?w = "calm_queue_env_with calm_store"
  obtain r sq' w' where push: "SyncQueue_PushBack (new_sync 0) (EVENT ''{}'') 2 ?w = ((r, sq'), w')"
    by (metis prod.collapse)
  note facts = sync_push_items [OF calm_sync_queues(2), of 0 calm_store, simplified, OF _ push]
  have empty: "sync_items (new_sync 0) ?w = []" by (simp add: sync_items_def new_sync_def)
  have "queued ?w w'" using facts by (simp add: cost_of_def)
  from queued_keeps(3,4) [OF this] facts empty
  show "sync_queues_ok [snd (fst one_event)] (snd one_event)"
    "events_only (sync_items (snd (fst one_event)) (snd one_event))" "docs (snd one_event) = calm_store"
    "booked_bytes (snd one_event) \<le> 42" "twinConfiguration (snd one_event) = calm_configuration"
    unfolding one_event_def push by (auto simp: cost_of_def events_only_def)
qed

lemma message_events_in_order_witness:
  "let out = add_events_for text_doc [0] [snd (fst one_event)] sample_writer MESSAGE_SERIALIZER_OK 0 1000 (snd one_event)
   in snd (snd (fst out)) < 1000 \<and> (fst (fst out) = MESSAGE_SERIALIZER_OK \<longrightarrow>
      length (fst (snd (docs (snd out))) 7) + length (sync_items (fst (snd (fst out)) ! 0) (snd out))
      = length (sync_items (snd (fst one_event)) (snd one_event)))"
proof -
  obtain r sqs' current w' where
    run: "add_events_for text_doc [0] [snd (fst one_event)] sample_writer MESSAGE_SERIALIZER_OK 0 1000 (snd one_event)
      = ((r, sqs', current), w')"
    by (metis prod.collapse)
  obtain taken lost where T: "left_queues [0] [snd (fst one_event)] (snd one_event) taken lost sqs' w'"
    "fst (snd (docs w')) 7 = map event_text (taken 0)" "current < 1000"
    "r = MESSAGE_SERIALIZER_OK \<longrightarrow> (\<forall>i. lost i = [])"
    using message_events_in_order [OF text_doc_ownership text_doc_arrays _ one_event_facts(1) _ _ _ _ _ run]
      one_event_facts(2-4)
    by (auto simp: sample_writer_def)
  have "sync_items (snd (fst one_event)) (snd one_event) = taken 0 @ lost 0 @ sync_items (sqs' ! 0) w'"
    using T(1) by (simp add: left_queues_def)
  with run T(2-4) show ?thesis by simp
qed



lemma GetSize_success:
  assumes "locks_work w" and "sync_queues_ok sqs w" and "i < length sqs"
  obtains k w' where "SyncQueue_GetSize (sqs ! i) w = ((SYNC_OK, Some k), w')" "ticked w w'"
    "unat k = length (sync_items (sqs ! i) w)"
proof -
  obtain r n w' where run: "SyncQueue_GetSize (sqs ! i) w = ((r, n), w')" by (metis prod.collapse)
  have "r = SYNC_OK"
    using run assms(1) by (auto simp: SyncQueue_GetSize_def locked_def Let_def split_beta sys_defs Queue_GetSize_def
        locks_work_def split: if_splits)
  with GetSize_items [OF assms(2,3) run] run that show thesis by auto
qed

text \<open>
  C37: an event as large as \<open>maxMessageSize\<close> stops its queue for good.  When the first event of a queue is
  that large, nothing is ever taken from the queue: \<open>AddEventsFromQueue\<close> succeeds without popping it or
  anything behind it, so the events behind it are not sent until \<open>maxMessageSize\<close> is raised.
\<close>

theorem oversized_event_blocks_its_queue:
  assumes "locks_work w" and "sync_queues_ok sqs w" and "i < length sqs"
    and "sync_items (sqs ! i) w = x # xs" and "maxSize \<le> snd x"
  shows "\<exists>q' w'. MessageSerializer_AddEventsFromQueue D (sqs ! i) eventsArray 0 maxSize w =
      ((MESSAGE_SERIALIZER_OK, q', 0), w')
    \<and> sync_items q' w' = x # xs \<and> sync_queues_ok (sqs[i := q']) w' \<and> docs w' = docs w"
proof -
  obtain k w1 where size: "SyncQueue_GetSize (sqs ! i) w = ((SYNC_OK, Some k), w1)" "ticked w w1"
    "unat k = length (sync_items (sqs ! i) w)"
    by (rule GetSize_success [OF assms(1-3)])
  note K = ticked_sync [OF size(2)]
  have docs1: "docs w1 = docs w" using K(3) by (rule queued_keeps(3))
  have k: "0 < k" using size(3) assms(4) by (auto simp: word_neq_0_conv [symmetric])
  have start: "MessageSerializer_AddEventsFromQueue D (sqs ! i) eventsArray 0 maxSize w =
      add_events_while D (sqs ! i) eventsArray k 0 maxSize w1"
    by (simp add: MessageSerializer_AddEventsFromQueue_def size(1))
  show ?thesis
  proof (cases "0 < maxSize")
    case False
    then show ?thesis
      using assms(2-4) K start docs1 by (simp add: add_events_while.simps)
  next
    case True
    let ?c = "sizeLimitationCondition \<lparr>currentMessageSize = 0, maxMessageSizeLimit = maxSize\<rparr>"
    obtain r out q1 w2 where pop: "SyncQueue_PopFrontIf (sqs ! i) ?c w1 = ((r, out, q1), w2)" by (metis prod.collapse)
    have s: "sync_inv i (sqs, w1)" using assms(2,3) K by (simp add: sync_inv_iff)
    have items: "sync_items (sqs ! i) w1 = x # xs" using assms(4) K by simp
    have "locks_work w1" using locks_work_ticked [OF size(2)] assms(1) by simp
    moreover have at: "sync_pop_at i (\<lambda>(d, n). ?c d n) (sqs, w1) = ((r, out), sqs[i := q1], w2)"
      by (simp add: sync_pop_at_def pop)
    ultimately have "r = Queue_Result QUEUE_CONDITION_FAILED"
      using sync_pop_facts [OF s, of "\<lambda>(d, n). ?c d n"] assms(3,5) items
      by (auto simp: sync_contents_items sizeLimitationCondition_def split: if_splits)
    moreover note facts = sync_pop_if_items [OF _ assms(3) pop]
    ultimately have "sync_queues_ok (sqs[i := q1]) w2 \<and> sync_items q1 w2 = x # xs \<and> docs w2 = docs w1"
      using assms(2) K items queued_keeps(3) [of w1 w2] by auto
    moreover have "MessageSerializer_AddSingleEvent D (sqs ! i) eventsArray 0 maxSize w1 =
        ((MESSAGE_SERIALIZER_MEMORY_EXCEEDED, q1, 0), w2)"
      using pop \<open>r = Queue_Result QUEUE_CONDITION_FAILED\<close> by (simp add: MessageSerializer_AddSingleEvent_def)
    ultimately show ?thesis
      using start True k docs1 by (simp add: add_events_while.simps [of D "sqs ! i"])
  qed
qed

definition big_event_queue :: "SyncQueue" where
  "big_event_queue = (new_sync 0)\<lparr>innerQueue := (new_queue 0)\<lparr>firstItem := Some 0, lastItem := Some 0, numberOfElements := 1\<rparr>\<rparr>"

definition big_event_env :: "text_store queue_env" where
  "big_event_env = (calm_queue_env_with calm_store)
     \<lparr>queueItems := [0 \<mapsto> \<lparr>itemData = EVENT ''{}'', itemDataSize = 204800, nextItem = None, prevItem = None\<rparr>],
      nextItemAddress := 1, currentConsumptionInBytes := 204840\<rparr>"

lemma big_event_items: "sync_items big_event_queue big_event_env = [(EVENT ''{}'', 204800)]"
  by (simp add: sync_items_def contents_def addresses_def content_at_def big_event_queue_def big_event_env_def numeral_eq_Suc)

lemma big_event_ok: "sync_queues_ok [big_event_queue] big_event_env"
proof -
  have "addresses (innerQueue big_event_queue) big_event_env = [0]"
    by (simp add: addresses_def big_event_queue_def big_event_env_def numeral_eq_Suc)
  then show ?thesis using big_event_items
    by (simp add: sync_queues_ok_def queues_ok_def well_linked_def sync_items_def held_def cost_of_def)
       (simp add: big_event_queue_def big_event_env_def)
qed

lemma oversized_event_blocks_its_queue_witness:
  "snd (snd (fst (MessageSerializer_AddEventsFromQueue text_doc big_event_queue sample_writer 0 204800 big_event_env))) = 0"
proof -
  have "locks_work big_event_env" by (simp add: big_event_env_def locks_work_def)
  from oversized_event_blocks_its_queue [OF this big_event_ok, of 0 "(EVENT ''{}'', 204800)" "[]" 204800 text_doc sample_writer]
  show ?thesis by (auto simp: big_event_items)
qed

end
