(* ===== verification/Update_Twin_Task.thy ===== *)
theory Update_Twin_Task
  imports IoTHub_Adapter Message_Serializer
begin

text \<open>
  The task that installs the twin updates the hub sends, \<^verbatim>\<open>src/agent/src/tasks/update_twin_task.c\<close>
  (making and freeing a queued update is in \<open>IoTHub_Adapter\<close>).  The task keeps two pointers: the queue,
  here its position in the list of the agent's queues, and the adapter, which the operations take as an
  argument.  What the configuration's update may touch is shown here as well, and from it the life of
  a queued update from the callback that makes it to the task that frees it.
\<close>

record UpdateTwinTask =
  updateQueue :: "nat option"
  iothubClient :: bool

section \<open>Operations\<close>

definition UpdateTwinTask_Init :: "nat \<Rightarrow> bool \<times> UpdateTwinTask" where
  "UpdateTwinTask_Init queue = (True, \<lparr>updateQueue = Some queue, iothubClient = True\<rparr>)"

text \<open>
  The loop of \<open>UpdateTwinTask_Deinit\<close> passes the popped item where the address of a pointer to one is
  expected: \<open>UpdateTwinTask_DeinitUpdateTwinTaskItem\<close> then reads the item's \<open>state\<close>, 0 or 1, as a pointer
  and follows it, a fault for every item popped.
\<close>

lemma sync_PopFront_less:
  assumes "SyncQueue_PopFront q w = ((SYNC_OK, out, q1), w1)"
  shows "unat (numberOfElements (innerQueue q1)) < unat (numberOfElements (innerQueue q))"
  using assms unfolding SyncQueue_PopFront_def
proof (cases rule: locked_cases)
  case (completed v1 v2)
  obtain r0 out0 q0 w0 where p: "Queue_PopFront (innerQueue q) v1 = ((r0, out0, q0), w0)" by (metis prod.collapse)
  with completed(2) have "r0 = QUEUE_OK" and q: "innerQueue q1 = q0" by auto
  with p have "numberOfElements (innerQueue q) \<noteq> 0" by (auto simp: Queue_PopFront_def)
  with PopFront_less [OF p [symmetric]] show ?thesis by (simp add: q)
qed auto

function deinit_while :: "SyncQueue \<Rightarrow> u32 \<Rightarrow> ('h, 'a) hub_env_scheme \<Rightarrow> SyncQueue \<times> ('h, 'a) hub_env_scheme" where
  "deinit_while queue queueSize w =
     (if queueSize = 0 then (queue, w)
      else case SyncQueue_PopFront queue w of
        ((Queue_Result QUEUE_OK, out, queue1), w1) \<Rightarrow>
          (case SyncQueue_GetSize queue1 (w1\<lparr>fault := True\<rparr>) of
             ((Queue_Result QUEUE_OK, Some queueSize1), w2) \<Rightarrow> deinit_while queue1 queueSize1 w2
           | (_, w2) \<Rightarrow> (queue1, w2))
      | ((_, _, queue1), w1) \<Rightarrow> (queue1, w1))"
  by pat_completeness auto
termination
  by (relation "measure (\<lambda>(queue, _). unat (numberOfElements (innerQueue queue)))")
     (auto intro: sync_PopFront_less [OF sym])

declare deinit_while.simps [simp del]

definition UpdateTwinTask_Deinit ::
  "UpdateTwinTask \<Rightarrow> SyncQueue list \<Rightarrow> ('h, 'a) hub_env_scheme \<Rightarrow>
    (UpdateTwinTask \<times> SyncQueue list) \<times> ('h, 'a) hub_env_scheme" where
  "UpdateTwinTask_Deinit task sqs w =
     (let (sqs', w') =
        (case updateQueue task of
           None \<Rightarrow> (sqs, w\<lparr>fault := True\<rparr>)
         | Some i \<Rightarrow>
             (case SyncQueue_GetSize (sqs ! i) w of
                ((Queue_Result QUEUE_OK, Some queueSize), w1) \<Rightarrow>
                  (let (queue', w2) = deinit_while (sqs ! i) queueSize w1 in (sqs[i := queue'], w2))
              | (_, w1) \<Rightarrow> (sqs, w1)))
      in ((task\<lparr>updateQueue := None, iothubClient := False\<rparr>, sqs'), w'))"

definition UpdateTwinTask_UpdateTwinReportedProperties ::
  "('v, 'o, 'r, 'h) parson_doc \<Rightarrow> IoTHubAdapter \<Rightarrow> ('h, 'a) hub_env_scheme \<Rightarrow> bool \<times> ('h, 'a) hub_env_scheme" where
  "UpdateTwinTask_UpdateTwinReportedProperties D adapter w =
     (let ((r, twinJson), w1) = TwinConfiguration_GetSerializedTwinConfiguration D w in
      if r \<noteq> TWIN_OK then (False, w1)
      else IoTHubAdapter_SetReportedPropertiesAsync adapter (map_option fst twinJson) w1)"

text \<open>
  Installing the work item: its state and payload are read through the pointer; after a success or a
  document that does not parse, the configuration is reported back.
\<close>

definition apply_work_item ::
  "('v, 'o, 'r) parson \<Rightarrow> ('x, 'y, 'z, 'h) parson_doc \<Rightarrow> IoTHubAdapter \<Rightarrow> queue_data \<Rightarrow> ('h, 'a) hub_env_scheme \<Rightarrow>
    ('h, 'a) hub_env_scheme" where
  "apply_work_item P D adapter workItem w =
     (case workItem of
        TWIN_ITEM a \<Rightarrow>
          (case twinItems w a of
             None \<Rightarrow> w\<lparr>fault := True\<rparr>
           | Some item \<Rightarrow>
               (let (updateResult, w1) = TwinConfiguration_Update P (twinPayload item) (twinState item = TWIN_COMPLETE) w in
                if updateResult \<noteq> TWIN_OK \<and> updateResult \<noteq> TWIN_PARSE_EXCEPTION then w1
                else snd (UpdateTwinTask_UpdateTwinReportedProperties D adapter w1)))
      | _ \<Rightarrow> w\<lparr>fault := True\<rparr>)"

text \<open>The \<open>cleanup\<close> block; \<open>workItem\<close> is NULL until a pop has set it.\<close>

definition free_work_item :: "queue_data option \<Rightarrow> ('h, 'a) hub_env_scheme \<Rightarrow> ('h, 'a) hub_env_scheme" where
  "free_work_item workItem w =
     (case workItem of
        None \<Rightarrow> w
      | Some NULL_POINTER \<Rightarrow> w
      | Some d \<Rightarrow> UpdateTwinTask_DeinitUpdateTwinTaskItem d w)"

definition UpdateTwinTask_Execute ::
  "('v, 'o, 'r) parson \<Rightarrow> ('x, 'y, 'z, 'h) parson_doc \<Rightarrow> UpdateTwinTask \<Rightarrow> IoTHubAdapter \<Rightarrow> SyncQueue list \<Rightarrow>
    ('h, 'a) hub_env_scheme \<Rightarrow> SyncQueue list \<times> ('h, 'a) hub_env_scheme" where
  "UpdateTwinTask_Execute P D task adapter sqs w =
     (case updateQueue task of
        None \<Rightarrow> (sqs, w\<lparr>fault := True\<rparr>)
      | Some i \<Rightarrow>
          (let ((r, queueSize), w1) = SyncQueue_GetSize (sqs ! i) w in
           if r \<noteq> SYNC_OK \<or> queueSize = Some 0 then (sqs, w1)
           else
             let ((queueResult, out, queue'), w2) = SyncQueue_PopFront (sqs ! i) w1;
                 workItem = map_option fst out;
                 w3 = (case out of
                         Some (d, bufferSize) \<Rightarrow>
                           (if queueResult = SYNC_OK \<and> bufferSize = sizeof_UpdateTwinTaskItem
                            then apply_work_item P D adapter d w2 else w2)
                       | None \<Rightarrow> w2)
             in (sqs[i := queue'], free_work_item workItem w3)))"

section \<open>What the configuration may touch\<close>

definition twin_footprint :: "('h, 'a) twin_env_scheme \<Rightarrow> ('h, 'a) twin_env_scheme \<Rightarrow> bool" where
  "twin_footprint w w' \<longleftrightarrow>
     (\<exists>n b h E C U. w' = w\<lparr>tick := n, fault := b, docs := h, eventPriorities := E, twinConfiguration := C, updateResult := U\<rparr>)"

lemma twin_footprintI:
  "w' = w\<lparr>tick := n, fault := b, docs := h, eventPriorities := E, twinConfiguration := C, updateResult := U\<rparr> \<Longrightarrow>
    twin_footprint w w'"
  unfolding twin_footprint_def by blast

lemma twin_footprint_trans [trans]: "twin_footprint w w1 \<Longrightarrow> twin_footprint w1 w2 \<Longrightarrow> twin_footprint w w2"
  unfolding twin_footprint_def by (elim exE) (simp, blast)

lemma twin_footprint_steps [simp]:
  "twin_footprint w w" "twin_footprint w (w\<lparr>fault := b\<rparr>)" "twin_footprint w (w\<lparr>eventPriorities := E\<rparr>)"
  "twin_footprint w (w\<lparr>twinConfiguration := C\<rparr>)" "twin_footprint w (w\<lparr>updateResult := U\<rparr>)"
  "twin_footprint w (w\<lparr>docs := h\<rparr>)" "twin_footprint w (w\<lparr>tick := n\<rparr>)"
  by (cases w; rule twin_footprintI, simp)+

lemma ticked_footprint: "ticked w w' \<Longrightarrow> twin_footprint w w'"
  by (auto simp: ticked_def)

lemma twin_footprint_pairs [simp]:
  "twin_footprint w (w\<lparr>tick := n, fault := b\<rparr>)" "twin_footprint w (w\<lparr>tick := n, eventPriorities := E\<rparr>)"
  "twin_footprint w (w\<lparr>tick := n, updateResult := U\<rparr>)" "twin_footprint w (w\<lparr>tick := n, twinConfiguration := C\<rparr>)"
  by (rule twin_footprint_trans [of w "w\<lparr>tick := n\<rparr>"]; simp)+

lemma noted_footprint: "noted w w' \<Longrightarrow> twin_footprint w w'"
  by (auto simp: noted_def)

lemma collectors_lock_footprint:
  assumes "\<And>w1. twin_footprint w1 (snd (body w1))"
  shows "twin_footprint w (snd (with_collectors_lock body w))"
proof -
  have lock: "twin_footprint v (snd (TwinConfigurationEventCollectors_Lock v))"
    "twin_footprint v (snd (TwinConfigurationEventCollectors_Unlock v))" for v :: "('a, 'b) twin_env_scheme"
    by (auto simp: TwinConfigurationEventCollectors_Lock_def TwinConfigurationEventCollectors_Unlock_def sys_defs Let_def)
  let ?w1 = "snd (TwinConfigurationEventCollectors_Lock w)"
  let ?w2 = "if fst (TwinConfigurationEventCollectors_Lock w) then snd (body ?w1) else ?w1"
  have "twin_footprint w ?w1" by (rule lock)
  also have "twin_footprint ?w1 ?w2" using assms by simp
  also have "twin_footprint ?w2 (snd (TwinConfigurationEventCollectors_Unlock ?w2))" by (rule lock)
  also have "snd (TwinConfigurationEventCollectors_Unlock ?w2) = snd (with_collectors_lock body w)"
    by (simp add: with_collectors_lock_def Let_def split_beta)
  finally show ?thesis .
qed

lemma SetValues_footprint: "twin_footprint w (snd (TwinConfigurationEventCollectors_SetValues P reader w))"
proof -
  obtain r reader' new w1 where run: "run_steps (set_values_steps P) (reader, zero_collectors, w) = (r, reader', new, w1)"
    by (metis prod.collapse)
  have "half_done w w1" using run_half_done [of w P reader zero_collectors] by (simp add: run)
  then have "twin_footprint w w1" by (cases rule: half_done_cases) simp_all
  moreover have "twin_footprint w1 (snd (TwinConfigurationEventCollectors_SetValues P reader w))"
    by (simp add: TwinConfigurationEventCollectors_SetValues_def run)
  ultimately show ?thesis by (rule twin_footprint_trans)
qed

lemma Collectors_Update_footprint: "twin_footprint w (snd (TwinConfigurationEventCollectors_Update P reader w))"
proof -
  have "twin_footprint w (snd (with_collectors_lock (\<lambda>w.
      let ((r, reader'), w') = TwinConfigurationEventCollectors_SetValues P reader w in ((r, Some reader'), w')) w))"
    by (rule collectors_lock_footprint) (simp add: split_beta SetValues_footprint)
  then show ?thesis by (simp add: TwinConfigurationEventCollectors_Update_def split_beta)
qed

lemma Deinit_footprint: "twin_footprint w (TwinConfiguration_Deinit w)"
proof -
  have "twin_footprint v (TwinConfigurationEventCollectors_Deinit v)" for v :: "('a, 'b) twin_env_scheme"
    by (simp add: TwinConfigurationEventCollectors_Deinit_def)
  moreover have "twin_footprint v (TwinConfiguration_SafeDeinit v)" for v :: "('a, 'b) twin_env_scheme"
    by (simp add: SafeDeinit_eq)
  ultimately have "twin_footprint w (TwinConfigurationEventCollectors_Deinit (TwinConfiguration_SafeDeinit w))"
    using twin_footprint_trans by blast
  moreover have "twin_footprint (TwinConfigurationEventCollectors_Deinit (TwinConfiguration_SafeDeinit w)) (TwinConfiguration_Deinit w)"
    by (simp add: TwinConfiguration_Deinit_def Let_def)
  ultimately show ?thesis by (rule twin_footprint_trans)
qed

lemma finish_update_footprint:
  assumes "finish_update taken r status w = (res, w')"
  shows "twin_footprint w w'"
  using assms
proof (cases rule: finish_update_cases)
  case (recorded n t)
  then show ?thesis by simp
next
  case (torn_down n t)
  then show ?thesis using twin_footprint_trans [OF twin_footprint_pairs(3) Deinit_footprint] by simp
qed

lemma apply_update_footprint:
  assumes "apply_update P reader status conf w = ((r, status'), w')"
  shows "twin_footprint w w'"
  using assms
proof (cases rule: apply_update_cases)
  case (collectors w1)
  then show ?thesis using Collectors_Update_footprint [of w P reader] by simp
next
  case (copied w1 n)
  then show ?thesis
    using twin_footprint_trans [OF Collectors_Update_footprint [of w P reader] twin_footprint_pairs(4)] by simp
next
  case (no_memory w1 n C)
  then show ?thesis
    using twin_footprint_trans [OF Collectors_Update_footprint [of w P reader] twin_footprint_pairs(4)] by simp
qed

lemma Update_footprint:
  assumes upd: "TwinConfiguration_Update P json complete w = (res, w')"
  shows "twin_footprint w w'"
proof -
  obtain r rd w1 where opened: "open_twin P json complete w = ((r, rd), w1)" by (metis prod.collapse)
  have w1: "twin_footprint w w1" by (rule noted_footprint) (rule open_twin_frame [OF opened])
  show ?thesis
  proof (cases "r \<noteq> TWIN_OK \<or> rd = None")
    case True
    with Update_unopened [OF opened True upd] show ?thesis
      using twin_footprint_trans [OF w1] finish_update_footprint by blast
  next
    case False
    then obtain reader where "open_twin P json complete w = ((TWIN_OK, Some reader), w1)" using opened by auto
    from this upd show ?thesis
    proof (cases rule: Update_cases)
      case (extraction r st)
      then show ?thesis using twin_footprint_trans [OF w1] finish_update_footprint by blast
    next
      case (no_lock st n)
      have "twin_footprint w (w1\<lparr>tick := n\<rparr>)" by (rule twin_footprint_trans [OF w1]) simp
      with no_lock show ?thesis using twin_footprint_trans finish_update_footprint by blast
    next
      case (ran reader' status conf n r2 status2 w4)
      have "twin_footprint w (w1\<lparr>tick := n\<rparr>)" by (rule twin_footprint_trans [OF w1]) simp
      with ran show ?thesis using twin_footprint_trans finish_update_footprint apply_update_footprint by blast
    qed
  qed
qed

text \<open>Writing the configuration out changes neither it nor the record of the last update.\<close>

definition reported :: "('h, 'a) twin_env_scheme \<Rightarrow> ('h, 'a) twin_env_scheme \<Rightarrow> bool" where
  "reported w w' \<longleftrightarrow>
     twin_footprint w w' \<and> twinConfiguration w' = twinConfiguration w \<and> updateResult w' = updateResult w
     \<and> (twinConfigurationObjectName w \<noteq> None \<longrightarrow> fault w' = fault w)"

lemma twin_footprint_name: "twin_footprint w w' \<Longrightarrow> twinConfigurationObjectName w' = twinConfigurationObjectName w"
  unfolding twin_footprint_def by (elim exE) simp

lemma reported_trans [trans]: "reported w w1 \<Longrightarrow> reported w1 w2 \<Longrightarrow> reported w w2"
  unfolding reported_def using twin_footprint_trans twin_footprint_name [of w w1] by auto

lemma reported_intros:
  "reported w w" "ticked w w' \<Longrightarrow> reported w w'" "doc_frame w w' \<Longrightarrow> reported w w'" "reported w (w\<lparr>fault := (fault w \<or> twinConfigurationObjectName w = None)\<rparr>)"
proof -
  show "reported w w'" if "doc_frame w w'"
  proof -
    from that obtain n h where w': "w' = w\<lparr>tick := n, docs := h\<rparr>" by (auto simp: doc_frame_def)
    have "twin_footprint w w'" unfolding w' by (rule twin_footprint_trans [of w "w\<lparr>tick := n\<rparr>"]) simp_all
    then show ?thesis by (simp add: reported_def w')
  qed
  show "ticked w w' \<Longrightarrow> reported w w'" using ticked_footprint [of w w'] by (auto simp: reported_def ticked_def)
qed (auto simp: reported_def)

lemma doc_frame_writes:
  "doc_frame w (snd (JsonObjectWriter_WriteString D wr key s w))"
  "doc_frame w (snd (JsonObjectWriter_WriteInt D wr key i w))"
  "doc_frame w (snd (JsonObjectWriter_WriteBool D wr key b w))"
  "doc_frame w (snd (JsonObjectWriter_WriteObject D wr key obj w))"
  "doc_frame w (snd (JsonObjectWriter_Serialize D wr w))"
  "doc_frame w (snd (write_value D wr x w))"
  by (auto simp: JsonObjectWriter_WriteString_def JsonObjectWriter_WriteInt_def JsonObjectWriter_WriteBool_def
      JsonObjectWriter_WriteObject_def JsonObjectWriter_Serialize_def write_value_def on_docs_def written_as_def
      Let_def split_beta doc_frame_docs split: option.split conf_value.split)

lemma WriteConfiguration_frame: "doc_frame w (snd (TwinConfigurationUtils_Internal_WriteConfigurationToJson D wr key x w))"
proof -
  obtain r y w1 where init: "JsonObjectWriter_Init D w = ((r, y), w1)" by (metis prod.collapse)
  have w1: "doc_frame w w1" using ObjectInit_frame [of w D] init by simp
  show ?thesis
  proof (cases "r = JSON_WRITER_OK \<and> y \<noteq> None")
    case False
    with init w1 show ?thesis
      by (auto simp: TwinConfigurationUtils_Internal_WriteConfigurationToJson_def split: JsonWriterResult.split option.split)
  next
    case True
    then obtain c where c: "r = JSON_WRITER_OK" "y = Some c" by blast
    obtain r2 w2 where wv: "write_value D c x w1 = (r2, w2)" by fastforce
    have w2: "doc_frame w w2" using doc_frame_trans [OF w1] doc_frame_writes(6) [of w1 D c x] wv by simp
    obtain r3 added w3 where wo: "JsonObjectWriter_WriteObject D wr key c w2 = ((r3, added), w3)" by (metis prod.collapse)
    have w3: "doc_frame w w3" using doc_frame_trans [OF w2] doc_frame_writes(4) [of w2 D wr key c] wo by simp
    have "doc_frame w (JsonObjectWriter_Deinit D c w2)" "doc_frame w (JsonObjectWriter_Deinit D added w3)"
      using doc_frame_trans [OF w2 Deinit_frame] doc_frame_trans [OF w3 Deinit_frame] by blast+
    with init c wv wo show ?thesis
      by (simp add: TwinConfigurationUtils_Internal_WriteConfigurationToJson_def)
  qed
qed

lemma write_entry_frame:
  "doc_frame w (snd (TwinConfigurationUtils_WriteStringConfigurationToJson D writer key s w))"
  "doc_frame w (snd (TwinConfigurationUtils_WriteUintConfigurationToJson D writer key n w))"
  "doc_frame w (snd (TwinConfigurationUtils_WriteBoolConfigurationToJson D writer key b w))"
  "doc_frame w (snd (write_duration D writer key n w))"
  "doc_frame w (snd (write_priority D writer key p w))"
  by (simp_all add: TwinConfigurationUtils_WriteStringConfigurationToJson_def WriteConfiguration_frame
      TwinConfigurationUtils_WriteUintConfigurationToJson_def TwinConfigurationUtils_WriteBoolConfigurationToJson_def
      write_duration_def write_priority_def split_beta split: option.split)

lemma run_steps_reported:
  assumes "\<And>f v. f \<in> set fs \<Longrightarrow> reported v (snd (f v))"
  shows "reported w (snd (run_steps fs w))"
  by (rule run_steps_keeps [where I = "reported w"]) (auto intro: reported_intros reported_trans assms)

lemma GetPrioritiesJson_reported: "reported w (snd (TwinConfigurationEventCollectors_GetPrioritiesJson D wr w))"
proof -
  have body: "reported v (snd (TwinConfigurationEventCollectors_SafeGetPrioritiesJson D wr v))" for v :: "('a, 'b) twin_env_scheme"
    unfolding TwinConfigurationEventCollectors_SafeGetPrioritiesJson_def Let_def
    by (rule run_steps_reported) (auto intro!: reported_intros(3) write_entry_frame)
  have lock: "reported v (snd (TwinConfigurationEventCollectors_Lock v))"
    "reported v (snd (TwinConfigurationEventCollectors_Unlock v))" for v :: "('a, 'b) twin_env_scheme"
    by (auto simp: reported_def TwinConfigurationEventCollectors_Lock_def TwinConfigurationEventCollectors_Unlock_def sys_defs Let_def)
  let ?w1 = "snd (TwinConfigurationEventCollectors_Lock w)"
  let ?w2 = "if fst (TwinConfigurationEventCollectors_Lock w) then snd (TwinConfigurationEventCollectors_SafeGetPrioritiesJson D wr ?w1) else ?w1"
  have "reported w ?w1" by (rule lock)
  also have "reported ?w1 ?w2" using body by (simp add: reported_intros)
  also have "reported ?w2 (snd (TwinConfigurationEventCollectors_Unlock ?w2))" by (rule lock)
  also have "snd (TwinConfigurationEventCollectors_Unlock ?w2) = snd (TwinConfigurationEventCollectors_GetPrioritiesJson D wr w)"
    by (simp add: TwinConfigurationEventCollectors_GetPrioritiesJson_def with_collectors_lock_def Let_def split_beta)
  finally show ?thesis .
qed

lemma write_configuration_reported: "reported w (snd (write_configuration D wr w))"
  unfolding write_configuration_def Let_def
  by (rule run_steps_reported) (auto intro: reported_intros(3) write_entry_frame GetPrioritiesJson_reported)

lemma serialize_twin_reported:
  fixes w :: "('a, 'c) twin_env_scheme"
  shows "reported w (snd (serialize_twin D w))"
proof -
  have deinit: "reported v w' \<Longrightarrow> reported v (JsonObjectWriter_Deinit D c w')" for v w' :: "('a, 'c) twin_env_scheme" and c
    using reported_trans reported_intros(3) Deinit_frame by blast
  obtain r y w1 where init: "JsonObjectWriter_Init D w = ((r, y), w1)" by (metis prod.collapse)
  have w1: "reported w w1" using reported_intros(3) [OF ObjectInit_frame [of w D]] init by simp
  obtain r' y' w2 where init2: "JsonObjectWriter_Init D w1 = ((r', y'), w2)" by (metis prod.collapse)
  have w2: "reported w w2" using reported_trans [OF w1] reported_intros(3) [OF ObjectInit_frame [of w1 D]] init2 by simp
  show ?thesis
  proof (cases "r = JSON_WRITER_OK \<and> y \<noteq> None")
    case False
    with init w1 show ?thesis by (auto simp: serialize_twin_def split: JsonWriterResult.split option.split)
  next
    case True
    then obtain root where root: "r = JSON_WRITER_OK" "y = Some root" by blast
    show ?thesis
    proof (cases "r' = JSON_WRITER_OK \<and> y' \<noteq> None")
      case False
      with init init2 root deinit [OF w2] show ?thesis
        by (auto simp: serialize_twin_def split: JsonWriterResult.split option.split)
    next
      case True
      then obtain c where c: "r' = JSON_WRITER_OK" "y' = Some c" by blast
      obtain r3 w3 where wc: "write_configuration D c w2 = (r3, w3)" by fastforce
      have w3: "reported w w3" using reported_trans [OF w2] write_configuration_reported [of w2 D c] wc by simp
      let ?w4 = "w3\<lparr>fault := (fault w3 \<or> twinConfigurationObjectName w3 = None)\<rparr>"
      have w4: "reported w ?w4" by (rule reported_trans [OF w3]) (rule reported_intros)
      let ?name = "the (twinConfigurationObjectName w3)"
      obtain r5 added w5 where wo: "JsonObjectWriter_WriteObject D root ?name c ?w4 = ((r5, added), w5)" by (metis prod.collapse)
      have w5: "reported w w5"
        using reported_trans [OF w4] reported_intros(3) [OF doc_frame_writes(4) [of ?w4 D root ?name c]] wo by simp
      obtain r6 out w6 where ser: "JsonObjectWriter_Serialize D root w5 = ((r6, out), w6)" by (metis prod.collapse)
      have w6: "reported w w6"
        using reported_trans [OF w5] reported_intros(3) [OF doc_frame_writes(5) [of w5 D root]] ser by simp
      show ?thesis
        using init init2 root c wc wo ser deinit [OF deinit [OF w3]] deinit [OF deinit [OF w5]] deinit [OF deinit [OF w6]]
        by (simp add: serialize_twin_def Let_def)
    qed
  qed
qed

lemma GetSerialized_reported: "reported w (snd (TwinConfiguration_GetSerializedTwinConfiguration D w))"
  unfolding TwinConfiguration_GetSerializedTwinConfiguration_def
  by (rule locked_rel [where R = reported]) (auto intro: reported_intros reported_trans serialize_twin_reported)

section \<open>The life of a queued update\<close>

lemma footprint_kept:
  assumes "twin_footprint w w'"
  shows "queueItems w' = queueItems w" "nextItemAddress w' = nextItemAddress w" "booked_bytes w' = booked_bytes w"
    "lockOk w' = lockOk w" "allocOk w' = allocOk w" "twinItems w' = twinItems w" "nextTwinItem w' = nextTwinItem w"
    "sync_items q w' = sync_items q w" "locks_work w' = locks_work w"
proof -
  obtain n b h E C U where w': "w' = w\<lparr>tick := n, fault := b, docs := h, eventPriorities := E, twinConfiguration := C, updateResult := U\<rparr>"
    using assms unfolding twin_footprint_def by blast
  show items: "queueItems w' = queueItems w" "nextItemAddress w' = nextItemAddress w" "booked_bytes w' = booked_bytes w"
    "lockOk w' = lockOk w" "allocOk w' = allocOk w" "twinItems w' = twinItems w" "nextTwinItem w' = nextTwinItem w"
    by (simp_all add: w')
  then show "locks_work w' = locks_work w" by (simp add: locks_work_def)
  have "addresses p w' = addresses p w" for p by (simp add: addresses_def items)
  then show "sync_items q w' = sync_items q w" by (simp add: sync_items_def contents_def items)
qed

text \<open>The queues depend on the heap of items and the budget only.\<close>

lemma queues_ok_same:
  assumes "sync_queues_ok sqs w" and "queueItems w' = queueItems w" "nextItemAddress w' = nextItemAddress w"
    "booked_bytes w' = booked_bytes w" "\<not> fault w'"
  shows "sync_queues_ok sqs w'" "sync_items q w' = sync_items q w"
proof -
  have addr: "addresses p w' = addresses p w" for p by (simp add: addresses_def assms)
  then show "sync_items q w' = sync_items q w" by (simp add: sync_items_def contents_def assms)
  show "sync_queues_ok sqs w'"
    using assms(1,5) unfolding sync_queues_ok_def queues_ok_def well_linked_def contents_def
    by (simp add: addr assms(2,3,4))
qed

lemma PopFrontIf_results:
  "fst (fst (SyncQueue_PopFrontIf sq c w)) \<in>
    {SYNC_OK, Queue_Result QUEUE_IS_EMPTY, Queue_Result QUEUE_CONDITION_FAILED, SYNC_QUEUE_LOCK_EXCEPTION}"
proof -
  have "fst (fst (Queue_PopFrontIf q c v)) \<in> {QUEUE_OK, QUEUE_IS_EMPTY, QUEUE_CONDITION_FAILED}"
    for q and v :: "('a, 'b) queue_env_scheme"
    by (auto simp: Queue_PopFrontIf_def Queue_PopFront_def Let_def split_beta split: option.split)
  then show ?thesis
    by (fastforce simp: SyncQueue_PopFrontIf_def locked_def Let_def split_beta)
qed

lemma PopFront_success:
  assumes "locks_work w" and "sync_queues_ok sqs w" and "i < length sqs" and "sync_items (sqs ! i) w = x # xs"
  obtains q' w' where "SyncQueue_PopFront (sqs ! i) w = ((SYNC_OK, Some x, q'), w')" "queued w w'"
    "sync_queues_ok (sqs[i := q']) w'" "sync_items q' w' = xs" "booked_bytes w' \<le> booked_bytes w"
    "\<And>j. j < length sqs \<Longrightarrow> j \<noteq> i \<Longrightarrow> sync_items (sqs ! j) w' = sync_items (sqs ! j) w"
proof -
  obtain r out q' w' where run: "SyncQueue_PopFrontIf (sqs ! i) (\<lambda>_ _. True) w = ((r, out, q'), w')"
    by (metis prod.collapse)
  note facts = sync_pop_if_items [OF assms(2,3) run]
  have "r \<noteq> SYNC_QUEUE_LOCK_EXCEPTION"
    using run assms(1) locks_work_def [of w]
    by (auto simp: SyncQueue_PopFrontIf_def locked_def Let_def split_beta sys_defs PopFrontIf_locks split: if_splits)
  moreover have "r \<noteq> Queue_Result QUEUE_IS_EMPTY" "r \<noteq> Queue_Result QUEUE_CONDITION_FAILED"
    using facts assms(4) by auto
  ultimately have "r = SYNC_OK" using PopFrontIf_results [of "sqs ! i" "\<lambda>_ _. True" w] run by auto
  with facts run assms(4) that show thesis
    by (auto simp: sync_pop_items [OF assms(2,3)])
qed

definition sized_item :: "nat \<Rightarrow> queue_data \<times> u32" where
  "sized_item a = (TWIN_ITEM a, sizeof_UpdateTwinTaskItem)"

lemma apply_footprint:
  fixes w :: "('h, 'a) hub_env_scheme"
  shows "\<exists>w1. twin_footprint w w1 \<and> (\<exists>n b rp. apply_work_item P D adapter d w = w1\<lparr>tick := n, fault := b, reportedProperties := rp\<rparr>)"
proof -
  have self: "\<exists>n b rp. v = v\<lparr>tick := n, fault := b, reportedProperties := rp\<rparr>" for v :: "('h, 'a) hub_env_scheme"
    by (rule exI [of _ "tick v"], rule exI [of _ "fault v"], rule exI [of _ "reportedProperties v"]) simp
  have report: "\<exists>v1. twin_footprint v v1 \<and> (\<exists>n b rp. snd (UpdateTwinTask_UpdateTwinReportedProperties D adapter v)
      = v1\<lparr>tick := n, fault := b, reportedProperties := rp\<rparr>)" for v :: "('h, 'a) hub_env_scheme"
  proof -
    obtain r out v1 where ser: "TwinConfiguration_GetSerializedTwinConfiguration D v = ((r, out), v1)" by (metis prod.collapse)
    have v1: "twin_footprint v v1" using GetSerialized_reported [of v D] ser by (simp add: reported_def)
    have "let v3 = snd (IoTHubAdapter_SetReportedPropertiesAsync adapter msg v1)
        in v3 = v1\<lparr>tick := tick v3, fault := fault v3, reportedProperties := reportedProperties v3\<rparr>" for msg
      by (auto simp: IoTHubAdapter_SetReportedPropertiesAsync_def module_call_def sys_defs Let_def split: option.split)
    then have "\<exists>n b rp. snd (IoTHubAdapter_SetReportedPropertiesAsync adapter msg v1) = v1\<lparr>tick := n, fault := b, reportedProperties := rp\<rparr>" for msg
      unfolding Let_def by blast
    with ser v1 self show ?thesis
      by (auto simp: UpdateTwinTask_UpdateTwinReportedProperties_def)
  qed
  show ?thesis
  proof (cases "\<exists>a item. d = TWIN_ITEM a \<and> twinItems w a = Some item")
    case True
    then obtain a item where a: "d = TWIN_ITEM a" "twinItems w a = Some item" by blast
    obtain r w1 where upd: "TwinConfiguration_Update P (twinPayload item) (twinState item = TWIN_COMPLETE) w = (r, w1)" by fastforce
    have w1: "twin_footprint w w1" by (rule Update_footprint [OF upd])
    show ?thesis
    proof (cases "r \<noteq> TWIN_OK \<and> r \<noteq> TWIN_PARSE_EXCEPTION")
      case True
      then show ?thesis using a upd w1 self [of w1] by (auto simp: apply_work_item_def)
    next
      case False
      with a upd have "apply_work_item P D adapter d w = snd (UpdateTwinTask_UpdateTwinReportedProperties D adapter w1)"
        by (auto simp: apply_work_item_def)
      with report [of w1] twin_footprint_trans [OF w1] show ?thesis by metis
    qed
  next
    case False
    then have "apply_work_item P D adapter d w = w\<lparr>fault := True\<rparr>"
      by (auto simp: apply_work_item_def split: queue_data.split option.split)
    then show ?thesis using self [of "w\<lparr>fault := True\<rparr>"] by (intro exI [of _ "w\<lparr>fault := True\<rparr>"]) simp
  qed
qed

lemma apply_work_item_configuration:
  assumes "twinItems w a = Some item"
    and "TwinConfiguration_Update P (twinPayload item) (twinState item = TWIN_COMPLETE) w = (r, w1)"
  shows "twinConfiguration (apply_work_item P D adapter (TWIN_ITEM a) w) = twinConfiguration w1"
    "updateResult (apply_work_item P D adapter (TWIN_ITEM a) w) = updateResult w1"
proof -
  obtain r2 out w2 where ser: "TwinConfiguration_GetSerializedTwinConfiguration D w1 = ((r2, out), w2)" by (metis prod.collapse)
  have "reported w1 w2" using GetSerialized_reported [of w1 D] ser by simp
  then have w2: "twinConfiguration w2 = twinConfiguration w1" "updateResult w2 = updateResult w1" by (simp_all add: reported_def)
  have "twinConfiguration (snd (IoTHubAdapter_SetReportedPropertiesAsync adapter msg w2)) = twinConfiguration w2"
    "updateResult (snd (IoTHubAdapter_SetReportedPropertiesAsync adapter msg w2)) = updateResult w2" for msg
    by (simp_all add: IoTHubAdapter_SetReportedPropertiesAsync_def module_call_def sys_defs Let_def split: option.split)
  with assms ser w2 show "twinConfiguration (apply_work_item P D adapter (TWIN_ITEM a) w) = twinConfiguration w1"
    "updateResult (apply_work_item P D adapter (TWIN_ITEM a) w) = updateResult w1"
    by (simp_all add: apply_work_item_def UpdateTwinTask_UpdateTwinReportedProperties_def)
qed

lemma apply_kept:
  "twinItems (apply_work_item P D adapter d w) = twinItems w" "nextTwinItem (apply_work_item P D adapter d w) = nextTwinItem w"
  "queueItems (apply_work_item P D adapter d w) = queueItems w"
  "nextItemAddress (apply_work_item P D adapter d w) = nextItemAddress w"
  "booked_bytes (apply_work_item P D adapter d w) = booked_bytes w"
  "lockOk (apply_work_item P D adapter d w) = lockOk w" "allocOk (apply_work_item P D adapter d w) = allocOk w"
proof -
  obtain w1 n b rp where w1: "twin_footprint w w1"
    "apply_work_item P D adapter d w = w1\<lparr>tick := n, fault := b, reportedProperties := rp\<rparr>"
    using apply_footprint by blast
  show "twinItems (apply_work_item P D adapter d w) = twinItems w" "nextTwinItem (apply_work_item P D adapter d w) = nextTwinItem w"
    "queueItems (apply_work_item P D adapter d w) = queueItems w"
    "nextItemAddress (apply_work_item P D adapter d w) = nextItemAddress w"
    "booked_bytes (apply_work_item P D adapter d w) = booked_bytes w"
    "lockOk (apply_work_item P D adapter d w) = lockOk w" "allocOk (apply_work_item P D adapter d w) = allocOk w"
    by (simp_all add: w1(2) footprint_kept [OF w1(1)])
qed

lemma Execute_installs:
  assumes "locks_work w" and "sync_queues_ok sqs w" and "i < length sqs" and "updateQueue task = Some i"
    and "sync_items (sqs ! i) w = sized_item a # xs" and "twinItems w a = Some item"
  shows "\<exists>q' w1 w2 r.
      UpdateTwinTask_Execute P D task adapter sqs w =
        (sqs[i := q'], (apply_work_item P D adapter (TWIN_ITEM a) w1)\<lparr>twinItems := (twinItems w)(a := None)\<rparr>)
    \<and> TwinConfiguration_Update P (twinPayload item) (twinState item = TWIN_COMPLETE) w1 = (r, w2)
    \<and> twinConfiguration (snd (UpdateTwinTask_Execute P D task adapter sqs w)) = twinConfiguration w2
    \<and> updateResult (snd (UpdateTwinTask_Execute P D task adapter sqs w)) = updateResult w2
    \<and> queued w w1 \<and> sync_queues_ok (sqs[i := q']) w1 \<and> sync_items q' w1 = xs \<and> booked_bytes w1 \<le> booked_bytes w
    \<and> (\<forall>j < length sqs. j \<noteq> i \<longrightarrow> sync_items (sqs ! j) w1 = sync_items (sqs ! j) w)"
proof -
  obtain k v where size: "SyncQueue_GetSize (sqs ! i) w = ((SYNC_OK, Some k), v)" "ticked w v"
    "unat k = length (sync_items (sqs ! i) w)"
    by (rule GetSize_success [OF assms(1-3)])
  note K = ticked_sync [OF size(2)]
  have k: "k \<noteq> 0" using size(3) assms(5) by auto
  have v: "locks_work v" "sync_queues_ok sqs v" "sync_items (sqs ! i) v = sized_item a # xs"
    using assms(1,2,5) K by (simp_all add: queued_keeps(7) [OF K(3)])
  obtain q' w1 where pop: "SyncQueue_PopFront (sqs ! i) v = ((SYNC_OK, Some (sized_item a), q'), w1)" "queued v w1"
    "sync_queues_ok (sqs[i := q']) w1" "sync_items q' w1 = xs" "booked_bytes w1 \<le> booked_bytes v"
    "\<And>j. j < length sqs \<Longrightarrow> j \<noteq> i \<Longrightarrow> sync_items (sqs ! j) w1 = sync_items (sqs ! j) v"
    by (rule PopFront_success [OF v(1,2) assms(3) v(3)]) blast
  have queued: "queued w w1" by (rule queued_trans [OF K(3) pop(2)])
  then have items: "twinItems w1 = twinItems w" by (auto simp: queued_def)
  obtain r w2 where upd: "TwinConfiguration_Update P (twinPayload item) (twinState item = TWIN_COMPLETE) w1 = (r, w2)"
    by fastforce
  have run: "UpdateTwinTask_Execute P D task adapter sqs w =
      (sqs[i := q'], (apply_work_item P D adapter (TWIN_ITEM a) w1)\<lparr>twinItems := (twinItems w)(a := None)\<rparr>)"
    using assms(4,6) size(1) k pop(1)
    by (simp add: UpdateTwinTask_Execute_def sized_item_def free_work_item_def UpdateTwinTask_DeinitUpdateTwinTaskItem_def
        apply_kept items Let_def)
  have w1: "twinItems w1 a = Some item" using items assms(6) by simp
  note conf = apply_work_item_configuration [OF w1 upd, of D adapter]
  show ?thesis
    using run upd conf queued pop(3-6) K(2,4) by (intro exI conjI) auto
qed

text \<open>The updates that exist are the queued ones, each queued once.\<close>

definition twin_owned :: "nat \<Rightarrow> SyncQueue list \<Rightarrow> ('h, 'a) hub_env_scheme \<Rightarrow> nat list \<Rightarrow> bool" where
  "twin_owned i sqs w as \<longleftrightarrow>
     sync_items (sqs ! i) w = map sized_item as \<and> distinct as \<and> dom (twinItems w) = set as
     \<and> (\<forall>a \<in> set as. a < nextTwinItem w)"

text \<open>
  Runs of the twin callback of the SDK's thread and of the task, as long as no access has gone wrong.
  The callback's two allocations succeed, no lock call fails, and the budget's 32 bits have room.
\<close>

inductive twin_run ::
  "('v, 'o, 'r) parson \<Rightarrow> ('x, 'y, 'z, 'h) parson_doc \<Rightarrow> UpdateTwinTask \<Rightarrow>
    IoTHubAdapter \<times> SyncQueue list \<times> ('h, 'a) hub_env_scheme \<Rightarrow>
    IoTHubAdapter \<times> SyncQueue list \<times> ('h, 'a) hub_env_scheme \<Rightarrow> bool"
  for P D task s where
  start: "twin_run P D task s s"
| arrives: "twin_run P D task s (adapter, sqs, w) \<Longrightarrow> allocOk w (tick w) \<Longrightarrow> allocOk w (Suc (tick w)) \<Longrightarrow>
    booked_bytes w + 56 < 4294967296 \<Longrightarrow>
    IoTHubAdapter_DeviceTwinCallback state payload (Some adapter) sqs w = ((Some adapter', sqs'), w') \<Longrightarrow>
    twin_run P D task s (adapter', sqs', w')"
| executes: "twin_run P D task s (adapter, sqs, w) \<Longrightarrow>
    UpdateTwinTask_Execute P D task adapter sqs w = (sqs', w') \<Longrightarrow> \<not> fault w' \<Longrightarrow>
    twin_run P D task s (adapter, sqs', w')"

inductive_cases twin_run_cases: "twin_run P D task s (adapter, sqs, w)"

definition twin_queue_ok :: "nat \<Rightarrow> IoTHubAdapter \<times> SyncQueue list \<times> ('h, 'a) hub_env_scheme \<Rightarrow> bool" where
  "twin_queue_ok i s \<longleftrightarrow>
     (case s of (adapter, sqs, w) \<Rightarrow>
        twinUpdatesQueue adapter = i \<and> i < length sqs \<and> locks_work w \<and> sync_queues_ok sqs w
        \<and> (\<exists>as. twin_owned i sqs w as))"

lemma PushBack_results:
  assumes "locks_work w"
  shows "fst (fst (SyncQueue_PushBack q d n w)) \<noteq> SYNC_QUEUE_LOCK_EXCEPTION"
  using assms locks_work_def [of w]
  by (auto simp: SyncQueue_PushBack_def locked_def Let_def split_beta sys_defs PushBack_locks)

lemma DeviceTwin_owned:
  assumes ok: "twin_queue_ok i (adapter, sqs, w)" and "allocOk w (tick w)" "allocOk w (Suc (tick w))"
    and room: "booked_bytes w + 56 < 4294967296"
    and run: "IoTHubAdapter_DeviceTwinCallback state payload (Some adapter) sqs w = ((Some adapter', sqs'), w')"
  shows "twin_queue_ok i (adapter', sqs', w')"
proof (cases "payload = []")
  case True
  with run ok show ?thesis by (simp add: IoTHubAdapter_DeviceTwinCallback_def)
next
  case False
  obtain as where i: "twinUpdatesQueue adapter = i" "i < length sqs" and lw: "locks_work w" and sq: "sync_queues_ok sqs w"
    and own: "twin_owned i sqs w as"
    using ok by (auto simp: twin_queue_ok_def)
  let ?a = "nextTwinItem w"
  define item where "item = \<lparr>twinState = (if state = DEVICE_TWIN_UPDATE_COMPLETE then TWIN_COMPLETE else TWIN_PARTIAL),
                    twinPayload = takeWhile (\<lambda>c. c \<noteq> CHR 0x00) payload\<rparr>"
  define w1 where "w1 = w\<lparr>tick := Suc (Suc (tick w)), nextTwinItem := Suc ?a, twinItems := (twinItems w)(?a \<mapsto> item)\<rparr>"
  have make: "UpdateTwinTask_InitUpdateTwinTaskItem payload (state = DEVICE_TWIN_UPDATE_COMPLETE) w = ((True, TWIN_ITEM ?a), w1)"
    using assms(2,3) by (simp add: UpdateTwinTask_InitUpdateTwinTaskItem_def sys_defs w1_def item_def Let_def)
  obtain r q' w2 where push: "SyncQueue_PushBack (sqs ! i) (TWIN_ITEM ?a) sizeof_UpdateTwinTaskItem w1 = ((r, q'), w2)"
    by (metis prod.collapse)
  have w1: "sync_queues_ok sqs w1" "\<And>q. sync_items q w1 = sync_items q w" "locks_work w1"
    using queues_ok_same [OF sq, of w1] sq lw
    by (simp_all add: w1_def sync_queues_ok_def queues_ok_def locks_work_def)
  have "booked_bytes w1 + cost_of (sized_item ?a) < 4294967296"
    using room by (simp add: w1_def cost_of_def sized_item_def sizeof_UpdateTwinTaskItem_def)
  from sync_push_items [OF w1(1) i(2) this [unfolded sized_item_def] push]
  have facts: "sync_queues_ok (sqs[i := q']) w2" "queued w1 w2"
    "r = SYNC_OK \<longrightarrow> sync_items q' w2 = sync_items (sqs ! i) w1 @ [sized_item ?a]"
    "r \<noteq> SYNC_OK \<longrightarrow> sync_items q' w2 = sync_items (sqs ! i) w1"
    using PushBack_results [OF w1(3), of "sqs ! i" "TWIN_ITEM ?a" sizeof_UpdateTwinTaskItem] push
    by (auto simp: sized_item_def)
  have kept: "twinItems w2 = (twinItems w)(?a \<mapsto> item)" "nextTwinItem w2 = Suc ?a" "locks_work w2" "\<not> fault w2"
    using facts(2) w1(3) w1(1) by (auto simp: queued_def w1_def locks_work_def sync_queues_ok_def queues_ok_def)
  have fresh: "?a \<notin> set as" "\<forall>b \<in> set as. b < ?a" using own by (auto simp: twin_owned_def)
  show ?thesis
  proof (cases "r = SYNC_OK")
    case True
    with run False i(1) make push have res: "sqs' = sqs[i := q']" "w' = w2" "twinUpdatesQueue adapter' = i"
      by (auto simp: IoTHubAdapter_DeviceTwinCallback_def Let_def)
    have "twin_owned i sqs' w' (as @ [?a])"
      using own facts(3) True kept fresh w1(2) i(2)
      by (auto simp: twin_owned_def res less_Suc_eq)
    with res facts(1) kept i(2) show ?thesis by (auto simp: twin_queue_ok_def)
  next
    case refused: False
    let ?w3 = "w2\<lparr>twinItems := (twinItems w2)(?a := None)\<rparr>"
    from refused run False i(1) make push kept(1)
    have res: "sqs' = sqs[i := q']" "w' = ?w3" "twinUpdatesQueue adapter' = i"
      by (auto simp: IoTHubAdapter_DeviceTwinCallback_def UpdateTwinTask_DeinitUpdateTwinTaskItem_def Let_def)
    have "?a \<notin> dom (twinItems w)" using own fresh by (simp add: twin_owned_def)
    then have "twinItems ?w3 = twinItems w" by (auto simp: kept(1))
    moreover have "sync_queues_ok sqs' w'" "sync_items q' w' = sync_items q' w2"
      using queues_ok_same [OF facts(1), of ?w3] kept(4) by (simp_all add: res)
    ultimately have "twin_owned i sqs' w' as" "sync_queues_ok sqs' w'"
      using own facts(4) refused kept(2) fresh w1(2) i(2) by (auto simp: twin_owned_def res less_Suc_eq)
    with res kept i(2) show ?thesis by (auto simp: twin_queue_ok_def locks_work_def)
  qed
qed

lemma Execute_empty:
  assumes "locks_work w" and "sync_queues_ok sqs w" and "i < length sqs" and "updateQueue task = Some i"
    and "sync_items (sqs ! i) w = []" and "UpdateTwinTask_Execute P D task adapter sqs w = (sqs', w')"
  shows "sqs' = sqs" "ticked w w'"
proof -
  obtain k v where "SyncQueue_GetSize (sqs ! i) w = ((SYNC_OK, Some k), v)" "ticked w v"
    "unat k = length (sync_items (sqs ! i) w)"
    by (rule GetSize_success [OF assms(1-3)])
  with assms(4-6) show "sqs' = sqs" "ticked w w'" by (auto simp: UpdateTwinTask_Execute_def unat_eq_0)
qed

lemma Execute_owned:
  assumes "twin_queue_ok i (adapter, sqs, w)" and "updateQueue task = Some i"
    and run: "UpdateTwinTask_Execute P D task adapter sqs w = (sqs', w')" and alive: "\<not> fault w'"
  shows "twin_queue_ok i (adapter, sqs', w')"
proof -
  obtain as where i: "twinUpdatesQueue adapter = i" "i < length sqs" and lw: "locks_work w" and sq: "sync_queues_ok sqs w"
    and own: "twin_owned i sqs w as"
    using assms(1) by (auto simp: twin_queue_ok_def)
  show ?thesis
  proof (cases as)
    case Nil
    with own have "sync_items (sqs ! i) w = []" by (simp add: twin_owned_def)
    from Execute_empty [OF lw sq i(2) assms(2) this run] have res: "sqs' = sqs" "ticked w w'" .
    then have "twinItems w' = twinItems w" "nextTwinItem w' = nextTwinItem w" "lockOk w' = lockOk w"
      by (auto simp: ticked_def)
    with res ticked_sync [OF res(2)] own i lw sq show ?thesis
      by (auto simp: twin_queue_ok_def twin_owned_def locks_work_def)
  next
    case (Cons a bs)
    then have head: "sync_items (sqs ! i) w = sized_item a # map sized_item bs"
      using own by (simp add: twin_owned_def)
    have "a \<in> dom (twinItems w)" using own Cons by (simp add: twin_owned_def)
    then obtain item where item: "twinItems w a = Some item" by blast
    from Execute_installs [OF lw sq i(2) assms(2) head item, of P D adapter] run
    obtain q' w1 where res: "sqs' = sqs[i := q']"
      "w' = (apply_work_item P D adapter (TWIN_ITEM a) w1)\<lparr>twinItems := (twinItems w)(a := None)\<rparr>"
      and w1: "queued w w1" "sync_queues_ok (sqs[i := q']) w1" "sync_items q' w1 = map sized_item bs"
      by auto
    have same: "queueItems w' = queueItems w1" "nextItemAddress w' = nextItemAddress w1" "booked_bytes w' = booked_bytes w1"
      "lockOk w' = lockOk w1" "nextTwinItem w' = nextTwinItem w1"
      by (simp_all add: res(2) apply_kept)
    have ok: "sync_queues_ok sqs' w'" "sync_items q' w' = map sized_item bs"
      using queues_ok_same [OF w1(2) same(1-3) alive] w1(3) by (simp_all add: res(1))
    have "locks_work w'" using lw queued_keeps(7) [OF w1(1)] same(4) by (simp add: locks_work_def)
    moreover have "nextTwinItem w' = nextTwinItem w" using w1(1) same(5) by (auto simp: queued_def)
    then have "twin_owned i sqs' w' bs"
      using own ok(2) i(2) Cons by (auto simp: twin_owned_def res)
    ultimately show ?thesis using ok(1) i by (auto simp: twin_queue_ok_def res(1))
  qed
qed

text \<open>
  C6: a queued update is installed, once, and its memory freed.  When no lock call fails and the queue's
  first item is a live update, \<open>UpdateTwinTask_Execute\<close> takes it off the queue, leaves the configuration
  and the record of the last update as \<open>TwinConfiguration_Update\<close> makes them from the update's payload
  and state, and frees the update; the other updates and queues stay.  Beyond what the installation
  itself does, nothing can go wrong with memory: the final state is the installation's, less the item.
\<close>

theorem twin_update_is_installed:
  assumes "locks_work w" and "sync_queues_ok sqs w" and "i < length sqs" and "updateQueue task = Some i"
    and "sync_items (sqs ! i) w = sized_item a # xs" and "twinItems w a = Some item"
  shows "\<exists>q' w1 w2 r.
      UpdateTwinTask_Execute P D task adapter sqs w =
        (sqs[i := q'], (apply_work_item P D adapter (TWIN_ITEM a) w1)\<lparr>twinItems := (twinItems w)(a := None)\<rparr>)
    \<and> TwinConfiguration_Update P (twinPayload item) (twinState item = TWIN_COMPLETE) w1 = (r, w2)
    \<and> twinConfiguration (snd (UpdateTwinTask_Execute P D task adapter sqs w)) = twinConfiguration w2
    \<and> updateResult (snd (UpdateTwinTask_Execute P D task adapter sqs w)) = updateResult w2
    \<and> queued w w1 \<and> sync_queues_ok (sqs[i := q']) w1 \<and> sync_items q' w1 = xs \<and> booked_bytes w1 \<le> booked_bytes w
    \<and> (\<forall>j < length sqs. j \<noteq> i \<longrightarrow> sync_items (sqs ! j) w1 = sync_items (sqs ! j) w)"
  by (rule Execute_installs [OF assms])


text \<open>
  C37: an update that could not be allocated is queued all the same, and the task crashes on it.  When one
  of the callback's two allocations fails and the queue accepts the item, the adapter reports that it has a
  configuration, and the next \<open>UpdateTwinTask_Execute\<close> reads through NULL or freed memory.
\<close>

theorem unallocated_update_crashes:
  assumes "locks_work w" and "sync_queues_ok sqs w" and "twinUpdatesQueue adapter = i" and "i < length sqs"
    and "updateQueue task = Some i" and "sync_items (sqs ! i) w = []" and "twinItems w (nextTwinItem w) = None"
    and "booked_bytes w + 56 < 4294967296" and "payload \<noteq> []"
    and "\<not> allocOk w (tick w) \<or> \<not> allocOk w (Suc (tick w))"
    and "IoTHubAdapter_DeviceTwinCallback state payload (Some adapter) sqs w = ((Some adapter', sqs'), w')"
    and "sync_items (sqs' ! i) w' \<noteq> []"
  shows "hasTwinConfiguration adapter' \<and> fault (snd (UpdateTwinTask_Execute P D task adapter' sqs' w'))"
proof -
  obtain d w1 where make: "UpdateTwinTask_InitUpdateTwinTaskItem payload (state = DEVICE_TWIN_UPDATE_COMPLETE) w = ((False, d), w1)"
    and d: "d = NULL_POINTER \<or> d = TWIN_ITEM (nextTwinItem w)"
    and w1: "w1 = w\<lparr>tick := tick w1, nextTwinItem := nextTwinItem w1\<rparr>"
    using assms(10) by (cases "allocOk w (tick w)") (auto simp: UpdateTwinTask_InitUpdateTwinTaskItem_def sys_defs Let_def)
  obtain r q' w2 where push: "SyncQueue_PushBack (sqs ! i) d sizeof_UpdateTwinTaskItem w1 = ((r, q'), w2)"
    by (metis prod.collapse)
  have same: "queueItems w1 = queueItems w" "nextItemAddress w1 = nextItemAddress w" "booked_bytes w1 = booked_bytes w"
    "fault w1 = fault w" "lockOk w1 = lockOk w" "twinItems w1 = twinItems w"
    by (subst w1, simp)+
  have "\<not> fault w" using assms(2) by (simp add: sync_queues_ok_def queues_ok_def)
  then have ok1: "sync_queues_ok sqs w1" "sync_items (sqs ! i) w1 = []" "locks_work w1"
    using queues_ok_same [OF assms(2) same(1-3)] same(4,5) assms(1,6) by (simp_all add: locks_work_def)
  have "booked_bytes w1 + cost_of (d, sizeof_UpdateTwinTaskItem) < 4294967296"
    using assms(8) same(3) by (simp add: cost_of_def sizeof_UpdateTwinTaskItem_def)
  from sync_push_items [OF ok1(1) assms(4) this push] ok1(2)
  have facts: "sync_queues_ok (sqs[i := q']) w2" "queued w1 w2"
    "r = SYNC_OK \<longrightarrow> sync_items q' w2 = [(d, sizeof_UpdateTwinTaskItem)]"
    "r \<noteq> SYNC_OK \<longrightarrow> sync_items q' w2 = []"
    using PushBack_results [OF ok1(3), of "sqs ! i" d sizeof_UpdateTwinTaskItem] push by auto
  have sqs': "sqs' = sqs[i := q']"
    using assms(3,9,11) make push by (auto simp: IoTHubAdapter_DeviceTwinCallback_def Let_def split: if_splits)
  have r: "r = SYNC_OK"
  proof (rule ccontr)
    assume "r \<noteq> SYNC_OK"
    with assms(3,9,11) make push have "queueItems w' = queueItems w2"
      by (auto simp: IoTHubAdapter_DeviceTwinCallback_def UpdateTwinTask_DeinitUpdateTwinTaskItem_def Let_def
          split: if_splits queue_data.splits)
    then have "sync_items q' w' = sync_items q' w2" by (simp add: sync_items_def contents_def addresses_def)
    with \<open>r \<noteq> SYNC_OK\<close> facts(4) sqs' assms(4,12) show False by simp
  qed
  with assms(3,9,11) make push have w': "w' = w2" "hasTwinConfiguration adapter'"
    by (auto simp: IoTHubAdapter_DeviceTwinCallback_def Let_def)
  have lw: "locks_work w'" and items: "sync_items (sqs' ! i) w' = [(d, sizeof_UpdateTwinTaskItem)]"
    and ok: "sync_queues_ok sqs' w'" and i: "i < length sqs'"
    using queued_keeps(7) [OF facts(2)] ok1(3) facts(1,3) r w' sqs' assms(4) by simp_all
  obtain k v where size: "SyncQueue_GetSize (sqs' ! i) w' = ((SYNC_OK, Some k), v)" "ticked w' v"
    "unat k = length (sync_items (sqs' ! i) w')"
    by (rule GetSize_success [OF lw ok i])
  note K = ticked_sync [OF size(2)]
  have k: "k \<noteq> 0" using size(3) items by auto
  have v: "locks_work v" "sync_queues_ok sqs' v" "sync_items (sqs' ! i) v = (d, sizeof_UpdateTwinTaskItem) # []"
    using lw ok items K by (simp_all add: queued_keeps(7) [OF K(3)])
  obtain q2 w3 where pop: "SyncQueue_PopFront (sqs' ! i) v = ((SYNC_OK, Some (d, sizeof_UpdateTwinTaskItem), q2), w3)" "queued v w3"
    by (rule PopFront_success [OF v(1,2) i v(3)]) blast
  have "twinItems w3 = twinItems w"
    using pop(2) size(2) facts(2) w'(1) same(6) by (auto simp: queued_def ticked_def)
  then have "apply_work_item P D adapter' d w3 = w3\<lparr>fault := True\<rparr>"
    using d assms(7) by (auto simp: apply_work_item_def)
  then have "fault (free_work_item (Some d) (apply_work_item P D adapter' d w3))"
    using d by (auto simp: free_work_item_def UpdateTwinTask_DeinitUpdateTwinTaskItem_def)
  with w'(2) assms(5) size(1) k pop(1) show ?thesis
    by (simp add: UpdateTwinTask_Execute_def Let_def)
qed

section \<open>Witnesses\<close>

lemma Consume_tick: "tick w \<le> tick (snd (MemoryMonitor_Consume n w))"
  by (simp add: MemoryMonitor_Consume_def InternalMemoryMonitor_Consume_def TwinConfiguration_GetMaxLocalCacheSize_def
      TwinConfiguration_GetFieldInteger_def get_field_def locked_def sys_defs Let_def split_beta split: option.split)

lemma PushBack_accepts:
  assumes "locks_work w" and "\<And>k. tick w \<le> k \<Longrightarrow> allocOk w k"
    and "currentConsumptionInBytes w + Queue_CalculateItemSize n \<le> maxLocalCacheSize (twinConfiguration w)"
  shows "fst (fst (SyncQueue_PushBack q d n w)) = SYNC_OK"
proof -
  let ?w = "next_tick w"
  have lw: "locks_work ?w" using assms(1) by (simp add: locks_work_def)
  obtain rc w1 where c: "MemoryMonitor_Consume (Queue_CalculateItemSize n) ?w = (rc, w1)" by fastforce
  have "rc = MEMORY_MONITOR_OK"
    using Consume_success(1) [OF lw, of "Queue_CalculateItemSize n"] assms(3) by (simp add: c)
  moreover have "allocOk w1 = allocOk ?w" using Consume_metered [of ?w "Queue_CalculateItemSize n"] by (auto simp: c metered_def)
  then have "allocOk w1 (tick w1)"
    using assms(2) Consume_tick [of ?w "Queue_CalculateItemSize n", unfolded c] by (simp add: next_tick_def)
  ultimately have "fst (fst (Queue_PushBack (innerQueue q) d n ?w)) = QUEUE_OK"
    using c by (simp add: Queue_PushBack_def sys_malloc_def split_beta)
  then show ?thesis
    using assms(1) locks_work_def [of w]
    by (auto simp: SyncQueue_PushBack_def locked_def Let_def split_beta sys_defs PushBack_locks)
qed

definition one_twin :: "(IoTHubAdapter option \<times> SyncQueue list) \<times> nat list hub_env" where
  "one_twin = IoTHubAdapter_DeviceTwinCallback DEVICE_TWIN_UPDATE_COMPLETE ''twin'' (Some fresh_adapter) [new_sync 0] (calm_hub_with [])"

definition twin_task :: UpdateTwinTask where
  "twin_task = snd (UpdateTwinTask_Init 0)"

lemma twin_task_queue [simp]: "updateQueue twin_task = Some 0"
  by (simp add: twin_task_def UpdateTwinTask_Init_def)

lemma calm_hub_queues: "sync_queues_ok [new_sync 0] (calm_hub_with h)" "sync_items (new_sync 0) (calm_hub_with h) = []"
  by (simp_all add: sync_queues_ok_def new_sync_def queues_ok_def held_def sync_items_def calm_hub_with_def
      calm_queue_env_with_def calm_monitor_with_def calm_counters_with_def calm_twin_with_def
      calm_collectors_with_def calm_def env.defs docs_env.defs log_env.defs auth_env.defs local_env.defs
      collectors_env.defs twin_env.defs counter_env.defs monitor_env.defs queue_env.defs hub_env.defs)

lemma calm_twin_queue: "twin_queue_ok 0 (fresh_adapter, [new_sync 0], calm_hub_with h)"
  using calm_hub_queues
  by (auto simp: twin_queue_ok_def twin_owned_def fresh_adapter_def intro!: exI [of _ "[]"])

lemma calm_hub_tick [simp]: "tick (calm_hub_with h) = 0"
  by (simp add: calm_hub_with_def calm_queue_env_with_def calm_monitor_with_def calm_counters_with_def calm_twin_with_def
      calm_collectors_with_def calm_def env.defs docs_env.defs log_env.defs auth_env.defs local_env.defs
      collectors_env.defs twin_env.defs counter_env.defs monitor_env.defs queue_env.defs hub_env.defs)

lemma one_twin_facts:
  obtains sq w where "one_twin = ((Some (fresh_adapter\<lparr>hasTwinConfiguration := True\<rparr>), [sq]), w)"
    "locks_work w" "sync_queues_ok [sq] w" "sync_items sq w = [sized_item 0]"
    "twinItems w 0 = Some \<lparr>twinState = TWIN_COMPLETE, twinPayload = ''twin''\<rparr>"
proof -
  let ?w = "calm_hub_with [] :: nat list hub_env"
  define w1 where "w1 = ?w\<lparr>tick := Suc (Suc (tick ?w)), nextTwinItem := 1,
      twinItems := [0 \<mapsto> \<lparr>twinState = TWIN_COMPLETE, twinPayload = ''twin''\<rparr>]\<rparr>"
  have make: "UpdateTwinTask_InitUpdateTwinTaskItem ''twin'' True ?w = ((True, TWIN_ITEM 0), w1)"
    by (simp add: UpdateTwinTask_InitUpdateTwinTaskItem_def sys_defs w1_def Let_def)
  obtain r sq w where push: "SyncQueue_PushBack (new_sync 0) (TWIN_ITEM 0) sizeof_UpdateTwinTaskItem w1 = ((r, sq), w)"
    by (metis prod.collapse)
  have w1: "sync_queues_ok [new_sync 0] w1" "sync_items (new_sync 0) w1 = []" "locks_work w1"
    using queues_ok_same(1) [where w' = w1, OF calm_hub_queues(1) [of "[] :: nat list"]]
      queues_ok_same(2) [where w' = w1 and q = "new_sync 0", OF calm_hub_queues(1) [of "[] :: nat list"]] calm_hub_queues(2) [of "[] :: nat list"]
    by (simp_all add: w1_def locks_work_def)
  have fields: "currentConsumptionInBytes w1 = 0" "twinConfiguration w1 = calm_configuration" "\<And>k. allocOk w1 k"
    by (simp_all add: w1_def)
  have "fst (fst (SyncQueue_PushBack (new_sync 0) (TWIN_ITEM 0) sizeof_UpdateTwinTaskItem w1)) = SYNC_OK"
    using w1(3) by (rule PushBack_accepts)
      (simp_all add: fields calm_configuration_def default_defs Queue_CalculateItemSize_def sizeof_UpdateTwinTaskItem_def
        sizeof_QueueItem_def sizeof_pointer_def)
  then have r: "r = SYNC_OK" by (simp add: push)
  from sync_push_items [OF w1(1), of 0, simplified, OF _ push] fields(1) w1(2) r
  have facts: "sync_queues_ok [sq] w" "queued w1 w" "sync_items sq w = [sized_item 0]"
    by (simp_all add: cost_of_def sizeof_UpdateTwinTaskItem_def sized_item_def)
  have "one_twin = ((Some (fresh_adapter\<lparr>hasTwinConfiguration := True\<rparr>), [sq]), w)"
    using make push r by (simp add: one_twin_def IoTHubAdapter_DeviceTwinCallback_def fresh_adapter_def Let_def)
  moreover have "locks_work w" using queued_keeps(7) [OF facts(2)] w1(3) by simp
  moreover have "twinItems w 0 = Some \<lparr>twinState = TWIN_COMPLETE, twinPayload = ''twin''\<rparr>"
    using facts(2) by (auto simp: queued_def w1_def)
  ultimately show thesis using facts that by blast
qed

lemma twin_update_is_installed_witness:
  "\<exists>sq w sq' (w1 :: nat list hub_env) w2 r.
     snd (fst one_twin) = [sq] \<and> snd one_twin = w
     \<and> twinConfiguration (snd (UpdateTwinTask_Execute (tree_parson (sample_twin good_twin)) list_doc twin_task fresh_adapter [sq] w))
       = twinConfiguration w2
     \<and> TwinConfiguration_Update (tree_parson (sample_twin good_twin)) ''twin'' True w1 = (r, w2) \<and> sync_items sq' w1 = []"
proof -
  obtain sq w where one: "one_twin = ((Some (fresh_adapter\<lparr>hasTwinConfiguration := True\<rparr>), [sq]), w)"
    "locks_work w" "sync_queues_ok [sq] w" "sync_items sq w = [sized_item 0]"
    "twinItems w 0 = Some \<lparr>twinState = TWIN_COMPLETE, twinPayload = ''twin''\<rparr>"
    by (rule one_twin_facts)
  have items: "sync_items ([sq] ! 0) w = sized_item 0 # []" using one(4) by simp
  from twin_update_is_installed [OF one(2,3) _ twin_task_queue items one(5),
      of "tree_parson (sample_twin good_twin)" list_doc fresh_adapter, simplified]
  obtain q' and w1 :: "nat list hub_env" and w2 r where
    "TwinConfiguration_Update (tree_parson (sample_twin good_twin)) ''twin'' True w1 = (r, w2)"
    "twinConfiguration (snd (UpdateTwinTask_Execute (tree_parson (sample_twin good_twin)) list_doc twin_task fresh_adapter [sq] w))
       = twinConfiguration w2" "sync_items q' w1 = []"
    by blast
  note found = this
  show ?thesis
    by (rule exI [of _ sq], rule exI [of _ w], rule exI [of _ q'], rule exI [of _ w1], rule exI [of _ w2],
        rule exI [of _ r]) (simp add: one(1) found)
qed


text \<open>The second allocation of the callback fails.\<close>

lemma unallocated_update_crashes_witness:
  "\<exists>adapter sqs w. IoTHubAdapter_DeviceTwinCallback DEVICE_TWIN_UPDATE_COMPLETE ''twin'' (Some fresh_adapter) [new_sync 0]
       (calm_hub_with []\<lparr>allocOk := (\<lambda>n. n \<noteq> 1)\<rparr>) = ((Some adapter, sqs), w)
     \<and> fault (snd (UpdateTwinTask_Execute (tree_parson (\<lambda>_. None)) list_doc twin_task adapter sqs w))"
proof -
  let ?w = "calm_hub_with []\<lparr>allocOk := (\<lambda>n. n \<noteq> 1)\<rparr> :: nat list hub_env"
  define w1 where "w1 = ?w\<lparr>tick := Suc (Suc (tick ?w)), nextTwinItem := 1\<rparr>"
  have make: "UpdateTwinTask_InitUpdateTwinTaskItem ''twin'' True ?w = ((False, TWIN_ITEM 0), w1)"
    by (simp add: UpdateTwinTask_InitUpdateTwinTaskItem_def sys_defs w1_def Let_def)
  obtain r sq w where push: "SyncQueue_PushBack (new_sync 0) (TWIN_ITEM 0) sizeof_UpdateTwinTaskItem w1 = ((r, sq), w)"
    by (metis prod.collapse)
  have start: "sync_queues_ok [new_sync 0] ?w" "sync_items (new_sync 0) ?w = []" "locks_work ?w"
    using queues_ok_same(1) [where w' = ?w, OF calm_hub_queues(1) [of "[] :: nat list"]]
      queues_ok_same(2) [where w' = ?w and q = "new_sync 0", OF calm_hub_queues(1) [of "[] :: nat list"]] calm_hub_queues(2) [of "[] :: nat list"]
    by (simp_all add: locks_work_def)
  have w1: "sync_queues_ok [new_sync 0] w1" "sync_items (new_sync 0) w1 = []" "locks_work w1"
    using queues_ok_same(1) [where w' = w1, OF calm_hub_queues(1) [of "[] :: nat list"]]
      queues_ok_same(2) [where w' = w1 and q = "new_sync 0", OF calm_hub_queues(1) [of "[] :: nat list"]] calm_hub_queues(2) [of "[] :: nat list"]
    by (simp_all add: w1_def locks_work_def)
  have fields: "currentConsumptionInBytes w1 = 0" "twinConfiguration w1 = calm_configuration" "tick w1 = 2"
    "\<And>k. 2 \<le> k \<Longrightarrow> allocOk w1 k"
    by (simp_all add: w1_def)
  have "fst (fst (SyncQueue_PushBack (new_sync 0) (TWIN_ITEM 0) sizeof_UpdateTwinTaskItem w1)) = SYNC_OK"
    using w1(3) by (rule PushBack_accepts)
      (simp_all add: fields calm_configuration_def default_defs Queue_CalculateItemSize_def sizeof_UpdateTwinTaskItem_def
        sizeof_QueueItem_def sizeof_pointer_def)
  then have r: "r = SYNC_OK" by (simp add: push)
  from sync_push_items [OF w1(1), of 0, simplified, OF _ push] fields(1) w1(2) r
  have facts: "sync_items sq w = [sized_item 0]"
    by (simp_all add: cost_of_def sizeof_UpdateTwinTaskItem_def sized_item_def)
  have run: "IoTHubAdapter_DeviceTwinCallback DEVICE_TWIN_UPDATE_COMPLETE ''twin'' (Some fresh_adapter) [new_sync 0] ?w
      = ((Some (fresh_adapter\<lparr>hasTwinConfiguration := True\<rparr>), [sq]), w)"
    using make push r by (simp add: IoTHubAdapter_DeviceTwinCallback_def fresh_adapter_def Let_def)
  have "\<not> allocOk ?w (tick ?w) \<or> \<not> allocOk ?w (Suc (tick ?w))" by simp
  from unallocated_update_crashes [OF start(3,1) _ _ twin_task_queue _ _ _ _ this run] start(2) facts run
  show ?thesis by (auto simp: fresh_adapter_def)
qed

end
