(* ===== verification/Event_Publisher_Task.thy ===== *)
theory Event_Publisher_Task
  imports Update_Twin_Task
begin

text \<open>
  The task that sends the collected events, \<^verbatim>\<open>src/agent/src/tasks/event_publisher_task.c\<close>.  It keeps
  pointers to three queues, here positions in the list of the agent's queues, and to the adapter, an
  argument of the operations.  A send may renew the connection and so wait; \<open>sleeps k\<close> are the SDK's
  callbacks during the \<open>k\<close>-th send of an execution.
\<close>

record EventPublisherTask =
  highPriorityEventQueue :: "nat option"
  lowPriorityEventQueue :: "nat option"
  operationalEventsQueue :: "nat option"
  iothubAdapterSet :: bool
  highPriorityQueueLastExecution :: time_t
  lowPriorityQueueLastExecution :: time_t

section \<open>Operations\<close>

definition EventPublisherTask_Init ::
  "nat \<Rightarrow> nat \<Rightarrow> nat \<Rightarrow> 'a env_scheme \<Rightarrow> (bool \<times> EventPublisherTask) \<times> 'a env_scheme" where
  "EventPublisherTask_Init high low opEvents w =
     (let (now1, w1) = sys_time w; (now2, w2) = sys_time w1 in
      ((True, \<lparr>highPriorityEventQueue = Some high, lowPriorityEventQueue = Some low,
               operationalEventsQueue = Some opEvents, iothubAdapterSet = True,
               highPriorityQueueLastExecution = now1, lowPriorityQueueLastExecution = now2\<rparr>), w2))"

definition EventPublisherTask_Deinit :: "EventPublisherTask \<Rightarrow> EventPublisherTask" where
  "EventPublisherTask_Deinit task =
     task\<lparr>lowPriorityEventQueue := None, highPriorityEventQueue := None, iothubAdapterSet := False\<rparr>"

text \<open>Sending one message made of the operational events, the main queue and the padding queue.\<close>

definition EventPublisherTask_SendEvents ::
  "('v, 'o, 'r) parson \<Rightarrow> ('x, 'y, 'z, 'h) parson_doc \<Rightarrow> bool \<Rightarrow> (nat \<Rightarrow> hub_event list) \<Rightarrow> EventPublisherTask \<Rightarrow>
    nat option \<Rightarrow> nat option \<Rightarrow> IoTHubAdapter \<Rightarrow> SyncQueue list \<Rightarrow> ('h, 'a) hub_env_scheme \<Rightarrow>
    (bool \<times> IoTHubAdapter \<times> SyncQueue list) \<times> ('h, 'a) hub_env_scheme" where
  "EventPublisherTask_SendEvents P D mqtt sleeps task mainQueue paddingQueue adapter sqs w =
     (case (operationalEventsQueue task, mainQueue, paddingQueue) of
        (Some opEvents, Some main, Some padding) \<Rightarrow>
          (let ((r, queueSize), w1) = SyncQueue_GetSize (sqs ! main) w in
           if r \<noteq> SYNC_OK then ((False, adapter, sqs), w1)
           else if queueSize = Some 0 then ((True, adapter, sqs), w1)
           else
             let ((serializationResult, buffer, sqs1), w2) =
                   MessageSerializer_CreateSecurityMessage D [opEvents, main, padding] sqs w1 in
             if serializationResult \<noteq> MESSAGE_SERIALIZER_OK \<and> serializationResult \<noteq> MESSAGE_SERIALIZER_PARTIAL
             then ((False, adapter, sqs1), w2)
             else case buffer of
               None \<Rightarrow> ((True, adapter, sqs1), w2)
             | Some message \<Rightarrow> IoTHubAdapter_SendMessageAsync P mqtt sleeps adapter message sqs1 w2)
      | _ \<Rightarrow> ((False, adapter, sqs), w\<lparr>fault := True\<rparr>))"

definition EventPublisherTask_Execute ::
  "('v, 'o, 'r) parson \<Rightarrow> ('x, 'y, 'z, 'h) parson_doc \<Rightarrow> bool \<Rightarrow> (nat \<Rightarrow> nat \<Rightarrow> hub_event list) \<Rightarrow>
    EventPublisherTask \<Rightarrow> IoTHubAdapter \<Rightarrow> SyncQueue list \<Rightarrow> ('h, 'a) hub_env_scheme \<Rightarrow>
    (EventPublisherTask \<times> IoTHubAdapter \<times> SyncQueue list) \<times> ('h, 'a) hub_env_scheme" where
  "EventPublisherTask_Execute P D mqtt sleeps task adapter sqs w =
     (let ((t1, high), w1) = TwinConfiguration_GetHighPriorityMessageFrequency w in
      if t1 \<noteq> TWIN_OK then ((task, adapter, sqs), w1)
      else let ((t2, low), w2) = TwinConfiguration_GetLowPriorityMessageFrequency w1 in
      if t2 \<noteq> TWIN_OK then ((task, adapter, sqs), w2)
      else let ((t3, size), w3) = TwinConfiguration_GetMaxMessageSize w2 in
      if t3 \<noteq> TWIN_OK then ((task, adapter, sqs), w3)
      else let ((m, consumption), w4) = MemoryMonitor_CurrentConsumption w3 in
      if m \<noteq> MEMORY_MONITOR_OK then ((task, adapter, sqs), w4)
      else
        let (currentTime, w5) = sys_time w4;
            highPriorityQueueFrequency = (case high of None \<Rightarrow> 0 | Some n \<Rightarrow> n);
            lowPriorityQueueFrequency = (case low of None \<Rightarrow> 0 | Some n \<Rightarrow> n);
            maxSize = (case size of None \<Rightarrow> 0 | Some n \<Rightarrow> n);
            currentMemoryConsumption = (case consumption of None \<Rightarrow> 0 | Some n \<Rightarrow> n);
            ((task1, adapter1, sqs1), w6) =
              (if currentMemoryConsumption > maxSize
               then let ((_, a, s), v) = EventPublisherTask_SendEvents P D mqtt (sleeps 0) task
                          (highPriorityEventQueue task) (lowPriorityEventQueue task) adapter sqs w5
                    in ((task\<lparr>highPriorityQueueLastExecution := currentTime\<rparr>, a, s), v)
               else ((task, adapter, sqs), w5));
            highPriorityQueueTimeDiff = TimeUtils_GetTimeDiff w6 currentTime (highPriorityQueueLastExecution task1);
            lowPriorityQueueTimeDiff = TimeUtils_GetTimeDiff w6 currentTime (lowPriorityQueueLastExecution task1);
            ((task2, adapter2, sqs2), w7) =
              (if highPriorityQueueTimeDiff > highPriorityQueueFrequency
               then let ((_, a, s), v) = EventPublisherTask_SendEvents P D mqtt (sleeps 1) task1
                          (highPriorityEventQueue task1) (lowPriorityEventQueue task1) adapter1 sqs1 w6
                    in ((task1\<lparr>highPriorityQueueLastExecution := currentTime\<rparr>, a, s), v)
               else ((task1, adapter1, sqs1), w6))
        in
          if lowPriorityQueueTimeDiff > lowPriorityQueueFrequency
          then let ((_, a, s), v) = EventPublisherTask_SendEvents P D mqtt (sleeps 2) task2
                     (lowPriorityEventQueue task2) (highPriorityEventQueue task2) adapter2 sqs2 w7
               in ((task2\<lparr>lowPriorityQueueLastExecution := currentTime\<rparr>, a, s), v)
          else ((task2, adapter2, sqs2), w7))"

section \<open>What building a message leaves alone\<close>

text \<open>The adapter's world and the configuration's constants.\<close>

definition hub_kept :: "('h, 'a) queue_env_scheme \<Rightarrow> ('h, 'a) queue_env_scheme \<Rightarrow> bool" where
  "hub_kept w w' \<longleftrightarrow> queue_env.more w' = queue_env.more w \<and> useDps w' = useDps w \<and> lockOk w' = lockOk w
     \<and> twinConfiguration w' = twinConfiguration w \<and> clock w' = clock w \<and> castOut w' = castOut w"

lemma hub_kept_trans [trans]: "hub_kept w w1 \<Longrightarrow> hub_kept w1 w2 \<Longrightarrow> hub_kept w w2"
  by (simp add: hub_kept_def)

lemma hub_kept_intros:
  "hub_kept w w" "ticked w w' \<Longrightarrow> hub_kept w w'" "doc_frame w w' \<Longrightarrow> hub_kept w w'" "hub_kept w (w\<lparr>fault := b\<rparr>)"
  "accounted w w' \<Longrightarrow> hub_kept w w'" "hub_kept w (write_item p f w)" "hub_kept w (free_item p w)"
  by (auto simp: hub_kept_def ticked_def doc_frame_def accounted_def write_item_def free_item_def split: option.split)

lemma PopFrontIf_hub: "hub_kept w (snd (Queue_PopFrontIf q c w))"
proof -
  have pop: "hub_kept w (snd (Queue_PopFront q w))"
  proof (cases "item_at (firstItem q) w")
    case (Some item)
    obtain q1 w1 where u: "unlink_first q item w = (q1, w1)" by fastforce
    obtain r w2 where rel: "MemoryMonitor_Release (Queue_CalculateItemSize (itemDataSize item)) w1 = (r, w2)" by fastforce
    have "hub_kept w w1" using u hub_kept_intros(1,6) by (auto simp: unlink_first_def split: if_splits)
    also have "hub_kept w1 w2"
      using hub_kept_intros(5) [OF metered_accounted [OF Release_metered [of w1 "Queue_CalculateItemSize (itemDataSize item)"]]] rel
      by simp
    also have "hub_kept w2 (free_item (firstItem q) w2)" by (rule hub_kept_intros)
    finally show ?thesis using Some u rel by (simp add: Queue_PopFront_def hub_kept_intros)
  qed (simp add: Queue_PopFront_def hub_kept_intros)
  then show ?thesis by (simp add: Queue_PopFrontIf_def hub_kept_intros split: option.split)
qed

lemma sync_hub:
  "hub_kept w (snd (SyncQueue_PopFrontIf sq c w))" "hub_kept w (snd (SyncQueue_GetSize sq w))"
proof -
  show "hub_kept w (snd (SyncQueue_PopFrontIf sq c w))"
    unfolding SyncQueue_PopFrontIf_def
    by (rule locked_rel [where R = hub_kept]) (auto intro: hub_kept_intros hub_kept_trans simp: split_beta PopFrontIf_hub)
  show "hub_kept w (snd (SyncQueue_GetSize sq w))"
    unfolding SyncQueue_GetSize_def
    by (rule locked_rel [where R = hub_kept]) (auto intro: hub_kept_intros hub_kept_trans simp: split_beta)
qed

lemma append_event_hub: "hub_kept w (snd (append_event D ev d w))"
proof (cases d)
  case (EVENT s)
  obtain r x w1 where init: "JsonObjectWriter_InitFromString D s w = ((r, x), w1)" by (metis prod.collapse)
  have w1: "hub_kept w w1"
    using init by (auto simp: JsonObjectWriter_InitFromString_def JsonObjectWriter_new_def sys_defs on_docs_def hub_kept_def
        split_beta Let_def split: option.splits if_splits)
  have rest: "hub_kept w1 (JsonObjectWriter_Deinit D y (snd (JsonArrayWriter_AddObject D ev z w1)))" for y z
    by (simp add: JsonArrayWriter_AddObject_def JsonObjectWriter_Deinit_def on_docs_def hub_kept_def split_beta Let_def)
  show ?thesis
    using init EVENT w1
    by (auto simp: append_event_def split_beta hub_kept_trans [OF w1 rest] split: JsonWriterResult.split option.split)
qed (simp_all add: append_event_def hub_kept_intros)

lemma AddSingleEvent_hub: "hub_kept w (snd (MessageSerializer_AddSingleEvent D q ev cur mx w))"
proof -
  let ?c = "sizeLimitationCondition \<lparr>currentMessageSize = cur, maxMessageSizeLimit = mx\<rparr>"
  obtain r out q1 w1 where pop: "SyncQueue_PopFrontIf q ?c w = ((r, out, q1), w1)" by (metis prod.collapse)
  have w1: "hub_kept w w1" using sync_hub(1) [of w q ?c] pop by simp
  have "hub_kept w (snd (append_event D ev d w1))" for d
    by (rule hub_kept_trans [OF w1 append_event_hub])
  with w1 pop show ?thesis
    by (auto simp: MessageSerializer_AddSingleEvent_def Let_def split_beta split: option.split)
qed

lemma add_events_while_hub: "hub_kept w (snd (add_events_while D q ev n cur mx w))"
proof (induction D q ev n cur mx w rule: add_events_while.induct)
  case (1 D q ev n cur mx w)
  obtain r q1 cur1 w1 where add: "MessageSerializer_AddSingleEvent D q ev cur mx w = ((r, q1, cur1), w1)"
    by (metis prod.collapse)
  have w1: "hub_kept w w1" using AddSingleEvent_hub [of w D q ev cur mx] add by simp
  obtain r2 n1 w2 where size: "SyncQueue_GetSize q1 w1 = ((r2, n1), w2)" by (metis prod.collapse)
  have w2: "hub_kept w w2" using hub_kept_trans [OF w1] sync_hub(2) [of w1 q1] size by simp
  show ?case
  proof (cases "n > 0 \<and> cur < mx")
    case False
    then show ?thesis by (simp add: add_events_while.simps hub_kept_intros)
  next
    case True
    show ?thesis
    proof (cases "r = MESSAGE_SERIALIZER_OK \<and> r2 = SYNC_OK \<and> n1 \<noteq> None")
      case go: True
      then obtain k where k: "n1 = Some k" by blast
      have "hub_kept w2 (snd (add_events_while D q1 ev k cur1 mx w2))"
        by (rule 1 [OF _ add [symmetric] refl _ refl size [symmetric] refl _ refl]) (use True go k in auto)
      with w2 True add size go k show ?thesis
        by (simp add: add_events_while.simps [of D q] hub_kept_trans [OF w2])
    next
      case False
      with True add size w1 w2 show ?thesis
        by (auto simp: add_events_while.simps [of D q] split: MessageSerializerResultValues.split
            SyncQueueResult.split QueueResultValues.split option.split)
    qed
  qed
qed

lemma AddEventsFromQueue_hub: "hub_kept w (snd (MessageSerializer_AddEventsFromQueue D q ev cur mx w))"
proof -
  obtain r n w1 where size: "SyncQueue_GetSize q w = ((r, n), w1)" by (metis prod.collapse)
  have w1: "hub_kept w w1" using sync_hub(2) [of w q] size by simp
  with size show ?thesis
    by (auto simp: MessageSerializer_AddEventsFromQueue_def hub_kept_trans [OF w1 add_events_while_hub]
        split: SyncQueueResult.split QueueResultValues.split option.split)
qed

lemma add_events_for_hub: "hub_kept w (snd (add_events_for D is sqs ev r cur mx w))"
proof (induction "is" arbitrary: sqs r cur w)
  case (Cons i js)
  show ?case
  proof (cases "cur < mx")
    case True
    obtain r1 q1 cur1 w1 where add: "MessageSerializer_AddEventsFromQueue D (sqs ! i) ev cur mx w = ((r1, q1, cur1), w1)"
      by (metis prod.collapse)
    have "hub_kept w w1" using AddEventsFromQueue_hub [of w D "sqs ! i" ev cur mx] add by simp
    from hub_kept_trans [OF this Cons.IH] True add show ?thesis by simp
  qed (simp add: Cons.IH)
qed (simp add: hub_kept_intros)

lemma GenerateEventList_hub: "hub_kept w (snd (MessageSerializer_GenerateEventList D is sqs wr w))"
proof -
  obtain t m w1 where size: "TwinConfiguration_GetMaxMessageSize w = ((t, m), w1)" by (metis prod.collapse)
  have w1: "hub_kept w w1"
    using hub_kept_intros(2) [OF GetField_ticked, of w "maxMessageSize (twinConfiguration w)"] size
    by (simp add: TwinConfiguration_GetMaxMessageSize_def TwinConfiguration_GetFieldInteger_def)
  obtain r x w2 where init: "JsonArrayWriter_Init D w1 = ((r, x), w2)" by (metis prod.collapse)
  have "hub_kept w1 w2"
    using init by (auto simp: JsonArrayWriter_Init_def sys_defs on_docs_def hub_kept_def
        split_beta Let_def split: option.splits if_splits)
  then have w2: "hub_kept w w2" by (rule hub_kept_trans [OF w1])
  have rest: "hub_kept v (JsonArrayWriter_Deinit D y (snd (JsonObjectWriter_WriteArray D wr k z v)))"
    for v :: "('a, 'b) queue_env_scheme" and y z k
    by (simp add: JsonObjectWriter_WriteArray_def JsonArrayWriter_Deinit_def on_docs_def hub_kept_def split_beta Let_def)
  show ?thesis
    using w1 w2 size init hub_kept_trans [OF hub_kept_trans [OF w2 add_events_for_hub] rest]
    by (auto simp: MessageSerializer_GenerateEventList_def Let_def split_beta hub_kept_intros
        split: JsonWriterResult.split option.split)
qed

lemma CreateSecurityMessage_hub:
  assumes "MessageSerializer_CreateSecurityMessage D is sqs w = (x, w')"
  shows "hub_kept w w'"
proof -
  have deinit: "hub_kept w v \<Longrightarrow> hub_kept w (JsonObjectWriter_Deinit D wr v)" for v wr
    using hub_kept_trans hub_kept_intros(3) [OF Deinit_frame] by blast
  obtain r y w1 where init: "JsonObjectWriter_Init D w = ((r, y), w1)" by (metis prod.collapse)
  have w1: "hub_kept w w1" using hub_kept_intros(3) [OF ObjectInit_frame [of w D]] init by simp
  show ?thesis
  proof (cases "r = JSON_WRITER_OK \<and> y \<noteq> None")
    case False
    with assms init w1 show ?thesis
      by (auto simp: MessageSerializer_CreateSecurityMessage_def split: JsonWriterResult.splits option.splits)
  next
    case True
    then obtain wr where wr: "r = JSON_WRITER_OK" "y = Some wr" by blast
    obtain r1 w2 where s1: "JsonObjectWriter_WriteString D wr AGENT_VERSION_KEY AGENT_VERSION w1 = (r1, w2)" by fastforce
    have w2: "hub_kept w w2"
      using hub_kept_trans [OF w1] hub_kept_intros(3) [OF doc_frame_writes(1) [of w1 D wr AGENT_VERSION_KEY AGENT_VERSION]] s1 by simp
    obtain r2 w3 where s2: "write_header D wr AGENT_ID_KEY (LocalConfiguration_GetAgentId w2) w2 = (r2, w3)" by fastforce
    have "hub_kept w2 w3"
      using s2 hub_kept_intros(1) hub_kept_intros(3) [OF doc_frame_writes(1) [of w2 D wr AGENT_ID_KEY]]
      by (auto simp: write_header_def split: option.splits) (metis snd_conv)
    then have w3: "hub_kept w w3" by (rule hub_kept_trans [OF w2])
    obtain r3 w4 where s3: "JsonObjectWriter_WriteString D wr MESSAGE_SCHEMA_VERSION_KEY DEFAULT_MESSAGE_SCHEMA_VERSION w3 = (r3, w4)"
      by fastforce
    have w4: "hub_kept w w4"
      using hub_kept_trans [OF w3]
        hub_kept_intros(3) [OF doc_frame_writes(1) [of w3 D wr MESSAGE_SCHEMA_VERSION_KEY DEFAULT_MESSAGE_SCHEMA_VERSION]] s3 by simp
    obtain res sqs' w5 where gen: "MessageSerializer_GenerateEventList D is sqs wr w4 = ((res, sqs'), w5)" by (metis prod.collapse)
    have w5: "hub_kept w w5" using hub_kept_trans [OF w4] GenerateEventList_hub [of w4 D "is" sqs wr] gen by simp
    obtain r6 out w6 where ser: "JsonObjectWriter_Serialize D wr w5 = ((r6, out), w6)" by (metis prod.collapse)
    have w6: "hub_kept w w6" using hub_kept_trans [OF w5] hub_kept_intros(3) [OF doc_frame_writes(5) [of w5 D wr]] ser by simp
    show ?thesis
      using assms init wr s1 s2 s3 gen ser deinit [OF w2] deinit [OF w3] deinit [OF w4] deinit [OF w5] deinit [OF w6]
      by (auto simp: MessageSerializer_CreateSecurityMessage_def Let_def
          split: if_splits JsonWriterResult.splits option.splits)
  qed
qed

section \<open>Sending\<close>

lemma hub_keptD:
  assumes "hub_kept w w'"
  shows "liveModules w' = liveModules w" "iotHubAdapterLock w' = iotHubAdapterLock w" "sentTexts w' = sentTexts w"
    "useDps w' = useDps w" "lockOk w' = lockOk w" "twinConfiguration w' = twinConfiguration w" "locks_work w' = locks_work w"
  using assms hub_fields_more [of w' w] by (simp_all add: hub_kept_def locks_work_def)

lemma IncreaseBy_queues:
  "queueItems (snd (AgentTelemetryCounter_IncreaseBy c i k v)) = queueItems v"
  "nextItemAddress (snd (AgentTelemetryCounter_IncreaseBy c i k v)) = nextItemAddress v"
  "docs (snd (AgentTelemetryCounter_IncreaseBy c i k v)) = docs v"
  using IncreaseBy_counted [of v c i k] by (auto simp: counted_def)

lemma SendMessageAsync_queues:
  assumes "locks_work w" and "iotHubAdapterLock w" and "connected adapter \<or> \<not> useDps w"
    and "IoTHubAdapter_SendMessageAsync P mqtt sleeps adapter data sqs w = ((sent, adapter', sqs'), w')"
  shows "queueItems w' = queueItems w" "nextItemAddress w' = nextItemAddress w" "booked_bytes w' = booked_bytes w"
    "docs w' = docs w"
proof -
  obtain sent0 w0 where body: "hand_over adapter data (next_tick w) = (sent0, w0)" by fastforce
  have w0: "queueItems w0 = queueItems w \<and> nextItemAddress w0 = nextItemAddress w \<and> booked_bytes w0 = booked_bytes w
      \<and> docs w0 = docs w"
    using body by (auto simp: hand_over_def module_call_def Let_def sys_defs IncreaseBy_queues split: if_splits option.splits)
  show "queueItems w' = queueItems w" "nextItemAddress w' = nextItemAddress w" "booked_bytes w' = booked_bytes w" "docs w' = docs w"
    using assms(2-4) body w0
    by (auto simp: IoTHubAdapter_SendMessageAsync_def IoTHubAdapter_SendMessageAsync_Internal_def locked_def sys_defs
        LocalConfiguration_UseDps_def Let_def split: if_splits)
qed

lemma SendEvents_empty:
  assumes "locks_work w" and "sync_queues_ok sqs w" and "main < length sqs" and "sync_items (sqs ! main) w = []"
    and "operationalEventsQueue task = Some opEvents"
  shows "\<exists>w'. EventPublisherTask_SendEvents P D mqtt sleeps task (Some main) (Some padding) adapter sqs w
    = ((True, adapter, sqs), w') \<and> ticked w w'"
proof -
  obtain k v where "SyncQueue_GetSize (sqs ! main) w = ((SYNC_OK, Some k), v)" "ticked w v"
    "unat k = length (sync_items (sqs ! main) w)"
    by (rule GetSize_success [OF assms(1-3)])
  with assms(4,5) show ?thesis by (simp add: EventPublisherTask_SendEvents_def unat_eq_0)
qed


lemma get_field_success:
  assumes "locks_work w"
  shows "\<exists>w'. get_field x w = ((TWIN_OK, Some x), w') \<and> ticked w w'"
  using assms GetField_ticked [of w x]
  by (auto simp: get_field_def locked_def Let_def sys_defs locks_work_def)

lemma CurrentConsumption_success:
  assumes "locks_work w"
  shows "\<exists>w'. MemoryMonitor_CurrentConsumption w = ((MEMORY_MONITOR_OK, Some (currentConsumptionInBytes w)), w') \<and> ticked w w'"
  using assms
  by (auto simp: MemoryMonitor_CurrentConsumption_def InternalMemoryMonitor_CurrentConsumption_def locked_def sys_defs
      locks_work_def ticked_def Let_def)

lemma ticked_locks: "ticked w w' \<Longrightarrow> locks_work w \<Longrightarrow> locks_work w'"
  by (auto simp: ticked_def locks_work_def)

lemma ticked_same:
  assumes "ticked w w'"
  shows "twinConfiguration w' = twinConfiguration w" "currentConsumptionInBytes w' = currentConsumptionInBytes w"
    "clock w' = clock w" "TimeUtils_GetTimeDiff w' t1 t2 = TimeUtils_GetTimeDiff w t1 t2"
  using assms by (auto simp: ticked_def TimeUtils_GetTimeDiff_def Let_def)

text \<open>
  C38: a full cache is not sent early.  When the events in memory exceed \<open>maxMessageSize\<close>, the task is to
  send them \<open>even if there weren't any actual high priority events\<close>.  With no event in the high priority
  queue it sends nothing and takes no event from any queue, however much the low priority queue holds,
  until the low priority interval is over; the high priority interval starts anew all the same.
\<close>

theorem full_cache_is_not_sent:
  assumes "locks_work w" and "sync_queues_ok sqs w" and "high < length sqs" and "sync_items (sqs ! high) w = []"
    and "operationalEventsQueue task = Some opEvents" and "highPriorityEventQueue task = Some high"
    and "lowPriorityEventQueue task = Some low"
    and "maxMessageSize (twinConfiguration w) < currentConsumptionInBytes w"
    and "\<forall>n. TimeUtils_GetTimeDiff w (clock w n) (lowPriorityQueueLastExecution task)
          \<le> lowPriorityMessageFrequency (twinConfiguration w)"
  shows "\<exists>n w'. EventPublisherTask_Execute P D mqtt sleeps task adapter sqs w =
      ((task\<lparr>highPriorityQueueLastExecution := clock w n\<rparr>, adapter, sqs), w') \<and> ticked w w'"
proof -
  note getters = TwinConfiguration_GetHighPriorityMessageFrequency_def TwinConfiguration_GetLowPriorityMessageFrequency_def
    TwinConfiguration_GetMaxMessageSize_def TwinConfiguration_GetFieldInteger_def
  let ?c = "twinConfiguration w"
  obtain w1 where w1: "TwinConfiguration_GetHighPriorityMessageFrequency w = ((TWIN_OK, Some (highPriorityMessageFrequency ?c)), w1)"
    "ticked w w1"
    using get_field_success [OF assms(1), of "highPriorityMessageFrequency ?c"] by (auto simp: getters)
  note L1 = ticked_locks [OF w1(2) assms(1)]
  obtain w2 where w2: "TwinConfiguration_GetLowPriorityMessageFrequency w1 = ((TWIN_OK, Some (lowPriorityMessageFrequency ?c)), w2)"
    "ticked w1 w2"
    using get_field_success [OF L1, of "lowPriorityMessageFrequency ?c"] by (auto simp: getters ticked_same [OF w1(2)])
  have t2: "ticked w w2" by (rule ticked_trans [OF w1(2) w2(2)])
  note L2 = ticked_locks [OF t2 assms(1)]
  obtain w3 where w3: "TwinConfiguration_GetMaxMessageSize w2 = ((TWIN_OK, Some (maxMessageSize ?c)), w3)" "ticked w2 w3"
    using get_field_success [OF L2, of "maxMessageSize ?c"] by (auto simp: getters ticked_same [OF t2])
  have t3: "ticked w w3" by (rule ticked_trans [OF t2 w3(2)])
  note L3 = ticked_locks [OF t3 assms(1)]
  obtain w4 where w4: "MemoryMonitor_CurrentConsumption w3 = ((MEMORY_MONITOR_OK, Some (currentConsumptionInBytes w)), w4)"
    "ticked w3 w4"
    using CurrentConsumption_success [OF L3] by (auto simp: ticked_same [OF t3])
  have t5: "ticked w (next_tick w4)" by (rule ticked_trans [OF ticked_trans [OF t3 w4(2)]]) simp
  obtain n where now: "sys_time w4 = (clock w n, next_tick w4)"
    using ticked_same(3) [OF ticked_trans [OF t3 w4(2)]] by (simp add: sys_time_def)
  have send: "\<exists>v'. EventPublisherTask_SendEvents P D mqtt s (task\<lparr>highPriorityQueueLastExecution := t\<rparr>) (Some high) (Some low) adapter sqs v
      = ((True, adapter, sqs), v') \<and> ticked v v'" if "ticked w v" for v s t
    using SendEvents_empty [of v sqs high "task\<lparr>highPriorityQueueLastExecution := t\<rparr>" opEvents] that assms(1-5)
      ticked_sync [OF that] ticked_locks [OF that] by simp
  obtain w6 where w6: "EventPublisherTask_SendEvents P D mqtt (sleeps 0) task (Some high) (Some low) adapter sqs (next_tick w4)
      = ((True, adapter, sqs), w6)" "ticked (next_tick w4) w6"
    using send [OF t5, of "sleeps 0" "highPriorityQueueLastExecution task"] by auto
  have t6: "ticked w w6" by (rule ticked_trans [OF t5 w6(2)])
  let ?task = "task\<lparr>highPriorityQueueLastExecution := clock w n\<rparr>"
  obtain w7 where w7: "EventPublisherTask_SendEvents P D mqtt (sleeps 1) ?task (Some high) (Some low) adapter sqs w6
      = ((True, adapter, sqs), w7)" "ticked w6 w7"
    using send [OF t6, of "sleeps 1" "clock w n"] by auto
  have t7: "ticked w w7" by (rule ticked_trans [OF t6 w7(2)])
  have late: "\<not> TimeUtils_GetTimeDiff w6 (clock w n) (lowPriorityQueueLastExecution task) > lowPriorityMessageFrequency ?c"
    using assms(9) by (simp add: ticked_same [OF t6] not_less)
  have "\<exists>w'. EventPublisherTask_Execute P D mqtt sleeps task adapter sqs w = ((?task, adapter, sqs), w') \<and> ticked w w'"
    using assms(6-8) w1(1) w2(1) w3(1) w4(1) now w6(1) w7(1) late t6 t7
    by (simp add: EventPublisherTask_Execute_def Let_def)
  then show ?thesis by blast
qed

section \<open>Witnesses\<close>

definition publisher :: EventPublisherTask where
  "publisher = \<lparr>highPriorityEventQueue = Some 0, lowPriorityEventQueue = Some 1, operationalEventsQueue = Some 2,
     iothubAdapterSet = True, highPriorityQueueLastExecution = 0, lowPriorityQueueLastExecution = 0\<rparr>"

abbreviation three_queues :: "SyncQueue list" where
  "three_queues \<equiv> [new_sync 0, new_sync 1, new_sync 2]"

lemma calm_three_queues: "sync_queues_ok three_queues (calm_hub_with h\<lparr>currentConsumptionInBytes := n\<rparr>)"
  "sync_items (new_sync c) (calm_hub_with h\<lparr>currentConsumptionInBytes := n\<rparr>) = []"
  "clock (calm_hub_with h) m = 0" "highPriorityMessageFrequency (twinConfiguration (calm_hub_with h)) = 420000"
  by (simp_all add: sync_queues_ok_def new_sync_def queues_ok_def held_def sync_items_def calm_hub_with_def less_Suc_eq
      calm_queue_env_with_def calm_monitor_with_def calm_counters_with_def calm_twin_with_def
      calm_collectors_with_def calm_def env.defs docs_env.defs log_env.defs auth_env.defs local_env.defs
      collectors_env.defs twin_env.defs counter_env.defs monitor_env.defs queue_env.defs hub_env.defs
      calm_configuration_def default_defs)

lemma full_cache_is_not_sent_witness:
  "\<exists>w'. EventPublisherTask_Execute (tree_parson (\<lambda>_. None)) text_doc False (\<lambda>_ _. []) publisher fresh_adapter
      three_queues (calm_hub_with calm_store\<lparr>currentConsumptionInBytes := 2000000\<rparr>)
      = ((publisher, fresh_adapter, three_queues), w')"
proof -
  let ?w = "calm_hub_with calm_store\<lparr>currentConsumptionInBytes := 2000000\<rparr>"
  have "\<exists>n w'. EventPublisherTask_Execute (tree_parson (\<lambda>_. None)) text_doc False (\<lambda>_ _. []) publisher fresh_adapter three_queues ?w
      = ((publisher\<lparr>highPriorityQueueLastExecution := clock ?w n\<rparr>, fresh_adapter, three_queues), w') \<and> ticked ?w w'"
    by (rule full_cache_is_not_sent [where high = 0 and low = 1 and opEvents = 2])
       (simp_all add: calm_three_queues calm_three_queues(1) [simplified] publisher_def TimeUtils_GetTimeDiff_def locks_work_def INT_MAX_def INT_MIN_def
        calm_configuration_def default_defs)
  then show ?thesis by (auto simp: calm_three_queues publisher_def)
qed


end
