(* ===== verification/Generic_Event.thy ===== *)
theory Generic_Event
  imports Calendar_Time Event_Publisher_Task
begin

text \<open>
  The frame of every event, \<^verbatim>\<open>src/agent/src/collectors/linux/generic_event.c\<close>, and what all collectors
  do around it: make a document, write into it, pass it on and release it.  The keys and values are
  those of \<^verbatim>\<open>message_schema_consts.c\<close>.  A collector names its queue by the position in the list of the
  agent's queues.
\<close>

datatype EventCollectorResult =
  EVENT_COLLECTOR_OK | EVENT_COLLECTOR_RECORD_HAS_ERRORS | EVENT_COLLECTOR_RECORD_FILTERED
| EVENT_COLLECTOR_OUT_OF_MEM | EVENT_COLLECTOR_EXCEPTION

definition PAYLOAD_KEY :: string where "PAYLOAD_KEY = ''Payload''"
definition EXTRA_DETAILS_KEY :: string where "EXTRA_DETAILS_KEY = ''ExtraDetails''"
definition EVENT_CATEGORY_KEY :: string where "EVENT_CATEGORY_KEY = ''Category''"
definition EVENT_PERIODIC_CATEGORY :: string where "EVENT_PERIODIC_CATEGORY = ''Periodic''"
definition EVENT_TRIGGERED_CATEGORY :: string where "EVENT_TRIGGERED_CATEGORY = ''Triggered''"
definition EVENT_AGGREGATED_CATEGORY :: string where "EVENT_AGGREGATED_CATEGORY = ''Aggregated''"
definition EVENT_IS_EMPTY_KEY :: string where "EVENT_IS_EMPTY_KEY = ''IsEmpty''"
definition EVENT_NAME_KEY :: string where "EVENT_NAME_KEY = ''Name''"
definition EVENT_TYPE_KEY :: string where "EVENT_TYPE_KEY = ''EventType''"
definition EVENT_PAYLOAD_SCHEMA_VERSION_KEY :: string where "EVENT_PAYLOAD_SCHEMA_VERSION_KEY = ''PayloadSchemaVersion''"
definition EVENT_ID_KEY :: string where "EVENT_ID_KEY = ''Id''"
definition EVENT_LOCAL_TIMESTAMP_KEY :: string where "EVENT_LOCAL_TIMESTAMP_KEY = ''TimestampLocal''"
definition EVENT_UTC_TIMESTAMP_KEY :: string where "EVENT_UTC_TIMESTAMP_KEY = ''TimestampUTC''"
definition EVENT_TYPE_SECURITY_VALUE :: string where "EVENT_TYPE_SECURITY_VALUE = ''Security''"
definition EVENT_TYPE_OPERATIONAL_VALUE :: string where "EVENT_TYPE_OPERATIONAL_VALUE = ''Operational''"
definition EVENT_TYPE_DIAGNOSTIC_VALUE :: string where "EVENT_TYPE_DIAGNOSTIC_VALUE = ''Diagnostic''"
definition MAX_TIME_AS_STRING_LENGTH :: u32 where "MAX_TIME_AS_STRING_LENGTH = 25"

section \<open>Steps\<close>

text \<open>Steps up to the first that fails, and a writer's result as one of a collector.\<close>

fun event_steps :: "('w \<Rightarrow> EventCollectorResult \<times> 'w) list \<Rightarrow> 'w \<Rightarrow> EventCollectorResult \<times> 'w" where
  "event_steps [] w = (EVENT_COLLECTOR_OK, w)"
| "event_steps (f # fs) w =
     (let (r, w1) = f w in if r \<noteq> EVENT_COLLECTOR_OK then (r, w1) else event_steps fs w1)"

definition json_step :: "('w \<Rightarrow> JsonWriterResult \<times> 'w) \<Rightarrow> 'w \<Rightarrow> EventCollectorResult \<times> 'w" where
  "json_step f w =
     (let (r, w1) = f w in (if r \<noteq> JSON_WRITER_OK then EVENT_COLLECTOR_EXCEPTION else EVENT_COLLECTOR_OK, w1))"

section \<open>Metadata and payload\<close>

definition write_time ::
  "('v, 'o, 'r, 'h) parson_doc \<Rightarrow> ('v, 'o) JsonObjectWriter \<Rightarrow> string \<Rightarrow>
    (('h, 'a) docs_env_scheme \<Rightarrow> (bool \<times> string \<times> u32) \<times> ('h, 'a) docs_env_scheme) \<Rightarrow>
    ('h, 'a) docs_env_scheme \<Rightarrow> EventCollectorResult \<times> ('h, 'a) docs_env_scheme" where
  "write_time D eventWriter key getTime w =
     (let ((ok, timeStr, _), w1) = getTime w in
      if \<not> ok then (EVENT_COLLECTOR_EXCEPTION, w1)
      else json_step (JsonObjectWriter_WriteString D eventWriter key timeStr) w1)"

text \<open>\<open>UniqueId_Generate\<close> belongs to the C utility library of the SDK; the environment answers it.\<close>

definition write_event_id ::
  "('v, 'o, 'r, 'h) parson_doc \<Rightarrow> ('v, 'o) JsonObjectWriter \<Rightarrow> ('h, 'a) docs_env_scheme \<Rightarrow>
    EventCollectorResult \<times> ('h, 'a) docs_env_scheme" where
  "write_event_id D eventWriter w =
     (let (eventId, w1) = sys_bytes w in
      case eventId of
        None \<Rightarrow> (EVENT_COLLECTOR_EXCEPTION, w1)
      | Some uuid \<Rightarrow> json_step (JsonObjectWriter_WriteString D eventWriter EVENT_ID_KEY uuid) w1)"

definition GenericEvent_AddMetadataWithTimes ::
  "('v, 'o, 'r, 'h) parson_doc \<Rightarrow> ('v, 'o) JsonObjectWriter \<Rightarrow> string \<Rightarrow> string \<Rightarrow> string \<Rightarrow> string \<Rightarrow> time_t \<Rightarrow>
    ('h, 'a) docs_env_scheme \<Rightarrow> EventCollectorResult \<times> ('h, 'a) docs_env_scheme" where
  "GenericEvent_AddMetadataWithTimes D eventWriter eventCategory eventName eventType eventPayloadVersion eventLocalTime =
     event_steps
       [json_step (JsonObjectWriter_WriteString D eventWriter EVENT_CATEGORY_KEY eventCategory),
        json_step (JsonObjectWriter_WriteString D eventWriter EVENT_TYPE_KEY eventType),
        json_step (JsonObjectWriter_WriteString D eventWriter EVENT_NAME_KEY eventName),
        json_step (JsonObjectWriter_WriteString D eventWriter EVENT_PAYLOAD_SCHEMA_VERSION_KEY eventPayloadVersion),
        write_event_id D eventWriter,
        write_time D eventWriter EVENT_LOCAL_TIMESTAMP_KEY
          (TimeUtils_GetTimeAsString eventLocalTime MAX_TIME_AS_STRING_LENGTH),
        write_time D eventWriter EVENT_UTC_TIMESTAMP_KEY
          (TimeUtils_GetLocalTimeAsUTCTimeAsString eventLocalTime MAX_TIME_AS_STRING_LENGTH)]"

definition GenericEvent_AddMetadata ::
  "('v, 'o, 'r, 'h) parson_doc \<Rightarrow> ('v, 'o) JsonObjectWriter \<Rightarrow> string \<Rightarrow> string \<Rightarrow> string \<Rightarrow> string \<Rightarrow>
    ('h, 'a) docs_env_scheme \<Rightarrow> EventCollectorResult \<times> ('h, 'a) docs_env_scheme" where
  "GenericEvent_AddMetadata D eventWriter eventCategory eventName eventType eventPayloadVersion w =
     (let (currentTime, w1) = sys_time w
      in GenericEvent_AddMetadataWithTimes D eventWriter eventCategory eventName eventType eventPayloadVersion currentTime w1)"

definition GenericEvent_AddPayload ::
  "('v, 'o, 'r, 'h) parson_doc \<Rightarrow> ('v, 'o) JsonObjectWriter \<Rightarrow> ('v, 'r) JsonArrayWriter \<Rightarrow> ('h, 'a) docs_env_scheme \<Rightarrow>
    (EventCollectorResult \<times> ('v, 'r) JsonArrayWriter) \<times> ('h, 'a) docs_env_scheme" where
  "GenericEvent_AddPayload D eventWriter payloadWriter w =
     (let (result, elements_count) = JsonArrayWriter_GetSize D payloadWriter w in
      if result \<noteq> JSON_WRITER_OK then ((EVENT_COLLECTOR_EXCEPTION, payloadWriter), w)
      else
        let (r, w1) = json_step (JsonObjectWriter_WriteBool D eventWriter EVENT_IS_EMPTY_KEY (elements_count = 0)) w in
        if r \<noteq> EVENT_COLLECTOR_OK then ((EVENT_COLLECTOR_EXCEPTION, payloadWriter), w1)
        else
          let ((r2, payloadWriter'), w2) = JsonObjectWriter_WriteArray D eventWriter PAYLOAD_KEY payloadWriter w1
          in ((if r2 \<noteq> JSON_WRITER_OK then EVENT_COLLECTOR_EXCEPTION else EVENT_COLLECTOR_OK, payloadWriter'), w2))"

section \<open>What the collectors share\<close>

text \<open>
  A document made, worked with and released in the \<open>cleanup\<close> block; \<open>e\<close> is the result when it could not
  be made.  The work returns the writer, whose root may have a new owner by then.
\<close>

definition with_object ::
  "('v, 'o, 'r, 'h) parson_doc \<Rightarrow> 'x \<Rightarrow>
    (('v, 'o) JsonObjectWriter \<Rightarrow> ('h, 'a) docs_env_scheme \<Rightarrow> ('x \<times> ('v, 'o) JsonObjectWriter) \<times> ('h, 'a) docs_env_scheme) \<Rightarrow>
    ('h, 'a) docs_env_scheme \<Rightarrow> 'x \<times> ('h, 'a) docs_env_scheme" where
  "with_object D e body w =
     (case JsonObjectWriter_Init D w of
        ((JSON_WRITER_OK, Some writer), w1) \<Rightarrow>
          (let ((x, writer'), w2) = body writer w1 in (x, JsonObjectWriter_Deinit D writer' w2))
      | (_, w1) \<Rightarrow> (e, w1))"

definition with_array ::
  "('v, 'o, 'r, 'h) parson_doc \<Rightarrow> 'x \<Rightarrow>
    (('v, 'r) JsonArrayWriter \<Rightarrow> ('h, 'a) docs_env_scheme \<Rightarrow> ('x \<times> ('v, 'r) JsonArrayWriter) \<times> ('h, 'a) docs_env_scheme) \<Rightarrow>
    ('h, 'a) docs_env_scheme \<Rightarrow> 'x \<times> ('h, 'a) docs_env_scheme" where
  "with_array D e body w =
     (case JsonArrayWriter_Init D w of
        ((JSON_WRITER_OK, Some writer), w1) \<Rightarrow>
          (let ((x, writer'), w2) = body writer w1 in (x, JsonArrayWriter_Deinit D writer' w2))
      | (_, w1) \<Rightarrow> (e, w1))"

text \<open>One object of the payload: made, filled by the steps and added to the array.\<close>

definition add_payload_object ::
  "('v, 'o, 'r, 'h) parson_doc \<Rightarrow> ('v, 'r) JsonArrayWriter \<Rightarrow>
    (('v, 'o) JsonObjectWriter \<Rightarrow> (('h, 'a) docs_env_scheme \<Rightarrow> EventCollectorResult \<times> ('h, 'a) docs_env_scheme) list) \<Rightarrow>
    ('h, 'a) docs_env_scheme \<Rightarrow> EventCollectorResult \<times> ('h, 'a) docs_env_scheme" where
  "add_payload_object D arr steps =
     with_object D EVENT_COLLECTOR_EXCEPTION
       (\<lambda>obj w. let (r, w1) = event_steps (steps obj) w in
          if r \<noteq> EVENT_COLLECTOR_OK then ((r, obj), w1)
          else
            let ((r2, obj'), w2) = JsonArrayWriter_AddObject D arr obj w1
            in ((if r2 \<noteq> JSON_WRITER_OK then EVENT_COLLECTOR_EXCEPTION else EVENT_COLLECTOR_OK, obj'), w2))"

text \<open>
  The text of the event goes to the queue; when the queue refuses it, it is freed.  \<open>dropOk\<close>: the
  collector reports success when the queue had no memory left (the text is then not freed).
\<close>

definition push_event ::
  "('v, 'o, 'r, 'h) parson_doc \<Rightarrow> bool \<Rightarrow> nat \<Rightarrow> SyncQueue list \<Rightarrow> ('v, 'o) JsonObjectWriter \<Rightarrow> ('h, 'a) queue_env_scheme \<Rightarrow>
    (EventCollectorResult \<times> SyncQueue list) \<times> ('h, 'a) queue_env_scheme" where
  "push_event D dropOk queue sqs event w =
     (case JsonObjectWriter_Serialize D event w of
        ((JSON_WRITER_OK, Some (buffer, bufferSize)), w1) \<Rightarrow>
          (let ((r, sq), w2) = SyncQueue_PushBack (sqs ! queue) (EVENT buffer) bufferSize w1
           in ((if r = SYNC_OK \<or> (dropOk \<and> r = Queue_Result QUEUE_MAX_MEMORY_EXCEEDED) then EVENT_COLLECTOR_OK
                else EVENT_COLLECTOR_EXCEPTION, sqs[queue := sq]), w2))
      | (_, w1) \<Rightarrow> ((EVENT_COLLECTOR_EXCEPTION, sqs), w1))"

text \<open>The whole life of an event: metadata, payload, text; the array is released before the event.  \<open>fill\<close> may
  also change something of its own, \<open>y0\<close> at first.\<close>

definition collect_event_with ::
  "('v, 'o, 'r, 'h) parson_doc \<Rightarrow> bool \<Rightarrow>
    (('v, 'o) JsonObjectWriter \<Rightarrow> ('h, 'a) queue_env_scheme \<Rightarrow> EventCollectorResult \<times> ('h, 'a) queue_env_scheme) \<Rightarrow>
    (('v, 'r) JsonArrayWriter \<Rightarrow> ('h, 'a) queue_env_scheme \<Rightarrow> (EventCollectorResult \<times> 'y) \<times> ('h, 'a) queue_env_scheme) \<Rightarrow> 'y \<Rightarrow>
    nat \<Rightarrow> SyncQueue list \<Rightarrow> ('h, 'a) queue_env_scheme \<Rightarrow>
    ((EventCollectorResult \<times> SyncQueue list) \<times> 'y) \<times> ('h, 'a) queue_env_scheme" where
  "collect_event_with D dropOk addMetadata fill y0 queue sqs =
     with_object D ((EVENT_COLLECTOR_EXCEPTION, sqs), y0)
       (\<lambda>event w. let (r, w1) = addMetadata event w in
          if r \<noteq> EVENT_COLLECTOR_OK then ((((r, sqs), y0), event), w1)
          else
            let (x, w2) =
              with_array D ((EVENT_COLLECTOR_EXCEPTION, sqs), y0)
                (\<lambda>payload w. let ((r, y), w1) = fill payload w in
                   if r \<noteq> EVENT_COLLECTOR_OK then ((((r, sqs), y), payload), w1)
                   else
                     let ((r2, payload'), w2) = GenericEvent_AddPayload D event payload w1 in
                     if r2 \<noteq> EVENT_COLLECTOR_OK then ((((r2, sqs), y), payload'), w2)
                     else let (z, w3) = push_event D dropOk queue sqs event w2 in (((z, y), payload'), w3)) w1
            in ((x, event), w2))"

text \<open>The common case, without something that changes along the way.\<close>

definition collect_event ::
  "('v, 'o, 'r, 'h) parson_doc \<Rightarrow> bool \<Rightarrow>
    (('v, 'o) JsonObjectWriter \<Rightarrow> ('h, 'a) queue_env_scheme \<Rightarrow> EventCollectorResult \<times> ('h, 'a) queue_env_scheme) \<Rightarrow>
    (('v, 'r) JsonArrayWriter \<Rightarrow> ('h, 'a) queue_env_scheme \<Rightarrow> EventCollectorResult \<times> ('h, 'a) queue_env_scheme) \<Rightarrow>
    nat \<Rightarrow> SyncQueue list \<Rightarrow> ('h, 'a) queue_env_scheme \<Rightarrow>
    (EventCollectorResult \<times> SyncQueue list) \<times> ('h, 'a) queue_env_scheme" where
  "collect_event D dropOk addMetadata fill queue sqs w =
     (let ((x, _), w') = collect_event_with D dropOk addMetadata (\<lambda>payload w. let (r, w1) = fill payload w in ((r, ()), w1)) ()
         queue sqs w
      in (x, w'))"

section \<open>Ownership\<close>

text \<open>
  The parts of parson's contract the collectors rely on: those of \<open>parson_ownership\<close>, and those of
  \<open>parson_arrays\<close> for some reading of arrays.
\<close>

definition parson_lists :: "('v, 'o, 'r, 'h) parson_doc \<Rightarrow> ('h \<Rightarrow> 'v set) \<Rightarrow> bool" where
  "parson_lists D roots \<longleftrightarrow> parson_ownership D roots \<and> (\<exists>root_of texts source. parson_arrays D roots root_of texts source)"

text \<open>A step that keeps the owned documents and changes nothing but the store and the call counter.\<close>

definition clean :: "('h \<Rightarrow> 'v set) \<Rightarrow> ('h, 'a) docs_env_scheme \<Rightarrow> ('h, 'a) docs_env_scheme \<Rightarrow> bool" where
  "clean roots w w' \<longleftrightarrow> doc_frame w w' \<and> roots (docs w') = roots (docs w)"

lemma clean_refl [simp]: "clean roots w w"
  by (simp add: clean_def)

lemma clean_trans [trans]: "clean roots w w1 \<Longrightarrow> clean roots w1 w2 \<Longrightarrow> clean roots w w2"
  unfolding clean_def using doc_frame_trans by auto

lemma ticked_clean: "ticked w w' \<Longrightarrow> clean roots w w'"
  by (auto simp: clean_def ticked_def doc_frame_tick)

lemma clean_next [simp]: "clean roots w (next_tick w)"
  by (rule ticked_clean) simp

lemma clean_writes:
  assumes "parson_lists D roots"
  shows "clean roots w (snd (json_step (JsonObjectWriter_WriteString D wr key s) w))"
    "clean roots w (snd (json_step (JsonObjectWriter_WriteInt D wr key n) w))"
    "clean roots w (snd (json_step (JsonObjectWriter_WriteBool D wr key b) w))"
  using assms ownership_laws(3-5) [of D roots]
  by (auto simp: clean_def parson_lists_def json_step_def JsonObjectWriter_WriteString_def JsonObjectWriter_WriteInt_def
      JsonObjectWriter_WriteBool_def written_as_def on_docs_def split_beta Let_def doc_frame_docs)

lemma clean_steps:
  assumes "\<And>f w. f \<in> set fs \<Longrightarrow> clean roots w (snd (f w))"
  shows "clean roots w (snd (event_steps fs w))"
  using assms
proof (induction fs arbitrary: w)
  case (Cons f fs)
  have "clean roots w (snd (f w))" by (simp add: Cons.prems)
  moreover have "clean roots (snd (f w)) (snd (event_steps fs (snd (f w))))" by (rule Cons.IH) (simp add: Cons.prems)
  ultimately show ?case using clean_trans by (auto simp: Let_def split_beta)
qed simp

lemma clean_write_time:
  assumes "parson_lists D roots" and "\<And>w. ticked w (snd (getTime w))"
  shows "clean roots w (snd (write_time D wr key getTime w))"
proof -
  have "clean roots w (snd (getTime w))" by (rule ticked_clean) (rule assms(2))
  then show ?thesis using clean_trans [OF _ clean_writes(1) [OF assms(1)]]
    by (auto simp: write_time_def Let_def split_beta)
qed

lemma clean_write_event_id: "parson_lists D roots \<Longrightarrow> clean roots w (snd (write_event_id D wr w))"
  using clean_trans [OF clean_next clean_writes(1)]
  by (auto simp: write_event_id_def Let_def split_beta split: option.split)

lemma clean_metadata:
  assumes "parson_lists D roots"
  shows "clean roots w (snd (GenericEvent_AddMetadataWithTimes D ev category name ty version t w))"
    "clean roots w (snd (GenericEvent_AddMetadata D ev category name ty version w))"
proof -
  have *: "clean roots w (snd (GenericEvent_AddMetadataWithTimes D ev category name ty version t w))" for t w
    unfolding GenericEvent_AddMetadataWithTimes_def
    by (rule clean_steps)
       (auto intro: clean_writes clean_write_event_id clean_write_time assms)
  show "clean roots w (snd (GenericEvent_AddMetadataWithTimes D ev category name ty version t w))"
    "clean roots w (snd (GenericEvent_AddMetadata D ev category name ty version w))"
    using clean_trans [OF clean_next *] by (auto simp: GenericEvent_AddMetadata_def Let_def split_beta *)
qed

lemma with_object_cases:
  assumes "parson_lists D roots" and "with_object D e body w = (x, w')"
  obtains (failed) "x = e" "clean roots w w'"
  | (made) wr wr' w1 w2 where "doc_frame w w1" "wShouldFree wr" "wRootValue wr \<notin> roots (docs w)"
      "roots (docs w1) = insert (wRootValue wr) (roots (docs w))"
      "body wr w1 = ((x, wr'), w2)" "w' = JsonObjectWriter_Deinit D wr' w2"
proof -
  have own: "parson_ownership D roots" using assms(1) by (simp add: parson_lists_def)
  obtain y w1 where init: "JsonObjectWriter_Init D w = (y, w1)" by fastforce
  have frame: "doc_frame w w1" using ObjectInit_frame [of w D] init by simp
  from own init show thesis
  proof (cases rule: Init_roots)
    case failed
    with assms(2) init frame show thesis by (intro that(1)) (auto simp: with_object_def clean_def)
  next
    case (made wr)
    obtain x' wr' w2 where "body wr w1 = ((x', wr'), w2)" by (metis prod.collapse)
    with assms(2) init made frame show thesis by (intro that(2)) (auto simp: with_object_def)
  qed
qed

lemma with_array_cases:
  assumes "parson_lists D roots" and "with_array D e body w = (x, w')"
  obtains (failed) "x = e" "clean roots w w'"
  | (made) arr arr' w1 w2 where "doc_frame w w1" "aShouldFree arr" "aRootValue arr \<notin> roots (docs w)"
      "roots (docs w1) = insert (aRootValue arr) (roots (docs w))"
      "body arr w1 = ((x, arr'), w2)" "w' = JsonArrayWriter_Deinit D arr' w2"
proof -
  obtain root_of texts source where laws: "parson_ownership D roots" "parson_arrays D roots root_of texts source"
    using assms(1) by (auto simp: parson_lists_def)
  from laws show thesis
  proof (cases rule: ArrayInit_facts [of D roots root_of texts source w])
    case (made arr w1)
    obtain x' arr' w2 where "body arr w1 = ((x', arr'), w2)" by (metis prod.collapse)
    with assms(2) made show thesis by (intro that(2)) (auto simp: with_array_def)
  next
    case (failed w1)
    with assms(2) show thesis by (intro that(1)) (auto simp: with_array_def clean_def)
  qed
qed

text \<open>An object of the payload ends in the array or is freed; it is never owned afterwards.\<close>

lemma clean_payload_object:
  assumes D: "parson_lists D roots" and steps: "\<And>obj f w. f \<in> set (steps obj) \<Longrightarrow> clean roots w (snd (f w))"
  shows "clean roots w (snd (add_payload_object D arr steps w))"
proof -
  obtain root_of texts source where own: "parson_ownership D roots" and arr: "parson_arrays D roots root_of texts source"
    using D by (auto simp: parson_lists_def)
  obtain x w' where run: "add_payload_object D arr steps w = (x, w')" by fastforce
  from D run [unfolded add_payload_object_def] have "clean roots w w'"
  proof (cases rule: with_object_cases)
    case (made wr wr' w1 w2)
    obtain r w3 where s: "event_steps (steps wr) w1 = (r, w3)" by fastforce
    have "clean roots w1 (snd (event_steps (steps wr) w1))" by (rule clean_steps) (rule steps)
    then have c: "clean roots w1 w3" using s by simp
    show ?thesis
    proof (cases "r = EVENT_COLLECTOR_OK")
      case False
      with made s have "wr' = wr" "w2 = w3" by auto
      then show ?thesis using made c Deinit_roots [OF own, of wr w3] Deinit_frame [of w3 D wr]
        by (auto simp: clean_def intro: doc_frame_trans)
    next
      case True
      obtain ok h where ap: "doc_append_value D (aRootArray arr) (wRootValue wr) (docs w3) = (ok, h)" by fastforce
      have eq: "wr' = (if ok then wr\<lparr>wShouldFree := False\<rparr> else wr)" "w2 = w3\<lparr>docs := h\<rparr>"
        using made(5) s True ap by (auto simp: JsonArrayWriter_AddObject_def on_docs_def split: if_splits)
      have h: "roots h = (if ok then roots (docs w3) - {wRootValue wr} else roots (docs w3))"
        using array_laws(5,6) [OF arr, of "aRootArray arr" "wRootValue wr" "docs w3" h] ap by (cases ok) auto
      have w3: "roots (docs w3) = insert (wRootValue wr) (roots (docs w))" using c made(4) by (simp add: clean_def)
      have "roots (docs w') = roots (docs w)"
        using Deinit_roots [OF own, of wr' w2] made(2,3,6) eq h w3 by (cases ok) simp_all
      moreover have "doc_frame w3 w'"
        unfolding made(6) eq(2) by (rule doc_frame_trans [OF doc_frame_docs Deinit_frame])
      moreover have "doc_frame w w3" using made(1) c doc_frame_trans unfolding clean_def by blast
      ultimately show ?thesis unfolding clean_def using doc_frame_trans by blast
    qed
  qed simp
  with run show ?thesis by simp
qed

section \<open>What a collector leaves behind\<close>

text \<open>A step of a collector aside from the queues: it may use its own state, the counters, the clock.\<close>

definition aside :: "('h \<Rightarrow> 'v set) \<Rightarrow> ('h, 'a) queue_env_scheme \<Rightarrow> ('h, 'a) queue_env_scheme \<Rightarrow> bool" where
  "aside roots w w' \<longleftrightarrow> queueItems w' = queueItems w \<and> nextItemAddress w' = nextItemAddress w
     \<and> booked_bytes w' = booked_bytes w \<and> fault w' = fault w \<and> roots (docs w') = roots (docs w)"

lemma aside_refl [simp]: "aside roots w w"
  by (simp add: aside_def)

lemma aside_trans [trans]: "aside roots w w1 \<Longrightarrow> aside roots w1 w2 \<Longrightarrow> aside roots w w2"
  by (simp add: aside_def)

lemma clean_aside: "clean roots w w' \<Longrightarrow> aside roots w w'"
  by (auto simp: clean_def doc_frame_def aside_def)

lemma aside_queues:
  assumes "sync_queues_ok sqs w" and "queueItems w' = queueItems w" "nextItemAddress w' = nextItemAddress w"
    "booked_bytes w' = booked_bytes w" "fault w' = fault w"
  shows "sync_queues_ok sqs w'" "sync_items q w' = sync_items q w"
proof -
  have "\<not> fault w" using assms(1) by (simp add: sync_queues_ok_def queues_ok_def)
  then have f: "\<not> fault w'" using assms(5) by simp
  show "sync_queues_ok sqs w'" "sync_items q w' = sync_items q w"
    using queues_ok_same [OF assms(1-4) f] by blast+
qed

lemma aside_fewer: "aside roots w w' \<Longrightarrow> aside (\<lambda>h. roots h - A) w w'"
  by (simp add: aside_def)

lemma aside_ok:
  assumes "sync_queues_ok sqs w" and "aside roots w w'"
  shows "sync_queues_ok sqs w'"
  using assms(2) by (intro aside_queues(1) [OF assms(1)]) (simp_all add: aside_def)

text \<open>No text of an event is longer than \<open>L\<close>: the size of an event stays clear of 32 bits.\<close>

definition texts_within :: "('v, 'o, 'r, 'h) parson_doc \<Rightarrow> nat \<Rightarrow> bool" where
  "texts_within D L \<longleftrightarrow> (\<forall>h v s. doc_serialize D h v = Some s \<longrightarrow> length s \<le> L)"

text \<open>
  What a collector that pushes at most \<open>n\<close> events may do: the queues stay well formed, the documents are
  all released, queue \<open>i\<close> gets the events \<open>new\<close> at its end, each a text with its own length, and the
  other queues keep their items.
\<close>

definition gained ::
  "('h \<Rightarrow> 'v set) \<Rightarrow> nat \<Rightarrow> nat \<Rightarrow> nat \<Rightarrow> SyncQueue list \<Rightarrow> ('h, 'a) queue_env_scheme \<Rightarrow> (queue_data \<times> u32) list \<Rightarrow>
    SyncQueue list \<Rightarrow> ('h, 'a) queue_env_scheme \<Rightarrow> bool" where
  "gained roots L n i sqs w new sqs' w' \<longleftrightarrow>
     sync_queues_ok sqs' w' \<and> length sqs' = length sqs \<and> roots (docs w') = roots (docs w)
     \<and> booked_bytes w' \<le> booked_bytes w + n * (L + 40) \<and> length new \<le> n
     \<and> (\<forall>j < length sqs. sync_items (sqs' ! j) w' = sync_items (sqs ! j) w @ (if j = i then new else []))
     \<and> (\<forall>x \<in> set new. \<exists>s. x = (EVENT s, of_nat (length s)))"

lemma gained_aside:
  assumes "sync_queues_ok sqs w" and "aside roots w w'"
  shows "gained roots L n i sqs w [] sqs w'"
  using aside_queues [OF assms(1)] assms(2) by (auto simp: gained_def aside_def)

lemma gained_trans:
  assumes "gained roots L n i sqs w new sqs1 w1" and "gained roots L m i sqs1 w1 new1 sqs2 w2"
  shows "gained roots L (n + m) i sqs w (new @ new1) sqs2 w2"
  using assms by (auto simp: gained_def add_mult_distrib)

lemma gained_docs:
  assumes "gained roots L n i sqs w new sqs' w1" and "doc_frame w1 w'" and "roots (docs w') = roots (docs w0)"
    "roots (docs w) = roots (docs w0)"
  shows "gained roots L n i sqs w new sqs' w'"
  using assms by (simp add: gained_def doc_frame_sync)

lemma push_event_gained:
  assumes "texts_within D L" and "booked_bytes w + (L + 40) < 4294967296" and "sync_queues_ok sqs w" and "i < length sqs"
    and "push_event D dropOk i sqs ev w = ((r, sqs'), w')"
  shows "\<exists>new. gained roots L 1 i sqs w new sqs' w' \<and> docs w' = docs w \<and> queued w w'
    \<and> (r = EVENT_COLLECTOR_OK \<and> \<not> dropOk \<longrightarrow> length new = 1)
    \<and> r \<in> {EVENT_COLLECTOR_OK, EVENT_COLLECTOR_EXCEPTION}"
proof (cases "doc_serialize D (docs w) (wRootValue ev)")
  case None
  then have "r = EVENT_COLLECTOR_EXCEPTION" "sqs' = sqs" "w' = w"
    using assms(5) by (auto simp: push_event_def JsonObjectWriter_Serialize_def)
  moreover have "queued w w" by (rule accounted_queued) (rule accounted_intros)
  ultimately show ?thesis using gained_aside [OF assms(3) aside_refl] by (intro exI [of _ "[]"]) simp
next
  case (Some s)
  let ?d = "EVENT s" and ?n = "of_nat (length s) :: u32"
  obtain q sq w1 where push: "SyncQueue_PushBack (sqs ! i) ?d ?n w = ((q, sq), w1)" by (metis prod.collapse)
  have run: "sqs' = sqs[i := sq]" "w' = w1" "r = EVENT_COLLECTOR_OK \<longleftrightarrow> q = SYNC_OK \<or> dropOk \<and> q = Queue_Result QUEUE_MAX_MEMORY_EXCEEDED"
      "r \<in> {EVENT_COLLECTOR_OK, EVENT_COLLECTOR_EXCEPTION}"
    using assms(5) Some push by (auto simp: push_event_def JsonObjectWriter_Serialize_def split: if_splits)
  have "length s \<le> L" using assms(1) Some by (auto simp: texts_within_def)
  moreover have "unat ?n \<le> length s" by (simp add: unat_of_nat)
  ultimately have cost: "cost_of (?d, ?n) \<le> L + 40" by (simp add: cost_of_def)
  then have fits: "booked_bytes w + cost_of (?d, ?n) < 4294967296" using assms(2) by simp
  note facts = sync_push_items [OF assms(3,4) fits push]
  have docs: "docs w1 = docs w" using facts by (auto simp: queued_def)
  define new where "new = drop (length (sync_items (sqs ! i) w)) (sync_items sq w1)"
  have new: "sync_items sq w1 = sync_items (sqs ! i) w @ new" "new \<in> {[], [(?d, ?n)]}" "q = SYNC_OK \<longrightarrow> new = [(?d, ?n)]"
    using facts by (auto simp: new_def)
  have "gained roots L 1 i sqs w new sqs' w'"
    using facts new(1,2) cost docs assms(4) by (auto simp: gained_def run nth_list_update)
  then show ?thesis using new run docs facts by auto
qed

text \<open>Releasing a document that was made for the work, and may have been handed over meanwhile.\<close>

lemma gained_release_object:
  assumes own: "parson_ownership D roots" and "doc_frame w w1" "v \<notin> roots (docs w)" "roots (docs w1) = insert v (roots (docs w))"
    and g: "gained (\<lambda>h. roots h - A - {v}) L n i sqs w1 new sqs' w2"
    and wr: "wRootValue wr = v" "wShouldFree wr \<longleftrightarrow> v \<in> roots (docs w2)"
  shows "gained (\<lambda>h. roots h - A) L n i sqs w new sqs' (JsonObjectWriter_Deinit D wr w2)"
    "roots (docs (JsonObjectWriter_Deinit D wr w2)) = roots (docs w2) - {v}"
proof -
  show less: "roots (docs (JsonObjectWriter_Deinit D wr w2)) = roots (docs w2) - {v}"
    using Deinit_roots [OF own, of wr w2] wr by auto
  have "roots (docs (JsonObjectWriter_Deinit D wr w2)) - A = roots (docs w2) - A - {v}" unfolding less by blast
  also have "\<dots> = roots (docs w) - A" using g assms(3,4) by (auto simp: gained_def)
  finally show "gained (\<lambda>h. roots h - A) L n i sqs w new sqs' (JsonObjectWriter_Deinit D wr w2)"
    using g by (simp add: gained_def doc_frame_sync [OF assms(2)] doc_frame_sync [OF Deinit_frame [of w2 D wr]])
qed

lemma ArrayDeinit_frame: "doc_frame w (JsonArrayWriter_Deinit D arr w)"
  by (simp add: JsonArrayWriter_Deinit_def doc_frame_docs)

lemma gained_release_array:
  assumes own: "parson_ownership D roots" and "doc_frame w w1" "v \<notin> roots (docs w)" "roots (docs w1) = insert v (roots (docs w))"
    and g: "gained (\<lambda>h. roots h - A - {v}) L n i sqs w1 new sqs' w2"
    and arr: "aRootValue arr = v" "aShouldFree arr \<longleftrightarrow> v \<in> roots (docs w2)"
  shows "gained (\<lambda>h. roots h - A) L n i sqs w new sqs' (JsonArrayWriter_Deinit D arr w2)"
    "roots (docs (JsonArrayWriter_Deinit D arr w2)) = roots (docs w2) - {v}"
proof -
  show less: "roots (docs (JsonArrayWriter_Deinit D arr w2)) = roots (docs w2) - {v}"
    using ownership_laws(8) [OF own, of v "docs w2"] arr by (auto simp: JsonArrayWriter_Deinit_def)
  have "roots (docs (JsonArrayWriter_Deinit D arr w2)) - A = roots (docs w2) - A - {v}" unfolding less by blast
  also have "\<dots> = roots (docs w) - A" using g assms(3,4) by (auto simp: gained_def)
  finally show "gained (\<lambda>h. roots h - A) L n i sqs w new sqs' (JsonArrayWriter_Deinit D arr w2)"
    using g by (simp add: gained_def doc_frame_sync [OF assms(2)] doc_frame_sync [OF ArrayDeinit_frame [of w2 D arr]])
qed

lemma gained_fewer: "gained roots L n i sqs w new sqs' w' \<Longrightarrow> gained (\<lambda>h. roots h - A) L n i sqs w new sqs' w'"
  by (simp add: gained_def)

lemma AddPayload_facts:
  assumes D: "parson_lists D roots" and arr: "aShouldFree arr" "aRootValue arr \<in> roots (docs w)"
    and run: "GenericEvent_AddPayload D ev arr w = ((r, arr'), w')"
  shows "doc_frame w w'" "aRootValue arr' = aRootValue arr" "aShouldFree arr' \<longleftrightarrow> aRootValue arr \<in> roots (docs w')"
    "roots (docs w') - {aRootValue arr} = roots (docs w) - {aRootValue arr}"
proof -
  have own: "parson_ownership D roots" using D by (simp add: parson_lists_def)
  obtain r1 w1 where wb: "json_step (JsonObjectWriter_WriteBool D ev EVENT_IS_EMPTY_KEY
      (doc_array_count D (docs w) (aRootArray arr) = 0)) w = (r1, w1)" by fastforce
  have w1: "doc_frame w w1" "roots (docs w1) = roots (docs w)"
    using clean_writes(3) [OF D, of w ev EVENT_IS_EMPTY_KEY "doc_array_count D (docs w) (aRootArray arr) = 0"] wb
    by (simp_all add: clean_def)
  obtain ok h where set: "doc_set_value D (wRootObject ev) PAYLOAD_KEY (aRootValue arr) (docs w1) = (ok, h)" by fastforce
  note laws = ownership_laws(6,7) [OF own, of "wRootObject ev" PAYLOAD_KEY "aRootValue arr" "docs w1", unfolded set fst_conv snd_conv]
  have "w' = w1 \<and> arr' = arr \<or> w' = w1\<lparr>docs := h\<rparr> \<and> arr' = (if ok then arr\<lparr>aShouldFree := False\<rparr> else arr)"
    using run wb set
    by (auto simp: GenericEvent_AddPayload_def JsonArrayWriter_GetSize_def JsonObjectWriter_WriteArray_def on_docs_def Let_def split: if_splits)
  moreover have "roots h = (if ok then roots (docs w1) - {aRootValue arr} else roots (docs w1))"
    using laws by (cases ok) simp_all
  moreover have "doc_frame w (w1\<lparr>docs := h\<rparr>)" by (rule doc_frame_trans [OF w1(1) doc_frame_docs])
  ultimately have "doc_frame w w' \<and> aRootValue arr' = aRootValue arr \<and> (aShouldFree arr' \<longleftrightarrow> aRootValue arr \<in> roots (docs w'))
      \<and> roots (docs w') - {aRootValue arr} = roots (docs w) - {aRootValue arr}"
    using w1 arr by (cases ok) (elim disjE conjE; simp)+
  then show "doc_frame w w'" "aRootValue arr' = aRootValue arr" "aShouldFree arr' \<longleftrightarrow> aRootValue arr \<in> roots (docs w')"
    "roots (docs w') - {aRootValue arr} = roots (docs w) - {aRootValue arr}" by blast+
qed

text \<open>A state of a collector that the documents, the queues and reading the twin do not change.\<close>

definition stable :: "(('h, 'a) queue_env_scheme \<Rightarrow> bool) \<Rightarrow> bool" where
  "stable P \<longleftrightarrow> (\<forall>w w'. P w \<longrightarrow> doc_frame w w' \<or> queued w w' \<or> reported w w' \<longrightarrow> P w')"

lemma stableD: "stable P \<Longrightarrow> P w \<Longrightarrow> doc_frame w w' \<Longrightarrow> P w'" "stable P \<Longrightarrow> P w \<Longrightarrow> queued w w' \<Longrightarrow> P w'"
  "stable P \<Longrightarrow> P w \<Longrightarrow> reported w w' \<Longrightarrow> P w'"
  unfolding stable_def by blast+

lemma stable_True [simp]: "stable (\<lambda>_. True)"
  by (simp add: stable_def)

text \<open>The life of an event, for any metadata and payload steps that keep aside.\<close>

lemma collect_event_with_gained:
  assumes D: "parson_lists D roots" "texts_within D L" and room: "booked_bytes w + (L + 40) < 4294967296"
    and ok: "sync_queues_ok sqs w" and i: "i < length sqs"
    and P: "stable P" "P w" and A: "A \<subseteq> roots (docs w)" "Q y0 A"
    and meta: "\<And>ev w. P w \<Longrightarrow> aside roots w (snd (addMetadata ev w)) \<and> P (snd (addMetadata ev w))"
    and fill: "\<And>arr w w1 r y. P w \<Longrightarrow> A \<subseteq> roots (docs w) \<Longrightarrow> fill arr w = ((r, y), w1) \<Longrightarrow>
      aside (\<lambda>h. roots h - A) w w1 \<and> P w1 \<and> Q y (A \<inter> roots (docs w1))"
    and run: "collect_event_with D dropOk addMetadata fill y0 i sqs w = (((r, sqs'), y), w')"
  shows "P w' \<and> Q y (A \<inter> roots (docs w'))
    \<and> (\<exists>new. gained (\<lambda>h. roots h - A) L 1 i sqs w new sqs' w' \<and> (r = EVENT_COLLECTOR_OK \<and> \<not> dropOk \<longrightarrow> length new = 1))"
proof -
  have own: "parson_ownership D roots" using D(1) by (simp add: parson_lists_def)
  let ?RA = "\<lambda>h. roots h - A"
  let ?good = "\<lambda>R w r sqs' y w'. P w' \<and> Q y (A \<inter> roots (docs w'))
    \<and> (\<exists>new. gained R L 1 i sqs w new sqs' w' \<and> (r = EVENT_COLLECTOR_OK \<and> \<not> dropOk \<longrightarrow> length new = 1))"
  have unchanged: "?good R v r sqs y v'" if "sync_queues_ok sqs v" "r \<noteq> EVENT_COLLECTOR_OK" "aside R v v'" "P v'"
      "Q y (A \<inter> roots (docs v'))" for R v v' r y
    using that gained_aside [OF that(1,3)] by (intro conjI exI [of _ "[]"]) simp_all
  have QA: "Q y0 (A \<inter> X)" if "A \<subseteq> X" for X using A(2) that by (simp add: Int_absorb2)
  from D(1) run [unfolded collect_event_with_def] show ?thesis
  proof (cases rule: with_object_cases)
    case failed
    then have r: "r \<noteq> EVENT_COLLECTOR_OK" "sqs' = sqs" "y = y0" by auto
    have "A \<subseteq> roots (docs w')" "P w'" using failed(2) A(1) stableD(1) [OF P] by (simp_all add: clean_def)
    from unchanged [OF ok r(1) aside_fewer [OF clean_aside [OF failed(2)]] this(2) QA [OF this(1)]] r(2,3)
    show ?thesis by blast
  next
    case (made ev ev' w1 w2)
    obtain r1 w3 where m: "addMetadata ev w1 = (r1, w3)" by fastforce
    have P1: "P w1" by (rule stableD(1) [OF P made(1)])
    have w3: "aside roots w1 w3" and P3: "P w3" using meta [OF P1, of ev] m by simp_all
    note w3A = aside_fewer [OF w3, where A = A]
    have A3: "A \<subseteq> roots (docs w3)" using A(1) w3 made(4) by (auto simp: aside_def)
    have evA: "wRootValue ev \<notin> A" using made(3) A(1) by blast
    have ok1: "sync_queues_ok sqs w1" using ok by (simp add: doc_frame_sync [OF made(1)])
    have ok3: "sync_queues_ok sqs w3" using aside_ok [OF ok1 w3] .
    have "?good ?RA w1 r sqs' y w2 \<and> ev' = ev"
    proof (cases "r1 = EVENT_COLLECTOR_OK")
      case False
      with made(5) m have "r = r1" "sqs' = sqs" "ev' = ev" "w2 = w3" "y = y0" by auto
      with False show ?thesis using unchanged [OF ok1 _ w3A P3] QA [OF A3] by simp
    next
      case True
      let ?body = "\<lambda>payload w. let ((r, y), w1) = fill payload w in
          if r \<noteq> EVENT_COLLECTOR_OK then ((((r, sqs), y), payload), w1)
          else let ((r2, payload'), w2) = GenericEvent_AddPayload D ev payload w1 in
            if r2 \<noteq> EVENT_COLLECTOR_OK then ((((r2, sqs), y), payload'), w2)
            else let (z, w3) = push_event D dropOk i sqs ev w2 in (((z, y), payload'), w3)"
      from made(5) m True have wa: "with_array D ((EVENT_COLLECTOR_EXCEPTION, sqs), y0) ?body w3 = (((r, sqs'), y), w2)"
        and ev': "ev' = ev"
        by (auto split: prod.splits)
      from D(1) wa have "?good ?RA w3 r sqs' y w2"
      proof (cases rule: with_array_cases)
        case failed
        then have r: "r \<noteq> EVENT_COLLECTOR_OK" "sqs' = sqs" "y = y0" by auto
        have "A \<subseteq> roots (docs w2)" "P w2" using failed(2) A3 stableD(1) [OF P(1) P3] by (simp_all add: clean_def)
        from unchanged [OF ok3 r(1) aside_fewer [OF clean_aside [OF failed(2)]] this(2) QA [OF this(1)]] r(2,3)
        show ?thesis by blast
      next
        case (made arr arr' w4 w5)
        let ?R = "\<lambda>h. roots h - A - {aRootValue arr}"
        have arrA: "aRootValue arr \<notin> A" using made(3) A3 by blast
        have A4: "A \<subseteq> roots (docs w4)" using A3 made(4) by blast
        obtain r4 y4 w6 where f: "fill arr w4 = ((r4, y4), w6)" by (metis prod.collapse)
        have ok4: "sync_queues_ok sqs w4" using ok3 by (simp add: doc_frame_sync [OF made(1)])
        have P4: "P w4" by (rule stableD(1) [OF P(1) P3 made(1)])
        have w6: "aside ?RA w4 w6" and P6: "P w6" and Q6: "Q y4 (A \<inter> roots (docs w6))" using fill [OF P4 A4 f] by simp_all
        from w6 have ok6: "sync_queues_ok sqs w6" "aside ?R w4 w6" using aside_ok [OF ok4] by (simp_all add: aside_def)
        have arr6: "aRootValue arr \<in> roots (docs w6)"
          using w6 made(4) arrA unfolding aside_def by blast
        have "?good ?R w4 r sqs' y w5 \<and> aRootValue arr' = aRootValue arr \<and> (aShouldFree arr' \<longleftrightarrow> aRootValue arr \<in> roots (docs w5))"
        proof (cases "r4 = EVENT_COLLECTOR_OK")
          case False
          with made(5) f have "r = r4" "sqs' = sqs" "arr' = arr" "w5 = w6" "y = y4" by auto
          with False show ?thesis using unchanged [OF ok4 _ ok6(2) P6] made(2) arr6 Q6 by simp
        next
          case True
          obtain r7 arr7 w7 where ap: "GenericEvent_AddPayload D ev arr w6 = ((r7, arr7), w7)" by (metis prod.collapse)
          note F = AddPayload_facts [OF D(1) made(2) arr6 ap]
          have P7: "P w7" by (rule stableD(1) [OF P(1) P6 F(1)])
          have "clean ?R w6 w7" using F(1,4) by (auto simp: clean_def)
          from aside_trans [OF ok6(2) clean_aside [OF this]] have w7: "aside ?R w4 w7" .
          have ok7: "sync_queues_ok sqs w7" using ok6(1) by (simp add: doc_frame_sync [OF F(1)])
          have "A \<inter> roots (docs w7) = A \<inter> roots (docs w6)" using F(4) arrA by blast
          then have Q7: "Q y4 (A \<inter> roots (docs w7))" using Q6 by simp
          show ?thesis
          proof (cases "r7 = EVENT_COLLECTOR_OK")
            case False
            with made(5) f True ap have "r = r7" "sqs' = sqs" "arr' = arr7" "w5 = w7" "y = y4" by auto
            with False show ?thesis using unchanged [OF ok4 _ w7 P7 Q7] F by simp
          next
            case r7: True
            from made(5) f True ap r7 have push: "push_event D dropOk i sqs ev w7 = ((r, sqs'), w5)" and arr': "arr' = arr7" "y = y4"
              by (auto split: prod.splits)
            have "booked_bytes w7 = booked_bytes w"
              using w7 w3 by (simp add: aside_def doc_frame_sync [OF made(1)] doc_frame_sync [OF \<open>doc_frame w w1\<close>])
            with room have "booked_bytes w7 + (L + 40) < 4294967296" by simp
            from push_event_gained [OF D(2) this ok7 i push]
            obtain new where new: "gained ?R L 1 i sqs w7 new sqs' w5" "docs w5 = docs w7" "queued w7 w5"
              "r = EVENT_COLLECTOR_OK \<and> \<not> dropOk \<longrightarrow> length new = 1" by fastforce
            have "gained ?R L (0 + 1) i sqs w4 ([] @ new) sqs' w5"
              by (rule gained_trans [OF gained_aside [OF ok4 w7] new(1)])
            with new(2,4) F(2,3) arr' Q7 stableD(2) [OF P(1) P7 new(3)] show ?thesis by (simp del: One_nat_def) blast
          qed
        qed
        then obtain new where inner: "P w5" "Q y (A \<inter> roots (docs w5))" "gained ?R L 1 i sqs w4 new sqs' w5"
            "r = EVENT_COLLECTOR_OK \<and> \<not> dropOk \<longrightarrow> length new = 1"
          and arr: "aRootValue arr' = aRootValue arr" "aShouldFree arr' \<longleftrightarrow> aRootValue arr \<in> roots (docs w5)" by blast
        note rel = gained_release_array [OF own made(1,3,4) inner(3) arr]
        have "A \<inter> roots (docs w2) = A \<inter> roots (docs w5)" using rel(2) arrA unfolding made(6) by blast
        then show ?thesis
          using rel(1) inner stableD(1) [OF P(1) inner(1) ArrayDeinit_frame [of w5 D arr']] unfolding made(6) by auto
      qed
      then obtain new where "gained ?RA L 1 i sqs w3 new sqs' w2" "r = EVENT_COLLECTOR_OK \<and> \<not> dropOk \<longrightarrow> length new = 1"
        and "P w2" "Q y (A \<inter> roots (docs w2))" by blast
      moreover from this(1) have "gained ?RA L (0 + 1) i sqs w1 ([] @ new) sqs' w2"
        by (rule gained_trans [OF gained_aside [OF ok1 w3A]])
      ultimately show ?thesis using ev' by (simp del: One_nat_def) blast
    qed
    then obtain new where new: "gained ?RA L 1 i sqs w1 new sqs' w2" "r = EVENT_COLLECTOR_OK \<and> \<not> dropOk \<longrightarrow> length new = 1"
      and ev': "ev' = ev" and P2: "P w2" and Q2: "Q y (A \<inter> roots (docs w2))" by blast
    have "wShouldFree ev \<longleftrightarrow> wRootValue ev \<in> roots (docs w2)" using made(2,4) new(1) evA unfolding gained_def by blast
    note rel = gained_release_object [OF own made(1,3,4) gained_fewer [OF new(1)] refl this]
    have "A \<inter> roots (docs w') = A \<inter> roots (docs w2)" using rel(2) evA unfolding made(6) ev' by blast
    then show ?thesis
      using rel(1) new(2) Q2 stableD(1) [OF P(1) P2 Deinit_frame [of w2 D ev]] unfolding made(6) ev' by auto
  qed
qed

lemma collect_event_gained:
  assumes D: "parson_lists D roots" "texts_within D L" and room: "booked_bytes w + (L + 40) < 4294967296"
    and ok: "sync_queues_ok sqs w" and i: "i < length sqs"
    and P: "stable P" "P w"
    and meta: "\<And>ev w. P w \<Longrightarrow> aside roots w (snd (addMetadata ev w)) \<and> P (snd (addMetadata ev w))"
    and fill: "\<And>arr w. P w \<Longrightarrow> aside roots w (snd (fill arr w)) \<and> P (snd (fill arr w))"
    and run: "collect_event D dropOk addMetadata fill i sqs w = ((r, sqs'), w')"
  shows "P w' \<and> (\<exists>new. gained roots L 1 i sqs w new sqs' w' \<and> (r = EVENT_COLLECTOR_OK \<and> \<not> dropOk \<longrightarrow> length new = 1))"
proof -
  let ?fill = "\<lambda>payload w. let (r, w1) = fill payload w in ((r, ()), w1)"
  have "collect_event_with D dropOk addMetadata ?fill () i sqs w = (((r, sqs'), ()), w')"
    using run by (auto simp: collect_event_def split: prod.splits)
  moreover have "aside (\<lambda>h. roots h - {}) v v1 \<and> P v1 \<and> True" if "P v" "?fill arr v = ((q, y), v1)" for arr v q y v1
    using fill [OF that(1), of arr] that(2) by (auto simp: Let_def split_beta)
  ultimately have "P w' \<and> True \<and> (\<exists>new. gained (\<lambda>h. roots h - {}) L 1 i sqs w new sqs' w'
      \<and> (r = EVENT_COLLECTOR_OK \<and> \<not> dropOk \<longrightarrow> length new = 1))"
    by (intro collect_event_with_gained [OF D room ok i P, where Q = "\<lambda>_ _. True"]) (simp_all add: meta)
  then show ?thesis by simp
qed

lemma counted_aside:
  fixes w w' :: "('h, 'a) queue_env_scheme"
  assumes "counted w w'"
  shows "aside roots w w'" "queued w w'"
proof -
  obtain n cs where w': "w' = w\<lparr>tick := n, syncedCounters := cs\<rparr>" using assms by (auto simp: counted_def)
  then show "aside roots w w'" by (simp add: aside_def)
  have "w' = w\<lparr>tick := n, syncedCounters := cs, currentConsumptionInBytes := currentConsumptionInBytes w,
      memoryLimitInBytes := memoryLimitInBytes w, queueItems := queueItems w, nextItemAddress := nextItemAddress w\<rparr>"
    by (simp add: w')
  then show "queued w w'" unfolding queued_def by blast
qed

text \<open>A step on counters and then on documents, seen from the queues.\<close>

lemma counted_clean_step:
  fixes w :: "('h, 'a) queue_env_scheme"
  assumes "stable P" "P w" "counted w w1" "clean roots w1 w2"
  shows "aside roots w w2 \<and> P w2"
proof -
  have "aside roots w w2" using counted_aside(1) [OF assms(3)] clean_aside [OF assms(4)] aside_trans by blast
  moreover have "P w1" by (rule stableD(2) [OF assms(1,2) counted_aside(2) [OF assms(3)]])
  then have "P w2" using stableD(1) [OF assms(1)] assms(4) unfolding clean_def by blast
  ultimately show ?thesis ..
qed

lemma reported_aside:
  fixes w w' :: "('h, 'a) queue_env_scheme"
  assumes "reported w w'" "twinConfigurationObjectName w \<noteq> None" "roots (docs w') = roots (docs w)"
  shows "aside roots w w'"
proof -
  have "twin_footprint w w'" "fault w' = fault w" using assms(1,2) by (simp_all add: reported_def)
  then show ?thesis using assms(3) unfolding twin_footprint_def by (elim exE) (simp add: aside_def)
qed

lemma clean_metadata_step:
  fixes w :: "('h, 'a) queue_env_scheme"
  assumes "parson_lists D roots" "stable P" "P w"
  shows "aside roots w (snd (GenericEvent_AddMetadata D ev category name ty version w))
    \<and> P (snd (GenericEvent_AddMetadata D ev category name ty version w))"
  by (rule counted_clean_step [OF assms(2,3) counted_refl clean_metadata(2) [OF assms(1)]])

lemma aside_steps:
  fixes w :: "('h, 'a) queue_env_scheme"
  assumes "\<And>f w. f \<in> set fs \<Longrightarrow> P w \<Longrightarrow> aside roots w (snd (f w)) \<and> P (snd (f w))" and "P w"
  shows "aside roots w (snd (event_steps fs w)) \<and> P (snd (event_steps fs w))"
  using assms
proof (induction fs arbitrary: w)
  case (Cons f fs)
  have f: "aside roots w (snd (f w)) \<and> P (snd (f w))" using Cons.prems by simp
  moreover have "aside roots (snd (f w)) (snd (event_steps fs (snd (f w)))) \<and> P (snd (event_steps fs (snd (f w))))"
    using Cons.IH [of "snd (f w)"] Cons.prems(1) f by simp
  ultimately show ?case using aside_trans by (auto simp: Let_def split_beta)
qed simp

text \<open>One event with \<open>GenericEvent_AddMetadata\<close>, in the form the collectors use.\<close>

lemma dated_event_gained:
  assumes D: "parson_lists D roots" "texts_within D L" and P: "stable P" "P w"
    and room: "booked_bytes w + (L + 40) < 4294967296" and ok: "sync_queues_ok sqs w" and i: "i < length sqs"
    and fill: "\<And>arr w. P w \<Longrightarrow> aside roots w (snd (fill arr w)) \<and> P (snd (fill arr w))"
    and run: "collect_event D dropOk (\<lambda>ev. GenericEvent_AddMetadata D ev category name ty version) fill i sqs w = ((r, sqs'), w')"
  shows "P w' \<and> (\<exists>new. gained roots L 1 i sqs w new sqs' w' \<and> (r = EVENT_COLLECTOR_OK \<and> \<not> dropOk \<longrightarrow> length new = 1))"
  by (rule collect_event_gained [OF D room ok i P _ _ run]) (rule clean_metadata_step [OF D(1) P(1)], assumption, rule fill)

end
