(* ===== verification/Agent_Telemetry_Collector.thy ===== *)
theory Agent_Telemetry_Collector
  imports Generic_Event
begin

text \<open>
  The agent's reports about itself, \<^verbatim>\<open>src/agent/src/collectors/agent_telemetry_collector.c\<close>: how many
  events the two queues collected and dropped, and how many messages were sent.
\<close>

definition HIGH_PRIO_QUEUE_NAME :: string where "HIGH_PRIO_QUEUE_NAME = ''High''"
definition LOW_PRIO_QUEUE_NAME :: string where "LOW_PRIO_QUEUE_NAME = ''Low''"
definition AGENT_TELEMETRY_COLLECTED_EVENTS_KEY :: string where "AGENT_TELEMETRY_COLLECTED_EVENTS_KEY = ''CollectedEvents''"
definition AGENT_TELEMETRY_DROPPED_EVENTS_KEY :: string where "AGENT_TELEMETRY_DROPPED_EVENTS_KEY = ''DroppedEvents''"
definition AGENT_TELEMETRY_DROPPED_EVENTS_NAME :: string where "AGENT_TELEMETRY_DROPPED_EVENTS_NAME = ''DroppedEventsStatistics''"
definition AGENT_TELEMETRY_DROPPED_EVENTS_SCHEMA_VERSION :: string where "AGENT_TELEMETRY_DROPPED_EVENTS_SCHEMA_VERSION = ''1.0''"
definition AGENT_TELEMETRY_MESSAGE_STATISTICS_NAME :: string where "AGENT_TELEMETRY_MESSAGE_STATISTICS_NAME = ''MessageStatistics''"
definition AGENT_TELEMETRY_MESSAGE_STATISTICS_SCHEMA_VERSION :: string where
  "AGENT_TELEMETRY_MESSAGE_STATISTICS_SCHEMA_VERSION = ''1.0''"
definition AGENT_TELEMETRY_MESSAGES_FAILED_KEY :: string where "AGENT_TELEMETRY_MESSAGES_FAILED_KEY = ''TotalFailed''"
definition AGENT_TELEMETRY_MESSAGES_SENT_KEY :: string where "AGENT_TELEMETRY_MESSAGES_SENT_KEY = ''MessagesSent''"
definition AGENT_TELEMETRY_MESSAGES_UNDER_4KB_KEY :: string where "AGENT_TELEMETRY_MESSAGES_UNDER_4KB_KEY = ''MessagesUnder4KB''"
definition AGENT_TELEMETRY_QUEUE_EVENTS_KEY :: string where "AGENT_TELEMETRY_QUEUE_EVENTS_KEY = ''Queue''"

text \<open>The counters are \<open>uint32_t\<close>, the writer takes an \<open>int\<close>.\<close>

definition AgentTelemetryCollector_AddDroppedEventsStatsPayload ::
  "('v, 'o, 'r, 'h) parson_doc \<Rightarrow> QueueCounter \<Rightarrow> string \<Rightarrow> ('v, 'r) JsonArrayWriter \<Rightarrow> ('h, 'a) docs_env_scheme \<Rightarrow>
    EventCollectorResult \<times> ('h, 'a) docs_env_scheme" where
  "AgentTelemetryCollector_AddDroppedEventsStatsPayload D queueCounterData queueName payloadWriter =
     add_payload_object D payloadWriter
       (\<lambda>payloadObject.
         [json_step (JsonObjectWriter_WriteString D payloadObject AGENT_TELEMETRY_QUEUE_EVENTS_KEY queueName),
          json_step (JsonObjectWriter_WriteInt D payloadObject AGENT_TELEMETRY_COLLECTED_EVENTS_KEY
            (sint (qc_collected queueCounterData))),
          json_step (JsonObjectWriter_WriteInt D payloadObject AGENT_TELEMETRY_DROPPED_EVENTS_KEY
            (sint (qc_dropped queueCounterData)))])"

definition AgentTelemetryCollector_AddMessageStatisticsPayload ::
  "('v, 'o, 'r, 'h) parson_doc \<Rightarrow> MessageCounter \<Rightarrow> ('v, 'r) JsonArrayWriter \<Rightarrow> ('h, 'a) docs_env_scheme \<Rightarrow>
    EventCollectorResult \<times> ('h, 'a) docs_env_scheme" where
  "AgentTelemetryCollector_AddMessageStatisticsPayload D counterData payloadHandle =
     add_payload_object D payloadHandle
       (\<lambda>payloadObject.
         [json_step (JsonObjectWriter_WriteInt D payloadObject AGENT_TELEMETRY_MESSAGES_SENT_KEY
            (sint (mc_sentMessages counterData))),
          json_step (JsonObjectWriter_WriteInt D payloadObject AGENT_TELEMETRY_MESSAGES_FAILED_KEY
            (sint (mc_failedMessages counterData))),
          json_step (JsonObjectWriter_WriteInt D payloadObject AGENT_TELEMETRY_MESSAGES_UNDER_4KB_KEY
            (sint (mc_smallMessages counterData)))])"

definition AgentTelemetryCollector_AddQueueCounterPayload ::
  "('v, 'o, 'r, 'h) parson_doc \<Rightarrow> ('v, 'r) JsonArrayWriter \<Rightarrow> AgentQueueMeter \<Rightarrow> ('h, 'a) counter_env_scheme \<Rightarrow>
    EventCollectorResult \<times> ('h, 'a) counter_env_scheme" where
  "AgentTelemetryCollector_AddQueueCounterPayload D payloadHandle queueMeter w =
     (case AgentTelemetryProvider_GetQueueCounterData queueMeter w of
        ((TELEMETRY_PROVIDER_OK, Some counterData), w1) \<Rightarrow>
          AgentTelemetryCollector_AddDroppedEventsStatsPayload D counterData
            (if queueMeter = HIGH_PRIORITY then HIGH_PRIO_QUEUE_NAME else LOW_PRIO_QUEUE_NAME) payloadHandle w1
      | (_, w1) \<Rightarrow> (EVENT_COLLECTOR_EXCEPTION, w1))"

definition AgentTelemetryCollector_AddDroppedEventsEvent ::
  "('v, 'o, 'r, 'h) parson_doc \<Rightarrow> nat \<Rightarrow> SyncQueue list \<Rightarrow> ('h, 'a) queue_env_scheme \<Rightarrow>
    (EventCollectorResult \<times> SyncQueue list) \<times> ('h, 'a) queue_env_scheme" where
  "AgentTelemetryCollector_AddDroppedEventsEvent D =
     collect_event D False
       (\<lambda>eventHandle. GenericEvent_AddMetadata D eventHandle EVENT_PERIODIC_CATEGORY AGENT_TELEMETRY_DROPPED_EVENTS_NAME
          EVENT_TYPE_OPERATIONAL_VALUE AGENT_TELEMETRY_DROPPED_EVENTS_SCHEMA_VERSION)
       (\<lambda>payloadHandle. event_steps
          [AgentTelemetryCollector_AddQueueCounterPayload D payloadHandle HIGH_PRIORITY,
           AgentTelemetryCollector_AddQueueCounterPayload D payloadHandle LOW_PRIORITY])"

definition add_message_counter ::
  "('v, 'o, 'r, 'h) parson_doc \<Rightarrow> ('v, 'r) JsonArrayWriter \<Rightarrow> ('h, 'a) counter_env_scheme \<Rightarrow>
    EventCollectorResult \<times> ('h, 'a) counter_env_scheme" where
  "add_message_counter D payloadHandle w =
     (case AgentTelemetryProvider_GetMessageCounterData w of
        ((TELEMETRY_PROVIDER_OK, Some counterData), w1) \<Rightarrow>
          AgentTelemetryCollector_AddMessageStatisticsPayload D counterData payloadHandle w1
      | (_, w1) \<Rightarrow> (EVENT_COLLECTOR_EXCEPTION, w1))"

definition AgentTelemetryCollector_AddMessageStatisticsEvent ::
  "('v, 'o, 'r, 'h) parson_doc \<Rightarrow> nat \<Rightarrow> SyncQueue list \<Rightarrow> ('h, 'a) queue_env_scheme \<Rightarrow>
    (EventCollectorResult \<times> SyncQueue list) \<times> ('h, 'a) queue_env_scheme" where
  "AgentTelemetryCollector_AddMessageStatisticsEvent D =
     collect_event D False
       (\<lambda>eventHandle. GenericEvent_AddMetadata D eventHandle EVENT_PERIODIC_CATEGORY AGENT_TELEMETRY_MESSAGE_STATISTICS_NAME
          EVENT_TYPE_OPERATIONAL_VALUE AGENT_TELEMETRY_MESSAGE_STATISTICS_SCHEMA_VERSION)
       (add_message_counter D)"

definition AgentTelemetryCollector_GetEvents ::
  "('v, 'o, 'r, 'h) parson_doc \<Rightarrow> nat \<Rightarrow> SyncQueue list \<Rightarrow> ('h, 'a) queue_env_scheme \<Rightarrow>
    (EventCollectorResult \<times> SyncQueue list) \<times> ('h, 'a) queue_env_scheme" where
  "AgentTelemetryCollector_GetEvents D priorityQueue sqs w =
     (let ((r, sqs1), w1) = AgentTelemetryCollector_AddDroppedEventsEvent D priorityQueue sqs w in
      if r \<noteq> EVENT_COLLECTOR_OK then ((r, sqs1), w1)
      else AgentTelemetryCollector_AddMessageStatisticsEvent D priorityQueue sqs1 w1)"

section \<open>What it leaves behind\<close>

definition provider_ready :: "('h, 'a) counter_env_scheme \<Rightarrow> bool" where
  "provider_ready w \<longleftrightarrow> lowPriorityQueueCounter (agentTelemetryProvider w) \<noteq> None
     \<and> highPriorityQueueCounter (agentTelemetryProvider w) \<noteq> None \<and> iotHubCounter (agentTelemetryProvider w) \<noteq> None"

lemma stable_provider: "stable provider_ready"
  by (auto simp: stable_def doc_frame_def queued_def reported_def twin_footprint_def provider_ready_def)

lemma SnapshotAndReset_counted: "counted w (snd (AgentTelemetryCounter_SnapshotAndReset c w))"
  unfolding AgentTelemetryCounter_SnapshotAndReset_def
  by (rule locked_rel [where R = counted]) (auto intro: ticked_counted counted_trans set_counter_counted)

lemma counter_data_counted:
  assumes "provider_ready w"
  shows "counted w (snd (AgentTelemetryProvider_GetQueueCounterData queue w))"
    "counted w (snd (AgentTelemetryProvider_GetMessageCounterData w))"
  using assms
  by (auto simp: provider_ready_def AgentTelemetryProvider_GetQueueCounterData_def snapshot_through_def
      AgentTelemetryProvider_GetMessageCounterData_def Let_def split_beta SnapshotAndReset_counted split: AgentQueueMeter.split)

lemma queue_counter_step:
  fixes w :: "('h, 'a) queue_env_scheme"
  assumes D: "parson_lists D roots" and P: "stable P" "P w" and ready: "\<And>w. P w \<Longrightarrow> provider_ready w"
  shows "aside roots w (snd (AgentTelemetryCollector_AddQueueCounterPayload D arr meter w))
    \<and> P (snd (AgentTelemetryCollector_AddQueueCounterPayload D arr meter w))"
proof (rule counted_clean_step [OF P])
  show c: "counted w (snd (AgentTelemetryProvider_GetQueueCounterData meter w))"
    by (rule counter_data_counted(1) [OF ready [OF P(2)]])
  show "clean roots (snd (AgentTelemetryProvider_GetQueueCounterData meter w))
      (snd (AgentTelemetryCollector_AddQueueCounterPayload D arr meter w))"
    by (auto simp: AgentTelemetryCollector_AddQueueCounterPayload_def AgentTelemetryCollector_AddDroppedEventsStatsPayload_def
        intro!: clean_payload_object [OF D] split: prod.split AgentTelemetryProviderResult.split option.split)
       (auto intro: clean_writes [OF D])
qed

lemma message_counter_step:
  fixes w :: "('h, 'a) queue_env_scheme"
  assumes D: "parson_lists D roots" and P: "stable P" "P w" and ready: "\<And>w. P w \<Longrightarrow> provider_ready w"
  shows "aside roots w (snd (add_message_counter D arr w)) \<and> P (snd (add_message_counter D arr w))"
proof (rule counted_clean_step [OF P])
  show c: "counted w (snd (AgentTelemetryProvider_GetMessageCounterData w))"
    by (rule counter_data_counted(2) [OF ready [OF P(2)]])
  show "clean roots (snd (AgentTelemetryProvider_GetMessageCounterData w)) (snd (add_message_counter D arr w))"
    by (auto simp: add_message_counter_def AgentTelemetryCollector_AddMessageStatisticsPayload_def
        intro!: clean_payload_object [OF D] split: prod.split AgentTelemetryProviderResult.split option.split)
       (auto intro: clean_writes [OF D])
qed

lemma Telemetry_gained:
  assumes D: "parson_lists D roots" "texts_within D L" and P: "stable P" "P w" and ready: "\<And>w. P w \<Longrightarrow> provider_ready w"
    and room: "booked_bytes w + 2 * (L + 40) < 4294967296" and ok: "sync_queues_ok sqs w" and i: "i < length sqs"
    and run: "AgentTelemetryCollector_GetEvents D i sqs w = ((r, sqs'), w')"
  shows "P w' \<and> (\<exists>new. gained roots L 2 i sqs w new sqs' w' \<and> (r = EVENT_COLLECTOR_OK \<longrightarrow> length new = 2))"
proof -
  obtain r1 sqs1 w1 where first: "AgentTelemetryCollector_AddDroppedEventsEvent D i sqs w = ((r1, sqs1), w1)"
    by (metis prod.collapse)
  have room1: "booked_bytes w + (L + 40) < 4294967296" using room by simp
  have "aside roots w (snd (event_steps [AgentTelemetryCollector_AddQueueCounterPayload D arr HIGH_PRIORITY,
        AgentTelemetryCollector_AddQueueCounterPayload D arr LOW_PRIORITY] w))
      \<and> P (snd (event_steps [AgentTelemetryCollector_AddQueueCounterPayload D arr HIGH_PRIORITY,
        AgentTelemetryCollector_AddQueueCounterPayload D arr LOW_PRIORITY] w))" if "P w" for arr w
    using that by (intro aside_steps) (auto simp: queue_counter_step [OF D(1) P(1) _ ready])
  from dated_event_gained [OF D P room1 ok i this first [unfolded AgentTelemetryCollector_AddDroppedEventsEvent_def]]
  obtain new where P1: "P w1" and new: "gained roots L 1 i sqs w new sqs1 w1" "r1 = EVENT_COLLECTOR_OK \<longrightarrow> length new = 1"
    by blast
  show ?thesis
  proof (cases "r1 = EVENT_COLLECTOR_OK")
    case False
    with run first have "r = r1" "sqs' = sqs1" "w' = w1" by (auto simp: AgentTelemetryCollector_GetEvents_def)
    moreover have "gained roots L 2 i sqs w new sqs1 w1" using new(1) by (auto simp: gained_def)
    ultimately show ?thesis using False P1 by blast
  next
    case True
    have second: "AgentTelemetryCollector_AddMessageStatisticsEvent D i sqs1 w1 = ((r, sqs'), w')"
      using run first True by (simp add: AgentTelemetryCollector_GetEvents_def)
    have next1: "booked_bytes w1 + (L + 40) < 4294967296" "sync_queues_ok sqs1 w1" "i < length sqs1"
      using new(1) room i by (auto simp: gained_def)
    from dated_event_gained [OF D P(1) P1 next1 message_counter_step [OF D(1) P(1) _ ready]
        second [unfolded AgentTelemetryCollector_AddMessageStatisticsEvent_def]]
    obtain new2 where "P w'" "gained roots L 1 i sqs1 w1 new2 sqs' w'" "r = EVENT_COLLECTOR_OK \<longrightarrow> length new2 = 1"
      by blast
    with gained_trans [OF new(1) this(2)] new(2) True show ?thesis
      by (intro conjI exI [of _ "new @ new2"]) (simp_all add: numeral_2_eq_2)
  qed
qed

end
