(* ===== verification/Configuration_Error_Collector.thy ===== *)
theory Configuration_Error_Collector
  imports Agent_Telemetry_Collector
begin

text \<open>
  What is wrong with the twin's configuration, reported once after each update:
  \<^verbatim>\<open>src/agent/src/collectors/agent_configuration_error_collector.c\<close>.
\<close>

definition ERROR_TYPE_CONFLICT :: string where "ERROR_TYPE_CONFLICT = ''Conflict''"
definition ERROR_TYPE_NOT_OPTIMAL :: string where "ERROR_TYPE_NOT_OPTIMAL = ''NotOptimal''"
definition ERROR_TYPE_TYPE_MISMATCH :: string where "ERROR_TYPE_TYPE_MISMATCH = ''TypeMismatch''"
definition EVENT_PROPERTIES_KEY :: string where "EVENT_PROPERTIES_KEY = ''eventPriorities''"
definition AGENT_CONFIGURATION_ERROR_CONFIGURATION_NAME_KEY :: string where
  "AGENT_CONFIGURATION_ERROR_CONFIGURATION_NAME_KEY = ''ConfigurationName''"
definition AGENT_CONFIGURATION_ERROR_ERROR_KEY :: string where "AGENT_CONFIGURATION_ERROR_ERROR_KEY = ''ErrorType''"
definition AGENT_CONFIGURATION_ERROR_EVENT_NAME :: string where "AGENT_CONFIGURATION_ERROR_EVENT_NAME = ''ConfigurationError''"
definition AGENT_CONFIGURATION_ERROR_EVENT_SCHEMA_VERSION :: string where
  "AGENT_CONFIGURATION_ERROR_EVENT_SCHEMA_VERSION = ''1.0''"
definition AGENT_CONFIGURATION_ERROR_MESSAGE_KEY :: string where "AGENT_CONFIGURATION_ERROR_MESSAGE_KEY = ''Message''"
definition AGENT_CONFIGURATION_ERROR_USED_CONFIGURATION_KEY :: string where
  "AGENT_CONFIGURATION_ERROR_USED_CONFIGURATION_KEY = ''UsedConfiguration''"

text \<open>The static \<open>lastEvent\<close> is the time of the last update reported.\<close>

record 'h config_error_env = "'h hub_env" +
  lastEvent :: time_t

section \<open>The message about mismatched types\<close>

text \<open>
  Appending to the buffer as long as it fits; a failing step stops the message.  After a success the
  terminator is written two characters before the cursor, over the last character of the last key.
\<close>

fun concatenate_keys :: "(string \<times> TwinConfigurationStatus) list \<Rightarrow> cursor \<Rightarrow> bool \<times> cursor" where
  "concatenate_keys [] msgBuffer = (True, msgBuffer)"
| "concatenate_keys ((key, status) # rest) msgBuffer =
     (if status = CONFIGURATION_TYPE_MISMATCH
      then and_then (Utils_ConcatenateToString msgBuffer ('' '' @ key @ '','')) (concatenate_keys rest)
      else concatenate_keys rest msgBuffer)"

definition AgentConfigurationErrorCollector_GenerateTypeMismatchMessage ::
  "TwinConfigurationBundleStatus \<Rightarrow> u32 \<Rightarrow> EventCollectorResult \<times> string" where
  "AgentConfigurationErrorCollector_GenerateTypeMismatchMessage bundleStatus bufferSize =
     (let (ok, msgBuffer) =
        and_then (Utils_ConcatenateToString \<lparr>written = [], room = bufferSize, spill = []\<rparr>
            ''Couldn't parse the following conifgurations:'')
          (concatenate_keys
            [(MAX_LOCAL_CACHE_SIZE_KEY, st_maxLocalCacheSize bundleStatus),
             (MAX_MESSAGE_SIZE_KEY, st_maxMessageSize bundleStatus),
             (LOW_PRIORITY_MESSAGE_FREQUENCY_KEY, st_lowPriorityMessageFrequency bundleStatus),
             (HIGH_PRIORITY_MESSAGE_FREQUENCY_KEY, st_highPriorityMessageFrequency bundleStatus),
             (SNAPSHOT_FREQUENCY_KEY, st_snapshotFrequency bundleStatus),
             (EVENT_PROPERTIES_KEY, st_eventPriorities bundleStatus)])
      in if \<not> ok then (EVENT_COLLECTOR_EXCEPTION, written msgBuffer)
         else (EVENT_COLLECTOR_OK, take (length (written msgBuffer) - 2) (written msgBuffer)))"

section \<open>Payloads\<close>

definition AgentConfigurationErrorCollector_AddPayload ::
  "('v, 'o, 'r, 'h) parson_doc \<Rightarrow> ('v, 'r) JsonArrayWriter \<Rightarrow> string \<Rightarrow> string \<Rightarrow> string \<Rightarrow> string \<Rightarrow>
    ('h, 'a) docs_env_scheme \<Rightarrow> EventCollectorResult \<times> ('h, 'a) docs_env_scheme" where
  "AgentConfigurationErrorCollector_AddPayload D payloadHandle configurationName error msg usedConfig =
     add_payload_object D payloadHandle
       (\<lambda>payloadObject.
         [json_step (JsonObjectWriter_WriteString D payloadObject AGENT_CONFIGURATION_ERROR_CONFIGURATION_NAME_KEY configurationName),
          json_step (JsonObjectWriter_WriteString D payloadObject AGENT_CONFIGURATION_ERROR_USED_CONFIGURATION_KEY usedConfig),
          json_step (JsonObjectWriter_WriteString D payloadObject AGENT_CONFIGURATION_ERROR_MESSAGE_KEY msg),
          json_step (JsonObjectWriter_WriteString D payloadObject AGENT_CONFIGURATION_ERROR_ERROR_KEY error)])"

text \<open>Reading one number of the configuration, and printing it with \<open>%d\<close>.\<close>

definition with_setting ::
  "('w \<Rightarrow> (TwinConfigurationResult \<times> u32 option) \<times> 'w) \<Rightarrow> (u32 \<Rightarrow> 'w \<Rightarrow> EventCollectorResult \<times> 'w) \<Rightarrow> 'w \<Rightarrow>
    EventCollectorResult \<times> 'w" where
  "with_setting getter body w =
     (case getter w of
        ((TWIN_OK, Some n), w1) \<Rightarrow> body n w1
      | (_, w1) \<Rightarrow> (EVENT_COLLECTOR_EXCEPTION, w1))"

definition AgentConfigurationErrorCollector_ValidateMaxLocalCacheSizeIsHigherThanMaxMessageSize ::
  "('v, 'o, 'r, 'h) parson_doc \<Rightarrow> ('v, 'r) JsonArrayWriter \<Rightarrow> ('h, 'a) twin_env_scheme \<Rightarrow>
    EventCollectorResult \<times> ('h, 'a) twin_env_scheme" where
  "AgentConfigurationErrorCollector_ValidateMaxLocalCacheSizeIsHigherThanMaxMessageSize D payloadHandle =
     with_setting TwinConfiguration_GetMaxLocalCacheSize (\<lambda>maxCacheConfig.
       with_setting TwinConfiguration_GetMaxMessageSize (\<lambda>maxMessageSizeConfig w.
         if maxCacheConfig < maxMessageSizeConfig
         then AgentConfigurationErrorCollector_AddPayload D payloadHandle MAX_LOCAL_CACHE_SIZE_KEY ERROR_TYPE_CONFLICT
                ''maxLocalCacheSize is lower than maxMessageSize'' (int_to_dec (sint maxCacheConfig)) w
         else (EVENT_COLLECTOR_OK, w)))"

definition AgentConfigurationErrorCollector_ValidateMaxMessageSizeOptimal ::
  "('v, 'o, 'r, 'h) parson_doc \<Rightarrow> ('v, 'r) JsonArrayWriter \<Rightarrow> ('h, 'a) twin_env_scheme \<Rightarrow>
    EventCollectorResult \<times> ('h, 'a) twin_env_scheme" where
  "AgentConfigurationErrorCollector_ValidateMaxMessageSizeOptimal D payloadHandle =
     with_setting TwinConfiguration_GetMaxMessageSize (\<lambda>maxMessageSizeConfig w.
       if unat maxMessageSizeConfig mod MESSAGE_BILLING_MULTIPLE \<noteq> 0
       then AgentConfigurationErrorCollector_AddPayload D payloadHandle MAX_MESSAGE_SIZE_KEY ERROR_TYPE_NOT_OPTIMAL
              ''maxMessageSize is not optimal'' (int_to_dec (sint maxMessageSizeConfig)) w
       else (EVENT_COLLECTOR_OK, w))"

definition AgentConfigurationErrorCollector_ValidateHighPrioFreqIsLowerThanLowPrioFreq ::
  "('v, 'o, 'r, 'h) parson_doc \<Rightarrow> ('v, 'r) JsonArrayWriter \<Rightarrow> ('h, 'a) twin_env_scheme \<Rightarrow>
    EventCollectorResult \<times> ('h, 'a) twin_env_scheme" where
  "AgentConfigurationErrorCollector_ValidateHighPrioFreqIsLowerThanLowPrioFreq D payloadHandle =
     with_setting TwinConfiguration_GetHighPriorityMessageFrequency (\<lambda>highPrioFreq.
       with_setting TwinConfiguration_GetLowPriorityMessageFrequency (\<lambda>lowPrioFreq w.
         if highPrioFreq > lowPrioFreq
         then
           let (ok, configAsString) = TimeUtils_MillisecondsToISO8601DurationString highPrioFreq DURATION_MAX_LENGTH in
           if \<not> ok then (EVENT_COLLECTOR_EXCEPTION, w)
           else AgentConfigurationErrorCollector_AddPayload D payloadHandle HIGH_PRIORITY_MESSAGE_FREQUENCY_KEY
                  ERROR_TYPE_CONFLICT ''high priority frequency is higher than low priority frequency''
                  (written configAsString) w
         else (EVENT_COLLECTOR_OK, w)))"

text \<open>The text of the current configuration is not freed.\<close>

definition AgentConfigurationErrorCollector_CreateTypeMismatchPayload ::
  "('v, 'o, 'r, 'h) parson_doc \<Rightarrow> ('v, 'r) JsonArrayWriter \<Rightarrow> TwinConfigurationUpdateResult \<Rightarrow> ('h, 'a) twin_env_scheme \<Rightarrow>
    EventCollectorResult \<times> ('h, 'a) twin_env_scheme" where
  "AgentConfigurationErrorCollector_CreateTypeMismatchPayload D payloadHandle lastUpdate w =
     (let (r, buffer) = AgentConfigurationErrorCollector_GenerateTypeMismatchMessage (configurationBundleStatus lastUpdate) 512 in
      if r \<noteq> EVENT_COLLECTOR_OK then (r, w)
      else
        case TwinConfiguration_GetSerializedTwinConfiguration D w of
          ((TWIN_OK, Some (currentConfiguration, _)), w1) \<Rightarrow>
            AgentConfigurationErrorCollector_AddPayload D payloadHandle ''TwinConfiguration'' ERROR_TYPE_TYPE_MISMATCH
              buffer currentConfiguration w1
        | (_, w1) \<Rightarrow> (EVENT_COLLECTOR_EXCEPTION, w1))"

section \<open>The event\<close>

definition configuration_errors ::
  "('v, 'o, 'r, 'h) parson_doc \<Rightarrow> TwinConfigurationUpdateResult \<Rightarrow> ('v, 'r) JsonArrayWriter \<Rightarrow> ('h, 'a) twin_env_scheme \<Rightarrow>
    EventCollectorResult \<times> ('h, 'a) twin_env_scheme" where
  "configuration_errors D lastTwinUpdateResult payloadHandle =
     (if lastUpdateResult lastTwinUpdateResult = TWIN_OK
      then event_steps
        [AgentConfigurationErrorCollector_ValidateMaxLocalCacheSizeIsHigherThanMaxMessageSize D payloadHandle,
         AgentConfigurationErrorCollector_ValidateMaxMessageSizeOptimal D payloadHandle,
         AgentConfigurationErrorCollector_ValidateHighPrioFreqIsLowerThanLowPrioFreq D payloadHandle]
      else if lastUpdateResult lastTwinUpdateResult = TWIN_PARSE_EXCEPTION
      then AgentConfigurationErrorCollector_CreateTypeMismatchPayload D payloadHandle lastTwinUpdateResult
      else event_steps [])"

text \<open>\<open>lastEvent\<close> moves on in the \<open>cleanup\<close> block, whether the event could be queued or not.\<close>

definition AgentConfigurationErrorCollector_GetEvents ::
  "('v, 'o, 'r, 'h) parson_doc \<Rightarrow> nat \<Rightarrow> SyncQueue list \<Rightarrow> ('h, 'a) config_error_env_scheme \<Rightarrow>
    (EventCollectorResult \<times> SyncQueue list) \<times> ('h, 'a) config_error_env_scheme" where
  "AgentConfigurationErrorCollector_GetEvents D priorityQueue sqs w =
     (let lastTwinUpdateResult = TwinConfiguration_GetLastTwinUpdateData w;
          (x, w1) =
            (if TimeUtils_GetTimeDiff w (lastUpdateTime lastTwinUpdateResult) (lastEvent w) = 0
             then ((EVENT_COLLECTOR_OK, sqs), w)
             else collect_event D False
               (\<lambda>eventHandle. GenericEvent_AddMetadata D eventHandle EVENT_TRIGGERED_CATEGORY
                  AGENT_CONFIGURATION_ERROR_EVENT_NAME EVENT_TYPE_OPERATIONAL_VALUE
                  AGENT_CONFIGURATION_ERROR_EVENT_SCHEMA_VERSION)
               (configuration_errors D lastTwinUpdateResult) priorityQueue sqs w)
      in (x, w1\<lparr>lastEvent := lastUpdateTime lastTwinUpdateResult\<rparr>))"

section \<open>What it leaves behind\<close>

lemma getters_ticked:
  "ticked w (snd (TwinConfiguration_GetMaxLocalCacheSize w))" "ticked w (snd (TwinConfiguration_GetMaxMessageSize w))"
  "ticked w (snd (TwinConfiguration_GetLowPriorityMessageFrequency w))"
  "ticked w (snd (TwinConfiguration_GetHighPriorityMessageFrequency w))"
  "ticked w (snd (TwinConfiguration_GetSnapshotFrequency w))"
  by (simp_all add: TwinConfiguration_GetMaxLocalCacheSize_def TwinConfiguration_GetMaxMessageSize_def
      TwinConfiguration_GetLowPriorityMessageFrequency_def TwinConfiguration_GetHighPriorityMessageFrequency_def
      TwinConfiguration_GetSnapshotFrequency_def TwinConfiguration_GetFieldInteger_def GetField_ticked)

lemma clean_setting:
  assumes "\<And>w. ticked w (snd (getter w))" and "\<And>n w. clean roots w (snd (body n w))"
  shows "clean roots w (snd (with_setting getter body w))"
proof -
  have "clean roots w (snd (getter w))" by (rule ticked_clean) (rule assms(1))
  then show ?thesis using clean_trans [OF _ assms(2)]
    by (auto simp: with_setting_def split: prod.split TwinConfigurationResult.split option.split)
qed

lemma clean_error_payload:
  "parson_lists D roots \<Longrightarrow> clean roots w (snd (AgentConfigurationErrorCollector_AddPayload D arr name error msg used w))"
  unfolding AgentConfigurationErrorCollector_AddPayload_def
  by (rule clean_payload_object) (auto intro: clean_writes)

lemma clean_validations:
  assumes "parson_lists D roots"
  shows "clean roots w (snd (AgentConfigurationErrorCollector_ValidateMaxLocalCacheSizeIsHigherThanMaxMessageSize D arr w))"
    "clean roots w (snd (AgentConfigurationErrorCollector_ValidateMaxMessageSizeOptimal D arr w))"
    "clean roots w (snd (AgentConfigurationErrorCollector_ValidateHighPrioFreqIsLowerThanLowPrioFreq D arr w))"
  unfolding AgentConfigurationErrorCollector_ValidateMaxLocalCacheSizeIsHigherThanMaxMessageSize_def
    AgentConfigurationErrorCollector_ValidateMaxMessageSizeOptimal_def
    AgentConfigurationErrorCollector_ValidateHighPrioFreqIsLowerThanLowPrioFreq_def
  by (auto intro!: clean_setting getters_ticked simp: clean_error_payload [OF assms] Let_def split_beta)

lemma configuration_errors_step:
  fixes w :: "('h, 'a) queue_env_scheme"
  assumes D: "parson_lists D roots" and P: "stable P" "P w" and named: "\<And>w. P w \<Longrightarrow> twinConfigurationObjectName w \<noteq> None"
  shows "aside roots w (snd (configuration_errors D u arr w)) \<and> P (snd (configuration_errors D u arr w))"
proof -
  have own: "parson_ownership D roots" using D by (simp add: parson_lists_def)
  have step: "aside roots w w' \<and> P w'" if "clean roots w w'" "P w" for w w'
    using counted_clean_step [OF P(1) that(2) counted_refl that(1)] .
  obtain x w1 where ser: "TwinConfiguration_GetSerializedTwinConfiguration D w = (x, w1)" by fastforce
  have w1: "reported w w1" "roots (docs w1) = roots (docs w)"
    using GetSerialized_reported [of w D] GetSerialized_roots [OF own, of w] ser by simp_all
  have a1: "aside roots w w1" by (rule reported_aside [OF w1(1) named [OF P(2)] w1(2)])
  have P1: "P w1" by (rule stableD(3) [OF P w1(1)])
  have pay: "aside roots w (snd (AgentConfigurationErrorCollector_AddPayload D arr name e m c w1))
      \<and> P (snd (AgentConfigurationErrorCollector_AddPayload D arr name e m c w1))" for name e m c
    using step [OF clean_error_payload [OF D] P1] aside_trans [OF a1] by blast
  have mismatch: "aside roots w (snd (AgentConfigurationErrorCollector_CreateTypeMismatchPayload D arr u w))
      \<and> P (snd (AgentConfigurationErrorCollector_CreateTypeMismatchPayload D arr u w))"
    using P(2) ser a1 P1
    by (auto simp: pay AgentConfigurationErrorCollector_CreateTypeMismatchPayload_def Let_def split_beta
        split: prod.split TwinConfigurationResult.split option.split)
  have "clean roots w (snd (event_steps
      [AgentConfigurationErrorCollector_ValidateMaxLocalCacheSizeIsHigherThanMaxMessageSize D arr,
       AgentConfigurationErrorCollector_ValidateMaxMessageSizeOptimal D arr,
       AgentConfigurationErrorCollector_ValidateHighPrioFreqIsLowerThanLowPrioFreq D arr] w))"
    by (rule clean_steps) (auto intro: clean_validations [OF D])
  from step [OF this P(2)] mismatch P(2) show ?thesis by (simp add: configuration_errors_def)
qed

text \<open>
  \<open>P\<close> may be any state of the agent that \<open>lastEvent\<close> is no part of.
\<close>

lemma ConfigurationError_gained:
  assumes D: "parson_lists D roots" "texts_within D L" and P: "stable P" "P w"
    and named: "\<And>w. P w \<Longrightarrow> twinConfigurationObjectName w \<noteq> None" and other: "\<And>w t. P w \<Longrightarrow> P (w\<lparr>lastEvent := t\<rparr>)"
    and room: "booked_bytes w + (L + 40) < 4294967296" and ok: "sync_queues_ok sqs w" and i: "i < length sqs"
    and run: "AgentConfigurationErrorCollector_GetEvents D i sqs w = ((r, sqs'), w')"
  shows "P w' \<and> (\<exists>new. gained roots L 1 i sqs w new sqs' w')"
proof -
  let ?u = "TwinConfiguration_GetLastTwinUpdateData w"
  obtain w1 where w': "w' = w1\<lparr>lastEvent := lastUpdateTime ?u\<rparr>"
    and cases: "sqs' = sqs \<and> w1 = w \<or> collect_event D False
               (\<lambda>eventHandle. GenericEvent_AddMetadata D eventHandle EVENT_TRIGGERED_CATEGORY
                  AGENT_CONFIGURATION_ERROR_EVENT_NAME EVENT_TYPE_OPERATIONAL_VALUE
                  AGENT_CONFIGURATION_ERROR_EVENT_SCHEMA_VERSION)
               (configuration_errors D ?u) i sqs w = ((r, sqs'), w1)"
    using run by (auto simp: AgentConfigurationErrorCollector_GetEvents_def Let_def split: prod.splits if_splits)
  have "P w1 \<and> (\<exists>new. gained roots L 1 i sqs w new sqs' w1)"
    using cases
  proof
    assume "sqs' = sqs \<and> w1 = w"
    moreover have "gained roots L 1 i sqs w [] sqs w" by (rule gained_aside [OF ok aside_refl])
    ultimately show ?thesis using P(2) by blast
  next
    assume "collect_event D False
               (\<lambda>eventHandle. GenericEvent_AddMetadata D eventHandle EVENT_TRIGGERED_CATEGORY
                  AGENT_CONFIGURATION_ERROR_EVENT_NAME EVENT_TYPE_OPERATIONAL_VALUE
                  AGENT_CONFIGURATION_ERROR_EVENT_SCHEMA_VERSION)
               (configuration_errors D ?u) i sqs w = ((r, sqs'), w1)"
    from dated_event_gained [OF D P room ok i configuration_errors_step [OF D(1) P(1) _ named] this] show ?thesis by blast
  qed
  then obtain new where g: "gained roots L 1 i sqs w new sqs' w1" and P1: "P w1" by blast
  have "aside roots w1 w'" by (simp add: aside_def w')
  then have "gained roots L 0 i sqs' w1 [] sqs' w'" using g by (intro gained_aside) (simp_all add: gained_def)
  from gained_trans [OF g this] other [OF P1, of "lastUpdateTime ?u"] show ?thesis by (auto simp: w')
qed

end
