(* ===== verification/Diagnostic_Collector.thy ===== *)
theory Diagnostic_Collector
  imports Configuration_Error_Collector
begin

text \<open>
  The agent's own log lines as events: the system log \<^verbatim>\<open>src/agent/src/os_utils/linux/system_logger.c\<close>, the
  correlation id of a thread \<^verbatim>\<open>correlation_manager.c\<close>, the collector
  \<^verbatim>\<open>src/agent/src/collectors/diagnostic_event_collector.c\<close> and the logger \<^verbatim>\<open>src/agent/src/logger.c\<close> in front
  of them.  The state is that of one thread: the correlation id is thread specific.
\<close>

datatype Severity =
  SEVERITY_DEBUG | SEVERITY_INFORMATION | SEVERITY_WARNING | SEVERITY_ERROR | SEVERITY_FATAL | SEVERITY_MAX

text \<open>The severities are ordered as the numbers of the C enumeration.\<close>

instantiation Severity :: linorder
begin

fun severity_number :: "Severity \<Rightarrow> int" where
  "severity_number SEVERITY_DEBUG = 0"
| "severity_number SEVERITY_INFORMATION = 1"
| "severity_number SEVERITY_WARNING = 2"
| "severity_number SEVERITY_ERROR = 3"
| "severity_number SEVERITY_FATAL = 4"
| "severity_number SEVERITY_MAX = 5"

definition less_eq_Severity :: "Severity \<Rightarrow> Severity \<Rightarrow> bool" where
  "less_eq_Severity s t \<longleftrightarrow> severity_number s \<le> severity_number t"

definition less_Severity :: "Severity \<Rightarrow> Severity \<Rightarrow> bool" where
  "less_Severity s t \<longleftrightarrow> severity_number s < severity_number t"

instance
proof
  fix s t u :: Severity
  show "s < t \<longleftrightarrow> s \<le> t \<and> \<not> t \<le> s" "s \<le> s" "s \<le> t \<or> t \<le> s"
    by (auto simp: less_eq_Severity_def less_Severity_def)
  show "s \<le> t \<Longrightarrow> t \<le> u \<Longrightarrow> s \<le> u" by (simp add: less_eq_Severity_def)
  show "s \<le> t \<Longrightarrow> t \<le> s \<Longrightarrow> s = t"
    by (cases s; cases t; simp add: less_eq_Severity_def)
qed

end

record DiagnosticEvent =
  dgMessage :: string
  dgSeverity :: Severity
  dgProcessId :: int
  dgThreadId :: u32
  dgTimeLocal :: time_t
  dgCorrelationId :: string

text \<open>
  \<open>diagnosticEventsQueue\<close> is the position of the queue in the list of the agent's queues; events live at
  addresses, like the items of the queues.
\<close>

record 'h diagnostic_env = "'h config_error_env" +
  systemLoggerInitialized :: bool
  systemLog :: "(Severity \<times> string) list"
  loggerSystemSeverity :: Severity
  loggerDiagnosticSeverity :: Severity
  correlationId :: "string option"
  diagnosticEventsQueue :: "nat option"
  diagnosticEvents :: "nat \<Rightarrow> DiagnosticEvent option"
  nextDiagnosticEvent :: nat

section \<open>The system log\<close>

definition SystemLogger_Init :: "('h, 'a) diagnostic_env_scheme \<Rightarrow> bool \<times> ('h, 'a) diagnostic_env_scheme" where
  "SystemLogger_Init w = (True, w\<lparr>systemLoggerInitialized := True\<rparr>)"

definition SystemLogger_IsInitialized :: "('h, 'a) diagnostic_env_scheme \<Rightarrow> bool" where
  "SystemLogger_IsInitialized w = systemLoggerInitialized w"

definition SystemLogger_LogMessage ::
  "string \<Rightarrow> Severity \<Rightarrow> ('h, 'a) diagnostic_env_scheme \<Rightarrow> bool \<times> ('h, 'a) diagnostic_env_scheme" where
  "SystemLogger_LogMessage msg severity w =
     (if severity \<ge> SEVERITY_MAX then (False, w)
      else (True, w\<lparr>systemLog := systemLog w @ [(severity, msg)]\<rparr>))"

definition SystemLogger_Deinit :: "('h, 'a) diagnostic_env_scheme \<Rightarrow> ('h, 'a) diagnostic_env_scheme" where
  "SystemLogger_Deinit w = w\<lparr>systemLoggerInitialized := False\<rparr>"

section \<open>Correlation ids\<close>

definition EMPTY_GUID :: string where "EMPTY_GUID = ''00000000-0000-0000-0000-000000000000''"

definition CorrelationId_Deinit :: "('h, 'a) diagnostic_env_scheme \<Rightarrow> ('h, 'a) diagnostic_env_scheme" where
  "CorrelationId_Deinit w = w\<lparr>correlationId := None\<rparr>"

text \<open>A new key has no value in any thread.\<close>

definition CorrelationManager_Init :: "('h, 'a) diagnostic_env_scheme \<Rightarrow> bool \<times> ('h, 'a) diagnostic_env_scheme" where
  "CorrelationManager_Init w =
     (let (ok, w1) = sys_ext w in if ok then (True, w1\<lparr>correlationId := None\<rparr>) else (False, w1))"

definition CorrelationManager_Deinit :: "('h, 'a) diagnostic_env_scheme \<Rightarrow> ('h, 'a) diagnostic_env_scheme" where
  "CorrelationManager_Deinit w = (if correlationId w \<noteq> None then CorrelationId_Deinit w else w)"

definition CorrelationManager_GetCorrelation :: "('h, 'a) diagnostic_env_scheme \<Rightarrow> string" where
  "CorrelationManager_GetCorrelation w = (case correlationId w of None \<Rightarrow> EMPTY_GUID | Some guid \<Rightarrow> guid)"

text \<open>The result of \<open>malloc\<close> is not tested: \<open>memset\<close> then writes through NULL.\<close>

definition CorrelationManager_SetCorrelation ::
  "('h, 'a) diagnostic_env_scheme \<Rightarrow> bool \<times> ('h, 'a) diagnostic_env_scheme" where
  "CorrelationManager_SetCorrelation w =
     (let (ok, w1) = sys_malloc w in
      if \<not> ok then (False, w1\<lparr>fault := True\<rparr>)
      else
        let (uuid, w2) = sys_bytes w1 in
        case uuid of
          None \<Rightarrow> (False, w2)
        | Some guid \<Rightarrow>
            (let w3 = (if correlationId w2 \<noteq> None then CorrelationId_Deinit w2 else w2)
             in (True, w3\<lparr>correlationId := Some guid\<rparr>)))"

section \<open>Diagnostic events\<close>

definition DIAGNOSTIC_MESSAGE_KEY :: string where "DIAGNOSTIC_MESSAGE_KEY = ''Message''"
definition DIAGNOSTIC_SEVERITY_KEY :: string where "DIAGNOSTIC_SEVERITY_KEY = ''Severity''"
definition DIAGNOSTIC_PROCESSID_KEY :: string where "DIAGNOSTIC_PROCESSID_KEY = ''ProcessId''"
definition DIAGNOSTIC_THREAD_KEY :: string where "DIAGNOSTIC_THREAD_KEY = ''ThreadId''"
definition DIAGNOSTIC_CORRELATION_KEY :: string where "DIAGNOSTIC_CORRELATION_KEY = ''CorrelationId''"
definition DIAGNOSTIC_SEVERITY_DEBUG_VALUE :: string where "DIAGNOSTIC_SEVERITY_DEBUG_VALUE = ''Debug''"
definition DIAGNOSTIC_SEVERITY_INFORMATION_VALUE :: string where "DIAGNOSTIC_SEVERITY_INFORMATION_VALUE = ''Information''"
definition DIAGNOSTIC_SEVERITY_WARNING_VALUE :: string where "DIAGNOSTIC_SEVERITY_WARNING_VALUE = ''Warning''"
definition DIAGNOSTIC_SEVERITY_ERROR_VALUE :: string where "DIAGNOSTIC_SEVERITY_ERROR_VALUE = ''Error''"
definition DIAGNOSTIC_SEVERITY_FATAL_VALUE :: string where "DIAGNOSTIC_SEVERITY_FATAL_VALUE = ''Fatal''"
definition DIAGNOSTIC_NAME :: string where "DIAGNOSTIC_NAME = ''Diagnostic''"
definition DIAGNOSTIC_PAYLOAD_SCHEMA_VERSION :: string where "DIAGNOSTIC_PAYLOAD_SCHEMA_VERSION = ''1.0''"

definition DiagnosticEventCollector_Init ::
  "nat \<Rightarrow> ('h, 'a) diagnostic_env_scheme \<Rightarrow> EventCollectorResult \<times> ('h, 'a) diagnostic_env_scheme" where
  "DiagnosticEventCollector_Init eventsQueue w =
     (EVENT_COLLECTOR_OK, snd (CorrelationManager_Init (w\<lparr>diagnosticEventsQueue := Some eventsQueue\<rparr>)))"

definition DiagnosticEventCollector_IsInitialized :: "('h, 'a) diagnostic_env_scheme \<Rightarrow> bool" where
  "DiagnosticEventCollector_IsInitialized w \<longleftrightarrow> diagnosticEventsQueue w \<noteq> None"

definition DiagnosticEventCollector_SetCorrelationId ::
  "('h, 'a) diagnostic_env_scheme \<Rightarrow> bool \<times> ('h, 'a) diagnostic_env_scheme" where
  "DiagnosticEventCollector_SetCorrelationId = CorrelationManager_SetCorrelation"

definition DiagnosticEventCollector_ConvertToString :: "Severity \<Rightarrow> string" where
  "DiagnosticEventCollector_ConvertToString severity =
     (case severity of
        SEVERITY_DEBUG \<Rightarrow> DIAGNOSTIC_SEVERITY_DEBUG_VALUE
      | SEVERITY_INFORMATION \<Rightarrow> DIAGNOSTIC_SEVERITY_INFORMATION_VALUE
      | SEVERITY_WARNING \<Rightarrow> DIAGNOSTIC_SEVERITY_WARNING_VALUE
      | SEVERITY_ERROR \<Rightarrow> DIAGNOSTIC_SEVERITY_ERROR_VALUE
      | SEVERITY_FATAL \<Rightarrow> DIAGNOSTIC_SEVERITY_FATAL_VALUE
      | SEVERITY_MAX \<Rightarrow> DIAGNOSTIC_SEVERITY_WARNING_VALUE)"

text \<open>Freeing an event that is not there is a fault.\<close>

definition DiagnosticEventCollector_DeinitDiagnosticEvent ::
  "nat \<Rightarrow> ('h, 'a) diagnostic_env_scheme \<Rightarrow> ('h, 'a) diagnostic_env_scheme" where
  "DiagnosticEventCollector_DeinitDiagnosticEvent event w =
     (case diagnosticEvents w event of
        None \<Rightarrow> w\<lparr>fault := True\<rparr>
      | Some _ \<Rightarrow> w\<lparr>diagnosticEvents := (diagnosticEvents w)(event := None)\<rparr>)"

text \<open>
  On the agent's platforms a \<open>DiagnosticEvent\<close> takes 40 bytes and a pointer 8.  When the message cannot be
  copied, the event is freed before \<open>correlationId\<close> was set: \<open>free\<close> of an uninitialised pointer, a fault.
\<close>

definition DiagnosticEventCollector_InitDiagnosticEvent ::
  "string \<Rightarrow> Severity \<Rightarrow> ('h, 'a) diagnostic_env_scheme \<Rightarrow>
    (EventCollectorResult \<times> (nat \<times> u32) option) \<times> ('h, 'a) diagnostic_env_scheme" where
  "DiagnosticEventCollector_InitDiagnosticEvent message severity w =
     (let (ok, w1) = sys_malloc w in
      if \<not> ok then ((EVENT_COLLECTOR_EXCEPTION, None), w1)
      else
        let (copy, w2) = Utils_CreateStringCopy (Some message) w1 in
        case copy of
          None \<Rightarrow> ((EVENT_COLLECTOR_EXCEPTION, None), w2\<lparr>fault := True\<rparr>)
        | Some msg \<Rightarrow>
            (let (processId, w3) = sys_int w2; (threadId, w4) = sys_int w3; (timeLocal, w5) = sys_time w4;
                 (correlation, w6) = Utils_CreateStringCopy (Some (CorrelationManager_GetCorrelation w5)) w5 in
             case correlation of
               None \<Rightarrow> ((EVENT_COLLECTOR_EXCEPTION, None), w6)
             | Some guid \<Rightarrow>
                 (let event = \<lparr>dgMessage = msg, dgSeverity = severity, dgProcessId = processId,
                               dgThreadId = word_of_int threadId, dgTimeLocal = timeLocal, dgCorrelationId = guid\<rparr>;
                      a = nextDiagnosticEvent w6
                  in ((EVENT_COLLECTOR_OK, Some (a, 40 + 8 + of_nat (length message) + 1)),
                      w6\<lparr>diagnosticEvents := (diagnosticEvents w6)(a \<mapsto> event), nextDiagnosticEvent := Suc a\<rparr>))))"

text \<open>The caller has tested \<open>IsInitialized\<close>; without a queue the push goes through NULL.\<close>

definition DiagnosticEventCollector_AddEvent ::
  "string \<Rightarrow> Severity \<Rightarrow> SyncQueue list \<Rightarrow> ('h, 'a) diagnostic_env_scheme \<Rightarrow>
    (EventCollectorResult \<times> SyncQueue list) \<times> ('h, 'a) diagnostic_env_scheme" where
  "DiagnosticEventCollector_AddEvent message severity sqs w =
     (case DiagnosticEventCollector_InitDiagnosticEvent message severity w of
        ((EVENT_COLLECTOR_OK, Some (event, eventSize)), w1) \<Rightarrow>
          (case diagnosticEventsQueue w1 of
             None \<Rightarrow> ((EVENT_COLLECTOR_EXCEPTION, sqs), w1\<lparr>fault := True\<rparr>)
           | Some i \<Rightarrow>
               (let ((r, queue), w2) = SyncQueue_PushBack (sqs ! i) (DIAGNOSTIC_ITEM event) eventSize w1 in
                if r \<noteq> SYNC_OK
                then ((EVENT_COLLECTOR_EXCEPTION, sqs[i := queue]), DiagnosticEventCollector_DeinitDiagnosticEvent event w2)
                else ((EVENT_COLLECTOR_OK, sqs[i := queue]), w2)))
      | (_, w1) \<Rightarrow> ((EVENT_COLLECTOR_EXCEPTION, sqs), w1))"

definition DiagnosticEventCollector_AddPayload ::
  "('v, 'o, 'r, 'h) parson_doc \<Rightarrow> DiagnosticEvent \<Rightarrow> ('v, 'r) JsonArrayWriter \<Rightarrow> ('h, 'a) docs_env_scheme \<Rightarrow>
    EventCollectorResult \<times> ('h, 'a) docs_env_scheme" where
  "DiagnosticEventCollector_AddPayload D event diagnosticEventsArray =
     add_payload_object D diagnosticEventsArray
       (\<lambda>eventObject.
         [json_step (JsonObjectWriter_WriteString D eventObject DIAGNOSTIC_MESSAGE_KEY (dgMessage event)),
          json_step (JsonObjectWriter_WriteString D eventObject DIAGNOSTIC_SEVERITY_KEY
            (DiagnosticEventCollector_ConvertToString (dgSeverity event))),
          json_step (JsonObjectWriter_WriteInt D eventObject DIAGNOSTIC_PROCESSID_KEY (dgProcessId event)),
          json_step (JsonObjectWriter_WriteInt D eventObject DIAGNOSTIC_THREAD_KEY (sint (dgThreadId event))),
          json_step (JsonObjectWriter_WriteString D eventObject DIAGNOSTIC_CORRELATION_KEY (dgCorrelationId event))])"

definition DiagnosticEventCollector_GetSingleEvent ::
  "('v, 'o, 'r, 'h) parson_doc \<Rightarrow> DiagnosticEvent \<Rightarrow> nat \<Rightarrow> SyncQueue list \<Rightarrow> ('h, 'a) queue_env_scheme \<Rightarrow>
    (EventCollectorResult \<times> SyncQueue list) \<times> ('h, 'a) queue_env_scheme" where
  "DiagnosticEventCollector_GetSingleEvent D event =
     collect_event D False
       (\<lambda>rootObject w. let (r, w1) = GenericEvent_AddMetadataWithTimes D rootObject EVENT_TRIGGERED_CATEGORY DIAGNOSTIC_NAME
            EVENT_TYPE_DIAGNOSTIC_VALUE DIAGNOSTIC_PAYLOAD_SCHEMA_VERSION (dgTimeLocal event) w
          in (if r \<noteq> EVENT_COLLECTOR_OK then EVENT_COLLECTOR_EXCEPTION else EVENT_COLLECTOR_OK, w1))
       (\<lambda>diagnosticEventsArray w. let (r, w1) = DiagnosticEventCollector_AddPayload D event diagnosticEventsArray w
          in (if r \<noteq> EVENT_COLLECTOR_OK then EVENT_COLLECTOR_EXCEPTION else EVENT_COLLECTOR_OK, w1))"

text \<open>
  The loop of \<open>GetEvents\<close>: as many rounds as there were events at its start.  What was popped is read as a
  diagnostic event, a fault when it is not there.
\<close>

fun get_events_for ::
  "('v, 'o, 'r, 'h) parson_doc \<Rightarrow> nat \<Rightarrow> nat \<Rightarrow> nat \<Rightarrow> SyncQueue list \<Rightarrow> ('h, 'a) diagnostic_env_scheme \<Rightarrow>
    (EventCollectorResult \<times> SyncQueue list) \<times> ('h, 'a) diagnostic_env_scheme" where
  "get_events_for D 0 eventsQueue priorityQueue sqs w = ((EVENT_COLLECTOR_OK, sqs), w)"
| "get_events_for D (Suc rounds) eventsQueue priorityQueue sqs w =
     (let ((queueResult, out, queue), w1) = SyncQueue_PopFront (sqs ! eventsQueue) w; sqs1 = sqs[eventsQueue := queue] in
      if queueResult = Queue_Result QUEUE_IS_EMPTY then ((EVENT_COLLECTOR_OK, sqs1), w1)
      else if queueResult \<noteq> SYNC_OK then ((EVENT_COLLECTOR_EXCEPTION, sqs1), w1)
      else case out of
        Some (DIAGNOSTIC_ITEM a, _) \<Rightarrow>
          (case diagnosticEvents w1 a of
             None \<Rightarrow> ((EVENT_COLLECTOR_EXCEPTION, sqs1), w1\<lparr>fault := True\<rparr>)
           | Some event \<Rightarrow>
               (let ((r, sqs2), w2) = DiagnosticEventCollector_GetSingleEvent D event priorityQueue sqs1 w1;
                    w3 = DiagnosticEventCollector_DeinitDiagnosticEvent a w2 in
                if r \<noteq> EVENT_COLLECTOR_OK then ((EVENT_COLLECTOR_EXCEPTION, sqs2), w3)
                else get_events_for D rounds eventsQueue priorityQueue sqs2 w3))
      | _ \<Rightarrow> ((EVENT_COLLECTOR_EXCEPTION, sqs1), w1\<lparr>fault := True\<rparr>))"

text \<open>\<open>int counter = eventQueueSize\<close>: from \<open>2 ^ 31\<close> events on the counter starts below zero.\<close>

definition DiagnosticEventCollector_GetEvents ::
  "('v, 'o, 'r, 'h) parson_doc \<Rightarrow> nat \<Rightarrow> SyncQueue list \<Rightarrow> ('h, 'a) diagnostic_env_scheme \<Rightarrow>
    (EventCollectorResult \<times> SyncQueue list) \<times> ('h, 'a) diagnostic_env_scheme" where
  "DiagnosticEventCollector_GetEvents D priorityQueue sqs w =
     (case diagnosticEventsQueue w of
        None \<Rightarrow> ((EVENT_COLLECTOR_EXCEPTION, sqs), w\<lparr>fault := True\<rparr>)
      | Some i \<Rightarrow>
          (case SyncQueue_GetSize (sqs ! i) w of
             ((Queue_Result QUEUE_OK, Some eventQueueSize), w1) \<Rightarrow>
               get_events_for D (nat (sint eventQueueSize)) i priorityQueue sqs w1
           | (_, w1) \<Rightarrow> ((EVENT_COLLECTOR_EXCEPTION, sqs), w1)))"

text \<open>The loop of \<open>Deinit\<close>, which frees what is still queued.\<close>

function drop_events_while :: "SyncQueue \<Rightarrow> u32 \<Rightarrow> ('h, 'a) diagnostic_env_scheme \<Rightarrow> SyncQueue \<times> ('h, 'a) diagnostic_env_scheme" where
  "drop_events_while queue queueSize w =
     (if queueSize = 0 then (queue, w)
      else case SyncQueue_PopFront queue w of
        ((Queue_Result QUEUE_OK, out, queue1), w1) \<Rightarrow>
          (let w2 = (case out of Some (DIAGNOSTIC_ITEM a, _) \<Rightarrow> DiagnosticEventCollector_DeinitDiagnosticEvent a w1
                               | _ \<Rightarrow> w1\<lparr>fault := True\<rparr>) in
           case SyncQueue_GetSize queue1 w2 of
             ((Queue_Result QUEUE_OK, Some queueSize1), w3) \<Rightarrow> drop_events_while queue1 queueSize1 w3
           | (_, w3) \<Rightarrow> (queue1, w3))
      | ((_, _, queue1), w1) \<Rightarrow> (queue1, w1))"
  by pat_completeness auto
termination
  by (relation "measure (\<lambda>(queue, _). unat (numberOfElements (innerQueue queue)))")
     (auto intro: sync_PopFront_less [OF sym])

declare drop_events_while.simps [simp del]

definition DiagnosticEventCollector_Deinit ::
  "SyncQueue list \<Rightarrow> ('h, 'a) diagnostic_env_scheme \<Rightarrow> SyncQueue list \<times> ('h, 'a) diagnostic_env_scheme" where
  "DiagnosticEventCollector_Deinit sqs w =
     (let (sqs', w') =
        (case diagnosticEventsQueue w of
           None \<Rightarrow> (sqs, w\<lparr>fault := True\<rparr>)
         | Some i \<Rightarrow>
             (case SyncQueue_GetSize (sqs ! i) w of
                ((Queue_Result QUEUE_OK, Some queueSize), w1) \<Rightarrow>
                  (let (queue', w2) = drop_events_while (sqs ! i) queueSize w1 in (sqs[i := queue'], w2))
              | (_, w1) \<Rightarrow> (sqs, w1)))
      in (sqs', CorrelationManager_Deinit (w'\<lparr>diagnosticEventsQueue := None\<rparr>)))"

section \<open>The logger\<close>

definition LOG_MAX_BUFF :: nat where "LOG_MAX_BUFF = 500"

definition Logger_Init :: "('h, 'a) diagnostic_env_scheme \<Rightarrow> bool \<times> ('h, 'a) diagnostic_env_scheme" where
  "Logger_Init w =
     SystemLogger_Init (w\<lparr>loggerSystemSeverity := SEVERITY_DEBUG, loggerDiagnosticSeverity := SEVERITY_WARNING\<rparr>)"

definition Logger_Deinit :: "('h, 'a) diagnostic_env_scheme \<Rightarrow> ('h, 'a) diagnostic_env_scheme" where
  "Logger_Deinit w = (if SystemLogger_IsInitialized w then SystemLogger_Deinit w else w)"

text \<open>The message is the formatted text; \<open>vsnprintf\<close> cuts it to the buffer.\<close>

definition Logger_LogEvent ::
  "Severity \<Rightarrow> string \<Rightarrow> SyncQueue list \<Rightarrow> ('h, 'a) diagnostic_env_scheme \<Rightarrow> SyncQueue list \<times> ('h, 'a) diagnostic_env_scheme" where
  "Logger_LogEvent severity msg sqs w =
     (let w1 = (if \<not> SystemLogger_IsInitialized w then snd (SystemLogger_Init w) else w);
          buf = take (LOG_MAX_BUFF - 1) msg in
      if msg = [] then (sqs, w1)
      else
        let w2 = (if severity \<ge> loggerSystemSeverity w1 then snd (SystemLogger_LogMessage buf severity w1) else w1) in
        if severity \<ge> loggerDiagnosticSeverity w2 \<and> DiagnosticEventCollector_IsInitialized w2
        then let ((_, sqs'), w3) = DiagnosticEventCollector_AddEvent buf severity sqs w2 in (sqs', w3)
        else (sqs, w2))"

text \<open>The casts of a number in range to \<open>Severity\<close>.\<close>

definition severity_of :: "int \<Rightarrow> Severity" where
  "severity_of n = [SEVERITY_DEBUG, SEVERITY_INFORMATION, SEVERITY_WARNING, SEVERITY_ERROR, SEVERITY_FATAL] ! nat n"

definition Logger_SetMinimumSeverityForSystemLogger ::
  "int \<Rightarrow> SyncQueue list \<Rightarrow> ('h, 'a) diagnostic_env_scheme \<Rightarrow> (bool \<times> SyncQueue list) \<times> ('h, 'a) diagnostic_env_scheme" where
  "Logger_SetMinimumSeverityForSystemLogger severity sqs w =
     (if severity < 0 \<or> severity \<ge> severity_number SEVERITY_MAX
      then let (sqs', w1) = Logger_LogEvent SEVERITY_ERROR
             ''[logger.c] failed setting system logger minimum severity, out of range'' sqs w in ((False, sqs'), w1)
      else ((True, sqs), w\<lparr>loggerSystemSeverity := severity_of severity\<rparr>))"

definition Logger_SetMinimumSeverityForDiagnosticEvent ::
  "int \<Rightarrow> SyncQueue list \<Rightarrow> ('h, 'a) diagnostic_env_scheme \<Rightarrow> (bool \<times> SyncQueue list) \<times> ('h, 'a) diagnostic_env_scheme" where
  "Logger_SetMinimumSeverityForDiagnosticEvent severity sqs w =
     (if severity < 0 \<or> severity \<ge> severity_number SEVERITY_MAX
      then let (sqs', w1) = Logger_LogEvent SEVERITY_ERROR
             ''[logger.c] failed setting diagnostic event minimum severity, out of range'' sqs w in ((False, sqs'), w1)
      else ((True, sqs), w\<lparr>loggerDiagnosticSeverity := severity_of severity\<rparr>))"

section \<open>Every diagnostic event is collected once\<close>

text \<open>The events that exist are the queued ones, each queued once.\<close>

definition diagnostics_owned :: "nat \<Rightarrow> SyncQueue list \<Rightarrow> ('h, 'a) diagnostic_env_scheme \<Rightarrow> nat list \<Rightarrow> bool" where
  "diagnostics_owned i sqs w as \<longleftrightarrow>
     map fst (sync_items (sqs ! i) w) = map DIAGNOSTIC_ITEM as \<and> distinct as \<and> dom (diagnosticEvents w) = set as
     \<and> (\<forall>a \<in> set as. a < nextDiagnosticEvent w)"

text \<open>What the collectors only read.\<close>

definition collector_frame :: "('h, 'a) diagnostic_env_scheme \<Rightarrow> ('h, 'a) diagnostic_env_scheme \<Rightarrow> bool" where
  "collector_frame w w' \<longleftrightarrow>
     lockOk w' = lockOk w \<and> diagnosticEventsQueue w' = diagnosticEventsQueue w
     \<and> twinConfigurationObjectName w' = twinConfigurationObjectName w \<and> agentTelemetryProvider w' = agentTelemetryProvider w"

lemma collector_frame_refl [simp]: "collector_frame w w"
  by (simp add: collector_frame_def)

lemma collector_frame_trans: "collector_frame w w1 \<Longrightarrow> collector_frame w1 w2 \<Longrightarrow> collector_frame w w2"
  by (simp add: collector_frame_def)

definition diagnostics_kept :: "('h, 'a) diagnostic_env_scheme \<Rightarrow> ('h, 'a) diagnostic_env_scheme \<Rightarrow> bool" where
  "diagnostics_kept w w' \<longleftrightarrow>
     diagnosticEvents w' = diagnosticEvents w \<and> nextDiagnosticEvent w' = nextDiagnosticEvent w \<and> collector_frame w w'"

lemmas diagnostics_kept_simps = diagnostics_kept_def collector_frame_def

lemma stable_diagnostics: "stable (diagnostics_kept w)"
  unfolding stable_def
  by (intro allI impI, elim disjE)
     (auto simp: diagnostics_kept_simps doc_frame_def queued_def reported_def twin_footprint_def)

lemma queued_diagnostics: "queued w w' \<Longrightarrow> diagnostics_kept w w'"
  by (auto simp: queued_def diagnostics_kept_simps)

lemma clean_AddPayload:
  assumes "parson_lists D roots"
  shows "clean roots w (snd (DiagnosticEventCollector_AddPayload D event arr w))"
  unfolding DiagnosticEventCollector_AddPayload_def
  by (rule clean_payload_object [OF assms]) (auto intro: clean_writes [OF assms])

lemma GetSingleEvent_gained:
  fixes w :: "('h, 'a) diagnostic_env_scheme"
  assumes D: "parson_lists D roots" "texts_within D L" and room: "booked_bytes w + (L + 40) < 4294967296"
    and ok: "sync_queues_ok sqs w" and j: "j < length sqs"
    and run: "DiagnosticEventCollector_GetSingleEvent D event j sqs w = ((r, sqs'), w')"
  shows "diagnostics_kept w w' \<and> (\<exists>new. gained roots L 1 j sqs w new sqs' w' \<and> (r = EVENT_COLLECTOR_OK \<longrightarrow> length new = 1))"
proof -
  have "diagnostics_kept w w' \<and> (\<exists>new. gained roots L 1 j sqs w new sqs' w'
      \<and> (r = EVENT_COLLECTOR_OK \<and> \<not> False \<longrightarrow> length new = 1))"
  proof (rule collect_event_gained [OF D room ok j stable_diagnostics _ _ _
        run [unfolded DiagnosticEventCollector_GetSingleEvent_def]])
    show "diagnostics_kept w w" by (simp add: diagnostics_kept_simps)
    fix v :: "('h, 'a) diagnostic_env_scheme"
    assume v: "diagnostics_kept w v"
    note step = counted_clean_step [OF stable_diagnostics v counted_refl]
    show "aside roots v (snd (let (r, w1) = GenericEvent_AddMetadataWithTimes D ev EVENT_TRIGGERED_CATEGORY DIAGNOSTIC_NAME
            EVENT_TYPE_DIAGNOSTIC_VALUE DIAGNOSTIC_PAYLOAD_SCHEMA_VERSION (dgTimeLocal event) v
          in (if r \<noteq> EVENT_COLLECTOR_OK then EVENT_COLLECTOR_EXCEPTION else EVENT_COLLECTOR_OK, w1)))
      \<and> diagnostics_kept w (snd (let (r, w1) = GenericEvent_AddMetadataWithTimes D ev EVENT_TRIGGERED_CATEGORY DIAGNOSTIC_NAME
            EVENT_TYPE_DIAGNOSTIC_VALUE DIAGNOSTIC_PAYLOAD_SCHEMA_VERSION (dgTimeLocal event) v
          in (if r \<noteq> EVENT_COLLECTOR_OK then EVENT_COLLECTOR_EXCEPTION else EVENT_COLLECTOR_OK, w1)))" for ev
      using step [OF clean_metadata(1) [OF D(1)]] by (simp add: Let_def split_beta)
    show "aside roots v (snd (let (r, w1) = DiagnosticEventCollector_AddPayload D event arr v
          in (if r \<noteq> EVENT_COLLECTOR_OK then EVENT_COLLECTOR_EXCEPTION else EVENT_COLLECTOR_OK, w1)))
      \<and> diagnostics_kept w (snd (let (r, w1) = DiagnosticEventCollector_AddPayload D event arr v
          in (if r \<noteq> EVENT_COLLECTOR_OK then EVENT_COLLECTOR_EXCEPTION else EVENT_COLLECTOR_OK, w1)))" for arr
      using step [OF clean_AddPayload [OF D(1)]] by (simp add: Let_def split_beta)
  qed
  then show ?thesis by simp
qed

text \<open>What \<open>k\<close> rounds may do to the queue of diagnostics \<open>i\<close> and the queue \<open>j\<close> of the texts.\<close>

definition diagnostics_collected ::
  "('h \<Rightarrow> 'v set) \<Rightarrow> nat \<Rightarrow> nat \<Rightarrow> nat \<Rightarrow> SyncQueue list \<Rightarrow> ('h, 'a) diagnostic_env_scheme \<Rightarrow> nat \<Rightarrow> (queue_data \<times> u32) list \<Rightarrow>
    SyncQueue list \<Rightarrow> ('h, 'a) diagnostic_env_scheme \<Rightarrow> bool" where
  "diagnostics_collected roots L i j sqs w k new sqs' w' \<longleftrightarrow>
     sync_queues_ok sqs' w' \<and> length sqs' = length sqs \<and> roots (docs w') = roots (docs w)
     \<and> booked_bytes w' \<le> booked_bytes w + k * (L + 40) \<and> length new \<le> k
     \<and> sync_items (sqs' ! i) w' = drop k (sync_items (sqs ! i) w)
     \<and> sync_items (sqs' ! j) w' = sync_items (sqs ! j) w @ new
     \<and> (\<forall>m < length sqs. m \<noteq> i \<longrightarrow> m \<noteq> j \<longrightarrow> sync_items (sqs' ! m) w' = sync_items (sqs ! m) w)
     \<and> (\<forall>x \<in> set new. \<exists>s. x = (EVENT s, of_nat (length s))) \<and> collector_frame w w'"

lemma diagnostics_collected_trans:
  assumes "diagnostics_collected roots L i j sqs w k new sqs1 w1" "diagnostics_collected roots L i j sqs1 w1 m new1 sqs2 w2"
  shows "diagnostics_collected roots L i j sqs w (k + m) (new @ new1) sqs2 w2"
  using assms by (auto simp: diagnostics_collected_def add_mult_distrib add.commute intro: collector_frame_trans)

text \<open>One round: the first event is taken from the queue, pushed as a text or lost, and freed.\<close>

lemma collect_one:
  fixes w :: "('h, 'a) diagnostic_env_scheme"
  assumes D: "parson_lists D roots" "texts_within D L" and lw: "locks_work w" and ok: "sync_queues_ok sqs w"
    and i: "i < length sqs" and j: "j < length sqs" "i \<noteq> j" and own: "diagnostics_owned i sqs w (a # as)"
    and room: "booked_bytes w + (L + 40) < 4294967296"
  obtains r new sqs1 w1 where
    "\<And>n. get_events_for D (Suc n) i j sqs w =
       (if r \<noteq> EVENT_COLLECTOR_OK then ((EVENT_COLLECTOR_EXCEPTION, sqs1), w1) else get_events_for D n i j sqs1 w1)"
    "diagnostics_collected roots L i j sqs w 1 new sqs1 w1" "diagnostics_owned i sqs1 w1 as" "locks_work w1"
    "r = EVENT_COLLECTOR_OK \<longrightarrow> length new = 1"
proof -
  from own obtain size xs where items: "sync_items (sqs ! i) w = (DIAGNOSTIC_ITEM a, size) # xs"
    "map fst xs = map DIAGNOSTIC_ITEM as"
    by (cases "sync_items (sqs ! i) w") (auto simp: diagnostics_owned_def)
  from own obtain event where event: "diagnosticEvents w a = Some event" by (auto simp: diagnostics_owned_def dom_def)
  obtain q w2 where pop: "SyncQueue_PopFront (sqs ! i) w = ((SYNC_OK, Some (DIAGNOSTIC_ITEM a, size), q), w2)" "queued w w2"
    "sync_queues_ok (sqs[i := q]) w2" "sync_items q w2 = xs" "booked_bytes w2 \<le> booked_bytes w"
    "\<And>m. m < length sqs \<Longrightarrow> m \<noteq> i \<Longrightarrow> sync_items (sqs ! m) w2 = sync_items (sqs ! m) w"
    by (rule PopFront_success [OF lw ok i items(1)]) blast
  obtain r sqs1 w3 where run: "DiagnosticEventCollector_GetSingleEvent D event j (sqs[i := q]) w2 = ((r, sqs1), w3)"
    by (metis prod.collapse)
  have room2: "booked_bytes w2 + (L + 40) < 4294967296" and j': "j < length (sqs[i := q])" using room pop(5) j by simp_all
  from GetSingleEvent_gained [OF D room2 pop(3) j' run] obtain new where kept: "diagnostics_kept w2 w3"
    and new: "gained roots L 1 j (sqs[i := q]) w2 new sqs1 w3" "r = EVENT_COLLECTOR_OK \<longrightarrow> length new = 1"
    by blast
  note K2 = queued_diagnostics [OF pop(2)]
  let ?w = "w3\<lparr>diagnosticEvents := (diagnosticEvents w)(a := None)\<rparr>"
  have free: "DiagnosticEventCollector_DeinitDiagnosticEvent a w3 = ?w"
    using kept K2 event by (simp add: DiagnosticEventCollector_DeinitDiagnosticEvent_def diagnostics_kept_simps)
  have ok3: "sync_queues_ok sqs1 w3" using new(1) by (simp add: gained_def)
  have same: "sync_queues_ok sqs1 ?w" "sync_items qq ?w = sync_items qq w3" for qq
    using queues_ok_same [where w' = ?w, OF ok3] queues_okD(5) [OF ok3 [unfolded sync_queues_ok_def]] by simp_all
  have frame: "collector_frame w ?w" using kept K2 by (simp add: diagnostics_kept_simps)
  have "diagnostics_collected roots L i j sqs w 1 new sqs1 ?w"
    using frame new(1) pop(4-6) same items(1) i j queued_keeps(3) [OF pop(2)]
    by (auto simp: gained_def diagnostics_collected_def nth_list_update)
  moreover have "diagnostics_owned i sqs1 ?w as"
    using own kept K2 new(1) pop(4) same items(2) i j
    by (auto simp: diagnostics_owned_def diagnostics_kept_simps gained_def)
  moreover have "locks_work ?w" using lw kept K2 by (simp add: locks_work_def diagnostics_kept_simps)
  moreover have "get_events_for D (Suc n) i j sqs w =
       (if r \<noteq> EVENT_COLLECTOR_OK then ((EVENT_COLLECTOR_EXCEPTION, sqs1), ?w) else get_events_for D n i j sqs1 ?w)" for n
    using pop(1) K2 event run free by (simp add: Let_def diagnostics_kept_simps)
  ultimately show thesis using that new(2) by blast
qed

lemma collect_rounds:
  fixes w :: "('h, 'a) diagnostic_env_scheme"
  assumes D: "parson_lists D roots" "texts_within D L" and "locks_work w" and "sync_queues_ok sqs w"
    and "i < length sqs" and "j < length sqs" "i \<noteq> j" and "diagnostics_owned i sqs w as"
    and "booked_bytes w + length as * (L + 40) < 4294967296"
    and "get_events_for D (length as) i j sqs w = ((r, sqs'), w')"
  shows "\<exists>k new. k \<le> length as \<and> diagnostics_collected roots L i j sqs w k new sqs' w' \<and> diagnostics_owned i sqs' w' (drop k as)
    \<and> (r = EVENT_COLLECTOR_OK \<longrightarrow> length new = length as)"
  using assms(3-)
proof (induction as arbitrary: sqs w)
  case Nil
  then have "diagnostics_collected roots L i j sqs w 0 [] sqs' w'" by (auto simp: diagnostics_collected_def)
  with Nil show ?case by (intro exI [of _ 0] exI [of _ "[]"]) simp
next
  case (Cons a as)
  have room1: "booked_bytes w + (L + 40) < 4294967296" using Cons.prems(7) by simp
  obtain r1 new sqs1 w1 where one:
    "\<And>n. get_events_for D (Suc n) i j sqs w =
       (if r1 \<noteq> EVENT_COLLECTOR_OK then ((EVENT_COLLECTOR_EXCEPTION, sqs1), w1) else get_events_for D n i j sqs1 w1)"
    "diagnostics_collected roots L i j sqs w 1 new sqs1 w1" "diagnostics_owned i sqs1 w1 as" "locks_work w1"
    "r1 = EVENT_COLLECTOR_OK \<longrightarrow> length new = 1"
    by (rule collect_one [OF D Cons.prems(1-6) room1]) blast
  show ?case
  proof (cases "r1 = EVENT_COLLECTOR_OK")
    case False
    with Cons.prems(8) one(1) have "r \<noteq> EVENT_COLLECTOR_OK" "sqs' = sqs1" "w' = w1" by auto
    with one(2,3) show ?thesis by (intro exI [of _ 1] exI [of _ new]) simp
  next
    case True
    have "sync_queues_ok sqs1 w1" "length sqs1 = length sqs" "booked_bytes w1 + length as * (L + 40) < 4294967296"
      using one(2) Cons.prems(7) by (auto simp: diagnostics_collected_def)
    from Cons.IH [OF one(4) this(1) _ _ Cons.prems(5) one(3) this(3)] this(2) Cons.prems(3,4,8) one(1) True
    obtain k new1 where rest: "k \<le> length as" "diagnostics_collected roots L i j sqs1 w1 k new1 sqs' w'"
      "diagnostics_owned i sqs' w' (drop k as)" "r = EVENT_COLLECTOR_OK \<longrightarrow> length new1 = length as"
      by auto
    from diagnostics_collected_trans [OF one(2) rest(2)] rest one(5) True show ?thesis
      by (intro exI [of _ "Suc k"] exI [of _ "new @ new1"]) simp
  qed
qed

lemma small_sint:
  fixes n :: u32
  assumes "unat n < 2147483648"
  shows "sint n = int (unat n)"
proof -
  have "int (unat n) < 2147483648" using assms by linarith
  then have "uint n < 2147483648" by simp
  moreover have "- 2147483648 \<le> uint n" using uint_ge_0 [of n] by linarith
  ultimately have "sint n = uint n" by (intro trans [OF sint_uint signed_take_bit_int_eq_self]) simp_all
  then show ?thesis by simp
qed

lemma GetEvents_collects:
  fixes w :: "('h, 'a) diagnostic_env_scheme"
  assumes "parson_lists D roots" and "texts_within D L" and "locks_work w" and "sync_queues_ok sqs w"
    and "diagnosticEventsQueue w = Some i" and "i < length sqs" and "j < length sqs" and "i \<noteq> j"
    and "diagnostics_owned i sqs w as" and "length as < 2147483648"
    and "booked_bytes w + length as * (L + 40) < 4294967296"
    and "DiagnosticEventCollector_GetEvents D j sqs w = ((r, sqs'), w')"
  shows "\<exists>k new. k \<le> length as \<and> diagnostics_collected roots L i j sqs w k new sqs' w' \<and> diagnostics_owned i sqs' w' (drop k as)
    \<and> (r = EVENT_COLLECTOR_OK \<longrightarrow> diagnostics_owned i sqs' w' [] \<and> length new = length as)"
proof -
  obtain n v where size: "SyncQueue_GetSize (sqs ! i) w = ((SYNC_OK, Some n), v)" "ticked w v"
    "unat n = length (sync_items (sqs ! i) w)"
    by (rule GetSize_success [OF assms(3,4,6)])
  note K = ticked_sync [OF size(2)]
  have "length (sync_items (sqs ! i) w) = length as"
    using arg_cong [where f = length, OF conjunct1 [OF assms(9) [unfolded diagnostics_owned_def]]] by simp
  then have "unat n = length as" using size(3) by simp
  then have "sint n = int (length as)"
    using assms(10) by (simp add: small_sint)
  then have run: "get_events_for D (length as) i j sqs v = ((r, sqs'), w')"
    using assms(5,12) size(1) by (simp add: DiagnosticEventCollector_GetEvents_def)
  have v: "locks_work v" "sync_queues_ok sqs v" "diagnostics_owned i sqs v as"
    "booked_bytes v + length as * (L + 40) < 4294967296"
    using assms(3,4,9,11) K queued_keeps(7) [OF K(3)] queued_diagnostics [OF K(3)]
    by (simp_all add: diagnostics_owned_def diagnostics_kept_simps)
  from collect_rounds [OF assms(1,2) v(1,2) assms(6-8) v(3,4) run]
  obtain k new where found: "k \<le> length as" "diagnostics_collected roots L i j sqs v k new sqs' w'"
    "diagnostics_owned i sqs' w' (drop k as)" "r = EVENT_COLLECTOR_OK \<longrightarrow> length new = length as"
    by blast
  have "docs v = docs w" using size(2) by (auto simp: ticked_def)
  moreover have "collector_frame w v" using queued_diagnostics [OF K(3)] by (simp add: diagnostics_kept_def)
  ultimately have coll: "diagnostics_collected roots L i j sqs w k new sqs' w'"
    using found(2) K collector_frame_trans [of w v w'] by (simp add: diagnostics_collected_def)
  moreover have "drop k as = []" if "length new = length as" using coll that found(1) by (simp add: diagnostics_collected_def)
  ultimately show ?thesis using found by (intro exI [of _ k] exI [of _ new]) auto
qed

text \<open>
  C15: Collecting the diagnostic events: each event is taken from its queue, in order, and freed exactly once,
  also when its text cannot be built or pushed; at most one text per event goes to the end of the priority
  queue, and the documents built on the way are all released.  When \<open>GetEvents\<close> reports success, the queue of
  diagnostics is empty and every event has become one text.
\<close>

theorem diagnostic_events_are_collected:
  fixes w :: "('h, 'a) diagnostic_env_scheme"
  assumes "parson_lists D roots" and "texts_within D L" and "locks_work w" and "sync_queues_ok sqs w"
    and "diagnosticEventsQueue w = Some i" and "i < length sqs" and "j < length sqs" and "i \<noteq> j"
    and "diagnostics_owned i sqs w as" and "length as < 2147483648"
    and "booked_bytes w + length as * (L + 40) < 4294967296"
    and "DiagnosticEventCollector_GetEvents D j sqs w = ((r, sqs'), w')"
  shows "\<exists>k new. k \<le> length as \<and> diagnostics_collected roots L i j sqs w k new sqs' w' \<and> diagnostics_owned i sqs' w' (drop k as)
    \<and> (r = EVENT_COLLECTOR_OK \<longrightarrow> diagnostics_owned i sqs' w' [] \<and> length new = length as)"
  by (rule GetEvents_collects [OF assms])

text \<open>What \<open>AddEvent\<close> does to the ownership, when no lock call fails and nothing faults.\<close>

lemma PushBack_result:
  assumes "locks_work w"
  shows "fst (fst (SyncQueue_PushBack q d n w)) \<noteq> SYNC_QUEUE_LOCK_EXCEPTION"
  using assms locks_work_def [of w]
  by (auto simp: SyncQueue_PushBack_def locked_def Let_def split_beta sys_defs PushBack_locks)

lemma AddEvent_owned:
  fixes w :: "('h, 'a) diagnostic_env_scheme"
  assumes lw: "locks_work w" and ok: "sync_queues_ok sqs w" and q: "diagnosticEventsQueue w = Some i" and i: "i < length sqs"
    and own: "diagnostics_owned i sqs w as" and room: "booked_bytes w + length message + 96 < 4294967296"
    and run: "DiagnosticEventCollector_AddEvent message severity sqs w = ((r, sqs'), w')" and "\<not> fault w'"
  shows "locks_work w' \<and> sync_queues_ok sqs' w' \<and> diagnosticEventsQueue w' = Some i
    \<and> (r = EVENT_COLLECTOR_OK \<and> diagnostics_owned i sqs' w' (as @ [nextDiagnosticEvent w])
       \<or> r \<noteq> EVENT_COLLECTOR_OK \<and> diagnostics_owned i sqs' w' as)"
proof -
  obtain x w1 where init: "DiagnosticEventCollector_InitDiagnosticEvent message severity w = (x, w1)" by fastforce
  show ?thesis
  proof (cases "fst x = EVENT_COLLECTOR_OK")
    case False
    then have "r = EVENT_COLLECTOR_EXCEPTION" "sqs' = sqs" "w' = w1"
      using run init by (cases x; auto simp: DiagnosticEventCollector_AddEvent_def split: EventCollectorResult.splits)+
    moreover have "ticked w w1"
      using init False \<open>\<not> fault w'\<close>[unfolded \<open>w' = w1\<close>]
      by (auto simp: DiagnosticEventCollector_InitDiagnosticEvent_def Utils_CreateStringCopy_def sys_defs ticked_def Let_def
          split: if_splits)
    ultimately show ?thesis
      using lw ok q own ticked_sync [of w w1] queued_diagnostics [of w w1] ticked_def [of w w1]
      by (auto simp: diagnostics_owned_def diagnostics_kept_simps locks_work_def)
  next
    case True
    then obtain event n where x: "x = (EVENT_COLLECTOR_OK, Some (nextDiagnosticEvent w, 40 + 8 + of_nat (length message) + 1))"
      and w1: "w1 = w\<lparr>tick := n, diagnosticEvents := (diagnosticEvents w)(nextDiagnosticEvent w \<mapsto> event),
        nextDiagnosticEvent := Suc (nextDiagnosticEvent w)\<rparr>"
      using init
      by (auto simp: DiagnosticEventCollector_InitDiagnosticEvent_def Utils_CreateStringCopy_def sys_defs Let_def
          split: if_splits)
    let ?a = "nextDiagnosticEvent w" and ?n = "40 + 8 + of_nat (length message) + 1 :: u32"
    obtain r1 q1 w2 where push: "SyncQueue_PushBack (sqs ! i) (DIAGNOSTIC_ITEM ?a) ?n w1 = ((r1, q1), w2)"
      by (metis prod.collapse)
    have nofault: "\<not> fault w" using queues_okD(5) [OF ok [unfolded sync_queues_ok_def]] .
    then have nofault1: "\<not> fault w1" by (simp add: w1)
    have ok1: "sync_queues_ok sqs w1" "sync_items qq w1 = sync_items qq w" for qq
      using queues_ok_same [where w' = w1, OF ok] nofault by (simp_all add: w1)
    have fits: "booked_bytes w1 + cost_of (DIAGNOSTIC_ITEM ?a, ?n) < 4294967296"
    proof -
      have "?n = of_nat (length message + 49)" by simp
      then have "unat ?n \<le> length message + 49" by (simp only: unat_of_nat) simp
      then show ?thesis using room by (simp add: w1 cost_of_def)
    qed
    note facts = sync_push_items [OF ok1(1) i fits push]
    have lw1: "locks_work w1" using lw by (simp add: w1 locks_work_def)
    have lw2: "locks_work w2" using queued_keeps(7) [of w1 w2] facts lw1 by simp
    have "r1 \<noteq> SYNC_QUEUE_LOCK_EXCEPTION" using PushBack_result [OF lw1] push by (metis fst_conv)
    note K = queued_diagnostics [of w1 w2]
    have fresh: "?a \<notin> set as" "diagnosticEvents w ?a = None" using own by (auto simp: diagnostics_owned_def)
    show ?thesis
    proof (cases "r1 = SYNC_OK")
      case True
      with run init x q push have "r = EVENT_COLLECTOR_OK" "sqs' = sqs[i := q1]" "w' = w2"
        by (simp_all add: DiagnosticEventCollector_AddEvent_def w1)
      with True facts K lw2 q own fresh ok1 i show ?thesis
        by (auto simp: diagnostics_owned_def diagnostics_kept_simps w1 queued_def)
    next
      case False
      with run init x q push have "r = EVENT_COLLECTOR_EXCEPTION" "sqs' = sqs[i := q1]"
        and freed: "w' = DiagnosticEventCollector_DeinitDiagnosticEvent ?a w2"
        by (simp_all add: DiagnosticEventCollector_AddEvent_def w1)
      then have w': "w' = w2\<lparr>diagnosticEvents := diagnosticEvents w\<rparr>"
        using freed K facts fresh(2) by (simp add: DiagnosticEventCollector_DeinitDiagnosticEvent_def diagnostics_kept_simps w1 fun_upd_idem)
      have "sync_queues_ok (sqs[i := q1]) w'" "sync_items q1 w' = sync_items (sqs ! i) w"
        using queues_ok_same [where w' = w' and w = w2 and sqs = "sqs[i := q1]"] queued_keeps(1) [of w1 w2] facts nofault1 ok1(2)
          False \<open>r1 \<noteq> SYNC_QUEUE_LOCK_EXCEPTION\<close>
        by (simp_all add: w')
      moreover have "nextDiagnosticEvent w' = Suc ?a" "diagnosticEventsQueue w' = Some i" "locks_work w'"
        using K facts q lw2 by (auto simp: w' w1 queued_def locks_work_def)
      moreover have "diagnosticEvents w' = diagnosticEvents w" by (simp add: w')
      ultimately show ?thesis using own i \<open>r = EVENT_COLLECTOR_EXCEPTION\<close> \<open>sqs' = sqs[i := q1]\<close> by (auto simp: diagnostics_owned_def)
    qed
  qed
qed

text \<open>A state to begin with: nothing queued, every call succeeds.\<close>

definition calm_diagnostic_with :: "'h \<Rightarrow> 'h diagnostic_env" where
  "calm_diagnostic_with h = config_error_env.extend (hub_env.extend (calm_hub_with h) \<lparr>lastEvent = 0\<rparr>)
     \<lparr>systemLoggerInitialized = True, systemLog = [], loggerSystemSeverity = SEVERITY_DEBUG,
      loggerDiagnosticSeverity = SEVERITY_WARNING, correlationId = None, diagnosticEventsQueue = Some 0,
      diagnosticEvents = (\<lambda>_. None), nextDiagnosticEvent = 0\<rparr>"

lemmas calm_diagnostic_defs = calm_diagnostic_with_def calm_hub_with_def calm_queue_env_with_def calm_monitor_with_def
  calm_counters_with_def calm_twin_with_def calm_collectors_with_def calm_def env.defs docs_env.defs log_env.defs auth_env.defs
  local_env.defs collectors_env.defs twin_env.defs counter_env.defs monitor_env.defs queue_env.defs hub_env.defs
  config_error_env.defs diagnostic_env.defs

lemma calm_diagnostic_fields [simp]:
  "lockOk (calm_diagnostic_with h) n" "allocOk (calm_diagnostic_with h) n" "extOk (calm_diagnostic_with h) n"
  "docs (calm_diagnostic_with h) = h" "locks_work (calm_diagnostic_with h)" "tick (calm_diagnostic_with h) = 0"
  "twinConfiguration (calm_diagnostic_with h) = calm_configuration" "currentConsumptionInBytes (calm_diagnostic_with h) = 0"
  "\<not> fault (calm_diagnostic_with h)" "diagnosticEventsQueue (calm_diagnostic_with h) = Some 0"
  "diagnosticEvents (calm_diagnostic_with h) = (\<lambda>_. None)" "nextDiagnosticEvent (calm_diagnostic_with h) = 0"
  "correlationId (calm_diagnostic_with h) = None"
  by (simp_all add: calm_diagnostic_defs locks_work_def)

lemma calm_diagnostic_queues:
  "sync_queues_ok [new_sync 0, new_sync 1] (calm_diagnostic_with h)" "sync_items (new_sync c) (calm_diagnostic_with h) = []"
  by (simp_all add: sync_queues_ok_def new_sync_def queues_ok_def held_def sync_items_def less_Suc_eq calm_diagnostic_defs)

lemma text_doc_lists: "parson_lists text_doc text_roots" "texts_within text_doc 2"
  using text_doc_ownership text_doc_arrays by (auto simp: parson_lists_def texts_within_def text_doc_def Let_def)

definition one_diagnostic :: "(EventCollectorResult \<times> SyncQueue list) \<times> text_store diagnostic_env" where
  "one_diagnostic = DiagnosticEventCollector_AddEvent ''late'' SEVERITY_ERROR [new_sync 0, new_sync 1]
     (calm_diagnostic_with ([], \<lambda>_. [], \<lambda>_. []))"

lemma one_diagnostic_facts:
  obtains sqs w where "one_diagnostic = ((EVENT_COLLECTOR_OK, sqs), w)" "locks_work w" "sync_queues_ok sqs w"
    "diagnosticEventsQueue w = Some 0" "length sqs = 2" "diagnostics_owned 0 sqs w [0]" "booked_bytes w \<le> 93"
proof -
  let ?w = "calm_diagnostic_with ([], \<lambda>_. [], \<lambda>_. []) :: text_store diagnostic_env" and ?sqs = "[new_sync 0, new_sync 1]"
  obtain r sqs w where run: "one_diagnostic = ((r, sqs), w)" by (metis prod.collapse)
  obtain event w1 where init: "DiagnosticEventCollector_InitDiagnosticEvent ''late'' SEVERITY_ERROR ?w
      = ((EVENT_COLLECTOR_OK, Some (0, 53)), w1)"
    and w1: "w1 = ?w\<lparr>tick := tick w1, diagnosticEvents := [0 \<mapsto> event], nextDiagnosticEvent := 1\<rparr>"
    by (simp add: DiagnosticEventCollector_InitDiagnosticEvent_def Utils_CreateStringCopy_def sys_defs Let_def
        CorrelationManager_GetCorrelation_def)
  obtain r1 q1 w2 where push: "SyncQueue_PushBack (new_sync 0) (DIAGNOSTIC_ITEM 0) 53 w1 = ((r1, q1), w2)" by (metis prod.collapse)
  have fields: "currentConsumptionInBytes w1 = 0" "twinConfiguration w1 = calm_configuration" "\<And>k. allocOk w1 k"
    "locks_work w1" "diagnosticEventsQueue w1 = Some 0" "queueItems w1 = queueItems ?w" "nextItemAddress w1 = nextItemAddress ?w" "\<not> fault w1"
    by (subst w1, simp add: locks_work_def)+
  have "fst (fst (SyncQueue_PushBack (new_sync 0) (DIAGNOSTIC_ITEM 0) 53 w1)) = SYNC_OK"
    by (rule PushBack_accepts [OF fields(4)])
      (simp_all add: fields calm_configuration_def default_defs Queue_CalculateItemSize_def sizeof_QueueItem_def sizeof_pointer_def)
  then have r1: "r1 = SYNC_OK" by (simp add: push)
  have res: "r = EVENT_COLLECTOR_OK" "sqs = [q1, new_sync 1]" "w = w2"
    using run init push fields(5) r1 by (simp_all add: one_diagnostic_def DiagnosticEventCollector_AddEvent_def)
  have ok1: "sync_queues_ok ?sqs w1"
    using queues_ok_same(1) [where w' = w1 and w = ?w, OF calm_diagnostic_queues(1)] fields by simp
  have push0: "SyncQueue_PushBack (?sqs ! 0) (DIAGNOSTIC_ITEM 0) 53 w1 = ((r1, q1), w2)" using push by simp
  have q: "queued w1 w2" "booked_bytes w2 \<le> 93"
    using sync_push_items [OF ok1 _ _ push0] fields(1) by (simp_all add: cost_of_def)
  have "\<not> fault w2" using queued_keeps(1) [OF q(1)] fields(8) by simp
  have "diagnostics_owned 0 ?sqs ?w []" by (simp add: diagnostics_owned_def calm_diagnostic_queues)
  from AddEvent_owned [OF _ calm_diagnostic_queues(1) _ _ this _ run [unfolded one_diagnostic_def]] res \<open>\<not> fault w2\<close>
  have "locks_work w \<and> sync_queues_ok sqs w \<and> diagnosticEventsQueue w = Some 0 \<and> diagnostics_owned 0 sqs w [0]"
    by (simp add: one_diagnostic_def)
  with res run q(2) that show thesis by simp
qed

lemma diagnostic_events_are_collected_witness:
  "\<exists>sqs w r sqs' w' k new. one_diagnostic = ((EVENT_COLLECTOR_OK, sqs), w)
     \<and> DiagnosticEventCollector_GetEvents text_doc 1 sqs w = ((r, sqs'), w')
     \<and> diagnostics_collected text_roots 2 0 1 sqs w k new sqs' w' \<and> diagnostics_owned 0 sqs' w' (drop k [0])"
proof -
  obtain sqs w where one: "one_diagnostic = ((EVENT_COLLECTOR_OK, sqs), w)" "locks_work w" "sync_queues_ok sqs w"
    "diagnosticEventsQueue w = Some 0" "length sqs = 2" "diagnostics_owned 0 sqs w [0]" "booked_bytes w \<le> 93"
    by (rule one_diagnostic_facts)
  obtain r sqs' w' where run: "DiagnosticEventCollector_GetEvents text_doc 1 sqs w = ((r, sqs'), w')" by (metis prod.collapse)
  from diagnostic_events_are_collected [OF text_doc_lists one(2-4) _ _ _ one(6) _ _ run] one(5,7)
  obtain k new where "diagnostics_collected text_roots 2 0 1 sqs w k new sqs' w' \<and> diagnostics_owned 0 sqs' w' (drop k [0])"
    by auto
  with one(1) run show ?thesis by blast
qed

section \<open>The agent reports about itself\<close>

text \<open>
  C32: The agent's telemetry: at most two texts go to the end of the priority queue, exactly two when
  \<open>GetEvents\<close> reports success; the other queues keep their items, and every document built for it is released
  again, whatever lock, allocation or parson call fails on the way.
\<close>

theorem telemetry_reports_itself:
  fixes w :: "('h, 'a) queue_env_scheme"
  assumes "parson_lists D roots" and "texts_within D L" and "provider_ready w"
    and "booked_bytes w + 2 * (L + 40) < 4294967296" and "sync_queues_ok sqs w" and "i < length sqs"
    and "AgentTelemetryCollector_GetEvents D i sqs w = ((r, sqs'), w')"
  shows "provider_ready w' \<and> (\<exists>new. gained roots L 2 i sqs w new sqs' w' \<and> (r = EVENT_COLLECTOR_OK \<longrightarrow> length new = 2))"
  by (rule Telemetry_gained [OF assms(1,2) stable_provider assms(3) _ assms(4-7)])

lemma telemetry_reports_itself_witness:
  "\<exists>r sqs' w' new. AgentTelemetryCollector_GetEvents text_doc 0 [new_sync 0, new_sync 1] (calm_diagnostic_with ([], \<lambda>_. [], \<lambda>_. []))
       = ((r, sqs'), w')
     \<and> gained text_roots 2 2 0 [new_sync 0, new_sync 1] (calm_diagnostic_with ([], \<lambda>_. [], \<lambda>_. [])) new sqs' w'"
proof -
  let ?w = "calm_diagnostic_with ([], \<lambda>_. [], \<lambda>_. []) :: text_store diagnostic_env" and ?sqs = "[new_sync 0, new_sync 1]"
  have ready: "provider_ready ?w" by (simp add: provider_ready_def calm_diagnostic_defs)
  obtain r sqs' w' where run: "AgentTelemetryCollector_GetEvents text_doc 0 ?sqs ?w = ((r, sqs'), w')"
    by (metis prod.collapse)
  from telemetry_reports_itself [OF text_doc_lists ready _ calm_diagnostic_queues(1) _ run] run show ?thesis by auto
qed

end
