(* ===== verification/Event_Monitor_Task.thy ===== *)
theory Event_Monitor_Task
  imports Diagnostic_Collector
begin

text \<open>
  The task that runs the collectors, \<^verbatim>\<open>src/agent/src/tasks/event_monitor_task.c\<close>, over the interface every
  collector offers (\<^verbatim>\<open>src/agent/inc/collectors/collector.h\<close>): a function that adds its events to a queue.
\<close>

type_synonym 'w EventCollectorFunc =
  "nat \<Rightarrow> SyncQueue list \<Rightarrow> 'w \<Rightarrow> (EventCollectorResult \<times> SyncQueue list) \<times> 'w"

text \<open>The queues by their position in the list of the agent's queues; \<open>Deinit\<close> clears two of them.\<close>

record EventMonitorTask =
  operationalEventsQueue :: "nat option"
  highPriorityQueue :: "nat option"
  lowPriorityQueue :: "nat option"
  lastPeriodicExecution :: time_t
  lastTriggeredExecution :: time_t

text \<open>The collectors the task knows, with the initialisation and the end of the two that have one.\<close>

record 'w EventCollectors =
  AgentTelemetry_collect :: "'w EventCollectorFunc"
  LocalUsers_collect :: "'w EventCollectorFunc"
  SystemInformation_collect :: "'w EventCollectorFunc"
  ListeningPort_collect :: "'w EventCollectorFunc"
  Firewall_collect :: "'w EventCollectorFunc"
  Baseline_collect :: "'w EventCollectorFunc"
  Diagnostic_collect :: "'w EventCollectorFunc"
  ConfigurationError_collect :: "'w EventCollectorFunc"
  ProcessCreation_collect :: "'w EventCollectorFunc"
  UserLogin_collect :: "'w EventCollectorFunc"
  ConnectionCreate_collect :: "'w EventCollectorFunc"
  ProcessCreation_init :: "'w \<Rightarrow> EventCollectorResult \<times> 'w"
  ConnectionCreate_init :: "'w \<Rightarrow> EventCollectorResult \<times> 'w"
  ProcessCreation_deinit :: "'w \<Rightarrow> 'w"
  ConnectionCreate_deinit :: "'w \<Rightarrow> 'w"

definition EventMonitorTask_InitCollectors :: "'w EventCollectors \<Rightarrow> 'w \<Rightarrow> bool \<times> 'w" where
  "EventMonitorTask_InitCollectors C w =
     (let (r, w1) = ProcessCreation_init C w in
      if r \<noteq> EVENT_COLLECTOR_OK then (False, w1)
      else let (r2, w2) = ConnectionCreate_init C w1 in
        if r2 \<noteq> EVENT_COLLECTOR_OK then (False, w2) else (True, w2))"

definition EventMonitorTask_DeinitCollectors :: "'w EventCollectors \<Rightarrow> 'w \<Rightarrow> 'w" where
  "EventMonitorTask_DeinitCollectors C w = ConnectionCreate_deinit C (ProcessCreation_deinit C w)"

definition EventMonitorTask_Init ::
  "'w EventCollectors \<Rightarrow> nat \<Rightarrow> nat \<Rightarrow> nat \<Rightarrow> 'w \<Rightarrow> (bool \<times> EventMonitorTask) \<times> 'w" where
  "EventMonitorTask_Init C highQueue lowQueue operationalQueue w =
     (let (ok, w1) = EventMonitorTask_InitCollectors C w
      in ((ok, \<lparr>operationalEventsQueue = Some operationalQueue, highPriorityQueue = Some highQueue,
                lowPriorityQueue = Some lowQueue, lastPeriodicExecution = 0, lastTriggeredExecution = 0\<rparr>), w1))"

definition EventMonitorTask_Deinit :: "'w EventCollectors \<Rightarrow> EventMonitorTask \<Rightarrow> 'w \<Rightarrow> EventMonitorTask \<times> 'w" where
  "EventMonitorTask_Deinit C task w =
     (task\<lparr>highPriorityQueue := None, lowPriorityQueue := None\<rparr>, EventMonitorTask_DeinitCollectors C w)"

section \<open>Running the collectors\<close>

text \<open>Collecting into a queue that is NULL dereferences it.\<close>

definition collect_into ::
  "('h, 'a) collectors_env_scheme EventCollectorFunc \<Rightarrow> nat option \<Rightarrow> SyncQueue list \<Rightarrow> ('h, 'a) collectors_env_scheme \<Rightarrow>
    SyncQueue list \<times> ('h, 'a) collectors_env_scheme" where
  "collect_into collectFunction queue sqs w =
     (case queue of
        None \<Rightarrow> (sqs, w\<lparr>fault := True\<rparr>)
      | Some i \<Rightarrow> (let ((_, sqs'), w') = collectFunction i sqs w in (sqs', w')))"

text \<open>The result of the collector is only logged; an event type that is off collects nothing.\<close>

definition EventMonitorTask_MonitorSingleEvents ::
  "EventMonitorTask \<Rightarrow> TwinConfigurationEventType \<Rightarrow> ('h, 'a) collectors_env_scheme EventCollectorFunc \<Rightarrow> SyncQueue list \<Rightarrow>
    ('h, 'a) collectors_env_scheme \<Rightarrow> (bool \<times> SyncQueue list) \<times> ('h, 'a) collectors_env_scheme" where
  "EventMonitorTask_MonitorSingleEvents task eventType collectFunction sqs w =
     (case TwinConfigurationEventCollectors_GetPriority eventType w of
        ((TWIN_OK, Some priority), w1) \<Rightarrow>
          (let (sqs', w') =
             (case priority of
                EVENT_PRIORITY_OPERATIONAL \<Rightarrow> collect_into collectFunction (operationalEventsQueue task) sqs w1
              | EVENT_PRIORITY_HIGH \<Rightarrow> collect_into collectFunction (highPriorityQueue task) sqs w1
              | EVENT_PRIORITY_LOW \<Rightarrow> collect_into collectFunction (lowPriorityQueue task) sqs w1
              | EVENT_PRIORITY_OFF \<Rightarrow> (sqs, w1))
           in ((True, sqs'), w'))
      | (_, w1) \<Rightarrow> ((False, sqs), w1))"

text \<open>One event type after the other, until a priority cannot be read.\<close>

fun monitor_events ::
  "EventMonitorTask \<Rightarrow> (TwinConfigurationEventType \<times> ('h, 'a) collectors_env_scheme EventCollectorFunc) list \<Rightarrow>
    SyncQueue list \<Rightarrow> ('h, 'a) collectors_env_scheme \<Rightarrow> (bool \<times> SyncQueue list) \<times> ('h, 'a) collectors_env_scheme" where
  "monitor_events task [] sqs w = ((True, sqs), w)"
| "monitor_events task ((eventType, collectFunction) # rest) sqs w =
     (let ((ok, sqs1), w1) = EventMonitorTask_MonitorSingleEvents task eventType collectFunction sqs w in
      if \<not> ok then ((False, sqs1), w1) else monitor_events task rest sqs1 w1)"

definition periodic_events :: "'w EventCollectors \<Rightarrow> (TwinConfigurationEventType \<times> 'w EventCollectorFunc) list" where
  "periodic_events C =
     [(EVENT_TYPE_OPERATIONAL_EVENT, AgentTelemetry_collect C),
      (EVENT_TYPE_LOCAL_USERS, LocalUsers_collect C),
      (EVENT_TYPE_SYSTEM_INFORMATION, SystemInformation_collect C),
      (EVENT_TYPE_LISTENING_PORTS, ListeningPort_collect C),
      (EVENT_TYPE_FIREWALL_CONFIGURATION, Firewall_collect C),
      (EVENT_TYPE_BASELINE, Baseline_collect C),
      (EVENT_TYPE_DIAGNOSTIC, Diagnostic_collect C)]"

definition triggered_events :: "'w EventCollectors \<Rightarrow> (TwinConfigurationEventType \<times> 'w EventCollectorFunc) list" where
  "triggered_events C =
     [(EVENT_TYPE_OPERATIONAL_EVENT, ConfigurationError_collect C),
      (EVENT_TYPE_PROCESS_CREATE, ProcessCreation_collect C),
      (EVENT_TYPE_USER_LOGIN, UserLogin_collect C),
      (EVENT_TYPE_CONNECTION_CREATE, ConnectionCreate_collect C),
      (EVENT_TYPE_DIAGNOSTIC, Diagnostic_collect C)]"

definition EventMonitorTask_MonitorPeriodicEvents ::
  "('h, 'a) collectors_env_scheme EventCollectors \<Rightarrow> EventMonitorTask \<Rightarrow> SyncQueue list \<Rightarrow> ('h, 'a) collectors_env_scheme \<Rightarrow>
    (bool \<times> SyncQueue list) \<times> ('h, 'a) collectors_env_scheme" where
  "EventMonitorTask_MonitorPeriodicEvents C task = monitor_events task (periodic_events C)"

definition EventMonitorTask_MonitorTriggeredEvents ::
  "('h, 'a) collectors_env_scheme EventCollectors \<Rightarrow> EventMonitorTask \<Rightarrow> SyncQueue list \<Rightarrow> ('h, 'a) collectors_env_scheme \<Rightarrow>
    (bool \<times> SyncQueue list) \<times> ('h, 'a) collectors_env_scheme" where
  "EventMonitorTask_MonitorTriggeredEvents C task = monitor_events task (triggered_events C)"

text \<open>Both time differences are compared as unsigned numbers.\<close>

definition EventMonitorTask_Execute ::
  "('h, 'a) twin_env_scheme EventCollectors \<Rightarrow> EventMonitorTask \<Rightarrow> SyncQueue list \<Rightarrow> ('h, 'a) twin_env_scheme \<Rightarrow>
    (EventMonitorTask \<times> SyncQueue list) \<times> ('h, 'a) twin_env_scheme" where
  "EventMonitorTask_Execute C task sqs w =
     (case TwinConfiguration_GetSnapshotFrequency w of
        ((TWIN_OK, Some periodicFrequency), w1) \<Rightarrow>
          (let (currentTime, w2) = sys_time w1;
               ((task1, sqs1), w3) =
                 (if TimeUtils_GetTimeDiff w2 currentTime (lastPeriodicExecution task) \<ge> periodicFrequency
                  then let ((_, sqs1), w3) = EventMonitorTask_MonitorPeriodicEvents C task sqs w2
                       in ((task\<lparr>lastPeriodicExecution := currentTime\<rparr>, sqs1), w3)
                  else ((task, sqs), w2))
           in if TimeUtils_GetTimeDiff w3 currentTime (lastTriggeredExecution task1) \<ge> LocalConfiguration_GetTriggeredEventInterval w3
              then let ((_, sqs2), w4) = EventMonitorTask_MonitorTriggeredEvents C task1 sqs1 w3
                   in ((task1\<lparr>lastTriggeredExecution := currentTime\<rparr>, sqs2), w4)
              else ((task1, sqs1), w3))
      | (_, w1) \<Rightarrow> ((task, sqs), w1))"

section \<open>The contract of a collector\<close>

text \<open>
  The queues a collector may add to are the \<open>targets\<close>; from the others it may only take.  Texts are added
  at the end, at most \<open>n\<close> of them, and the documents made on the way are released.
\<close>

definition events_collected ::
  "('h \<Rightarrow> 'v set) \<Rightarrow> nat \<Rightarrow> nat set \<Rightarrow> nat \<Rightarrow> SyncQueue list \<Rightarrow> ('h, 'a) queue_env_scheme \<Rightarrow> SyncQueue list \<Rightarrow> ('h, 'a) queue_env_scheme \<Rightarrow> bool" where
  "events_collected roots L targets n sqs w sqs' w' \<longleftrightarrow>
     sync_queues_ok sqs' w' \<and> length sqs' = length sqs \<and> roots (docs w') = roots (docs w)
     \<and> booked_bytes w' \<le> booked_bytes w + n * (L + 40)
     \<and> (\<forall>j < length sqs. if j \<in> targets
          then \<exists>new. sync_items (sqs' ! j) w' = sync_items (sqs ! j) w @ new \<and> (\<forall>x \<in> set new. \<exists>s. x = (EVENT s, of_nat (length s)))
          else \<exists>k. sync_items (sqs' ! j) w' = drop k (sync_items (sqs ! j) w))"

lemma events_collectedD:
  assumes "events_collected roots L targets n sqs w sqs' w'" and "j < length sqs"
  shows "j \<in> targets \<Longrightarrow>
      \<exists>new. sync_items (sqs' ! j) w' = sync_items (sqs ! j) w @ new \<and> (\<forall>x \<in> set new. \<exists>s. x = (EVENT s, of_nat (length s)))"
    "j \<notin> targets \<Longrightarrow> \<exists>k. sync_items (sqs' ! j) w' = drop k (sync_items (sqs ! j) w)"
  using assms by (simp_all add: events_collected_def)

lemma events_collected_trans:
  assumes "events_collected roots L targets n sqs w sqs1 w1" and "events_collected roots L targets m sqs1 w1 sqs2 w2"
  shows "events_collected roots L targets (n + m) sqs w sqs2 w2"
proof -
  have "if j \<in> targets
      then \<exists>new. sync_items (sqs2 ! j) w2 = sync_items (sqs ! j) w @ new \<and> (\<forall>x \<in> set new. \<exists>s. x = (EVENT s, of_nat (length s)))
      else \<exists>k. sync_items (sqs2 ! j) w2 = drop k (sync_items (sqs ! j) w)" if j: "j < length sqs" for j
  proof -
  have j1: "j < length sqs1" using assms(1) j by (simp add: events_collected_def)
  show ?thesis
  proof (cases "j \<in> targets")
    case True
    obtain new new1 where "sync_items (sqs1 ! j) w1 = sync_items (sqs ! j) w @ new"
      "\<forall>x \<in> set new. \<exists>s. x = (EVENT s, of_nat (length s))"
      "sync_items (sqs2 ! j) w2 = sync_items (sqs1 ! j) w1 @ new1" "\<forall>x \<in> set new1. \<exists>s. x = (EVENT s, of_nat (length s))"
      using events_collectedD(1) [OF assms(1) j True] events_collectedD(1) [OF assms(2) j1 True] by blast
    then have "sync_items (sqs2 ! j) w2 = sync_items (sqs ! j) w @ (new @ new1)
        \<and> (\<forall>x \<in> set (new @ new1). \<exists>s. x = (EVENT s, of_nat (length s)))" by (simp add: ball_Un)
    then have "\<exists>new. sync_items (sqs2 ! j) w2 = sync_items (sqs ! j) w @ new \<and> (\<forall>x \<in> set new. \<exists>s. x = (EVENT s, of_nat (length s)))"
      by blast
    with True show ?thesis by simp
  next
    case False
    obtain k m where "sync_items (sqs1 ! j) w1 = drop k (sync_items (sqs ! j) w)"
      "sync_items (sqs2 ! j) w2 = drop m (sync_items (sqs1 ! j) w1)"
      using events_collectedD(2) [OF assms(1) j False] events_collectedD(2) [OF assms(2) j1 False] by blast
    then have "sync_items (sqs2 ! j) w2 = drop (m + k) (sync_items (sqs ! j) w)" by simp
    then have "\<exists>k. sync_items (sqs2 ! j) w2 = drop k (sync_items (sqs ! j) w)" by blast
    with False show ?thesis by simp
  qed
  qed
  then have "\<forall>j < length sqs. if j \<in> targets
      then \<exists>new. sync_items (sqs2 ! j) w2 = sync_items (sqs ! j) w @ new \<and> (\<forall>x \<in> set new. \<exists>s. x = (EVENT s, of_nat (length s)))
      else \<exists>k. sync_items (sqs2 ! j) w2 = drop k (sync_items (sqs ! j) w)" by blast
  moreover have "sync_queues_ok sqs2 w2 \<and> length sqs2 = length sqs \<and> roots (docs w2) = roots (docs w)
      \<and> booked_bytes w2 \<le> booked_bytes w + (n + m) * (L + 40)"
    using assms unfolding events_collected_def add_mult_distrib by (elim conjE, intro conjI) simp_all
  ultimately show ?thesis unfolding events_collected_def by blast
qed

lemma events_collected_more: "events_collected roots L targets n sqs w sqs' w' \<Longrightarrow> n \<le> m \<Longrightarrow> events_collected roots L targets m sqs w sqs' w'"
  unfolding events_collected_def by (elim conjE, intro conjI, assumption+) (rule order_trans, assumption, simp_all add: mult_le_mono1)

lemma aside_collected:
  assumes "sync_queues_ok sqs w" and "aside roots w w'"
  shows "events_collected roots L targets n sqs w sqs w'"
proof -
  have "sync_items q w' = sync_items q w" for q
    using assms(2) by (intro aside_queues(2) [OF assms(1)]) (simp_all add: aside_def)
  moreover have "roots (docs w') = roots (docs w)" "booked_bytes w' = booked_bytes w" using assms(2) by (simp_all add: aside_def)
  ultimately show ?thesis
    using aside_ok [OF assms] by (auto simp: events_collected_def intro: exI [of _ "[]"] exI [of _ 0])
qed

lemma gained_collected:
  assumes "gained roots L n i sqs w new sqs' w'" and "i \<in> targets"
  shows "events_collected roots L targets n sqs w sqs' w'"
  using assms by (auto simp: gained_def events_collected_def intro: exI [of _ "[]"] exI [of _ 0])

text \<open>Reading a setting of the twin: the call counter moves and the lock of the settings may change.\<close>

definition settings_read :: "('h, 'a) collectors_env_scheme \<Rightarrow> ('h, 'a) collectors_env_scheme \<Rightarrow> bool" where
  "settings_read w w' \<longleftrightarrow> (\<exists>n b. w' = w\<lparr>tick := n, eventPriorities := (eventPriorities w)\<lparr>isLocked := b\<rparr>\<rparr>)"

lemma settings_read_aside: "settings_read w w' \<Longrightarrow> aside roots w w'"
  by (auto simp: settings_read_def aside_def)

lemma ticked_settings: "ticked w w' \<Longrightarrow> settings_read w w'"
  unfolding ticked_def settings_read_def
  by (elim exE, rule_tac x = n in exI, rule exI [of _ "isLocked (eventPriorities w)"]) simp

lemma settings_read_trans: "settings_read w w1 \<Longrightarrow> settings_read w1 w2 \<Longrightarrow> settings_read w w2"
  unfolding settings_read_def by (elim exE) (simp, blast)

lemma lock_reads:
  "settings_read w (snd (TwinConfigurationEventCollectors_Lock w))" "settings_read w (snd (TwinConfigurationEventCollectors_Unlock w))"
proof -
  have *: "settings_read w (w\<lparr>tick := n\<rparr>)" "settings_read w w"
    "settings_read w (w\<lparr>tick := n, eventPriorities := (eventPriorities w)\<lparr>isLocked := b\<rparr>\<rparr>)" for n b
    using ticked_settings [of w "w\<lparr>tick := n\<rparr>"] ticked_settings [OF ticked_refl] unfolding settings_read_def ticked_def by blast+
  have "settings_read w (w\<lparr>eventPriorities := (eventPriorities w)\<lparr>isLocked := b\<rparr>\<rparr>)" for b
    using *(3) [where n = "tick w" and b = b] by simp
  with * show "settings_read w (snd (TwinConfigurationEventCollectors_Lock w))"
    "settings_read w (snd (TwinConfigurationEventCollectors_Unlock w))"
    by (auto simp: TwinConfigurationEventCollectors_Lock_def TwinConfigurationEventCollectors_Unlock_def sys_defs Let_def)
qed

lemma GetPriority_reads: "settings_read w (snd (TwinConfigurationEventCollectors_GetPriority ty w))"
  using settings_read_trans [OF lock_reads(1) lock_reads(2)]
  by (auto simp: TwinConfigurationEventCollectors_GetPriority_def with_collectors_lock_def Let_def split_beta)

locale event_collector =
  fixes collect :: "('h, 'a) queue_env_scheme EventCollectorFunc"
    and ready :: "SyncQueue list \<Rightarrow> ('h, 'a) queue_env_scheme \<Rightarrow> bool"
    and D :: "('v, 'o, 'r, 'h) parson_doc" and roots :: "'h \<Rightarrow> 'v set" and L n :: nat and targets :: "nat set"
  assumes reading: "ready sqs w \<Longrightarrow> settings_read w w' \<Longrightarrow> ready sqs w'"
    and collecting: "parson_lists D roots \<Longrightarrow> texts_within D L \<Longrightarrow> ready sqs w \<Longrightarrow> sync_queues_ok sqs w \<Longrightarrow> i \<in> targets \<Longrightarrow>
      i < length sqs \<Longrightarrow> booked_bytes w + n * (L + 40) < 4294967296 \<Longrightarrow> collect i sqs w = ((r, sqs'), w') \<Longrightarrow>
      ready sqs' w' \<and> events_collected roots L targets n sqs w sqs' w'"

text \<open>The queues of the task are among the targets.\<close>

definition monitor_queues :: "EventMonitorTask \<Rightarrow> nat set \<Rightarrow> SyncQueue list \<Rightarrow> bool" where
  "monitor_queues task targets sqs \<longleftrightarrow>
     (\<forall>q \<in> {operationalEventsQueue task, highPriorityQueue task, lowPriorityQueue task}.
        \<exists>i. q = Some i \<and> i \<in> targets \<and> i < length sqs)"

context event_collector
begin

lemma collecting_into:
  assumes D: "parson_lists D roots" "texts_within D L" and "ready sqs w" "sync_queues_ok sqs w"
    and "\<exists>i. q = Some i \<and> i \<in> targets \<and> i < length sqs"
    and "booked_bytes w + n * (L + 40) < 4294967296" and "collect_into collect q sqs w = (sqs', w')"
  shows "ready sqs' w' \<and> events_collected roots L targets n sqs w sqs' w'"
proof -
  obtain i where i: "q = Some i" "i \<in> targets" "i < length sqs" using assms(5) by blast
  obtain r where "collect i sqs w = ((r, sqs'), w')" using assms(7) i(1) by (auto simp: collect_into_def split: prod.splits)
  from collecting [OF D assms(3,4) i(2,3) assms(6) this] show ?thesis .
qed

lemma monitored:
  assumes D: "parson_lists D roots" "texts_within D L" and "ready sqs w" "sync_queues_ok sqs w" and "monitor_queues task targets sqs"
    and "booked_bytes w + n * (L + 40) < 4294967296"
    and "EventMonitorTask_MonitorSingleEvents task ty collect sqs w = ((ok, sqs'), w')"
  shows "ready sqs' w' \<and> events_collected roots L targets n sqs w sqs' w'"
proof -
  obtain x w1 where read: "TwinConfigurationEventCollectors_GetPriority ty w = (x, w1)" by fastforce
  have reads: "settings_read w w1" using GetPriority_reads [of w ty] read by simp
  have w1: "aside roots w w1" "ready sqs w1" using settings_read_aside [OF reads] reading [OF assms(3) reads] by simp_all
  have ok1: "sync_queues_ok sqs w1" by (rule aside_ok [OF assms(4) w1(1)])
  have bytes: "booked_bytes w1 = booked_bytes w" using w1(1) by (simp add: aside_def)
  have "ready sqs' w' \<and> events_collected roots L targets n sqs w1 sqs' w'"
  proof (cases "sqs' = sqs \<and> w' = w1")
    case True
    with w1(2) aside_collected [OF ok1 aside_refl] show ?thesis by blast
  next
    case False
    then obtain q where q: "collect_into collect q sqs w1 = (sqs', w')"
      "q \<in> {operationalEventsQueue task, highPriorityQueue task, lowPriorityQueue task}"
      using assms(7) read
      by (auto simp: EventMonitorTask_MonitorSingleEvents_def split: prod.splits TwinConfigurationResult.splits option.splits
          TwinConfigurationEventPriority.splits)
    from q(2) assms(5) have "\<exists>i. q = Some i \<and> i \<in> targets \<and> i < length sqs" unfolding monitor_queues_def by blast
    from collecting_into [OF D w1(2) ok1 this _ q(1)] assms(6) bytes show ?thesis by simp
  qed
  with events_collected_trans [OF aside_collected [OF assms(4) w1(1), where n = 0]] show ?thesis by fastforce
qed

end

lemma monitor_queues_length: "monitor_queues task targets sqs \<Longrightarrow> length sqs' = length sqs \<Longrightarrow> monitor_queues task targets sqs'"
  by (simp add: monitor_queues_def)

lemma events_collected_keeps:
  assumes "events_collected roots L targets n sqs w sqs' w'"
  shows "sync_queues_ok sqs' w'" "length sqs' = length sqs" "booked_bytes w' \<le> booked_bytes w + n * (L + 40)"
  using assms by (simp_all add: events_collected_def)

text \<open>The sequence of collectors keeps the contract of each of them.\<close>

lemma monitor_events_collected:
  fixes w :: "('h, 'a) queue_env_scheme"
  assumes D: "parson_lists D roots" "texts_within D L"
    and "\<And>x. x \<in> set seq \<Longrightarrow> event_collector (snd x) ready D roots L n targets"
    and "ready sqs w" "sync_queues_ok sqs w" and "monitor_queues task targets sqs"
    and "booked_bytes w + length seq * n * (L + 40) < 4294967296" and "monitor_events task seq sqs w = ((ok, sqs'), w')"
  shows "ready sqs' w' \<and> events_collected roots L targets (length seq * n) sqs w sqs' w'"
  using assms(3-)
proof (induction seq arbitrary: sqs w)
  case Nil
  then show ?case using aside_collected [OF Nil.prems(3) aside_refl] by simp
next
  case (Cons x seq)
  obtain ty c where x: "x = (ty, c)" by fastforce
  have loc: "event_collector c ready D roots L n targets" using Cons.prems(1) [of x] by (simp add: x)
  obtain ok1 sqs1 w1 where one: "EventMonitorTask_MonitorSingleEvents task ty c sqs w = ((ok1, sqs1), w1)" by (metis prod.collapse)
  have room: "booked_bytes w + n * (L + 40) < 4294967296" using Cons.prems(5) by (simp add: add_mult_distrib)
  from event_collector.monitored [OF loc D Cons.prems(2-4) room one]
  have first: "ready sqs1 w1" "events_collected roots L targets n sqs w sqs1 w1" by blast+
  note K = events_collected_keeps [OF first(2)]
  show ?case
  proof (cases ok1)
    case False
    with Cons.prems(6) one x have "sqs' = sqs1" "w' = w1" by auto
    with first events_collected_more [OF first(2), of "length (x # seq) * n"] show ?thesis by simp
  next
    case True
    with Cons.prems(6) one x have rest: "monitor_events task seq sqs1 w1 = ((ok, sqs'), w')" by auto
    have room1: "booked_bytes w1 + length seq * n * (L + 40) < 4294967296" using K(3) Cons.prems(5) by (simp add: add_mult_distrib)
    have locs: "\<And>x. x \<in> set seq \<Longrightarrow> event_collector (snd x) ready D roots L n targets"
      by (rule Cons.prems(1)) simp
    from Cons.IH [OF locs first(1) K(1) monitor_queues_length [OF Cons.prems(4) K(2)] room1 rest]
    have "ready sqs' w' \<and> events_collected roots L targets (length seq * n) sqs1 w1 sqs' w'" by simp
    with events_collected_trans [OF first(2)] show ?thesis by simp
  qed
qed


section \<open>The collectors that keep the contract\<close>

text \<open>
  What the agent's collectors rely on: no lock call fails, the counters and the name of the twin are set,
  and the diagnostic events in queue \<open>d\<close>, at most \<open>N\<close>, are owned.  All other queues are targets.
\<close>

definition collectors_ready :: "nat \<Rightarrow> nat \<Rightarrow> SyncQueue list \<Rightarrow> ('h, 'a) diagnostic_env_scheme \<Rightarrow> bool" where
  "collectors_ready d N sqs w \<longleftrightarrow>
     locks_work w \<and> provider_ready w \<and> twinConfigurationObjectName w \<noteq> None \<and> diagnosticEventsQueue w = Some d
     \<and> d < length sqs \<and> N < 2147483648 \<and> (\<exists>as. diagnostics_owned d sqs w as \<and> length as \<le> N)"

lemma same_state_ready:
  assumes "diagnostics_kept w v" "collectors_ready d N sqs w" "length sqs' = length sqs"
    and "sync_items (sqs' ! d) v = sync_items (sqs ! d) w"
  shows "collectors_ready d N sqs' v"
  using assms
  by (auto simp: diagnostics_kept_simps collectors_ready_def diagnostics_owned_def provider_ready_def locks_work_def)

lemma ready_reading:
  fixes w :: "('h, 'a) diagnostic_env_scheme"
  assumes "collectors_ready d N sqs w" and "settings_read w w'"
  shows "collectors_ready d N sqs w'"
proof (rule same_state_ready [OF _ assms(1) refl])
  show "diagnostics_kept w w'"
    using assms(2) by (auto simp: settings_read_def diagnostics_kept_simps)
  show "sync_items (sqs ! d) w' = sync_items (sqs ! d) w"
    using assms(2) by (auto simp: settings_read_def sync_items_def contents_def addresses_def)
qed

lemma gained_ready:
  assumes "diagnostics_kept w v" "collectors_ready d N sqs w" and g: "gained roots L m i sqs w new sqs' v" and "i \<noteq> d"
    and "m \<le> n"
  shows "collectors_ready d N sqs' v \<and> events_collected roots L (- {d}) n sqs w sqs' v"
proof -
  have "d < length sqs" using assms(2) by (simp add: collectors_ready_def)
  then have "length sqs' = length sqs" "sync_items (sqs' ! d) v = sync_items (sqs ! d) w" using g assms(4) by (simp_all add: gained_def)
  from same_state_ready [OF assms(1,2) this] events_collected_more [OF gained_collected [OF g] assms(5)] assms(4)
  show ?thesis by simp
qed

interpretation telemetry: event_collector "AgentTelemetryCollector_GetEvents D" "collectors_ready d N" D roots L "N + 2" "- {d}"
  for D :: "('v, 'o, 'r, 'h) parson_doc" and roots L d N
proof
  show "collectors_ready d N sqs w'" if "collectors_ready d N sqs w" "settings_read w w'"
    for sqs and w w' :: "('h, 'a) diagnostic_env_scheme"
    using ready_reading [OF that] .
  fix sqs sqs' i r and w w' :: "('h, 'a) diagnostic_env_scheme"
  assume D: "parson_lists D roots" "texts_within D L" and ready: "collectors_ready d N sqs w" and ok: "sync_queues_ok sqs w"
    and i: "i \<in> - {d}" "i < length sqs" and room: "booked_bytes w + (N + 2) * (L + 40) < 4294967296"
    and run: "AgentTelemetryCollector_GetEvents D i sqs w = ((r, sqs'), w')"
  have start: "diagnostics_kept w w" "provider_ready w"
    using ready by (simp_all add: diagnostics_kept_simps collectors_ready_def)
  have provider: "provider_ready v" if "diagnostics_kept w v" for v
    using that start(2) by (simp add: diagnostics_kept_simps provider_ready_def)
  have room2: "booked_bytes w + 2 * (L + 40) < 4294967296" using room by (simp add: add_mult_distrib)
  from Telemetry_gained [OF D stable_diagnostics start(1) provider room2 ok i(2) run]
  show "collectors_ready d N sqs' w' \<and> events_collected roots L (- {d}) (N + 2) sqs w sqs' w'"
    using gained_ready [OF _ ready] i(1) by fastforce
qed

interpretation configuration_error: event_collector "AgentConfigurationErrorCollector_GetEvents D" "collectors_ready d N" D roots L
    "N + 2" "- {d}"
  for D :: "('v, 'o, 'r, 'h) parson_doc" and roots L d N
proof
  show "collectors_ready d N sqs w'" if "collectors_ready d N sqs w" "settings_read w w'"
    for sqs and w w' :: "('h, 'a) diagnostic_env_scheme"
    using ready_reading [OF that] .
  fix sqs sqs' i r and w w' :: "('h, 'a) diagnostic_env_scheme"
  assume D: "parson_lists D roots" "texts_within D L" and ready: "collectors_ready d N sqs w" and ok: "sync_queues_ok sqs w"
    and i: "i \<in> - {d}" "i < length sqs" and room: "booked_bytes w + (N + 2) * (L + 40) < 4294967296"
    and run: "AgentConfigurationErrorCollector_GetEvents D i sqs w = ((r, sqs'), w')"
  have start: "diagnostics_kept w w" "twinConfigurationObjectName w \<noteq> None"
    using ready by (simp_all add: diagnostics_kept_simps collectors_ready_def)
  have named: "twinConfigurationObjectName v \<noteq> None" if "diagnostics_kept w v" for v
    using that start(2) by (simp add: diagnostics_kept_simps)
  have other: "diagnostics_kept w (v\<lparr>lastEvent := t\<rparr>)" if "diagnostics_kept w v" for v t
    using that by (simp add: diagnostics_kept_simps)
  have room1: "booked_bytes w + (L + 40) < 4294967296" using room by (simp add: add_mult_distrib)
  from ConfigurationError_gained [OF D stable_diagnostics start(1) named other room1 ok i(2) run]
  show "collectors_ready d N sqs' w' \<and> events_collected roots L (- {d}) (N + 2) sqs w sqs' w'"
    using gained_ready [OF _ ready] i(1) by fastforce
qed

interpretation diagnostic: event_collector "DiagnosticEventCollector_GetEvents D" "collectors_ready d N" D roots L "N + 2" "- {d}"
  for D :: "('v, 'o, 'r, 'h) parson_doc" and roots L d N
proof
  show "collectors_ready d N sqs w'" if "collectors_ready d N sqs w" "settings_read w w'"
    for sqs and w w' :: "('h, 'a) diagnostic_env_scheme"
    using ready_reading [OF that] .
  fix sqs sqs' i r and w w' :: "('h, 'a) diagnostic_env_scheme"
  assume D: "parson_lists D roots" "texts_within D L" and ready: "collectors_ready d N sqs w" and ok: "sync_queues_ok sqs w"
    and i: "i \<in> - {d}" "i < length sqs" and room: "booked_bytes w + (N + 2) * (L + 40) < 4294967296"
    and run: "DiagnosticEventCollector_GetEvents D i sqs w = ((r, sqs'), w')"
  obtain as where as: "diagnostics_owned d sqs w as" "length as \<le> N" "length as < 2147483648"
    using ready by (auto simp: collectors_ready_def)
  have "length as * (L + 40) \<le> (N + 2) * (L + 40)" using as(2) by (intro mult_le_mono1) simp
  then have room1: "booked_bytes w + length as * (L + 40) < 4294967296" using room by simp
  have d: "locks_work w" "diagnosticEventsQueue w = Some d" "d < length sqs" "d \<noteq> i"
    using ready i(1) by (auto simp: collectors_ready_def)
  from GetEvents_collects [OF D d(1) ok d(2,3) i(2) d(4) as(1,3) room1 run] obtain k new where
    got: "k \<le> length as" "diagnostics_collected roots L d i sqs w k new sqs' w'" "diagnostics_owned d sqs' w' (drop k as)" by blast
  have same: "collector_frame w w'" "length sqs' = length sqs" using got(2) by (simp_all add: diagnostics_collected_def)
  have "collectors_ready d N sqs' w'"
    using ready same got(3) as(2) unfolding collectors_ready_def
    by (auto simp: collector_frame_def provider_ready_def locks_work_def intro!: exI [of _ "drop k as"])
  moreover have "events_collected roots L (- {d}) k sqs w sqs' w'"
  proof -
    have "if j \<in> - {d}
        then \<exists>new. sync_items (sqs' ! j) w' = sync_items (sqs ! j) w @ new \<and> (\<forall>x \<in> set new. \<exists>s. x = (EVENT s, of_nat (length s)))
        else \<exists>k. sync_items (sqs' ! j) w' = drop k (sync_items (sqs ! j) w)" if j: "j < length sqs" for j
    proof -
      consider "j = d" | "j = i" "j \<noteq> d" | "j \<noteq> d" "j \<noteq> i" by blast
      then show ?thesis
      proof cases
        case 1
        have "sync_items (sqs' ! d) w' = drop k (sync_items (sqs ! d) w)" using got(2) unfolding diagnostics_collected_def by (elim conjE)
        with 1 show ?thesis by auto
      next
        case 2
        have "sync_items (sqs' ! i) w' = sync_items (sqs ! i) w @ new \<and> (\<forall>x \<in> set new. \<exists>s. x = (EVENT s, of_nat (length s)))"
          using got(2) unfolding diagnostics_collected_def by (elim conjE) (intro conjI)
        then have "\<exists>new. sync_items (sqs' ! i) w' = sync_items (sqs ! i) w @ new \<and> (\<forall>x \<in> set new. \<exists>s. x = (EVENT s, of_nat (length s)))"
          by (rule exI)
        with 2 show ?thesis by simp
      next
        case 3
        then have "sync_items (sqs' ! j) w' = sync_items (sqs ! j) w" using got(2) j unfolding diagnostics_collected_def by (elim conjE) simp
        with 3 show ?thesis by (auto intro: exI [of _ "[]"])
      qed
    qed
    then have queues: "\<forall>j < length sqs. if j \<in> - {d}
        then \<exists>new. sync_items (sqs' ! j) w' = sync_items (sqs ! j) w @ new \<and> (\<forall>x \<in> set new. \<exists>s. x = (EVENT s, of_nat (length s)))
        else \<exists>k. sync_items (sqs' ! j) w' = drop k (sync_items (sqs ! j) w)" by blast
    show ?thesis unfolding events_collected_def
      by (intro conjI queues) (use got(2) in \<open>simp_all add: diagnostics_collected_def\<close>)
  qed
  then have "events_collected roots L (- {d}) (N + 2) sqs w sqs' w'"
    by (rule events_collected_more) (use got(1) as(2) in simp)
  ultimately show "collectors_ready d N sqs' w' \<and> events_collected roots L (- {d}) (N + 2) sqs w sqs' w'" by blast
qed

text \<open>A monitor of these collectors, for a concrete run.\<close>

definition sample_collectors_of :: "('v, 'o, 'r, 'h) parson_doc \<Rightarrow> ('h, 'a) diagnostic_env_scheme EventCollectors" where
  "sample_collectors_of D =
     \<lparr>AgentTelemetry_collect = AgentTelemetryCollector_GetEvents D, LocalUsers_collect = AgentTelemetryCollector_GetEvents D,
      SystemInformation_collect = AgentTelemetryCollector_GetEvents D, ListeningPort_collect = AgentTelemetryCollector_GetEvents D,
      Firewall_collect = AgentTelemetryCollector_GetEvents D, Baseline_collect = AgentTelemetryCollector_GetEvents D,
      Diagnostic_collect = DiagnosticEventCollector_GetEvents D,
      ConfigurationError_collect = AgentConfigurationErrorCollector_GetEvents D,
      ProcessCreation_collect = AgentTelemetryCollector_GetEvents D, UserLogin_collect = AgentTelemetryCollector_GetEvents D,
      ConnectionCreate_collect = AgentTelemetryCollector_GetEvents D,
      ProcessCreation_init = Pair EVENT_COLLECTOR_OK, ConnectionCreate_init = Pair EVENT_COLLECTOR_OK,
      ProcessCreation_deinit = id, ConnectionCreate_deinit = id\<rparr>"

lemma sample_collectors_contract:
  "x \<in> set (periodic_events (sample_collectors_of D) @ triggered_events (sample_collectors_of D)) \<Longrightarrow>
    event_collector (snd x) (collectors_ready d N) D roots L (N + 2) (- {d})"
  by (auto simp: periodic_events_def triggered_events_def sample_collectors_of_def simp del: add_2_eq_Suc'
      intro: telemetry.event_collector_axioms diagnostic.event_collector_axioms configuration_error.event_collector_axioms)


end
