(* ===== verification/Event_Aggregator.thy ===== *)
theory Event_Aggregator
  imports Generic_Event "HOL-Library.Multiset"
begin

text \<open>
  Counting equal events instead of sending each, \<^verbatim>\<open>src/agent/src/collectors/event_aggregator.c\<close>.  The linked
  list of the SDK's utility library is the sequence of its items, added at the end; adding may fail.  The
  handles are values: every operation returns the aggregator it leaves.
\<close>

datatype EventAggregatorResult = EVENT_AGGREGATOR_OK | EVENT_AGGREGATOR_DISABLED | EVENT_AGGREGATOR_EXCEPTION

record ('v, 'o) AggregatedEventItem =
  itemJson :: "('v, 'o) JsonObjectWriter"
  hitCount :: u32

record EventAggregatorConfiguration =
  cfgEventType :: TwinConfigurationEventType
  cfg_event_type :: "string option"
  cfg_event_name :: "string option"
  cfg_payload_schema_version :: "string option"

record ('v, 'o) EventAggregator =
  iotEventType :: TwinConfigurationEventType
  ag_event_type :: string
  ag_event_name :: string
  ag_payload_schema_version :: string
  aggregatedEvents :: "('v, 'o) AggregatedEventItem list"
  lastAggregationTime :: time_t

definition HIT_COUNT_KEY :: string where "HIT_COUNT_KEY = ''HitCount''"
definition START_TIME_LOCAL_KEY :: string where "START_TIME_LOCAL_KEY = ''StartTimeLocal''"
definition START_TIME_UTC_KEY :: string where "START_TIME_UTC_KEY = ''StartTimeUtc''"
definition END_TIME_LOCAL_KEY :: string where "END_TIME_LOCAL_KEY = ''EndTimeLocal''"
definition END_TIME_UTC_KEY :: string where "END_TIME_UTC_KEY = ''EndTimeUtc''"

section \<open>Items\<close>

definition AggregatedEventItem_Deinit ::
  "('v, 'o, 'r, 'h) parson_doc \<Rightarrow> ('v, 'o) AggregatedEventItem \<Rightarrow> ('h, 'a) docs_env_scheme \<Rightarrow> ('h, 'a) docs_env_scheme" where
  "AggregatedEventItem_Deinit D item = JsonObjectWriter_Deinit D (itemJson item)"

fun clear_items ::
  "('v, 'o, 'r, 'h) parson_doc \<Rightarrow> ('v, 'o) AggregatedEventItem list \<Rightarrow> ('h, 'a) docs_env_scheme \<Rightarrow> ('h, 'a) docs_env_scheme" where
  "clear_items D [] w = w"
| "clear_items D (item # rest) w = clear_items D rest (AggregatedEventItem_Deinit D item w)"

definition EventAggregator_ClearAggregatedEvents ::
  "('v, 'o, 'r, 'h) parson_doc \<Rightarrow> ('v, 'o) EventAggregator \<Rightarrow> ('h, 'a) docs_env_scheme \<Rightarrow>
    (EventAggregatorResult \<times> ('v, 'o) EventAggregator) \<times> ('h, 'a) docs_env_scheme" where
  "EventAggregator_ClearAggregatedEvents D aggregator w =
     ((EVENT_AGGREGATOR_OK, aggregator\<lparr>aggregatedEvents := []\<rparr>), clear_items D (aggregatedEvents aggregator) w)"

section \<open>Life of an aggregator\<close>

definition EventAggregator_Deinit ::
  "('v, 'o, 'r, 'h) parson_doc \<Rightarrow> ('v, 'o) EventAggregator \<Rightarrow> ('h, 'a) docs_env_scheme \<Rightarrow> ('h, 'a) docs_env_scheme" where
  "EventAggregator_Deinit D aggregator w = snd (EventAggregator_ClearAggregatedEvents D aggregator w)"

text \<open>What was allocated before a failure is freed again; a new aggregator has no events to clear.\<close>

definition EventAggregator_Init ::
  "EventAggregatorConfiguration option \<Rightarrow> ('h, 'a) docs_env_scheme \<Rightarrow>
    (EventAggregatorResult \<times> ('v, 'o) EventAggregator option) \<times> ('h, 'a) docs_env_scheme" where
  "EventAggregator_Init configuration w =
     (case configuration of
        None \<Rightarrow> ((EVENT_AGGREGATOR_EXCEPTION, None), w)
      | Some cfg \<Rightarrow>
          if cfg_event_name cfg = None \<or> cfg_event_type cfg = None \<or> cfg_payload_schema_version cfg = None
          then ((EVENT_AGGREGATOR_EXCEPTION, None), w)
          else
            let (ok, w1) = sys_malloc w in
            if \<not> ok then ((EVENT_AGGREGATOR_EXCEPTION, None), w1)
            else
              let (now, w2) = sys_time w1; (eventName, w3) = Utils_CreateStringCopy (cfg_event_name cfg) w2 in
              case eventName of
                None \<Rightarrow> ((EVENT_AGGREGATOR_EXCEPTION, None), w3)
              | Some name \<Rightarrow>
                  (let (schemaVersion, w4) = Utils_CreateStringCopy (cfg_payload_schema_version cfg) w3 in
                   case schemaVersion of
                     None \<Rightarrow> ((EVENT_AGGREGATOR_EXCEPTION, None), w4)
                   | Some version \<Rightarrow>
                       (let (eventType, w5) = Utils_CreateStringCopy (cfg_event_type cfg) w4 in
                        case eventType of
                          None \<Rightarrow> ((EVENT_AGGREGATOR_EXCEPTION, None), w5)
                        | Some ty \<Rightarrow>
                            (let (created, w6) = sys_malloc w5 in
                             if \<not> created then ((EVENT_AGGREGATOR_EXCEPTION, None), w6)
                             else ((EVENT_AGGREGATOR_OK,
                                    Some \<lparr>iotEventType = cfgEventType cfg, ag_event_type = ty, ag_event_name = name,
                                          ag_payload_schema_version = version, aggregatedEvents = [],
                                          lastAggregationTime = now\<rparr>), w6)))))"

definition EventAggregator_IsAggregationEnabled ::
  "('v, 'o) EventAggregator \<Rightarrow> ('h, 'a) collectors_env_scheme \<Rightarrow>
    (EventAggregatorResult \<times> bool option) \<times> ('h, 'a) collectors_env_scheme" where
  "EventAggregator_IsAggregationEnabled aggregator w =
     (case TwinConfigurationEventCollectors_GetAggregationEnabled (iotEventType aggregator) w of
        ((TWIN_OK, isEnabled), w1) \<Rightarrow> ((EVENT_AGGREGATOR_OK, isEnabled), w1)
      | (_, w1) \<Rightarrow> ((EVENT_AGGREGATOR_EXCEPTION, None), w1))"

section \<open>Aggregating\<close>

definition EventAggregator_MatchEvent ::
  "('v, 'o, 'r, 'h) parson_doc \<Rightarrow> ('h, 'a) docs_env_scheme \<Rightarrow> ('v, 'o) JsonObjectWriter \<Rightarrow> ('v, 'o) AggregatedEventItem \<Rightarrow> bool" where
  "EventAggregator_MatchEvent D w matchPayload currentItem = JsonObjectWriter_Compare D (itemJson currentItem) matchPayload w"

text \<open>The first match, by its position.\<close>

fun EventAggregator_SearchEvent ::
  "('v, 'o, 'r, 'h) parson_doc \<Rightarrow> ('h, 'a) docs_env_scheme \<Rightarrow> ('v, 'o) JsonObjectWriter \<Rightarrow> ('v, 'o) AggregatedEventItem list \<Rightarrow>
    nat option" where
  "EventAggregator_SearchEvent D w eventPayload [] = None"
| "EventAggregator_SearchEvent D w eventPayload (item # rest) =
     (if EventAggregator_MatchEvent D w eventPayload item then Some 0
      else map_option Suc (EventAggregator_SearchEvent D w eventPayload rest))"

definition EventAggregator_AddNewEvent ::
  "('v, 'o, 'r, 'h) parson_doc \<Rightarrow> ('v, 'o) EventAggregator \<Rightarrow> ('v, 'o) JsonObjectWriter \<Rightarrow> ('h, 'a) docs_env_scheme \<Rightarrow>
    (EventAggregatorResult \<times> ('v, 'o) EventAggregator) \<times> ('h, 'a) docs_env_scheme" where
  "EventAggregator_AddNewEvent D aggregator eventPayload w =
     (let (ok, w1) = sys_malloc w in
      if \<not> ok then ((EVENT_AGGREGATOR_EXCEPTION, aggregator), w1)
      else
        case JsonObjectWriter_Copy D eventPayload w1 of
          ((JSON_WRITER_OK, Some json), w2) \<Rightarrow>
            (let newItem = \<lparr>itemJson = json, hitCount = 1\<rparr>; (added, w3) = sys_malloc w2 in
             if \<not> added then ((EVENT_AGGREGATOR_EXCEPTION, aggregator), AggregatedEventItem_Deinit D newItem w3)
             else ((EVENT_AGGREGATOR_OK, aggregator\<lparr>aggregatedEvents := aggregatedEvents aggregator @ [newItem]\<rparr>), w3))
        | (_, w2) \<Rightarrow> ((EVENT_AGGREGATOR_EXCEPTION, aggregator), w2))"

definition EventAggregator_AggregateEvent ::
  "('v, 'o, 'r, 'h) parson_doc \<Rightarrow> ('v, 'o) EventAggregator \<Rightarrow> ('v, 'o) JsonObjectWriter \<Rightarrow> ('h, 'a) collectors_env_scheme \<Rightarrow>
    (EventAggregatorResult \<times> ('v, 'o) EventAggregator) \<times> ('h, 'a) collectors_env_scheme" where
  "EventAggregator_AggregateEvent D aggregator eventPayload w =
     (let ((result, isEnabled), w1) = EventAggregator_IsAggregationEnabled aggregator w in
      if result \<noteq> EVENT_AGGREGATOR_OK then ((result, aggregator), w1)
      else if isEnabled = Some False then ((EVENT_AGGREGATOR_DISABLED, aggregator), w1)
      else case EventAggregator_SearchEvent D w1 eventPayload (aggregatedEvents aggregator) of
        None \<Rightarrow> EventAggregator_AddNewEvent D aggregator eventPayload w1
      | Some i \<Rightarrow>
          (let item = aggregatedEvents aggregator ! i
           in ((EVENT_AGGREGATOR_OK,
                aggregator\<lparr>aggregatedEvents := (aggregatedEvents aggregator)[i := item\<lparr>hitCount := hitCount item + 1\<rparr>]\<rparr>), w1)))"

section \<open>Aggregated events\<close>

definition aggregation_steps ::
  "('v, 'o, 'r, 'h) parson_doc \<Rightarrow> ('v, 'o) JsonObjectWriter \<Rightarrow> u32 \<Rightarrow> time_t \<Rightarrow> time_t \<Rightarrow>
    (('h, 'a) docs_env_scheme \<Rightarrow> EventCollectorResult \<times> ('h, 'a) docs_env_scheme) list" where
  "aggregation_steps D metadata hits aggregationStartTime aggregationEndTime =
     [json_step (JsonObjectWriter_WriteInt D metadata HIT_COUNT_KEY (sint hits)),
      write_time D metadata START_TIME_LOCAL_KEY
        (TimeUtils_GetTimeAsString aggregationStartTime (MAX_TIME_AS_STRING_LENGTH + 1)),
      write_time D metadata START_TIME_UTC_KEY
        (TimeUtils_GetLocalTimeAsUTCTimeAsString aggregationStartTime (MAX_TIME_AS_STRING_LENGTH + 1)),
      write_time D metadata END_TIME_LOCAL_KEY
        (TimeUtils_GetTimeAsString aggregationEndTime (MAX_TIME_AS_STRING_LENGTH + 1)),
      write_time D metadata END_TIME_UTC_KEY
        (TimeUtils_GetLocalTimeAsUTCTimeAsString aggregationEndTime (MAX_TIME_AS_STRING_LENGTH + 1))]"

text \<open>
  The numbers go into the payload's own extra details when it has some: the payload's writer then stays
  inside them.  Otherwise they go into a new object that the payload gets.
\<close>

definition EventAggregator_AddAggregationMetadata ::
  "('v, 'o, 'r, 'h) parson_doc \<Rightarrow> ('v, 'o) JsonObjectWriter \<Rightarrow> u32 \<Rightarrow> time_t \<Rightarrow> time_t \<Rightarrow> ('h, 'a) docs_env_scheme \<Rightarrow>
    (EventCollectorResult \<times> ('v, 'o) JsonObjectWriter) \<times> ('h, 'a) docs_env_scheme" where
  "EventAggregator_AddAggregationMetadata D payload hits aggregationStartTime aggregationEndTime w =
     (let (stepped, payload1) = JsonObjectWriter_StepIn D payload EXTRA_DETAILS_KEY w in
      if stepped = JSON_WRITER_OK
      then let (r, w1) = event_steps (aggregation_steps D payload1 hits aggregationStartTime aggregationEndTime) w
           in ((r, payload1), w1)
      else
        let (r, w1) =
          with_object D EVENT_COLLECTOR_EXCEPTION
            (\<lambda>metadata w. let (r, w1) = event_steps (aggregation_steps D metadata hits aggregationStartTime aggregationEndTime) w in
               if r \<noteq> EVENT_COLLECTOR_OK then ((r, metadata), w1)
               else let ((r2, metadata'), w2) = JsonObjectWriter_WriteObject D payload1 EXTRA_DETAILS_KEY metadata w1
                    in ((if r2 \<noteq> JSON_WRITER_OK then EVENT_COLLECTOR_EXCEPTION else EVENT_COLLECTOR_OK, metadata'), w2)) w
        in ((r, payload1), w1))"

text \<open>The payloads of an aggregated event: the item, with its numbers added.\<close>

definition add_aggregated_item ::
  "('v, 'o, 'r, 'h) parson_doc \<Rightarrow> ('v, 'o) AggregatedEventItem \<Rightarrow> time_t \<Rightarrow> time_t \<Rightarrow> ('v, 'r) JsonArrayWriter \<Rightarrow>
    ('h, 'a) docs_env_scheme \<Rightarrow> (EventCollectorResult \<times> ('v, 'o) AggregatedEventItem) \<times> ('h, 'a) docs_env_scheme" where
  "add_aggregated_item D nodeData aggregationStartTime aggregationEndTime payloads w =
     (let ((r, json1), w1) =
        EventAggregator_AddAggregationMetadata D (itemJson nodeData) (hitCount nodeData) aggregationStartTime aggregationEndTime w in
      if r \<noteq> EVENT_COLLECTOR_OK then ((r, nodeData\<lparr>itemJson := json1\<rparr>), w1)
      else
        let ((r2, json2), w2) = JsonArrayWriter_AddObject D payloads json1 w1
        in ((if r2 \<noteq> JSON_WRITER_OK then EVENT_COLLECTOR_EXCEPTION else EVENT_COLLECTOR_OK, nodeData\<lparr>itemJson := json2\<rparr>), w2))"

text \<open>An event that the queue has no memory for is dropped without an error.\<close>

definition EventAggregator_CreateSingleAggregatedEvent ::
  "('v, 'o, 'r, 'h) parson_doc \<Rightarrow> ('v, 'o) EventAggregator \<Rightarrow> ('v, 'o) AggregatedEventItem \<Rightarrow> nat \<Rightarrow> time_t \<Rightarrow> SyncQueue list \<Rightarrow>
    ('h, 'a) queue_env_scheme \<Rightarrow> ((EventAggregatorResult \<times> SyncQueue list) \<times> ('v, 'o) AggregatedEventItem) \<times> ('h, 'a) queue_env_scheme" where
  "EventAggregator_CreateSingleAggregatedEvent D aggregator nodeData queue aggregationEndTime sqs w =
     (let (((r, sqs1), nodeData1), w1) =
        collect_event_with D True
          (\<lambda>event. GenericEvent_AddMetadata D event EVENT_AGGREGATED_CATEGORY (ag_event_name aggregator)
             (ag_event_type aggregator) (ag_payload_schema_version aggregator))
          (add_aggregated_item D nodeData (lastAggregationTime aggregator) aggregationEndTime) nodeData queue sqs w
      in (((if r = EVENT_COLLECTOR_OK then EVENT_AGGREGATOR_OK else EVENT_AGGREGATOR_EXCEPTION, sqs1), nodeData1), w1))"

text \<open>The loop of \<open>CreateAggregatedEvents\<close>: a failing item does not stop it.\<close>

fun create_events_while ::
  "('v, 'o, 'r, 'h) parson_doc \<Rightarrow> ('v, 'o) EventAggregator \<Rightarrow> nat \<Rightarrow> time_t \<Rightarrow> ('v, 'o) AggregatedEventItem list \<Rightarrow> SyncQueue list \<Rightarrow>
    ('h, 'a) queue_env_scheme \<Rightarrow>
    ((EventAggregatorResult \<times> SyncQueue list) \<times> ('v, 'o) AggregatedEventItem list) \<times> ('h, 'a) queue_env_scheme" where
  "create_events_while D aggregator queue aggregationEndTime [] sqs w = (((EVENT_AGGREGATOR_OK, sqs), []), w)"
| "create_events_while D aggregator queue aggregationEndTime (current # rest) sqs w =
     (let (((r, sqs1), current1), w1) =
            EventAggregator_CreateSingleAggregatedEvent D aggregator current queue aggregationEndTime sqs w;
          (((r2, sqs2), rest1), w2) = create_events_while D aggregator queue aggregationEndTime rest sqs1 w1
      in (((if r \<noteq> EVENT_AGGREGATOR_OK then EVENT_AGGREGATOR_EXCEPTION else r2, sqs2), current1 # rest1), w2))"

definition EventAggregator_CreateAggregatedEvents ::
  "('v, 'o, 'r, 'h) parson_doc \<Rightarrow> ('v, 'o) EventAggregator \<Rightarrow> time_t \<Rightarrow> nat \<Rightarrow> SyncQueue list \<Rightarrow> ('h, 'a) queue_env_scheme \<Rightarrow>
    ((EventAggregatorResult \<times> SyncQueue list) \<times> ('v, 'o) EventAggregator) \<times> ('h, 'a) queue_env_scheme" where
  "EventAggregator_CreateAggregatedEvents D aggregator aggregationEndTime queue sqs w =
     (let ((x, items), w1) = create_events_while D aggregator queue aggregationEndTime (aggregatedEvents aggregator) sqs w;
          ((_, aggregator1), w2) = EventAggregator_ClearAggregatedEvents D (aggregator\<lparr>aggregatedEvents := items\<rparr>) w1
      in ((x, aggregator1), w2))"

text \<open>The comparison with the interval is one of unsigned numbers.\<close>

definition EventAggregator_GetAggregatedEvents ::
  "('v, 'o, 'r, 'h) parson_doc \<Rightarrow> ('v, 'o) EventAggregator \<Rightarrow> nat \<Rightarrow> SyncQueue list \<Rightarrow> ('h, 'a) queue_env_scheme \<Rightarrow>
    ((EventAggregatorResult \<times> SyncQueue list) \<times> ('v, 'o) EventAggregator) \<times> ('h, 'a) queue_env_scheme" where
  "EventAggregator_GetAggregatedEvents D aggregator queue sqs w =
     (let (now, w1) = sys_time w; ((result, isEnabled), w2) = EventAggregator_IsAggregationEnabled aggregator w1 in
      if result \<noteq> EVENT_AGGREGATOR_OK then (((result, sqs), aggregator), w2)
      else
        case TwinConfigurationEventCollectors_GetAggregationInterval (iotEventType aggregator) w2 of
          ((TWIN_OK, Some aggregationInterval), w3) \<Rightarrow>
            (let isIntervalPassed = TimeUtils_GetTimeDiff w3 now (lastAggregationTime aggregator) > aggregationInterval in
             if isEnabled = Some False \<or> isIntervalPassed
             then let ((x, aggregator1), w4) = EventAggregator_CreateAggregatedEvents D aggregator now queue sqs w3
                  in ((x, aggregator1\<lparr>lastAggregationTime := now\<rparr>), w4)
             else (((EVENT_AGGREGATOR_OK, sqs), aggregator), w3))
        | (_, w3) \<Rightarrow> (((EVENT_AGGREGATOR_EXCEPTION, sqs), aggregator), w3))"

section \<open>An aggregator counts a multiset\<close>

text \<open>
  Parson's contract on contents: equality of values is equality of what they hold, the text of a value
  is parsed to a value that holds the same, and neither parsing nor freeing touches other owned values.
\<close>

definition parson_contents ::
  "('v, 'o, 'r, 'h) parson_doc \<Rightarrow> ('h \<Rightarrow> 'v set) \<Rightarrow> ('h \<Rightarrow> 'v \<Rightarrow> 'c) \<Rightarrow> bool" where
  "parson_contents D roots content \<longleftrightarrow>
     (\<forall>h a b. doc_equals D h a b \<longleftrightarrow> content h a = content h b)
     \<and> (\<forall>s h. \<forall>u \<in> roots h. content (snd (doc_parse_string D s h)) u = content h u)
     \<and> (\<forall>s h u v. u \<in> roots h \<longrightarrow> doc_serialize D h u = Some s \<longrightarrow> fst (doc_parse_string D s h) = Some v \<longrightarrow>
          content (snd (doc_parse_string D s h)) v = content h u)
     \<and> (\<forall>v h. v \<in> roots h \<longrightarrow> (\<forall>u \<in> roots h. u \<noteq> v \<longrightarrow> content (doc_value_free D v h) u = content h u))"

definition item_root :: "('v, 'o) AggregatedEventItem \<Rightarrow> 'v" where
  "item_root item = wRootValue (itemJson item)"

definition items_owned :: "('h \<Rightarrow> 'v set) \<Rightarrow> ('v, 'o) AggregatedEventItem list \<Rightarrow> ('h, 'a) docs_env_scheme \<Rightarrow> bool" where
  "items_owned roots items w \<longleftrightarrow>
     distinct (map item_root items) \<and> set (map item_root items) \<subseteq> roots (docs w)
     \<and> (\<forall>item \<in> set items. wShouldFree (itemJson item))"

text \<open>
  A list of different things with numbers stands for the multiset \<open>M\<close>: it has the members of \<open>M\<close> with their
  multiplicity, as far as 32 bits go.
\<close>

definition counts :: "('c \<times> u32) list \<Rightarrow> 'c multiset \<Rightarrow> bool" where
  "counts xs M \<longleftrightarrow> distinct (map fst xs) \<and> set (map fst xs) = set_mset M
     \<and> (\<forall>k < length xs. snd (xs ! k) = of_nat (count M (fst (xs ! k))))"

lemma counts_hit:
  assumes "counts xs M" and "i < length xs"
  shows "counts (xs[i := (fst (xs ! i), snd (xs ! i) + 1)]) (add_mset (fst (xs ! i)) M)"
proof -
  let ?ys = "xs[i := (fst (xs ! i), snd (xs ! i) + 1)]"
  have names: "map fst ?ys = map fst xs" using assms(2) by (simp add: map_update list_update_same_conv)
  have "fst (xs ! i) \<in># M" using assms by (auto simp: counts_def)
  then have "set_mset M = set_mset (add_mset (fst (xs ! i)) M)" by auto
  moreover have "snd (?ys ! k) = of_nat (count (add_mset (fst (xs ! i)) M) (fst (?ys ! k)))" if "k < length xs" for k
  proof (cases "k = i")
    case True
    then show ?thesis using assms by (simp add: counts_def)
  next
    case False
    then have "fst (xs ! k) \<noteq> fst (xs ! i)"
      using assms that nth_eq_iff_index_eq [of "map fst xs" k i] by (simp add: counts_def)
    with False that assms(1) show ?thesis by (simp add: counts_def)
  qed
  ultimately show ?thesis using assms(1) unfolding counts_def names by simp
qed

lemma counts_new:
  assumes "counts xs M" and "c \<notin> set (map fst xs)"
  shows "counts (xs @ [(c, 1)]) (add_mset c M)"
proof -
  have "count M c = 0" using assms by (simp add: counts_def count_eq_zero_iff)
  moreover have "fst (xs ! k) \<noteq> c" if "k < length xs" for k using assms(2) that by auto
  ultimately show ?thesis using assms by (auto simp: counts_def nth_append)
qed

definition item_view :: "('h \<Rightarrow> 'v \<Rightarrow> 'c) \<Rightarrow> ('h, 'a) docs_env_scheme \<Rightarrow> ('v, 'o) AggregatedEventItem \<Rightarrow> 'c \<times> u32" where
  "item_view content w item = (content (docs w) (item_root item), hitCount item)"

lemma item_view_docs: "docs w1 = docs w \<Longrightarrow> item_view content w1 = item_view content w"
  by (rule ext) (simp add: item_view_def)

lemma enabled_docs:
  "docs (snd (EventAggregator_IsAggregationEnabled aggregator w)) = docs w"
  by (auto simp: EventAggregator_IsAggregationEnabled_def TwinConfigurationEventCollectors_GetAggregationEnabled_def
      get_aggregation_def TwinConfigurationEventCollectors_Lock_def TwinConfigurationEventCollectors_Unlock_def sys_defs Let_def
      split: prod.split TwinConfigurationResult.split)

lemma search_none:
  "EventAggregator_SearchEvent D w p items = None \<longleftrightarrow> (\<forall>item \<in> set items. \<not> EventAggregator_MatchEvent D w p item)"
  by (induction items) auto

lemma search_some:
  "EventAggregator_SearchEvent D w p items = Some i \<Longrightarrow> i < length items \<and> EventAggregator_MatchEvent D w p (items ! i)"
  by (induction items arbitrary: i) (auto split: if_splits)

lemma match_content:
  "parson_contents D roots content \<Longrightarrow>
    EventAggregator_MatchEvent D w p item \<longleftrightarrow> content (docs w) (item_root item) = content (docs w) (wRootValue p)"
  by (simp add: parson_contents_def EventAggregator_MatchEvent_def JsonObjectWriter_Compare_def item_root_def)

text \<open>Copying a payload makes a new owned value that holds the same, or leaves all owned values alone.\<close>

lemma copy_facts:
  assumes D: "parson_lists D roots" "parson_contents D roots content" and p: "wRootValue p \<in> roots (docs w)"
    and run: "JsonObjectWriter_Copy D p w = ((r, out), w')"
  shows "\<forall>u \<in> roots (docs w). content (docs w') u = content (docs w) u"
    "r = JSON_WRITER_OK \<longleftrightarrow> out \<noteq> None"
    "out = None \<Longrightarrow> roots (docs w') = roots (docs w)"
    "out = Some wr \<Longrightarrow> wShouldFree wr \<and> wRootValue wr \<notin> roots (docs w) \<and> roots (docs w') = insert (wRootValue wr) (roots (docs w))
      \<and> content (docs w') (wRootValue wr) = content (docs w) (wRootValue p)"
proof -
  obtain root_of texts source where laws: "parson_ownership D roots" "parson_arrays D roots root_of texts source"
    using D(1) by (auto simp: parson_lists_def)
  note C = D(2) [unfolded parson_contents_def]
  have "(\<forall>u \<in> roots (docs w). content (docs w') u = content (docs w) u) \<and> (r = JSON_WRITER_OK \<longleftrightarrow> out \<noteq> None)
      \<and> (out = None \<longrightarrow> roots (docs w') = roots (docs w))
      \<and> (\<forall>wr. out = Some wr \<longrightarrow> wShouldFree wr \<and> wRootValue wr \<notin> roots (docs w) \<and> roots (docs w') = insert (wRootValue wr) (roots (docs w))
      \<and> content (docs w') (wRootValue wr) = content (docs w) (wRootValue p))"
  proof (cases "doc_serialize D (docs w) (wRootValue p)")
    case None
    then show ?thesis using run by (auto simp: JsonObjectWriter_Copy_def JsonObjectWriter_Serialize_def)
  next
    case (Some s)
    obtain v h where parse: "doc_parse_string D s (docs w) = (v, h)" by fastforce
    show ?thesis
    proof (cases "allocOk w (tick w)")
      case False
      then show ?thesis
        using run Some by (auto simp: JsonObjectWriter_Copy_def JsonObjectWriter_Serialize_def JsonObjectWriter_InitFromString_def
            JsonObjectWriter_new_def sys_defs)
    next
      case True
      have others: "\<forall>u \<in> roots (docs w). content h u = content (docs w) u"
        using C [THEN conjunct2, THEN conjunct1, rule_format, of _ "docs w" s] parse by simp
      show ?thesis
      proof (cases v)
        case None
        with True run Some parse array_laws(3) [OF laws(2) parse [unfolded None]] others show ?thesis
          by (auto simp: JsonObjectWriter_Copy_def JsonObjectWriter_Serialize_def JsonObjectWriter_InitFromString_def
            JsonObjectWriter_new_def sys_defs on_docs_def)
      next
        case v: (Some val)
        have new: "val \<notin> roots (docs w)" "roots h = insert val (roots (docs w))"
          using array_laws(4) [OF laws(2) parse [unfolded v]] by simp_all
        have same: "content h val = content (docs w) (wRootValue p)"
          using C [THEN conjunct2, THEN conjunct2, THEN conjunct1, rule_format, OF p Some, of val] parse v by simp
        have free: "roots (doc_value_free D val h) = roots (docs w)"
          "\<forall>u \<in> roots (docs w). content (doc_value_free D val h) u = content h u"
          using ownership_laws(8) [OF laws(1), of val h] new
            C [THEN conjunct2, THEN conjunct2, THEN conjunct2, rule_format, of val h] by auto
        from True run Some parse v show ?thesis
          by (cases "doc_get_object D h val")
             (auto simp: JsonObjectWriter_Copy_def JsonObjectWriter_Serialize_def JsonObjectWriter_InitFromString_def
              JsonObjectWriter_new_def sys_defs on_docs_def new same free others)
      qed
    qed
  qed
  then show "\<forall>u \<in> roots (docs w). content (docs w') u = content (docs w) u"
    "r = JSON_WRITER_OK \<longleftrightarrow> out \<noteq> None"
    "out = None \<Longrightarrow> roots (docs w') = roots (docs w)"
    "out = Some wr \<Longrightarrow> wShouldFree wr \<and> wRootValue wr \<notin> roots (docs w) \<and> roots (docs w') = insert (wRootValue wr) (roots (docs w))
      \<and> content (docs w') (wRootValue wr) = content (docs w) (wRootValue p)" by blast+
qed

text \<open>One payload: it is counted when \<open>AggregateEvent\<close> reports success, and nothing changes otherwise.\<close>

lemma aggregate_step:
  fixes w :: "('h, 'a) collectors_env_scheme"
  assumes D: "parson_lists D roots" "parson_contents D roots content"
    and own: "items_owned roots (aggregatedEvents aggregator) w"
    and cnt: "counts (map (item_view content w) (aggregatedEvents aggregator)) M" and p: "wRootValue p \<in> roots (docs w)"
    and run: "EventAggregator_AggregateEvent D aggregator p w = ((r, aggregator'), w')"
  shows "items_owned roots (aggregatedEvents aggregator') w' \<and> roots (docs w) \<subseteq> roots (docs w')
    \<and> (\<forall>u \<in> roots (docs w). content (docs w') u = content (docs w) u)
    \<and> counts (map (item_view content w') (aggregatedEvents aggregator'))
        (if r = EVENT_AGGREGATOR_OK then add_mset (content (docs w) (wRootValue p)) M else M)"
proof -
  have parson: "parson_ownership D roots" using D(1) by (simp add: parson_lists_def)
  let ?items = "aggregatedEvents aggregator"
  obtain e isEnabled w1 where en: "EventAggregator_IsAggregationEnabled aggregator w = ((e, isEnabled), w1)" by (metis prod.collapse)
  have docs1: "docs w1 = docs w" using enabled_docs [of aggregator w] en by simp
  have views: "map (item_view content v) ?items = map (item_view content w) ?items"
    if "\<forall>u \<in> roots (docs w). content (docs v) u = content (docs w) u" for v :: "('h, 'a) collectors_env_scheme"
    using that own by (auto simp: items_owned_def item_view_def)
  have keep: ?thesis if "r \<noteq> EVENT_AGGREGATOR_OK" "aggregator' = aggregator" "roots (docs w') = roots (docs w)"
      "\<forall>u \<in> roots (docs w). content (docs w') u = content (docs w) u"
  proof -
    have "counts (map (item_view content w') ?items) M" using cnt by (simp only: views [OF that(4)])
    with that own show ?thesis by (simp add: items_owned_def)
  qed
  show ?thesis
  proof (cases "e = EVENT_AGGREGATOR_OK \<and> isEnabled \<noteq> Some False")
    case False
    with run en have "r \<noteq> EVENT_AGGREGATOR_OK" "aggregator' = aggregator" "w' = w1"
      by (auto simp: EventAggregator_AggregateEvent_def split: if_splits)
    with keep docs1 show ?thesis by simp
  next
    case True
    show ?thesis
    proof (cases "EventAggregator_SearchEvent D w1 p ?items")
      case (Some i)
      let ?item = "(?items ! i)\<lparr>hitCount := hitCount (?items ! i) + 1\<rparr>"
      from search_some [OF Some] match_content [OF D(2), of w1 p] docs1 have i: "i < length ?items"
        "content (docs w) (item_root (?items ! i)) = content (docs w) (wRootValue p)" by auto
      from run en True Some have res: "r = EVENT_AGGREGATOR_OK" "w' = w1"
        "aggregatedEvents aggregator' = ?items[i := ?item]"
        by (auto simp: EventAggregator_AggregateEvent_def Let_def)
      have "map item_root (?items[i := ?item]) = map item_root ?items"
        using i(1) by (simp add: map_update item_root_def list_update_same_conv)
      moreover have "\<forall>x \<in> set (?items[i := ?item]). wShouldFree (itemJson x)"
        using own i(1) by (auto simp: items_owned_def dest!: set_update_subset_insert [THEN subsetD])
      ultimately have "items_owned roots (?items[i := ?item]) w'"
        using own unfolding items_owned_def res(2) docs1 by simp
      moreover have "map (item_view content w') (?items[i := ?item])
          = (map (item_view content w) ?items)[i := (content (docs w) (wRootValue p), hitCount (?items ! i) + 1)]"
        using i by (simp add: map_update item_view_docs [OF docs1] res(2)) (simp add: item_view_def item_root_def)
      ultimately show ?thesis
        using counts_hit [OF cnt, of i] i res docs1 by (simp add: item_view_def)
    next
      case None
      have new: "content (docs w) (wRootValue p) \<notin> set (map fst (map (item_view content w) ?items))"
        using None search_none [of D w1 p ?items] match_content [OF D(2), of w1 p] docs1 by (auto simp: item_view_def)
      obtain c out w2 where copy: "JsonObjectWriter_Copy D p (next_tick w1) = ((c, out), w2)" by (metis prod.collapse)
      have p1: "wRootValue p \<in> roots (docs (next_tick w1))" using p docs1 by (simp add: next_tick_def)
      have docs0: "docs (next_tick w1) = docs w" by (simp add: next_tick_def docs1)
      note facts = copy_facts [OF D p1 copy, unfolded docs0]
      have call: "EventAggregator_AddNewEvent D aggregator p w1 = ((r, aggregator'), w')"
        using run en True None by (auto simp: EventAggregator_AggregateEvent_def)
      show ?thesis
      proof (cases "allocOk w1 (tick w1) \<and> out \<noteq> None")
        case False
        then have "r \<noteq> EVENT_AGGREGATOR_OK" "aggregator' = aggregator" "w' = next_tick w1 \<or> w' = w2 \<and> out = None"
          using call copy facts(2)
          by (auto simp: EventAggregator_AddNewEvent_def sys_malloc_def Let_def split: if_splits JsonWriterResult.splits)
        with keep facts(1,3) docs0 show ?thesis by auto
      next
        case alloc: True
        then obtain json where out: "out = Some json" by blast
        note made = facts(4) [OF out]
        let ?item = "\<lparr>itemJson = json, hitCount = 1\<rparr>"
        show ?thesis
        proof (cases "allocOk w2 (tick w2)")
          case False
          then have res: "r \<noteq> EVENT_AGGREGATOR_OK" "aggregator' = aggregator"
            "w' = AggregatedEventItem_Deinit D ?item (next_tick w2)"
            using call copy facts(2) alloc out
            by (auto simp: EventAggregator_AddNewEvent_def sys_malloc_def Let_def split: JsonWriterResult.splits)
          then have "docs w' = doc_value_free D (wRootValue json) (docs w2)"
            using made by (simp add: AggregatedEventItem_Deinit_def JsonObjectWriter_Deinit_def next_tick_def)
          moreover have "roots (doc_value_free D (wRootValue json) (docs w2)) = roots (docs w)"
            using made ownership_laws(8) [OF parson, of "wRootValue json" "docs w2"] by auto
          moreover have "\<forall>u \<in> roots (docs w). content (doc_value_free D (wRootValue json) (docs w2)) u = content (docs w) u"
            using D(2) [unfolded parson_contents_def, THEN conjunct2, THEN conjunct2, THEN conjunct2, rule_format,
                of "wRootValue json" "docs w2"] made facts(1) by auto
          ultimately show ?thesis using keep res(1,2) by simp
        next
          case True
          then have res: "r = EVENT_AGGREGATOR_OK" "aggregatedEvents aggregator' = ?items @ [?item]" "w' = next_tick w2"
            using call copy facts(2) alloc out
            by (auto simp: EventAggregator_AddNewEvent_def sys_malloc_def Let_def split: JsonWriterResult.splits)
          have docs': "docs w' = docs w2" by (simp add: res(3) next_tick_def)
          have "items_owned roots (?items @ [?item]) w'"
            using own made by (auto simp: items_owned_def docs' item_root_def)
          moreover have "map (item_view content w') (?items @ [?item])
              = map (item_view content w) ?items @ [(content (docs w) (wRootValue p), 1)]"
            using views [of w'] facts(1) made docs' by (simp add: item_view_def item_root_def)
          with counts_new [OF cnt new]
          have "counts (map (item_view content w') (?items @ [?item])) (add_mset (content (docs w) (wRootValue p)) M)"
            by (simp only:)
          ultimately show ?thesis using res made facts(1) docs' by auto
        qed
      qed
    qed
  qed
qed

text \<open>A run of the aggregator on payloads of the caller, with the result of each call.\<close>

fun aggregate_all ::
  "('v, 'o, 'r, 'h) parson_doc \<Rightarrow> ('v, 'o) EventAggregator \<Rightarrow> ('v, 'o) JsonObjectWriter list \<Rightarrow> ('h, 'a) collectors_env_scheme \<Rightarrow>
    (EventAggregatorResult list \<times> ('v, 'o) EventAggregator) \<times> ('h, 'a) collectors_env_scheme" where
  "aggregate_all D aggregator [] w = (([], aggregator), w)"
| "aggregate_all D aggregator (p # ps) w =
     (let ((r, aggregator1), w1) = EventAggregator_AggregateEvent D aggregator p w;
          ((rs, aggregator2), w2) = aggregate_all D aggregator1 ps w1
      in ((r # rs, aggregator2), w2))"

definition taken :: "'p list \<Rightarrow> EventAggregatorResult list \<Rightarrow> 'p list" where
  "taken ps rs = map fst (filter (\<lambda>(p, r). r = EVENT_AGGREGATOR_OK) (zip ps rs))"

text \<open>
  C22: Aggregating refines a multiset: after any run of \<open>AggregateEvent\<close>, the aggregator has one item for each
  different payload among those it reported as taken (and those it had before), with the number of its
  occurrences as hit count; a payload that could not be taken changes nothing, whatever lock, allocation or
  parson call failed, and the caller's documents are kept.
\<close>

theorem aggregation_counts_events:
  fixes w :: "('h, 'a) collectors_env_scheme"
  assumes "parson_lists D roots" and "parson_contents D roots content"
    and "items_owned roots (aggregatedEvents aggregator) w"
    and "counts (map (item_view content w) (aggregatedEvents aggregator)) M"
    and "\<forall>p \<in> set ps. wRootValue p \<in> roots (docs w)"
    and "aggregate_all D aggregator ps w = ((rs, aggregator'), w')"
  shows "items_owned roots (aggregatedEvents aggregator') w' \<and> roots (docs w) \<subseteq> roots (docs w')
    \<and> counts (map (item_view content w') (aggregatedEvents aggregator'))
        (M + image_mset (\<lambda>p. content (docs w) (wRootValue p)) (mset (taken ps rs)))"
  using assms(3-)
proof (induction ps arbitrary: aggregator w M rs)
  case Nil
  then show ?case by (simp add: taken_def)
next
  case (Cons p ps)
  obtain r aggregator1 w1 where one: "EventAggregator_AggregateEvent D aggregator p w = ((r, aggregator1), w1)" by (metis prod.collapse)
  obtain rs1 where rest: "aggregate_all D aggregator1 ps w1 = ((rs1, aggregator'), w')" and rs: "rs = r # rs1"
    using Cons.prems(4) one by (auto split: prod.splits)
  have "wRootValue p \<in> roots (docs w)" using Cons.prems(3) by simp
  note step = aggregate_step [OF assms(1,2) Cons.prems(1,2) this one]
  have roots1: "\<forall>p \<in> set ps. wRootValue p \<in> roots (docs w1)" using Cons.prems(3) step by auto
  have same: "image_mset (\<lambda>p. content (docs w1) (wRootValue p)) (mset (taken ps rs1))
      = image_mset (\<lambda>p. content (docs w) (wRootValue p)) (mset (taken ps rs1))"
    using Cons.prems(3) step by (intro image_mset_cong) (auto simp: taken_def dest!: set_zip_leftD)
  let ?M = "if r = EVENT_AGGREGATOR_OK then add_mset (content (docs w) (wRootValue p)) M else M"
  have "counts (map (item_view content w1) (aggregatedEvents aggregator1)) ?M"
    "items_owned roots (aggregatedEvents aggregator1) w1" using step by blast+
  from Cons.IH [OF this(2,1) roots1 rest, unfolded same] step show ?case
    by (cases "r = EVENT_AGGREGATOR_OK") (auto simp: rs taken_def)
qed

text \<open>The sample store with texts as contents: a value is printed as the text it was parsed from.\<close>

definition content_doc :: "(nat, nat, nat, text_store) parson_doc" where
  "content_doc = text_doc\<lparr>doc_serialize := (\<lambda>(_, _, so) v. Some (so v)), doc_equals := (\<lambda>(_, _, so) v v'. so v = so v')\<rparr>"

abbreviation text_content :: "text_store \<Rightarrow> nat \<Rightarrow> string" where "text_content \<equiv> \<lambda>h. snd (snd h)"

lemma content_doc_laws: "parson_lists content_doc text_roots" "parson_contents content_doc text_roots text_content"
proof -
  have "parson_ownership content_doc text_roots" "parson_arrays content_doc text_roots id (\<lambda>h. fst (snd h)) (\<lambda>h. snd (snd h))"
    using fresh_root by (auto simp: parson_ownership_def parson_arrays_def content_doc_def text_doc_def Let_def split_beta)
  then show "parson_lists content_doc text_roots" unfolding parson_lists_def by blast
  show "parson_contents content_doc text_roots text_content"
    using fresh_root by (auto simp: parson_contents_def content_doc_def text_doc_def Let_def split_beta)
qed

definition payload_of :: "nat \<Rightarrow> (nat, nat) JsonObjectWriter" where
  "payload_of v = \<lparr>wRootValue = v, wRootObject = v, wShouldFree = True\<rparr>"

definition empty_aggregator :: "(nat, nat) EventAggregator" where
  "empty_aggregator = \<lparr>iotEventType = EVENT_TYPE_PROCESS_CREATE, ag_event_type = ''Security'', ag_event_name = ''Process'',
     ag_payload_schema_version = ''1.0'', aggregatedEvents = [], lastAggregationTime = 0\<rparr>"

definition three_payloads :: text_store where
  "three_payloads = ([1, 2, 3], \<lambda>_. [], \<lambda>v. if v = 2 then ''ls'' else ''ps'')"

lemma aggregation_counts_events_witness:
  "\<exists>rs aggregator' w'. aggregate_all content_doc empty_aggregator (map payload_of [1, 2, 3]) (calm_collectors_with three_payloads)
       = ((rs, aggregator'), w')
     \<and> rs = [EVENT_AGGREGATOR_OK, EVENT_AGGREGATOR_OK, EVENT_AGGREGATOR_OK]
     \<and> counts (map (item_view text_content w') (aggregatedEvents aggregator')) {#''ps'', ''ls'', ''ps''#}"
proof -
  let ?w = "calm_collectors_with three_payloads"
  obtain rs aggregator' w' where run: "aggregate_all content_doc empty_aggregator (map payload_of [1, 2, 3]) ?w
      = ((rs, aggregator'), w')" by (metis prod.collapse)
  have start: "items_owned text_roots (aggregatedEvents empty_aggregator) ?w"
    "counts (map (item_view text_content ?w) (aggregatedEvents empty_aggregator)) {#}"
    "\<forall>p \<in> set (map payload_of [1, 2, 3]). wRootValue p \<in> text_roots (docs ?w)"
    by (simp_all add: items_owned_def counts_def empty_aggregator_def payload_of_def calm_collectors_with_def three_payloads_def)
  have rs: "rs = [EVENT_AGGREGATOR_OK, EVENT_AGGREGATOR_OK, EVENT_AGGREGATOR_OK]"
    using run by (simp add: EventAggregator_AggregateEvent_def EventAggregator_IsAggregationEnabled_def
        TwinConfigurationEventCollectors_GetAggregationEnabled_def get_aggregation_def TwinConfigurationEventCollectors_Lock_def
        TwinConfigurationEventCollectors_Unlock_def sys_defs Let_def calm_collectors_with_def default_collectors_def
        empty_aggregator_def EventAggregator_AddNewEvent_def JsonObjectWriter_Copy_def JsonObjectWriter_Serialize_def
        JsonObjectWriter_InitFromString_def JsonObjectWriter_new_def on_docs_def content_doc_def text_doc_def payload_of_def
        three_payloads_def EventAggregator_MatchEvent_def JsonObjectWriter_Compare_def)
  from aggregation_counts_events [OF content_doc_laws start run] rs run show ?thesis
    by (simp add: taken_def payload_of_def calm_collectors_with_def three_payloads_def)
qed

section \<open>Sending the aggregated events\<close>

lemma StepIn_root:
  "wRootValue (snd (JsonObjectWriter_StepIn D writer key w)) = wRootValue writer"
  "wShouldFree (snd (JsonObjectWriter_StepIn D writer key w)) = wShouldFree writer"
  by (auto simp: JsonObjectWriter_StepIn_def split: prod.split JsonWriterResult.split option.split)

text \<open>An object that is filled and given to another one, or freed, is not owned afterwards.\<close>

lemma clean_given_object:
  assumes D: "parson_lists D roots" and steps: "\<And>obj f w. f \<in> set (steps obj) \<Longrightarrow> clean roots w (snd (f w))"
  shows "clean roots w (snd (with_object D e
      (\<lambda>obj w. let (r, w1) = event_steps (steps obj) w in
         if r \<noteq> EVENT_COLLECTOR_OK then ((r, obj), w1)
         else let ((r2, obj'), w2) = JsonObjectWriter_WriteObject D payload key obj w1
              in ((if r2 \<noteq> JSON_WRITER_OK then EVENT_COLLECTOR_EXCEPTION else EVENT_COLLECTOR_OK, obj'), w2)) w))"
    (is "clean roots w (snd (with_object D e ?body w))")
proof -
  have own: "parson_ownership D roots" using D by (simp add: parson_lists_def)
  obtain x w' where run: "with_object D e ?body w = (x, w')" by fastforce
  from D run have "clean roots w w'"
  proof (cases rule: with_object_cases)
    case (made wr wr' w1 w2)
    obtain r w3 where s: "event_steps (steps wr) w1 = (r, w3)" by fastforce
    have "clean roots w1 (snd (event_steps (steps wr) w1))" by (rule clean_steps) (rule steps)
    then have c: "clean roots w1 w3" using s by simp
    obtain ok h where set: "doc_set_value D (wRootObject payload) key (wRootValue wr) (docs w3) = (ok, h)" by fastforce
    note laws = ownership_laws(6,7) [OF own, of "wRootObject payload" key "wRootValue wr" "docs w3", unfolded set fst_conv snd_conv]
    have final: "wr' = wr \<and> w2 = w3 \<or> wr' = (if ok then wr\<lparr>wShouldFree := False\<rparr> else wr) \<and> w2 = w3\<lparr>docs := h\<rparr>"
      using made(5) s set by (auto simp: JsonObjectWriter_WriteObject_def on_docs_def split: if_splits)
    have w3: "roots (docs w3) = insert (wRootValue wr) (roots (docs w))" using c made(4) by (simp add: clean_def)
    from final have "wRootValue wr' = wRootValue wr \<and> (wShouldFree wr' \<longleftrightarrow> wRootValue wr \<in> roots (docs w2))
        \<and> roots (docs w2) - {wRootValue wr} = roots (docs w) \<and> doc_frame w3 w2"
      using made(2,3) w3 laws by (cases ok) (elim disjE conjE; simp add: doc_frame_docs)+
    then have "roots (docs w') = roots (docs w)" "doc_frame w3 w'"
      using Deinit_roots [OF own, of wr' w2] Deinit_frame [of w2 D wr'] made(6) by (auto intro: doc_frame_trans)
    moreover have "doc_frame w w3" using made(1) c doc_frame_trans unfolding clean_def by blast
    ultimately show ?thesis unfolding clean_def using doc_frame_trans by blast
  qed simp
  with run show ?thesis by simp
qed

lemma clean_aggregation_steps:
  "parson_lists D roots \<Longrightarrow> f \<in> set (aggregation_steps D metadata hits t1 t2) \<Longrightarrow> clean roots w (snd (f w))"
  by (auto simp: aggregation_steps_def intro: clean_writes clean_write_time)

lemma AddAggregationMetadata_clean:
  assumes "parson_lists D roots" "EventAggregator_AddAggregationMetadata D payload hits t1 t2 w = ((r, payload'), w')"
  shows "clean roots w w'" "wRootValue payload' = wRootValue payload" "wShouldFree payload' = wShouldFree payload"
proof -
  obtain q payload1 where step: "JsonObjectWriter_StepIn D payload EXTRA_DETAILS_KEY w = (q, payload1)" by fastforce
  have p: "payload' = payload1" using assms(2) step by (auto simp: EventAggregator_AddAggregationMetadata_def split: if_splits prod.splits)
  show "wRootValue payload' = wRootValue payload" "wShouldFree payload' = wShouldFree payload"
    using StepIn_root [of D payload EXTRA_DETAILS_KEY w] step p by simp_all
  have "clean roots w (snd (event_steps (aggregation_steps D m hits t1 t2) w))" for m
    by (rule clean_steps) (rule clean_aggregation_steps [OF assms(1)])
  moreover have "clean roots w (snd (with_object D EVENT_COLLECTOR_EXCEPTION
      (\<lambda>obj w. let (r, w1) = event_steps (aggregation_steps D obj hits t1 t2) w in
         if r \<noteq> EVENT_COLLECTOR_OK then ((r, obj), w1)
         else let ((r2, obj'), w2) = JsonObjectWriter_WriteObject D payload1 EXTRA_DETAILS_KEY obj w1
              in ((if r2 \<noteq> JSON_WRITER_OK then EVENT_COLLECTOR_EXCEPTION else EVENT_COLLECTOR_OK, obj'), w2)) w))"
    by (rule clean_given_object [where steps = "\<lambda>m. aggregation_steps D m hits t1 t2", OF assms(1)])
       (rule clean_aggregation_steps [OF assms(1)])
  ultimately show "clean roots w w'"
    using assms(2) step
    by (cases "q = JSON_WRITER_OK")
       (simp_all add: EventAggregator_AddAggregationMetadata_def Let_def split: prod.splits, metis snd_conv)
qed

lemma add_item_facts:
  assumes D: "parson_lists D roots" and v: "wRootValue (itemJson item) \<in> roots (docs w)" "wShouldFree (itemJson item)"
    and run: "add_aggregated_item D item t1 t2 arr w = ((r, item'), w')"
  shows "doc_frame w w' \<and> item_root item' = item_root item \<and> (wShouldFree (itemJson item') \<longleftrightarrow> item_root item \<in> roots (docs w'))
    \<and> roots (docs w') - {item_root item} = roots (docs w) - {item_root item}"
proof -
  obtain root_of texts source where arrays: "parson_arrays D roots root_of texts source"
    using D by (auto simp: parson_lists_def)
  obtain r1 json1 w1 where m: "EventAggregator_AddAggregationMetadata D (itemJson item) (hitCount item) t1 t2 w = ((r1, json1), w1)"
    by (metis prod.collapse)
  note M = AddAggregationMetadata_clean [OF D m]
  obtain ok h where ap: "doc_append_value D (aRootArray arr) (wRootValue json1) (docs w1) = (ok, h)" by fastforce
  have h: "roots h = (if ok then roots (docs w1) - {wRootValue json1} else roots (docs w1))"
    using array_laws(5,6) [OF arrays, of "aRootArray arr" "wRootValue json1" "docs w1" h] ap by (cases ok) auto
  have "itemJson item' = json1 \<and> w' = w1 \<or> itemJson item' = (if ok then json1\<lparr>wShouldFree := False\<rparr> else json1) \<and> w' = w1\<lparr>docs := h\<rparr>"
    using run m ap by (auto simp: add_aggregated_item_def JsonArrayWriter_AddObject_def on_docs_def split: if_splits)
  moreover have "doc_frame w (w1\<lparr>docs := h\<rparr>)" using M(1) doc_frame_trans [OF _ doc_frame_docs] by (auto simp: clean_def)
  ultimately show ?thesis
    using M v h by (elim disjE) (auto simp: clean_def item_root_def)
qed

lemma gained_over:
  assumes "gained R L n i sqs w new sqs' w'" and "R' (docs w') = R' (docs w)"
  shows "gained R' L n i sqs w new sqs' w'"
  using assms by (simp add: gained_def)

text \<open>One item: its document goes into the event or stays with the item.\<close>

lemma create_single_gained:
  fixes w :: "('h, 'a) queue_env_scheme"
  assumes D: "parson_lists D roots" "texts_within D L" and room: "booked_bytes w + (L + 40) < 4294967296"
    and ok: "sync_queues_ok sqs w" and i: "i < length sqs"
    and item: "item_root item \<in> roots (docs w)" "wShouldFree (itemJson item)"
    and run: "EventAggregator_CreateSingleAggregatedEvent D aggregator item i t sqs w = (((r, sqs'), item'), w')"
  shows "item_root item' = item_root item \<and> (wShouldFree (itemJson item') \<longleftrightarrow> item_root item \<in> roots (docs w'))
    \<and> (\<exists>new. gained (\<lambda>h. roots h - {item_root item}) L 1 i sqs w new sqs' w')"
proof -
  let ?Q = "\<lambda>y X. item_root y = item_root item \<and> (wShouldFree (itemJson y) \<longleftrightarrow> X \<noteq> {})"
  obtain r0 where run0: "collect_event_with D True
      (\<lambda>event. GenericEvent_AddMetadata D event EVENT_AGGREGATED_CATEGORY (ag_event_name aggregator)
         (ag_event_type aggregator) (ag_payload_schema_version aggregator))
      (add_aggregated_item D item (lastAggregationTime aggregator) t) item i sqs w = (((r0, sqs'), item'), w')"
    using run by (auto simp: EventAggregator_CreateSingleAggregatedEvent_def split: prod.splits)
  have "True \<and> ?Q item' ({item_root item} \<inter> roots (docs w'))
    \<and> (\<exists>new. gained (\<lambda>h. roots h - {item_root item}) L 1 i sqs w new sqs' w' \<and> (r0 = EVENT_COLLECTOR_OK \<and> \<not> True \<longrightarrow> length new = 1))"
  proof (rule collect_event_with_gained [OF D room ok i stable_True TrueI _ _ _ _ run0])
    show "{item_root item} \<subseteq> roots (docs w)" "?Q item {item_root item}" using item by simp_all
    show "aside roots v (snd (GenericEvent_AddMetadata D ev EVENT_AGGREGATED_CATEGORY (ag_event_name aggregator)
         (ag_event_type aggregator) (ag_payload_schema_version aggregator) v)) \<and> True" for ev and v :: "('h, 'a) queue_env_scheme"
      using clean_metadata_step [OF D(1) stable_True TrueI] by blast
    fix arr y q and v v1 :: "('h, 'a) queue_env_scheme"
    assume v: "{item_root item} \<subseteq> roots (docs v)" and f: "add_aggregated_item D item (lastAggregationTime aggregator) t arr v = ((q, y), v1)"
    have "wRootValue (itemJson item) \<in> roots (docs v)" using v by (simp add: item_root_def)
    note F = add_item_facts [OF D(1) this item(2) f]
    have "clean (\<lambda>h. roots h - {item_root item}) v v1" using F by (simp add: clean_def)
    with F show "aside (\<lambda>h. roots h - {item_root item}) v v1 \<and> True \<and> ?Q y ({item_root item} \<inter> roots (docs v1))"
      using clean_aside by auto
  qed
  then show ?thesis by auto
qed

lemma create_events_gained:
  fixes w :: "('h, 'a) queue_env_scheme"
  assumes D: "parson_lists D roots" "texts_within D L" and "booked_bytes w + length items * (L + 40) < 4294967296"
    and "sync_queues_ok sqs w" and i: "i < length sqs" and "items_owned roots items w"
    and "create_events_while D aggregator i t items sqs w = (((r, sqs'), items'), w')"
  shows "map item_root items' = map item_root items
    \<and> (\<forall>x \<in> set items'. wShouldFree (itemJson x) \<longleftrightarrow> item_root x \<in> roots (docs w'))
    \<and> (\<exists>new. gained (\<lambda>h. roots h - set (map item_root items)) L (length items) i sqs w new sqs' w')"
  using assms(3-)
proof (induction items arbitrary: sqs w r items')
  case Nil
  then show ?case using gained_aside [OF Nil.prems(2) aside_refl] by (auto intro!: exI [of _ "[]"])
next
  case (Cons item items)
  let ?v = "item_root item" and ?V = "set (map item_root items)"
  obtain r1 sqs1 item1 w1 where one: "EventAggregator_CreateSingleAggregatedEvent D aggregator item i t sqs w = (((r1, sqs1), item1), w1)"
    by (metis prod.collapse)
  obtain r2 items1 where rest: "create_events_while D aggregator i t items sqs1 w1 = (((r2, sqs'), items1), w')"
    and items': "items' = item1 # items1"
    using Cons.prems(5) one by (auto simp: Let_def split: prod.splits)
  have room1: "booked_bytes w + (L + 40) < 4294967296" using Cons.prems(1) by simp
  have item: "?v \<in> roots (docs w)" "wShouldFree (itemJson item)" "?v \<notin> ?V" using Cons.prems(4) by (auto simp: items_owned_def)
  note single = create_single_gained [OF D room1 Cons.prems(2,3) item(1,2) one]
  then obtain new where new: "gained (\<lambda>h. roots h - {?v}) L 1 i sqs w new sqs1 w1" by blast
  then have r1: "roots (docs w1) - {?v} = roots (docs w) - {?v}" "length sqs1 = length sqs" "sync_queues_ok sqs1 w1"
    "booked_bytes w1 \<le> booked_bytes w + (L + 40)" by (simp_all add: gained_def)
  have "?V \<subseteq> roots (docs w)" using Cons.prems(4) by (simp add: items_owned_def)
  then have "?V \<subseteq> roots (docs w1)" using item(3) r1(1) by blast
  then have own1: "items_owned roots items w1" using Cons.prems(4) by (simp add: items_owned_def)
  have room2: "booked_bytes w1 + length items * (L + 40) < 4294967296" using r1(4) Cons.prems(1) by simp
  have i1: "i < length sqs1" using Cons.prems(3) r1(2) by simp
  from Cons.IH [OF room2 r1(3) i1 own1 rest] obtain new1 where
    IH: "map item_root items1 = map item_root items" "\<forall>x \<in> set items1. wShouldFree (itemJson x) \<longleftrightarrow> item_root x \<in> roots (docs w')"
    and new1: "gained (\<lambda>h. roots h - ?V) L (length items) i sqs1 w1 new1 sqs' w'" by blast
  have r2: "roots (docs w') - ?V = roots (docs w1) - ?V" using new1 by (simp add: gained_def)
  let ?R = "\<lambda>h. roots h - set (map item_root (item # items))"
  have "?R (docs w1) = ?R (docs w)" "?R (docs w') = ?R (docs w1)" using r1(1) r2 by auto
  from gained_trans [OF gained_over [where R' = ?R, OF new this(1)] gained_over [where R' = ?R, OF new1 this(2)]]
  have "gained ?R L (length (item # items)) i sqs w (new @ new1) sqs' w'" by simp
  moreover have "?v \<in> roots (docs w') \<longleftrightarrow> ?v \<in> roots (docs w1)" using r2 item(3) by blast
  ultimately show ?case using IH single items' by auto
qed

lemma clear_items_roots:
  assumes "parson_ownership D roots" and "distinct (map item_root items)"
    and "\<forall>x \<in> set items. wShouldFree (itemJson x) \<longleftrightarrow> item_root x \<in> roots (docs w)"
  shows "doc_frame w (clear_items D items w) \<and> roots (docs (clear_items D items w)) = roots (docs w) - set (map item_root items)"
  using assms(2,3)
proof (induction items arbitrary: w)
  case (Cons item items)
  let ?w = "AggregatedEventItem_Deinit D item w"
  have w1: "doc_frame w ?w" "roots (docs ?w) = roots (docs w) - {item_root item}"
    using Deinit_frame [of w D "itemJson item"] Deinit_roots [OF assms(1), of "itemJson item" w] Cons.prems
    by (auto simp: AggregatedEventItem_Deinit_def item_root_def)
  moreover have "item_root x \<noteq> item_root item" if "x \<in> set items" for x
    using Cons.prems(1) imageI [OF that, of item_root] by auto
  ultimately have "\<forall>x \<in> set items. wShouldFree (itemJson x) \<longleftrightarrow> item_root x \<in> roots (docs ?w)" using Cons.prems by simp
  with Cons.IH [of ?w] Cons.prems(1) w1 show ?case by (auto intro: doc_frame_trans)
qed simp

lemma aggregation_aside:
  fixes w :: "('h, 'a) queue_env_scheme"
  shows "aside roots w (snd (EventAggregator_IsAggregationEnabled aggregator w))"
    "aside roots w (snd (TwinConfigurationEventCollectors_GetAggregationInterval ty w))"
  by (auto simp: aside_def EventAggregator_IsAggregationEnabled_def TwinConfigurationEventCollectors_GetAggregationEnabled_def
      TwinConfigurationEventCollectors_GetAggregationInterval_def get_aggregation_def TwinConfigurationEventCollectors_Lock_def
      TwinConfigurationEventCollectors_Unlock_def sys_defs Let_def split: prod.split TwinConfigurationResult.split)

lemma flushed:
  fixes w :: "('h, 'a) queue_env_scheme"
  assumes "parson_lists D roots" and "texts_within D L" and "sync_queues_ok sqs w" and "i < length sqs"
    and "items_owned roots (aggregatedEvents aggregator) w"
    and "booked_bytes w + length (aggregatedEvents aggregator) * (L + 40) < 4294967296"
    and "EventAggregator_GetAggregatedEvents D aggregator i sqs w = (((r, sqs'), aggregator'), w')"
  shows "(\<exists>new. gained (\<lambda>h. roots h - set (map item_root (aggregatedEvents aggregator))) L
        (length (aggregatedEvents aggregator)) i sqs w new sqs' w')
    \<and> (aggregator' = aggregator \<and> sqs' = sqs \<and> aside roots w w'
       \<or> aggregatedEvents aggregator' = [] \<and> roots (docs w') = roots (docs w) - set (map item_root (aggregatedEvents aggregator)))"
proof -
  let ?items = "aggregatedEvents aggregator" and ?ty = "iotEventType aggregator"
  let ?V = "set (map item_root ?items)"
  have own: "parson_ownership D roots" using assms(1) by (simp add: parson_lists_def)
  obtain now w1 where w1: "sys_time w = (now, w1)" by fastforce
  obtain e isEnabled w2 where w2: "EventAggregator_IsAggregationEnabled aggregator w1 = ((e, isEnabled), w2)" by (metis prod.collapse)
  obtain q interval w3 where w3: "TwinConfigurationEventCollectors_GetAggregationInterval ?ty w2 = ((q, interval), w3)"
    by (metis prod.collapse)
  have a1: "aside roots w w1" using w1 by (auto simp: sys_time_def next_tick_def aside_def)
  have a2: "aside roots w w2" using aside_trans [OF a1] aggregation_aside(1) [of roots w1 aggregator] w2 by simp
  have a3: "aside roots w w3" using aside_trans [OF a2] aggregation_aside(2) [of roots w2 ?ty] w3 by simp
  have keep: ?thesis if "aggregator' = aggregator" "sqs' = sqs" "aside roots w w'"
    using that gained_aside [OF assms(3) aside_fewer [OF that(3)]] by (auto intro!: exI [of _ "[]"])
  consider (kept) "aggregator' = aggregator" "sqs' = sqs" "w' = w2 \<or> w' = w3"
    | (flush) aggregator1 where "EventAggregator_CreateAggregatedEvents D aggregator now i sqs w3 = (((r, sqs'), aggregator1), w')"
        "aggregator' = aggregator1\<lparr>lastAggregationTime := now\<rparr>"
    using assms(7) w1 w2 w3
    by (auto simp: EventAggregator_GetAggregatedEvents_def Let_def split: if_splits prod.splits TwinConfigurationResult.splits option.splits)
  then show ?thesis
  proof cases
    case kept
    with keep a2 a3 show ?thesis by blast
  next
    case flush
    obtain items' w4 where loop: "create_events_while D aggregator i now ?items sqs w3 = (((r, sqs'), items'), w4)"
      and rest: "aggregatedEvents aggregator1 = []" "w' = clear_items D items' w4"
      using flush(1) by (auto simp: EventAggregator_CreateAggregatedEvents_def EventAggregator_ClearAggregatedEvents_def split: prod.splits)
    have own3: "items_owned roots ?items w3" "booked_bytes w3 + length ?items * (L + 40) < 4294967296"
      using assms(5,6) a3 by (simp_all add: items_owned_def aside_def)
    from create_events_gained [OF assms(1,2) own3(2) aside_ok [OF assms(3) a3] assms(4) own3(1) loop] obtain new where
      L: "map item_root items' = map item_root ?items" "\<forall>x \<in> set items'. wShouldFree (itemJson x) \<longleftrightarrow> item_root x \<in> roots (docs w4)"
      and new: "gained (\<lambda>h. roots h - ?V) L (length ?items) i sqs w3 new sqs' w4" by blast
    have "distinct (map item_root items')" using assms(5) by (simp add: L(1) items_owned_def)
    from clear_items_roots [OF own this L(2)] rest(2) L(1)
    have w': "doc_frame w4 w'" "roots (docs w') = roots (docs w4) - ?V" by simp_all
    have flushed: "roots (docs w') = roots (docs w) - ?V" using w'(2) new a3 by (simp add: gained_def aside_def)
    let ?R = "\<lambda>h. roots h - ?V"
    have "gained ?R L (0 + length ?items) i sqs w ([] @ new) sqs' w4"
      by (rule gained_trans [OF gained_aside [OF assms(3) aside_fewer [OF a3]] new])
    from gained_docs [OF this w'(1), of w] have "gained ?R L (length ?items) i sqs w new sqs' w'"
      using w'(2) new a3 by (auto simp: gained_def aside_def)
    then show ?thesis using flush(2) rest(1) flushed by auto
  qed
qed

text \<open>
  C23: Flushing an aggregator: either nothing happens, because the aggregation is enabled and its interval has not
  passed (or a setting could not be read), or each item becomes at most one text at the end of the queue, the
  documents of all items are released exactly once, sent or not, and the aggregator is empty.
\<close>

theorem aggregated_events_are_flushed:
  fixes w :: "('h, 'a) queue_env_scheme"
  assumes "parson_lists D roots" and "texts_within D L" and "sync_queues_ok sqs w" and "i < length sqs"
    and "items_owned roots (aggregatedEvents aggregator) w"
    and "booked_bytes w + length (aggregatedEvents aggregator) * (L + 40) < 4294967296"
    and "EventAggregator_GetAggregatedEvents D aggregator i sqs w = (((r, sqs'), aggregator'), w')"
  shows "(\<exists>new. gained (\<lambda>h. roots h - set (map item_root (aggregatedEvents aggregator))) L
        (length (aggregatedEvents aggregator)) i sqs w new sqs' w')
    \<and> (aggregator' = aggregator \<and> sqs' = sqs \<and> aside roots w w'
       \<or> aggregatedEvents aggregator' = [] \<and> roots (docs w') = roots (docs w) - set (map item_root (aggregatedEvents aggregator)))"
  by (rule flushed [OF assms])

definition one_aggregated :: "(nat, nat) EventAggregator" where
  "one_aggregated = empty_aggregator\<lparr>aggregatedEvents := [\<lparr>itemJson = payload_of 7, hitCount = 3\<rparr>], lastAggregationTime := - 1000000\<rparr>"

lemma aggregated_events_are_flushed_witness:
  "\<exists>r sqs' aggregator' w' new. EventAggregator_GetAggregatedEvents text_doc one_aggregated 0 [new_sync 0, new_sync 1]
       (calm_queue_env_with calm_store) = (((r, sqs'), aggregator'), w')
     \<and> gained (\<lambda>h. text_roots h - {7}) 2 1 0 [new_sync 0, new_sync 1] (calm_queue_env_with calm_store) new sqs' w'"
proof -
  let ?w = "calm_queue_env_with calm_store :: text_store queue_env" and ?sqs = "[new_sync 0, new_sync 1]"
  have lists: "parson_lists text_doc text_roots" "texts_within text_doc 2"
    using text_doc_ownership text_doc_arrays by (auto simp: parson_lists_def texts_within_def text_doc_def Let_def)
  have docs: "docs ?w = calm_store" "currentConsumptionInBytes ?w = 0"
    by (simp_all add: calm_queue_env_with_def calm_monitor_with_def calm_counters_with_def twin_env.defs counter_env.defs
        monitor_env.defs queue_env.defs calm_twin_with_def collectors_env.defs calm_collectors_with_def)
  have own: "items_owned text_roots (aggregatedEvents one_aggregated) ?w"
    by (simp add: items_owned_def one_aggregated_def docs item_root_def payload_of_def)
  obtain r sqs' aggregator' w' where run: "EventAggregator_GetAggregatedEvents text_doc one_aggregated 0 ?sqs ?w
      = (((r, sqs'), aggregator'), w')" by (metis prod.collapse)
  from aggregated_events_are_flushed [OF lists calm_sync_queues(1) _ own _ run] run show ?thesis
    by (auto simp: one_aggregated_def docs item_root_def payload_of_def)
qed

end
