(* ===== verification/Scheduler_Thread.thy ===== *)
theory Scheduler_Thread
  imports Prelude
begin

text \<open>
  The thread that runs a task at an interval, \<^verbatim>\<open>src/agent/src/scheduler_thread.c\<close>.  Two threads share
  the scheduler without a lock: the agent's, which starts and stops it, and the worker, which runs
  \<open>SchedulerThread_MainFunc\<close>.  Each of the accesses to \<open>continueRunning\<close> and \<open>state\<close> is a step of its
  own, and the steps of the two threads interleave in every order.  A task is its effect on the state
  it works on, \<open>taskParam\<close> included.
\<close>

datatype SchedulerThreadState = SCHEDULER_THREAD_CREATED | SCHEDULER_THREAD_STARTED | SCHEDULER_THREAD_STOPPED

record 's SchedulerThread =
  threadHandle :: bool
  schedulerInterval :: u32
  schedulerTask :: "'s \<Rightarrow> 's"
  continueRunning :: bool
  schedulerState :: SchedulerThreadState

text \<open>The stages of a scheduler are ordered.\<close>

instantiation SchedulerThreadState :: linorder
begin

fun stage :: "SchedulerThreadState \<Rightarrow> nat" where
  "stage SCHEDULER_THREAD_CREATED = 0"
| "stage SCHEDULER_THREAD_STARTED = 1"
| "stage SCHEDULER_THREAD_STOPPED = 2"

definition less_eq_SchedulerThreadState :: "SchedulerThreadState \<Rightarrow> SchedulerThreadState \<Rightarrow> bool" where
  "less_eq_SchedulerThreadState s t \<longleftrightarrow> stage s \<le> stage t"

definition less_SchedulerThreadState :: "SchedulerThreadState \<Rightarrow> SchedulerThreadState \<Rightarrow> bool" where
  "less_SchedulerThreadState s t \<longleftrightarrow> stage s < stage t"

instance
proof
  fix s t u :: SchedulerThreadState
  show "s < t \<longleftrightarrow> s \<le> t \<and> \<not> t \<le> s" "s \<le> s" "s \<le> t \<or> t \<le> s"
    by (auto simp: less_eq_SchedulerThreadState_def less_SchedulerThreadState_def)
  show "s \<le> t \<Longrightarrow> t \<le> u \<Longrightarrow> s \<le> u" by (simp add: less_eq_SchedulerThreadState_def)
  show "s \<le> t \<Longrightarrow> t \<le> s \<Longrightarrow> s = t"
    by (cases s; cases t; simp add: less_eq_SchedulerThreadState_def)
qed

end

section \<open>Operations\<close>

definition SchedulerThread_Init :: "u32 \<Rightarrow> ('s \<Rightarrow> 's) \<Rightarrow> bool \<times> 's SchedulerThread" where
  "SchedulerThread_Init interval task =
     (True, \<lparr>threadHandle = False, schedulerInterval = interval, schedulerTask = task, continueRunning = True,
             schedulerState = SCHEDULER_THREAD_CREATED\<rparr>)"

text \<open>\<open>memset\<close> to zero: the state reads as \<open>CREATED\<close> again, and the task is a NULL pointer.\<close>

definition SchedulerThread_Deinit :: "'s SchedulerThread \<Rightarrow> 's SchedulerThread" where
  "SchedulerThread_Deinit scheduler =
     \<lparr>threadHandle = False, schedulerInterval = 0, schedulerTask = id, continueRunning = False,
      schedulerState = SCHEDULER_THREAD_CREATED\<rparr>"

definition SchedulerThread_Stop :: "'s SchedulerThread \<Rightarrow> 's SchedulerThread" where
  "SchedulerThread_Stop scheduler = scheduler\<lparr>continueRunning := False\<rparr>"

definition SchedulerThread_GetState :: "'s SchedulerThread \<Rightarrow> SchedulerThreadState" where
  "SchedulerThread_GetState scheduler = schedulerState scheduler"

section \<open>The two threads\<close>

text \<open>Where the worker stands in \<open>SchedulerThread_MainFunc\<close>.\<close>

datatype program_point = NO_THREAD | LOOP_TEST | RUN_TASK | SLEEP | SET_STOPPED | RETURNED

text \<open>
  \<open>starting\<close>: the agent's thread is in \<open>SchedulerThread_Start\<close>, after the thread was created and before
  the state is set.  \<open>taskState\<close> is what the task works on; \<open>runs\<close> counts its runs.
\<close>

record 's threads =
  scheduler :: "'s SchedulerThread"
  starting :: bool
  worker :: program_point
  taskState :: 's
  runs :: nat

fun SchedulerThread_MainFunc :: "program_point \<Rightarrow> 's threads \<Rightarrow> 's threads" where
  "SchedulerThread_MainFunc LOOP_TEST t =
     t\<lparr>worker := (if continueRunning (scheduler t) then RUN_TASK else SET_STOPPED)\<rparr>"
| "SchedulerThread_MainFunc RUN_TASK t =
     t\<lparr>taskState := schedulerTask (scheduler t) (taskState t), runs := Suc (runs t), worker := SLEEP\<rparr>"
| "SchedulerThread_MainFunc SLEEP t = t\<lparr>worker := LOOP_TEST\<rparr>"
| "SchedulerThread_MainFunc SET_STOPPED t =
     t\<lparr>scheduler := (scheduler t)\<lparr>schedulerState := SCHEDULER_THREAD_STOPPED\<rparr>, worker := RETURNED\<rparr>"
| "SchedulerThread_MainFunc NO_THREAD t = t"
| "SchedulerThread_MainFunc RETURNED t = t"

text \<open>
  The first part of \<open>SchedulerThread_Start\<close>, up to the creation of the thread, which may fail, and the
  second; \<open>SchedulerThread_Start\<close> is both without a step of the worker between them.
\<close>

definition start_create :: "bool \<Rightarrow> 's threads \<Rightarrow> bool \<times> 's threads" where
  "start_create created t =
     (if schedulerState (scheduler t) \<noteq> SCHEDULER_THREAD_CREATED \<or> \<not> created then (False, t)
      else (True, t\<lparr>scheduler := (scheduler t)\<lparr>threadHandle := True\<rparr>, starting := True, worker := LOOP_TEST\<rparr>))"

definition start_mark :: "'s threads \<Rightarrow> 's threads" where
  "start_mark t =
     t\<lparr>scheduler := (scheduler t)\<lparr>schedulerState := SCHEDULER_THREAD_STARTED\<rparr>, starting := False\<rparr>"

definition SchedulerThread_Start :: "bool \<Rightarrow> 's threads \<Rightarrow> bool \<times> 's threads" where
  "SchedulerThread_Start created t =
     (let (ok, t') = start_create created t in if \<not> ok then (False, t') else (True, start_mark t'))"

text \<open>
  One step of either thread.  The flag says whether the agent stops a scheduler only after
  \<open>SchedulerThread_Start\<close> has returned true, as it does.
\<close>

inductive sched_step :: "bool \<Rightarrow> 's threads \<Rightarrow> 's threads \<Rightarrow> bool" for orderly where
  create: "\<not> starting t \<Longrightarrow> start_create True t = (True, t') \<Longrightarrow> sched_step orderly t t'"
| mark: "starting t \<Longrightarrow> sched_step orderly t (start_mark t)"
| stop: "\<not> starting t \<Longrightarrow> (orderly \<Longrightarrow> schedulerState (scheduler t) \<noteq> SCHEDULER_THREAD_CREATED) \<Longrightarrow>
    sched_step orderly t (t\<lparr>scheduler := SchedulerThread_Stop (scheduler t)\<rparr>)"
| work: "worker t \<notin> {NO_THREAD, RETURNED} \<Longrightarrow> sched_step orderly t (SchedulerThread_MainFunc (worker t) t)"

inductive_cases sched_stepE: "sched_step orderly t t'"
inductive_simps sched_step_iff: "sched_step orderly t t'"

abbreviation sched_run :: "bool \<Rightarrow> 's threads \<Rightarrow> 's threads \<Rightarrow> bool" where
  "sched_run orderly \<equiv> (sched_step orderly)\<^sup>*\<^sup>*"

definition new_threads :: "u32 \<Rightarrow> ('s \<Rightarrow> 's) \<Rightarrow> 's \<Rightarrow> 's threads" where
  "new_threads interval task s =
     \<lparr>scheduler = snd (SchedulerThread_Init interval task), starting = False, worker = NO_THREAD, taskState = s, runs = 0\<rparr>"

section \<open>Invariants\<close>

text \<open>What holds in every interleaving, and what holds when the agent stops only what it started.\<close>

definition well_scheduled :: "'s threads \<Rightarrow> bool" where
  "well_scheduled t \<longleftrightarrow>
     (worker t = NO_THREAD \<longleftrightarrow> \<not> threadHandle (scheduler t))
     \<and> (worker t = NO_THREAD \<longrightarrow> schedulerState (scheduler t) = SCHEDULER_THREAD_CREATED \<and> \<not> starting t)
     \<and> (schedulerState (scheduler t) = SCHEDULER_THREAD_CREATED \<and> \<not> starting t \<longrightarrow> worker t = NO_THREAD)
     \<and> (schedulerState (scheduler t) = SCHEDULER_THREAD_STARTED \<longrightarrow> \<not> starting t)
     \<and> (schedulerState (scheduler t) = SCHEDULER_THREAD_STOPPED \<longrightarrow> worker t = RETURNED)"

definition orderly_stopped :: "'s threads \<Rightarrow> bool" where
  "orderly_stopped t \<longleftrightarrow> well_scheduled t
     \<and> (schedulerState (scheduler t) = SCHEDULER_THREAD_CREATED \<longrightarrow> continueRunning (scheduler t))
     \<and> (starting t \<longrightarrow> schedulerState (scheduler t) = SCHEDULER_THREAD_CREATED)
     \<and> (worker t = SET_STOPPED \<longrightarrow> schedulerState (scheduler t) = SCHEDULER_THREAD_STARTED)
     \<and> (worker t = RETURNED \<longrightarrow> schedulerState (scheduler t) = SCHEDULER_THREAD_STOPPED)"

lemmas scheduler_defs = well_scheduled_def orderly_stopped_def start_mark_def
  SchedulerThread_Stop_def SchedulerThread_Init_def new_threads_def

lemma start_create_iff:
  "start_create c t = (True, t') \<longleftrightarrow> c \<and> schedulerState (scheduler t) = SCHEDULER_THREAD_CREATED
    \<and> t' = t\<lparr>scheduler := (scheduler t)\<lparr>threadHandle := True\<rparr>, starting := True, worker := LOOP_TEST\<rparr>"
  by (auto simp: start_create_def)

lemma MainFunc_well_scheduled:
  "well_scheduled t \<Longrightarrow> worker t \<notin> {NO_THREAD, RETURNED} \<Longrightarrow> well_scheduled (SchedulerThread_MainFunc (worker t) t)"
  by (cases "worker t") (auto simp: scheduler_defs)

lemma create_well_scheduled:
  "well_scheduled t \<Longrightarrow> start_create True t = (True, t') \<Longrightarrow> \<not> starting t \<Longrightarrow> well_scheduled t'"
  by (cases "worker t"; cases "schedulerState (scheduler t)"; simp add: scheduler_defs start_create_iff)

lemma mark_well_scheduled: "well_scheduled t \<Longrightarrow> starting t \<Longrightarrow> well_scheduled (start_mark t)"
  by (cases "worker t"; simp add: scheduler_defs)

lemma stop_well_scheduled:
  "well_scheduled t \<Longrightarrow> well_scheduled (t\<lparr>scheduler := SchedulerThread_Stop (scheduler t)\<rparr>)"
  unfolding well_scheduled_def SchedulerThread_Stop_def by (simp (no_asm))

lemma step_well_scheduled: "sched_step orderly t t' \<Longrightarrow> well_scheduled t \<Longrightarrow> well_scheduled t'"
  by (erule sched_stepE)
    (simp_all add: create_well_scheduled mark_well_scheduled stop_well_scheduled MainFunc_well_scheduled)

lemma MainFunc_orderly:
  "orderly_stopped t \<Longrightarrow> worker t \<notin> {NO_THREAD, RETURNED} \<Longrightarrow> orderly_stopped (SchedulerThread_MainFunc (worker t) t)"
  by (cases "worker t"; cases "schedulerState (scheduler t)") (auto simp: scheduler_defs)

lemma create_orderly:
  "orderly_stopped t \<Longrightarrow> start_create True t = (True, t') \<Longrightarrow> \<not> starting t \<Longrightarrow> orderly_stopped t'"
  by (cases "worker t"; cases "schedulerState (scheduler t)"; simp add: scheduler_defs start_create_iff)

lemma mark_orderly: "orderly_stopped t \<Longrightarrow> starting t \<Longrightarrow> orderly_stopped (start_mark t)"
  by (cases "worker t"; cases "schedulerState (scheduler t)"; simp add: scheduler_defs)

lemma stop_orderly:
  "orderly_stopped t \<Longrightarrow> schedulerState (scheduler t) \<noteq> SCHEDULER_THREAD_CREATED \<Longrightarrow>
    orderly_stopped (t\<lparr>scheduler := SchedulerThread_Stop (scheduler t)\<rparr>)"
  unfolding well_scheduled_def orderly_stopped_def SchedulerThread_Stop_def by (simp (no_asm)) blast

lemma step_orderly: "sched_step True t t' \<Longrightarrow> orderly_stopped t \<Longrightarrow> orderly_stopped t'"
  by (erule sched_stepE)
    (simp_all add: create_orderly mark_orderly stop_orderly MainFunc_orderly)

text \<open>A task that counts, started, run once, and then stopped.\<close>

definition counted_once :: "nat threads" where
  "counted_once = SchedulerThread_MainFunc RUN_TASK (SchedulerThread_MainFunc LOOP_TEST
     (snd (SchedulerThread_Start True (new_threads 1000 Suc 0))))"

definition stopped_once :: "nat threads" where
  "stopped_once = counted_once\<lparr>scheduler := SchedulerThread_Stop (scheduler counted_once)\<rparr>"

lemmas sample_threads = counted_once_def stopped_once_def SchedulerThread_Start_def start_create_def scheduler_defs

lemma start_steps:
  assumes "\<not> starting t" and "SchedulerThread_Start True t = (True, t')"
  shows "sched_run orderly t t'"
proof -
  obtain u where u: "start_create True t = (True, u)" "t' = start_mark u"
    using assms(2) by (auto simp: SchedulerThread_Start_def split: prod.splits if_splits)
  then have "starting u" by (simp add: start_create_iff)
  then show ?thesis
    using create [OF assms(1) u(1)] mark [of u] u(2) by (meson r_into_rtranclp rtranclp.rtrancl_into_rtrancl)
qed

lemma counted_once_runs: "sched_run orderly (new_threads 1000 Suc 0) counted_once"
proof -
  let ?t = "snd (SchedulerThread_Start True (new_threads 1000 Suc 0))"
  have "sched_run orderly (new_threads 1000 Suc 0) ?t"
    by (rule start_steps) (simp_all add: sample_threads)
  moreover have "sched_step orderly ?t (SchedulerThread_MainFunc LOOP_TEST ?t)"
    using work [of ?t orderly] by (simp add: sample_threads)
  moreover have "sched_step orderly (SchedulerThread_MainFunc LOOP_TEST ?t) counted_once"
    using work [of "SchedulerThread_MainFunc LOOP_TEST ?t" orderly] by (simp add: sample_threads)
  ultimately show ?thesis by (meson rtranclp.rtrancl_into_rtrancl)
qed

lemma stopped_once_runs: "sched_run orderly counted_once stopped_once"
  unfolding stopped_once_def by (rule r_into_rtranclp, rule stop) (simp_all add: sample_threads)

text \<open>
  C14: the scheduler's fields agree in every interleaving, also when it is stopped before it was started.
  There is a thread exactly after one was created; the state \<open>CREATED\<close> without a start under way means
  that there is none; and \<open>STOPPED\<close> means that the worker has returned.
\<close>

theorem scheduler_is_well_formed:
  assumes "sched_run orderly (new_threads interval task s) t"
  shows "well_scheduled t"
  using assms
proof (induction rule: rtranclp_induct)
  case base
  show ?case by (simp add: scheduler_defs)
next
  case (step t t')
  then show ?case using step_well_scheduled by blast
qed

theorem scheduler_is_well_formed_witness: "well_scheduled stopped_once"
  using scheduler_is_well_formed [OF rtranclp_trans [OF counted_once_runs stopped_once_runs]] .

lemma run_orderly: "sched_run True t t' \<Longrightarrow> orderly_stopped t \<Longrightarrow> orderly_stopped t'"
  by (induction rule: rtranclp_induct) (auto intro: step_orderly)

lemma step_state: "sched_step True t t' \<Longrightarrow> orderly_stopped t \<Longrightarrow> schedulerState (scheduler t) \<le> schedulerState (scheduler t')"
proof (erule sched_stepE)
  show "schedulerState (scheduler t) \<le> schedulerState (scheduler t')" if "start_create True t = (True, t')"
    using that by (simp add: start_create_iff)
  show "schedulerState (scheduler t) \<le> schedulerState (scheduler t')" if "orderly_stopped t" "t' = start_mark t" "starting t"
    using that by (auto simp: scheduler_defs less_eq_SchedulerThreadState_def)
  show "schedulerState (scheduler t) \<le> schedulerState (scheduler t')"
    if "t' = t\<lparr>scheduler := SchedulerThread_Stop (scheduler t)\<rparr>"
    using that by (simp add: scheduler_defs)
  show "schedulerState (scheduler t) \<le> schedulerState (scheduler t')"
    if "t' = SchedulerThread_MainFunc (worker t) t"
    using that by (cases "worker t"; cases "schedulerState (scheduler t)") (auto simp: less_eq_SchedulerThreadState_def)
qed

text \<open>
  C13: a scheduler that is stopped only after it was started goes from \<open>CREATED\<close> over \<open>STARTED\<close> to
  \<open>STOPPED\<close> and never goes back, whatever the interleaving, and its worker has returned exactly when
  its state is \<open>STOPPED\<close>: \<open>SecurityAgent_StopAsyncTask\<close>, which joins the thread when the state is
  \<open>STARTED\<close>, can trust it.
\<close>

theorem scheduler_state_advances:
  assumes "sched_run True (new_threads interval task s) t" and "sched_run True t t'"
  shows "SchedulerThread_GetState (scheduler t) \<le> SchedulerThread_GetState (scheduler t')
    \<and> (SchedulerThread_GetState (scheduler t') = SCHEDULER_THREAD_STOPPED \<longleftrightarrow> worker t' = RETURNED)"
proof -
  have "orderly_stopped (new_threads interval task s)" by (simp add: scheduler_defs)
  then have t: "orderly_stopped t" by (rule run_orderly [OF assms(1)])
  have "schedulerState (scheduler t) \<le> schedulerState (scheduler t') \<and> orderly_stopped t'"
    using assms(2)
  proof (induction rule: rtranclp_induct)
    case (step u v)
    then show ?case using step_orderly step_state [of u v] by (auto intro: order_trans)
  qed (simp add: t)
  moreover from this have "schedulerState (scheduler t') = SCHEDULER_THREAD_STOPPED \<longleftrightarrow> worker t' = RETURNED"
    unfolding orderly_stopped_def well_scheduled_def by blast
  ultimately show ?thesis by (simp add: SchedulerThread_GetState_def)
qed

theorem scheduler_state_advances_witness:
  "SchedulerThread_GetState (scheduler counted_once) \<le> SchedulerThread_GetState (scheduler stopped_once)"
  using scheduler_state_advances [OF counted_once_runs stopped_once_runs] by (rule conjunct1)

section \<open>Running the task\<close>

lemma MainFunc_effect:
  "schedulerTask (scheduler (SchedulerThread_MainFunc p t)) = schedulerTask (scheduler t)"
  "continueRunning (scheduler (SchedulerThread_MainFunc p t)) = continueRunning (scheduler t)"
  "taskState t = (f ^^ runs t) s \<Longrightarrow> schedulerTask (scheduler t) = f \<Longrightarrow>
    taskState (SchedulerThread_MainFunc p t) = (f ^^ runs (SchedulerThread_MainFunc p t)) s"
  by (cases p; simp)+



text \<open>
  C24: after \<open>SchedulerThread_Stop\<close> the task runs at most once more, and only if the worker had already
  passed its test of \<open>continueRunning\<close>; no later step of either thread can set it going again.
\<close>

theorem one_run_after_stop:
  assumes "sched_run orderly t t'" and "\<not> continueRunning (scheduler t)" and "worker t \<noteq> NO_THREAD" and "well_scheduled t"
  shows "runs t' \<le> runs t + (if worker t = RUN_TASK then 1 else 0)"
proof -
  have "\<not> continueRunning (scheduler t') \<and> worker t' \<noteq> NO_THREAD \<and> well_scheduled t'
    \<and> runs t' + (if worker t' = RUN_TASK then 1 else 0) \<le> runs t + (if worker t = RUN_TASK then 1 else 0)"
    using assms(1)
  proof (induction rule: rtranclp_induct)
    case base
    then show ?case using assms(2-4) by simp
  next
    case (step u v)
    have v: "well_scheduled v" using step_well_scheduled [OF step.hyps(2)] step.IH by blast
    from step.hyps(2) show ?case
    proof (cases rule: sched_step.cases)
      case create
      then have "worker u = NO_THREAD" using step.IH by (simp add: well_scheduled_def start_create_iff)
      then show ?thesis using step.IH by simp
    next
      case work
      then show ?thesis using step.IH v by (cases "worker u") auto
    qed (use step.IH v in \<open>simp_all add: start_mark_def SchedulerThread_Stop_def\<close>)
  qed
  then show ?thesis by simp
qed

theorem one_run_after_stop_witness: "runs stopped_once \<le> 1"
  using one_run_after_stop [of False stopped_once stopped_once] by (simp add: sample_threads)

text \<open>
  C25: a stopped worker returns: wherever it stands, at most four steps of its own after
  \<open>continueRunning\<close> was cleared bring it to the end, with the state \<open>STOPPED\<close>.
\<close>

theorem stopped_worker_returns:
  assumes "\<not> continueRunning (scheduler t)" and "worker t \<notin> {NO_THREAD, RETURNED}"
  shows "\<exists>n \<le> 4. worker (((\<lambda>t. SchedulerThread_MainFunc (worker t) t) ^^ n) t) = RETURNED
    \<and> schedulerState (scheduler (((\<lambda>t. SchedulerThread_MainFunc (worker t) t) ^^ n) t)) = SCHEDULER_THREAD_STOPPED"
proof (cases "worker t")
  case LOOP_TEST
  then show ?thesis using assms by (intro exI [of _ 2]) (simp add: numeral_2_eq_2)
next
  case RUN_TASK
  then show ?thesis using assms by (intro exI [of _ 4]) (simp add: eval_nat_numeral)
next
  case SLEEP
  then show ?thesis using assms by (intro exI [of _ 3]) (simp add: eval_nat_numeral)
next
  case SET_STOPPED
  then show ?thesis using assms by (intro exI [of _ 1]) simp
qed (use assms in auto)

theorem stopped_worker_returns_witness:
  "\<exists>n \<le> 4. worker (((\<lambda>t. SchedulerThread_MainFunc (worker t) t) ^^ n) stopped_once) = RETURNED"
  using stopped_worker_returns [of stopped_once] by (auto simp: sample_threads)

text \<open>
  C39: a scheduler stopped before it is started reports \<open>STARTED\<close> for ever.  \<open>SchedulerThread_Start\<close> sets
  the state after it has created the thread; a worker that finds \<open>continueRunning\<close> cleared may set
  \<open>STOPPED\<close> before, and is overwritten: no later step changes the state again.
\<close>

theorem early_stop_is_lost:
  "\<exists>t. sched_run False (new_threads interval task s) t \<and> worker t = RETURNED \<and> runs t = 0
    \<and> (\<forall>t'. sched_run False t t' \<longrightarrow> SchedulerThread_GetState (scheduler t') = SCHEDULER_THREAD_STARTED)"
proof -
  let ?t0 = "new_threads interval task s"
  let ?t1 = "?t0\<lparr>scheduler := SchedulerThread_Stop (scheduler ?t0)\<rparr>"
  let ?t2 = "?t1\<lparr>scheduler := (scheduler ?t1)\<lparr>threadHandle := True\<rparr>, starting := True, worker := LOOP_TEST\<rparr>"
  let ?t3 = "SchedulerThread_MainFunc LOOP_TEST ?t2"
  let ?t4 = "SchedulerThread_MainFunc SET_STOPPED ?t3"
  let ?t5 = "start_mark ?t4"
  have "sched_step False ?t0 ?t1" by (rule stop) (simp_all add: scheduler_defs)
  moreover have "sched_step False ?t1 ?t2" by (rule create) (simp_all add: scheduler_defs start_create_iff)
  moreover have "sched_step False ?t2 ?t3" using work [of ?t2 False] by (simp add: scheduler_defs)
  moreover have "sched_step False ?t3 ?t4" using work [of ?t3 False] by (simp add: scheduler_defs)
  moreover have "sched_step False ?t4 ?t5" by (rule mark) (simp add: scheduler_defs)
  ultimately have run: "sched_run False ?t0 ?t5" by (meson rtranclp.rtrancl_refl rtranclp.rtrancl_into_rtrancl)
  have stays: "schedulerState (scheduler t') = SCHEDULER_THREAD_STARTED" if "sched_run False ?t5 t'" for t'
  proof -
    have "worker t' = RETURNED \<and> schedulerState (scheduler t') = SCHEDULER_THREAD_STARTED \<and> \<not> starting t'"
      using that
    proof (induction rule: rtranclp_induct)
      case (step u v)
      from step.hyps(2) step.IH show ?case
        by (cases rule: sched_step.cases) (auto simp: start_create_iff start_mark_def SchedulerThread_Stop_def)
    qed (simp add: scheduler_defs)
    then show ?thesis by simp
  qed
  show ?thesis
    using run stays by (intro exI [of _ ?t5]) (auto simp: SchedulerThread_GetState_def scheduler_defs)
qed

theorem early_stop_is_lost_witness:
  "\<exists>t. sched_run False (new_threads 1000 Suc 0) t \<and> worker t = RETURNED
    \<and> SchedulerThread_GetState (scheduler t) = SCHEDULER_THREAD_STARTED"
  using early_stop_is_lost [of 1000 Suc 0] by blast

end
