(* ===== verification/Security_Agent.thy ===== *)
theory Security_Agent
  imports Prelude
begin

text \<open>
  The agent as a whole, \<^verbatim>\<open>src/agent/src/security_agent.c\<close> and \<^verbatim>\<open>main.c\<close>: the order in which its parts are
  brought up, run and taken down.  The operations of the parts are an argument (each part has its own theory);
  the model keeps what this code decides from: the flags of the \<open>SecurityAgent\<close> and the results of the calls.
\<close>

datatype agent_queue =
  operationalEventsQueue | highPriorityEventQueue | lowPriorityEventQueue | diagnosticEventQueue | twinUpdatesQueue

datatype agent_task = asyncMonitorTask | asyncPublisherTask | asyncUpdateTwinTask

text \<open>The parts with an \<open>Init\<close> and a \<open>Deinit\<close>; a task has a part of its own and one for its thread.\<close>

datatype agent_part =
  LoggerPart | IoTHubPart | LocalConfigurationPart | MemoryMonitorPart | TwinConfigurationPart | DiagnosticEventCollectorPart
| AgentTelemetryProviderPart | IoTHubAdapterPart | QueuePart agent_queue | TaskPart agent_task | ThreadPart agent_task

record 'w agent_parts =
  part_init :: "agent_part \<Rightarrow> 'w \<Rightarrow> bool \<times> 'w"
  part_deinit :: "agent_part \<Rightarrow> 'w \<Rightarrow> 'w"
  set_minimum_severities :: "'w \<Rightarrow> 'w"
  switch_users :: "'w \<Rightarrow> bool \<times> 'w"
  set_correlation :: "'w \<Rightarrow> 'w"
  hub_connect :: "'w \<Rightarrow> bool \<times> 'w"
  twin_updates_size :: "'w \<Rightarrow> nat option \<times> 'w"
  execute_twin_update :: "'w \<Rightarrow> 'w"
  thread_start :: "agent_task \<Rightarrow> 'w \<Rightarrow> bool \<times> 'w"
  thread_is_started :: "agent_task \<Rightarrow> 'w \<Rightarrow> bool \<times> 'w"
  thread_stop :: "agent_task \<Rightarrow> 'w \<Rightarrow> 'w"
  thread_join :: "agent_task \<Rightarrow> 'w \<Rightarrow> 'w"

record SecurityAgent =
  queueInitiated :: "agent_queue \<Rightarrow> bool"
  taskInitiated :: "agent_task \<Rightarrow> bool"
  taskThreadInitiated :: "agent_task \<Rightarrow> bool"
  iothubAdapterInitiated :: bool
  loggerInitiated :: bool
  iothubInitiated :: bool
  memoryMonitorInitiated :: bool
  twinConfigurationInitiated :: bool
  localConfigurationInitiated :: bool
  diagnosticEventCollectorInitiated :: bool

definition zero_agent :: SecurityAgent where
  "zero_agent = \<lparr>queueInitiated = (\<lambda>_. False), taskInitiated = (\<lambda>_. False), taskThreadInitiated = (\<lambda>_. False),
     iothubAdapterInitiated = False, loggerInitiated = False, iothubInitiated = False, memoryMonitorInitiated = False,
     twinConfigurationInitiated = False, localConfigurationInitiated = False, diagnosticEventCollectorInitiated = False\<rparr>"

section \<open>Queues and threads\<close>

definition SecurityAgent_InitQueue ::
  "'w agent_parts \<Rightarrow> agent_queue \<Rightarrow> SecurityAgent \<Rightarrow> 'w \<Rightarrow> (bool \<times> SecurityAgent) \<times> 'w" where
  "SecurityAgent_InitQueue P q agent w =
     (let (ok, w1) = part_init P (QueuePart q) w in
      if \<not> ok then ((False, agent), w1)
      else ((True, agent\<lparr>queueInitiated := (queueInitiated agent)(q := True)\<rparr>), w1))"

definition SecurityAgent_DeinitQueue :: "'w agent_parts \<Rightarrow> agent_queue \<Rightarrow> SecurityAgent \<Rightarrow> 'w \<Rightarrow> 'w" where
  "SecurityAgent_DeinitQueue P q agent w = (if queueInitiated agent q then part_deinit P (QueuePart q) w else w)"

fun init_queues :: "'w agent_parts \<Rightarrow> agent_queue list \<Rightarrow> SecurityAgent \<Rightarrow> 'w \<Rightarrow> (bool \<times> SecurityAgent) \<times> 'w" where
  "init_queues P [] agent w = ((True, agent), w)"
| "init_queues P (q # qs) agent w =
     (let ((ok, agent1), w1) = SecurityAgent_InitQueue P q agent w in
      if \<not> ok then ((False, agent1), w1) else init_queues P qs agent1 w1)"

definition SecurityAgent_InitAllQueues :: "'w agent_parts \<Rightarrow> SecurityAgent \<Rightarrow> 'w \<Rightarrow> (bool \<times> SecurityAgent) \<times> 'w" where
  "SecurityAgent_InitAllQueues P =
     init_queues P [diagnosticEventQueue, operationalEventsQueue, highPriorityEventQueue, lowPriorityEventQueue, twinUpdatesQueue]"

definition SecurityAgent_StartAsyncTask ::
  "'w agent_parts \<Rightarrow> agent_task \<Rightarrow> SecurityAgent \<Rightarrow> 'w \<Rightarrow> (bool \<times> SecurityAgent) \<times> 'w" where
  "SecurityAgent_StartAsyncTask P t agent w =
     (let (ok, w1) = part_init P (ThreadPart t) w in
      if \<not> ok then ((False, agent), w1)
      else
        let agent1 = agent\<lparr>taskThreadInitiated := (taskThreadInitiated agent)(t := True)\<rparr>;
            (started, w2) = thread_start P t w1
        in ((started, agent1), w2))"

definition SecurityAgent_StopAsyncTask :: "'w agent_parts \<Rightarrow> agent_task \<Rightarrow> SecurityAgent \<Rightarrow> 'w \<Rightarrow> 'w" where
  "SecurityAgent_StopAsyncTask P t agent w =
     (if taskThreadInitiated agent t
      then let (started, w1) = thread_is_started P t w in
           part_deinit P (ThreadPart t) (if started then thread_join P t (thread_stop P t w1) else w1)
      else w)"

section \<open>Taking down\<close>

definition stop_task :: "'w agent_parts \<Rightarrow> agent_task \<Rightarrow> SecurityAgent \<Rightarrow> 'w \<Rightarrow> 'w" where
  "stop_task P t agent w =
     (let w1 = SecurityAgent_StopAsyncTask P t agent w
      in if taskInitiated agent t then part_deinit P (TaskPart t) w1 else w1)"

definition deinit_if :: "'w agent_parts \<Rightarrow> bool \<Rightarrow> agent_part \<Rightarrow> 'w \<Rightarrow> 'w" where
  "deinit_if P initiated p w = (if initiated then part_deinit P p w else w)"

definition SecurityAgent_Deinit :: "'w agent_parts \<Rightarrow> SecurityAgent \<Rightarrow> 'w \<Rightarrow> 'w" where
  "SecurityAgent_Deinit P agent w =
     (let w1 = stop_task P asyncPublisherTask agent w;
          w2 = stop_task P asyncMonitorTask agent w1;
          w3 = stop_task P asyncUpdateTwinTask agent w2;
          w4 = deinit_if P (iothubAdapterInitiated agent) IoTHubAdapterPart w3;
          w5 = deinit_if P (twinConfigurationInitiated agent) TwinConfigurationPart w4;
          w6 = part_deinit P AgentTelemetryProviderPart w5;
          w7 = deinit_if P (diagnosticEventCollectorInitiated agent) DiagnosticEventCollectorPart w6;
          w8 = SecurityAgent_DeinitQueue P highPriorityEventQueue agent w7;
          w9 = SecurityAgent_DeinitQueue P lowPriorityEventQueue agent w8;
          w10 = SecurityAgent_DeinitQueue P twinUpdatesQueue agent w9;
          w11 = SecurityAgent_DeinitQueue P operationalEventsQueue agent w10;
          w12 = SecurityAgent_DeinitQueue P diagnosticEventQueue agent w11;
          w13 = deinit_if P (memoryMonitorInitiated agent) MemoryMonitorPart w12;
          w14 = deinit_if P (localConfigurationInitiated agent) LocalConfigurationPart w13;
          w15 = deinit_if P (iothubInitiated agent) IoTHubPart w14
      in deinit_if P (loggerInitiated agent) LoggerPart w15)"

section \<open>Bringing up\<close>

text \<open>A step of \<open>Init\<close>: a call, and what its success sets.  The first failing step ends the initialisation.\<close>

type_synonym 'w init_step = "('w \<Rightarrow> bool \<times> 'w) \<times> (SecurityAgent \<Rightarrow> SecurityAgent)"

fun init_steps :: "'w init_step list \<Rightarrow> SecurityAgent \<Rightarrow> 'w \<Rightarrow> (bool \<times> SecurityAgent) \<times> 'w" where
  "init_steps [] agent w = ((True, agent), w)"
| "init_steps ((call, mark) # steps) agent w =
     (let (ok, w1) = call w in
      if \<not> ok then ((False, agent), w1) else init_steps steps (mark agent) w1)"

definition early_steps :: "'w agent_parts \<Rightarrow> 'w init_step list" where
  "early_steps P =
     [(part_init P LoggerPart, loggerInitiated_update (\<lambda>_. True)),
      (part_init P IoTHubPart, iothubInitiated_update (\<lambda>_. True)),
      (part_init P LocalConfigurationPart, localConfigurationInitiated_update (\<lambda>_. True)),
      (\<lambda>w. part_init P MemoryMonitorPart (set_minimum_severities P w), memoryMonitorInitiated_update (\<lambda>_. True)),
      (part_init P TwinConfigurationPart, twinConfigurationInitiated_update (\<lambda>_. True)),
      (switch_users P, \<lambda>a. a)]"

definition late_steps :: "'w agent_parts \<Rightarrow> 'w init_step list" where
  "late_steps P =
     [(part_init P DiagnosticEventCollectorPart, diagnosticEventCollectorInitiated_update (\<lambda>_. True)),
      (\<lambda>w. part_init P AgentTelemetryProviderPart (set_correlation P w), \<lambda>a. a),
      (part_init P IoTHubAdapterPart, iothubAdapterInitiated_update (\<lambda>_. True))]"

definition SecurityAgent_Init :: "'w agent_parts \<Rightarrow> 'w \<Rightarrow> (bool \<times> SecurityAgent) \<times> 'w" where
  "SecurityAgent_Init P w =
     (let ((ok, agent), w') =
        (let ((early, agent1), w1) = init_steps (early_steps P) zero_agent w in
         if \<not> early then ((False, agent1), w1)
         else let ((queues, agent2), w2) = SecurityAgent_InitAllQueues P agent1 w1 in
           if \<not> queues then ((False, agent2), w2)
           else init_steps (late_steps P) agent2 w2)
      in ((ok, agent), if \<not> ok then SecurityAgent_Deinit P agent w' else w'))"

definition SecurityAgent_ConnectAndUpdateConfiguration :: "'w agent_parts \<Rightarrow> 'w \<Rightarrow> bool \<times> 'w" where
  "SecurityAgent_ConnectAndUpdateConfiguration P w =
     (let (connected, w1) = hub_connect P w in
      if \<not> connected then (False, w1)
      else case twin_updates_size P w1 of
        (None, w2) \<Rightarrow> (False, w2)
      | (Some twinUpdatesQueueSize, w2) \<Rightarrow>
          if twinUpdatesQueueSize = 0 then (False, w2) else (True, execute_twin_update P w2))"

definition init_task :: "'w agent_parts \<Rightarrow> agent_task \<Rightarrow> bool \<Rightarrow> SecurityAgent \<Rightarrow> 'w \<Rightarrow> (bool \<times> SecurityAgent) \<times> 'w" where
  "init_task P t mark agent w =
     (let (ok, w1) = part_init P (TaskPart t) w
      in ((ok, if ok \<and> mark then agent\<lparr>taskInitiated := (taskInitiated agent)(t := True)\<rparr> else agent), w1))"

text \<open>The flag of the monitor task is never set.\<close>

definition SecurityAgent_Start :: "'w agent_parts \<Rightarrow> SecurityAgent \<Rightarrow> 'w \<Rightarrow> (bool \<times> SecurityAgent) \<times> 'w" where
  "SecurityAgent_Start P agent w =
     (let ((ok, agent1), w1) = init_task P asyncUpdateTwinTask True agent w in
      if \<not> ok then ((False, agent1), w1)
      else let (connected, w2) = SecurityAgent_ConnectAndUpdateConfiguration P w1 in
        if \<not> connected then ((False, agent1), w2)
        else let ((ok2, agent2), w3) = init_task P asyncPublisherTask True agent1 w2 in
          if \<not> ok2 then ((False, agent2), w3)
          else let ((ok3, agent3), w4) = SecurityAgent_StartAsyncTask P asyncPublisherTask agent2 w3 in
            if \<not> ok3 then ((False, agent3), w4)
            else let ((ok4, agent4), w5) = init_task P asyncMonitorTask False agent3 w4 in
              if \<not> ok4 then ((False, agent4), w5)
              else let ((ok5, agent5), w6) = SecurityAgent_StartAsyncTask P asyncMonitorTask agent4 w5 in
                if \<not> ok5 then ((False, agent5), w6)
                else SecurityAgent_StartAsyncTask P asyncUpdateTwinTask agent5 w6)"

definition SecurityAgent_Wait :: "'w agent_parts \<Rightarrow> 'w \<Rightarrow> 'w" where
  "SecurityAgent_Wait P w =
     thread_join P asyncUpdateTwinTask
       (thread_stop P asyncUpdateTwinTask (thread_join P asyncMonitorTask (thread_join P asyncPublisherTask w)))"

definition SecurityAgent_Stop :: "'w agent_parts \<Rightarrow> 'w \<Rightarrow> 'w" where
  "SecurityAgent_Stop P w =
     SecurityAgent_Wait P (thread_stop P asyncMonitorTask (thread_stop P asyncPublisherTask w))"

text \<open>\<open>main\<close>; an agent that could not be initialised has been taken down by \<open>Init\<close>.\<close>

definition agent_main :: "'w agent_parts \<Rightarrow> 'w \<Rightarrow> 'w" where
  "agent_main P w =
     (let ((ok, agent), w1) = SecurityAgent_Init P w in
      if \<not> ok then w1
      else let ((started, agent1), w2) = SecurityAgent_Start P agent w1 in
        SecurityAgent_Deinit P agent1 (if started then SecurityAgent_Wait P w2 else w2))"

section \<open>The lifecycle of the parts\<close>

text \<open>
  What a part relies on while it is up.  The monitor task itself owns nothing once its thread is gone; its thread
  needs the queues it fills.
\<close>

fun needs :: "agent_part \<Rightarrow> agent_part set" where
  "needs LoggerPart = {}"
| "needs IoTHubPart = {LoggerPart}"
| "needs LocalConfigurationPart = {LoggerPart}"
| "needs MemoryMonitorPart = {LoggerPart, LocalConfigurationPart}"
| "needs TwinConfigurationPart = {LoggerPart, LocalConfigurationPart, MemoryMonitorPart}"
| "needs (QueuePart q) = {LoggerPart, MemoryMonitorPart}"
| "needs DiagnosticEventCollectorPart = {LoggerPart, QueuePart diagnosticEventQueue}"
| "needs AgentTelemetryProviderPart = {LoggerPart, QueuePart lowPriorityEventQueue, QueuePart highPriorityEventQueue}"
| "needs IoTHubAdapterPart = {LoggerPart, IoTHubPart, LocalConfigurationPart, TwinConfigurationPart, QueuePart twinUpdatesQueue}"
| "needs (TaskPart asyncUpdateTwinTask) = {IoTHubAdapterPart, QueuePart twinUpdatesQueue, TwinConfigurationPart}"
| "needs (TaskPart asyncPublisherTask) =
     {IoTHubAdapterPart, QueuePart highPriorityEventQueue, QueuePart lowPriorityEventQueue, QueuePart operationalEventsQueue}"
| "needs (TaskPart asyncMonitorTask) = {}"
| "needs (ThreadPart asyncMonitorTask) =
     {DiagnosticEventCollectorPart, TwinConfigurationPart, QueuePart highPriorityEventQueue,
      QueuePart lowPriorityEventQueue, QueuePart operationalEventsQueue}"
| "needs (ThreadPart t) = {TaskPart t}"

text \<open>
  Parts that keep account of how they are used.  The answers of the calls are taken from a list (none left: a
  failure); \<open>misused\<close> collects the parts that were brought up twice or before what they need, and those that were
  taken down without being up, before a part that needs them, or under a running thread.
\<close>

record lifecycle =
  answers :: "bool list"
  up :: "agent_part set"
  running :: "agent_task set"
  misused :: "agent_part set"

definition answered :: "lifecycle \<Rightarrow> bool \<times> lifecycle" where
  "answered g = (case answers g of [] \<Rightarrow> (False, g) | a # as \<Rightarrow> (a, g\<lparr>answers := as\<rparr>))"

definition brought_up :: "agent_part \<Rightarrow> lifecycle \<Rightarrow> bool \<times> lifecycle" where
  "brought_up p g =
     (let (ok, g1) = answered g;
          g2 = g1\<lparr>misused := misused g1 \<union> (if p \<in> up g1 \<or> \<not> needs p \<subseteq> up g1 then {p} else {})\<rparr>
      in (ok, if ok then g2\<lparr>up := insert p (up g2)\<rparr> else g2))"

definition taken_down :: "agent_part \<Rightarrow> lifecycle \<Rightarrow> lifecycle" where
  "taken_down p g =
     g\<lparr>up := up g - {p},
       misused := misused g \<union> (if p \<notin> up g \<or> (\<exists>q\<in>up g. p \<in> needs q) \<or> (\<exists>t\<in>running g. p = ThreadPart t) then {p} else {})\<rparr>"

definition thread_started :: "agent_task \<Rightarrow> lifecycle \<Rightarrow> bool \<times> lifecycle" where
  "thread_started t g =
     (let (ok, g1) = answered g in
      (ok, if ok then g1\<lparr>running := insert t (running g1),
             misused := misused g1 \<union> (if ThreadPart t \<notin> up g1 then {ThreadPart t} else {})\<rparr> else g1))"

definition life_parts :: "lifecycle agent_parts" where
  "life_parts =
     \<lparr>part_init = brought_up, part_deinit = taken_down, set_minimum_severities = id, switch_users = answered,
      set_correlation = id, hub_connect = answered,
      twin_updates_size = (\<lambda>g. let (known, g1) = answered g; (some, g2) = answered g1
         in (if known then Some (if some then 1 else 0) else None, g2)),
      execute_twin_update = id, thread_start = thread_started,
      thread_is_started = (\<lambda>t g. let (a, g1) = answered g in (t \<in> running g \<or> a, g1)),
      thread_stop = (\<lambda>t. id),
      thread_join = (\<lambda>t g. g\<lparr>running := running g - {t}\<rparr>)\<rparr>"

lemma life_parts_simps [simp]:
  "part_init life_parts = brought_up" "part_deinit life_parts = taken_down" "set_minimum_severities life_parts = id"
  "switch_users life_parts = answered" "set_correlation life_parts = id" "hub_connect life_parts = answered"
  "execute_twin_update life_parts = id" "thread_start life_parts = thread_started"
  "thread_is_started life_parts t g = (let (a, g1) = answered g in (t \<in> running g \<or> a, g1))"
  "thread_stop life_parts t = id" "thread_join life_parts t g = g\<lparr>running := running g - {t}\<rparr>"
  by (simp_all add: life_parts_def)

text \<open>The parts an agent counts as initialised.\<close>

fun flagged :: "SecurityAgent \<Rightarrow> agent_part \<Rightarrow> bool" where
  "flagged a LoggerPart = loggerInitiated a"
| "flagged a IoTHubPart = iothubInitiated a"
| "flagged a LocalConfigurationPart = localConfigurationInitiated a"
| "flagged a MemoryMonitorPart = memoryMonitorInitiated a"
| "flagged a TwinConfigurationPart = twinConfigurationInitiated a"
| "flagged a DiagnosticEventCollectorPart = diagnosticEventCollectorInitiated a"
| "flagged a AgentTelemetryProviderPart = False"
| "flagged a IoTHubAdapterPart = iothubAdapterInitiated a"
| "flagged a (QueuePart q) = queueInitiated a q"
| "flagged a (TaskPart t) = taskInitiated a t"
| "flagged a (ThreadPart t) = taskThreadInitiated a t"

abbreviation unflagged :: "agent_part set" where
  "unflagged \<equiv> {AgentTelemetryProviderPart, TaskPart asyncMonitorTask}"

text \<open>The flags tell what is up, and nothing but the telemetry provider was misused; \<open>mon\<close> if the monitor task may be up.\<close>

definition flags_hold :: "bool \<Rightarrow> SecurityAgent \<Rightarrow> lifecycle \<Rightarrow> bool" where
  "flags_hold mon a g \<longleftrightarrow>
     up g - unflagged = {p. flagged a p} \<and> misused g \<subseteq> {AgentTelemetryProviderPart}
     \<and> (\<forall>t\<in>running g. taskThreadInitiated a t) \<and> (TaskPart asyncMonitorTask \<in> up g \<longrightarrow> mon)"

section \<open>Taking down in order\<close>

text \<open>The order in which \<open>Deinit\<close> takes the parts down: every part before the ones it needs.\<close>

fun rank :: "agent_part \<Rightarrow> nat" where
  "rank (ThreadPart asyncPublisherTask) = 0"
| "rank (TaskPart asyncPublisherTask) = 1"
| "rank (ThreadPart asyncMonitorTask) = 2"
| "rank (TaskPart asyncMonitorTask) = 3"
| "rank (ThreadPart asyncUpdateTwinTask) = 4"
| "rank (TaskPart asyncUpdateTwinTask) = 5"
| "rank IoTHubAdapterPart = 6"
| "rank TwinConfigurationPart = 7"
| "rank AgentTelemetryProviderPart = 8"
| "rank DiagnosticEventCollectorPart = 9"
| "rank (QueuePart highPriorityEventQueue) = 10"
| "rank (QueuePart lowPriorityEventQueue) = 11"
| "rank (QueuePart twinUpdatesQueue) = 12"
| "rank (QueuePart operationalEventsQueue) = 13"
| "rank (QueuePart diagnosticEventQueue) = 14"
| "rank MemoryMonitorPart = 15"
| "rank LocalConfigurationPart = 16"
| "rank IoTHubPart = 17"
| "rank LoggerPart = 18"

lemma rank_bound: "rank p < 19"
  by (cases p rule: rank.cases) simp_all

lemma rank_inj: "rank p = rank q \<Longrightarrow> p = q"
  by (cases p rule: rank.cases; cases q rule: rank.cases) simp_all

lemma needs_rank: "p \<in> needs q \<Longrightarrow> rank q < rank p"
  by (cases q rule: rank.cases) auto

definition going_down :: "agent_part set \<Rightarrow> nat \<Rightarrow> lifecycle \<Rightarrow> bool" where
  "going_down F n g \<longleftrightarrow>
     up g - {TaskPart asyncMonitorTask} = {p \<in> F. n \<le> rank p} \<and> misused g \<subseteq> {AgentTelemetryProviderPart}
     \<and> (\<forall>t\<in>running g. ThreadPart t \<in> F \<and> n \<le> rank (ThreadPart t))"

lemma going_downD:
  assumes "going_down F n g"
  shows "up g - {TaskPart asyncMonitorTask} = {p \<in> F. n \<le> rank p}" "misused g \<subseteq> {AgentTelemetryProviderPart}"
    "\<forall>t\<in>running g. ThreadPart t \<in> F \<and> n \<le> rank (ThreadPart t)"
  using assms by (simp_all add: going_down_def)

lemma Suc_rank: "{q \<in> F. Suc (rank p) \<le> rank q} = {q \<in> F. rank p \<le> rank q} - {p}"
  using rank_inj by (auto simp: le_less Suc_le_eq)

lemma taken_down_fields:
  "up (taken_down p g) = up g - {p}" "running (taken_down p g) = running g"
  by (simp_all add: taken_down_def)

lemma taken_down_goes_down:
  assumes g: "going_down F (rank p) g" and p: "p \<in> F" "p \<noteq> TaskPart asyncMonitorTask"
    and idle: "\<forall>t\<in>running g. p \<noteq> ThreadPart t"
  shows "going_down F (Suc (rank p)) (taken_down p g)"
proof -
  note up = going_downD(1)[OF g]
  have iff: "q \<in> up g \<and> q \<noteq> TaskPart asyncMonitorTask \<longleftrightarrow> q \<in> F \<and> rank p \<le> rank q" for q
    using up by (simp add: set_eq_iff)
  have "p \<in> up g" using p iff [of p] by simp
  moreover have "p \<notin> needs q" if "q \<in> up g" for q
  proof (cases "q = TaskPart asyncMonitorTask")
    case False
    then show ?thesis using that iff [of q] needs_rank [of p q] by linarith
  qed simp
  ultimately have "misused (taken_down p g) = misused g"
    using idle by (auto simp: taken_down_def)
  moreover have "Suc (rank p) \<le> rank (ThreadPart t)" if "t \<in> running g" for t
    using that idle going_downD(3)[OF g] rank_inj [of p "ThreadPart t"] by (auto simp: Suc_le_eq le_less)
  moreover have "up (taken_down p g) - {TaskPart asyncMonitorTask} = {q \<in> F. Suc (rank p) \<le> rank q}"
    by (simp add: Suc_rank taken_down_fields flip: up) blast
  ultimately show ?thesis
    using going_downD[OF g] by (simp add: going_down_def taken_down_fields)
qed

lemma absent_goes_down:
  assumes g: "going_down F (rank p) g" and p: "p \<notin> F"
  shows "going_down F (Suc (rank p)) g"
proof -
  have "{q \<in> F. Suc (rank p) \<le> rank q} = {q \<in> F. rank p \<le> rank q}" using p by (auto simp: Suc_rank)
  moreover have "Suc (rank p) \<le> rank (ThreadPart t)" if "t \<in> running g" for t
    using that p going_downD(3)[OF g] rank_inj [of p "ThreadPart t"] by (auto simp: Suc_le_eq le_less)
  ultimately show ?thesis using going_downD[OF g] by (simp add: going_down_def)
qed

lemma deinit_if_goes_down:
  assumes g: "going_down F n g" and n: "n = rank p" and p: "i \<longleftrightarrow> p \<in> F" "i \<Longrightarrow> p \<noteq> TaskPart asyncMonitorTask"
    and idle: "\<And>t. p \<noteq> ThreadPart t"
  shows "going_down F (Suc n) (deinit_if life_parts i p g)"
proof (cases i)
  case True
  then show ?thesis
    using taken_down_goes_down[of F p g] g n p idle by (simp add: deinit_if_def)
next
  case False
  then show ?thesis using absent_goes_down [of F p g] g n p by (simp add: deinit_if_def)
qed

lemma answered_same:
  assumes "answered g = (x, g1)"
  shows "up g1 = up g" "running g1 = running g" "misused g1 = misused g"
  using assms by (auto simp: answered_def split: list.splits)

lemma stop_thread_goes_down:
  assumes g: "going_down F n g" and n: "n = rank (ThreadPart t)" and p: "taskThreadInitiated a t \<longleftrightarrow> ThreadPart t \<in> F"
  shows "going_down F (Suc n) (SecurityAgent_StopAsyncTask life_parts t a g)"
proof (cases "taskThreadInitiated a t")
  case True
  obtain x g1 where g1: "answered g = (x, g1)" by (cases "answered g") auto
  note same = answered_same[OF g1]
  define h where "h = (if t \<in> running g \<or> x then g1\<lparr>running := running g1 - {t}\<rparr> else g1)"
  have "going_down F n h" and "t \<notin> running h"
    using going_downD[OF g] by (auto simp: going_down_def h_def same)
  then have "going_down F (Suc n) (taken_down (ThreadPart t) h)"
    using True p n by (auto intro: taken_down_goes_down)
  moreover have "SecurityAgent_StopAsyncTask life_parts t a g = taken_down (ThreadPart t) h"
    using True g1 by (simp add: SecurityAgent_StopAsyncTask_def h_def)
  ultimately show ?thesis by simp
next
  case False
  then show ?thesis using absent_goes_down[of F "ThreadPart t" g] g n p
    by (simp add: SecurityAgent_StopAsyncTask_def)
qed

lemma stop_task_goes_down:
  assumes g: "going_down F n g" and n: "n = rank (ThreadPart t)" "Suc n = rank (TaskPart t)"
    and a: "taskThreadInitiated a t \<longleftrightarrow> ThreadPart t \<in> F" "taskInitiated a t \<longleftrightarrow> TaskPart t \<in> F"
    and mon: "\<not> taskInitiated a asyncMonitorTask"
  shows "going_down F (Suc (Suc n)) (stop_task life_parts t a g)"
proof -
  have "stop_task life_parts t a g
      = deinit_if life_parts (taskInitiated a t) (TaskPart t) (SecurityAgent_StopAsyncTask life_parts t a g)"
    by (simp add: stop_task_def deinit_if_def)
  moreover have "going_down F (Suc (Suc n)) \<dots>"
    using mon by (intro deinit_if_goes_down stop_thread_goes_down g n a) auto
  ultimately show ?thesis by simp
qed

lemma telemetry_goes_down:
  assumes g: "going_down F 8 g"
  shows "going_down F 9 (taken_down AgentTelemetryProviderPart g)"
proof -
  have "misused (taken_down AgentTelemetryProviderPart g) \<subseteq> {AgentTelemetryProviderPart}"
    using going_downD(2)[OF g] by (auto simp: taken_down_def)
  moreover have "9 \<le> rank (ThreadPart t)" if "t \<in> running g" for t
    using that going_downD(3)[OF g] by (cases t) auto
  moreover have "{q \<in> F. 9 \<le> rank q} = {q \<in> F. 8 \<le> rank q} - {AgentTelemetryProviderPart}"
    using Suc_rank [of F AgentTelemetryProviderPart] by (simp add: eval_nat_numeral)
  then have "up (taken_down AgentTelemetryProviderPart g) - {TaskPart asyncMonitorTask} = {q \<in> F. 9 \<le> rank q}"
    using going_downD(1)[OF g] by (auto simp: taken_down_fields)
  ultimately show ?thesis
    using going_downD[OF g] by (auto simp: going_down_def taken_down_fields)
qed

text \<open>
  \<open>Deinit\<close> takes down every part that is up, each once, before the parts it needs, and no thread while it runs.
  Only the telemetry provider may be taken down without having been brought up.
\<close>

lemma Deinit_takes_all_down:
  assumes g: "flags_hold m a g" and mon: "\<not> taskInitiated a asyncMonitorTask"
  shows "going_down (up g - {TaskPart asyncMonitorTask}) 19 (SecurityAgent_Deinit life_parts a g)"
proof -
  define F where "F = up g - {TaskPart asyncMonitorTask}"
  have F: "p \<in> F \<longleftrightarrow> flagged a p" if "p \<noteq> AgentTelemetryProviderPart" for p
    using g that mon by (cases "p = TaskPart asyncMonitorTask") (auto simp: flags_hold_def F_def set_eq_iff)
  have start: "going_down F 0 g"
    using g F by (auto simp: flags_hold_def going_down_def F_def)
  note stop = stop_task_goes_down [where a = a]
  have s3: "going_down F 6 (stop_task life_parts asyncUpdateTwinTask a
      (stop_task life_parts asyncMonitorTask a (stop_task life_parts asyncPublisherTask a g)))" (is "going_down F 6 ?w3")
    using stop [OF stop [OF stop [OF start]], of asyncPublisherTask asyncMonitorTask asyncUpdateTwinTask] mon
    by (simp add: F eval_nat_numeral)
  have down: "going_down F m (deinit_if life_parts i p h)"
    if "going_down F (rank p) h" "m = Suc (rank p)" "i \<longleftrightarrow> p \<in> F" "\<forall>t. p \<noteq> ThreadPart t \<and> p \<noteq> TaskPart t" for m i p h
    using that deinit_if_goes_down [of F "rank p" h p i] by simp
  have s6: "going_down F 9 (taken_down AgentTelemetryProviderPart
      (deinit_if life_parts (twinConfigurationInitiated a) TwinConfigurationPart
        (deinit_if life_parts (iothubAdapterInitiated a) IoTHubAdapterPart ?w3)))" (is "going_down F 9 ?w6")
    by (rule telemetry_goes_down, rule down, rule down) (use s3 in \<open>simp_all add: F\<close>)
  have queue: "SecurityAgent_DeinitQueue life_parts q a = deinit_if life_parts (queueInitiated a q) (QueuePart q)" for q
    by (simp add: fun_eq_iff SecurityAgent_DeinitQueue_def deinit_if_def)
  show ?thesis
    unfolding SecurityAgent_Deinit_def Let_def queue life_parts_simps
    by (fold F_def, rule down, rule down, rule down, rule down, rule down,
        rule down, rule down, rule down, rule down, rule down) (use s6 in \<open>simp_all add: F\<close>)
qed

lemma down_and_out:
  assumes "going_down F 19 g"
  shows "up g \<subseteq> {TaskPart asyncMonitorTask}" "misused g \<subseteq> {AgentTelemetryProviderPart}" "running g = {}"
proof -
  have "\<not> 19 \<le> rank p" for p using rank_bound [of p] by simp
  then show "up g \<subseteq> {TaskPart asyncMonitorTask}" "misused g \<subseteq> {AgentTelemetryProviderPart}" "running g = {}"
    using going_downD[OF assms] by auto
qed

section \<open>Bringing up in order\<close>

lemma flags_holdD:
  assumes "flags_hold m a g" "p \<notin> unflagged"
  shows "p \<in> up g \<longleftrightarrow> flagged a p"
  using assms by (auto simp: flags_hold_def set_eq_iff)

lemma flags_hold_answered:
  "answered g = (x, g1) \<Longrightarrow> flags_hold m a g \<Longrightarrow> flags_hold m a g1"
  by (simp add: flags_hold_def answered_same)

text \<open>Bringing up a part whose flag is down, with the flags of what it needs up.\<close>

lemma brought_up_flags:
  assumes g: "flags_hold m a g" and run: "brought_up p g = (ok, g1)"
    and p: "p \<notin> unflagged" "\<not> flagged a p" "\<forall>q\<in>needs p. flagged a q"
    and a': "ok \<Longrightarrow> (\<forall>q. flagged a' q \<longleftrightarrow> q = p \<or> flagged a q)" "\<not> ok \<Longrightarrow> a' = a"
  shows "flags_hold m a' g1"
proof -
  obtain g0 where g0: "answered g = (ok, g0)"
    using run by (cases "answered g") (auto simp: brought_up_def Let_def)
  note same = answered_same[OF g0]
  have "needs p \<inter> unflagged = {}" by (cases p rule: rank.cases) (use p in auto)
  then have "needs p \<subseteq> up g" using p flags_holdD[OF g] by blast
  then have fine: "\<not> (p \<in> up g0 \<or> \<not> needs p \<subseteq> up g0)" using p flags_holdD[OF g] same by simp
  have g1: "g1 = (if ok then g0\<lparr>up := insert p (up g0)\<rparr> else g0)"
    using run g0 fine by (auto simp: brought_up_def Let_def)
  note h = flags_hold_answered[OF g0 g]
  show ?thesis
  proof (cases ok)
    case True
    then have flags: "flagged a' q \<longleftrightarrow> q = p \<or> flagged a q" for q using a' by blast
    have "taskThreadInitiated a t \<Longrightarrow> taskThreadInitiated a' t" for t
      using flags [of "ThreadPart t"] by simp
    moreover have "insert p (up g0) - unflagged = {q. flagged a' q}"
      using h p by (auto simp: flags_hold_def flags)
    ultimately show ?thesis using True h p by (auto simp: flags_hold_def g1)
  next
    case False
    then show ?thesis using h a' g1 by simp
  qed
qed

lemma telemetry_up_flags:
  assumes g: "flags_hold m a g" and run: "brought_up AgentTelemetryProviderPart g = (ok, g1)"
  shows "flags_hold m a g1"
proof -
  obtain g0 where g0: "answered g = (ok, g0)"
    using run by (cases "answered g") (auto simp: brought_up_def Let_def)
  show ?thesis
    using run g0 flags_hold_answered[OF g0 g] by (auto simp: brought_up_def Let_def flags_hold_def split: if_splits)
qed

lemma monitor_up_flags:
  assumes g: "flags_hold False a g" and run: "brought_up (TaskPart asyncMonitorTask) g = (ok, g1)"
  shows "flags_hold True a g1"
proof -
  obtain g0 where g0: "answered g = (ok, g0)"
    using run by (cases "answered g") (auto simp: brought_up_def Let_def)
  show ?thesis
    using run g0 flags_hold_answered[OF g0 g] by (auto simp: brought_up_def Let_def flags_hold_def split: if_splits)
qed

text \<open>\<open>Init\<close> and \<open>Start\<close> are each one sequence of steps that ends at the first failure.\<close>

definition part_step :: "'w agent_parts \<Rightarrow> agent_part \<Rightarrow> (SecurityAgent \<Rightarrow> SecurityAgent) \<Rightarrow> 'w init_step" where
  "part_step P p mark = (part_init P p, mark)"

abbreviation "mark_queue q \<equiv> queueInitiated_update (\<lambda>f. f(q := True))"
abbreviation "mark_task t \<equiv> taskInitiated_update (\<lambda>f. f(t := True))"
abbreviation "mark_thread t \<equiv> taskThreadInitiated_update (\<lambda>f. f(t := True))"

lemma marks:
  "a\<lparr>queueInitiated := (queueInitiated a)(q := True)\<rparr> = mark_queue q a"
  "a\<lparr>taskInitiated := (taskInitiated a)(t := True)\<rparr> = mark_task t a"
  "a\<lparr>taskThreadInitiated := (taskThreadInitiated a)(t := True)\<rparr> = mark_thread t a"
  by (cases a; simp)+

definition start_steps :: "'w agent_parts \<Rightarrow> 'w init_step list" where
  "start_steps P =
     [part_step P (TaskPart asyncUpdateTwinTask) (mark_task asyncUpdateTwinTask),
      (SecurityAgent_ConnectAndUpdateConfiguration P, \<lambda>a. a),
      part_step P (TaskPart asyncPublisherTask) (mark_task asyncPublisherTask),
      part_step P (ThreadPart asyncPublisherTask) (mark_thread asyncPublisherTask),
      (thread_start P asyncPublisherTask, \<lambda>a. a),
      part_step P (TaskPart asyncMonitorTask) (\<lambda>a. a),
      part_step P (ThreadPart asyncMonitorTask) (mark_thread asyncMonitorTask),
      (thread_start P asyncMonitorTask, \<lambda>a. a),
      part_step P (ThreadPart asyncUpdateTwinTask) (mark_thread asyncUpdateTwinTask),
      (thread_start P asyncUpdateTwinTask, \<lambda>a. a)]"

lemma init_steps_append:
  "init_steps (xs @ ys) a w =
     (let ((ok, a1), w1) = init_steps xs a w in if ok then init_steps ys a1 w1 else ((False, a1), w1))"
  by (induction xs arbitrary: a w) (auto split: prod.split)

lemma init_queues_steps:
  "init_queues P qs a w = init_steps (map (\<lambda>q. part_step P (QueuePart q) (mark_queue q)) qs) a w"
  by (induction qs arbitrary: a w) (auto simp: SecurityAgent_InitQueue_def part_step_def marks split: prod.split)

definition queue_steps :: "'w agent_parts \<Rightarrow> 'w init_step list" where
  "queue_steps P =
     map (\<lambda>q. part_step P (QueuePart q) (mark_queue q))
       [diagnosticEventQueue, operationalEventsQueue, highPriorityEventQueue, lowPriorityEventQueue, twinUpdatesQueue]"

definition bring_up_steps :: "'w agent_parts \<Rightarrow> 'w init_step list" where
  "bring_up_steps P = early_steps P @ queue_steps P @ late_steps P"

lemma Init_steps:
  "SecurityAgent_Init P w =
     (let ((ok, a), w1) = init_steps (bring_up_steps P) zero_agent w
      in ((ok, a), if \<not> ok then SecurityAgent_Deinit P a w1 else w1))"
proof -
  have "SecurityAgent_InitAllQueues P a w1 = init_steps (queue_steps P) a w1" for a w1
    by (simp only: SecurityAgent_InitAllQueues_def init_queues_steps queue_steps_def)
  then show ?thesis
    by (simp add: SecurityAgent_Init_def bring_up_steps_def init_steps_append Let_def split: prod.split)
qed

lemma Start_steps:
  "SecurityAgent_Start P a w = init_steps (start_steps P) a w"
  by (simp add: SecurityAgent_Start_def SecurityAgent_StartAsyncTask_def init_task_def start_steps_def part_step_def marks
      Let_def split: prod.split)

text \<open>A step that keeps the flags true, and sequences of such steps.\<close>

definition keeps :: "bool \<Rightarrow> bool \<Rightarrow> SecurityAgent \<Rightarrow> lifecycle init_step \<Rightarrow> bool" where
  "keeps m m' a s \<longleftrightarrow>
     (\<forall>g ok g1. flags_hold m a g \<longrightarrow> fst s g = (ok, g1) \<longrightarrow> flags_hold m' (if ok then snd s a else a) g1)"

inductive orderly :: "bool \<Rightarrow> bool \<Rightarrow> SecurityAgent \<Rightarrow> lifecycle init_step list \<Rightarrow> bool" where
  orderly_Nil: "orderly m m a []"
| orderly_Cons: "keeps m m' a s \<Longrightarrow> orderly m' n (snd s a) steps \<Longrightarrow> orderly m n a (s # steps)"

lemma orderly_keeps:
  assumes "orderly m n a steps" "flags_hold m a g" "init_steps steps a g = ((ok, a'), g')"
  shows "\<exists>m'. flags_hold m' a' g' \<and> (ok \<longrightarrow> m' = n)"
  using assms
proof (induction arbitrary: g rule: orderly.induct)
  case (orderly_Cons m m' a s n steps)
  obtain call mark where s: "s = (call, mark)" by fastforce
  obtain ok1 g1 where run: "call g = (ok1, g1)" by fastforce
  have kept: "flags_hold m' (if ok1 then mark a else a) g1"
    using orderly_Cons.hyps(1) orderly_Cons.prems(1) run unfolding keeps_def s fst_conv snd_conv by blast
  show ?case
    using kept orderly_Cons.prems(2) orderly_Cons.IH [of g1] run by (cases ok1) (auto simp: s)
qed auto

lemma orderly_done:
  assumes "init_steps steps a g = ((True, a'), g')"
  shows "a' = fold snd steps a"
  using assms by (induction steps arbitrary: a g) (auto split: prod.splits if_splits)

lemma flagged_marks [simp]:
  "flagged (loggerInitiated_update (\<lambda>_. True) a) q \<longleftrightarrow> q = LoggerPart \<or> flagged a q"
  "flagged (iothubInitiated_update (\<lambda>_. True) a) q \<longleftrightarrow> q = IoTHubPart \<or> flagged a q"
  "flagged (localConfigurationInitiated_update (\<lambda>_. True) a) q \<longleftrightarrow> q = LocalConfigurationPart \<or> flagged a q"
  "flagged (memoryMonitorInitiated_update (\<lambda>_. True) a) q \<longleftrightarrow> q = MemoryMonitorPart \<or> flagged a q"
  "flagged (twinConfigurationInitiated_update (\<lambda>_. True) a) q \<longleftrightarrow> q = TwinConfigurationPart \<or> flagged a q"
  "flagged (diagnosticEventCollectorInitiated_update (\<lambda>_. True) a) q \<longleftrightarrow> q = DiagnosticEventCollectorPart \<or> flagged a q"
  "flagged (iothubAdapterInitiated_update (\<lambda>_. True) a) q \<longleftrightarrow> q = IoTHubAdapterPart \<or> flagged a q"
  "flagged (mark_queue r a) q \<longleftrightarrow> q = QueuePart r \<or> flagged a q"
  "flagged (mark_task t a) q \<longleftrightarrow> q = TaskPart t \<or> flagged a q"
  "flagged (mark_thread t a) q \<longleftrightarrow> q = ThreadPart t \<or> flagged a q"
  by (cases q; auto)+

lemma flagged_zero [simp]: "\<not> flagged zero_agent q"
  by (cases q) (simp_all add: zero_agent_def)

lemma part_step_keeps:
  assumes "p \<notin> unflagged" "\<not> flagged a p" "\<forall>q\<in>needs p. flagged a q" "\<forall>a q. flagged (mark a) q \<longleftrightarrow> q = p \<or> flagged a q"
  shows "keeps m m a (part_step life_parts p mark)" "keeps m m a (brought_up p, mark)"
  using brought_up_flags [of m a _ p _ _ "mark a"] brought_up_flags [of m a _ p False _ a] assms
  by (auto simp: keeps_def part_step_def)

lemma answered_keeps: "keeps m m a (answered, \<lambda>a. a)"
  by (auto simp: keeps_def flags_hold_answered)

lemma connect_keeps:
  "keeps m m a (SecurityAgent_ConnectAndUpdateConfiguration life_parts, \<lambda>a. a)"
proof -
  have "flags_hold m a g1"
    if "flags_hold m a g" "SecurityAgent_ConnectAndUpdateConfiguration life_parts g = (ok, g1)" for g ok g1
    using that by (auto simp: SecurityAgent_ConnectAndUpdateConfiguration_def life_parts_def Let_def
        dest: flags_hold_answered split: prod.splits if_splits option.splits)
  then show ?thesis by (simp add: keeps_def)
qed

lemma thread_start_keeps:
  assumes "taskThreadInitiated a t"
  shows "keeps m m a (thread_started t, \<lambda>a. a)"
proof -
  have "flags_hold m a g1" if g: "flags_hold m a g" and run: "thread_started t g = (ok, g1)" for g ok g1
  proof -
    obtain g0 where g0: "answered g = (ok, g0)"
      using run by (cases "answered g") (auto simp: thread_started_def Let_def)
    note h = flags_hold_answered[OF g0 g]
    have "ThreadPart t \<in> up g0" using flags_holdD[OF h, of "ThreadPart t"] assms by simp
    then have "g1 = (if ok then g0\<lparr>running := insert t (running g0)\<rparr> else g0)"
      using run g0 by (auto simp: thread_started_def Let_def)
    then show ?thesis using h assms by (simp add: flags_hold_def)
  qed
  then show ?thesis by (simp add: keeps_def)
qed

lemma telemetry_keeps: "keeps m m a (brought_up AgentTelemetryProviderPart, \<lambda>a. a)"
  using telemetry_up_flags by (auto simp: keeps_def)

lemma monitor_keeps: "keeps False True a (part_step life_parts (TaskPart asyncMonitorTask) (\<lambda>a. a))"
  using monitor_up_flags by (auto simp: keeps_def part_step_def)

lemmas step_keeps =
  part_step_keeps answered_keeps connect_keeps thread_start_keeps telemetry_keeps monitor_keeps

lemma bring_up_orderly: "orderly False False zero_agent (bring_up_steps life_parts)"
  unfolding bring_up_steps_def early_steps_def late_steps_def queue_steps_def append.simps list.map life_parts_simps id_apply
  by (rule orderly_Nil orderly_Cons step_keeps | (simp add: part_step_def zero_agent_def; fail))+

lemma start_orderly:
  assumes "SecurityAgent_Init life_parts g = ((True, a), g')"
  shows "orderly False True a (start_steps life_parts)"
proof -
  have "a = fold snd (bring_up_steps life_parts) zero_agent"
    using assms orderly_done by (auto simp: Init_steps split: prod.splits)
  then have a: "\<forall>p. flagged a p \<longleftrightarrow> (\<forall>t. p \<noteq> TaskPart t \<and> p \<noteq> ThreadPart t) \<and> p \<noteq> AgentTelemetryProviderPart"
    by (intro allI, case_tac p rule: rank.cases)
      (simp_all add: bring_up_steps_def early_steps_def queue_steps_def late_steps_def part_step_def zero_agent_def)
  note fields = a [THEN spec, of "TaskPart _", simplified] a [THEN spec, of "ThreadPart _", simplified]
    a [THEN spec, of "QueuePart _", simplified] a [THEN spec, of IoTHubAdapterPart, simplified]
    a [THEN spec, of TwinConfigurationPart, simplified] a [THEN spec, of DiagnosticEventCollectorPart, simplified]
  show ?thesis
    unfolding start_steps_def life_parts_simps
    by (rule orderly_Nil orderly_Cons step_keeps | (simp add: fields part_step_def; fail))+
qed

lemma monitor_unmarked:
  assumes "init_steps steps a g = ((ok, a'), g')"
    and "\<forall>s\<in>set steps. \<forall>a. taskInitiated (snd s a) asyncMonitorTask = taskInitiated a asyncMonitorTask"
  shows "taskInitiated a' asyncMonitorTask = taskInitiated a asyncMonitorTask"
  using assms by (induction steps arbitrary: a g) (auto split: prod.splits if_splits)

lemma bring_up_monitor:
  "\<forall>s\<in>set (bring_up_steps P). \<forall>a. taskInitiated (snd s a) asyncMonitorTask = taskInitiated a asyncMonitorTask"
  "\<forall>s\<in>set (start_steps P). \<forall>a. taskInitiated (snd s a) asyncMonitorTask = taskInitiated a asyncMonitorTask"
  by (simp_all add: bring_up_steps_def early_steps_def queue_steps_def late_steps_def start_steps_def part_step_def)

definition all_down :: "lifecycle \<Rightarrow> bool" where
  "all_down g \<longleftrightarrow>
     up g \<subseteq> {TaskPart asyncMonitorTask} \<and> misused g \<subseteq> {AgentTelemetryProviderPart} \<and> running g = {}"

lemma Deinit_all_down:
  assumes "flags_hold m a g" "\<not> taskInitiated a asyncMonitorTask"
  shows "all_down (SecurityAgent_Deinit life_parts a g)"
  using down_and_out [OF Deinit_takes_all_down [OF assms]] by (simp add: all_down_def)

lemma Init_flags:
  assumes run: "SecurityAgent_Init life_parts g = ((ok, a), g')"
    and g: "up g = {}" "running g = {}" "misused g = {}"
  shows "if ok then flags_hold False a g' \<and> \<not> taskInitiated a asyncMonitorTask else all_down g'"
proof -
  obtain w1 where steps: "init_steps (bring_up_steps life_parts) zero_agent g = ((ok, a), w1)"
    and g': "g' = (if \<not> ok then SecurityAgent_Deinit life_parts a w1 else w1)"
    using run by (auto simp: Init_steps split: prod.splits)
  have "flags_hold False zero_agent g"
    using g by (simp add: flags_hold_def)
  then obtain m where m: "flags_hold m a w1" "ok \<Longrightarrow> m = False"
    using orderly_keeps [OF bring_up_orderly _ steps] by blast
  have "\<not> taskInitiated a asyncMonitorTask"
    using monitor_unmarked [OF steps bring_up_monitor(1)] by (simp add: zero_agent_def)
  then show ?thesis
    using m Deinit_all_down g' by auto
qed


text \<open>When the logger cannot be initialised, the telemetry provider is taken down without having been brought up.\<close>

lemma Deinit_zero_agent: "SecurityAgent_Deinit P zero_agent w = part_deinit P AgentTelemetryProviderPart w"
  by (simp add: SecurityAgent_Deinit_def stop_task_def deinit_if_def SecurityAgent_DeinitQueue_def
      SecurityAgent_StopAsyncTask_def zero_agent_def)

lemma telemetry_without_init:
  "misused (agent_main life_parts \<lparr>answers = [], up = {}, running = {}, misused = {}\<rparr>) = {AgentTelemetryProviderPart}"
proof -
  have "SecurityAgent_Init life_parts g = ((False, zero_agent), taken_down AgentTelemetryProviderPart g)"
    if "answers g = []" "up g = {}" for g
    using that by (simp add: SecurityAgent_Init_def early_steps_def brought_up_def answered_def Deinit_zero_agent)
  then show ?thesis by (simp add: agent_main_def taken_down_def)
qed

end
