(* ===== verification/Linux_Process.thy ===== *)
theory Linux_Process
  imports Event_Monitor_Task
begin

text \<open>
  What the collectors of a Linux device share: the agent's user, \<^verbatim>\<open>os_utils/linux/process_info_handler.c\<close>, the output
  of commands, \<^verbatim>\<open>os_utils/linux/process_utils.c\<close>, the last helpers of \<^verbatim>\<open>utils.c\<close>, and the proof that a periodic
  collector keeps the contract of the monitor.
\<close>

text \<open>The real and the effective user of the process; 0 is root.\<close>

record 'h linux_env = "'h diagnostic_env" +
  realUid :: int
  effectiveUid :: int

section \<open>Users\<close>

record ProcessInfo =
  savedUid :: int
  wasSet :: bool

definition ProcessInfoHandler_SwitchRealAndEffectiveUsers :: "('h, 'a) linux_env_scheme \<Rightarrow> bool \<times> ('h, 'a) linux_env_scheme" where
  "ProcessInfoHandler_SwitchRealAndEffectiveUsers w =
     (let (ok, w1) = sys_ext w in
      if \<not> ok then (False, w1) else (True, w1\<lparr>realUid := effectiveUid w1, effectiveUid := realUid w1\<rparr>))"

definition seteuid :: "int \<Rightarrow> ('h, 'a) linux_env_scheme \<Rightarrow> bool \<times> ('h, 'a) linux_env_scheme" where
  "seteuid uid w = (let (ok, w1) = sys_ext w in if \<not> ok then (False, w1) else (True, w1\<lparr>effectiveUid := uid\<rparr>))"

definition ProcessInfoHandler_ChangeToRoot ::
  "('h, 'a) linux_env_scheme \<Rightarrow> (bool \<times> ProcessInfo) \<times> ('h, 'a) linux_env_scheme" where
  "ProcessInfoHandler_ChangeToRoot w =
     (let processInfo = \<lparr>savedUid = effectiveUid w, wasSet = False\<rparr> in
      if savedUid processInfo = 0 then ((True, processInfo), w)
      else let (ok, w1) = seteuid 0 w in
        if \<not> ok then ((False, processInfo), w1) else ((True, processInfo\<lparr>wasSet := True\<rparr>), w1))"

definition ProcessInfoHandler_Reset :: "ProcessInfo \<Rightarrow> ('h, 'a) linux_env_scheme \<Rightarrow> bool \<times> ('h, 'a) linux_env_scheme" where
  "ProcessInfoHandler_Reset processInfo w =
     (if \<not> wasSet processInfo then (True, w) else seteuid (savedUid processInfo) w)"

text \<open>
  Work done as root; the result of the reset is not looked at.  \<open>e\<close> is the result when the agent cannot
  become root.
\<close>

definition as_root ::
  "'x \<Rightarrow> (('h, 'a) linux_env_scheme \<Rightarrow> 'x \<times> ('h, 'a) linux_env_scheme) \<Rightarrow> ('h, 'a) linux_env_scheme \<Rightarrow> 'x \<times> ('h, 'a) linux_env_scheme" where
  "as_root e body w =
     (let ((ok, info), w1) = ProcessInfoHandler_ChangeToRoot w in
      if \<not> ok then (e, w1)
      else let (x, w2) = body w1 in (x, snd (ProcessInfoHandler_Reset info w2)))"

section \<open>Commands\<close>

text \<open>
  The environment answers whether \<open>popen\<close> works, what the command prints (\<open>None\<close>: reading fails) and its
  exit status.  An output of the size of the buffer is refused: the end of the stream has not been seen yet.
\<close>

definition ProcessUtils_Execute :: "string \<Rightarrow> u32 \<Rightarrow> 'a env_scheme \<Rightarrow> (bool \<times> string) \<times> 'a env_scheme" where
  "ProcessUtils_Execute command outputSize w =
     (let (opened, w1) = sys_ext w in
      if \<not> opened then ((False, []), w1)
      else
        let (answer, w2) = sys_bytes w1;
            (read, text) = (case answer of
               None \<Rightarrow> (False, [])
             | Some s \<Rightarrow> (length s < unat outputSize, take (unat outputSize) s));
            (closeResult, w3) = sys_int w2
        in ((read \<and> closeResult = 0, text), w3))"

section \<open>Formatting into fresh memory\<close>

text \<open>The text is the format with its arguments filled in; \<open>None\<close> is a NULL format.\<close>

definition Utils_StringFormat :: "string option \<Rightarrow> 'a env_scheme \<Rightarrow> (ActionResult \<times> string option) \<times> 'a env_scheme" where
  "Utils_StringFormat str w =
     (case str of
        None \<Rightarrow> ((ACTION_FAILED, None), w)
      | Some s \<Rightarrow> (let (ok, w1) = sys_malloc w in
          if \<not> ok then ((ACTION_MEMORY_EXCEPTION, None), w1) else ((ACTION_OK, Some s), w1)))"

section \<open>Steps that leave the queues, the diagnostic events and the user alone\<close>

text \<open>The user may stay root when a call fails that should change it back.\<close>

definition user_kept :: "('h, 'a) linux_env_scheme \<Rightarrow> ('h, 'a) linux_env_scheme \<Rightarrow> bool" where
  "user_kept w w' \<longleftrightarrow> extOk w' = extOk w \<and> effectiveUid w' \<in> {effectiveUid w, 0}
     \<and> ((\<forall>n. extOk w n) \<longrightarrow> effectiveUid w' = effectiveUid w)"

lemma user_kept_refl [simp]: "user_kept w w"
  by (simp add: user_kept_def)

lemma user_kept_trans: "user_kept w w1 \<Longrightarrow> user_kept w1 w2 \<Longrightarrow> user_kept w w2"
  by (auto simp: user_kept_def)

lemma stable_user: "stable (user_kept w)"
  unfolding stable_def
  by (intro allI impI, elim disjE) (auto simp: user_kept_def doc_frame_def queued_def reported_def twin_footprint_def)

definition apart :: "('h \<Rightarrow> 'v set) \<Rightarrow> ('h, 'a) linux_env_scheme \<Rightarrow> ('h, 'a) linux_env_scheme \<Rightarrow> bool" where
  "apart roots w w' \<longleftrightarrow> aside roots w w' \<and> diagnostics_kept w w' \<and> user_kept w w'"

lemma diagnostics_kept_trans: "diagnostics_kept w w1 \<Longrightarrow> diagnostics_kept w1 w2 \<Longrightarrow> diagnostics_kept w w2"
  by (simp add: diagnostics_kept_simps)

lemma apart_refl [simp]: "apart roots w w"
  by (simp add: apart_def diagnostics_kept_simps)

lemma apart_trans [trans]: "apart roots w w1 \<Longrightarrow> apart roots w1 w2 \<Longrightarrow> apart roots w w2"
  unfolding apart_def using aside_trans diagnostics_kept_trans user_kept_trans by blast

lemma clean_apart: "clean roots w w' \<Longrightarrow> apart roots w w'"
  using clean_aside [of roots w w'] stableD(1) [OF stable_diagnostics, of w w w'] stableD(1) [OF stable_user, of w w w']
  by (simp add: apart_def clean_def diagnostics_kept_simps)

lemma ticked_apart: "ticked w w' \<Longrightarrow> apart roots w w'"
  using clean_apart ticked_clean by blast

lemma apart_next [simp]: "apart roots w (next_tick w)"
  by (rule ticked_apart) simp

text \<open>Another effective user is still apart from the queues.\<close>

lemma seteuid_frame:
  fixes w :: "('h, 'a) linux_env_scheme"
  shows "aside roots w (snd (seteuid u w))" "diagnostics_kept w (snd (seteuid u w))"
    "extOk (snd (seteuid u w)) = extOk w" "fst (seteuid u w) = extOk w (tick w)"
    "effectiveUid (snd (seteuid u w)) = (if extOk w (tick w) then u else effectiveUid w)"
  by (auto simp: seteuid_def sys_defs Let_def aside_def diagnostics_kept_simps)

lemma apart_root:
  fixes w :: "('h, 'a) linux_env_scheme"
  assumes "\<And>w. apart roots w (snd (body w))"
  shows "apart roots w (snd (as_root e body w))"
proof (cases "effectiveUid w = 0")
  case True
  then show ?thesis using assms [of w]
    by (simp add: as_root_def ProcessInfoHandler_ChangeToRoot_def ProcessInfoHandler_Reset_def Let_def split_beta)
next
  case False
  define w1 where "w1 = snd (seteuid 0 w)"
  define w2 where "w2 = snd (body w1)"
  define w3 where "w3 = snd (seteuid (effectiveUid w) w2)"
  have w': "snd (as_root e body w) = (if extOk w (tick w) then w3 else w1)"
    using False
    by (simp add: as_root_def ProcessInfoHandler_ChangeToRoot_def ProcessInfoHandler_Reset_def Let_def split_beta seteuid_frame(4)
        w1_def w2_def w3_def)
  have b: "apart roots w1 w2" unfolding w2_def by (rule assms)
  note f = seteuid_frame [where w = w and u = 0, folded w1_def] seteuid_frame [where w = w2 and u = "effectiveUid w", folded w3_def]
  have a: "aside roots w w1" "aside roots w2 w3" unfolding w1_def w3_def by (rule seteuid_frame(1))+
  have "aside roots w w3" "diagnostics_kept w w3"
    using b a f(2,7) aside_trans diagnostics_kept_trans unfolding apart_def by blast+
  moreover have "user_kept w w3" if "extOk w (tick w)"
    using b f(3,5,8,10) that by (auto simp: apart_def user_kept_def)
  moreover have "user_kept w w1" if "\<not> extOk w (tick w)" using f(3,5) that by (simp add: user_kept_def)
  ultimately show ?thesis using a(1) f(2) by (simp add: w' apart_def)
qed

lemma apart_steps:
  assumes "\<And>f w. f \<in> set fs \<Longrightarrow> apart roots w (snd (f w))"
  shows "apart roots w (snd (event_steps fs w))"
  using assms
proof (induction fs arbitrary: w)
  case (Cons f fs)
  have "apart roots w (snd (f w))" by (simp add: Cons.prems)
  moreover have "apart roots (snd (f w)) (snd (event_steps fs (snd (f w))))" by (rule Cons.IH) (simp add: Cons.prems)
  ultimately show ?case using apart_trans by (auto simp: Let_def split_beta)
qed simp

lemma apart_StringFormat: "apart roots w (snd (Utils_StringFormat s w))"
  by (auto simp: Utils_StringFormat_def Let_def split_beta split: option.split)

lemma clean_copies:
  "clean roots w (snd (Utils_CreateStringCopy s w))" "clean roots w (snd (Utils_DuplicateString s w))"
  by (auto simp: Utils_CreateStringCopy_def Utils_DuplicateString_def Let_def split_beta split: option.split)

lemma clean_Execute: "clean roots w (snd (ProcessUtils_Execute command n w))"
  using clean_trans [OF clean_trans [OF clean_next clean_next] clean_next]
  by (auto simp: ProcessUtils_Execute_def Let_def split_beta)

section \<open>Periodic collectors keep the contract\<close>

lemma periodic_collector:
  fixes fill :: "('v, 'r) JsonArrayWriter \<Rightarrow> ('h, 'a) linux_env_scheme \<Rightarrow> EventCollectorResult \<times> ('h, 'a) linux_env_scheme"
  assumes fill: "\<And>arr w. parson_lists D roots \<Longrightarrow> apart roots w (snd (fill arr w))"
  shows "event_collector (collect_event D dropOk (\<lambda>ev. GenericEvent_AddMetadata D ev category name ty version) fill)
    (collectors_ready d N) D roots L (N + 2) (- {d})"
proof
  show "collectors_ready d N sqs w'" if "collectors_ready d N sqs w" "settings_read w w'"
    for sqs and w w' :: "('h, 'a) linux_env_scheme"
    using ready_reading [OF that] .
  fix sqs sqs' i r and w w' :: "('h, 'a) linux_env_scheme"
  assume D: "parson_lists D roots" "texts_within D L" and ready: "collectors_ready d N sqs w" and ok: "sync_queues_ok sqs w"
    and i: "i \<in> - {d}" "i < length sqs" and room: "booked_bytes w + (N + 2) * (L + 40) < 4294967296"
    and run: "collect_event D dropOk (\<lambda>ev. GenericEvent_AddMetadata D ev category name ty version) fill i sqs w = ((r, sqs'), w')"
  have start: "diagnostics_kept w w" by (simp add: diagnostics_kept_simps)
  have room1: "booked_bytes w + (L + 40) < 4294967296" using room by (simp add: add_mult_distrib)
  have step: "aside roots v (snd (fill arr v)) \<and> diagnostics_kept w (snd (fill arr v))" if "diagnostics_kept w v" for arr v
    using fill [OF D(1), of v arr] diagnostics_kept_trans [OF that] by (simp add: apart_def)
  from dated_event_gained [OF D stable_diagnostics start room1 ok i(2) step run]
  show "collectors_ready d N sqs' w' \<and> events_collected roots L (- {d}) (N + 2) sqs w sqs' w'"
    using gained_ready [OF _ ready] i(1) by fastforce
qed

section \<open>Collectors give root back\<close>

lemma collector_keeps_user:
  fixes w :: "('h, 'a) linux_env_scheme"
  assumes D: "parson_lists D roots" "texts_within D L" and ok: "sync_queues_ok sqs w" "i < length sqs"
    and room: "booked_bytes w + (L + 40) < 4294967296"
    and fill: "\<And>arr w. apart roots w (snd (fill arr w))"
    and run: "collect_event D dropOk (\<lambda>ev. GenericEvent_AddMetadata D ev category name ty version) fill i sqs w = ((r, sqs'), w')"
  shows "user_kept w w'"
proof -
  have step: "aside roots v (snd (fill arr v)) \<and> user_kept w (snd (fill arr v))" if "user_kept w v" for arr v
    using fill [of v arr] user_kept_trans [OF that] by (simp add: apart_def)
  from dated_event_gained [OF D stable_user user_kept_refl room ok step run] show ?thesis by blast
qed

text \<open>A collector pushes nothing unless its filling succeeds.\<close>

lemma collector_filled:
  fixes w :: "('h, 'a) linux_env_scheme"
  assumes D: "parson_lists D roots" and P: "P w" "\<And>v v'. P v \<Longrightarrow> doc_frame v v' \<Longrightarrow> P v'" "\<And>arr v. P v \<Longrightarrow> P (snd (fill arr v))"
    and run: "collect_event D dropOk (\<lambda>ev. GenericEvent_AddMetadata D ev category name ty version) fill i sqs w = ((r, sqs'), w')"
  obtains (filled) arr v where "P v" "fst (fill arr v) = EVENT_COLLECTOR_OK"
  | (lost) "r \<noteq> EVENT_COLLECTOR_OK" "sqs' = sqs" "P w'"
proof -
  let ?fill = "\<lambda>payload w. let (r, w1) = fill payload w in ((r, ()), w1)"
  obtain y where "collect_event_with D dropOk (\<lambda>ev. GenericEvent_AddMetadata D ev category name ty version) ?fill () i sqs w
      = (((r, sqs'), y), w')"
    using run by (auto simp: collect_event_def Let_def split: prod.splits)
  note with_run = this [unfolded collect_event_with_def]
  from D with_run show thesis
  proof (cases rule: with_object_cases)
    case failed
    then show thesis using P(1,2) by (intro lost) (auto simp: clean_def)
  next
    case (made ev ev' w1 w2)
    have end1: "P w'" if "P w2" by (unfold made(6)) (rule P(2) [OF that Deinit_frame])
    obtain m w3 where meta: "GenericEvent_AddMetadata D ev category name ty version w1 = (m, w3)" by fastforce
    have "clean roots w1 w3" using clean_metadata(2) [OF D, of w1 ev category name ty version] by (simp add: meta)
    then have P3: "P w3" using P(2) [OF P(2) [OF P(1) made(1)]] by (simp add: clean_def)
    show thesis
    proof (cases "m = EVENT_COLLECTOR_OK")
      case False
      then have "r = m" "sqs' = sqs" "w2 = w3" using made(5) by (simp_all add: meta)
      with False P3 end1 show thesis by (intro lost) simp_all
    next
      case True
      with made(5) have inner: "with_array D ((EVENT_COLLECTOR_EXCEPTION, sqs), ())
          (\<lambda>payload w. let ((r, y), w1) = ?fill payload w in
             if r \<noteq> EVENT_COLLECTOR_OK then ((((r, sqs), y), payload), w1)
             else
               let ((r2, payload'), w2) = GenericEvent_AddPayload D ev payload w1 in
               if r2 \<noteq> EVENT_COLLECTOR_OK then ((((r2, sqs), y), payload'), w2)
               else let (z, w3) = push_event D dropOk i sqs ev w2 in (((z, y), payload'), w3)) w3
          = (((r, sqs'), y), w2)"
        by (auto simp: meta Let_def split: prod.splits)
      from D inner show thesis
      proof (cases rule: with_array_cases)
        case failed
        with P3 P(2) end1 show thesis by (intro lost) (auto simp: clean_def)
      next
        case (made arr arr' w4 w5)
        have P4: "P w4" by (rule P(2) [OF P3 made(1)])
        show thesis
        proof (cases "fst (fill arr w4) = EVENT_COLLECTOR_OK")
          case True
          with P4 show thesis by (rule filled)
        next
          case False
          obtain x w6 where f: "fill arr w4 = (x, w6)" by fastforce
          with made(5) False have "r = x" "sqs' = sqs" "w5 = w6" by simp_all
          moreover have "P w6" using P(3) [OF P4, of arr] by (simp add: f)
          ultimately have "P w2" using P(2) [OF _ ArrayDeinit_frame] made(6) by simp
          with False f \<open>r = x\<close> \<open>sqs' = sqs\<close> end1 show thesis by (intro lost) simp_all
        qed
      qed
    qed
  qed
qed
section \<open>A state to begin with\<close>

text \<open>An agent that runs as user 1000; every call succeeds.\<close>

definition calm_linux_with :: "'h \<Rightarrow> 'h linux_env" where
  "calm_linux_with h = diagnostic_env.extend ((calm_diagnostic_with h)\<lparr>twinConfigurationObjectName := Some ''agent''\<rparr>)
     \<lparr>realUid = 1000, effectiveUid = 1000\<rparr>"

lemmas calm_linux_defs = calm_linux_with_def linux_env.defs calm_diagnostic_defs

lemma calm_linux_fields [simp]:
  "lockOk (calm_linux_with h) n" "allocOk (calm_linux_with h) n" "extOk (calm_linux_with h) n"
  "docs (calm_linux_with h) = h" "locks_work (calm_linux_with h)" "tick (calm_linux_with h) = 0"
  "currentConsumptionInBytes (calm_linux_with h) = 0" "\<not> fault (calm_linux_with h)"
  "diagnosticEventsQueue (calm_linux_with h) = Some 0" "effectiveUid (calm_linux_with h) = 1000"
  by (simp_all add: calm_linux_defs locks_work_def)

lemma calm_linux_queues:
  "sync_queues_ok [new_sync 0, new_sync 1] (calm_linux_with h)" "sync_items (new_sync c) (calm_linux_with h) = []"
  by (simp_all add: sync_queues_ok_def new_sync_def queues_ok_def held_def sync_items_def less_Suc_eq calm_linux_defs)

lemma calm_linux_ready: "collectors_ready 0 0 [new_sync 0, new_sync 1] (calm_linux_with h)"
  by (simp add: collectors_ready_def diagnostics_owned_def calm_linux_queues provider_ready_def)
    (simp add: calm_linux_defs)

end
