(* ===== verification/Iptables.thy ===== *)
theory Iptables
  imports Linux_Process
begin

text \<open>
  The rules of the packet filter as texts, \<^verbatim>\<open>src/agent/src/os_utils/linux/iptables\<close>.  libiptc delivers the table: a
  list of chains with their rules; the iterators walk through it.  The data of a match is known by its
  name, so a match is a constructor for each name the agent reads; addresses are stored as the kernel has them, in
  network byte order, and read on a little endian machine.
\<close>

section \<open>Rules\<close>

datatype IptablesResults =
  IPTABLES_OK | IPTABLES_NO_DATA | IPTABLES_ITERATOR_HAS_NEXT | IPTABLES_ITERATOR_NO_MORE_ITEMS | IPTABLES_EXCEPTION

datatype IptablesActionType = IPTABLES_ACTION_ALLOW | IPTABLES_ACTION_DENY | IPTABLES_ACTION_OTHER

definition IPTABLES_NEGATE :: string where "IPTABLES_NEGATE = ''!''"
definition IPTABLES_EMPTY :: string where "IPTABLES_EMPTY = ''''"
definition IPTABLES_NEGATE_EXPRESSION_START :: string where "IPTABLES_NEGATE_EXPRESSION_START = ''!(''"
definition IPTABLES_NEGATE_EXPRESSION_END :: string where "IPTABLES_NEGATE_EXPRESSION_END = '')''"
definition IPTABLES_ACCEPT_VERDICT :: string where "IPTABLES_ACCEPT_VERDICT = ''ACCEPT''"
definition IPTABLES_REJECT_VERDICT :: string where "IPTABLES_REJECT_VERDICT = ''REJECT''"
definition IPTABLES_DROP_VERDICT :: string where "IPTABLES_DROP_VERDICT = ''DROP''"

type_synonym u8 = "8 word"
type_synonym u16 = "16 word"

record xt_iprange_mtinfo =
  src_min :: u32
  src_max :: u32
  dst_min :: u32
  dst_max :: u32
  iprange_flags :: u8

record xt_tcp =
  spts :: "u16 \<times> u16"
  dpts :: "u16 \<times> u16"
  tcp_invflags :: u8

text \<open>The arrays as functions: behind their end stands other memory.\<close>

record xt_multiport_v1 =
  multiport_flags :: u8
  multiport_count :: u8
  ports :: "nat \<Rightarrow> u16"
  pflags :: "nat \<Rightarrow> u8"
  multiport_invert :: u8

datatype xt_entry_match =
  IprangeMatch xt_iprange_mtinfo
| TcpMatch xt_tcp
| MultiportMatch xt_multiport_v1
| MultiportV1Match xt_multiport_v1
| MultiportOtherMatch xt_multiport_v1
| OtherMatch string

record ipt_entry =
  src :: u32
  smsk :: u32
  dst :: u32
  dmsk :: u32
  proto :: u16
  ip_flags :: u8
  invflags :: u8
  matches :: "xt_entry_match list"

definition flag_set :: "u8 \<Rightarrow> u8 \<Rightarrow> bool" where
  "flag_set flags netmask \<longleftrightarrow> and flags netmask \<noteq> 0"

definition IPT_INV_SRCIP :: u8 where "IPT_INV_SRCIP = 0x08"
definition IPT_INV_DSTIP :: u8 where "IPT_INV_DSTIP = 0x10"
definition IPT_INV_PROTO :: u8 where "IPT_INV_PROTO = 0x40"
definition IPT_F_GOTO :: u8 where "IPT_F_GOTO = 0x02"
definition IPRANGE_SRC :: u8 where "IPRANGE_SRC = 0x01"
definition IPRANGE_DST :: u8 where "IPRANGE_DST = 0x02"
definition IPRANGE_SRC_INV :: u8 where "IPRANGE_SRC_INV = 0x10"
definition IPRANGE_DST_INV :: u8 where "IPRANGE_DST_INV = 0x20"
definition XT_TCP_INV_SRCPT :: u8 where "XT_TCP_INV_SRCPT = 0x01"
definition XT_TCP_INV_DSTPT :: u8 where "XT_TCP_INV_DSTPT = 0x02"
definition XT_MULTIPORT_SOURCE :: u8 where "XT_MULTIPORT_SOURCE = 0"
definition XT_MULTIPORT_DESTINATION :: u8 where "XT_MULTIPORT_DESTINATION = 1"
definition MULTIPORT_RANGE_FLAG :: u8 where "MULTIPORT_RANGE_FLAG = 1"
definition MULTIPORT_INVERT_FLAG :: u8 where "MULTIPORT_INVERT_FLAG = 1"

section \<open>Texts of addresses, ports and protocols\<close>

definition ip_byte :: "u32 \<Rightarrow> nat \<Rightarrow> u32" where
  "ip_byte n k = and (drop_bit k n) 0xFF"

definition ntohl :: "u32 \<Rightarrow> u32" where
  "ntohl n = or (or (push_bit 24 (ip_byte n 0)) (push_bit 16 (ip_byte n 8))) (or (push_bit 8 (ip_byte n 16)) (ip_byte n 24))"

definition unsigned_text :: "u32 \<Rightarrow> string" where
  "unsigned_text n = nat_to_dec (unat n)"

text \<open>\<open>%u.%u.%u.%u\<close> of \<open>IP_BYTES\<close>.\<close>

definition IP_BYTES :: "u32 \<Rightarrow> string" where
  "IP_BYTES ip =
     (let n = ntohl ip in
      unsigned_text (ip_byte n 24) @ ''.'' @ unsigned_text (ip_byte n 16) @ ''.'' @ unsigned_text (ip_byte n 8) @ ''.''
      @ unsigned_text (ip_byte n 0))"

text \<open>The result and what is in the buffer, which the caller has cleared.\<close>

definition fresh_buffer :: "u32 \<Rightarrow> cursor" where
  "fresh_buffer bufferSize = \<lparr>written = [], room = bufferSize, spill = []\<rparr>"

definition write_text :: "u32 \<Rightarrow> string \<Rightarrow> IptablesResults \<times> string" where
  "write_text bufferSize text =
     (let (ok, b) = Utils_ConcatenateToString (fresh_buffer bufferSize) text
      in (if \<not> ok then IPTABLES_EXCEPTION else IPTABLES_OK, written b))"

text \<open>The length of the prefix the mask stands for: the loop tries 32 masks.\<close>

fun find_mask :: "nat \<Rightarrow> u32 \<Rightarrow> u32 \<Rightarrow> nat option" where
  "find_mask 0 tmpMask netmask = None"
| "find_mask (Suc n) tmpMask netmask = (if tmpMask = ntohl netmask then Some (Suc n) else find_mask n (push_bit 1 tmpMask) netmask)"

definition IptablesUtils_FormatIp :: "u32 \<Rightarrow> u32 \<Rightarrow> bool \<Rightarrow> u32 \<Rightarrow> IptablesResults \<times> string" where
  "IptablesUtils_FormatIp ip netmask invert bufferSize =
     (if ip = 0 \<and> netmask = 0 then (IPTABLES_NO_DATA, [])
      else
        let formatPrefix = (if invert then IPTABLES_NEGATE else IPTABLES_EMPTY) in
        case find_mask 32 0xFFFFFFFF netmask of
          Some n \<Rightarrow> write_text bufferSize (formatPrefix @ IP_BYTES ip @ ''/'' @ int_to_dec (int n))
        | None \<Rightarrow>
            if netmask = 0 then write_text bufferSize (formatPrefix @ IP_BYTES ip)
            else write_text bufferSize (formatPrefix @ IP_BYTES ip @ ''/'' @ IP_BYTES netmask))"

definition IPPROTO_ICMP :: u16 where "IPPROTO_ICMP = 1"
definition IPPROTO_TCP :: u16 where "IPPROTO_TCP = 6"
definition IPPROTO_UDP :: u16 where "IPPROTO_UDP = 17"

definition IptablesUtils_FormatProtocol :: "u16 \<Rightarrow> bool \<Rightarrow> u32 \<Rightarrow> IptablesResults \<times> string" where
  "IptablesUtils_FormatProtocol protocol invert bufferSize =
     (let formatPrefix = (if invert then IPTABLES_NEGATE else IPTABLES_EMPTY) in
      if protocol = IPPROTO_TCP then write_text bufferSize (formatPrefix @ ''tcp'')
      else if protocol = IPPROTO_UDP then write_text bufferSize (formatPrefix @ ''udp'')
      else if protocol = IPPROTO_ICMP then write_text bufferSize (formatPrefix @ ''icmp'')
      else (IPTABLES_EXCEPTION, []))"

definition port_text :: "u16 \<Rightarrow> string" where
  "port_text p = int_to_dec (uint p)"

definition MIN_PORT :: u16 where "MIN_PORT = 0"
definition MAX_PORT :: u16 where "MAX_PORT = 65535"

definition IptablesUtils_FormatRangedPorts :: "u16 \<Rightarrow> u16 \<Rightarrow> bool \<Rightarrow> u32 \<Rightarrow> IptablesResults \<times> string" where
  "IptablesUtils_FormatRangedPorts lowPort highPort invert bufferSize =
     (if lowPort \<noteq> MIN_PORT \<or> highPort \<noteq> MAX_PORT
      then
        let formatPrefix = (if invert then IPTABLES_NEGATE_EXPRESSION_START else IPTABLES_EMPTY) in
        if lowPort = highPort then write_text bufferSize (formatPrefix @ port_text lowPort @ '' '')
        else
          let formatSuffix = (if invert then IPTABLES_NEGATE_EXPRESSION_END else IPTABLES_EMPTY)
          in write_text bufferSize (formatPrefix @ port_text lowPort @ ''-'' @ port_text highPort @ formatSuffix)
      else (IPTABLES_NO_DATA, []))"

definition IptablesUtils_GetActionTypeEnumFromActionString :: "string option \<Rightarrow> IptablesResults \<times> IptablesActionType option" where
  "IptablesUtils_GetActionTypeEnumFromActionString action =
     (case action of
        None \<Rightarrow> (IPTABLES_EXCEPTION, None)
      | Some a \<Rightarrow>
          (IPTABLES_OK, Some (
             if Utils_UnsafeAreStringsEqual IPTABLES_ACCEPT_VERDICT a True then IPTABLES_ACTION_ALLOW
             else if Utils_UnsafeAreStringsEqual IPTABLES_REJECT_VERDICT a True
               \<or> Utils_UnsafeAreStringsEqual IPTABLES_DROP_VERDICT a True then IPTABLES_ACTION_DENY
             else IPTABLES_ACTION_OTHER)))"

section \<open>Addresses of a rule\<close>

definition IptablesUtils_FormatRangedIp :: "u32 \<Rightarrow> u32 \<Rightarrow> bool \<Rightarrow> u32 \<Rightarrow> IptablesResults \<times> string" where
  "IptablesUtils_FormatRangedIp minIp maxIp invert bufferSize =
     (let formatPrefix = (if invert then IPTABLES_NEGATE_EXPRESSION_START else IPTABLES_EMPTY);
          formatSuffix = (if invert then IPTABLES_NEGATE_EXPRESSION_END else IPTABLES_EMPTY)
      in write_text bufferSize (formatPrefix @ IP_BYTES minIp @ ''-'' @ IP_BYTES maxIp @ formatSuffix))"

fun ranged_ip :: "xt_entry_match list \<Rightarrow> bool \<Rightarrow> u32 \<Rightarrow> IptablesResults \<times> string" where
  "ranged_ip [] isSrcIp bufferSize = (IPTABLES_NO_DATA, [])"
| "ranged_ip (IprangeMatch info # rest) isSrcIp bufferSize =
     (if isSrcIp \<and> flag_set (iprange_flags info) IPRANGE_SRC
      then IptablesUtils_FormatRangedIp (src_min info) (src_max info) (flag_set (iprange_flags info) IPRANGE_SRC_INV) bufferSize
      else if \<not> isSrcIp \<and> flag_set (iprange_flags info) IPRANGE_DST
      then IptablesUtils_FormatRangedIp (dst_min info) (dst_max info) (flag_set (iprange_flags info) IPRANGE_DST_INV) bufferSize
      else ranged_ip rest isSrcIp bufferSize)"
| "ranged_ip (_ # rest) isSrcIp bufferSize = ranged_ip rest isSrcIp bufferSize"

definition IptablesIprange_TryGetRangedIp :: "ipt_entry \<Rightarrow> bool \<Rightarrow> u32 \<Rightarrow> IptablesResults \<times> string" where
  "IptablesIprange_TryGetRangedIp ipt = ranged_ip (matches ipt)"

definition IptablesIpUtils_GetRegularIp :: "ipt_entry \<Rightarrow> bool \<Rightarrow> u32 \<Rightarrow> IptablesResults \<times> string" where
  "IptablesIpUtils_GetRegularIp ipt isSrcIp bufferSize =
     (if isSrcIp
      then IptablesUtils_FormatIp (src ipt) (smsk ipt) (flag_set (invflags ipt) IPT_INV_SRCIP) bufferSize
      else IptablesUtils_FormatIp (dst ipt) (dmsk ipt) (flag_set (invflags ipt) IPT_INV_DSTIP) bufferSize)"

definition IptablesIpUtils_GetIp :: "ipt_entry \<Rightarrow> bool \<Rightarrow> u32 \<Rightarrow> IptablesResults \<times> string" where
  "IptablesIpUtils_GetIp ipt isSrcIp bufferSize =
     (let (result, text) = IptablesIprange_TryGetRangedIp ipt isSrcIp bufferSize in
      if result = IPTABLES_OK \<or> result \<noteq> IPTABLES_NO_DATA then (result, text)
      else IptablesIpUtils_GetRegularIp ipt isSrcIp bufferSize)"

section \<open>Ports of a rule\<close>

definition IptablesPortUtils_GetPortsTcpMatch :: "xt_tcp \<Rightarrow> bool \<Rightarrow> u32 \<Rightarrow> IptablesResults \<times> string" where
  "IptablesPortUtils_GetPortsTcpMatch tcpInfo isSrcPorts bufferSize =
     (let ((minPort, maxPort), invert) =
        (if isSrcPorts then (spts tcpInfo, flag_set (tcp_invflags tcpInfo) XT_TCP_INV_SRCPT)
         else (dpts tcpInfo, flag_set (tcp_invflags tcpInfo) XT_TCP_INV_DSTPT))
      in IptablesUtils_FormatRangedPorts minPort maxPort invert bufferSize)"

text \<open>The loop over the ports of a multiport match: \<open>j\<close> is the next port, \<open>n\<close> how many are left.\<close>

fun multiport_loop :: "xt_multiport_v1 \<Rightarrow> nat \<Rightarrow> nat \<Rightarrow> cursor \<Rightarrow> bool \<times> cursor" where
  "multiport_loop info j 0 b = (True, b)"
| "multiport_loop info j (Suc n) b =
     and_then (if j > 0 then Utils_ConcatenateToString b '','' else (True, b))
       (\<lambda>b. and_then (Utils_ConcatenateToString b (port_text (ports info j))) (multiport_loop info (Suc j) n))"

definition IptablesMultiport_FormatMultiportMatch :: "xt_multiport_v1 \<Rightarrow> u32 \<Rightarrow> IptablesResults \<times> string" where
  "IptablesMultiport_FormatMultiportMatch info bufferSize =
     (let (ok, b) = multiport_loop info 0 (unat (multiport_count info)) (fresh_buffer bufferSize)
      in (if \<not> ok then IPTABLES_EXCEPTION else IPTABLES_OK, written b))"

text \<open>A range takes two ports, the second one also when it is behind the last.\<close>

fun multiport_v1_loop :: "xt_multiport_v1 \<Rightarrow> nat \<Rightarrow> nat \<Rightarrow> cursor \<Rightarrow> bool \<times> cursor" where
  "multiport_v1_loop info j 0 b = (True, b)"
| "multiport_v1_loop info j (Suc n) b =
     and_then (if j > 0 then Utils_ConcatenateToString b '','' else (True, b))
       (\<lambda>b. if flag_set (pflags info j) MULTIPORT_RANGE_FLAG
         then and_then (Utils_ConcatenateToString b (port_text (ports info j) @ ''-'' @ port_text (ports info (Suc j))))
           (multiport_v1_loop info (j + 2) (n - 1))
         else and_then (Utils_ConcatenateToString b (port_text (ports info j))) (multiport_v1_loop info (Suc j) n))"

definition IptablesMultiport_FormatMultiportV1Match :: "xt_multiport_v1 \<Rightarrow> u32 \<Rightarrow> IptablesResults \<times> string" where
  "IptablesMultiport_FormatMultiportV1Match info bufferSize =
     (let invert = flag_set (multiport_invert info) MULTIPORT_INVERT_FLAG;
          (ok, b) =
            and_then (if invert then Utils_ConcatenateToString (fresh_buffer bufferSize) IPTABLES_NEGATE_EXPRESSION_START
                      else (True, fresh_buffer bufferSize))
              (\<lambda>b. and_then (multiport_v1_loop info 0 (unat (multiport_count info)) b)
                 (\<lambda>b. if invert then Utils_ConcatenateToString b IPTABLES_NEGATE_EXPRESSION_END else (True, b)))
      in (if \<not> ok then IPTABLES_EXCEPTION else IPTABLES_OK, written b))"

definition multiport_direction :: "u8 \<Rightarrow> bool \<Rightarrow> bool" where
  "multiport_direction flags isSrcPorts \<longleftrightarrow>
     \<not> (isSrcPorts \<and> flags = XT_MULTIPORT_DESTINATION) \<and> \<not> (\<not> isSrcPorts \<and> flags = XT_MULTIPORT_SOURCE)"

text \<open>A match of another size is reported as read, with nothing in the buffer.\<close>

fun IptablesMultiport_GetPorts :: "xt_entry_match \<Rightarrow> bool \<Rightarrow> u32 \<Rightarrow> IptablesResults \<times> string" where
  "IptablesMultiport_GetPorts (MultiportMatch info) isSrcPorts bufferSize =
     (if \<not> multiport_direction (multiport_flags info) isSrcPorts then (IPTABLES_NO_DATA, [])
      else IptablesMultiport_FormatMultiportMatch info bufferSize)"
| "IptablesMultiport_GetPorts (MultiportV1Match info) isSrcPorts bufferSize =
     (if \<not> multiport_direction (multiport_flags info) isSrcPorts then (IPTABLES_NO_DATA, [])
      else IptablesMultiport_FormatMultiportV1Match info bufferSize)"
| "IptablesMultiport_GetPorts (MultiportOtherMatch info) isSrcPorts bufferSize =
     (if \<not> multiport_direction (multiport_flags info) isSrcPorts then (IPTABLES_NO_DATA, []) else (IPTABLES_OK, []))"
| "IptablesMultiport_GetPorts _ isSrcPorts bufferSize = (IPTABLES_NO_DATA, [])"

fun ports_of :: "xt_entry_match list \<Rightarrow> bool \<Rightarrow> u32 \<Rightarrow> IptablesResults \<times> string" where
  "ports_of [] isSrcPorts bufferSize = (IPTABLES_NO_DATA, [])"
| "ports_of (currentMatch # rest) isSrcPorts bufferSize =
     (let (result, text) =
        (case currentMatch of
           TcpMatch tcpInfo \<Rightarrow> IptablesPortUtils_GetPortsTcpMatch tcpInfo isSrcPorts bufferSize
         | _ \<Rightarrow> IptablesMultiport_GetPorts currentMatch isSrcPorts bufferSize)
      in if result = IPTABLES_OK \<or> result \<noteq> IPTABLES_NO_DATA then (result, text) else ports_of rest isSrcPorts bufferSize)"

definition IptablesPortUtils_GetPort :: "ipt_entry \<Rightarrow> bool \<Rightarrow> u32 \<Rightarrow> IptablesResults \<times> string" where
  "IptablesPortUtils_GetPort ipt = ports_of (matches ipt)"

section \<open>Decimal texts\<close>

lemma digits_split:
  assumes "xs @ ys = xs' @ ys'" and "\<forall>c\<in>set xs. isdigit c" "\<forall>c\<in>set xs'. isdigit c"
    and "ys = [] \<or> \<not> isdigit (hd ys)" "ys' = [] \<or> \<not> isdigit (hd ys')"
  shows "xs = xs' \<and> ys = ys'"
proof -
  have tw: "takeWhile isdigit (us @ vs) = us" if "\<forall>c\<in>set us. isdigit c" "vs = [] \<or> \<not> isdigit (hd vs)" for us vs
    using that by (cases vs) (auto simp: takeWhile_append)
  have "xs = xs'" using tw [OF assms(2,4)] tw [OF assms(3,5)] assms(1) by simp
  with assms(1) show ?thesis by simp
qed

lemma ip_byte_mask: "ip_byte n k = and (drop_bit k n) (mask 8)"
  by (simp add: ip_byte_def mask_eq_exp_minus_1)

lemma byte_bound: "unat (ip_byte n k) < 256"
  using word_and_le1 [of "drop_bit k n" 255] by (simp add: ip_byte_def word_le_nat_alt)

lemma bit_ip_byte: "bit (ip_byte n k) i \<longleftrightarrow> i < 8 \<and> bit n (k + i)"
  by (auto simp: ip_byte_mask bit_simps)

lemma bit_ntohl:
  "bit (ntohl n) i \<longleftrightarrow>
     (if i < 8 then bit n (24 + i) else if i < 16 then bit n (8 + i) else if i < 24 then bit n (i - 8)
      else i < 32 \<and> bit n (i - 24))"
  by (auto simp: ntohl_def bit_simps bit_ip_byte)

lemma ntohl_ntohl [simp]: "ntohl (ntohl n) = n"
  by (rule bit_word_eqI) (auto simp: bit_ntohl)

lemma ntohl_inj: "ntohl a = ntohl b \<Longrightarrow> a = b"
  using ntohl_ntohl by metis

lemma bytes_inj:
  assumes "ip_byte a 0 = ip_byte b 0" "ip_byte a 8 = ip_byte b 8" "ip_byte a 16 = ip_byte b 16" "ip_byte a 24 = ip_byte b 24"
  shows "a = b"
proof (rule bit_word_eqI)
  fix i assume "i < LENGTH(32)"
  then have "i < 32" by simp
  have byte: "bit a (k + j) = bit b (k + j)" if "j < 8" "k \<in> {0, 8, 16, 24}" for j k
    using that assms bit_ip_byte [of a k j] bit_ip_byte [of b k j] by auto
  from \<open>i < 32\<close> consider "i < 8" | "8 \<le> i" "i < 16" | "16 \<le> i" "i < 24" | "24 \<le> i" "i < 32" by linarith
  then show "bit a i = bit b i"
    using byte [of i 0] byte [of "i - 8" 8] byte [of "i - 16" 16] byte [of "i - 24" 24] by cases simp_all
qed

lemma unsigned_text_digits: "c \<in> set (unsigned_text n) \<Longrightarrow> isdigit c"
  by (simp add: unsigned_text_def nat_to_dec_digits)

lemma unsigned_text_inj: "unsigned_text a = unsigned_text b \<Longrightarrow> a = b"
  by (metis dec_value_nat_to_dec unsigned_text_def word_unat_eq_iff)

lemma unsigned_text_split:
  assumes "unsigned_text a @ ys = unsigned_text b @ ys'" "ys = [] \<or> \<not> isdigit (hd ys)" "ys' = [] \<or> \<not> isdigit (hd ys')"
  shows "a = b \<and> ys = ys'"
  using digits_split [OF assms(1) _ _ assms(2,3)] unsigned_text_digits unsigned_text_inj by blast

lemma not_digits [simp]: "\<not> isdigit CHR ''.''" "\<not> isdigit CHR ''/''" "\<not> isdigit CHR ''-''" "\<not> isdigit CHR '')''" "\<not> isdigit CHR ''!''"
  "\<not> isdigit CHR '' ''" "\<not> isdigit CHR '',''"
  by (simp_all add: isdigit_def code_of_def)

lemma IP_BYTES_split:
  assumes "IP_BYTES a @ ys = IP_BYTES b @ ys'" "ys = [] \<or> \<not> isdigit (hd ys)" "ys' = [] \<or> \<not> isdigit (hd ys')"
  shows "a = b \<and> ys = ys'"
proof -
  have step: "x = y \<and> us = us'"
    if "unsigned_text x @ CHR ''.'' # us = unsigned_text y @ CHR ''.'' # us'" for x y us us'
    using unsigned_text_split [OF that] by simp
  let ?a = "ntohl a" and ?b = "ntohl b"
  have "unsigned_text (ip_byte ?a 24) @ CHR ''.'' # unsigned_text (ip_byte ?a 16) @ CHR ''.'' # unsigned_text (ip_byte ?a 8)
        @ CHR ''.'' # unsigned_text (ip_byte ?a 0) @ ys
      = unsigned_text (ip_byte ?b 24) @ CHR ''.'' # unsigned_text (ip_byte ?b 16) @ CHR ''.'' # unsigned_text (ip_byte ?b 8)
        @ CHR ''.'' # unsigned_text (ip_byte ?b 0) @ ys'"
    using assms(1) by (simp add: IP_BYTES_def Let_def)
  from step [OF this] have "ip_byte ?a 24 = ip_byte ?b 24" and 1: "unsigned_text (ip_byte ?a 16) @ CHR ''.'' # unsigned_text (ip_byte ?a 8)
        @ CHR ''.'' # unsigned_text (ip_byte ?a 0) @ ys
      = unsigned_text (ip_byte ?b 16) @ CHR ''.'' # unsigned_text (ip_byte ?b 8) @ CHR ''.'' # unsigned_text (ip_byte ?b 0) @ ys'"
    by blast+
  moreover from step [OF 1] have "ip_byte ?a 16 = ip_byte ?b 16" and 2: "unsigned_text (ip_byte ?a 8)
        @ CHR ''.'' # unsigned_text (ip_byte ?a 0) @ ys
      = unsigned_text (ip_byte ?b 8) @ CHR ''.'' # unsigned_text (ip_byte ?b 0) @ ys'"
    by blast+
  moreover from step [OF 2] have "ip_byte ?a 8 = ip_byte ?b 8" and 3: "unsigned_text (ip_byte ?a 0) @ ys = unsigned_text (ip_byte ?b 0) @ ys'"
    by blast+
  moreover from unsigned_text_split [OF 3 assms(2,3)] have "ip_byte ?a 0 = ip_byte ?b 0" "ys = ys'" by blast+
  ultimately show ?thesis using bytes_inj [of ?a ?b] ntohl_inj by blast
qed

lemma IP_BYTES_hd: "\<exists>d ds. IP_BYTES a = d # ds \<and> isdigit d \<and> d \<noteq> CHR ''!''"
proof -
  obtain d ds where "nat_to_dec (unat (ip_byte (ntohl a) 24)) = d # ds" "isdigit d"
    using nat_to_dec_hd by metis
  then show ?thesis by (auto simp: IP_BYTES_def Let_def unsigned_text_def)
qed

lemma find_mask_Some:
  "find_mask n m netmask = Some k \<Longrightarrow> k \<le> n \<and> 0 < k \<and> ntohl netmask = push_bit (n - k) m"
proof (induction n arbitrary: m)
  case (Suc n)
  show ?case
  proof (cases "m = ntohl netmask")
    case False
    with Suc.prems have "find_mask n (push_bit 1 m) netmask = Some k" by simp
    from Suc.IH [OF this] have *: "k \<le> n" "0 < k" "ntohl netmask = push_bit (n - k) (push_bit 1 m)" by blast+
    from *(1) have "Suc n - k = n - k + 1" by simp
    with * show ?thesis by (simp add: push_bit_push_bit)
  qed (use Suc.prems in simp)
qed simp

lemma find_mask_same: "find_mask 32 m a = Some k \<Longrightarrow> find_mask 32 m b = Some k \<Longrightarrow> a = b"
  using find_mask_Some [of 32 m a k] find_mask_Some [of 32 m b k] ntohl_inj by metis

lemma write_text_OK: "write_text n t = (IPTABLES_OK, s) \<Longrightarrow> s = t"
  by (auto simp: write_text_def fresh_buffer_def Utils_ConcatenateToString_def split: if_splits)

definition mask_text :: "u32 \<Rightarrow> string" where
  "mask_text netmask =
     (case find_mask 32 0xFFFFFFFF netmask of
        Some n \<Rightarrow> ''/'' @ nat_to_dec n
      | None \<Rightarrow> if netmask = 0 then [] else ''/'' @ IP_BYTES netmask)"

lemma FormatIp_text:
  assumes "IptablesUtils_FormatIp ip netmask invert n = (IPTABLES_OK, t)"
  shows "t = (if invert then ''!'' else []) @ IP_BYTES ip @ mask_text netmask"
  using assms
  by (auto simp: IptablesUtils_FormatIp_def Let_def IPTABLES_NEGATE_def IPTABLES_EMPTY_def mask_text_def int_to_dec_def
      dest!: write_text_OK split: if_splits option.splits)

lemma IP_BYTES_dot: "CHR ''.'' \<in> set (IP_BYTES a)"
  by (simp add: IP_BYTES_def Let_def)

lemma mask_text_cases:
  obtains (prefix) n where "find_mask 32 0xFFFFFFFF a = Some n" "mask_text a = CHR ''/'' # nat_to_dec n"
  | (none) "a = 0" "mask_text a = []"
  | (quad) "mask_text a = CHR ''/'' # IP_BYTES a"
  by (cases "find_mask 32 0xFFFFFFFF a"; cases "a = 0") (auto simp: mask_text_def)

lemma mask_text_inj:
  assumes "mask_text a = mask_text b"
  shows "a = b"
proof -
  have dec: "nat_to_dec n \<noteq> IP_BYTES c" for n c
    using IP_BYTES_dot [of c] nat_to_dec_digits [of "CHR ''.''" n] by auto
  have inj: "n = m" if "nat_to_dec n = nat_to_dec m" for n m
    using that by (metis dec_value_nat_to_dec)
  have quad: "x = y" if "IP_BYTES x = IP_BYTES y" for x y
    using IP_BYTES_split [of x "[]" y "[]"] that by simp
  show ?thesis
  proof (cases a rule: mask_text_cases)
    case (prefix n)
    with assms dec inj find_mask_same show ?thesis by (cases b rule: mask_text_cases) auto
  next
    case none
    with assms show ?thesis by (cases b rule: mask_text_cases) auto
  next
    case quad
    with assms dec [THEN not_sym] \<open>\<And>x y. IP_BYTES x = IP_BYTES y \<Longrightarrow> x = y\<close> show ?thesis
      by (cases b rule: mask_text_cases) auto
  qed
qed

text \<open>
  C28: The text of a rule's address tells the address, the mask and whether it is inverted: no two of them
  have the same text.
\<close>

theorem address_text_is_unique:
  assumes "IptablesUtils_FormatIp ip netmask invert n = (IPTABLES_OK, t)"
    and "IptablesUtils_FormatIp ip' netmask' invert' n' = (IPTABLES_OK, t)"
  shows "ip = ip' \<and> netmask = netmask' \<and> invert = invert'"
proof -
  have t: "(if invert then ''!'' else []) @ IP_BYTES ip @ mask_text netmask
      = (if invert' then ''!'' else []) @ IP_BYTES ip' @ mask_text netmask'"
    using FormatIp_text [OF assms(1)] FormatIp_text [OF assms(2)] by simp
  have "invert = invert'"
    using t IP_BYTES_hd [of ip] IP_BYTES_hd [of ip'] by (auto split: if_splits)
  with t have "IP_BYTES ip @ mask_text netmask = IP_BYTES ip' @ mask_text netmask'" by (cases invert) simp_all
  moreover have "mask_text a = [] \<or> \<not> isdigit (hd (mask_text a))" for a
    by (cases a rule: mask_text_cases) simp_all
  ultimately have "ip = ip' \<and> mask_text netmask = mask_text netmask'" using IP_BYTES_split by blast
  with mask_text_inj \<open>invert = invert'\<close> show ?thesis by blast
qed

lemma address_text_is_unique_witness:
  "{(ip, netmask, invert). IptablesUtils_FormatIp ip netmask invert 300 = (IPTABLES_OK, ''!192.168.0.1/24'')}
     = {(0x0100A8C0, 0x00FFFFFF, True)}"
proof (intro equalityI subsetI)
  have run: "IptablesUtils_FormatIp 0x0100A8C0 0x00FFFFFF True 300 = (IPTABLES_OK, ''!192.168.0.1/24'')" by code_simp
  fix x :: "u32 \<times> u32 \<times> bool"
  obtain ip netmask invert where x: "x = (ip, netmask, invert)" by (cases x)
  show "x \<in> {(0x0100A8C0, 0x00FFFFFF, True)}"
    if "x \<in> {(ip, netmask, invert). IptablesUtils_FormatIp ip netmask invert 300 = (IPTABLES_OK, ''!192.168.0.1/24'')}"
    using address_text_is_unique [OF _ run, of ip netmask invert 300] that unfolding x by blast
  show "x \<in> {(ip, netmask, invert). IptablesUtils_FormatIp ip netmask invert 300 = (IPTABLES_OK, ''!192.168.0.1/24'')}"
    if "x \<in> {(0x0100A8C0, 0x00FFFFFF, True)}"
    using that run by blast
qed

section \<open>Every text fits\<close>

lemma write_text_fits: "length t < unat n \<Longrightarrow> write_text n t = (IPTABLES_OK, t)"
  using ConcatenateToString_fits(1) [of t "fresh_buffer n"] by (simp add: write_text_def fresh_buffer_def)

lemma length_unsigned_text: "length (unsigned_text (ip_byte n k)) \<le> 3"
  using length_nat_to_dec_le [of "unat (ip_byte n k)" 3] byte_bound [of n k] by (simp add: unsigned_text_def)

lemma length_IP_BYTES: "length (IP_BYTES a) \<le> 15"
  using length_unsigned_text [of "ntohl a" 24] length_unsigned_text [of "ntohl a" 16] length_unsigned_text [of "ntohl a" 8]
    length_unsigned_text [of "ntohl a" 0]
  by (simp add: IP_BYTES_def Let_def)

lemma length_port_text: "length (port_text p) \<le> 5"
proof -
  have "nat (uint p) < 10 ^ 5" using unsigned_less [of p, where ?'a = nat] by simp
  from length_nat_to_dec_le [OF this] show ?thesis by (simp add: port_text_def int_to_dec_def)
qed

text \<open>C40: A single inverted port is printed with an opening bracket that is never closed.\<close>

theorem inverted_port_is_unbalanced:
  assumes "8 < unat bufferSize"
  shows "IptablesUtils_FormatRangedPorts p p True bufferSize = (IPTABLES_OK, ''!('' @ port_text p @ '' '')"
proof -
  have "p \<noteq> MIN_PORT \<or> p \<noteq> MAX_PORT" by (auto simp: MIN_PORT_def MAX_PORT_def)
  moreover have "length (''!('' @ port_text p @ '' '') < unat bufferSize" using length_port_text [of p] assms by simp
  ultimately show ?thesis
    using write_text_fits [of "''!('' @ port_text p @ '' ''" bufferSize]
    by (simp add: IptablesUtils_FormatRangedPorts_def IPTABLES_NEGATE_EXPRESSION_START_def)
qed

lemma inverted_port_is_unbalanced_witness:
  "IptablesUtils_FormatRangedPorts 80 80 True 300 = (IPTABLES_OK, ''!(80 '')"
proof -
  have "port_text 80 = ''80''" by code_simp
  then show ?thesis using inverted_port_is_unbalanced [of 300 80] by simp
qed

lemma FormatIp_fits:
  assumes "32 < unat n"
  shows "fst (IptablesUtils_FormatIp ip netmask invert n) \<noteq> IPTABLES_EXCEPTION"
proof (cases "find_mask 32 0xFFFFFFFF netmask")
  case None
  then show ?thesis
    using assms length_IP_BYTES [of ip] length_IP_BYTES [of netmask]
    by (simp add: IptablesUtils_FormatIp_def Let_def IPTABLES_NEGATE_def IPTABLES_EMPTY_def write_text_fits)
next
  case (Some k)
  then have "length (nat_to_dec k) \<le> 2" using find_mask_Some [OF Some] by simp
  with Some show ?thesis
    using assms length_IP_BYTES [of ip]
    by (simp add: IptablesUtils_FormatIp_def Let_def IPTABLES_NEGATE_def IPTABLES_EMPTY_def int_to_dec_def write_text_fits)
qed

lemma ranged_ip_fits:
  assumes "34 < unat n"
  shows "fst (ranged_ip ms isSrc n) \<noteq> IPTABLES_EXCEPTION"
  using assms
proof (induction ms isSrc n rule: ranged_ip.induct)
  case (2 info rest isSrcIp n)
  have "fst (IptablesUtils_FormatRangedIp a b invert n) \<noteq> IPTABLES_EXCEPTION" for a b invert
    using "2.prems" length_IP_BYTES [of a] length_IP_BYTES [of b]
    by (simp add: IptablesUtils_FormatRangedIp_def Let_def write_text_fits IPTABLES_NEGATE_EXPRESSION_START_def
        IPTABLES_NEGATE_EXPRESSION_END_def IPTABLES_EMPTY_def)
  with 2 show ?case by simp
qed simp_all

lemma FormatRangedPorts_fits:
  assumes "14 < unat n"
  shows "fst (IptablesUtils_FormatRangedPorts a b invert n) \<noteq> IPTABLES_EXCEPTION"
  using assms length_port_text [of a] length_port_text [of b]
  by (simp add: IptablesUtils_FormatRangedPorts_def Let_def write_text_fits IPTABLES_NEGATE_EXPRESSION_START_def
      IPTABLES_NEGATE_EXPRESSION_END_def IPTABLES_EMPTY_def)

text \<open>One more piece of text, no longer than \<open>k\<close>, leaves room for the rest.\<close>

lemma append_piece:
  assumes "k + m < unat (room b)" "length t \<le> k"
  obtains b' where "Utils_ConcatenateToString b t = (True, b')" "m < unat (room b')" "unat (room b) - length t = unat (room b')"
proof -
  have "length t < unat (room b)" using assms by linarith
  note fits = ConcatenateToString_fits [OF this]
  show thesis
    by (rule that [OF fits(1)]) (use fits(2) assms in auto)
qed

lemma comma_fits:
  assumes "1 + m < unat (room b)"
  obtains b' where "(if j > 0 then Utils_ConcatenateToString b '','' else (True, b)) = (True, b')" "m < unat (room b')"
proof (cases "j > 0")
  case True
  obtain b' where "Utils_ConcatenateToString b '','' = (True, b')" "m < unat (room b')"
    using append_piece [OF assms, of "'',''"] by auto
  with True that show thesis by simp
next
  case False
  show thesis by (rule that [of b]) (use assms False in simp_all)
qed

lemma multiport_loop_fits: "6 * n < unat (room b) \<Longrightarrow> fst (multiport_loop info j n b)"
proof (induction n arbitrary: j b)
  case (Suc n)
  have "1 + (5 + 6 * n) < unat (room b)" using Suc.prems by simp
  from comma_fits [OF this, of j] obtain b1
    where b1: "(if j > 0 then Utils_ConcatenateToString b '','' else (True, b)) = (True, b1)" "5 + 6 * n < unat (room b1)" .
  obtain b2 where "Utils_ConcatenateToString b1 (port_text (ports info j)) = (True, b2)" "6 * n < unat (room b2)"
    using append_piece [OF b1(2) length_port_text] by metis
  with Suc.IH b1(1) show ?case by (simp add: and_then_def)
qed simp

lemma multiport_v1_loop_fits:
  "12 * n + m < unat (room b) \<Longrightarrow>
    \<exists>b'. multiport_v1_loop info j n b = (True, b') \<and> m < unat (room b')"
proof (induction info j n b rule: multiport_v1_loop.induct)
  case (2 info j n b)
  have "1 + (11 + (12 * n + m)) < unat (room b)" using "2.prems" by simp
  from comma_fits [OF this, of j] obtain b1
    where b1: "(if j > 0 then Utils_ConcatenateToString b '','' else (True, b)) = (True, b1)" "11 + (12 * n + m) < unat (room b1)" .
  show ?case
  proof (cases "flag_set (pflags info j) MULTIPORT_RANGE_FLAG")
    case True
    have "length (port_text (ports info j) @ ''-'' @ port_text (ports info (Suc j))) \<le> 11"
      using length_port_text [of "ports info j"] length_port_text [of "ports info (Suc j)"] by simp
    from append_piece [OF b1(2) this] obtain b2
      where b2: "Utils_ConcatenateToString b1 (port_text (ports info j) @ ''-'' @ port_text (ports info (Suc j))) = (True, b2)"
        "12 * n + m < unat (room b2)" by metis
    have "12 * (n - 1) + m < unat (room b2)" using b2(2) by linarith
    from "2.IH"(1) [OF True this] b1(1) b2(1) True show ?thesis by (simp add: and_then_def)
  next
    case False
    have "length (port_text (ports info j)) \<le> 11" using length_port_text [of "ports info j"] by simp
    from append_piece [OF b1(2) this] obtain b2
      where b2: "Utils_ConcatenateToString b1 (port_text (ports info j)) = (True, b2)" "12 * n + m < unat (room b2)" by metis
    from "2.IH"(2) [OF False this(2)] b1(1) b2(1) False show ?thesis by (simp add: and_then_def)
  qed
qed simp

text \<open>The kernel keeps at most 15 ports in a multiport match.\<close>

definition ports_counted :: "ipt_entry \<Rightarrow> bool" where
  "ports_counted e \<longleftrightarrow>
     (\<forall>info. MultiportMatch info \<in> set (matches e) \<or> MultiportV1Match info \<in> set (matches e) \<longrightarrow> unat (multiport_count info) \<le> 15)"

lemma GetPorts_fits:
  assumes "\<forall>info. m \<in> {MultiportMatch info, MultiportV1Match info} \<longrightarrow> unat (multiport_count info) \<le> 15"
  shows "fst (IptablesMultiport_GetPorts m isSrc 300) \<noteq> IPTABLES_EXCEPTION"
proof (cases m)
  case (MultiportMatch info)
  then have "6 * unat (multiport_count info) < unat (room (fresh_buffer 300))" using assms by (simp add: fresh_buffer_def)
  from multiport_loop_fits [OF this, of info 0] MultiportMatch show ?thesis
    by (simp add: IptablesMultiport_FormatMultiportMatch_def split_beta)
next
  case (MultiportV1Match info)
  let ?neg = "flag_set (multiport_invert info) MULTIPORT_INVERT_FLAG"
  have count: "12 * unat (multiport_count info) + 1 < 298" using assms MultiportV1Match by simp
  obtain b1 where b1: "(if ?neg then Utils_ConcatenateToString (fresh_buffer 300) IPTABLES_NEGATE_EXPRESSION_START
        else (True, fresh_buffer 300)) = (True, b1)" "12 * unat (multiport_count info) + 1 < unat (room b1)"
  proof (cases ?neg)
    case True
    have "2 + (12 * unat (multiport_count info) + 1) < unat (room (fresh_buffer 300))" using count by (simp add: fresh_buffer_def)
    moreover have "length IPTABLES_NEGATE_EXPRESSION_START \<le> 2" by (simp add: IPTABLES_NEGATE_EXPRESSION_START_def)
    ultimately obtain b1 where "Utils_ConcatenateToString (fresh_buffer 300) IPTABLES_NEGATE_EXPRESSION_START = (True, b1)"
        "12 * unat (multiport_count info) + 1 < unat (room b1)" using append_piece by metis
    with True that show thesis by simp
  next
    case False
    show thesis by (rule that [of "fresh_buffer 300"]) (use False count in \<open>simp_all add: fresh_buffer_def\<close>)
  qed
  obtain b2 where b2: "multiport_v1_loop info 0 (unat (multiport_count info)) b1 = (True, b2)" "1 < unat (room b2)"
    using multiport_v1_loop_fits [OF b1(2), of info 0] by blast
  have "fst (Utils_ConcatenateToString b2 IPTABLES_NEGATE_EXPRESSION_END)"
    using ConcatenateToString_fits(1) [of IPTABLES_NEGATE_EXPRESSION_END b2] b2(2) by (simp add: IPTABLES_NEGATE_EXPRESSION_END_def)
  with b1(1) b2(1) have "fst (IptablesMultiport_FormatMultiportV1Match info 300) \<noteq> IPTABLES_EXCEPTION"
    by (cases ?neg) (simp_all add: IptablesMultiport_FormatMultiportV1Match_def Let_def split_beta and_then_def)
  with MultiportV1Match show ?thesis by simp
qed simp_all

text \<open>
  C30: Every text of a rule's addresses and ports fits into the 300 bytes of the collector's buffer: none of
  them is ever refused.
\<close>

theorem rule_texts_fit:
  assumes "ports_counted e"
  shows "fst (IptablesIpUtils_GetIp e isSrc 300) \<noteq> IPTABLES_EXCEPTION \<and> fst (IptablesPortUtils_GetPort e isSrc 300) \<noteq> IPTABLES_EXCEPTION"
proof
  show "fst (IptablesIpUtils_GetIp e isSrc 300) \<noteq> IPTABLES_EXCEPTION"
    using ranged_ip_fits [of 300 "matches e" isSrc] FormatIp_fits [of 300]
    by (simp add: IptablesIpUtils_GetIp_def IptablesIprange_TryGetRangedIp_def IptablesIpUtils_GetRegularIp_def Let_def split_beta)
  have "fst (ports_of ms isSrc 300) \<noteq> IPTABLES_EXCEPTION"
    if "\<forall>info. MultiportMatch info \<in> set ms \<or> MultiportV1Match info \<in> set ms \<longrightarrow> unat (multiport_count info) \<le> 15" for ms
    using that
  proof (induction ms)
    case (Cons m ms)
    have "fst (IptablesMultiport_GetPorts m isSrc 300) \<noteq> IPTABLES_EXCEPTION" by (rule GetPorts_fits) (use Cons.prems in auto)
    moreover have "fst (ports_of ms isSrc 300) \<noteq> IPTABLES_EXCEPTION" by (rule Cons.IH) (use Cons.prems in auto)
    ultimately show ?case
      using FormatRangedPorts_fits [of 300]
      by (auto simp: IptablesPortUtils_GetPortsTcpMatch_def Let_def split_beta split: xt_entry_match.split)
  qed simp
  with assms show "fst (IptablesPortUtils_GetPort e isSrc 300) \<noteq> IPTABLES_EXCEPTION"
    by (simp add: IptablesPortUtils_GetPort_def ports_counted_def)
qed

lemma rule_texts_fit_witness:
  "\<exists>e. matches e = [MultiportV1Match \<lparr>multiport_flags = 2, multiport_count = 15, ports = (\<lambda>_. 65535), pflags = (\<lambda>_. 0), multiport_invert = 1\<rparr>]
     \<and> fst (IptablesPortUtils_GetPort e True 300) = IPTABLES_OK"
proof -
  define e where "e = \<lparr>src = 0, smsk = 0, dst = 0, dmsk = 0, proto = 6, ip_flags = 0, invflags = 0,
    matches = [MultiportV1Match \<lparr>multiport_flags = 2, multiport_count = 15, ports = (\<lambda>_. 65535), pflags = (\<lambda>_. 0), multiport_invert = 1\<rparr>]\<rparr>"
  have "fst (IptablesPortUtils_GetPort e True 300) \<noteq> IPTABLES_EXCEPTION"
    using rule_texts_fit [of e True] by (simp add: ports_counted_def e_def)
  then have "fst (IptablesPortUtils_GetPort e True 300) = IPTABLES_OK"
    by (auto simp: e_def IptablesPortUtils_GetPort_def multiport_direction_def XT_MULTIPORT_DESTINATION_def
        IptablesMultiport_FormatMultiportV1Match_def Let_def split_beta split: if_splits)
  then show ?thesis by (intro exI [of _ e]) (simp add: e_def)
qed

end
