(* ===== verification/Firewall_Collector.thy ===== *)
theory Firewall_Collector
  imports Iptables
begin

text \<open>
  The collector of the packet filter's rules, \<^verbatim>\<open>src/agent/src/collectors/linux/firewall_collector.c\<close>, with the
  iterators over chains and rules, \<^verbatim>\<open>os_utils/linux/iptables/iptables_iterator.c\<close> and \<^verbatim>\<open>iptables_rules_iterator.c\<close>.
  The table libiptc reads is a parameter, by the moment it is read.
\<close>

definition FIREWALL_RULES_NAME :: string where "FIREWALL_RULES_NAME = ''FirewallConfiguration''"
definition FIREWALL_RULES_PAYLOAD_SCHEMA_VERSION :: string where "FIREWALL_RULES_PAYLOAD_SCHEMA_VERSION = ''1.0''"
definition FIREWALL_RULES_ENABLED_KEY :: string where "FIREWALL_RULES_ENABLED_KEY = ''Enabled''"
definition FIREWALL_RULES_ACTION_KEY :: string where "FIREWALL_RULES_ACTION_KEY = ''Action''"
definition FIREWALL_RULES_PROTOCOL_KEY :: string where "FIREWALL_RULES_PROTOCOL_KEY = ''Protocol''"
definition FIREWALL_RULES_CHAIN_NAME_KEY :: string where "FIREWALL_RULES_CHAIN_NAME_KEY = ''ChainName''"
definition FIREWALL_RULES_DIRECTION_KEY :: string where "FIREWALL_RULES_DIRECTION_KEY = ''Direction''"
definition FIREWALL_RULES_PRIORITY_KEY :: string where "FIREWALL_RULES_PRIORITY_KEY = ''Priority''"
definition FIREWALL_RULES_SRC_ADDRESS_KEY :: string where "FIREWALL_RULES_SRC_ADDRESS_KEY = ''SourceAddress''"
definition FIREWALL_RULES_SRC_PORT_KEY :: string where "FIREWALL_RULES_SRC_PORT_KEY = ''SourcePort''"
definition FIREWALL_RULES_DEST_ADDRESS_KEY :: string where "FIREWALL_RULES_DEST_ADDRESS_KEY = ''DestinationAddress''"
definition FIREWALL_RULES_DEST_PORT_KEY :: string where "FIREWALL_RULES_DEST_PORT_KEY = ''DestinationPort''"
definition FIREWALL_ALLOW_RULE :: string where "FIREWALL_ALLOW_RULE = ''Allow''"
definition FIREWALL_DENY_RULE :: string where "FIREWALL_DENY_RULE = ''Deny''"
definition FIREWALL_OTHER_RULE :: string where "FIREWALL_OTHER_RULE = ''Other''"
definition FIREWALL_INPUT_CHAIN :: string where "FIREWALL_INPUT_CHAIN = ''INPUT''"
definition FIREWALL_OUTPUT_CHAIN :: string where "FIREWALL_OUTPUT_CHAIN = ''OUTPUT''"
definition FIREWALL_DIRECTION_IN :: string where "FIREWALL_DIRECTION_IN = ''In''"
definition FIREWALL_DIRECTION_OUT :: string where "FIREWALL_DIRECTION_OUT = ''Out''"
definition BUFFER_MAX_SIZE :: u32 where "BUFFER_MAX_SIZE = 300"

section \<open>Chains and rules\<close>

text \<open>A chain of the table: its rules with their targets; a built-in chain has a policy.\<close>

record iptc_chain =
  chain_name :: string
  builtin :: bool
  policy :: "string option"
  rules :: "(ipt_entry \<times> string option) list"

definition find_chain :: "iptc_chain list \<Rightarrow> string \<Rightarrow> iptc_chain option" where
  "find_chain table name = find (\<lambda>c. chain_name c = name) table"

record IptablesIterator =
  iptcHandle :: "iptc_chain list"
  unread :: "iptc_chain list"
  started :: bool
  currentChain :: "string option"

record IptablesRulesIterator =
  rulesHandle :: "iptc_chain list"
  rulesChain :: "string option"
  rulesStarted :: bool
  currentEntry :: "(ipt_entry \<times> string option) list"

definition ENOPROTOOPT :: int where "ENOPROTOOPT = 92"

definition IptablesIterator_Init ::
  "(nat \<Rightarrow> iptc_chain list) \<Rightarrow> 'a env_scheme \<Rightarrow> (IptablesResults \<times> IptablesIterator option) \<times> 'a env_scheme" where
  "IptablesIterator_Init table w =
     (let (ok, w1) = sys_malloc w in
      if \<not> ok then ((IPTABLES_EXCEPTION, None), w1)
      else let (opened, w2) = sys_ext w1 in
        if \<not> opened
        then let (errno, w3) = sys_int w2
          in ((if errno = ENOPROTOOPT then IPTABLES_NO_DATA else IPTABLES_EXCEPTION, None), w3)
        else ((IPTABLES_OK, Some \<lparr>iptcHandle = table (tick w1), unread = [], started = False, currentChain = None\<rparr>), w2))"

definition IptablesIterator_GetNext :: "IptablesIterator \<Rightarrow> IptablesResults \<times> IptablesIterator" where
  "IptablesIterator_GetNext iterator =
     (let chains = (if \<not> started iterator then iptcHandle iterator else unread iterator) in
      case chains of
        [] \<Rightarrow> (IPTABLES_ITERATOR_NO_MORE_ITEMS, iterator\<lparr>started := True, unread := [], currentChain := None\<rparr>)
      | c # rest \<Rightarrow> (IPTABLES_ITERATOR_HAS_NEXT, iterator\<lparr>started := True, unread := rest, currentChain := Some (chain_name c)\<rparr>))"

definition IptablesIterator_GetChainName :: "IptablesIterator \<Rightarrow> IptablesResults \<times> string option" where
  "IptablesIterator_GetChainName iterator = (IPTABLES_OK, currentChain iterator)"

definition IptablesIterator_GetPolicyAction :: "IptablesIterator \<Rightarrow> IptablesResults \<times> IptablesActionType option" where
  "IptablesIterator_GetPolicyAction iterator =
     (case Option.bind (currentChain iterator) (find_chain (iptcHandle iterator)) of
        None \<Rightarrow> (IPTABLES_NO_DATA, None)
      | Some c \<Rightarrow>
          if \<not> builtin c then (IPTABLES_NO_DATA, None)
          else case policy c of
            None \<Rightarrow> (IPTABLES_EXCEPTION, None)
          | Some p \<Rightarrow> IptablesUtils_GetActionTypeEnumFromActionString (Some p))"

definition IptablesRulesIterator_Init ::
  "IptablesIterator \<Rightarrow> 'a env_scheme \<Rightarrow> (IptablesResults \<times> IptablesRulesIterator option) \<times> 'a env_scheme" where
  "IptablesRulesIterator_Init chainIterator w =
     (let (ok, w1) = sys_malloc w in
      if \<not> ok then ((IPTABLES_EXCEPTION, None), w1)
      else case Utils_CreateStringCopy (currentChain chainIterator) w1 of
        (None, w2) \<Rightarrow> ((IPTABLES_EXCEPTION, None), w2)
      | (Some name, w2) \<Rightarrow>
          ((IPTABLES_OK, Some \<lparr>rulesHandle = iptcHandle chainIterator, rulesChain = Some name, rulesStarted = False, currentEntry = []\<rparr>), w2))"

definition IptablesIterator_GetRulesIterator ::
  "IptablesIterator \<Rightarrow> 'a env_scheme \<Rightarrow> (IptablesResults \<times> IptablesRulesIterator option) \<times> 'a env_scheme" where
  "IptablesIterator_GetRulesIterator = IptablesRulesIterator_Init"

definition chain_rules :: "IptablesRulesIterator \<Rightarrow> (ipt_entry \<times> string option) list" where
  "chain_rules iterator =
     (case Option.bind (rulesChain iterator) (find_chain (rulesHandle iterator)) of None \<Rightarrow> [] | Some c \<Rightarrow> rules c)"

definition IptablesRulesIterator_GetNext :: "IptablesRulesIterator \<Rightarrow> IptablesResults \<times> IptablesRulesIterator" where
  "IptablesRulesIterator_GetNext iterator =
     (let left = (if \<not> rulesStarted iterator then chain_rules iterator else tl (currentEntry iterator))
      in (if left = [] then IPTABLES_ITERATOR_NO_MORE_ITEMS else IPTABLES_ITERATOR_HAS_NEXT,
          iterator\<lparr>rulesStarted := True, currentEntry := left\<rparr>))"

definition IptablesRulesIterator_GetChainName :: "IptablesRulesIterator \<Rightarrow> IptablesResults \<times> string option" where
  "IptablesRulesIterator_GetChainName iterator = (IPTABLES_OK, rulesChain iterator)"

definition IptablesRulesIterator_GetSrcIp :: "IptablesRulesIterator \<Rightarrow> u32 \<Rightarrow> IptablesResults \<times> string" where
  "IptablesRulesIterator_GetSrcIp iterator = IptablesIpUtils_GetIp (fst (hd (currentEntry iterator))) True"

definition IptablesRulesIterator_GetDestIp :: "IptablesRulesIterator \<Rightarrow> u32 \<Rightarrow> IptablesResults \<times> string" where
  "IptablesRulesIterator_GetDestIp iterator = IptablesIpUtils_GetIp (fst (hd (currentEntry iterator))) False"

definition IptablesRulesIterator_GetSrcPort :: "IptablesRulesIterator \<Rightarrow> u32 \<Rightarrow> IptablesResults \<times> string" where
  "IptablesRulesIterator_GetSrcPort iterator = IptablesPortUtils_GetPort (fst (hd (currentEntry iterator))) True"

definition IptablesRulesIterator_GetDestPort :: "IptablesRulesIterator \<Rightarrow> u32 \<Rightarrow> IptablesResults \<times> string" where
  "IptablesRulesIterator_GetDestPort iterator = IptablesPortUtils_GetPort (fst (hd (currentEntry iterator))) False"

definition IptablesRulesIterator_GetProtocol :: "IptablesRulesIterator \<Rightarrow> u32 \<Rightarrow> IptablesResults \<times> string" where
  "IptablesRulesIterator_GetProtocol iterator bufferSize =
     (let e = fst (hd (currentEntry iterator)) in
      if proto e = 0 then (IPTABLES_NO_DATA, [])
      else IptablesUtils_FormatProtocol (proto e) (flag_set (invflags e) IPT_INV_PROTO) bufferSize)"

definition IptablesRulesIterator_GetAction ::
  "IptablesRulesIterator \<Rightarrow> u32 \<Rightarrow> (IptablesResults \<times> IptablesActionType option) \<times> string" where
  "IptablesRulesIterator_GetAction iterator bufferSize =
     (let (e, targetName) = hd (currentEntry iterator) in
      case targetName of
        None \<Rightarrow> ((IPTABLES_NO_DATA, None), [])
      | Some target \<Rightarrow>
          if target = [] then ((IPTABLES_NO_DATA, None), [])
          else
            let (result, actionType) = IptablesUtils_GetActionTypeEnumFromActionString (Some target) in
            if result \<noteq> IPTABLES_OK then ((IPTABLES_EXCEPTION, None), [])
            else if flag_set (ip_flags e) IPT_F_GOTO
            then let (r, text) = write_text bufferSize (''goto '' @ target) in ((r, actionType), text)
            else if actionType = Some IPTABLES_ACTION_OTHER
            then let (r, text) = write_text bufferSize target in ((r, actionType), text)
            else ((IPTABLES_OK, actionType), []))"

section \<open>One rule\<close>

definition FirewallCollector_WriteRuleStringElement ::
  "('v, 'o, 'r, 'h) parson_doc \<Rightarrow> IptablesResults \<times> string \<Rightarrow> ('v, 'o) JsonObjectWriter \<Rightarrow> string \<Rightarrow>
    ('h, 'a) docs_env_scheme \<Rightarrow> EventCollectorResult \<times> ('h, 'a) docs_env_scheme" where
  "FirewallCollector_WriteRuleStringElement D read ruleWriter keyName w =
     (let (iptablesResult, buffer) = read in
      if iptablesResult = IPTABLES_OK then json_step (JsonObjectWriter_WriteString D ruleWriter keyName buffer) w
      else if iptablesResult \<noteq> IPTABLES_NO_DATA then (EVENT_COLLECTOR_EXCEPTION, w)
      else (EVENT_COLLECTOR_OK, w))"

definition FirewallCollector_WriteAction ::
  "('v, 'o, 'r, 'h) parson_doc \<Rightarrow> IptablesResults \<times> IptablesActionType option \<Rightarrow> ('v, 'o) JsonObjectWriter \<Rightarrow>
    ('h, 'a) docs_env_scheme \<Rightarrow> EventCollectorResult \<times> ('h, 'a) docs_env_scheme" where
  "FirewallCollector_WriteAction D read ruleWriter w =
     (let (iptablesResult, actionType) = read in
      if iptablesResult = IPTABLES_OK
      then json_step (JsonObjectWriter_WriteString D ruleWriter FIREWALL_RULES_ACTION_KEY
             (if actionType = Some IPTABLES_ACTION_ALLOW then FIREWALL_ALLOW_RULE
              else if actionType = Some IPTABLES_ACTION_DENY then FIREWALL_DENY_RULE else FIREWALL_OTHER_RULE)) w
      else if iptablesResult \<noteq> IPTABLES_NO_DATA then (EVENT_COLLECTOR_EXCEPTION, w)
      else (EVENT_COLLECTOR_OK, w))"

definition FirewallCollector_WriteRuleDirectionAndChainElements ::
  "('v, 'o, 'r, 'h) parson_doc \<Rightarrow> ('v, 'o) JsonObjectWriter \<Rightarrow> string option \<Rightarrow>
    ('h, 'a) docs_env_scheme \<Rightarrow> EventCollectorResult \<times> ('h, 'a) docs_env_scheme" where
  "FirewallCollector_WriteRuleDirectionAndChainElements D ruleWriter chainName w =
     (case chainName of
        None \<Rightarrow> (EVENT_COLLECTOR_EXCEPTION, w)
      | Some name \<Rightarrow>
          event_steps
            [json_step (JsonObjectWriter_WriteString D ruleWriter FIREWALL_RULES_CHAIN_NAME_KEY name),
             (if Utils_UnsafeAreStringsEqual name FIREWALL_INPUT_CHAIN True
              then json_step (JsonObjectWriter_WriteString D ruleWriter FIREWALL_RULES_DIRECTION_KEY FIREWALL_DIRECTION_IN)
              else if Utils_UnsafeAreStringsEqual name FIREWALL_OUTPUT_CHAIN True
              then json_step (JsonObjectWriter_WriteString D ruleWriter FIREWALL_RULES_DIRECTION_KEY FIREWALL_DIRECTION_OUT)
              else Pair EVENT_COLLECTOR_OK)] w)"

definition FirewallCollector_WriteRules ::
  "('v, 'o, 'r, 'h) parson_doc \<Rightarrow> ('v, 'r) JsonArrayWriter \<Rightarrow> IptablesRulesIterator \<Rightarrow> u32 \<Rightarrow>
    ('h, 'a) docs_env_scheme \<Rightarrow> EventCollectorResult \<times> ('h, 'a) docs_env_scheme" where
  "FirewallCollector_WriteRules D rulesPayloadArray rulesIterator priority =
     add_payload_object D rulesPayloadArray
       (\<lambda>ruleWriter.
         [json_step (JsonObjectWriter_WriteBool D ruleWriter FIREWALL_RULES_ENABLED_KEY True),
          json_step (JsonObjectWriter_WriteInt D ruleWriter FIREWALL_RULES_PRIORITY_KEY (sint priority)),
          FirewallCollector_WriteRuleDirectionAndChainElements D ruleWriter (snd (IptablesRulesIterator_GetChainName rulesIterator)),
          FirewallCollector_WriteRuleStringElement D (IptablesRulesIterator_GetSrcIp rulesIterator BUFFER_MAX_SIZE) ruleWriter
            FIREWALL_RULES_SRC_ADDRESS_KEY,
          FirewallCollector_WriteRuleStringElement D (IptablesRulesIterator_GetSrcPort rulesIterator BUFFER_MAX_SIZE) ruleWriter
            FIREWALL_RULES_SRC_PORT_KEY,
          FirewallCollector_WriteRuleStringElement D (IptablesRulesIterator_GetDestIp rulesIterator BUFFER_MAX_SIZE) ruleWriter
            FIREWALL_RULES_DEST_ADDRESS_KEY,
          FirewallCollector_WriteRuleStringElement D (IptablesRulesIterator_GetDestPort rulesIterator BUFFER_MAX_SIZE) ruleWriter
            FIREWALL_RULES_DEST_PORT_KEY,
          FirewallCollector_WriteRuleStringElement D (IptablesRulesIterator_GetProtocol rulesIterator BUFFER_MAX_SIZE) ruleWriter
            FIREWALL_RULES_PROTOCOL_KEY,
          FirewallCollector_WriteAction D (fst (IptablesRulesIterator_GetAction rulesIterator BUFFER_MAX_SIZE)) ruleWriter])"

definition FirewallCollector_WritePolicyRule ::
  "('v, 'o, 'r, 'h) parson_doc \<Rightarrow> ('v, 'r) JsonArrayWriter \<Rightarrow> IptablesIterator \<Rightarrow> u32 \<Rightarrow>
    ('h, 'a) docs_env_scheme \<Rightarrow> EventCollectorResult \<times> ('h, 'a) docs_env_scheme" where
  "FirewallCollector_WritePolicyRule D rulesPayloadArray chainIterator rulePriority =
     add_payload_object D rulesPayloadArray
       (\<lambda>ruleWriter.
         [json_step (JsonObjectWriter_WriteBool D ruleWriter FIREWALL_RULES_ENABLED_KEY True),
          json_step (JsonObjectWriter_WriteInt D ruleWriter FIREWALL_RULES_PRIORITY_KEY (sint rulePriority)),
          FirewallCollector_WriteRuleDirectionAndChainElements D ruleWriter (snd (IptablesIterator_GetChainName chainIterator)),
          FirewallCollector_WriteAction D (IptablesIterator_GetPolicyAction chainIterator) ruleWriter])"

section \<open>All rules of all chains\<close>

text \<open>How many rules an iterator has still to deliver.\<close>

definition rules_left :: "IptablesRulesIterator \<Rightarrow> nat" where
  "rules_left iterator = (if rulesStarted iterator then length (tl (currentEntry iterator)) else length (chain_rules iterator))"

lemma GetNext_fewer_rules:
  assumes "(IPTABLES_ITERATOR_HAS_NEXT, it1) = IptablesRulesIterator_GetNext it"
  shows "rules_left it1 < rules_left it"
proof -
  define ahead where "ahead = (if rulesStarted it then tl (currentEntry it) else chain_rules it)"
  have "ahead \<noteq> []" "it1 = it\<lparr>rulesStarted := True, currentEntry := ahead\<rparr>"
    using assms by (auto simp: IptablesRulesIterator_GetNext_def Let_def ahead_def split: if_splits)
  then have "rules_left it1 = length ahead - 1" "rules_left it = length ahead" "0 < length ahead"
    by (simp_all add: rules_left_def ahead_def)
  then show ?thesis by simp
qed

function rules_while ::
  "('v, 'o, 'r, 'h) parson_doc \<Rightarrow> ('v, 'r) JsonArrayWriter \<Rightarrow> IptablesRulesIterator \<Rightarrow> u32 \<Rightarrow>
    ('h, 'a) docs_env_scheme \<Rightarrow> (EventCollectorResult \<times> u32) \<times> ('h, 'a) docs_env_scheme" where
  "rules_while D rulesPayloadArray rulesIterator rulePriority w =
     (let (iteratorResult, it1) = IptablesRulesIterator_GetNext rulesIterator in
      if iteratorResult = IPTABLES_ITERATOR_HAS_NEXT
      then let (result, w1) = FirewallCollector_WriteRules D rulesPayloadArray it1 rulePriority w in
        if result \<noteq> EVENT_COLLECTOR_OK then ((result, rulePriority), w1)
        else rules_while D rulesPayloadArray it1 (rulePriority + 1) w1
      else ((if iteratorResult \<noteq> IPTABLES_ITERATOR_NO_MORE_ITEMS then EVENT_COLLECTOR_EXCEPTION else EVENT_COLLECTOR_OK,
             rulePriority), w))"
  by pat_completeness auto
termination
  by (relation "measure (\<lambda>(D, arr, it, p, w). rules_left it)") (auto dest: GetNext_fewer_rules)

declare rules_while.simps [simp del]

definition FirewallCollector_IterateRules ::
  "('v, 'o, 'r, 'h) parson_doc \<Rightarrow> ('v, 'r) JsonArrayWriter \<Rightarrow> IptablesIterator \<Rightarrow>
    ('h, 'a) docs_env_scheme \<Rightarrow> EventCollectorResult \<times> ('h, 'a) docs_env_scheme" where
  "FirewallCollector_IterateRules D rulesPayloadArray chainIterator w =
     (case IptablesIterator_GetRulesIterator chainIterator w of
        ((IPTABLES_OK, Some rulesIterator), w1) \<Rightarrow>
          (let ((result, rulePriority), w2) = rules_while D rulesPayloadArray rulesIterator 0 w1 in
           if result \<noteq> EVENT_COLLECTOR_OK then (result, w2)
           else FirewallCollector_WritePolicyRule D rulesPayloadArray chainIterator rulePriority w2)
      | (_, w1) \<Rightarrow> (EVENT_COLLECTOR_EXCEPTION, w1))"

definition chains_left :: "IptablesIterator \<Rightarrow> nat" where
  "chains_left iterator = (if started iterator then length (unread iterator) else length (iptcHandle iterator))"

lemma GetNext_fewer_chains:
  assumes "(IPTABLES_ITERATOR_HAS_NEXT, it1) = IptablesIterator_GetNext it"
  shows "chains_left it1 < chains_left it"
  using assms by (auto simp: IptablesIterator_GetNext_def Let_def chains_left_def split: if_splits list.splits)

function chains_while ::
  "('v, 'o, 'r, 'h) parson_doc \<Rightarrow> ('v, 'r) JsonArrayWriter \<Rightarrow> IptablesIterator \<Rightarrow>
    ('h, 'a) docs_env_scheme \<Rightarrow> EventCollectorResult \<times> ('h, 'a) docs_env_scheme" where
  "chains_while D rulesPayloadArray chainIterator w =
     (let (iteratorResult, it1) = IptablesIterator_GetNext chainIterator in
      if iteratorResult = IPTABLES_ITERATOR_HAS_NEXT
      then let (result, w1) = FirewallCollector_IterateRules D rulesPayloadArray it1 w in
        if result \<noteq> EVENT_COLLECTOR_OK then (result, w1) else chains_while D rulesPayloadArray it1 w1
      else (if iteratorResult \<noteq> IPTABLES_ITERATOR_NO_MORE_ITEMS then EVENT_COLLECTOR_EXCEPTION else EVENT_COLLECTOR_OK, w))"
  by pat_completeness auto
termination
  by (relation "measure (\<lambda>(D, arr, it, w). chains_left it)") (auto dest: GetNext_fewer_chains)

declare chains_while.simps [simp del]

text \<open>A device without packet filter has no rules; that is not an error.\<close>

definition read_chains ::
  "(nat \<Rightarrow> iptc_chain list) \<Rightarrow> ('v, 'o, 'r, 'h) parson_doc \<Rightarrow> ('v, 'r) JsonArrayWriter \<Rightarrow>
    ('h, 'a) docs_env_scheme \<Rightarrow> EventCollectorResult \<times> ('h, 'a) docs_env_scheme" where
  "read_chains table D rulesPayloadArray w =
     (case IptablesIterator_Init table w of
        ((IPTABLES_OK, Some chainIterator), w1) \<Rightarrow> chains_while D rulesPayloadArray chainIterator w1
      | ((IPTABLES_NO_DATA, _), w1) \<Rightarrow> (EVENT_COLLECTOR_OK, w1)
      | (_, w1) \<Rightarrow> (EVENT_COLLECTOR_EXCEPTION, w1))"

definition FirewallCollector_IterateChains ::
  "(nat \<Rightarrow> iptc_chain list) \<Rightarrow> ('v, 'o, 'r, 'h) parson_doc \<Rightarrow> ('v, 'r) JsonArrayWriter \<Rightarrow>
    ('h, 'a) linux_env_scheme \<Rightarrow> EventCollectorResult \<times> ('h, 'a) linux_env_scheme" where
  "FirewallCollector_IterateChains table D rulesPayloadArray =
     as_root EVENT_COLLECTOR_EXCEPTION (read_chains table D rulesPayloadArray)"

definition FirewallCollector_GetEvents ::
  "(nat \<Rightarrow> iptc_chain list) \<Rightarrow> ('v, 'o, 'r, 'h) parson_doc \<Rightarrow> nat \<Rightarrow> SyncQueue list \<Rightarrow> ('h, 'a) linux_env_scheme \<Rightarrow>
    (EventCollectorResult \<times> SyncQueue list) \<times> ('h, 'a) linux_env_scheme" where
  "FirewallCollector_GetEvents table D =
     collect_event D False
       (\<lambda>firewallRulesWriter. GenericEvent_AddMetadata D firewallRulesWriter EVENT_PERIODIC_CATEGORY FIREWALL_RULES_NAME
          EVENT_TYPE_SECURITY_VALUE FIREWALL_RULES_PAYLOAD_SCHEMA_VERSION)
       (FirewallCollector_IterateChains table D)"

section \<open>What it leaves behind\<close>

lemma clean_rule_parts:
  assumes D: "parson_lists D roots"
  shows "clean roots w (snd (FirewallCollector_WriteRuleStringElement D read rw key w))"
    "clean roots w (snd (FirewallCollector_WriteAction D act rw w))"
    "clean roots w (snd (FirewallCollector_WriteRuleDirectionAndChainElements D rw name w))"
proof -
  show "clean roots w (snd (FirewallCollector_WriteRuleStringElement D read rw key w))"
    "clean roots w (snd (FirewallCollector_WriteAction D act rw w))"
    by (auto simp: FirewallCollector_WriteRuleStringElement_def FirewallCollector_WriteAction_def Let_def split_beta
        intro: clean_writes [OF D])
  show "clean roots w (snd (FirewallCollector_WriteRuleDirectionAndChainElements D rw name w))"
    unfolding FirewallCollector_WriteRuleDirectionAndChainElements_def
    by (cases name) (auto simp del: event_steps.simps intro!: clean_steps clean_writes [OF D])
qed

lemma clean_rules:
  assumes D: "parson_lists D roots"
  shows "clean roots w (snd (FirewallCollector_WriteRules D arr it p w))"
    "clean roots w (snd (FirewallCollector_WritePolicyRule D arr ch p w))"
  unfolding FirewallCollector_WriteRules_def FirewallCollector_WritePolicyRule_def
  by (rule clean_payload_object [OF D]; auto intro: clean_writes [OF D] clean_rule_parts [OF D])+

lemma clean_rules_while: "parson_lists D roots \<Longrightarrow> clean roots w (snd (rules_while D arr it p w))"
proof (induction D arr it p w rule: rules_while.induct)
  case (1 D arr it p w)
  obtain r it1 where n: "IptablesRulesIterator_GetNext it = (r, it1)" by fastforce
  obtain x w1 where rule: "FirewallCollector_WriteRules D arr it1 p w = (x, w1)" by fastforce
  have here: "clean roots w w1" using clean_rules(1) [OF "1.prems", of w arr it1 p] by (simp add: rule)
  show ?case
  proof (cases "r = IPTABLES_ITERATOR_HAS_NEXT \<and> x = EVENT_COLLECTOR_OK")
    case True
    then have "clean roots w1 (snd (rules_while D arr it1 (p + 1) w1))"
      using "1.IH" [OF n [symmetric] refl _ rule [symmetric] refl] "1.prems" by auto
    with True show ?thesis using clean_trans [OF here] by (subst rules_while.simps) (simp add: n rule)
  next
    case False
    then show ?thesis using here by (subst rules_while.simps) (auto simp: n rule)
  qed
qed

lemma clean_iterate_rules:
  assumes D: "parson_lists D roots"
  shows "clean roots w (snd (FirewallCollector_IterateRules D arr it w))"
proof -
  obtain r ri w1 where init: "IptablesIterator_GetRulesIterator it w = ((r, ri), w1)" by (metis prod.collapse)
  have "clean roots w (snd (IptablesIterator_GetRulesIterator it w))"
    using clean_trans [OF clean_next clean_copies(1) [of roots _ "currentChain it"]]
    by (auto simp: IptablesIterator_GetRulesIterator_def IptablesRulesIterator_Init_def Let_def split_beta split: option.split)
  then have c1: "clean roots w w1" by (simp add: init)
  show ?thesis
  proof (cases "r = IPTABLES_OK \<and> ri \<noteq> None")
    case True
    then obtain i where i: "ri = Some i" by blast
    obtain x p w2 where loop: "rules_while D arr i 0 w1 = ((x, p), w2)" by (metis prod.collapse)
    have c2: "clean roots w w2" using clean_trans [OF c1, of w2] clean_rules_while [OF D, of w1 arr i 0] by (simp add: loop)
    from clean_trans [OF c2 clean_rules(2) [OF D]] c2 True show ?thesis
      by (simp add: FirewallCollector_IterateRules_def init i loop)
  next
    case False
    then show ?thesis using c1 by (auto simp: FirewallCollector_IterateRules_def init split: IptablesResults.split option.split)
  qed
qed

lemma clean_chains_while: "parson_lists D roots \<Longrightarrow> clean roots w (snd (chains_while D arr it w))"
proof (induction D arr it w rule: chains_while.induct)
  case (1 D arr it w)
  obtain r it1 where n: "IptablesIterator_GetNext it = (r, it1)" by fastforce
  obtain x w1 where rule: "FirewallCollector_IterateRules D arr it1 w = (x, w1)" by fastforce
  have here: "clean roots w w1" using clean_iterate_rules [OF "1.prems", of w arr it1] by (simp add: rule)
  show ?case
  proof (cases "r = IPTABLES_ITERATOR_HAS_NEXT \<and> x = EVENT_COLLECTOR_OK")
    case True
    then have "clean roots w1 (snd (chains_while D arr it1 w1))"
      using "1.IH" [OF n [symmetric] refl _ rule [symmetric] refl] "1.prems" by auto
    with True show ?thesis using clean_trans [OF here] by (subst chains_while.simps) (simp add: n rule)
  next
    case False
    then show ?thesis using here by (subst chains_while.simps) (auto simp: n rule)
  qed
qed
lemma clean_chains_init: "clean roots w (snd (IptablesIterator_Init table w))"
  using clean_trans [OF clean_next clean_next] clean_trans [OF clean_trans [OF clean_next clean_next] clean_next]
  by (auto simp: IptablesIterator_Init_def Let_def split_beta)

lemma firewall_read_clean:
  assumes D: "parson_lists D roots"
  shows "clean roots w (snd (read_chains table D arr w))"
proof -
  obtain r ci w1 where init: "IptablesIterator_Init table w = ((r, ci), w1)" by (metis prod.collapse)
  have "clean roots w w1" using clean_chains_init [of roots w table] by (simp add: init)
  with clean_trans [OF this clean_chains_while [OF D]] show ?thesis
    by (auto simp: read_chains_def init split: IptablesResults.split option.split)
qed

lemma firewall_apart:
  assumes "parson_lists D roots"
  shows "apart roots w (snd (FirewallCollector_IterateChains table D arr w))"
  unfolding FirewallCollector_IterateChains_def
  by (rule apart_root) (rule clean_apart [OF firewall_read_clean [OF assms]])

interpretation firewall: event_collector "FirewallCollector_GetEvents table D" "collectors_ready d N" D roots L "N + 2" "- {d}"
  for table D d N roots L
  unfolding FirewallCollector_GetEvents_def by (rule periodic_collector) (rule firewall_apart)

section \<open>Root is given back\<close>



section \<open>One rule of another protocol\<close>

lemma event_steps_OK: "fst (event_steps fs w) = EVENT_COLLECTOR_OK \<Longrightarrow> f \<in> set fs \<Longrightarrow> \<exists>v. fst (f v) = EVENT_COLLECTOR_OK"
proof (induction fs arbitrary: w)
  case (Cons g fs)
  obtain r w1 where g: "g w = (r, w1)" by fastforce
  with Cons.prems(1) have r: "r = EVENT_COLLECTOR_OK" "fst (event_steps fs w1) = EVENT_COLLECTOR_OK"
    by (auto split: if_splits)
  show ?case
  proof (cases "f = g")
    case True
    with g r(1) show ?thesis by (intro exI [of _ w]) simp
  next
    case False
    with Cons.prems(2) Cons.IH [OF r(2)] show ?thesis by simp
  qed
qed simp

lemma payload_object_OK:
  assumes "fst (add_payload_object D arr steps w) = EVENT_COLLECTOR_OK"
  shows "\<exists>obj v. fst (event_steps (steps obj) v) = EVENT_COLLECTOR_OK"
proof (rule ccontr)
  assume none: "\<nexists>obj v. fst (event_steps (steps obj) v) = EVENT_COLLECTOR_OK"
  obtain i w1 where init: "JsonObjectWriter_Init D w = (i, w1)" by fastforce
  obtain j obj where i: "i = (j, obj)" by fastforce
  from assms init i obtain wr where "obj = Some wr"
    by (auto simp: add_payload_object_def with_object_def split: JsonWriterResult.splits option.splits)
  moreover obtain r w2 where "event_steps (steps wr) w1 = (r, w2)" by fastforce
  moreover from this none have "r \<noteq> EVENT_COLLECTOR_OK" by (metis fst_conv)
  ultimately show False using assms init i
    by (auto simp: add_payload_object_def with_object_def Let_def split: JsonWriterResult.splits)
qed

lemma payload_object_step:
  assumes "fst (add_payload_object D arr steps w) = EVENT_COLLECTOR_OK" and "\<And>obj. f obj \<in> set (steps obj)"
  shows "\<exists>obj v. fst (f obj v) = EVENT_COLLECTOR_OK"
  using payload_object_OK [OF assms(1)] event_steps_OK [OF _ assms(2)] by blast

text \<open>The protocol of the rule an iterator stands at can be printed.\<close>

definition known_protocol :: "ipt_entry \<times> string option \<Rightarrow> bool" where
  "known_protocol rule \<longleftrightarrow> proto (fst rule) \<in> {0, IPPROTO_ICMP, IPPROTO_TCP, IPPROTO_UDP}"

lemma WriteRules_known:
  fixes w :: "('h, 'a) docs_env_scheme"
  assumes "fst (FirewallCollector_WriteRules D arr it p w) = EVENT_COLLECTOR_OK"
  shows "known_protocol (hd (currentEntry it))"
proof (rule ccontr)
  assume "\<not> known_protocol (hd (currentEntry it))"
  then have "IptablesRulesIterator_GetProtocol it BUFFER_MAX_SIZE = (IPTABLES_EXCEPTION, [])"
    by (simp add: known_protocol_def IptablesRulesIterator_GetProtocol_def IptablesUtils_FormatProtocol_def)
  then have "fst (FirewallCollector_WriteRuleStringElement D (IptablesRulesIterator_GetProtocol it BUFFER_MAX_SIZE) obj
      FIREWALL_RULES_PROTOCOL_KEY v) \<noteq> EVENT_COLLECTOR_OK" for obj v
    by (simp add: FirewallCollector_WriteRuleStringElement_def)
  moreover have "\<exists>obj (v :: ('h, 'a) docs_env_scheme). fst (FirewallCollector_WriteRuleStringElement D (IptablesRulesIterator_GetProtocol it BUFFER_MAX_SIZE) obj
      FIREWALL_RULES_PROTOCOL_KEY v) = EVENT_COLLECTOR_OK"
    by (rule payload_object_step [OF assms [unfolded FirewallCollector_WriteRules_def], where f = "\<lambda>obj.
      FirewallCollector_WriteRuleStringElement D (IptablesRulesIterator_GetProtocol it BUFFER_MAX_SIZE) obj FIREWALL_RULES_PROTOCOL_KEY"]) simp
  ultimately show False by blast
qed

definition rules_ahead :: "IptablesRulesIterator \<Rightarrow> (ipt_entry \<times> string option) list" where
  "rules_ahead it = (if rulesStarted it then tl (currentEntry it) else chain_rules it)"

lemma rules_while_known:
  "fst (fst (rules_while D arr it p w)) = EVENT_COLLECTOR_OK \<Longrightarrow> rule \<in> set (rules_ahead it) \<Longrightarrow> known_protocol rule"
proof (induction D arr it p w rule: rules_while.induct)
  case (1 D arr it p w)
  obtain r it1 where n: "IptablesRulesIterator_GetNext it = (r, it1)" by fastforce
  obtain x w1 where wrote: "FirewallCollector_WriteRules D arr it1 p w = (x, w1)" by fastforce
  from n "1.prems"(2) have r: "r = IPTABLES_ITERATOR_HAS_NEXT" "currentEntry it1 = rules_ahead it" "rulesStarted it1"
    by (auto simp: IptablesRulesIterator_GetNext_def rules_ahead_def Let_def split: if_splits)
  have "x = EVENT_COLLECTOR_OK"
    using "1.prems"(1) by (subst (asm) rules_while.simps) (auto simp: n r(1) wrote split: if_splits)
  then have first: "known_protocol (hd (rules_ahead it))"
    using WriteRules_known [of D arr it1 p w] wrote r(2) by simp
  have "fst (fst (rules_while D arr it1 (p + 1) w1)) = EVENT_COLLECTOR_OK"
    using "1.prems"(1) \<open>x = EVENT_COLLECTOR_OK\<close> by (subst (asm) rules_while.simps) (simp add: n r(1) wrote)
  from "1.IH" [OF n [symmetric] refl r(1) wrote [symmetric] refl _ this] \<open>x = EVENT_COLLECTOR_OK\<close> r(2,3)
  have rest: "rule \<in> set (tl (rules_ahead it)) \<Longrightarrow> known_protocol rule" by (simp add: rules_ahead_def)
  from "1.prems"(2) first rest show ?case by (cases "rules_ahead it") auto
qed

lemma IterateRules_known:
  assumes "fst (FirewallCollector_IterateRules D arr it w) = EVENT_COLLECTOR_OK"
    and "currentChain it = Some (chain_name c)" "find_chain (iptcHandle it) (chain_name c) = Some c" "rule \<in> set (rules c)"
  shows "known_protocol rule"
proof -
  obtain r ri w1 where init: "IptablesIterator_GetRulesIterator it w = ((r, ri), w1)" by (metis prod.collapse)
  from assms(1) init obtain i where i: "r = IPTABLES_OK" "ri = Some i"
    by (auto simp: FirewallCollector_IterateRules_def split: IptablesResults.splits option.splits)
  from init i assms(2) have "i = \<lparr>rulesHandle = iptcHandle it, rulesChain = Some (chain_name c), rulesStarted = False, currentEntry = []\<rparr>"
    by (auto simp: IptablesIterator_GetRulesIterator_def IptablesRulesIterator_Init_def Utils_CreateStringCopy_def Let_def
        split: prod.splits option.splits if_splits)
  then have "rules_ahead i = rules c" using assms(3) by (simp add: rules_ahead_def chain_rules_def)
  moreover have "fst (fst (rules_while D arr i 0 w1)) = EVENT_COLLECTOR_OK"
    using assms(1) init i by (auto simp: FirewallCollector_IterateRules_def split: prod.splits if_splits)
  ultimately show ?thesis using rules_while_known assms(4) by metis
qed

definition chains_ahead :: "IptablesIterator \<Rightarrow> iptc_chain list" where
  "chains_ahead it = (if started it then unread it else iptcHandle it)"

lemma chains_while_known:
  "fst (chains_while D arr it w) = EVENT_COLLECTOR_OK \<Longrightarrow> c \<in> set (chains_ahead it) \<Longrightarrow>
    find_chain (iptcHandle it) (chain_name c) = Some c \<Longrightarrow> rule \<in> set (rules c) \<Longrightarrow> known_protocol rule"
proof (induction D arr it w rule: chains_while.induct)
  case (1 D arr it w)
  obtain d rest where ahead: "chains_ahead it = d # rest" using "1.prems"(2) by (cases "chains_ahead it") auto
  define it1 where "it1 = it\<lparr>started := True, unread := rest, currentChain := Some (chain_name d)\<rparr>"
  have n: "IptablesIterator_GetNext it = (IPTABLES_ITERATOR_HAS_NEXT, it1)"
    using ahead by (auto simp: IptablesIterator_GetNext_def chains_ahead_def Let_def it1_def split: if_splits)
  obtain x w1 where run: "FirewallCollector_IterateRules D arr it1 w = (x, w1)" by fastforce
  have x: "x = EVENT_COLLECTOR_OK"
    using "1.prems"(1) by (subst (asm) chains_while.simps) (auto simp: n run split: if_splits)
  have "fst (chains_while D arr it1 w1) = EVENT_COLLECTOR_OK"
    using "1.prems"(1) x by (subst (asm) chains_while.simps) (simp add: n run)
  from "1.IH" [OF n [symmetric] refl refl run [symmetric] refl _ this] x "1.prems"(3,4)
  have rest: "c \<in> set rest \<Longrightarrow> known_protocol rule" by (simp add: chains_ahead_def it1_def)
  have "c = d \<Longrightarrow> known_protocol rule"
    using IterateRules_known [of D arr it1 w c rule] run x "1.prems"(3,4) by (simp add: it1_def)
  with rest "1.prems"(2) ahead show ?case by auto
qed

lemma find_chain_distinct: "distinct (map chain_name table) \<Longrightarrow> c \<in> set table \<Longrightarrow> find_chain table (chain_name c) = Some c"
  by (induction table) (auto simp: find_chain_def)

lemma IterateChains_unknown:
  fixes w :: "('h, 'a) linux_env_scheme"
  assumes "\<forall>n. extOk w n" and "\<forall>n. distinct (map chain_name (table n)) \<and> (\<exists>c \<in> set (table n). \<exists>rule \<in> set (rules c). \<not> known_protocol rule)"
  shows "fst (FirewallCollector_IterateChains table D arr w) \<noteq> EVENT_COLLECTOR_OK"
proof
  assume "fst (FirewallCollector_IterateChains table D arr w) = EVENT_COLLECTOR_OK"
  then obtain v :: "('h, 'a) linux_env_scheme" where v: "fst (read_chains table D arr v) = EVENT_COLLECTOR_OK" "extOk v = extOk w"
    by (auto simp: FirewallCollector_IterateChains_def as_root_def ProcessInfoHandler_ChangeToRoot_def Let_def split_beta
        seteuid_frame split: if_splits)
  obtain r it v1 where init: "IptablesIterator_Init table v = ((r, it), v1)" by (metis prod.collapse)
  with v assms(1) have loop: "allocOk v (tick v)" "fst (chains_while D arr (the it) v1) = EVENT_COLLECTOR_OK"
    by (auto simp: read_chains_def IptablesIterator_Init_def sys_defs Let_def split: if_splits)
  obtain k where it: "the it = \<lparr>iptcHandle = table k, unread = [], started = False, currentChain = None\<rparr>"
    using init loop(1) v(2) assms(1) by (auto simp: IptablesIterator_Init_def sys_defs Let_def)
  obtain c rule where c: "c \<in> set (table k)" "rule \<in> set (rules c)" "\<not> known_protocol rule" using assms(2) by blast
  from assms(2) have "distinct (map chain_name (table k))" by blast
  from chains_while_known [OF loop(2), of c rule] c it find_chain_distinct [OF this c(1)] show False by (simp add: chains_ahead_def)
qed

text \<open>
  A single rule of a protocol other than ICMP, TCP and UDP anywhere in the table keeps the whole firewall event from
  being sent: the collector fails and the queues stay as they were.
\<close>

theorem one_rule_hides_the_firewall:
  fixes w :: "('h, 'a) linux_env_scheme"
  assumes "parson_lists D roots" and "\<forall>n. extOk w n"
    and "\<forall>n. distinct (map chain_name (table n)) \<and> (\<exists>c \<in> set (table n). \<exists>rule \<in> set (rules c). \<not> known_protocol rule)"
    and "FirewallCollector_GetEvents table D i sqs w = ((r, sqs'), w')"
  shows "r \<noteq> EVENT_COLLECTOR_OK \<and> sqs' = sqs \<and> queueItems w' = queueItems w \<and> booked_bytes w' = booked_bytes w"
proof -
  let ?P = "\<lambda>v :: ('h, 'a) linux_env_scheme. extOk v = extOk w \<and> queueItems v = queueItems w \<and> booked_bytes v = booked_bytes w"
  have docs: "?P v'" if "?P v" "doc_frame v v'" for v v' using that by (auto simp: doc_frame_def)
  have fill: "?P (snd (FirewallCollector_IterateChains table D arr v))" if "?P v" for arr v
    using that firewall_apart [OF assms(1), of v table arr] by (simp add: apart_def aside_def user_kept_def)
  from assms(1) _ docs fill assms(4) [unfolded FirewallCollector_GetEvents_def] show ?thesis
  proof (rule collector_filled [where P = ?P])
    show "?P w" by simp
    fix arr v assume "?P v" "fst (FirewallCollector_IterateChains table D arr v) = EVENT_COLLECTOR_OK"
    with IterateChains_unknown [of v table D arr] assms(2,3) show ?thesis by simp
  qed simp_all
qed

text \<open>A table with one chain and one rule for GRE, protocol 47.\<close>

definition gre_table :: "iptc_chain list" where
  "gre_table = [\<lparr>chain_name = ''INPUT'', builtin = True, policy = Some ''ACCEPT'',
     rules = [(\<lparr>src = 0, smsk = 0, dst = 0, dmsk = 0, proto = 47, ip_flags = 0, invflags = 0, matches = []\<rparr>, Some ''DROP'')]\<rparr>]"

lemma one_rule_hides_the_firewall_witness:
  "\<exists>r sqs' w'. FirewallCollector_GetEvents (\<lambda>_. gre_table) text_doc 1 [new_sync 0, new_sync 1] (calm_linux_with calm_store) = ((r, sqs'), w')
     \<and> r \<noteq> EVENT_COLLECTOR_OK \<and> sqs' = [new_sync 0, new_sync 1]"
proof -
  have table: "\<forall>n :: nat. distinct (map chain_name gre_table) \<and> (\<exists>c \<in> set gre_table. \<exists>rule \<in> set (rules c). \<not> known_protocol rule)"
    by (simp add: gre_table_def known_protocol_def IPPROTO_ICMP_def IPPROTO_TCP_def IPPROTO_UDP_def)
  obtain r sqs' w' where run: "FirewallCollector_GetEvents (\<lambda>_. gre_table) text_doc 1 [new_sync 0, new_sync 1] (calm_linux_with calm_store) = ((r, sqs'), w')"
    by (metis prod.collapse)
  from one_rule_hides_the_firewall [OF text_doc_lists(1) _ table run] run show ?thesis by simp
qed

end
