(* ===== verification/Local_Users_Collector.thy ===== *)
theory Local_Users_Collector
  imports Linux_Process
begin

text \<open>
  The local users and their groups, \<^verbatim>\<open>src/agent/src/collectors/linux/local_users_collector.c\<close> with the iterators
  \<^verbatim>\<open>os_utils/linux/users_iterator.c\<close> and \<^verbatim>\<open>groups_iterator.c\<close>.  The user and the group database are read through the C
  library; what they answer is a parameter, by the moment of the call.
\<close>

definition LOCAL_USERS_NAME :: string where "LOCAL_USERS_NAME = ''LocalUsers''"
definition LOCAL_USERS_PAYLOAD_SCHEMA_VERSION :: string where "LOCAL_USERS_PAYLOAD_SCHEMA_VERSION = ''1.0''"
definition LOCAL_USERS_USER_NAME_KEY :: string where "LOCAL_USERS_USER_NAME_KEY = ''UserName''"
definition LOCAL_USERS_USER_ID_KEY :: string where "LOCAL_USERS_USER_ID_KEY = ''UserId''"
definition LOCAL_USERS_GROUP_NAMES_KEY :: string where "LOCAL_USERS_GROUP_NAMES_KEY = ''GroupNames''"
definition LOCAL_USERS_GROUP_IDS_KEY :: string where "LOCAL_USERS_GROUP_IDS_KEY = ''GroupIds''"
definition LOCAL_USERS_PAYLOAD_DELIMITER :: string where "LOCAL_USERS_PAYLOAD_DELIMITER = '';''"
definition MAX_ID_AS_STRING_LENGTH :: int where "MAX_ID_AS_STRING_LENGTH = 11"

section \<open>The databases\<close>

record passwd =
  pw_name :: string
  pw_uid :: u32
  pw_gid :: u32

record group =
  gr_name :: string
  gr_gid :: u32

text \<open>
  The entries \<open>getpwent\<close> delivers and whether it then fails; the groups of a user (\<open>getgrouplist\<close>, at least the one
  of the entry); the group of an id (\<open>getgrgid\<close>).
\<close>

record user_db =
  users :: "nat \<Rightarrow> passwd list \<times> bool"
  grouplist :: "nat \<Rightarrow> passwd \<Rightarrow> u32 list"
  getgrgid :: "nat \<Rightarrow> u32 \<Rightarrow> group option"

section \<open>Users\<close>

datatype UserIteratorResults = USER_ITERATOR_OK | USER_ITERATOR_HAS_NEXT | USER_ITERATOR_STOP | USER_ITERATOR_EXCEPTION

text \<open>The position in the database belongs to the C library; the iterator keeps the current entry.\<close>

record UsersIterator =
  entries :: "passwd list"
  entriesFail :: bool
  currentUser :: "passwd option"

definition UsersIterator_Init :: "user_db \<Rightarrow> 'a env_scheme \<Rightarrow> (UserIteratorResults \<times> UsersIterator option) \<times> 'a env_scheme" where
  "UsersIterator_Init db w =
     (let (ok, w1) = sys_malloc w in
      if \<not> ok then ((USER_ITERATOR_EXCEPTION, None), w1)
      else ((USER_ITERATOR_OK, Some \<lparr>entries = fst (users db (tick w1)), entriesFail = snd (users db (tick w1)), currentUser = None\<rparr>), w1))"

definition UsersIterator_GetNext :: "UsersIterator \<Rightarrow> UserIteratorResults \<times> UsersIterator" where
  "UsersIterator_GetNext iterator =
     (case entries iterator of
        [] \<Rightarrow> (if entriesFail iterator then USER_ITERATOR_EXCEPTION else USER_ITERATOR_STOP, iterator\<lparr>currentUser := None\<rparr>)
      | u # rest \<Rightarrow> (USER_ITERATOR_HAS_NEXT, iterator\<lparr>entries := rest, currentUser := Some u\<rparr>))"

definition UsersIterator_GetUsername :: "UsersIterator \<Rightarrow> string" where
  "UsersIterator_GetUsername iterator = pw_name (the (currentUser iterator))"

text \<open>An unsigned id printed as an \<open>int32_t\<close>.\<close>

definition UsersIterator_GetUserId :: "UsersIterator \<Rightarrow> int \<Rightarrow> UserIteratorResults \<times> string" where
  "UsersIterator_GetUserId iterator outBufferSize =
     (let (ok, text, _) = Utils_IntegerToString (sint (pw_uid (the (currentUser iterator)))) outBufferSize
      in (if ok then USER_ITERATOR_OK else USER_ITERATOR_EXCEPTION, text))"

section \<open>Groups\<close>

text \<open>\<open>groups\<close> is the allocated array; \<open>groupsCount\<close> is what the second call of \<open>getgrouplist\<close> left there.\<close>

record GroupsIterator =
  groups :: "u32 list"
  groupsCount :: u32
  currentGroupIndex :: u32
  currentGroup :: "group option"

definition GroupsIterator_Init :: "user_db \<Rightarrow> passwd \<Rightarrow> 'a env_scheme \<Rightarrow> GroupsIterator option \<times> 'a env_scheme" where
  "GroupsIterator_Init db user w =
     (let (ok, w1) = sys_malloc w in
      if \<not> ok then (None, w1)
      else
        let gids = grouplist db (tick w1) user; (ok2, w2) = (if gids \<noteq> [] then sys_malloc w1 else (True, w1)) in
        if \<not> ok2 then (None, w2)
        else
          let now = grouplist db (tick w2) user
          in (Some \<lparr>groups = take (length gids) now, groupsCount = of_nat (length now), currentGroupIndex = 0, currentGroup = None\<rparr>, w2))"

definition GroupsIterator_HasNext :: "GroupsIterator \<Rightarrow> bool" where
  "GroupsIterator_HasNext iterator \<longleftrightarrow> currentGroupIndex iterator < groupsCount iterator"

text \<open>An index behind the array reads other memory.\<close>

definition GroupsIterator_Next :: "user_db \<Rightarrow> GroupsIterator \<Rightarrow> 'a env_scheme \<Rightarrow> (bool \<times> GroupsIterator) \<times> 'a env_scheme" where
  "GroupsIterator_Next db iterator w =
     (let i = unat (currentGroupIndex iterator);
          w1 = (if i < length (groups iterator) then w else w\<lparr>fault := True\<rparr>);
          current = getgrgid db (tick w1) (if i < length (groups iterator) then groups iterator ! i else 0)
      in ((current \<noteq> None, iterator\<lparr>currentGroup := current, currentGroupIndex := currentGroupIndex iterator + 1\<rparr>), next_tick w1))"

definition GroupsIterator_Reset :: "GroupsIterator \<Rightarrow> GroupsIterator" where
  "GroupsIterator_Reset iterator = iterator\<lparr>currentGroupIndex := 0, currentGroup := None\<rparr>"

definition GroupsIterator_GetGroupsCount :: "GroupsIterator \<Rightarrow> u32" where
  "GroupsIterator_GetGroupsCount iterator = groupsCount iterator"

definition GroupsIterator_GetName :: "GroupsIterator \<Rightarrow> string" where
  "GroupsIterator_GetName iterator = gr_name (the (currentGroup iterator))"

definition GroupsIterator_GetId :: "GroupsIterator \<Rightarrow> u32" where
  "GroupsIterator_GetId iterator = gr_gid (the (currentGroup iterator))"

definition UsersIterator_CreateGroupsIterator ::
  "user_db \<Rightarrow> UsersIterator \<Rightarrow> 'a env_scheme \<Rightarrow> (UserIteratorResults \<times> GroupsIterator option) \<times> 'a env_scheme" where
  "UsersIterator_CreateGroupsIterator db iterator w =
     (case GroupsIterator_Init db (the (currentUser iterator)) w of
        (None, w1) \<Rightarrow> ((USER_ITERATOR_EXCEPTION, None), w1)
      | (Some g, w1) \<Rightarrow> ((USER_ITERATOR_OK, Some g), w1))"

definition groups_left :: "GroupsIterator \<Rightarrow> nat" where
  "groups_left iterator = unat (groupsCount iterator) - unat (currentGroupIndex iterator)"

lemma Next_fewer_groups:
  assumes "GroupsIterator_HasNext it" "((ok, it1), w1) = GroupsIterator_Next db it w"
  shows "groups_left it1 < groups_left it"
proof -
  have less: "unat (currentGroupIndex it) < unat (groupsCount it)"
    using assms(1) by (simp add: GroupsIterator_HasNext_def word_less_nat_alt)
  then have "unat (currentGroupIndex it + 1) = unat (currentGroupIndex it) + 1"
    using u32_le [of "groupsCount it"] by (simp add: unat_simps)
  with less assms(2) show ?thesis by (simp add: groups_left_def GroupsIterator_Next_def Let_def)
qed

section \<open>The texts of the groups\<close>

text \<open>One group's id as a text of at most ten characters.\<close>

definition group_id_text :: "GroupsIterator \<Rightarrow> bool \<times> string \<times> int" where
  "group_id_text iterator = Utils_IntegerToString (sint (GroupsIterator_GetId iterator)) MAX_ID_AS_STRING_LENGTH"

function sizes_while ::
  "user_db \<Rightarrow> GroupsIterator \<Rightarrow> u32 \<Rightarrow> u32 \<Rightarrow> 'a env_scheme \<Rightarrow> (bool \<times> GroupsIterator \<times> u32 \<times> u32) \<times> 'a env_scheme" where
  "sizes_while db it namesSize idsSize w =
     (if GroupsIterator_HasNext it
      then let ((ok, it1), w1) = GroupsIterator_Next db it w in
        if \<not> ok then ((False, it1, namesSize, idsSize), w1)
        else
          let namesSize1 = namesSize + of_nat (length (GroupsIterator_GetName it1));
              (ok2, text, size) = group_id_text it1
          in if \<not> ok2 then ((False, it1, namesSize1, idsSize), w1)
             else sizes_while db it1 namesSize1 (idsSize + of_int size) w1
      else ((True, it, namesSize, idsSize), w))"
  by pat_completeness auto
termination
  by (relation "measure (\<lambda>(db, it, n, i, w). groups_left it)") (auto dest: Next_fewer_groups)

declare sizes_while.simps [simp del]

definition LocalUsersCollector_CalculateSizeOfGroups ::
  "user_db \<Rightarrow> GroupsIterator \<Rightarrow> 'a env_scheme \<Rightarrow> (bool \<times> GroupsIterator \<times> u32 \<times> u32) \<times> 'a env_scheme" where
  "LocalUsersCollector_CalculateSizeOfGroups db groupsIterator w =
     (let numOfGroups = GroupsIterator_GetGroupsCount groupsIterator;
          delimiters = of_nat (length LOCAL_USERS_PAYLOAD_DELIMITER) * (numOfGroups - 1) + 1
      in sizes_while db groupsIterator delimiters delimiters w)"

text \<open>A zeroed buffer of \<open>capacity\<close> bytes with the text written to its front.\<close>

record text_buffer =
  capacity :: u32
  content :: string

definition LocalUsersCollector_AppendValueName :: "text_buffer \<Rightarrow> bool \<Rightarrow> string \<Rightarrow> text_buffer" where
  "LocalUsersCollector_AppendValueName combinedValue isFirst v =
     combinedValue\<lparr>content := content combinedValue @ (if isFirst then [] else LOCAL_USERS_PAYLOAD_DELIMITER) @ v\<rparr>"

text \<open>The text ends inside the buffer, terminator included.\<close>

definition buffer_fits :: "text_buffer \<Rightarrow> bool" where
  "buffer_fits b \<longleftrightarrow> length (content b) < unat (capacity b)"

text \<open>Appending behind the end of the buffer writes other memory.\<close>

definition append_value :: "text_buffer \<Rightarrow> bool \<Rightarrow> string \<Rightarrow> 'a env_scheme \<Rightarrow> text_buffer \<times> 'a env_scheme" where
  "append_value b isFirst v w =
     (let b' = LocalUsersCollector_AppendValueName b isFirst v
      in (b', if length (content b') \<le> unat (capacity b) then w else w\<lparr>fault := True\<rparr>))"

function texts_while ::
  "user_db \<Rightarrow> GroupsIterator \<Rightarrow> bool \<Rightarrow> text_buffer \<Rightarrow> text_buffer \<Rightarrow> 'a env_scheme \<Rightarrow> (bool \<times> text_buffer \<times> text_buffer) \<times> 'a env_scheme" where
  "texts_while db it isFirst names ids w =
     (if GroupsIterator_HasNext it
      then let ((ok, it1), w1) = GroupsIterator_Next db it w in
        if \<not> ok then ((False, names, ids), w1)
        else
          let (names1, w2) = append_value names isFirst (GroupsIterator_GetName it1) w1; (ok2, text, _) = group_id_text it1
          in if \<not> ok2 then ((False, names1, ids), w2)
             else let (ids1, w3) = append_value ids isFirst text w2 in texts_while db it1 False names1 ids1 w3
      else ((True, names, ids), w))"
  by pat_completeness auto
termination
  by (relation "measure (\<lambda>(db, it, f, n, i, w). groups_left it)") (auto dest: Next_fewer_groups)

declare texts_while.simps [simp del]

definition LocalUsersCollector_GenerateGroupNamesAndIds ::
  "user_db \<Rightarrow> GroupsIterator \<Rightarrow> text_buffer \<Rightarrow> text_buffer \<Rightarrow> 'a env_scheme \<Rightarrow> (bool \<times> text_buffer \<times> text_buffer) \<times> 'a env_scheme" where
  "LocalUsersCollector_GenerateGroupNamesAndIds db groupsIterator = texts_while db groupsIterator True"

text \<open>The two texts of the user's groups; a text without terminator is read behind its end.\<close>

definition group_texts :: "user_db \<Rightarrow> UsersIterator \<Rightarrow> 'a env_scheme \<Rightarrow> (string \<times> string) option \<times> 'a env_scheme" where
  "group_texts db usersIterator w =
     (case UsersIterator_CreateGroupsIterator db usersIterator w of
        ((USER_ITERATOR_OK, Some groupsIterator), w1) \<Rightarrow>
          (let ((ok, it1, namesSize, idsSize), w2) = LocalUsersCollector_CalculateSizeOfGroups db groupsIterator w1 in
           if \<not> ok then (None, w2)
           else let (ok2, w3) = sys_malloc w2 in
             if \<not> ok2 then (None, w3)
             else let (ok3, w4) = sys_malloc w3 in
               if \<not> ok3 then (None, w4)
               else
                 let ((ok4, names, ids), w5) =
                   LocalUsersCollector_GenerateGroupNamesAndIds db (GroupsIterator_Reset it1) \<lparr>capacity = namesSize, content = []\<rparr>
                     \<lparr>capacity = idsSize, content = []\<rparr> w4 in
                 if \<not> ok4 then (None, w5)
                 else (Some (content names, content ids), if buffer_fits names \<and> buffer_fits ids then w5 else w5\<lparr>fault := True\<rparr>))
      | (_, w1) \<Rightarrow> (None, w1))"

definition LocalUsersCollector_AddGroupsForUser ::
  "user_db \<Rightarrow> ('v, 'o, 'r, 'h) parson_doc \<Rightarrow> UsersIterator \<Rightarrow> ('v, 'o) JsonObjectWriter \<Rightarrow> ('h, 'a) docs_env_scheme \<Rightarrow>
    EventCollectorResult \<times> ('h, 'a) docs_env_scheme" where
  "LocalUsersCollector_AddGroupsForUser db D usersIterator parentObj w =
     (case group_texts db usersIterator w of
        (None, w1) \<Rightarrow> (EVENT_COLLECTOR_EXCEPTION, w1)
      | (Some (names, ids), w1) \<Rightarrow>
          event_steps
            [json_step (JsonObjectWriter_WriteString D parentObj LOCAL_USERS_GROUP_NAMES_KEY names),
             json_step (JsonObjectWriter_WriteString D parentObj LOCAL_USERS_GROUP_IDS_KEY ids)] w1)"

text \<open>A user whose groups cannot be added is reported without them.\<close>

definition LocalUsersCollector_AddSingleUser ::
  "user_db \<Rightarrow> ('v, 'o, 'r, 'h) parson_doc \<Rightarrow> UsersIterator \<Rightarrow> ('v, 'r) JsonArrayWriter \<Rightarrow> ('h, 'a) docs_env_scheme \<Rightarrow>
    EventCollectorResult \<times> ('h, 'a) docs_env_scheme" where
  "LocalUsersCollector_AddSingleUser db D usersIterator parentObj =
     add_payload_object D parentObj
       (\<lambda>userObject.
         [json_step (JsonObjectWriter_WriteString D userObject LOCAL_USERS_USER_NAME_KEY (UsersIterator_GetUsername usersIterator)),
          (\<lambda>w. let (r, userIdStr) = UsersIterator_GetUserId usersIterator 33 in
             if r \<noteq> USER_ITERATOR_OK then (EVENT_COLLECTOR_EXCEPTION, w)
             else json_step (JsonObjectWriter_WriteString D userObject LOCAL_USERS_USER_ID_KEY userIdStr) w),
          (\<lambda>w. (EVENT_COLLECTOR_OK, snd (LocalUsersCollector_AddGroupsForUser db D usersIterator userObject w)))])"

lemma GetNext_fewer_users:
  assumes "(USER_ITERATOR_HAS_NEXT, it1) = UsersIterator_GetNext it"
  shows "length (entries it1) < length (entries it)"
  using assms by (auto simp: UsersIterator_GetNext_def split: list.splits if_splits)

text \<open>A user that cannot be added is only logged.\<close>

function users_while ::
  "user_db \<Rightarrow> ('v, 'o, 'r, 'h) parson_doc \<Rightarrow> UsersIterator \<Rightarrow> ('v, 'r) JsonArrayWriter \<Rightarrow> ('h, 'a) docs_env_scheme \<Rightarrow>
    EventCollectorResult \<times> ('h, 'a) docs_env_scheme" where
  "users_while db D usersIterator usersPayloadArray w =
     (let (iteratorResult, it1) = UsersIterator_GetNext usersIterator in
      if iteratorResult = USER_ITERATOR_HAS_NEXT
      then users_while db D it1 usersPayloadArray (snd (LocalUsersCollector_AddSingleUser db D it1 usersPayloadArray w))
      else (if iteratorResult \<noteq> USER_ITERATOR_STOP then EVENT_COLLECTOR_EXCEPTION else EVENT_COLLECTOR_OK, w))"
  by pat_completeness auto
termination
  by (relation "measure (\<lambda>(db, D, it, arr, w). length (entries it))") (auto dest: GetNext_fewer_users)

declare users_while.simps [simp del]

definition local_users_payload ::
  "user_db \<Rightarrow> ('v, 'o, 'r, 'h) parson_doc \<Rightarrow> ('v, 'r) JsonArrayWriter \<Rightarrow> ('h, 'a) docs_env_scheme \<Rightarrow>
    EventCollectorResult \<times> ('h, 'a) docs_env_scheme" where
  "local_users_payload db D usersPayloadArray w =
     (case UsersIterator_Init db w of
        ((USER_ITERATOR_OK, Some usersIterator), w1) \<Rightarrow> users_while db D usersIterator usersPayloadArray w1
      | (_, w1) \<Rightarrow> (EVENT_COLLECTOR_EXCEPTION, w1))"

definition LocalUsersCollector_GetEvents ::
  "user_db \<Rightarrow> ('v, 'o, 'r, 'h) parson_doc \<Rightarrow> nat \<Rightarrow> SyncQueue list \<Rightarrow> ('h, 'a) linux_env_scheme \<Rightarrow>
    (EventCollectorResult \<times> SyncQueue list) \<times> ('h, 'a) linux_env_scheme" where
  "LocalUsersCollector_GetEvents db D =
     collect_event D False
       (\<lambda>usersEventWriter. GenericEvent_AddMetadata D usersEventWriter EVENT_PERIODIC_CATEGORY LOCAL_USERS_NAME
          EVENT_TYPE_SECURITY_VALUE LOCAL_USERS_PAYLOAD_SCHEMA_VERSION)
       (local_users_payload db D)"

section \<open>The texts fit into their buffers\<close>

text \<open>A database that does not change while it is read.\<close>

definition steady :: "user_db \<Rightarrow> bool" where
  "steady db \<longleftrightarrow> (\<forall>n. grouplist db n = grouplist db 0 \<and> getgrgid db n = getgrgid db 0)"

definition name_of :: "user_db \<Rightarrow> u32 \<Rightarrow> string" where
  "name_of db gid = gr_name (the (getgrgid db 0 gid))"

definition id_of :: "user_db \<Rightarrow> u32 \<Rightarrow> string" where
  "id_of db gid = int_to_dec (sint (gr_gid (the (getgrgid db 0 gid))))"

text \<open>The group exists and its id, taken as a signed number, has at most ten characters.\<close>

definition group_printable :: "user_db \<Rightarrow> u32 \<Rightarrow> bool" where
  "group_printable db gid \<longleftrightarrow> getgrgid db 0 gid \<noteq> None \<and> length (id_of db gid) \<le> 10"

fun joined :: "bool \<Rightarrow> string list \<Rightarrow> string" where
  "joined isFirst [] = []"
| "joined isFirst (x # xs) = (if isFirst then [] else LOCAL_USERS_PAYLOAD_DELIMITER) @ x @ joined False xs"

text \<open>All groups fit into 32 bits; a user has at least one.\<close>

definition groups_bounded :: "user_db \<Rightarrow> passwd \<Rightarrow> bool" where
  "groups_bounded db user \<longleftrightarrow>
     (let gids = grouplist db 0 user in
      gids \<noteq> [] \<and> length gids * 12 < 4294967296 \<and> length gids + (\<Sum>g\<leftarrow>gids. length (name_of db g)) < 4294967296)"

definition iterator_at :: "GroupsIterator \<Rightarrow> u32 list \<Rightarrow> nat \<Rightarrow> bool" where
  "iterator_at it gids i \<longleftrightarrow> groups it = gids \<and> groupsCount it = of_nat (length gids) \<and> length gids < 4294967296
     \<and> i \<le> length gids \<and> currentGroupIndex it = of_nat i"

lemma iterator_steps:
  assumes "steady db" and "iterator_at it gids i"
  shows "GroupsIterator_HasNext it \<longleftrightarrow> i < length gids"
    and "i < length gids \<Longrightarrow> \<exists>it1. GroupsIterator_Next db it w = ((getgrgid db 0 (gids ! i) \<noteq> None, it1), next_tick w)
      \<and> iterator_at it1 gids (Suc i) \<and> currentGroup it1 = getgrgid db 0 (gids ! i)"
proof -
  have u: "unat (currentGroupIndex it) = i" "unat (groupsCount it) = length gids"
    using assms(2) by (simp_all add: iterator_at_def unat_simps)
  then show "GroupsIterator_HasNext it \<longleftrightarrow> i < length gids" by (simp add: GroupsIterator_HasNext_def word_less_nat_alt)
  show "\<exists>it1. GroupsIterator_Next db it w = ((getgrgid db 0 (gids ! i) \<noteq> None, it1), next_tick w)
      \<and> iterator_at it1 gids (Suc i) \<and> currentGroup it1 = getgrgid db 0 (gids ! i)" if "i < length gids"
  proof -
    have "getgrgid db (tick w) = getgrgid db 0" using assms(1) by (simp add: steady_def)
    then show ?thesis using assms(2) u that by (simp add: GroupsIterator_Next_def Let_def iterator_at_def)
  qed
qed

lemma group_id_text:
  assumes "currentGroup it = getgrgid db 0 gid"
  shows "fst (group_id_text it) \<longleftrightarrow> length (id_of db gid) \<le> 10"
    "length (id_of db gid) \<le> 10 \<Longrightarrow> group_id_text it = (True, id_of db gid, int (length (id_of db gid)))"
  using assms
  by (auto simp: group_id_text_def Utils_IntegerToString_def MAX_ID_AS_STRING_LENGTH_def id_of_def GroupsIterator_GetId_def Let_def)

lemma sizes_while_result:
  assumes "steady db" and "iterator_at it gids i"
  shows "\<exists>ok it' n' s' w'. sizes_while db it n s w = ((ok, it', n', s'), w') \<and> ticked w w'
    \<and> groups it' = gids \<and> groupsCount it' = of_nat (length gids)
    \<and> (ok \<longleftrightarrow> (\<forall>g \<in> set (drop i gids). group_printable db g))
    \<and> (ok \<longrightarrow> n' = n + of_nat (\<Sum>g\<leftarrow>drop i gids. length (name_of db g))
          \<and> s' = s + of_nat (\<Sum>g\<leftarrow>drop i gids. length (id_of db g)))"
  using assms(2)
proof (induction "drop i gids" arbitrary: i it n s w)
  case Nil
  then have "\<not> GroupsIterator_HasNext it" using iterator_steps(1) [OF assms(1) Nil.prems] by simp
  with Nil show ?case by (subst sizes_while.simps) (auto simp: iterator_at_def)
next
  case (Cons g rest)
  then have i: "i < length gids" by (metis drop_all leI list.distinct(1))
  then have d: "drop i gids = gids ! i # drop (Suc i) gids" by (simp add: Cons_nth_drop_Suc)
  then have rest: "rest = drop (Suc i) gids" using Cons.hyps(2) by simp
  obtain it1 where s1: "GroupsIterator_Next db it w = ((getgrgid db 0 (gids ! i) \<noteq> None, it1), next_tick w)"
    "iterator_at it1 gids (Suc i)" "currentGroup it1 = getgrgid db 0 (gids ! i)"
    using iterator_steps(2) [OF assms(1) Cons.prems i, of w] by blast
  have has: "GroupsIterator_HasNext it" using iterator_steps(1) [OF assms(1) Cons.prems] i by simp
  have kept: "groups it1 = gids" "groupsCount it1 = of_nat (length gids)" using s1(2) by (simp_all add: iterator_at_def)
  note id = group_id_text [OF s1(3)]
  show ?case
  proof (cases "group_printable db (gids ! i)")
    case False
    then show ?thesis using s1(1) has kept id(1)
      by (subst sizes_while.simps) (auto simp: d group_printable_def Let_def split: prod.splits)
  next
    case True
    then have p: "getgrgid db 0 (gids ! i) \<noteq> None" "group_id_text it1 = (True, id_of db (gids ! i), int (length (id_of db (gids ! i))))"
      using id(2) by (simp_all add: group_printable_def)
    have "GroupsIterator_GetName it1 = name_of db (gids ! i)" by (simp add: GroupsIterator_GetName_def s1(3) name_of_def)
    then have "sizes_while db it n s w = sizes_while db it1 (n + of_nat (length (name_of db (gids ! i))))
        (s + of_nat (length (id_of db (gids ! i)))) (next_tick w)"
      using has s1(1) p by (subst sizes_while.simps) simp
    moreover obtain ok it' n' s' w' where "sizes_while db it1 (n + of_nat (length (name_of db (gids ! i))))
        (s + of_nat (length (id_of db (gids ! i)))) (next_tick w) = ((ok, it', n', s'), w')" "ticked (next_tick w) w'"
      "groups it' = gids" "groupsCount it' = of_nat (length gids)" "ok \<longleftrightarrow> (\<forall>g \<in> set (drop (Suc i) gids). group_printable db g)"
      "ok \<longrightarrow> n' = n + of_nat (length (name_of db (gids ! i))) + of_nat (\<Sum>g\<leftarrow>drop (Suc i) gids. length (name_of db g))
          \<and> s' = s + of_nat (length (id_of db (gids ! i))) + of_nat (\<Sum>g\<leftarrow>drop (Suc i) gids. length (id_of db g))"
      using Cons.hyps(1) [OF rest s1(2), of "n + of_nat (length (name_of db (gids ! i)))" "s + of_nat (length (id_of db (gids ! i)))" "next_tick w"]
    by blast
    ultimately show ?thesis using True ticked_trans [OF ticked_next] by (simp add: d add.assoc)
  qed
qed

lemma texts_while_result:
  assumes "steady db" and "iterator_at it gids i" and "\<forall>g \<in> set (drop i gids). group_printable db g"
    and "length (content names) + length (joined f (map (name_of db) (drop i gids))) < unat (capacity names)"
    and "length (content ids) + length (joined f (map (id_of db) (drop i gids))) < unat (capacity ids)"
  shows "\<exists>w'. texts_while db it f names ids w
      = ((True, names\<lparr>content := content names @ joined f (map (name_of db) (drop i gids))\<rparr>,
          ids\<lparr>content := content ids @ joined f (map (id_of db) (drop i gids))\<rparr>), w') \<and> ticked w w'"
  using assms(2-5)
proof (induction "drop i gids" arbitrary: i it f names ids w)
  case Nil
  then have "\<not> GroupsIterator_HasNext it" using iterator_steps(1) [OF assms(1) Nil.prems(1)] by simp
  with Nil(1) show ?case by (subst texts_while.simps) auto
next
  case (Cons g rest)
  then have i: "i < length gids" by (metis drop_all leI list.distinct(1))
  then have d: "drop i gids = gids ! i # drop (Suc i) gids" by (simp add: Cons_nth_drop_Suc)
  then have rest: "rest = drop (Suc i) gids" using Cons.hyps(2) by simp
  obtain it1 where s1: "GroupsIterator_Next db it w = ((getgrgid db 0 (gids ! i) \<noteq> None, it1), next_tick w)"
    "iterator_at it1 gids (Suc i)" "currentGroup it1 = getgrgid db 0 (gids ! i)"
    using iterator_steps(2) [OF assms(1) Cons.prems(1) i, of w] by blast
  have has: "GroupsIterator_HasNext it" using iterator_steps(1) [OF assms(1) Cons.prems(1)] i by simp
  have p: "getgrgid db 0 (gids ! i) \<noteq> None" "group_id_text it1 = (True, id_of db (gids ! i), int (length (id_of db (gids ! i))))"
    using Cons.prems(2) group_id_text(2) [OF s1(3)] by (simp_all add: d group_printable_def)
  have n: "GroupsIterator_GetName it1 = name_of db (gids ! i)" by (simp add: GroupsIterator_GetName_def s1(3) name_of_def)
  let ?names = "LocalUsersCollector_AppendValueName names f (name_of db (gids ! i))"
  let ?ids = "LocalUsersCollector_AppendValueName ids f (id_of db (gids ! i))"
  have fits: "length (content ?names) \<le> unat (capacity names)" "length (content ?ids) \<le> unat (capacity ids)"
    using Cons.prems(3,4) by (simp_all add: d LocalUsersCollector_AppendValueName_def)
  have "texts_while db it f names ids w = texts_while db it1 False ?names ?ids (next_tick w)"
    using has s1(1) p n fits
    by (subst texts_while.simps) (simp add: append_value_def Let_def LocalUsersCollector_AppendValueName_def)
  moreover obtain w' where "texts_while db it1 False ?names ?ids (next_tick w)
      = ((True, ?names\<lparr>content := content ?names @ joined False (map (name_of db) (drop (Suc i) gids))\<rparr>,
          ?ids\<lparr>content := content ?ids @ joined False (map (id_of db) (drop (Suc i) gids))\<rparr>), w')" "ticked (next_tick w) w'"
    using Cons.hyps(1) [OF rest s1(2), of ?names False ?ids "next_tick w"] Cons.prems(2-4)
    by (auto simp: d LocalUsersCollector_AppendValueName_def)
  ultimately show ?case
    using ticked_trans [OF ticked_next] by (simp add: d LocalUsersCollector_AppendValueName_def)
qed

lemma length_joined:
  "length (joined False xs) = length xs + (\<Sum>x\<leftarrow>xs. length x)"
  "xs \<noteq> [] \<Longrightarrow> length (joined True xs) + 1 = length xs + (\<Sum>x\<leftarrow>xs. length x)"
proof -
  show *: "length (joined False xs) = length xs + (\<Sum>x\<leftarrow>xs. length x)" for xs
    by (induction xs) (auto simp: LOCAL_USERS_PAYLOAD_DELIMITER_def)
  show "xs \<noteq> [] \<Longrightarrow> length (joined True xs) + 1 = length xs + (\<Sum>x\<leftarrow>xs. length x)"
    using * by (cases xs) auto
qed

text \<open>The two buffers have room for one character more than the delimiters and the values.\<close>

lemma buffer_size:
  assumes "xs \<noteq> []" and "length xs + (\<Sum>x\<leftarrow>xs. length x) < 4294967296"
  shows "length (joined True xs) <
    unat (of_nat (length LOCAL_USERS_PAYLOAD_DELIMITER) * (of_nat (length xs) - 1) + 1 + of_nat (\<Sum>x\<leftarrow>xs. length x) :: u32)"
proof -
  have "of_nat (length LOCAL_USERS_PAYLOAD_DELIMITER) * (of_nat (length xs) - 1) + 1 + of_nat (\<Sum>x\<leftarrow>xs. length x)
      = (of_nat (length xs + (\<Sum>x\<leftarrow>xs. length x)) :: u32)"
    by (simp add: LOCAL_USERS_PAYLOAD_DELIMITER_def)
  then have "unat (of_nat (length LOCAL_USERS_PAYLOAD_DELIMITER) * (of_nat (length xs) - 1) + 1 + of_nat (\<Sum>x\<leftarrow>xs. length x) :: u32)
      = length xs + (\<Sum>x\<leftarrow>xs. length x)"
    using assms(2) by (simp only: unat_of_nat_u32)
  with length_joined(2) [OF assms(1)] show ?thesis by linarith
qed

lemma ids_short:
  assumes "\<forall>g \<in> set gids. group_printable db g"
  shows "(\<Sum>g\<leftarrow>gids. length (id_of db g)) \<le> 11 * length gids"
  using assms by (induction gids) (auto simp: group_printable_def)

lemma group_texts_result:
  assumes db: "steady db" and "groups_bounded db user" and "currentUser it = Some user"
  defines "gids \<equiv> grouplist db 0 user"
  shows "ticked w (snd (group_texts db it w))"
    and "fst (group_texts db it w) \<in> {None, Some (joined True (map (name_of db) gids), joined True (map (id_of db) gids))}"
    and "\<forall>n. allocOk w n \<Longrightarrow> fst (group_texts db it w) \<noteq> None \<longleftrightarrow> (\<forall>g \<in> set gids. group_printable db g)"
proof -
  let ?texts = "(joined True (map (name_of db) gids), joined True (map (id_of db) gids))"
  have b: "gids \<noteq> []" "length gids * 12 < 4294967296" "length gids + (\<Sum>g\<leftarrow>gids. length (name_of db g)) < 4294967296"
    using assms(2) by (simp_all add: groups_bounded_def Let_def gids_def)
  have same: "grouplist db n user = gids" for n using db unfolding steady_def gids_def by metis
  have "ticked w (snd (group_texts db it w)) \<and> fst (group_texts db it w) \<in> {None, Some ?texts}
    \<and> ((\<forall>n. allocOk w n) \<longrightarrow> (fst (group_texts db it w) \<noteq> None \<longleftrightarrow> (\<forall>g \<in> set gids. group_printable db g)))"
  proof (cases "allocOk w (tick w) \<and> allocOk w (Suc (tick w))")
    case False
    then have "group_texts db it w = (None, snd (group_texts db it w)) \<and> ticked w (snd (group_texts db it w))"
      using b(1)
      by (auto simp: group_texts_def UsersIterator_CreateGroupsIterator_def GroupsIterator_Init_def assms(3) same sys_malloc_def
          next_tick_def ticked_def)
    with False show ?thesis by (metis fst_conv insertI1)
  next
    case True
    define gi where "gi = \<lparr>groups = gids, groupsCount = of_nat (length gids), currentGroupIndex = 0, currentGroup = None\<rparr>"
    define w1 where "w1 = next_tick (next_tick w)"
    have create: "UsersIterator_CreateGroupsIterator db it w = ((USER_ITERATOR_OK, Some gi), w1)"
      using True b(1)
      by (simp add: UsersIterator_CreateGroupsIterator_def GroupsIterator_Init_def assms(3) same sys_malloc_def next_tick_def gi_def w1_def)
    have w1: "ticked w w1" "allocOk w1 = allocOk w" unfolding w1_def by (auto simp: ticked_def next_tick_def)
    have at0: "iterator_at gi gids 0" using b(2) by (simp add: iterator_at_def gi_def)
    define start where "start = of_nat (length LOCAL_USERS_PAYLOAD_DELIMITER) * (of_nat (length gids) - 1) + (1 :: u32)"
    obtain ok gi' n' s' w2 where sizes: "sizes_while db gi start start w1 = ((ok, gi', n', s'), w2)" "ticked w1 w2"
      "groups gi' = gids" "groupsCount gi' = of_nat (length gids)" "ok \<longleftrightarrow> (\<forall>g \<in> set gids. group_printable db g)"
      "ok \<longrightarrow> n' = start + of_nat (\<Sum>g\<leftarrow>gids. length (name_of db g)) \<and> s' = start + of_nat (\<Sum>g\<leftarrow>gids. length (id_of db g))"
      using sizes_while_result [OF db at0, of start start w1, unfolded drop_0] by blast
    then have calc: "LocalUsersCollector_CalculateSizeOfGroups db gi w1 = ((ok, gi', n', s'), w2)"
      by (simp add: LocalUsersCollector_CalculateSizeOfGroups_def GroupsIterator_GetGroupsCount_def gi_def start_def)
    have w2: "ticked w w2" using ticked_trans [OF w1(1) sizes(2)] .
    then have alloc2: "allocOk w2 = allocOk w" by (auto simp: ticked_def)
    define w4 where "w4 = next_tick (next_tick w2)"
    have w4: "ticked w w4" unfolding w4_def using ticked_trans [OF ticked_trans [OF w2 ticked_next] ticked_next] .
    show ?thesis
    proof (cases "ok \<and> allocOk w2 (tick w2) \<and> allocOk w2 (Suc (tick w2))")
      case False
      then have "group_texts db it w = (None, snd (group_texts db it w))
          \<and> snd (group_texts db it w) \<in> {w2, next_tick w2, w4}"
        by (auto simp: group_texts_def create calc sys_malloc_def w4_def next_tick_def)
      moreover have "ticked w v" if "v \<in> {w2, next_tick w2, w4}" for v
        using that w2 w4 ticked_trans [OF w2 ticked_next] by blast
      ultimately show ?thesis using False sizes(5) alloc2 by (metis fst_conv insertI1)
    next
      case True
      have printable: "\<forall>g \<in> set gids. group_printable db g" using True sizes(5) by simp
      have names: "length (joined True (map (name_of db) gids)) < unat n'"
        using buffer_size [of "map (name_of db) gids"] b(1,3) sizes(6) True by (simp add: start_def comp_def)
      have "length gids + (\<Sum>g\<leftarrow>gids. length (id_of db g)) < 4294967296" using ids_short [OF printable] b(2) by linarith
      then have ids: "length (joined True (map (id_of db) gids)) < unat s'"
        using buffer_size [of "map (id_of db) gids"] b(1) sizes(6) True by (simp add: start_def comp_def)
      have at: "iterator_at (GroupsIterator_Reset gi') gids 0"
        using sizes(3,4) b(2) by (simp add: iterator_at_def GroupsIterator_Reset_def)
      obtain w5 where "texts_while db (GroupsIterator_Reset gi') True \<lparr>capacity = n', content = []\<rparr> \<lparr>capacity = s', content = []\<rparr> w4
          = ((True, \<lparr>capacity = n', content = fst ?texts\<rparr>, \<lparr>capacity = s', content = snd ?texts\<rparr>), w5)" "ticked w4 w5"
        using texts_while_result [OF db at, of "\<lparr>capacity = n', content = []\<rparr>" True "\<lparr>capacity = s', content = []\<rparr>" w4]
          printable names ids by auto
      then have "group_texts db it w = (Some ?texts, w5)"
        using True names ids
        by (simp add: group_texts_def create calc sys_malloc_def w4_def next_tick_def LocalUsersCollector_GenerateGroupNamesAndIds_def
            buffer_fits_def)
      with ticked_trans [OF w4 \<open>ticked w4 w5\<close>] printable show ?thesis by simp
    qed
  qed
  then show "ticked w (snd (group_texts db it w))"
    "fst (group_texts db it w) \<in> {None, Some ?texts}"
    "\<forall>n. allocOk w n \<Longrightarrow> fst (group_texts db it w) \<noteq> None \<longleftrightarrow> (\<forall>g \<in> set gids. group_printable db g)"
    by blast+
qed


definition sample_users :: user_db where
  "sample_users = \<lparr>users = (\<lambda>_. ([\<lparr>pw_name = ''root'', pw_uid = 0, pw_gid = 0\<rparr>], False)), grouplist = (\<lambda>_ u. [pw_gid u, 4]),
     getgrgid = (\<lambda>_ g. if g = 0 then Some \<lparr>gr_name = ''root'', gr_gid = 0\<rparr> else Some \<lparr>gr_name = ''adm'', gr_gid = g\<rparr>)\<rparr>"

lemma sample_users_steady: "steady sample_users" "user \<in> set (fst (users sample_users n)) \<Longrightarrow> groups_bounded sample_users user"
  by (auto simp: steady_def sample_users_def groups_bounded_def name_of_def)


section \<open>What it leaves behind\<close>

text \<open>All users the database may ever deliver.\<close>

definition users_bounded :: "user_db \<Rightarrow> bool" where
  "users_bounded db \<longleftrightarrow> steady db \<and> (\<forall>n. \<forall>user \<in> set (fst (users db n)). groups_bounded db user)"

lemma clean_add_groups:
  assumes D: "parson_lists D roots" and "steady db" "groups_bounded db user" "currentUser it = Some user"
  shows "clean roots w (snd (LocalUsersCollector_AddGroupsForUser db D it wr w))"
proof -
  obtain x w1 where texts: "group_texts db it w = (x, w1)" by fastforce
  have t: "clean roots w w1" using ticked_clean [OF group_texts_result(1) [OF assms(2-4), of w]] by (simp add: texts)
  have "clean roots w1 (snd (event_steps [json_step (JsonObjectWriter_WriteString D wr k1 s1), json_step (JsonObjectWriter_WriteString D wr k2 s2)] w1))"
    for k1 s1 k2 s2 by (intro clean_steps) (auto intro: clean_writes [OF D])
  from clean_trans [OF t this] t show ?thesis
    by (auto simp: LocalUsersCollector_AddGroupsForUser_def texts simp del: event_steps.simps split: option.split)
qed

lemma clean_single_user:
  assumes D: "parson_lists D roots" and db: "steady db" "groups_bounded db user" "currentUser it = Some user"
  shows "clean roots w (snd (LocalUsersCollector_AddSingleUser db D it arr w))"
  unfolding LocalUsersCollector_AddSingleUser_def
  by (rule clean_payload_object [OF D]) (auto intro: clean_writes [OF D] clean_add_groups [OF D db] simp: Let_def split_beta)

lemma clean_users_while:
  "parson_lists D roots \<Longrightarrow> steady db \<Longrightarrow> \<forall>user \<in> set (entries it). groups_bounded db user \<Longrightarrow>
    clean roots w (snd (users_while db D it arr w))"
proof (induction db D it arr w rule: users_while.induct)
  case (1 db D it arr w)
  show ?case
  proof (cases "entries it")
    case Nil
    then have "UsersIterator_GetNext it = (if entriesFail it then USER_ITERATOR_EXCEPTION else USER_ITERATOR_STOP, it\<lparr>currentUser := None\<rparr>)"
      by (simp add: UsersIterator_GetNext_def)
    then show ?thesis by (subst users_while.simps) simp
  next
    case (Cons u rest)
    define it1 where "it1 = it\<lparr>entries := rest, currentUser := Some u\<rparr>"
    have n: "UsersIterator_GetNext it = (USER_ITERATOR_HAS_NEXT, it1)" by (simp add: UsersIterator_GetNext_def Cons it1_def)
    have u: "groups_bounded db u" "currentUser it1 = Some u" using "1.prems"(3) by (simp_all add: Cons it1_def)
    have "clean roots w (snd (LocalUsersCollector_AddSingleUser db D it1 arr w))"
      by (rule clean_single_user [OF "1.prems"(1,2) u])
    also have "clean roots \<dots> (snd (users_while db D it1 arr (snd (LocalUsersCollector_AddSingleUser db D it1 arr w))))"
      by (rule "1.IH" [OF n [symmetric] refl refl "1.prems"(1,2)]) (use "1.prems"(3) in \<open>simp add: Cons it1_def\<close>)
    finally show ?thesis by (subst users_while.simps) (simp add: n)
  qed
qed

lemma local_users_apart:
  assumes D: "parson_lists D roots" and db: "users_bounded db"
  shows "apart roots w (snd (local_users_payload db D arr w))"
proof -
  obtain r it w1 where init: "UsersIterator_Init db w = ((r, it), w1)" by (metis prod.collapse)
  have w1: "w1 = next_tick w" using init by (auto simp: UsersIterator_Init_def Let_def split_beta split: if_splits)
  have c: "clean roots w (snd (users_while db D i arr w1))" if "it = Some i" for i
  proof (rule clean_trans)
    show "clean roots w w1" by (simp add: w1)
    show "clean roots w1 (snd (users_while db D i arr w1))"
      using db init that
      by (intro clean_users_while [OF D])
        (auto simp: users_bounded_def UsersIterator_Init_def Let_def split_beta split: if_splits)
  qed
  show ?thesis
    using c clean_next [of roots w] by (auto intro!: clean_apart simp: local_users_payload_def init w1 split: UserIteratorResults.split option.split)
qed

lemma local_users_contract:
  fixes D :: "('v, 'o, 'r, 'h) parson_doc"
  assumes "users_bounded db"
  shows "event_collector (LocalUsersCollector_GetEvents db D :: ('h, 'a) linux_env_scheme EventCollectorFunc)
    (collectors_ready d N) D roots L (N + 2) (- {d})"
  unfolding LocalUsersCollector_GetEvents_def by (rule periodic_collector) (rule local_users_apart [OF _ assms])

end
