(* ===== verification/System_Information_Collector.thy ===== *)
theory System_Information_Collector
  imports Linux_Process
begin

text \<open>
  What the device is, \<^verbatim>\<open>src/agent/src/collectors/linux/system_information_collector.c\<close>: the operating system and the
  sizes of the memory.
\<close>

definition SYSTEM_INFORMATION_NAME :: string where "SYSTEM_INFORMATION_NAME = ''SystemInformation''"
definition SYSTEM_INFORMATION_PAYLOAD_SCHEMA_VERSION :: string where "SYSTEM_INFORMATION_PAYLOAD_SCHEMA_VERSION = ''1.0''"
definition SYSTEM_INFORMATION_OS_NAME_KEY :: string where "SYSTEM_INFORMATION_OS_NAME_KEY = ''OSName''"
definition SYSTEM_INFORMATION_OS_VERSION_KEY :: string where "SYSTEM_INFORMATION_OS_VERSION_KEY = ''OSVersion''"
definition SYSTEM_INFORMATION_OS_ARCHITECTURE_KEY :: string where "SYSTEM_INFORMATION_OS_ARCHITECTURE_KEY = ''OsArchitecture''"
definition SYSTEM_INFORMATION_HOST_NAME_KEY :: string where "SYSTEM_INFORMATION_HOST_NAME_KEY = ''HostName''"
definition SYSTEM_INFORMATION_TOTAL_PHYSICAL_MEMORY_KEY :: string where
  "SYSTEM_INFORMATION_TOTAL_PHYSICAL_MEMORY_KEY = ''TotalPhysicalMemoryInKB''"
definition SYSTEM_INFORMATION_FREE_PHYSICAL_MEMORY_KEY :: string where
  "SYSTEM_INFORMATION_FREE_PHYSICAL_MEMORY_KEY = ''FreePhysicalMemoryInKB''"

type_synonym u64 = "64 word"

text \<open>
  What \<open>uname\<close> and \<open>sysinfo\<close> fill in; \<open>mem_unit\<close> is the unit of both sizes, 1 on a usual kernel and never 0.  Both are
  answered by the environment.
\<close>

record utsname =
  sysname :: string
  nodename :: string
  release :: string
  version :: string
  machine :: string

record sysinfo =
  totalram :: u64
  freeram :: u64
  mem_unit :: u64

definition sys_text :: "'a env_scheme \<Rightarrow> string \<times> 'a env_scheme" where
  "sys_text w = (let (answer, w1) = sys_bytes w in (case answer of None \<Rightarrow> [] | Some s \<Rightarrow> s, w1))"

definition uname :: "'a env_scheme \<Rightarrow> utsname option \<times> 'a env_scheme" where
  "uname w =
     (let (ok, w1) = sys_ext w in
      if \<not> ok then (None, w1)
      else
        let (s, w2) = sys_text w1; (n, w3) = sys_text w2; (r, w4) = sys_text w3; (v, w5) = sys_text w4; (m, w6) = sys_text w5
        in (Some \<lparr>sysname = s, nodename = n, release = r, version = v, machine = m\<rparr>, w6))"

definition sys_sysinfo :: "'a env_scheme \<Rightarrow> sysinfo option \<times> 'a env_scheme" where
  "sys_sysinfo w =
     (let (ok, w1) = sys_ext w in
      if \<not> ok then (None, w1)
      else
        let (t, w2) = sys_int w1; (f, w3) = sys_int w2; (u, w4) = sys_int w3; unit = word_of_int u :: u64
        in (Some \<lparr>totalram = word_of_int t, freeram = word_of_int f, mem_unit = (if unit = 0 then 1 else unit)\<rparr>, w4))"

definition SystemInformationCollector_WriteFullKernelVersion ::
  "('v, 'o, 'r, 'h) parson_doc \<Rightarrow> ('v, 'o) JsonObjectWriter \<Rightarrow> utsname \<Rightarrow> ('h, 'a) docs_env_scheme \<Rightarrow>
    EventCollectorResult \<times> ('h, 'a) docs_env_scheme" where
  "SystemInformationCollector_WriteFullKernelVersion D sysinfoPayloadWriter machineInfo w =
     (let (ok, w1) = sys_malloc w in
      if \<not> ok then (EVENT_COLLECTOR_EXCEPTION, w1)
      else json_step (JsonObjectWriter_WriteString D sysinfoPayloadWriter SYSTEM_INFORMATION_OS_VERSION_KEY
             (release machineInfo @ '' '' @ version machineInfo)) w1)"

text \<open>\<open>WriteInt\<close> takes an \<open>int\<close>: the upper half of the unsigned long is cut off.\<close>

definition int_of_ulong :: "u64 \<Rightarrow> int" where
  "int_of_ulong n = sint (ucast n :: u32)"

definition SystemInformationCollector_AddMemoryInformation ::
  "('v, 'o, 'r, 'h) parson_doc \<Rightarrow> ('v, 'o) JsonObjectWriter \<Rightarrow> ('h, 'a) docs_env_scheme \<Rightarrow>
    EventCollectorResult \<times> ('h, 'a) docs_env_scheme" where
  "SystemInformationCollector_AddMemoryInformation D sysinfoPayloadWriter w =
     (case sys_sysinfo w of
        (None, w1) \<Rightarrow> (EVENT_COLLECTOR_EXCEPTION, w1)
      | (Some info, w1) \<Rightarrow>
          (let totalSizeInKb = totalram info div mem_unit info div 1024;
               freeSizeInKb = freeram info div mem_unit info div 1024
           in event_steps
                [json_step (JsonObjectWriter_WriteInt D sysinfoPayloadWriter SYSTEM_INFORMATION_TOTAL_PHYSICAL_MEMORY_KEY
                   (int_of_ulong totalSizeInKb)),
                 json_step (JsonObjectWriter_WriteInt D sysinfoPayloadWriter SYSTEM_INFORMATION_FREE_PHYSICAL_MEMORY_KEY
                   (int_of_ulong freeSizeInKb))] w1))"

definition SystemInformationCollector_AddOsInformation ::
  "('v, 'o, 'r, 'h) parson_doc \<Rightarrow> ('v, 'o) JsonObjectWriter \<Rightarrow> ('h, 'a) docs_env_scheme \<Rightarrow>
    EventCollectorResult \<times> ('h, 'a) docs_env_scheme" where
  "SystemInformationCollector_AddOsInformation D sysinfoPayloadWriter w =
     (case uname w of
        (None, w1) \<Rightarrow> (EVENT_COLLECTOR_EXCEPTION, w1)
      | (Some machineInfo, w1) \<Rightarrow>
          event_steps
            [json_step (JsonObjectWriter_WriteString D sysinfoPayloadWriter SYSTEM_INFORMATION_OS_NAME_KEY (sysname machineInfo)),
             SystemInformationCollector_WriteFullKernelVersion D sysinfoPayloadWriter machineInfo,
             json_step (JsonObjectWriter_WriteString D sysinfoPayloadWriter SYSTEM_INFORMATION_OS_ARCHITECTURE_KEY (machine machineInfo)),
             json_step (JsonObjectWriter_WriteString D sysinfoPayloadWriter SYSTEM_INFORMATION_HOST_NAME_KEY (nodename machineInfo))] w1)"

definition SystemInformationCollector_GeneratePayload ::
  "('v, 'o, 'r, 'h) parson_doc \<Rightarrow> ('v, 'r) JsonArrayWriter \<Rightarrow> ('h, 'a) docs_env_scheme \<Rightarrow>
    EventCollectorResult \<times> ('h, 'a) docs_env_scheme" where
  "SystemInformationCollector_GeneratePayload D sysinfoPayloadArray =
     add_payload_object D sysinfoPayloadArray
       (\<lambda>sysinfoPayloadWriter.
         [SystemInformationCollector_AddOsInformation D sysinfoPayloadWriter,
          SystemInformationCollector_AddMemoryInformation D sysinfoPayloadWriter])"

definition SystemInformationCollector_GetEvents ::
  "('v, 'o, 'r, 'h) parson_doc \<Rightarrow> nat \<Rightarrow> SyncQueue list \<Rightarrow> ('h, 'a) linux_env_scheme \<Rightarrow>
    (EventCollectorResult \<times> SyncQueue list) \<times> ('h, 'a) linux_env_scheme" where
  "SystemInformationCollector_GetEvents D =
     collect_event D False
       (\<lambda>sysinfoEventWriter. GenericEvent_AddMetadata D sysinfoEventWriter EVENT_PERIODIC_CATEGORY SYSTEM_INFORMATION_NAME
          EVENT_TYPE_SECURITY_VALUE SYSTEM_INFORMATION_PAYLOAD_SCHEMA_VERSION)
       (SystemInformationCollector_GeneratePayload D)"

section \<open>What it leaves behind\<close>

lemma snd_sys_text [simp]: "snd (sys_text w) = next_tick w"
  by (simp add: sys_text_def Let_def split_beta)

lemma clean_system_calls: "clean roots w (snd (uname w))" "clean roots w (snd (sys_sysinfo w))"
  by (simp_all add: uname_def sys_sysinfo_def Let_def split_beta) (meson clean_next clean_trans)+

lemma clean_system_parts:
  assumes D: "parson_lists D roots"
  shows "clean roots w (snd (SystemInformationCollector_AddOsInformation D wr w))"
    "clean roots w (snd (SystemInformationCollector_AddMemoryInformation D wr w))"
proof -
  have "clean roots w (snd (SystemInformationCollector_WriteFullKernelVersion D wr info w))" for info w
    by (auto simp: SystemInformationCollector_WriteFullKernelVersion_def Let_def split_beta
        intro: clean_trans [OF clean_next clean_writes(1) [OF D]])
  then have steps: "clean roots w1 (snd (event_steps
            [json_step (JsonObjectWriter_WriteString D wr k1 s1), SystemInformationCollector_WriteFullKernelVersion D wr info,
             json_step (JsonObjectWriter_WriteString D wr k2 s2), json_step (JsonObjectWriter_WriteString D wr k3 s3)] w1))"
    for k1 s1 info k2 s2 k3 s3 w1
    by (intro clean_steps) (auto intro: clean_writes [OF D])
  obtain i w1 where u: "uname w = (i, w1)" by fastforce
  have "clean roots w w1" using clean_system_calls(1) [of roots w] by (simp add: u)
  with clean_trans [OF this steps] show "clean roots w (snd (SystemInformationCollector_AddOsInformation D wr w))"
    by (simp add: SystemInformationCollector_AddOsInformation_def u split: option.split del: event_steps.simps)
  have ints: "clean roots w1 (snd (event_steps
            [json_step (JsonObjectWriter_WriteInt D wr k1 n1), json_step (JsonObjectWriter_WriteInt D wr k2 n2)] w1))"
    for k1 n1 k2 n2 w1
    by (intro clean_steps) (auto intro: clean_writes [OF D])
  obtain j w2 where s: "sys_sysinfo w = (j, w2)" by fastforce
  have "clean roots w w2" using clean_system_calls(2) [of roots w] by (simp add: s)
  with clean_trans [OF this ints] show "clean roots w (snd (SystemInformationCollector_AddMemoryInformation D wr w))"
    by (simp add: SystemInformationCollector_AddMemoryInformation_def s Let_def split: option.split del: event_steps.simps)
qed

lemma system_information_apart:
  "parson_lists D roots \<Longrightarrow> apart roots w (snd (SystemInformationCollector_GeneratePayload D arr w))"
  unfolding SystemInformationCollector_GeneratePayload_def
  by (intro clean_apart clean_payload_object) (auto intro: clean_system_parts)

interpretation system_information: event_collector "SystemInformationCollector_GetEvents D" "collectors_ready d N" D roots L "N + 2" "- {d}"
  for D d N roots L
  unfolding SystemInformationCollector_GetEvents_def by (rule periodic_collector) (rule system_information_apart)

section \<open>The memory in kilobytes\<close>

text \<open>The size is right when the unit is one byte and it stays below 2 TiB; another unit makes it smaller instead of larger.\<close>

lemma memory_in_kilobytes:
  assumes "unat n < 2 ^ 41"
  shows "int_of_ulong (n div 1 div 1024) = int (unat n div 1024)"
proof -
  have k: "unat (n div 1024) < 2147483648" using assms by (simp add: unat_div)
  then have "unat (ucast (n div 1024) :: u32) = unat (n div 1024)" by (simp add: unsigned_ucast_eq take_bit_eq_mod)
  with k show ?thesis using small_sint [of "ucast (n div 1024) :: u32"] by (simp add: int_of_ulong_def unat_div)
qed

lemma memory_of_two_tebibytes: "int_of_ulong ((2 ^ 41 :: u64) div 1 div 1024) = - 2147483648"
  by (simp add: int_of_ulong_def)

end
