(* ===== verification/Baseline_Collector.thy ===== *)
theory Baseline_Collector
  imports Linux_Process
begin

text \<open>
  The collector of the baseline checks, \<^verbatim>\<open>src/agent/src/collectors/linux/baseline_collector.c\<close>: it runs the program
  \<open>omsbaseline\<close> as root, reads the JSON text the program prints and reports the checks that did not pass.  The
  configuration may ask for a second run with a file of custom checks.
\<close>

definition BASELINE_NAME :: string where "BASELINE_NAME = ''OSBaseline''"
definition BASELINE_PAYLOAD_SCHEMA_VERSION :: string where "BASELINE_PAYLOAD_SCHEMA_VERSION = ''1.0''"
definition BASELINE_DESCRIPTION_KEY :: string where "BASELINE_DESCRIPTION_KEY = ''Description''"
definition BASELINE_CCEID_KEY :: string where "BASELINE_CCEID_KEY = ''CceId''"
definition BASELINE_RESULT_KEY :: string where "BASELINE_RESULT_KEY = ''Result''"
definition BASELINE_ERROR_KEY :: string where "BASELINE_ERROR_KEY = ''Error''"
definition BASELINE_SEVERITY_KEY :: string where "BASELINE_SEVERITY_KEY = ''Severity''"
definition OMS_BASELINE_MAX_OUTPUT_SIZE :: u32 where "OMS_BASELINE_MAX_OUTPUT_SIZE = 5242880"
definition OMS_BASELINE_COMMAND :: string where "OMS_BASELINE_COMMAND = ''./omsbaseline -d .''"
definition OMS_BASELINE_RESULT_KEY :: string where "OMS_BASELINE_RESULT_KEY = ''result''"
definition OMS_BASELINE_DESCRIPTION_KEY :: string where "OMS_BASELINE_DESCRIPTION_KEY = ''description''"
definition OMS_BASELINE_CCEID_KEY :: string where "OMS_BASELINE_CCEID_KEY = ''cceid''"
definition OMS_BASELINE_ERROR_KEY :: string where "OMS_BASELINE_ERROR_KEY = ''error_text''"
definition OMS_BASELINE_SERVERITY_KEY :: string where "OMS_BASELINE_SERVERITY_KEY = ''severity''"
definition OMS_BASELINE_PASS_VALUE :: string where "OMS_BASELINE_PASS_VALUE = ''PASS''"
definition OMS_BASELINE_RESULTS_LIST_VALUE :: string where "OMS_BASELINE_RESULTS_LIST_VALUE = ''results''"

record BaselineCustomChecksConfiguration =
  checks_enabled :: bool
  filePath :: "string option"
  fileHash :: "string option"

text \<open>The command with \<open>%s\<close> replaced by the two texts of the twin, as they are.\<close>

definition OMS_BASELINE_CUSTOM_CHECKS_COMMAND :: "string \<Rightarrow> string \<Rightarrow> string" where
  "OMS_BASELINE_CUSTOM_CHECKS_COMMAND path hash = ''./omsbaseline -ccfp '' @ path @ '' -ccfh '' @ hash"

section \<open>One run of the program\<close>

definition BaselineCollector_RunOmsbaseline ::
  "string \<Rightarrow> ('h, 'a) linux_env_scheme \<Rightarrow> (EventCollectorResult \<times> string) \<times> ('h, 'a) linux_env_scheme" where
  "BaselineCollector_RunOmsbaseline command =
     as_root (EVENT_COLLECTOR_EXCEPTION, [])
       (\<lambda>w. let ((ok, output), w1) = ProcessUtils_Execute command OMS_BASELINE_MAX_OUTPUT_SIZE w
         in ((if \<not> ok then EVENT_COLLECTOR_EXCEPTION else EVENT_COLLECTOR_OK, output), w1))"

definition BaselineCollector_CopyStringValue ::
  "('v, 'o, 'r) parson \<Rightarrow> ('v, 'o, 'r, 'h) parson_doc \<Rightarrow> ('v, 'o) JsonObjectReader \<Rightarrow> string \<Rightarrow> ('v, 'o) JsonObjectWriter \<Rightarrow>
    string \<Rightarrow> ('h, 'a) docs_env_scheme \<Rightarrow> EventCollectorResult \<times> ('h, 'a) docs_env_scheme" where
  "BaselineCollector_CopyStringValue P D reader srcKey writer destKey w =
     (case JsonObjectReader_ReadString P reader srcKey of
        (JSON_READER_OK, Some strValue) \<Rightarrow> json_step (JsonObjectWriter_WriteString D writer destKey strValue) w
      | _ \<Rightarrow> (EVENT_COLLECTOR_EXCEPTION, w))"

definition BaselineCollector_AddSingleResult ::
  "('v, 'o, 'r) parson \<Rightarrow> ('v, 'o, 'r, 'h) parson_doc \<Rightarrow> ('v, 'o) JsonObjectReader \<Rightarrow> ('v, 'r) JsonArrayWriter \<Rightarrow>
    ('h, 'a) docs_env_scheme \<Rightarrow> EventCollectorResult \<times> ('h, 'a) docs_env_scheme" where
  "BaselineCollector_AddSingleResult P D item baselinePayloadArray w =
     (case JsonObjectReader_ReadString P item OMS_BASELINE_RESULT_KEY of
        (JSON_READER_OK, Some strValue) \<Rightarrow>
          if Utils_UnsafeAreStringsEqual OMS_BASELINE_PASS_VALUE strValue False then (EVENT_COLLECTOR_RECORD_FILTERED, w)
          else add_payload_object D baselinePayloadArray
            (\<lambda>itemWriter.
              [json_step (JsonObjectWriter_WriteString D itemWriter BASELINE_RESULT_KEY strValue),
               BaselineCollector_CopyStringValue P D item OMS_BASELINE_DESCRIPTION_KEY itemWriter BASELINE_DESCRIPTION_KEY,
               BaselineCollector_CopyStringValue P D item OMS_BASELINE_CCEID_KEY itemWriter BASELINE_CCEID_KEY,
               BaselineCollector_CopyStringValue P D item OMS_BASELINE_ERROR_KEY itemWriter BASELINE_ERROR_KEY,
               BaselineCollector_CopyStringValue P D item OMS_BASELINE_SERVERITY_KEY itemWriter BASELINE_SEVERITY_KEY]) w
      | _ \<Rightarrow> (EVENT_COLLECTOR_EXCEPTION, w))"

text \<open>The results with the indices \<open>is\<close>.\<close>

fun add_results ::
  "('v, 'o, 'r) parson \<Rightarrow> ('v, 'o, 'r, 'h) parson_doc \<Rightarrow> 'r \<Rightarrow> ('v, 'r) JsonArrayWriter \<Rightarrow> nat list \<Rightarrow>
    ('h, 'a) docs_env_scheme \<Rightarrow> EventCollectorResult \<times> ('h, 'a) docs_env_scheme" where
  "add_results P D resultsList baselinePayloadArray [] w = (EVENT_COLLECTOR_OK, w)"
| "add_results P D resultsList baselinePayloadArray (i # is) w =
     (case JsonArrayReader_ReadObject P resultsList (of_nat i) w of
        ((JSON_READER_OK, Some item), w1) \<Rightarrow>
          (let (result, w2) = BaselineCollector_AddSingleResult P D item baselinePayloadArray w1 in
           if result \<noteq> EVENT_COLLECTOR_OK \<and> result \<noteq> EVENT_COLLECTOR_RECORD_FILTERED then (EVENT_COLLECTOR_EXCEPTION, w2)
           else add_results P D resultsList baselinePayloadArray is w2)
      | (_, w1) \<Rightarrow> (EVENT_COLLECTOR_EXCEPTION, w1))"

text \<open>
  The output is read into a fresh buffer without a terminator: behind it the parser finds what the memory held before,
  which the environment answers.
\<close>

definition BaselineCollector_AddPayloads ::
  "('v, 'o, 'r) parson \<Rightarrow> ('v, 'o, 'r, 'h) parson_doc \<Rightarrow> ('v, 'r) JsonArrayWriter \<Rightarrow> string \<Rightarrow>
    ('h, 'a) linux_env_scheme \<Rightarrow> EventCollectorResult \<times> ('h, 'a) linux_env_scheme" where
  "BaselineCollector_AddPayloads P D baselinePayloadArray baselineCommand w =
     (let (ok, w1) = sys_malloc w in
      if \<not> ok then (EVENT_COLLECTOR_EXCEPTION, w1)
      else let ((result, output), w2) = BaselineCollector_RunOmsbaseline baselineCommand w1 in
        if result \<noteq> EVENT_COLLECTOR_OK then (result, w2)
        else if output = [] then (EVENT_COLLECTOR_OK, w2)
        else
          let (behind, w3) = sys_bytes w2;
              buffer = output @ (case behind of None \<Rightarrow> [] | Some s \<Rightarrow> s)
          in case JsonObjectReader_InitFromString P buffer w3 of
               ((JSON_READER_OK, Some baselineResult), w4) \<Rightarrow>
                 (case JsonObjectReader_ReadArray P baselineResult OMS_BASELINE_RESULTS_LIST_VALUE w4 of
                    ((JSON_READER_OK, Some resultsList), w5) \<Rightarrow>
                      add_results P D resultsList baselinePayloadArray [0..<unat (snd (JsonArrayReader_GetSize P resultsList))] w5
                  | (_, w5) \<Rightarrow> (EVENT_COLLECTOR_EXCEPTION, w5))
             | (_, w4) \<Rightarrow> (EVENT_COLLECTOR_EXCEPTION, w4))"

section \<open>Custom checks\<close>

definition BaselineCollector_IsBaselineCustomChecksEnabled ::
  "('h, 'a) twin_env_scheme \<Rightarrow> (bool \<times> BaselineCustomChecksConfiguration) \<times> ('h, 'a) twin_env_scheme" where
  "BaselineCollector_IsBaselineCustomChecksEnabled w =
     (let config = \<lparr>checks_enabled = False, filePath = None, fileHash = None\<rparr> in
      case TwinConfiguration_GetBaselineCustomChecksEnabled w of
        ((TWIN_OK, Some enabled), w1) \<Rightarrow>
          (case TwinConfiguration_GetBaselineCustomChecksFilePath w1 of
             ((TWIN_OK, Some path), w2) \<Rightarrow>
               (case TwinConfiguration_GetBaselineCustomChecksFileHash w2 of
                  ((TWIN_OK, Some hash), w3) \<Rightarrow>
                    ((enabled \<and> \<not> Utils_IsStringBlank path \<and> \<not> Utils_IsStringBlank hash,
                      config\<lparr>checks_enabled := enabled, filePath := path, fileHash := hash\<rparr>), w3)
                | (_, w3) \<Rightarrow> ((False, config\<lparr>checks_enabled := enabled, filePath := path\<rparr>), w3))
           | (_, w2) \<Rightarrow> ((False, config\<lparr>checks_enabled := enabled\<rparr>), w2))
      | (_, w1) \<Rightarrow> ((False, config), w1))"

text \<open>A failure is only logged; the function has no return value to speak of.\<close>

definition BaselineCollector_AddBaselineCustomChecksPayload ::
  "('v, 'o, 'r) parson \<Rightarrow> ('v, 'o, 'r, 'h) parson_doc \<Rightarrow> ('v, 'r) JsonArrayWriter \<Rightarrow> BaselineCustomChecksConfiguration \<Rightarrow>
    ('h, 'a) linux_env_scheme \<Rightarrow> ('h, 'a) linux_env_scheme" where
  "BaselineCollector_AddBaselineCustomChecksPayload P D baselinePayloadArray config w =
     (let command = OMS_BASELINE_CUSTOM_CHECKS_COMMAND (the (filePath config)) (the (fileHash config)) in
      case Utils_StringFormat (Some command) w of
        ((ACTION_OK, Some baselineCommand), w1) \<Rightarrow> snd (BaselineCollector_AddPayloads P D baselinePayloadArray baselineCommand w1)
      | (_, w1) \<Rightarrow> w1)"

definition baseline_payload ::
  "('v, 'o, 'r) parson \<Rightarrow> ('v, 'o, 'r, 'h) parson_doc \<Rightarrow> ('v, 'r) JsonArrayWriter \<Rightarrow>
    ('h, 'a) linux_env_scheme \<Rightarrow> EventCollectorResult \<times> ('h, 'a) linux_env_scheme" where
  "baseline_payload P D baselinePayloadArray w =
     (let (result, w1) = BaselineCollector_AddPayloads P D baselinePayloadArray OMS_BASELINE_COMMAND w in
      if result \<noteq> EVENT_COLLECTOR_OK then (result, w1)
      else let ((enabled, config), w2) = BaselineCollector_IsBaselineCustomChecksEnabled w1
        in (EVENT_COLLECTOR_OK,
            if enabled then BaselineCollector_AddBaselineCustomChecksPayload P D baselinePayloadArray config w2 else w2))"

definition BaselineCollector_GetEvents ::
  "('v, 'o, 'r) parson \<Rightarrow> ('v, 'o, 'r, 'h) parson_doc \<Rightarrow> nat \<Rightarrow> SyncQueue list \<Rightarrow> ('h, 'a) linux_env_scheme \<Rightarrow>
    (EventCollectorResult \<times> SyncQueue list) \<times> ('h, 'a) linux_env_scheme" where
  "BaselineCollector_GetEvents P D =
     collect_event D False
       (\<lambda>baselineEventWriter. GenericEvent_AddMetadata D baselineEventWriter EVENT_PERIODIC_CATEGORY BASELINE_NAME
          EVENT_TYPE_SECURITY_VALUE BASELINE_PAYLOAD_SCHEMA_VERSION)
       (baseline_payload P D)"

section \<open>What it leaves behind\<close>

lemma clean_single_result:
  assumes D: "parson_lists D roots"
  shows "clean roots w (snd (BaselineCollector_AddSingleResult P D item arr w))"
proof -
  have "clean roots w (snd (BaselineCollector_CopyStringValue P D item k1 wr k2 w))" for k1 wr k2 w
    by (auto simp: BaselineCollector_CopyStringValue_def intro: clean_writes [OF D]
        split: prod.split JsonReaderResult.split option.split)
  then have "clean roots w (snd (add_payload_object D arr
      (\<lambda>wr. [json_step (JsonObjectWriter_WriteString D wr k1 s), BaselineCollector_CopyStringValue P D item k2 wr k3,
        BaselineCollector_CopyStringValue P D item k4 wr k5, BaselineCollector_CopyStringValue P D item k6 wr k7,
        BaselineCollector_CopyStringValue P D item k8 wr k9]) w))" for k1 s k2 k3 k4 k5 k6 k7 k8 k9
    by (intro clean_payload_object [OF D]) (auto intro: clean_writes [OF D])
  then show ?thesis
    by (auto simp: BaselineCollector_AddSingleResult_def split: prod.split JsonReaderResult.split option.split)
qed

lemma clean_read_object: "clean roots w (snd (JsonArrayReader_ReadObject P r i w))"
  by (auto simp: JsonArrayReader_ReadObject_def JsonObjectReader_InternalInit_def Let_def split_beta split: option.split)

lemma clean_results:
  assumes D: "parson_lists D roots"
  shows "clean roots w (snd (add_results P D r arr is w))"
proof (induction "is" arbitrary: w)
  case (Cons i "is")
  obtain x w1 where item: "JsonArrayReader_ReadObject P r (of_nat i) w = (x, w1)" by fastforce
  have c1: "clean roots w w1" using clean_read_object [of roots w P r "of_nat i"] by (simp add: item)
  have c2: "clean roots w (snd (BaselineCollector_AddSingleResult P D it arr w1))" for it
    by (rule clean_trans [OF c1 clean_single_result [OF D]])
  from clean_trans [OF c2 Cons.IH] c1 c2 show ?case
    by (auto simp: item Let_def split_beta split: prod.split JsonReaderResult.split option.split)
qed simp

lemma clean_readers:
  "clean roots w (snd (JsonObjectReader_InitFromString P s w))" "clean roots w (snd (JsonObjectReader_ReadArray P rd key w))"
  by (auto simp: JsonObjectReader_InitFromString_def JsonObjectReader_Init_def JsonObjectReader_ReadArray_def JsonArrayReader_Init_def
      Let_def split_beta split: option.split)

lemma apart_run: "apart roots w (snd (BaselineCollector_RunOmsbaseline command w))"
  unfolding BaselineCollector_RunOmsbaseline_def
  by (rule apart_root) (simp add: clean_apart [OF clean_Execute] Let_def split_beta)

lemma apart_payloads:
  assumes D: "parson_lists D roots"
  shows "apart roots w (snd (BaselineCollector_AddPayloads P D arr command w))"
proof -
  obtain r s w2 where run: "BaselineCollector_RunOmsbaseline command (next_tick w) = ((r, s), w2)" by (metis prod.collapse)
  have a2: "apart roots w w2" using apart_trans [OF apart_next apart_run, of roots w command] by (simp add: run)
  define w3 where "w3 = next_tick w2"
  have a3: "apart roots w w3" unfolding w3_def by (rule apart_trans [OF a2 apart_next])
  define buf where "buf = s @ (case fst (sys_bytes w2) of None \<Rightarrow> [] | Some s \<Rightarrow> s)"
  obtain x w4 where init: "JsonObjectReader_InitFromString P buf w3 = (x, w4)" by fastforce
  have a4: "apart roots w w4"
    using apart_trans [OF a3 clean_apart [OF clean_readers(1)], of P buf] by (simp add: init)
  have a5: "apart roots w (snd (JsonObjectReader_ReadArray P rd key w4))" for rd key
    by (rule apart_trans [OF a4 clean_apart [OF clean_readers(2)]])
  note a6 = apart_trans [OF a5 clean_apart [OF clean_results [OF D]]]
  show ?thesis using a2 a4 a5 a6
    by (auto simp: BaselineCollector_AddPayloads_def Let_def split_beta run w3_def [symmetric] buf_def [symmetric] init
        split: prod.split JsonReaderResult.split option.split)
qed

lemma custom_checks_ticked: "ticked w (snd (BaselineCollector_IsBaselineCustomChecksEnabled w))"
proof -
  have getters: "ticked v (snd (TwinConfiguration_GetBaselineCustomChecksEnabled v))"
    "ticked v (snd (TwinConfiguration_GetBaselineCustomChecksFilePath v))"
    "ticked v (snd (TwinConfiguration_GetBaselineCustomChecksFileHash v))" for v :: "('a, 'b) twin_env_scheme"
    by (simp_all add: TwinConfiguration_GetBaselineCustomChecksEnabled_def TwinConfiguration_GetBaselineCustomChecksFilePath_def
        TwinConfiguration_GetBaselineCustomChecksFileHash_def TwinConfiguration_GetFieldBool_def TwinConfiguration_GetFieldString_def
        GetField_ticked)
  obtain x w1 where x: "TwinConfiguration_GetBaselineCustomChecksEnabled w = (x, w1)" by fastforce
  obtain y w2 where y: "TwinConfiguration_GetBaselineCustomChecksFilePath w1 = (y, w2)" by fastforce
  obtain z w3 where z: "TwinConfiguration_GetBaselineCustomChecksFileHash w2 = (z, w3)" by fastforce
  have t1: "ticked w w1" using getters(1) [of w] by (simp add: x)
  have t2: "ticked w w2" using ticked_trans [OF t1 getters(2)] by (simp add: y)
  have t3: "ticked w w3" using ticked_trans [OF t2 getters(3)] by (simp add: z)
  show ?thesis using t1 t2 t3
    by (auto simp: BaselineCollector_IsBaselineCustomChecksEnabled_def Let_def x y z
        split: prod.split TwinConfigurationResult.split option.split)
qed

lemma baseline_apart:
  assumes D: "parson_lists D roots"
  shows "apart roots w (snd (baseline_payload P D arr w))"
proof -
  obtain r w1 where p: "BaselineCollector_AddPayloads P D arr OMS_BASELINE_COMMAND w = (r, w1)" by fastforce
  have a1: "apart roots w w1" using apart_payloads [OF D, of w P arr OMS_BASELINE_COMMAND] by (simp add: p)
  obtain b c w2 where e: "BaselineCollector_IsBaselineCustomChecksEnabled w1 = ((b, c), w2)" by (metis prod.collapse)
  have a2: "apart roots w w2" using apart_trans [OF a1 ticked_apart [OF custom_checks_ticked]] by (simp add: e)
  obtain y w3 where f: "Utils_StringFormat (Some (OMS_BASELINE_CUSTOM_CHECKS_COMMAND (the (filePath c)) (the (fileHash c)))) w2 = (y, w3)"
    by fastforce
  have a3: "apart roots w w3"
    using apart_trans [OF a2 apart_StringFormat, of "Some (OMS_BASELINE_CUSTOM_CHECKS_COMMAND (the (filePath c)) (the (fileHash c)))"]
    by (simp add: f)
  have "apart roots w (BaselineCollector_AddBaselineCustomChecksPayload P D arr c w2)"
    using a3 apart_trans [OF a3 apart_payloads [OF D]]
    by (auto simp: BaselineCollector_AddBaselineCustomChecksPayload_def f Let_def split: prod.split ActionResult.split option.split)
  with a1 a2 show ?thesis by (simp add: baseline_payload_def p e)
qed

interpretation baseline: event_collector "BaselineCollector_GetEvents P D" "collectors_ready d N" D roots L "N + 2" "- {d}"
  for P D d N roots L
  unfolding BaselineCollector_GetEvents_def by (rule periodic_collector) (rule baseline_apart)

end
