(* ===== verification/Audit_Search.thy ===== *)
theory Audit_Search
  imports Linux_Process File_Utils
begin

text \<open>
  The search in the log of the audit daemon, \<^verbatim>\<open>src/agent/src/os_utils/linux/audit/audit_search.c\<close>,
  \<^verbatim>\<open>audit_search_utils.c\<close> and \<^verbatim>\<open>audit_search_record.c\<close>.  The log itself and what a rule selects belong to
  libauparse and are an argument: the events by age, the records of an event, and what the reading functions
  answer at a position of an event.  Every call of the library may fail, as the environment answers.
\<close>

datatype AuditSearchResultValues =
  AUDIT_SEARCH_OK | AUDIT_SEARCH_HAS_MORE_DATA | AUDIT_SEARCH_NO_MORE_DATA | AUDIT_SEARCH_NO_DATA
| AUDIT_SEARCH_FIELD_DOES_NOT_EXIST | AUDIT_SEARCH_RECORD_DOES_NOT_EXIST | AUDIT_SEARCH_EXCEPTION

datatype AuditSearchCriteria = AUDIT_SEARCH_CRITERIA_TYPE | AUDIT_SEARCH_CRITERIA_SYSCALL

datatype ausearch_rule_t = AUSEARCH_RULE_CLEAR | AUSEARCH_RULE_OR | AUSEARCH_RULE_AND

text \<open>The rules a search is given: a field, a field by its interpreted value, an expression, a time (in seconds).\<close>

datatype ausearch_rule =
  Item ausearch_rule_t string string string
| Interpreted_item ausearch_rule_t string string string
| Rule_expression ausearch_rule_t string
| Timestamp_item ausearch_rule_t string time_t

datatype field_search = FIELD_FOUND | FIELD_MISSING | FIELD_ERROR

text \<open>
  The library, for events \<open>'e\<close> and positions \<open>'f\<close> inside a record.  \<open>find_field\<close> is asked at a record and a
  position and answers with those it has moved to; \<open>field_int\<close> answers the number and whether \<open>errno\<close> was set.
\<close>

record ('e, 'f) auparse =
  audit_log :: "nat \<Rightarrow> 'e list"
  satisfies :: "ausearch_rule list \<Rightarrow> 'e \<Rightarrow> bool"
  event_seconds :: "'e \<Rightarrow> time_t"
  event_records :: "'e \<Rightarrow> (int \<times> string option) list"
  first_field :: "'e list \<Rightarrow> nat \<Rightarrow> 'f"
  find_field :: "'e \<Rightarrow> nat \<Rightarrow> 'f \<Rightarrow> string \<Rightarrow> field_search \<times> nat \<times> 'f"
  field_int :: "'e \<Rightarrow> nat \<Rightarrow> 'f \<Rightarrow> int \<times> bool"
  field_str :: "'e \<Rightarrow> nat \<Rightarrow> 'f \<Rightarrow> string option"
  interpret_field :: "'e \<Rightarrow> nat \<Rightarrow> 'f \<Rightarrow> string option"

text \<open>An open search: its rules, the events from the current one on, and the position in the current one.\<close>

record ('e, 'f) auparse_state =
  searchRules :: "ausearch_rule list"
  ahead :: "'e list"
  recordNumber :: nat
  fieldPosition :: 'f

record ('e, 'f) AuditSearch =
  audit :: "('e, 'f) auparse_state"
  checkpointFile :: "string option"
  searchTime :: time_t
  firstSearch :: bool
  processInfo :: ProcessInfo

definition AUDIT_SEARCH_CRITERIA_TYPE_NAME :: string where "AUDIT_SEARCH_CRITERIA_TYPE_NAME = ''type''"
definition AUDIT_SEARCH_CRITERIA_SYSCALL_NAME :: string where "AUDIT_SEARCH_CRITERIA_SYSCALL_NAME = ''syscall''"
definition AUDIT_USER_AUTH_NAME :: string where "AUDIT_USER_AUTH_NAME = ''USER_AUTH''"
definition AUDIT_USER_AUTH_SEARECH_RULE :: string where
  "AUDIT_USER_AUTH_SEARECH_RULE =
     ''(type r= USER_AUTH) && (exe i!= '' @ CHR 0x22 # ''/usr/bin/sudo'' @ CHR 0x22 # '') && (exe i!= '' @ CHR 0x22 # ''/bin/sudo''
       @ CHR 0x22 # '')''"

section \<open>Opening a search\<close>

definition AuditSearch_ConvertCriteriaToString :: "AuditSearchCriteria \<Rightarrow> string" where
  "AuditSearch_ConvertCriteriaToString searchCriteria =
     (case searchCriteria of
        AUDIT_SEARCH_CRITERIA_TYPE \<Rightarrow> AUDIT_SEARCH_CRITERIA_TYPE_NAME
      | AUDIT_SEARCH_CRITERIA_SYSCALL \<Rightarrow> AUDIT_SEARCH_CRITERIA_SYSCALL_NAME)"

text \<open>Logins are searched without those of \<open>sudo\<close>; system calls by their name.\<close>

definition message_rule :: "AuditSearchCriteria \<Rightarrow> ausearch_rule_t \<Rightarrow> string \<Rightarrow> ausearch_rule" where
  "message_rule searchCriteria currentRule messageType =
     (if searchCriteria = AUDIT_SEARCH_CRITERIA_TYPE \<and> messageType = AUDIT_USER_AUTH_NAME
      then Rule_expression currentRule AUDIT_USER_AUTH_SEARECH_RULE
      else if searchCriteria = AUDIT_SEARCH_CRITERIA_SYSCALL
      then Interpreted_item currentRule (AuditSearch_ConvertCriteriaToString searchCriteria) ''='' messageType
      else Item currentRule (AuditSearch_ConvertCriteriaToString searchCriteria) ''='' messageType)"

fun add_message_types ::
  "AuditSearchCriteria \<Rightarrow> ausearch_rule_t \<Rightarrow> string list \<Rightarrow> ausearch_rule list \<Rightarrow> 'a env_scheme \<Rightarrow>
    (bool \<times> ausearch_rule list) \<times> 'a env_scheme" where
  "add_message_types searchCriteria currentRule [] rs w = ((True, rs), w)"
| "add_message_types searchCriteria currentRule (messageType # rest) rs w =
     (let (ok, w1) = sys_ext w in
      if \<not> ok then ((False, rs), w1)
      else add_message_types searchCriteria AUSEARCH_RULE_OR rest (rs @ [message_rule searchCriteria currentRule messageType]) w1)"

text \<open>A \<open>time_t\<close> as the machine stores it: eight bytes, the lowest first.\<close>

fun stored_value :: "string \<Rightarrow> nat" where
  "stored_value [] = 0"
| "stored_value (c # cs) = code_of c + 256 * stored_value cs"

definition time_of_bytes :: "string \<Rightarrow> time_t" where
  "time_of_bytes bytes = sint (of_nat (stored_value bytes) :: 64 word)"

text \<open>A checkpoint that may not be read, or is of another size, is passed over like one that does not exist.\<close>

definition AuditSearch_AddCheckpointToSearch ::
  "ausearch_rule list \<Rightarrow> 'a env_scheme \<Rightarrow> (AuditSearchResultValues \<times> ausearch_rule list) \<times> 'a env_scheme" where
  "AuditSearch_AddCheckpointToSearch rs w =
     (let ((result, timeval), w1) = FileUtils_ReadFile 8 False w in
      if result = FILE_UTILS_OK
      then let (ok, w2) = sys_ext w1 in
        if \<not> ok then ((AUDIT_SEARCH_EXCEPTION, rs), w2)
        else ((AUDIT_SEARCH_OK, rs @ [Timestamp_item AUSEARCH_RULE_AND ''>'' (time_of_bytes timeval)]), w2)
      else if result = FILE_UTILS_ERROR then ((AUDIT_SEARCH_EXCEPTION, rs), w1)
      else ((AUDIT_SEARCH_OK, rs), w1))"

definition checkpoint_rules ::
  "string option \<Rightarrow> ausearch_rule list \<Rightarrow> 'a env_scheme \<Rightarrow> (AuditSearchResultValues \<times> ausearch_rule list) \<times> 'a env_scheme" where
  "checkpoint_rules path rs w =
     (case path of
        None \<Rightarrow> ((AUDIT_SEARCH_OK, rs), w)
      | Some name \<Rightarrow>
          (let (copy, w1) = Utils_CreateStringCopy (Some name) w in
           if copy = None then ((AUDIT_SEARCH_EXCEPTION, rs), w1) else AuditSearch_AddCheckpointToSearch rs w1))"

text \<open>The search behind the change to root; \<open>None\<close> when a step fails.\<close>

definition open_search ::
  "('e, 'f) auparse \<Rightarrow> AuditSearchCriteria \<Rightarrow> string list \<Rightarrow> string option \<Rightarrow> ProcessInfo \<Rightarrow> 'a env_scheme \<Rightarrow>
    ('e, 'f) AuditSearch option \<times> 'a env_scheme" where
  "open_search A searchCriteria messageTypes path info w =
     (let (opened, w1) = sys_ext w in
      if \<not> opened then (None, w1)
      else
        let ((ok, rs), w2) = add_message_types searchCriteria AUSEARCH_RULE_CLEAR messageTypes [] w1 in
        if \<not> ok then (None, w2)
        else
          let ((result, rs1), w3) = checkpoint_rules path rs w2 in
          if result \<noteq> AUDIT_SEARCH_OK then (None, w3)
          else
            let (stopSet, w4) = sys_ext w3 in
            if \<not> stopSet then (None, w4)
            else
              let (now, w5) = sys_time w4; events = audit_log A (tick w)
              in (Some \<lparr>audit = \<lparr>searchRules = rs1, ahead = events, recordNumber = 0, fieldPosition = first_field A events 0\<rparr>,
                        checkpointFile = path, searchTime = now, firstSearch = True, processInfo = info\<rparr>, w5))"

definition AuditSearch_InitMultipleSearchCriteria ::
  "('e, 'f) auparse \<Rightarrow> AuditSearchCriteria \<Rightarrow> string list \<Rightarrow> string option \<Rightarrow> ('h, 'a) linux_env_scheme \<Rightarrow>
    (AuditSearchResultValues \<times> ('e, 'f) AuditSearch option) \<times> ('h, 'a) linux_env_scheme" where
  "AuditSearch_InitMultipleSearchCriteria A searchCriteria messageTypes path w =
     (let ((ok, info), w1) = ProcessInfoHandler_ChangeToRoot w in
      if \<not> ok then ((AUDIT_SEARCH_EXCEPTION, None), w1)
      else case open_search A searchCriteria messageTypes path info w1 of
        (None, w2) \<Rightarrow> ((AUDIT_SEARCH_EXCEPTION, None), snd (ProcessInfoHandler_Reset info w2))
      | (Some s, w2) \<Rightarrow> ((AUDIT_SEARCH_OK, Some s), w2))"

definition AuditSearch_Init ::
  "('e, 'f) auparse \<Rightarrow> AuditSearchCriteria \<Rightarrow> string \<Rightarrow> string option \<Rightarrow> ('h, 'a) linux_env_scheme \<Rightarrow>
    (AuditSearchResultValues \<times> ('e, 'f) AuditSearch option) \<times> ('h, 'a) linux_env_scheme" where
  "AuditSearch_Init A searchCriteria messageType = AuditSearch_InitMultipleSearchCriteria A searchCriteria [messageType]"

text \<open>The memory of the search is released; a user that cannot be set back is only logged.\<close>

definition AuditSearch_Deinit :: "('e, 'f) AuditSearch \<Rightarrow> ('h, 'a) linux_env_scheme \<Rightarrow> ('h, 'a) linux_env_scheme" where
  "AuditSearch_Deinit s w = snd (ProcessInfoHandler_Reset (processInfo s) w)"

section \<open>The events\<close>

definition at_record :: "('e, 'f) auparse \<Rightarrow> nat \<Rightarrow> ('e, 'f) auparse_state \<Rightarrow> ('e, 'f) auparse_state" where
  "at_record A n h = h\<lparr>recordNumber := n, fieldPosition := first_field A (ahead h) n\<rparr>"

text \<open>\<open>ausearch_next_event\<close> begins with the current event and stops at the first that the rules select.\<close>

definition next_match ::
  "('e, 'f) auparse \<Rightarrow> ('e, 'f) AuditSearch \<Rightarrow> 'a env_scheme \<Rightarrow> (AuditSearchResultValues \<times> ('e, 'f) AuditSearch) \<times> 'a env_scheme" where
  "next_match A s w =
     (let s1 = s\<lparr>firstSearch := False\<rparr>; (ok, w1) = sys_ext w in
      if \<not> ok then ((AUDIT_SEARCH_EXCEPTION, s1), w1)
      else
        let h = audit s; rest = dropWhile (\<lambda>e. \<not> satisfies A (searchRules h) e) (ahead h)
        in ((if rest = [] then AUDIT_SEARCH_NO_MORE_DATA else AUDIT_SEARCH_HAS_MORE_DATA,
             s1\<lparr>audit := at_record A 0 (h\<lparr>ahead := rest\<rparr>)\<rparr>), w1))"

definition AuditSearch_GetNext ::
  "('e, 'f) auparse \<Rightarrow> ('e, 'f) AuditSearch \<Rightarrow> 'a env_scheme \<Rightarrow> (AuditSearchResultValues \<times> ('e, 'f) AuditSearch) \<times> 'a env_scheme" where
  "AuditSearch_GetNext A s w =
     (if firstSearch s then next_match A s w
      else
        let (ok, w1) = sys_ext w in
        if \<not> ok then ((AUDIT_SEARCH_EXCEPTION, s), w1)
        else
          let h = audit s; s1 = s\<lparr>audit := at_record A 0 (h\<lparr>ahead := tl (ahead h)\<rparr>)\<rparr>
          in if tl (ahead h) = [] then ((AUDIT_SEARCH_NO_MORE_DATA, s1), w1) else next_match A s1 w1)"

definition AuditSearch_SetCheckpoint :: "('e, 'f) AuditSearch \<Rightarrow> 'a env_scheme \<Rightarrow> AuditSearchResultValues \<times> 'a env_scheme" where
  "AuditSearch_SetCheckpoint s w =
     (let (result, w1) = FileUtils_WriteToFile 8 w
      in (if result \<noteq> FILE_UTILS_OK then AUDIT_SEARCH_EXCEPTION else AUDIT_SEARCH_OK, w1))"

definition current_event :: "('e, 'f) AuditSearch \<Rightarrow> 'e" where
  "current_event s = hd (ahead (audit s))"

text \<open>The seconds are cut to 32 bits.\<close>

definition AuditSearch_GetEventTime ::
  "('e, 'f) auparse \<Rightarrow> ('e, 'f) AuditSearch \<Rightarrow> 'a env_scheme \<Rightarrow> (AuditSearchResultValues \<times> u32 option) \<times> 'a env_scheme" where
  "AuditSearch_GetEventTime A s w =
     (let (ok, w1) = sys_ext w in
      if \<not> ok then ((AUDIT_SEARCH_EXCEPTION, None), w1)
      else ((AUDIT_SEARCH_OK, Some (of_int (event_seconds A (current_event s)))), w1))"

section \<open>The fields\<close>

definition AuditSearchUtils_FindField ::
  "('e, 'f) auparse \<Rightarrow> ('e, 'f) AuditSearch \<Rightarrow> string \<Rightarrow> AuditSearchResultValues \<times> ('e, 'f) AuditSearch" where
  "AuditSearchUtils_FindField A s fieldName =
     (let h = audit s; (answer, n, f) = find_field A (current_event s) (recordNumber h) (fieldPosition h) fieldName
      in (case answer of
            FIELD_FOUND \<Rightarrow> AUDIT_SEARCH_OK
          | FIELD_MISSING \<Rightarrow> AUDIT_SEARCH_FIELD_DOES_NOT_EXIST
          | FIELD_ERROR \<Rightarrow> AUDIT_SEARCH_EXCEPTION, s\<lparr>audit := h\<lparr>recordNumber := n, fieldPosition := f\<rparr>\<rparr>))"

text \<open>What a position answers, from the library's reading function \<open>g\<close>.\<close>

definition at_position :: "('e \<Rightarrow> nat \<Rightarrow> 'f \<Rightarrow> 'x) \<Rightarrow> ('e, 'f) AuditSearch \<Rightarrow> 'x" where
  "at_position g s = g (current_event s) (recordNumber (audit s)) (fieldPosition (audit s))"

definition AuditSearchUtils_ReadInt ::
  "('e, 'f) auparse \<Rightarrow> ('e, 'f) AuditSearch \<Rightarrow> string \<Rightarrow> (AuditSearchResultValues \<times> int option) \<times> ('e, 'f) AuditSearch" where
  "AuditSearchUtils_ReadInt A s fieldName =
     (let (searchResult, s1) = AuditSearchUtils_FindField A s fieldName in
      if searchResult \<noteq> AUDIT_SEARCH_OK then ((searchResult, None), s1)
      else let (v, errnoSet) = at_position (field_int A) s1 in
        if v = -1 \<and> errnoSet then ((AUDIT_SEARCH_EXCEPTION, None), s1) else ((AUDIT_SEARCH_OK, Some v), s1))"

text \<open>The two functions that read a text differ in the library function they ask.\<close>

definition read_text ::
  "('e \<Rightarrow> nat \<Rightarrow> 'f \<Rightarrow> string option) \<Rightarrow> ('e, 'f) auparse \<Rightarrow> ('e, 'f) AuditSearch \<Rightarrow> string \<Rightarrow>
    (AuditSearchResultValues \<times> string option) \<times> ('e, 'f) AuditSearch" where
  "read_text g A s fieldName =
     (let (searchResult, s1) = AuditSearchUtils_FindField A s fieldName in
      if searchResult \<noteq> AUDIT_SEARCH_OK then ((searchResult, None), s1)
      else case at_position g s1 of
        None \<Rightarrow> ((AUDIT_SEARCH_EXCEPTION, None), s1)
      | Some t \<Rightarrow> ((AUDIT_SEARCH_OK, Some t), s1))"

definition AuditSearchUtils_ReadString ::
  "('e, 'f) auparse \<Rightarrow> ('e, 'f) AuditSearch \<Rightarrow> string \<Rightarrow> (AuditSearchResultValues \<times> string option) \<times> ('e, 'f) AuditSearch" where
  "AuditSearchUtils_ReadString A = read_text (field_str A) A"

definition AuditSearchUtils_InterpretString ::
  "('e, 'f) auparse \<Rightarrow> ('e, 'f) AuditSearch \<Rightarrow> string \<Rightarrow> (AuditSearchResultValues \<times> string option) \<times> ('e, 'f) AuditSearch" where
  "AuditSearchUtils_InterpretString A = read_text (interpret_field A) A"

text \<open>\<open>auparse_first_record\<close>: -1 is an error, 0 an event without records.\<close>

definition auparse_first_record ::
  "('e, 'f) auparse \<Rightarrow> ('e, 'f) AuditSearch \<Rightarrow> 'a env_scheme \<Rightarrow> (int \<times> ('e, 'f) AuditSearch) \<times> 'a env_scheme" where
  "auparse_first_record A s w =
     (let (ok, w1) = sys_ext w in
      if \<not> ok then ((-1, s), w1)
      else if event_records A (current_event s) = [] then ((0, s), w1)
      else ((1, s\<lparr>audit := at_record A 0 (audit s)\<rparr>), w1))"

text \<open>\<open>AuditSearch_ReadInt\<close> and its like search from the first record of the event on.\<close>

definition from_first_record ::
  "(('e, 'f) AuditSearch \<Rightarrow> string \<Rightarrow> (AuditSearchResultValues \<times> 'x option) \<times> ('e, 'f) AuditSearch) \<Rightarrow>
    ('e, 'f) auparse \<Rightarrow> ('e, 'f) AuditSearch \<Rightarrow> string \<Rightarrow> 'a env_scheme \<Rightarrow>
    ((AuditSearchResultValues \<times> 'x option) \<times> ('e, 'f) AuditSearch) \<times> 'a env_scheme" where
  "from_first_record reader A s fieldName w =
     (let ((result, s1), w1) = auparse_first_record A s w in
      if result = -1 then (((AUDIT_SEARCH_EXCEPTION, None), s1), w1)
      else if result = 0 then (((AUDIT_SEARCH_NO_DATA, None), s1), w1)
      else (reader s1 fieldName, w1))"

definition AuditSearch_ReadInt ::
  "('e, 'f) auparse \<Rightarrow> ('e, 'f) AuditSearch \<Rightarrow> string \<Rightarrow> 'a env_scheme \<Rightarrow>
    ((AuditSearchResultValues \<times> int option) \<times> ('e, 'f) AuditSearch) \<times> 'a env_scheme" where
  "AuditSearch_ReadInt A = from_first_record (AuditSearchUtils_ReadInt A) A"

definition AuditSearch_ReadString ::
  "('e, 'f) auparse \<Rightarrow> ('e, 'f) AuditSearch \<Rightarrow> string \<Rightarrow> 'a env_scheme \<Rightarrow>
    ((AuditSearchResultValues \<times> string option) \<times> ('e, 'f) AuditSearch) \<times> 'a env_scheme" where
  "AuditSearch_ReadString A = from_first_record (AuditSearchUtils_ReadString A) A"

definition AuditSearch_InterpretString ::
  "('e, 'f) auparse \<Rightarrow> ('e, 'f) AuditSearch \<Rightarrow> string \<Rightarrow> 'a env_scheme \<Rightarrow>
    ((AuditSearchResultValues \<times> string option) \<times> ('e, 'f) AuditSearch) \<times> 'a env_scheme" where
  "AuditSearch_InterpretString A = from_first_record (AuditSearchUtils_InterpretString A) A"

section \<open>The records\<close>

definition current_record :: "('e, 'f) auparse \<Rightarrow> ('e, 'f) AuditSearch \<Rightarrow> int \<times> string option" where
  "current_record A s = event_records A (current_event s) ! recordNumber (audit s)"

text \<open>The records still to be looked at, by their numbers.\<close>

fun goto_while ::
  "('e, 'f) auparse \<Rightarrow> ('e, 'f) AuditSearch \<Rightarrow> int \<Rightarrow> nat list \<Rightarrow> 'a env_scheme \<Rightarrow>
    (AuditSearchResultValues \<times> ('e, 'f) AuditSearch) \<times> 'a env_scheme" where
  "goto_while A s wantedType [] w = ((AUDIT_SEARCH_RECORD_DOES_NOT_EXIST, s), w)"
| "goto_while A s wantedType (i # rest) w =
     (let (ok, w1) = sys_ext w in
      if \<not> ok then ((AUDIT_SEARCH_EXCEPTION, s), w1)
      else
        let s1 = s\<lparr>audit := at_record A i (audit s)\<rparr>; currentType = fst (current_record A s1)
        in if currentType = 0 then ((AUDIT_SEARCH_EXCEPTION, s1), w1)
           else if currentType = wantedType then ((AUDIT_SEARCH_OK, s1), w1)
           else goto_while A s1 wantedType rest w1)"

definition AuditSearchRecord_Goto ::
  "('e, 'f) auparse \<Rightarrow> ('e, 'f) AuditSearch \<Rightarrow> int \<Rightarrow> 'a env_scheme \<Rightarrow>
    (AuditSearchResultValues \<times> ('e, 'f) AuditSearch) \<times> 'a env_scheme" where
  "AuditSearchRecord_Goto A s wantedType w =
     (let numOfRecords = of_nat (length (event_records A (current_event s))) :: u32
      in if numOfRecords = 0 then ((AUDIT_SEARCH_EXCEPTION, s), w)
         else goto_while A s wantedType [0..<unat numOfRecords] w)"

definition AuditSearchRecord_MaxRecordLength ::
  "('e, 'f) auparse \<Rightarrow> ('e, 'f) AuditSearch \<Rightarrow> AuditSearchResultValues \<times> u32 option" where
  "AuditSearchRecord_MaxRecordLength A s =
     (case snd (current_record A s) of
        None \<Rightarrow> (AUDIT_SEARCH_EXCEPTION, None)
      | Some recordAsString \<Rightarrow> (AUDIT_SEARCH_OK, Some (of_nat (length recordAsString))))"

definition AuditSearchRecord_ReadInt ::
  "('e, 'f) auparse \<Rightarrow> ('e, 'f) AuditSearch \<Rightarrow> string \<Rightarrow> (AuditSearchResultValues \<times> int option) \<times> ('e, 'f) AuditSearch" where
  "AuditSearchRecord_ReadInt = AuditSearchUtils_ReadInt"

definition AuditSearchRecord_InterpretString ::
  "('e, 'f) auparse \<Rightarrow> ('e, 'f) AuditSearch \<Rightarrow> string \<Rightarrow> (AuditSearchResultValues \<times> string option) \<times> ('e, 'f) AuditSearch" where
  "AuditSearchRecord_InterpretString = AuditSearchUtils_InterpretString"

text \<open>The texts of all records go to the log, one call of \<open>auparse_next_record\<close> after each.\<close>

fun log_records_while ::
  "('e, 'f) auparse \<Rightarrow> ('e, 'f) AuditSearch \<Rightarrow> nat list \<Rightarrow> 'a env_scheme \<Rightarrow>
    (AuditSearchResultValues \<times> ('e, 'f) AuditSearch) \<times> 'a env_scheme" where
  "log_records_while A s [] w = ((AUDIT_SEARCH_OK, s), w)"
| "log_records_while A s (i # rest) w =
     (let s1 = s\<lparr>audit := at_record A i (audit s)\<rparr> in
      if snd (current_record A s1) = None then ((AUDIT_SEARCH_EXCEPTION, s1), w)
      else let (ok, w1) = sys_ext w in
        if \<not> ok then ((AUDIT_SEARCH_EXCEPTION, s1), w1) else log_records_while A s1 rest w1)"

definition AuditSearch_LogEventText ::
  "('e, 'f) auparse \<Rightarrow> ('e, 'f) AuditSearch \<Rightarrow> 'a env_scheme \<Rightarrow> (AuditSearchResultValues \<times> ('e, 'f) AuditSearch) \<times> 'a env_scheme" where
  "AuditSearch_LogEventText A s w =
     (let ((result, s1), w1) = auparse_first_record A s w in
      if result = 0 then ((AUDIT_SEARCH_NO_DATA, s1), w1)
      else if result = -1 then ((AUDIT_SEARCH_EXCEPTION, s1), w1)
      else log_records_while A s1 [0..<length (event_records A (current_event s1))] w1)"

section \<open>Every call only moves the call counter\<close>

lemma ticked_ext: "sys_ext w = (ok, w1) \<Longrightarrow> ticked w w1"
  using ticked_sys(3) [of w] by simp

lemma ticked_message_types: "ticked w (snd (add_message_types c r ms rs w))"
proof (induction ms arbitrary: r rs w)
  case (Cons m ms)
  have "ticked (next_tick w) (snd (add_message_types c AUSEARCH_RULE_OR ms (rs @ [message_rule c r m]) (next_tick w)))"
    by (rule Cons.IH)
  then show ?case using ticked_trans [of w "next_tick w"] by (auto simp: sys_ext_def Let_def ticked_def next_tick_def)
qed simp

lemma ticked_files: "ticked w (snd (FileUtils_ReadFile n m w))" "ticked w (snd (FileUtils_WriteToFile n w))"
  by (auto simp: FileUtils_ReadFile_def FileUtils_WriteToFile_def sys_defs ticked_def Let_def split: option.split)

lemma ticked_copy: "ticked w (snd (Utils_CreateStringCopy s w))"
  by (cases s) (simp_all add: Utils_CreateStringCopy_def Let_def split_beta)

lemma ticked_checkpoint: "ticked w (snd (AuditSearch_AddCheckpointToSearch rs w))" "ticked w (snd (checkpoint_rules path rs w))"
proof -
  show *: "ticked w (snd (AuditSearch_AddCheckpointToSearch rs w))" for w :: "'a env_scheme"
    using ticked_trans [OF ticked_files(1) ticked_sys(3)] ticked_files(1) [of w 8 False]
    by (auto simp: AuditSearch_AddCheckpointToSearch_def Let_def split_beta)
  show "ticked w (snd (checkpoint_rules path rs w))"
    using ticked_trans [OF ticked_copy *, of w] ticked_copy [of w]
    by (cases path) (simp_all add: checkpoint_rules_def Let_def split_beta)
qed

lemma ticked_open: "ticked w (snd (open_search A c ms path info w))"
proof -
  obtain o1 w1 where w1: "sys_ext w = (o1, w1)" by fastforce
  obtain o2 rs w2 where w2: "add_message_types c AUSEARCH_RULE_CLEAR ms [] w1 = ((o2, rs), w2)" by (metis prod.collapse)
  obtain o3 rs1 w3 where w3: "checkpoint_rules path rs w2 = ((o3, rs1), w3)" by (metis prod.collapse)
  obtain o4 w4 where w4: "sys_ext w3 = (o4, w4)" by fastforce
  have t1: "ticked w w1" by (rule ticked_ext [OF w1])
  have t2: "ticked w w2" using ticked_trans [OF t1] ticked_message_types [of w1 c AUSEARCH_RULE_CLEAR ms "[]"] w2 by simp
  have t3: "ticked w w3" using ticked_trans [OF t2] ticked_checkpoint(2) [of w2 path rs] w3 by simp
  have t4: "ticked w w4" by (rule ticked_trans [OF t3 ticked_ext [OF w4]])
  have t5: "ticked w (snd (sys_time w4))" by (rule ticked_trans [OF t4 ticked_sys(4)])
  show ?thesis using t1 t2 t3 t4 t5 by (simp add: open_search_def w1 w2 w3 w4 Let_def split_beta)
qed

lemma ticked_found: "ticked w (snd (next_match A s w))" "ticked w (snd (AuditSearch_GetNext A s w))"
proof -
  show *: "ticked w (snd (next_match A s w))" for w :: "'a env_scheme" and s
    by (auto simp: next_match_def Let_def split_beta)
  show "ticked w (snd (AuditSearch_GetNext A s w))"
    using ticked_trans [OF ticked_sys(3) *] by (auto simp: AuditSearch_GetNext_def * Let_def split_beta)
qed

lemma ticked_reading:
  "ticked w (snd (AuditSearch_SetCheckpoint s w))" "ticked w (snd (AuditSearch_GetEventTime A s w))"
  "ticked w (snd (from_first_record reader A s name w))"
  "ticked w (snd (AuditSearch_ReadInt A s name w))" "ticked w (snd (AuditSearch_ReadString A s name w))"
  "ticked w (snd (AuditSearch_InterpretString A s name w))"
proof -
  show "ticked w (snd (AuditSearch_SetCheckpoint s w))"
    using ticked_files(2) [of w 8] by (auto simp: AuditSearch_SetCheckpoint_def Let_def split_beta)
  show "ticked w (snd (AuditSearch_GetEventTime A s w))" by (auto simp: AuditSearch_GetEventTime_def Let_def split_beta)
  have "ticked w (snd (auparse_first_record A s w))" by (auto simp: auparse_first_record_def Let_def split_beta)
  then show "ticked w (snd (from_first_record reader A s name w))"
    "ticked w (snd (AuditSearch_ReadInt A s name w))" "ticked w (snd (AuditSearch_ReadString A s name w))"
    "ticked w (snd (AuditSearch_InterpretString A s name w))"
    by (auto simp: AuditSearch_ReadInt_def AuditSearch_ReadString_def AuditSearch_InterpretString_def from_first_record_def
        Let_def split_beta)
qed

lemma ticked_goto: "ticked w (snd (goto_while A s ty is w))" "ticked w (snd (AuditSearchRecord_Goto A s ty w))"
proof -
  show *: "ticked w (snd (goto_while A s ty is w))" for "is" s and w :: "'a env_scheme"
  proof (induction "is" arbitrary: s w)
    case (Cons i "is")
    have "ticked (next_tick w) (snd (goto_while A s ty is (next_tick w)))" for s by (rule Cons.IH)
    then show ?case using ticked_trans [of w "next_tick w"] by (auto simp: sys_ext_def Let_def ticked_def next_tick_def)
  qed simp
  show "ticked w (snd (AuditSearchRecord_Goto A s ty w))" by (simp add: AuditSearchRecord_Goto_def * Let_def)
qed

section \<open>Going through the events\<close>

text \<open>The events a search has still to find.\<close>

definition still_found :: "('e, 'f) auparse \<Rightarrow> ('e, 'f) AuditSearch \<Rightarrow> 'e list" where
  "still_found A s =
     filter (satisfies A (searchRules (audit s))) (if firstSearch s then ahead (audit s) else tl (ahead (audit s)))"

definition searches_left :: "AuditSearchResultValues \<Rightarrow> ('e, 'f) AuditSearch \<Rightarrow> nat" where
  "searches_left r s =
     (if r \<noteq> AUDIT_SEARCH_HAS_MORE_DATA then 0 else length (ahead (audit s)) + (if firstSearch s then 2 else 1))"

lemma dropWhile_not_filter: "dropWhile (\<lambda>x. \<not> P x) xs = y # ys \<Longrightarrow> filter P xs = y # filter P ys \<and> P y"
  by (induction xs) (auto split: if_splits)

lemma dropWhile_not_none: "dropWhile (\<lambda>x. \<not> P x) xs = [] \<longleftrightarrow> filter P xs = []"
  by (simp add: filter_empty_conv)

lemma next_match_facts:
  assumes "next_match A s w = ((r, s'), w')"
  shows "firstSearch s' = False" "processInfo s' = processInfo s" "searchRules (audit s') = searchRules (audit s)"
    "length (ahead (audit s')) \<le> length (ahead (audit s))"
    "r = AUDIT_SEARCH_HAS_MORE_DATA \<Longrightarrow> \<exists>e es. ahead (audit s') = e # es
      \<and> filter (satisfies A (searchRules (audit s))) (ahead (audit s)) = e # filter (satisfies A (searchRules (audit s))) es"
    "r = AUDIT_SEARCH_NO_MORE_DATA \<Longrightarrow> filter (satisfies A (searchRules (audit s))) (ahead (audit s)) = []"
    "r \<in> {AUDIT_SEARCH_HAS_MORE_DATA, AUDIT_SEARCH_NO_MORE_DATA, AUDIT_SEARCH_EXCEPTION}"
    "r = AUDIT_SEARCH_EXCEPTION \<longleftrightarrow> \<not> extOk w (tick w)"
proof -
  let ?rest = "dropWhile (\<lambda>e. \<not> satisfies A (searchRules (audit s)) e) (ahead (audit s))"
  have run: "r = (if \<not> extOk w (tick w) then AUDIT_SEARCH_EXCEPTION
      else if ?rest = [] then AUDIT_SEARCH_NO_MORE_DATA else AUDIT_SEARCH_HAS_MORE_DATA)"
    "s' = (if \<not> extOk w (tick w) then s\<lparr>firstSearch := False\<rparr>
      else s\<lparr>firstSearch := False, audit := at_record A 0 ((audit s)\<lparr>ahead := ?rest\<rparr>)\<rparr>)"
    using assms by (auto simp: next_match_def sys_ext_def Let_def split: if_splits)
  show "firstSearch s' = False" "processInfo s' = processInfo s" "searchRules (audit s') = searchRules (audit s)"
    "length (ahead (audit s')) \<le> length (ahead (audit s))"
    unfolding run(2) using length_dropWhile_le [of "\<lambda>e. \<not> satisfies A (searchRules (audit s)) e" "ahead (audit s)"]
    by (simp_all add: at_record_def)
  show "\<exists>e es. ahead (audit s') = e # es
      \<and> filter (satisfies A (searchRules (audit s))) (ahead (audit s)) = e # filter (satisfies A (searchRules (audit s))) es"
    if "r = AUDIT_SEARCH_HAS_MORE_DATA"
  proof (cases ?rest)
    case Nil
    with that run show ?thesis by (auto split: if_splits)
  next
    case (Cons e es)
    with that run dropWhile_not_filter [OF Cons] show ?thesis by (auto simp: at_record_def split: if_splits)
  qed
  show "filter (satisfies A (searchRules (audit s))) (ahead (audit s)) = []" if "r = AUDIT_SEARCH_NO_MORE_DATA"
  proof -
    have "?rest = []" using that run(1) by (auto split: if_splits)
    then show ?thesis using dropWhile_not_none by blast
  qed
  show "r \<in> {AUDIT_SEARCH_HAS_MORE_DATA, AUDIT_SEARCH_NO_MORE_DATA, AUDIT_SEARCH_EXCEPTION}"
    "r = AUDIT_SEARCH_EXCEPTION \<longleftrightarrow> \<not> extOk w (tick w)"
    using run by auto
qed

text \<open>\<open>GetNext\<close> finds the events that satisfy the rules one after the other.\<close>

lemma GetNext_facts:
  assumes "AuditSearch_GetNext A s w = ((r, s'), w')"
  shows "processInfo s' = processInfo s" "searchRules (audit s') = searchRules (audit s)"
    "r = AUDIT_SEARCH_HAS_MORE_DATA \<Longrightarrow> firstSearch s' = False \<and> ahead (audit s') \<noteq> []
      \<and> still_found A s = current_event s' # still_found A s'"
    "r = AUDIT_SEARCH_NO_MORE_DATA \<Longrightarrow> still_found A s = []"
    "\<forall>n. extOk w n \<Longrightarrow> r \<noteq> AUDIT_SEARCH_EXCEPTION"
    "r \<in> {AUDIT_SEARCH_HAS_MORE_DATA, AUDIT_SEARCH_NO_MORE_DATA, AUDIT_SEARCH_EXCEPTION}"
    "ahead (audit s) \<noteq> [] \<or> firstSearch s \<Longrightarrow> searches_left r s' < searches_left AUDIT_SEARCH_HAS_MORE_DATA s"
proof -
  have "processInfo s' = processInfo s \<and> searchRules (audit s') = searchRules (audit s)
    \<and> (r = AUDIT_SEARCH_HAS_MORE_DATA \<longrightarrow> firstSearch s' = False \<and> ahead (audit s') \<noteq> []
      \<and> still_found A s = current_event s' # still_found A s')
    \<and> (r = AUDIT_SEARCH_NO_MORE_DATA \<longrightarrow> still_found A s = [])
    \<and> ((\<forall>n. extOk w n) \<longrightarrow> r \<noteq> AUDIT_SEARCH_EXCEPTION)
    \<and> r \<in> {AUDIT_SEARCH_HAS_MORE_DATA, AUDIT_SEARCH_NO_MORE_DATA, AUDIT_SEARCH_EXCEPTION}
    \<and> (ahead (audit s) \<noteq> [] \<or> firstSearch s \<longrightarrow> searches_left r s' < searches_left AUDIT_SEARCH_HAS_MORE_DATA s)"
  proof (cases "firstSearch s")
    case True
    then have run: "next_match A s w = ((r, s'), w')" using assms by (simp add: AuditSearch_GetNext_def)
    note F = next_match_facts [OF run]
    show ?thesis using F True by (auto simp: still_found_def current_event_def searches_left_def)
  next
    case first: False
    show ?thesis
    proof (cases "extOk w (tick w)")
      case False
      then have "r = AUDIT_SEARCH_EXCEPTION" "s' = s" using assms first by (auto simp: AuditSearch_GetNext_def sys_ext_def)
      with False show ?thesis by (auto simp: searches_left_def)
    next
      case ok: True
      let ?s1 = "s\<lparr>audit := at_record A 0 ((audit s)\<lparr>ahead := tl (ahead (audit s))\<rparr>)\<rparr>"
      show ?thesis
      proof (cases "tl (ahead (audit s)) = []")
        case True
        then have "r = AUDIT_SEARCH_NO_MORE_DATA" "s' = ?s1"
          using assms first ok by (auto simp: AuditSearch_GetNext_def sys_ext_def Let_def)
        with True first show ?thesis by (auto simp: searches_left_def still_found_def at_record_def)
      next
        case False
        then have run: "next_match A ?s1 (next_tick w) = ((r, s'), w')"
          using assms first ok by (auto simp: AuditSearch_GetNext_def sys_ext_def Let_def)
        note F = next_match_facts [OF run]
        have "length (ahead (audit s')) < length (ahead (audit s))"
          using F(4) False by (cases "ahead (audit s)") (auto simp: at_record_def)
        with F first show ?thesis
          by (auto simp: still_found_def current_event_def searches_left_def at_record_def next_tick_def)
      qed
    qed
  qed
  then show "processInfo s' = processInfo s" "searchRules (audit s') = searchRules (audit s)"
    "r = AUDIT_SEARCH_HAS_MORE_DATA \<Longrightarrow> firstSearch s' = False \<and> ahead (audit s') \<noteq> []
      \<and> still_found A s = current_event s' # still_found A s'"
    "r = AUDIT_SEARCH_NO_MORE_DATA \<Longrightarrow> still_found A s = []"
    "\<forall>n. extOk w n \<Longrightarrow> r \<noteq> AUDIT_SEARCH_EXCEPTION"
    "r \<in> {AUDIT_SEARCH_HAS_MORE_DATA, AUDIT_SEARCH_NO_MORE_DATA, AUDIT_SEARCH_EXCEPTION}"
    "ahead (audit s) \<noteq> [] \<or> firstSearch s \<Longrightarrow> searches_left r s' < searches_left AUDIT_SEARCH_HAS_MORE_DATA s" by blast+
qed

lemma GetNext_fewer:
  assumes "AuditSearch_GetNext A s w = ((r, s'), w')"
  shows "searches_left r s' < searches_left AUDIT_SEARCH_HAS_MORE_DATA s"
proof (cases "ahead (audit s) \<noteq> [] \<or> firstSearch s")
  case True
  then show ?thesis by (rule GetNext_facts(7) [OF assms])
next
  case False
  then have "still_found A s = []" by (simp add: still_found_def)
  then have "r \<noteq> AUDIT_SEARCH_HAS_MORE_DATA" using GetNext_facts(3) [OF assms] by auto
  then show ?thesis by (simp add: searches_left_def)
qed

text \<open>
  The loop of the three collectors over the events, from the answer to the first \<open>GetNext\<close> on.  \<open>handle\<close> works
  on one event, with something of its own, \<open>y\<close>, that lives on; some results end the loop.  Where the handler left
  the position in its event does not matter: the next search starts at the first record of the next one.
\<close>

function audit_events_while ::
  "('e, 'f) auparse \<Rightarrow> (('e, 'f) AuditSearch \<Rightarrow> 'y \<Rightarrow> 'a env_scheme \<Rightarrow> (EventCollectorResult \<times> 'y) \<times> 'a env_scheme) \<Rightarrow>
    (EventCollectorResult \<Rightarrow> bool) \<Rightarrow> AuditSearchResultValues \<Rightarrow> ('e, 'f) AuditSearch \<Rightarrow> 'y \<Rightarrow> 'a env_scheme \<Rightarrow>
    (EventCollectorResult \<times> 'y) \<times> 'a env_scheme" where
  "audit_events_while A handle ends hasNextResult s y w =
     (if hasNextResult = AUDIT_SEARCH_HAS_MORE_DATA
      then let ((result, y1), w1) = handle s y w in
        if ends result then ((result, y1), w1)
        else let ((hasNextResult1, s1), w2) = AuditSearch_GetNext A s w1
          in audit_events_while A handle ends hasNextResult1 s1 y1 w2
      else ((if hasNextResult \<noteq> AUDIT_SEARCH_NO_MORE_DATA then EVENT_COLLECTOR_EXCEPTION else EVENT_COLLECTOR_OK, y), w))"
  by pat_completeness auto

termination
  by (relation "measure (\<lambda>(A, handle, ends, r, s, y, w). searches_left r s)") (auto dest: GetNext_fewer [OF sym])

declare audit_events_while.simps [simp del]

text \<open>
  What a handler keeps is kept by the loop; \<open>k\<close> counts the events handled, at most one for each event of the log
  from the current one on.
\<close>

lemma audit_loop_keeps:
  fixes y :: 'y and w :: "'a env_scheme"
  assumes handle: "\<And>k s y w r y' w'. handle s y w = ((r, y'), w') \<Longrightarrow> k < K \<Longrightarrow> I k y w \<Longrightarrow> I (Suc k) y' w'"
    and ticks: "\<And>k y w w'. I k y w \<Longrightarrow> ticked w w' \<Longrightarrow> I k y w'"
    and "I k y w" and "k + searches_left hasNext s \<le> Suc K" and "hasNext = AUDIT_SEARCH_HAS_MORE_DATA \<longrightarrow> k < K"
    and "audit_events_while A handle ends hasNext s y w = ((r, y'), w')"
  shows "\<exists>m \<le> max k K. I m y' w'"
  using assms(3-)
proof (induction "searches_left hasNext s" arbitrary: k hasNext s y w rule: less_induct)
  case less
  show ?case
  proof (cases "hasNext = AUDIT_SEARCH_HAS_MORE_DATA")
    case False
    then have "y' = y" "w' = w" using less.prems(4) by (auto simp: audit_events_while.simps split: if_splits)
    with less.prems(1) show ?thesis by (intro exI [of _ k]) simp
  next
    case True
    obtain r1 y1 w1 where h: "handle s y w = ((r1, y1), w1)" by (metis prod.collapse)
    have k: "k < K" using less.prems(3) True by simp
    have step: "I (Suc k) y1 w1" by (rule handle [OF h k less.prems(1)])
    show ?thesis
    proof (cases "ends r1")
      case True
      then have "y' = y1" "w' = w1" using less.prems(4) h \<open>hasNext = _\<close> by (auto simp: audit_events_while.simps)
      with step k show ?thesis by (intro exI [of _ "Suc k"]) simp
    next
      case False
      obtain n1 s1 w2 where n: "AuditSearch_GetNext A s w1 = ((n1, s1), w2)" by (metis prod.collapse)
      have rest: "audit_events_while A handle ends n1 s1 y1 w2 = ((r, y'), w')"
        using less.prems(4) h n False True by (simp add: audit_events_while.simps [of A handle ends AUDIT_SEARCH_HAS_MORE_DATA s])
      have fewer: "searches_left n1 s1 < searches_left hasNext s" using GetNext_fewer [OF n] True by simp
      have "ticked w1 w2" using ticked_found(2) [of w1 A s] n by simp
      from ticks [OF step this] have "I (Suc k) y1 w2" .
      moreover have "Suc k + searches_left n1 s1 \<le> Suc K" using fewer less.prems(2) by simp
      moreover have "n1 = AUDIT_SEARCH_HAS_MORE_DATA \<longrightarrow> Suc k < K"
      proof
        assume n1: "n1 = AUDIT_SEARCH_HAS_MORE_DATA"
        then have "firstSearch s1 = False" "ahead (audit s1) \<noteq> []" using GetNext_facts(3) [OF n] by simp_all
        then have "2 \<le> searches_left n1 s1" using n1 by (cases "ahead (audit s1)") (simp_all add: searches_left_def)
        with fewer less.prems(2) show "Suc k < K" by simp
      qed
      ultimately have "\<exists>m \<le> max (Suc k) K. I m y' w'" by (rule less.hyps [OF fewer _ _ _ rest])
      with k show ?thesis by simp
    qed
  qed
qed

section \<open>What a run of a collector does with a search\<close>

text \<open>
  The search around the work of a collector.  The checkpoint is set and the search released also after an error;
  \<open>y0\<close> is what the collector keeps when the search cannot be opened.
\<close>

definition with_search ::
  "('e, 'f) auparse \<Rightarrow> AuditSearchCriteria \<Rightarrow> string list \<Rightarrow> string \<Rightarrow> 'y \<Rightarrow>
    (('e, 'f) AuditSearch \<Rightarrow> ('h, 'a) linux_env_scheme \<Rightarrow> (EventCollectorResult \<times> 'y) \<times> ('h, 'a) linux_env_scheme) \<Rightarrow>
    ('h, 'a) linux_env_scheme \<Rightarrow> (EventCollectorResult \<times> 'y) \<times> ('h, 'a) linux_env_scheme" where
  "with_search A searchCriteria messageTypes path y0 body w =
     (case AuditSearch_InitMultipleSearchCriteria A searchCriteria messageTypes (Some path) w of
        ((AUDIT_SEARCH_OK, Some s), w1) \<Rightarrow>
          (let ((result, y), w2) = body s w1; (checkpointResult, w3) = AuditSearch_SetCheckpoint s w2
           in ((if checkpointResult \<noteq> AUDIT_SEARCH_OK then EVENT_COLLECTOR_EXCEPTION else result, y), AuditSearch_Deinit s w3))
      | (_, w1) \<Rightarrow> ((EVENT_COLLECTOR_EXCEPTION, y0), w1))"

text \<open>Steps that keep the queues, the documents and the diagnostic events, though perhaps not the user.\<close>

definition beside :: "('h \<Rightarrow> 'v set) \<Rightarrow> ('h, 'a) linux_env_scheme \<Rightarrow> ('h, 'a) linux_env_scheme \<Rightarrow> bool" where
  "beside roots w w' \<longleftrightarrow> aside roots w w' \<and> diagnostics_kept w w'"

lemma beside_trans: "beside roots w w1 \<Longrightarrow> beside roots w1 w2 \<Longrightarrow> beside roots w w2"
  unfolding beside_def using aside_trans diagnostics_kept_trans by blast

lemma apart_beside: "apart roots w w' \<Longrightarrow> beside roots w w'"
  by (simp add: apart_def beside_def)

lemma beside_users:
  fixes w :: "('h, 'a) linux_env_scheme"
  shows "beside roots w (snd (ProcessInfoHandler_ChangeToRoot w))" "beside roots w (snd (ProcessInfoHandler_Reset info w))"
  using seteuid_frame [where w = w] apart_beside [OF apart_refl, of roots w]
  by (auto simp: beside_def ProcessInfoHandler_ChangeToRoot_def ProcessInfoHandler_Reset_def Let_def split_beta)

lemma opened_search:
  assumes "fst (open_search A c ms path info w) = Some s"
  shows "processInfo s = info" "firstSearch s" "\<exists>n. ahead (audit s) = audit_log A n"
  using assms by (auto simp: open_search_def Let_def split_beta split: if_splits)

lemma search_init_cases:
  fixes w :: "('h, 'a) linux_env_scheme"
  assumes "AuditSearch_InitMultipleSearchCriteria A c ms path w = ((r, x), w1)"
  obtains (failed) "x = None" "r = AUDIT_SEARCH_EXCEPTION" "beside roots w w1"
  | (opened) s n where "x = Some s" "r = AUDIT_SEARCH_OK" "beside roots w w1" "ahead (audit s) = audit_log A n" "firstSearch s"
proof -
  obtain ok info w2 where root: "ProcessInfoHandler_ChangeToRoot w = ((ok, info), w2)" by (metis prod.collapse)
  obtain y w3 where op: "open_search A c ms path info w2 = (y, w3)" by fastforce
  have b2: "beside roots w w2" using beside_users(1) [of roots w] root by simp
  have "ticked w2 w3" using ticked_open [of w2 A c ms path info] op by simp
  from beside_trans [OF b2 apart_beside [OF ticked_apart [OF this]]] b2 have b: "beside roots w w2" "beside roots w w3" by simp_all
  have "beside roots w (snd (ProcessInfoHandler_Reset info w3))" using beside_trans [OF b(2) beside_users(2)] .
  then show thesis
    using assms root op b that opened_search [of A c ms path info w2]
    by (cases y) (auto simp: AuditSearch_InitMultipleSearchCriteria_def split: if_splits)
qed

text \<open>The whole life of a search, for a statement that steps beside the queues keep.\<close>

lemma with_search_keeps:
  fixes w :: "('h, 'a) linux_env_scheme"
  assumes "with_search A c ms path y0 body w = ((r, y), w')"
    and start: "\<And>w1. beside roots w w1 \<Longrightarrow> I w1"
    and body: "\<And>s n w1 r y w2. ahead (audit s) = audit_log A n \<Longrightarrow> firstSearch s \<Longrightarrow> I w1 \<Longrightarrow> body s w1 = ((r, y), w2) \<Longrightarrow> J y w2"
    and none: "\<And>w1. I w1 \<Longrightarrow> J y0 w1" and beside: "\<And>y w1 w2. J y w1 \<Longrightarrow> beside roots w1 w2 \<Longrightarrow> J y w2"
  shows "J y w'"
proof -
  obtain q x w1 where init: "AuditSearch_InitMultipleSearchCriteria A c ms (Some path) w = ((q, x), w1)" by (metis prod.collapse)
  then show ?thesis
  proof (cases rule: search_init_cases [where roots = roots])
    case failed
    with assms(1) init show ?thesis using none [OF start] by (auto simp: with_search_def)
  next
    case (opened s n)
    obtain r2 y2 w2 where b: "body s w1 = ((r2, y2), w2)" by (metis prod.collapse)
    obtain q3 w3 where cp: "AuditSearch_SetCheckpoint s w2 = (q3, w3)" by fastforce
    have "J y2 w2" by (rule body [OF opened(4,5) start [OF opened(3)] b])
    moreover have "ticked w2 w3" using ticked_reading(1) [of w2 s] cp by simp
    ultimately have "J y2 w3" using beside [OF _ apart_beside [OF ticked_apart]] by blast
    from beside [OF this beside_users(2)] have "J y2 (AuditSearch_Deinit s w3)" by (simp add: AuditSearch_Deinit_def)
    moreover have "y = y2" "w' = AuditSearch_Deinit s w3"
      using assms(1) init opened(1,2) b cp by (auto simp: with_search_def Let_def)
    ultimately show ?thesis by simp
  qed
qed

text \<open>The user is as before when the reset works.\<close>

lemma with_search_user:
  fixes w :: "('h, 'a) linux_env_scheme"
  assumes run: "with_search A c ms path y0 body w = ((r, y), w')"
    and body: "\<And>s n w1 r y w2. ahead (audit s) = audit_log A n \<Longrightarrow> firstSearch s \<Longrightarrow> beside roots w w1 \<Longrightarrow>
      body s w1 = ((r, y), w2) \<Longrightarrow> user_kept w1 w2"
  shows "user_kept w w'"
proof -
  obtain ok info w1 where root: "ProcessInfoHandler_ChangeToRoot w = ((ok, info), w1)" by (metis prod.collapse)
  obtain x w2 where op: "open_search A c ms (Some path) info w1 = (x, w2)" by fastforce
  have t: "ticked w1 w2" using ticked_open [of w1 A c ms "Some path" info] op by simp
  have u: "user_kept w1 w2" using ticked_apart [OF t] by (auto simp: apart_def)
  have info: "wasSet info \<longrightarrow> savedUid info = effectiveUid w" "extOk w1 = extOk w"
    "effectiveUid w1 = (if wasSet info then 0 else effectiveUid w)" "\<not> ok \<longrightarrow> \<not> wasSet info"
    "wasSet info \<longrightarrow> effectiveUid w \<noteq> 0"
    using root seteuid_frame(3-5) [where w = w and u = 0]
    by (auto simp: ProcessInfoHandler_ChangeToRoot_def Let_def split: prod.splits if_splits)
  have reset: "user_kept w (snd (ProcessInfoHandler_Reset info v))" if "user_kept w1 v" for v
    using that info seteuid_frame(3-5) [where w = v and u = "effectiveUid w"]
    by (auto simp: user_kept_def ProcessInfoHandler_Reset_def)
  show ?thesis
  proof (cases "ok \<and> x \<noteq> None")
    case False
    then have "w' = w1 \<and> \<not> ok \<or> w' = snd (ProcessInfoHandler_Reset info w2)"
      using run root op by (auto simp: with_search_def AuditSearch_InitMultipleSearchCriteria_def split: if_splits)
    with reset [OF u] info show ?thesis by (auto simp: user_kept_def)
  next
    case True
    then obtain s where x: "x = Some s" by blast
    have s: "processInfo s = info" "firstSearch s" using opened_search(1,2) [of A c ms "Some path" info w1 s] op x by simp_all
    obtain n where n: "ahead (audit s) = audit_log A n" using opened_search(3) [of A c ms "Some path" info w1 s] op x by auto
    have "beside roots w w1" using beside_users(1) [of roots w] root by simp
    from beside_trans [OF this apart_beside [OF ticked_apart [OF t]]] have b2: "beside roots w w2" .
    obtain r3 y3 w3 where b: "body s w2 = ((r3, y3), w3)" by (metis prod.collapse)
    obtain q4 w4 where cp: "AuditSearch_SetCheckpoint s w3 = (q4, w4)" by fastforce
    have "ticked w3 w4" using ticked_reading(1) [of w3 s] cp by simp
    then have "user_kept w1 w4"
      using user_kept_trans [OF user_kept_trans [OF u body [OF n s(2) b2 b]]] ticked_apart by (auto simp: apart_def)
    from reset [OF this] show ?thesis
      using run root op True x b cp s(1)
      by (auto simp: with_search_def AuditSearch_InitMultipleSearchCriteria_def AuditSearch_Deinit_def Let_def)
  qed
qed

section \<open>Which events a run sees\<close>

fun type_rules :: "AuditSearchCriteria \<Rightarrow> ausearch_rule_t \<Rightarrow> string list \<Rightarrow> ausearch_rule list" where
  "type_rules c r [] = []"
| "type_rules c r (m # ms) = message_rule c r m # type_rules c AUSEARCH_RULE_OR ms"

lemma message_types_added:
  assumes "add_message_types c r ms rs w = ((True, rs'), w')"
  shows "rs' = rs @ type_rules c r ms"
  using assms
proof (induction ms arbitrary: r rs w)
  case (Cons m ms)
  obtain ok w1 where ext: "sys_ext w = (ok, w1)" by fastforce
  then have "add_message_types c AUSEARCH_RULE_OR ms (rs @ [message_rule c r m]) w1 = ((True, rs'), w')"
    using Cons.prems by (auto split: if_splits)
  from Cons.IH [OF this] show ?case by simp
qed simp

text \<open>The time the checkpoint file holds, when it can be read: \<open>errno\<close> and the bytes are the system's answers.\<close>

definition checkpoint_of :: "int \<Rightarrow> string \<Rightarrow> time_t option" where
  "checkpoint_of errno bytes = (if errno = 0 \<and> 8 \<le> length bytes then Some (time_of_bytes (take 8 bytes)) else None)"

lemma checkpoint_added:
  assumes "checkpoint_rules (Some path) rs w = ((AUDIT_SEARCH_OK, rs'), w')"
    and "\<forall>n. sysInt w n = errno \<and> sysBytes w n = Some bytes"
  shows "rs' = rs @ (case checkpoint_of errno bytes of None \<Rightarrow> [] | Some t \<Rightarrow> [Timestamp_item AUSEARCH_RULE_AND ''>'' t])"
  using assms
  by (auto simp: checkpoint_rules_def AuditSearch_AddCheckpointToSearch_def FileUtils_ReadFile_def checkpoint_of_def open_failure_def
      Utils_CreateStringCopy_def sys_defs Let_def split: if_splits)

text \<open>A handler that also writes down the events it is called for.\<close>

definition recorded ::
  "(('e, 'f) AuditSearch \<Rightarrow> 'y \<Rightarrow> 'a env_scheme \<Rightarrow> (EventCollectorResult \<times> 'y) \<times> 'a env_scheme) \<Rightarrow>
    ('e, 'f) AuditSearch \<Rightarrow> 'e list \<times> 'y \<Rightarrow> 'a env_scheme \<Rightarrow> (EventCollectorResult \<times> 'e list \<times> 'y) \<times> 'a env_scheme" where
  "recorded handle s = (\<lambda>(es, y) w. let ((r, y1), w1) = handle s y w in ((r, es @ [current_event s], y1), w1))"

lemma loop_stops:
  "hasNext \<noteq> AUDIT_SEARCH_HAS_MORE_DATA \<Longrightarrow> audit_events_while A handle ends hasNext s y w
     = ((if hasNext \<noteq> AUDIT_SEARCH_NO_MORE_DATA then EVENT_COLLECTOR_EXCEPTION else EVENT_COLLECTOR_OK, y), w)"
  by (subst audit_events_while.simps) simp

lemma loop_visits:
  assumes "audit_events_while A (recorded handle) ends hasNext s (es, y) w = ((r, es', y'), w')"
    and "r = EVENT_COLLECTOR_OK" "\<not> ends EVENT_COLLECTOR_OK"
  shows "es' = es @ (if hasNext = AUDIT_SEARCH_HAS_MORE_DATA then current_event s # still_found A s else [])"
  using assms
proof (induction "searches_left hasNext s" arbitrary: hasNext s es y w rule: less_induct)
  case less
  show ?case
  proof (cases "hasNext = AUDIT_SEARCH_HAS_MORE_DATA")
    case False
    then show ?thesis using less.prems by (auto simp: loop_stops split: if_splits)
  next
    case True
    obtain r1 y1 w1 where h: "handle s y w = ((r1, y1), w1)" by (metis prod.collapse)
    obtain n1 s1 w2 where n: "AuditSearch_GetNext A s w1 = ((n1, s1), w2)" by (metis prod.collapse)
    have run: "(if ends r1 then ((r1, es @ [current_event s], y1), w1)
        else audit_events_while A (recorded handle) ends n1 s1 (es @ [current_event s], y1) w2) = ((r, es', y'), w')"
      using less.prems(1) h n True
      by (cases "ends r1") (simp_all add: audit_events_while.simps [of A "recorded handle" ends AUDIT_SEARCH_HAS_MORE_DATA s] recorded_def)
    then have rest: "audit_events_while A (recorded handle) ends n1 s1 (es @ [current_event s], y1) w2 = ((r, es', y'), w')"
      using less.prems(2,3) by (auto split: if_splits)
    have fewer: "searches_left n1 s1 < searches_left hasNext s" using GetNext_fewer [OF n] True by simp
    note IH = less.hyps [OF fewer rest less.prems(2,3)]
    have "n1 \<noteq> AUDIT_SEARCH_EXCEPTION" using rest less.prems(2) by (auto simp: loop_stops)
    then have "still_found A s = (if n1 = AUDIT_SEARCH_HAS_MORE_DATA then current_event s1 # still_found A s1 else [])"
      using GetNext_facts(3,4,6) [OF n] by auto
    with IH True show ?thesis by simp
  qed
qed

text \<open>
  C16: A run that ends without an error handles exactly the events of its types that are later than the checkpoint, in
  the order of the log; when the checkpoint may not be read (or is cut short) it handles the whole log again.
  \<open>later\<close> is what the library's timestamp rule means.
\<close>

theorem search_reports_new_events:
  fixes w :: "('h, 'a) linux_env_scheme"
  assumes "\<forall>rs t e. satisfies A (rs @ [Timestamp_item AUSEARCH_RULE_AND ''>'' t]) e \<longleftrightarrow> satisfies A rs e \<and> later t e"
    and "\<forall>n. sysInt w n = errno \<and> sysBytes w n = Some bytes"
    and "AuditSearch_InitMultipleSearchCriteria A c ms (Some path) w = ((AUDIT_SEARCH_OK, Some s), w1)"
    and "AuditSearch_GetNext A s w1 = ((hasNext, s1), w2)" and "\<not> ends EVENT_COLLECTOR_OK"
    and "audit_events_while A (recorded handle) ends hasNext s1 ([], y) w2 = ((EVENT_COLLECTOR_OK, es, y'), w')"
  shows "\<exists>n. es = filter (\<lambda>e. satisfies A (type_rules c AUSEARCH_RULE_CLEAR ms) e
      \<and> (case checkpoint_of errno bytes of None \<Rightarrow> True | Some t \<Rightarrow> later t e)) (audit_log A n)"
proof -
  let ?types = "type_rules c AUSEARCH_RULE_CLEAR ms"
  let ?rules = "?types @ (case checkpoint_of errno bytes of None \<Rightarrow> [] | Some t \<Rightarrow> [Timestamp_item AUSEARCH_RULE_AND ''>'' t])"
  obtain ok info v where root: "ProcessInfoHandler_ChangeToRoot w = ((ok, info), v)" by (metis prod.collapse)
  have same: "sysInt v = sysInt w" "sysBytes v = sysBytes w"
    using root by (auto simp: ProcessInfoHandler_ChangeToRoot_def seteuid_def sys_defs Let_def split: if_splits)
  have op: "open_search A c ms (Some path) info v = (Some s, w1)"
    using assms(3) root by (auto simp: AuditSearch_InitMultipleSearchCriteria_def split: if_splits prod.splits option.splits)
  obtain v1 where v1: "sys_ext v = (True, v1)" using op by (cases "sys_ext v") (auto simp: open_search_def split: if_splits)
  obtain rs v2 where v2: "add_message_types c AUSEARCH_RULE_CLEAR ms [] v1 = ((True, rs), v2)"
    using op v1 by (cases "add_message_types c AUSEARCH_RULE_CLEAR ms [] v1") (auto simp: open_search_def split: if_splits)
  obtain rs1 v3 where v3: "checkpoint_rules (Some path) rs v2 = ((AUDIT_SEARCH_OK, rs1), v3)"
    using op v1 v2 by (cases "checkpoint_rules (Some path) rs v2") (auto simp: open_search_def split: if_splits)
  have s: "searchRules (audit s) = rs1" "ahead (audit s) = audit_log A (tick v)" "firstSearch s"
    using op v1 v2 v3 by (auto simp: open_search_def Let_def split: if_splits prod.splits)
  have "ticked v v2"
    using ticked_trans [OF ticked_ext [OF v1] ticked_message_types [of v1 c AUSEARCH_RULE_CLEAR ms "[]", unfolded v2, simplified]] .
  then have "\<forall>n. sysInt v2 n = errno \<and> sysBytes v2 n = Some bytes" using assms(2) same by (auto simp: ticked_def)
  from checkpoint_added [OF v3 this] message_types_added [OF v2] have rules: "rs1 = ?rules" by simp
  have "es = [] @ (if hasNext = AUDIT_SEARCH_HAS_MORE_DATA then current_event s1 # still_found A s1 else [])"
    by (rule loop_visits [OF assms(6) refl assms(5)])
  moreover have "hasNext \<noteq> AUDIT_SEARCH_EXCEPTION" using assms(6) by (auto simp: loop_stops)
  ultimately have visited: "es = still_found A s"
    using GetNext_facts(3) [OF assms(4)] GetNext_facts(4) [OF assms(4)] GetNext_facts(6) [OF assms(4)]
    by (cases "hasNext = AUDIT_SEARCH_HAS_MORE_DATA") simp_all
  have law: "satisfies A (?types @ [Timestamp_item AUSEARCH_RULE_AND ''>'' t]) = (\<lambda>e. satisfies A ?types e \<and> later t e)" for t
    using assms(1) by (intro ext) blast
  show ?thesis
  proof (rule exI [of _ "tick v"])
    have "es = filter (satisfies A ?rules) (audit_log A (tick v))" using visited by (simp add: still_found_def s rules)
    then show "es = filter (\<lambda>e. satisfies A ?types e
        \<and> (case checkpoint_of errno bytes of None \<Rightarrow> True | Some t \<Rightarrow> later t e)) (audit_log A (tick v))"
      using law by (cases "checkpoint_of errno bytes") simp_all
  qed
qed

text \<open>When no call fails the loop goes through all events.\<close>

lemma calm_loop:
  assumes "\<And>s y w. fst (fst (handle s y w)) = EVENT_COLLECTOR_OK \<and> extOk (snd (handle s y w)) = extOk w" and "\<not> ends EVENT_COLLECTOR_OK"
    and "\<forall>n. extOk w n" and "hasNext \<in> {AUDIT_SEARCH_HAS_MORE_DATA, AUDIT_SEARCH_NO_MORE_DATA}"
  shows "fst (fst (audit_events_while A handle ends hasNext s y w)) = EVENT_COLLECTOR_OK"
  using assms(3,4)
proof (induction "searches_left hasNext s" arbitrary: hasNext s y w rule: less_induct)
  case less
  show ?case
  proof (cases "hasNext = AUDIT_SEARCH_HAS_MORE_DATA")
    case False
    with less.prems show ?thesis by (simp add: loop_stops)
  next
    case True
    obtain r1 y1 w1 where h: "handle s y w = ((r1, y1), w1)" by (metis prod.collapse)
    obtain n1 s1 w2 where n: "AuditSearch_GetNext A s w1 = ((n1, s1), w2)" by (metis prod.collapse)
    have ok1: "\<forall>n. extOk w1 n" "r1 = EVENT_COLLECTOR_OK" using assms(1) [of s y w] less.prems(1) h by simp_all
    have ok2: "\<forall>n. extOk w2 n" using ticked_found(2) [of w1 A s] ok1(1) n by (auto simp: ticked_def)
    have "n1 \<in> {AUDIT_SEARCH_HAS_MORE_DATA, AUDIT_SEARCH_NO_MORE_DATA}"
      using GetNext_facts(5) [OF n ok1(1)] GetNext_facts(6) [OF n] by simp
    moreover have "searches_left n1 s1 < searches_left hasNext s" using GetNext_fewer [OF n] True by simp
    ultimately have "fst (fst (audit_events_while A handle ends n1 s1 y1 w2)) = EVENT_COLLECTOR_OK"
      using less.hyps [OF _ ok2] by blast
    then show ?thesis
      using h n True ok1(2) assms(2) by (simp add: audit_events_while.simps [of A handle ends AUDIT_SEARCH_HAS_MORE_DATA s])
  qed
qed

text \<open>
  A log of three events, each its time and type.  One record each, with its fields by name: a position is a
  number of fields passed.
\<close>

type_synonym sample_event = "time_t \<times> string \<times> (string \<times> string) list"

fun sample_rule :: "ausearch_rule \<Rightarrow> sample_event \<Rightarrow> bool" where
  "sample_rule (Timestamp_item _ _ t) (time, ty, fs) = (t < time)"
| "sample_rule (Item _ _ _ m) (time, ty, fs) = (ty = m)"
| "sample_rule (Interpreted_item _ _ _ m) (time, ty, fs) = (ty = m)"
| "sample_rule (Rule_expression _ _) (time, ty, fs) = (ty = ''USER_AUTH'')"

definition is_time :: "ausearch_rule \<Rightarrow> bool" where
  "is_time r \<longleftrightarrow> (case r of Timestamp_item _ _ _ \<Rightarrow> True | _ \<Rightarrow> False)"

definition sample_audit :: "sample_event list \<Rightarrow> (sample_event, nat) auparse" where
  "sample_audit log = \<lparr>audit_log = (\<lambda>_. log),
     satisfies = (\<lambda>rs e. (\<exists>r \<in> set rs. \<not> is_time r \<and> sample_rule r e) \<and> (\<forall>r \<in> set rs. is_time r \<longrightarrow> sample_rule r e)),
     event_seconds = fst, event_records = (\<lambda>e. [(1, Some (fst (snd e)))]), first_field = (\<lambda>_ _. 0),
     find_field = (\<lambda>e n f name. if name \<in> set (map fst (drop f (snd (snd e))))
       then (FIELD_FOUND, n, f + length (takeWhile (\<lambda>x. fst x \<noteq> name) (drop f (snd (snd e))))) else (FIELD_MISSING, n, f)),
     field_int = (\<lambda>e n f. (int (dec_value (snd (snd (snd e) ! f))), False)),
     field_str = (\<lambda>e n f. Some (snd (snd (snd e) ! f))), interpret_field = (\<lambda>e n f. Some (snd (snd (snd e) ! f)))\<rparr>"

definition three_logins :: "sample_event list" where
  "three_logins = [(5, ''USER_LOGIN'', []), (15, ''CWD'', []), (25, ''USER_LOGIN'', [])]"

lemma search_reports_new_events_witness:
  "\<exists>s s1 w1 w2 es w'.
     AuditSearch_InitMultipleSearchCriteria (sample_audit three_logins) AUDIT_SEARCH_CRITERIA_TYPE [''USER_LOGIN''] (Some ''checkpoint'')
       ((calm_linux_with calm_store)\<lparr>sysBytes := \<lambda>_. Some (CHR 0x0A # replicate 7 (CHR 0x00))\<rparr>) = ((AUDIT_SEARCH_OK, Some s), w1)
     \<and> AuditSearch_GetNext (sample_audit three_logins) s w1 = ((AUDIT_SEARCH_HAS_MORE_DATA, s1), w2)
     \<and> audit_events_while (sample_audit three_logins) (recorded (\<lambda>s y w. ((EVENT_COLLECTOR_OK, ()), w))) (\<lambda>r. r \<noteq> EVENT_COLLECTOR_OK)
         AUDIT_SEARCH_HAS_MORE_DATA s1 ([], ()) w2 = ((EVENT_COLLECTOR_OK, es, ()), w')
     \<and> es = [(25, ''USER_LOGIN'', [])]"
proof -
  let ?A = "sample_audit three_logins" and ?b = "CHR 0x0A # replicate 7 (CHR 0x00)"
  let ?w = "(calm_linux_with calm_store)\<lparr>sysBytes := \<lambda>_. Some ?b\<rparr>"
  let ?h = "\<lambda>s y w. ((EVENT_COLLECTOR_OK, ()), w)"
  have t: "time_of_bytes ?b = 10" by code_simp
  have law: "\<forall>rs t e. satisfies ?A (rs @ [Timestamp_item AUSEARCH_RULE_AND ''>'' t]) e \<longleftrightarrow> satisfies ?A rs e \<and> t < fst e"
    by (auto simp: sample_audit_def is_time_def)
  have oracles: "\<forall>n. sysInt ?w n = 0 \<and> sysBytes ?w n = Some ?b" by (simp add: calm_linux_defs)
  have "\<exists>s w1. AuditSearch_InitMultipleSearchCriteria ?A AUDIT_SEARCH_CRITERIA_TYPE [''USER_LOGIN''] (Some ''checkpoint'') ?w
      = ((AUDIT_SEARCH_OK, Some s), w1) \<and> (\<forall>n. extOk w1 n)"
    by (simp add: AuditSearch_InitMultipleSearchCriteria_def ProcessInfoHandler_ChangeToRoot_def seteuid_def open_search_def
        checkpoint_rules_def AuditSearch_AddCheckpointToSearch_def FileUtils_ReadFile_def Utils_CreateStringCopy_def
        sys_defs Let_def calm_linux_defs)
  then obtain s w1 where init: "AuditSearch_InitMultipleSearchCriteria ?A AUDIT_SEARCH_CRITERIA_TYPE [''USER_LOGIN''] (Some ''checkpoint'') ?w
      = ((AUDIT_SEARCH_OK, Some s), w1)" and ok1: "\<forall>n. extOk w1 n" by blast
  obtain r1 s1 w2 where n1: "AuditSearch_GetNext ?A s w1 = ((r1, s1), w2)" by (metis prod.collapse)
  have ok2: "\<forall>n. extOk w2 n" using ticked_found(2) [of w1 ?A s] ok1 n1 by (auto simp: ticked_def)
  obtain r2 s2 w3 where n2: "AuditSearch_GetNext ?A s1 w2 = ((r2, s2), w3)" by (metis prod.collapse)
  have r: "r1 \<noteq> AUDIT_SEARCH_EXCEPTION" "r2 \<noteq> AUDIT_SEARCH_EXCEPTION"
    using GetNext_facts(5) [OF n1 ok1] GetNext_facts(5) [OF n2 ok2] by simp_all
  let ?loop = "audit_events_while ?A (recorded ?h) (\<lambda>r. r \<noteq> EVENT_COLLECTOR_OK)"
  have visits: "es = [(25, ''USER_LOGIN'', [])]" if "?loop r1 s1 ([], ()) w2 = ((EVENT_COLLECTOR_OK, es, ()), w')" for es w'
    using search_reports_new_events [OF law oracles init n1 _ that]
    by (auto simp: checkpoint_of_def t sample_audit_def three_logins_def is_time_def message_rule_def AUDIT_USER_AUTH_NAME_def
        AuditSearch_ConvertCriteriaToString_def)
  have "r1 = AUDIT_SEARCH_HAS_MORE_DATA"
    using visits [of "[]" w2] GetNext_facts(6) [OF n1] r(1) by (auto simp: loop_stops)
  moreover from this have "\<exists>es w'. ?loop r1 s1 ([], ()) w2 = ((EVENT_COLLECTOR_OK, es, ()), w')"
    using calm_loop [of "recorded ?h" "\<lambda>r. r \<noteq> EVENT_COLLECTOR_OK" w2 r1 ?A s1 "([], ())"] ok2
    by (cases "?loop r1 s1 ([], ()) w2") (auto simp: recorded_def split_beta)
  ultimately show ?thesis using init n1 visits by blast
qed

end
