(* ===== verification/Generic_Audit_Event.thy ===== *)
theory Generic_Audit_Event
  imports Audit_Search
begin

text \<open>
  Fields of audit records in events, \<^verbatim>\<open>src/agent/src/collectors/linux/generic_audit_event.c\<close>, and the event that
  the collectors make of one audit event.  The steps that fill a payload change two things, the search and the
  environment: they are steps on a pair.
\<close>

section \<open>Fields\<close>

text \<open>What is done with the answer of a reading function: \<open>put\<close> writes the value.\<close>

definition handle_value ::
  "(AuditSearchResultValues \<times> 'x option) \<times> 's \<Rightarrow> bool \<Rightarrow> ('x \<Rightarrow> 'w \<Rightarrow> JsonWriterResult \<times> 'w) \<Rightarrow> 'w \<Rightarrow>
    EventCollectorResult \<times> ('s \<times> 'w)" where
  "handle_value answer isOptional put w =
     (case answer of
        ((AUDIT_SEARCH_OK, Some v), s) \<Rightarrow>
          (let (r, w1) = put v w in (if r \<noteq> JSON_WRITER_OK then EVENT_COLLECTOR_EXCEPTION else EVENT_COLLECTOR_OK, (s, w1)))
      | ((auditResult, _), s) \<Rightarrow>
          (if isOptional \<and> auditResult = AUDIT_SEARCH_FIELD_DOES_NOT_EXIST then EVENT_COLLECTOR_OK
           else EVENT_COLLECTOR_RECORD_HAS_ERRORS, (s, w)))"

definition GenericAuditEvent_HandleIntValue ::
  "('v, 'o, 'r, 'h) parson_doc \<Rightarrow> ('e, 'f) auparse \<Rightarrow> ('v, 'o) JsonObjectWriter \<Rightarrow> string \<Rightarrow> string \<Rightarrow> bool \<Rightarrow>
    ('e, 'f) AuditSearch \<times> ('h, 'a) docs_env_scheme \<Rightarrow> EventCollectorResult \<times> (('e, 'f) AuditSearch \<times> ('h, 'a) docs_env_scheme)" where
  "GenericAuditEvent_HandleIntValue D A eventWriter auditField jsonKey isOptional = (\<lambda>(s, w).
     let (answer, w1) = AuditSearch_ReadInt A s auditField w
     in handle_value answer isOptional (\<lambda>v. JsonObjectWriter_WriteInt D eventWriter jsonKey v) w1)"

definition GenericAuditEvent_HandleStringValue ::
  "('v, 'o, 'r, 'h) parson_doc \<Rightarrow> ('e, 'f) auparse \<Rightarrow> ('v, 'o) JsonObjectWriter \<Rightarrow> string \<Rightarrow> string \<Rightarrow> bool \<Rightarrow>
    ('e, 'f) AuditSearch \<times> ('h, 'a) docs_env_scheme \<Rightarrow> EventCollectorResult \<times> (('e, 'f) AuditSearch \<times> ('h, 'a) docs_env_scheme)" where
  "GenericAuditEvent_HandleStringValue D A eventWriter auditField jsonKey isOptional = (\<lambda>(s, w).
     let (answer, w1) = AuditSearch_ReadString A s auditField w
     in handle_value answer isOptional (\<lambda>v. JsonObjectWriter_WriteString D eventWriter jsonKey v) w1)"

definition GenericAuditEvent_HandleInterpretStringValue ::
  "('v, 'o, 'r, 'h) parson_doc \<Rightarrow> ('e, 'f) auparse \<Rightarrow> ('v, 'o) JsonObjectWriter \<Rightarrow> string \<Rightarrow> string \<Rightarrow> bool \<Rightarrow>
    ('e, 'f) AuditSearch \<times> ('h, 'a) docs_env_scheme \<Rightarrow> EventCollectorResult \<times> (('e, 'f) AuditSearch \<times> ('h, 'a) docs_env_scheme)" where
  "GenericAuditEvent_HandleInterpretStringValue D A eventWriter auditField jsonKey isOptional = (\<lambda>(s, w).
     let (answer, w1) = AuditSearch_InterpretString A s auditField w
     in handle_value answer isOptional (\<lambda>v. JsonObjectWriter_WriteString D eventWriter jsonKey v) w1)"

text \<open>A step that leaves the search alone.\<close>

definition beside_search :: "('w \<Rightarrow> EventCollectorResult \<times> 'w) \<Rightarrow> 's \<times> 'w \<Rightarrow> EventCollectorResult \<times> ('s \<times> 'w)" where
  "beside_search f = (\<lambda>(s, w). let (r, w1) = f w in (r, (s, w1)))"

section \<open>The event of one audit event\<close>

text \<open>
  The text of the event goes to the queue; a queue without memory is told apart from other errors.
  \<open>unserialized\<close> is the result when the event cannot be printed.
\<close>

definition push_record ::
  "('v, 'o, 'r, 'h) parson_doc \<Rightarrow> EventCollectorResult \<Rightarrow> nat \<Rightarrow> SyncQueue list \<Rightarrow> ('v, 'o) JsonObjectWriter \<Rightarrow> ('h, 'a) queue_env_scheme \<Rightarrow>
    (EventCollectorResult \<times> SyncQueue list) \<times> ('h, 'a) queue_env_scheme" where
  "push_record D unserialized queue sqs event w =
     (case JsonObjectWriter_Serialize D event w of
        ((JSON_WRITER_OK, Some (output, outputSize)), w1) \<Rightarrow>
          (let ((qResult, sq), w2) = SyncQueue_PushBack (sqs ! queue) (EVENT output) outputSize w1
           in ((if qResult = Queue_Result QUEUE_MAX_MEMORY_EXCEEDED then EVENT_COLLECTOR_OUT_OF_MEM
                else if qResult \<noteq> SYNC_OK then EVENT_COLLECTOR_EXCEPTION else EVENT_COLLECTOR_OK, sqs[queue := sq]), w2))
      | (_, w1) \<Rightarrow> ((unserialized, sqs), w1))"

text \<open>The payload goes into the array, the array into the event, the event to the queue.\<close>

definition finish_record ::
  "('v, 'o, 'r, 'h) parson_doc \<Rightarrow> EventCollectorResult \<Rightarrow> nat \<Rightarrow> SyncQueue list \<Rightarrow> ('v, 'o) JsonObjectWriter \<Rightarrow> ('v, 'o) JsonObjectWriter \<Rightarrow>
    ('h, 'a) queue_env_scheme \<Rightarrow> ((EventCollectorResult \<times> SyncQueue list) \<times> ('v, 'o) JsonObjectWriter) \<times> ('h, 'a) queue_env_scheme" where
  "finish_record D unserialized queue sqs event payload =
     with_array D ((EVENT_COLLECTOR_EXCEPTION, sqs), payload)
       (\<lambda>payloads w. let ((r, payload1), w1) = JsonArrayWriter_AddObject D payloads payload w in
          if r \<noteq> JSON_WRITER_OK then ((((EVENT_COLLECTOR_EXCEPTION, sqs), payload1), payloads), w1)
          else
            let ((r2, payloads1), w2) = GenericEvent_AddPayload D event payloads w1 in
            if r2 \<noteq> EVENT_COLLECTOR_OK then ((((r2, sqs), payload1), payloads1), w2)
            else let (z, w3) = push_record D unserialized queue sqs event w2 in (((z, payload1), payloads1), w3))"

text \<open>
  The whole event, at the time of the audit event; \<open>untimed\<close> is the result when that time cannot be read and
  \<open>fill\<close> generates the payload, with something of its own that lives on.  The documents are released inside out;
  their order does not matter, since none is released twice.
\<close>

definition record_event ::
  "('v, 'o, 'r, 'h) parson_doc \<Rightarrow> ('e, 'f) auparse \<Rightarrow> EventCollectorResult \<Rightarrow> EventCollectorResult \<Rightarrow> string \<Rightarrow> string \<Rightarrow>
    (('v, 'o) JsonObjectWriter \<Rightarrow> 'y \<Rightarrow> ('h, 'a) queue_env_scheme \<Rightarrow> (EventCollectorResult \<times> 'y) \<times> ('h, 'a) queue_env_scheme) \<Rightarrow>
    nat \<Rightarrow> ('e, 'f) AuditSearch \<Rightarrow> SyncQueue list \<times> 'y \<Rightarrow> ('h, 'a) queue_env_scheme \<Rightarrow>
    (EventCollectorResult \<times> SyncQueue list \<times> 'y) \<times> ('h, 'a) queue_env_scheme" where
  "record_event D A untimed unserialized name version fill queue s = (\<lambda>(sqs, y).
     with_object D (EVENT_COLLECTOR_EXCEPTION, sqs, y)
       (\<lambda>event w. let ((timeResult, eventTime), w1) = AuditSearch_GetEventTime A s w in
          if timeResult \<noteq> AUDIT_SEARCH_OK then (((untimed, sqs, y), event), w1)
          else
            let (m, w2) = GenericEvent_AddMetadataWithTimes D event EVENT_TRIGGERED_CATEGORY name EVENT_TYPE_SECURITY_VALUE version
              (int (unat (the eventTime))) w1 in
            if m \<noteq> EVENT_COLLECTOR_OK then (((EVENT_COLLECTOR_EXCEPTION, sqs, y), event), w2)
            else
              let (x, w3) =
                with_object D (EVENT_COLLECTOR_EXCEPTION, sqs, y)
                  (\<lambda>payload w. let ((r, y1), w1) = fill payload y w in
                     if r \<noteq> EVENT_COLLECTOR_OK then (((r, sqs, y1), payload), w1)
                     else let (((r2, sqs1), payload1), w2) = finish_record D unserialized queue sqs event payload w1
                       in (((r2, sqs1, y1), payload1), w2)) w2
              in ((x, event), w3)))"

section \<open>An event of a record is at most one text\<close>

lemma push_record_gained:
  assumes "texts_within D L" and "booked_bytes w + (L + 40) < 4294967296" and "sync_queues_ok sqs w" and "i < length sqs"
    and "push_record D u i sqs ev w = ((r, sqs'), w')"
  shows "\<exists>new. gained roots L 1 i sqs w new sqs' w' \<and> docs w' = docs w \<and> queued w w'
    \<and> (r = EVENT_COLLECTOR_OK \<and> u \<noteq> EVENT_COLLECTOR_OK \<longrightarrow> length new = 1)"
proof -
  obtain q where "push_event D False i sqs ev w = ((q, sqs'), w')"
    "r = EVENT_COLLECTOR_OK \<and> u \<noteq> EVENT_COLLECTOR_OK \<longrightarrow> q = EVENT_COLLECTOR_OK"
    using assms(5) by (auto simp: push_record_def push_event_def split: prod.splits JsonWriterResult.splits option.splits if_splits)
  from push_event_gained [OF assms(1-4) this(1), of roots] this(2) show ?thesis by auto
qed

lemma AddObject_facts:
  assumes D: "parson_lists D roots" and p: "wRootValue p \<in> roots (docs w)" "wShouldFree p"
    and run: "JsonArrayWriter_AddObject D arr p w = ((r, p'), w')"
  shows "doc_frame w w'" "wRootValue p' = wRootValue p" "wShouldFree p' \<longleftrightarrow> wRootValue p \<in> roots (docs w')"
    "roots (docs w') - {wRootValue p} = roots (docs w) - {wRootValue p}"
proof -
  obtain root_of texts source where arrays: "parson_arrays D roots root_of texts source"
    using D by (auto simp: parson_lists_def)
  obtain ok h where ap: "doc_append_value D (aRootArray arr) (wRootValue p) (docs w) = (ok, h)" by fastforce
  have h: "roots h = (if ok then roots (docs w) - {wRootValue p} else roots (docs w))"
    using array_laws(5,6) [OF arrays, of "aRootArray arr" "wRootValue p" "docs w" h] ap by (cases ok) auto
  have "p' = (if ok then p\<lparr>wShouldFree := False\<rparr> else p) \<and> w' = w\<lparr>docs := h\<rparr>"
    using run ap by (auto simp: JsonArrayWriter_AddObject_def on_docs_def split: if_splits)
  with p h show "doc_frame w w'" "wRootValue p' = wRootValue p" "wShouldFree p' \<longleftrightarrow> wRootValue p \<in> roots (docs w')"
    "roots (docs w') - {wRootValue p} = roots (docs w) - {wRootValue p}"
    by (auto simp: doc_frame_docs)
qed

lemma finish_record_gained:
  fixes w :: "('h, 'a) queue_env_scheme"
  assumes D: "parson_lists D roots" "texts_within D L" and room: "booked_bytes w + (L + 40) < 4294967296"
    and ok: "sync_queues_ok sqs w" and i: "i < length sqs" and P: "stable P" "P w"
    and p: "wRootValue p \<in> roots (docs w)" "wShouldFree p"
    and run: "finish_record D u i sqs ev p w = (((r, sqs'), p'), w')"
  shows "P w' \<and> wRootValue p' = wRootValue p \<and> (wShouldFree p' \<longleftrightarrow> wRootValue p \<in> roots (docs w'))
    \<and> (\<exists>new. gained (\<lambda>h. roots h - {wRootValue p}) L 1 i sqs w new sqs' w'
         \<and> (r = EVENT_COLLECTOR_OK \<and> u \<noteq> EVENT_COLLECTOR_OK \<longrightarrow> length new = 1))"
proof -
  have own: "parson_ownership D roots" using D(1) by (simp add: parson_lists_def)
  let ?p = "wRootValue p"
  from D(1) run [unfolded finish_record_def] show ?thesis
  proof (cases rule: with_array_cases)
    case failed
    with stableD(1) [OF P] p gained_aside [OF ok aside_fewer [OF clean_aside [OF failed(2)], of "{?p}"], of L 1 i] show ?thesis
      by (auto simp: clean_def)
  next
    case (made arr arr' w1 w2)
    let ?R = "\<lambda>h. roots h - {?p} - {aRootValue arr}"
    have other: "aRootValue arr \<noteq> ?p" using made(3) p(1) by metis
    have P1: "P w1" by (rule stableD(1) [OF P made(1)])
    have ok1: "sync_queues_ok sqs w1" using ok by (simp add: doc_frame_sync [OF made(1)])
    obtain q p1 w3 where add: "JsonArrayWriter_AddObject D arr p w1 = ((q, p1), w3)" by (metis prod.collapse)
    have "?p \<in> roots (docs w1)" using made(4) p(1) by simp
    note F = AddObject_facts [OF D(1) this p(2) add]
    have P3: "P w3" by (rule stableD(1) [OF P(1) P1 F(1)])
    have arr3: "aRootValue arr \<in> roots (docs w3)" using F(4) made(4) other by blast
    have a3: "aside ?R w1 w3"
      using clean_aside [of ?R w1 w3] F(1,4) by (auto simp: clean_def)
    have ok3: "sync_queues_ok sqs w3" using ok1 by (simp add: doc_frame_sync [OF F(1)])
    have "P w2 \<and> wRootValue p' = ?p \<and> (wShouldFree p' \<longleftrightarrow> ?p \<in> roots (docs w2)) \<and> aRootValue arr' = aRootValue arr
      \<and> (aShouldFree arr' \<longleftrightarrow> aRootValue arr \<in> roots (docs w2))
      \<and> (\<exists>new. gained ?R L 1 i sqs w1 new sqs' w2 \<and> (r = EVENT_COLLECTOR_OK \<and> u \<noteq> EVENT_COLLECTOR_OK \<longrightarrow> length new = 1))"
    proof (cases "q = JSON_WRITER_OK")
      case False
      with made(5) add have out: "r = EVENT_COLLECTOR_EXCEPTION" "sqs' = sqs" "p' = p1" "arr' = arr" "w2 = w3" by auto
      show ?thesis unfolding out using P3 F(2,3) arr3 made(2) gained_aside [OF ok1 a3, of L 1 i] by blast
    next
      case True
      obtain r7 arr7 w7 where ap: "GenericEvent_AddPayload D ev arr w3 = ((r7, arr7), w7)" by (metis prod.collapse)
      note G = AddPayload_facts [OF D(1) made(2) arr3 ap]
      have P7: "P w7" by (rule stableD(1) [OF P(1) P3 G(1)])
      have "aside ?R w3 w7" using clean_aside [of ?R w3 w7] G(1,4) by (auto simp: clean_def)
      from aside_trans [OF a3 this] have a7: "aside ?R w1 w7" .
      have pin: "?p \<in> roots (docs w7) \<longleftrightarrow> ?p \<in> roots (docs w3)"
      proof -
        have "?p \<in> roots (docs w7) - {aRootValue arr} \<longleftrightarrow> ?p \<in> roots (docs w3) - {aRootValue arr}" by (simp only: G(4))
        with other show ?thesis by simp
      qed
      show ?thesis
      proof (cases "r7 = EVENT_COLLECTOR_OK")
        case False
        with made(5) add True ap have out: "r = r7" "sqs' = sqs" "p' = p1" "arr' = arr7" "w2 = w7" by auto
        show ?thesis unfolding out using P7 F(2,3) G(2,3) pin False gained_aside [OF ok1 a7, of L 1 i] by blast
      next
        case r7: True
        obtain z w8 where push: "push_record D u i sqs ev w7 = (z, w8)" by fastforce
        with made(5) add True ap r7 have out: "z = (r, sqs')" "p' = p1" "arr' = arr7" "w2 = w8" by auto
        have ok7: "sync_queues_ok sqs w7" using ok3 by (simp add: doc_frame_sync [OF G(1)])
        have "booked_bytes w7 = booked_bytes w" using a7 by (simp add: aside_def doc_frame_sync [OF made(1)])
        with room have "booked_bytes w7 + (L + 40) < 4294967296" by simp
        from push_record_gained [OF D(2) this ok7 i push [unfolded out(1)]]
        obtain new where new: "gained ?R L 1 i sqs w7 new sqs' w8" "docs w8 = docs w7" "queued w7 w8"
          "r = EVENT_COLLECTOR_OK \<and> u \<noteq> EVENT_COLLECTOR_OK \<longrightarrow> length new = 1" by fastforce
        have "gained ?R L (0 + 1) i sqs w1 ([] @ new) sqs' w8"
          by (rule gained_trans [OF gained_aside [OF ok1 a7] new(1)])
        with new(2,4) F(2,3) G(2,3) pin out stableD(2) [OF P(1) P7 new(3)] show ?thesis by (simp del: One_nat_def) blast
      qed
    qed
    then obtain new where inner: "P w2" "wRootValue p' = ?p" "wShouldFree p' \<longleftrightarrow> ?p \<in> roots (docs w2)"
      "gained ?R L 1 i sqs w1 new sqs' w2" "r = EVENT_COLLECTOR_OK \<and> u \<noteq> EVENT_COLLECTOR_OK \<longrightarrow> length new = 1"
      and arr: "aRootValue arr' = aRootValue arr" "aShouldFree arr' \<longleftrightarrow> aRootValue arr \<in> roots (docs w2)" by blast
    note rel = gained_release_array [OF own made(1,3,4) inner(4) arr]
    have "?p \<in> roots (docs w') \<longleftrightarrow> ?p \<in> roots (docs w2)" using other by (simp add: made(6) rel(2))
    moreover have "P w'" unfolding made(6) by (rule stableD(1) [OF P(1) inner(1) ArrayDeinit_frame])
    ultimately show ?thesis using rel(1) inner(2,3,5) unfolding made(6) by blast
  qed
qed

text \<open>The whole event; whatever fails, all its documents are released.\<close>

lemma record_event_gained:
  fixes w :: "('h, 'a) queue_env_scheme"
  assumes D: "parson_lists D roots" "texts_within D L" and room: "booked_bytes w + (L + 40) < 4294967296"
    and ok: "sync_queues_ok sqs w" and i: "i < length sqs" and P: "stable P" "P w"
    and fill: "\<And>obj y w. P w \<Longrightarrow> aside roots w (snd (fill obj y w)) \<and> P (snd (fill obj y w))"
    and run: "record_event D A t u name version fill i s (sqs, y) w = ((r, sqs', y'), w')"
  shows "P w' \<and> (\<exists>new. gained roots L 1 i sqs w new sqs' w'
    \<and> (r = EVENT_COLLECTOR_OK \<and> u \<noteq> EVENT_COLLECTOR_OK \<and> t \<noteq> EVENT_COLLECTOR_OK \<longrightarrow> length new = 1))"
proof -
  have own: "parson_ownership D roots" using D(1) by (simp add: parson_lists_def)
  let ?good = "\<lambda>w r sqs' w'. P w' \<and> (\<exists>new. gained roots L 1 i sqs w new sqs' w'
    \<and> (r = EVENT_COLLECTOR_OK \<and> u \<noteq> EVENT_COLLECTOR_OK \<and> t \<noteq> EVENT_COLLECTOR_OK \<longrightarrow> length new = 1))"
  have unchanged: "?good v r sqs v'" if "sync_queues_ok sqs v" "t \<noteq> EVENT_COLLECTOR_OK \<longrightarrow> r \<noteq> EVENT_COLLECTOR_OK" "aside roots v v'" "P v'" for v v' r
    using that gained_aside [OF that(1,3)] by (intro conjI exI [of _ "[]"]) auto
  from D(1) run [unfolded record_event_def prod.case] show ?thesis
  proof (cases rule: with_object_cases)
    case failed
    with unchanged [OF ok _ clean_aside [OF failed(2)] stableD(1) [OF P], of r] show ?thesis by (auto simp: clean_def)
  next
    case (made ev ev' w1 w2)
    obtain tr et v1 where t: "AuditSearch_GetEventTime A s w1 = ((tr, et), v1)" by (metis prod.collapse)
    obtain m v2 where m: "GenericEvent_AddMetadataWithTimes D ev EVENT_TRIGGERED_CATEGORY name EVENT_TYPE_SECURITY_VALUE version
        (int (unat (the et))) v1 = (m, v2)" by fastforce
    have c1: "clean roots w1 v1" using ticked_clean [OF ticked_reading(2) [of w1 A s]] t by simp
    have c2: "clean roots w1 v2" using clean_trans [OF c1] clean_metadata(1) [OF D(1), of v1] m by (metis snd_conv)
    have P1: "P w1" by (rule stableD(1) [OF P made(1)])
    have Pv: "P v1" "P v2" using c1 c2 stableD(1) [OF P(1) P1] by (simp_all add: clean_def)
    have ok1: "sync_queues_ok sqs w1" using ok by (simp add: doc_frame_sync [OF made(1)])
    have "?good w1 r sqs' w2 \<and> ev' = ev"
    proof (cases "tr = AUDIT_SEARCH_OK \<and> m = EVENT_COLLECTOR_OK")
      case False
      then consider "r = t" "w2 = v1" "sqs' = sqs" "ev' = ev" | "r = EVENT_COLLECTOR_EXCEPTION" "w2 = v2" "sqs' = sqs" "ev' = ev"
        using made(5) t m by (auto split: if_splits)
      then show ?thesis
        using unchanged [OF ok1 _ clean_aside [OF c1] Pv(1), of r] unchanged [OF ok1 _ clean_aside [OF c2] Pv(2), of r] by cases simp_all
    next
      case True
      have ok2: "sync_queues_ok sqs v2" by (rule aside_ok [OF ok1 clean_aside [OF c2]])
      have bytes: "booked_bytes v2 = booked_bytes w"
        using clean_aside [OF c2] by (simp add: aside_def doc_frame_sync [OF made(1)])
      let ?body = "\<lambda>payload w. let ((r, y1), w1) = fill payload y w in
                     if r \<noteq> EVENT_COLLECTOR_OK then (((r, sqs, y1), payload), w1)
                     else let (((r2, sqs1), payload1), w2) = finish_record D u i sqs ev payload w1
                       in (((r2, sqs1, y1), payload1), w2)"
      have inner: "with_object D (EVENT_COLLECTOR_EXCEPTION, sqs, y) ?body v2 = ((r, sqs', y'), w2)" and ev: "ev' = ev"
        using made(5) t m True by (auto split: prod.splits)
      from D(1) inner have "?good v2 r sqs' w2"
      proof (cases rule: with_object_cases)
        case failed
        with unchanged [OF ok2 _ clean_aside [OF failed(2)] stableD(1) [OF P(1) Pv(2)], of r] show ?thesis by (auto simp: clean_def)
      next
        case (made p p' w4 w5)
        obtain r4 y4 w6 where f: "fill p y w4 = ((r4, y4), w6)" by (metis prod.collapse)
        have P4: "P w4" by (rule stableD(1) [OF P(1) Pv(2) made(1)])
        have a6: "aside roots w4 w6" and P6: "P w6" using fill [OF P4, of p y] f by simp_all
        have ok4: "sync_queues_ok sqs w4" using ok2 by (simp add: doc_frame_sync [OF made(1)])
        have in6: "wRootValue p \<in> roots (docs w6)" using a6 made(4) by (simp add: aside_def)
        have "P w5 \<and> wRootValue p' = wRootValue p \<and> (wShouldFree p' \<longleftrightarrow> wRootValue p \<in> roots (docs w5))
          \<and> (\<exists>new. gained (\<lambda>h. roots h - {wRootValue p}) L 1 i sqs w4 new sqs' w5
               \<and> (r = EVENT_COLLECTOR_OK \<and> u \<noteq> EVENT_COLLECTOR_OK \<longrightarrow> length new = 1))"
        proof (cases "r4 = EVENT_COLLECTOR_OK")
          case False
          with made(5) f have "r = r4" "sqs' = sqs" "p' = p" "w5 = w6" by auto
          with False P6 in6 made(2) gained_aside [OF ok4 aside_fewer [OF a6], of "{wRootValue p}" L 1 i] show ?thesis by auto
        next
          case True
          obtain z p7 w7 where fin: "finish_record D u i sqs ev p w6 = ((z, p7), w7)" by (metis prod.collapse)
          with made(5) f True have out: "z = (r, sqs')" "p' = p7" "w5 = w7" by (auto split: prod.splits)
          have "booked_bytes w6 + (L + 40) < 4294967296"
            using room bytes a6 by (simp add: aside_def doc_frame_sync [OF made(1)])
          from finish_record_gained [OF D this aside_ok [OF ok4 a6] i P(1) P6 in6 made(2) fin [unfolded out(1)]]
          obtain new where F: "P w7" "wRootValue p7 = wRootValue p" "wShouldFree p7 \<longleftrightarrow> wRootValue p \<in> roots (docs w7)"
            "gained (\<lambda>h. roots h - {wRootValue p}) L 1 i sqs w6 new sqs' w7"
            "r = EVENT_COLLECTOR_OK \<and> u \<noteq> EVENT_COLLECTOR_OK \<longrightarrow> length new = 1" by blast
          have "gained (\<lambda>h. roots h - {wRootValue p}) L (0 + 1) i sqs w4 ([] @ new) sqs' w7"
            by (rule gained_trans [OF gained_aside [OF ok4 aside_fewer [OF a6]] F(4)])
          with F out show ?thesis by (simp del: One_nat_def) blast
        qed
        then obtain new where F: "P w5" "wRootValue p' = wRootValue p" "wShouldFree p' \<longleftrightarrow> wRootValue p \<in> roots (docs w5)"
          "gained (\<lambda>h. roots h - {wRootValue p}) L 1 i sqs w4 new sqs' w5"
          "r = EVENT_COLLECTOR_OK \<and> u \<noteq> EVENT_COLLECTOR_OK \<longrightarrow> length new = 1" by blast
        have "gained (\<lambda>h. roots h - {} - {wRootValue p}) L 1 i sqs w4 new sqs' w5" using F(4) by simp
        from gained_release_object [OF own made(1,3,4) this F(2,3)] F(1,5) stableD(1) [OF P(1) F(1) Deinit_frame [of w5 D p']]
        show ?thesis unfolding made(6) by auto
      qed
      then obtain new where G: "P w2" "gained roots L 1 i sqs v2 new sqs' w2"
        "r = EVENT_COLLECTOR_OK \<and> u \<noteq> EVENT_COLLECTOR_OK \<and> t \<noteq> EVENT_COLLECTOR_OK \<longrightarrow> length new = 1" by blast
      have "gained roots L (0 + 1) i sqs w1 ([] @ new) sqs' w2"
        by (rule gained_trans [OF gained_aside [OF ok1 clean_aside [OF c2]] G(2)])
      with G ev show ?thesis by (simp del: One_nat_def) blast
    qed
    then obtain new where G: "P w2" "gained roots L 1 i sqs w1 new sqs' w2" "ev' = ev"
      "r = EVENT_COLLECTOR_OK \<and> u \<noteq> EVENT_COLLECTOR_OK \<and> t \<noteq> EVENT_COLLECTOR_OK \<longrightarrow> length new = 1" by blast
    have g: "gained (\<lambda>h. roots h - {} - {wRootValue ev}) L 1 i sqs w1 new sqs' w2" using gained_fewer [OF G(2)] by simp
    have "wShouldFree ev \<longleftrightarrow> wRootValue ev \<in> roots (docs w2)" using made(2,4) G(2) unfolding gained_def by blast
    from gained_release_object [OF own made(1,3,4) g refl this] G(1,4) stableD(1) [OF P(1) G(1) Deinit_frame [of w2 D ev]]
    show ?thesis unfolding made(6) G(3) by auto
  qed
qed
section \<open>Steps on the search and the environment\<close>

lemma clean_value:
  fixes w v :: "('h, 'a) docs_env_scheme"
  assumes "ticked w v" and "\<And>x. clean roots v (snd (put x v))"
  shows "clean roots w (snd (snd (handle_value answer isOptional put v)))"
  using clean_trans [OF ticked_clean [OF assms(1)] assms(2)] ticked_clean [OF assms(1), of roots]
  by (auto simp: handle_value_def Let_def split_beta split: prod.split AuditSearchResultValues.split option.split)

lemma clean_handles:
  fixes w :: "('h, 'a) docs_env_scheme"
  assumes "parson_lists D roots"
  shows "clean roots w (snd (snd (GenericAuditEvent_HandleIntValue D A ev fd k opt (s, w))))"
    "clean roots w (snd (snd (GenericAuditEvent_HandleStringValue D A ev fd k opt (s, w))))"
    "clean roots w (snd (snd (GenericAuditEvent_HandleInterpretStringValue D A ev fd k opt (s, w))))"
proof -
  have put: "clean roots v (snd (JsonObjectWriter_WriteInt D ev k n v))" "clean roots v (snd (JsonObjectWriter_WriteString D ev k t v))"
    for v :: "('h, 'a) docs_env_scheme" and n t
    using clean_writes(1,2) [OF assms, of v ev k] by (simp_all add: json_step_def Let_def split_beta)
  obtain x1 w1 where 1: "AuditSearch_ReadInt A s fd w = (x1, w1)" by fastforce
  obtain x2 w2 where 2: "AuditSearch_ReadString A s fd w = (x2, w2)" by fastforce
  obtain x3 w3 where 3: "AuditSearch_InterpretString A s fd w = (x3, w3)" by fastforce
  have t: "ticked w w1" "ticked w w2" "ticked w w3"
    using ticked_reading(4-6) [of w A s fd] 1 2 3 by simp_all
  show "clean roots w (snd (snd (GenericAuditEvent_HandleIntValue D A ev fd k opt (s, w))))"
    "clean roots w (snd (snd (GenericAuditEvent_HandleStringValue D A ev fd k opt (s, w))))"
    "clean roots w (snd (snd (GenericAuditEvent_HandleInterpretStringValue D A ev fd k opt (s, w))))"
    using clean_value [where put = "\<lambda>n. JsonObjectWriter_WriteInt D ev k n" and roots = roots, OF t(1) put(1)]
      clean_value [where put = "\<lambda>x. JsonObjectWriter_WriteString D ev k x" and roots = roots, OF t(2) put(2)]
      clean_value [where put = "\<lambda>x. JsonObjectWriter_WriteString D ev k x" and roots = roots, OF t(3) put(2)]
    by (simp_all add: GenericAuditEvent_HandleIntValue_def GenericAuditEvent_HandleStringValue_def
        GenericAuditEvent_HandleInterpretStringValue_def 1 2 3)
qed

lemma clean_beside_search: "clean roots w (snd (f w)) \<Longrightarrow> clean roots w (snd (snd (beside_search f (s, w))))"
  by (simp add: beside_search_def split_beta)

lemma clean_pair_steps:
  fixes w :: "('h, 'a) docs_env_scheme"
  assumes "\<And>f s (w :: ('h, 'a) docs_env_scheme). f \<in> set fs \<Longrightarrow> clean roots w (snd (snd (f (s, w))))"
  shows "clean roots w (snd (snd (event_steps fs (s, w))))"
  using assms
proof (induction fs arbitrary: s w)
  case (Cons f fs)
  obtain r s1 w1 where f: "f (s, w) = (r, (s1, w1))" by (metis prod.collapse)
  have "clean roots w w1" using Cons.prems [of f w s] f by simp
  moreover have "clean roots w1 (snd (snd (event_steps fs (s1, w1))))" by (rule Cons.IH) (simp add: Cons.prems)
  ultimately show ?case using clean_trans f by auto
qed simp

section \<open>A run over the log\<close>

text \<open>The log has a bounded number of events.\<close>

definition log_bounded :: "('e, 'f) auparse \<Rightarrow> nat \<Rightarrow> bool" where
  "log_bounded A N \<longleftrightarrow> (\<forall>n. length (audit_log A n) \<le> N)"

lemma gained_beside:
  fixes w :: "('h, 'a) linux_env_scheme"
  assumes "gained roots L n i sqs w new sqs' w1" and "aside roots w1 w2"
  shows "gained roots L n i sqs w new sqs' w2"
proof -
  have "sync_queues_ok sqs' w1" using assms(1) by (simp add: gained_def)
  from gained_trans [OF assms(1) gained_aside [OF this assms(2)], of 0] show ?thesis by simp
qed

text \<open>A handler that adds at most one text for each event adds at most as many as there are events.\<close>

lemma audit_run_gained:
  fixes w :: "('h, 'a) linux_env_scheme"
  assumes room: "booked_bytes w + N * (L + 40) < 4294967296" and ok: "sync_queues_ok sqs w" and i: "i < length sqs" and P: "stable P" "P w"
    and handle: "\<And>s sqs v r sqs' v'. P v \<Longrightarrow> sync_queues_ok sqs v \<Longrightarrow> i < length sqs \<Longrightarrow> booked_bytes v + (L + 40) < 4294967296 \<Longrightarrow>
      handle s sqs v = ((r, sqs'), v') \<Longrightarrow> P v' \<and> (\<exists>new. gained roots L 1 i sqs v new sqs' v')"
    and s: "firstSearch s" "length (ahead (audit s)) \<le> N"
    and run: "(let ((hasNextResult, s1), w1) = AuditSearch_GetNext A s w
      in audit_events_while A handle ends hasNextResult s1 sqs w1) = ((r, sqs'), w')"
  shows "P w' \<and> (\<exists>m new. m \<le> N \<and> gained roots L m i sqs w new sqs' w')"
proof -
  let ?I = "\<lambda>k sqs1 v. P v \<and> (\<exists>new. gained roots L k i sqs w new sqs1 v)"
  obtain n1 s1 w1 where n: "AuditSearch_GetNext A s w = ((n1, s1), w1)" by (metis prod.collapse)
  have loop: "audit_events_while A handle ends n1 s1 sqs w1 = ((r, sqs'), w')" using run n by simp
  have ticks: "?I k y v'" if "?I k y v" "ticked v v'" for k y and v v' :: "('h, 'a) linux_env_scheme"
    using that(1) gained_beside [OF _ clean_aside [OF ticked_clean [OF that(2)]]] stableD(1) [OF P(1) _ ticked_clean [OF that(2), unfolded clean_def, THEN conjunct1]]
    by blast
  have start: "?I 0 sqs w1"
  proof (rule ticks)
    show "?I 0 sqs w" using P(2) gained_aside [OF ok aside_refl] by blast
    show "ticked w w1" using ticked_found(2) [of w A s] n by simp
  qed
  have step: "?I (Suc k) y' v'" if h: "handle s y v = ((r, y'), v')" and k: "k < N" and I: "?I k y v" for k s y v r y' v'
  proof -
    obtain new where g: "gained roots L k i sqs w new y v" using I by blast
    have "booked_bytes v + (L + 40) \<le> booked_bytes w + Suc k * (L + 40)" using g by (simp add: gained_def)
    also have "\<dots> \<le> booked_bytes w + N * (L + 40)" using k by (intro add_left_mono mult_le_mono1) simp
    finally have "booked_bytes v + (L + 40) < 4294967296" using room by simp
    moreover have "sync_queues_ok y v" "i < length y" using g i by (simp_all add: gained_def)
    ultimately obtain new1 where "P v'" "gained roots L 1 i y v new1 y' v'" using handle [OF _ _ _ _ h] I by blast
    then show ?thesis using gained_trans [OF g] by (metis Suc_eq_plus1)
  qed
  have fewer: "searches_left n1 s1 \<le> Suc N" using GetNext_fewer [OF n] s by (simp add: searches_left_def)
  have "0 < N" if "n1 = AUDIT_SEARCH_HAS_MORE_DATA"
  proof -
    have "ahead (audit s1) \<noteq> []" using GetNext_facts(3) [OF n that] by simp
    with fewer that show ?thesis by (cases "ahead (audit s1)") (auto simp: searches_left_def split: if_splits)
  qed
  then have "\<exists>m \<le> max 0 N. ?I m sqs' w'"
    using fewer by (intro audit_loop_keeps [where I = ?I, OF step ticks start _ _ loop]) simp_all
  then show ?thesis by auto
qed

text \<open>
  What every collector over the audit log may do that adds at most one text for each event: \<open>handle\<close> keeps the
  diagnostic events and the user.
\<close>

lemma audit_collector_gained:
  fixes w :: "('h, 'a) linux_env_scheme" and sqs :: "SyncQueue list"
  assumes D: "parson_lists D roots" and N: "log_bounded A N" and room: "booked_bytes w + N * (L + 40) < 4294967296"
    and ok: "sync_queues_ok sqs w" and i: "i < length sqs"
    and handle: "\<And>P s sqs v r sqs' v'. stable P \<Longrightarrow> P v \<Longrightarrow> sync_queues_ok sqs v \<Longrightarrow> i < length sqs \<Longrightarrow>
      booked_bytes v + (L + 40) < 4294967296 \<Longrightarrow> handle s sqs v = ((r, sqs'), v') \<Longrightarrow> P v' \<and> (\<exists>new. gained roots L 1 i sqs v new sqs' v')"
    and run: "with_search A c ms path sqs
      (\<lambda>s w. let ((hasNextResult, s1), w1) = AuditSearch_GetNext A s w
          in audit_events_while A handle ends hasNextResult s1 sqs w1) w = ((r, sqs'), w')"
  shows "diagnostics_kept w w' \<and> user_kept w w' \<and> (\<exists>m new. m \<le> N \<and> gained roots L m i sqs w new sqs' w')"
proof -
  let ?body = "\<lambda>s w. let ((hasNextResult, s1), w1) = AuditSearch_GetNext A s w
      in audit_events_while A handle ends hasNextResult s1 sqs w1"
  have body: "P v' \<and> (\<exists>m new. m \<le> N \<and> gained roots L m i sqs v new sqs1 v')"
    if v: "beside roots w v" and s: "ahead (audit s) = audit_log A n" "firstSearch s" and P: "stable P" "P v"
      and b: "?body s v = ((q, sqs1), v')" for P s n v q sqs1 v'
  proof -
    have start: "booked_bytes v + N * (L + 40) < 4294967296" "sync_queues_ok sqs v"
      using v room aside_ok [OF ok, where roots = roots] by (auto simp: beside_def) (simp add: aside_def)
    have "length (ahead (audit s)) \<le> N" using N s(1) by (simp add: log_bounded_def)
    show ?thesis
      by (rule audit_run_gained [where P = P, OF start i P _ s(2) \<open>length (ahead (audit s)) \<le> N\<close> b]) (rule handle [OF P(1)])
  qed
  have "diagnostics_kept w w' \<and> (\<exists>m new. m \<le> N \<and> gained roots L m i sqs w new sqs' w')"
  proof (rule with_search_keeps [where I = "beside roots w" and roots = roots
        and J = "\<lambda>sqs1 v. diagnostics_kept w v \<and> (\<exists>m new. m \<le> N \<and> gained roots L m i sqs w new sqs1 v)", OF run])
    fix s n v q sqs1 v'
    assume s: "ahead (audit s) = audit_log A n" "firstSearch s" and v: "beside roots w v" and b: "?body s v = ((q, sqs1), v')"
    from body [OF v s stable_diagnostics _ b, of w] v obtain m new
      where g: "diagnostics_kept w v'" "m \<le> N" "gained roots L m i sqs v new sqs1 v'" by (auto simp: beside_def)
    have "gained roots L (0 + m) i sqs w ([] @ new) sqs1 v'"
      using v by (intro gained_trans [OF gained_aside [OF ok] g(3)]) (simp add: beside_def)
    with g show "diagnostics_kept w v' \<and> (\<exists>m new. m \<le> N \<and> gained roots L m i sqs w new sqs1 v')" by auto
  next
    fix v assume "beside roots w v"
    then have "aside roots w v" "diagnostics_kept w v" by (simp_all add: beside_def)
    with gained_aside [OF ok this(1), of L 0 i]
    show "diagnostics_kept w v \<and> (\<exists>m new. m \<le> N \<and> gained roots L m i sqs w new sqs v)" by blast
  next
    fix sqs1 v v' assume "diagnostics_kept w v \<and> (\<exists>m new. m \<le> N \<and> gained roots L m i sqs w new sqs1 v)" "beside roots v v'"
    then show "diagnostics_kept w v' \<and> (\<exists>m new. m \<le> N \<and> gained roots L m i sqs w new sqs1 v')"
      using diagnostics_kept_trans gained_beside unfolding beside_def by blast
  qed
  moreover have "user_kept w w'"
    by (rule with_search_user [where roots = roots, OF run]) (rule body [THEN conjunct1, OF _ _ _ stable_user user_kept_refl])
  ultimately show ?thesis by blast
qed

end
