(* ===== verification/User_Login_Collector.thy ===== *)
theory User_Login_Collector
  imports Generic_Audit_Event
begin

text \<open>
  Logins, \<^verbatim>\<open>src/agent/src/collectors/linux/user_login_collector.c\<close>: each audit event of a login or of an
  authentication becomes an event of its own.
\<close>

definition AUDIT_USER_LOGIN_TYPES :: "string list" where "AUDIT_USER_LOGIN_TYPES = [''USER_LOGIN'', ''USER_AUTH'']"
definition AUDIT_USER_LOGIN_CHECKPOINT_FILE :: string where "AUDIT_USER_LOGIN_CHECKPOINT_FILE = ''/var/tmp/userLoginCheckpoint''"
definition AUDIT_USER_LOGIN_EXECUTEABLE :: string where "AUDIT_USER_LOGIN_EXECUTEABLE = ''exe''"
definition AUDIT_USER_LOGIN_PROCESS_ID :: string where "AUDIT_USER_LOGIN_PROCESS_ID = ''pid''"
definition AUDIT_USER_LOGIN_USER_ID :: string where "AUDIT_USER_LOGIN_USER_ID = ''id''"
definition AUDIT_USER_LOGIN_USER_NAME :: string where "AUDIT_USER_LOGIN_USER_NAME = ''acct''"
definition AUDIT_USER_LOGIN_RESULT :: string where "AUDIT_USER_LOGIN_RESULT = ''res''"
definition AUDIT_USER_LOGIN_RESULT_SUCCESS :: string where "AUDIT_USER_LOGIN_RESULT_SUCCESS = ''success''"
definition AUDIT_USER_LOGIN_RESULT_FAILED :: string where "AUDIT_USER_LOGIN_RESULT_FAILED = ''failed''"
definition AUDIT_USER_LOGIN_REMOTE_ADDRESS :: string where "AUDIT_USER_LOGIN_REMOTE_ADDRESS = ''addr''"
definition AUDIT_USER_LOGIN_NOT_A_REAL_REMOTE_ADDRESS :: string where "AUDIT_USER_LOGIN_NOT_A_REAL_REMOTE_ADDRESS = ''?''"
definition AUDIT_USER_LOGIN_OPERATION :: string where "AUDIT_USER_LOGIN_OPERATION = ''op''"
definition USER_LOGIN_NAME :: string where "USER_LOGIN_NAME = ''Login''"
definition USER_LOGIN_PAYLOAD_SCHEMA_VERSION :: string where "USER_LOGIN_PAYLOAD_SCHEMA_VERSION = ''1.0''"
definition USER_LOGIN_PROCESS_ID_KEY :: string where "USER_LOGIN_PROCESS_ID_KEY = ''ProcessId''"
definition USER_LOGIN_USER_ID_KEY :: string where "USER_LOGIN_USER_ID_KEY = ''UserId''"
definition USER_LOGIN_USERNAME_KEY :: string where "USER_LOGIN_USERNAME_KEY = ''UserName''"
definition USER_LOGIN_EXECUTABLE_KEY :: string where "USER_LOGIN_EXECUTABLE_KEY = ''Executable''"
definition USER_LOGIN_RESULT_KEY :: string where "USER_LOGIN_RESULT_KEY = ''Result''"
definition USER_LOGIN_RESULT_SUCCESS_VALUE :: string where "USER_LOGIN_RESULT_SUCCESS_VALUE = ''Success''"
definition USER_LOGIN_RESULT_FAILED_VALUE :: string where "USER_LOGIN_RESULT_FAILED_VALUE = ''Fail''"
definition USER_LOGIN_REMOTE_ADDRESS_KEY :: string where "USER_LOGIN_REMOTE_ADDRESS_KEY = ''RemoteAddress''"
definition USER_LOGIN_OPERATION_KEY :: string where "USER_LOGIN_OPERATION_KEY = ''Operation''"

section \<open>The payload of a login\<close>

text \<open>The address is written unless it is the one of no host; a record without address is fine.\<close>

definition write_remote_address ::
  "('v, 'o, 'r, 'h) parson_doc \<Rightarrow> ('e, 'f) auparse \<Rightarrow> ('v, 'o) JsonObjectWriter \<Rightarrow>
    ('e, 'f) AuditSearch \<times> ('h, 'a) docs_env_scheme \<Rightarrow> EventCollectorResult \<times> (('e, 'f) AuditSearch \<times> ('h, 'a) docs_env_scheme)" where
  "write_remote_address D A payload = (\<lambda>(s, w).
     case AuditSearch_ReadString A s AUDIT_USER_LOGIN_REMOTE_ADDRESS w of
       (((AUDIT_SEARCH_OK, Some auditStrValue), s1), w1) \<Rightarrow>
         if \<not> Utils_UnsafeAreStringsEqual auditStrValue AUDIT_USER_LOGIN_NOT_A_REAL_REMOTE_ADDRESS False
         then beside_search (json_step (JsonObjectWriter_WriteString D payload USER_LOGIN_REMOTE_ADDRESS_KEY auditStrValue)) (s1, w1)
         else (EVENT_COLLECTOR_OK, (s1, w1))
     | (((auditResult, _), s1), w1) \<Rightarrow>
         (if auditResult \<noteq> AUDIT_SEARCH_FIELD_DOES_NOT_EXIST then EVENT_COLLECTOR_RECORD_HAS_ERRORS else EVENT_COLLECTOR_OK, (s1, w1)))"

text \<open>Only the two results that are known are written.\<close>

definition write_login_result ::
  "('v, 'o, 'r, 'h) parson_doc \<Rightarrow> ('e, 'f) auparse \<Rightarrow> ('v, 'o) JsonObjectWriter \<Rightarrow>
    ('e, 'f) AuditSearch \<times> ('h, 'a) docs_env_scheme \<Rightarrow> EventCollectorResult \<times> (('e, 'f) AuditSearch \<times> ('h, 'a) docs_env_scheme)" where
  "write_login_result D A payload = (\<lambda>(s, w).
     case AuditSearch_ReadString A s AUDIT_USER_LOGIN_RESULT w of
       (((AUDIT_SEARCH_OK, Some auditStrValue), s1), w1) \<Rightarrow>
         if Utils_UnsafeAreStringsEqual auditStrValue AUDIT_USER_LOGIN_RESULT_SUCCESS False
         then beside_search (json_step (JsonObjectWriter_WriteString D payload USER_LOGIN_RESULT_KEY USER_LOGIN_RESULT_SUCCESS_VALUE)) (s1, w1)
         else if Utils_UnsafeAreStringsEqual auditStrValue AUDIT_USER_LOGIN_RESULT_FAILED False
         then beside_search (json_step (JsonObjectWriter_WriteString D payload USER_LOGIN_RESULT_KEY USER_LOGIN_RESULT_FAILED_VALUE)) (s1, w1)
         else (EVENT_COLLECTOR_RECORD_HAS_ERRORS, (s1, w1))
     | ((_, s1), w1) \<Rightarrow> (EVENT_COLLECTOR_RECORD_HAS_ERRORS, (s1, w1)))"

definition UserLoginEvent_GeneratePayload ::
  "('v, 'o, 'r, 'h) parson_doc \<Rightarrow> ('e, 'f) auparse \<Rightarrow> ('v, 'o) JsonObjectWriter \<Rightarrow>
    ('e, 'f) AuditSearch \<times> ('h, 'a) docs_env_scheme \<Rightarrow> EventCollectorResult \<times> (('e, 'f) AuditSearch \<times> ('h, 'a) docs_env_scheme)" where
  "UserLoginEvent_GeneratePayload D A userLoginEventPayload =
     event_steps
       [GenericAuditEvent_HandleIntValue D A userLoginEventPayload AUDIT_USER_LOGIN_PROCESS_ID USER_LOGIN_PROCESS_ID_KEY False,
        GenericAuditEvent_HandleStringValue D A userLoginEventPayload AUDIT_USER_LOGIN_USER_ID USER_LOGIN_USER_ID_KEY True,
        GenericAuditEvent_HandleInterpretStringValue D A userLoginEventPayload AUDIT_USER_LOGIN_USER_NAME USER_LOGIN_USERNAME_KEY True,
        GenericAuditEvent_HandleInterpretStringValue D A userLoginEventPayload AUDIT_USER_LOGIN_EXECUTEABLE USER_LOGIN_EXECUTABLE_KEY False,
        write_remote_address D A userLoginEventPayload,
        write_login_result D A userLoginEventPayload,
        GenericAuditEvent_HandleStringValue D A userLoginEventPayload AUDIT_USER_LOGIN_OPERATION USER_LOGIN_OPERATION_KEY True]"

section \<open>The events of a run\<close>

definition UserLoginEvent_CreateSingleEvent ::
  "('v, 'o, 'r, 'h) parson_doc \<Rightarrow> ('e, 'f) auparse \<Rightarrow> nat \<Rightarrow> ('e, 'f) AuditSearch \<Rightarrow> SyncQueue list \<Rightarrow> ('h, 'a) queue_env_scheme \<Rightarrow>
    (EventCollectorResult \<times> SyncQueue list) \<times> ('h, 'a) queue_env_scheme" where
  "UserLoginEvent_CreateSingleEvent D A queue s sqs w =
     (let ((r, sqs1, _), w1) =
        record_event D A EVENT_COLLECTOR_RECORD_HAS_ERRORS EVENT_COLLECTOR_EXCEPTION USER_LOGIN_NAME USER_LOGIN_PAYLOAD_SCHEMA_VERSION
          (\<lambda>payload y w. let (r, (_, w1)) = UserLoginEvent_GeneratePayload D A payload (s, w) in ((r, y), w1)) queue s (sqs, ()) w
      in ((r, sqs1), w1))"

text \<open>A record with errors and a full queue do not end the run; any other error does.\<close>

definition login_run_ends :: "EventCollectorResult \<Rightarrow> bool" where
  "login_run_ends result \<longleftrightarrow>
     result \<notin> {EVENT_COLLECTOR_OK, EVENT_COLLECTOR_RECORD_HAS_ERRORS, EVENT_COLLECTOR_OUT_OF_MEM}"

definition UserLoginCollector_GetEvents ::
  "('v, 'o, 'r, 'h) parson_doc \<Rightarrow> ('e, 'f) auparse \<Rightarrow> nat \<Rightarrow> SyncQueue list \<Rightarrow> ('h, 'a) linux_env_scheme \<Rightarrow>
    (EventCollectorResult \<times> SyncQueue list) \<times> ('h, 'a) linux_env_scheme" where
  "UserLoginCollector_GetEvents D A queue sqs =
     with_search A AUDIT_SEARCH_CRITERIA_TYPE AUDIT_USER_LOGIN_TYPES AUDIT_USER_LOGIN_CHECKPOINT_FILE sqs
       (\<lambda>s w. let ((hasNextResult, s1), w1) = AuditSearch_GetNext A s w
          in audit_events_while A (UserLoginEvent_CreateSingleEvent D A queue) login_run_ends hasNextResult s1 sqs w1)"

section \<open>What a run may do\<close>

lemma clean_login_payload:
  fixes w :: "('h, 'a) docs_env_scheme"
  assumes "parson_lists D roots"
  shows "clean roots w (snd (snd (UserLoginEvent_GeneratePayload D A payload (s, w))))"
  unfolding UserLoginEvent_GeneratePayload_def
proof (rule clean_pair_steps)
  fix f :: "('e, 'f) AuditSearch \<times> ('h, 'a) docs_env_scheme \<Rightarrow> EventCollectorResult \<times> (('e, 'f) AuditSearch \<times> ('h, 'a) docs_env_scheme)"
    and s and w :: "('h, 'a) docs_env_scheme"
  assume f: "f \<in> set [GenericAuditEvent_HandleIntValue D A payload AUDIT_USER_LOGIN_PROCESS_ID USER_LOGIN_PROCESS_ID_KEY False,
        GenericAuditEvent_HandleStringValue D A payload AUDIT_USER_LOGIN_USER_ID USER_LOGIN_USER_ID_KEY True,
        GenericAuditEvent_HandleInterpretStringValue D A payload AUDIT_USER_LOGIN_USER_NAME USER_LOGIN_USERNAME_KEY True,
        GenericAuditEvent_HandleInterpretStringValue D A payload AUDIT_USER_LOGIN_EXECUTEABLE USER_LOGIN_EXECUTABLE_KEY False,
        write_remote_address D A payload, write_login_result D A payload,
        GenericAuditEvent_HandleStringValue D A payload AUDIT_USER_LOGIN_OPERATION USER_LOGIN_OPERATION_KEY True]"
  obtain x1 s1 w1 where 1: "AuditSearch_ReadString A s AUDIT_USER_LOGIN_REMOTE_ADDRESS w = ((x1, s1), w1)" by (metis prod.collapse)
  obtain x2 s2 w2 where 2: "AuditSearch_ReadString A s AUDIT_USER_LOGIN_RESULT w = ((x2, s2), w2)" by (metis prod.collapse)
  have t: "clean roots w w1" "clean roots w w2"
    using ticked_reading(5) [of w A s AUDIT_USER_LOGIN_REMOTE_ADDRESS] ticked_reading(5) [of w A s AUDIT_USER_LOGIN_RESULT] 1 2
    by (simp_all add: ticked_clean)
  have put: "clean roots v (snd (snd (beside_search (json_step (JsonObjectWriter_WriteString D payload k x)) (s, v))))"
    for k x s and v :: "('h, 'a) docs_env_scheme"
    by (rule clean_beside_search [where f = "json_step (JsonObjectWriter_WriteString D payload k x)"]) (rule clean_writes(1) [OF assms])
  have "clean roots w (snd (snd (write_remote_address D A payload (s, w))))" "clean roots w (snd (snd (write_login_result D A payload (s, w))))"
    using t clean_trans [OF t(1) put] clean_trans [OF t(2) put]
    by (auto simp: write_remote_address_def write_login_result_def 1 2 split: prod.split AuditSearchResultValues.split option.split)
  with f clean_handles [OF assms] show "clean roots w (snd (snd (f (s, w))))" by auto
qed

lemma login_event_gained:
  fixes w :: "('h, 'a) queue_env_scheme"
  assumes D: "parson_lists D roots" "texts_within D L" and "booked_bytes w + (L + 40) < 4294967296"
    and "sync_queues_ok sqs w" and "i < length sqs" and P: "stable P" "P w"
    and run: "UserLoginEvent_CreateSingleEvent D A i s sqs w = ((r, sqs'), w')"
  shows "P w' \<and> (\<exists>new. gained roots L 1 i sqs w new sqs' w' \<and> (r = EVENT_COLLECTOR_OK \<longrightarrow> length new = 1))"
proof -
  let ?fill = "\<lambda>payload y w. let (r, (_, w1)) = UserLoginEvent_GeneratePayload D A payload (s, w) in ((r, y), w1)"
  obtain y where event: "record_event D A EVENT_COLLECTOR_RECORD_HAS_ERRORS EVENT_COLLECTOR_EXCEPTION USER_LOGIN_NAME
      USER_LOGIN_PAYLOAD_SCHEMA_VERSION ?fill i s (sqs, ()) w = ((r, sqs', y), w')"
    using run by (auto simp: UserLoginEvent_CreateSingleEvent_def split: prod.splits)
  have "aside roots v (snd (?fill obj y v)) \<and> P (snd (?fill obj y v))" if "P v" for obj y and v :: "('h, 'a) queue_env_scheme"
    using clean_login_payload [OF D(1), of v A obj s] clean_aside stableD(1) [OF P(1) that]
    by (auto simp: Let_def split_beta clean_def)
  from record_event_gained [OF D assms(3-5) P this event] show ?thesis by auto
qed

lemma UserLogin_gained:
  fixes w :: "('h, 'a) linux_env_scheme"
  assumes "parson_lists D roots" and "texts_within D L" and "log_bounded A N"
    and "booked_bytes w + N * (L + 40) < 4294967296" and "sync_queues_ok sqs w" and "i < length sqs"
    and "UserLoginCollector_GetEvents D A i sqs w = ((r, sqs'), w')"
  shows "diagnostics_kept w w' \<and> user_kept w w' \<and> (\<exists>m new. m \<le> N \<and> gained roots L m i sqs w new sqs' w')"
proof -
  have one: "P v' \<and> (\<exists>new. gained roots L 1 i sqs v new sqs' v')"
    if "stable P" "P v" "sync_queues_ok sqs v" "i < length sqs" "booked_bytes v + (L + 40) < 4294967296"
      "UserLoginEvent_CreateSingleEvent D A i s sqs v = ((r, sqs'), v')" for P s sqs r sqs' and v v' :: "('h, 'a) linux_env_scheme"
    using login_event_gained [OF assms(1,2) that(5,3,4,1,2,6)] by blast
  show ?thesis
    by (rule audit_collector_gained [where handle = "UserLoginEvent_CreateSingleEvent D A i", OF assms(1,3-6) _
          assms(7) [unfolded UserLoginCollector_GetEvents_def]]) (rule one)
qed

text \<open>
  C17: A run adds at most one text for each event of the log, at the end of its queue, releases every document, and gives
  the root user back (unless the system refuses that).
\<close>

theorem logins_are_collected:
  fixes w :: "('h, 'a) linux_env_scheme"
  assumes "parson_lists D roots" and "texts_within D L" and "log_bounded A N"
    and "booked_bytes w + N * (L + 40) < 4294967296" and "sync_queues_ok sqs w" and "i < length sqs"
    and "UserLoginCollector_GetEvents D A i sqs w = ((r, sqs'), w')"
  shows "(\<exists>m new. m \<le> N \<and> gained roots L m i sqs w new sqs' w') \<and> effectiveUid w' \<in> {effectiveUid w, 0}
    \<and> ((\<forall>n. extOk w n) \<longrightarrow> effectiveUid w' = effectiveUid w)"
  using UserLogin_gained [OF assms] by (auto simp: user_kept_def)

text \<open>No log at all is the smallest one; the events of the witness are logins of a user at a console.\<close>

definition one_login :: "sample_event list" where
  "one_login = [(7, ''USER_LOGIN'', [(''pid'', ''42''), (''id'', ''0''), (''acct'', ''root''), (''exe'', ''/bin/login''),
     (''addr'', ''?''), (''res'', ''success''), (''op'', ''login'')])]"

lemma logins_are_collected_witness:
  "\<exists>r sqs' w' m new. UserLoginCollector_GetEvents text_doc (sample_audit one_login) 1 [new_sync 0, new_sync 1]
       (calm_linux_with calm_store) = ((r, sqs'), w')
     \<and> m \<le> 1 \<and> gained text_roots 2 m 1 [new_sync 0, new_sync 1] (calm_linux_with calm_store) new sqs' w' \<and> effectiveUid w' = 1000"
proof -
  obtain r sqs' w' where run: "UserLoginCollector_GetEvents text_doc (sample_audit one_login) 1 [new_sync 0, new_sync 1]
      (calm_linux_with calm_store) = ((r, sqs'), w')" by (metis prod.collapse)
  have "log_bounded (sample_audit one_login) 1" by (simp add: log_bounded_def sample_audit_def one_login_def)
  from logins_are_collected [OF text_doc_lists this _ calm_linux_queues(1) _ run] run show ?thesis by auto
qed

section \<open>The contract of the monitor\<close>

lemma user_login_contract:
  assumes "log_bounded A (N + 2)"
  shows "event_collector (UserLoginCollector_GetEvents D A :: ('h, 'a) linux_env_scheme EventCollectorFunc)
    (collectors_ready d N) D roots L (N + 2) (- {d})"
proof
  show "collectors_ready d N sqs w'" if "collectors_ready d N sqs w" "settings_read w w'"
    for sqs and w w' :: "('h, 'a) linux_env_scheme"
    using ready_reading [OF that] .
  fix sqs sqs' i r and w w' :: "('h, 'a) linux_env_scheme"
  assume D: "parson_lists D roots" "texts_within D L" and ready: "collectors_ready d N sqs w" and ok: "sync_queues_ok sqs w"
    and i: "i \<in> - {d}" "i < length sqs" and room: "booked_bytes w + (N + 2) * (L + 40) < 4294967296"
    and run: "UserLoginCollector_GetEvents D A i sqs w = ((r, sqs'), w')"
  from UserLogin_gained [OF D assms room ok i(2) run] obtain m new
    where "diagnostics_kept w w'" "m \<le> N + 2" "gained roots L m i sqs w new sqs' w'" by blast
  from gained_ready [OF this(1) ready this(3) _ this(2)] i(1)
  show "collectors_ready d N sqs' w' \<and> events_collected roots L (- {d}) (N + 2) sqs w sqs' w'" by simp
qed

end
