(* ===== verification/Socket_Address.thy ===== *)
theory Socket_Address
  imports Iptables Audit_Search Generic_Event
begin

text \<open>
  The socket addresses in the audit log: \<open>Utils_HexStringToByteArray\<close> of \<^verbatim>\<open>src/agent/src/utils.c\<close> and the part
  of \<^verbatim>\<open>src/agent/src/collectors/linux/connection_create_collector.c\<close> that makes an address and a port of them.
\<close>

type_synonym u8 = "8 word"

section \<open>Bytes in hexadecimal\<close>

text \<open>
  \<open>sscanf\<close> with \<open>%2hhx\<close>: blanks are skipped, then at most two characters are taken, a sign and the prefix \<open>0x\<close>
  included; what is left must begin with a digit.
\<close>

definition scan_hhx :: "string \<Rightarrow> u8 option" where
  "scan_hhx s =
     (let (neg, r) = scan_sign (take 2 (dropWhile isspace s)); ds = takeWhile (\<lambda>c. base_digit c < 16) r;
          n = foldl (\<lambda>n c. 16 * n + base_digit c) 0 ds
      in if ds = [] \<or> map tolower r = ''0x'' then None else Some (if neg then - of_nat n else of_nat n))"

fun hex_bytes :: "nat \<Rightarrow> string \<Rightarrow> u8 list option" where
  "hex_bytes 0 s = Some []"
| "hex_bytes (Suc n) s =
     (case scan_hhx s of None \<Rightarrow> None | Some b \<Rightarrow> map_option ((#) b) (hex_bytes n (drop 2 s)))"

text \<open>The bytes written before the terminating zero; their number is the size handed back.\<close>

definition Utils_HexStringToByteArray :: "string \<Rightarrow> u32 \<Rightarrow> u8 list option" where
  "Utils_HexStringToByteArray hexString bufferSize =
     (let hexStringLen = of_nat (length hexString) :: u32 in
      if hexStringLen mod 2 = 1 \<or> hexStringLen div 2 \<ge> bufferSize then None else hex_bytes (unat (hexStringLen div 2)) hexString)"

section \<open>The remote side\<close>

definition AUDIT_CONNECTION_CREATION_MAX_BUFF :: u32 where "AUDIT_CONNECTION_CREATION_MAX_BUFF = 500"
definition AUDIT_CONNECTION_CREATION_REMOTE_SOCKET_ADDRESS :: string where
  "AUDIT_CONNECTION_CREATION_REMOTE_SOCKET_ADDRESS = ''saddr''"
definition AF_INET :: u8 where "AF_INET = 2"
definition AF_INET6 :: u8 where "AF_INET6 = 10"

text \<open>The buffer was cleared before the bytes were written into it.\<close>

definition byte_at :: "u8 list \<Rightarrow> nat \<Rightarrow> u8" where
  "byte_at saddrBytes k = (if k < length saddrBytes then saddrBytes ! k else 0)"

definition decimal :: "u8 \<Rightarrow> string" where "decimal b = nat_to_dec (unat b)"

definition hex_digit :: "nat \<Rightarrow> char" where "hex_digit d = ''0123456789abcdef'' ! d"

text \<open>\<open>%02x\<close>\<close>

definition hex2 :: "u8 \<Rightarrow> string" where "hex2 b = [hex_digit (unat b div 16), hex_digit (unat b mod 16)]"

definition IP_V4_FORMAT_STR :: "u8 list \<Rightarrow> string" where
  "IP_V4_FORMAT_STR b =
     decimal (byte_at b 4) @ ''.'' @ decimal (byte_at b 5) @ ''.'' @ decimal (byte_at b 6) @ ''.'' @ decimal (byte_at b 7)"

definition IP_V6_FORMAT_STR :: "u8 list \<Rightarrow> string" where
  "IP_V6_FORMAT_STR b =
     hex2 (byte_at b 8) @ hex2 (byte_at b 9) @ '':'' @ hex2 (byte_at b 10) @ hex2 (byte_at b 11) @ '':''
     @ hex2 (byte_at b 12) @ hex2 (byte_at b 13) @ '':'' @ hex2 (byte_at b 14) @ hex2 (byte_at b 15) @ '':''
     @ hex2 (byte_at b 16) @ hex2 (byte_at b 17) @ '':'' @ hex2 (byte_at b 18) @ hex2 (byte_at b 19) @ '':''
     @ hex2 (byte_at b 20) @ hex2 (byte_at b 21) @ '':'' @ hex2 (byte_at b 22) @ hex2 (byte_at b 23)"

definition remote_port :: "u8 list \<Rightarrow> 16 word" where
  "remote_port b = push_bit 8 (ucast (byte_at b 2)) + ucast (byte_at b 3)"

text \<open>The address and the port of the text in the record; the printed texts always fit.\<close>

definition remote_information :: "string \<Rightarrow> EventCollectorResult \<times> (string \<times> string) option" where
  "remote_information auditStrValue =
     (case Utils_HexStringToByteArray auditStrValue AUDIT_CONNECTION_CREATION_MAX_BUFF of
        None \<Rightarrow> (EVENT_COLLECTOR_EXCEPTION, None)
      | Some saddrBytes \<Rightarrow>
          (let family = byte_at saddrBytes 0; port = nat_to_dec (unat (remote_port saddrBytes)) in
           if family \<noteq> AF_INET \<and> family \<noteq> AF_INET6 then (EVENT_COLLECTOR_RECORD_FILTERED, None)
           else if family = AF_INET
           then (if length saddrBytes < 8 then (EVENT_COLLECTOR_EXCEPTION, None)
                 else (EVENT_COLLECTOR_OK, Some (IP_V4_FORMAT_STR saddrBytes, port)))
           else if length saddrBytes < 24 \<or> length (IP_V6_FORMAT_STR saddrBytes) \<noteq> 39 then (EVENT_COLLECTOR_EXCEPTION, None)
           else (EVENT_COLLECTOR_OK, Some (IP_V6_FORMAT_STR saddrBytes, port))))"

definition ConnectionCreateEventCollector_GetRemoteInformation ::
  "('e, 'f) auparse \<Rightarrow> ('e, 'f) AuditSearch \<Rightarrow> u32 \<Rightarrow> u32 \<Rightarrow> 'a env_scheme \<Rightarrow>
    ((EventCollectorResult \<times> (string \<times> string) option) \<times> ('e, 'f) AuditSearch) \<times> 'a env_scheme" where
  "ConnectionCreateEventCollector_GetRemoteInformation A s outputAddressSize outputPortSize w =
     (if outputAddressSize < AUDIT_CONNECTION_CREATION_MAX_BUFF \<or> outputPortSize < AUDIT_CONNECTION_CREATION_MAX_BUFF
      then (((EVENT_COLLECTOR_EXCEPTION, None), s), w)
      else case AuditSearch_ReadString A s AUDIT_CONNECTION_CREATION_REMOTE_SOCKET_ADDRESS w of
        (((AUDIT_SEARCH_OK, Some auditStrValue), s1), w1) \<Rightarrow> ((remote_information auditStrValue, s1), w1)
      | ((_, s1), w1) \<Rightarrow> (((EVENT_COLLECTOR_RECORD_HAS_ERRORS, None), s1), w1))"

section \<open>The addresses of the log are read back\<close>

text \<open>How the audit daemon writes bytes: two capital digits each.\<close>

definition audit_digit :: "nat \<Rightarrow> char" where "audit_digit d = ''0123456789ABCDEF'' ! d"

definition audit_hex :: "u8 list \<Rightarrow> string" where
  "audit_hex bs = concat (map (\<lambda>b. [audit_digit (unat b div 16), audit_digit (unat b mod 16)]) bs)"

lemma sixteen_cases:
  assumes "d < (16::nat)"
  shows "d \<in> {0, 1, 2, 3, 4, 5, 6, 7, 8, 9, 10, 11, 12, 13, 14, 15}"
  unfolding insert_iff empty_iff using assms by presburger

lemma audit_digits:
  assumes "d < 16"
  shows "base_digit (audit_digit d) = d" "\<not> isspace (audit_digit d)" "audit_digit d \<noteq> CHR ''-''" "audit_digit d \<noteq> CHR ''+''"
    "tolower (audit_digit d) \<noteq> CHR ''x''"
  using sixteen_cases [OF assms]
  by (auto simp: audit_digit_def base_digit_def isspace_def code_of_def tolower_def Let_def dest!: arg_cong [of _ _ "of_char :: char \<Rightarrow> nat"])

lemma scan_audit_hex: "scan_hhx (audit_digit (unat b div 16) # audit_digit (unat b mod 16) # s) = Some b"
proof -
  have "unat b < 2 ^ LENGTH(8)" by (rule unsigned_less)
  then have d: "unat b div 16 < 16" "unat b mod 16 < 16" by auto
  have "of_nat (16 * (unat b div 16) + unat b mod 16) = b" by simp
  then show ?thesis
    using audit_digits [OF d(1)] audit_digits [OF d(2)] d by (simp add: scan_hhx_def scan_sign_def)
qed

lemma hex_bytes_audit_hex: "hex_bytes (length bs) (audit_hex bs @ s) = Some bs"
  by (induction bs) (simp_all add: audit_hex_def scan_audit_hex)

lemma length_audit_hex [simp]: "length (audit_hex bs) = 2 * length bs"
  by (induction bs) (simp_all add: audit_hex_def)

lemma audit_hex_read:
  assumes "length bs < 500"
  shows "Utils_HexStringToByteArray (audit_hex bs) AUDIT_CONNECTION_CREATION_MAX_BUFF = Some bs"
proof -
  define n where "n = (of_nat (length (audit_hex bs)) :: u32)"
  have n: "unat n = 2 * length bs" unfolding n_def length_audit_hex by (rule unat_of_nat_u32) (use assms in simp)
  have half: "unat (n div 2) = length bs" using n by (simp add: unat_div)
  have "unat (n mod 2) = 0" using n by (simp add: unat_mod)
  then have "n mod 2 \<noteq> 1" by (metis unat_1 zero_neq_one)
  moreover have "\<not> n div 2 \<ge> 500" using half assms by (simp add: word_le_nat_alt)
  ultimately show ?thesis
    using hex_bytes_audit_hex [of bs "[]"] half
    by (simp add: Utils_HexStringToByteArray_def AUDIT_CONNECTION_CREATION_MAX_BUFF_def n_def [symmetric] del: length_audit_hex)
qed

section \<open>Different peers have different texts\<close>

lemma unat_byte: "unat (b :: u8) < 256"
proof -
  have "unat b < 2 ^ LENGTH(8)" by (rule unsigned_less)
  then show ?thesis by simp
qed

lemma hex_digit_inj: "a < 16 \<Longrightarrow> b < 16 \<Longrightarrow> hex_digit a = hex_digit b \<Longrightarrow> a = b"
  using sixteen_cases [of a] sixteen_cases [of b] by (auto simp: hex_digit_def)

lemma hex2_inj [simp]: "hex2 a = hex2 b \<longleftrightarrow> a = b"
proof
  assume "hex2 a = hex2 b"
  then have "unat a div 16 = unat b div 16" "unat a mod 16 = unat b mod 16"
    using unat_byte [of a] unat_byte [of b] by (auto simp: hex2_def intro!: hex_digit_inj)
  then have "unat a = unat b" by (metis div_mult_mod_eq)
  then show "a = b" by (rule word_unat_eq_iff [THEN iffD2])
qed simp

lemma length_hex2 [simp]: "length (hex2 b) = 2"
  by (simp add: hex2_def)

lemma length_IP_V6: "length (IP_V6_FORMAT_STR b) = 39"
  by (simp add: IP_V6_FORMAT_STR_def)

lemma length_decimal: "length (decimal b) \<le> 3"
  using length_nat_to_dec_le [of "unat b" 3] unat_byte [of b] by (simp add: decimal_def)

lemma length_IP_V4: "length (IP_V4_FORMAT_STR b) < 39"
  using length_decimal [of "byte_at b 4"] length_decimal [of "byte_at b 5"] length_decimal [of "byte_at b 6"]
    length_decimal [of "byte_at b 7"] by (simp add: IP_V4_FORMAT_STR_def)

lemma decimal_split:
  assumes "decimal a @ ys = decimal b @ ys'" "ys = [] \<or> \<not> isdigit (hd ys)" "ys' = [] \<or> \<not> isdigit (hd ys')"
  shows "a = b \<and> ys = ys'"
proof -
  have "decimal a = decimal b \<and> ys = ys'"
    using digits_split [OF assms(1) _ _ assms(2,3)] by (auto simp: decimal_def dest: nat_to_dec_digits)
  then show ?thesis by (metis dec_value_nat_to_dec decimal_def word_unat_eq_iff)
qed

lemma IP_V4_eq:
  "IP_V4_FORMAT_STR b = IP_V4_FORMAT_STR b' \<longleftrightarrow> (\<forall>k \<in> {4, 5, 6, 7}. byte_at b k = byte_at b' k)"
proof
  assume eq: "IP_V4_FORMAT_STR b = IP_V4_FORMAT_STR b'"
  have dot: "x = y \<and> us = us'" if "decimal x @ CHR ''.'' # us = decimal y @ CHR ''.'' # us'" for x y us us'
    using decimal_split [OF that] by simp
  have 4: "byte_at b 4 = byte_at b' 4"
    and r: "decimal (byte_at b 5) @ ''.'' @ decimal (byte_at b 6) @ ''.'' @ decimal (byte_at b 7)
      = decimal (byte_at b' 5) @ ''.'' @ decimal (byte_at b' 6) @ ''.'' @ decimal (byte_at b' 7)"
    using dot [OF eq [unfolded IP_V4_FORMAT_STR_def append_Cons append_Nil]] by simp_all
  have 5: "byte_at b 5 = byte_at b' 5" and r: "decimal (byte_at b 6) @ ''.'' @ decimal (byte_at b 7)
      = decimal (byte_at b' 6) @ ''.'' @ decimal (byte_at b' 7)"
    using dot [OF r [unfolded append_Cons append_Nil]] by simp_all
  have 6: "byte_at b 6 = byte_at b' 6" and "decimal (byte_at b 7) = decimal (byte_at b' 7)"
    using dot [OF r [unfolded append_Cons append_Nil]] by simp_all
  then have "byte_at b 7 = byte_at b' 7" using decimal_split [of "byte_at b 7" "[]" "byte_at b' 7" "[]"] by simp
  with 4 5 6 show "\<forall>k \<in> {4, 5, 6, 7}. byte_at b k = byte_at b' k" by simp
qed (simp add: IP_V4_FORMAT_STR_def)

lemma IP_V6_eq:
  "IP_V6_FORMAT_STR b = IP_V6_FORMAT_STR b' \<longleftrightarrow> (\<forall>k \<in> set [8..<24]. byte_at b k = byte_at b' k)"
  by (simp add: IP_V6_FORMAT_STR_def upt_rec append_eq_append_conv)

lemma base_256: "256 * m + n = 256 * m' + n' \<Longrightarrow> n < 256 \<Longrightarrow> n' < 256 \<Longrightarrow> m = m' \<and> n = n'" for m n m' n' :: nat
proof -
  have parts: "(256 * k + j) div 256 = k" "(256 * k + j) mod 256 = j" if "j < 256" for k j :: nat using that by simp_all
  assume "256 * m + n = 256 * m' + n'" "n < 256" "n' < 256"
  then show ?thesis using parts [of n m] parts [of n' m'] by simp
qed

lemma upt_four: "[4..<8] = [4, 5, 6, 7]"
  by (simp add: upt_rec)

lemma remote_port_eq: "remote_port b = remote_port b' \<longleftrightarrow> byte_at b 2 = byte_at b' 2 \<and> byte_at b 3 = byte_at b' 3"
proof -
  have value_of: "unat (remote_port b) = 256 * unat (byte_at b 2) + unat (byte_at b 3)" for b
  proof -
    have "remote_port b = of_nat (256 * unat (byte_at b 2) + unat (byte_at b 3))"
      by (simp add: remote_port_def push_bit_eq_mult mult.commute)
    moreover have "256 * unat (byte_at b 2) + unat (byte_at b 3) < 2 ^ 16"
      using unat_byte [of "byte_at b 2"] unat_byte [of "byte_at b 3"] by simp
    ultimately show ?thesis by (simp only: unat_of_nat) simp
  qed
  show ?thesis
  proof
    assume "remote_port b = remote_port b'"
    then have "256 * unat (byte_at b 2) + unat (byte_at b 3) = 256 * unat (byte_at b' 2) + unat (byte_at b' 3)"
      using value_of [of b] value_of [of b'] by simp
    from base_256 [OF this unat_byte unat_byte] show "byte_at b 2 = byte_at b' 2 \<and> byte_at b 3 = byte_at b' 3"
      by (simp only: word_unat_eq_iff)
  qed (simp add: remote_port_def)
qed

text \<open>What tells peers apart: the family, the port, the address.\<close>

definition peer :: "u8 list \<Rightarrow> u8 list" where
  "peer b = byte_at b 0 # byte_at b 2 # byte_at b 3 # map (byte_at b) (if byte_at b 0 = AF_INET then [4..<8] else [8..<24])"

lemma hd_peer: "hd (peer b) = byte_at b 0"
  by (simp only: peer_def list.sel)

definition internet_address :: "u8 list \<Rightarrow> bool" where
  "internet_address b \<longleftrightarrow> length b < 500 \<and> (b ! 0 = AF_INET \<and> 8 \<le> length b \<or> b ! 0 = AF_INET6 \<and> 24 \<le> length b)"

lemma remote_text:
  assumes "internet_address b"
  shows "remote_information (audit_hex b)
    = (EVENT_COLLECTOR_OK, Some (if byte_at b 0 = AF_INET then IP_V4_FORMAT_STR b else IP_V6_FORMAT_STR b, nat_to_dec (unat (remote_port b))))"
  using assms audit_hex_read [of b]
  by (auto simp: internet_address_def remote_information_def length_IP_V6 byte_at_def AF_INET_def AF_INET6_def)

text \<open>
  C29: Every internet address that the audit daemon logs is read, and two of them have the same address and port texts
  exactly when family, port and address are the same.
\<close>

theorem remote_peers_are_told_apart:
  assumes "internet_address b" and "internet_address b'"
  shows "\<exists>address port. remote_information (audit_hex b) = (EVENT_COLLECTOR_OK, Some (address, port))
    \<and> (remote_information (audit_hex b') = (EVENT_COLLECTOR_OK, Some (address, port)) \<longleftrightarrow> peer b = peer b')"
proof -
  have family: "byte_at b 0 \<in> {AF_INET, AF_INET6}" "byte_at b' 0 \<in> {AF_INET, AF_INET6}"
    using assms by (auto simp: internet_address_def byte_at_def)
  have port: "nat_to_dec (unat (remote_port b)) = nat_to_dec (unat (remote_port b')) \<longleftrightarrow> remote_port b = remote_port b'"
    by (metis dec_value_nat_to_dec word_unat_eq_iff)
  have other: "IP_V4_FORMAT_STR c \<noteq> IP_V6_FORMAT_STR c'" for c c'
    using length_IP_V4 [of c] length_IP_V6 [of c'] by auto
  let ?address = "\<lambda>b. if byte_at b 0 = AF_INET then IP_V4_FORMAT_STR b else IP_V6_FORMAT_STR b"
  have same: "?address b = ?address b' \<and> remote_port b = remote_port b'
    \<longleftrightarrow> peer b = peer b'"
  proof (cases "byte_at b 0 = byte_at b' 0")
    case True
    then show ?thesis
      by (cases "byte_at b' 0 = AF_INET") (auto simp: peer_def IP_V4_eq IP_V6_eq remote_port_eq upt_four)
  next
    case False
    with family have "byte_at b 0 = AF_INET \<and> byte_at b' 0 \<noteq> AF_INET \<or> byte_at b 0 \<noteq> AF_INET \<and> byte_at b' 0 = AF_INET" by auto
    moreover have "peer b \<noteq> peer b'" using False hd_peer by metis
    ultimately show ?thesis using other [of b b'] other [of b' b, THEN not_sym] by (elim disjE) simp_all
  qed
  show ?thesis
  proof (intro exI conjI)
    show "remote_information (audit_hex b) = (EVENT_COLLECTOR_OK, Some (?address b, nat_to_dec (unat (remote_port b))))"
      by (rule remote_text [OF assms(1)])
    show "remote_information (audit_hex b') = (EVENT_COLLECTOR_OK, Some (?address b, nat_to_dec (unat (remote_port b)))) \<longleftrightarrow> peer b = peer b'"
      unfolding remote_text [OF assms(2)] prod.inject option.inject same [symmetric] port [symmetric] by (simp only: eq_commute simp_thms)
  qed
qed

lemma remote_peers_are_told_apart_witness:
  "\<exists>address port. remote_information (audit_hex [2, 0, 0, 80, 10, 0, 0, 7]) = (EVENT_COLLECTOR_OK, Some (address, port))
    \<and> remote_information (audit_hex [2, 0, 0, 80, 10, 0, 0, 8]) \<noteq> (EVENT_COLLECTOR_OK, Some (address, port))"
  using remote_peers_are_told_apart [of "[2, 0, 0, 80, 10, 0, 0, 7]" "[2, 0, 0, 80, 10, 0, 0, 8]"]
  by (simp add: internet_address_def AF_INET_def peer_def byte_at_def upt_rec)

end
