(* ===== verification/Audit_Control.thy ===== *)
theory Audit_Control
  imports System_Information_Collector
begin

text \<open>
  The rules the audit daemon gets from the agent, \<^verbatim>\<open>src/agent/src/os_utils/linux/audit/audit_control.c\<close>.  The
  calls of libaudit are answered by the environment.
\<close>

datatype AuditControlResultValues = AUDIT_CONTROL_OK | AUDIT_CONTROL_EXCEPTION

definition AUDIT_CONTROL_ON_SUCCESS_FILTER :: string where "AUDIT_CONTROL_ON_SUCCESS_FILTER = ''success=1''"
definition AUDIT_CONTROL_TYPE_EXECVE :: string where "AUDIT_CONTROL_TYPE_EXECVE = ''execve''"
definition AUDIT_CONTROL_TYPE_EXECVEAT :: string where "AUDIT_CONTROL_TYPE_EXECVEAT = ''execveat''"
definition AUDIT_CONTROL_TYPE_CONNECT :: string where "AUDIT_CONTROL_TYPE_CONNECT = ''connect''"
definition AUDIT_CONTROL_TYPE_ACCEPT :: string where "AUDIT_CONTROL_TYPE_ACCEPT = ''accept''"

record AuditControl =
  auditDescriptor :: int
  controlProcessInfo :: ProcessInfo
  cpuArchitectureFilter :: string

text \<open>What a rule is made of: the filters, and the system calls by name.\<close>

record audit_rule_data =
  ruleFilters :: "string list"
  ruleSyscalls :: "string list"

definition getCpuArchitectureFilter :: "'a env_scheme \<Rightarrow> (bool \<times> string option) \<times> 'a env_scheme" where
  "getCpuArchitectureFilter w =
     (case uname w of
        (None, w1) \<Rightarrow> ((False, None), w1)
      | (Some utsnameBuffer, w1) \<Rightarrow>
          (let ((r, text), w2) = Utils_StringFormat (Some (''arch='' @ machine utsnameBuffer)) w1 in ((r = ACTION_OK, text), w2)))"

text \<open>The part behind the change to root.\<close>

definition open_control :: "ProcessInfo \<Rightarrow> 'a env_scheme \<Rightarrow> AuditControl option \<times> 'a env_scheme" where
  "open_control info w =
     (let (fd, w1) = sys_int w in
      if fd < 0 then (None, w1)
      else case getCpuArchitectureFilter w1 of
        ((True, Some text), w2) \<Rightarrow>
          (Some \<lparr>auditDescriptor = fd, controlProcessInfo = info, cpuArchitectureFilter = text\<rparr>, w2)
      | (_, w2) \<Rightarrow> (None, w2))"

definition AuditControl_Init ::
  "('h, 'a) linux_env_scheme \<Rightarrow> (AuditControlResultValues \<times> AuditControl option) \<times> ('h, 'a) linux_env_scheme" where
  "AuditControl_Init w =
     (let ((ok, info), w1) = ProcessInfoHandler_ChangeToRoot w in
      if \<not> ok then ((AUDIT_CONTROL_EXCEPTION, None), w1)
      else case open_control info w1 of
        (None, w2) \<Rightarrow> ((AUDIT_CONTROL_EXCEPTION, None), snd (ProcessInfoHandler_Reset info w2))
      | (Some auditControl, w2) \<Rightarrow> ((AUDIT_CONTROL_OK, Some auditControl), w2))"

definition AuditControl_Deinit :: "AuditControl \<Rightarrow> ('h, 'a) linux_env_scheme \<Rightarrow> ('h, 'a) linux_env_scheme" where
  "AuditControl_Deinit auditControl w = snd (ProcessInfoHandler_Reset (controlProcessInfo auditControl) w)"

text \<open>Each system call is added by name; the copy of the name may fail and so may the library.\<close>

fun add_syscalls :: "string list \<Rightarrow> audit_rule_data \<Rightarrow> 'a env_scheme \<Rightarrow> audit_rule_data option \<times> 'a env_scheme" where
  "add_syscalls [] rule w = (Some rule, w)"
| "add_syscalls (msgType # rest) rule w =
     (let (msgTypeCopy, w1) = Utils_CreateStringCopy (Some msgType) w in
      if msgTypeCopy = None then (None, w1)
      else let (ok, w2) = sys_ext w1 in
        if \<not> ok then (None, w2) else add_syscalls rest (rule\<lparr>ruleSyscalls := ruleSyscalls rule @ [msgType]\<rparr>) w2)"

definition add_filter :: "string option \<Rightarrow> audit_rule_data \<Rightarrow> 'a env_scheme \<Rightarrow> audit_rule_data option \<times> 'a env_scheme" where
  "add_filter extraFilter rule w =
     (case extraFilter of
        None \<Rightarrow> (Some rule, w)
      | Some text \<Rightarrow>
          (let (copy, w1) = Utils_CreateStringCopy (Some text) w in
           if copy = None then (None, w1)
           else let (ok, w2) = sys_ext w1
             in (if \<not> ok then None else Some (rule\<lparr>ruleFilters := ruleFilters rule @ [text]\<rparr>), w2)))"

text \<open>
  The rule that was handed to the kernel is returned with the result.  The memory of the rule is cleared without
  looking whether there is any.
\<close>

definition AuditControl_AddRule ::
  "AuditControl \<Rightarrow> string list \<Rightarrow> string option \<Rightarrow> 'a env_scheme \<Rightarrow>
    (AuditControlResultValues \<times> audit_rule_data option) \<times> 'a env_scheme" where
  "AuditControl_AddRule auditControl msgTypeArray extraFilter w =
     (let (allocated, w0) = sys_malloc w; w1 = (if allocated then w0 else w0\<lparr>fault := True\<rparr>); (ok, w2) = sys_ext w1 in
      if \<not> ok then ((AUDIT_CONTROL_EXCEPTION, None), w2)
      else case add_syscalls msgTypeArray \<lparr>ruleFilters = [cpuArchitectureFilter auditControl], ruleSyscalls = []\<rparr> w2 of
        (None, w3) \<Rightarrow> ((AUDIT_CONTROL_EXCEPTION, None), w3)
      | (Some rule, w3) \<Rightarrow>
          (case add_filter extraFilter rule w3 of
             (None, w4) \<Rightarrow> ((AUDIT_CONTROL_EXCEPTION, None), w4)
           | (Some rule1, w4) \<Rightarrow>
               (let (added, w5) = sys_int w4 in
                if added \<le> 0 then ((AUDIT_CONTROL_EXCEPTION, None), w5) else ((AUDIT_CONTROL_OK, Some rule1), w5))))"

section \<open>What reaches the kernel\<close>

lemma syscalls_added: "fst (add_syscalls ms rule w) = Some rule' \<Longrightarrow> rule' = rule\<lparr>ruleSyscalls := ruleSyscalls rule @ ms\<rparr>"
proof (induction ms arbitrary: rule w)
  case (Cons m ms)
  obtain c w1 where 1: "Utils_CreateStringCopy (Some m) w = (c, w1)" by fastforce
  obtain ok w2 where 2: "sys_ext w1 = (ok, w2)" by fastforce
  from Cons.prems 1 2 have "fst (add_syscalls ms (rule\<lparr>ruleSyscalls := ruleSyscalls rule @ [m]\<rparr>) w2) = Some rule'"
    by (auto split: if_splits)
  from Cons.IH [OF this] show ?case by simp
qed simp

text \<open>A rule that is reported as added has the architecture, every system call in order, and the extra filter.\<close>

lemma added_rule:
  assumes "AuditControl_AddRule c ms extra w = ((AUDIT_CONTROL_OK, x), w')"
  shows "x = Some \<lparr>ruleFilters = cpuArchitectureFilter c # (case extra of None \<Rightarrow> [] | Some t \<Rightarrow> [t]), ruleSyscalls = ms\<rparr>"
proof -
  obtain a w0 where 0: "sys_malloc w = (a, w0)" by fastforce
  let ?w1 = "if a then w0 else w0\<lparr>fault := True\<rparr>"
  obtain ok w2 where 2: "sys_ext ?w1 = (ok, w2)" by fastforce
  let ?rule = "\<lparr>ruleFilters = [cpuArchitectureFilter c], ruleSyscalls = []\<rparr>"
  obtain r w3 where 3: "add_syscalls ms ?rule w2 = (r, w3)" by fastforce
  from assms 0 2 3 obtain rule where r: "r = Some rule" by (cases r) (auto simp: AuditControl_AddRule_def Let_def split: if_splits)
  have rule: "rule = ?rule\<lparr>ruleSyscalls := ms\<rparr>" using syscalls_added [of ms ?rule w2 rule] 3 r by simp
  obtain y w4 where 4: "add_filter extra rule w3 = (y, w4)" by fastforce
  from assms 0 2 3 4 r have "y = x \<and> y \<noteq> None"
    by (cases y) (auto simp: AuditControl_AddRule_def Let_def split: if_splits prod.splits)
  with 4 rule show ?thesis by (cases extra) (auto simp: add_filter_def Let_def split: prod.splits if_splits)
qed

end
