(* ===== verification/Aggregated_Records.thy ===== *)
theory Aggregated_Records
  imports Generic_Audit_Event Event_Aggregator Audit_Control
begin

text \<open>
  What the collectors of processes and of connections share: the static aggregator of the file, which the
  collector initialises, asks and flushes, and the run that either aggregates or sends each event
  (\<^verbatim>\<open>src/agent/src/collectors/linux/connection_create_collector.c\<close> and \<^verbatim>\<open>process_creation_collector.c\<close>).
\<close>

section \<open>The static aggregator\<close>

record ('v, 'o) static_aggregator =
  aggregatorHandle :: "('v, 'o) EventAggregator option"
  aggregatorInitialized :: bool

definition null_access :: "'a env_scheme \<Rightarrow> 'a env_scheme" where
  "null_access w = w\<lparr>fault := True\<rparr>"

text \<open>The flag is set although the initialisation may have failed.\<close>

definition init_aggregator ::
  "EventAggregatorConfiguration \<Rightarrow> ('h, 'a) docs_env_scheme \<Rightarrow> ('v, 'o) static_aggregator \<times> ('h, 'a) docs_env_scheme" where
  "init_aggregator configuration w =
     (let ((_, made), w1) = EventAggregator_Init (Some configuration) w
      in (\<lparr>aggregatorHandle = made, aggregatorInitialized = True\<rparr>, w1))"

definition deinit_aggregator ::
  "('v, 'o, 'r, 'h) parson_doc \<Rightarrow> ('v, 'o) static_aggregator \<Rightarrow> ('h, 'a) docs_env_scheme \<Rightarrow>
    ('v, 'o) static_aggregator \<times> ('h, 'a) docs_env_scheme" where
  "deinit_aggregator D g w =
     (if \<not> aggregatorInitialized g then (g, w)
      else (g\<lparr>aggregatorHandle := None\<rparr>,
            case aggregatorHandle g of None \<Rightarrow> null_access w | Some aggregator \<Rightarrow> EventAggregator_Deinit D aggregator w))"

text \<open>The rule of a collector is added behind a control of its own; a rule that was refused is only logged.\<close>

definition with_audit_rule ::
  "string list \<Rightarrow> string option \<Rightarrow> 'x \<Rightarrow> (('h, 'a) linux_env_scheme \<Rightarrow> (EventCollectorResult \<times> 'x) \<times> ('h, 'a) linux_env_scheme) \<Rightarrow>
    ('h, 'a) linux_env_scheme \<Rightarrow> (EventCollectorResult \<times> 'x) \<times> ('h, 'a) linux_env_scheme" where
  "with_audit_rule syscalls extraFilter x body w =
     (case AuditControl_Init w of
        ((AUDIT_CONTROL_OK, Some control), w1) \<Rightarrow>
          (let (y, w2) = body (snd (AuditControl_AddRule control syscalls extraFilter w1)) in (y, AuditControl_Deinit control w2))
      | (_, w1) \<Rightarrow> ((EVENT_COLLECTOR_EXCEPTION, x), w1))"

section \<open>A run\<close>

text \<open>Whether events are aggregated; a question that could not be answered counts as no.\<close>

definition aggregation_asked ::
  "('v, 'o) static_aggregator \<Rightarrow> ('h, 'a) collectors_env_scheme \<Rightarrow> bool \<times> ('h, 'a) collectors_env_scheme" where
  "aggregation_asked g w =
     (if \<not> aggregatorInitialized g then (False, w)
      else case aggregatorHandle g of
        None \<Rightarrow> (False, null_access w)
      | Some aggregator \<Rightarrow>
          (let ((_, enabled), w1) = EventAggregator_IsAggregationEnabled aggregator w in (enabled = Some True, w1)))"

text \<open>A payload that \<open>fill\<close> generates is aggregated; \<open>fill\<close> has something of its own that lives on.\<close>

definition aggregate_record ::
  "('v, 'o, 'r, 'h) parson_doc \<Rightarrow>
    (('v, 'o) JsonObjectWriter \<Rightarrow> 'y \<Rightarrow> ('h, 'a) collectors_env_scheme \<Rightarrow> (EventCollectorResult \<times> 'y) \<times> ('h, 'a) collectors_env_scheme) \<Rightarrow>
    ('v, 'o) EventAggregator option \<times> 'y \<Rightarrow> ('h, 'a) collectors_env_scheme \<Rightarrow>
    (EventCollectorResult \<times> ('v, 'o) EventAggregator option \<times> 'y) \<times> ('h, 'a) collectors_env_scheme" where
  "aggregate_record D fill = (\<lambda>(handle, y).
     with_object D (EVENT_COLLECTOR_EXCEPTION, handle, y)
       (\<lambda>payload w. let ((r, y1), w1) = fill payload y w in
          if r \<noteq> EVENT_COLLECTOR_OK then (((r, handle, y1), payload), w1)
          else case handle of
            None \<Rightarrow> (((EVENT_COLLECTOR_EXCEPTION, None, y1), payload), null_access w1)
          | Some aggregator \<Rightarrow>
              (let ((r2, aggregator1), w2) = EventAggregator_AggregateEvent D aggregator payload w1
               in (((if r2 \<noteq> EVENT_AGGREGATOR_OK then EVENT_COLLECTOR_EXCEPTION else EVENT_COLLECTOR_OK, Some aggregator1, y1), payload), w2))))"

definition flush_aggregator ::
  "('v, 'o, 'r, 'h) parson_doc \<Rightarrow> nat \<Rightarrow> SyncQueue list \<Rightarrow> ('v, 'o) static_aggregator \<Rightarrow> ('h, 'a) queue_env_scheme \<Rightarrow>
    (EventCollectorResult \<times> SyncQueue list \<times> ('v, 'o) static_aggregator) \<times> ('h, 'a) queue_env_scheme" where
  "flush_aggregator D queue sqs g w =
     (if \<not> aggregatorInitialized g then ((EVENT_COLLECTOR_OK, sqs, g), w)
      else case aggregatorHandle g of
        None \<Rightarrow> ((EVENT_COLLECTOR_EXCEPTION, sqs, g), null_access w)
      | Some aggregator \<Rightarrow>
          (let (((r, sqs1), aggregator1), w1) = EventAggregator_GetAggregatedEvents D aggregator queue sqs w
           in ((if r \<noteq> EVENT_AGGREGATOR_OK then EVENT_COLLECTOR_EXCEPTION else EVENT_COLLECTOR_OK, sqs1, g\<lparr>aggregatorHandle := Some aggregator1\<rparr>), w1)))"

text \<open>
  The work on an open search: \<open>single\<close> makes an event of the current audit event, \<open>aggregate\<close> hands its payload to
  the aggregator; which of the two is asked once, after the search was moved to its first event.  An error ends
  the run before the flush.
\<close>

definition aggregated_run ::
  "('v, 'o, 'r, 'h) parson_doc \<Rightarrow> ('e, 'f) auparse \<Rightarrow> (EventCollectorResult \<Rightarrow> bool) \<Rightarrow>
    (('e, 'f) AuditSearch \<Rightarrow> SyncQueue list \<times> 'y \<Rightarrow> ('h, 'a) linux_env_scheme \<Rightarrow>
      (EventCollectorResult \<times> SyncQueue list \<times> 'y) \<times> ('h, 'a) linux_env_scheme) \<Rightarrow>
    (('e, 'f) AuditSearch \<Rightarrow> ('v, 'o) EventAggregator option \<times> 'y \<Rightarrow> ('h, 'a) linux_env_scheme \<Rightarrow>
      (EventCollectorResult \<times> ('v, 'o) EventAggregator option \<times> 'y) \<times> ('h, 'a) linux_env_scheme) \<Rightarrow>
    nat \<Rightarrow> SyncQueue list \<times> ('v, 'o) static_aggregator \<times> 'y \<Rightarrow> ('e, 'f) AuditSearch \<Rightarrow> ('h, 'a) linux_env_scheme \<Rightarrow>
    (EventCollectorResult \<times> SyncQueue list \<times> ('v, 'o) static_aggregator \<times> 'y) \<times> ('h, 'a) linux_env_scheme" where
  "aggregated_run D A ends single aggregate queue = (\<lambda>(sqs, g, y) s w.
     let ((hasNextResult, s1), w1) = AuditSearch_GetNext A s w; (aggregationEnabled, w2) = aggregation_asked g w1;
         handle = (\<lambda>s (sqs, g, y) w.
           if aggregationEnabled
           then let ((r, h, y1), w1) = aggregate s (aggregatorHandle g, y) w in ((r, sqs, g\<lparr>aggregatorHandle := h\<rparr>, y1), w1)
           else let ((r, sqs1, y1), w1) = single s (sqs, y) w in ((r, sqs1, g, y1), w1));
         ((r, sqs1, g1, y1), w3) = audit_events_while A handle ends hasNextResult s1 (sqs, g, y) w2
     in if r \<noteq> EVENT_COLLECTOR_OK then ((r, sqs1, g1, y1), w3)
        else let ((r2, sqs2, g2), w4) = flush_aggregator D queue sqs1 g1 w3 in ((r2, sqs2, g2, y1), w4))"

section \<open>Documents held by the aggregator\<close>

abbreviation no_docs :: "'h \<Rightarrow> unit set" where "no_docs \<equiv> \<lambda>_. {}"

definition held_items :: "('v, 'o) EventAggregator option \<Rightarrow> ('v, 'o) AggregatedEventItem list" where
  "held_items h = (case h of None \<Rightarrow> [] | Some aggregator \<Rightarrow> aggregatedEvents aggregator)"

definition held_roots :: "('v, 'o) EventAggregator option \<Rightarrow> 'v set" where
  "held_roots h = set (map item_root (held_items h))"

lemma held_items_simps [simp]: "held_items (Some aggregator) = aggregatedEvents aggregator" "held_items None = []"
  by (simp_all add: held_items_def)

text \<open>
  A step from one aggregator to another: the documents of its items are owned, no other document is made or
  released, and there is at most one more item.
\<close>

definition handed :: "('h \<Rightarrow> 'v set) \<Rightarrow> ('v, 'o) EventAggregator option \<Rightarrow> ('h, 'a) queue_env_scheme \<Rightarrow>
    ('v, 'o) EventAggregator option \<Rightarrow> ('h, 'a) queue_env_scheme \<Rightarrow> bool" where
  "handed roots h w h' w' \<longleftrightarrow> h' \<noteq> None \<and> items_owned roots (held_items h') w'
     \<and> roots (docs w') - held_roots h' = roots (docs w) - held_roots h \<and> length (held_items h') \<le> Suc (length (held_items h))
     \<and> aside no_docs w w'"

lemma owned_docs: "items_owned roots items w \<Longrightarrow> roots (docs w') = roots (docs w) \<Longrightarrow> items_owned roots items w'"
  by (simp add: items_owned_def)

lemma aside_none: "aside roots w w' \<Longrightarrow> aside no_docs w w'"
  by (simp add: aside_def)

lemma handed_aside:
  "h \<noteq> None \<Longrightarrow> items_owned roots (held_items h) w \<Longrightarrow> aside roots w w' \<Longrightarrow> handed roots h w h w'"
  using owned_docs [of roots "held_items h" w w'] aside_none [of roots w w'] by (simp add: handed_def) (simp add: aside_def)

lemma handed_after: "aside roots w w1 \<Longrightarrow> handed roots h w1 h' w' \<Longrightarrow> handed roots h w h' w'"
  by (simp add: handed_def aside_def)

lemma doc_aside: "doc_frame w w' \<Longrightarrow> aside no_docs w w'"
  by (auto simp: doc_frame_def aside_def)

lemma Copy_frame: "doc_frame w (snd (JsonObjectWriter_Copy D p w))"
  by (auto simp: JsonObjectWriter_Copy_def JsonObjectWriter_Serialize_def JsonObjectWriter_InitFromString_def JsonObjectWriter_new_def
      sys_defs on_docs_def Let_def split_beta intro: doc_frame_tick doc_frameI split: option.split prod.split)

text \<open>Taking a payload makes a copy of it or counts it.\<close>

lemma AddNewEvent_handed:
  fixes w :: "('h, 'a) queue_env_scheme"
  assumes D: "parson_lists D roots" "parson_contents D roots content"
    and own: "items_owned roots (aggregatedEvents aggregator) w" and p: "wRootValue p \<in> roots (docs w)"
    and run: "EventAggregator_AddNewEvent D aggregator p w = ((r, aggregator'), w')"
  shows "handed roots (Some aggregator) w (Some aggregator') w'"
proof -
  have parson: "parson_ownership D roots" using D(1) by (simp add: parson_lists_def)
  have keep: "handed roots (Some aggregator) w (Some aggregator) v" if "aside roots w v" for v
    by (rule handed_aside) (use own that in simp_all)
  have nt: "aside roots w (next_tick w)" by (rule clean_aside) simp
  obtain c out w2 where copy: "JsonObjectWriter_Copy D p (next_tick w) = ((c, out), w2)" by (metis prod.collapse)
  have p1: "wRootValue p \<in> roots (docs (next_tick w))" using p by (simp add: next_tick_def)
  have docs0: "docs (next_tick w) = docs w" by (simp add: next_tick_def)
  note facts = copy_facts [OF D p1 copy, unfolded docs0]
  have "doc_frame (next_tick w) w2" using Copy_frame [where D = D and p = p and w = "next_tick w"] copy by simp
  moreover have "doc_frame w (next_tick w)" by (simp add: next_tick_def doc_frame_tick)
  ultimately have a2: "aside no_docs w w2" using doc_aside doc_frame_trans by blast
  show ?thesis
  proof (cases "allocOk w (tick w) \<and> out \<noteq> None")
    case False
    then have "aggregator' = aggregator" "w' = next_tick w \<or> w' = w2 \<and> out = None"
      using run copy facts(2)
      by (auto simp: EventAggregator_AddNewEvent_def sys_malloc_def Let_def split: if_splits JsonWriterResult.splits)
    moreover have "aside roots w w2" if "out = None" using a2 facts(3) [OF that] by (simp add: aside_def)
    ultimately show ?thesis using keep nt by auto
  next
    case alloc: True
    then obtain json where out: "out = Some json" by blast
    note made = facts(4) [OF out]
    let ?item = "\<lparr>itemJson = json, hitCount = 1\<rparr>"
    show ?thesis
    proof (cases "allocOk w2 (tick w2)")
      case False
      then have res: "aggregator' = aggregator" "w' = AggregatedEventItem_Deinit D ?item (next_tick w2)"
        using run copy facts(2) alloc out
        by (auto simp: EventAggregator_AddNewEvent_def sys_malloc_def Let_def split: JsonWriterResult.splits)
      have "doc_frame w2 w'"
        using doc_frame_trans [OF _ Deinit_frame [of "next_tick w2" D json], of w2]
        by (simp add: res(2) AggregatedEventItem_Deinit_def next_tick_def doc_frame_tick)
      moreover have "roots (docs w') = roots (docs w2) - {wRootValue json}"
        using Deinit_roots [OF parson, of json "next_tick w2"] made by (simp add: res(2) AggregatedEventItem_Deinit_def next_tick_def)
      ultimately have "aside roots w w'" using a2 made doc_aside [of w2 w'] by (auto simp: aside_def)
      with keep res(1) show ?thesis by simp
    next
      case True
      then have res: "aggregatedEvents aggregator' = aggregatedEvents aggregator @ [?item]" "w' = next_tick w2"
        using run copy facts(2) alloc out
        by (auto simp: EventAggregator_AddNewEvent_def sys_malloc_def Let_def split: JsonWriterResult.splits)
      have docs': "docs w' = docs w2" by (simp add: res(2) next_tick_def)
      have "aside no_docs w w'" using a2 by (simp add: res(2) next_tick_def aside_def)
      moreover have "items_owned roots (aggregatedEvents aggregator') w'"
        using own made by (auto simp: items_owned_def docs' item_root_def res(1))
      moreover have "roots (docs w') - held_roots (Some aggregator') = roots (docs w) - held_roots (Some aggregator)"
        using made own by (auto simp: held_roots_def res(1) docs' item_root_def items_owned_def)
      ultimately show ?thesis by (simp add: handed_def res(1))
    qed
  qed
qed

lemma AggregateEvent_handed:
  fixes w :: "('h, 'a) queue_env_scheme"
  assumes D: "parson_lists D roots" "parson_contents D roots content"
    and own: "items_owned roots (aggregatedEvents aggregator) w" and p: "wRootValue p \<in> roots (docs w)"
    and run: "EventAggregator_AggregateEvent D aggregator p w = ((r, aggregator'), w')"
  shows "handed roots (Some aggregator) w (Some aggregator') w'"
proof -
  obtain e isEnabled w1 where en: "EventAggregator_IsAggregationEnabled aggregator w = ((e, isEnabled), w1)" by (metis prod.collapse)
  have a1: "aside roots w w1" using aggregation_aside(1) [of roots w aggregator] en by simp
  note own1 = owned_docs [OF own, of w1]
  have docs1: "docs w1 = docs w" using enabled_docs [of aggregator w] en by simp
  consider (kept) "aggregator' = aggregator" "w' = w1"
    | (hit) i where "i < length (aggregatedEvents aggregator)" "w' = w1" "aggregator' = aggregator\<lparr>aggregatedEvents :=
        (aggregatedEvents aggregator)[i := (aggregatedEvents aggregator ! i)\<lparr>hitCount := hitCount (aggregatedEvents aggregator ! i) + 1\<rparr>]\<rparr>"
    | (new) "EventAggregator_AddNewEvent D aggregator p w1 = ((r, aggregator'), w')"
  proof (cases "e = EVENT_AGGREGATOR_OK \<and> isEnabled \<noteq> Some False")
    case False
    with run en kept show ?thesis by (auto simp: EventAggregator_AggregateEvent_def split: if_splits)
  next
    case True
    show ?thesis
    proof (cases "EventAggregator_SearchEvent D w1 p (aggregatedEvents aggregator)")
      case None
      with run en True have "EventAggregator_AddNewEvent D aggregator p w1 = ((r, aggregator'), w')"
        by (simp add: EventAggregator_AggregateEvent_def)
      then show ?thesis by (rule new)
    next
      case (Some i)
      show ?thesis
        by (rule hit [OF search_some [OF Some, THEN conjunct1]])
          (use run en True Some in \<open>simp_all add: EventAggregator_AggregateEvent_def Let_def\<close>)
    qed
  qed
  then show ?thesis
  proof cases
    case kept
    with handed_aside [of "Some aggregator", OF _ _ a1] own show ?thesis by simp
  next
    case (hit i)
    let ?items = "aggregatedEvents aggregator"
    let ?item = "(?items ! i)\<lparr>hitCount := hitCount (?items ! i) + 1\<rparr>"
    have items: "aggregatedEvents aggregator' = ?items[i := ?item]" by (simp add: hit(3))
    have names: "map item_root (?items[i := ?item]) = map item_root ?items"
      using hit(1) by (simp add: map_update item_root_def list_update_same_conv)
    have "\<forall>x \<in> set (?items[i := ?item]). wShouldFree (itemJson x)"
      using own hit(1) by (auto simp: items_owned_def dest!: set_update_subset_insert [THEN subsetD])
    then have "items_owned roots (?items[i := ?item]) w'" using own names unfolding items_owned_def hit(2) docs1 by simp
    then show ?thesis
      using aside_none [OF a1] by (simp add: handed_def held_roots_def items names del: set_map) (simp add: hit(2) docs1)
  next
    case new
    have "handed roots (Some aggregator) w1 (Some aggregator') w'"
      by (rule AddNewEvent_handed [OF D own1 _ new]) (use docs1 p in simp_all)
    from handed_after [OF a1 this] show ?thesis .
  qed
qed

text \<open>A payload that is made, filled, handed over and released.\<close>

lemma aggregate_record_handed:
  fixes w :: "('h, 'a) queue_env_scheme"
  assumes D: "parson_lists D roots" "parson_contents D roots content" and h: "h \<noteq> None" and own: "items_owned roots (held_items h) w"
    and fill: "\<And>obj y (w :: ('h, 'a) queue_env_scheme). aside roots w (snd (fill obj y w))"
    and run: "aggregate_record D fill (h, y) w = ((r, h', y'), w')"
  shows "handed roots h w h' w'"
proof -
  have parson: "parson_ownership D roots" using D(1) by (simp add: parson_lists_def)
  from D(1) run [unfolded aggregate_record_def prod.case] show ?thesis
  proof (cases rule: with_object_cases)
    case failed
    with handed_aside [OF h own clean_aside [OF failed(2)]] show ?thesis by simp
  next
    case (made p p' w1 w2)
    let ?v = "wRootValue p"
    obtain r1 y1 w3 where f: "fill p y w1 = ((r1, y1), w3)" by (metis prod.collapse)
    have a3: "aside roots w1 w3" using fill [of w1 p y] f by simp
    obtain aggregator where ag: "h = Some aggregator" using h by blast
    have roots3: "roots (docs w3) = insert ?v (roots (docs w))" using a3 made(4) by (simp add: aside_def)
    have away: "?v \<notin> held_roots h" using own made(3) by (auto simp: items_owned_def held_roots_def)
    have own3: "items_owned roots (held_items h) w3" using own roots3 by (auto simp: items_owned_def)
    have n13: "aside no_docs w w3" using aside_trans [OF doc_aside [OF made(1)] aside_none [OF a3]] .
    have "p' = p \<and> handed roots h w3 h' w2"
    proof (cases "r1 = EVENT_COLLECTOR_OK")
      case False
      with made(5) f have "h' = h" "p' = p" "w2 = w3" by auto
      with handed_aside [OF h own3 aside_refl] show ?thesis by simp
    next
      case True
      obtain r2 aggregator1 w4 where a: "EventAggregator_AggregateEvent D aggregator p w3 = ((r2, aggregator1), w4)" by (metis prod.collapse)
      with made(5) f True ag have "h' = Some aggregator1" "p' = p" "w2 = w4" by auto
      moreover have "handed roots (Some aggregator) w3 (Some aggregator1) w4"
        by (rule AggregateEvent_handed [OF D _ _ a]) (use own3 roots3 ag in simp_all)
      ultimately show ?thesis using ag by simp
    qed
    then have p': "p' = p" and H: "handed roots h w3 h' w2" by simp_all
    have rest: "roots (docs w2) - held_roots h' = insert ?v (roots (docs w) - held_roots h)"
      using H away by (simp add: handed_def roots3 insert_Diff_if)
    then have v: "?v \<in> roots (docs w2)" "?v \<notin> held_roots h'" by blast+
    have gone: "roots (docs w') = roots (docs w2) - {?v}"
      using Deinit_roots [OF parson, of p w2] v(1) made(2) by (simp add: made(6) p')
    have frame: "doc_frame w2 w'" unfolding made(6) by (rule Deinit_frame)
    have "aside no_docs w w'"
      using n13 H aside_trans [OF _ doc_aside [OF frame]] by (auto simp: handed_def aside_def)
    moreover have "items_owned roots (held_items h') w'"
    proof -
      have "set (map item_root (held_items h')) \<subseteq> roots (docs w2)" using H unfolding handed_def items_owned_def by blast
      then have "set (map item_root (held_items h')) \<subseteq> roots (docs w2) - {?v}" using v(2) unfolding held_roots_def by blast
      with H show ?thesis unfolding handed_def items_owned_def gone by blast
    qed
    moreover have "roots (docs w') - held_roots h' = roots (docs w) - held_roots h"
    proof -
      have "roots (docs w') - held_roots h' = (roots (docs w2) - held_roots h') - {?v}" unfolding gone by blast
      also have "\<dots> = roots (docs w) - held_roots h" unfolding rest using made(3) by blast
      finally show ?thesis .
    qed
    ultimately show ?thesis using H by (simp add: handed_def)
  qed
qed

section \<open>A run with an aggregator\<close>

text \<open>
  What a run keeps, from the state \<open>g0\<close>, \<open>w0\<close> it began in: the aggregator owns the documents of its items and no
  other document was made or released; the texts added and the items held are at most \<open>k\<close> more than the items
  held before.
\<close>

definition aggregating ::
  "('h \<Rightarrow> 'v set) \<Rightarrow> nat \<Rightarrow> nat \<Rightarrow> SyncQueue list \<Rightarrow> ('v, 'o) static_aggregator \<Rightarrow> ('h, 'a) queue_env_scheme \<Rightarrow> nat \<Rightarrow>
    SyncQueue list \<Rightarrow> ('v, 'o) static_aggregator \<Rightarrow> ('h, 'a) queue_env_scheme \<Rightarrow> bool" where
  "aggregating roots L i sqs0 g0 w0 k sqs g w \<longleftrightarrow>
     (aggregatorInitialized g \<longrightarrow> aggregatorHandle g \<noteq> None) \<and> items_owned roots (held_items (aggregatorHandle g)) w
     \<and> roots (docs w) - held_roots (aggregatorHandle g) = roots (docs w0) - held_roots (aggregatorHandle g0)
     \<and> (\<exists>m new. m + length (held_items (aggregatorHandle g)) \<le> k + length (held_items (aggregatorHandle g0))
          \<and> gained no_docs L m i sqs0 w0 new sqs w)"

lemma aggregating_start:
  assumes "aggregatorInitialized g \<longrightarrow> aggregatorHandle g \<noteq> None" and "items_owned roots (held_items (aggregatorHandle g)) w"
    and "sync_queues_ok sqs w"
  shows "aggregating roots L i sqs g w 0 sqs g w"
  using assms gained_aside [OF assms(3) aside_refl, of no_docs L 0 i] unfolding aggregating_def by fastforce

lemma aggregating_aside:
  fixes w w' :: "('h, 'a) queue_env_scheme"
  assumes "aggregating roots L i sqs0 g0 w0 k sqs g w" and "aside roots w w'"
  shows "aggregating roots L i sqs0 g0 w0 k sqs g w'"
proof -
  obtain m new where m: "m + length (held_items (aggregatorHandle g)) \<le> k + length (held_items (aggregatorHandle g0))"
    and new: "gained no_docs L m i sqs0 w0 new sqs w" using assms(1) by (auto simp: aggregating_def)
  have "gained no_docs L (m + 0) i sqs0 w0 (new @ []) sqs w'"
    by (rule gained_trans [OF new gained_aside [OF _ aside_none [OF assms(2)]]]) (use new in \<open>simp add: gained_def\<close>)
  moreover have "roots (docs w') = roots (docs w)" using assms(2) by (simp add: aside_def)
  ultimately show ?thesis
    using assms(1) m owned_docs [of roots "held_items (aggregatorHandle g)" w w'] unfolding aggregating_def by auto
qed

lemma aggregating_texts:
  assumes A: "aggregating roots L i sqs0 g0 w0 k sqs g w" and new: "gained roots L 1 i sqs w new sqs' w'"
  shows "aggregating roots L i sqs0 g0 w0 (Suc k) sqs' g w'"
proof -
  obtain m new0 where m: "m + length (held_items (aggregatorHandle g)) \<le> k + length (held_items (aggregatorHandle g0))"
    and new0: "gained no_docs L m i sqs0 w0 new0 sqs w" using A by (auto simp: aggregating_def)
  have roots: "roots (docs w') = roots (docs w)" using new by (simp add: gained_def)
  have "gained no_docs L (m + 1) i sqs0 w0 (new0 @ new) sqs' w'"
    by (rule gained_trans [OF new0 gained_over [OF new]]) simp
  with m roots A owned_docs [of roots "held_items (aggregatorHandle g)" w w'] show ?thesis
    unfolding aggregating_def by (intro conjI exI [of _ "m + 1"] exI [of _ "new0 @ new"]) auto
qed

lemma aggregating_handed:
  fixes w w' :: "('h, 'a) queue_env_scheme"
  assumes A: "aggregating roots L i sqs0 g0 w0 k sqs g w" and H: "handed roots (aggregatorHandle g) w h' w'"
  shows "aggregating roots L i sqs0 g0 w0 (Suc k) sqs (g\<lparr>aggregatorHandle := h'\<rparr>) w'"
proof -
  obtain m new where m: "m + length (held_items (aggregatorHandle g)) \<le> k + length (held_items (aggregatorHandle g0))"
    and new: "gained no_docs L m i sqs0 w0 new sqs w" using A by (auto simp: aggregating_def)
  have "gained no_docs L (m + 0) i sqs0 w0 (new @ []) sqs w'"
    by (rule gained_trans [OF new gained_aside]) (use new H in \<open>simp_all add: gained_def handed_def\<close>)
  with m H A show ?thesis
    unfolding aggregating_def handed_def by (intro conjI exI [of _ m] exI [of _ "new @ []"]) auto
qed

lemma aggregating_room:
  assumes "aggregating roots L i sqs0 g0 w0 k sqs g w" and "k + n \<le> N"
    and "booked_bytes w0 + (N + length (held_items (aggregatorHandle g0))) * (L + 40) < 4294967296"
  shows "booked_bytes w + (n + length (held_items (aggregatorHandle g))) * (L + 40) < 4294967296" "sync_queues_ok sqs w" "length sqs = length sqs0"
proof -
  obtain m new where m: "m + length (held_items (aggregatorHandle g)) \<le> k + length (held_items (aggregatorHandle g0))"
    and new: "gained no_docs L m i sqs0 w0 new sqs w" using assms(1) by (auto simp: aggregating_def)
  have "booked_bytes w + (n + length (held_items (aggregatorHandle g))) * (L + 40)
      \<le> booked_bytes w0 + m * (L + 40) + (n + length (held_items (aggregatorHandle g))) * (L + 40)"
    using new by (simp add: gained_def)
  also have "\<dots> = booked_bytes w0 + (m + (n + length (held_items (aggregatorHandle g)))) * (L + 40)" by (simp add: add_mult_distrib)
  also have "\<dots> \<le> booked_bytes w0 + (N + length (held_items (aggregatorHandle g0))) * (L + 40)"
    using m assms(2) by (intro add_left_mono mult_le_mono1) simp
  finally show "booked_bytes w + (n + length (held_items (aggregatorHandle g))) * (L + 40) < 4294967296" using assms(3) by simp
  show "sync_queues_ok sqs w" "length sqs = length sqs0" using new by (simp_all add: gained_def)
qed

text \<open>The flush turns the items held into texts, or leaves everything as it is.\<close>

lemma flush_aggregating:
  fixes w :: "('h, 'a) queue_env_scheme"
  assumes D: "parson_lists D roots" "texts_within D L" and A: "aggregating roots L i sqs0 g0 w0 N sqs g w" and i: "i < length sqs0"
    and room: "booked_bytes w0 + (N + length (held_items (aggregatorHandle g0))) * (L + 40) < 4294967296"
    and run: "flush_aggregator D i sqs g w = ((r, sqs', g'), w')"
  shows "aggregating roots L i sqs0 g0 w0 N sqs' g' w'"
proof (cases "aggregatorInitialized g")
  case False
  with run A show ?thesis by (simp add: flush_aggregator_def)
next
  case True
  with A obtain ag where ag: "aggregatorHandle g = Some ag" by (auto simp: aggregating_def)
  obtain r1 ag1 where f: "EventAggregator_GetAggregatedEvents D ag i sqs w = (((r1, sqs'), ag1), w')"
    and g': "g' = g\<lparr>aggregatorHandle := Some ag1\<rparr>"
    using run True ag by (auto simp: flush_aggregator_def split: prod.splits)
  note R = aggregating_room [where n = 0, OF A _ room, simplified]
  have own: "items_owned roots (aggregatedEvents ag) w" using A ag by (simp add: aggregating_def)
  have i1: "i < length sqs" using i R(3) by simp
  have room1: "booked_bytes w + length (aggregatedEvents ag) * (L + 40) < 4294967296" using R(1) ag by simp
  from flushed [OF D R(2) i1 own room1 f] obtain new
    where new: "gained (\<lambda>h. roots h - set (map item_root (aggregatedEvents ag))) L (length (aggregatedEvents ag)) i sqs w new sqs' w'"
      and what: "ag1 = ag \<and> sqs' = sqs \<and> aside roots w w'
       \<or> aggregatedEvents ag1 = [] \<and> roots (docs w') = roots (docs w) - set (map item_root (aggregatedEvents ag))" by blast
  from what show ?thesis
  proof
    assume "ag1 = ag \<and> sqs' = sqs \<and> aside roots w w'"
    with aggregating_aside [OF A] ag g' show ?thesis by (simp add: aggregating_def)
  next
    assume empty: "aggregatedEvents ag1 = [] \<and> roots (docs w') = roots (docs w) - set (map item_root (aggregatedEvents ag))"
    obtain m new0 where m: "m + length (aggregatedEvents ag) \<le> N + length (held_items (aggregatorHandle g0))"
      and new0: "gained no_docs L m i sqs0 w0 new0 sqs w" using A ag by (auto simp: aggregating_def)
    have "gained no_docs L (m + length (aggregatedEvents ag)) i sqs0 w0 (new0 @ new) sqs' w'"
      by (rule gained_trans [OF new0 gained_over [OF new]]) simp
    with m empty A ag show ?thesis
      unfolding aggregating_def g' by (intro conjI exI [of _ "m + length (aggregatedEvents ag)"] exI [of _ "new0 @ new"])
        (auto simp: held_roots_def items_owned_def)
  qed
qed

lemma aggregating_more:
  assumes "aggregating roots L i sqs0 g0 w0 k sqs g w" and "k \<le> N"
  shows "aggregating roots L i sqs0 g0 w0 N sqs g w"
proof -
  obtain m new where "m + length (held_items (aggregatorHandle g)) \<le> k + length (held_items (aggregatorHandle g0))"
    "gained no_docs L m i sqs0 w0 new sqs w" using assms(1) by (auto simp: aggregating_def)
  with assms show ?thesis unfolding aggregating_def by (intro conjI exI [of _ m] exI [of _ new]) auto
qed

lemma asked_aggregating:
  fixes w :: "('h, 'a) queue_env_scheme"
  assumes "aggregating roots L i sqs0 g0 w0 k sqs g w" and "aggregation_asked g w = (b, w')"
  shows "aggregating roots L i sqs0 g0 w0 k sqs g w'" "b \<Longrightarrow> aggregatorHandle g \<noteq> None"
proof -
  have "aside roots w w' \<and> (b \<longrightarrow> aggregatorHandle g \<noteq> None)"
  proof (cases "aggregatorInitialized g")
    case False
    with assms(2) show ?thesis by (simp add: aggregation_asked_def)
  next
    case True
    with assms(1) obtain ag where ag: "aggregatorHandle g = Some ag" by (auto simp: aggregating_def)
    with assms(2) True aggregation_aside(1) [of roots w ag] show ?thesis
      by (simp add: aggregation_asked_def Let_def split_beta)
  qed
  then show "aggregating roots L i sqs0 g0 w0 k sqs g w'" "b \<Longrightarrow> aggregatorHandle g \<noteq> None"
    using aggregating_aside [OF assms(1)] by blast+
qed

text \<open>
  The contract of the two ways to handle an event, and what a whole run then does: \<open>N\<close> bounds the events of the
  log.
\<close>

definition adds_one_text ::
  "('h \<Rightarrow> 'v set) \<Rightarrow> nat \<Rightarrow> nat \<Rightarrow> ('s \<Rightarrow> SyncQueue list \<times> 'y \<Rightarrow> ('h, 'a) queue_env_scheme \<Rightarrow>
    (EventCollectorResult \<times> SyncQueue list \<times> 'y) \<times> ('h, 'a) queue_env_scheme) \<Rightarrow> bool" where
  "adds_one_text roots L i single \<longleftrightarrow>
     (\<forall>s sqs y w r sqs' y' w'. booked_bytes w + (L + 40) < 4294967296 \<longrightarrow> sync_queues_ok sqs w \<longrightarrow> i < length sqs \<longrightarrow>
        single s (sqs, y) w = ((r, sqs', y'), w') \<longrightarrow> (\<exists>new. gained roots L 1 i sqs w new sqs' w'))"

definition hands_over ::
  "('h \<Rightarrow> 'v set) \<Rightarrow> ('s \<Rightarrow> ('v, 'o) EventAggregator option \<times> 'y \<Rightarrow> ('h, 'a) queue_env_scheme \<Rightarrow>
    (EventCollectorResult \<times> ('v, 'o) EventAggregator option \<times> 'y) \<times> ('h, 'a) queue_env_scheme) \<Rightarrow> bool" where
  "hands_over roots aggregate \<longleftrightarrow>
     (\<forall>s h y w r h' y' w'. h \<noteq> None \<longrightarrow> items_owned roots (held_items h) w \<longrightarrow> aggregate s (h, y) w = ((r, h', y'), w') \<longrightarrow>
        handed roots h w h' w')"

lemma record_adds_one_text:
  fixes fill :: "('e, 'f) AuditSearch \<Rightarrow> ('v, 'o) JsonObjectWriter \<Rightarrow> 'y \<Rightarrow> ('h, 'a) queue_env_scheme \<Rightarrow> _"
  assumes D: "parson_lists D roots" "texts_within D L" and fill: "\<And>s obj y w. aside roots w (snd (fill s obj y w))"
  shows "adds_one_text roots L i (\<lambda>s. record_event D A t u nm ver (fill s) i s)"
  unfolding adds_one_text_def
proof (intro allI impI)
  fix s sqs y r sqs' y' and w w' :: "('h, 'a) queue_env_scheme"
  assume "booked_bytes w + (L + 40) < 4294967296" "sync_queues_ok sqs w" "i < length sqs"
    "record_event D A t u nm ver (fill s) i s (sqs, y) w = ((r, sqs', y'), w')"
  from record_event_gained [where P = "\<lambda>_. True" and fill = "fill s", OF D this(1-3) stable_True TrueI _ this(4)] fill
  show "\<exists>new. gained roots L 1 i sqs w new sqs' w'" by blast
qed

lemma record_hands_over:
  fixes fill :: "'s \<Rightarrow> ('v, 'o) JsonObjectWriter \<Rightarrow> 'y \<Rightarrow> ('h, 'a) queue_env_scheme \<Rightarrow> _"
  assumes D: "parson_lists D roots" "parson_contents D roots content" and fill: "\<And>s obj y w. aside roots w (snd (fill s obj y w))"
  shows "hands_over roots (\<lambda>s. aggregate_record D (fill s))"
  unfolding hands_over_def
proof (intro allI impI)
  fix s h y r h' y' and w w' :: "('h, 'a) queue_env_scheme"
  assume "h \<noteq> None" "items_owned roots (held_items h) w" "aggregate_record D (fill s) (h, y) w = ((r, h', y'), w')"
  from aggregate_record_handed [where fill = "fill s", OF D this(1,2) fill this(3)] show "handed roots h w h' w'" .
qed

lemma aggregated_run_keeps:
  fixes w :: "('h, 'a) linux_env_scheme"
  assumes D: "parson_lists D roots" "texts_within D L"
    and single: "adds_one_text roots L i single" and aggregate: "hands_over roots aggregate"
    and room: "booked_bytes w0 + (N + length (held_items (aggregatorHandle g0))) * (L + 40) < 4294967296" and i: "i < length sqs0"
    and s: "firstSearch s" "length (ahead (audit s)) \<le> N" and A: "aggregating roots L i sqs0 g0 w0 0 sqs g w"
    and run: "aggregated_run D A ends single aggregate i (sqs, g, y) s w = ((r, sqs', g', y'), w')"
  shows "aggregating roots L i sqs0 g0 w0 N sqs' g' w'"
proof -
  let ?I = "\<lambda>k (sqs, g, y) v. aggregating roots L i sqs0 g0 w0 k sqs g v"
  obtain n1 s1 w1 where n: "AuditSearch_GetNext A s w = ((n1, s1), w1)" by (metis prod.collapse)
  obtain b w2 where b: "aggregation_asked g w1 = (b, w2)" by fastforce
  let ?handle = "\<lambda>s (sqs, g, y) w.
      if b then let ((r, h, y1), w1) = aggregate s (aggregatorHandle g, y) w in ((r, sqs, g\<lparr>aggregatorHandle := h\<rparr>, y1), w1)
      else let ((r, sqs1, y1), w1) = single s (sqs, y) w in ((r, sqs1, g, y1), w1)"
  obtain x3 w3 where "audit_events_while A ?handle ends n1 s1 (sqs, g, y) w2 = (x3, w3)" by fastforce
  moreover obtain r3 sqs3 g3 y3 where "x3 = (r3, sqs3, g3, y3)" by (metis prod.collapse)
  ultimately have loop: "audit_events_while A ?handle ends n1 s1 (sqs, g, y) w2 = ((r3, sqs3, g3, y3), w3)" by simp
  have "ticked w w1" using ticked_found(2) [of w A s] n by simp
  from aggregating_aside [OF A clean_aside [OF ticked_clean [OF this]]] have A1: "aggregating roots L i sqs0 g0 w0 0 sqs g w1" .
  have start: "?I 0 (sqs, g, y) w2" and handle: "b \<Longrightarrow> aggregatorHandle g \<noteq> None" using asked_aggregating [OF A1 b] by simp_all
  let ?J = "\<lambda>k z v. ?I k z v \<and> (b \<longrightarrow> aggregatorHandle (fst (snd z)) \<noteq> None)"
  have step: "?J (Suc k) z' v'" if h: "?handle s z v = ((r, z'), v')" and k: "k < N" and J: "?J k z v"
    for k s z r z' and v v' :: "('h, 'a) linux_env_scheme"
  proof -
    obtain q g1 y1 where z: "z = (q, g1, y1)" by (metis prod.collapse)
    have G: "aggregating roots L i sqs0 g0 w0 k q g1 v" "b \<longrightarrow> aggregatorHandle g1 \<noteq> None" using J z by simp_all
    show ?thesis
    proof (cases b)
      case True
      obtain h1 y2 where a: "aggregate s (aggregatorHandle g1, y1) v = ((r, h1, y2), v')" and z': "z' = (q, g1\<lparr>aggregatorHandle := h1\<rparr>, y2)"
        using h True z by (auto split: prod.splits)
      have "items_owned roots (held_items (aggregatorHandle g1)) v" using G(1) by (simp add: aggregating_def)
      then have "handed roots (aggregatorHandle g1) v h1 v'" using aggregate a G(2) True unfolding hands_over_def by blast
      with aggregating_handed [OF G(1) this] show ?thesis by (simp add: z' handed_def)
    next
      case False
      obtain q1 y2 where a: "single s (q, y1) v = ((r, q1, y2), v')" and z': "z' = (q1, g1, y2)"
        using h False z by (auto split: prod.splits)
      have "k + 1 \<le> N" using k by simp
      note R = aggregating_room [OF G(1) this room]
      have "booked_bytes v + (L + 40) < 4294967296" using R(1) by simp
      moreover have "i < length q" using R(3) i by simp
      ultimately obtain new where "gained roots L 1 i q v new q1 v'"
        using single [unfolded adds_one_text_def, rule_format, OF _ R(2) _ a] by blast
      from aggregating_texts [OF G(1) this] show ?thesis using False by (simp add: z')
    qed
  qed
  have ticks: "?J k z v'" if "?J k z v" "ticked v v'" for k z and v v' :: "('h, 'a) linux_env_scheme"
    using that(1) aggregating_aside [OF _ clean_aside [OF ticked_clean [OF that(2)]]] by auto
  have fewer: "searches_left n1 s1 \<le> Suc N" using GetNext_fewer [OF n] s by (simp add: searches_left_def)
  have "0 < N" if "n1 = AUDIT_SEARCH_HAS_MORE_DATA"
  proof -
    have "ahead (audit s1) \<noteq> []" using GetNext_facts(3) [OF n that] by simp
    with fewer that show ?thesis by (cases "ahead (audit s1)") (auto simp: searches_left_def split: if_splits)
  qed
  then have "\<exists>m \<le> max 0 N. ?J m (sqs3, g3, y3) w3"
    using fewer start handle by (intro audit_loop_keeps [where I = ?J, OF step ticks _ _ _ loop]) simp_all
  then obtain m where m: "m \<le> N" "aggregating roots L i sqs0 g0 w0 m sqs3 g3 w3" by auto
  have A3: "aggregating roots L i sqs0 g0 w0 N sqs3 g3 w3"
    by (rule aggregating_more [OF m(2,1)])
  show ?thesis
  proof (cases "r3 = EVENT_COLLECTOR_OK")
    case False
    with run n b loop A3 show ?thesis by (simp add: aggregated_run_def)
  next
    case True
    obtain r4 where "flush_aggregator D i sqs3 g3 w3 = ((r4, sqs', g'), w')"
      using run n b loop True by (auto simp: aggregated_run_def split: prod.splits)
    from flush_aggregating [OF D A3 i room this] show ?thesis .
  qed
qed

text \<open>The whole run, behind its search.\<close>

lemma aggregated_search_keeps:
  fixes w :: "('h, 'a) linux_env_scheme"
  assumes D: "parson_lists D roots" "texts_within D L" and N: "log_bounded A N"
    and single: "adds_one_text roots L i (single :: ('e, 'f) AuditSearch \<Rightarrow> SyncQueue list \<times> 'y \<Rightarrow> ('h, 'a) linux_env_scheme \<Rightarrow> _)"
    and aggregate: "hands_over roots aggregate"
    and room: "booked_bytes w + (N + length (held_items (aggregatorHandle g))) * (L + 40) < 4294967296" and i: "i < length sqs"
    and ok: "sync_queues_ok sqs w" and g: "aggregatorInitialized g \<longrightarrow> aggregatorHandle g \<noteq> None"
    and own: "items_owned roots (held_items (aggregatorHandle g)) w"
    and run: "with_search A c ms path (sqs, g, y) (aggregated_run D A ends single aggregate i (sqs, g, y)) w = ((r, sqs', g', y'), w')"
  shows "aggregating roots L i sqs g w N sqs' g' w'"
proof -
  let ?J = "\<lambda>(sqs', g', y') v. aggregating roots L i sqs g w N sqs' g' v"
  have start: "aggregating roots L i sqs g w 0 sqs g v" if "beside roots w v" for v
    using aggregating_aside [OF aggregating_start [where roots = roots and L = L and i = i, OF g own ok]] that by (simp add: beside_def)
  have "?J (sqs', g', y') w'"
  proof (rule with_search_keeps [where I = "beside roots w" and roots = roots and J = ?J, OF run])
    fix s n v q z v'
    assume s: "ahead (audit s) = audit_log A n" "firstSearch s" and v: "beside roots w v"
      and b: "aggregated_run D A ends single aggregate i (sqs, g, y) s v = ((q, z), v')"
    obtain q1 g1 y1 where z: "z = (q1, g1, y1)" by (metis prod.collapse)
    have "length (ahead (audit s)) \<le> N" using N s(1) by (simp add: log_bounded_def)
    from aggregated_run_keeps [OF D single aggregate room i s(2) this start [OF v] b [unfolded z]] show "?J z v'" by (simp add: z)
  next
    fix v assume "beside roots w v"
    from aggregating_more [OF start [OF this]] show "?J (sqs, g, y) v" by simp
  next
    fix z v v' assume "?J z v" "beside roots v v'"
    then show "?J z v'" by (cases z) (auto simp: beside_def intro: aggregating_aside)
  qed
  then show ?thesis by simp
qed

text \<open>A store that prints every document alike: all contents are the same.\<close>

definition plain_doc :: "(nat, nat, nat, text_store) parson_doc" where
  "plain_doc = text_doc\<lparr>doc_equals := (\<lambda>_ _ _. True)\<rparr>"

lemma plain_doc_laws:
  "parson_lists plain_doc text_roots" "texts_within plain_doc 2" "parson_contents plain_doc text_roots (\<lambda>_ _. ())"
proof -
  have "parson_ownership plain_doc text_roots" "parson_arrays plain_doc text_roots id (\<lambda>h. fst (snd h)) (\<lambda>h. snd (snd h))"
    using fresh_root by (auto simp: parson_ownership_def parson_arrays_def plain_doc_def text_doc_def Let_def split_beta)
  then show "parson_lists plain_doc text_roots" unfolding parson_lists_def by blast
  show "texts_within plain_doc 2" using text_doc_lists by (simp add: texts_within_def plain_doc_def)
  show "parson_contents plain_doc text_roots (\<lambda>_ _. ())" by (simp add: parson_contents_def plain_doc_def)
qed

definition ready_aggregator :: "(nat, nat) static_aggregator" where
  "ready_aggregator = \<lparr>aggregatorHandle = Some empty_aggregator, aggregatorInitialized = True\<rparr>"

lemma ready_aggregator_owns: "items_owned roots (held_items (aggregatorHandle ready_aggregator)) w"
  by (simp add: ready_aggregator_def empty_aggregator_def items_owned_def)

end
