(* ===== verification/Connection_Create_Collector.thy ===== *)
theory Connection_Create_Collector
  imports Socket_Address Aggregated_Records
begin

text \<open>
  Connections that were made or accepted, \<^verbatim>\<open>src/agent/src/collectors/linux/connection_create_collector.c\<close>.  The
  static aggregator is handed in and returned.
\<close>

datatype ConnectionDirection = CONNECTION_DIRECTION_OUTBOUND | CONNECTION_DIRECTION_INBOUND

definition SUPPORTED_PROTOCOL_TCP :: string where "SUPPORTED_PROTOCOL_TCP = ''tcp''"
definition AUDIT_CONNECTION_CREATION_SYSCALL_CONNECT :: string where "AUDIT_CONNECTION_CREATION_SYSCALL_CONNECT = ''connect''"
definition AUDIT_CONNECTION_CREATION_SYSCALL_ACCEPT :: string where "AUDIT_CONNECTION_CREATION_SYSCALL_ACCEPT = ''accept''"
definition AUDIT_CONNECTION_CREATION_SYSCALLS :: "string list" where
  "AUDIT_CONNECTION_CREATION_SYSCALLS = [AUDIT_CONNECTION_CREATION_SYSCALL_CONNECT, AUDIT_CONNECTION_CREATION_SYSCALL_ACCEPT]"
definition AUDIT_CONNECTION_CREATION_CHECKPOINT_FILE :: string where
  "AUDIT_CONNECTION_CREATION_CHECKPOINT_FILE = ''/var/tmp/connectionCreationCheckpoint''"
definition AUDIT_CONNECTION_CREATION_EXECUTABLE :: string where "AUDIT_CONNECTION_CREATION_EXECUTABLE = ''exe''"
definition AUDIT_CONNECTION_CREATION_CMD :: string where "AUDIT_CONNECTION_CREATION_CMD = ''proctitle''"
definition AUDIT_CONNECTION_CREATION_PROCESS_ID :: string where "AUDIT_CONNECTION_CREATION_PROCESS_ID = ''pid''"
definition AUDIT_CONNECTION_CREATION_USER_ID :: string where "AUDIT_CONNECTION_CREATION_USER_ID = ''uid''"
definition AUDIT_CONNECTION_CREATION_SYSCALL :: string where "AUDIT_CONNECTION_CREATION_SYSCALL = ''syscall''"
definition CONNECTION_CREATION_NAME :: string where "CONNECTION_CREATION_NAME = ''ConnectionCreate''"
definition CONNECTION_CREATION_PAYLOAD_SCHEMA_VERSION :: string where "CONNECTION_CREATION_PAYLOAD_SCHEMA_VERSION = ''1.0''"
definition CONNECTION_CREATION_EXECUTABLE_KEY :: string where "CONNECTION_CREATION_EXECUTABLE_KEY = ''Executable''"
definition CONNECTION_CREATION_COMMAND_LINE_KEY :: string where "CONNECTION_CREATION_COMMAND_LINE_KEY = ''CommandLine''"
definition CONNECTION_CREATION_PROCESS_ID_KEY :: string where "CONNECTION_CREATION_PROCESS_ID_KEY = ''ProcessId''"
definition CONNECTION_CREATION_USER_ID_KEY :: string where "CONNECTION_CREATION_USER_ID_KEY = ''UserId''"
definition CONNECTION_CREATION_PROTOCOL_KEY :: string where "CONNECTION_CREATION_PROTOCOL_KEY = ''Protocol''"
definition CONNECTION_CREATION_REMOTE_ADDRESS_KEY :: string where "CONNECTION_CREATION_REMOTE_ADDRESS_KEY = ''RemoteAddress''"
definition CONNECTION_CREATION_REMOTE_PORT_KEY :: string where "CONNECTION_CREATION_REMOTE_PORT_KEY = ''RemotePort''"
definition CONNECTION_CREATION_DIRECTION_KEY :: string where "CONNECTION_CREATION_DIRECTION_KEY = ''Direction''"
definition CONNECTION_CREATION_DIRECTION_INBOUND_NAME :: string where "CONNECTION_CREATION_DIRECTION_INBOUND_NAME = ''In''"
definition CONNECTION_CREATION_DIRECTION_OUTBOUND_NAME :: string where "CONNECTION_CREATION_DIRECTION_OUTBOUND_NAME = ''Out''"

section \<open>The payload\<close>

definition ConnectionCreationCollector_GetDirection ::
  "('e, 'f) auparse \<Rightarrow> ('e, 'f) AuditSearch \<Rightarrow> 'a env_scheme \<Rightarrow>
    ((EventCollectorResult \<times> ConnectionDirection option) \<times> ('e, 'f) AuditSearch) \<times> 'a env_scheme" where
  "ConnectionCreationCollector_GetDirection A s w =
     (case AuditSearch_InterpretString A s AUDIT_CONNECTION_CREATION_SYSCALL w of
        (((AUDIT_SEARCH_OK, Some syscallName), s1), w1) \<Rightarrow>
          ((if syscallName = AUDIT_CONNECTION_CREATION_SYSCALL_CONNECT then (EVENT_COLLECTOR_OK, Some CONNECTION_DIRECTION_OUTBOUND)
            else if syscallName = AUDIT_CONNECTION_CREATION_SYSCALL_ACCEPT then (EVENT_COLLECTOR_OK, Some CONNECTION_DIRECTION_INBOUND)
            else (EVENT_COLLECTOR_EXCEPTION, None), s1), w1)
      | ((_, s1), w1) \<Rightarrow> (((EVENT_COLLECTOR_EXCEPTION, None), s1), w1))"

text \<open>A text that cannot be written is an error of the record here, not of the collector.\<close>

definition write_or_record_error ::
  "('v, 'o, 'r, 'h) parson_doc \<Rightarrow> ('v, 'o) JsonObjectWriter \<Rightarrow> string \<Rightarrow> string \<Rightarrow> ('h, 'a) docs_env_scheme \<Rightarrow>
    EventCollectorResult \<times> ('h, 'a) docs_env_scheme" where
  "write_or_record_error D payload key v w =
     (let (r, w1) = JsonObjectWriter_WriteString D payload key v w
      in (if r \<noteq> JSON_WRITER_OK then EVENT_COLLECTOR_RECORD_HAS_ERRORS else EVENT_COLLECTOR_OK, w1))"

text \<open>The steps behind the direction and the remote side.\<close>

definition connection_steps ::
  "('v, 'o, 'r, 'h) parson_doc \<Rightarrow> ('e, 'f) auparse \<Rightarrow> ('v, 'o) JsonObjectWriter \<Rightarrow> ConnectionDirection \<Rightarrow> string \<Rightarrow> string \<Rightarrow>
    (('e, 'f) AuditSearch \<times> ('h, 'a) docs_env_scheme \<Rightarrow> EventCollectorResult \<times> (('e, 'f) AuditSearch \<times> ('h, 'a) docs_env_scheme)) list" where
  "connection_steps D A payload direction remoteAddress remotePort =
     [beside_search (json_step (JsonObjectWriter_WriteString D payload CONNECTION_CREATION_PROTOCOL_KEY SUPPORTED_PROTOCOL_TCP)),
      beside_search (write_or_record_error D payload CONNECTION_CREATION_DIRECTION_KEY
        (if direction = CONNECTION_DIRECTION_OUTBOUND then CONNECTION_CREATION_DIRECTION_OUTBOUND_NAME
         else CONNECTION_CREATION_DIRECTION_INBOUND_NAME)),
      beside_search (write_or_record_error D payload CONNECTION_CREATION_REMOTE_ADDRESS_KEY remoteAddress),
      beside_search (write_or_record_error D payload CONNECTION_CREATION_REMOTE_PORT_KEY remotePort),
      GenericAuditEvent_HandleInterpretStringValue D A payload AUDIT_CONNECTION_CREATION_EXECUTABLE CONNECTION_CREATION_EXECUTABLE_KEY False,
      GenericAuditEvent_HandleInterpretStringValue D A payload AUDIT_CONNECTION_CREATION_CMD CONNECTION_CREATION_COMMAND_LINE_KEY False,
      GenericAuditEvent_HandleIntValue D A payload AUDIT_CONNECTION_CREATION_PROCESS_ID CONNECTION_CREATION_PROCESS_ID_KEY False,
      GenericAuditEvent_HandleStringValue D A payload AUDIT_CONNECTION_CREATION_USER_ID CONNECTION_CREATION_USER_ID_KEY False]"

definition ConnectionCreateEventCollector_GeneratePayload ::
  "('v, 'o, 'r, 'h) parson_doc \<Rightarrow> ('e, 'f) auparse \<Rightarrow> ('v, 'o) JsonObjectWriter \<Rightarrow>
    ('e, 'f) AuditSearch \<times> ('h, 'a) docs_env_scheme \<Rightarrow> EventCollectorResult \<times> (('e, 'f) AuditSearch \<times> ('h, 'a) docs_env_scheme)" where
  "ConnectionCreateEventCollector_GeneratePayload D A payload = (\<lambda>(s, w).
     case ConnectionCreationCollector_GetDirection A s w of
       (((EVENT_COLLECTOR_OK, Some direction), s1), w1) \<Rightarrow>
         (case ConnectionCreateEventCollector_GetRemoteInformation A s1 AUDIT_CONNECTION_CREATION_MAX_BUFF AUDIT_CONNECTION_CREATION_MAX_BUFF w1 of
            (((EVENT_COLLECTOR_OK, Some (remoteAddress, remotePort)), s2), w2) \<Rightarrow>
              event_steps (connection_steps D A payload direction remoteAddress remotePort) (s2, w2)
          | (((result, _), s2), w2) \<Rightarrow> (result, (s2, w2)))
     | ((_, s1), w1) \<Rightarrow> (EVENT_COLLECTOR_EXCEPTION, (s1, w1)))"

text \<open>For the aggregator the process is left out, and of incoming connections the port.\<close>

definition aggregable_payload ::
  "('v, 'o, 'r, 'h) parson_doc \<Rightarrow> ('e, 'f) auparse \<Rightarrow> ('v, 'o) JsonObjectWriter \<Rightarrow>
    ('e, 'f) AuditSearch \<times> ('h, 'a) docs_env_scheme \<Rightarrow> EventCollectorResult \<times> (('e, 'f) AuditSearch \<times> ('h, 'a) docs_env_scheme)" where
  "aggregable_payload D A payload =
     event_steps
       [ConnectionCreateEventCollector_GeneratePayload D A payload,
        beside_search (json_step (JsonObjectWriter_WriteInt D payload CONNECTION_CREATION_PROCESS_ID_KEY 0)),
        (\<lambda>(s, w). case ConnectionCreationCollector_GetDirection A s w of
           (((EVENT_COLLECTOR_OK, Some direction), s1), w1) \<Rightarrow>
             if direction = CONNECTION_DIRECTION_INBOUND
             then beside_search (json_step (JsonObjectWriter_WriteInt D payload CONNECTION_CREATION_REMOTE_PORT_KEY 0)) (s1, w1)
             else (EVENT_COLLECTOR_OK, (s1, w1))
         | ((_, s1), w1) \<Rightarrow> (EVENT_COLLECTOR_RECORD_HAS_ERRORS, (s1, w1)))]"

definition ConnectionCreationCollector_CreateEventForAggregation ::
  "('v, 'o, 'r, 'h) parson_doc \<Rightarrow> ('e, 'f) auparse \<Rightarrow> ('e, 'f) AuditSearch \<Rightarrow> ('v, 'o) EventAggregator option \<times> unit \<Rightarrow>
    ('h, 'a) collectors_env_scheme \<Rightarrow> (EventCollectorResult \<times> ('v, 'o) EventAggregator option \<times> unit) \<times> ('h, 'a) collectors_env_scheme" where
  "ConnectionCreationCollector_CreateEventForAggregation D A s =
     aggregate_record D (\<lambda>payload y w. let (r, (_, w1)) = aggregable_payload D A payload (s, w) in ((r, y), w1))"

section \<open>The events of a run\<close>

text \<open>An event that cannot be printed is dropped without an error.\<close>

definition ConnectionCreateEventCollector_CreateSingleEvent ::
  "('v, 'o, 'r, 'h) parson_doc \<Rightarrow> ('e, 'f) auparse \<Rightarrow> nat \<Rightarrow> ('e, 'f) AuditSearch \<Rightarrow> SyncQueue list \<times> unit \<Rightarrow> ('h, 'a) queue_env_scheme \<Rightarrow>
    (EventCollectorResult \<times> SyncQueue list \<times> unit) \<times> ('h, 'a) queue_env_scheme" where
  "ConnectionCreateEventCollector_CreateSingleEvent D A queue s =
     record_event D A EVENT_COLLECTOR_EXCEPTION EVENT_COLLECTOR_OK CONNECTION_CREATION_NAME CONNECTION_CREATION_PAYLOAD_SCHEMA_VERSION
       (\<lambda>payload y w. let (r, (_, w1)) = ConnectionCreateEventCollector_GeneratePayload D A payload (s, w) in ((r, y), w1)) queue s"

definition ConnectionCreateEventCollector_GetEvents ::
  "('v, 'o, 'r, 'h) parson_doc \<Rightarrow> ('e, 'f) auparse \<Rightarrow> nat \<Rightarrow> SyncQueue list \<times> ('v, 'o) static_aggregator \<Rightarrow> ('h, 'a) linux_env_scheme \<Rightarrow>
    (EventCollectorResult \<times> SyncQueue list \<times> ('v, 'o) static_aggregator) \<times> ('h, 'a) linux_env_scheme" where
  "ConnectionCreateEventCollector_GetEvents D A queue = (\<lambda>(sqs, g) w.
     let ((r, sqs1, g1, _), w1) =
       with_search A AUDIT_SEARCH_CRITERIA_SYSCALL AUDIT_CONNECTION_CREATION_SYSCALLS AUDIT_CONNECTION_CREATION_CHECKPOINT_FILE (sqs, g, ())
         (aggregated_run D A (\<lambda>result. result = EVENT_COLLECTOR_EXCEPTION) (ConnectionCreateEventCollector_CreateSingleEvent D A queue)
            (ConnectionCreationCollector_CreateEventForAggregation D A) queue (sqs, g, ())) w
     in ((r, sqs1, g1), w1))"

definition ConnectionCreateEventCollector_Init ::
  "('v, 'o) static_aggregator \<Rightarrow> ('h, 'a) linux_env_scheme \<Rightarrow>
    (EventCollectorResult \<times> ('v, 'o) static_aggregator) \<times> ('h, 'a) linux_env_scheme" where
  "ConnectionCreateEventCollector_Init g =
     with_audit_rule [AUDIT_CONTROL_TYPE_CONNECT, AUDIT_CONTROL_TYPE_ACCEPT] (Some AUDIT_CONTROL_ON_SUCCESS_FILTER) g
       (\<lambda>w. let (g1, w1) = init_aggregator \<lparr>cfgEventType = EVENT_TYPE_CONNECTION_CREATE, cfg_event_type = Some EVENT_TYPE_SECURITY_VALUE,
               cfg_event_name = Some CONNECTION_CREATION_NAME,
               cfg_payload_schema_version = Some CONNECTION_CREATION_PAYLOAD_SCHEMA_VERSION\<rparr> w
          in ((EVENT_COLLECTOR_OK, g1), w1))"

definition ConnectionCreateEventCollector_Deinit ::
  "('v, 'o, 'r, 'h) parson_doc \<Rightarrow> ('v, 'o) static_aggregator \<Rightarrow> ('h, 'a) docs_env_scheme \<Rightarrow>
    ('v, 'o) static_aggregator \<times> ('h, 'a) docs_env_scheme" where
  "ConnectionCreateEventCollector_Deinit = deinit_aggregator"

section \<open>What a run may do\<close>

lemma ticked_remote:
  "ticked w (snd (ConnectionCreateEventCollector_GetRemoteInformation A s n m w))"
  "ticked w (snd (ConnectionCreationCollector_GetDirection A s w))"
  using ticked_reading(5) [of w A s AUDIT_CONNECTION_CREATION_REMOTE_SOCKET_ADDRESS] ticked_reading(6) [of w A s AUDIT_CONNECTION_CREATION_SYSCALL]
  by (auto simp: ConnectionCreateEventCollector_GetRemoteInformation_def ConnectionCreationCollector_GetDirection_def
      split: prod.split AuditSearchResultValues.split option.split)

lemma clean_connection_steps:
  fixes w :: "('h, 'a) docs_env_scheme"
  assumes "parson_lists D roots"
  shows "clean roots w (snd (snd (event_steps (connection_steps D A payload direction address port) (s, w))))"
proof (rule clean_pair_steps)
  fix f :: "('e, 'f) AuditSearch \<times> ('h, 'a) docs_env_scheme \<Rightarrow> EventCollectorResult \<times> (('e, 'f) AuditSearch \<times> ('h, 'a) docs_env_scheme)"
    and s and w :: "('h, 'a) docs_env_scheme"
  assume f: "f \<in> set (connection_steps D A payload direction address port)"
  have "clean roots w (snd (write_or_record_error D payload k x w))" for k x
    using clean_writes(1) [OF assms, of w payload k x] by (simp add: write_or_record_error_def json_step_def Let_def split_beta)
  with f clean_handles [OF assms] clean_writes(1) [OF assms] show "clean roots w (snd (snd (f (s, w))))"
    by (auto simp: connection_steps_def intro!: clean_beside_search)
qed

lemma clean_connection_payload:
  fixes w :: "('h, 'a) docs_env_scheme"
  assumes "parson_lists D roots"
  shows "clean roots w (snd (snd (ConnectionCreateEventCollector_GeneratePayload D A payload (s, w))))"
proof -
  obtain x1 s1 w1 where 1: "ConnectionCreationCollector_GetDirection A s w = ((x1, s1), w1)" by (metis prod.collapse)
  obtain x2 s2 w2 where 2: "ConnectionCreateEventCollector_GetRemoteInformation A s1 AUDIT_CONNECTION_CREATION_MAX_BUFF
      AUDIT_CONNECTION_CREATION_MAX_BUFF w1 = ((x2, s2), w2)" by (metis prod.collapse)
  have c1: "clean roots w w1" using ticked_clean [OF ticked_remote(2) [of w A s]] 1 by simp
  have c2: "clean roots w w2"
    using clean_trans [OF c1 ticked_clean [OF ticked_remote(1) [of w1 A s1]]] 2 by (metis snd_conv)
  have "clean roots w (snd (snd (event_steps (connection_steps D A payload d a p) (s2, w2))))" for d a p
    by (rule clean_trans [OF c2 clean_connection_steps [OF assms]])
  with c1 c2 show ?thesis
    by (auto simp: ConnectionCreateEventCollector_GeneratePayload_def 1 2 split: prod.split EventCollectorResult.split option.split)
qed

lemma clean_aggregable:
  fixes w :: "('h, 'a) docs_env_scheme"
  assumes "parson_lists D roots"
  shows "clean roots w (snd (snd (aggregable_payload D A payload (s, w))))"
  unfolding aggregable_payload_def
proof (rule clean_pair_steps)
  fix f :: "('e, 'f) AuditSearch \<times> ('h, 'a) docs_env_scheme \<Rightarrow> EventCollectorResult \<times> (('e, 'f) AuditSearch \<times> ('h, 'a) docs_env_scheme)"
    and s and w :: "('h, 'a) docs_env_scheme"
  obtain x1 s1 w1 where 1: "ConnectionCreationCollector_GetDirection A s w = ((x1, s1), w1)" by (metis prod.collapse)
  have c1: "clean roots w w1" using ticked_clean [OF ticked_remote(2) [of w A s]] 1 by simp
  have put: "clean roots v (snd (snd (beside_search (json_step (JsonObjectWriter_WriteInt D payload k x)) (s, v))))"
    for k x s and v :: "('h, 'a) docs_env_scheme"
    by (rule clean_beside_search) (rule clean_writes(2) [OF assms])
  assume "f \<in> set [ConnectionCreateEventCollector_GeneratePayload D A payload,
        beside_search (json_step (JsonObjectWriter_WriteInt D payload CONNECTION_CREATION_PROCESS_ID_KEY 0)),
        (\<lambda>(s, w). case ConnectionCreationCollector_GetDirection A s w of
           (((EVENT_COLLECTOR_OK, Some direction), s1), w1) \<Rightarrow>
             if direction = CONNECTION_DIRECTION_INBOUND
             then beside_search (json_step (JsonObjectWriter_WriteInt D payload CONNECTION_CREATION_REMOTE_PORT_KEY 0)) (s1, w1)
             else (EVENT_COLLECTOR_OK, (s1, w1))
         | ((_, s1), w1) \<Rightarrow> (EVENT_COLLECTOR_RECORD_HAS_ERRORS, (s1, w1)))]"
  then show "clean roots w (snd (snd (f (s, w))))"
    using clean_connection_payload [OF assms] put c1 clean_trans [OF c1 put]
    by (auto simp: 1 split: prod.split EventCollectorResult.split option.split)
qed

lemma connection_handlers:
  assumes D: "parson_lists D roots" "texts_within D L" "parson_contents D roots content"
  shows "adds_one_text roots L i (ConnectionCreateEventCollector_CreateSingleEvent D A i :: _ \<Rightarrow> _ \<Rightarrow> ('h, 'a) queue_env_scheme \<Rightarrow> _)"
    "hands_over roots (ConnectionCreationCollector_CreateEventForAggregation D A :: _ \<Rightarrow> _ \<Rightarrow> ('h, 'a) queue_env_scheme \<Rightarrow> _)"
proof -
  show "adds_one_text roots L i (ConnectionCreateEventCollector_CreateSingleEvent D A i :: _ \<Rightarrow> _ \<Rightarrow> ('h, 'a) queue_env_scheme \<Rightarrow> _)"
    unfolding ConnectionCreateEventCollector_CreateSingleEvent_def
    by (rule record_adds_one_text [OF D(1,2)])
      (simp add: Let_def split_beta clean_aside [OF clean_connection_payload [OF D(1)]])
  show "hands_over roots (ConnectionCreationCollector_CreateEventForAggregation D A :: _ \<Rightarrow> _ \<Rightarrow> ('h, 'a) queue_env_scheme \<Rightarrow> _)"
    unfolding ConnectionCreationCollector_CreateEventForAggregation_def
    by (rule record_hands_over [OF D(1,3)]) (simp add: Let_def split_beta clean_aside [OF clean_aggregable [OF D(1)]])
qed

text \<open>
  C18: A run over the connections adds at most one text for each event of the log and each item the aggregator held, at
  the end of its queue; the aggregator still owns the documents of its items, and every other document made on
  the way is released, on every path.
\<close>

theorem connections_are_collected:
  fixes w :: "('h, 'a) linux_env_scheme"
  assumes "parson_lists D roots" and "parson_contents D roots content" and "texts_within D L" and "log_bounded A N"
    and "booked_bytes w + (N + length (held_items (aggregatorHandle g))) * (L + 40) < 4294967296"
    and "sync_queues_ok sqs w" and "i < length sqs"
    and "aggregatorInitialized g \<longrightarrow> aggregatorHandle g \<noteq> None" and "items_owned roots (held_items (aggregatorHandle g)) w"
    and "ConnectionCreateEventCollector_GetEvents D A i (sqs, g) w = ((r, sqs', g'), w')"
  shows "aggregating roots L i sqs g w N sqs' g' w'"
proof -
  obtain y where run: "with_search A AUDIT_SEARCH_CRITERIA_SYSCALL AUDIT_CONNECTION_CREATION_SYSCALLS
      AUDIT_CONNECTION_CREATION_CHECKPOINT_FILE (sqs, g, ())
         (aggregated_run D A (\<lambda>result. result = EVENT_COLLECTOR_EXCEPTION) (ConnectionCreateEventCollector_CreateSingleEvent D A i)
            (ConnectionCreationCollector_CreateEventForAggregation D A) i (sqs, g, ())) w = ((r, sqs', g', y), w')"
    using assms(10) by (auto simp: ConnectionCreateEventCollector_GetEvents_def split: prod.splits)
  show ?thesis
    by (rule aggregated_search_keeps [OF assms(1,3,4) connection_handlers [OF assms(1,3,2)] assms(5,7,6,8,9) run])
qed

definition one_connection :: "sample_event list" where
  "one_connection = [(7, ''SYSCALL'', [(''syscall'', ''connect''), (''saddr'', ''02000050C0A80001''), (''exe'', ''/usr/bin/curl''),
     (''proctitle'', ''curl''), (''pid'', ''42''), (''uid'', ''0'')])]"

lemma connections_are_collected_witness:
  "\<exists>r sqs' g' w'. ConnectionCreateEventCollector_GetEvents plain_doc (sample_audit one_connection) 1
       ([new_sync 0, new_sync 1], ready_aggregator) (calm_linux_with calm_store) = ((r, sqs', g'), w')
     \<and> aggregating text_roots 2 1 [new_sync 0, new_sync 1] ready_aggregator (calm_linux_with calm_store) 1 sqs' g' w'"
proof -
  obtain r sqs' g' w' where run: "ConnectionCreateEventCollector_GetEvents plain_doc (sample_audit one_connection) 1
       ([new_sync 0, new_sync 1], ready_aggregator) (calm_linux_with calm_store) = ((r, sqs', g'), w')" by (metis prod.collapse)
  have "log_bounded (sample_audit one_connection) 1" by (simp add: log_bounded_def sample_audit_def one_connection_def)
  from connections_are_collected [OF plain_doc_laws(1,3,2) this _ calm_linux_queues(1) _ _ ready_aggregator_owns run] run
  show ?thesis by (auto simp: ready_aggregator_def empty_aggregator_def)
qed

section \<open>An aggregator that could not be made\<close>

lemma faulty_ticks: "ticked w w' \<Longrightarrow> fault w' = fault w"
  by (auto simp: ticked_def)


definition short_memory :: "text_store linux_env" where
  "short_memory = (calm_linux_with calm_store)\<lparr>allocOk := (\<lambda>n. n < 10)\<rparr>"

lemma aggregator_not_made:
  "\<exists>w1. ConnectionCreateEventCollector_Init g0 short_memory
    = ((EVENT_COLLECTOR_OK, \<lparr>aggregatorHandle = None, aggregatorInitialized = True\<rparr>), w1)"
  by (simp add: short_memory_def ConnectionCreateEventCollector_Init_def with_audit_rule_def AuditControl_Init_def
      ProcessInfoHandler_ChangeToRoot_def seteuid_def sys_defs Let_def sys_text_def open_control_def getCpuArchitectureFilter_def
      uname_def Utils_StringFormat_def AuditControl_AddRule_def Utils_CreateStringCopy_def Utils_DuplicateString_def
      init_aggregator_def EventAggregator_Init_def calm_linux_defs)


end
