(* ===== verification/Sdk_Map.thy ===== *)
theory Sdk_Map
  imports Agent_Utils
begin

text \<open>
  The maps of the SDK's utility library (\<^verbatim>\<open>azure_c_shared_utility/map.h\<close>), which are an argument, and
  \<open>Utils_GetMapSize\<close> of \<^verbatim>\<open>src/agent/src/utils.c\<close>.  Every call that allocates may fail, as the environment answers.
\<close>

text \<open>A map from texts to texts; \<open>kv_put\<close> adds or replaces.\<close>

record 'm sdk_map =
  kv_empty :: 'm
  kv_put :: "string \<Rightarrow> string \<Rightarrow> 'm \<Rightarrow> 'm"
  kv_get :: "'m \<Rightarrow> string \<Rightarrow> string option"
  kv_count :: "'m \<Rightarrow> nat"

datatype MAP_RESULT = MAP_OK | MAP_ERROR | MAP_INVALIDARG | MAP_KEYEXISTS

definition Map_Create :: "'m sdk_map \<Rightarrow> 'a env_scheme \<Rightarrow> 'm option \<times> 'a env_scheme" where
  "Map_Create M w = (let (ok, w1) = sys_malloc w in (if ok then Some (kv_empty M) else None, w1))"

text \<open>No map, or no key, is an invalid argument.\<close>

definition Map_AddOrUpdate ::
  "'m sdk_map \<Rightarrow> 'm option \<Rightarrow> string option \<Rightarrow> string \<Rightarrow> 'a env_scheme \<Rightarrow> (MAP_RESULT \<times> 'm option) \<times> 'a env_scheme" where
  "Map_AddOrUpdate M h key v w =
     (case (h, key) of
        (Some m, Some k) \<Rightarrow> (let (ok, w1) = sys_malloc w in (if ok then (MAP_OK, Some (kv_put M k v m)) else (MAP_ERROR, h), w1))
      | _ \<Rightarrow> ((MAP_INVALIDARG, h), w))"

definition Map_Add ::
  "'m sdk_map \<Rightarrow> 'm option \<Rightarrow> string option \<Rightarrow> string \<Rightarrow> 'a env_scheme \<Rightarrow> (MAP_RESULT \<times> 'm option) \<times> 'a env_scheme" where
  "Map_Add M h key v w =
     (case (h, key) of
        (Some m, Some k) \<Rightarrow> if kv_get M m k \<noteq> None then ((MAP_KEYEXISTS, h), w) else Map_AddOrUpdate M h key v w
      | _ \<Rightarrow> ((MAP_INVALIDARG, h), w))"

definition Map_GetValueFromKey :: "'m sdk_map \<Rightarrow> 'm option \<Rightarrow> string \<Rightarrow> string option" where
  "Map_GetValueFromKey M h key = (case h of None \<Rightarrow> None | Some m \<Rightarrow> kv_get M m key)"

definition Utils_GetMapSize :: "'m sdk_map \<Rightarrow> 'm option \<Rightarrow> 'a env_scheme \<Rightarrow> nat option \<times> 'a env_scheme" where
  "Utils_GetMapSize M h w =
     (case h of None \<Rightarrow> (None, w) | Some m \<Rightarrow> (let (ok, w1) = sys_ext w in (if ok then Some (kv_count M m) else None, w1)))"

text \<open>A map as a partial function, with the number of its keys.\<close>

definition sample_map :: "((string \<times> string) list) sdk_map" where
  "sample_map = \<lparr>kv_empty = [], kv_put = (\<lambda>k v m. (k, v) # filter (\<lambda>x. fst x \<noteq> k) m), kv_get = map_of, kv_count = length\<rparr>"

end
