(* ===== verification/Process_Creation_Collector.thy ===== *)
theory Process_Creation_Collector
  imports Aggregated_Records Sdk_Map
begin

text \<open>
  Processes that were started, \<^verbatim>\<open>src/agent/src/collectors/linux/process_creation_collector.c\<close>.  The static
  aggregator and the static map of the hashes are handed in and returned.
\<close>

definition AUDIT_PROCESS_CREATION_TYPE :: string where "AUDIT_PROCESS_CREATION_TYPE = ''EXECVE''"
definition AUDIT_PROCESS_INTEGRITY_TYPE :: string where "AUDIT_PROCESS_INTEGRITY_TYPE = ''INTEGRITY_RULE''"
definition AUDIT_PROCESS_CREATION_TYPES :: "string list" where
  "AUDIT_PROCESS_CREATION_TYPES = [AUDIT_PROCESS_CREATION_TYPE, AUDIT_PROCESS_INTEGRITY_TYPE]"
definition AUDIT_PROCESS_CREATION_CHECKPOINT_FILE :: string where
  "AUDIT_PROCESS_CREATION_CHECKPOINT_FILE = ''/var/tmp/processCreationCheckpoint''"
definition AUDIT_PROCESS_CREATION_EXECUTEABLE :: string where "AUDIT_PROCESS_CREATION_EXECUTEABLE = ''exe''"
definition AUDIT_PROCESS_CREATION_EXECUTEABLE_HASH :: string where "AUDIT_PROCESS_CREATION_EXECUTEABLE_HASH = ''hash''"
definition AUDIT_PROCESS_CREATION_EXECUTEABLE_PATH :: string where "AUDIT_PROCESS_CREATION_EXECUTEABLE_PATH = ''file''"
definition AUDIT_PROCESS_CREATION_USER_ID :: string where "AUDIT_PROCESS_CREATION_USER_ID = ''uid''"
definition AUDIT_PROCESS_CREATION_PROCESS_ID :: string where "AUDIT_PROCESS_CREATION_PROCESS_ID = ''pid''"
definition AUDIT_PROCESS_CREATION_PARENT_PROCESS_ID :: string where "AUDIT_PROCESS_CREATION_PARENT_PROCESS_ID = ''ppid''"
definition AUDIT_EXECVE_RECORD_TYPE :: int where "AUDIT_EXECVE_RECORD_TYPE = 1309"
definition AUDIT_ARGC :: string where "AUDIT_ARGC = ''argc''"
definition AUDIT_MAX_PARAM_LEN :: nat where "AUDIT_MAX_PARAM_LEN = 10"
definition PROCESS_CREATION_NAME :: string where "PROCESS_CREATION_NAME = ''ProcessCreate''"
definition PROCESS_CREATION_PAYLOAD_SCHEMA_VERSION :: string where "PROCESS_CREATION_PAYLOAD_SCHEMA_VERSION = ''1.0''"
definition PROCESS_CREATION_EXECUTABLE_KEY :: string where "PROCESS_CREATION_EXECUTABLE_KEY = ''Executable''"
definition PROCESS_CREATION_EXECUTABLE_HASH_KEY :: string where "PROCESS_CREATION_EXECUTABLE_HASH_KEY = ''Hash''"
definition PROCESS_CREATION_PROCESS_ID_KEY :: string where "PROCESS_CREATION_PROCESS_ID_KEY = ''ProcessId''"
definition PROCESS_CREATION_PARENT_PROCESS_ID_KEY :: string where "PROCESS_CREATION_PARENT_PROCESS_ID_KEY = ''ParentProcessId''"
definition PROCESS_CREATION_USER_ID_KEY :: string where "PROCESS_CREATION_USER_ID_KEY = ''UserId''"
definition PROCESS_CREATION_COMMAND_LINE_KEY :: string where "PROCESS_CREATION_COMMAND_LINE_KEY = ''CommandLine''"

section \<open>The command line\<close>

text \<open>The name of an argument, cut to the buffer it is printed into.\<close>

definition argument_name :: "nat \<Rightarrow> string" where
  "argument_name i = take (AUDIT_MAX_PARAM_LEN - 1) (CHR ''a'' # int_to_dec (sint (of_nat i :: u32)))"

text \<open>Arguments \<open>i\<close> and following, \<open>n\<close> of them, into what is left of the buffer.\<close>

fun arguments_while ::
  "('e, 'f) auparse \<Rightarrow> ('e, 'f) AuditSearch \<Rightarrow> nat \<Rightarrow> nat \<Rightarrow> cursor \<Rightarrow> cursor option \<times> ('e, 'f) AuditSearch" where
  "arguments_while A s i 0 command = (Some command, s)"
| "arguments_while A s i (Suc n) command =
     (case AuditSearchRecord_InterpretString A s (argument_name i) of
        ((AUDIT_SEARCH_OK, Some currentArg), s1) \<Rightarrow>
          (let (fits, command1) = Utils_ConcatenateToString command ((if i > 0 then '' '' else []) @ currentArg)
           in if \<not> fits then (None, s1) else arguments_while A s1 (Suc i) n command1)
      | (_, s1) \<Rightarrow> (None, s1))"

text \<open>
  The loop compares with \<open>argc\<close> as an unsigned number.  Without any argument the buffer is written as the memory
  was found.
\<close>

definition ProcessCreationCollector_ReadCommandLine ::
  "('v, 'o, 'r, 'h) parson_doc \<Rightarrow> ('e, 'f) auparse \<Rightarrow> ('v, 'o) JsonObjectWriter \<Rightarrow>
    ('e, 'f) AuditSearch \<times> ('h, 'a) docs_env_scheme \<Rightarrow> EventCollectorResult \<times> (('e, 'f) AuditSearch \<times> ('h, 'a) docs_env_scheme)" where
  "ProcessCreationCollector_ReadCommandLine D A processEventPayload = (\<lambda>(s, w).
     let ((found, s1), w1) = AuditSearchRecord_Goto A s AUDIT_EXECVE_RECORD_TYPE w in
     if found \<noteq> AUDIT_SEARCH_OK then (EVENT_COLLECTOR_EXCEPTION, (s1, w1))
     else case AuditSearchRecord_MaxRecordLength A s1 of
       (AUDIT_SEARCH_OK, Some maxLen) \<Rightarrow>
         (let (ok, w2) = sys_malloc w1; (memory, w3) = sys_text w2 in
          if \<not> ok then (EVENT_COLLECTOR_EXCEPTION, (s1, w2))
          else case AuditSearchRecord_ReadInt A s1 AUDIT_ARGC of
            ((AUDIT_SEARCH_OK, Some argCount), s2) \<Rightarrow>
              (let n = unat (of_int argCount :: u32) in
               case arguments_while A s2 0 n \<lparr>written = [], room = maxLen, spill = []\<rparr> of
                 (Some command, s3) \<Rightarrow>
                   beside_search (json_step (JsonObjectWriter_WriteString D processEventPayload PROCESS_CREATION_COMMAND_LINE_KEY
                     (if n = 0 then memory else written command))) (s3, w3)
               | (None, s3) \<Rightarrow> (EVENT_COLLECTOR_EXCEPTION, (s3, w3)))
          | (_, s2) \<Rightarrow> (EVENT_COLLECTOR_EXCEPTION, (s2, w3)))
     | _ \<Rightarrow> (EVENT_COLLECTOR_EXCEPTION, (s1, w1)))"

section \<open>The hashes of executables\<close>

text \<open>
  Of the hash the prefix \<open>sha1:\<close> with its quotation mark and the closing quotation mark are cut off.  What the map
  answers is not looked at.
\<close>

definition ProcessCreationCollector_AddEntryToExecutableHashMap ::
  "('e, 'f) auparse \<Rightarrow> 'm sdk_map \<Rightarrow> ('e, 'f) AuditSearch \<Rightarrow> 'm option \<Rightarrow> 'a env_scheme \<Rightarrow>
    ((EventCollectorResult \<times> 'm option) \<times> ('e, 'f) AuditSearch) \<times> 'a env_scheme" where
  "ProcessCreationCollector_AddEntryToExecutableHashMap A M s executableHashMap w =
     (case AuditSearch_InterpretString A s AUDIT_PROCESS_CREATION_EXECUTEABLE_HASH w of
        (((AUDIT_SEARCH_OK, Some hash), s1), w1) \<Rightarrow>
          (case Utils_Substring (Some hash) 6 1 w1 of
             (None, w2) \<Rightarrow> (((EVENT_COLLECTOR_EXCEPTION, executableHashMap), s1), w2)
           | (Some Hash, w2) \<Rightarrow>
               (let (((result, executable), s2), w3) = AuditSearch_InterpretString A s1 AUDIT_PROCESS_CREATION_EXECUTEABLE_PATH w2 in
                if result \<noteq> AUDIT_SEARCH_OK \<and> result \<noteq> AUDIT_SEARCH_FIELD_DOES_NOT_EXIST
                then (((EVENT_COLLECTOR_EXCEPTION, executableHashMap), s2), w3)
                else let ((_, h), w4) = Map_AddOrUpdate M executableHashMap executable Hash w3
                  in (((EVENT_COLLECTOR_OK, h), s2), w4)))
      | (((result, _), s1), w1) \<Rightarrow>
          (((if result \<noteq> AUDIT_SEARCH_OK \<and> result \<noteq> AUDIT_SEARCH_FIELD_DOES_NOT_EXIST then EVENT_COLLECTOR_EXCEPTION
             else EVENT_COLLECTOR_OK, executableHashMap), s1), w1))"

text \<open>All the events with hashes since the audit log begins; a search that fails later on ends the loop like the end of the log.\<close>

function integrity_while ::
  "('e, 'f) auparse \<Rightarrow> 'm sdk_map \<Rightarrow> AuditSearchResultValues \<Rightarrow> ('e, 'f) AuditSearch \<Rightarrow> 'm option \<Rightarrow> 'a env_scheme \<Rightarrow>
    (EventCollectorResult \<times> 'm option) \<times> 'a env_scheme" where
  "integrity_while A M hasNextResult s executableHashMap w =
     (if hasNextResult = AUDIT_SEARCH_HAS_MORE_DATA
      then let (((result, h), _), w1) = ProcessCreationCollector_AddEntryToExecutableHashMap A M s executableHashMap w in
        if result \<noteq> EVENT_COLLECTOR_OK then ((result, h), w1)
        else let ((hasNextResult1, s1), w2) = AuditSearch_GetNext A s w1 in integrity_while A M hasNextResult1 s1 h w2
      else ((EVENT_COLLECTOR_OK, executableHashMap), w))"
  by pat_completeness auto

termination
  by (relation "measure (\<lambda>(A, M, r, s, h, w). searches_left r s)") (auto dest: GetNext_fewer [OF sym])

declare integrity_while.simps [simp del]

definition ProcessCreationCollector_PopulateExecutableHashMap ::
  "('e, 'f) auparse \<Rightarrow> 'm sdk_map \<Rightarrow> ('h, 'a) linux_env_scheme \<Rightarrow> (EventCollectorResult \<times> 'm option) \<times> ('h, 'a) linux_env_scheme" where
  "ProcessCreationCollector_PopulateExecutableHashMap A M w =
     (let (executableHashMap, w1) = Map_Create M w in
      if executableHashMap = None then ((EVENT_COLLECTOR_EXCEPTION, None), w1)
      else case AuditSearch_Init A AUDIT_SEARCH_CRITERIA_TYPE AUDIT_PROCESS_INTEGRITY_TYPE None w1 of
        ((AUDIT_SEARCH_OK, Some s), w2) \<Rightarrow>
          (let ((hasNextResult, s1), w3) = AuditSearch_GetNext A s w2;
               (x, w4) = integrity_while A M hasNextResult s1 executableHashMap w3
           in (x, AuditSearch_Deinit s w4))
      | (_, w2) \<Rightarrow> ((EVENT_COLLECTOR_EXCEPTION, executableHashMap), w2))"

section \<open>The payload\<close>

definition process_steps ::
  "('v, 'o, 'r, 'h) parson_doc \<Rightarrow> ('e, 'f) auparse \<Rightarrow> ('v, 'o) JsonObjectWriter \<Rightarrow> string \<Rightarrow>
    (('e, 'f) AuditSearch \<times> ('h, 'a) docs_env_scheme \<Rightarrow> EventCollectorResult \<times> (('e, 'f) AuditSearch \<times> ('h, 'a) docs_env_scheme)) list" where
  "process_steps D A payload executable =
     [beside_search (json_step (JsonObjectWriter_WriteString D payload PROCESS_CREATION_EXECUTABLE_KEY executable)),
      ProcessCreationCollector_ReadCommandLine D A payload,
      GenericAuditEvent_HandleStringValue D A payload AUDIT_PROCESS_CREATION_USER_ID PROCESS_CREATION_USER_ID_KEY False,
      GenericAuditEvent_HandleIntValue D A payload AUDIT_PROCESS_CREATION_PROCESS_ID PROCESS_CREATION_PROCESS_ID_KEY False,
      GenericAuditEvent_HandleIntValue D A payload AUDIT_PROCESS_CREATION_PARENT_PROCESS_ID PROCESS_CREATION_PARENT_PROCESS_ID_KEY False]"

text \<open>The object with the hash, which the payload gets.\<close>

definition add_hash ::
  "('v, 'o, 'r, 'h) parson_doc \<Rightarrow> ('v, 'o) JsonObjectWriter \<Rightarrow> string \<Rightarrow> ('h, 'a) docs_env_scheme \<Rightarrow>
    EventCollectorResult \<times> ('h, 'a) docs_env_scheme" where
  "add_hash D payload hash =
     with_object D EVENT_COLLECTOR_EXCEPTION
       (\<lambda>extraDetails w. let (r, w1) = event_steps [json_step (JsonObjectWriter_WriteString D extraDetails PROCESS_CREATION_EXECUTABLE_HASH_KEY hash)] w in
          if r \<noteq> EVENT_COLLECTOR_OK then ((r, extraDetails), w1)
          else let ((r2, extraDetails'), w2) = JsonObjectWriter_WriteObject D payload EXTRA_DETAILS_KEY extraDetails w1
               in ((if r2 \<noteq> JSON_WRITER_OK then EVENT_COLLECTOR_EXCEPTION else EVENT_COLLECTOR_OK, extraDetails'), w2))"

definition ProcessCreationCollector_GeneratePayload ::
  "('v, 'o, 'r, 'h) parson_doc \<Rightarrow> ('e, 'f) auparse \<Rightarrow> 'm sdk_map \<Rightarrow> ('e, 'f) AuditSearch \<Rightarrow> ('v, 'o) JsonObjectWriter \<Rightarrow> 'm option \<Rightarrow>
    ('h, 'a) docs_env_scheme \<Rightarrow> (EventCollectorResult \<times> 'm option) \<times> ('h, 'a) docs_env_scheme" where
  "ProcessCreationCollector_GeneratePayload D A M s processEventPayload executableHashMap w =
     (case AuditSearch_InterpretString A s AUDIT_PROCESS_CREATION_EXECUTEABLE w of
        (((AUDIT_SEARCH_OK, Some executable), s1), w1) \<Rightarrow>
          (let (r, (s2, w2)) = event_steps (process_steps D A processEventPayload executable) (s1, w1) in
           if r \<noteq> EVENT_COLLECTOR_OK then ((r, executableHashMap), w2)
           else
             let (((r2, h), s3), w3) = ProcessCreationCollector_AddEntryToExecutableHashMap A M s2 executableHashMap w2 in
             if r2 \<noteq> EVENT_COLLECTOR_OK then ((r2, h), w3)
             else
               let hash = (case Map_GetValueFromKey M h executable of None \<Rightarrow> [] | Some x \<Rightarrow> x);
                   (r3, w4) = add_hash D processEventPayload hash w3
               in ((r3, h), w4))
      | (_, w1) \<Rightarrow> ((EVENT_COLLECTOR_EXCEPTION, executableHashMap), w1))"

text \<open>For the aggregator the process and its parent are left out.\<close>

definition aggregable_process ::
  "('v, 'o, 'r, 'h) parson_doc \<Rightarrow> ('e, 'f) auparse \<Rightarrow> 'm sdk_map \<Rightarrow> ('e, 'f) AuditSearch \<Rightarrow> ('v, 'o) JsonObjectWriter \<Rightarrow> 'm option \<Rightarrow>
    ('h, 'a) docs_env_scheme \<Rightarrow> (EventCollectorResult \<times> 'm option) \<times> ('h, 'a) docs_env_scheme" where
  "aggregable_process D A M s payload executableHashMap w =
     (let ((r, h), w1) = ProcessCreationCollector_GeneratePayload D A M s payload executableHashMap w in
      if r \<noteq> EVENT_COLLECTOR_OK then ((r, h), w1)
      else let (r2, w2) = event_steps [json_step (JsonObjectWriter_WriteInt D payload PROCESS_CREATION_PROCESS_ID_KEY 0),
          json_step (JsonObjectWriter_WriteInt D payload PROCESS_CREATION_PARENT_PROCESS_ID_KEY 0)] w1
        in ((r2, h), w2))"

definition ProcessCreationCollector_CreateEventForAgrregation ::
  "('v, 'o, 'r, 'h) parson_doc \<Rightarrow> ('e, 'f) auparse \<Rightarrow> 'm sdk_map \<Rightarrow> ('e, 'f) AuditSearch \<Rightarrow> ('v, 'o) EventAggregator option \<times> 'm option \<Rightarrow>
    ('h, 'a) collectors_env_scheme \<Rightarrow> (EventCollectorResult \<times> ('v, 'o) EventAggregator option \<times> 'm option) \<times> ('h, 'a) collectors_env_scheme" where
  "ProcessCreationCollector_CreateEventForAgrregation D A M s = aggregate_record D (aggregable_process D A M s)"

section \<open>The events of a run\<close>

definition ProcessCreationCollector_CreateSingleEvent ::
  "('v, 'o, 'r, 'h) parson_doc \<Rightarrow> ('e, 'f) auparse \<Rightarrow> 'm sdk_map \<Rightarrow> nat \<Rightarrow> ('e, 'f) AuditSearch \<Rightarrow> SyncQueue list \<times> 'm option \<Rightarrow>
    ('h, 'a) queue_env_scheme \<Rightarrow> (EventCollectorResult \<times> SyncQueue list \<times> 'm option) \<times> ('h, 'a) queue_env_scheme" where
  "ProcessCreationCollector_CreateSingleEvent D A M queue s =
     record_event D A EVENT_COLLECTOR_RECORD_HAS_ERRORS EVENT_COLLECTOR_EXCEPTION PROCESS_CREATION_NAME PROCESS_CREATION_PAYLOAD_SCHEMA_VERSION
       (ProcessCreationCollector_GeneratePayload D A M s) queue s"

text \<open>A record with errors and a full queue do not end the run; any other error does.\<close>

definition process_run_ends :: "EventCollectorResult \<Rightarrow> bool" where
  "process_run_ends result \<longleftrightarrow>
     result \<notin> {EVENT_COLLECTOR_OK, EVENT_COLLECTOR_RECORD_HAS_ERRORS, EVENT_COLLECTOR_OUT_OF_MEM}"

definition ProcessCreationCollector_GetEvents ::
  "('v, 'o, 'r, 'h) parson_doc \<Rightarrow> ('e, 'f) auparse \<Rightarrow> 'm sdk_map \<Rightarrow> nat \<Rightarrow> SyncQueue list \<times> ('v, 'o) static_aggregator \<times> 'm option \<Rightarrow>
    ('h, 'a) linux_env_scheme \<Rightarrow>
    (EventCollectorResult \<times> SyncQueue list \<times> ('v, 'o) static_aggregator \<times> 'm option) \<times> ('h, 'a) linux_env_scheme" where
  "ProcessCreationCollector_GetEvents D A M queue x =
     with_search A AUDIT_SEARCH_CRITERIA_TYPE AUDIT_PROCESS_CREATION_TYPES AUDIT_PROCESS_CREATION_CHECKPOINT_FILE x
       (aggregated_run D A process_run_ends (ProcessCreationCollector_CreateSingleEvent D A M queue)
          (ProcessCreationCollector_CreateEventForAgrregation D A M) queue x)"

definition ProcessCreationCollector_Init ::
  "('e, 'f) auparse \<Rightarrow> 'm sdk_map \<Rightarrow> ('v, 'o) static_aggregator \<times> 'm option \<Rightarrow> ('h, 'a) linux_env_scheme \<Rightarrow>
    (EventCollectorResult \<times> ('v, 'o) static_aggregator \<times> 'm option) \<times> ('h, 'a) linux_env_scheme" where
  "ProcessCreationCollector_Init A M x =
     with_audit_rule [AUDIT_CONTROL_TYPE_EXECVE, AUDIT_CONTROL_TYPE_EXECVEAT] None x
       (\<lambda>w. let (g, w1) = init_aggregator \<lparr>cfgEventType = EVENT_TYPE_PROCESS_CREATE, cfg_event_type = Some EVENT_TYPE_SECURITY_VALUE,
                cfg_event_name = Some PROCESS_CREATION_NAME,
                cfg_payload_schema_version = Some PROCESS_CREATION_PAYLOAD_SCHEMA_VERSION\<rparr> w;
              ((r, executableHashMap), w2) = ProcessCreationCollector_PopulateExecutableHashMap A M w1
          in if r \<noteq> EVENT_COLLECTOR_OK then ((EVENT_COLLECTOR_EXCEPTION, g, executableHashMap), w2)
             else let (count, w3) = Utils_GetMapSize M executableHashMap w2
               in ((if count = None then EVENT_COLLECTOR_EXCEPTION else EVENT_COLLECTOR_OK, g, executableHashMap), w3))"

text \<open>The map is destroyed; the pointer to it stays as it was.\<close>

definition ProcessCreationCollector_Deinit ::
  "('v, 'o, 'r, 'h) parson_doc \<Rightarrow> ('v, 'o) static_aggregator \<times> 'm option \<Rightarrow> ('h, 'a) docs_env_scheme \<Rightarrow>
    (('v, 'o) static_aggregator \<times> 'm option) \<times> ('h, 'a) docs_env_scheme" where
  "ProcessCreationCollector_Deinit D = (\<lambda>(g, executableHashMap) w.
     let (g1, w1) = deinit_aggregator D g w in ((g1, executableHashMap), w1))"

section \<open>What a run may do\<close>

lemma clean_malloc: "clean roots w (snd (sys_malloc w))" "clean roots w (snd (sys_text w))"
  by (simp_all add: sys_defs sys_text_def Let_def split_beta) (simp_all add: clean_def next_tick_def doc_frame_tick)

lemma clean_command_line:
  fixes w :: "('h, 'a) docs_env_scheme"
  assumes "parson_lists D roots"
  shows "clean roots w (snd (snd (ProcessCreationCollector_ReadCommandLine D A payload (s, w))))"
proof -
  obtain r1 s1 w1 where 1: "AuditSearchRecord_Goto A s AUDIT_EXECVE_RECORD_TYPE w = ((r1, s1), w1)" by (metis prod.collapse)
  obtain ok w2 where 2: "sys_malloc w1 = (ok, w2)" by fastforce
  obtain memory w3 where 3: "sys_text w2 = (memory, w3)" by fastforce
  have c1: "clean roots w w1" using ticked_clean [OF ticked_goto(2) [of w A s AUDIT_EXECVE_RECORD_TYPE]] 1 by simp
  have c2: "clean roots w w2" using clean_trans [OF c1] clean_malloc(1) [of roots w1] 2 by simp
  have c3: "clean roots w w3" using clean_trans [OF c2] clean_malloc(2) [of roots w2] 3 by simp
  have "clean roots w (snd (snd (beside_search (json_step (JsonObjectWriter_WriteString D payload k x)) (s', w3))))" for k x s'
    by (rule clean_trans [OF c3 clean_beside_search]) (rule clean_writes(1) [OF assms])
  with c1 c2 c3 show ?thesis
    by (auto simp: ProcessCreationCollector_ReadCommandLine_def 1 2 3 Let_def split: prod.split AuditSearchResultValues.split option.split)
qed

lemma ticked_entry: "ticked w (snd (ProcessCreationCollector_AddEntryToExecutableHashMap A M s h w))"
proof -
  obtain r1 x1 s1 w1 where 1: "AuditSearch_InterpretString A s AUDIT_PROCESS_CREATION_EXECUTEABLE_HASH w = (((r1, x1), s1), w1)"
    by (metis prod.collapse)
  have t1: "ticked w w1" using ticked_reading(6) [of w A s AUDIT_PROCESS_CREATION_EXECUTEABLE_HASH] 1 by simp
  show ?thesis
  proof (cases "r1 = AUDIT_SEARCH_OK \<and> x1 \<noteq> None")
    case False
    with 1 t1 show ?thesis by (auto simp: ProcessCreationCollector_AddEntryToExecutableHashMap_def split: AuditSearchResultValues.split option.split)
  next
    case True
    then obtain hash where x1: "x1 = Some hash" by blast
    obtain y w2 where 2: "Utils_Substring (Some hash) 6 1 w1 = (y, w2)" by fastforce
    obtain r3 x3 s3 w3 where 3: "AuditSearch_InterpretString A s1 AUDIT_PROCESS_CREATION_EXECUTEABLE_PATH w2 = (((r3, x3), s3), w3)"
      by (metis prod.collapse)
    have "ticked w1 (snd (Utils_Substring (Some hash) 6 1 w1))" by (auto simp: Utils_Substring_def Let_def split_beta)
    then have "ticked w1 w2" by (simp add: 2)
    from ticked_trans [OF t1 this] have t2: "ticked w w2" .
    have "ticked w2 w3" using ticked_reading(6) [of w2 A s1 AUDIT_PROCESS_CREATION_EXECUTEABLE_PATH] 3 by simp
    from ticked_trans [OF t2 this] have t3: "ticked w w3" .
    have "ticked w3 (snd (Map_AddOrUpdate M h x3 H w3))" for H
      by (auto simp: Map_AddOrUpdate_def Let_def split_beta split: option.split)
    from ticked_trans [OF t3 this] t2 t3 show ?thesis
      by (auto simp: ProcessCreationCollector_AddEntryToExecutableHashMap_def 1 2 3 True x1 Let_def split_beta split: option.split)
  qed
qed

lemma clean_process_payload:
  fixes w :: "('h, 'a) docs_env_scheme" and A :: "('e, 'f) auparse"
  assumes D: "parson_lists D roots"
  shows "clean roots w (snd (ProcessCreationCollector_GeneratePayload D A M s payload h w))"
    "clean roots w (snd (aggregable_process D A M s payload h w))"
proof -
  have payload: "clean roots w (snd (ProcessCreationCollector_GeneratePayload D A M s payload h w))" for w :: "('h, 'a) docs_env_scheme"
  proof -
    obtain r1 x1 s1 w1 where 1: "AuditSearch_InterpretString A s AUDIT_PROCESS_CREATION_EXECUTEABLE w = (((r1, x1), s1), w1)"
      by (metis prod.collapse)
    have c1: "clean roots w w1"
      using ticked_clean [OF ticked_reading(6) [of w A s AUDIT_PROCESS_CREATION_EXECUTEABLE]] 1 by simp
    show ?thesis
    proof (cases "r1 = AUDIT_SEARCH_OK \<and> x1 \<noteq> None")
      case False
      with 1 c1 show ?thesis
        by (auto simp: ProcessCreationCollector_GeneratePayload_def split: AuditSearchResultValues.split option.split)
    next
      case True
      then obtain e where x1: "x1 = Some e" by blast
      obtain r2 s2 w2 where 2: "event_steps (process_steps D A payload e) (s1, w1) = (r2, (s2, w2))" by (metis prod.collapse)
      have "clean roots w1 (snd (snd (event_steps (process_steps D A payload e) (s1, w1))))"
      proof (rule clean_pair_steps)
        fix f :: "('e, 'f) AuditSearch \<times> ('h, 'a) docs_env_scheme \<Rightarrow> EventCollectorResult \<times> (('e, 'f) AuditSearch \<times> ('h, 'a) docs_env_scheme)"
          and s and w :: "('h, 'a) docs_env_scheme"
        assume "f \<in> set (process_steps D A payload e)"
        with clean_handles [OF D] clean_writes(1) [OF D] clean_command_line [OF D] show "clean roots w (snd (snd (f (s, w))))"
          by (auto simp: process_steps_def intro!: clean_beside_search)
      qed
      with 2 have c2: "clean roots w w2" using clean_trans [OF c1] by simp
      obtain r3 h3 s3 w3 where 3: "ProcessCreationCollector_AddEntryToExecutableHashMap A M s2 h w2 = (((r3, h3), s3), w3)"
        by (metis prod.collapse)
      have c3: "clean roots w w3" using clean_trans [OF c2 ticked_clean [OF ticked_entry [of w2 A M s2 h]]] 3 by simp
      have "clean roots w3 (snd (add_hash D payload hash w3))" for hash
        unfolding add_hash_def by (rule clean_given_object [OF D]) (use clean_writes(1) [OF D] in auto)
      with c2 c3 clean_trans [OF c3] show ?thesis
        by (auto simp: ProcessCreationCollector_GeneratePayload_def 1 2 3 True x1 Let_def split_beta)
    qed
  qed
  show "clean roots w (snd (ProcessCreationCollector_GeneratePayload D A M s payload h w))" by (rule payload)
  have "clean roots v (snd (event_steps [json_step (JsonObjectWriter_WriteInt D payload PROCESS_CREATION_PROCESS_ID_KEY 0),
          json_step (JsonObjectWriter_WriteInt D payload PROCESS_CREATION_PARENT_PROCESS_ID_KEY 0)] v))" for v :: "('h, 'a) docs_env_scheme"
    by (rule clean_steps) (use clean_writes(2) [OF D] in auto)
  from clean_trans [OF payload this] payload show "clean roots w (snd (aggregable_process D A M s payload h w))"
    by (auto simp: aggregable_process_def Let_def split_beta)
qed

lemma process_handlers:
  assumes D: "parson_lists D roots" "texts_within D L" "parson_contents D roots content"
  shows "adds_one_text roots L i (ProcessCreationCollector_CreateSingleEvent D A M i :: _ \<Rightarrow> _ \<Rightarrow> ('h, 'a) queue_env_scheme \<Rightarrow> _)"
    "hands_over roots (ProcessCreationCollector_CreateEventForAgrregation D A M :: _ \<Rightarrow> _ \<Rightarrow> ('h, 'a) queue_env_scheme \<Rightarrow> _)"
proof -
  show "adds_one_text roots L i (ProcessCreationCollector_CreateSingleEvent D A M i :: _ \<Rightarrow> _ \<Rightarrow> ('h, 'a) queue_env_scheme \<Rightarrow> _)"
    unfolding ProcessCreationCollector_CreateSingleEvent_def
    by (rule record_adds_one_text [OF D(1,2)]) (rule clean_aside [OF clean_process_payload(1) [OF D(1)]])
  show "hands_over roots (ProcessCreationCollector_CreateEventForAgrregation D A M :: _ \<Rightarrow> _ \<Rightarrow> ('h, 'a) queue_env_scheme \<Rightarrow> _)"
    unfolding ProcessCreationCollector_CreateEventForAgrregation_def
    by (rule record_hands_over [OF D(1,3)]) (rule clean_aside [OF clean_process_payload(2) [OF D(1)]])
qed

text \<open>
  C19: A run over the processes adds at most one text for each event of the log and each item the aggregator held, at
  the end of its queue; the aggregator still owns the documents of its items, and every other document made on
  the way, the extra details of each payload among them, is released, on every path.
\<close>

theorem processes_are_collected:
  fixes w :: "('h, 'a) linux_env_scheme"
  assumes "parson_lists D roots" and "parson_contents D roots content" and "texts_within D L" and "log_bounded A N"
    and "booked_bytes w + (N + length (held_items (aggregatorHandle g))) * (L + 40) < 4294967296"
    and "sync_queues_ok sqs w" and "i < length sqs"
    and "aggregatorInitialized g \<longrightarrow> aggregatorHandle g \<noteq> None" and "items_owned roots (held_items (aggregatorHandle g)) w"
    and "ProcessCreationCollector_GetEvents D A M i (sqs, g, h) w = ((r, sqs', g', h'), w')"
  shows "aggregating roots L i sqs g w N sqs' g' w'"
  by (rule aggregated_search_keeps [OF assms(1,3,4) process_handlers [OF assms(1,3,2)] assms(5,7,6,8,9)
        assms(10) [unfolded ProcessCreationCollector_GetEvents_def]])

definition one_process :: "sample_event list" where
  "one_process = [(7, ''EXECVE'', [(''exe'', ''/bin/ls''), (''argc'', ''2''), (''a0'', ''ls''), (''a1'', ''-l''), (''uid'', ''0''),
     (''pid'', ''42''), (''ppid'', ''1'')])]"

text \<open>The sample log with the record of the arguments.\<close>

definition execve_audit :: "sample_event list \<Rightarrow> (sample_event, nat) auparse" where
  "execve_audit log = (sample_audit log)\<lparr>event_records := (\<lambda>_. [(1309, Some (replicate 40 (CHR ''x'')))])\<rparr>"

lemma processes_are_collected_witness:
  "\<exists>r sqs' g' h' w'. ProcessCreationCollector_GetEvents plain_doc (execve_audit one_process) sample_map 1
       ([new_sync 0, new_sync 1], ready_aggregator, Some []) (calm_linux_with calm_store) = ((r, sqs', g', h'), w')
     \<and> aggregating text_roots 2 1 [new_sync 0, new_sync 1] ready_aggregator (calm_linux_with calm_store) 1 sqs' g' w'"
proof -
  obtain r sqs' g' h' w' where run: "ProcessCreationCollector_GetEvents plain_doc (execve_audit one_process) sample_map 1
       ([new_sync 0, new_sync 1], ready_aggregator, Some []) (calm_linux_with calm_store) = ((r, sqs', g', h'), w')"
    by (metis prod.collapse)
  have "log_bounded (execve_audit one_process) 1" by (simp add: log_bounded_def execve_audit_def sample_audit_def one_process_def)
  from processes_are_collected [OF plain_doc_laws(1,3,2) this _ calm_linux_queues(1) _ _ ready_aggregator_owns run] run
  show ?thesis by (auto simp: ready_aggregator_def empty_aggregator_def)
qed

section \<open>The command line is the arguments\<close>

fun spaced :: "string list \<Rightarrow> string" where
  "spaced [] = []"
| "spaced (a # rest) = a @ concat (map ((#) (CHR '' '')) rest)"

text \<open>The arguments are found one after the other; \<open>P i\<close> is where the search stands before argument \<open>i\<close>.\<close>

definition arguments_found :: "('e, 'f) auparse \<Rightarrow> (nat \<Rightarrow> ('e, 'f) AuditSearch \<Rightarrow> bool) \<Rightarrow> string list \<Rightarrow> bool" where
  "arguments_found A P args \<longleftrightarrow>
     (\<forall>i < length args. \<forall>s. P i s \<longrightarrow> (\<exists>s'. AuditSearchRecord_InterpretString A s (argument_name i) = ((AUDIT_SEARCH_OK, Some (args ! i)), s')
        \<and> P (Suc i) s'))"

lemma later_arguments:
  assumes found: "arguments_found A P args" and short: "\<forall>a \<in> set args. length a < 4294967295"
    and "P i s" and "0 < i" and "i + n = length args"
  shows "map_option written (fst (arguments_while A s i n c))
    = (if n = 0 \<or> length (concat (map ((#) (CHR '' '')) (drop i args))) < unat (room c)
       then Some (written c @ concat (map ((#) (CHR '' '')) (drop i args))) else None)"
  using assms(3-)
proof (induction n arbitrary: i s c)
  case (Suc n)
  let ?a = "args ! i" and ?t = "\<lambda>i. concat (map ((#) (CHR '' '')) (drop i args))"
  have i: "i < length args" using Suc.prems(3) by simp
  then have parts: "?t i = (CHR '' '' # ?a) @ ?t (Suc i)" by (simp add: Cons_nth_drop_Suc [symmetric])
  obtain s' where s': "AuditSearchRecord_InterpretString A s (argument_name i) = ((AUDIT_SEARCH_OK, Some ?a), s')" "P (Suc i) s'"
    using found i Suc.prems(1) unfolding arguments_found_def by blast
  have len: "unat (of_nat (length (CHR '' '' # ?a)) :: u32) = Suc (length ?a)"
    using short i by (simp add: unat_of_nat_u32 del: of_nat_Suc)
  show ?case
  proof (cases "room c \<le> of_nat (length (CHR '' '' # ?a))")
    case True
    then have "unat (room c) \<le> Suc (length ?a)" using len by (simp add: word_le_nat_alt del: of_nat_Suc)
    with True s' Suc.prems(2) show ?thesis by (simp add: Utils_ConcatenateToString_def parts del: of_nat_Suc)
  next
    case False
    let ?c = "\<lparr>written = written c @ CHR '' '' # ?a, room = room c - of_nat (length (CHR '' '' # ?a)), spill = []\<rparr>"
    have lt: "Suc (length ?a) < unat (room c)" using False len by (simp add: word_le_nat_alt del: of_nat_Suc)
    have room: "unat (room ?c) = unat (room c) - Suc (length ?a)"
      using lt len unat_sub_u32 [of "of_nat (length (CHR '' '' # ?a))" "room c"] by (simp add: word_le_nat_alt del: of_nat_Suc)
    have "map_option written (fst (arguments_while A s i (Suc n) c)) = map_option written (fst (arguments_while A s' (Suc i) n ?c))"
      using s' Suc.prems(2) False by (simp add: Utils_ConcatenateToString_def del: of_nat_Suc)
    also have "\<dots> = (if n = 0 \<or> length (?t (Suc i)) < unat (room ?c) then Some (written ?c @ ?t (Suc i)) else None)"
      by (rule Suc.IH [OF s'(2)]) (use Suc.prems in simp_all)
    also have "\<dots> = (if length (?t i) < unat (room c) then Some (written c @ ?t i) else None)"
      using lt Suc.prems(3) unfolding room parts by (cases "n = 0") (simp_all, linarith)
    finally show ?thesis by simp
  qed
qed simp

lemma all_arguments:
  assumes found: "arguments_found A P args" and short: "\<forall>a \<in> set args. length a < 4294967295" and s: "P 0 s" and args: "args \<noteq> []"
  shows "map_option written (fst (arguments_while A s 0 (length args) \<lparr>written = [], room = m, spill = []\<rparr>))
    = (if length (spaced args) < unat m then Some (spaced args) else None)"
proof -
  obtain a rest where a: "args = a # rest" using args by (cases args) auto
  obtain s' where s': "AuditSearchRecord_InterpretString A s (argument_name 0) = ((AUDIT_SEARCH_OK, Some a), s')" "P (Suc 0) s'"
    using found s unfolding arguments_found_def a by force
  have len: "unat (of_nat (length a) :: u32) = length a" using short a by (simp add: unat_of_nat_u32)
  show ?thesis
  proof (cases "m \<le> of_nat (length a)")
    case True
    then have "unat m \<le> length a" using len by (simp add: word_le_nat_alt)
    with True s' show ?thesis by (simp add: a Utils_ConcatenateToString_def)
  next
    case False
    let ?c = "\<lparr>written = a, room = m - of_nat (length a), spill = []\<rparr>" and ?t = "concat (map ((#) (CHR '' '')) (drop (Suc 0) args))"
    have lt: "length a < unat m" using False len by (simp add: word_le_nat_alt)
    have room: "unat (room ?c) = unat m - length a"
      using lt len unat_sub_u32 [of "of_nat (length a)" m] by (simp add: word_le_nat_alt)
    have "map_option written (fst (arguments_while A s 0 (length args) \<lparr>written = [], room = m, spill = []\<rparr>))
        = map_option written (fst (arguments_while A s' (Suc 0) (length rest) ?c))"
      using s' False by (simp add: a Utils_ConcatenateToString_def)
    also have "\<dots> = (if length rest = 0 \<or> length ?t < unat (room ?c) then Some (written ?c @ ?t) else None)"
      by (rule later_arguments [OF found short s'(2)]) (simp_all add: a)
    also have "\<dots> = (if length (spaced args) < unat m then Some (spaced args) else None)"
      using lt unfolding room a by (cases "rest = []") (simp_all, linarith)
    finally show ?thesis .
  qed
qed


definition at_process :: "nat \<Rightarrow> (sample_event, nat) AuditSearch" where
  "at_process n = \<lparr>audit = \<lparr>searchRules = [], ahead = one_process, recordNumber = 0, fieldPosition = n\<rparr>, checkpointFile = None,
     searchTime = 0, firstSearch = False, processInfo = \<lparr>savedUid = 0, wasSet = False\<rparr>\<rparr>"


end
