(* ===== verification/Spec2Isabelle.thy ===== *)
theory Spec2Isabelle
  imports Event_Monitor_Task Event_Aggregator Scheduler_Thread Security_Agent Firewall_Collector Local_Users_Collector
    System_Information_Collector Baseline_Collector User_Login_Collector Connection_Create_Collector Process_Creation_Collector
begin

text \<open>
  Verification of the Azure IoT security agent for C (the implementation under \<^verbatim>\<open>src/agent/\<close>).

  \<^bold>\<open>The program.\<close>  The agent watches a device and reports security events to an IoT hub.  Collectors turn what
  they see into JSON documents and push the serialised texts into one of three queues (high priority, low
  priority, operational).  Three scheduler threads run: the monitor task, which calls the collectors at the
  priority and frequency the configuration asks for; the publisher task, which packs the queued events into messages of
  bounded size and hands them to the hub adapter; and the twin task, which takes the configuration updates the
  hub's twin callback queued and installs them in the global twin configuration.  A memory monitor bounds
  the bytes the queues may hold, and counters report what was collected, dropped and sent.  Every shared
  object has a lock; every call outside the agent may fail.

  \<^bold>\<open>The model.\<close>  Each C function is an Isabelle function of the same name that threads an explicit environment
  (\<open>Prelude\<close>): oracles for locks, allocations, the clock and the libraries, a counter that gives each call its own
  answer, and the components' own static data as record extensions (\<open>docs_env\<close>, \<open>log_env\<close>, \<open>counter_env\<close>,
  \<open>queue_env\<close>, \<open>hub_env\<close> and so on, in the order in which the components need one another).  The flag \<open>fault\<close> is
  raised by an access the C program must not make.  Theorems hold for all oracles, so for every pattern of failures.
  Integers of the code are words where they can wrap; heap objects whose sharing matters (queue items, queued twin
  updates, diagnostic events, JSON documents) live in stores by address; the parson library is a record of
  operations over an abstract store, with its documented ownership rules as named hypotheses
  (\<open>parson_ownership\<close>, \<open>parson_arrays\<close>) that \<open>Sample_Documents\<close> shows satisfiable by a concrete store.

  \<^bold>\<open>The theories.\<close>
  \<^item> \<open>Prelude\<close>, \<open>C_Lib\<close>, \<open>Agent_Utils\<close>, \<open>File_Utils\<close>, \<open>Time_Utils\<close>, \<open>Calendar_Time\<close>, \<open>Agent_Errors\<close>: the environment, the parts
    of the C library the agent uses, \<^verbatim>\<open>utils.c\<close>, \<^verbatim>\<open>file_utils.c\<close>, \<^verbatim>\<open>time_utils.c\<close> and \<^verbatim>\<open>agent_errors.c\<close>.  Printing and parsing
    of ISO 8601 durations are inverse on whole seconds and never wrap.
  \<^item> \<open>Json_Reader\<close>, \<open>Json_Writer\<close>, \<open>Sample_Documents\<close>: the JSON wrappers of \<^verbatim>\<open>src/json\<close>.
  \<^item> \<open>Certificate_Manager\<close>, \<open>Authentication_Manager\<close>, \<open>Local_Config\<close>: credentials and the local configuration file.
  \<^item> \<open>Twin_Utils\<close>, \<open>Event_Collectors_Config\<close>, \<open>Twin_Configuration\<close>, \<open>Twin_Serialization\<close>: the configuration the hub sends;
    an update installs exactly the twin's values or, when refused for its content, changes nothing (up to one
    priority), and what is installed can always be printed.
  \<^item> \<open>Telemetry_Counters\<close>, \<open>Memory_Monitor\<close>: \<^verbatim>\<open>agent_telemetry_counters.c\<close> and the memory monitor; the booked bytes are exact.
  \<^item> \<open>Queue\<close>, \<open>Sync_Queue\<close>, \<open>Fifo_Contract\<close>: the linked queue over an explicit store and its locked wrapper.  The list of an
    address chain is the abstraction; the locale of the contract is interpreted on both.
  \<^item> \<open>Message_Serializer\<close>, \<open>Event_Publisher_Task\<close>: messages keep the order of the events and account for each of them.
  \<^item> \<open>IoTHub_Adapter\<close>, \<open>Update_Twin_Task\<close>: the hub connection and the life of a configuration update by its address.
  \<^item> \<open>Scheduler_Thread\<close>: the thread loop as interleaved steps of the agent and the worker; the reachable states and
    what a stop guarantees.
  \<^item> \<open>Generic_Event\<close>: what all collectors share; \<open>collect_event_with\<close> is the life of an event's document, and
    \<open>collect_event_with_gained\<close> the one proof that it is released on every path and reaches the queue at most once.
  \<^item> \<open>Agent_Telemetry_Collector\<close>, \<open>Configuration_Error_Collector\<close>, \<open>Diagnostic_Collector\<close>: the three operational collectors and
    the logger with its diagnostic events.
  \<^item> \<open>Event_Aggregator\<close>: the aggregation of equal payloads, refined by the multiset of the payloads seen.
  \<^item> \<open>Event_Monitor_Task\<close>: the monitor over the collectors as functions with the contract \<open>event_collector\<close>, a locale
    interpreted on the collectors of the model.
  \<^item> \<open>Security_Agent\<close>: the order in which the parts are brought up and taken down, on every path of a failing start.

  \<^bold>\<open>Bounds.\<close>  Loops over data are structural or have a measure; two loops of the code may run for ever and are
  modelled with fuel: \<open>connect_while\<close> (polls of the connection state) is given \<open>connect_fuel\<close>, more than the
  timeout allows, and the theorems on connecting say when that is enough and when it is not; the scheduler's worker loop
  is a step relation.  Sizes are 32 bit words; the hypotheses on \<open>booked_bytes\<close> keep the sums below wrapping,
  and the theorem \<open>memory_budget_wraps\<close> shows what happens without them.

  \<^bold>\<open>Not modelled.\<close>  The text of log messages inside the components (the logger itself is modelled); the SDK, parson,
  OpenSSL, libaudit and the network behind their interfaces; the remaining collectors of \<^verbatim>\<open>collectors/linux\<close> and
  the system wrappers only they use (audit records, iptables, users, groups, ports, processes), which the monitor
  takes as functions with the contract of a collector; hex decoding, allocating formatting and map sizes
  of \<^verbatim>\<open>utils.c\<close>.
\<close>

end
